(* ===== verification/Prelude.thy ===== *)
theory Prelude
  imports Complex_Main
begin

text \<open>
  Shared vocabulary of the development.

  \<^item> A request handler of the API either answers or raises an \<open>HTTPException\<close>. A raised
    exception is the value \<open>Inl (HttpError status reason)\<close>: the status is the code's, the
    reason is a short slug for the refusal (the wording of the \<open>detail\<close> text is not modelled).
    Since a request's transaction is rolled back when it raises, a handler's state is returned
    only with a successful answer.
  \<^item> \<open>bindE\<close> sequences fallible steps in the code's order, \<open>ensure\<close> is an \<open>if not ...: raise\<close>,
    \<open>mapE\<close> and \<open>foldE\<close> are the loops that stop at the first exception.
  \<^item> Tables are lists of rows; \<open>find_row\<close> and \<open>update_rows\<close> are \<open>SELECT ... LIMIT 1\<close> and
    \<open>UPDATE ... WHERE\<close>.
\<close>

type_synonym uuid = string
type_synonym timestamp = int

datatype http_error = HttpError (http_status: nat) (http_reason: string)

type_synonym 'a result = "http_error + 'a"

named_theorems result_simps \<open>inversion of the fallible sequencing operators\<close>
named_theorems store_simps \<open>what a table holds after an update\<close>

subsection \<open>Sequencing of fallible steps\<close>

fun bindE :: "'a result \<Rightarrow> ('a \<Rightarrow> 'b result) \<Rightarrow> 'b result" where
  "bindE (Inl e) f = Inl e"
| "bindE (Inr x) f = f x"

definition ensure :: "bool \<Rightarrow> nat \<Rightarrow> string \<Rightarrow> unit result" where
  "ensure b st why = (if b then Inr () else Inl (HttpError st why))"

lemma bindE_Inr_iff [result_simps]: "bindE m f = Inr y \<longleftrightarrow> (\<exists>x. m = Inr x \<and> f x = Inr y)"
  by (cases m) auto

lemma Ex_unit: "(\<exists>u :: unit. P u) \<longleftrightarrow> P ()"
  by auto

lemma bindE_Inl_iff: "bindE m f = Inl e \<longleftrightarrow> m = Inl e \<or> (\<exists>x. m = Inr x \<and> f x = Inl e)"
  by (cases m) auto

lemma ensure_Inr_iff [result_simps]: "ensure b st why = Inr u \<longleftrightarrow> b"
  by (auto simp: ensure_def)

lemma ensure_Inl_iff: "ensure b st why = Inl e \<longleftrightarrow> \<not> b \<and> e = HttpError st why"
  by (auto simp: ensure_def)

lemma ensure_True [simp]: "ensure True st why = Inr ()"
  by (simp add: ensure_def)

lemma ensure_False [simp]: "ensure False st why = Inl (HttpError st why)"
  by (simp add: ensure_def)

lemma bindE_ensure: "bindE (ensure b st why) f = (if b then f () else Inl (HttpError st why))"
  by simp

lemma bindE_cong [fundef_cong]:
  "m = m' \<Longrightarrow> (\<And>x. m' = Inr x \<Longrightarrow> f x = f' x) \<Longrightarrow> bindE m f = bindE m' f'"
  by (cases m') auto

text \<open>For evaluating a handler on a concrete input: the rest of a handler is not simplified before the
  step it waits for has a value.\<close>

lemma bindE_weak_cong: "m = m' \<Longrightarrow> bindE m f = bindE m' f"
  by simp

lemma bindE_assoc: "bindE (bindE m f) g = bindE m (\<lambda>x. bindE (f x) g)"
  by (cases m) auto

fun is_ok :: "'a result \<Rightarrow> bool" where
  "is_ok (Inl _) = False"
| "is_ok (Inr _) = True"

lemma is_ok_iff: "is_ok r \<longleftrightarrow> (\<exists>x. r = Inr x)"
  by (cases r) auto

lemma is_ok_projr: "is_ok r \<Longrightarrow> r = Inr (projr r)"
  by (cases r) auto

subsection \<open>Loops that stop at the first exception\<close>

fun foldE :: "('s \<Rightarrow> 'a \<Rightarrow> 's result) \<Rightarrow> 's \<Rightarrow> 'a list \<Rightarrow> 's result" where
  "foldE f s [] = Inr s"
| "foldE f s (x # xs) = bindE (f s x) (\<lambda>s'. foldE f s' xs)"

fun mapE :: "('a \<Rightarrow> 'b result) \<Rightarrow> 'a list \<Rightarrow> 'b list result" where
  "mapE f [] = Inr []"
| "mapE f (x # xs) = bindE (f x) (\<lambda>y. bindE (mapE f xs) (\<lambda>ys. Inr (y # ys)))"

definition each :: "('a \<Rightarrow> unit result) \<Rightarrow> 'a list \<Rightarrow> unit result" where
  "each f xs = foldE (\<lambda>_ x. f x) () xs"

lemma foldE_invariant:
  assumes "foldE f s xs = Inr t" and "P s"
    and "\<And>s x s'. x \<in> set xs \<Longrightarrow> P s \<Longrightarrow> f s x = Inr s' \<Longrightarrow> P s'"
  shows "P t"
  using assms by (induction xs arbitrary: s) (auto simp: result_simps)

lemma foldE_append: "foldE f s (xs @ ys) = bindE (foldE f s xs) (\<lambda>t. foldE f t ys)"
  by (induction xs arbitrary: s) (auto simp: bindE_assoc)

lemma foldE_cong [fundef_cong]:
  "s = s' \<Longrightarrow> xs = ys \<Longrightarrow> (\<And>t x. x \<in> set ys \<Longrightarrow> f t x = g t x) \<Longrightarrow> foldE f s xs = foldE g s' ys"
  by (induction xs arbitrary: s s' ys) (auto intro!: bindE_cong)

lemma mapE_cong [fundef_cong]:
  "xs = ys \<Longrightarrow> (\<And>x. x \<in> set ys \<Longrightarrow> f x = g x) \<Longrightarrow> mapE f xs = mapE g ys"
  by (induction xs arbitrary: ys) auto

lemma each_Inr_iff [result_simps]: "each f xs = Inr u \<longleftrightarrow> (\<forall>x \<in> set xs. f x = Inr ())"
  unfolding each_def by (induction xs) (auto simp: result_simps)

lemma each_Inr_UnitI: "(\<And>x. x \<in> set xs \<Longrightarrow> f x = Inr ()) \<Longrightarrow> each f xs = Inr ()"
  by (simp add: each_Inr_iff)

lemma mapE_Inr_list_all2: "mapE f xs = Inr ys \<longleftrightarrow> list_all2 (\<lambda>x y. f x = Inr y) xs ys"
  by (induction xs arbitrary: ys) (auto simp: result_simps list_all2_Cons1)

lemma mapE_Inr_length: "mapE f xs = Inr ys \<Longrightarrow> length ys = length xs"
  by (metis mapE_Inr_list_all2 list_all2_lengthD)

subsection \<open>Tables as lists of rows\<close>

definition find_row :: "('r \<Rightarrow> bool) \<Rightarrow> 'r list \<Rightarrow> 'r option" where
  "find_row p rs = List.find p rs"

definition update_rows :: "('r \<Rightarrow> bool) \<Rightarrow> ('r \<Rightarrow> 'r) \<Rightarrow> 'r list \<Rightarrow> 'r list" where
  "update_rows p f rs = map (\<lambda>r. if p r then f r else r) rs"

lemma find_row_Nil [simp]: "find_row p [] = None"
  by (simp add: find_row_def)

lemma find_row_Cons [simp]: "find_row p (r # rs) = (if p r then Some r else find_row p rs)"
  by (simp add: find_row_def)

lemma find_row_Some: "find_row p rs = Some r \<Longrightarrow> r \<in> set rs \<and> p r"
  by (induction rs) (auto split: if_splits)

lemma find_row_None_iff: "find_row p rs = None \<longleftrightarrow> (\<forall>r \<in> set rs. \<not> p r)"
  by (induction rs) auto

lemma find_row_refine: "find_row p rs = Some r \<Longrightarrow> q r \<Longrightarrow> find_row (\<lambda>x. p x \<and> q x) rs = Some r"
  by (induction rs) (auto split: if_splits)

lemma find_row_append:
  "find_row p (xs @ ys) = (case find_row p xs of None \<Rightarrow> find_row p ys | Some r \<Rightarrow> Some r)"
  by (induction xs) auto

lemma find_row_cong [fundef_cong]:
  "rs = rs' \<Longrightarrow> (\<And>r. r \<in> set rs' \<Longrightarrow> p r = q r) \<Longrightarrow> find_row p rs = find_row q rs'"
  by (induction rs arbitrary: rs') auto

lemma update_rows_Nil [simp]: "update_rows p f [] = []"
  by (simp add: update_rows_def)

lemma update_rows_Cons [simp]:
  "update_rows p f (r # rs) = (if p r then f r else r) # update_rows p f rs"
  by (simp add: update_rows_def)

lemma update_rows_append [simp]: "update_rows p f (xs @ ys) = update_rows p f xs @ update_rows p f ys"
  by (simp add: update_rows_def)

lemma length_update_rows [simp]: "length (update_rows p f rs) = length rs"
  by (simp add: update_rows_def)

lemma set_update_rows: "set (update_rows p f rs) = {r \<in> set rs. \<not> p r} \<union> f ` {r \<in> set rs. p r}"
  by (induction rs) auto

lemma find_row_update_same:
  assumes "\<And>r. p (f r) = p r" and "\<And>r. q r = p r"
  shows "find_row q (update_rows p f rs) = map_option f (find_row p rs)"
  using assms by (induction rs) auto

lemma find_row_update_other:
  assumes "\<And>r. p r \<Longrightarrow> q (f r) = q r" and "\<And>r. p r \<Longrightarrow> \<not> q r"
  shows "find_row q (update_rows p f rs) = find_row q rs"
  using assms by (induction rs) auto

lemma map_update_rows_same: "(\<And>r. p r \<Longrightarrow> g (f r) = g r) \<Longrightarrow> map g (update_rows p f rs) = map g rs"
  by (induction rs) auto

lemma filter_update_rows_same:
  "(\<And>r. p r \<Longrightarrow> q (f r) = q r) \<Longrightarrow> (\<And>r. p r \<Longrightarrow> \<not> q r) \<Longrightarrow>
    filter q (update_rows p f rs) = filter q rs"
  by (induction rs) auto

lemma update_rows_none: "(\<And>r. r \<in> set rs \<Longrightarrow> \<not> p r) \<Longrightarrow> update_rows p f rs = rs"
  by (induction rs) auto

lemma not_list_ex_update_rows: "(\<And>r. p r \<Longrightarrow> \<not> p (f r)) \<Longrightarrow> \<not> list_ex p (update_rows p f rs)"
  by (induction rs) auto

subsection \<open>Sums over tables\<close>

definition sum_where :: "('r \<Rightarrow> bool) \<Rightarrow> ('r \<Rightarrow> 'n::comm_monoid_add) \<Rightarrow> 'r list \<Rightarrow> 'n" where
  "sum_where p f rs = sum_list (map f (filter p rs))"

lemma sum_where_Nil [simp]: "sum_where p f [] = 0"
  by (simp add: sum_where_def)

lemma sum_where_Cons [simp]:
  "sum_where p f (r # rs) = (if p r then f r + sum_where p f rs else sum_where p f rs)"
  by (simp add: sum_where_def)

lemma sum_where_append [simp]: "sum_where p f (xs @ ys) = sum_where p f xs + sum_where p f ys"
  by (simp add: sum_where_def)

lemma sum_where_none: "(\<And>r. r \<in> set rs \<Longrightarrow> \<not> p r) \<Longrightarrow> sum_where p f rs = 0"
  by (induction rs) auto

lemma sum_where_cong:
  "(\<And>r. r \<in> set rs \<Longrightarrow> p r = q r) \<Longrightarrow> (\<And>r. r \<in> set rs \<Longrightarrow> p r \<Longrightarrow> f r = g r) \<Longrightarrow>
    sum_where p f rs = sum_where q g rs"
  by (induction rs) auto

subsection \<open>Insertion-ordered dictionaries of running sums\<close>

text \<open>\<open>d[k] = d.get(k, 0) + x\<close>: a Python dict keeps the order of first insertion.\<close>

fun dict_add :: "'k \<Rightarrow> 'n::monoid_add \<Rightarrow> ('k \<times> 'n) list \<Rightarrow> ('k \<times> 'n) list" where
  "dict_add k x [] = [(k, x)]"
| "dict_add k x ((k', y) # d) = (if k = k' then (k', y + x) # d else (k', y) # dict_add k x d)"

lemma fst_set_dict_add: "fst ` set (dict_add k x d) = insert k (fst ` set d)"
  by (induction k x d rule: dict_add.induct) auto

lemma distinct_dict_add: "distinct (map fst d) \<Longrightarrow> distinct (map fst (dict_add k x d))"
proof (induction k x d rule: dict_add.induct)
  case (2 k x k' y d)
  have "k' \<notin> fst ` set (dict_add k x d)" if "k \<noteq> k'"
    using that 2 by (simp add: fst_set_dict_add)
  with 2 show ?case by auto
qed simp

lemma map_of_dict_add:
  fixes x :: "'n::monoid_add"
  shows "map_of (dict_add k x d) k' =
    (if k = k' then Some ((case map_of d k of None \<Rightarrow> 0 | Some y \<Rightarrow> y) + x) else map_of d k')"
  by (induction k x d rule: dict_add.induct) (auto split: option.splits)

lemma sum_dict_add:
  fixes x :: "'n::comm_monoid_add"
  shows "sum_list (map snd (dict_add k x d)) = sum_list (map snd d) + x"
  by (induction k x d rule: dict_add.induct) (auto simp: ac_simps)

text \<open>A dictionary of sums built from a list of items.\<close>

definition dict_sums :: "('a \<Rightarrow> 'k) \<Rightarrow> ('a \<Rightarrow> 'n::monoid_add) \<Rightarrow> 'a list \<Rightarrow> ('k \<times> 'n) list \<Rightarrow> ('k \<times> 'n) list" where
  "dict_sums k v xs d = fold (\<lambda>x. dict_add (k x) (v x)) xs d"

definition dict_value :: "('k \<times> 'n::zero) list \<Rightarrow> 'k \<Rightarrow> 'n" where
  "dict_value d k = (case map_of d k of None \<Rightarrow> 0 | Some y \<Rightarrow> y)"

lemma dict_value_simps [simp]:
  "dict_value [] k = 0"
  "dict_value ((k', y) # d) k = (if k = k' then y else dict_value d k)"
  by (simp_all add: dict_value_def)

lemma dict_value_absent: "k \<notin> fst ` set d \<Longrightarrow> dict_value d k = 0"
  by (simp add: dict_value_def map_of_eq_None_iff [THEN iffD2])

lemma dict_sums_simps [simp]:
  "dict_sums k v [] d = d" "dict_sums k v (x # xs) d = dict_sums k v xs (dict_add (k x) (v x) d)"
  by (simp_all add: dict_sums_def)

lemma dict_sums_snoc: "dict_sums k v (xs @ [x]) d = dict_add (k x) (v x) (dict_sums k v xs d)"
  by (simp add: dict_sums_def)

lemma keys_dict_sums: "fst ` set (dict_sums k v xs d) = k ` set xs \<union> fst ` set d"
  by (induction xs arbitrary: d) (auto simp: fst_set_dict_add)

lemma distinct_dict_sums: "distinct (map fst d) \<Longrightarrow> distinct (map fst (dict_sums k v xs d))"
  by (induction xs arbitrary: d) (simp_all add: distinct_dict_add)

lemma value_dict_sums:
  fixes v :: "'a \<Rightarrow> 'n::comm_monoid_add"
  shows "dict_value (dict_sums k v xs d) key = dict_value d key + sum_where (\<lambda>x. k x = key) v xs"
  by (induction xs arbitrary: d) (auto simp: dict_value_def map_of_dict_add ac_simps split: option.splits)

lemma total_dict_sums:
  fixes v :: "'a \<Rightarrow> 'n::comm_monoid_add"
  shows "sum_list (map snd (dict_sums k v xs d)) = sum_list (map snd d) + sum_list (map v xs)"
  by (induction xs arbitrary: d) (simp_all add: sum_dict_add ac_simps)

lemma dict_value_mem: "distinct (map fst d) \<Longrightarrow> (k, y) \<in> set d \<Longrightarrow> dict_value d k = y"
  by (simp add: dict_value_def)

end
