(* ===== verification/Text_Ops.thy ===== *)
theory Text_Ops
  imports Prelude "HOL-Library.Char_ord" "HOL-Library.List_Lexorder"
begin

text \<open>
  The \<open>str\<close> methods the program uses, on strings as character lists: \<open>partition\<close>,
  \<open>split\<close> on one character, \<open>strip\<close>, \<open>lower\<close> (on the ASCII letters) and \<open>startswith\<close>.
\<close>

fun partition_at :: "char \<Rightarrow> string \<Rightarrow> string \<times> bool \<times> string" where
  "partition_at c [] = ([], False, [])"
| "partition_at c (x # xs) =
     (if x = c then ([], True, xs)
      else let (before, found, after) = partition_at c xs in (x # before, found, after))"

fun split_on :: "char \<Rightarrow> string \<Rightarrow> string list" where
  "split_on c [] = [[]]"
| "split_on c (x # xs) =
     (if x = c then [] # split_on c xs
      else (case split_on c xs of [] \<Rightarrow> [[x]] | p # ps \<Rightarrow> (x # p) # ps))"

definition is_space :: "char \<Rightarrow> bool" where
  "is_space c = (let n = of_char c :: nat in 9 \<le> n \<and> n \<le> 13 \<or> 28 \<le> n \<and> n \<le> 32 \<or> n = 133 \<or> n = 160)"

definition lstrip :: "string \<Rightarrow> string" where
  "lstrip s = dropWhile is_space s"

definition strip :: "string \<Rightarrow> string" where
  "strip s = rev (lstrip (rev (lstrip s)))"

definition lower_char :: "char \<Rightarrow> char" where
  "lower_char c = (let n = of_char c :: nat in if 65 \<le> n \<and> n \<le> 90 then char_of (n + 32) else c)"

definition lower :: "string \<Rightarrow> string" where
  "lower s = map lower_char s"

definition startswith :: "string \<Rightarrow> string \<Rightarrow> bool" where
  "startswith s prefix = (take (length prefix) s = prefix)"

lemma startswith_iff: "startswith s p \<longleftrightarrow> (\<exists>r. s = p @ r)"
  unfolding startswith_def by (metis append_eq_conv_conj append_take_drop_id)

lemma startswith_append [simp]: "startswith (p @ r) p"
  by (auto simp: startswith_iff)

lemma partition_at_absent: "c \<notin> set s \<Longrightarrow> partition_at c s = (s, False, [])"
  by (induction s) auto

lemma partition_at_present: "c \<notin> set v \<Longrightarrow> partition_at c (v @ c # r) = (v, True, r)"
  by (induction v) auto

lemma partition_at_cases:
  obtains "c \<notin> set s" "partition_at c s = (s, False, [])"
  | v r where "s = v @ c # r" "c \<notin> set v" "partition_at c s = (v, True, r)"
proof (cases "c \<in> set s")
  case True
  then obtain v r where "s = v @ c # r" "c \<notin> set v" by (meson split_list_first)
  then show ?thesis using that(2) partition_at_present by blast
next
  case False
  then show ?thesis using that(1) partition_at_absent by blast
qed

lemma split_on_not_Nil [simp]: "split_on c s \<noteq> []"
  by (induction s) (auto split: list.splits)

lemma split_on_absent: "p \<in> set (split_on c s) \<Longrightarrow> c \<notin> set p"
proof (induction s arbitrary: p)
  case (Cons x xs)
  show ?case
  proof (cases "x = c")
    case True
    with Cons show ?thesis by auto
  next
    case False
    obtain q qs where "split_on c xs = q # qs" by (cases "split_on c xs") auto
    with Cons False show ?thesis by auto
  qed
qed simp

lemma set_strip: "set (strip s) \<subseteq> set s"
proof -
  have *: "set (lstrip t) \<subseteq> set t" for t
    by (auto simp: lstrip_def dest: set_dropWhileD)
  show ?thesis using *[of "rev (lstrip s)"] *[of s] by (auto simp: strip_def)
qed

definition dict_get :: "('k \<times> 'v) list \<Rightarrow> 'k \<Rightarrow> 'v \<Rightarrow> 'v" where
  "dict_get d k dflt = (case map_of d k of None \<Rightarrow> dflt | Some v \<Rightarrow> v)"

end
