(* ===== verification/Permissions.thy ===== *)
theory Permissions
  imports Text_Ops
begin

text \<open>
  \<open>app/core/permissions.py\<close>, \<open>app/core/entity_types.py\<close> and \<open>app/services/roles.py\<close>: the
  catalogue of capabilities, the grammar of grants (\<open>verb\<close>, \<open>verb:scope\<close>, \<open>verb:*\<close>), when
  a set of grants covers a verb, and which grants a person may hand out.

  A \<open>frozenset\<close> of grants is a list read through its \<open>set\<close>: the code only tests membership
  and sorts. Titles and descriptions of the catalogue are not modelled.
\<close>

subsection \<open>Entity types\<close>

definition DOCUMENT_ENTITY_TYPES :: "string list" where
  "DOCUMENT_ENTITY_TYPES = [
     ''campaign'', ''contract'', ''employee_leave'', ''event'', ''expense_claim'', ''invoice'',
     ''lead'', ''opportunity'', ''payment'', ''picklist'', ''purchase_order'', ''purchase_request'',
     ''sales_order'', ''sales_quotation'', ''shipment'', ''timesheet_header'']"

definition KIND_SPLIT_MACHINE_TYPES :: "(string \<times> string) list" where
  "KIND_SPLIT_MACHINE_TYPES = [(''sales_return'', ''sales_order''), (''purchase_return'', ''purchase_order'')]"

definition APPROVAL_ENTITY_TYPES :: "string list" where
  "APPROVAL_ENTITY_TYPES = DOCUMENT_ENTITY_TYPES @ [''approval_target'', ''business_object'']"

definition TODO_ENTITY_TYPES :: "string list" where
  "TODO_ENTITY_TYPES = APPROVAL_ENTITY_TYPES @ [''project'']"

text \<open>entity type, queue path, advance verb, submit verb\<close>

definition HOSTED_FAMILIES :: "(string \<times> string \<times> string \<times> string option) list" where
  "HOSTED_FAMILIES = [
     (''employee_leave'', ''/employee-leaves'', ''leave.advance'', Some ''leave.submit_own''),
     (''expense_claim'', ''/expense-claims'', ''expense.advance'', Some ''expense.submit_own''),
     (''invoice'', ''/invoices'', ''invoice.advance'', None),
     (''payment'', ''/payments'', ''payment.advance'', None),
     (''purchase_request'', ''/purchase-requests'', ''purchase.advance'', Some ''purchase.submit_own''),
     (''sales_order'', ''/sales-orders'', ''order.advance'', Some ''order.submit_own''),
     (''sales_quotation'', ''/sales-quotations'', ''quotation.advance'', Some ''quotation.submit_own''),
     (''timesheet_header'', ''/timesheet-headers'', ''timesheet.advance'', Some ''timesheet.submit_own'')]"

definition HOSTED_DRIVABLE_ENTITY_TYPES :: "string list" where
  "HOSTED_DRIVABLE_ENTITY_TYPES = map fst HOSTED_FAMILIES"

definition BUILTIN_QUEUE_PATHS :: "(string \<times> string) list" where
  "BUILTIN_QUEUE_PATHS = map (\<lambda>(name, path, advance, submit). (name, path)) HOSTED_FAMILIES"

definition HOSTED_ADVANCE_VERBS :: "(string \<times> string) list" where
  "HOSTED_ADVANCE_VERBS = map (\<lambda>(name, path, advance, submit). (name, advance)) HOSTED_FAMILIES"

definition MEMBER_SUBMIT_VERBS :: "string list" where
  "MEMBER_SUBMIT_VERBS = List.map_filter (\<lambda>(name, path, advance, submit). submit) HOSTED_FAMILIES"

definition DECIDED_APPROVAL_ACTIONS :: "string list" where
  "DECIDED_APPROVAL_ACTIONS = [''approved'', ''rejected'', ''returned'']"

subsection \<open>The capability catalogue\<close>

text \<open>name, scopable\<close>

definition SYSTEM_CAPABILITIES :: "(string \<times> bool) list" where
  "SYSTEM_CAPABILITIES = [
     (''timesheet.submit_own'', False),
     (''leave.submit_own'', False),
     (''leave.advance'', False),
     (''timesheet.advance'', False),
     (''expense.submit_own'', False),
     (''expense.advance'', False),
     (''purchase.submit_own'', False),
     (''purchase.advance'', False),
     (''quotation.submit_own'', False),
     (''quotation.advance'', False),
     (''order.submit_own'', False),
     (''order.advance'', False),
     (''invoice.manage'', True),
     (''invoice.advance'', False),
     (''payment.record'', False),
     (''payment.advance'', False),
     (''payment.apply'', False),
     (''payroll.read'', False),
     (''payroll.manage'', False),
     (''policy.manage'', False),
     (''policy.publish'', False),
     (''billing_account.manage'', False),
     (''billing_account.post'', True),
     (''business_object.write'', True),
     (''business_object.advance'', True),
     (''business_object.summarize'', True),
     (''approval.record'', False),
     (''flow_run.record'', False),
     (''timesheet.read_all'', False),
     (''leave.read_all'', False),
     (''expense.read_all'', False),
     (''purchase.read_all'', False),
     (''quotation.read_all'', False),
     (''order.read_all'', False),
     (''crm.read_all'', False),
     (''invoice.read'', True),
     (''payment.read'', False),
     (''purchase_order.read'', False),
     (''shipment.read'', False),
     (''inventory.read'', False),
     (''business_object.read'', True),
     (''billing_account.read'', False),
     (''todos.assign'', False),
     (''notification.send'', False),
     (''todos.complete_own'', False),
     (''booking.own'', False),
     (''campaign.manage'', False),
     (''crm.own'', False),
     (''master_data.manage'', False),
     (''project.manage'', False),
     (''inventory.manage'', False),
     (''shipment.manage'', False),
     (''fin_account.manage'', False),
     (''contract.manage'', True),
     (''employees.manage'', False),
     (''users.manage'', False),
     (''keys.manage'', False),
     (''object_types.manage'', False),
     (''workflows.publish'', False),
     (''skills.manage'', False),
     (''skills.calibrate'', True),
     (''purchase_order.manage'', False),
     (''tenant.act_for_any_employee'', False)]"

definition SYSTEM_CAPABILITY_NAMES :: "string list" where
  "SYSTEM_CAPABILITY_NAMES = map fst SYSTEM_CAPABILITIES"

definition SCOPABLE_VERBS :: "string list" where
  "SCOPABLE_VERBS = map fst (filter snd SYSTEM_CAPABILITIES)"

definition ALL_PERMISSIONS :: "string list" where
  "ALL_PERMISSIONS = map (\<lambda>(name, scopable). if scopable then name @ '':*'' else name) SYSTEM_CAPABILITIES"

definition CAPABILITY_COLLECTIONS :: "(string \<times> string list) list" where
  "CAPABILITY_COLLECTIONS = [
     (''timesheet.submit_own'', [''timesheet-headers'', ''timesheet-entries'']),
     (''timesheet.advance'', [''timesheet-headers'', ''timesheet-entries'']),
     (''timesheet.read_all'', [''timesheet-headers'', ''timesheet-entries'']),
     (''leave.submit_own'', [''employee-leaves'']),
     (''leave.advance'', [''employee-leaves'']),
     (''leave.read_all'', [''employee-leaves'']),
     (''expense.submit_own'', [''expense-claims'', ''expense-items'']),
     (''expense.advance'', [''expense-claims'', ''expense-items'']),
     (''expense.read_all'', [''expense-claims'', ''expense-items'']),
     (''purchase.submit_own'', [''purchase-requests'', ''purchase-request-items'']),
     (''purchase.advance'', [''purchase-requests'', ''purchase-request-items'']),
     (''purchase.read_all'', [''purchase-requests'', ''purchase-request-items'']),
     (''quotation.submit_own'', [''sales-quotations'', ''sales-quotation-items'', ''sales-quotation-adjustments'']),
     (''quotation.advance'', [''sales-quotations'', ''sales-quotation-items'', ''sales-quotation-adjustments'']),
     (''quotation.read_all'', [''sales-quotations'', ''sales-quotation-items'', ''sales-quotation-adjustments'']),
     (''order.submit_own'', [''sales-orders'', ''sales-order-items'', ''sales-order-adjustments'']),
     (''order.advance'', [''sales-orders'', ''sales-order-items'', ''sales-order-adjustments'']),
     (''order.read_all'', [''sales-orders'', ''sales-order-items'', ''sales-order-adjustments'']),
     (''invoice.manage'', [''invoices'', ''invoice-items'']),
     (''invoice.advance'', [''invoices'', ''invoice-items'']),
     (''payment.record'', [''payments'', ''payment-applications'']),
     (''payment.advance'', [''payments'', ''payment-applications'']),
     (''payment.apply'', [''payments'', ''payment-applications'']),
     (''payroll.read'', [''pay-histories'']),
     (''payroll.manage'', [''pay-histories'']),
     (''policy.manage'', [''business-rules'']),
     (''policy.publish'', [''business-rules'']),
     (''billing_account.manage'', [''billing-accounts'', ''billing-account-entries'']),
     (''billing_account.post'', [''billing-account-entries'']),
     (''business_object.write'', []),
     (''business_object.advance'', []),
     (''business_object.summarize'', []),
     (''approval.record'', [''approval-records'', ''approval-targets'']),
     (''flow_run.record'', [''flow-runs'', ''flow-subscriptions'']),
     (''crm.read_all'', [''leads'', ''opportunities'', ''opportunity-items'', ''opportunity-contacts'', ''activities'', ''communication-events'']),
     (''crm.own'', [''leads'', ''opportunities'', ''opportunity-items'', ''opportunity-contacts'', ''activities'', ''communication-events'']),
     (''invoice.read'', [''invoices'', ''invoice-items'']),
     (''payment.read'', [''payments'', ''payment-applications'']),
     (''purchase_order.read'', [''purchase-orders'', ''purchase-order-items'', ''purchase-order-adjustments'']),
     (''shipment.read'', [''shipments'', ''shipment-items'']),
     (''inventory.read'', [''inventory-items'', ''inventory-item-details'', ''picklists'', ''picklist-items'']),
     (''business_object.read'', []),
     (''billing_account.read'', [''billing-accounts'', ''billing-account-entries'']),
     (''campaign.manage'', [''campaigns'', ''campaign-members'', ''events'', ''event-participants'']),
     (''todos.assign'', [''todos'']),
     (''todos.complete_own'', [''todos'']),
     (''notification.send'', []),
     (''booking.own'', [''resources'', ''resource-bookings'']),
     (''master_data.manage'', [''customers'', ''customer-contacts'', ''customer-products'', ''vendors'', ''supplier-products'', ''products'', ''product-skus'', ''product-categories'', ''product-prices'', ''product-images'', ''bills-of-materials'', ''bom-items'', ''facilities'', ''projects'', ''sales-channels'', ''stores'', ''store-facilities'', ''external-product-maps'', ''geos'', ''territories'', ''type-options'']),
     (''project.manage'', [''projects'', ''document-parties'']),
     (''inventory.manage'', [''inventory-items'', ''inventory-item-details'', ''picklists'', ''picklist-items'']),
     (''shipment.manage'', [''shipments'', ''shipment-items'', ''fulfilment-backlog'']),
     (''fin_account.manage'', [''fin-accounts'', ''fin-account-transactions'']),
     (''contract.manage'', [''contracts'', ''contract-items'', ''contract-terms'', ''contract-documents'']),
     (''employees.manage'', [''employees'']),
     (''users.manage'', [''auth/users'', ''roles'', ''capabilities'']),
     (''keys.manage'', [''tenant/api-keys'']),
     (''object_types.manage'', [''object-type-definitions'', ''type-options'']),
     (''workflows.publish'', [''business-rules'']),
     (''skills.manage'', [''skills'']),
     (''skills.calibrate'', [''skills'']),
     (''purchase_order.manage'', [''purchase-orders'', ''purchase-order-items'', ''purchase-order-adjustments'']),
     (''tenant.act_for_any_employee'', [])]"

definition HOSTED_FLOW_AGENT_PERMISSIONS :: "string list" where
  "HOSTED_FLOW_AGENT_PERMISSIONS = [
     ''timesheet.advance'', ''leave.advance'', ''expense.advance'', ''purchase.advance'',
     ''quotation.advance'', ''order.advance'', ''invoice.advance'', ''payroll.read'',
     ''payment.advance'', ''billing_account.post:points'', ''business_object.advance:*'',
     ''approval.record'', ''todos.assign'', ''shipment.manage'', ''inventory.manage'',
     ''notification.send'', ''flow_run.record'']"

definition HOSTED_FLOW_AGENT_ROLE :: string where
  "HOSTED_FLOW_AGENT_ROLE = ''hosted_flow_agent''"

definition DEFAULT_ROLE_PERMISSIONS :: "(string \<times> string list) list" where
  "DEFAULT_ROLE_PERMISSIONS = [
     (''admin'', ALL_PERMISSIONS),
     (''member'', [
       ''timesheet.submit_own'', ''leave.submit_own'', ''expense.submit_own'', ''purchase.submit_own'',
       ''quotation.submit_own'', ''order.submit_own'', ''business_object.write:*'', ''approval.record'',
       ''todos.complete_own'', ''booking.own'', ''crm.own'', ''invoice.read:*'', ''payment.read'',
       ''purchase_order.read'', ''shipment.read'', ''inventory.read'', ''business_object.read:*'',
       ''billing_account.read'']),
     (HOSTED_FLOW_AGENT_ROLE, HOSTED_FLOW_AGENT_PERMISSIONS)]"

subsection \<open>When grants cover a verb\<close>

definition IMPLIED_BY :: "(string \<times> string list) list" where
  "IMPLIED_BY = [(''shipment.manage'', [''inventory.manage'']), (''project.manage'', [''master_data.manage''])]"

definition implied_depth :: "string \<Rightarrow> nat" where
  "implied_depth verb = (if dict_get IMPLIED_BY verb [] = [] then 0 else 1)"

lemma implied_depth_less [simp]:
  "wider \<in> set (dict_get IMPLIED_BY verb []) \<Longrightarrow> implied_depth wider < implied_depth verb"
  by (auto simp: dict_get_def IMPLIED_BY_def implied_depth_def split: if_splits)

function permissions_cover :: "string list \<Rightarrow> string \<Rightarrow> string option \<Rightarrow> bool" where
  "permissions_cover permissions verb scope =
     (if verb \<in> set permissions \<or> verb @ '':*'' \<in> set permissions then True
      else if (case scope of None \<Rightarrow> False | Some s \<Rightarrow> verb @ '':'' @ s \<in> set permissions) then True
      else list_ex (\<lambda>wider. permissions_cover permissions wider scope) (dict_get IMPLIED_BY verb []))"
  by auto
termination by (relation "measure (\<lambda>(_, verb, _). implied_depth verb)") auto

function permissions_cover_any_scope :: "string list \<Rightarrow> string \<Rightarrow> bool" where
  "permissions_cover_any_scope permissions verb =
     (if verb \<in> set permissions then True
      else if list_ex (\<lambda>grant. startswith grant (verb @ '':'')) permissions then True
      else list_ex (\<lambda>wider. permissions_cover_any_scope permissions wider) (dict_get IMPLIED_BY verb []))"
  by auto
termination by (relation "measure (\<lambda>(_, verb). implied_depth verb)") auto

declare permissions_cover.simps [simp del] permissions_cover_any_scope.simps [simp del]

definition capability_collections :: "string \<Rightarrow> string list" where
  "capability_collections name =
     fold (\<lambda>(verb, holders) own.
         if name \<in> set holders
         then own @ filter (\<lambda>c. c \<notin> set own) (dict_get CAPABILITY_COLLECTIONS verb [])
         else own)
       IMPLIED_BY (dict_get CAPABILITY_COLLECTIONS name [])"

text \<open>One alternative of a required capability, and the \<open>|\<close>-joined alternatives. The recursive
  call of the code is made on parts that hold no \<open>|\<close>, so it is the single case.\<close>

definition capability_covers_one :: "string list \<Rightarrow> string \<Rightarrow> bool" where
  "capability_covers_one permissions required =
     (let (verb, _, scope) = partition_at (CHR '':'') required in
      if verb \<in> set SYSTEM_CAPABILITY_NAMES
      then if scope \<noteq> [] then permissions_cover permissions verb (Some scope)
           else permissions_cover_any_scope permissions verb
      else required \<in> set permissions)"

definition capability_covers :: "string list \<Rightarrow> string \<Rightarrow> bool" where
  "capability_covers permissions required =
     (if CHR ''|'' \<in> set required
      then list_ex (\<lambda>part. strip part \<noteq> [] \<and> capability_covers_one permissions (strip part))
             (split_on (CHR ''|'') required)
      else capability_covers_one permissions required)"

definition grants_beyond :: "string list \<Rightarrow> string list \<Rightarrow> string list" where
  "grants_beyond permissions grants = sort (filter (\<lambda>g. \<not> capability_covers permissions g) grants)"

text \<open>\<open>None\<close> is acceptance; the code's error text is a slug.\<close>

definition validate_permission_grammar :: "string \<Rightarrow> string list \<Rightarrow> string option" where
  "validate_permission_grammar grant known_custom =
     (let (verb, _, scope) = partition_at (CHR '':'') grant in
      if verb \<in> set SYSTEM_CAPABILITY_NAMES
      then if scope \<noteq> [] \<and> verb \<notin> set SCOPABLE_VERBS then Some ''does_not_accept_a_scope'' else None
      else if grant \<in> set known_custom then None
      else Some ''unknown_capability'')"

subsection \<open>Checks against a set of grants\<close>

text \<open>
  The interface every permission check of the API relies on: a check reads a credential's
  grants only as a set, and a wider set passes whatever a narrower one did.
\<close>

locale grant_check =
  fixes covers :: "string list \<Rightarrow> 'req \<Rightarrow> bool"
  assumes covers_mono: "set p \<subseteq> set q \<Longrightarrow> covers p r \<Longrightarrow> covers q r"
begin

lemma covers_same_set: "set p = set q \<Longrightarrow> covers p r = covers q r"
  using covers_mono by blast

lemma covers_appendI: "covers p r \<or> covers q r \<Longrightarrow> covers (p @ q) r"
  by (auto intro: covers_mono [of p "p @ q"] covers_mono [of q "p @ q"])

lemma uncovered_narrower: "set p \<subseteq> set q \<Longrightarrow> \<not> covers q r \<Longrightarrow> \<not> covers p r"
  using covers_mono by blast

end

definition holders_of :: "string \<Rightarrow> string list" where
  "holders_of verb = verb # dict_get IMPLIED_BY verb []"

lemma holders_of_simps:
  "holders_of verb =
     (if verb = ''shipment.manage'' then [verb, ''inventory.manage'']
      else if verb = ''project.manage'' then [verb, ''master_data.manage''] else [verb])"
  by (auto simp: holders_of_def dict_get_def IMPLIED_BY_def)

lemma holders_of_self [simp]: "verb \<in> set (holders_of verb)"
  by (simp add: holders_of_def)

lemma holders_of_trans: "w \<in> set (holders_of v) \<Longrightarrow> set (holders_of w) \<subseteq> set (holders_of v)"
  by (auto simp: holders_of_simps split: if_splits)

definition grants_verb :: "string list \<Rightarrow> string option \<Rightarrow> string \<Rightarrow> bool" where
  "grants_verb permissions scope w \<longleftrightarrow> w \<in> set permissions \<or> w @ '':*'' \<in> set permissions \<or>
     (case scope of None \<Rightarrow> False | Some s \<Rightarrow> w @ '':'' @ s \<in> set permissions)"

lemma implied_no_further:
  "w \<in> set (dict_get IMPLIED_BY v []) \<Longrightarrow> dict_get IMPLIED_BY w [] = []"
  by (auto simp: dict_get_def IMPLIED_BY_def split: if_splits)

lemma permissions_cover_iff:
  "permissions_cover permissions verb scope \<longleftrightarrow>
     (\<exists>w \<in> set (holders_of verb). grants_verb permissions scope w)"
proof -
  have step: "permissions_cover permissions v scope \<longleftrightarrow> grants_verb permissions scope v \<or>
      (\<exists>w \<in> set (dict_get IMPLIED_BY v []). permissions_cover permissions w scope)" for v
    by (subst permissions_cover.simps) (simp add: grants_verb_def list_ex_iff split: option.splits)
  have leaf: "permissions_cover permissions w scope = grants_verb permissions scope w"
    if "w \<in> set (dict_get IMPLIED_BY v [])" for v w
    using implied_no_further [OF that] by (subst step) simp
  show ?thesis by (subst step) (simp add: holders_of_def leaf cong: bex_cong)
qed

lemma permissions_cover_any_scope_iff:
  "permissions_cover_any_scope permissions verb \<longleftrightarrow>
     (\<exists>w \<in> set (holders_of verb). w \<in> set permissions \<or> (\<exists>s. w @ '':'' @ s \<in> set permissions))"
proof -
  have scoped: "(\<exists>g \<in> set permissions. startswith g (w @ '':'')) \<longleftrightarrow>
      (\<exists>s. w @ '':'' @ s \<in> set permissions)" for w
    by (auto simp: startswith_iff)
  have step: "permissions_cover_any_scope permissions v \<longleftrightarrow>
      (v \<in> set permissions \<or> (\<exists>s. v @ '':'' @ s \<in> set permissions)) \<or>
      (\<exists>w \<in> set (dict_get IMPLIED_BY v []). permissions_cover_any_scope permissions w)" for v
    unfolding scoped [symmetric] by (subst permissions_cover_any_scope.simps) (simp add: list_ex_iff)
  have leaf: "permissions_cover_any_scope permissions w \<longleftrightarrow>
      w \<in> set permissions \<or> (\<exists>s. w @ '':'' @ s \<in> set permissions)"
    if "w \<in> set (dict_get IMPLIED_BY v [])" for v w
    using implied_no_further [OF that] by (subst step) simp
  show ?thesis by (subst step) (simp add: holders_of_def leaf cong: bex_cong)
qed

lemma grants_verb_mono: "set p \<subseteq> set q \<Longrightarrow> grants_verb p scope w \<Longrightarrow> grants_verb q scope w"
  by (auto simp: grants_verb_def split: option.splits)

interpretation scoped: grant_check "\<lambda>permissions (verb, scope). permissions_cover permissions verb scope"
  by unfold_locales (auto simp: permissions_cover_iff intro: grants_verb_mono)

interpretation any_scope: grant_check permissions_cover_any_scope
  by unfold_locales (auto simp: permissions_cover_any_scope_iff; blast)

lemma capability_covers_one_mono:
  assumes "set p \<subseteq> set q" and "capability_covers_one p r"
  shows "capability_covers_one q r"
  using assms any_scope.covers_mono [OF assms(1)] scoped.covers_mono [OF assms(1)]
  by (auto simp: capability_covers_one_def split: prod.splits if_splits)

interpretation capability: grant_check capability_covers
proof
  fix p q :: "string list" and r
  assume "set p \<subseteq> set q" and "capability_covers p r"
  then show "capability_covers q r"
    using capability_covers_one_mono by (auto simp: capability_covers_def list_ex_iff split: if_splits)
qed

subsection \<open>Handing out grants\<close>

text \<open>A grant is explicit when its reach can be read off it: a scopable verb names its scope
  (or \<open>*\<close>), any other system verb stands bare, and no \<open>|\<close> occurs.\<close>

definition explicit_grant :: "string \<Rightarrow> bool" where
  "explicit_grant g \<longleftrightarrow> CHR ''|'' \<notin> set g \<and>
     (let (verb, colon, scope) = partition_at (CHR '':'') g in
      verb \<in> set SYSTEM_CAPABILITY_NAMES \<longrightarrow> (if verb \<in> set SCOPABLE_VERBS then scope \<noteq> [] else \<not> colon))"

lemma capability_names_no_colon: "list_all (\<lambda>v. CHR '':'' \<notin> set v) SYSTEM_CAPABILITY_NAMES"
  by code_simp

lemma verb_no_colon [simp]: "v \<in> set SYSTEM_CAPABILITY_NAMES \<Longrightarrow> CHR '':'' \<notin> set v"
  using capability_names_no_colon by (auto simp: list_all_iff)

lemma implied_verbs_system:
  "''shipment.manage'' \<in> set SYSTEM_CAPABILITY_NAMES \<and> ''inventory.manage'' \<in> set SYSTEM_CAPABILITY_NAMES \<and>
   ''project.manage'' \<in> set SYSTEM_CAPABILITY_NAMES \<and> ''master_data.manage'' \<in> set SYSTEM_CAPABILITY_NAMES \<and>
   ''inventory.manage'' \<notin> set SCOPABLE_VERBS \<and> ''master_data.manage'' \<notin> set SCOPABLE_VERBS"
  by code_simp

lemma holders_system:
  "v \<in> set SYSTEM_CAPABILITY_NAMES \<Longrightarrow> w \<in> set (holders_of v) \<Longrightarrow> w \<in> set SYSTEM_CAPABILITY_NAMES"
  using implied_verbs_system by (auto simp: holders_of_simps split: if_splits)

lemma holders_unscoped:
  "v \<notin> set SCOPABLE_VERBS \<Longrightarrow> w \<in> set (holders_of v) \<Longrightarrow> w \<notin> set SCOPABLE_VERBS"
  using implied_verbs_system by (auto simp: holders_of_simps split: if_splits)

lemma explicit_scoped:
  "explicit_grant (w @ '':'' @ s) \<Longrightarrow> w \<in> set SYSTEM_CAPABILITY_NAMES \<Longrightarrow> w \<in> set SCOPABLE_VERBS \<and> s \<noteq> []"
  by (auto simp: explicit_grant_def partition_at_present split: if_splits)

lemma explicit_bare:
  "explicit_grant w \<Longrightarrow> w \<in> set SYSTEM_CAPABILITY_NAMES \<Longrightarrow> w \<notin> set SCOPABLE_VERBS"
  by (auto simp: explicit_grant_def partition_at_absent split: if_splits)

lemma capability_covers_scoped:
  "CHR ''|'' \<notin> set (w @ '':'' @ s) \<Longrightarrow> w \<in> set SYSTEM_CAPABILITY_NAMES \<Longrightarrow> s \<noteq> [] \<Longrightarrow>
    capability_covers own (w @ '':'' @ s) = permissions_cover own w (Some s)"
  by (auto simp: capability_covers_def capability_covers_one_def partition_at_present)

lemma capability_covers_bare:
  "CHR ''|'' \<notin> set w \<Longrightarrow> w \<in> set SYSTEM_CAPABILITY_NAMES \<Longrightarrow>
    capability_covers own w = permissions_cover_any_scope own w"
  by (auto simp: capability_covers_def capability_covers_one_def partition_at_absent)

lemma permissions_cover_wider:
  "permissions_cover own w scope \<Longrightarrow> w \<in> set (holders_of v) \<Longrightarrow> permissions_cover own v scope"
  using holders_of_trans by (auto simp: permissions_cover_iff)

lemma permissions_cover_star: "permissions_cover own v (Some ''*'') \<Longrightarrow> permissions_cover own v scope"
  by (auto simp: permissions_cover_iff grants_verb_def)

lemma bare_cover_explicit:
  assumes "permissions_cover_any_scope own w" and "\<forall>g \<in> set own. explicit_grant g"
    and "w \<in> set SYSTEM_CAPABILITY_NAMES" and "w \<notin> set SCOPABLE_VERBS"
  shows "permissions_cover own w scope"
proof -
  from assms(1) obtain u where u: "u \<in> set (holders_of w)"
    and "u \<in> set own \<or> (\<exists>s. u @ '':'' @ s \<in> set own)" by (auto simp: permissions_cover_any_scope_iff)
  moreover have "u \<in> set SYSTEM_CAPABILITY_NAMES" "u \<notin> set SCOPABLE_VERBS"
    using holders_system holders_unscoped u assms by blast+
  ultimately have "u \<in> set own" using assms(2) explicit_scoped by blast
  with u show ?thesis by (auto simp: permissions_cover_iff grants_verb_def)
qed

lemma grants_beyond_Nil_iff: "grants_beyond own grants = [] \<longleftrightarrow> (\<forall>g \<in> set grants. capability_covers own g)"
proof -
  have "grants_beyond own grants = [] \<longleftrightarrow> set (grants_beyond own grants) = {}" by simp
  also have "\<dots> \<longleftrightarrow> (\<forall>g \<in> set grants. capability_covers own g)" by (auto simp: grants_beyond_def)
  finally show ?thesis .
qed

lemma within_own_no_escalation:
  assumes "grants_beyond own grants = []"
    and explicit: "\<forall>g \<in> set own \<union> set grants. explicit_grant g"
    and v: "v \<in> set SYSTEM_CAPABILITY_NAMES" and "permissions_cover grants v scope"
  shows "permissions_cover own v scope"
proof -
  from assms(4) obtain w where w: "w \<in> set (holders_of v)" and g: "grants_verb grants scope w"
    by (auto simp: permissions_cover_iff)
  have sys: "w \<in> set SYSTEM_CAPABILITY_NAMES" using holders_system v w by blast
  have cov: "capability_covers own g" "CHR ''|'' \<notin> set g" if "g \<in> set grants" for g
    using assms(1) explicit that by (auto simp: grants_beyond_Nil_iff explicit_grant_def)
  from g consider "w \<in> set grants" | s where "w @ '':'' @ s \<in> set grants" "s = ''*'' \<or> scope = Some s"
    by (auto simp: grants_verb_def split: option.splits)
  then have "permissions_cover own w scope"
  proof cases
    case 1
    then have "permissions_cover_any_scope own w"
      using cov [OF 1] sys capability_covers_bare by blast
    moreover have "w \<notin> set SCOPABLE_VERBS" using 1 explicit sys by (simp add: explicit_bare)
    ultimately show ?thesis using explicit sys by (simp add: bare_cover_explicit)
  next
    case 2
    then have "s \<noteq> []" using explicit explicit_scoped sys by blast
    then have "permissions_cover own w (Some s)"
      using 2 cov [OF 2(1)] sys capability_covers_scoped by blast
    then show ?thesis using 2(2) permissions_cover_star by blast
  qed
  then show ?thesis using w permissions_cover_wider by blast
qed

end
