(* ===== verification/Machines.thy ===== *)
theory Machines
  imports Permissions
begin

text \<open>
  \<open>app/services/state_machines.py\<close>: the shipped lifecycles, the check a workspace's own
  machine passes before it is stored, and the questions the server asks of a stored machine.

  A machine arrives as JSON (\<open>dict[str, Any]\<close>), so \<open>ensure_valid_state_machine\<close> works on
  \<open>json\<close> values and keeps Python's type tests, its short-circuits and the \<open>TypeError\<close> of a
  set-membership test on an unhashable value (an unhandled exception: status 500). A stored
  machine is the record \<open>machine\<close>, read off its JSON by \<open>machine_of_json\<close>.
\<close>

datatype json =
    JNull
  | JBool bool
  | JNum rat
  | JStr string
  | JList "json list"
  | JObj "(string \<times> json) list"

record machine =
  m_initial :: string
  m_states :: "string list"
  m_transitions :: "(string \<times> string list) list"
  m_editable_states :: "string list option"
  m_roles :: "(string \<times> string) list"
  m_stock_effect :: "(string \<times> string) option"
  m_account_effect :: "(string \<times> string) option"

text \<open>A row of \<open>object_type_definitions\<close>; \<open>None\<close> is a missing or empty machine.\<close>

record type_definition =
  td_tenant_id :: uuid
  td_entity_kind :: string
  td_object_type :: string
  td_status :: string
  td_state_machine :: "machine option"

subsection \<open>The shipped lifecycles\<close>

definition DEFAULT_TIMESHEET_MACHINE :: machine where
  "DEFAULT_TIMESHEET_MACHINE = \<lparr>
     m_initial = ''draft'',
     m_states = [''draft'', ''submitted'', ''approved'', ''rejected'', ''returned''],
     m_transitions = [
        (''draft'', [''submitted'']),
        (''submitted'', [''approved'', ''rejected'', ''returned'']),
        (''returned'', [''submitted'']),
        (''approved'', []),
        (''rejected'', [])],
     m_editable_states = Some [''draft'', ''returned''],
     m_roles = [], m_stock_effect = None, m_account_effect = None\<rparr>"

definition DEFAULT_LEAVE_MACHINE :: machine where
  "DEFAULT_LEAVE_MACHINE = \<lparr>
     m_initial = ''draft'',
     m_states = [''draft'', ''submitted'', ''approved'', ''rejected'', ''returned'', ''cancelled'', ''taken''],
     m_transitions = [
        (''draft'', [''submitted'', ''cancelled'']),
        (''submitted'', [''approved'', ''rejected'', ''returned'', ''cancelled'']),
        (''returned'', [''submitted'', ''cancelled'']),
        (''approved'', [''taken'', ''cancelled'']),
        (''taken'', []),
        (''rejected'', []),
        (''cancelled'', [])],
     m_editable_states = Some [''draft'', ''returned''],
     m_roles = [], m_stock_effect = None, m_account_effect = None\<rparr>"

definition DEFAULT_EXPENSE_MACHINE :: machine where
  "DEFAULT_EXPENSE_MACHINE = \<lparr>
     m_initial = ''draft'',
     m_states = [''draft'', ''submitted'', ''approved'', ''rejected'', ''returned'', ''paid''],
     m_transitions = [
        (''draft'', [''submitted'']),
        (''submitted'', [''approved'', ''rejected'', ''returned'']),
        (''returned'', [''submitted'']),
        (''approved'', [''paid'']),
        (''rejected'', []),
        (''paid'', [])],
     m_editable_states = Some [''draft'', ''returned''],
     m_roles = [], m_stock_effect = None, m_account_effect = None\<rparr>"

definition DEFAULT_PURCHASE_MACHINE :: machine where
  "DEFAULT_PURCHASE_MACHINE = \<lparr>
     m_initial = ''draft'',
     m_states = [''draft'', ''submitted'', ''approved'', ''rejected'', ''returned'', ''ordered''],
     m_transitions = [
        (''draft'', [''submitted'']),
        (''submitted'', [''approved'', ''rejected'', ''returned'']),
        (''returned'', [''submitted'']),
        (''approved'', [''ordered'']),
        (''rejected'', []),
        (''ordered'', [])],
     m_editable_states = Some [''draft'', ''returned''],
     m_roles = [], m_stock_effect = None, m_account_effect = None\<rparr>"

definition DEFAULT_QUOTATION_MACHINE :: machine where
  "DEFAULT_QUOTATION_MACHINE = \<lparr>
     m_initial = ''draft'',
     m_states = [''draft'', ''submitted'', ''approved'', ''rejected'', ''returned'', ''sent'', ''accepted'', ''declined'', ''expired'', ''superseded''],
     m_transitions = [
        (''draft'', [''submitted'']),
        (''submitted'', [''approved'', ''rejected'', ''returned'']),
        (''returned'', [''submitted'']),
        (''approved'', [''sent'', ''superseded'']),
        (''sent'', [''accepted'', ''declined'', ''expired'', ''superseded'']),
        (''rejected'', []),
        (''accepted'', []),
        (''declined'', []),
        (''expired'', []),
        (''superseded'', [])],
     m_editable_states = Some [''draft'', ''returned''],
     m_roles = [], m_stock_effect = None, m_account_effect = None\<rparr>"

definition DEFAULT_ORDER_MACHINE :: machine where
  "DEFAULT_ORDER_MACHINE = \<lparr>
     m_initial = ''draft'',
     m_states = [''draft'', ''submitted'', ''confirmed'', ''rejected'', ''returned'', ''shipped'', ''signed'', ''cancelled''],
     m_transitions = [
        (''draft'', [''submitted'', ''cancelled'']),
        (''submitted'', [''confirmed'', ''rejected'', ''returned'']),
        (''returned'', [''submitted'', ''cancelled'']),
        (''confirmed'', [''shipped'', ''cancelled'']),
        (''shipped'', [''signed'']),
        (''signed'', []),
        (''rejected'', []),
        (''cancelled'', [])],
     m_editable_states = Some [''draft'', ''returned''],
     m_roles = [], m_stock_effect = None, m_account_effect = None\<rparr>"

definition DEFAULT_PURCHASE_ORDER_MACHINE :: machine where
  "DEFAULT_PURCHASE_ORDER_MACHINE = \<lparr>
     m_initial = ''draft'',
     m_states = [''draft'', ''submitted'', ''confirmed'', ''received'', ''closed'', ''cancelled''],
     m_transitions = [
        (''draft'', [''submitted'', ''cancelled'']),
        (''submitted'', [''confirmed'', ''cancelled'']),
        (''confirmed'', [''received'', ''cancelled'']),
        (''received'', [''closed'']),
        (''closed'', []),
        (''cancelled'', [])],
     m_editable_states = Some [''draft''],
     m_roles = [], m_stock_effect = None, m_account_effect = None\<rparr>"

definition DEFAULT_SALES_RETURN_MACHINE :: machine where
  "DEFAULT_SALES_RETURN_MACHINE = \<lparr>
     m_initial = ''draft'',
     m_states = [''draft'', ''submitted'', ''approved'', ''rejected'', ''in_transit'', ''received'', ''inspected'', ''refunded'', ''cancelled''],
     m_transitions = [
        (''draft'', [''submitted'', ''cancelled'']),
        (''submitted'', [''approved'', ''rejected'', ''cancelled'']),
        (''approved'', [''in_transit'', ''received'', ''refunded'', ''cancelled'']),
        (''in_transit'', [''received'', ''cancelled'']),
        (''received'', [''inspected'', ''refunded'']),
        (''inspected'', [''refunded'']),
        (''refunded'', []),
        (''rejected'', []),
        (''cancelled'', [])],
     m_editable_states = Some [''draft''],
     m_roles = [], m_stock_effect = None, m_account_effect = None\<rparr>"

definition DEFAULT_PURCHASE_RETURN_MACHINE :: machine where
  "DEFAULT_PURCHASE_RETURN_MACHINE = \<lparr>
     m_initial = ''draft'',
     m_states = [''draft'', ''submitted'', ''approved'', ''rejected'', ''shipped'', ''refunded'', ''cancelled''],
     m_transitions = [
        (''draft'', [''submitted'', ''cancelled'']),
        (''submitted'', [''approved'', ''rejected'', ''cancelled'']),
        (''approved'', [''shipped'', ''refunded'', ''cancelled'']),
        (''shipped'', [''refunded'']),
        (''refunded'', []),
        (''rejected'', []),
        (''cancelled'', [])],
     m_editable_states = Some [''draft''],
     m_roles = [], m_stock_effect = None, m_account_effect = None\<rparr>"

definition DEFAULT_SHIPMENT_MACHINE :: machine where
  "DEFAULT_SHIPMENT_MACHINE = \<lparr>
     m_initial = ''draft'',
     m_states = [''draft'', ''packed'', ''shipped'', ''received'', ''cancelled''],
     m_transitions = [
        (''draft'', [''packed'', ''shipped'', ''cancelled'']),
        (''packed'', [''shipped'', ''cancelled'']),
        (''shipped'', [''received'']),
        (''received'', []),
        (''cancelled'', [])],
     m_editable_states = Some [''draft'', ''packed''],
     m_roles = [], m_stock_effect = None, m_account_effect = None\<rparr>"

definition DEFAULT_INVOICE_MACHINE :: machine where
  "DEFAULT_INVOICE_MACHINE = \<lparr>
     m_initial = ''draft'',
     m_states = [''draft'', ''submitted'', ''returned'', ''issued'', ''paid'', ''written_off'', ''void'', ''cancelled''],
     m_transitions = [
        (''draft'', [''submitted'', ''cancelled'']),
        (''submitted'', [''issued'', ''returned'', ''cancelled'']),
        (''returned'', [''submitted'', ''cancelled'']),
        (''issued'', [''paid'', ''written_off'', ''void'']),
        (''paid'', []),
        (''written_off'', []),
        (''void'', []),
        (''cancelled'', [])],
     m_editable_states = Some [''draft'', ''returned''],
     m_roles = [], m_stock_effect = None, m_account_effect = None\<rparr>"

definition DEFAULT_PAYMENT_MACHINE :: machine where
  "DEFAULT_PAYMENT_MACHINE = \<lparr>
     m_initial = ''draft'',
     m_states = [''draft'', ''submitted'', ''approved'', ''rejected'', ''returned'', ''paid'', ''cancelled'', ''void''],
     m_transitions = [
        (''draft'', [''submitted'', ''cancelled'']),
        (''submitted'', [''approved'', ''rejected'', ''returned'', ''cancelled'']),
        (''returned'', [''submitted'', ''cancelled'']),
        (''approved'', [''paid'', ''cancelled'']),
        (''paid'', [''void'']),
        (''rejected'', []),
        (''cancelled'', []),
        (''void'', [])],
     m_editable_states = Some [''draft'', ''returned''],
     m_roles = [], m_stock_effect = None, m_account_effect = None\<rparr>"

definition DEFAULT_LEAD_MACHINE :: machine where
  "DEFAULT_LEAD_MACHINE = \<lparr>
     m_initial = ''new'',
     m_states = [''new'', ''contacted'', ''qualified'', ''converted'', ''disqualified''],
     m_transitions = [
        (''new'', [''contacted'', ''qualified'', ''disqualified'']),
        (''contacted'', [''qualified'', ''disqualified'']),
        (''qualified'', [''converted'', ''disqualified'']),
        (''disqualified'', [''contacted'']),
        (''converted'', [])],
     m_editable_states = Some [''new'', ''contacted'', ''qualified''],
     m_roles = [], m_stock_effect = None, m_account_effect = None\<rparr>"

definition DEFAULT_CAMPAIGN_MACHINE :: machine where
  "DEFAULT_CAMPAIGN_MACHINE = \<lparr>
     m_initial = ''planned'',
     m_states = [''planned'', ''active'', ''completed'', ''cancelled''],
     m_transitions = [
        (''planned'', [''active'', ''cancelled'']),
        (''active'', [''completed'', ''cancelled'']),
        (''completed'', []),
        (''cancelled'', [])],
     m_editable_states = Some [''planned'', ''active''],
     m_roles = [], m_stock_effect = None, m_account_effect = None\<rparr>"

definition DEFAULT_EVENT_MACHINE :: machine where
  "DEFAULT_EVENT_MACHINE = \<lparr>
     m_initial = ''planned'',
     m_states = [''planned'', ''held'', ''cancelled''],
     m_transitions = [
        (''planned'', [''held'', ''cancelled'']),
        (''held'', []),
        (''cancelled'', [''planned''])],
     m_editable_states = Some [''planned''],
     m_roles = [], m_stock_effect = None, m_account_effect = None\<rparr>"

definition DEFAULT_OPPORTUNITY_MACHINE :: machine where
  "DEFAULT_OPPORTUNITY_MACHINE = \<lparr>
     m_initial = ''open'',
     m_states = [''open'', ''quoting'', ''negotiating'', ''won'', ''lost''],
     m_transitions = [
        (''open'', [''quoting'', ''negotiating'', ''won'', ''lost'']),
        (''quoting'', [''negotiating'', ''won'', ''lost'']),
        (''negotiating'', [''won'', ''lost'']),
        (''won'', []),
        (''lost'', [])],
     m_editable_states = Some [''open'', ''quoting'', ''negotiating''],
     m_roles = [], m_stock_effect = None, m_account_effect = None\<rparr>"

definition DEFAULT_PICKLIST_MACHINE :: machine where
  "DEFAULT_PICKLIST_MACHINE = \<lparr>
     m_initial = ''draft'',
     m_states = [''draft'', ''picking'', ''picked'', ''completed'', ''cancelled''],
     m_transitions = [
        (''draft'', [''picking'', ''cancelled'']),
        (''picking'', [''picked'', ''cancelled'']),
        (''picked'', [''completed'', ''cancelled'']),
        (''completed'', []),
        (''cancelled'', [])],
     m_editable_states = Some [''draft'', ''picking''],
     m_roles = [], m_stock_effect = None, m_account_effect = None\<rparr>"

definition DEFAULT_CONTRACT_MACHINE :: machine where
  "DEFAULT_CONTRACT_MACHINE = \<lparr>
     m_initial = ''draft'',
     m_states = [''draft'', ''negotiating'', ''signed'', ''active'', ''expired'', ''terminated'', ''cancelled''],
     m_transitions = [
        (''draft'', [''negotiating'', ''signed'', ''cancelled'']),
        (''negotiating'', [''draft'', ''signed'', ''cancelled'']),
        (''signed'', [''active'', ''terminated'']),
        (''active'', [''expired'', ''terminated'']),
        (''expired'', []),
        (''terminated'', []),
        (''cancelled'', [])],
     m_editable_states = Some [''draft'', ''negotiating''],
     m_roles = [], m_stock_effect = None, m_account_effect = None\<rparr>"

definition BUILTIN_MACHINES :: "(string \<times> machine) list" where
  "BUILTIN_MACHINES = [
     (''timesheet_header'', DEFAULT_TIMESHEET_MACHINE),
     (''employee_leave'', DEFAULT_LEAVE_MACHINE),
     (''expense_claim'', DEFAULT_EXPENSE_MACHINE),
     (''purchase_request'', DEFAULT_PURCHASE_MACHINE),
     (''sales_quotation'', DEFAULT_QUOTATION_MACHINE),
     (''sales_order'', DEFAULT_ORDER_MACHINE),
     (''purchase_order'', DEFAULT_PURCHASE_ORDER_MACHINE),
     (''sales_return'', DEFAULT_SALES_RETURN_MACHINE),
     (''purchase_return'', DEFAULT_PURCHASE_RETURN_MACHINE),
     (''shipment'', DEFAULT_SHIPMENT_MACHINE),
     (''picklist'', DEFAULT_PICKLIST_MACHINE),
     (''contract'', DEFAULT_CONTRACT_MACHINE),
     (''lead'', DEFAULT_LEAD_MACHINE),
     (''opportunity'', DEFAULT_OPPORTUNITY_MACHINE),
     (''campaign'', DEFAULT_CAMPAIGN_MACHINE),
     (''event'', DEFAULT_EVENT_MACHINE),
     (''invoice'', DEFAULT_INVOICE_MACHINE),
     (''payment'', DEFAULT_PAYMENT_MACHINE)]"

definition STATE_ROLES :: "(string \<times> string list) list" where
  "STATE_ROLES = [
     (''timesheet_header'', [''submitted'']),
     (''employee_leave'', [''submitted'']),
     (''expense_claim'', [''submitted'']),
     (''purchase_request'', [''submitted'']),
     (''sales_quotation'', [''submitted'', ''superseded'', ''sent'']),
     (''sales_order'', [''submitted'', ''confirmed'', ''cancelled'']),
     (''purchase_order'', [''submitted'']),
     (''sales_return'', [''submitted'']),
     (''purchase_return'', [''submitted'']),
     (''shipment'', []),
     (''picklist'', []),
     (''contract'', []),
     (''lead'', [''converted'']),
     (''opportunity'', [''quoting'', ''won'']),
     (''campaign'', []),
     (''event'', [''held'']),
     (''invoice'', [''submitted'', ''issued'']),
     (''payment'', [''submitted'', ''paid''])]"

definition DEFAULT_BUSINESS_OBJECT_STATES :: "string list" where
  "DEFAULT_BUSINESS_OBJECT_STATES = [''open'', ''in_review'', ''approved'', ''rejected'', ''archived'']"

definition STOCK_DOCUMENT_REASONS :: "string list" where
  "STOCK_DOCUMENT_REASONS = [
     ''received'', ''issued'', ''returned'', ''adjustment'', ''damaged'', ''transfer'', ''production'', ''other'']"

definition RESERVED_ACCOUNT_REASONS :: "string list" where
  "RESERVED_ACCOUNT_REASONS = [''deposit'', ''charge'', ''refund'', ''expired'', ''initial'', ''import_initial'']"

subsection \<open>Validating a machine\<close>

definition TypeError :: http_error where
  "TypeError = HttpError 500 ''TypeError''"

definition KeyError :: http_error where
  "KeyError = HttpError 500 ''KeyError''"

text \<open>\<open>x in state_set\<close> for a set of strings: a list or a dict has no hash.\<close>

fun member_of :: "string list \<Rightarrow> json \<Rightarrow> bool result" where
  "member_of names (JStr s) = Inr (s \<in> set names)"
| "member_of names (JList _) = Inl TypeError"
| "member_of names (JObj _) = Inl TypeError"
| "member_of names _ = Inr False"

fun all_members :: "string list \<Rightarrow> json list \<Rightarrow> bool result" where
  "all_members names [] = Inr True"
| "all_members names (x # xs) = bindE (member_of names x) (\<lambda>b. if b then all_members names xs else Inr False)"

fun non_empty_string :: "json \<Rightarrow> bool" where
  "non_empty_string (JStr s) = (s \<noteq> [])"
| "non_empty_string _ = False"

fun is_string :: "json \<Rightarrow> bool" where
  "is_string (JStr _) = True"
| "is_string _ = False"

fun the_string :: "json \<Rightarrow> string" where
  "the_string (JStr s) = s"
| "the_string _ = []"

definition fail :: "string \<Rightarrow> 'a result" where
  "fail why = Inl (HttpError 422 why)"

fun check_states :: "json \<Rightarrow> string list result" where
  "check_states (JList ss) =
     (if ss = [] \<or> \<not> list_all non_empty_string ss then fail ''states_must_be_a_non_empty_list_of_strings''
      else if \<not> distinct (map the_string ss) then fail ''states_contains_duplicates''
      else Inr (map the_string ss))"
| "check_states _ = fail ''states_must_be_a_non_empty_list_of_strings''"

fun check_transitions :: "string list \<Rightarrow> json \<Rightarrow> unit result" where
  "check_transitions states (JObj tr) =
     each (\<lambda>(from_state, to_states).
       if from_state \<notin> set states then fail ''transition_source_is_not_a_declared_state''
       else (case to_states of
               JList ts \<Rightarrow> bindE (all_members states ts) (\<lambda>b.
                 ensure b 422 ''transition_targets_must_be_declared_states'')
             | _ \<Rightarrow> fail ''transition_targets_must_be_declared_states'')) tr"
| "check_transitions states _ = fail ''transitions_must_be_an_object''"

fun check_editable :: "string list \<Rightarrow> json \<Rightarrow> unit result" where
  "check_editable states (JList es) =
     bindE (all_members states es) (\<lambda>b. ensure b 422 ''editable_states_must_be_declared_states'')"
| "check_editable states _ = fail ''editable_states_must_be_declared_states''"

fun check_roles :: "string list \<Rightarrow> json \<Rightarrow> (string \<times> string) list result" where
  "check_roles states (JObj rs) =
     (if \<not> list_all (\<lambda>(k, v). is_string v) rs then fail ''roles_must_map_role_names_to_state_names''
      else let roles = map (\<lambda>(k, v). (k, the_string v)) rs in
        bindE (each (\<lambda>(role, target). ensure (target \<in> set states) 422 ''role_names_an_undeclared_state'') roles)
          (\<lambda>_. Inr roles))"
| "check_roles states _ = fail ''roles_must_map_role_names_to_state_names''"

definition check_stock_effect :: "string list \<Rightarrow> string \<Rightarrow> json \<Rightarrow> unit result" where
  "check_stock_effect states entity_kind effect =
     (if effect = JNull then Inr ()
      else if entity_kind \<noteq> ''business_object'' then fail ''stock_effect_belongs_to_a_business_object_type''
      else case effect of
        JObj e \<Rightarrow>
          bindE (member_of STOCK_DOCUMENT_REASONS (dict_get e ''reason'' JNull)) (\<lambda>b.
          bindE (ensure b 422 ''unknown_stock_effect_reason'') (\<lambda>_.
          bindE (member_of states (dict_get e ''state'' JNull)) (\<lambda>b'.
          ensure b' 422 ''stock_effect_state_is_not_declared'')))
      | _ \<Rightarrow> fail ''stock_effect_must_be_an_object'')"

definition check_account_effect :: "string list \<Rightarrow> string \<Rightarrow> json \<Rightarrow> unit result" where
  "check_account_effect states entity_kind account =
     (if account = JNull then Inr ()
      else if entity_kind \<noteq> ''business_object'' then fail ''account_effect_belongs_to_a_business_object_type''
      else case account of
        JObj a \<Rightarrow>
          (if \<not> non_empty_string (dict_get a ''reason'' JNull) then fail ''account_effect_must_be_an_object''
           else if the_string (dict_get a ''reason'' JNull) \<in> set RESERVED_ACCOUNT_REASONS
           then fail ''account_effect_reason_has_its_own_door''
           else bindE (member_of states (dict_get a ''state'' JNull)) (\<lambda>b.
             ensure b 422 ''account_effect_state_is_not_declared''))
      | _ \<Rightarrow> fail ''account_effect_must_be_an_object'')"

definition check_builtin :: "string list \<Rightarrow> (string \<times> string) list \<Rightarrow> string \<Rightarrow> string \<Rightarrow> unit result" where
  "check_builtin states roles entity_kind object_type =
     (if entity_kind \<noteq> ''builtin'' then Inr ()
      else case map_of STATE_ROLES object_type of
        None \<Rightarrow> fail ''unknown_builtin_entity''
      | Some required \<Rightarrow>
          bindE (ensure (set (map fst roles) \<subseteq> set required) 422 ''builtin_has_no_such_role'') (\<lambda>_.
          each (\<lambda>role. ensure (dict_get roles role role \<in> set states) 422 ''role_resolves_to_no_state'') required))"

definition ensure_valid_state_machine :: "(string \<times> json) list \<Rightarrow> string \<Rightarrow> string \<Rightarrow> unit result" where
  "ensure_valid_state_machine machine entity_kind object_type =
     bindE (check_states (dict_get machine ''states'' JNull)) (\<lambda>states.
     bindE (member_of states (dict_get machine ''initial'' JNull)) (\<lambda>ok.
     bindE (ensure ok 422 ''initial_must_be_one_of_states'') (\<lambda>_.
     bindE (check_transitions states (dict_get machine ''transitions'' JNull)) (\<lambda>_.
     bindE (check_editable states (dict_get machine ''editable_states'' (JList []))) (\<lambda>_.
     bindE (check_roles states (dict_get machine ''roles'' (JObj []))) (\<lambda>roles.
     bindE (check_stock_effect states entity_kind (dict_get machine ''stock_effect'' JNull)) (\<lambda>_.
     bindE (check_account_effect states entity_kind (dict_get machine ''account_effect'' JNull)) (\<lambda>_.
     check_builtin states roles entity_kind object_type))))))))"

subsection \<open>A stored machine\<close>

fun json_strings :: "json \<Rightarrow> string list" where
  "json_strings (JList xs) = map the_string xs"
| "json_strings _ = []"

fun json_items :: "json \<Rightarrow> (string \<times> json) list" where
  "json_items (JObj d) = d"
| "json_items _ = []"

definition effect_of_json :: "json \<Rightarrow> (string \<times> string) option" where
  "effect_of_json j = (case j of
       JObj e \<Rightarrow> Some (the_string (dict_get e ''reason'' JNull), the_string (dict_get e ''state'' JNull))
     | _ \<Rightarrow> None)"

definition machine_of_json :: "(string \<times> json) list \<Rightarrow> machine" where
  "machine_of_json d = \<lparr>
     m_initial = the_string (dict_get d ''initial'' JNull),
     m_states = json_strings (dict_get d ''states'' JNull),
     m_transitions = map (\<lambda>(s, ts). (s, json_strings ts)) (json_items (dict_get d ''transitions'' JNull)),
     m_editable_states = map_option json_strings (map_of d ''editable_states''),
     m_roles = map (\<lambda>(k, v). (k, the_string v)) (json_items (dict_get d ''roles'' JNull)),
     m_stock_effect = effect_of_json (dict_get d ''stock_effect'' JNull),
     m_account_effect = effect_of_json (dict_get d ''account_effect'' JNull)\<rparr>"

definition state_for_role :: "machine \<Rightarrow> string \<Rightarrow> string \<Rightarrow> string result" where
  "state_for_role machine object_type role =
     (let name = dict_get (m_roles machine) role role in
      if name \<notin> set (m_states machine) then Inl (HttpError 422 ''machine_has_no_state_for_the_role'')
      else Inr name)"

definition get_definition :: "type_definition list \<Rightarrow> uuid \<Rightarrow> string \<Rightarrow> string \<Rightarrow> type_definition option" where
  "get_definition defs tenant_id entity_kind object_type =
     find_row (\<lambda>d. td_tenant_id d = tenant_id \<and> td_entity_kind d = entity_kind \<and>
                    td_object_type d = object_type \<and> td_status d = ''active'') defs"

definition get_builtin_machine :: "type_definition list \<Rightarrow> uuid \<Rightarrow> string \<Rightarrow> machine result" where
  "get_builtin_machine defs tenant_id object_type =
     (case Option.bind (get_definition defs tenant_id ''builtin'' object_type) td_state_machine of
        Some m \<Rightarrow> Inr m
      | None \<Rightarrow> (case map_of BUILTIN_MACHINES object_type of None \<Rightarrow> Inl KeyError | Some m \<Rightarrow> Inr m))"

definition get_business_object_machine :: "type_definition list \<Rightarrow> uuid \<Rightarrow> string \<Rightarrow> machine option" where
  "get_business_object_machine defs tenant_id object_type =
     Option.bind (get_definition defs tenant_id ''business_object'' object_type) td_state_machine"

definition validate_transition :: "machine \<Rightarrow> string \<Rightarrow> string \<Rightarrow> unit result" where
  "validate_transition machine current new =
     (if new = current then Inr ()
      else if new \<notin> set (m_states machine) then Inl (HttpError 409 ''not_a_state_of_the_machine'')
      else if current \<notin> set (m_states machine) then Inr ()
      else if new \<notin> set (dict_get (m_transitions machine) current []) then Inl (HttpError 409 ''illegal_transition'')
      else Inr ())"

definition is_terminal_state :: "machine \<Rightarrow> string \<Rightarrow> bool" where
  "is_terminal_state machine state =
     (case map_of (m_transitions machine) state of None \<Rightarrow> False | Some targets \<Rightarrow> targets = [])"

definition validate_business_object_status ::
    "type_definition list \<Rightarrow> uuid \<Rightarrow> string \<Rightarrow> string option \<Rightarrow> string \<Rightarrow> unit result" where
  "validate_business_object_status defs tenant_id object_type current new =
     (case get_business_object_machine defs tenant_id object_type of
        None \<Rightarrow> ensure (new \<in> set DEFAULT_BUSINESS_OBJECT_STATES) 422 ''status_is_not_a_default_state''
      | Some machine \<Rightarrow>
          (case current of
             None \<Rightarrow> ensure (new \<in> set (m_states machine)) 422 ''status_is_not_a_state''
           | Some c \<Rightarrow> validate_transition machine c new))"

definition validate_status_filter ::
    "type_definition list \<Rightarrow> uuid \<Rightarrow> string list \<Rightarrow> string option \<Rightarrow> unit result" where
  "validate_status_filter defs tenant_id types status_filter =
     (case status_filter of None \<Rightarrow> Inr ()
      | Some wanted \<Rightarrow>
          bindE (mapE (get_builtin_machine defs tenant_id) types) (\<lambda>machines.
          ensure (wanted \<in> set (concat (map m_states machines))) 422 ''unknown_status''))"

definition validate_business_object_status_filter ::
    "type_definition list \<Rightarrow> uuid \<Rightarrow> string option \<Rightarrow> string option \<Rightarrow> unit result" where
  "validate_business_object_status_filter defs tenant_id object_type status_filter =
     (case (status_filter, object_type) of
        (Some wanted, Some kind) \<Rightarrow>
          (let states = (case get_business_object_machine defs tenant_id kind of
                           Some machine \<Rightarrow> m_states machine | None \<Rightarrow> DEFAULT_BUSINESS_OBJECT_STATES)
           in ensure (wanted \<in> set states) 422 ''unknown_status'')
      | _ \<Rightarrow> Inr ())"

definition editable_states :: "machine \<Rightarrow> string \<Rightarrow> string list result" where
  "editable_states machine object_type =
     (case map_of BUILTIN_MACHINES object_type of
        None \<Rightarrow> Inl KeyError
      | Some shipped \<Rightarrow>
          Inr (case m_editable_states machine of
                 Some es \<Rightarrow> es
               | None \<Rightarrow> (case m_editable_states shipped of Some es \<Rightarrow> es | None \<Rightarrow> [])))"

subsection \<open>Well-formed machines\<close>

definition well_formed_machine :: "machine \<Rightarrow> bool" where
  "well_formed_machine m \<longleftrightarrow>
     m_states m \<noteq> [] \<and> distinct (m_states m) \<and> m_initial m \<in> set (m_states m) \<and>
     list_all (\<lambda>(s, ts). s \<in> set (m_states m) \<and> set ts \<subseteq> set (m_states m)) (m_transitions m) \<and>
     (case m_editable_states m of None \<Rightarrow> True | Some es \<Rightarrow> set es \<subseteq> set (m_states m)) \<and>
     list_all (\<lambda>(r, t). t \<in> set (m_states m)) (m_roles m)"

definition roles_resolve :: "machine \<Rightarrow> string \<Rightarrow> bool" where
  "roles_resolve m object_type \<longleftrightarrow>
     (case map_of STATE_ROLES object_type of
        None \<Rightarrow> False
      | Some required \<Rightarrow> list_all (\<lambda>role. is_ok (state_for_role m object_type role)) required)"

lemma member_of_Inr_True: "member_of names x = Inr True \<longleftrightarrow> is_string x \<and> the_string x \<in> set names"
  by (cases x) auto

lemma all_members_Inr_True:
  "all_members names xs = Inr True \<longleftrightarrow> (\<forall>x \<in> set xs. is_string x \<and> the_string x \<in> set names)"
  by (induction xs) (auto simp: result_simps member_of_Inr_True split: if_splits)

lemma bindE_ensure_Inr_iff [simp]:
  "bindE r (\<lambda>b. ensure b st why) = Inr u \<longleftrightarrow> r = Inr True"
  by (cases r) (auto simp: ensure_Inr_iff)

lemma check_states_Inr:
  assumes "check_states j = Inr names"
  shows "json_strings j = names \<and> names \<noteq> [] \<and> distinct names"
  using assms by (cases j) (auto simp: fail_def split: if_splits)

lemma check_transitions_Inr:
  assumes "check_transitions names j = Inr ()" and "(s, t) \<in> set (json_items j)"
  shows "s \<in> set names \<and> set (json_strings t) \<subseteq> set names"
proof -
  from assms(1) obtain tr where j: "j = JObj tr" by (cases j) (auto simp: fail_def)
  with assms show ?thesis
    by (cases t) (auto simp: each_Inr_iff fail_def all_members_Inr_True split: if_splits)
qed

lemma check_editable_Inr: "check_editable names j = Inr () \<Longrightarrow> set (json_strings j) \<subseteq> set names"
  by (cases j) (auto simp: fail_def all_members_Inr_True)

lemma check_roles_Inr:
  assumes "check_roles names j = Inr roles"
  shows "roles = map (\<lambda>(k, v). (k, the_string v)) (json_items j) \<and> (\<forall>(r, t) \<in> set roles. t \<in> set names)"
proof -
  from assms obtain rs where "j = JObj rs" by (cases j) (auto simp: fail_def)
  with assms show ?thesis
    by (auto simp: Let_def fail_def result_simps split_def split: if_splits)
qed

lemma check_builtin_Inr:
  assumes "check_builtin names (m_roles m) ''builtin'' t = Inr ()" and "m_states m = names"
  shows "roles_resolve m t"
  using assms
  by (auto simp: check_builtin_def roles_resolve_def state_for_role_def fail_def Let_def result_simps
      list_all_iff is_ok_iff split: option.splits)

lemma valid_machine_well_formed:
  assumes "ensure_valid_state_machine d kind t = Inr ()"
  shows "well_formed_machine (machine_of_json d)"
    and "kind = ''builtin'' \<Longrightarrow> roles_resolve (machine_of_json d) t"
proof -
  from assms obtain names roles where
    1: "check_states (dict_get d ''states'' JNull) = Inr names"
    and 2: "member_of names (dict_get d ''initial'' JNull) = Inr True"
    and 3: "check_transitions names (dict_get d ''transitions'' JNull) = Inr ()"
    and 4: "check_editable names (dict_get d ''editable_states'' (JList [])) = Inr ()"
    and 5: "check_roles names (dict_get d ''roles'' (JObj [])) = Inr roles"
    and 6: "check_builtin names roles kind t = Inr ()"
    by (auto simp: ensure_valid_state_machine_def result_simps)
  let ?m = "machine_of_json d"
  have states: "m_states ?m = names" "names \<noteq> []" "distinct names"
    using check_states_Inr [OF 1] by (auto simp: machine_of_json_def)
  have roles: "m_roles ?m = roles" "\<forall>(r, t) \<in> set roles. t \<in> set names"
    using check_roles_Inr [OF 5] by (auto simp: machine_of_json_def dict_get_def split: option.splits)
  have "m_initial ?m \<in> set names"
    using 2 by (auto simp: machine_of_json_def member_of_Inr_True)
  moreover have "\<forall>(s, ts) \<in> set (m_transitions ?m). s \<in> set names \<and> set ts \<subseteq> set names"
    using check_transitions_Inr [OF 3] by (fastforce simp: machine_of_json_def)
  moreover have "case m_editable_states ?m of None \<Rightarrow> True | Some es \<Rightarrow> set es \<subseteq> set names"
    using check_editable_Inr [OF 4] by (auto simp: machine_of_json_def dict_get_def split: option.splits)
  ultimately show "well_formed_machine ?m"
    using states roles by (auto simp: well_formed_machine_def list_all_iff)
  show "roles_resolve ?m t" if "kind = ''builtin''"
    using 6 roles(1) states(1) that check_builtin_Inr by blast
qed

lemma shipped_machines_valid:
  "list_all (\<lambda>(t, m). well_formed_machine m \<and> roles_resolve m t) BUILTIN_MACHINES"
  by code_simp

subsection \<open>Walking through a machine\<close>

text \<open>
  A status column governed by a transition check: every accepted move lands in a declared
  state. The facts about histories of a document follow from that alone.
\<close>

locale lifecycle =
  fixes moves :: "'s \<Rightarrow> 's \<Rightarrow> bool" and declared :: "'s set"
  assumes lands_declared: "moves s t \<Longrightarrow> t \<noteq> s \<Longrightarrow> t \<in> declared"
begin

lemma history_declared: "moves\<^sup>*\<^sup>* s t \<Longrightarrow> t = s \<or> t \<in> declared"
  by (induction rule: rtranclp_induct) (auto dest: lands_declared)

lemma history_stuck: "moves\<^sup>*\<^sup>* s t \<Longrightarrow> (\<And>u. moves s u \<Longrightarrow> u = s) \<Longrightarrow> t = s"
  by (induction rule: rtranclp_induct) auto

end

definition moves_to :: "machine \<Rightarrow> string \<Rightarrow> string \<Rightarrow> bool" where
  "moves_to m current new \<longleftrightarrow> is_ok (validate_transition m current new)"

lemma moves_to_iff:
  "moves_to m current new \<longleftrightarrow> new = current \<or> new \<in> set (m_states m) \<and>
     (current \<in> set (m_states m) \<longrightarrow> new \<in> set (dict_get (m_transitions m) current []))"
  by (auto simp: moves_to_def validate_transition_def)

interpretation status: lifecycle "moves_to m" "set (m_states m)" for m
  by unfold_locales (auto simp: moves_to_iff)

lemma terminal_moves: "is_terminal_state m s \<Longrightarrow> s \<in> set (m_states m) \<Longrightarrow> moves_to m s u \<Longrightarrow> u = s"
  by (auto simp: moves_to_iff is_terminal_state_def dict_get_def split: option.splits)

lemma validate_transition_Inr_declared:
  "validate_transition m current new = Inr () \<Longrightarrow> new = current \<or> new \<in> set (m_states m)"
  by (auto simp: validate_transition_def split: if_splits)

lemma state_for_role_Inr:
  "state_for_role m t role = Inr s \<longleftrightarrow> s = dict_get (m_roles m) role role \<and> s \<in> set (m_states m)"
  by (auto simp: state_for_role_def Let_def)

subsection \<open>Properties\<close>

text \<open>C9: A machine the server accepts is sound: its states are distinct and declared, every
  transition, editable state and role names a declared state, and for a builtin lifecycle every
  role the server's own endpoints rely on resolves to one of its states.\<close>

theorem accepted_machine_is_sound:
  assumes "ensure_valid_state_machine d entity_kind object_type = Inr ()"
  shows "well_formed_machine (machine_of_json d) \<and>
    (entity_kind = ''builtin'' \<longrightarrow> roles_resolve (machine_of_json d) object_type)"
  using valid_machine_well_formed [OF assms] by blast

definition renamed_invoice_machine :: "(string \<times> json) list" where
  "renamed_invoice_machine = [
     (''initial'', JStr ''open''),
     (''states'', JList [JStr ''open'', JStr ''filed'', JStr ''approved'']),
     (''transitions'', JObj [(''open'', JList [JStr ''filed'']), (''filed'', JList [JStr ''approved'', JStr ''open''])]),
     (''roles'', JObj [(''submitted'', JStr ''filed''), (''issued'', JStr ''approved'')])]"

theorem accepted_machine_is_sound_witness:
  "well_formed_machine (machine_of_json renamed_invoice_machine) \<and>
    roles_resolve (machine_of_json renamed_invoice_machine) ''invoice''"
proof -
  have "ensure_valid_state_machine renamed_invoice_machine ''builtin'' ''invoice'' = Inr ()" by code_simp
  from accepted_machine_is_sound [OF this] show ?thesis by simp
qed

text \<open>C8: Whatever sequence of accepted moves a document goes through, it ends where it started or in
  a declared state of its machine, and it never leaves a declared terminal state.\<close>

theorem history_stays_in_the_machine:
  assumes "(moves_to m)\<^sup>*\<^sup>* s t"
  shows "(t = s \<or> t \<in> set (m_states m)) \<and> (is_terminal_state m s \<and> s \<in> set (m_states m) \<longrightarrow> t = s)"
  using assms status.history_declared status.history_stuck terminal_moves by metis

theorem history_stays_in_the_machine_witness:
  "''taken'' = ''draft'' \<or> ''taken'' \<in> set (m_states DEFAULT_LEAVE_MACHINE)"
proof -
  have "moves_to DEFAULT_LEAVE_MACHINE ''draft'' ''submitted''"
    "moves_to DEFAULT_LEAVE_MACHINE ''submitted'' ''approved''"
    "moves_to DEFAULT_LEAVE_MACHINE ''approved'' ''taken''"
    by code_simp+
  then have "(moves_to DEFAULT_LEAVE_MACHINE)\<^sup>*\<^sup>* ''draft'' ''taken''"
    by (meson r_into_rtranclp rtranclp_trans)
  from history_stays_in_the_machine [OF this] show ?thesis by blast
qed

text \<open>A declared state that the machine's transitions do not mention allows nothing to follow, yet
  it does not count as terminal: the work open on a document that reaches it is never retired. The
  validation accepts such a machine (the renamed invoice machine above is one).\<close>

theorem unlisted_state_is_stuck_but_not_terminal:
  "let m = machine_of_json renamed_invoice_machine in
     ensure_valid_state_machine renamed_invoice_machine ''builtin'' ''invoice'' = Inr () \<and>
     ''approved'' \<in> set (m_states m) \<and> {t. moves_to m ''approved'' t} \<subseteq> {''approved''} \<and>
     \<not> is_terminal_state m ''approved''"
proof -
  let ?m = "machine_of_json renamed_invoice_machine"
  have "dict_get (m_transitions ?m) ''approved'' [] = []" by code_simp
  moreover have "''approved'' \<in> set (m_states ?m)" by code_simp
  moreover have "\<not> is_terminal_state ?m ''approved''" by code_simp
  moreover have "ensure_valid_state_machine renamed_invoice_machine ''builtin'' ''invoice'' = Inr ()" by code_simp
  ultimately show ?thesis by (auto simp: Let_def moves_to_iff)
qed

text \<open>The validation does not refuse every malformed machine: an \<open>initial\<close> that is a list (or an
  object) has no hash, so the membership test raises and the request ends in an internal error.\<close>

theorem list_valued_initial_is_an_internal_error:
  "ensure_valid_state_machine [(''states'', JList [JStr ''draft'']), (''initial'', JList [])] kind t = Inl TypeError"
  by (simp add: ensure_valid_state_machine_def dict_get_def)

end
