(* ===== verification/Actors.thy ===== *)
theory Actors
  imports Machines
begin

text \<open>
  Who is calling: \<open>app/api/deps.py\<close>, \<open>app/services/roles.py\<close>, \<open>app/services/access_guards.py\<close>
  and the role handlers of \<open>app/api/roles.py\<close>.

  The identity tables are one record, \<open>identity\<close>. The digest of a presented secret (SHA-256)
  is the parameter \<open>digest\<close>; the clock is the parameter \<open>now\<close>, read once per request.
\<close>

record tenant =
  tn_id :: uuid
  tn_status :: string
  tn_flow_runner_enabled :: bool

record user =
  us_id :: uuid
  us_tenant_id :: uuid
  us_email :: string
  us_role :: string
  us_status :: string
  us_employee_id :: "uuid option"
  us_password_hash :: "string option"

record user_session =
  se_id :: uuid
  se_user_id :: uuid
  se_token_hash :: string
  se_expires_at :: timestamp
  se_revoked_at :: "timestamp option"

record api_key =
  ak_id :: uuid
  ak_tenant_id :: uuid
  ak_key_hash :: string
  ak_user_id :: "uuid option"
  ak_role :: string
  ak_principal_kind :: string
  ak_is_active :: bool
  ak_expires_at :: "timestamp option"
  ak_refresh_token_hash :: "string option"
  ak_prior_refresh_token_hash :: "string option"
  ak_refresh_rotated_at :: "timestamp option"

record role_row =
  ro_id :: uuid
  ro_tenant_id :: uuid
  ro_name :: string
  ro_permissions :: "string list"
  ro_is_system :: bool

record flow_subscription =
  fs_id :: uuid
  fs_tenant_id :: uuid
  fs_entity_type :: string
  fs_queue_filter :: "(string \<times> json) list"
  fs_cadence_seconds :: int
  fs_enabled :: bool
  fs_api_key_id :: "uuid option"
  fs_unmoved_runs :: nat
  fs_parked_at :: "timestamp option"
  fs_parked_reason :: "string option"
  fs_driver_skill :: string
  fs_created_by :: "string option"

text \<open>An audit row; the \<open>detail\<close> JSON is not modelled.\<close>

record audit_row =
  au_tenant_id :: uuid
  au_action :: string
  au_entity_type :: string
  au_entity_id :: uuid
  au_actor :: "string option"

record identity =
  id_tenants :: "tenant list"
  id_users :: "user list"
  id_sessions :: "user_session list"
  id_keys :: "api_key list"
  id_roles :: "role_row list"
  id_subscriptions :: "flow_subscription list"
  id_custom_capabilities :: "(uuid \<times> string) list"
  id_audit :: "audit_row list"

text \<open>\<open>write_scope\<close> is the queue filter per entity type a hosted agent may write to.\<close>

record actor =
  ac_tenant_id :: uuid
  ac_kind :: string
  ac_role :: string
  ac_user_id :: "uuid option"
  ac_employee_id :: "uuid option"
  ac_credential_id :: "uuid option"
  ac_permissions :: "string list"
  ac_write_scope :: "(string \<times> (string \<times> json) list) list option"
  ac_principal_kind :: string

definition PRINCIPAL_TENANT_SERVICE :: string where
  "PRINCIPAL_TENANT_SERVICE = ''tenant_service''"

definition PRINCIPAL_HOSTED_FLOW_AGENT :: string where
  "PRINCIPAL_HOSTED_FLOW_AGENT = ''hosted_flow_agent''"

lemma principals_distinct [simp]: "PRINCIPAL_TENANT_SERVICE \<noteq> PRINCIPAL_HOSTED_FLOW_AGENT"
  by (simp add: PRINCIPAL_TENANT_SERVICE_def PRINCIPAL_HOSTED_FLOW_AGENT_def)

subsection \<open>The grants of a role\<close>

definition role_permissions :: "identity \<Rightarrow> uuid \<Rightarrow> (string \<times> string list) list" where
  "role_permissions db tenant_id =
     map (\<lambda>r. (ro_name r, ro_permissions r)) (filter (\<lambda>r. ro_tenant_id r = tenant_id) (id_roles db))"

definition role_grants :: "(string \<times> string list) list \<Rightarrow> string \<Rightarrow> string list" where
  "role_grants roles role_name =
     (case map_of roles role_name of
        Some grants \<Rightarrow> grants
      | None \<Rightarrow> dict_get DEFAULT_ROLE_PERMISSIONS role_name [])"

definition find_role :: "identity \<Rightarrow> uuid \<Rightarrow> string \<Rightarrow> role_row option" where
  "find_role db tenant_id name = find_row (\<lambda>r. ro_tenant_id r = tenant_id \<and> ro_name r = name) (id_roles db)"

definition permissions_of_role :: "identity \<Rightarrow> uuid \<Rightarrow> string \<Rightarrow> string list" where
  "permissions_of_role db tenant_id role_name =
     (case find_role db tenant_id role_name of
        Some r \<Rightarrow> ro_permissions r
      | None \<Rightarrow> dict_get DEFAULT_ROLE_PERMISSIONS role_name [])"

subsection \<open>The actor of a request\<close>

definition str_option :: "string option \<Rightarrow> string" where
  "str_option x = (case x of None \<Rightarrow> ''None'' | Some s \<Rightarrow> s)"

definition label :: "actor \<Rightarrow> string" where
  "label a = (if ac_kind a = ''user'' then ''user:'' @ str_option (ac_user_id a)
              else ''key:'' @ str_option (ac_credential_id a))"

definition bypasses_permissions :: "actor \<Rightarrow> bool" where
  "bypasses_permissions a \<longleftrightarrow> ac_kind a = ''service'' \<and> ac_principal_kind a = PRINCIPAL_TENANT_SERVICE"

definition find_tenant :: "identity \<Rightarrow> uuid \<Rightarrow> tenant option" where
  "find_tenant db i = find_row (\<lambda>t. tn_id t = i) (id_tenants db)"

definition find_user :: "identity \<Rightarrow> uuid \<Rightarrow> user option" where
  "find_user db i = find_row (\<lambda>u. us_id u = i) (id_users db)"

definition ensure_tenant_active :: "identity \<Rightarrow> uuid \<Rightarrow> tenant result" where
  "ensure_tenant_active db tenant_id =
     (case find_tenant db tenant_id of
        None \<Rightarrow> Inl (HttpError 403 ''tenant_is_suspended'')
      | Some t \<Rightarrow> if tn_status t \<noteq> ''active'' then Inl (HttpError 403 ''tenant_is_suspended'') else Inr t)"

definition ensure_flow_runner_allowed :: "tenant \<Rightarrow> unit result" where
  "ensure_flow_runner_allowed t = ensure (tn_flow_runner_enabled t) 403 ''hosted_flow_runner_is_switched_off''"

definition actor_from_user :: "identity \<Rightarrow> user \<Rightarrow> uuid \<Rightarrow> actor" where
  "actor_from_user db u credential_id = \<lparr>
     ac_tenant_id = us_tenant_id u, ac_kind = ''user'', ac_role = us_role u,
     ac_user_id = Some (us_id u), ac_employee_id = us_employee_id u,
     ac_credential_id = Some credential_id,
     ac_permissions = permissions_of_role db (us_tenant_id u) (us_role u),
     ac_write_scope = None, ac_principal_kind = PRINCIPAL_TENANT_SERVICE\<rparr>"

definition active_user :: "identity \<Rightarrow> uuid \<Rightarrow> string \<Rightarrow> user result" where
  "active_user db i why =
     (case find_user db i of
        None \<Rightarrow> Inl (HttpError 401 why)
      | Some u \<Rightarrow> if us_status u \<noteq> ''active'' then Inl (HttpError 401 why) else Inr u)"

definition find_session :: "(string \<Rightarrow> string) \<Rightarrow> identity \<Rightarrow> string \<Rightarrow> user_session option" where
  "find_session digest db token =
     find_row (\<lambda>s. se_token_hash s = digest token \<and> se_revoked_at s = None) (id_sessions db)"

definition resolve_session_actor ::
    "(string \<Rightarrow> string) \<Rightarrow> timestamp \<Rightarrow> identity \<Rightarrow> string \<Rightarrow> actor result" where
  "resolve_session_actor digest now db token =
     (case find_session digest db token of
        None \<Rightarrow> Inl (HttpError 401 ''invalid_or_expired_session'')
      | Some s \<Rightarrow>
          if se_expires_at s < now then Inl (HttpError 401 ''invalid_or_expired_session'')
          else bindE (active_user db (se_user_id s) ''user_is_not_active'') (\<lambda>u.
               bindE (ensure_tenant_active db (us_tenant_id u)) (\<lambda>_.
               Inr (actor_from_user db u (se_id s)))))"

definition is_expired :: "timestamp \<Rightarrow> api_key \<Rightarrow> bool" where
  "is_expired now k = (case ak_expires_at k of None \<Rightarrow> False | Some e \<Rightarrow> e < now)"

definition hosted_agent_permissions :: "identity \<Rightarrow> uuid \<Rightarrow> string list" where
  "hosted_agent_permissions db tenant_id =
     (case find_row (\<lambda>r. ro_tenant_id r = tenant_id \<and> ro_name r = HOSTED_FLOW_AGENT_ROLE \<and> ro_is_system r)
             (id_roles db) of
        None \<Rightarrow> HOSTED_FLOW_AGENT_PERMISSIONS
      | Some r \<Rightarrow> ro_permissions r)"

text \<open>A dict comprehension keeps the last value of a key, so the rows are read newest first.\<close>

definition hosted_write_scope :: "identity \<Rightarrow> api_key \<Rightarrow> (string \<times> (string \<times> json) list) list" where
  "hosted_write_scope db k =
     rev (map (\<lambda>s. (fs_entity_type s, fs_queue_filter s))
       (filter (\<lambda>s. fs_tenant_id s = ak_tenant_id k \<and> fs_api_key_id s = Some (ak_id k) \<and> fs_enabled s)
         (id_subscriptions db)))"

definition service_actor :: "identity \<Rightarrow> api_key \<Rightarrow> string \<Rightarrow> actor" where
  "service_actor db k principal_kind = \<lparr>
     ac_tenant_id = ak_tenant_id k, ac_kind = ''service'',
     ac_role = (if ak_role k = [] then ''service'' else ak_role k),
     ac_user_id = None, ac_employee_id = None, ac_credential_id = Some (ak_id k),
     ac_permissions = (if principal_kind = PRINCIPAL_HOSTED_FLOW_AGENT
                       then hosted_agent_permissions db (ak_tenant_id k) else []),
     ac_write_scope = (if principal_kind = PRINCIPAL_HOSTED_FLOW_AGENT
                       then Some (hosted_write_scope db k) else None),
     ac_principal_kind = principal_kind\<rparr>"

definition resolve_api_key_actor ::
    "(string \<Rightarrow> string) \<Rightarrow> timestamp \<Rightarrow> identity \<Rightarrow> string \<Rightarrow> actor result" where
  "resolve_api_key_actor digest now db value =
     (case find_row (\<lambda>k. ak_key_hash k = digest value \<and> ak_is_active k) (id_keys db) of
        None \<Rightarrow> Inl (HttpError 401 ''invalid_API_key'')
      | Some k \<Rightarrow>
          if is_expired now k then Inl (HttpError 401 ''API_key_expired'')
          else bindE (ensure_tenant_active db (ak_tenant_id k)) (\<lambda>t.
            case ak_user_id k of
              None \<Rightarrow>
                (let principal_kind = (if ak_principal_kind k = [] then PRINCIPAL_TENANT_SERVICE
                                       else ak_principal_kind k) in
                 bindE (if principal_kind = PRINCIPAL_HOSTED_FLOW_AGENT then ensure_flow_runner_allowed t
                        else Inr ()) (\<lambda>_.
                 Inr (service_actor db k principal_kind)))
            | Some i \<Rightarrow>
                bindE (active_user db i ''API_key_owner_is_not_active'') (\<lambda>u.
                Inr (actor_from_user db u (ak_id k)))))"

definition resolve_bearer_actor ::
    "(string \<Rightarrow> string) \<Rightarrow> timestamp \<Rightarrow> identity \<Rightarrow> string \<Rightarrow> actor result" where
  "resolve_bearer_actor digest now db token =
     (case find_session digest db token of
        Some _ \<Rightarrow> resolve_session_actor digest now db token
      | None \<Rightarrow> resolve_api_key_actor digest now db token)"

text \<open>The request's credentials, headers and cookies; \<open>None\<close> where one is absent.\<close>

record credentials =
  cr_method :: string
  cr_api_key :: "string option"
  cr_authorization :: "string option"
  cr_session_token :: "string option"
  cr_csrf_cookie :: "string option"
  cr_csrf_header :: "string option"

definition given :: "string option \<Rightarrow> bool" where
  "given x = (case x of None \<Rightarrow> False | Some s \<Rightarrow> s \<noteq> [])"

definition authenticate ::
    "(string \<Rightarrow> string) \<Rightarrow> timestamp \<Rightarrow> identity \<Rightarrow> credentials \<Rightarrow> actor result" where
  "authenticate digest now db r =
     (if given (cr_authorization r) \<and> startswith (lower (the (cr_authorization r))) ''bearer ''
      then resolve_bearer_actor digest now db (strip (drop 7 (the (cr_authorization r))))
      else if given (cr_api_key r) then resolve_api_key_actor digest now db (the (cr_api_key r))
      else if given (cr_session_token r) then
        bindE (resolve_session_actor digest now db (the (cr_session_token r))) (\<lambda>a.
        if cr_method r \<in> set [''GET'', ''HEAD'', ''OPTIONS'', ''TRACE''] then Inr a
        else bindE (ensure (cr_csrf_cookie r \<noteq> None \<and> cr_csrf_header r \<noteq> None \<and>
                            cr_csrf_cookie r = cr_csrf_header r) 403 ''missing_or_invalid_CSRF_token'') (\<lambda>_.
          Inr a))
      else Inl (HttpError 401 ''a_credential_is_required''))"

text \<open>\<open>kind:value\<close>, the idempotency middleware's own spelling of a credential.\<close>

definition authenticate_credential ::
    "(string \<Rightarrow> string) \<Rightarrow> timestamp \<Rightarrow> identity \<Rightarrow> string \<Rightarrow> unit result" where
  "authenticate_credential digest now db credential =
     (let (kind, _, value) = partition_at (CHR '':'') credential in
      bindE (if kind = ''key'' then resolve_api_key_actor digest now db value
             else if kind = ''bearer'' then resolve_bearer_actor digest now db value
             else if kind = ''session'' then resolve_session_actor digest now db value
             else Inl (HttpError 401 ''unknown_credential'')) (\<lambda>_. Inr ()))"

definition get_user_key_actor ::
    "(string \<Rightarrow> string) \<Rightarrow> timestamp \<Rightarrow> identity \<Rightarrow> string option \<Rightarrow> actor result" where
  "get_user_key_actor digest now db x_api_key =
     bindE (ensure (given x_api_key) 401 ''X_API_Key_header_is_required'') (\<lambda>_.
     bindE (resolve_api_key_actor digest now db (the x_api_key)) (\<lambda>a.
     bindE (ensure (ac_kind a = ''user'') 403 ''a_user_bound_API_key_is_required'') (\<lambda>_. Inr a)))"

subsection \<open>What an actor may do\<close>

definition has_permission :: "actor \<Rightarrow> string \<Rightarrow> string option \<Rightarrow> bool" where
  "has_permission a verb scope \<longleftrightarrow> bypasses_permissions a \<or> permissions_cover (ac_permissions a) verb scope"

definition has_permission_any_scope :: "actor \<Rightarrow> string \<Rightarrow> bool" where
  "has_permission_any_scope a verb \<longleftrightarrow>
     bypasses_permissions a \<or> permissions_cover_any_scope (ac_permissions a) verb"

definition require_permission :: "actor \<Rightarrow> string \<Rightarrow> string option \<Rightarrow> unit result" where
  "require_permission a verb scope = ensure (has_permission a verb scope) 403 ''requires_capability''"

definition attributed :: "actor \<Rightarrow> string option \<Rightarrow> string" where
  "attributed a provided =
     (if ac_kind a = ''user'' \<or> ac_principal_kind a = PRINCIPAL_HOSTED_FLOW_AGENT then label a
      else case provided of None \<Rightarrow> label a | Some p \<Rightarrow> p)"

definition enforce_member_employee :: "actor \<Rightarrow> uuid option \<Rightarrow> unit result" where
  "enforce_member_employee a employee_id =
     (if ac_kind a = ''user'' \<and> \<not> has_permission a ''tenant.act_for_any_employee'' None
      then ensure (ac_employee_id a \<noteq> None \<and> ac_employee_id a = employee_id) 403
             ''this_credential_can_only_act_on_its_own_employee_records''
      else Inr ())"

definition require_master_data_manage :: "actor \<Rightarrow> unit result" where
  "require_master_data_manage a =
     ensure (has_permission a ''master_data.manage'' None \<or> has_permission a ''users.manage'' None) 403 ''requires_capability''"

definition administers :: "actor \<Rightarrow> bool" where
  "administers a \<longleftrightarrow> bypasses_permissions a \<or> ac_role a = ''admin''"

definition ensure_grants_within_own :: "actor \<Rightarrow> string list \<Rightarrow> unit result" where
  "ensure_grants_within_own a grants =
     (if administers a then Inr ()
      else ensure (grants_beyond (ac_permissions a) grants = []) 403 ''grants_what_you_do_not_hold'')"

definition ensure_may_assign_role :: "identity \<Rightarrow> actor \<Rightarrow> string \<Rightarrow> unit result" where
  "ensure_may_assign_role db a role_name =
     ensure_grants_within_own a (permissions_of_role db (ac_tenant_id a) role_name)"

definition ensure_may_act_on_user :: "identity \<Rightarrow> actor \<Rightarrow> user \<Rightarrow> unit result" where
  "ensure_may_act_on_user db a u =
     (if administers a then Inr ()
      else ensure (grants_beyond (ac_permissions a) (permissions_of_role db (ac_tenant_id a) (us_role u)) = [])
             403 ''holds_what_you_do_not'')"

definition ACCESS_CAPABILITIES :: "string list" where
  "ACCESS_CAPABILITIES = [''users.manage'', ''keys.manage'', ''skills.manage'']"

definition ensure_may_issue_key_for :: "identity \<Rightarrow> actor \<Rightarrow> user \<Rightarrow> unit result" where
  "ensure_may_issue_key_for db a u =
     (if administers a then Inr ()
      else let held = permissions_of_role db (ac_tenant_id a) (us_role u);
               access = filter (\<lambda>grant. fst (partition_at (CHR '':'') grant) \<in> set ACCESS_CAPABILITIES) held;
               beyond = grants_beyond (ac_permissions a) access
           in ensure (\<not> (us_role u = ''admin'' \<or> beyond \<noteq> [])) 403 ''administers_access'')"

definition ensure_may_issue_service_key :: "actor \<Rightarrow> unit result" where
  "ensure_may_issue_service_key a = ensure (administers a) 403 ''an_administrator_issues_it''"

subsection \<open>An authenticated actor is backed by live rows\<close>

text \<open>What an actor promises: its tenant is active; a person is an active user of that tenant with
  their role's grants and no hosted scope; a hosted agent may only run where the switch is on, and
  writes inside the subscriptions enabled for its key.\<close>

definition backed_by :: "identity \<Rightarrow> actor \<Rightarrow> bool" where
  "backed_by db a \<longleftrightarrow> (\<exists>t. find_tenant db (ac_tenant_id a) = Some t \<and> tn_status t = ''active'' \<and>
     (if ac_kind a = ''user''
      then ac_write_scope a = None \<and>
           (\<exists>u \<in> set (id_users db). us_status u = ''active'' \<and> ac_user_id a = Some (us_id u) \<and>
              us_tenant_id u = ac_tenant_id a \<and> ac_role a = us_role u \<and>
              ac_permissions a = permissions_of_role db (us_tenant_id u) (us_role u))
      else ac_principal_kind a = PRINCIPAL_HOSTED_FLOW_AGENT \<longrightarrow>
           tn_flow_runner_enabled t \<and>
           (\<forall>(kind, flt) \<in> set (the (ac_write_scope a)).
              \<exists>s \<in> set (id_subscriptions db). fs_enabled s \<and> fs_tenant_id s = ac_tenant_id a \<and>
                fs_entity_type s = kind \<and> fs_queue_filter s = flt)))"

lemma ensure_tenant_active_Inr:
  "ensure_tenant_active db i = Inr t \<longleftrightarrow> find_tenant db i = Some t \<and> tn_status t = ''active''"
  by (auto simp: ensure_tenant_active_def split: option.splits if_splits)

lemma active_user_Inr:
  "active_user db i why = Inr u \<Longrightarrow> u \<in> set (id_users db) \<and> us_id u = i \<and> us_status u = ''active''"
  by (auto simp: active_user_def find_user_def split: option.splits if_splits dest!: find_row_Some)

lemma user_actor_backed:
  "u \<in> set (id_users db) \<Longrightarrow> us_status u = ''active'' \<Longrightarrow> find_tenant db (us_tenant_id u) = Some t \<Longrightarrow>
    tn_status t = ''active'' \<Longrightarrow> backed_by db (actor_from_user db u c)"
  by (auto simp: backed_by_def actor_from_user_def)

lemma service_actor_backed:
  assumes "find_tenant db (ak_tenant_id k) = Some t" and "tn_status t = ''active''"
    and "pk = PRINCIPAL_HOSTED_FLOW_AGENT \<Longrightarrow> tn_flow_runner_enabled t"
  shows "backed_by db (service_actor db k pk)"
  using assms by (auto simp: backed_by_def service_actor_def hosted_write_scope_def)

lemma session_actor_backed: "resolve_session_actor digest now db token = Inr a \<Longrightarrow> backed_by db a"
  by (auto simp: resolve_session_actor_def result_simps ensure_tenant_active_Inr
      intro: user_actor_backed dest!: active_user_Inr split: option.splits if_splits)

text \<open>A key's owner belongs to the key's tenant (keys are minted for a user of the tenant).\<close>

definition keys_match_owners :: "identity \<Rightarrow> bool" where
  "keys_match_owners db \<longleftrightarrow> list_all (\<lambda>k. case ak_user_id k of None \<Rightarrow> True
     | Some i \<Rightarrow> list_all (\<lambda>u. us_id u = i \<longrightarrow> us_tenant_id u = ak_tenant_id k) (id_users db)) (id_keys db)"

lemma api_key_actor_backed:
  assumes "keys_match_owners db" and "resolve_api_key_actor digest now db value = Inr a"
  shows "backed_by db a"
proof -
  from assms(2) obtain k
    where find: "find_row (\<lambda>k. ak_key_hash k = digest value \<and> ak_is_active k) (id_keys db) = Some k"
    by (auto simp: resolve_api_key_actor_def split: option.splits)
  then have k: "k \<in> set (id_keys db)" by (auto dest: find_row_Some)
  define pk where "pk = (if ak_principal_kind k = [] then PRINCIPAL_TENANT_SERVICE else ak_principal_kind k)"
  have eq: "resolve_api_key_actor digest now db value =
     (if is_expired now k then Inl (HttpError 401 ''API_key_expired'')
      else bindE (ensure_tenant_active db (ak_tenant_id k)) (\<lambda>t.
        case ak_user_id k of
          None \<Rightarrow> bindE (if pk = PRINCIPAL_HOSTED_FLOW_AGENT then ensure_flow_runner_allowed t else Inr ()) (\<lambda>_.
                  Inr (service_actor db k pk))
        | Some i \<Rightarrow> bindE (active_user db i ''API_key_owner_is_not_active'') (\<lambda>u. Inr (actor_from_user db u (ak_id k)))))"
    by (simp add: resolve_api_key_actor_def find Let_def pk_def cong: if_cong option.case_cong)
  show ?thesis
  proof (cases "ak_user_id k")
    case None
    with assms(2) eq obtain t where "find_tenant db (ak_tenant_id k) = Some t" "tn_status t = ''active''"
      "pk = PRINCIPAL_HOSTED_FLOW_AGENT \<Longrightarrow> tn_flow_runner_enabled t" "a = service_actor db k pk"
      by (auto simp: result_simps ensure_tenant_active_Inr ensure_flow_runner_allowed_def split: if_splits)
    then show ?thesis using service_actor_backed by blast
  next
    case (Some i)
    with assms(2) eq obtain t u where t: "find_tenant db (ak_tenant_id k) = Some t" "tn_status t = ''active''"
      and "active_user db i ''API_key_owner_is_not_active'' = Inr u" and a: "a = actor_from_user db u (ak_id k)"
      by (auto simp: result_simps ensure_tenant_active_Inr split: if_splits)
    then have u: "u \<in> set (id_users db)" "us_id u = i" "us_status u = ''active''"
      using active_user_Inr by blast+
    have "us_tenant_id u = ak_tenant_id k"
      using assms(1) k Some u by (auto simp: keys_match_owners_def list_all_iff split: option.splits)
    with u t a show ?thesis by (auto intro: user_actor_backed)
  qed
qed

lemma bearer_actor_backed:
  "keys_match_owners db \<Longrightarrow> resolve_bearer_actor digest now db token = Inr a \<Longrightarrow> backed_by db a"
  by (auto simp: resolve_bearer_actor_def intro: api_key_actor_backed session_actor_backed split: option.splits)

lemma authenticate_backed:
  "keys_match_owners db \<Longrightarrow> authenticate digest now db r = Inr a \<Longrightarrow> backed_by db a"
  by (auto simp: authenticate_def result_simps
      intro: api_key_actor_backed session_actor_backed bearer_actor_backed split: if_splits)

text \<open>A request that authenticates is backed by live rows: whatever credential it carries, its
  tenant is active, a person is an active user with exactly their role's grants, and a hosted agent
  runs only where the platform's switch is on and writes only inside the enabled subscriptions of
  its own key.\<close>

theorem authenticated_actor_is_backed:
  assumes "keys_match_owners db" and "authenticate digest now db r = Inr a"
  shows "backed_by db a"
  using assms by (rule authenticate_backed)

definition demo_hosted :: identity where
  "demo_hosted = \<lparr>
     id_tenants = [\<lparr>tn_id = ''t'', tn_status = ''active'', tn_flow_runner_enabled = True\<rparr>],
     id_users = [], id_sessions = [],
     id_keys = [\<lparr>ak_id = ''k'', ak_tenant_id = ''t'', ak_key_hash = ''secret'', ak_user_id = None,
                 ak_role = ''service'', ak_principal_kind = ''hosted_flow_agent'', ak_is_active = True,
                 ak_expires_at = None, ak_refresh_token_hash = None, ak_prior_refresh_token_hash = None,
                 ak_refresh_rotated_at = None\<rparr>],
     id_roles = [],
     id_subscriptions = [\<lparr>fs_id = ''f'', fs_tenant_id = ''t'', fs_entity_type = ''employee_leave'',
                 fs_queue_filter = [(''status'', JStr ''submitted'')], fs_cadence_seconds = 300, fs_enabled = True,
                 fs_api_key_id = Some ''k'', fs_unmoved_runs = 0, fs_parked_at = None, fs_parked_reason = None,
                 fs_driver_skill = ''leave-flow'', fs_created_by = None\<rparr>],
     id_custom_capabilities = [], id_audit = []\<rparr>"

definition demo_request :: credentials where
  "demo_request = \<lparr>cr_method = ''POST'', cr_api_key = Some ''secret'', cr_authorization = None,
     cr_session_token = None, cr_csrf_cookie = None, cr_csrf_header = None\<rparr>"

theorem authenticated_actor_is_backed_witness:
  "backed_by demo_hosted (projr (authenticate (\<lambda>s. s) 0 demo_hosted demo_request))"
proof -
  have "authenticate (\<lambda>s. s) 0 demo_hosted demo_request =
      Inr (projr (authenticate (\<lambda>s. s) 0 demo_hosted demo_request))" by code_simp
  moreover have "keys_match_owners demo_hosted" by code_simp
  ultimately show ?thesis using authenticated_actor_is_backed by blast
qed

end
