(* ===== verification/Roles.thy ===== *)
theory Roles
  imports Actors
begin

text \<open>
  Managing roles: \<open>app/services/access_guards.py\<close> and the write handlers of
  \<open>app/api/roles.py\<close>. Two guards meet here: nobody but an administrator hands out a grant they
  do not hold, and a workspace always keeps an active person who can manage users.
\<close>

subsection \<open>The lockout guard\<close>

text \<open>\<open>dict.get(key, default)\<close> over an override mapping; later keys of a mapping update win.\<close>

definition override_roles ::
    "(string \<times> string list) list \<Rightarrow> (string \<times> string list) list \<Rightarrow> (string \<times> string list) list" where
  "override_roles overrides roles = rev overrides @ roles"

definition tenant_has_active_user_manager ::
    "identity \<Rightarrow> uuid \<Rightarrow> (uuid \<times> (string \<times> string)) list \<Rightarrow> (string \<times> string list) list \<Rightarrow> bool" where
  "tenant_has_active_user_manager db tenant_id user_overrides role_permission_overrides =
     (let roles = override_roles role_permission_overrides (role_permissions db tenant_id);
          active_users = filter (\<lambda>u. us_tenant_id u = tenant_id \<and> us_status u = ''active'') (id_users db);
          manages = (\<lambda>role_name. permissions_cover (role_grants roles role_name) ''users.manage'' None)
      in list_ex (\<lambda>u. let (st, role_name) = dict_get user_overrides (us_id u) (us_status u, us_role u)
                      in st = ''active'' \<and> manages role_name) active_users
         \<or> list_ex (\<lambda>(i, st, role_name). i \<notin> set (map us_id active_users) \<and> st = ''active'' \<and> manages role_name)
             user_overrides)"

subsection \<open>The role handlers\<close>

definition custom_capability_names :: "identity \<Rightarrow> uuid \<Rightarrow> string list" where
  "custom_capability_names db tenant_id =
     map snd (filter (\<lambda>(t, _). t = tenant_id) (id_custom_capabilities db))"

definition validate_permissions :: "identity \<Rightarrow> uuid \<Rightarrow> string list \<Rightarrow> unit result" where
  "validate_permissions db tenant_id permissions =
     each (\<lambda>grant. case validate_permission_grammar grant (custom_capability_names db tenant_id) of
                     None \<Rightarrow> Inr () | Some why \<Rightarrow> Inl (HttpError 422 why)) permissions"

definition get_role_or_404 :: "identity \<Rightarrow> uuid \<Rightarrow> string \<Rightarrow> role_row result" where
  "get_role_or_404 db tenant_id role_ref =
     (let by_id = (if length role_ref = 36 then find_row (\<lambda>r. ro_id r = role_ref) (id_roles db) else None);
          by_name = find_role db tenant_id role_ref
      in case by_id of
           Some r \<Rightarrow> (if ro_tenant_id r = tenant_id then Inr r
                      else case by_name of None \<Rightarrow> Inl (HttpError 404 ''Role_not_found'') | Some r' \<Rightarrow> Inr r')
         | None \<Rightarrow> (case by_name of None \<Rightarrow> Inl (HttpError 404 ''Role_not_found'') | Some r' \<Rightarrow> Inr r'))"

definition role_audit :: "actor \<Rightarrow> string \<Rightarrow> uuid \<Rightarrow> audit_row" where
  "role_audit a action i = \<lparr>au_tenant_id = ac_tenant_id a, au_action = action, au_entity_type = ''role'',
     au_entity_id = i, au_actor = Some (label a)\<rparr>"

definition create_role ::
    "uuid \<Rightarrow> identity \<Rightarrow> actor \<Rightarrow> string \<Rightarrow> string list \<Rightarrow> (role_row \<times> identity) result" where
  "create_role new_id db a name permissions =
     bindE (require_permission a ''users.manage'' None) (\<lambda>_.
     bindE (validate_permissions db (ac_tenant_id a) permissions) (\<lambda>_.
     bindE (ensure_grants_within_own a permissions) (\<lambda>_.
     bindE (ensure (find_role db (ac_tenant_id a) name = None) 409 ''role_name_already_exists'') (\<lambda>_.
     let role = \<lparr>ro_id = new_id, ro_tenant_id = ac_tenant_id a, ro_name = name,
                 ro_permissions = permissions, ro_is_system = False\<rparr>
     in Inr (role, db\<lparr>id_roles := id_roles db @ [role],
                      id_audit := id_audit db @ [role_audit a ''role.created'' new_id]\<rparr>)))))"

definition set_role_permissions :: "uuid \<Rightarrow> string \<Rightarrow> string list \<Rightarrow> identity \<Rightarrow> identity" where
  "set_role_permissions tenant_id name permissions db =
     db\<lparr>id_roles := update_rows (\<lambda>r. ro_tenant_id r = tenant_id \<and> ro_name r = name)
                      (\<lambda>r. r\<lparr>ro_permissions := permissions\<rparr>) (id_roles db)\<rparr>"

text \<open>The PATCH of a role: \<open>None\<close> is a body without \<open>permissions\<close>, \<open>Some None\<close> one that carries
  \<open>null\<close>, which the schema admits and the loop over it does not (title and description, which
  the body may also carry, are not modelled). A role is one row per (tenant, name).\<close>

definition update_role ::
    "identity \<Rightarrow> actor \<Rightarrow> string \<Rightarrow> string list option option \<Rightarrow> identity result" where
  "update_role db a role_ref updates =
     bindE (require_permission a ''users.manage'' None) (\<lambda>_.
     bindE (get_role_or_404 db (ac_tenant_id a) role_ref) (\<lambda>role.
     bindE (ensure (\<not> (ro_is_system role \<and> ro_name role = ''admin'' \<and> \<not> administers a)) 403
              ''only_an_administrator_changes_the_admin_role'') (\<lambda>_.
     bindE (ensure_grants_within_own a (ro_permissions role)) (\<lambda>_.
     case updates of
       None \<Rightarrow> Inr db
     | Some None \<Rightarrow> Inl TypeError
     | Some (Some permissions) \<Rightarrow>
         bindE (validate_permissions db (ac_tenant_id a) permissions) (\<lambda>_.
         bindE (ensure_grants_within_own a permissions) (\<lambda>_.
         bindE (ensure (\<not> (ro_is_system role \<and> ro_name role = ''admin'' \<and> ''users.manage'' \<notin> set permissions)) 422
                  ''the_admin_role_must_keep_users_manage'') (\<lambda>_.
         bindE (ensure (tenant_has_active_user_manager db (ac_tenant_id a) [] [(ro_name role, permissions)]) 422
                  ''tenant_must_keep_an_active_user_manager'') (\<lambda>_.
         let db' = set_role_permissions (ac_tenant_id a) (ro_name role) permissions db in
         Inr (db'\<lparr>id_audit := id_audit db' @ [role_audit a ''role.updated'' (ro_id role)]\<rparr>)))))))))"

definition delete_role :: "identity \<Rightarrow> actor \<Rightarrow> string \<Rightarrow> identity result" where
  "delete_role db a role_ref =
     bindE (require_permission a ''users.manage'' None) (\<lambda>_.
     bindE (get_role_or_404 db (ac_tenant_id a) role_ref) (\<lambda>role.
     bindE (ensure (\<not> ro_is_system role) 409 ''system_roles_cannot_be_deleted'') (\<lambda>_.
     bindE (ensure (\<not> list_ex (\<lambda>u. us_tenant_id u = ac_tenant_id a \<and> us_role u = ro_name role) (id_users db)) 409
              ''role_is_assigned_to_users'') (\<lambda>_.
     Inr (db\<lparr>id_roles := filter (\<lambda>r. ro_id r \<noteq> ro_id role) (id_roles db),
             id_audit := id_audit db @ [role_audit a ''role.deleted'' (ro_id role)]\<rparr>)))))"

definition create_capability :: "identity \<Rightarrow> actor \<Rightarrow> string \<Rightarrow> identity result" where
  "create_capability db a name =
     bindE (require_permission a ''users.manage'' None) (\<lambda>_.
     bindE (ensure (name \<notin> set SYSTEM_CAPABILITY_NAMES) 409 ''name_collides_with_a_system_capability'') (\<lambda>_.
     bindE (ensure (name \<notin> set (custom_capability_names db (ac_tenant_id a))) 409 ''capability_already_exists'') (\<lambda>_.
     Inr (db\<lparr>id_custom_capabilities := id_custom_capabilities db @ [(ac_tenant_id a, name)]\<rparr>))))"

subsection \<open>What the guards give\<close>

lemma get_role_or_404_Inr:
  "get_role_or_404 db t ref = Inr r \<Longrightarrow> r \<in> set (id_roles db) \<and> ro_tenant_id r = t"
  by (auto simp: get_role_or_404_def find_role_def Let_def split: option.splits if_splits dest!: find_row_Some)

lemma map_of_set_role_permissions:
  "map_of (role_permissions (set_role_permissions t name p db) t) rn =
     (if rn = name \<and> map_of (role_permissions db t) name \<noteq> None then Some p
      else map_of (role_permissions db t) rn)"
proof -
  have "map_of (map (\<lambda>r. (ro_name r, ro_permissions r)) (filter (\<lambda>r. ro_tenant_id r = t)
          (update_rows (\<lambda>r. ro_tenant_id r = t \<and> ro_name r = name) (\<lambda>r. r\<lparr>ro_permissions := p\<rparr>) rs))) rn =
        (let m = map_of (map (\<lambda>r. (ro_name r, ro_permissions r)) (filter (\<lambda>r. ro_tenant_id r = t) rs)) in
         if rn = name \<and> m name \<noteq> None then Some p else m rn)" for rs
    by (induction rs) (auto simp: Let_def)
  from this [of "id_roles db"] show ?thesis
    by (simp add: role_permissions_def set_role_permissions_def Let_def)
qed

lemma map_of_role_permissions_Some:
  "r \<in> set (id_roles db) \<Longrightarrow> ro_tenant_id r = t \<Longrightarrow> map_of (role_permissions db t) (ro_name r) \<noteq> None"
  unfolding map_of_eq_None_iff role_permissions_def by (auto simp: image_image)

lemma override_roles_Nil [simp]: "override_roles [] roles = roles"
  by (simp add: override_roles_def)

lemma id_users_set_role_permissions [simp]: "id_users (set_role_permissions t name p db) = id_users db"
  by (simp add: set_role_permissions_def)

lemma role_grants_set_role_permissions:
  "map_of (role_permissions db t) name \<noteq> None \<Longrightarrow>
    role_grants (role_permissions (set_role_permissions t name p db) t) rn =
    role_grants (override_roles [(name, p)] (role_permissions db t)) rn"
  by (auto simp: role_grants_def override_roles_def map_of_set_role_permissions)

lemma manager_simulation:
  "map_of (role_permissions db t) name \<noteq> None \<Longrightarrow>
    tenant_has_active_user_manager (set_role_permissions t name p db) t [] [] =
    tenant_has_active_user_manager db t [] [(name, p)]"
  using role_grants_set_role_permissions [of db t name p]
  by (simp add: tenant_has_active_user_manager_def Let_def dict_get_def)

lemma find_role_conv_map_of:
  "map_option ro_permissions (find_role db t name) = map_of (role_permissions db t) name"
proof -
  have "map_option ro_permissions (find_row (\<lambda>r. ro_tenant_id r = t \<and> ro_name r = name) rs) =
      map_of (map (\<lambda>r. (ro_name r, ro_permissions r)) (filter (\<lambda>r. ro_tenant_id r = t) rs)) name" for rs
    by (induction rs) auto
  then show ?thesis by (simp add: find_role_def role_permissions_def)
qed

lemma permissions_of_role_conv: "permissions_of_role db t name = role_grants (role_permissions db t) name"
  unfolding permissions_of_role_def role_grants_def find_role_conv_map_of [symmetric]
  by (simp split: option.splits)

lemma id_audit_role_permissions [simp]: "role_permissions (db\<lparr>id_audit := x\<rparr>) t = role_permissions db t"
  by (simp add: role_permissions_def)

lemma id_audit_manager [simp]:
  "tenant_has_active_user_manager (db\<lparr>id_audit := x\<rparr>) t us rs = tenant_has_active_user_manager db t us rs"
  by (simp add: tenant_has_active_user_manager_def)

lemma update_role_permissionsE:
  assumes "update_role db a ref (Some (Some p)) = Inr db'"
  obtains role where "role \<in> set (id_roles db)" "ro_tenant_id role = ac_tenant_id a"
    "has_permission a ''users.manage'' None"
    "ensure_grants_within_own a (ro_permissions role) = Inr ()"
    "ensure_grants_within_own a p = Inr ()"
    "tenant_has_active_user_manager db (ac_tenant_id a) [] [(ro_name role, p)]"
    "db' = (set_role_permissions (ac_tenant_id a) (ro_name role) p db)\<lparr>id_audit := id_audit db @
       [role_audit a ''role.updated'' (ro_id role)]\<rparr>"
proof -
  from assms obtain role where r: "get_role_or_404 db (ac_tenant_id a) ref = Inr role"
    and 1: "has_permission a ''users.manage'' None"
      "ensure_grants_within_own a (ro_permissions role) = Inr ()"
      "ensure_grants_within_own a p = Inr ()"
      "tenant_has_active_user_manager db (ac_tenant_id a) [] [(ro_name role, p)]"
      "db' = (set_role_permissions (ac_tenant_id a) (ro_name role) p db)\<lparr>id_audit := id_audit db @
       [role_audit a ''role.updated'' (ro_id role)]\<rparr>"
    by (auto simp: update_role_def require_permission_def Let_def result_simps set_role_permissions_def)
  from get_role_or_404_Inr [OF r] 1 show ?thesis by (intro that) auto
qed

lemma within_own_Inr:
  "ensure_grants_within_own a g = Inr () \<longleftrightarrow> administers a \<or> grants_beyond (ac_permissions a) g = []"
  by (simp add: ensure_grants_within_own_def ensure_Inr_iff)

subsection \<open>Properties\<close>

text \<open>Changing a role's grants never leaves the workspace without an active person whose role
  covers \<open>users.manage\<close>: the guard simulates the change before it is written, and the simulation
  is what is written.\<close>

theorem role_update_keeps_a_user_manager:
  assumes "update_role db a role_ref (Some (Some permissions)) = Inr db'"
  shows "tenant_has_active_user_manager db' (ac_tenant_id a) [] []"
  using assms
  by (rule update_role_permissionsE) (simp add: manager_simulation map_of_role_permissions_Some)

definition demo_identity :: identity where
  "demo_identity = \<lparr>
     id_tenants = [\<lparr>tn_id = ''t'', tn_status = ''active'', tn_flow_runner_enabled = True\<rparr>],
     id_users = [\<lparr>us_id = ''u'', us_tenant_id = ''t'', us_email = ''u@t'', us_role = ''desk'',
                  us_status = ''active'', us_employee_id = Some ''e'', us_password_hash = None\<rparr>],
     id_sessions = [\<lparr>se_id = ''s'', se_user_id = ''u'', se_token_hash = ''token'', se_expires_at = 100,
                     se_revoked_at = None\<rparr>],
     id_keys = [],
     id_roles = [\<lparr>ro_id = ''r'', ro_tenant_id = ''t'', ro_name = ''desk'',
                  ro_permissions = [''users.manage'', ''invoice.manage:sales''], ro_is_system = False\<rparr>],
     id_subscriptions = [], id_custom_capabilities = [], id_audit = []\<rparr>"

definition demo_desk :: actor where
  "demo_desk = actor_from_user demo_identity (hd (id_users demo_identity)) ''s''"

theorem role_update_keeps_a_user_manager_witness:
  "tenant_has_active_user_manager
     (projr (update_role demo_identity demo_desk ''desk'' (Some (Some [''users.manage''])))) ''t'' [] []"
proof -
  have "update_role demo_identity demo_desk ''desk'' (Some (Some [''users.manage''])) =
      Inr (projr (update_role demo_identity demo_desk ''desk'' (Some (Some [''users.manage'']))))"
    by code_simp
  moreover have "ac_tenant_id demo_desk = ''t''" by code_simp
  ultimately show ?thesis using role_update_keeps_a_user_manager by metis
qed

text \<open>Nobody but an administrator changes a role to reach further than they reach themselves:
  as long as every grant involved is explicit (a scopable verb names its scope), a verb the new
  grants cover is a verb the actor's own grants cover, at the same scope.\<close>

theorem role_update_hands_out_only_own_reach:
  assumes "update_role db a role_ref (Some (Some permissions)) = Inr db'"
    and "\<not> administers a"
    and "\<forall>g \<in> set (ac_permissions a) \<union> set permissions. explicit_grant g"
    and "verb \<in> set SYSTEM_CAPABILITY_NAMES" and "permissions_cover permissions verb scope"
  shows "permissions_cover (ac_permissions a) verb scope"
  using assms(1)
proof (rule update_role_permissionsE)
  assume "ensure_grants_within_own a permissions = Inr ()"
  with assms(2) have "grants_beyond (ac_permissions a) permissions = []" by (simp add: within_own_Inr)
  from within_own_no_escalation [OF this] assms(3-5) show ?thesis by blast
qed

theorem role_update_hands_out_only_own_reach_witness:
  "permissions_cover [''users.manage'', ''invoice.manage:sales''] ''invoice.manage'' (Some ''sales'')"
proof -
  have 1: "update_role demo_identity demo_desk ''desk'' (Some (Some [''users.manage'', ''invoice.manage:sales''])) =
      Inr (projr (update_role demo_identity demo_desk ''desk'' (Some (Some [''users.manage'', ''invoice.manage:sales'']))))"
    by code_simp
  have 2: "\<not> administers demo_desk" by code_simp
  have 3: "\<forall>g \<in> set (ac_permissions demo_desk) \<union> set [''users.manage'', ''invoice.manage:sales'']. explicit_grant g"
    by code_simp
  have 4: "''invoice.manage'' \<in> set SYSTEM_CAPABILITY_NAMES" by code_simp
  have 5: "permissions_cover [''users.manage'', ''invoice.manage:sales''] ''invoice.manage'' (Some ''sales'')"
    by code_simp
  from role_update_hands_out_only_own_reach [OF 1 2 3 4 5]
  show ?thesis by (simp add: demo_desk_def actor_from_user_def demo_identity_def permissions_of_role_def find_role_def)
qed

text \<open>The explicit form is needed. A desk holding one scope of a verb may write the bare verb
  into a role, which covers every scope: the guard reads a bare grant as "any scope of it".\<close>

theorem bare_grant_escapes_own_reach:
  "\<exists>db'. update_role demo_identity demo_desk ''desk'' (Some (Some [''users.manage'', ''invoice.manage''])) = Inr db' \<and>
     \<not> has_permission demo_desk ''invoice.manage'' (Some ''purchase'') \<and>
     permissions_cover (permissions_of_role db' ''t'' ''desk'') ''invoice.manage'' (Some ''purchase'')"
proof -
  let ?u = "update_role demo_identity demo_desk ''desk'' (Some (Some [''users.manage'', ''invoice.manage'']))"
  have "?u = Inr (projr ?u)" by code_simp
  moreover have "\<not> has_permission demo_desk ''invoice.manage'' (Some ''purchase'')" by code_simp
  moreover have "permissions_cover (permissions_of_role (projr ?u) ''t'' ''desk'') ''invoice.manage'' (Some ''purchase'')"
    by code_simp
  ultimately show ?thesis by blast
qed

end
