(* ===== verification/Money.thy ===== *)
theory Money
  imports Prelude
begin

text \<open>
  \<open>app/core/line_math.py\<close> and the money helpers the billing modules share.

  Amounts live in \<open>Numeric(12, 2)\<close> columns. The code computes with \<open>Decimal\<close> and, between
  database round trips, with \<open>float\<close>; both are modelled as exact rationals, so the theorems
  are about the arithmetic the code states and not about the last bits of a float (the slack
  \<open>CENT\<close>, half a cent, is what the code itself allows for them).
\<close>

type_synonym money = rat

definition SCALE :: money where
  "SCALE = 1 / 100"

definition CENT :: money where
  "CENT = 5 / 1000"

text \<open>\<open>Decimal.quantize(SCALE, rounding=ROUND_HALF_UP)\<close>: halves move away from zero.\<close>

definition quantize_half_up :: "money \<Rightarrow> money" where
  "quantize_half_up x = (if x < 0 then - (of_int \<lfloor>- x * 100 + 1 / 2\<rfloor> / 100) else of_int \<lfloor>x * 100 + 1 / 2\<rfloor> / 100)"

text \<open>\<open>round(x, 2)\<close>: halves move to the even neighbour.\<close>

definition round2 :: "money \<Rightarrow> money" where
  "round2 x = (let y = x * 100; n = \<lfloor>y\<rfloor>; d = y - of_int n in
     of_int (if d < 1 / 2 then n else if 1 / 2 < d then n + 1 else if even n then n else n + 1) / 100)"

definition in_cents :: "money \<Rightarrow> bool" where
  "in_cents x \<longleftrightarrow> x * 100 \<in> \<int>"

lemma in_centsE:
  assumes "in_cents x"
  obtains n where "x = of_int n / 100"
proof -
  from assms obtain n where "x * 100 = of_int n" by (auto simp: in_cents_def elim: Ints_cases)
  then have "x = of_int n / 100" by simp
  then show ?thesis by (rule that)
qed

lemma in_cents_of_int [simp]: "in_cents (of_int n / 100)"
  by (simp add: in_cents_def)

lemma in_cents_add [intro]: "in_cents x \<Longrightarrow> in_cents y \<Longrightarrow> in_cents (x + y)"
  by (simp add: in_cents_def distrib_right)

lemma in_cents_diff [intro]: "in_cents x \<Longrightarrow> in_cents y \<Longrightarrow> in_cents (x - y)"
  by (simp add: in_cents_def left_diff_distrib)

lemma in_cents_uminus [intro]: "in_cents x \<Longrightarrow> in_cents (- x)"
  by (simp add: in_cents_def)

lemma in_cents_0 [simp]: "in_cents 0"
  by (simp add: in_cents_def)

lemma in_cents_sum_list: "(\<And>x. x \<in> set xs \<Longrightarrow> in_cents x) \<Longrightarrow> in_cents (sum_list xs)"
  by (induction xs) auto

lemma floor_half: "\<lfloor>of_int n + 1 / 2 :: rat\<rfloor> = n"
  by (simp add: floor_eq_iff)

lemma quantize_half_up_in_cents: "in_cents (quantize_half_up x)"
  by (auto simp: quantize_half_up_def)

lemma quantize_half_up_id: "in_cents x \<Longrightarrow> quantize_half_up x = x"
proof -
  assume "in_cents x"
  then obtain n where x: "x = of_int n / 100" by (rule in_centsE)
  then have "x * 100 = of_int n" and "- x * 100 = of_int (- n)" by simp_all
  then show ?thesis using x floor_half[of n] floor_half[of "- n"]
    by (simp add: quantize_half_up_def)
qed

lemma quantize_half_up_fixed_iff: "quantize_half_up x = x \<longleftrightarrow> in_cents x"
  by (metis quantize_half_up_id quantize_half_up_in_cents)

lemma quantize_half_up_fixed_iff': "x = quantize_half_up x \<longleftrightarrow> in_cents x"
  by (metis quantize_half_up_fixed_iff)

lemma round2_id: "in_cents x \<Longrightarrow> round2 x = x"
  by (erule in_centsE) (simp add: round2_def Let_def)

lemma round2_in_cents: "in_cents (round2 x)"
  by (auto simp: round2_def Let_def)

lemma quantize_half_up_error: "\<bar>quantize_half_up x - x\<bar> \<le> CENT"
proof -
  have *: "\<bar>of_int \<lfloor>y * 100 + 1 / 2\<rfloor> / 100 - y\<bar> \<le> (5::rat) / 1000" for y :: rat
  proof -
    have "of_int \<lfloor>y * 100 + 1 / 2\<rfloor> \<le> y * 100 + 1 / 2"
      and "y * 100 + 1 / 2 < of_int \<lfloor>y * 100 + 1 / 2\<rfloor> + 1"
      by linarith+
    then have "\<bar>of_int \<lfloor>y * 100 + 1 / 2\<rfloor> - y * 100\<bar> \<le> (1::rat) / 2"
      by linarith
    then show ?thesis using abs_divide [of "of_int \<lfloor>y * 100 + 1 / 2\<rfloor> - y * 100" "100 :: rat"]
      by (simp add: diff_divide_distrib del: abs_divide)
  qed
  from *[of x] *[of "- x"] show ?thesis
    by (simp add: quantize_half_up_def CENT_def abs_minus_commute add.commute)
qed

text \<open>Two cent amounts closer than a cent are equal: half a cent of slack never admits a real one.\<close>

lemma in_cents_le_slack:
  assumes "in_cents x" and "in_cents y" and "x \<le> y + CENT"
  shows "x \<le> y"
proof -
  from assms(1) obtain m where x: "x = of_int m / 100" by (rule in_centsE)
  from assms(2) obtain n where y: "y = of_int n / 100" by (rule in_centsE)
  from assms(3) have "(of_int m :: rat) \<le> of_int n + 1 / 2"
    by (simp add: x y CENT_def field_simps)
  then have "m \<le> n" by linarith
  then show ?thesis by (simp add: x y divide_right_mono)
qed

lemma in_cents_ge_slack: "in_cents x \<Longrightarrow> in_cents y \<Longrightarrow> y - CENT \<le> x \<Longrightarrow> y \<le> x"
  by (rule in_cents_le_slack) auto

subsection \<open>The arithmetic of a document line\<close>

definition decimal :: "money \<Rightarrow> money result" where
  "decimal value =
     (if value \<noteq> quantize_half_up value then Inl (HttpError 422 ''more_than_two_decimals'')
      else Inr (quantize_half_up value))"

text \<open>
  \<open>derive_line_amount\<close>: \<open>quantity or 0\<close> reads a missing quantity as zero; a value that is
  \<open>None\<close> in the code is \<open>None\<close> here.
\<close>

definition derive_line_amount ::
    "money option \<Rightarrow> money option \<Rightarrow> money option \<Rightarrow> bool \<Rightarrow> money option result" where
  "derive_line_amount quantity unit_price amount is_gift =
     (if is_gift then Inr (Some 0)
      else case unit_price of
        None \<Rightarrow> (case amount of None \<Rightarrow> Inr None | Some a \<Rightarrow> bindE (decimal a) (\<lambda>x. Inr (Some x)))
      | Some p \<Rightarrow>
          bindE (decimal (case quantity of None \<Rightarrow> 0 | Some q \<Rightarrow> q)) (\<lambda>qty.
          bindE (decimal p) (\<lambda>price.
          let computed = quantize_half_up (qty * price) in
          bindE (case amount of
                   None \<Rightarrow> Inr ()
                 | Some a \<Rightarrow> bindE (decimal a) (\<lambda>x. ensure (x = computed) 422 ''amount_is_not_quantity_x_price''))
            (\<lambda>_. Inr (Some computed)))))"

text \<open>\<open>require_cents\<close> of \<open>app/schemas.py\<close>: money enters the settlement and account endpoints
  only at two decimals.\<close>

definition require_cents :: "money \<Rightarrow> money result" where
  "require_cents value = (if in_cents value then Inr value else Inl (HttpError 422 ''more_than_two_decimals''))"

lemma decimal_Inr_iff [result_simps]: "decimal x = Inr y \<longleftrightarrow> in_cents x \<and> y = x"
  by (auto simp: decimal_def quantize_half_up_fixed_iff' quantize_half_up_id)

lemma decimal_Inl_iff: "decimal x = Inl e \<longleftrightarrow> \<not> in_cents x \<and> e = HttpError 422 ''more_than_two_decimals''"
  by (auto simp: decimal_def quantize_half_up_fixed_iff' quantize_half_up_id)

lemma derive_line_amount_in_cents:
  "derive_line_amount q p a g = Inr (Some x) \<Longrightarrow> in_cents x"
  by (auto simp: derive_line_amount_def Let_def result_simps quantize_half_up_in_cents
      split: if_splits option.splits)

subsection \<open>Properties\<close>

text \<open>A priced line is worth its quantity times its price rounded half up to the cent, whatever
  amount the caller declared: a declared amount is accepted only when it is that figure, and a
  quantity or a price finer than a cent is refused.\<close>

theorem priced_line_is_quantity_times_price:
  assumes "derive_line_amount (Some q) (Some p) declared False = Inr (Some x)"
  shows "in_cents q \<and> in_cents p \<and> in_cents x \<and> \<bar>x - q * p\<bar> \<le> CENT \<and>
    (\<forall>d. declared = Some d \<longrightarrow> d = x)"
  using assms quantize_half_up_error
  by (auto simp: derive_line_amount_def Let_def result_simps quantize_half_up_in_cents split: option.splits)

theorem priced_line_is_quantity_times_price_witness:
  "in_cents (3 / 2) \<and> \<bar>3 / 2 - 3 * (1 / 2)\<bar> \<le> CENT"
proof -
  have "derive_line_amount (Some 3) (Some (1 / 2)) (Some (3 / 2)) False = Inr (Some (3 / 2))"
    by code_simp
  from priced_line_is_quantity_times_price [OF this] show ?thesis by simp
qed

end
