(* ===== verification/Type_Options.thy ===== *)
theory Type_Options
  imports Text_Ops
begin

text \<open>
  \<open>app/core/type_options.py\<close> and \<open>app/services/type_options.py\<close>: the vocabularies behind every
  \<open>*_type\<close> and \<open>*_reason\<close> field. A workspace with no rows for a family uses the shipped catalogue;
  once it has rows, they are the whole truth. Titles and descriptions are not modelled.
\<close>

record type_option =
  to_tenant_id :: uuid
  to_family :: string
  to_name :: string
  to_status :: string
  to_sign :: "int option"

definition SYSTEM_TYPE_OPTIONS :: "(string \<times> string list) list" where
  "SYSTEM_TYPE_OPTIONS = [
     (''campaign_type'', [''trade_fair'', ''webinar'', ''email'', ''advertisement'', ''social'', ''referral'',
        ''event'', ''other'']),
     (''opportunity_lost_reason'', [''price'', ''competitor'', ''timing'', ''no_budget'', ''no_decision'', ''other'']),
     (''deal_party_role'', [''end_client'', ''referrer'', ''reseller'', ''general_contractor'', ''consultant'',
        ''other'']),
     (''customer_relation_type'', [''parent_of'', ''subsidiary_of'', ''partner_of'', ''referrer_of'', ''referred_by'',
        ''agent_of'', ''principal_of'', ''end_client_of'', ''intermediary_of'', ''other'']),
     (''lead_source'', [''referral'', ''exhibition'', ''inbound'', ''outbound'', ''campaign'', ''other'']),
     (''opportunity_contact_role'', [''decision_maker'', ''influencer'', ''champion'', ''end_user'', ''procurement'', ''finance'',
        ''gatekeeper'', ''other'']),
     (''geo_type'', [''country'', ''province'', ''city'', ''district'', ''town'', ''postal_code'', ''region'',
        ''other'']),
     (''territory_member_role'', [''manager'', ''rep'', ''support'']),
     (''activity_type'', [''call'', ''visit'', ''meeting'', ''message'', ''note'', ''other'']),
     (''activity_outcome'', [''positive'', ''neutral'', ''negative'', ''no_answer'']),
     (''event_type'', [''meeting'', ''visit'', ''demo'', ''call'', ''training'', ''other'']),
     (''event_response'', [''invited'', ''accepted'', ''declined'', ''attended'']),
     (''communication_channel'', [''email'', ''sms'', ''wechat'', ''phone'', ''other'']),
     (''campaign_member_status'', [''targeted'', ''sent'', ''responded'', ''attended'', ''converted'', ''declined'']),
     (''facility_type'', [''store'', ''warehouse'', ''office'', ''factory'', ''other'']),
     (''fin_account_type'', [''bank'', ''cash'', ''wallet'', ''other'']),
     (''product_image_type'', [''main'', ''detail'', ''design'', ''packaging'', ''dimension'', ''other'']),
     (''sales_channel_kind'', [''marketplace'', ''own_site'', ''live_stream'', ''offline'', ''wholesale'', ''other'']),
     (''product_price_type'', [''list'', ''default'', ''promo'', ''wholesale'', ''competitive'', ''minimum'', ''maximum'',
        ''cost'']),
     (''contract_type'', [''purchase'', ''oem'', ''sales'', ''framework'', ''service'', ''nda'', ''other'']),
     (''contract_term_type'', [''payment_terms'', ''deposit'', ''payment_method'', ''delivery_schedule'',
        ''delivery_terms'', ''acceptance'', ''quality'', ''warranty'', ''price'', ''penalty'',
        ''term_period'', ''confidentiality'', ''termination'', ''dispute'', ''other'']),
     (''contract_document_type'', [''upstream_reference'', ''signed'', ''draft'', ''annex'', ''scan_page'', ''amendment'',
        ''translation'', ''other'']),
     (''customer_type'', [''retail'', ''wholesale'', ''distributor'', ''enterprise'', ''institution'', ''online'',
        ''affiliate'', ''other'']),
     (''sales_adjustment_type'', [''discount'', ''promotion'', ''tax'', ''shipping'', ''fee'', ''surcharge'', ''rounding'',
        ''other'']),
     (''expense_category'', [''travel'', ''lodging'', ''meal'', ''transport'', ''office'', ''entertainment'',
        ''communication'', ''other'']),
     (''invoice_type'', [''vat_special'', ''vat_general'', ''vat_electronic'', ''proforma'', ''receipt'',
        ''reimbursement'', ''payslip'', ''other'']),
     (''invoice_item_type'', [''goods'', ''service'', ''shipping'', ''discount'', ''tax'', ''rounding'', ''other'']),
     (''billing_account_unit'', [''point'', ''stored_value'', ''coupon'']),
     (''billing_account_entry_reason'', [''deposit'', ''charge'', ''refund'', ''earned'', ''redeemed'', ''expired'', ''adjustment'',
        ''transfer'', ''initial'', ''import_initial'', ''other'']),
     (''payroll_item_type'', [''payroll_salary'', ''payroll_hourly_rate'', ''payroll_bonus'', ''payroll_commission'',
        ''payroll_allowance'', ''payroll_iit'', ''payroll_pension_ee'', ''payroll_medical_ee'',
        ''payroll_unemploy_ee'', ''payroll_housing_ee'', ''payroll_other_deduction'']),
     (''pay_component_type'', [''base_salary'', ''allowance'', ''commission'', ''bonus'', ''overtime_rate'', ''other'']),
     (''policy_category'', [''hr'', ''payroll'', ''finance'', ''expense'', ''procurement'', ''compliance'',
        ''external_standard'', ''other'']),
     (''pay_period_type'', [''month'', ''hour'', ''day'', ''year'']),
     (''payment_method'', [''bank_transfer'', ''cash'', ''cheque'', ''bank_acceptance'', ''commercial_acceptance'',
        ''wechat'', ''alipay'', ''offset'', ''other'']),
     (''leave_type'', [''annual'', ''sick'', ''personal'', ''marriage'', ''maternity'', ''paternity'',
        ''bereavement'', ''compensatory'', ''other'']),
     (''work_type'', [''regular'', ''overtime'', ''holiday'', ''travel'', ''other''])]"

definition TYPE_OPTION_SIGNS :: "(string \<times> (string \<times> int) list) list" where
  "TYPE_OPTION_SIGNS = [(''payroll_item_type'', [
     (''payroll_salary'', 1), (''payroll_hourly_rate'', 1), (''payroll_bonus'', 1), (''payroll_commission'', 1),
     (''payroll_allowance'', 1), (''payroll_iit'', - 1), (''payroll_pension_ee'', - 1),
     (''payroll_medical_ee'', - 1), (''payroll_unemploy_ee'', - 1), (''payroll_housing_ee'', - 1),
     (''payroll_other_deduction'', - 1)])]"

definition SIGNED_TYPE_FAMILIES :: "string list" where
  "SIGNED_TYPE_FAMILIES = map fst TYPE_OPTION_SIGNS"

definition CUSTOMER_RELATION_REVERSE :: "(string \<times> string) list" where
  "CUSTOMER_RELATION_REVERSE = [
     (''parent_of'', ''subsidiary_of''), (''subsidiary_of'', ''parent_of''),
     (''referrer_of'', ''referred_by''), (''referred_by'', ''referrer_of''),
     (''agent_of'', ''principal_of''), (''principal_of'', ''agent_of''),
     (''end_client_of'', ''intermediary_of''), (''intermediary_of'', ''end_client_of'')]"

definition system_type_names :: "string \<Rightarrow> string list" where
  "system_type_names family = dict_get SYSTEM_TYPE_OPTIONS family []"

definition system_type_sign :: "string \<Rightarrow> string \<Rightarrow> int option" where
  "system_type_sign family name = map_of (dict_get TYPE_OPTION_SIGNS family []) name"

definition allowed_type_options :: "type_option list \<Rightarrow> uuid \<Rightarrow> string \<Rightarrow> string list" where
  "allowed_type_options options tenant_id family =
     (let rows = filter (\<lambda>o'. to_tenant_id o' = tenant_id \<and> to_family o' = family) options in
      if rows = [] then system_type_names family
      else map to_name (filter (\<lambda>o'. to_status o' = ''active'') rows))"

definition require_type_option :: "type_option list \<Rightarrow> uuid \<Rightarrow> string \<Rightarrow> string \<Rightarrow> unit result" where
  "require_type_option options tenant_id family value =
     ensure (value \<in> set (allowed_type_options options tenant_id family)) 422 ''unknown_type_option''"

definition type_option_sign :: "type_option list \<Rightarrow> uuid \<Rightarrow> string \<Rightarrow> string \<Rightarrow> int option" where
  "type_option_sign options tenant_id family name =
     (case Option.bind (find_row (\<lambda>o'. to_tenant_id o' = tenant_id \<and> to_family o' = family \<and> to_name o' = name) options)
             to_sign of
        Some s \<Rightarrow> Some s
      | None \<Rightarrow> system_type_sign family name)"

text \<open>The shipped catalogue is consistent: no family names a value twice, every value of a signed
  family declares which way it moves money, and reading a customer relation from the other side
  twice gives it back.\<close>

theorem shipped_vocabulary_is_consistent:
  "list_all (\<lambda>(family, names). distinct names) SYSTEM_TYPE_OPTIONS \<and>
   list_all (\<lambda>family. list_all (\<lambda>name. system_type_sign family name \<in> {Some 1, Some (- 1)}) (system_type_names family))
     SIGNED_TYPE_FAMILIES \<and>
   list_all (\<lambda>(r, s). map_of CUSTOMER_RELATION_REVERSE s = Some r) CUSTOMER_RELATION_REVERSE"
  by code_simp

end
