(* ===== verification/Store.thy ===== *)
theory Store
  imports Roles Money Type_Options
begin

text \<open>
  The tables the business handlers work on (\<open>app/models.py\<close>), as one record \<open>db\<close>.

  The header-like classes (the document families and the master data they point at) share one
  row type with a \<open>model\<close> tag, because the plumbing of \<open>app/api/common\<close> is written against
  whichever class it is handed (\<open>document.status\<close>, \<open>getattr(row, field)\<close>); a column a class does
  not have is at its neutral value and is not read. Line items are \<open>line\<close> rows pointing at their
  parent. Columns nothing here branches on are left out; \<open>row_other\<close> keeps the further columns a
  hosted agent's queue filter may name.

  Ids are drawn from \<open>db_uuids\<close>, the stream of fresh ids, at position \<open>db_next\<close>. A path id that is
  not a UUID is answered like one that names no row (the same 404), so a path id stands for the row it
  names. Where a handler compares ids of a request body as strings, the database's reading of a uuid
  literal matters (PostgreSQL takes upper case, and prints lower case): \<open>db_uuid_in\<close> is that reading,
  a parameter here.
  One transaction runs at a time: \<open>SELECT ... FOR UPDATE\<close> is a plain read here.
\<close>

datatype model =
    TimesheetHeader | EmployeeLeave | ExpenseClaim | PurchaseRequest | SalesQuotation | SalesOrder
  | PurchaseOrder | Contract | Picklist | Shipment | Campaign | Event | Lead | Opportunity
  | Invoice | Payment | BusinessObject | BillingAccount | InventoryItem
  | Customer | Vendor | Employee | Project

record row =
  row_model :: model
  row_id :: uuid
  row_tenant_id :: uuid
  row_status :: string
  row_deleted_at :: "timestamp option"
  row_deleted_by :: "string option"
  row_delete_reason :: "string option"
  row_employee_id :: "uuid option"
  row_payee_employee_id :: "uuid option"
  row_customer_id :: "uuid option"
  row_vendor_id :: "uuid option"
  row_created_by :: "string option"
  row_direction :: string
  row_side :: string
  row_order_kind :: string
  row_object_type :: string
  row_number :: string
  row_name :: string
  row_submitted_at :: "timestamp option"
  row_currency :: string
  row_amount :: money
  row_total_amount :: "money option"
  row_applied_amount :: money
  row_billing_account_id :: "uuid option"
  row_sales_order_id :: "uuid option"
  row_purchase_order_id :: "uuid option"
  row_expense_claim_id :: "uuid option"
  row_quotation_id :: "uuid option"
  row_unit_type :: string
  row_unit :: string
  row_credit_limit :: money
  row_balance :: money
  row_created_at :: timestamp
  row_other :: "(string \<times> json) list"

datatype line_model =
    TimesheetEntry | ExpenseItem | PurchaseRequestItem | SalesQuotationItem | SalesQuotationAdjustment
  | SalesOrderItem | SalesOrderAdjustment | OpportunityItem | InvoiceItem | PurchaseOrderItem
  | PurchaseOrderAdjustment | ShipmentItem | PicklistItem

record line =
  ln_model :: line_model
  ln_id :: uuid
  ln_tenant_id :: uuid
  ln_parent_id :: uuid
  ln_deleted_at :: "timestamp option"
  ln_amount :: "money option"
  ln_unit_price :: "money option"
  ln_quantity :: "money option"
  ln_is_gift :: bool

record todo =
  td_id :: uuid
  td_tenant :: uuid
  td_employee_id :: uuid
  td_entity_type :: string
  td_entity_id :: uuid
  td_title :: string
  td_description :: "string option"
  td_todo_type :: "string option"
  td_state :: string
  td_due_at :: "timestamp option"
  td_created_by :: "string option"
  td_completed_at :: "timestamp option"
  td_completed_by :: "string option"
  td_round_no :: "int option"
  td_sequence_no :: "int option"

record approval =
  ap_id :: uuid
  ap_tenant_id :: uuid
  ap_entity_type :: string
  ap_entity_id :: uuid
  ap_round_no :: nat
  ap_sequence_no :: nat
  ap_action :: string
  ap_historical_conflict_closed :: bool
  ap_approver_id :: "string option"
  ap_approver_role :: "string option"
  ap_acted_at :: timestamp

record account_entry =
  en_id :: uuid
  en_tenant_id :: uuid
  en_billing_account_id :: uuid
  en_amount :: money
  en_reason :: string
  en_entity_type :: "string option"
  en_entity_id :: "uuid option"
  en_expires_at :: "timestamp option"
  en_created_by :: string

record payment_application =
  pa_id :: uuid
  pa_tenant_id :: uuid
  pa_payment_id :: uuid
  pa_invoice_id :: "uuid option"
  pa_invoice_item_id :: "uuid option"
  pa_expense_claim_id :: "uuid option"
  pa_billing_account_id :: "uuid option"
  pa_to_payment_id :: "uuid option"
  pa_amount_applied :: money
  pa_idempotency_key :: "string option"
  pa_idempotency_seq :: "nat option"
  pa_created_by :: string

record db =
  db_actor :: "actor option"
  db_definitions :: "type_definition list"
  db_type_options :: "type_option list"
  db_rows :: "row list"
  db_lines :: "line list"
  db_todos :: "todo list"
  db_approvals :: "approval list"
  db_entries :: "account_entry list"
  db_applications :: "payment_application list"
  db_audit :: "audit_row list"
  db_uuid_in :: "string \<Rightarrow> uuid option"
  db_uuids :: "nat \<Rightarrow> uuid"
  db_next :: nat

definition fresh_id :: "db \<Rightarrow> uuid" where
  "fresh_id db = db_uuids db (db_next db)"

definition tick :: "db \<Rightarrow> db" where
  "tick db = db\<lparr>db_next := Suc (db_next db)\<rparr>"

text \<open>\<open>db.get(model, id)\<close>\<close>

definition get_row :: "db \<Rightarrow> model \<Rightarrow> uuid \<Rightarrow> row option" where
  "get_row db m i = find_row (\<lambda>r. row_model r = m \<and> row_id r = i) (db_rows db)"

text \<open>Assigning attributes of a loaded row and flushing them.\<close>

definition set_row :: "model \<Rightarrow> uuid \<Rightarrow> (row \<Rightarrow> row) \<Rightarrow> db \<Rightarrow> db" where
  "set_row m i f db = db\<lparr>db_rows := update_rows (\<lambda>r. row_model r = m \<and> row_id r = i) f (db_rows db)\<rparr>"

definition live_lines :: "db \<Rightarrow> line_model \<Rightarrow> uuid \<Rightarrow> line list" where
  "live_lines db m parent =
     filter (\<lambda>l. ln_model l = m \<and> ln_parent_id l = parent \<and> ln_deleted_at l = None) (db_lines db)"

definition record_audit :: "uuid \<Rightarrow> string \<Rightarrow> string \<Rightarrow> uuid \<Rightarrow> string option \<Rightarrow> db \<Rightarrow> db" where
  "record_audit tenant_id action entity_type entity_id who db =
     db\<lparr>db_audit := db_audit db @ [\<lparr>au_tenant_id = tenant_id, au_action = action,
        au_entity_type = entity_type, au_entity_id = entity_id, au_actor = who\<rparr>]\<rparr>"

text \<open>\<open>getattr(row, field_name, None)\<close> for the columns a queue filter may name.\<close>

definition text_json :: "string \<Rightarrow> json" where
  "text_json s = (if s = [] then JNull else JStr s)"

definition option_json :: "string option \<Rightarrow> json" where
  "option_json x = (case x of None \<Rightarrow> JNull | Some s \<Rightarrow> JStr s)"

definition row_attr :: "row \<Rightarrow> string \<Rightarrow> json" where
  "row_attr r f =
     (if f = ''id'' then JStr (row_id r)
      else if f = ''status'' then JStr (row_status r)
      else if f = ''employee_id'' then option_json (row_employee_id r)
      else if f = ''payee_employee_id'' then option_json (row_payee_employee_id r)
      else if f = ''customer_id'' then option_json (row_customer_id r)
      else if f = ''vendor_id'' then option_json (row_vendor_id r)
      else if f = ''direction'' then text_json (row_direction r)
      else if f = ''order_kind'' then text_json (row_order_kind r)
      else if f = ''object_type'' then text_json (row_object_type r)
      else if f = ''currency'' then text_json (row_currency r)
      else dict_get (row_other r) f JNull)"

subsection \<open>What an update leaves in the tables\<close>

text \<open>
  A keyed table: a lookup by key after an update sees the updated row and no other change. The
  handlers read rows back after writing them through this interface only.
\<close>

locale keyed_table =
  fixes lookup :: "'db \<Rightarrow> 'k \<Rightarrow> 'r option"
    and update :: "'k \<Rightarrow> ('r \<Rightarrow> 'r) \<Rightarrow> 'db \<Rightarrow> 'db"
    and keeps :: "('r \<Rightarrow> 'r) \<Rightarrow> bool"
  assumes lookup_update: "keeps f \<Longrightarrow> lookup (update k f d) k' =
      (if k' = k then map_option f (lookup d k') else lookup d k')"
begin

lemma lookup_update_same: "keeps f \<Longrightarrow> lookup d k = Some r \<Longrightarrow> lookup (update k f d) k = Some (f r)"
  by (simp add: lookup_update)

lemma lookup_update_other: "keeps f \<Longrightarrow> k' \<noteq> k \<Longrightarrow> lookup (update k f d) k' = lookup d k'"
  by (simp add: lookup_update)

lemma lookup_update_None: "keeps f \<Longrightarrow> lookup d k' = None \<Longrightarrow> lookup (update k f d) k' = None"
  by (auto simp: lookup_update)

lemma lookup_update_twice:
  assumes "keeps f" and "keeps g"
  shows "lookup (update k g (update k f d)) k = map_option (g \<circ> f) (lookup d k)"
  using assms by (cases "lookup d k") (simp_all add: lookup_update)

end

definition keeps_key :: "(row \<Rightarrow> row) \<Rightarrow> bool" where
  "keeps_key f \<longleftrightarrow> (\<forall>r. row_model (f r) = row_model r \<and> row_id (f r) = row_id r \<and>
     row_tenant_id (f r) = row_tenant_id r)"

interpretation rows: keyed_table "\<lambda>d (m, i). get_row d m i" "\<lambda>(m, i). set_row m i" keeps_key
proof
  fix f :: "row \<Rightarrow> row" and k k' :: "model \<times> uuid" and d :: db
  assume f: "keeps_key f"
  obtain m i m' i' where k: "k = (m, i)" "k' = (m', i')" by (cases k, cases k')
  have "find_row (\<lambda>r. row_model r = m' \<and> row_id r = i')
      (update_rows (\<lambda>r. row_model r = m \<and> row_id r = i) f rs) =
    (if m' = m \<and> i' = i then map_option f (find_row (\<lambda>r. row_model r = m' \<and> row_id r = i') rs)
     else find_row (\<lambda>r. row_model r = m' \<and> row_id r = i') rs)" for rs
    using f by (induction rs) (auto simp: keeps_key_def)
  then show "(\<lambda>(m, i). get_row ((\<lambda>(m, i). set_row m i) k f d) m i) k' =
      (if k' = k then map_option f ((\<lambda>(m, i). get_row d m i) k') else (\<lambda>(m, i). get_row d m i) k')"
    by (simp add: k get_row_def set_row_def)
qed

lemmas get_row_set_row = rows.lookup_update [of f "(m, i)" d "(m', i')" for f m i d m' i', simplified]

lemma get_row_Some:
  "get_row db m i = Some r \<Longrightarrow> r \<in> set (db_rows db) \<and> row_model r = m \<and> row_id r = i"
  by (auto simp: get_row_def dest!: find_row_Some)

lemma set_row_fields [store_simps]:
  "db_actor (set_row m i f db) = db_actor db" "db_type_options (set_row m i f db) = db_type_options db" "db_definitions (set_row m i f db) = db_definitions db"
  "db_lines (set_row m i f db) = db_lines db" "db_todos (set_row m i f db) = db_todos db"
  "db_approvals (set_row m i f db) = db_approvals db" "db_entries (set_row m i f db) = db_entries db"
  "db_applications (set_row m i f db) = db_applications db" "db_audit (set_row m i f db) = db_audit db"
  "db_uuid_in (set_row m i f db) = db_uuid_in db" "db_uuids (set_row m i f db) = db_uuids db" "db_next (set_row m i f db) = db_next db"
  by (simp_all add: set_row_def)

lemma record_audit_fields [store_simps]:
  "db_actor (record_audit t a e i w db) = db_actor db" "db_type_options (record_audit t a e i w db) = db_type_options db" "db_definitions (record_audit t a e i w db) = db_definitions db"
  "db_rows (record_audit t a e i w db) = db_rows db" "db_lines (record_audit t a e i w db) = db_lines db"
  "db_todos (record_audit t a e i w db) = db_todos db" "db_approvals (record_audit t a e i w db) = db_approvals db"
  "db_entries (record_audit t a e i w db) = db_entries db"
  "db_applications (record_audit t a e i w db) = db_applications db"
  "db_uuid_in (record_audit t a e i w db) = db_uuid_in db" "db_uuids (record_audit t a e i w db) = db_uuids db" "db_next (record_audit t a e i w db) = db_next db"
  by (simp_all add: record_audit_def)

lemma tick_fields [store_simps]:
  "db_actor (tick db) = db_actor db" "db_type_options (tick db) = db_type_options db" "db_definitions (tick db) = db_definitions db"
  "db_rows (tick db) = db_rows db" "db_lines (tick db) = db_lines db" "db_todos (tick db) = db_todos db"
  "db_approvals (tick db) = db_approvals db" "db_entries (tick db) = db_entries db"
  "db_applications (tick db) = db_applications db" "db_audit (tick db) = db_audit db"
  "db_uuid_in (tick db) = db_uuid_in db" "db_uuids (tick db) = db_uuids db" "db_next (tick db) = Suc (db_next db)"
  by (simp_all add: tick_def)

lemma get_row_other_tables [store_simps]:
  "get_row (record_audit t a e i w db) m j = get_row db m j" "get_row (tick db) m j = get_row db m j"
  "get_row (db\<lparr>db_todos := x\<rparr>) m j = get_row db m j" "get_row (db\<lparr>db_approvals := y\<rparr>) m j = get_row db m j"
  "get_row (db\<lparr>db_entries := z\<rparr>) m j = get_row db m j" "get_row (db\<lparr>db_applications := v\<rparr>) m j = get_row db m j"
  by (simp_all add: get_row_def record_audit_def tick_def)

end
