(* ===== verification/Visibility.thy ===== *)
theory Visibility
  imports Store
begin

text \<open>
  \<open>app/api/visibility.py\<close> and the fetch every handler goes through (\<open>app/api/common/core.py\<close>,
  \<open>get_scoped_or_404\<close>): which rows exist for the actor of a request.

  A clause the code hands to SQL is a predicate on the row here; \<open>None\<close> (no restriction) is the
  predicate that holds everywhere. A comparison with a null column does not match, as in SQL.
\<close>

record personal_family =
  pf_name :: string
  pf_capability :: string
  pf_model :: model
  pf_entity_types :: "string list"
  pf_implied_by :: "string list"

record shared_family =
  sf_name :: string
  sf_capability :: string
  sf_model :: model
  sf_entity_types :: "string list"
  sf_implied_by :: "string list"
  sf_scope_column :: "string option"
  sf_scope_implied_by :: "(string \<times> string) list"
  sf_own_columns :: "string list"

definition FAMILIES :: "personal_family list" where
  "FAMILIES = [
     \<lparr>pf_name = ''timesheet'', pf_capability = ''timesheet.read_all'', pf_model = TimesheetHeader,
      pf_entity_types = [''timesheet_header''],
      pf_implied_by = [''timesheet.advance'', ''invoice.manage'', ''payroll.manage'']\<rparr>,
     \<lparr>pf_name = ''leave'', pf_capability = ''leave.read_all'', pf_model = EmployeeLeave,
      pf_entity_types = [''employee_leave''],
      pf_implied_by = [''leave.advance'', ''payroll.manage'', ''employees.manage'']\<rparr>,
     \<lparr>pf_name = ''expense'', pf_capability = ''expense.read_all'', pf_model = ExpenseClaim,
      pf_entity_types = [''expense_claim''],
      pf_implied_by = [''expense.advance'', ''invoice.manage'', ''payment.record'', ''payment.advance'', ''payment.apply'']\<rparr>,
     \<lparr>pf_name = ''purchase'', pf_capability = ''purchase.read_all'', pf_model = PurchaseRequest,
      pf_entity_types = [''purchase_request''],
      pf_implied_by = [''purchase.advance'', ''purchase_order.manage'']\<rparr>,
     \<lparr>pf_name = ''quotation'', pf_capability = ''quotation.read_all'', pf_model = SalesQuotation,
      pf_entity_types = [''sales_quotation''],
      pf_implied_by = [''quotation.advance'', ''order.advance'', ''contract.manage'', ''invoice.manage'']\<rparr>,
     \<lparr>pf_name = ''order'', pf_capability = ''order.read_all'', pf_model = SalesOrder,
      pf_entity_types = [''sales_order'', ''sales_return''],
      pf_implied_by = [''order.advance'', ''shipment.manage'', ''inventory.manage'', ''invoice.manage'', ''payment.record'',
        ''payment.advance'', ''payment.apply'', ''purchase_order.manage'', ''contract.manage'']\<rparr>,
     \<lparr>pf_name = ''lead'', pf_capability = ''crm.read_all'', pf_model = Lead,
      pf_entity_types = [''lead''], pf_implied_by = [''campaign.manage'']\<rparr>,
     \<lparr>pf_name = ''opportunity'', pf_capability = ''crm.read_all'', pf_model = Opportunity,
      pf_entity_types = [''opportunity''],
      pf_implied_by = [''campaign.manage'', ''quotation.advance'', ''order.advance'']\<rparr>]"

definition STOCK_DESKS :: "string list" where
  "STOCK_DESKS = [''inventory.manage'', ''shipment.manage'', ''order.advance'', ''purchase_order.manage'']"

definition SHARED_FAMILIES :: "shared_family list" where
  "SHARED_FAMILIES = [
     \<lparr>sf_name = ''invoice'', sf_capability = ''invoice.read'', sf_model = Invoice, sf_entity_types = [''invoice''],
      sf_implied_by = [''invoice.manage'', ''contract.manage'', ''invoice.advance'', ''payment.record'',
        ''payment.advance'', ''payment.apply''],
      sf_scope_column = Some ''direction'',
      sf_scope_implied_by = [(''payroll.read'', ''payroll''), (''payroll.manage'', ''payroll''),
        (''expense.advance'', ''reimbursement'')],
      sf_own_columns = [''employee_id'', ''payee_employee_id'']\<rparr>,
     \<lparr>sf_name = ''payment'', sf_capability = ''payment.read'', sf_model = Payment, sf_entity_types = [''payment''],
      sf_implied_by = [''payment.record'', ''payment.advance'', ''payment.apply'', ''invoice.manage'',
        ''invoice.advance'', ''fin_account.manage'', ''contract.manage''],
      sf_scope_column = None, sf_scope_implied_by = [],
      sf_own_columns = [''employee_id'', ''payee_employee_id'']\<rparr>,
     \<lparr>sf_name = ''purchase_order'', sf_capability = ''purchase_order.read'', sf_model = PurchaseOrder,
      sf_entity_types = [''purchase_order''],
      sf_implied_by = [''purchase_order.manage'', ''purchase.advance'', ''shipment.manage'', ''invoice.manage'',
        ''contract.manage''],
      sf_scope_column = None, sf_scope_implied_by = [], sf_own_columns = [''employee_id'']\<rparr>,
     \<lparr>sf_name = ''shipment'', sf_capability = ''shipment.read'', sf_model = Shipment, sf_entity_types = [''shipment''],
      sf_implied_by = STOCK_DESKS, sf_scope_column = None, sf_scope_implied_by = [], sf_own_columns = []\<rparr>,
     \<lparr>sf_name = ''inventory'', sf_capability = ''inventory.read'', sf_model = InventoryItem,
      sf_entity_types = [''inventory_item''],
      sf_implied_by = STOCK_DESKS, sf_scope_column = None, sf_scope_implied_by = [], sf_own_columns = []\<rparr>,
     \<lparr>sf_name = ''picklist'', sf_capability = ''inventory.read'', sf_model = Picklist, sf_entity_types = [''picklist''],
      sf_implied_by = STOCK_DESKS, sf_scope_column = None, sf_scope_implied_by = [], sf_own_columns = []\<rparr>,
     \<lparr>sf_name = ''business_object'', sf_capability = ''business_object.read'', sf_model = BusinessObject,
      sf_entity_types = [''business_object''],
      sf_implied_by = [''business_object.write'', ''business_object.advance'', ''business_object.summarize''],
      sf_scope_column = Some ''object_type'', sf_scope_implied_by = [], sf_own_columns = [''created_by'']\<rparr>,
     \<lparr>sf_name = ''billing_account'', sf_capability = ''billing_account.read'', sf_model = BillingAccount,
      sf_entity_types = [''billing_account''],
      sf_implied_by = [''billing_account.manage'', ''billing_account.post'', ''payment.apply'', ''payment.record'',
        ''invoice.manage''],
      sf_scope_column = None, sf_scope_implied_by = [], sf_own_columns = [''employee_id'']\<rparr>]"

definition FAMILY_BY_MODEL :: "model \<Rightarrow> personal_family option" where
  "FAMILY_BY_MODEL m = find_row (\<lambda>f. pf_model f = m) FAMILIES"

definition SHARED_BY_MODEL :: "model \<Rightarrow> shared_family option" where
  "SHARED_BY_MODEL m = find_row (\<lambda>f. sf_model f = m) SHARED_FAMILIES"

fun CHILDREN :: "line_model \<Rightarrow> model" where
  "CHILDREN TimesheetEntry = TimesheetHeader"
| "CHILDREN ExpenseItem = ExpenseClaim"
| "CHILDREN PurchaseRequestItem = PurchaseRequest"
| "CHILDREN SalesQuotationItem = SalesQuotation"
| "CHILDREN SalesQuotationAdjustment = SalesQuotation"
| "CHILDREN SalesOrderItem = SalesOrder"
| "CHILDREN SalesOrderAdjustment = SalesOrder"
| "CHILDREN OpportunityItem = Opportunity"
| "CHILDREN InvoiceItem = Invoice"
| "CHILDREN PurchaseOrderItem = PurchaseOrder"
| "CHILDREN PurchaseOrderAdjustment = PurchaseOrder"
| "CHILDREN ShipmentItem = Shipment"
| "CHILDREN PicklistItem = Picklist"

subsection \<open>The clauses\<close>

definition can_read_all :: "actor \<Rightarrow> personal_family \<Rightarrow> bool" where
  "can_read_all a f \<longleftrightarrow> bypasses_permissions a \<or>
     permissions_cover (ac_permissions a) (pf_capability f) None \<or>
     permissions_cover (ac_permissions a) ''tenant.act_for_any_employee'' None \<or>
     list_ex (permissions_cover_any_scope (ac_permissions a)) (pf_implied_by f)"

definition own :: "actor \<Rightarrow> uuid option" where
  "own a = (if ac_kind a = ''user'' then ac_employee_id a else None)"

text \<open>\<open>column == own\<close>, with \<open>own\<close> not null.\<close>

definition is_own :: "actor \<Rightarrow> uuid option \<Rightarrow> bool" where
  "is_own a column \<longleftrightarrow> own a \<noteq> None \<and> column = own a"

definition routed :: "db \<Rightarrow> actor \<Rightarrow> string list \<Rightarrow> uuid \<Rightarrow> bool" where
  "routed db a entity_types i \<longleftrightarrow>
     (own a \<noteq> None \<and>
      list_ex (\<lambda>t. td_entity_id t = i \<and> td_tenant t = ac_tenant_id a \<and> Some (td_employee_id t) = own a \<and>
                   td_entity_type t \<in> set entity_types) (db_todos db)) \<or>
     list_ex (\<lambda>p. ap_entity_id p = i \<and> ap_tenant_id p = ac_tenant_id a \<and> ap_approver_id p = Some (label a) \<and>
                  ap_entity_type p \<in> set entity_types) (db_approvals db)"

definition family_clause :: "db \<Rightarrow> actor \<Rightarrow> personal_family \<Rightarrow> row \<Rightarrow> bool" where
  "family_clause db a f r \<longleftrightarrow> can_read_all a f \<or> is_own a (row_employee_id r) \<or>
     routed db a (pf_entity_types f) (row_id r)"

text \<open>\<open>_with_wider\<close>: \<open>IMPLIED_BY\<close> is one level deep (its wider verbs are not keys of it).\<close>

definition with_wider :: "string \<Rightarrow> string list" where
  "with_wider verb = verb # dict_get IMPLIED_BY verb []"

definition scopes_held :: "string list \<Rightarrow> string list \<Rightarrow> string list option" where
  "scopes_held permissions verbs =
     (let candidates = concat (map with_wider verbs) in
      if list_ex (\<lambda>c. c \<in> set permissions \<or> c @ '':*'' \<in> set permissions) candidates then None
      else Some (concat (map (\<lambda>c. map (drop (length (c @ '':''))) (filter (\<lambda>g. startswith g (c @ '':'')) permissions))
                   candidates)))"

definition scope_value :: "string \<Rightarrow> row \<Rightarrow> string" where
  "scope_value column r = (if column = ''direction'' then row_direction r else row_object_type r)"

definition own_column :: "actor \<Rightarrow> string \<Rightarrow> row \<Rightarrow> bool" where
  "own_column a column r =
     (if column = ''created_by'' then row_created_by r = Some (label a)
      else if column = ''employee_id'' then is_own a (row_employee_id r)
      else is_own a (row_payee_employee_id r))"

definition shared_clause :: "db \<Rightarrow> actor \<Rightarrow> shared_family \<Rightarrow> row \<Rightarrow> bool" where
  "shared_clause db a f r =
     (if bypasses_permissions a then True
      else let verbs = sf_capability f # sf_implied_by f;
               rest = list_ex (\<lambda>c. own_column a c r) (sf_own_columns f) \<or> routed db a (sf_entity_types f) (row_id r)
           in case sf_scope_column f of
                None \<Rightarrow> list_ex (permissions_cover_any_scope (ac_permissions a)) verbs \<or> rest
              | Some column \<Rightarrow>
                  (case scopes_held (ac_permissions a) verbs of
                     None \<Rightarrow> True
                   | Some scopes \<Rightarrow>
                       scope_value column r \<in> set scopes \<union> set (map snd (filter (\<lambda>(verb, _).
                         permissions_cover_any_scope (ac_permissions a) verb) (sf_scope_implied_by f))) \<or> rest))"

definition document_clause :: "db \<Rightarrow> actor \<Rightarrow> model \<Rightarrow> row \<Rightarrow> bool" where
  "document_clause db a m r =
     (case FAMILY_BY_MODEL m of
        Some f \<Rightarrow> family_clause db a f r
      | None \<Rightarrow> (case SHARED_BY_MODEL m of Some f \<Rightarrow> shared_clause db a f r | None \<Rightarrow> True))"

definition todo_clause :: "actor \<Rightarrow> todo \<Rightarrow> bool" where
  "todo_clause a t \<longleftrightarrow> bypasses_permissions a \<or> permissions_cover (ac_permissions a) ''todos.assign'' None \<or>
     permissions_cover (ac_permissions a) ''tenant.act_for_any_employee'' None \<or>
     td_created_by t = Some (label a) \<or> is_own a (Some (td_employee_id t))"

text \<open>\<open>is_visible\<close> of a loaded header row, of a line and of a todo: without a request's actor
  (scripts, maintenance) everything is.\<close>

definition is_visible :: "db \<Rightarrow> row \<Rightarrow> bool" where
  "is_visible db r = (case db_actor db of None \<Rightarrow> True | Some a \<Rightarrow> document_clause db a (row_model r) r)"

definition line_visible :: "db \<Rightarrow> line \<Rightarrow> bool" where
  "line_visible db l =
     (case db_actor db of None \<Rightarrow> True
      | Some a \<Rightarrow> (case get_row db (CHILDREN (ln_model l)) (ln_parent_id l) of
                   None \<Rightarrow> False
                 | Some parent \<Rightarrow> document_clause db a (row_model parent) parent))"

definition todo_visible :: "db \<Rightarrow> todo \<Rightarrow> bool" where
  "todo_visible db t = (case db_actor db of None \<Rightarrow> True | Some a \<Rightarrow> todo_clause a t)"

subsection \<open>Fetching a row\<close>

definition get_scoped_or_404 :: "db \<Rightarrow> model \<Rightarrow> uuid \<Rightarrow> uuid \<Rightarrow> row result" where
  "get_scoped_or_404 db m tenant_id i =
     (case get_row db m i of
        None \<Rightarrow> Inl (HttpError 404 ''not_found'')
      | Some r \<Rightarrow>
          if row_tenant_id r \<noteq> tenant_id then Inl (HttpError 404 ''not_found'')
          else if \<not> is_visible db r then Inl (HttpError 404 ''not_found'')
          else Inr r)"

definition ensure_document_not_deleted :: "row \<Rightarrow> unit result" where
  "ensure_document_not_deleted r = ensure (row_deleted_at r = None) 404 ''not_found''"

definition get_active_document_or_404 :: "db \<Rightarrow> model \<Rightarrow> uuid \<Rightarrow> uuid \<Rightarrow> row result" where
  "get_active_document_or_404 db m tenant_id i =
     bindE (get_scoped_or_404 db m tenant_id i) (\<lambda>r. bindE (ensure_document_not_deleted r) (\<lambda>_. Inr r))"

text \<open>The same fetch of a line item.\<close>

definition get_live_line_or_404 :: "db \<Rightarrow> line_model \<Rightarrow> uuid \<Rightarrow> uuid \<Rightarrow> line result" where
  "get_live_line_or_404 db m tenant_id i =
     (case find_row (\<lambda>l. ln_model l = m \<and> ln_id l = i) (db_lines db) of
        None \<Rightarrow> Inl (HttpError 404 ''not_found'')
      | Some l \<Rightarrow>
          if ln_tenant_id l \<noteq> tenant_id then Inl (HttpError 404 ''not_found'')
          else if \<not> line_visible db l then Inl (HttpError 404 ''not_found'')
          else if ln_deleted_at l \<noteq> None then Inl (HttpError 404 ''not_found'')
          else Inr l)"

lemma get_scoped_or_404_Inr:
  "get_scoped_or_404 db m t i = Inr r \<longleftrightarrow> get_row db m i = Some r \<and> row_tenant_id r = t \<and> is_visible db r"
  by (auto simp: get_scoped_or_404_def split: option.splits if_splits)

lemma get_active_document_or_404_Inr:
  "get_active_document_or_404 db m t i = Inr r \<longleftrightarrow>
     get_row db m i = Some r \<and> row_tenant_id r = t \<and> is_visible db r \<and> row_deleted_at r = None"
  by (auto simp: get_active_document_or_404_def result_simps get_scoped_or_404_Inr ensure_document_not_deleted_def)

subsection \<open>Wider grants never hide a row\<close>

definition with_grants :: "string list \<Rightarrow> actor \<Rightarrow> actor" where
  "with_grants p a = a\<lparr>ac_permissions := p\<rparr>"

lemma with_grants_simps [simp]:
  "ac_permissions (with_grants p a) = p" "ac_kind (with_grants p a) = ac_kind a"
  "label (with_grants p a) = label a" "bypasses_permissions (with_grants p a) = bypasses_permissions a"
  "own (with_grants p a) = own a" "is_own (with_grants p a) e = is_own a e"
  "routed db (with_grants p a) ts i = routed db a ts i" "own_column (with_grants p a) c r = own_column a c r"
  by (simp_all add: with_grants_def label_def bypasses_permissions_def own_def is_own_def routed_def own_column_def)

lemma list_ex_cover_mono:
  "set p \<subseteq> set q \<Longrightarrow> list_ex (permissions_cover_any_scope p) vs \<Longrightarrow> list_ex (permissions_cover_any_scope q) vs"
  unfolding list_ex_iff by (meson any_scope.covers_mono)

lemma cover_mono: "set p \<subseteq> set q \<Longrightarrow> permissions_cover p v sc \<Longrightarrow> permissions_cover q v sc"
  using scoped.covers_mono [of p q "(v, sc)"] by simp

lemma family_clause_mono:
  "set p \<subseteq> set q \<Longrightarrow> family_clause db (with_grants p a) f r \<Longrightarrow> family_clause db (with_grants q a) f r"
  by (auto simp: family_clause_def can_read_all_def dest: cover_mono list_ex_cover_mono)

lemma scopes_held_None_mono:
  "set p \<subseteq> set q \<Longrightarrow> scopes_held p vs = None \<Longrightarrow> scopes_held q vs = None"
  by (fastforce simp: scopes_held_def Let_def list_ex_iff split: if_splits)

lemma scopes_held_Some_mono:
  "set p \<subseteq> set q \<Longrightarrow> scopes_held p vs = Some s \<Longrightarrow> scopes_held q vs = Some s' \<Longrightarrow> set s \<subseteq> set s'"
  by (fastforce simp: scopes_held_def Let_def split: if_splits)

lemma shared_clause_mono:
  assumes "set p \<subseteq> set q" and "shared_clause db (with_grants p a) f r"
  shows "shared_clause db (with_grants q a) f r"
proof (cases "sf_scope_column f")
  case None
  then show ?thesis
    using assms list_ex_cover_mono [OF assms(1)] any_scope.covers_mono [OF assms(1)]
    by (auto simp: shared_clause_def Let_def split: if_splits)
next
  case (Some column)
  let ?vs = "sf_capability f # sf_implied_by f"
  show ?thesis
  proof (cases "scopes_held q ?vs")
    case None
    then show ?thesis using Some by (simp add: shared_clause_def Let_def)
  next
    case scopes_q: (Some s')
    then obtain s where s: "scopes_held p ?vs = Some s"
      using scopes_held_None_mono [OF assms(1)] by fastforce
    then have "set s \<subseteq> set s'" using scopes_held_Some_mono [OF assms(1)] scopes_q by blast
    then show ?thesis
      using assms Some s scopes_q any_scope.covers_mono [OF assms(1)]
      by (fastforce simp: shared_clause_def Let_def split: if_splits)
  qed
qed

text \<open>Widening a credential's grants never hides a row: whatever document a request could fetch,
  the same request with more grants can fetch, in every personal and shared family.\<close>

theorem wider_grants_never_hide:
  assumes "set p \<subseteq> set q"
    and "get_scoped_or_404 (db\<lparr>db_actor := Some (with_grants p a)\<rparr>) m t i = Inr r"
  shows "get_scoped_or_404 (db\<lparr>db_actor := Some (with_grants q a)\<rparr>) m t i = Inr r"
proof -
  have same: "family_clause (db\<lparr>db_actor := x\<rparr>) b f = family_clause db b f"
    "shared_clause (db\<lparr>db_actor := x\<rparr>) b g = shared_clause db b g"
    "get_row (db\<lparr>db_actor := x\<rparr>) m i = get_row db m i" for x b f g
    by (simp_all add: fun_eq_iff family_clause_def shared_clause_def routed_def get_row_def)
  show ?thesis
    using assms(2) family_clause_mono [OF assms(1)] shared_clause_mono [OF assms(1)]
    by (auto simp: get_scoped_or_404_Inr is_visible_def document_clause_def same split: option.splits)
qed

definition blank_row :: row where
  "blank_row = \<lparr>row_model = Payment, row_id = [], row_tenant_id = ''t'', row_status = ''draft'', row_deleted_at = None,
     row_deleted_by = None, row_delete_reason = None, row_employee_id = None, row_payee_employee_id = None,
     row_customer_id = None, row_vendor_id = None, row_created_by = None, row_direction = [], row_side = [],
     row_order_kind = ''order'', row_object_type = [], row_number = [], row_name = [], row_submitted_at = None,
     row_currency = ''CNY'', row_amount = 0, row_total_amount = None, row_applied_amount = 0,
     row_billing_account_id = None, row_sales_order_id = None, row_purchase_order_id = None,
     row_expense_claim_id = None, row_quotation_id = None, row_unit_type = [], row_unit = [],
     row_credit_limit = 0, row_balance = 0, row_created_at = 0, row_other = []\<rparr>"

definition blank_actor :: actor where
  "blank_actor = \<lparr>ac_tenant_id = ''t'', ac_kind = ''user'', ac_role = ''member'', ac_user_id = Some ''u'',
     ac_employee_id = Some ''e'', ac_credential_id = Some ''c'', ac_permissions = [], ac_write_scope = None,
     ac_principal_kind = PRINCIPAL_TENANT_SERVICE\<rparr>"

definition blank_db :: db where
  "blank_db = \<lparr>db_actor = None, db_definitions = [], db_type_options = [], db_rows = [], db_lines = [], db_todos = [], db_approvals = [],
     db_entries = [], db_applications = [], db_audit = [], db_uuid_in = Some, db_uuids = (\<lambda>n. replicate n CHR ''x''), db_next = 1\<rparr>"

theorem wider_grants_never_hide_witness:
  "get_scoped_or_404 (blank_db\<lparr>db_rows := [blank_row\<lparr>row_model := Invoice, row_direction := ''sales''\<rparr>],
       db_actor := Some (with_grants [''invoice.manage:sales'', ''payment.read''] blank_actor)\<rparr>) Invoice ''t'' [] =
     Inr (blank_row\<lparr>row_model := Invoice, row_direction := ''sales''\<rparr>)"
proof -
  have "get_scoped_or_404 (blank_db\<lparr>db_rows := [blank_row\<lparr>row_model := Invoice, row_direction := ''sales''\<rparr>],
       db_actor := Some (with_grants [''invoice.manage:sales''] blank_actor)\<rparr>) Invoice ''t'' [] =
     Inr (blank_row\<lparr>row_model := Invoice, row_direction := ''sales''\<rparr>)"
    by code_simp
  moreover have "set [''invoice.manage:sales''] \<subseteq> set [''invoice.manage:sales'', ''payment.read'']" by simp
  ultimately show ?thesis using wider_grants_never_hide by blast
qed

end
