(* ===== verification/Charging.thy ===== *)
theory Charging
  imports Visibility
begin

text \<open>
  \<open>app/api/common/charging.py\<close>: what the documents charged to an account still stand to draw from
  it, and the guard that refuses one more charge. \<open>_live_sum\<close> does not test the tenant, as in the
  code: lines are found by their parent's id.
\<close>

text \<open>\<open>float(x or 0)\<close>\<close>

definition or_zero :: "money option \<Rightarrow> money" where
  "or_zero x = (case x of None \<Rightarrow> 0 | Some y \<Rightarrow> y)"

definition effective_line_amount :: "line \<Rightarrow> money" where
  "effective_line_amount l =
     (case ln_amount l of
        Some a \<Rightarrow> a
      | None \<Rightarrow> (case ln_unit_price l of
                   Some p \<Rightarrow> p * or_zero (ln_quantity l)
                 | None \<Rightarrow> 0))"

definition live_sum :: "db \<Rightarrow> line_model \<Rightarrow> uuid \<Rightarrow> bool \<Rightarrow> money" where
  "live_sum db m parent lines =
     sum_list (map (if lines then effective_line_amount else (\<lambda>l. or_zero (ln_amount l))) (live_lines db m parent))"

definition invoice_billed_amount :: "db \<Rightarrow> row \<Rightarrow> money" where
  "invoice_billed_amount db invoice =
     (case row_total_amount invoice of Some t \<Rightarrow> t | None \<Rightarrow> live_sum db InvoiceItem (row_id invoice) True)"

record chargeable =
  cg_item_model :: line_model
  cg_adjustment_model :: line_model
  cg_invoice_link :: "row \<Rightarrow> uuid option"
  cg_kind :: string

definition CHARGEABLE_ORDERS :: "(model \<times> chargeable) list" where
  "CHARGEABLE_ORDERS = [
     (SalesOrder, \<lparr>cg_item_model = SalesOrderItem, cg_adjustment_model = SalesOrderAdjustment,
        cg_invoice_link = row_sales_order_id, cg_kind = ''sales_order''\<rparr>),
     (PurchaseOrder, \<lparr>cg_item_model = PurchaseOrderItem, cg_adjustment_model = PurchaseOrderAdjustment,
        cg_invoice_link = row_purchase_order_id, cg_kind = ''purchase_order''\<rparr>)]"

definition order_live_total :: "db \<Rightarrow> chargeable \<Rightarrow> row \<Rightarrow> money" where
  "order_live_total db spec order =
     (case row_total_amount order of
        Some t \<Rightarrow> t
      | None \<Rightarrow> live_sum db (cg_item_model spec) (row_id order) True +
                live_sum db (cg_adjustment_model spec) (row_id order) False)"

definition order_billed_on_account :: "db \<Rightarrow> chargeable \<Rightarrow> row \<Rightarrow> uuid \<Rightarrow> money" where
  "order_billed_on_account db spec order account_id =
     sum_where (\<lambda>i. row_model i = Invoice \<and> row_tenant_id i = row_tenant_id order \<and>
                    cg_invoice_link spec i = Some (row_id order) \<and>
                    row_billing_account_id i = Some account_id \<and> row_deleted_at i = None)
       (invoice_billed_amount db) (db_rows db)"

record charged_document =
  cd_kind :: string
  cd_document :: row
  cd_total :: money
  cd_consumed :: money

definition occupied :: "charged_document \<Rightarrow> money" where
  "occupied d = max (cd_total d - cd_consumed d) 0"

definition charged_rows :: "db \<Rightarrow> row \<Rightarrow> model \<Rightarrow> row list" where
  "charged_rows db account m =
     filter (\<lambda>r. row_model r = m \<and> row_tenant_id r = row_tenant_id account \<and>
                 row_billing_account_id r = Some (row_id account) \<and> row_deleted_at r = None) (db_rows db)"

definition charged_documents :: "db \<Rightarrow> row \<Rightarrow> charged_document list" where
  "charged_documents db account =
     concat (map (\<lambda>(m, spec). map (\<lambda>order. \<lparr>cd_kind = cg_kind spec, cd_document = order,
           cd_total = order_live_total db spec order,
           cd_consumed = order_billed_on_account db spec order (row_id account)\<rparr>)
         (charged_rows db account m)) CHARGEABLE_ORDERS) @
     map (\<lambda>invoice. \<lparr>cd_kind = ''invoice'', cd_document = invoice,
           cd_total = invoice_billed_amount db invoice, cd_consumed = row_applied_amount invoice\<rparr>)
       (charged_rows db account Invoice)"

definition account_exposure :: "db \<Rightarrow> row \<Rightarrow> money" where
  "account_exposure db account = round2 (sum_list (map occupied (charged_documents db account)))"

definition account_position :: "db \<Rightarrow> row \<Rightarrow> money \<times> money \<times> money" where
  "account_position db account =
     (let balance = row_balance account; exposure = account_exposure db account in
      (balance, exposure, round2 (balance + row_credit_limit account - exposure)))"

definition owner_column :: "string \<Rightarrow> row \<Rightarrow> uuid option" where
  "owner_column field r =
     (if field = ''customer_id'' then row_customer_id r
      else if field = ''vendor_id'' then row_vendor_id r else row_employee_id r)"

definition resolve_chargeable_account ::
    "db \<Rightarrow> uuid \<Rightarrow> uuid \<Rightarrow> string \<Rightarrow> uuid option \<Rightarrow> string \<Rightarrow> row result" where
  "resolve_chargeable_account db tenant_id account_id owner_field owner_id currency =
     (case find_row (\<lambda>r. row_model r = BillingAccount \<and> row_tenant_id r = tenant_id \<and> row_id r = account_id)
             (db_rows db) of
        None \<Rightarrow> Inl (HttpError 404 ''BillingAccount_not_found'')
      | Some account \<Rightarrow>
          bindE (ensure (row_deleted_at account = None) 404 ''BillingAccount_not_found'') (\<lambda>_.
          bindE (ensure (row_status account = ''active'') 409 ''account_takes_no_new_charges'') (\<lambda>_.
          bindE (ensure (row_unit_type account = ''currency'') 409 ''account_counts_points'') (\<lambda>_.
          bindE (ensure (row_unit account = currency) 409 ''currency_mismatch'') (\<lambda>_.
          bindE (ensure (owner_column owner_field account \<noteq> None \<and> owner_id \<noteq> None \<and>
                         owner_column owner_field account = owner_id) 409 ''account_of_another_party'') (\<lambda>_.
          Inr account))))))"

definition ensure_within_credit :: "db \<Rightarrow> row \<Rightarrow> unit result" where
  "ensure_within_credit db account =
     (let (_, _, available) = account_position db account in
      ensure (\<not> available < - CENT) 409 ''charging_exceeds_the_credit'')"

definition recheck_charged_document :: "db \<Rightarrow> row \<Rightarrow> unit result" where
  "recheck_charged_document db document =
     (case row_billing_account_id document of
        None \<Rightarrow> Inr ()
      | Some account_id \<Rightarrow>
          (case find_row (\<lambda>r. row_model r = BillingAccount \<and> row_tenant_id r = row_tenant_id document \<and>
                               row_id r = account_id) (db_rows db) of
             None \<Rightarrow> Inr ()
           | Some account \<Rightarrow> ensure_within_credit db account))"

definition ensure_nothing_applied :: "row \<Rightarrow> unit result" where
  "ensure_nothing_applied document = ensure (\<not> CENT < \<bar>row_applied_amount document\<bar>) 409 ''amounts_are_applied''"

subsection \<open>Reading an invoice's worth\<close>

text \<open>\<open>invoice_line_amount\<close>, \<open>live_invoice_items\<close> and \<open>invoice_billed_total\<close> of
  \<open>app/api/billing.py\<close>: the settlement ceiling (the order of the lines does not matter to it).\<close>

definition invoice_line_amount :: "line \<Rightarrow> money option" where
  "invoice_line_amount l =
     (case ln_amount l of
        Some a \<Rightarrow> Some a
      | None \<Rightarrow> (case (ln_quantity l, ln_unit_price l) of (Some q, Some p) \<Rightarrow> Some (q * p) | _ \<Rightarrow> None))"

definition live_invoice_items :: "db \<Rightarrow> uuid \<Rightarrow> uuid \<Rightarrow> line list" where
  "live_invoice_items db tenant_id invoice_id =
     filter (\<lambda>l. ln_tenant_id l = tenant_id) (live_lines db InvoiceItem invoice_id)"

definition invoice_billed_total :: "row \<Rightarrow> line list \<Rightarrow> money" where
  "invoice_billed_total invoice items =
     (case row_total_amount invoice of
        Some t \<Rightarrow> t
      | None \<Rightarrow> sum_list (List.map_filter invoice_line_amount items))"

lemma effective_invoice_line: "effective_line_amount = (\<lambda>l. or_zero (invoice_line_amount l))"
  by (rule ext) (auto simp: effective_line_amount_def invoice_line_amount_def or_zero_def split: option.splits)

lemma sum_map_filter: "sum_list (List.map_filter f xs) = sum_list (map (\<lambda>x. or_zero (f x)) xs)"
  by (induction xs) (auto simp: map_filter_simps or_zero_def split: option.splits)

definition lines_in_tenant :: "db \<Rightarrow> row \<Rightarrow> bool" where
  "lines_in_tenant db r \<longleftrightarrow> list_all (\<lambda>l. ln_parent_id l = row_id r \<longrightarrow> ln_tenant_id l = row_tenant_id r) (db_lines db)"

text \<open>The two readings of what an invoice bills agree: the charging module's occupation and the
  settlement ceiling are the same figure (a line belongs to its parent's tenant).\<close>

theorem charging_and_settlement_agree_on_the_bill:
  assumes "lines_in_tenant db invoice"
  shows "invoice_billed_amount db invoice =
    invoice_billed_total invoice (live_invoice_items db (row_tenant_id invoice) (row_id invoice))"
proof -
  have "live_invoice_items db (row_tenant_id invoice) (row_id invoice) = live_lines db InvoiceItem (row_id invoice)"
    using assms
    by (auto simp: live_invoice_items_def live_lines_def lines_in_tenant_def list_all_iff intro: filter_cong)
  then show ?thesis
    by (simp add: invoice_billed_amount_def invoice_billed_total_def live_sum_def effective_invoice_line
        sum_map_filter split: option.splits)
qed

definition blank_line :: line where
  "blank_line = \<lparr>ln_model = InvoiceItem, ln_id = ''l'', ln_tenant_id = ''t'', ln_parent_id = [], ln_deleted_at = None,
     ln_amount = None, ln_unit_price = Some 3, ln_quantity = Some 2, ln_is_gift = False\<rparr>"

theorem charging_and_settlement_agree_on_the_bill_witness:
  "invoice_billed_total (blank_row\<lparr>row_model := Invoice\<rparr>) [blank_line] = 6 \<and>
   invoice_billed_amount (blank_db\<lparr>db_lines := [blank_line]\<rparr>) (blank_row\<lparr>row_model := Invoice\<rparr>) = 6"
proof -
  have "lines_in_tenant (blank_db\<lparr>db_lines := [blank_line]\<rparr>) (blank_row\<lparr>row_model := Invoice\<rparr>)" by code_simp
  from charging_and_settlement_agree_on_the_bill [OF this] show ?thesis
    by (simp add: live_invoice_items_def live_lines_def blank_line_def blank_row_def blank_db_def
        invoice_billed_total_def invoice_line_amount_def map_filter_simps)
qed

subsection \<open>What the occupation guard gives\<close>

lemma occupied_nonneg: "0 \<le> occupied d"
  by (simp add: occupied_def)

lemma exposure_raw_nonneg: "0 \<le> sum_list (map occupied ds)"
  by (induction ds) (auto simp: occupied_nonneg intro: add_nonneg_nonneg)

lemma ensure_within_credit_Inr:
  "ensure_within_credit db account = Inr () \<longleftrightarrow>
     - CENT \<le> round2 (row_balance account + row_credit_limit account - account_exposure db account)"
  by (simp add: ensure_within_credit_def account_position_def Let_def ensure_Inr_iff not_less)

text \<open>The guard's slack admits nothing: on two-decimal balances and limits an accepted charge leaves
  the exposure within balance plus limit exactly.\<close>

lemma within_credit_exact:
  assumes "ensure_within_credit db account = Inr ()"
    and "in_cents (row_balance account)" and "in_cents (row_credit_limit account)"
  shows "account_exposure db account \<le> row_balance account + row_credit_limit account"
proof -
  let ?x = "row_balance account + row_credit_limit account - account_exposure db account"
  have cents: "in_cents ?x" using assms(2,3) by (auto simp: account_exposure_def round2_in_cents)
  with assms(1) have "0 - CENT \<le> ?x" by (simp add: ensure_within_credit_Inr round2_id)
  then have "0 \<le> ?x" using cents in_cents_ge_slack [of ?x 0] by simp
  then show ?thesis by simp
qed

end
