(* ===== verification/Documents.thy ===== *)
theory Documents
  imports Charging
begin

text \<open>
  \<open>app/api/common/documents.py\<close>: what all sixteen document families share. A family is a record
  of data (\<open>DOCUMENT_FAMILIES\<close>); submitting, moving, deleting and restoring a document are the same
  functions for all of them.

  Handlers return the answer's row with the new state; the parts of an answer that are only
  rendering (read models, names) are not modelled. \<open>now\<close> is the handler's clock.
\<close>

record document_family =
  df_object_type :: string
  df_permission :: string
  df_audit_prefix :: string
  df_advance_permission :: "string option"
  df_permission_scope :: "row \<Rightarrow> string option"
  df_owner_checked :: bool
  df_attributed_delete :: bool
  df_number_prefix :: "string option"
  df_machine_type :: "row \<Rightarrow> string"

definition plain_family :: "string \<Rightarrow> string \<Rightarrow> string \<Rightarrow> string option \<Rightarrow> document_family" where
  "plain_family object_type permission audit_prefix advance = \<lparr>
     df_object_type = object_type, df_permission = permission, df_audit_prefix = audit_prefix,
     df_advance_permission = advance, df_permission_scope = (\<lambda>_. None), df_owner_checked = True,
     df_attributed_delete = True, df_number_prefix = None, df_machine_type = (\<lambda>_. object_type)\<rparr>"

definition DOCUMENT_FAMILIES :: "(model \<times> document_family) list" where
  "DOCUMENT_FAMILIES = [
     (TimesheetHeader, plain_family ''timesheet_header'' ''timesheet.submit_own'' ''timesheet'' (Some ''timesheet.advance'')),
     (EmployeeLeave, plain_family ''employee_leave'' ''leave.submit_own'' ''leave'' (Some ''leave.advance'')),
     (ExpenseClaim, plain_family ''expense_claim'' ''expense.submit_own'' ''expense'' (Some ''expense.advance'')),
     (PurchaseRequest, plain_family ''purchase_request'' ''purchase.submit_own'' ''purchase'' (Some ''purchase.advance'')),
     (SalesQuotation, (plain_family ''sales_quotation'' ''quotation.submit_own'' ''quotation'' (Some ''quotation.advance''))
        \<lparr>df_number_prefix := Some ''QT-''\<rparr>),
     (SalesOrder, (plain_family ''sales_order'' ''order.submit_own'' ''order'' (Some ''order.advance''))
        \<lparr>df_number_prefix := Some ''SO-'',
         df_machine_type := (\<lambda>d. if row_order_kind d = ''return'' then ''sales_return'' else ''sales_order'')\<rparr>),
     (PurchaseOrder, (plain_family ''purchase_order'' ''purchase_order.manage'' ''purchase_order'' None)
        \<lparr>df_owner_checked := False, df_attributed_delete := False, df_number_prefix := Some ''PO-'',
         df_machine_type := (\<lambda>d. if row_order_kind d = ''return'' then ''purchase_return'' else ''purchase_order'')\<rparr>),
     (Contract, (plain_family ''contract'' ''contract.manage'' ''contract'' None)
        \<lparr>df_permission_scope := (\<lambda>d. Some (row_side d)), df_owner_checked := False, df_attributed_delete := False,
         df_number_prefix := Some ''CT-''\<rparr>),
     (Picklist, (plain_family ''picklist'' ''inventory.manage'' ''picklist'' None)
        \<lparr>df_owner_checked := False, df_attributed_delete := False, df_number_prefix := Some ''PL-''\<rparr>),
     (Shipment, (plain_family ''shipment'' ''shipment.manage'' ''shipment'' None)
        \<lparr>df_owner_checked := False, df_attributed_delete := False, df_number_prefix := Some ''SH-''\<rparr>),
     (Campaign, (plain_family ''campaign'' ''campaign.manage'' ''campaign'' None)
        \<lparr>df_owner_checked := False, df_attributed_delete := False, df_number_prefix := Some ''CMP-''\<rparr>),
     (Event, (plain_family ''event'' ''crm.own'' ''event'' None)
        \<lparr>df_attributed_delete := False, df_number_prefix := Some ''EV-''\<rparr>),
     (Lead, (plain_family ''lead'' ''crm.own'' ''lead'' None)
        \<lparr>df_attributed_delete := False, df_number_prefix := Some ''LD-''\<rparr>),
     (Opportunity, (plain_family ''opportunity'' ''crm.own'' ''opportunity'' None)
        \<lparr>df_attributed_delete := False, df_number_prefix := Some ''OPP-''\<rparr>),
     (Invoice, (plain_family ''invoice'' ''invoice.manage'' ''invoice'' (Some ''invoice.advance''))
        \<lparr>df_permission_scope := (\<lambda>d. Some (row_direction d)), df_owner_checked := False,
         df_number_prefix := Some ''INV-''\<rparr>),
     (Payment, (plain_family ''payment'' ''payment.record'' ''payment'' (Some ''payment.advance''))
        \<lparr>df_owner_checked := False, df_attributed_delete := False, df_number_prefix := Some ''PAY-''\<rparr>)]"

definition family_of :: "model \<Rightarrow> document_family result" where
  "family_of m = (case map_of DOCUMENT_FAMILIES m of None \<Rightarrow> Inl KeyError | Some f \<Rightarrow> Inr f)"

subsection \<open>Pointers at other rows\<close>

definition status_scope :: "string option \<Rightarrow> string option" where
  "status_scope status_filter =
     (if status_filter = Some ''all'' then None
      else case status_filter of None \<Rightarrow> Some ''active''
           | Some s \<Rightarrow> Some (if s = [] then ''active'' else s))"

definition require_active_row :: "db \<Rightarrow> model \<Rightarrow> uuid \<Rightarrow> uuid option \<Rightarrow> row option result" where
  "require_active_row db m tenant_id i =
     (case i of
        None \<Rightarrow> Inr None
      | Some j \<Rightarrow> bindE (get_scoped_or_404 db m tenant_id j) (\<lambda>r.
          bindE (ensure (row_status r = ''active'') 409 ''is_archived'') (\<lambda>_. Inr (Some r))))"

definition require_contract_for :: "db \<Rightarrow> uuid \<Rightarrow> uuid option \<Rightarrow> string \<Rightarrow> row option result" where
  "require_contract_for db tenant_id contract_id side =
     (case contract_id of
        None \<Rightarrow> Inr None
      | Some i \<Rightarrow> bindE (get_scoped_or_404 db Contract tenant_id i) (\<lambda>c.
          bindE (ensure (row_deleted_at c = None) 404 ''Contract_not_found'') (\<lambda>_.
          bindE (ensure (row_side c = side) 422 ''contract_of_the_other_side'') (\<lambda>_. Inr (Some c)))))"

definition require_original_order :: "db \<Rightarrow> uuid \<Rightarrow> model \<Rightarrow> uuid option \<Rightarrow> row option result" where
  "require_original_order db tenant_id m original_order_id =
     (case original_order_id of
        None \<Rightarrow> Inr None
      | Some i \<Rightarrow> bindE (get_scoped_or_404 db m tenant_id i) (\<lambda>o'.
          bindE (ensure (row_order_kind o' = ''order'') 422 ''original_is_itself_a_return'') (\<lambda>_. Inr (Some o'))))"

subsection \<open>Payroll\<close>

definition may_read_payroll :: "actor \<Rightarrow> bool" where
  "may_read_payroll a \<longleftrightarrow> has_permission a ''payroll.read'' None \<or> has_permission a ''invoice.manage'' (Some ''payroll'')"

definition own_employee_id :: "actor \<Rightarrow> uuid option" where
  "own_employee_id a = (if ac_kind a = ''user'' then ac_employee_id a else None)"

definition visible_payroll_filter :: "actor \<Rightarrow> row \<Rightarrow> bool" where
  "visible_payroll_filter a invoice \<longleftrightarrow> may_read_payroll a \<or> row_direction invoice \<noteq> ''payroll'' \<or>
     own_employee_id a \<noteq> None \<and> row_payee_employee_id invoice = own_employee_id a"

subsection \<open>Permissions of a document\<close>

definition require_family_permission :: "actor \<Rightarrow> document_family \<Rightarrow> row \<Rightarrow> unit result" where
  "require_family_permission a family document =
     require_permission a (df_permission family) (df_permission_scope family document)"

definition check_owner :: "actor \<Rightarrow> document_family \<Rightarrow> row \<Rightarrow> unit result" where
  "check_owner a family document =
     (if df_owner_checked family then enforce_member_employee a (row_employee_id document) else Inr ())"

definition require_machine_state ::
    "db \<Rightarrow> actor \<Rightarrow> model \<Rightarrow> string option \<Rightarrow> string option \<Rightarrow> bool \<Rightarrow> string result" where
  "require_machine_state db a m status_value object_type advance_exempt =
     bindE (family_of m) (\<lambda>family.
     bindE (get_builtin_machine (db_definitions db) (ac_tenant_id a)
              (case object_type of None \<Rightarrow> df_object_type family
                                 | Some t \<Rightarrow> if t = [] then df_object_type family else t)) (\<lambda>machine.
     case status_value of
       None \<Rightarrow> Inr (m_initial machine)
     | Some s \<Rightarrow>
         bindE (ensure (s \<in> set (m_states machine)) 422 ''status_is_not_a_state_of_the_machine'') (\<lambda>_.
         bindE (case df_advance_permission family of
                  None \<Rightarrow> Inr ()
                | Some verb \<Rightarrow> if s \<noteq> m_initial machine \<and> \<not> advance_exempt then require_permission a verb None
                              else Inr ()) (\<lambda>_.
         Inr s))))"

definition filter_matches :: "row \<Rightarrow> string \<Rightarrow> json \<Rightarrow> bool" where
  "filter_matches r field expected =
     (case expected of JList options \<Rightarrow> row_attr r field \<in> set options | _ \<Rightarrow> row_attr r field = expected)"

definition require_hosted_write_scope :: "actor \<Rightarrow> string \<Rightarrow> row \<Rightarrow> string list \<Rightarrow> unit result" where
  "require_hosted_write_scope a entity_type r ignore =
     (case ac_write_scope a of
        None \<Rightarrow> Inr ()
      | Some scope \<Rightarrow>
          (case map_of scope entity_type of
             None \<Rightarrow> Inl (HttpError 403 ''no_enabled_subscription'')
           | Some queue_filter \<Rightarrow>
               each (\<lambda>(field, expected). if field \<in> set ignore then Inr ()
                       else ensure (filter_matches r field expected) 403 ''outside_this_subscription'') queue_filter))"

subsection \<open>Work items on a document\<close>

definition open_on :: "uuid \<Rightarrow> string \<Rightarrow> uuid \<Rightarrow> todo \<Rightarrow> bool" where
  "open_on tenant_id entity_type entity_id t \<longleftrightarrow> td_tenant t = tenant_id \<and> td_entity_type t = entity_type \<and>
     td_entity_id t = entity_id \<and> td_state t = ''open''"

definition audit_todos :: "actor \<Rightarrow> string \<Rightarrow> todo list \<Rightarrow> db \<Rightarrow> db" where
  "audit_todos a action ts db =
     fold (\<lambda>t. record_audit (ac_tenant_id a) action ''todo'' (td_id t) (Some (attributed a None))) ts db"

definition cancel_todos_for :: "actor \<Rightarrow> string \<Rightarrow> uuid \<Rightarrow> string option \<Rightarrow> db \<Rightarrow> db" where
  "cancel_todos_for a entity_type entity_id todo_type db =
     (let sel = (\<lambda>t. open_on (ac_tenant_id a) entity_type entity_id t \<and> (todo_type = None \<or> td_todo_type t = todo_type))
      in audit_todos a ''todo.cancelled'' (filter sel (db_todos db))
           (db\<lparr>db_todos := update_rows sel (\<lambda>t. t\<lparr>td_state := ''cancelled''\<rparr>) (db_todos db)\<rparr>))"

definition complete_rework_todos_for :: "timestamp \<Rightarrow> actor \<Rightarrow> string \<Rightarrow> uuid \<Rightarrow> db \<Rightarrow> db" where
  "complete_rework_todos_for now a entity_type entity_id db =
     (let sel = (\<lambda>t. open_on (ac_tenant_id a) entity_type entity_id t \<and> td_todo_type t = Some ''rework'')
      in audit_todos a ''todo.completed'' (filter sel (db_todos db))
           (db\<lparr>db_todos := update_rows sel (\<lambda>t. t\<lparr>td_state := ''completed'', td_completed_at := Some now,
                             td_completed_by := Some (attributed a None)\<rparr>) (db_todos db)\<rparr>))"

definition retire_open_work_if_finished ::
    "actor \<Rightarrow> machine \<Rightarrow> string \<Rightarrow> uuid \<Rightarrow> string \<Rightarrow> string \<Rightarrow> string list option \<Rightarrow> db \<Rightarrow> db" where
  "retire_open_work_if_finished a machine entity_type entity_id current new_status editable db =
     (if new_status = current then db
      else if \<not> is_terminal_state machine new_status then db
      else if (case editable of None \<Rightarrow> False | Some es \<Rightarrow> new_status \<in> set es) then db
      else cancel_todos_for a entity_type entity_id None db)"

subsection \<open>Moving a document\<close>

definition apply_status_change :: "db \<Rightarrow> actor \<Rightarrow> row \<Rightarrow> string \<Rightarrow> (machine \<times> db) result" where
  "apply_status_change db a document new_status =
     bindE (family_of (row_model document)) (\<lambda>family.
     bindE (case df_advance_permission family of None \<Rightarrow> Inr () | Some verb \<Rightarrow> require_permission a verb None) (\<lambda>_.
     bindE (require_hosted_write_scope a (df_object_type family) document []) (\<lambda>_.
     let machine_type = df_machine_type family document in
     bindE (get_builtin_machine (db_definitions db) (row_tenant_id document) machine_type) (\<lambda>machine.
     bindE (validate_transition machine (row_status document) new_status) (\<lambda>_.
     let db1 = record_audit (row_tenant_id document) (df_audit_prefix family @ ''.status_changed'')
                 (df_object_type family) (row_id document) (Some (label a)) db in
     bindE (editable_states machine machine_type) (\<lambda>editable.
     Inr (machine, retire_open_work_if_finished a machine (df_object_type family) (row_id document)
                     (row_status document) new_status (Some editable) db1)))))))"

definition record_submission_fact :: "timestamp \<Rightarrow> actor \<Rightarrow> string \<Rightarrow> uuid \<Rightarrow> db \<Rightarrow> db" where
  "record_submission_fact acted_at a entity_type entity_id db =
     (let mine = (\<lambda>p. ap_tenant_id p = ac_tenant_id a \<and> ap_entity_type p = entity_type \<and> ap_entity_id p = entity_id);
          round_no = length (filter (\<lambda>p. mine p \<and> ap_action p = ''returned'') (db_approvals db)) + 1
      in if list_ex (\<lambda>p. mine p \<and> ap_round_no p = round_no \<and> ap_sequence_no p = 1 \<and> ap_action p = ''submitted'')
              (db_approvals db)
         then db
         else tick (db\<lparr>db_approvals := db_approvals db @ [\<lparr>ap_id = fresh_id db, ap_tenant_id = ac_tenant_id a,
                ap_entity_type = entity_type, ap_entity_id = entity_id, ap_round_no = round_no, ap_sequence_no = 1,
                ap_action = ''submitted'', ap_historical_conflict_closed = False, ap_approver_id = Some (label a),
                ap_approver_role = Some ''submitter'', ap_acted_at = acted_at\<rparr>]\<rparr>))"

definition stamp_submitted :: "string \<Rightarrow> timestamp \<Rightarrow> row \<Rightarrow> row" where
  "stamp_submitted s now r = r\<lparr>row_status := s, row_submitted_at := Some now\<rparr>"

text \<open>The writes of a submission, in the order the code makes them.\<close>

definition submitted_db :: "timestamp \<Rightarrow> actor \<Rightarrow> model \<Rightarrow> document_family \<Rightarrow> uuid \<Rightarrow> string \<Rightarrow> db \<Rightarrow> db" where
  "submitted_db now a m family i s db =
     complete_rework_todos_for now a (df_object_type family) i
       (record_submission_fact now a (df_object_type family) i
         (set_row m i (stamp_submitted s now)
           (record_audit (ac_tenant_id a) (df_audit_prefix family @ ''.submitted'') (df_object_type family) i
             (Some (label a)) db)))"

definition submit_document :: "timestamp \<Rightarrow> db \<Rightarrow> actor \<Rightarrow> model \<Rightarrow> uuid \<Rightarrow> (row \<times> db) result" where
  "submit_document now db a m document_id =
     bindE (family_of m) (\<lambda>family.
     bindE (get_active_document_or_404 db m (ac_tenant_id a) document_id) (\<lambda>document.
     bindE (require_family_permission a family document) (\<lambda>_.
     bindE (require_hosted_write_scope a (df_object_type family) document []) (\<lambda>_.
     bindE (check_owner a family document) (\<lambda>_.
     let machine_type = df_machine_type family document in
     bindE (get_builtin_machine (db_definitions db) (ac_tenant_id a) machine_type) (\<lambda>machine.
     bindE (state_for_role machine machine_type ''submitted'') (\<lambda>submitted.
     if row_status document = submitted then Inr (document, db)
     else
     bindE (validate_transition machine (row_status document) submitted) (\<lambda>_.
     Inr (stamp_submitted submitted now document, submitted_db now a m family document_id submitted db)))))))))"

definition stamp_deleted :: "document_family \<Rightarrow> actor \<Rightarrow> timestamp \<Rightarrow> string option \<Rightarrow> string option \<Rightarrow> row \<Rightarrow> row" where
  "stamp_deleted family a now deleted_by delete_reason r =
     (let r1 = r\<lparr>row_deleted_at := Some now\<rparr>
      in if df_attributed_delete family
         then r1\<lparr>row_deleted_by := Some (attributed a deleted_by), row_delete_reason := delete_reason\<rparr>
         else r1)"

definition clear_deleted :: "document_family \<Rightarrow> row \<Rightarrow> row" where
  "clear_deleted family r =
     (let r1 = r\<lparr>row_deleted_at := None\<rparr>
      in if df_attributed_delete family then r1\<lparr>row_deleted_by := None, row_delete_reason := None\<rparr> else r1)"

definition delete_document ::
    "timestamp \<Rightarrow> db \<Rightarrow> actor \<Rightarrow> model \<Rightarrow> uuid \<Rightarrow> string option \<Rightarrow> string option \<Rightarrow> db result" where
  "delete_document now db a m document_id deleted_by delete_reason =
     bindE (family_of m) (\<lambda>family.
     bindE (get_scoped_or_404 db m (ac_tenant_id a) document_id) (\<lambda>document.
     bindE (require_family_permission a family document) (\<lambda>_.
     if row_deleted_at document \<noteq> None then Inr db
     else
     bindE (check_owner a family document) (\<lambda>_.
     let db1 = set_row m document_id (stamp_deleted family a now deleted_by delete_reason) db
     in Inr (cancel_todos_for a (df_object_type family) (row_id document) None db1)))))"

definition restore_document :: "db \<Rightarrow> actor \<Rightarrow> model \<Rightarrow> uuid \<Rightarrow> (row \<times> db) result" where
  "restore_document db a m document_id =
     bindE (family_of m) (\<lambda>family.
     bindE (get_scoped_or_404 db m (ac_tenant_id a) document_id) (\<lambda>document.
     bindE (require_family_permission a family document) (\<lambda>_.
     bindE (check_owner a family document) (\<lambda>_.
     if row_deleted_at document = None then Inr (document, db)
     else
     let db1 = set_row m document_id (clear_deleted family) db
     in bindE (recheck_charged_document db1 (clear_deleted family document)) (\<lambda>_.
        Inr (clear_deleted family document, db1))))))"

subsection \<open>Editing a document's lines\<close>

definition ensure_not_consumed_by_an_order :: "db \<Rightarrow> row \<Rightarrow> unit result" where
  "ensure_not_consumed_by_an_order db document =
     (if row_model document \<noteq> SalesQuotation then Inr ()
      else ensure (\<not> list_ex (\<lambda>o'. row_model o' = SalesOrder \<and> row_tenant_id o' = row_tenant_id document \<and>
                       row_quotation_id o' = Some (row_id document) \<and> row_deleted_at o' = None) (db_rows db))
             409 ''an_order_was_written_from_this_quotation'')"

definition ensure_document_editable :: "db \<Rightarrow> row \<Rightarrow> unit result" where
  "ensure_document_editable db document =
     bindE (ensure_not_consumed_by_an_order db document) (\<lambda>_.
     bindE (family_of (row_model document)) (\<lambda>family.
     let machine_type = df_machine_type family document in
     bindE (get_builtin_machine (db_definitions db) (row_tenant_id document) machine_type) (\<lambda>machine.
     bindE (editable_states machine machine_type) (\<lambda>editable.
     ensure (row_status document \<in> set editable) 409 ''lines_can_only_be_changed_in_an_editable_state''))))"

subsection \<open>What the document verbs do\<close>

lemma audit_todos_fields [store_simps]:
  "db_actor (audit_todos a w ts db) = db_actor db" "db_definitions (audit_todos a w ts db) = db_definitions db"
  "db_rows (audit_todos a w ts db) = db_rows db" "db_lines (audit_todos a w ts db) = db_lines db"
  "db_todos (audit_todos a w ts db) = db_todos db" "db_approvals (audit_todos a w ts db) = db_approvals db"
  "db_entries (audit_todos a w ts db) = db_entries db" "db_applications (audit_todos a w ts db) = db_applications db"
  "get_row (audit_todos a w ts db) m j = get_row db m j"
  "db_next (audit_todos a w ts db) = db_next db" "db_uuids (audit_todos a w ts db) = db_uuids db"
  unfolding audit_todos_def by (induction ts arbitrary: db; simp add: store_simps get_row_def)+

definition cancelled :: "todo \<Rightarrow> todo" where
  "cancelled t = t\<lparr>td_state := ''cancelled''\<rparr>"

lemma cancel_todos_for_todos [store_simps]:
  "db_todos (cancel_todos_for a et i tt db) =
     update_rows (\<lambda>t. open_on (ac_tenant_id a) et i t \<and> (tt = None \<or> td_todo_type t = tt)) cancelled (db_todos db)"
  by (simp add: cancel_todos_for_def Let_def store_simps cancelled_def [abs_def])

lemma cancel_todos_for_fields [store_simps]:
  "db_actor (cancel_todos_for a et i tt db) = db_actor db" "db_rows (cancel_todos_for a et i tt db) = db_rows db"
  "db_definitions (cancel_todos_for a et i tt db) = db_definitions db"
  "db_lines (cancel_todos_for a et i tt db) = db_lines db"
  "db_approvals (cancel_todos_for a et i tt db) = db_approvals db"
  "db_entries (cancel_todos_for a et i tt db) = db_entries db"
  "db_applications (cancel_todos_for a et i tt db) = db_applications db"
  "get_row (cancel_todos_for a et i tt db) m j = get_row db m j"
  by (simp_all add: cancel_todos_for_def Let_def store_simps get_row_def)

lemma complete_rework_fields [store_simps]:
  "db_actor (complete_rework_todos_for now a et i db) = db_actor db"
  "db_definitions (complete_rework_todos_for now a et i db) = db_definitions db"
  "db_rows (complete_rework_todos_for now a et i db) = db_rows db"
  "db_approvals (complete_rework_todos_for now a et i db) = db_approvals db"
  "get_row (complete_rework_todos_for now a et i db) m j = get_row db m j"
  by (simp_all add: complete_rework_todos_for_def Let_def store_simps get_row_def)

lemma record_submission_fact_fields [store_simps]:
  "db_actor (record_submission_fact now a et i db) = db_actor db"
  "db_definitions (record_submission_fact now a et i db) = db_definitions db"
  "db_rows (record_submission_fact now a et i db) = db_rows db"
  "db_todos (record_submission_fact now a et i db) = db_todos db"
  "get_row (record_submission_fact now a et i db) m j = get_row db m j"
  by (simp_all add: record_submission_fact_def Let_def store_simps get_row_def)

lemma keeps_key_simps [simp]:
  "keeps_key (\<lambda>r. r\<lparr>row_status := s, row_submitted_at := t\<rparr>)"
  "keeps_key (stamp_deleted family a now by reason)" "keeps_key (clear_deleted family)"
  by (simp_all add: keeps_key_def Let_def stamp_deleted_def clear_deleted_def)

lemma stamp_deleted_at [simp]: "row_deleted_at (stamp_deleted family a now by reason r) = Some now"
  by (simp add: stamp_deleted_def Let_def)

lemma open_on_cancelled [simp]: "\<not> open_on t et i (cancelled x)"
  by (simp add: open_on_def cancelled_def)

lemma no_open_after_cancel:
  "\<not> list_ex (open_on (ac_tenant_id a) et i) (db_todos (cancel_todos_for a et i None db))"
  by (auto simp: store_simps list_ex_iff set_update_rows)

lemma family_of_Inr: "family_of m = Inr f \<longleftrightarrow> map_of DOCUMENT_FAMILIES m = Some f"
  by (auto simp: family_of_def split: option.splits)

lemma require_permission_Inr [result_simps]: "require_permission a v sc = Inr u \<longleftrightarrow> has_permission a v sc"
  by (simp add: require_permission_def ensure_Inr_iff)

lemma hosted_scope_Inr:
  "require_hosted_write_scope a et r ign = Inr u \<longleftrightarrow>
     (case ac_write_scope a of None \<Rightarrow> True
      | Some scope \<Rightarrow> \<exists>flt. map_of scope et = Some flt \<and>
          (\<forall>(f, e) \<in> set flt. f \<notin> set ign \<longrightarrow> filter_matches r f e))"
  by (auto simp: require_hosted_write_scope_def each_Inr_iff ensure_Inr_iff split: option.splits if_splits)

text \<open>Deleting a document takes all of its open work with it and nothing else: the row is stamped
  deleted, every open todo of the workspace pointing at it becomes cancelled, every other todo is
  what it was, and no document, entry or approval changes.\<close>

theorem delete_document_retires_exactly_its_work:
  assumes "delete_document now db a m i deleted_by reason = Inr db'"
    and "map_of DOCUMENT_FAMILIES m = Some family" and "get_row db m i = Some r" and "row_deleted_at r = None"
  shows "map_option row_deleted_at (get_row db' m i) = Some (Some now) \<and>
    db_todos db' = update_rows (open_on (ac_tenant_id a) (df_object_type family) i) cancelled (db_todos db) \<and>
    \<not> list_ex (open_on (ac_tenant_id a) (df_object_type family) i) (db_todos db') \<and>
    (\<forall>m' i'. (m', i') \<noteq> (m, i) \<longrightarrow> get_row db' m' i' = get_row db m' i') \<and>
    db_approvals db' = db_approvals db \<and> db_entries db' = db_entries db"
proof -
  from assms have i: "row_id r = i" by (auto dest: get_row_Some)
  let ?db1 = "set_row m i (stamp_deleted family a now deleted_by reason) db"
  from assms have db': "db' = cancel_todos_for a (df_object_type family) i None ?db1"
    by (auto simp: delete_document_def result_simps family_of_Inr get_scoped_or_404_Inr i Let_def)
  show ?thesis
    using assms(3) no_open_after_cancel [of a "df_object_type family" i ?db1]
    by (auto simp: db' store_simps get_row_set_row)
qed

definition demo_todo :: todo where
  "demo_todo = \<lparr>td_id = ''td'', td_tenant = ''t'', td_employee_id = ''e'', td_entity_type = ''employee_leave'',
     td_entity_id = ''d'', td_title = ''redo'', td_description = None, td_todo_type = Some ''rework'', td_state = ''open'',
     td_due_at = None, td_created_by = None, td_completed_at = None, td_completed_by = None,
     td_round_no = None, td_sequence_no = None\<rparr>"

definition demo_leave :: row where
  "demo_leave = blank_row\<lparr>row_model := EmployeeLeave, row_id := ''d'', row_employee_id := Some ''e''\<rparr>"

definition demo_employee :: actor where
  "demo_employee = with_grants [''leave.submit_own'', ''leave.advance''] blank_actor"

definition demo_documents :: db where
  "demo_documents = blank_db\<lparr>db_actor := Some demo_employee, db_rows := [demo_leave], db_todos := [demo_todo]\<rparr>"

theorem delete_document_retires_exactly_its_work_witness:
  "\<not> list_ex (open_on ''t'' ''employee_leave'' ''d'')
     (db_todos (projr (delete_document 7 demo_documents demo_employee EmployeeLeave ''d'' None None)))"
proof -
  let ?d = "delete_document 7 demo_documents demo_employee EmployeeLeave ''d'' None None"
  have 1: "?d = Inr (projr ?d)" by (rule is_ok_projr) code_simp
  have 2: "map_of DOCUMENT_FAMILIES EmployeeLeave =
      Some (plain_family ''employee_leave'' ''leave.submit_own'' ''leave'' (Some ''leave.advance''))"
    by (simp add: DOCUMENT_FAMILIES_def)
  have 3: "get_row demo_documents EmployeeLeave ''d'' = Some demo_leave" by code_simp
  have 4: "row_deleted_at demo_leave = None" by code_simp
  have 5: "ac_tenant_id demo_employee = ''t''" by code_simp
  from delete_document_retires_exactly_its_work [OF 1 2 3 4]
  have "\<not> list_ex (open_on (ac_tenant_id demo_employee) (df_object_type
      (plain_family ''employee_leave'' ''leave.submit_own'' ''leave'' (Some ''leave.advance''))) ''d'')
      (db_todos (projr ?d))" by blast
  then show ?thesis by (simp add: 5 plain_family_def)
qed

text \<open>A status move keeps every rule of the lifecycle: whoever drives it holds the family's advance
  grant, the machine of the row's kind allows the step, and the document's open work is cancelled
  exactly when the state it enters is terminal and not editable.\<close>

theorem status_move_obeys_the_machine:
  assumes "apply_status_change db a d new_status = Inr (machine, db')"
    and "map_of DOCUMENT_FAMILIES (row_model d) = Some family"
    and "editable_states machine (df_machine_type family d) = Inr editable"
  shows "get_builtin_machine (db_definitions db) (row_tenant_id d) (df_machine_type family d) = Inr machine \<and>
    moves_to machine (row_status d) new_status \<and>
    (\<forall>verb. df_advance_permission family = Some verb \<longrightarrow> has_permission a verb None) \<and>
    db_rows db' = db_rows db \<and>
    db_todos db' =
      (if new_status \<noteq> row_status d \<and> is_terminal_state machine new_status \<and> new_status \<notin> set editable
       then update_rows (open_on (ac_tenant_id a) (df_object_type family) (row_id d)) cancelled (db_todos db)
       else db_todos db)"
  using assms
  by (auto simp: apply_status_change_def result_simps family_of_Inr Let_def moves_to_def is_ok_iff store_simps
      retire_open_work_if_finished_def split: option.splits)

theorem status_move_obeys_the_machine_witness:
  "db_todos (snd (projr (apply_status_change demo_documents demo_employee demo_leave ''cancelled''))) =
     [cancelled demo_todo]"
proof -
  let ?x = "apply_status_change demo_documents demo_employee demo_leave ''cancelled''"
  have "is_ok ?x" and "fst (projr ?x) = DEFAULT_LEAVE_MACHINE" by code_simp+
  then have 1: "?x = Inr (DEFAULT_LEAVE_MACHINE, snd (projr ?x))" by (metis is_ok_projr prod.collapse)
  have 2: "map_of DOCUMENT_FAMILIES (row_model demo_leave) =
      Some (plain_family ''employee_leave'' ''leave.submit_own'' ''leave'' (Some ''leave.advance''))"
    by (simp add: DOCUMENT_FAMILIES_def demo_leave_def)
  have 3: "editable_states DEFAULT_LEAVE_MACHINE (df_machine_type
      (plain_family ''employee_leave'' ''leave.submit_own'' ''leave'' (Some ''leave.advance'')) demo_leave) =
      Inr [''draft'', ''returned'']" by code_simp
  have 4: "is_terminal_state DEFAULT_LEAVE_MACHINE ''cancelled''" by code_simp
  from status_move_obeys_the_machine [OF 1 2 3] 4 show ?thesis
    by (simp add: demo_documents_def demo_leave_def plain_family_def blank_row_def open_on_def demo_todo_def
        demo_employee_def with_grants_def blank_actor_def)
qed

text \<open>A hosted flow agent moves only records inside the subscriptions its key serves: the family is
  enrolled, and the record matches every condition of the enrolled queue filter.\<close>

theorem hosted_agent_stays_in_its_subscription:
  assumes "apply_status_change db a d new_status = Inr x" and "ac_write_scope a = Some scope"
    and "map_of DOCUMENT_FAMILIES (row_model d) = Some family"
  shows "\<exists>queue_filter. map_of scope (df_object_type family) = Some queue_filter \<and>
    (\<forall>(field, expected) \<in> set queue_filter. filter_matches d field expected)"
  using assms by (auto simp: apply_status_change_def result_simps family_of_Inr hosted_scope_Inr)

definition demo_agent :: actor where
  "demo_agent = demo_employee\<lparr>ac_kind := ''service'', ac_principal_kind := PRINCIPAL_HOSTED_FLOW_AGENT,
     ac_write_scope := Some [(''employee_leave'', [(''status'', JList [JStr ''draft'', JStr ''submitted''])])]\<rparr>"

theorem hosted_agent_stays_in_its_subscription_witness:
  "filter_matches demo_leave ''status'' (JList [JStr ''draft'', JStr ''submitted''])"
proof -
  let ?x = "apply_status_change demo_documents demo_agent demo_leave ''submitted''"
  have 1: "?x = Inr (projr ?x)" by (rule is_ok_projr) code_simp
  have 2: "ac_write_scope demo_agent = Some [(''employee_leave'', [(''status'', JList [JStr ''draft'', JStr ''submitted''])])]"
    by (simp add: demo_agent_def)
  have 3: "map_of DOCUMENT_FAMILIES (row_model demo_leave) =
      Some (plain_family ''employee_leave'' ''leave.submit_own'' ''leave'' (Some ''leave.advance''))"
    by (simp add: DOCUMENT_FAMILIES_def demo_leave_def)
  from hosted_agent_stays_in_its_subscription [OF 1 2 3] show ?thesis by (simp add: plain_family_def)
qed

subsection \<open>Submitting\<close>

lemma stamp_submitted_simps [simp]:
  "row_status (stamp_submitted s now r) = s" "row_model (stamp_submitted s now r) = row_model r"
  "row_id (stamp_submitted s now r) = row_id r" "row_tenant_id (stamp_submitted s now r) = row_tenant_id r"
  "row_employee_id (stamp_submitted s now r) = row_employee_id r"
  "row_deleted_at (stamp_submitted s now r) = row_deleted_at r"
  "row_order_kind (stamp_submitted s now r) = row_order_kind r"
  "keeps_key (stamp_submitted s now)"
  by (simp_all add: stamp_submitted_def keeps_key_def)

lemma machine_type_submitted:
  assumes "map_of DOCUMENT_FAMILIES m = Some family"
  shows "df_machine_type family (stamp_submitted s now d) = df_machine_type family d"
proof -
  have "\<forall>(m, f) \<in> set DOCUMENT_FAMILIES. df_machine_type f (stamp_submitted s now d) = df_machine_type f d"
    by (simp add: DOCUMENT_FAMILIES_def plain_family_def)
  with map_of_SomeD [OF assms] show ?thesis by blast
qed

lemma submit_documentE:
  assumes "submit_document now db a m i = Inr (r, db')"
  obtains family d machine s where
    "map_of DOCUMENT_FAMILIES m = Some family"
    "get_row db m i = Some d" "row_id d = i" "row_model d = m" "row_tenant_id d = ac_tenant_id a"
    "is_visible db d" "row_deleted_at d = None"
    "require_family_permission a family d = Inr ()"
    "require_hosted_write_scope a (df_object_type family) d [] = Inr ()"
    "check_owner a family d = Inr ()"
    "get_builtin_machine (db_definitions db) (ac_tenant_id a) (df_machine_type family d) = Inr machine"
    "state_for_role machine (df_machine_type family d) ''submitted'' = Inr s"
    "row_status d = s \<and> r = d \<and> db' = db \<or>
     row_status d \<noteq> s \<and> moves_to machine (row_status d) s \<and> r = stamp_submitted s now d \<and>
       db' = submitted_db now a m family i s db"
proof -
  from assms obtain family d machine s where 1:
    "family_of m = Inr family" "get_active_document_or_404 db m (ac_tenant_id a) i = Inr d"
    "require_family_permission a family d = Inr ()"
    "require_hosted_write_scope a (df_object_type family) d [] = Inr ()"
    "check_owner a family d = Inr ()"
    "get_builtin_machine (db_definitions db) (ac_tenant_id a) (df_machine_type family d) = Inr machine"
    "state_for_role machine (df_machine_type family d) ''submitted'' = Inr s"
    and 2: "(if row_status d = s then Inr (d, db) else bindE (validate_transition machine (row_status d) s) (\<lambda>_.
       Inr (stamp_submitted s now d, submitted_db now a m family i s db))) = Inr (r, db')"
    unfolding submit_document_def Let_def bindE_Inr_iff Ex_unit
    by (elim exE conjE) (rule that)
  from 1(2) have d: "get_row db m i = Some d" "row_tenant_id d = ac_tenant_id a" "is_visible db d"
    "row_deleted_at d = None" by (simp_all add: get_active_document_or_404_Inr)
  moreover have "row_id d = i" "row_model d = m" using get_row_Some [OF d(1)] by simp_all
  moreover have "row_status d = s \<and> r = d \<and> db' = db \<or>
     row_status d \<noteq> s \<and> moves_to machine (row_status d) s \<and> r = stamp_submitted s now d \<and>
       db' = submitted_db now a m family i s db"
    using 2 by (auto simp: result_simps moves_to_def is_ok_iff split: if_splits)
  ultimately show ?thesis using 1 by (intro that) (simp_all add: family_of_Inr)
qed

lemma submitted_db_fields [store_simps]:
  "db_definitions (submitted_db now a m family i s db) = db_definitions db"
  "db_actor (submitted_db now a m family i s db) = db_actor db"
  "get_row (submitted_db now a m family i s db) m' i' =
     (if m' = m \<and> i' = i then map_option (stamp_submitted s now) (get_row db m i) else get_row db m' i')"
  "db_todos (submitted_db now a m family i s db) =
     update_rows (\<lambda>t. open_on (ac_tenant_id a) (df_object_type family) i t \<and> td_todo_type t = Some ''rework'')
       (\<lambda>t. t\<lparr>td_state := ''completed'', td_completed_at := Some now,
              td_completed_by := Some (attributed a None)\<rparr>) (db_todos db)"
  unfolding submitted_db_def
  by (simp_all add: store_simps get_row_set_row complete_rework_todos_for_def Let_def)

text \<open>A submission lands the document in the state that plays the workspace's \<open>submitted\<close> role: it
  was there already and nothing changes, or its machine allows the step, the submission time is
  stamped, an approval fact opens the round, and no rework todo on it stays open.\<close>

theorem submit_lands_in_the_submitted_role:
  assumes "submit_document now db a m i = Inr (r, db')" and "map_of DOCUMENT_FAMILIES m = Some family"
  shows "get_row db' m i = Some r \<and>
    (\<exists>machine. get_builtin_machine (db_definitions db) (ac_tenant_id a) (df_machine_type family r) = Inr machine \<and>
       state_for_role machine (df_machine_type family r) ''submitted'' = Inr (row_status r)) \<and>
    (db' = db \<or> row_submitted_at r = Some now \<and>
       \<not> list_ex (\<lambda>t. open_on (ac_tenant_id a) (df_object_type family) i t \<and> td_todo_type t = Some ''rework'')
         (db_todos db'))"
proof -
  have same: "df_machine_type family (stamp_submitted s now d) = df_machine_type family d" for s d
    using machine_type_submitted [OF assms(2)] .
  from assms(1) obtain d machine s where
    d: "get_row db m i = Some d"
    and machine: "get_builtin_machine (db_definitions db) (ac_tenant_id a) (df_machine_type family d) = Inr machine"
    and role: "state_for_role machine (df_machine_type family d) ''submitted'' = Inr s"
    and cases: "row_status d = s \<and> r = d \<and> db' = db \<or>
       row_status d \<noteq> s \<and> moves_to machine (row_status d) s \<and> r = stamp_submitted s now d \<and>
         db' = submitted_db now a m family i s db"
    by (rule submit_documentE) (use assms(2) in simp)
  from cases show ?thesis
  proof (elim disjE conjE)
    assume "row_status d = s" "r = d" "db' = db"
    with d machine role show ?thesis by blast
  next
    assume r: "r = stamp_submitted s now d" and db': "db' = submitted_db now a m family i s db"
    have "row_submitted_at r = Some now" by (simp add: r stamp_submitted_def)
    moreover have "get_row db' m i = Some r" using d by (simp add: db' r store_simps)
    moreover have "\<not> list_ex (\<lambda>t. open_on (ac_tenant_id a) (df_object_type family) i t \<and>
        td_todo_type t = Some ''rework'') (db_todos db')"
      unfolding db' store_simps by (rule not_list_ex_update_rows) (simp add: open_on_def)
    moreover have "df_machine_type family r = df_machine_type family d" "row_status r = s"
      by (simp_all add: r same)
    ultimately show ?thesis using machine role by auto
  qed
qed

theorem submit_lands_in_the_submitted_role_witness:
  "row_status (fst (projr (submit_document 7 demo_documents demo_employee EmployeeLeave ''d''))) = ''submitted''"
proof -
  let ?x = "submit_document 7 demo_documents demo_employee EmployeeLeave ''d''"
  have "is_ok ?x" by code_simp
  then have 1: "?x = Inr (fst (projr ?x), snd (projr ?x))" using is_ok_projr [of ?x] by simp
  have 2: "map_of DOCUMENT_FAMILIES EmployeeLeave =
      Some (plain_family ''employee_leave'' ''leave.submit_own'' ''leave'' (Some ''leave.advance''))"
    by (simp add: DOCUMENT_FAMILIES_def)
  from submit_lands_in_the_submitted_role [OF 1 2] show ?thesis
    by (auto simp: plain_family_def state_for_role_Inr get_builtin_machine_def get_definition_def demo_documents_def
        blank_db_def BUILTIN_MACHINES_def DEFAULT_LEAVE_MACHINE_def dict_get_def)
qed

subsection \<open>Coming back\<close>

text \<open>A document restored to an account that carries it still fits that account: after the
  restore, what everything charged to the account occupies is within its balance and credit limit.\<close>

theorem restored_document_fits_its_credit:
  assumes "restore_document db a m i = Inr (r, db')" and "get_row db m i = Some d" and "row_deleted_at d \<noteq> None"
    and "row_billing_account_id d = Some account_id"
    and "find_row (\<lambda>r. row_model r = BillingAccount \<and> row_tenant_id r = row_tenant_id d \<and> row_id r = account_id)
           (db_rows db') = Some account"
    and "in_cents (row_balance account)" and "in_cents (row_credit_limit account)"
  shows "account_exposure db' account \<le> row_balance account + row_credit_limit account"
proof -
  from assms(1-3) obtain family where r: "r = clear_deleted family d"
    and "recheck_charged_document db' r = Inr ()"
    by (auto simp: restore_document_def result_simps get_scoped_or_404_Inr Let_def split: if_splits)
  moreover have "row_billing_account_id r = Some account_id" "row_tenant_id r = row_tenant_id d"
    using assms(4) by (simp_all add: r clear_deleted_def Let_def)
  ultimately have "ensure_within_credit db' account = Inr ()"
    using assms(5) by (simp add: recheck_charged_document_def)
  then show ?thesis using within_credit_exact assms(6,7) by blast
qed

definition demo_charged :: db where
  "demo_charged = blank_db\<lparr>db_rows := [
     blank_row\<lparr>row_model := SalesOrder, row_id := ''o'', row_deleted_at := Some 3, row_employee_id := Some ''e'',
       row_billing_account_id := Some ''b'', row_total_amount := Some 80\<rparr>,
     blank_row\<lparr>row_model := BillingAccount, row_id := ''b'', row_status := ''active'', row_unit_type := ''currency'',
       row_unit := ''CNY'', row_balance := 50, row_credit_limit := 30\<rparr>]\<rparr>"

definition demo_seller :: actor where
  "demo_seller = with_grants [''order.submit_own''] blank_actor"

theorem restored_document_fits_its_credit_witness:
  "account_exposure (snd (projr (restore_document demo_charged demo_seller SalesOrder ''o'')))
     (db_rows demo_charged ! 1) \<le> 50 + 30"
proof -
  let ?x = "restore_document demo_charged demo_seller SalesOrder ''o''"
  have "is_ok ?x" by code_simp
  then have 1: "?x = Inr (fst (projr ?x), snd (projr ?x))" using is_ok_projr [of ?x] by simp
  have 2: "get_row demo_charged SalesOrder ''o'' = Some (db_rows demo_charged ! 0)" by code_simp
  have 3: "row_deleted_at (db_rows demo_charged ! 0) \<noteq> None" by code_simp
  have 4: "row_billing_account_id (db_rows demo_charged ! 0) = Some ''b''" by code_simp
  have 5: "find_row (\<lambda>r. row_model r = BillingAccount \<and> row_tenant_id r = row_tenant_id (db_rows demo_charged ! 0) \<and>
      row_id r = ''b'') (db_rows (snd (projr ?x))) = Some (db_rows demo_charged ! 1)" by code_simp
  have 6: "in_cents (row_balance (db_rows demo_charged ! 1))" "in_cents (row_credit_limit (db_rows demo_charged ! 1))"
    by (simp_all add: demo_charged_def in_cents_def)
  have 7: "row_balance (db_rows demo_charged ! 1) = 50" "row_credit_limit (db_rows demo_charged ! 1) = 30"
    by (simp_all add: demo_charged_def)
  from restored_document_fits_its_credit [OF 1 2 3 4 5 6] show ?thesis unfolding 7 .
qed

end
