(* ===== verification/Ledgers.thy ===== *)
theory Ledgers
  imports Prelude
begin

text \<open>
  The contract of every running total the program stores beside an append-only ledger: account
  balances and their entries, stock positions and their details, the cash register and its lines.
  On a well-formed store, a sound write that is accepted moves the stored total and the ledger's
  sum by the same amount, and leaves the store well formed.
\<close>

locale running_total =
  fixes total :: "'s \<Rightarrow> 'k \<Rightarrow> 'n::ab_group_add"
    and ledger :: "'s \<Rightarrow> 'k \<Rightarrow> 'n"
    and commit :: "'op \<Rightarrow> 's \<Rightarrow> 's result"
    and moved :: "'op \<Rightarrow> 's \<Rightarrow> 'k \<Rightarrow> 'n"
    and sound :: "'op \<Rightarrow> bool"
    and ok :: "'s \<Rightarrow> bool"
  assumes total_commit: "ok s \<Longrightarrow> sound op \<Longrightarrow> commit op s = Inr s' \<Longrightarrow> total s' k = total s k + moved op s k"
    and ledger_commit: "ok s \<Longrightarrow> sound op \<Longrightarrow> commit op s = Inr s' \<Longrightarrow> ledger s' k = ledger s k + moved op s k"
    and ok_commit: "ok s \<Longrightarrow> sound op \<Longrightarrow> commit op s = Inr s' \<Longrightarrow> ok s'"
begin

lemma gap_kept:
  "ok s \<Longrightarrow> sound op \<Longrightarrow> commit op s = Inr s' \<Longrightarrow> total s' k - ledger s' k = total s k - ledger s k"
  by (simp add: total_commit ledger_commit)

lemma commit_reconciles:
  "ok s \<Longrightarrow> sound op \<Longrightarrow> commit op s = Inr s' \<Longrightarrow> total s k = ledger s k \<Longrightarrow> total s' k = ledger s' k"
  using gap_kept [of s op s' k] by simp

lemma history_reconciles:
  assumes "foldE (\<lambda>s op. commit op s) s ops = Inr t" and "ok s" and "\<And>op. op \<in> set ops \<Longrightarrow> sound op"
    and "total s k = ledger s k"
  shows "total t k = ledger t k"
proof -
  have "ok t \<and> total t k = ledger t k"
    using assms(1)
  proof (rule foldE_invariant)
    show "ok s \<and> total s k = ledger s k" using assms by blast
    show "ok s' \<and> total s' k = ledger s' k"
      if "op \<in> set ops" "ok s \<and> total s k = ledger s k" "commit op s = Inr s'" for s op s'
      using that assms(3) ok_commit commit_reconciles by blast
  qed
  then show ?thesis by blast
qed

end

end
