(* ===== verification/Accounts.thy ===== *)
theory Accounts
  imports Documents Ledgers "HOL-Library.Product_Lexorder"
begin

text \<open>
  Billing accounts (\<open>app/api/billing.py\<close>): a party's standing balance in money or points, an
  append-only ledger of entries beside it, and the expiry of points.

  \<open>Decimal.quantize(Decimal("0.01"))\<close> rounds half to even (\<open>round2\<close>); a \<open>NUMERIC(14, 2)\<close> column
  rounds what it is given half away from zero (\<open>column_cents\<close>, PostgreSQL's rounding of numeric).
\<close>

definition column_cents :: "money \<Rightarrow> money" where
  "column_cents x = quantize_half_up x"

lemma column_cents_id: "in_cents x \<Longrightarrow> column_cents x = x"
  by (simp add: column_cents_def quantize_half_up_id)

record entry_line =
  el_amount :: money
  el_reason :: string
  el_entity_type :: "string option"
  el_entity_id :: "uuid option"
  el_expires_at :: "timestamp option"

text \<open>A body's id in a \<open>WHERE\<close> clause: what is not a uuid literal is refused by the database.\<close>

definition uuid_literal :: "db \<Rightarrow> string \<Rightarrow> uuid result" where
  "uuid_literal db s = (case db_uuid_in db s of None \<Rightarrow> Inl (HttpError 500 ''DataError'') | Some i \<Rightarrow> Inr i)"

lemma uuid_literal_Inr [result_simps]: "uuid_literal db s = Inr i \<longleftrightarrow> db_uuid_in db s = Some i"
  by (simp add: uuid_literal_def split: option.splits)

definition IntegrityError :: http_error where
  "IntegrityError = HttpError 500 ''IntegrityError''"

text \<open>\<open>lock_for_update\<close>: the row re-read under its lock.\<close>

definition lock_for_update :: "db \<Rightarrow> uuid \<Rightarrow> model \<Rightarrow> uuid \<Rightarrow> row option" where
  "lock_for_update db tenant_id m i =
     find_row (\<lambda>r. row_model r = m \<and> row_tenant_id r = tenant_id \<and> row_id r = i) (db_rows db)"

definition relocked :: "db \<Rightarrow> uuid \<Rightarrow> row \<Rightarrow> row" where
  "relocked db tenant_id r =
     (case lock_for_update db tenant_id (row_model r) (row_id r) of None \<Rightarrow> r | Some r' \<Rightarrow> r')"

subsection \<open>Posting\<close>

definition add_entry_line :: "db \<Rightarrow> uuid \<Rightarrow> row \<Rightarrow> money \<Rightarrow> entry_line \<Rightarrow> money result" where
  "add_entry_line db tenant_id account delta line =
     bindE (ensure (\<not> \<bar>el_amount line\<bar> < CENT) 422 ''amount_must_not_be_zero'') (\<lambda>_.
     bindE (require_type_option (db_type_options db) tenant_id ''billing_account_entry_reason'' (el_reason line)) (\<lambda>_.
     bindE (ensure (\<not> (el_expires_at line \<noteq> None \<and> row_unit_type account \<noteq> ''points'')) 422
              ''expires_at_needs_a_points_account'') (\<lambda>_.
     Inr (delta + round2 (el_amount line)))))"

definition entry_of_line :: "db \<Rightarrow> actor \<Rightarrow> uuid \<Rightarrow> nat \<Rightarrow> entry_line \<Rightarrow> account_entry" where
  "entry_of_line db a account_id seq line = \<lparr>
     en_id = db_uuids db (db_next db + seq), en_tenant_id = ac_tenant_id a, en_billing_account_id = account_id,
     en_amount = column_cents (el_amount line), en_reason = el_reason line,
     en_entity_type = el_entity_type line, en_entity_id = el_entity_id line,
     en_expires_at = el_expires_at line, en_created_by = attributed a None\<rparr>"

definition entries_of_lines :: "db \<Rightarrow> actor \<Rightarrow> uuid \<Rightarrow> entry_line list \<Rightarrow> account_entry list" where
  "entries_of_lines db a account_id lines =
     map (\<lambda>(seq, line). entry_of_line db a account_id seq line) (List.enumerate 0 lines)"

text \<open>The session does not flush by itself: the lock re-reads the account as it is \<open>stored\<close>, discarding an
  assignment to it that is still pending. In a handler that has assigned nothing to the account before
  it posts, \<open>stored\<close> is the state itself.\<close>

definition post_account_entries ::
    "db \<Rightarrow> db \<Rightarrow> actor \<Rightarrow> row \<Rightarrow> entry_line list \<Rightarrow> bool \<Rightarrow> (account_entry list \<times> db) result" where
  "post_account_entries stored db a account0 lines check_permission =
     bindE (if check_permission then require_permission a ''billing_account.post'' (Some (row_unit_type account0))
            else Inr ()) (\<lambda>_.
     let account = relocked stored (ac_tenant_id a) account0 in
     bindE (ensure (row_status account = ''active'') 409 ''account_is_not_active'') (\<lambda>_.
     bindE (foldE (add_entry_line db (ac_tenant_id a) account) 0 lines) (\<lambda>delta.
     let balance = round2 (row_balance account);
         lowest = - row_credit_limit account;
         after = balance + delta in
     bindE (ensure (\<not> after < lowest) 409 ''not_enough_available'') (\<lambda>_.
     let written = entries_of_lines db a (row_id account) lines in
     Inr (written,
       record_audit (ac_tenant_id a) ''billing_account.posted'' ''billing_account'' (row_id account) (Some (label a))
         (set_row BillingAccount (row_id account) (\<lambda>r. r\<lparr>row_balance := after\<rparr>)
           (db\<lparr>db_entries := db_entries db @ written, db_next := db_next db + length lines\<rparr>)))))))"

definition ensure_replay_matches :: "'a list \<Rightarrow> 'a list \<Rightarrow> unit result" where
  "ensure_replay_matches recorded requested =
     ensure (recorded = requested) 409 ''idempotency_key_was_used_for_a_different_request''"

subsection \<open>Expiry\<close>

definition expiry_of :: "uuid \<Rightarrow> uuid \<Rightarrow> account_entry \<Rightarrow> bool" where
  "expiry_of tenant_id batch_id e \<longleftrightarrow> en_tenant_id e = tenant_id \<and> en_reason e = ''expired'' \<and>
     en_entity_type e = Some ''billing_account_entry'' \<and> en_entity_id e = Some batch_id"

definition expiring_account_entries :: "db \<Rightarrow> uuid \<Rightarrow> row \<Rightarrow> timestamp \<Rightarrow> account_entry list" where
  "expiring_account_entries db tenant_id account before =
     sort_key (\<lambda>e. (the (en_expires_at e), en_id e))
       (filter (\<lambda>e. en_tenant_id e = tenant_id \<and> en_billing_account_id e = row_id account \<and> 0 < en_amount e \<and>
                    (case en_expires_at e of None \<Rightarrow> False | Some x \<Rightarrow> x < before) \<and>
                    \<not> list_ex (expiry_of tenant_id (en_id e)) (db_entries db)) (db_entries db))"

definition expire_line ::
    "timestamp \<Rightarrow> db \<Rightarrow> uuid \<Rightarrow> row \<Rightarrow> (string list \<times> entry_line list) \<Rightarrow> (string \<times> money) \<Rightarrow>
     (string list \<times> entry_line list) result" where
  "expire_line now db tenant_id account = (\<lambda>(seen, lines) (entry_id, amount).
     bindE (ensure (entry_id \<notin> set seen) 422 ''batch_appears_twice'') (\<lambda>_.
     bindE (uuid_literal db entry_id) (\<lambda>named.
     case find_row (\<lambda>e. en_tenant_id e = tenant_id \<and> en_billing_account_id e = row_id account \<and> en_id e = named)
            (db_entries db) of
       None \<Rightarrow> Inl (HttpError 422 ''not_an_earn_batch_with_an_expiry'')
     | Some batch \<Rightarrow>
         bindE (ensure (\<not> (en_amount batch \<le> 0 \<or> en_expires_at batch = None)) 422
                  ''not_an_earn_batch_with_an_expiry'') (\<lambda>_.
         bindE (ensure (\<not> now < the (en_expires_at batch)) 422 ''it_has_not_lapsed_yet'') (\<lambda>_.
         bindE (ensure (\<not> list_ex (expiry_of tenant_id (en_id batch)) (db_entries db)) 409 ''already_expired'') (\<lambda>_.
         bindE (ensure (\<not> en_amount batch + 1 / 1000000000 < amount) 422 ''more_than_the_batch_holds'') (\<lambda>_.
         Inr (seen @ [entry_id],
              lines @ [\<lparr>el_amount = - amount, el_reason = ''expired'',
                 el_entity_type = Some ''billing_account_entry'', el_entity_id = Some (en_id batch),
                 el_expires_at = None\<rparr>]))))))))"

definition expire_billing_account_entries ::
    "timestamp \<Rightarrow> db \<Rightarrow> actor \<Rightarrow> uuid \<Rightarrow> (string \<times> money) list \<Rightarrow> (account_entry list \<times> db) result" where
  "expire_billing_account_entries now db a account_id payload =
     bindE (get_active_document_or_404 db BillingAccount (ac_tenant_id a) account_id) (\<lambda>account0.
     let account = relocked db (ac_tenant_id a) account0 in
     bindE (foldE (expire_line now db (ac_tenant_id a) account) ([], []) payload) (\<lambda>(seen, lines).
     post_account_entries db db a account lines True))"

subsection \<open>The account itself\<close>

record account_request =
  ca_account_code :: "string option"
  ca_name :: string
  ca_unit_type :: string
  ca_unit :: string
  ca_customer_id :: "uuid option"
  ca_vendor_id :: "uuid option"
  ca_employee_id :: "uuid option"
  ca_credit_limit :: money
  ca_status :: string
  ca_opening_balance :: "money option"

text \<open>An id is named when it is neither null nor empty.\<close>

definition resolve_account_owner ::
    "db \<Rightarrow> uuid \<Rightarrow> account_request \<Rightarrow> (uuid option \<times> uuid option \<times> uuid option) result" where
  "resolve_account_owner db tenant_id p =
     (let named = filter (\<lambda>(m, x). given x)
                    [(Customer, ca_customer_id p), (Vendor, ca_vendor_id p), (Employee, ca_employee_id p)]
      in case named of
           [(m, Some i)] \<Rightarrow> bindE (get_scoped_or_404 db m tenant_id i) (\<lambda>party.
              Inr (if m = Customer then Some (row_id party) else None,
                   if m = Vendor then Some (row_id party) else None,
                   if m = Employee then Some (row_id party) else None))
         | _ \<Rightarrow> Inl (HttpError 422 ''an_account_names_exactly_one_owner''))"

definition is_alpha :: "char \<Rightarrow> bool" where
  "is_alpha c = (let n = of_char c :: nat in
     65 \<le> n \<and> n \<le> 90 \<or> 97 \<le> n \<and> n \<le> 122 \<or> n = 170 \<or> n = 181 \<or> n = 186 \<or>
     192 \<le> n \<and> n \<noteq> 215 \<and> n \<noteq> 247)"

definition validate_account_unit :: "db \<Rightarrow> uuid \<Rightarrow> string \<Rightarrow> string \<Rightarrow> unit result" where
  "validate_account_unit db tenant_id unit_type unit =
     (if unit_type = ''currency''
      then ensure (length unit = 3 \<and> list_all is_alpha unit) 422 ''a_currency_unit_is_a_3_letter_code''
      else require_type_option (db_type_options db) tenant_id ''billing_account_unit'' unit)"

definition account_row :: "uuid \<Rightarrow> uuid \<Rightarrow> string \<Rightarrow> account_request \<Rightarrow>
    (uuid option \<times> uuid option \<times> uuid option) \<Rightarrow> row" where
  "account_row i tenant_id code p = (\<lambda>(customer, vendor, employee). \<lparr>
     row_model = BillingAccount, row_id = i, row_tenant_id = tenant_id, row_status = ca_status p,
     row_deleted_at = None, row_deleted_by = None, row_delete_reason = None,
     row_employee_id = employee, row_payee_employee_id = None, row_customer_id = customer, row_vendor_id = vendor,
     row_created_by = None, row_direction = [], row_side = [], row_order_kind = [], row_object_type = [],
     row_number = code, row_name = ca_name p, row_submitted_at = None, row_currency = [], row_amount = 0,
     row_total_amount = None, row_applied_amount = 0, row_billing_account_id = None, row_sales_order_id = None,
     row_purchase_order_id = None, row_expense_claim_id = None, row_quotation_id = None,
     row_unit_type = ca_unit_type p, row_unit = ca_unit p, row_credit_limit = column_cents (ca_credit_limit p),
     row_balance = 0, row_created_at = 0, row_other = []\<rparr>)"

text \<open>\<open>allocated\<close> is the number \<open>allocate_document_number\<close> would hand out.\<close>

definition create_billing_account ::
    "string \<Rightarrow> db \<Rightarrow> actor \<Rightarrow> account_request \<Rightarrow> (uuid \<times> db) result" where
  "create_billing_account allocated db a p =
     bindE (require_permission a ''billing_account.manage'' None) (\<lambda>_.
     bindE (resolve_account_owner db (ac_tenant_id a) p) (\<lambda>owner.
     bindE (validate_account_unit db (ac_tenant_id a) (ca_unit_type p) (ca_unit p)) (\<lambda>_.
     let code = (if given (ca_account_code p) then the (ca_account_code p) else allocated);
         account = account_row (fresh_id db) (ac_tenant_id a) code p owner in
     bindE (ensure (\<not> list_ex (\<lambda>r. row_model r = BillingAccount \<and> row_tenant_id r = ac_tenant_id a \<and>
                              row_number r = code) (db_rows db)) 409 ''account_code_already_exists'') (\<lambda>_.
     let db1 = tick (db\<lparr>db_rows := db_rows db @ [account]\<rparr>) in
     bindE (case ca_opening_balance p of
              None \<Rightarrow> Inr db1
            | Some opening \<Rightarrow>
                if CENT \<le> \<bar>opening\<bar> then
                  bindE (post_account_entries db1 db1 a account
                    [\<lparr>el_amount = opening, el_reason = ''initial'', el_entity_type = None, el_entity_id = None,
                      el_expires_at = None\<rparr>] False) (\<lambda>(_, db2). Inr db2)
                else Inr db1) (\<lambda>db2.
     Inr (row_id account, db2))))))"

text \<open>A PATCH of an account, \<open>None\<close> where the body leaves a field out and \<open>Some None\<close> where it
  carries \<open>null\<close>: the columns are not nullable, so the flush fails.\<close>

record account_update =
  ua_credit_limit :: "money option option"
  ua_status :: "string option option"

definition update_billing_account :: "db \<Rightarrow> actor \<Rightarrow> uuid \<Rightarrow> account_update \<Rightarrow> db result" where
  "update_billing_account db a account_id u =
     bindE (require_permission a ''billing_account.manage'' None) (\<lambda>_.
     bindE (get_active_document_or_404 db BillingAccount (ac_tenant_id a) account_id) (\<lambda>account.
     bindE (case ua_credit_limit u of
              Some (Some limit) \<Rightarrow>
                ensure (\<not> row_balance account < - limit - CENT) 409 ''already_drawn_below_the_limit''
            | _ \<Rightarrow> Inr ()) (\<lambda>_.
     if ua_credit_limit u = Some None \<or> ua_status u = Some None then Inl IntegrityError
     else Inr (set_row BillingAccount account_id (\<lambda>r.
       r\<lparr>row_credit_limit := (case ua_credit_limit u of Some (Some limit) \<Rightarrow> column_cents limit | _ \<Rightarrow> row_credit_limit r),
         row_status := (case ua_status u of Some (Some s) \<Rightarrow> s | _ \<Rightarrow> row_status r)\<rparr>) db))))"

definition delete_billing_account :: "timestamp \<Rightarrow> db \<Rightarrow> actor \<Rightarrow> uuid \<Rightarrow> db result" where
  "delete_billing_account now db a account_id =
     bindE (require_permission a ''billing_account.manage'' None) (\<lambda>_.
     bindE (get_scoped_or_404 db BillingAccount (ac_tenant_id a) account_id) (\<lambda>account.
     if row_deleted_at account \<noteq> None then Inr db
     else bindE (ensure (\<not> CENT < \<bar>row_balance account\<bar>) 409 ''still_holds_a_balance'') (\<lambda>_.
       Inr (set_row BillingAccount account_id (\<lambda>r. r\<lparr>row_deleted_at := Some now\<rparr>) db))))"

definition restore_billing_account :: "db \<Rightarrow> actor \<Rightarrow> uuid \<Rightarrow> db result" where
  "restore_billing_account db a account_id =
     bindE (require_permission a ''billing_account.manage'' None) (\<lambda>_.
     bindE (get_scoped_or_404 db BillingAccount (ac_tenant_id a) account_id) (\<lambda>account.
     if row_deleted_at account \<noteq> None
     then Inr (set_row BillingAccount account_id (\<lambda>r. r\<lparr>row_deleted_at := None\<rparr>) db)
     else Inr db))"

subsection \<open>What a posting does\<close>

definition account_ledger :: "db \<Rightarrow> uuid \<Rightarrow> money" where
  "account_ledger db i = sum_where (\<lambda>e. en_billing_account_id e = i) en_amount (db_entries db)"

definition account_balance :: "db \<Rightarrow> uuid \<Rightarrow> money" where
  "account_balance db i = (case get_row db BillingAccount i of None \<Rightarrow> 0 | Some r \<Rightarrow> row_balance r)"

lemma lock_for_update_get_row:
  "get_row db m i = Some r \<Longrightarrow> row_tenant_id r = t \<Longrightarrow> lock_for_update db t m i = Some r"
  unfolding get_row_def lock_for_update_def
  by (drule find_row_refine [where q = "\<lambda>r. row_tenant_id r = t"])
    (auto simp: conj_ac elim!: trans [rotated] intro: find_row_cong)

lemma relocked_get_row:
  "get_row db m i = Some r \<Longrightarrow> row_tenant_id r = t \<Longrightarrow> relocked db t r = r"
  using lock_for_update_get_row [of db m i r t] get_row_Some [of db m i r] by (simp add: relocked_def)

lemma add_entry_line_Inr:
  "add_entry_line db t account d l = Inr d' \<Longrightarrow> CENT \<le> \<bar>el_amount l\<bar> \<and> d' = d + round2 (el_amount l)"
  by (auto simp: add_entry_line_def result_simps)

lemma add_entry_lines_Inr:
  assumes "foldE (add_entry_line db t account) d lines = Inr d'"
  shows "d' = d + sum_list (map (\<lambda>l. round2 (el_amount l)) lines)"
  using assms
proof (induction lines arbitrary: d)
  case (Cons l ls)
  then have "foldE (add_entry_line db t account) (d + round2 (el_amount l)) ls = Inr d'"
    by (auto simp: result_simps dest: add_entry_line_Inr)
  from Cons.IH [OF this] show ?case by simp
qed simp

lemma entries_of_lines_ledger:
  "sum_where (\<lambda>e. en_billing_account_id e = k) en_amount (entries_of_lines db a i lines) =
     (if k = i then sum_list (map (\<lambda>l. column_cents (el_amount l)) lines) else 0)"
proof -
  have "sum_where (\<lambda>e. en_billing_account_id e = k) en_amount
      (map (\<lambda>(seq, line). entry_of_line db a i seq line) (List.enumerate n lines)) =
    (if k = i then sum_list (map (\<lambda>l. column_cents (el_amount l)) lines) else 0)" for n
    by (induction lines arbitrary: n) (auto simp: entry_of_line_def)
  then show ?thesis by (simp add: entries_of_lines_def)
qed

lemma entries_of_lines_members:
  "e \<in> set (entries_of_lines db a i lines) \<Longrightarrow>
    en_billing_account_id e = i \<and> en_tenant_id e = ac_tenant_id a \<and>
    (\<exists>l \<in> set lines. en_reason e = el_reason l \<and> en_entity_type e = el_entity_type l \<and>
       en_entity_id e = el_entity_id l \<and> en_amount e = column_cents (el_amount l))"
  by (auto simp: entries_of_lines_def entry_of_line_def in_set_enumerate_eq)

lemma length_entries_of_lines [simp]: "length (entries_of_lines db a i lines) = length lines"
  by (simp add: entries_of_lines_def)

lemma keeps_balance [simp]: "keeps_key (\<lambda>r. r\<lparr>row_balance := b\<rparr>)"
  by (simp add: keeps_key_def)

text \<open>The state an accepted posting leaves: the balance moved by the quantised lines, the rows
  appended, the floor held, and nothing else among the accounts and their entries touched.\<close>

lemma post_account_entriesE:
  assumes "post_account_entries stored db a account lines c = Inr (written, db')"
    and "get_row stored BillingAccount i = Some account" and "row_tenant_id account = ac_tenant_id a"
  obtains after where
    "after = round2 (row_balance account) + sum_list (map (\<lambda>l. round2 (el_amount l)) lines)"
    "- row_credit_limit account \<le> after" "row_status account = ''active''"
    "c \<Longrightarrow> has_permission a ''billing_account.post'' (Some (row_unit_type account))"
    "written = entries_of_lines db a i lines"
    "db' = record_audit (ac_tenant_id a) ''billing_account.posted'' ''billing_account'' i (Some (label a))
         (set_row BillingAccount i (\<lambda>r. r\<lparr>row_balance := after\<rparr>)
           (db\<lparr>db_entries := db_entries db @ written, db_next := db_next db + length lines\<rparr>))"
proof -
  have [simp]: "relocked stored (ac_tenant_id a) account = account" using relocked_get_row assms(2,3) by blast
  have [simp]: "row_id account = i" using get_row_Some assms(2) by blast
  from assms(1) obtain delta where
    "c \<longrightarrow> has_permission a ''billing_account.post'' (Some (row_unit_type account))"
    "row_status account = ''active''" "foldE (add_entry_line db (ac_tenant_id a) account) 0 lines = Inr delta"
    "\<not> round2 (row_balance account) + delta < - row_credit_limit account"
    "written = entries_of_lines db a i lines"
    "db' = record_audit (ac_tenant_id a) ''billing_account.posted'' ''billing_account'' i (Some (label a))
         (set_row BillingAccount i (\<lambda>r. r\<lparr>row_balance := round2 (row_balance account) + delta\<rparr>)
           (db\<lparr>db_entries := db_entries db @ written, db_next := db_next db + length lines\<rparr>))"
    by (auto simp: post_account_entries_def Let_def result_simps split: if_splits)
  with add_entry_lines_Inr show ?thesis by (intro that) force+
qed

lemma get_row_counters [simp]: "get_row (db\<lparr>db_entries := es, db_next := n\<rparr>) m i = get_row db m i"
  by (simp add: get_row_def)

lemma post_get_row:
  "get_row (record_audit t w ty j wh (set_row BillingAccount i (\<lambda>r. r\<lparr>row_balance := after\<rparr>)
      (db\<lparr>db_entries := es, db_next := n\<rparr>))) m' i' =
    (if m' = BillingAccount \<and> i' = i then map_option (\<lambda>r. r\<lparr>row_balance := after\<rparr>) (get_row db m' i')
     else get_row db m' i')"
  by (simp add: store_simps get_row_set_row)

text \<open>Posting through a handler: the account is fetched first.\<close>

definition post_to :: "actor \<times> uuid \<times> entry_line list \<times> bool \<Rightarrow> db \<Rightarrow> db result" where
  "post_to = (\<lambda>(a, i, lines, c) db.
     bindE (get_active_document_or_404 db BillingAccount (ac_tenant_id a) i) (\<lambda>account.
     bindE (post_account_entries db db a account lines c) (\<lambda>(_, db'). Inr db')))"

definition cents_balances :: "db \<Rightarrow> bool" where
  "cents_balances db \<longleftrightarrow> (\<forall>i r. get_row db BillingAccount i = Some r \<longrightarrow> in_cents (row_balance r))"

definition lines_in_cents :: "entry_line list \<Rightarrow> bool" where
  "lines_in_cents lines \<longleftrightarrow> list_all (\<lambda>l. in_cents (el_amount l)) lines"

lemma lines_in_cents_sums:
  assumes "lines_in_cents lines"
  shows "sum_list (map (\<lambda>l. round2 (el_amount l)) lines) = sum_list (map el_amount lines)"
    and "sum_list (map (\<lambda>l. column_cents (el_amount l)) lines) = sum_list (map el_amount lines)"
    and "in_cents (sum_list (map el_amount lines))"
  using assms
  by (auto simp: lines_in_cents_def list_all_iff round2_id column_cents_def quantize_half_up_id
      intro!: arg_cong [where f = sum_list] in_cents_sum_list)

lemma post_toE:
  assumes "post_to (a, i, lines, c) db = Inr db'"
  obtains account written where "get_row db BillingAccount i = Some account"
    "row_tenant_id account = ac_tenant_id a" "row_deleted_at account = None"
    "post_account_entries db db a account lines c = Inr (written, db')"
  using assms by (auto simp: post_to_def result_simps get_active_document_or_404_Inr)

interpretation accounts: running_total account_balance account_ledger post_to
  "\<lambda>(a, i, lines, c) db k. if k = i then sum_list (map el_amount lines) else 0"
  "\<lambda>(a, i, lines, c). lines_in_cents lines" cents_balances
proof
  fix s s' :: db and op :: "actor \<times> uuid \<times> entry_line list \<times> bool" and k :: uuid
  assume ok: "cents_balances s" and sound: "case op of (a, i, lines, c) \<Rightarrow> lines_in_cents lines"
    and step: "post_to op s = Inr s'"
  obtain a i lines c where op: "op = (a, i, lines, c)" by (cases op)
  from step op obtain account written where acc: "get_row s BillingAccount i = Some account"
    "row_tenant_id account = ac_tenant_id a" and post: "post_account_entries s s a account lines c = Inr (written, s')"
    by (blast elim: post_toE)
  have cents: "in_cents (row_balance account)" "lines_in_cents lines"
    using ok sound acc(1) by (auto simp: cents_balances_def op)
  from post acc obtain after where
    after: "after = round2 (row_balance account) + sum_list (map (\<lambda>l. round2 (el_amount l)) lines)"
    and w: "written = entries_of_lines s a i lines"
    and s': "s' = record_audit (ac_tenant_id a) ''billing_account.posted'' ''billing_account'' i (Some (label a))
         (set_row BillingAccount i (\<lambda>r. r\<lparr>row_balance := after\<rparr>)
           (s\<lparr>db_entries := db_entries s @ written, db_next := db_next s + length lines\<rparr>))"
    by (rule post_account_entriesE) blast
  have after': "after = row_balance account + sum_list (map el_amount lines)"
    using cents by (simp add: after round2_id lines_in_cents_sums)
  show "account_balance s' k = account_balance s k + (case op of (a, i, lines, c) \<Rightarrow>
      \<lambda>db k. if k = i then sum_list (map el_amount lines) else 0) s k"
    using acc by (simp add: account_balance_def s' post_get_row op after')
  show "account_ledger s' k = account_ledger s k + (case op of (a, i, lines, c) \<Rightarrow>
      \<lambda>db k. if k = i then sum_list (map el_amount lines) else 0) s k"
    using cents by (simp add: account_ledger_def s' store_simps w entries_of_lines_ledger op lines_in_cents_sums)
  have "in_cents after" using cents by (auto simp: after' lines_in_cents_sums)
  with ok show "cents_balances s'" by (auto simp: cents_balances_def s' post_get_row split: if_splits)
qed

end
