(* ===== verification/Account_History.thy ===== *)
theory Account_History
  imports Accounts
begin

text \<open>
  What any history of the account handlers keeps: the balance is the sum of the entries, never below
  the credit line, and a batch of points is expired at most once.
\<close>

datatype account_op =
    Post_Entries uuid "entry_line list" bool
  | Expire_Batches timestamp uuid "(string \<times> money) list"
  | Open_Account string account_request
  | Change_Account uuid account_update
  | Hide_Account timestamp uuid
  | Unhide_Account uuid

fun account_step :: "actor \<times> account_op \<Rightarrow> db \<Rightarrow> db result" where
  "account_step (a, Post_Entries i lines c) db = post_to (a, i, lines, c) db"
| "account_step (a, Expire_Batches now i batches) db =
     bindE (expire_billing_account_entries now db a i batches) (\<lambda>(_, db'). Inr db')"
| "account_step (a, Open_Account code p) db = bindE (create_billing_account code db a p) (\<lambda>(_, db'). Inr db')"
| "account_step (a, Change_Account i u) db = update_billing_account db a i u"
| "account_step (a, Hide_Account now i) db = delete_billing_account now db a i"
| "account_step (a, Unhide_Account i) db = restore_billing_account db a i"

text \<open>What the request schemas and the callers guarantee: amounts at two decimals, a credit limit
  that is not negative, and the reason \<open>expired\<close> reserved to the sweep; and that the sweep names its
  batches the way the database prints their ids (\<open>uin\<close> is the database's reading of an id).\<close>

fun sound_op :: "(string \<Rightarrow> uuid option) \<Rightarrow> account_op \<Rightarrow> bool" where
  "sound_op uin (Post_Entries i lines c) =
     (lines_in_cents lines \<and> list_all (\<lambda>l. el_reason l \<noteq> ''expired'') lines)"
| "sound_op uin (Expire_Batches now i batches) = list_all (\<lambda>(b, x). in_cents x \<and> uin b \<in> {None, Some b}) batches"
| "sound_op uin (Open_Account code p) =
     (0 \<le> ca_credit_limit p \<and> (case ca_opening_balance p of None \<Rightarrow> True | Some x \<Rightarrow> in_cents x))"
| "sound_op uin (Change_Account i u) = (case ua_credit_limit u of Some (Some limit) \<Rightarrow> 0 \<le> limit | _ \<Rightarrow> True)"
| "sound_op uin (Hide_Account now i) = True"
| "sound_op uin (Unhide_Account i) = True"

definition sound_account :: "db \<Rightarrow> uuid \<Rightarrow> row \<Rightarrow> bool" where
  "sound_account db i r \<longleftrightarrow> in_cents (row_balance r) \<and> in_cents (row_credit_limit r) \<and>
     - row_credit_limit r \<le> row_balance r \<and> account_ledger db i = row_balance r"

definition fresh_ids :: "db \<Rightarrow> bool" where
  "fresh_ids db \<longleftrightarrow> inj (db_uuids db) \<and>
     (\<forall>n \<ge> db_next db. get_row db BillingAccount (db_uuids db n) = None \<and>
        (\<forall>e \<in> set (db_entries db). en_billing_account_id e \<noteq> db_uuids db n))"

definition sound_accounts :: "db \<Rightarrow> bool" where
  "sound_accounts db \<longleftrightarrow> fresh_ids db \<and> (\<forall>i r. get_row db BillingAccount i = Some r \<longrightarrow> sound_account db i r)"

subsection \<open>Posting and expiring\<close>

lemma post_keeps_accounts:
  assumes inv: "sound_accounts db" and acc: "get_row db BillingAccount i = Some account"
    and "row_tenant_id account = ac_tenant_id a" and cents: "lines_in_cents lines"
    and post: "post_account_entries db db a account lines c = Inr (written, db')"
  shows "sound_accounts db'"
proof -
  from post acc assms(3) obtain after where
    after: "after = round2 (row_balance account) + sum_list (map (\<lambda>l. round2 (el_amount l)) lines)"
    "- row_credit_limit account \<le> after"
    and w: "written = entries_of_lines db a i lines"
    and db': "db' = record_audit (ac_tenant_id a) ''billing_account.posted'' ''billing_account'' i (Some (label a))
         (set_row BillingAccount i (\<lambda>r. r\<lparr>row_balance := after\<rparr>)
           (db\<lparr>db_entries := db_entries db @ written, db_next := db_next db + length lines\<rparr>))"
    by (rule post_account_entriesE) blast
  from inv acc have s: "sound_account db i account" by (simp add: sound_accounts_def)
  have after': "after = row_balance account + sum_list (map el_amount lines)"
    using s cents by (simp add: after round2_id lines_in_cents_sums sound_account_def)
  have ledger: "account_ledger db' k = account_ledger db k + (if k = i then sum_list (map el_amount lines) else 0)" for k
    using cents by (simp add: account_ledger_def db' store_simps w entries_of_lines_ledger lines_in_cents_sums)
  have row: "get_row db' BillingAccount k =
      (if k = i then Some (account\<lparr>row_balance := after\<rparr>) else get_row db BillingAccount k)" for k
    using acc by (simp add: db' post_get_row)
  have accounts: "sound_account db' k r" if "get_row db' BillingAccount k = Some r" for k r
  proof (cases "k = i")
    case True
    with that row have r: "r = account\<lparr>row_balance := after\<rparr>" by simp
    have "in_cents after" using s cents by (auto simp: after' sound_account_def lines_in_cents_sums)
    then show ?thesis using s after(2) True
      by (simp add: r sound_account_def ledger after')
  next
    case False
    with that row inv have "sound_account db k r" by (simp add: sound_accounts_def)
    with False show ?thesis by (simp add: sound_account_def ledger)
  qed
  have "i \<noteq> db_uuids db n" if "db_next db \<le> n" for n
    using inv acc that by (auto simp: sound_accounts_def fresh_ids_def)
  moreover have next_id: "db_next db' = db_next db + length lines" "db_uuids db' = db_uuids db"
    "db_entries db' = db_entries db @ written" by (simp_all add: db' store_simps)
  moreover have "en_billing_account_id e = i" if "e \<in> set written" for e
    using that entries_of_lines_members w by blast
  ultimately have "fresh_ids db'"
    using inv unfolding sound_accounts_def fresh_ids_def by (auto simp: next_id row dest!: add_leD1)
  with accounts show ?thesis by (simp add: sound_accounts_def)
qed

definition expiry_line :: "uuid \<times> money \<Rightarrow> entry_line" where
  "expiry_line = (\<lambda>(i, x). \<lparr>el_amount = - x, el_reason = ''expired'',
     el_entity_type = Some ''billing_account_entry'', el_entity_id = Some i, el_expires_at = None\<rparr>)"

definition named :: "db \<Rightarrow> string \<Rightarrow> uuid" where
  "named db b = (case db_uuid_in db b of None \<Rightarrow> b | Some i \<Rightarrow> i)"

definition named_batches :: "db \<Rightarrow> (string \<times> money) list \<Rightarrow> (uuid \<times> money) list" where
  "named_batches db batches = map (\<lambda>(b, x). (named db b, x)) batches"

lemma named_batches_simps [simp]:
  "named_batches db [] = []" "named_batches db ((b, x) # ps) = (named db b, x) # named_batches db ps"
  by (simp_all add: named_batches_def)

definition lapsed_batch :: "timestamp \<Rightarrow> db \<Rightarrow> uuid \<Rightarrow> uuid \<Rightarrow> uuid \<times> money \<Rightarrow> bool" where
  "lapsed_batch now db t i = (\<lambda>(b, x). \<exists>e \<in> set (db_entries db). en_id e = b \<and> en_tenant_id e = t \<and>
     en_billing_account_id e = i \<and> 0 < en_amount e \<and> x \<le> en_amount e + 1 / 1000000000 \<and>
     (\<exists>y. en_expires_at e = Some y \<and> y \<le> now) \<and> \<not> list_ex (expiry_of t b) (db_entries db))"

lemma expire_line_Inr:
  assumes "expire_line now db t account (seen, lines) (b, x) = Inr r"
  shows "r = (seen @ [b], lines @ [expiry_line (named db b, x)]) \<and> b \<notin> set seen \<and>
    lapsed_batch now db t (row_id account) (named db b, x)"
proof (cases "db_uuid_in db b")
  case None
  with assms show ?thesis by (simp add: expire_line_def result_simps)
next
  case (Some j)
  with assms show ?thesis
    by (auto simp: expire_line_def result_simps expiry_line_def lapsed_batch_def named_def not_le not_less
        split: option.splits dest!: find_row_Some)
qed

lemma expire_lines_Inr:
  assumes "foldE (expire_line now db t account) (seen, lines) batches = Inr (seen', lines')"
  shows "lines' = lines @ map expiry_line (named_batches db batches) \<and>
    (distinct seen \<longrightarrow> distinct (seen @ map fst batches)) \<and>
    (\<forall>p \<in> set (named_batches db batches). lapsed_batch now db t (row_id account) p)"
  using assms
proof (induction batches arbitrary: seen lines)
  case (Cons p ps)
  obtain b x where p: "p = (b, x)" by (cases p)
  with Cons.prems obtain r where r: "expire_line now db t account (seen, lines) (b, x) = Inr r"
    "foldE (expire_line now db t account) r ps = Inr (seen', lines')" by (auto simp: result_simps)
  with expire_line_Inr [OF r(1)] Cons.IH [of "seen @ [b]" "lines @ [expiry_line (named db b, x)]"] show ?case
    by (auto simp: p)
qed simp

lemma expireE:
  assumes "expire_billing_account_entries now db a i batches = Inr (written, db')"
  obtains account where "get_row db BillingAccount i = Some account" "row_tenant_id account = ac_tenant_id a"
    "distinct (map fst batches)" "\<forall>p \<in> set (named_batches db batches). lapsed_batch now db (ac_tenant_id a) i p"
    "post_account_entries db db a account (map expiry_line (named_batches db batches)) True = Inr (written, db')"
proof -
  from assms obtain account where acc: "get_row db BillingAccount i = Some account"
    "row_tenant_id account = ac_tenant_id a"
    and rest: "bindE (foldE (expire_line now db (ac_tenant_id a) (relocked db (ac_tenant_id a) account)) ([], []) batches)
       (\<lambda>(seen, lines). post_account_entries db db a (relocked db (ac_tenant_id a) account) lines True) = Inr (written, db')"
    by (auto simp: expire_billing_account_entries_def result_simps get_active_document_or_404_Inr Let_def)
  have [simp]: "relocked db (ac_tenant_id a) account = account" using relocked_get_row acc by blast
  have [simp]: "row_id account = i" using get_row_Some acc by blast
  from rest obtain seen lines where
    "foldE (expire_line now db (ac_tenant_id a) account) ([], []) batches = Inr (seen, lines)"
    "post_account_entries db db a account lines True = Inr (written, db')" by (auto simp: result_simps)
  with expire_lines_Inr acc show ?thesis by (intro that) force+
qed

lemma expiry_lines_in_cents:
  "list_all (\<lambda>(_, x). in_cents x) batches \<Longrightarrow> lines_in_cents (map expiry_line (named_batches db batches))"
  by (auto simp: lines_in_cents_def list_all_iff expiry_line_def named_batches_def split: prod.splits)

text \<open>Batches named the way the database prints them are named apart.\<close>

lemma printed_names:
  assumes "list_all (\<lambda>(b, x). in_cents x \<and> db_uuid_in db b \<in> {None, Some b}) batches"
  shows "map fst (named_batches db batches) = map fst batches" and "list_all (\<lambda>(_, x). in_cents x) batches"
  using assms by (induction batches) (auto simp: named_def)

subsection \<open>Opening, changing, hiding\<close>

lemma column_cents_in_cents: "in_cents (column_cents x)"
  by (simp add: column_cents_def quantize_half_up_in_cents)

lemma column_cents_nonneg: "0 \<le> x \<Longrightarrow> 0 \<le> column_cents x"
  by (simp add: column_cents_def quantize_half_up_def)

lemma drawn_within_rounded_limit:
  assumes "in_cents b" and "0 \<le> limit" and "\<not> b < - limit - CENT"
  shows "- column_cents limit \<le> b"
proof -
  from assms(1) obtain m where b: "b = of_int m / 100" by (rule in_centsE)
  from assms(3) have "- of_int m \<le> limit * 100 + 1 / 2" by (simp add: b CENT_def field_simps)
  then have "- m \<le> \<lfloor>limit * 100 + 1 / 2\<rfloor>" by (simp add: le_floor_iff)
  then have "- (of_int \<lfloor>limit * 100 + 1 / 2\<rfloor>) \<le> (of_int m :: rat)"
    by (metis minus_le_iff of_int_le_iff of_int_minus)
  then show ?thesis using assms(2) by (simp add: column_cents_def quantize_half_up_def b divide_right_mono)
qed

lemma set_row_account_ledger [simp]: "account_ledger (set_row m i f db) k = account_ledger db k"
  by (simp add: account_ledger_def store_simps)

lemma set_account_keeps:
  assumes "sound_accounts db" and "keeps_key f"
    and "\<And>r. get_row db BillingAccount i = Some r \<Longrightarrow> sound_account db i r \<Longrightarrow> sound_account db i (f r)"
  shows "sound_accounts (set_row BillingAccount i f db)"
  using assms
  by (auto simp: sound_accounts_def fresh_ids_def store_simps get_row_set_row sound_account_def split: if_splits)

lemma update_keeps_accounts:
  assumes "sound_accounts db" and "sound_op uin (Change_Account i u)" and "update_billing_account db a i u = Inr db'"
  shows "sound_accounts db'"
proof -
  let ?f = "\<lambda>r. r\<lparr>row_credit_limit := (case ua_credit_limit u of Some (Some limit) \<Rightarrow> column_cents limit | _ \<Rightarrow> row_credit_limit r),
         row_status := (case ua_status u of Some (Some s) \<Rightarrow> s | _ \<Rightarrow> row_status r)\<rparr>"
  from assms(3) obtain account where acc: "get_row db BillingAccount i = Some account"
    and guard: "\<And>limit. ua_credit_limit u = Some (Some limit) \<Longrightarrow> \<not> row_balance account < - limit - CENT"
    and db': "db' = set_row BillingAccount i ?f db"
    by (auto simp: update_billing_account_def result_simps get_active_document_or_404_Inr split: if_splits option.splits)
  show ?thesis
    unfolding db'
  proof (rule set_account_keeps [OF assms(1)])
    show "keeps_key ?f" by (simp add: keeps_key_def)
    fix r assume r: "get_row db BillingAccount i = Some r" "sound_account db i r"
    with acc guard assms(2) drawn_within_rounded_limit show "sound_account db i (?f r)"
      by (auto simp: sound_account_def column_cents_in_cents split: option.splits)
  qed
qed

lemma hide_keeps_accounts:
  "sound_accounts db \<Longrightarrow> sound_accounts (set_row BillingAccount i (\<lambda>r. r\<lparr>row_deleted_at := d\<rparr>) db)"
  by (rule set_account_keeps) (simp_all add: keeps_key_def sound_account_def)

definition with_account :: "row \<Rightarrow> db \<Rightarrow> db" where
  "with_account account db = tick (db\<lparr>db_rows := db_rows db @ [account]\<rparr>)"

lemma get_row_with_account:
  "get_row (with_account account db) m i =
     (case get_row db m i of
        Some r \<Rightarrow> Some r
      | None \<Rightarrow> if row_model account = m \<and> row_id account = i then Some account else None)"
  by (simp add: with_account_def tick_def get_row_def find_row_append split: option.splits)

lemma with_account_fields [store_simps]:
  "db_entries (with_account account db) = db_entries db" "db_next (with_account account db) = Suc (db_next db)"
  "db_uuids (with_account account db) = db_uuids db" "db_uuid_in (with_account account db) = db_uuid_in db"
  by (simp_all add: with_account_def store_simps)

lemma open_keeps_accounts:
  assumes inv: "sound_accounts db" and "0 \<le> ca_credit_limit p"
  shows "sound_accounts (with_account (account_row (fresh_id db) t code p owner) db) \<and>
    get_row (with_account (account_row (fresh_id db) t code p owner) db) BillingAccount (fresh_id db) =
      Some (account_row (fresh_id db) t code p owner)"
proof -
  let ?acc = "account_row (fresh_id db) t code p owner"
  let ?db = "with_account ?acc db"
  have acc: "row_model ?acc = BillingAccount" "row_id ?acc = fresh_id db" "row_balance ?acc = 0"
    "row_credit_limit ?acc = column_cents (ca_credit_limit p)"
    by (simp_all add: account_row_def split_def)
  from inv have fresh: "get_row db BillingAccount (fresh_id db) = None"
    "\<forall>e \<in> set (db_entries db). en_billing_account_id e \<noteq> fresh_id db"
    and inj: "inj (db_uuids db)" by (auto simp: sound_accounts_def fresh_ids_def fresh_id_def)
  have "account_ledger db (fresh_id db) = 0" using fresh(2) by (auto simp: account_ledger_def intro: sum_where_none)
  then have new: "sound_account ?db (fresh_id db) ?acc"
    using assms(2) by (simp add: sound_account_def acc account_ledger_def store_simps column_cents_in_cents column_cents_nonneg)
  have old: "sound_account ?db i r" if "get_row db BillingAccount i = Some r" for i r
    using inv that by (simp add: sound_accounts_def sound_account_def account_ledger_def store_simps)
  have "fresh_ids ?db"
    using inv inj acc by (auto simp: sound_accounts_def fresh_ids_def get_row_with_account store_simps fresh_id_def
        inj_eq split: option.splits)
  moreover have "sound_account ?db i r" if "get_row ?db BillingAccount i = Some r" for i r
    using that new old acc by (auto simp: get_row_with_account split: option.splits if_splits)
  ultimately show ?thesis using fresh acc by (auto simp: sound_accounts_def get_row_with_account)
qed

lemma create_keeps_accounts:
  assumes inv: "sound_accounts db" and sound: "sound_op uin (Open_Account code p)"
    and create: "create_billing_account code db a p = Inr (i, db')"
  shows "sound_accounts db'"
proof -
  from create obtain owner c where
    step: "(case ca_opening_balance p of
              None \<Rightarrow> Inr (with_account (account_row (fresh_id db) (ac_tenant_id a) c p owner) db)
            | Some initial \<Rightarrow>
                if CENT \<le> \<bar>initial\<bar> then
                  bindE (post_account_entries (with_account (account_row (fresh_id db) (ac_tenant_id a) c p owner) db)
                      (with_account (account_row (fresh_id db) (ac_tenant_id a) c p owner) db) a
                      (account_row (fresh_id db) (ac_tenant_id a) c p owner)
                    [\<lparr>el_amount = initial, el_reason = ''initial'', el_entity_type = None, el_entity_id = None,
                      el_expires_at = None\<rparr>] False) (\<lambda>(_, db2). Inr db2)
                else Inr (with_account (account_row (fresh_id db) (ac_tenant_id a) c p owner) db)) = Inr db'"
    unfolding create_billing_account_def Let_def bindE_Inr_iff with_account_def [symmetric] by auto
  let ?acc = "account_row (fresh_id db) (ac_tenant_id a) c p owner"
  have 1: "sound_accounts (with_account ?acc db)"
    "get_row (with_account ?acc db) BillingAccount (fresh_id db) = Some ?acc"
    using open_keeps_accounts [OF inv] sound by simp_all
  have t: "row_tenant_id ?acc = ac_tenant_id a" by (simp add: account_row_def split_def)
  show ?thesis
  proof (cases "ca_opening_balance p")
    case None
    with step 1 show ?thesis by simp
  next
    case (Some initial)
    let ?lines = "[\<lparr>el_amount = initial, el_reason = ''initial'', el_entity_type = None, el_entity_id = None,
                      el_expires_at = None\<rparr>]"
    have "lines_in_cents ?lines" using sound Some by (simp add: lines_in_cents_def)
    with step Some 1 t post_keeps_accounts [OF 1 t] show ?thesis
      by (auto simp: result_simps split: if_splits)
  qed
qed

lemma account_step_keeps:
  assumes "sound_accounts db" and "sound_op (db_uuid_in db) (snd op)" and "account_step op db = Inr db'"
  shows "sound_accounts db'"
proof (cases op)
  case (Pair a k)
  show ?thesis
  proof (cases k)
    case (Post_Entries i lines c)
    with assms Pair show ?thesis by (auto elim!: post_toE intro: post_keeps_accounts)
  next
    case (Expire_Batches now i batches)
    with assms(3) Pair obtain written where
      "expire_billing_account_entries now db a i batches = Inr (written, db')" by (auto simp: result_simps)
    then obtain account where "get_row db BillingAccount i = Some account" "row_tenant_id account = ac_tenant_id a"
      "post_account_entries db db a account (map expiry_line (named_batches db batches)) True = Inr (written, db')"
      by (rule expireE)
    moreover have "lines_in_cents (map expiry_line (named_batches db batches))"
      using assms(2) Pair Expire_Batches printed_names(2) by (simp add: expiry_lines_in_cents)
    ultimately show ?thesis using assms(1) post_keeps_accounts by blast
  next
    case (Open_Account code p)
    with assms Pair show ?thesis by (auto simp: result_simps intro: create_keeps_accounts)
  next
    case (Change_Account i u)
    with assms Pair show ?thesis by (auto intro: update_keeps_accounts)
  next
    case (Hide_Account now i)
    with assms Pair show ?thesis
      by (auto simp: delete_billing_account_def result_simps intro: hide_keeps_accounts split: if_splits)
  next
    case (Unhide_Account i)
    with assms Pair show ?thesis
      by (auto simp: restore_billing_account_def result_simps intro: hide_keeps_accounts split: if_splits)
  qed
qed

subsection \<open>Expiring once\<close>

definition expired_once :: "db \<Rightarrow> bool" where
  "expired_once db \<longleftrightarrow> (\<forall>t b. length (filter (expiry_of t b) (db_entries db)) \<le> 1)"

lemma posted_entries:
  assumes "post_account_entries db db a account lines c = Inr (written, db')"
    and "get_row db BillingAccount i = Some account" and "row_tenant_id account = ac_tenant_id a"
  shows "db_entries db' = db_entries db @ entries_of_lines db a i lines"
  using assms by (rule post_account_entriesE) (simp add: store_simps)

lemma no_expiry_posted:
  assumes "list_all (\<lambda>l. el_reason l \<noteq> ''expired'') lines"
  shows "filter (expiry_of t b) (entries_of_lines db a i lines) = []"
  using assms entries_of_lines_members [of _ db a i lines]
  by (fastforce simp: filter_empty_conv expiry_of_def list_all_iff)

lemma expiries_posted:
  "length (filter (expiry_of t b) (entries_of_lines db a i (map expiry_line ps))) =
     (if t = ac_tenant_id a then count_list (map fst ps) b else 0)"
proof -
  have "length (filter (expiry_of t b) (map (\<lambda>(seq, line). entry_of_line db a i seq line)
      (List.enumerate n (map expiry_line ps)))) = (if t = ac_tenant_id a then count_list (map fst ps) b else 0)" for n
    by (induction ps arbitrary: n) (auto simp: expiry_of_def entry_of_line_def expiry_line_def split: prod.splits)
  then show ?thesis by (simp add: entries_of_lines_def)
qed

lemma count_list_distinct: "distinct xs \<Longrightarrow> count_list xs x = (if x \<in> set xs then 1 else 0)"
  by (induction xs) auto

lemma expire_keeps_once:
  assumes "expired_once db" and "expire_billing_account_entries now db a i batches = Inr (written, db')"
    and "sound_op (db_uuid_in db) (Expire_Batches now i batches)"
  shows "expired_once db'"
proof -
  let ?ps = "named_batches db batches"
  from assms(2) obtain account where *: "get_row db BillingAccount i = Some account"
    "row_tenant_id account = ac_tenant_id a" "distinct (map fst batches)"
    "\<forall>p \<in> set ?ps. lapsed_batch now db (ac_tenant_id a) i p"
    "post_account_entries db db a account (map expiry_line ?ps) True = Inr (written, db')" by (rule expireE)
  have distinct: "distinct (map fst ?ps)" using *(3) assms(3) printed_names(1) by simp
  have "length (filter (expiry_of t b) (db_entries db')) \<le> 1" for t b
  proof (cases "t = ac_tenant_id a \<and> b \<in> set (map fst ?ps)")
    case True
    then have "filter (expiry_of t b) (db_entries db) = []"
      using *(4) by (auto simp: lapsed_batch_def list_ex_iff filter_empty_conv)
    then show ?thesis using distinct True by (simp add: posted_entries [OF *(5,1,2)] expiries_posted count_list_distinct)
  next
    case False
    then have "(if t = ac_tenant_id a then count_list (map fst ?ps) b else 0) = 0"
      using distinct by (auto simp: count_list_distinct)
    then show ?thesis using assms(1)
      by (simp add: posted_entries [OF *(5,1,2)] expiries_posted expired_once_def)
  qed
  then show ?thesis by (simp add: expired_once_def)
qed

lemma post_keeps_once:
  assumes "expired_once db" and "post_account_entries db db a account lines c = Inr (written, db')"
    and "get_row db BillingAccount i = Some account" and "row_tenant_id account = ac_tenant_id a"
    and "list_all (\<lambda>l. el_reason l \<noteq> ''expired'') lines"
  shows "expired_once db'"
  using assms(1) by (simp add: expired_once_def posted_entries [OF assms(2-4)] no_expiry_posted [OF assms(5)])

lemma create_entries:
  assumes "sound_accounts db" and "expired_once db" and "0 \<le> ca_credit_limit p"
    and "create_billing_account code db a p = Inr (i, db')"
  shows "expired_once db'"
proof -
  from assms(4) obtain owner c where
    step: "(case ca_opening_balance p of
              None \<Rightarrow> Inr (with_account (account_row (fresh_id db) (ac_tenant_id a) c p owner) db)
            | Some x \<Rightarrow>
                if CENT \<le> \<bar>x\<bar> then
                  bindE (post_account_entries (with_account (account_row (fresh_id db) (ac_tenant_id a) c p owner) db)
                      (with_account (account_row (fresh_id db) (ac_tenant_id a) c p owner) db) a
                      (account_row (fresh_id db) (ac_tenant_id a) c p owner)
                    [\<lparr>el_amount = x, el_reason = ''initial'', el_entity_type = None, el_entity_id = None,
                      el_expires_at = None\<rparr>] False) (\<lambda>(_, db2). Inr db2)
                else Inr (with_account (account_row (fresh_id db) (ac_tenant_id a) c p owner) db)) = Inr db'"
    unfolding create_billing_account_def Let_def bindE_Inr_iff with_account_def [symmetric] by auto
  let ?acc = "account_row (fresh_id db) (ac_tenant_id a) c p owner"
  have row: "get_row (with_account ?acc db) BillingAccount (fresh_id db) = Some ?acc"
    using open_keeps_accounts [OF assms(1,3)] by simp
  have t: "row_tenant_id ?acc = ac_tenant_id a" by (simp add: account_row_def split_def)
  have once: "expired_once (with_account ?acc db)" using assms(2) by (simp add: expired_once_def store_simps)
  show ?thesis
    using step once post_keeps_once [OF once _ row t]
    by (fastforce simp: result_simps split: option.splits if_splits)
qed

lemma account_step_keeps_once:
  assumes "sound_accounts db" and "expired_once db" and "sound_op (db_uuid_in db) (snd op)" and "account_step op db = Inr db'"
  shows "expired_once db'"
proof (cases op)
  case (Pair a k)
  have same: "expired_once (set_row m i f db)" for m i f
    using assms(2) by (simp add: expired_once_def store_simps)
  show ?thesis
  proof (cases k)
    case (Post_Entries i lines c)
    with assms Pair show ?thesis by (auto elim!: post_toE intro: post_keeps_once)
  next
    case (Expire_Batches now i batches)
    with assms Pair show ?thesis by (auto simp: result_simps intro: expire_keeps_once)
  next
    case (Open_Account code p)
    with assms Pair show ?thesis by (auto simp: result_simps intro: create_entries)
  next
    case (Change_Account i u)
    with assms Pair same show ?thesis by (auto simp: update_billing_account_def result_simps split: if_splits)
  next
    case (Hide_Account now i)
    with assms Pair same show ?thesis by (auto simp: delete_billing_account_def result_simps split: if_splits)
  next
    case (Unhide_Account i)
    with assms Pair same show ?thesis by (auto simp: restore_billing_account_def result_simps split: if_splits)
  qed
qed

lemma post_uuid_in:
  assumes "post_account_entries db db a account lines c = Inr (written, db')"
    and "get_row db BillingAccount i = Some account" and "row_tenant_id account = ac_tenant_id a"
  shows "db_uuid_in db' = db_uuid_in db"
  using assms by (rule post_account_entriesE) (simp add: store_simps)

lemma create_uuid_in:
  assumes "sound_accounts db" and "0 \<le> ca_credit_limit p" and "create_billing_account code db a p = Inr (i, db')"
  shows "db_uuid_in db' = db_uuid_in db"
proof -
  from assms(3) obtain owner c where
    step: "(case ca_opening_balance p of
              None \<Rightarrow> Inr (with_account (account_row (fresh_id db) (ac_tenant_id a) c p owner) db)
            | Some x \<Rightarrow>
                if CENT \<le> \<bar>x\<bar> then
                  bindE (post_account_entries (with_account (account_row (fresh_id db) (ac_tenant_id a) c p owner) db)
                      (with_account (account_row (fresh_id db) (ac_tenant_id a) c p owner) db) a
                      (account_row (fresh_id db) (ac_tenant_id a) c p owner)
                    [\<lparr>el_amount = x, el_reason = ''initial'', el_entity_type = None, el_entity_id = None,
                      el_expires_at = None\<rparr>] False) (\<lambda>(_, db2). Inr db2)
                else Inr (with_account (account_row (fresh_id db) (ac_tenant_id a) c p owner) db)) = Inr db'"
    unfolding create_billing_account_def Let_def bindE_Inr_iff with_account_def [symmetric] by auto
  let ?acc = "account_row (fresh_id db) (ac_tenant_id a) c p owner"
  have row: "get_row (with_account ?acc db) BillingAccount (fresh_id db) = Some ?acc"
    using open_keeps_accounts [OF assms(1,2)] by simp
  have t: "row_tenant_id ?acc = ac_tenant_id a" by (simp add: account_row_def split_def)
  show ?thesis using step post_uuid_in [OF _ row t]
    by (fastforce simp: result_simps store_simps split: option.splits if_splits)
qed

lemma account_step_uuid_in:
  assumes "sound_accounts db" and "sound_op u (snd op)" and "account_step op db = Inr db'"
  shows "db_uuid_in db' = db_uuid_in db"
proof (cases op)
  case (Pair a k)
  show ?thesis
  proof (cases k)
    case (Post_Entries i lines c)
    with assms Pair show ?thesis by (auto elim!: post_toE intro: post_uuid_in)
  next
    case (Expire_Batches now i batches)
    with assms Pair show ?thesis by (auto simp: result_simps elim!: expireE intro: post_uuid_in)
  next
    case (Open_Account code p)
    with assms Pair show ?thesis by (auto simp: result_simps intro: create_uuid_in)
  qed (use assms Pair in \<open>auto simp: update_billing_account_def delete_billing_account_def restore_billing_account_def
      result_simps store_simps split: if_splits\<close>)
qed

definition run_accounts :: "db \<Rightarrow> (actor \<times> account_op) list \<Rightarrow> db result" where
  "run_accounts db ops = foldE (\<lambda>db op. account_step op db) db ops"

lemma run_accounts_keeps:
  assumes "run_accounts db ops = Inr db'" and "sound_accounts db" and "expired_once db"
    and "list_all (\<lambda>(_, k). sound_op (db_uuid_in db) k) ops"
  shows "sound_accounts db' \<and> expired_once db'"
proof -
  have "sound_accounts db' \<and> expired_once db' \<and> db_uuid_in db' = db_uuid_in db"
    using assms(1) unfolding run_accounts_def
  proof (rule foldE_invariant)
    show "sound_accounts db \<and> expired_once db \<and> db_uuid_in db = db_uuid_in db" using assms by blast
    fix s op s'
    assume "op \<in> set ops" and s: "sound_accounts s \<and> expired_once s \<and> db_uuid_in s = db_uuid_in db"
      and step: "account_step op s = Inr s'"
    moreover from this(1) assms(4) s have "sound_op (db_uuid_in s) (snd op)" by (auto simp: list_all_iff)
    ultimately show "sound_accounts s' \<and> expired_once s' \<and> db_uuid_in s' = db_uuid_in db"
      using account_step_keeps account_step_keeps_once account_step_uuid_in by metis
  qed
  then show ?thesis by blast
qed

subsection \<open>Properties\<close>

text \<open>C4: Whatever sequence of postings, expiries, openings, changes, deletions and restores an account goes through, its
  balance stays the sum of its entries and never falls below its credit line, as long as the calls state amounts in whole cents
  and credit limits that are not negative, spell the batches to expire as the database prints their ids, and post no entry
  \<open>expired\<close> by hand. (The schemas admit a finer opening balance, and for that it is false:
  \<open>fine_opening_balance_breaks_the_ledger\<close>.)\<close>

theorem balance_is_the_ledger_within_the_credit_line:
  assumes "run_accounts db ops = Inr db'" and "sound_accounts db" and "expired_once db"
    and "list_all (\<lambda>(_, k). sound_op (db_uuid_in db) k) ops" and "get_row db' BillingAccount i = Some account"
  shows "row_balance account = account_ledger db' i \<and> - row_credit_limit account \<le> row_balance account"
  using run_accounts_keeps [OF assms(1-4)] assms(5) by (simp add: sound_accounts_def sound_account_def)

definition demo_request :: account_request where
  "demo_request = \<lparr>ca_account_code = None, ca_name = ''points'', ca_unit_type = ''points'', ca_unit = ''points'',
     ca_customer_id = Some ''c'', ca_vendor_id = None, ca_employee_id = None, ca_credit_limit = 10,
     ca_status = ''active'', ca_opening_balance = Some 40\<rparr>"

definition demo_ledger :: db where
  "demo_ledger = blank_db\<lparr>db_rows := [blank_row\<lparr>row_model := Customer, row_id := ''c''\<rparr>],
     db_type_options := [
       \<lparr>to_tenant_id = ''t'', to_family = ''billing_account_unit'', to_name = ''points'', to_status = ''active'', to_sign = None\<rparr>,
       \<lparr>to_tenant_id = ''t'', to_family = ''billing_account_entry_reason'', to_name = ''earned'', to_status = ''active'', to_sign = None\<rparr>,
       \<lparr>to_tenant_id = ''t'', to_family = ''billing_account_entry_reason'', to_name = ''expired'', to_status = ''active'', to_sign = None\<rparr>,
       \<lparr>to_tenant_id = ''t'', to_family = ''billing_account_entry_reason'', to_name = ''initial'', to_status = ''active'', to_sign = None\<rparr>]\<rparr>"

definition demo_keeper :: actor where
  "demo_keeper = with_grants [''billing_account.manage'', ''billing_account.post:points''] blank_actor"

definition demo_ops :: "(actor \<times> account_op) list" where
  "demo_ops = [
     (demo_keeper, Open_Account ''BA-1'' demo_request),
     (demo_keeper, Post_Entries ''x'' [\<lparr>el_amount = 5, el_reason = ''earned'', el_entity_type = None,
        el_entity_id = None, el_expires_at = Some 50\<rparr>] True),
     (demo_keeper, Expire_Batches 60 ''x'' [(''xxx'', 4)])]"

lemma demo_ledger_sound: "sound_accounts demo_ledger" and demo_ledger_once: "expired_once demo_ledger"
proof -
  have "inj (\<lambda>n. replicate n CHR ''x'')" by (auto intro: injI dest: arg_cong [where f = length])
  then show "sound_accounts demo_ledger" "expired_once demo_ledger"
    by (simp_all add: sound_accounts_def expired_once_def demo_ledger_def blank_db_def blank_row_def fresh_ids_def
        get_row_def)
qed

lemma demo_keeper_eval:
  "require_permission demo_keeper ''billing_account.manage'' None = Inr ()" 
  "require_permission demo_keeper ''billing_account.post'' (Some ''points'') = Inr ()"
  "label demo_keeper = ''user:u''" "attributed demo_keeper None = ''user:u''" "ac_tenant_id demo_keeper = ''t''"
  by code_simp+

lemma demo_rounding:
  "round2 0 = 0" "round2 40 = 40" "round2 45 = 45" "round2 5 = 5" "round2 (- 4) = - 4" "round2 (- 5) = - 5" "round2 (1 / 40) = 1 / 50" 
  "column_cents 10 = 10" "column_cents 40 = 40" "column_cents 5 = 5" "column_cents (- 4) = - 4" "column_cents (- 5) = - 5" "column_cents (1 / 40) = 3 / 100"
  by code_simp+

lemmas demo_eval = create_billing_account_def resolve_account_owner_def demo_request_def demo_ledger_def given_def
  get_scoped_or_404_def get_row_def blank_db_def blank_row_def is_visible_def validate_account_unit_def
  require_type_option_def allowed_type_options_def account_row_def tick_def fresh_id_def CENT_def
  post_account_entries_def relocked_def lock_for_update_def add_entry_line_def set_row_def record_audit_def
  update_rows_def entries_of_lines_def entry_of_line_def post_to_def expire_billing_account_entries_def
  get_active_document_or_404_def ensure_document_not_deleted_def expire_line_def uuid_literal_def expiry_of_def demo_keeper_eval
  demo_rounding run_accounts_def demo_ops_def Let_def eval_nat_numeral

lemma demo_runs: "run_accounts demo_ledger demo_ops = Inr (projr (run_accounts demo_ledger demo_ops))"
  by (rule is_ok_projr) (simp cong: bindE_weak_cong add: demo_eval)

lemma demo_ops_sound: "list_all (\<lambda>(_, k). sound_op (db_uuid_in demo_ledger) k) demo_ops"
  by (simp add: demo_ops_def lines_in_cents_def in_cents_def demo_request_def demo_ledger_def blank_db_def)

theorem balance_is_the_ledger_within_the_credit_line_witness:
  "row_balance (the (get_row (projr (run_accounts demo_ledger demo_ops)) BillingAccount ''x'')) =
     account_ledger (projr (run_accounts demo_ledger demo_ops)) ''x''"
proof -
  have "\<exists>r. get_row (projr (run_accounts demo_ledger demo_ops)) BillingAccount ''x'' = Some r"
    by (simp cong: bindE_weak_cong add: demo_eval)
  then obtain r where "get_row (projr (run_accounts demo_ledger demo_ops)) BillingAccount ''x'' = Some r" by blast
  with balance_is_the_ledger_within_the_credit_line [OF demo_runs demo_ledger_sound demo_ledger_once demo_ops_sound]
  show ?thesis by simp
qed

text \<open>C13: A batch of points is expired at most once, through any history of the account handlers in which calls spell the
  batches to expire as the database prints their ids, state amounts in whole cents and credit limits that are not negative, and
  post no entry \<open>expired\<close> by hand. (With two spellings of a batch in one call it is false:
  \<open>two_spellings_expire_a_batch_twice\<close>.)\<close>

theorem a_batch_expires_at_most_once:
  assumes "run_accounts db ops = Inr db'" and "sound_accounts db" and "expired_once db"
    and "list_all (\<lambda>(_, k). sound_op (db_uuid_in db) k) ops"
  shows "length (filter (expiry_of tenant_id batch) (db_entries db')) \<le> 1"
  using run_accounts_keeps [OF assms] by (simp add: expired_once_def)

theorem a_batch_expires_at_most_once_witness:
  "length (filter (expiry_of ''t'' ''xxx'') (db_entries (projr (run_accounts demo_ledger demo_ops)))) \<le> 1"
  using a_batch_expires_at_most_once [OF demo_runs demo_ledger_sound demo_ledger_once demo_ops_sound] .

text \<open>The sweep takes only what has lapsed, and a re-run skips it: every batch an accepted call names
  is an earn batch of that account past its expiry, for at most its amount, and none of them is in
  the sweep's queue afterwards, at whatever date it is read.\<close>

theorem sweep_takes_lapsed_batches_once:
  assumes "expire_billing_account_entries now db a i batches = Inr (written, db')"
    and "get_row db BillingAccount i = Some account" and "(b, x) \<in> set batches"
  shows "lapsed_batch now db (ac_tenant_id a) i (named db b, x) \<and>
    named db b \<notin> en_id ` set (expiring_account_entries db' (ac_tenant_id a) account before)"
proof -
  let ?ps = "named_batches db batches"
  from assms(1) obtain acc where *: "get_row db BillingAccount i = Some acc" "row_tenant_id acc = ac_tenant_id a"
    "distinct (map fst batches)" "\<forall>p \<in> set ?ps. lapsed_batch now db (ac_tenant_id a) i p"
    "post_account_entries db db a acc (map expiry_line ?ps) True = Inr (written, db')" by (rule expireE)
  have in_ps: "(named db b, x) \<in> set ?ps" using assms(3) by (force simp: named_batches_def)
  then have "named db b \<in> set (map fst ?ps)" by force
  then have "count_list (map fst ?ps) (named db b) \<noteq> 0" by (simp only: count_list_0_iff not_not)
  then have "filter (expiry_of (ac_tenant_id a) (named db b)) (entries_of_lines db a i (map expiry_line ?ps)) \<noteq> []"
    using expiries_posted [of "ac_tenant_id a" "named db b" db a i ?ps] by auto
  then have "list_ex (expiry_of (ac_tenant_id a) (named db b)) (db_entries db')"
    by (auto simp: posted_entries [OF *(5,1,2)] list_ex_iff filter_empty_conv)
  then show ?thesis using *(4) in_ps by (auto simp: expiring_account_entries_def)
qed

theorem sweep_takes_lapsed_batches_once_witness:
  "lapsed_batch 60 (projr (run_accounts demo_ledger (take 2 demo_ops))) ''t'' ''x''
     (named (projr (run_accounts demo_ledger (take 2 demo_ops))) ''xxx'', 4)"
proof -
  let ?db = "projr (run_accounts demo_ledger (take 2 demo_ops))"
  let ?x = "expire_billing_account_entries 60 ?db demo_keeper ''x'' [(''xxx'', 4)]"
  have "is_ok ?x" by (simp cong: bindE_weak_cong add: demo_eval)
  then have 1: "?x = Inr (fst (projr ?x), snd (projr ?x))" using is_ok_projr [of ?x] by simp
  have "\<exists>account. get_row ?db BillingAccount ''x'' = Some account" by (simp cong: bindE_weak_cong add: demo_eval)
  then obtain account where 2: "get_row ?db BillingAccount ''x'' = Some account" by blast
  from sweep_takes_lapsed_batches_once [OF 1 2, of "''xxx''" 4] show ?thesis by (simp add: demo_keeper_eval)
qed

definition upper_case_reader :: "string \<Rightarrow> uuid option" where
  "upper_case_reader s = Some (map (\<lambda>c. if c = CHR ''X'' then CHR ''x'' else c) s)"

text \<open>One sweep can expire a batch twice. The sweep keeps its batches apart by the string the caller
  wrote, the database by the uuid it reads from it: a batch named once in lower and once in upper case
  passes every check, and twice its worth leaves the account.\<close>

theorem two_spellings_expire_a_batch_twice:
  "\<exists>db'. run_accounts (demo_ledger\<lparr>db_uuid_in := upper_case_reader\<rparr>)
      (take 2 demo_ops @ [(demo_keeper, Expire_Batches 60 ''x'' [(''xxx'', 5), (''XXX'', 5)])]) = Inr db' \<and>
     length (filter (expiry_of ''t'' ''xxx'') (db_entries db')) = 2 \<and> account_balance db' ''x'' = 35"
  by (simp cong: bindE_weak_cong add: demo_eval upper_case_reader_def account_balance_def)

text \<open>Two decimals are needed, and one door does not ask for them: an opening balance finer than a
  cent is posted unchecked, the balance rounds it half to even and the row half up, and the account
  is born with a balance that is not the sum of its ledger.\<close>

theorem fine_opening_balance_breaks_the_ledger:
  "\<exists>i db'. create_billing_account ''BA-1'' demo_ledger demo_keeper (demo_request\<lparr>ca_opening_balance := Some (25 / 1000)\<rparr>) =
       Inr (i, db') \<and>
     account_balance db' i = 2 / 100 \<and> account_ledger db' i = 3 / 100"
  by (simp cong: bindE_weak_cong add: demo_eval account_balance_def account_ledger_def)

end
