(* ===== verification/Settlement.thy ===== *)
theory Settlement
  imports Account_History "HOL-Library.Option_ord"
begin

text \<open>
  Settlement (\<open>app/api/billing.py\<close>, \<open>apply_payment\<close> and its helpers): a payment is applied to invoices,
  expense claims, billing accounts and other payments through an append-only ledger of
  applications, beside running totals on both sides.

  The lines of a request name their targets by the string the caller wrote (\<open>al_id\<close>); the database's
  reading of it is \<open>db_uuid_in\<close>. The answer's rendering of the targets is left out, except that a
  replay resolves them again and can be refused there. Locks are taken in \<open>lock_order\<close>; within the
  one transaction that runs here they read the rows as they are.
\<close>

subsection \<open>Who may see money moving to a person\<close>

definition may_see_invoice :: "actor \<Rightarrow> row \<Rightarrow> bool" where
  "may_see_invoice a invoice =
     (if row_direction invoice \<noteq> ''payroll'' \<or> may_read_payroll a then True
      else own_employee_id a \<noteq> None \<and> row_payee_employee_id invoice = own_employee_id a)"

definition ensure_invoice_visible :: "actor \<Rightarrow> row \<Rightarrow> unit result" where
  "ensure_invoice_visible a invoice = ensure (may_see_invoice a invoice) 404 ''Invoice_not_found''"

definition handles_money :: "actor \<Rightarrow> bool" where
  "handles_money a \<longleftrightarrow> has_permission a ''payment.record'' None \<or> has_permission a ''payment.apply'' None \<or>
     has_permission a ''payment.advance'' None"

definition settles_foreign_payslip :: "db \<Rightarrow> actor \<Rightarrow> row \<Rightarrow> bool" where
  "settles_foreign_payslip db a payment \<longleftrightarrow>
     list_ex (\<lambda>p. pa_tenant_id p = ac_tenant_id a \<and> pa_payment_id p = row_id payment \<and>
       (case Option.bind (pa_invoice_id p) (get_row db Invoice) of
          None \<Rightarrow> False
        | Some invoice \<Rightarrow> row_direction invoice = ''payroll'' \<and>
            (case own_employee_id a of
               None \<Rightarrow> True
             | Some me \<Rightarrow> row_payee_employee_id invoice \<noteq> None \<and> row_payee_employee_id invoice \<noteq> Some me)))
       (db_applications db)"

definition ensure_payment_visible :: "db \<Rightarrow> actor \<Rightarrow> row \<Rightarrow> unit result" where
  "ensure_payment_visible db a payment =
     (if may_read_payroll a then Inr ()
      else bindE (ensure (\<not> settles_foreign_payslip db a payment) 404 ''Payment_not_found'') (\<lambda>_.
        ensure (\<not> (row_payee_employee_id payment \<noteq> None \<and> row_payee_employee_id payment \<noteq> own_employee_id a \<and>
                    \<not> handles_money a)) 404 ''Payment_not_found''))"

text \<open>\<open>hide_payroll_payments\<close>, the SQL form of the same gate.\<close>

definition hide_payroll_payments :: "db \<Rightarrow> actor \<Rightarrow> row \<Rightarrow> bool" where
  "hide_payroll_payments db a payment \<longleftrightarrow> may_read_payroll a \<or>
     \<not> settles_foreign_payslip db a payment \<and>
     (handles_money a \<or> row_payee_employee_id payment = None \<or>
      own_employee_id a \<noteq> None \<and> row_payee_employee_id payment = own_employee_id a)"

subsection \<open>What a settled document fixes\<close>

definition require_settleable :: "db \<Rightarrow> row \<Rightarrow> unit result" where
  "require_settleable db document =
     bindE (family_of (row_model document)) (\<lambda>family.
     bindE (get_builtin_machine (db_definitions db) (row_tenant_id document) (df_object_type family)) (\<lambda>machine.
     bindE (editable_states machine (df_object_type family)) (\<lambda>editable.
     ensure (row_status document \<notin> set editable) 409 ''still_editable'')))"

text \<open>\<open>changing\<close>: the guarded fields whose value in the PATCH differs from the document's.\<close>

definition ensure_unsettled_fields :: "row \<Rightarrow> string list \<Rightarrow> unit result" where
  "ensure_unsettled_fields document changing =
     (if \<bar>row_applied_amount document\<bar> < CENT then Inr ()
      else ensure (changing = []) 409 ''cannot_change_while_it_is_settled'')"

definition ensure_money_fields_editable :: "db \<Rightarrow> row \<Rightarrow> string list \<Rightarrow> unit result" where
  "ensure_money_fields_editable db document changing =
     bindE (family_of (row_model document)) (\<lambda>family.
     if changing = [] then Inr ()
     else
     bindE (get_builtin_machine (db_definitions db) (row_tenant_id document) (df_object_type family)) (\<lambda>machine.
     bindE (editable_states machine (df_object_type family)) (\<lambda>editable.
     ensure (row_status document \<in> set editable) 409 ''cannot_be_restated'')))"

subsection \<open>The kinds of target\<close>

datatype settlement_kind = Settle_Invoice | Settle_Expense_Claim | Settle_Billing_Account | Settle_Payment

record settlement_target =
  tg_model :: model
  tg_column :: "payment_application \<Rightarrow> uuid option"
  tg_settling_direction :: "row \<Rightarrow> string option"
  tg_running :: "row \<Rightarrow> money"
  tg_bounds :: "db \<Rightarrow> row \<Rightarrow> money \<times> money option"
  tg_effect_sign :: "row \<Rightarrow> row \<Rightarrow> money"
  tg_counterparty_fields :: "((row \<Rightarrow> uuid option) \<times> (row \<Rightarrow> uuid option)) list"
  tg_precondition :: "db \<Rightarrow> uuid \<Rightarrow> row \<Rightarrow> bool"

definition expense_claim_total :: "db \<Rightarrow> row \<Rightarrow> money" where
  "expense_claim_total db claim =
     sum_where (\<lambda>l. ln_model l = ExpenseItem \<and> ln_tenant_id l = row_tenant_id claim \<and> ln_parent_id l = row_id claim \<and>
                    ln_deleted_at l = None) (\<lambda>l. or_zero (ln_amount l)) (db_lines db)"

definition claim_already_billed :: "db \<Rightarrow> uuid \<Rightarrow> row \<Rightarrow> bool" where
  "claim_already_billed db tenant_id claim \<longleftrightarrow>
     list_ex (\<lambda>i. row_model i = Invoice \<and> row_tenant_id i = tenant_id \<and> row_expense_claim_id i = Some (row_id claim) \<and>
                  row_deleted_at i = None) (db_rows db)"

text \<open>\<open>tg_precondition\<close> holds when the target may be settled; \<open>tg_effect_sign\<close> is \<open>target_effect_sign\<close>,
  1 for the kinds that state none.\<close>

fun SETTLEMENT_TARGETS :: "settlement_kind \<Rightarrow> settlement_target" where
  "SETTLEMENT_TARGETS Settle_Invoice = \<lparr>
     tg_model = Invoice, tg_column = pa_invoice_id,
     tg_settling_direction = (\<lambda>r. Some (if row_direction r = ''sales'' then ''inbound'' else ''outbound'')),
     tg_running = row_applied_amount,
     tg_bounds = (\<lambda>db r. (0, Some (invoice_billed_total r (live_invoice_items db (row_tenant_id r) (row_id r))))),
     tg_effect_sign = (\<lambda>_ _. 1),
     tg_counterparty_fields = [(row_customer_id, row_customer_id), (row_vendor_id, row_vendor_id),
       (row_payee_employee_id, row_payee_employee_id)],
     tg_precondition = (\<lambda>_ _ _. True)\<rparr>"
| "SETTLEMENT_TARGETS Settle_Expense_Claim = \<lparr>
     tg_model = ExpenseClaim, tg_column = pa_expense_claim_id,
     tg_settling_direction = (\<lambda>r. Some ''outbound''),
     tg_running = row_applied_amount,
     tg_bounds = (\<lambda>db r. (0, Some (expense_claim_total db r))),
     tg_effect_sign = (\<lambda>_ _. 1),
     tg_counterparty_fields = [(row_employee_id, row_payee_employee_id)],
     tg_precondition = (\<lambda>db t r. \<not> claim_already_billed db t r)\<rparr>"
| "SETTLEMENT_TARGETS Settle_Billing_Account = \<lparr>
     tg_model = BillingAccount, tg_column = pa_billing_account_id,
     tg_settling_direction = (\<lambda>r. None),
     tg_running = row_balance,
     tg_bounds = (\<lambda>db r. (- row_credit_limit r, None)),
     tg_effect_sign = (\<lambda>payment r.
       if row_direction payment = (if row_vendor_id r \<noteq> None then ''outbound'' else ''inbound'') then 1 else - 1),
     tg_counterparty_fields = [(row_customer_id, row_customer_id), (row_vendor_id, row_vendor_id),
       (row_employee_id, row_payee_employee_id)],
     tg_precondition = (\<lambda>_ _ _. True)\<rparr>"
| "SETTLEMENT_TARGETS Settle_Payment = \<lparr>
     tg_model = Payment, tg_column = pa_to_payment_id,
     tg_settling_direction = (\<lambda>r. Some (if row_direction r = ''inbound'' then ''outbound'' else ''inbound'')),
     tg_running = row_applied_amount,
     tg_bounds = (\<lambda>db r. (0, Some (row_amount r))),
     tg_effect_sign = (\<lambda>_ _. 1),
     tg_counterparty_fields = [(row_customer_id, row_customer_id), (row_vendor_id, row_vendor_id),
       (row_payee_employee_id, row_payee_employee_id)],
     tg_precondition = (\<lambda>_ _ _. True)\<rparr>"

definition applied_to_type :: "payment_application \<Rightarrow> settlement_kind" where
  "applied_to_type p =
     (if pa_invoice_id p \<noteq> None then Settle_Invoice
      else if pa_expense_claim_id p \<noteq> None then Settle_Expense_Claim
      else if pa_billing_account_id p \<noteq> None then Settle_Billing_Account
      else Settle_Payment)"

definition applied_to_id :: "payment_application \<Rightarrow> uuid option" where
  "applied_to_id p =
     (if given (pa_invoice_id p) then pa_invoice_id p
      else if given (pa_expense_claim_id p) then pa_expense_claim_id p
      else if given (pa_billing_account_id p) then pa_billing_account_id p
      else pa_to_payment_id p)"

definition resolve_settlement_target :: "db \<Rightarrow> uuid \<Rightarrow> settlement_kind \<Rightarrow> string \<Rightarrow> row result" where
  "resolve_settlement_target db tenant_id kind target_id =
     (case db_uuid_in db target_id of
        None \<Rightarrow> Inl (HttpError 404 ''not_found'')
      | Some i \<Rightarrow> bindE (get_scoped_or_404 db (tg_model (SETTLEMENT_TARGETS kind)) tenant_id i) (\<lambda>r.
          bindE (ensure (row_deleted_at r = None) 404 ''not_found'') (\<lambda>_. Inr r)))"

subsection \<open>Checking the lines\<close>

record apply_line =
  al_type :: settlement_kind
  al_id :: string
  al_amount :: money
  al_invoice_item_id :: "string option"

type_synonym target_key = "settlement_kind \<times> string"

record pass_one =
  p1_rows :: "(target_key \<times> row) list"
  p1_deltas :: "(target_key \<times> money) list"
  p1_resolved :: "(row \<times> apply_line) list"

definition target_currency :: "settlement_kind \<Rightarrow> row \<Rightarrow> string" where
  "target_currency kind r = (if kind = Settle_Billing_Account then row_unit r else row_currency r)"

definition check_target :: "db \<Rightarrow> uuid \<Rightarrow> row \<Rightarrow> settlement_kind \<Rightarrow> row \<Rightarrow> unit result" where
  "check_target db tenant_id payment kind r =
     (let spec = SETTLEMENT_TARGETS kind in
      bindE (if kind \<noteq> Settle_Billing_Account then require_settleable db r else Inr ()) (\<lambda>_.
      bindE (ensure (tg_precondition spec db tenant_id r) 409 ''already_billed'') (\<lambda>_.
      bindE (case tg_settling_direction spec r of
               None \<Rightarrow> Inr ()
             | Some wanted \<Rightarrow> ensure (row_direction payment = wanted) 409 ''settled_by_the_other_direction'') (\<lambda>_.
      bindE (each (\<lambda>(target_field, payment_field).
               ensure (\<not> (target_field r \<noteq> None \<and> payment_field payment \<noteq> target_field r)) 409 ''a_different_party'')
             (tg_counterparty_fields spec)) (\<lambda>_.
      bindE (if kind = Settle_Billing_Account
             then bindE (ensure (row_unit_type r = ''currency'') 409 ''counts_points'') (\<lambda>_.
                  ensure (row_status r = ''active'') 409 ''takes_no_movement'')
             else Inr ()) (\<lambda>_.
      ensure (target_currency kind r = row_currency payment) 409 ''currency_mismatch''))))))"

definition check_invoice_item :: "db \<Rightarrow> uuid \<Rightarrow> row \<Rightarrow> apply_line \<Rightarrow> unit result" where
  "check_invoice_item db tenant_id r line =
     (case al_invoice_item_id line of
        None \<Rightarrow> Inr ()
      | Some s \<Rightarrow>
          bindE (ensure (al_type line = Settle_Invoice) 422 ''only_applies_when_settling_an_invoice'') (\<lambda>_.
          bindE (case db_uuid_in db s of
                   None \<Rightarrow> Inl (HttpError 404 ''not_found'')
                 | Some i \<Rightarrow> get_live_line_or_404 db InvoiceItem tenant_id i) (\<lambda>item.
          ensure (ln_parent_id item = row_id r) 422 ''line_of_a_different_invoice'')))"

definition check_line :: "db \<Rightarrow> uuid \<Rightarrow> row \<Rightarrow> pass_one \<Rightarrow> apply_line \<Rightarrow> pass_one result" where
  "check_line db tenant_id payment st line =
     (let key = (al_type line, al_id line) in
      bindE (ensure (\<not> \<bar>al_amount line\<bar> < CENT) 422 ''amount_must_not_be_zero'') (\<lambda>_.
      bindE (ensure (\<not> (al_type line = Settle_Payment \<and> al_id line = row_id payment)) 422
               ''a_payment_cannot_settle_itself'') (\<lambda>_.
      bindE (case map_of (p1_rows st) key of
               Some r \<Rightarrow> Inr r
             | None \<Rightarrow> resolve_settlement_target db tenant_id (al_type line) (al_id line)) (\<lambda>r.
      bindE (check_target db tenant_id payment (al_type line) r) (\<lambda>_.
      bindE (check_invoice_item db tenant_id r line) (\<lambda>_.
      Inr \<lparr>p1_rows = (if map_of (p1_rows st) key = None then p1_rows st @ [(key, r)] else p1_rows st),
           p1_deltas = dict_add key (al_amount line) (p1_deltas st),
           p1_resolved = p1_resolved st @ [(r, line)]\<rparr>))))))"

subsection \<open>Locks and limits\<close>

fun table_name :: "settlement_kind \<Rightarrow> string" where
  "table_name Settle_Invoice = ''invoices''"
| "table_name Settle_Expense_Claim = ''expense_claims''"
| "table_name Settle_Billing_Account = ''billing_accounts''"
| "table_name Settle_Payment = ''payments''"

definition lock_order :: "uuid \<Rightarrow> target_key list \<Rightarrow> (string \<times> string) list" where
  "lock_order payment_id keys =
     sort (remdups (map (\<lambda>(kind, i). (table_name kind, i)) keys @ [(table_name Settle_Payment, payment_id)]))"

definition check_delta :: "db \<Rightarrow> row \<Rightarrow> (target_key \<times> row) list \<Rightarrow> target_key \<times> money \<Rightarrow> unit result" where
  "check_delta db payment rows = (\<lambda>(key, delta).
     let spec = SETTLEMENT_TARGETS (fst key); r = the (map_of rows key);
         after = tg_running spec r + delta * tg_effect_sign spec payment r
     in case tg_bounds spec db r of (lowest, highest) \<Rightarrow>
          bindE (ensure (\<not> after < lowest - CENT) 409 ''reversing_more_than_was_applied'') (\<lambda>_.
          ensure (\<not> (case highest of None \<Rightarrow> False | Some c \<Rightarrow> c + CENT < after)) 409 ''over_applying_the_target''))"

subsection \<open>Writing\<close>

definition application_of_line ::
    "db \<Rightarrow> actor \<Rightarrow> uuid \<Rightarrow> string option \<Rightarrow> nat \<Rightarrow> row \<times> apply_line \<Rightarrow> payment_application" where
  "application_of_line db a payment_id idempotency_key seq = (\<lambda>(r, line).
     let col = (\<lambda>kind. if al_type line = kind then Some (row_id r) else None) in \<lparr>
       pa_id = db_uuids db (db_next db + seq), pa_tenant_id = ac_tenant_id a, pa_payment_id = payment_id,
       pa_invoice_id = col Settle_Invoice,
       pa_invoice_item_id = Option.bind (al_invoice_item_id line) (db_uuid_in db),
       pa_expense_claim_id = col Settle_Expense_Claim, pa_billing_account_id = col Settle_Billing_Account,
       pa_to_payment_id = col Settle_Payment, pa_amount_applied = column_cents (al_amount line),
       pa_idempotency_key = idempotency_key,
       pa_idempotency_seq = (if given idempotency_key then Some seq else None), pa_created_by = attributed a None\<rparr>)"

definition applications_of_lines ::
    "db \<Rightarrow> actor \<Rightarrow> uuid \<Rightarrow> string option \<Rightarrow> (row \<times> apply_line) list \<Rightarrow> payment_application list" where
  "applications_of_lines db a payment_id idempotency_key resolved =
     map (\<lambda>(seq, x). application_of_line db a payment_id idempotency_key seq x) (List.enumerate 0 resolved)"

definition add_applied :: "money \<Rightarrow> row \<Rightarrow> row" where
  "add_applied delta r = r\<lparr>row_applied_amount := round2 (row_applied_amount r + delta)\<rparr>"

definition move_total ::
    "db \<Rightarrow> actor \<Rightarrow> row \<Rightarrow> (target_key \<times> row) list \<Rightarrow> (row \<times> apply_line) list \<Rightarrow> db \<Rightarrow> target_key \<times> money \<Rightarrow> db result" where
  "move_total stored a payment rows resolved db = (\<lambda>((kind, target_id), delta).
     let spec = SETTLEMENT_TARGETS kind; r = the (map_of rows (kind, target_id)) in
     if kind = Settle_Billing_Account then
       let signed = delta * tg_effect_sign spec payment r;
           paying_out = list_ex (\<lambda>(_, line). al_type line \<noteq> Settle_Billing_Account) resolved
       in bindE (post_account_entries stored db a r
            [\<lparr>el_amount = signed,
              el_reason = (if 0 < signed then ''deposit'' else if paying_out then ''charge'' else ''refund''),
              el_entity_type = Some ''payment'', el_entity_id = Some (row_id payment), el_expires_at = None\<rparr>]
            False) (\<lambda>(_, db'). Inr db')
     else Inr (set_row (tg_model spec) (row_id r) (add_applied delta) db))"

definition recorded_under :: "db \<Rightarrow> uuid \<Rightarrow> uuid \<Rightarrow> string \<Rightarrow> payment_application list" where
  "recorded_under db tenant_id payment_id idempotency_key =
     sort_key (\<lambda>p. (pa_idempotency_seq p, pa_id p))
       (filter (\<lambda>p. pa_tenant_id p = tenant_id \<and> pa_payment_id p = payment_id \<and>
                    pa_idempotency_key p = Some idempotency_key) (db_applications db))"

definition recorded_line :: "payment_application \<Rightarrow> settlement_kind \<times> string option \<times> money" where
  "recorded_line p = (applied_to_type p, applied_to_id p, round2 (pa_amount_applied p))"

definition requested_line :: "apply_line \<Rightarrow> settlement_kind \<times> string option \<times> money" where
  "requested_line line = (al_type line, Some (al_id line), round2 (al_amount line))"

definition targets_resolve :: "db \<Rightarrow> uuid \<Rightarrow> payment_application list \<Rightarrow> unit result" where
  "targets_resolve db tenant_id applications =
     each (\<lambda>p. case applied_to_id p of
                None \<Rightarrow> Inl (HttpError 404 ''not_found'')
              | Some i \<Rightarrow> bindE (resolve_settlement_target db tenant_id (applied_to_type p) i) (\<lambda>_. Inr ())) applications"

definition with_applications :: "payment_application list \<Rightarrow> db \<Rightarrow> db" where
  "with_applications written db =
     db\<lparr>db_applications := db_applications db @ written, db_next := db_next db + length written\<rparr>"

definition set_applied :: "uuid \<Rightarrow> money \<Rightarrow> db \<Rightarrow> db" where
  "set_applied payment_id x = set_row Payment payment_id (\<lambda>r. r\<lparr>row_applied_amount := x\<rparr>)"

definition write_applications ::
    "db \<Rightarrow> actor \<Rightarrow> row \<Rightarrow> string option \<Rightarrow> pass_one \<Rightarrow> money \<Rightarrow> (payment_application list \<times> db) result" where
  "write_applications db a payment idempotency_key st payment_after =
     (let written = applications_of_lines db a (row_id payment) idempotency_key (p1_resolved st)
      in bindE (foldE (move_total db a payment (p1_rows st) (p1_resolved st)) (with_applications written db)
                 (p1_deltas st)) (\<lambda>db2.
         Inr (written,
              record_audit (ac_tenant_id a) ''payment.applied'' ''payment'' (row_id payment) (Some (label a))
                (set_applied (row_id payment) (round2 payment_after) db2))))"

definition apply_new ::
    "db \<Rightarrow> actor \<Rightarrow> row \<Rightarrow> apply_line list \<Rightarrow> string option \<Rightarrow> (payment_application list \<times> db) result" where
  "apply_new db a payment0 lines idempotency_key =
     bindE (foldE (check_line db (ac_tenant_id a) payment0) \<lparr>p1_rows = [], p1_deltas = [], p1_resolved = []\<rparr> lines) (\<lambda>st.
     let payment = relocked db (ac_tenant_id a) payment0;
         payment_after = row_applied_amount payment + sum_list (map snd (p1_deltas st)) in
     bindE (ensure (\<not> payment_after < - CENT) 409 ''reversing_more_than_was_applied'') (\<lambda>_.
     bindE (ensure (\<not> row_amount payment + CENT < payment_after) 409 ''over_applying_the_payment'') (\<lambda>_.
     bindE (each (check_delta db payment (p1_rows st)) (p1_deltas st)) (\<lambda>_.
     write_applications db a payment idempotency_key st payment_after))))"

text \<open>The answer is the applications and whether they are a replay.\<close>

definition apply_payment ::
    "db \<Rightarrow> actor \<Rightarrow> uuid \<Rightarrow> apply_line list \<Rightarrow> string option \<Rightarrow>
     (payment_application list \<times> bool \<times> db) result" where
  "apply_payment db a payment_id lines idempotency_key =
     bindE (require_permission a ''payment.apply'' None) (\<lambda>_.
     bindE (get_active_document_or_404 db Payment (ac_tenant_id a) payment_id) (\<lambda>payment.
     bindE (require_settleable db payment) (\<lambda>_.
     let replay = (if given idempotency_key
                   then recorded_under db (ac_tenant_id a) (row_id payment) (the idempotency_key) else []) in
     if replay \<noteq> [] then
       bindE (ensure_replay_matches (map recorded_line replay) (map requested_line lines)) (\<lambda>_.
       bindE (targets_resolve db (ac_tenant_id a) replay) (\<lambda>_. Inr (replay, True, db)))
     else
       bindE (apply_new db a payment lines idempotency_key) (\<lambda>(written, db'). Inr (written, False, db')))))"

end
