(* ===== verification/Settlement_Laws.thy ===== *)
theory Settlement_Laws
  imports Settlement
begin

text \<open>
  What applying a payment keeps: the limits on both sides, the running totals against the ledger,
  the accounts it moves money through, and the answer a retry gets.
\<close>

subsection \<open>Pass one\<close>

definition line_key :: "apply_line \<Rightarrow> target_key" where
  "line_key l = (al_type l, al_id l)"

definition checked_line :: "db \<Rightarrow> uuid \<Rightarrow> row \<Rightarrow> row \<times> apply_line \<Rightarrow> bool" where
  "checked_line db t payment = (\<lambda>(r, l). CENT \<le> \<bar>al_amount l\<bar> \<and>
     \<not> (al_type l = Settle_Payment \<and> al_id l = row_id payment) \<and>
     resolve_settlement_target db t (al_type l) (al_id l) = Inr r \<and>
     check_target db t payment (al_type l) r = Inr () \<and> check_invoice_item db t r l = Inr ())"

definition pass_ok :: "db \<Rightarrow> uuid \<Rightarrow> row \<Rightarrow> pass_one \<Rightarrow> bool" where
  "pass_ok db t payment st \<longleftrightarrow> list_all (checked_line db t payment) (p1_resolved st) \<and>
     (\<forall>(r, l) \<in> set (p1_resolved st). map_of (p1_rows st) (line_key l) = Some r) \<and>
     (\<forall>k r. map_of (p1_rows st) k = Some r \<longrightarrow> resolve_settlement_target db t (fst k) (snd k) = Inr r) \<and>
     p1_deltas st = dict_sums line_key al_amount (map snd (p1_resolved st)) []"

lemma check_line_ok:
  assumes ok: "pass_ok db t payment st" and step: "check_line db t payment st l = Inr st'"
  shows "pass_ok db t payment st' \<and> map snd (p1_resolved st') = map snd (p1_resolved st) @ [l]"
proof -
  from step obtain r where
    r: "(case map_of (p1_rows st) (line_key l) of
           Some r \<Rightarrow> Inr r | None \<Rightarrow> resolve_settlement_target db t (al_type l) (al_id l)) = Inr r"
    and checks: "CENT \<le> \<bar>al_amount l\<bar>" "\<not> (al_type l = Settle_Payment \<and> al_id l = row_id payment)"
      "check_target db t payment (al_type l) r = Inr ()" "check_invoice_item db t r l = Inr ()"
    and st': "st' = \<lparr>p1_rows = (if map_of (p1_rows st) (line_key l) = None then p1_rows st @ [(line_key l, r)] else p1_rows st),
      p1_deltas = dict_add (line_key l) (al_amount l) (p1_deltas st), p1_resolved = p1_resolved st @ [(r, l)]\<rparr>"
    by (auto simp: check_line_def Let_def result_simps line_key_def not_less)
  have res: "resolve_settlement_target db t (al_type l) (al_id l) = Inr r"
  proof (cases "map_of (p1_rows st) (line_key l)")
    case None
    with r show ?thesis by simp
  next
    case (Some r')
    with ok have "resolve_settlement_target db t (fst (line_key l)) (snd (line_key l)) = Inr r'"
      unfolding pass_ok_def by blast
    with r Some show ?thesis by (simp add: line_key_def)
  qed
  have new: "map_of (p1_rows st') (line_key l) = Some r"
    using r by (auto simp: st' map_add_def split: option.splits)
  have old: "map_of (p1_rows st') k = Some x" if "map_of (p1_rows st) k = Some x" for k x
    using that by (auto simp: st' map_add_def split: option.splits)
  have rows: "resolve_settlement_target db t (fst k) (snd k) = Inr x" if "map_of (p1_rows st') k = Some x" for k x
    using that ok res by (auto simp: st' pass_ok_def line_key_def map_add_def split: option.splits if_splits)
  have deltas: "p1_deltas st' = dict_sums line_key al_amount (map snd (p1_resolved st')) []"
    using ok by (simp add: st' pass_ok_def dict_sums_snoc)
  have "list_all (checked_line db t payment) (p1_resolved st')"
    using ok checks res by (simp add: st' pass_ok_def checked_line_def)
  moreover have "\<forall>(r, l) \<in> set (p1_resolved st'). map_of (p1_rows st') (line_key l) = Some r"
    using ok new old by (fastforce simp: st' pass_ok_def)
  ultimately show ?thesis using rows deltas unfolding pass_ok_def by (simp add: st')
qed

lemma check_lines_ok:
  assumes "pass_ok db t payment st" and "foldE (check_line db t payment) st lines = Inr st'"
  shows "pass_ok db t payment st' \<and> map snd (p1_resolved st') = map snd (p1_resolved st) @ lines"
  using assms
proof (induction lines arbitrary: st)
  case (Cons l ls)
  from Cons.prems(2) obtain st1 where 1: "check_line db t payment st l = Inr st1"
    "foldE (check_line db t payment) st1 ls = Inr st'" by (auto simp: result_simps)
  with check_line_ok [OF Cons.prems(1) 1(1)] Cons.IH [of st1] show ?case by simp
qed simp

abbreviation no_lines :: pass_one where
  "no_lines \<equiv> \<lparr>p1_rows = [], p1_deltas = [], p1_resolved = []\<rparr>"

lemma pass_ok_no_lines: "pass_ok db t payment no_lines"
  by (simp add: pass_ok_def)

lemma checked_target:
  assumes "checked_line db t payment (r, l)"
  obtains i where "db_uuid_in db (al_id l) = Some i" "row_id r = i"
    "get_row db (tg_model (SETTLEMENT_TARGETS (al_type l))) i = Some r" "row_tenant_id r = t"
    "row_deleted_at r = None" "is_visible db r"
  using assms get_row_Some
  by (fastforce simp: checked_line_def resolve_settlement_target_def result_simps get_scoped_or_404_Inr
      split: option.splits)

text \<open>Ids written the way the database prints them (which is never empty).\<close>

definition printed_ids :: "(string \<Rightarrow> uuid option) \<Rightarrow> apply_line list \<Rightarrow> bool" where
  "printed_ids uin lines \<longleftrightarrow> list_all (\<lambda>l. al_id l \<noteq> [] \<and> uin (al_id l) \<in> {None, Some (al_id l)}) lines"

lemma printed_target:
  assumes "checked_line db t payment (r, l)" and "db_uuid_in db (al_id l) \<in> {None, Some (al_id l)}"
  shows "row_id r = al_id l \<and> get_row db (tg_model (SETTLEMENT_TARGETS (al_type l))) (al_id l) = Some r \<and>
    row_tenant_id r = t \<and> row_deleted_at r = None \<and> is_visible db r \<and> db_uuid_in db (al_id l) = Some (al_id l)"
  using assms(1) by (rule checked_target) (use assms(2) in auto)

subsection \<open>An accepted new application\<close>

lemma apply_newE:
  assumes "apply_new db a payment lines key = Inr (written, db')"
    and "get_row db Payment (row_id payment) = Some payment" and "row_tenant_id payment = ac_tenant_id a"
  obtains st where "pass_ok db (ac_tenant_id a) payment st" "map snd (p1_resolved st) = lines"
    "p1_deltas st = dict_sums line_key al_amount lines []"
    "- CENT \<le> row_applied_amount payment + sum_list (map al_amount lines)"
    "row_applied_amount payment + sum_list (map al_amount lines) \<le> row_amount payment + CENT"
    "\<forall>d \<in> set (p1_deltas st). check_delta db payment (p1_rows st) d = Inr ()"
    "write_applications db a payment key st (row_applied_amount payment + sum_list (map al_amount lines)) = Inr (written, db')"
proof -
  have "row_model payment = Payment" using get_row_Some assms(2) by blast
  then have [simp]: "relocked db (ac_tenant_id a) payment = payment"
    using relocked_get_row [OF _ assms(3), of db Payment "row_id payment"] assms(2) by simp
  from assms(1) obtain st where
    st: "foldE (check_line db (ac_tenant_id a) payment) no_lines lines = Inr st"
    and *: "\<not> row_applied_amount payment + sum_list (map snd (p1_deltas st)) < - CENT"
    "\<not> row_amount payment + CENT < row_applied_amount payment + sum_list (map snd (p1_deltas st))"
    "\<forall>d \<in> set (p1_deltas st). check_delta db payment (p1_rows st) d = Inr ()"
    "write_applications db a payment key st (row_applied_amount payment + sum_list (map snd (p1_deltas st))) = Inr (written, db')"
    by (auto simp: apply_new_def result_simps Let_def)
  have ok: "pass_ok db (ac_tenant_id a) payment st" and lines: "map snd (p1_resolved st) = lines"
    using check_lines_ok [OF pass_ok_no_lines st] by simp_all
  have deltas: "p1_deltas st = dict_sums line_key al_amount lines []" using ok lines by (simp add: pass_ok_def)
  have "sum_list (map snd (p1_deltas st)) = sum_list (map al_amount lines)" by (simp add: deltas total_dict_sums)
  with * ok lines deltas show ?thesis by (intro that) (simp_all add: not_less)
qed

subsection \<open>What the writes leave alone\<close>

definition same_row :: "row \<Rightarrow> row \<Rightarrow> bool" where
  "same_row r r' \<longleftrightarrow> (\<exists>x y. r' = r\<lparr>row_applied_amount := x, row_balance := y\<rparr>)"

definition same_but_totals :: "db \<Rightarrow> db \<Rightarrow> bool" where
  "same_but_totals db db' \<longleftrightarrow> db_actor db' = db_actor db \<and> db_definitions db' = db_definitions db \<and>
     db_lines db' = db_lines db \<and> db_todos db' = db_todos db \<and> db_approvals db' = db_approvals db \<and>
     db_uuid_in db' = db_uuid_in db \<and> db_uuids db' = db_uuids db \<and>
     (\<forall>m i. rel_option same_row (get_row db m i) (get_row db' m i))"

lemma same_row_refl: "same_row r r"
proof -
  have "r = r\<lparr>row_applied_amount := row_applied_amount r, row_balance := row_balance r\<rparr>" by simp
  then show ?thesis unfolding same_row_def by blast
qed

lemma same_row_trans: "same_row r s \<Longrightarrow> same_row s t \<Longrightarrow> same_row r t"
  by (force simp: same_row_def)

lemma same_but_totals_refl: "same_but_totals db db"
  by (simp add: same_but_totals_def option.rel_refl same_row_refl)

lemma same_but_totals_trans: "same_but_totals db db1 \<Longrightarrow> same_but_totals db1 db2 \<Longrightarrow> same_but_totals db db2"
proof -
  assume 1: "same_but_totals db db1" and 2: "same_but_totals db1 db2"
  have "rel_option same_row (get_row db m i) (get_row db2 m i)" for m i
  proof -
    have "rel_option same_row (get_row db m i) (get_row db1 m i)"
      "rel_option same_row (get_row db1 m i) (get_row db2 m i)"
      using 1 2 by (simp_all add: same_but_totals_def)
    then show ?thesis by (auto simp: option_rel_Some1 elim: same_row_trans elim!: option.rel_cases)
  qed
  with 1 2 show ?thesis by (simp add: same_but_totals_def)
qed

lemma set_row_same_but_totals:
  assumes "keeps_key f" and "\<And>r. same_row r (f r)"
  shows "same_but_totals db (set_row m i f db)"
proof -
  have "rel_option same_row (get_row db m' i') (get_row (set_row m i f db) m' i')" for m' i'
    using assms by (cases "get_row db m' i'") (auto simp: get_row_set_row same_row_refl)
  then show ?thesis by (simp add: same_but_totals_def store_simps)
qed

lemma keeps_add_applied [simp]: "keeps_key (add_applied d)" "same_row r (add_applied d r)"
proof -
  show "keeps_key (add_applied d)" by (simp add: keeps_key_def add_applied_def)
  have "add_applied d r = r\<lparr>row_applied_amount := round2 (row_applied_amount r + d), row_balance := row_balance r\<rparr>"
    by (simp add: add_applied_def)
  then show "same_row r (add_applied d r)" unfolding same_row_def by blast
qed

lemma keeps_applied [simp]: "keeps_key (\<lambda>r. r\<lparr>row_applied_amount := b\<rparr>)" "same_row r (r\<lparr>row_applied_amount := b\<rparr>)"
  "same_row r (r\<lparr>row_balance := c\<rparr>)"
proof -
  show "keeps_key (\<lambda>r. r\<lparr>row_applied_amount := b\<rparr>)" by (simp add: keeps_key_def)
  have "r\<lparr>row_applied_amount := b\<rparr> = r\<lparr>row_applied_amount := b, row_balance := row_balance r\<rparr>"
    "r\<lparr>row_balance := c\<rparr> = r\<lparr>row_applied_amount := row_applied_amount r, row_balance := c\<rparr>" by simp_all
  then show "same_row r (r\<lparr>row_applied_amount := b\<rparr>)" "same_row r (r\<lparr>row_balance := c\<rparr>)"
    unfolding same_row_def by blast+
qed

definition frame :: "db \<Rightarrow> db \<Rightarrow> bool" where
  "frame db db' \<longleftrightarrow> same_but_totals db db' \<and> db_applications db' = db_applications db"

lemma frame_refl: "frame db db"
  by (simp add: frame_def same_but_totals_refl)

lemma frame_trans: "frame db db1 \<Longrightarrow> frame db1 db2 \<Longrightarrow> frame db db2"
  by (auto simp: frame_def intro: same_but_totals_trans)

lemma frame_record_audit: "frame db (record_audit t w ty i wh db)"
  by (simp add: frame_def same_but_totals_def store_simps option.rel_refl same_row_refl)

lemma frame_post:
  "frame db (record_audit t w ty j wh (set_row BillingAccount i (\<lambda>r. r\<lparr>row_balance := after\<rparr>)
      (db\<lparr>db_entries := es, db_next := n\<rparr>)))"
proof -
  have "same_but_totals (db\<lparr>db_entries := es, db_next := n\<rparr>)
      (set_row BillingAccount i (\<lambda>r. r\<lparr>row_balance := after\<rparr>) (db\<lparr>db_entries := es, db_next := n\<rparr>))"
    by (rule set_row_same_but_totals) simp_all
  then show ?thesis by (simp add: frame_def same_but_totals_def store_simps)
qed

text \<open>Nothing a reader's clause looks at has changed, so what resolved still resolves.\<close>

lemma same_row_visible:
  assumes "same_but_totals db db'" and "same_row r r'"
  shows "is_visible db' r' = is_visible db r"
proof -
  have "routed db' a ts i = routed db a ts i" for a ts i
    using assms(1) by (simp add: same_but_totals_def routed_def)
  moreover from assms(2) obtain x y where "r' = r\<lparr>row_applied_amount := x, row_balance := y\<rparr>"
    by (auto simp: same_row_def)
  ultimately show ?thesis
    using assms(1)
    by (simp add: same_but_totals_def is_visible_def document_clause_def family_clause_def shared_clause_def
        own_column_def scope_value_def cong: option.case_cong)
qed

lemma same_resolves:
  assumes "same_but_totals db db'" and "resolve_settlement_target db t kind s = Inr r"
  obtains r' where "resolve_settlement_target db' t kind s = Inr r'" "same_row r r'"
proof -
  from assms(2) obtain i where i: "db_uuid_in db s = Some i"
    "get_row db (tg_model (SETTLEMENT_TARGETS kind)) i = Some r" "row_tenant_id r = t" "is_visible db r" "row_deleted_at r = None"
    by (auto simp: resolve_settlement_target_def result_simps get_scoped_or_404_Inr split: option.splits)
  have "rel_option same_row (get_row db (tg_model (SETTLEMENT_TARGETS kind)) i) (get_row db' (tg_model (SETTLEMENT_TARGETS kind)) i)"
    using assms(1) by (simp add: same_but_totals_def)
  with i(2) obtain r' where r': "get_row db' (tg_model (SETTLEMENT_TARGETS kind)) i = Some r'" "same_row r r'"
    by (auto simp: option_rel_Some1)
  then have "is_visible db' r'" "row_tenant_id r' = t" "row_deleted_at r' = None"
    using same_row_visible [OF assms(1) r'(2)] i by (auto simp: same_row_def)
  with r' i(1) assms(1) have "resolve_settlement_target db' t kind s = Inr r'"
    by (simp add: resolve_settlement_target_def same_but_totals_def get_scoped_or_404_def)
  with r'(2) show ?thesis by (rule that [rotated])
qed

subsection \<open>Moving the totals\<close>

definition applied_total :: "db \<Rightarrow> model \<times> uuid \<Rightarrow> money" where
  "applied_total db = (\<lambda>(m, i). case get_row db m i of None \<Rightarrow> 0 | Some r \<Rightarrow> row_applied_amount r)"

lemma tg_model_inject [simp]:
  "tg_model (SETTLEMENT_TARGETS k) = tg_model (SETTLEMENT_TARGETS k') \<longleftrightarrow> k = k'"
  by (cases k; cases k') simp_all

lemma tg_model_values [simp]:
  "tg_model (SETTLEMENT_TARGETS k) = Payment \<longleftrightarrow> k = Settle_Payment"
  "tg_model (SETTLEMENT_TARGETS k) = BillingAccount \<longleftrightarrow> k = Settle_Billing_Account"
  "Payment = tg_model (SETTLEMENT_TARGETS k) \<longleftrightarrow> k = Settle_Payment"
  "BillingAccount = tg_model (SETTLEMENT_TARGETS k) \<longleftrightarrow> k = Settle_Billing_Account"
  by (cases k; simp)+

text \<open>The posting a payment makes on an account.\<close>

definition settlement_entry :: "row \<Rightarrow> (row \<times> apply_line) list \<Rightarrow> money \<Rightarrow> entry_line" where
  "settlement_entry payment resolved signed = \<lparr>el_amount = signed,
     el_reason = (if 0 < signed then ''deposit''
                  else if list_ex (\<lambda>(_, line). al_type line \<noteq> Settle_Billing_Account) resolved then ''charge''
                  else ''refund''),
     el_entity_type = Some ''payment'', el_entity_id = Some (row_id payment), el_expires_at = None\<rparr>"

lemma move_totalE:
  assumes "move_total stored a payment rows resolved db ((kind, s), d) = Inr db'"
    and "get_row stored (tg_model (SETTLEMENT_TARGETS kind)) s = Some (the (map_of rows (kind, s)))"
  obtains (document) "kind \<noteq> Settle_Billing_Account"
      "db' = set_row (tg_model (SETTLEMENT_TARGETS kind)) s (add_applied d) db"
  | (account) written where "kind = Settle_Billing_Account"
      "post_account_entries stored db a (the (map_of rows (kind, s)))
         [settlement_entry payment resolved (d * tg_effect_sign (SETTLEMENT_TARGETS kind) payment (the (map_of rows (kind, s))))]
         False = Inr (written, db')"
proof (cases "kind = Settle_Billing_Account")
  case True
  with assms(1) obtain written where
    "post_account_entries stored db a (the (map_of rows (kind, s)))
       [settlement_entry payment resolved (d * tg_effect_sign (SETTLEMENT_TARGETS kind) payment (the (map_of rows (kind, s))))]
       False = Inr (written, db')"
    unfolding move_total_def settlement_entry_def by (auto simp: Let_def result_simps)
  with True show ?thesis by (rule account)
next
  case False
  moreover have "row_id (the (map_of rows (kind, s))) = s" using get_row_Some [OF assms(2)] by blast
  ultimately show ?thesis using assms(1) by (intro document) (auto simp: move_total_def Let_def)
qed

text \<open>The rows pass one resolved, as the deltas name them.\<close>

definition targets_at :: "db \<Rightarrow> uuid \<Rightarrow> (target_key \<times> row) list \<Rightarrow> (target_key \<times> money) list \<Rightarrow> bool" where
  "targets_at stored t rows ds \<longleftrightarrow> (\<forall>((kind, s), d) \<in> set ds.
     get_row stored (tg_model (SETTLEMENT_TARGETS kind)) s = Some (the (map_of rows (kind, s))) \<and>
     row_tenant_id (the (map_of rows (kind, s))) = t \<and> in_cents d)"

lemma post_applied_total:
  "applied_total (record_audit t w ty j wh (set_row BillingAccount i (\<lambda>r. r\<lparr>row_balance := after\<rparr>)
      (db\<lparr>db_entries := es, db_next := n\<rparr>))) = applied_total db"
  by (rule ext) (auto simp: applied_total_def post_get_row split: option.splits)

lemma post_frame:
  assumes "post_account_entries stored db a account lines c = Inr (written, db')"
    and "get_row stored BillingAccount i = Some account" and "row_tenant_id account = ac_tenant_id a"
  shows "frame db db' \<and> applied_total db' = applied_total db"
  using assms by (rule post_account_entriesE) (simp only: frame_post post_applied_total simp_thms)

lemma move_total_frame:
  assumes "move_total stored a payment rows resolved db ((kind, s), d) = Inr db'"
    and "get_row stored (tg_model (SETTLEMENT_TARGETS kind)) s = Some (the (map_of rows (kind, s)))"
    and "row_tenant_id (the (map_of rows (kind, s))) = ac_tenant_id a"
  shows "frame db db'"
  using assms(1,2)
proof (cases rule: move_totalE)
  case document
  then show ?thesis by (simp add: frame_def set_row_same_but_totals store_simps)
next
  case (account written)
  with assms(2) have "get_row stored BillingAccount s = Some (the (map_of rows (kind, s)))" by simp
  with post_frame account(2) assms(3) show ?thesis by blast
qed

lemma move_totals_frame:
  assumes "foldE (move_total stored a payment rows resolved) db ds = Inr db'"
    and "targets_at stored (ac_tenant_id a) rows ds"
  shows "frame db db'"
  using assms
proof (induction ds arbitrary: db)
  case Nil
  then show ?case by (simp add: frame_refl)
next
  case (Cons x ds)
  obtain kind s d where x: "x = ((kind, s), d)" by (cases x) auto
  from Cons.prems(1) obtain db1 where 1: "move_total stored a payment rows resolved db x = Inr db1"
    "foldE (move_total stored a payment rows resolved) db1 ds = Inr db'" by (auto simp: result_simps)
  have "frame db db1" using Cons.prems(2) move_total_frame [OF 1(1) [unfolded x]] by (simp add: targets_at_def x)
  moreover have "frame db1 db'" using Cons.IH [OF 1(2)] Cons.prems(2) by (simp add: targets_at_def)
  ultimately show ?case by (rule frame_trans)
qed

lemma frame_row: "frame db db' \<Longrightarrow> get_row db m i = None \<longleftrightarrow> get_row db' m i = None"
  by (auto simp: frame_def same_but_totals_def rel_option_iff split: option.splits dest!: spec [of _ m] spec [of _ i])

definition cents_totals :: "db \<Rightarrow> bool" where
  "cents_totals db \<longleftrightarrow> (\<forall>m i. in_cents (applied_total db (m, i)))"

lemma move_total_applied:
  assumes "move_total stored a payment rows resolved db ((kind, s), d) = Inr db'"
    and "targets_at stored (ac_tenant_id a) rows [((kind, s), d)]"
    and "get_row db (tg_model (SETTLEMENT_TARGETS kind)) s \<noteq> None" and "cents_totals db"
  shows "applied_total db' (m, i) = applied_total db (m, i) +
    (if kind \<noteq> Settle_Billing_Account \<and> m = tg_model (SETTLEMENT_TARGETS kind) \<and> i = s then d else 0)"
proof -
  have stored: "get_row stored (tg_model (SETTLEMENT_TARGETS kind)) s = Some (the (map_of rows (kind, s)))"
    and t: "row_tenant_id (the (map_of rows (kind, s))) = ac_tenant_id a" and d: "in_cents d"
    using assms(2) by (simp_all add: targets_at_def)
  from assms(1) stored show ?thesis
  proof (cases rule: move_totalE)
    case document
    have "in_cents (applied_total db (tg_model (SETTLEMENT_TARGETS kind), s) + d)"
      using assms(4) d by (auto simp: cents_totals_def)
    then show ?thesis using document assms(3)
      by (auto simp: applied_total_def get_row_set_row add_applied_def round2_id split: option.splits)
  next
    case (account written)
    with stored have "get_row stored BillingAccount s = Some (the (map_of rows (kind, s)))" by simp
    with post_frame account(2) t have "applied_total db' = applied_total db" by blast
    with account(1) show ?thesis by simp
  qed
qed

lemma move_totals_applied:
  assumes "foldE (move_total stored a payment rows resolved) db ds = Inr db'"
    and "targets_at stored (ac_tenant_id a) rows ds" and "distinct (map fst ds)" and "cents_totals db"
    and "\<forall>((kind, s), d) \<in> set ds. get_row db (tg_model (SETTLEMENT_TARGETS kind)) s \<noteq> None"
  shows "cents_totals db' \<and>
    (\<forall>kind s. applied_total db' (tg_model (SETTLEMENT_TARGETS kind), s) =
       applied_total db (tg_model (SETTLEMENT_TARGETS kind), s) +
       (if kind = Settle_Billing_Account then 0 else dict_value ds (kind, s))) \<and>
    (\<forall>m i. (\<forall>kind. tg_model (SETTLEMENT_TARGETS kind) \<noteq> m) \<longrightarrow> applied_total db' (m, i) = applied_total db (m, i))"
  using assms
proof (induction ds arbitrary: db)
  case (Cons x ds)
  obtain k z d where x: "x = ((k, z), d)" by (cases x) auto
  from Cons.prems(1) obtain db1 where 1: "move_total stored a payment rows resolved db x = Inr db1"
    "foldE (move_total stored a payment rows resolved) db1 ds = Inr db'" by (auto simp: result_simps)
  have at: "targets_at stored (ac_tenant_id a) rows [((k, z), d)]" "targets_at stored (ac_tenant_id a) rows ds"
    and d: "in_cents d" using Cons.prems(2) by (simp_all add: targets_at_def x)
  have applied: "applied_total db1 (m, i) = applied_total db (m, i) +
      (if k \<noteq> Settle_Billing_Account \<and> m = tg_model (SETTLEMENT_TARGETS k) \<and> i = z then d else 0)" for m i
    using move_total_applied [OF 1(1) [unfolded x] at(1)] Cons.prems(4,5) by (simp add: x)
  have "frame db db1" using move_total_frame [OF 1(1) [unfolded x]] at(1) by (simp add: targets_at_def)
  then have rows1: "\<forall>((kind, s), d) \<in> set ds. get_row db1 (tg_model (SETTLEMENT_TARGETS kind)) s \<noteq> None"
    using Cons.prems(5) frame_row by fastforce
  have cents1: "cents_totals db1" using Cons.prems(4) d by (auto simp: cents_totals_def applied)
  have IH: "cents_totals db'" 
    "\<forall>kind s. applied_total db' (tg_model (SETTLEMENT_TARGETS kind), s) = applied_total db1 (tg_model (SETTLEMENT_TARGETS kind), s) +
       (if kind = Settle_Billing_Account then 0 else dict_value ds (kind, s))"
    "\<forall>m i. (\<forall>kind. tg_model (SETTLEMENT_TARGETS kind) \<noteq> m) \<longrightarrow> applied_total db' (m, i) = applied_total db1 (m, i)"
    using Cons.IH [OF 1(2) at(2) _ cents1 rows1] Cons.prems(3) by simp_all
  have "(k, z) \<notin> fst ` set ds" using Cons.prems(3) x by simp
  then have "dict_value ds (k, z) = 0" by (rule dict_value_absent)
  then show ?case using IH by (auto simp: applied x)
qed simp

subsection \<open>The ledger of applications\<close>

definition points_at :: "model \<times> uuid \<Rightarrow> payment_application \<Rightarrow> bool" where
  "points_at = (\<lambda>(m, i) p. m = Invoice \<and> pa_invoice_id p = Some i \<or> m = ExpenseClaim \<and> pa_expense_claim_id p = Some i \<or>
     m = Payment \<and> pa_to_payment_id p = Some i)"

definition applied_ledger :: "db \<Rightarrow> model \<times> uuid \<Rightarrow> money" where
  "applied_ledger db = (\<lambda>(m, i). sum_where (points_at (m, i)) pa_amount_applied (db_applications db) +
     (if m = Payment then sum_where (\<lambda>p. pa_payment_id p = i) pa_amount_applied (db_applications db) else 0))"

definition line_moves :: "model \<times> uuid \<Rightarrow> apply_line \<Rightarrow> bool" where
  "line_moves = (\<lambda>(m, i) l. al_type l \<noteq> Settle_Billing_Account \<and> tg_model (SETTLEMENT_TARGETS (al_type l)) = m \<and> al_id l = i)"

definition moved_by :: "uuid \<Rightarrow> apply_line list \<Rightarrow> model \<times> uuid \<Rightarrow> money" where
  "moved_by payment_id lines = (\<lambda>(m, i). sum_where (line_moves (m, i)) al_amount lines +
     (if m = Payment \<and> i = payment_id then sum_list (map al_amount lines) else 0))"

definition cents_lines :: "apply_line list \<Rightarrow> bool" where
  "cents_lines lines \<longleftrightarrow> list_all (\<lambda>l. in_cents (al_amount l)) lines"

lemma points_at_application:
  "row_id r = al_id l \<Longrightarrow> points_at (m, i) (application_of_line db a pid key n (r, l)) \<longleftrightarrow> line_moves (m, i) l"
  by (cases "al_type l") (auto simp: points_at_def application_of_line_def line_moves_def Let_def)

lemma written_ledger:
  assumes "\<forall>(r, l) \<in> set resolved. row_id r = al_id l" and "cents_lines (map snd resolved)"
  shows "sum_where (points_at (m, i)) pa_amount_applied (applications_of_lines db a pid key resolved) =
      sum_where (line_moves (m, i)) al_amount (map snd resolved)"
    and "sum_where (\<lambda>p. pa_payment_id p = i) pa_amount_applied (applications_of_lines db a pid key resolved) =
      (if i = pid then sum_list (map al_amount (map snd resolved)) else 0)"
proof -
  have amount: "pa_amount_applied (application_of_line db a k key n (r, l)) = al_amount l"
    "pa_payment_id (application_of_line db a k key n (r, l)) = k" if "in_cents (al_amount l)" for n r l k
    using that by (simp_all add: application_of_line_def Let_def column_cents_def quantize_half_up_id)
  have "sum_where (points_at (m, i)) pa_amount_applied
      (map (\<lambda>(seq, x). application_of_line db a pid key seq x) (List.enumerate n resolved)) =
    sum_where (line_moves (m, i)) al_amount (map snd resolved)" for n
    using assms by (induction resolved arbitrary: n) (auto simp: cents_lines_def points_at_application amount)
  moreover have "sum_where (\<lambda>p. pa_payment_id p = i) pa_amount_applied
      (map (\<lambda>(seq, x). application_of_line db a pid key seq x) (List.enumerate n resolved)) =
    (if i = pid then sum_list (map al_amount (map snd resolved)) else 0)" for n
    using assms by (induction resolved arbitrary: n) (auto simp: cents_lines_def amount)
  ultimately show "sum_where (points_at (m, i)) pa_amount_applied (applications_of_lines db a pid key resolved) =
      sum_where (line_moves (m, i)) al_amount (map snd resolved)"
    "sum_where (\<lambda>p. pa_payment_id p = i) pa_amount_applied (applications_of_lines db a pid key resolved) =
      (if i = pid then sum_list (map al_amount (map snd resolved)) else 0)"
    by (simp_all add: applications_of_lines_def)
qed

lemma in_cents_sum_where: "\<forall>x \<in> set xs. in_cents (f x) \<Longrightarrow> in_cents (sum_where p f xs)"
  by (induction xs) auto

lemma pass_targets:
  assumes ok: "pass_ok db t payment st" and lines: "map snd (p1_resolved st) = lines"
    and printed: "printed_ids (db_uuid_in db) lines" and cents: "cents_lines lines"
  shows "targets_at db t (p1_rows st) (p1_deltas st)" and "\<forall>(r, l) \<in> set (p1_resolved st). row_id r = al_id l"
    and "(Settle_Payment, row_id payment) \<notin> fst ` set (p1_deltas st)"
    and "distinct (map fst (p1_deltas st))"
proof -
  have deltas: "p1_deltas st = dict_sums line_key al_amount lines []" using ok lines by (simp add: pass_ok_def)
  then show dist: "distinct (map fst (p1_deltas st))" by (simp add: distinct_dict_sums)
  have keys: "fst ` set (p1_deltas st) = line_key ` set lines" by (simp add: deltas keys_dict_sums)
  have line: "db_uuid_in db (al_id l) \<in> {None, Some (al_id l)} \<and> checked_line db t payment (r, l) \<and>
      map_of (p1_rows st) (line_key l) = Some r" if "(r, l) \<in> set (p1_resolved st)" for r l
  proof -
    have "l \<in> set lines" using that lines by force
    with that ok printed show ?thesis by (fastforce simp: printed_ids_def pass_ok_def list_all_iff)
  qed
  show "\<forall>(r, l) \<in> set (p1_resolved st). row_id r = al_id l" using line printed_target by fastforce
  show "(Settle_Payment, row_id payment) \<notin> fst ` set (p1_deltas st)"
  proof
    assume "(Settle_Payment, row_id payment) \<in> fst ` set (p1_deltas st)"
    then obtain l where "l \<in> set lines" "line_key l = (Settle_Payment, row_id payment)" unfolding keys by auto
    moreover from this(1) lines obtain r where "(r, l) \<in> set (p1_resolved st)" by force
    ultimately show False using line by (fastforce simp: checked_line_def line_key_def)
  qed
  show "targets_at db t (p1_rows st) (p1_deltas st)"
    unfolding targets_at_def
  proof (clarify, intro conjI)
    fix kind s d assume d: "((kind, s), d) \<in> set (p1_deltas st)"
    then have "(kind, s) \<in> line_key ` set lines" using keys by force
    then obtain l where l: "l \<in> set lines" "line_key l = (kind, s)" by auto
    with lines obtain r where "(r, l) \<in> set (p1_resolved st)" by force
    from line [OF this] l(2) show "get_row db (tg_model (SETTLEMENT_TARGETS kind)) s = Some (the (map_of (p1_rows st) (kind, s)))"
      and "row_tenant_id (the (map_of (p1_rows st) (kind, s))) = t"
      using printed_target by (auto simp: line_key_def)
    have "d = dict_value (p1_deltas st) (kind, s)" using dict_value_mem [OF dist d] by simp
    then have "d = sum_where (\<lambda>l. line_key l = (kind, s)) al_amount lines" by (simp add: deltas value_dict_sums)
    then show "in_cents d" using cents by (simp add: cents_lines_def list_all_iff in_cents_sum_where)
  qed
qed

lemma with_applications_fields [store_simps]:
  "get_row (with_applications w db) m i = get_row db m i" "db_applications (with_applications w db) = db_applications db @ w"
  "db_entries (with_applications w db) = db_entries db" "applied_total (with_applications w db) = applied_total db"
  "db_uuids (with_applications w db) = db_uuids db" "db_uuid_in (with_applications w db) = db_uuid_in db"
  by (simp_all add: with_applications_def get_row_def applied_total_def)

lemma with_applications_same: "same_but_totals db (with_applications w db)"
  by (simp add: same_but_totals_def store_simps option.rel_refl same_row_refl) (simp add: with_applications_def)

lemma set_applied_same: "frame db (record_audit t w ty j wh (set_applied i x db))"
proof -
  have "frame db (set_applied i x db)"
    by (simp add: frame_def set_applied_def set_row_same_but_totals store_simps)
  then show ?thesis using frame_record_audit frame_trans by blast
qed

lemma set_applied_total:
  "get_row db Payment i \<noteq> None \<Longrightarrow> applied_total (record_audit t w ty j wh (set_applied i x db)) (m', i') =
     (if m' = Payment \<and> i' = i then x else applied_total db (m', i'))"
  by (auto simp: applied_total_def set_applied_def store_simps get_row_set_row)

text \<open>The writes of an accepted call: the applications, the targets' totals, the payment's own.\<close>

lemma write_applicationsE:
  assumes "write_applications db a payment key st after = Inr (written, db')"
    and "targets_at db (ac_tenant_id a) (p1_rows st) (p1_deltas st)"
  obtains db2 where "written = applications_of_lines db a (row_id payment) key (p1_resolved st)"
    "foldE (move_total db a payment (p1_rows st) (p1_resolved st)) (with_applications written db) (p1_deltas st) = Inr db2"
    "frame (with_applications written db) db2" "frame db2 db'"
    "db' = record_audit (ac_tenant_id a) ''payment.applied'' ''payment'' (row_id payment) (Some (label a))
       (set_applied (row_id payment) (round2 after) db2)"
proof -
  from assms(1) obtain db2 where "written = applications_of_lines db a (row_id payment) key (p1_resolved st)"
    and fold: "foldE (move_total db a payment (p1_rows st) (p1_resolved st)) (with_applications written db) (p1_deltas st) = Inr db2"
    and "db' = record_audit (ac_tenant_id a) ''payment.applied'' ''payment'' (row_id payment) (Some (label a))
       (set_applied (row_id payment) (round2 after) db2)"
    by (auto simp: write_applications_def Let_def result_simps)
  then show ?thesis using move_totals_frame [OF fold assms(2)] set_applied_same by (intro that) simp_all
qed

text \<open>What the targets' totals move by is what the lines say.\<close>

lemma value_of_deltas:
  assumes "deltas = dict_sums line_key al_amount lines []" and "kind \<noteq> Settle_Billing_Account"
  shows "dict_value deltas (kind, s) = sum_where (line_moves (tg_model (SETTLEMENT_TARGETS kind), s)) al_amount lines"
  unfolding assms(1) value_dict_sums
  using assms(2) by simp (rule sum_where_cong; auto simp: line_key_def line_moves_def)

lemma no_line_moves:
  assumes "\<forall>kind. tg_model (SETTLEMENT_TARGETS kind) = m \<longrightarrow> kind = Settle_Billing_Account"
  shows "sum_where (line_moves (m, i)) al_amount lines = 0"
  using assms by (intro sum_where_none) (auto simp: line_moves_def)

lemma totals_moved:
  assumes fold: "foldE (move_total db a payment rows resolved) (with_applications written db) deltas = Inr db2"
    and at: "targets_at db (ac_tenant_id a) rows deltas" and dist: "distinct (map fst deltas)"
    and cents: "cents_totals db" and deltas: "deltas = dict_sums line_key al_amount lines []"
  shows "cents_totals db2"
    and "applied_total db2 (m, i) = applied_total db (m, i) + sum_where (line_moves (m, i)) al_amount lines"
proof -
  have "cents_totals (with_applications written db)" using cents by (simp add: cents_totals_def store_simps)
  moreover have "\<forall>((kind, s), d) \<in> set deltas. get_row (with_applications written db) (tg_model (SETTLEMENT_TARGETS kind)) s \<noteq> None"
    using at by (fastforce simp: targets_at_def store_simps)
  ultimately have moved: "cents_totals db2"
    "\<forall>kind s. applied_total db2 (tg_model (SETTLEMENT_TARGETS kind), s) = applied_total db (tg_model (SETTLEMENT_TARGETS kind), s) +
       (if kind = Settle_Billing_Account then 0 else dict_value deltas (kind, s))"
    "\<forall>m i. (\<forall>kind. tg_model (SETTLEMENT_TARGETS kind) \<noteq> m) \<longrightarrow> applied_total db2 (m, i) = applied_total db (m, i)"
    using move_totals_applied [OF fold at dist] by (simp_all add: store_simps)
  then show "cents_totals db2" by blast
  show "applied_total db2 (m, i) = applied_total db (m, i) + sum_where (line_moves (m, i)) al_amount lines"
  proof (cases "\<exists>kind. tg_model (SETTLEMENT_TARGETS kind) = m")
    case True
    then obtain kind where m: "m = tg_model (SETTLEMENT_TARGETS kind)" by blast
    show ?thesis
    proof (cases "kind = Settle_Billing_Account")
      case True
      then have "sum_where (line_moves (m, i)) al_amount lines = 0" by (intro no_line_moves) (simp add: m)
      moreover have "applied_total db2 (m, i) = applied_total db (m, i)" using moved(2) [rule_format, of kind i] True m by simp
      ultimately show ?thesis by simp
    next
      case False
      then show ?thesis using moved(2) [rule_format, of kind i] value_of_deltas [OF deltas False, of i] m by simp
    qed
  next
    case False
    then show ?thesis using moved(3) no_line_moves [of m i lines] by simp
  qed
qed

lemma cents_lines_total: "cents_lines lines \<Longrightarrow> in_cents (sum_list (map al_amount lines))"
  by (intro in_cents_sum_list) (auto simp: cents_lines_def list_all_iff)

text \<open>What an accepted new call does to the running totals, the ledger and everything else.\<close>

lemma apply_new_effect:
  assumes new: "apply_new db a payment lines key = Inr (written, db')"
    and payment: "get_row db Payment (row_id payment) = Some payment" "row_tenant_id payment = ac_tenant_id a"
    and printed: "printed_ids (db_uuid_in db) lines" and cents: "cents_lines lines" "cents_totals db"
  shows "db_applications db' = db_applications db @ written" and "same_but_totals db db'" and "cents_totals db'"
    and "applied_total db' (m, i) = applied_total db (m, i) + moved_by (row_id payment) lines (m, i)"
    and "applied_ledger db' (m, i) = applied_ledger db (m, i) + moved_by (row_id payment) lines (m, i)"
proof -
  let ?pid = "row_id payment"
  let ?after = "row_applied_amount payment + sum_list (map al_amount lines)"
  from new payment obtain st where ok: "pass_ok db (ac_tenant_id a) payment st" and lines: "map snd (p1_resolved st) = lines"
    and deltas: "p1_deltas st = dict_sums line_key al_amount lines []"
    and w0: "write_applications db a payment key st ?after = Inr (written, db')" by (rule apply_newE)
  note targets = pass_targets [OF ok lines printed cents(1)]
  from w0 targets(1) obtain db2 where w: "written = applications_of_lines db a ?pid key (p1_resolved st)"
    and fold: "foldE (move_total db a payment (p1_rows st) (p1_resolved st)) (with_applications written db) (p1_deltas st) = Inr db2"
    and frames: "frame (with_applications written db) db2" "frame db2 db'"
    and db': "db' = record_audit (ac_tenant_id a) ''payment.applied'' ''payment'' ?pid (Some (label a))
       (set_applied ?pid (round2 ?after) db2)" by (rule write_applicationsE)
  show "same_but_totals db db'"
    using same_but_totals_trans [OF with_applications_same same_but_totals_trans] frames unfolding frame_def by blast
  show apps: "db_applications db' = db_applications db @ written" using frames by (simp add: frame_def store_simps)
  note moved = totals_moved [OF fold targets(1,4) cents(2) deltas]
  have none_self: "sum_where (line_moves (Payment, ?pid)) al_amount lines = 0"
    using dict_value_absent [OF targets(3)] value_of_deltas [OF deltas, of Settle_Payment ?pid] by simp
  have total_payment: "row_applied_amount payment = applied_total db (Payment, ?pid)"
    using payment by (simp add: applied_total_def)
  have cents_after: "in_cents ?after"
    using cents(2) cents_lines_total [OF cents(1)] by (auto simp: total_payment cents_totals_def)
  have "get_row db2 Payment ?pid \<noteq> None" using frame_row [OF frames(1), of Payment ?pid] payment(1) by (simp add: store_simps)
  then have total': "applied_total db' (m, i) = (if m = Payment \<and> i = ?pid then ?after else applied_total db2 (m, i))" for m i
    by (simp add: db' set_applied_total round2_id [OF cents_after])
  show "applied_total db' (m, i) = applied_total db (m, i) + moved_by ?pid lines (m, i)"
    using none_self total_payment by (simp add: total' moved moved_by_def)
  show "cents_totals db'" using moved(1) cents_after by (simp add: cents_totals_def total')
  show "applied_ledger db' (m, i) = applied_ledger db (m, i) + moved_by ?pid lines (m, i)"
    using written_ledger [OF targets(2)] cents(1) lines
    by (simp add: applied_ledger_def apps w moved_by_def)
qed

subsection \<open>The handler\<close>

definition replay_rows :: "db \<Rightarrow> uuid \<Rightarrow> uuid \<Rightarrow> string option \<Rightarrow> payment_application list" where
  "replay_rows db t payment_id key = (if given key then recorded_under db t payment_id (the key) else [])"

lemma apply_paymentE:
  assumes "apply_payment db a payment_id lines key = Inr (written, replayed, db')"
  obtains payment where "get_row db Payment payment_id = Some payment" "row_id payment = payment_id"
    "row_tenant_id payment = ac_tenant_id a" "has_permission a ''payment.apply'' None"
    "require_settleable db payment = Inr ()"
    "replayed \<longleftrightarrow> replay_rows db (ac_tenant_id a) payment_id key \<noteq> []"
    "replayed \<Longrightarrow> written = replay_rows db (ac_tenant_id a) payment_id key \<and> db' = db \<and>
       map recorded_line written = map requested_line lines"
    "\<not> replayed \<Longrightarrow> apply_new db a payment lines key = Inr (written, db')"
proof -
  from assms obtain payment where *: "get_row db Payment payment_id = Some payment"
    "row_tenant_id payment = ac_tenant_id a" "has_permission a ''payment.apply'' None"
    "require_settleable db payment = Inr ()"
    and rest: "(let replay = (if given key then recorded_under db (ac_tenant_id a) (row_id payment) (the key) else []) in
     if replay \<noteq> [] then
       bindE (ensure_replay_matches (map recorded_line replay) (map requested_line lines)) (\<lambda>_.
       bindE (targets_resolve db (ac_tenant_id a) replay) (\<lambda>_. Inr (replay, True, db)))
     else
       bindE (apply_new db a payment lines key) (\<lambda>(written, db'). Inr (written, False, db'))) = Inr (written, replayed, db')"
    unfolding apply_payment_def bindE_Inr_iff Ex_unit get_active_document_or_404_Inr require_permission_Inr by auto
  have [simp]: "row_id payment = payment_id" using get_row_Some *(1) by blast
  show ?thesis
  proof (cases "replay_rows db (ac_tenant_id a) payment_id key = []")
    case True
    then have "\<not> replayed \<and> apply_new db a payment lines key = Inr (written, db')"
      using rest by (auto simp: replay_rows_def [symmetric] Let_def result_simps)
    with * True show ?thesis by (intro that) simp_all
  next
    case False
    then have "replayed \<and> written = replay_rows db (ac_tenant_id a) payment_id key \<and> db' = db \<and>
        map recorded_line written = map requested_line lines"
      using rest by (auto simp: replay_rows_def [symmetric] Let_def result_simps ensure_replay_matches_def)
    with * False show ?thesis by (intro that) (auto simp del: map_eq_conv)
  qed
qed

type_synonym apply_call = "actor \<times> uuid \<times> apply_line list \<times> string option"

definition settle :: "apply_call \<Rightarrow> db \<Rightarrow> db result" where
  "settle = (\<lambda>(a, payment_id, lines, key) db.
     bindE (apply_payment db a payment_id lines key) (\<lambda>(_, _, db'). Inr db'))"

definition settled_by :: "apply_call \<Rightarrow> db \<Rightarrow> model \<times> uuid \<Rightarrow> money" where
  "settled_by = (\<lambda>(a, payment_id, lines, key) db k.
     if replay_rows db (ac_tenant_id a) payment_id key \<noteq> [] then 0 else moved_by payment_id lines k)"

definition sound_call :: "(string \<Rightarrow> uuid option) \<Rightarrow> apply_call \<Rightarrow> bool" where
  "sound_call uin = (\<lambda>(a, payment_id, lines, key). printed_ids uin lines \<and> cents_lines lines)"

definition sound_totals :: "(string \<Rightarrow> uuid option) \<Rightarrow> db \<Rightarrow> bool" where
  "sound_totals uin db \<longleftrightarrow> db_uuid_in db = uin \<and> cents_totals db"

lemma settle_effect:
  assumes "sound_totals uin s" and "sound_call uin op" and "settle op s = Inr s'"
  shows "applied_total s' k = applied_total s k + settled_by op s k"
    and "applied_ledger s' k = applied_ledger s k + settled_by op s k" and "sound_totals uin s'"
proof -
  obtain a pid lines key m i where op: "op = (a, pid, lines, key)" and k: "k = (m, i)" by (cases op; cases k) auto
  from assms(3) obtain written replayed where ap: "apply_payment s a pid lines key = Inr (written, replayed, s')"
    by (auto simp: settle_def op result_simps)
  from ap obtain payment where p: "get_row s Payment pid = Some payment" "row_id payment = pid"
    "row_tenant_id payment = ac_tenant_id a" "replayed \<longleftrightarrow> replay_rows s (ac_tenant_id a) pid key \<noteq> []"
    "replayed \<Longrightarrow> written = replay_rows s (ac_tenant_id a) pid key \<and> s' = s \<and>
       map recorded_line written = map requested_line lines"
    "\<not> replayed \<Longrightarrow> apply_new s a payment lines key = Inr (written, s')" by (rule apply_paymentE) blast
  have "applied_total s' k = applied_total s k + settled_by op s k \<and>
    applied_ledger s' k = applied_ledger s k + settled_by op s k \<and> sound_totals uin s'"
  proof (cases replayed)
    case True
    with p(4,5) assms(1) show ?thesis by (simp add: settled_by_def op)
  next
    case False
    have "printed_ids (db_uuid_in s) lines" "cents_lines lines" "cents_totals s"
      using assms(1,2) by (simp_all add: sound_call_def sound_totals_def op)
    note effect = apply_new_effect [OF p(6) [OF False] _ p(3) this, unfolded p(2), OF p(1)]
    have "sound_totals uin s'"
      using assms(1) effect(2,3) by (simp add: sound_totals_def same_but_totals_def)
    then show ?thesis using effect(4,5) p(4) False by (simp add: settled_by_def op k)
  qed
  then show "applied_total s' k = applied_total s k + settled_by op s k"
    "applied_ledger s' k = applied_ledger s k + settled_by op s k" "sound_totals uin s'" by blast+
qed

interpretation settlement: running_total applied_total applied_ledger settle settled_by "sound_call uin" "sound_totals uin"
  for uin
  by unfold_locales (use settle_effect in blast)+

subsection \<open>The accounts money moves through\<close>

lemma sound_accounts_same:
  assumes "sound_accounts db" and "\<And>i. get_row db' BillingAccount i = get_row db BillingAccount i"
    and "db_entries db' = db_entries db" and "db_uuids db' = db_uuids db" and "db_next db \<le> db_next db'"
  shows "sound_accounts db'"
  using assms by (auto simp: sound_accounts_def fresh_ids_def sound_account_def account_ledger_def)

lemma post_stored_same:
  assumes "get_row stored BillingAccount i = Some account" and "get_row db BillingAccount i = Some account"
    and "row_tenant_id account = ac_tenant_id a"
  shows "post_account_entries stored db a account lines c = post_account_entries db db a account lines c"
  using relocked_get_row [OF assms(1,3)] relocked_get_row [OF assms(2,3)]
  by (simp add: post_account_entries_def)

lemma post_other_accounts:
  assumes "post_account_entries stored db a account lines c = Inr (written, db')"
    and "get_row stored BillingAccount i = Some account" and "row_tenant_id account = ac_tenant_id a" and "j \<noteq> i"
  shows "get_row db' BillingAccount j = get_row db BillingAccount j"
  using assms(1-3) by (rule post_account_entriesE) (use assms(4) in \<open>simp only: post_get_row if_False simp_thms\<close>)

definition accounts_at :: "db \<Rightarrow> db \<Rightarrow> (target_key \<times> money) list \<Rightarrow> bool" where
  "accounts_at stored db ds \<longleftrightarrow> (\<forall>i. (Settle_Billing_Account, i) \<in> fst ` set ds \<longrightarrow>
     get_row db BillingAccount i = get_row stored BillingAccount i)"

lemma move_total_accounts:
  assumes "move_total stored a payment rows resolved db ((kind, s), d) = Inr db'"
    and "targets_at stored (ac_tenant_id a) rows [((kind, s), d)]" and "sound_accounts db"
    and "accounts_at stored db (((kind, s), d) # ds)" and "(kind, s) \<notin> fst ` set ds"
  shows "sound_accounts db' \<and> accounts_at stored db' ds"
proof -
  have stored: "get_row stored (tg_model (SETTLEMENT_TARGETS kind)) s = Some (the (map_of rows (kind, s)))"
    and t: "row_tenant_id (the (map_of rows (kind, s))) = ac_tenant_id a" and d: "in_cents d"
    using assms(2) by (simp_all add: targets_at_def)
  from assms(1) stored show ?thesis
  proof (cases rule: move_totalE)
    case document
    have same: "get_row db' BillingAccount i = get_row db BillingAccount i" for i
      using document(1) by (auto simp: document(2) get_row_set_row)
    have "sound_accounts db'" using assms(3) same by (rule sound_accounts_same) (simp_all add: document(2) store_simps)
    moreover have "accounts_at stored db' ds" using assms(4) by (simp add: accounts_at_def same)
    ultimately show ?thesis by blast
  next
    case (account written)
    let ?r = "the (map_of rows (kind, s))"
    have 1: "get_row stored BillingAccount s = Some ?r" using stored account(1) by simp
    then have 2: "get_row db BillingAccount s = Some ?r" using assms(4) account(1) by (simp add: accounts_at_def)
    have "in_cents (d * tg_effect_sign (SETTLEMENT_TARGETS kind) payment ?r)" using d account(1) by auto
    then have "lines_in_cents [settlement_entry payment resolved (d * tg_effect_sign (SETTLEMENT_TARGETS kind) payment ?r)]"
      by (simp add: lines_in_cents_def settlement_entry_def)
    then have "sound_accounts db'"
      using post_keeps_accounts [OF assms(3) 2 t] account(2) post_stored_same [OF 1 2 t] by simp
    moreover have "get_row db' BillingAccount j = get_row db BillingAccount j" if "j \<noteq> s" for j
      using post_other_accounts [OF account(2) 1 t that] .
    moreover have "i \<noteq> s" if "(Settle_Billing_Account, i) \<in> fst ` set ds" for i
      using that assms(5) account(1) by blast
    ultimately show ?thesis using assms(4) by (simp add: accounts_at_def)
  qed
qed

lemma move_totals_accounts:
  assumes "foldE (move_total stored a payment rows resolved) db ds = Inr db'"
    and "targets_at stored (ac_tenant_id a) rows ds" and "distinct (map fst ds)" and "sound_accounts db"
    and "accounts_at stored db ds"
  shows "sound_accounts db'"
  using assms
proof (induction ds arbitrary: db)
  case (Cons x ds)
  obtain k z d where x: "x = ((k, z), d)" by (cases x) auto
  from Cons.prems(1) obtain db1 where 1: "move_total stored a payment rows resolved db x = Inr db1"
    "foldE (move_total stored a payment rows resolved) db1 ds = Inr db'" by (auto simp: result_simps)
  have "sound_accounts db1 \<and> accounts_at stored db1 ds"
    using move_total_accounts [OF 1(1) [unfolded x]] Cons.prems by (simp add: x targets_at_def)
  with Cons.IH [OF 1(2)] Cons.prems show ?case by (simp add: targets_at_def)
qed simp

lemma apply_new_accounts:
  assumes new: "apply_new db a payment lines key = Inr (written, db')"
    and payment: "get_row db Payment (row_id payment) = Some payment" "row_tenant_id payment = ac_tenant_id a"
    and printed: "printed_ids (db_uuid_in db) lines" and cents: "cents_lines lines" and sound: "sound_accounts db"
  shows "sound_accounts db'"
proof -
  from new payment obtain st where ok: "pass_ok db (ac_tenant_id a) payment st" and lines: "map snd (p1_resolved st) = lines"
    and w0: "write_applications db a payment key st (row_applied_amount payment + sum_list (map al_amount lines)) = Inr (written, db')"
    by (rule apply_newE)
  note targets = pass_targets [OF ok lines printed cents]
  from w0 targets(1) obtain db2 where
    fold: "foldE (move_total db a payment (p1_rows st) (p1_resolved st)) (with_applications written db) (p1_deltas st) = Inr db2"
    and db': "db' = record_audit (ac_tenant_id a) ''payment.applied'' ''payment'' (row_id payment) (Some (label a))
       (set_applied (row_id payment) (round2 (row_applied_amount payment + sum_list (map al_amount lines))) db2)"
    by (rule write_applicationsE)
  have "sound_accounts (with_applications written db)"
    using sound by (rule sound_accounts_same) (simp_all add: get_row_def with_applications_def)
  moreover have "accounts_at db (with_applications written db) (p1_deltas st)" by (simp add: accounts_at_def store_simps)
  ultimately have "sound_accounts db2" using move_totals_accounts [OF fold targets(1,4)] by blast
  then show ?thesis
    unfolding db' by (rule sound_accounts_same) (simp_all add: store_simps set_applied_def get_row_set_row)
qed

end
