(* ===== verification/Settlement_Limits.thy ===== *)
theory Settlement_Limits
  imports Settlement_Laws
begin

text \<open>
  The properties of settlement: limits, reconciliation, whose money settles what, and retries.
\<close>

subsection \<open>Within the limits\<close>

definition most :: "db \<Rightarrow> settlement_kind \<Rightarrow> row \<Rightarrow> money" where
  "most db kind r = (case snd (tg_bounds (SETTLEMENT_TARGETS kind) db r) of None \<Rightarrow> 0 | Some c \<Rightarrow> c)"

text \<open>Every document that is settled carries between nothing and what it is worth.\<close>

definition settled_within :: "db \<Rightarrow> bool" where
  "settled_within db \<longleftrightarrow> (\<forall>kind i r. kind \<noteq> Settle_Billing_Account \<longrightarrow>
     get_row db (tg_model (SETTLEMENT_TARGETS kind)) i = Some r \<longrightarrow>
     in_cents (most db kind r) \<and> 0 \<le> row_applied_amount r \<and> row_applied_amount r \<le> most db kind r)"

lemma same_most:
  assumes "same_but_totals db db'" and "same_row r r'"
  shows "most db' kind r' = most db kind r"
  using assms
  by (cases kind) (auto simp: same_but_totals_def same_row_def most_def invoice_billed_total_def live_invoice_items_def
      live_lines_def expense_claim_total_def cong: option.case_cong)

lemma check_delta_limits:
  assumes "check_delta db payment rows ((kind, s), d) = Inr ()" and "kind \<noteq> Settle_Billing_Account"
    and "map_of rows (kind, s) = Some r"
  shows "- CENT \<le> row_applied_amount r + d" and "row_applied_amount r + d \<le> most db kind r + CENT"
  using assms by (cases kind; simp add: check_delta_def result_simps most_def Let_def not_less)+

lemma within_exact:
  assumes "in_cents x" and "in_cents c" and "- CENT \<le> x" and "x \<le> c + CENT"
  shows "0 \<le> x \<and> x \<le> c"
  using assms in_cents_le_slack [of x c] in_cents_ge_slack [of x 0] by simp

lemma same_row_of:
  assumes "same_but_totals db db'" and "get_row db' m i = Some r'"
  obtains r where "get_row db m i = Some r" "same_row r r'"
proof -
  from assms(1) have "rel_option same_row (get_row db m i) (get_row db' m i)" by (simp add: same_but_totals_def)
  with assms(2) show ?thesis by (auto simp: option_rel_Some2 intro: that)
qed

lemma deltas_within:
  assumes ok: "pass_ok db t payment st" and at: "targets_at db t (p1_rows st) (p1_deltas st)"
    and dist: "distinct (map fst (p1_deltas st))" and within: "settled_within db"
    and checks: "\<forall>d \<in> set (p1_deltas st). check_delta db payment (p1_rows st) d = Inr ()"
    and kind: "kind \<noteq> Settle_Billing_Account" and r: "get_row db (tg_model (SETTLEMENT_TARGETS kind)) i = Some r"
  shows "- CENT \<le> row_applied_amount r + dict_value (p1_deltas st) (kind, i) \<and>
    row_applied_amount r + dict_value (p1_deltas st) (kind, i) \<le> most db kind r + CENT"
proof (cases "(kind, i) \<in> fst ` set (p1_deltas st)")
  case True
  then obtain d where d: "((kind, i), d) \<in> set (p1_deltas st)" by auto
  have "fst ` set (p1_deltas st) = line_key ` snd ` set (p1_resolved st)"
    using ok by (simp add: pass_ok_def keys_dict_sums)
  with True obtain l rl where "(rl, l) \<in> set (p1_resolved st)" "line_key l = (kind, i)" by force
  then have "map_of (p1_rows st) (kind, i) = Some rl" using ok by (fastforce simp: pass_ok_def)
  with at d r have "map_of (p1_rows st) (kind, i) = Some r" by (fastforce simp: targets_at_def)
  with checks d kind have "- CENT \<le> row_applied_amount r + d" "row_applied_amount r + d \<le> most db kind r + CENT"
    using check_delta_limits by blast+
  with dict_value_mem [OF dist d] show ?thesis by simp
next
  case False
  moreover have "0 \<le> row_applied_amount r" "row_applied_amount r \<le> most db kind r"
    using within kind r by (auto simp: settled_within_def)
  ultimately show ?thesis by (simp add: dict_value_absent CENT_def)
qed

lemma apply_new_within:
  assumes new: "apply_new db a payment lines key = Inr (written, db')"
    and payment: "get_row db Payment (row_id payment) = Some payment" "row_tenant_id payment = ac_tenant_id a"
    and printed: "printed_ids (db_uuid_in db) lines" and cents: "cents_lines lines" "cents_totals db"
    and within: "settled_within db"
  shows "settled_within db'"
proof -
  from new payment obtain st where ok: "pass_ok db (ac_tenant_id a) payment st" and lines: "map snd (p1_resolved st) = lines"
    and deltas: "p1_deltas st = dict_sums line_key al_amount lines []"
    and own: "- CENT \<le> row_applied_amount payment + sum_list (map al_amount lines)"
      "row_applied_amount payment + sum_list (map al_amount lines) \<le> row_amount payment + CENT"
    and checks: "\<forall>d \<in> set (p1_deltas st). check_delta db payment (p1_rows st) d = Inr ()" by (rule apply_newE)
  note targets = pass_targets [OF ok lines printed cents(1)]
  note effect = apply_new_effect [OF new payment printed cents]
  have "in_cents (most db' kind r') \<and> 0 \<le> row_applied_amount r' \<and> row_applied_amount r' \<le> most db' kind r'"
    if kind: "kind \<noteq> Settle_Billing_Account" and r': "get_row db' (tg_model (SETTLEMENT_TARGETS kind)) i = Some r'" for kind i r'
  proof -
    from same_row_of [OF effect(2) r'] obtain r where r: "get_row db (tg_model (SETTLEMENT_TARGETS kind)) i = Some r"
      "same_row r r'" .
    let ?x = "row_applied_amount r + moved_by (row_id payment) lines (tg_model (SETTLEMENT_TARGETS kind), i)"
    have x: "row_applied_amount r' = ?x" using effect(4) [of "tg_model (SETTLEMENT_TARGETS kind)" i] r r'
      by (simp add: applied_total_def)
    have "in_cents (applied_total db' (tg_model (SETTLEMENT_TARGETS kind), i))" using effect(3) by (simp add: cents_totals_def)
    then have x_cents: "in_cents ?x" using r' x by (simp add: applied_total_def)
    have val: "dict_value (p1_deltas st) (kind, i) = sum_where (line_moves (tg_model (SETTLEMENT_TARGETS kind), i)) al_amount lines"
      by (rule value_of_deltas [OF deltas kind])
    have "- CENT \<le> ?x \<and> ?x \<le> most db kind r + CENT"
    proof (cases "kind = Settle_Payment \<and> i = row_id payment")
      case True
      then show ?thesis
        using val dict_value_absent [OF targets(3)] r(1) payment(1) own by (simp add: moved_by_def most_def)
    next
      case False
      then have "moved_by (row_id payment) lines (tg_model (SETTLEMENT_TARGETS kind), i) = dict_value (p1_deltas st) (kind, i)"
        by (auto simp: moved_by_def val)
      then show ?thesis using deltas_within [OF ok targets(1,4) within checks kind r(1)] by simp
    qed
    moreover have "in_cents (most db kind r)" using within kind r(1) by (auto simp: settled_within_def)
    ultimately show ?thesis using within_exact [OF x_cents] by (simp add: same_most [OF effect(2) r(2)] x)
  qed
  then show ?thesis unfolding settled_within_def by blast
qed

lemma settle_within:
  assumes "settle op s = Inr s'" and "sound_totals uin s" and "sound_call uin op" and "settled_within s"
  shows "settled_within s'"
proof -
  obtain a pid lines key where op: "op = (a, pid, lines, key)" by (cases op)
  from assms(1) obtain written replayed where ap: "apply_payment s a pid lines key = Inr (written, replayed, s')"
    by (auto simp: settle_def op result_simps)
  from ap show ?thesis
  proof (rule apply_paymentE)
    fix payment
    assume p: "get_row s Payment pid = Some payment" "row_id payment = pid" "row_tenant_id payment = ac_tenant_id a"
      "replayed \<Longrightarrow> written = replay_rows s (ac_tenant_id a) pid key \<and> s' = s \<and>
         map recorded_line written = map requested_line lines"
      "\<not> replayed \<Longrightarrow> apply_new s a payment lines key = Inr (written, s')"
    have sound: "printed_ids (db_uuid_in s) lines" "cents_lines lines" "cents_totals s"
      using assms(2,3) by (simp_all add: sound_call_def sound_totals_def op)
    show "settled_within s'"
    proof (cases replayed)
      case True
      with p(4) assms(4) show ?thesis by simp
    next
      case False
      with apply_new_within [OF p(5)] p(1,2,3) sound assms(4) show ?thesis by simp
    qed
  qed
qed

text \<open>C1: Whatever sequence of applications and reversals is accepted, as long as the calls spell the ids of what they settle
  as the database prints them (with two spellings of one id in a call the claim is false: \<open>two_spellings_settle_an_invoice_twice\<close>)
  and amounts are whole cents, as the request schema demands: from a state in which every document is settled within what it
  is worth, no document comes to be settled below nothing or beyond it, an invoice within what it bills, a claim within its
  items, a payment (on either side of a netting) within its amount.\<close>

theorem nothing_is_settled_beyond_its_worth:
  assumes "foldE (\<lambda>s call. settle call s) s calls = Inr t" and "sound_totals uin s"
    and "list_all (sound_call uin) calls" and "settled_within s"
  shows "settled_within t"
proof -
  have "sound_totals uin t \<and> settled_within t"
    using assms(1)
  proof (rule foldE_invariant)
    show "sound_totals uin s \<and> settled_within s" using assms by blast
    show "sound_totals uin v' \<and> settled_within v'"
      if "call \<in> set calls" "sound_totals uin v \<and> settled_within v" "settle call v = Inr v'" for v call v'
      using that assms(3) settle_within settlement.ok_commit by (metis list_all_iff)
  qed
  then show ?thesis by blast
qed

text \<open>C10: The running total of every document stays the sum of its rows in the ledger of applications through any history of
  calls, replayed ones included, that spell the ids of what they settle as the database prints them, with amounts in whole
  cents.\<close>

theorem settled_amounts_are_their_ledger:
  assumes "foldE (\<lambda>s call. settle call s) s calls = Inr t" and "sound_totals uin s"
    and "list_all (sound_call uin) calls" and "applied_total s k = applied_ledger s k"
  shows "applied_total t k = applied_ledger t k"
  using settlement.history_reconciles [OF assms(1,2) _ assms(4)] assms(3) by (simp add: list_all_iff)

subsection \<open>Whose money settles what\<close>

text \<open>What makes a payment the money a document was waiting for.\<close>

definition answers_for :: "row \<Rightarrow> settlement_kind \<Rightarrow> row \<Rightarrow> bool" where
  "answers_for payment kind r \<longleftrightarrow>
     row_tenant_id r = row_tenant_id payment \<and> row_deleted_at r = None \<and>
     target_currency kind r = row_currency payment \<and>
     tg_settling_direction (SETTLEMENT_TARGETS kind) r \<in> {None, Some (row_direction payment)} \<and>
     list_all (\<lambda>(its, ours). its r \<in> {None, ours payment}) (tg_counterparty_fields (SETTLEMENT_TARGETS kind)) \<and>
     (if kind = Settle_Billing_Account then row_unit_type r = ''currency'' \<and> row_status r = ''active'' else True)"

lemma checked_answers:
  assumes "checked_line db t payment (r, l)" and "row_tenant_id payment = t"
  shows "answers_for payment (al_type l) r"
  using assms
  by (cases "al_type l"; auto simp: checked_line_def check_target_def answers_for_def result_simps Let_def
      resolve_settlement_target_def get_scoped_or_404_Inr split: option.splits if_splits)

text \<open>C12: Money settles only what it was paid for: every line of an accepted call names a live document of
  the same workspace, in the payment's currency, waiting for money in its direction, that names no other
  party than the payment does; an account takes it only in money and while active.\<close>

theorem money_settles_only_its_own:
  assumes "apply_payment db a payment_id lines key = Inr (written, False, db')"
    and "get_row db Payment payment_id = Some payment" and "l \<in> set lines"
  shows "\<exists>r. resolve_settlement_target db (ac_tenant_id a) (al_type l) (al_id l) = Inr r \<and>
    answers_for payment (al_type l) r"
  using assms(1)
proof (rule apply_paymentE)
  fix p
  assume p: "get_row db Payment payment_id = Some p" "row_id p = payment_id" "row_tenant_id p = ac_tenant_id a"
    and "\<not> False \<Longrightarrow> apply_new db a p lines key = Inr (written, db')"
  then have "apply_new db a p lines key = Inr (written, db')" by simp
  then show ?thesis
  proof (rule apply_newE)
    show "get_row db Payment (row_id p) = Some p" "row_tenant_id p = ac_tenant_id a" using p by simp_all
    fix st
    assume ok: "pass_ok db (ac_tenant_id a) p st" and lines: "map snd (p1_resolved st) = lines"
    from lines assms(3) obtain r where "(r, l) \<in> set (p1_resolved st)" by force
    with ok have "checked_line db (ac_tenant_id a) p (r, l)" by (auto simp: pass_ok_def list_all_iff)
    moreover have "payment = p" using p(1) assms(2) by simp
    ultimately show ?thesis using checked_answers p(3) by (auto simp: checked_line_def)
  qed
qed

subsection \<open>Retries\<close>

lemma written_fields:
  assumes "p \<in> set (applications_of_lines db a pid key resolved)"
  shows "pa_tenant_id p = ac_tenant_id a" and "pa_payment_id p = pid" and "pa_idempotency_key p = key"
  using assms by (auto simp: applications_of_lines_def application_of_line_def Let_def)

lemma written_sorted:
  assumes "given key"
  shows "sort_key (\<lambda>p. (pa_idempotency_seq p, pa_id p)) (applications_of_lines db a pid key resolved) =
    applications_of_lines db a pid key resolved"
proof -
  have seq: "pa_idempotency_seq (application_of_line db a pid key n x) = Some n" for n x
    using assms by (cases x) (simp add: application_of_line_def Let_def)
  have "sorted (map (\<lambda>p. (pa_idempotency_seq p, pa_id p))
      (map (\<lambda>(seq, x). application_of_line db a pid key seq x) (List.enumerate n resolved)))" for n
    by (induction resolved arbitrary: n) (auto simp: seq in_set_enumerate_eq less_eq_prod_def)
  then show ?thesis by (simp add: applications_of_lines_def sort_key_id_if_sorted)
qed

lemma written_recorded:
  assumes "\<forall>(r, l) \<in> set resolved. row_id r = al_id l \<and> al_id l \<noteq> [] \<and> in_cents (al_amount l)"
  shows "map recorded_line (applications_of_lines db a pid key resolved) = map requested_line (map snd resolved)"
proof -
  have line: "recorded_line (application_of_line db a pid key n (r, l)) = requested_line l"
    if "row_id r = al_id l" "al_id l \<noteq> []" "in_cents (al_amount l)" for n r l
    using that by (cases "al_type l") (simp_all add: recorded_line_def requested_line_def application_of_line_def Let_def
        applied_to_type_def applied_to_id_def given_def column_cents_def quantize_half_up_id)
  have "map recorded_line (map (\<lambda>(seq, x). application_of_line db a pid key seq x) (List.enumerate n resolved)) =
      map requested_line (map snd resolved)" for n
    using assms by (induction resolved arbitrary: n) (auto simp: line)
  then show ?thesis by (simp add: applications_of_lines_def)
qed

lemma sort_key_Nil_iff: "sort_key f xs = [] \<longleftrightarrow> xs = []"
  by (metis length_0_conv length_sort)

lemma same_settleable:
  assumes "same_but_totals db db'" and "same_row r r'"
  shows "require_settleable db' r' = require_settleable db r"
  using assms by (auto simp: require_settleable_def same_but_totals_def same_row_def)

lemma pass_lines:
  assumes ok: "pass_ok db t payment st" and lines: "map snd (p1_resolved st) = lines"
    and printed: "printed_ids (db_uuid_in db) lines" and cents: "cents_lines lines"
    and mem: "(r, l) \<in> set (p1_resolved st)"
  shows "row_id r = al_id l" and "al_id l \<noteq> []" and "in_cents (al_amount l)" and "checked_line db t payment (r, l)"
proof -
  have "l \<in> set lines" using mem lines by force
  then show "al_id l \<noteq> []" "in_cents (al_amount l)" using printed cents by (auto simp: printed_ids_def cents_lines_def list_all_iff)
  show "checked_line db t payment (r, l)" using ok mem by (auto simp: pass_ok_def list_all_iff)
  show "row_id r = al_id l" using pass_targets(2) [OF ok lines printed cents] mem by blast
qed

lemma targets_still_resolve:
  assumes same: "same_but_totals db db'"
    and here: "\<And>p. p \<in> set written \<Longrightarrow>
      \<exists>i r. applied_to_id p = Some i \<and> resolve_settlement_target db t (applied_to_type p) i = Inr r"
  shows "targets_resolve db' t written = Inr ()"
  unfolding targets_resolve_def each_Inr_iff
proof
  fix p assume "p \<in> set written"
  with here obtain i r where "applied_to_id p = Some i" "resolve_settlement_target db t (applied_to_type p) i = Inr r" by blast
  moreover from same_resolves [OF same this(2)] obtain r' where
    "resolve_settlement_target db' t (applied_to_type p) i = Inr r'" .
  ultimately show "(case applied_to_id p of None \<Rightarrow> Inl (HttpError 404 ''not_found'')
      | Some i \<Rightarrow> bindE (resolve_settlement_target db' t (applied_to_type p) i) (\<lambda>_. Inr ())) = Inr ()" by simp
qed

text \<open>The rows a new call wrote, read back under its key.\<close>

lemma apply_new_recorded:
  assumes new: "apply_new db a payment lines key = Inr (written, db')"
    and payment: "get_row db Payment (row_id payment) = Some payment" "row_tenant_id payment = ac_tenant_id a"
    and printed: "printed_ids (db_uuid_in db) lines" and cents: "cents_lines lines" "cents_totals db"
    and fresh: "replay_rows db (ac_tenant_id a) (row_id payment) key = []" and key: "given key"
  shows "replay_rows db' (ac_tenant_id a) (row_id payment) key = written"
    and "map recorded_line written = map requested_line lines"
    and "targets_resolve db' (ac_tenant_id a) written = Inr ()"
proof -
  let ?t = "ac_tenant_id a" and ?pid = "row_id payment"
  from new payment obtain st where ok: "pass_ok db ?t payment st" and lines: "map snd (p1_resolved st) = lines"
    and w0: "write_applications db a payment key st (row_applied_amount payment + sum_list (map al_amount lines)) = Inr (written, db')"
    by (rule apply_newE)
  note targets = pass_targets [OF ok lines printed cents(1)]
  note effect = apply_new_effect [OF new payment printed cents]
  note line = pass_lines [OF ok lines printed cents(1)]
  from w0 targets(1) have w: "written = applications_of_lines db a ?pid key (p1_resolved st)" by (rule write_applicationsE)
  have "\<forall>(r, l) \<in> set (p1_resolved st). row_id r = al_id l \<and> al_id l \<noteq> [] \<and> in_cents (al_amount l)"
    using line(1-3) by blast
  from written_recorded [OF this] show rec: "map recorded_line written = map requested_line lines" by (simp add: w lines)
  obtain k where k: "key = Some k" using key by (auto simp: given_def split: option.splits)
  have "filter (\<lambda>p. pa_tenant_id p = ?t \<and> pa_payment_id p = ?pid \<and> pa_idempotency_key p = Some k) (db_applications db) = []"
    using fresh key by (simp add: replay_rows_def recorded_under_def k sort_key_Nil_iff)
  moreover have "filter (\<lambda>p. pa_tenant_id p = ?t \<and> pa_payment_id p = ?pid \<and> pa_idempotency_key p = Some k) written = written"
    using written_fields by (fastforce simp: w k filter_id_conv)
  ultimately show "replay_rows db' ?t ?pid key = written"
    using written_sorted [OF key] key by (simp add: replay_rows_def recorded_under_def effect(1) k w)
  show "targets_resolve db' ?t written = Inr ()"
  proof (rule targets_still_resolve [OF effect(2)])
    fix p assume "p \<in> set written"
    then have "recorded_line p \<in> set (map recorded_line written)" by simp
    then have "recorded_line p \<in> set (map requested_line (map snd (p1_resolved st)))" unfolding rec lines .
    then obtain r l where rl: "(r, l) \<in> set (p1_resolved st)" "recorded_line p = requested_line l" by auto
    then have "applied_to_type p = al_type l" "applied_to_id p = Some (al_id l)"
      by (simp_all add: recorded_line_def requested_line_def)
    with line(4) [OF rl(1)] show "\<exists>i r. applied_to_id p = Some i \<and> resolve_settlement_target db ?t (applied_to_type p) i = Inr r"
      by (simp add: checked_line_def)
  qed
qed

text \<open>A retry gets the answer of the call it repeats and moves no money: the same request under the same
  key returns the recorded applications and leaves the database as it was, and any other request under
  that key is refused.\<close>

theorem retry_gets_the_same_answer:
  assumes "apply_payment db a payment_id lines (Some key) = Inr (written, False, db')"
    and "key \<noteq> []" and "lines \<noteq> []" and "printed_ids (db_uuid_in db) lines" and "cents_lines lines" and "cents_totals db"
  shows "apply_payment db' a payment_id lines' (Some key) =
    (if map requested_line lines' = map requested_line lines then Inr (written, True, db')
     else Inl (HttpError 409 ''idempotency_key_was_used_for_a_different_request''))"
  using assms(1)
proof (rule apply_paymentE)
  let ?t = "ac_tenant_id a"
  fix p
  assume p: "get_row db Payment payment_id = Some p" "row_id p = payment_id" "row_tenant_id p = ?t"
    "has_permission a ''payment.apply'' None" "require_settleable db p = Inr ()"
    and fresh: "False \<longleftrightarrow> replay_rows db ?t payment_id (Some key) \<noteq> []"
    and "\<not> False \<Longrightarrow> apply_new db a p lines (Some key) = Inr (written, db')"
  then have new: "apply_new db a p lines (Some key) = Inr (written, db')" by simp
  have row: "get_row db Payment (row_id p) = Some p" using p by simp
  have key: "given (Some key)" using assms(2) by (simp add: given_def)
  note effect = apply_new_effect [OF new row p(3) assms(4-6)]
  note rec = apply_new_recorded [OF new row p(3) assms(4-6) _ key]
  have replay: "replay_rows db' ?t payment_id (Some key) = written" "map recorded_line written = map requested_line lines"
    "targets_resolve db' ?t written = Inr ()" using rec p(2) fresh by simp_all
  have "length written = length lines" using arg_cong [OF replay(2), of length] by simp
  then have some: "written \<noteq> []" using assms(3) by auto
  have "get_active_document_or_404 db Payment ?t payment_id = Inr p"
    using assms(1) by (auto simp: apply_payment_def result_simps p(1) get_active_document_or_404_Inr)
  then have visible: "is_visible db p" "row_deleted_at p = None" by (simp_all add: get_active_document_or_404_Inr)
  have "rel_option same_row (get_row db Payment payment_id) (get_row db' Payment payment_id)"
    using effect(2) by (simp add: same_but_totals_def)
  then obtain p' where p': "get_row db' Payment payment_id = Some p'" "same_row p p'"
    using p(1) by (auto simp: option_rel_Some1)
  have "is_visible db' p'" using same_row_visible [OF effect(2) p'(2)] visible by simp
  with p' p(2,3) visible have "get_active_document_or_404 db' Payment ?t payment_id = Inr p'" "row_id p' = payment_id"
    by (auto simp: get_active_document_or_404_Inr same_row_def)
  moreover have "require_settleable db' p' = Inr ()" using same_settleable [OF effect(2) p'(2)] p(5) by simp
  moreover have "require_permission a ''payment.apply'' None = Inr ()" using p(4) by (simp add: require_permission_Inr)
  ultimately show ?thesis
    using replay some key
    by (simp add: apply_payment_def Let_def ensure_replay_matches_def replay_rows_def)
qed

text \<open>C11: Money settled through billing accounts keeps them reconciled: after any accepted call that spells the ids of what it
  settles as the database prints them, with amounts in whole cents, every account's balance is still the sum of its entries
  and within its credit line.\<close>

theorem settlement_keeps_accounts_reconciled:
  assumes "apply_payment db a payment_id lines key = Inr (written, replayed, db')"
    and "sound_accounts db" and "printed_ids (db_uuid_in db) lines" and "cents_lines lines"
  shows "sound_accounts db'"
  using assms(1)
proof (rule apply_paymentE)
  fix p
  assume p: "get_row db Payment payment_id = Some p" "row_id p = payment_id" "row_tenant_id p = ac_tenant_id a"
    and "replayed \<Longrightarrow> written = replay_rows db (ac_tenant_id a) payment_id key \<and> db' = db \<and>
       map recorded_line written = map requested_line lines"
    and "\<not> replayed \<Longrightarrow> apply_new db a p lines key = Inr (written, db')"
  then show ?thesis
    using assms(2) apply_new_accounts [of db a p lines key written db', OF _ _ p(3) assms(3,4,2)] by (cases replayed) auto
qed

subsection \<open>Locks\<close>

lemma lock_order_set:
  "set (lock_order p keys) = insert (''payments'', p) ((\<lambda>(kind, i). (table_name kind, i)) ` set keys)"
  by (auto simp: lock_order_def)

text \<open>Two calls never wait for each other: the rows both of them lock, they lock in the same order, whichever
  way round payment and targets stand in their requests (a payment of one may be a target of the other).\<close>

theorem calls_lock_in_one_order:
  "filter (\<lambda>x. x \<in> set (lock_order p' keys')) (lock_order p keys) =
   filter (\<lambda>x. x \<in> set (lock_order p keys)) (lock_order p' keys')"
proof (rule sorted_distinct_set_unique)
  have "sorted (lock_order q ks)" "distinct (lock_order q ks)" for q ks by (simp_all add: lock_order_def)
  then show "sorted (filter (\<lambda>x. x \<in> set (lock_order p' keys')) (lock_order p keys))"
    "sorted (filter (\<lambda>x. x \<in> set (lock_order p keys)) (lock_order p' keys'))"
    "distinct (filter (\<lambda>x. x \<in> set (lock_order p' keys')) (lock_order p keys))"
    "distinct (filter (\<lambda>x. x \<in> set (lock_order p keys)) (lock_order p' keys'))"
    by (simp_all add: sorted_wrt_filter)
qed auto

subsection \<open>The two forms of a gate\<close>

text \<open>The payroll gates have one meaning in both their forms: a payment (an invoice) a request can fetch by
  id is one its listing shows, and the other way round.\<close>

theorem payroll_gates_agree:
  "(ensure_payment_visible db a payment = Inr ()) = hide_payroll_payments db a payment \<and>
   (ensure_invoice_visible a invoice = Inr ()) = visible_payroll_filter a invoice"
proof
  show "(ensure_payment_visible db a payment = Inr ()) = hide_payroll_payments db a payment"
    by (cases "own_employee_id a")
      (auto simp: ensure_payment_visible_def hide_payroll_payments_def result_simps)
  show "(ensure_invoice_visible a invoice = Inr ()) = visible_payroll_filter a invoice"
    by (auto simp: ensure_invoice_visible_def may_see_invoice_def visible_payroll_filter_def result_simps)
qed

end
