(* ===== verification/Settlement_Examples.thy ===== *)
theory Settlement_Examples
  imports Settlement_Limits
begin

text \<open>
  Settlement on concrete books: the witnesses of the properties, and the two spellings of one id that
  escape the limits.
\<close>

subsection \<open>Examples\<close>

definition demo_bill :: row where
  "demo_bill = blank_row\<lparr>row_model := Invoice, row_id := ''x'', row_direction := ''sales'', row_status := ''issued'',
     row_customer_id := Some ''c'', row_total_amount := Some 100\<rparr>"

definition demo_receipt :: row where
  "demo_receipt = blank_row\<lparr>row_model := Payment, row_id := ''p'', row_direction := ''inbound'', row_status := ''paid'',
     row_customer_id := Some ''c'', row_amount := 200\<rparr>"

definition demo_books :: db where
  "demo_books = blank_db\<lparr>db_rows := [demo_bill, demo_receipt], db_uuid_in := upper_case_reader, db_next := 3\<rparr>"

definition demo_cashier :: actor where
  "demo_cashier = with_grants [''payment.apply''] blank_actor"

definition demo_line :: "string \<Rightarrow> money \<Rightarrow> apply_line" where
  "demo_line i x = \<lparr>al_type = Settle_Invoice, al_id = i, al_amount = x, al_invoice_item_id = None\<rparr>"

lemma demo_checks:
  "require_permission demo_cashier ''payment.apply'' None = Inr ()"
  "get_active_document_or_404 demo_books Payment ''t'' ''p'' = Inr demo_receipt"
  "require_settleable demo_books demo_receipt = Inr ()"
  "relocked demo_books ''t'' demo_receipt = demo_receipt"
  "row_applied_amount demo_receipt = 0" "row_amount demo_receipt = 200" "row_id demo_receipt = ''p''"
  "row_applied_amount demo_bill = 0" "row_id demo_bill = ''x''" "attributed demo_cashier None = ''user:u''"
  "replay_rows demo_books ''t'' ''p'' (Some ''k'') = []"
  by (code_simp | rule is_ok_projr)+

lemma demo_resolves:
  "resolve_settlement_target demo_books ''t'' Settle_Invoice ''x'' = Inr demo_bill"
  "resolve_settlement_target demo_books ''t'' Settle_Invoice ''X'' = Inr demo_bill"
  by code_simp+

lemma demo_target:
  "check_target demo_books ''t'' demo_receipt Settle_Invoice demo_bill = Inr ()"
  "get_row demo_books Invoice ''x'' = Some demo_bill" "get_row demo_books Payment ''p'' = Some demo_receipt"
  "row_total_amount demo_bill = Some 100" "ac_tenant_id demo_cashier = ''t''" "row_tenant_id demo_receipt = ''t''"
  by code_simp+

lemma demo_cents: "round2 100 = 100" "round2 200 = 200" "round2 60 = 60" "column_cents 60 = 60"
  by code_simp+

lemmas demo_apply = apply_payment_def apply_new_def check_line_def demo_line_def CENT_def given_def demo_checks
  demo_resolves demo_target check_invoice_item_def check_delta_def each_def most_def invoice_billed_total_def
  write_applications_def move_total_def set_applied_def Let_def

lemmas demo_replay = demo_checks(11) [unfolded replay_rows_def given_def, simplified]

text \<open>The limit holds only for ids written the way the database prints them. Named once in lower and once in
  upper case, an invoice of 100 is settled twice in one request: the lines are kept apart by the string
  the caller wrote, so each is checked against the whole of what is outstanding, and both move the same row.\<close>

theorem two_spellings_settle_an_invoice_twice:
  "\<exists>written db'. apply_payment demo_books demo_cashier ''p'' [demo_line ''x'' 100, demo_line ''X'' 100] (Some ''k'') =
     Inr (written, False, db') \<and>
     applied_total db' (Invoice, ''x'') = 200 \<and> most demo_books Settle_Invoice demo_bill = 100"
  by (simp cong: bindE_weak_cong add: demo_apply demo_replay applied_total_def store_simps get_row_set_row
      add_applied_def demo_cents)

subsection \<open>Witnesses\<close>

lemma demo_settled:
  "\<exists>written db'. apply_payment demo_books demo_cashier ''p'' [demo_line ''x'' 60] (Some ''k'') = Inr (written, False, db') \<and>
     applied_total db' (Invoice, ''x'') = 60"
  by (simp cong: bindE_weak_cong add: demo_apply demo_replay applied_total_def store_simps get_row_set_row
      add_applied_def demo_cents)

definition demo_call :: apply_call where
  "demo_call = (demo_cashier, ''p'', [demo_line ''x'' 60], Some ''k'')"

lemma demo_settles:
  obtains t where "foldE (\<lambda>s call. settle call s) demo_books [demo_call] = Inr t" "applied_total t (Invoice, ''x'') = 60"
  using demo_settled by (auto simp: settle_def demo_call_def)

lemma demo_books_rows:
  "get_row demo_books m i = (if m = Invoice \<and> i = ''x'' then Some demo_bill
     else if m = Payment \<and> i = ''p'' then Some demo_receipt else None)"
  by (auto simp: demo_books_def get_row_def demo_bill_def demo_receipt_def blank_row_def)

lemma demo_sound:
  "sound_totals upper_case_reader demo_books" "sound_call upper_case_reader demo_call"
  "printed_ids (db_uuid_in demo_books) [demo_line ''x'' 60]" "cents_lines [demo_line ''x'' 60]" "cents_totals demo_books"
proof -
  show cents: "cents_totals demo_books"
    by (auto simp: cents_totals_def applied_total_def demo_books_rows demo_checks)
  have [simp]: "db_uuid_in demo_books = upper_case_reader" by (simp add: demo_books_def)
  show "cents_lines [demo_line ''x'' 60]" "printed_ids (db_uuid_in demo_books) [demo_line ''x'' 60]"
    by (simp_all add: cents_lines_def printed_ids_def demo_line_def upper_case_reader_def in_cents_def)
  then show "sound_totals upper_case_reader demo_books" "sound_call upper_case_reader demo_call"
    using cents by (simp_all add: sound_totals_def sound_call_def demo_call_def)
qed

lemma demo_within: "settled_within demo_books"
proof -
  have "kind \<noteq> Settle_Billing_Account \<Longrightarrow> get_row demo_books (tg_model (SETTLEMENT_TARGETS kind)) i = Some r \<Longrightarrow>
      in_cents (most demo_books kind r) \<and> 0 \<le> row_applied_amount r \<and> row_applied_amount r \<le> most demo_books kind r" for kind i r
    by (cases kind) (auto simp: demo_books_rows most_def demo_checks demo_target invoice_billed_total_def in_cents_def
        split: if_splits)
  then show ?thesis unfolding settled_within_def by blast
qed

theorem nothing_is_settled_beyond_its_worth_witness:
  "\<exists>t. foldE (\<lambda>s call. settle call s) demo_books [demo_call] = Inr t \<and> settled_within t \<and>
     applied_total t (Invoice, ''x'') = 60"
proof -
  obtain t where t: "foldE (\<lambda>s call. settle call s) demo_books [demo_call] = Inr t" "applied_total t (Invoice, ''x'') = 60"
    by (rule demo_settles)
  have "list_all (sound_call upper_case_reader) [demo_call]" using demo_sound(2) by simp
  from nothing_is_settled_beyond_its_worth [OF t(1) demo_sound(1) this demo_within] t show ?thesis by blast
qed

theorem settled_amounts_are_their_ledger_witness:
  "\<exists>t. foldE (\<lambda>s call. settle call s) demo_books [demo_call] = Inr t \<and> applied_ledger t (Invoice, ''x'') = 60"
proof -
  obtain t where t: "foldE (\<lambda>s call. settle call s) demo_books [demo_call] = Inr t" "applied_total t (Invoice, ''x'') = 60"
    by (rule demo_settles)
  have "list_all (sound_call upper_case_reader) [demo_call]" using demo_sound(2) by simp
  moreover have "applied_total demo_books (Invoice, ''x'') = applied_ledger demo_books (Invoice, ''x'')"
    by (simp add: applied_total_def applied_ledger_def demo_books_rows demo_checks) (simp add: demo_books_def blank_db_def)
  ultimately show ?thesis using settled_amounts_are_their_ledger [OF t(1) demo_sound(1)] t by metis
qed

theorem money_settles_only_its_own_witness:
  "\<exists>r. resolve_settlement_target demo_books ''t'' Settle_Invoice ''x'' = Inr r \<and> answers_for demo_receipt Settle_Invoice r"
proof -
  obtain written db' where "apply_payment demo_books demo_cashier ''p'' [demo_line ''x'' 60] (Some ''k'') = Inr (written, False, db')"
    using demo_settled by blast
  from money_settles_only_its_own [OF this demo_target(3), of "demo_line ''x'' 60"] show ?thesis
    by (simp add: demo_line_def demo_target)
qed

theorem retry_gets_the_same_answer_witness:
  "\<exists>written db'. apply_payment demo_books demo_cashier ''p'' [demo_line ''x'' 60] (Some ''k'') = Inr (written, False, db') \<and>
     apply_payment db' demo_cashier ''p'' [demo_line ''x'' 60] (Some ''k'') = Inr (written, True, db')"
proof -
  obtain written db' where 1: "apply_payment demo_books demo_cashier ''p'' [demo_line ''x'' 60] (Some ''k'') = Inr (written, False, db')"
    using demo_settled by blast
  from retry_gets_the_same_answer [OF this _ _ demo_sound(3-5), of "[demo_line ''x'' 60]"] 1 show ?thesis by simp
qed

theorem settlement_keeps_accounts_reconciled_witness:
  "\<exists>written db'. apply_payment demo_books demo_cashier ''p'' [demo_line ''x'' 60] (Some ''k'') = Inr (written, False, db') \<and>
     sound_accounts db'"
proof -
  obtain written db' where 1: "apply_payment demo_books demo_cashier ''p'' [demo_line ''x'' 60] (Some ''k'') = Inr (written, False, db')"
    using demo_settled by blast
  have "inj (\<lambda>n. replicate n CHR ''x'')" by (auto intro: injI dest: arg_cong [where f = length])
  then have "sound_accounts demo_books"
    by (simp add: sound_accounts_def fresh_ids_def demo_books_rows) (simp add: demo_books_def blank_db_def)
  from settlement_keeps_accounts_reconciled [OF 1 this demo_sound(3,4)] 1 show ?thesis by blast
qed

end
