(* ===== verification/Idempotency.thy ===== *)
theory Idempotency
  imports Text_Ops
begin

text \<open>
  \<open>app/core/idempotency.py\<close>: the middleware that lets a retried write run once.

  Times are whole seconds. \<open>claim\<close>, \<open>settle\<close>, \<open>abandon\<close> and \<open>forget\<close> each run on the event loop without
  interruption, so each is one step. The digests are functions of the request handed in as their values
  (\<open>scope\<close>, \<open>fingerprint\<close>); the ASGI plumbing and the response headers are not modelled.
\<close>

definition KEY_MAX_LENGTH :: nat where "KEY_MAX_LENGTH = 200"
definition RETENTION :: timestamp where "RETENTION = 24 * 60 * 60"
definition IN_FLIGHT_GRACE :: timestamp where "IN_FLIGHT_GRACE = 5 * 60"
definition PURGE_INTERVAL :: timestamp where "PURGE_INTERVAL = 60"
definition WRITE_METHODS :: "string list" where "WRITE_METHODS = [''POST'', ''PUT'', ''PATCH'', ''DELETE'']"
definition API_PREFIX :: string where "API_PREFIX = ''/api/v1''"
definition SESSION_COOKIE :: string where "SESSION_COOKIE = ''oryh_session''"

subsection \<open>Which requests take part\<close>

text \<open>\<open>str.isprintable\<close> on header text, which is decoded as Latin-1.\<close>

definition printable :: "char \<Rightarrow> bool" where
  "printable c = (let n = of_char c :: nat in 32 \<le> n \<and> n \<le> 126 \<or> 161 \<le> n \<and> n \<noteq> 173)"

definition valid_key :: "string \<Rightarrow> bool" where
  "valid_key key \<longleftrightarrow> key \<noteq> [] \<and> length key \<le> KEY_MAX_LENGTH \<and> list_all printable key"

definition header_value :: "(string \<times> string) list \<Rightarrow> string \<Rightarrow> string" where
  "header_value headers name = dict_get headers name []"

fun cookie_session :: "string list \<Rightarrow> string option" where
  "cookie_session [] = None"
| "cookie_session (part # parts) =
     (case partition_at CHR ''='' (strip part) of
        (name, _, value) \<Rightarrow> if name = SESSION_COOKIE \<and> value \<noteq> [] then Some value else cookie_session parts)"

definition credential :: "(string \<times> string) list \<Rightarrow> string option" where
  "credential headers =
     (if header_value headers ''x-api-key'' \<noteq> [] then Some (''key:'' @ strip (header_value headers ''x-api-key''))
      else let auth = header_value headers ''authorization'' in
        if startswith (lower auth) ''bearer '' then Some (''bearer:'' @ strip (drop 7 auth))
        else map_option (\<lambda>s. ''session:'' @ s)
               (cookie_session (split_on CHR '';'' (header_value headers ''cookie''))))"

datatype entry = Pass_Through | Invalid_Key | Claims string string

text \<open>What \<open>__call__\<close> does with a request before claiming: the credential and the key it would claim.\<close>

definition entry_of :: "string \<Rightarrow> string \<Rightarrow> (string \<times> string) list \<Rightarrow> entry" where
  "entry_of http_method path headers =
     (if http_method \<notin> set WRITE_METHODS \<or> \<not> startswith path (API_PREFIX @ ''/'') then Pass_Through
      else case map_of headers ''idempotency-key'' of
        None \<Rightarrow> Pass_Through
      | Some raw \<Rightarrow>
          let key = strip raw in
          if \<not> valid_key key then Invalid_Key
          else case credential headers of None \<Rightarrow> Pass_Through | Some c \<Rightarrow> Claims c key)"

subsection \<open>Claims and answers\<close>

record idem_record =
  ir_id :: nat
  ir_scope_hash :: string
  ir_key :: string
  ir_fingerprint :: string
  ir_created_at :: timestamp
  ir_status_code :: "nat option"
  ir_response_body :: "string option"
  ir_completed_at :: "timestamp option"

record idem_store =
  is_records :: "idem_record list"
  is_last_purge :: "timestamp option"
  is_next :: nat

datatype verdict = Run nat | Replay idem_record | Refuse nat string

definition delete_records :: "(idem_record \<Rightarrow> bool) \<Rightarrow> idem_store \<Rightarrow> idem_store" where
  "delete_records p st = st\<lparr>is_records := filter (\<lambda>r. \<not> p r) (is_records st)\<rparr>"

definition purge :: "timestamp \<Rightarrow> idem_store \<Rightarrow> idem_store" where
  "purge now st =
     (if (case is_last_purge st of None \<Rightarrow> True | Some l \<Rightarrow> PURGE_INTERVAL \<le> now - l)
      then (delete_records (\<lambda>r. ir_created_at r < now - RETENTION) st)\<lparr>is_last_purge := Some now\<rparr>
      else st)"

definition claimed_by :: "string \<Rightarrow> string \<Rightarrow> idem_store \<Rightarrow> idem_record option" where
  "claimed_by scope_hash key st = find_row (\<lambda>r. ir_scope_hash r = scope_hash \<and> ir_key r = key) (is_records st)"

definition add_claim :: "timestamp \<Rightarrow> string \<Rightarrow> string \<Rightarrow> string \<Rightarrow> idem_store \<Rightarrow> idem_store" where
  "add_claim now scope_hash key fingerprint st =
     st\<lparr>is_records := is_records st @ [\<lparr>ir_id = is_next st, ir_scope_hash = scope_hash, ir_key = key,
          ir_fingerprint = fingerprint, ir_created_at = now, ir_status_code = None, ir_response_body = None,
          ir_completed_at = None\<rparr>], is_next := Suc (is_next st)\<rparr>"

definition judge :: "timestamp \<Rightarrow> string \<Rightarrow> idem_record \<Rightarrow> verdict" where
  "judge now fingerprint r =
     (if ir_completed_at r = None then
        if now - IN_FLIGHT_GRACE < ir_created_at r then Refuse 409 ''still_being_processed''
        else if ir_fingerprint r \<noteq> fingerprint then Refuse 422 ''idempotency_key_reused''
        else Refuse 409 ''unresolved''
      else if ir_fingerprint r \<noteq> fingerprint then Refuse 422 ''idempotency_key_reused''
      else Replay r)"

definition claim :: "timestamp \<Rightarrow> idem_store \<Rightarrow> string \<Rightarrow> string \<Rightarrow> string \<Rightarrow> verdict \<times> idem_store" where
  "claim now st0 scope_hash key fingerprint =
     (let st = purge now st0 in
      case claimed_by scope_hash key st of
        None \<Rightarrow> (Run (is_next st), add_claim now scope_hash key fingerprint st)
      | Some r \<Rightarrow>
          if ir_created_at r < now - RETENTION then
            (Run (is_next st), add_claim now scope_hash key fingerprint (delete_records (\<lambda>x. ir_id x = ir_id r) st))
          else (judge now fingerprint r, st))"

definition forget :: "nat \<Rightarrow> idem_store \<Rightarrow> idem_store" where
  "forget record_id = delete_records (\<lambda>r. ir_id r = record_id)"

definition set_record :: "nat \<Rightarrow> (idem_record \<Rightarrow> idem_record) \<Rightarrow> idem_store \<Rightarrow> idem_store" where
  "set_record record_id f st = st\<lparr>is_records := update_rows (\<lambda>r. ir_id r = record_id) f (is_records st)\<rparr>"

definition abandon :: "timestamp \<Rightarrow> nat \<Rightarrow> bool \<Rightarrow> idem_store \<Rightarrow> idem_store" where
  "abandon now record_id commits st =
     (if \<not> commits then forget record_id st
      else set_record record_id (\<lambda>r. r\<lparr>ir_created_at := now - IN_FLIGHT_GRACE - 1\<rparr>) st)"

text \<open>An answer: its status, whether the handler marked it \<open>Idempotency-Replayable: false\<close>, and its body as
  text (\<open>None\<close> when the bytes are not UTF-8).\<close>

record answer =
  an_status :: "nat option"
  an_no_store :: bool
  an_text :: "string option"

definition NOT_REPLAYABLE :: string where
  "NOT_REPLAYABLE = ''the first attempt completed, but its answer is not kept for replay''"

definition kept_answer :: "answer \<Rightarrow> nat \<times> string" where
  "kept_answer an =
     (case (if an_no_store an then None else an_text an) of
        None \<Rightarrow> (409, NOT_REPLAYABLE)
      | Some text \<Rightarrow> (the (an_status an), text))"

definition complete_record :: "timestamp \<Rightarrow> nat \<times> string \<Rightarrow> idem_record \<Rightarrow> idem_record" where
  "complete_record now = (\<lambda>(code, text) r.
     r\<lparr>ir_status_code := Some code, ir_response_body := Some text, ir_completed_at := Some now\<rparr>)"

definition server_error :: "answer \<Rightarrow> bool" where
  "server_error an \<longleftrightarrow> (case an_status an of None \<Rightarrow> True | Some s \<Rightarrow> 500 \<le> s)"

definition settle_claim :: "timestamp \<Rightarrow> nat \<Rightarrow> bool \<Rightarrow> answer \<Rightarrow> idem_store \<Rightarrow> idem_store" where
  "settle_claim now record_id commits an st =
     (if server_error an then abandon now record_id commits st
      else set_record record_id (complete_record now (kept_answer an)) st)"

text \<open>Serving a verdict: a replay leaves only for a credential that still authenticates (\<open>regate\<close>).\<close>

datatype served = Runs nat | Served nat string

definition serve :: "(nat \<times> string) option \<Rightarrow> verdict \<Rightarrow> served" where
  "serve regate v =
     (case v of
        Run i \<Rightarrow> Runs i
      | Refuse code why \<Rightarrow> Served code why
      | Replay r \<Rightarrow> (case regate of
            Some (code, why) \<Rightarrow> Served code why
          | None \<Rightarrow> Served (case ir_status_code r of None \<Rightarrow> 0 | Some s \<Rightarrow> s)
                      (case ir_response_body r of None \<Rightarrow> [] | Some b \<Rightarrow> b)))"

subsection \<open>Many requests at once\<close>

text \<open>An attempt is a request the middleware let run: it commits business writes or not, and ends by
  answering, by failing (a 5xx or an exception: \<open>at_failed\<close>), or by its process dying without a word.\<close>

record attempt =
  at_record :: nat
  at_scope_hash :: string
  at_key :: string
  at_claimed_at :: timestamp
  at_committed :: bool
  at_running :: bool
  at_failed :: bool

record world =
  w_now :: timestamp
  w_store :: idem_store
  w_attempts :: "attempt list"

definition new_attempt :: "timestamp \<Rightarrow> nat \<Rightarrow> string \<Rightarrow> string \<Rightarrow> attempt" where
  "new_attempt now i scope_hash key = \<lparr>at_record = i, at_scope_hash = scope_hash, at_key = key, at_claimed_at = now,
     at_committed = False, at_running = True,
     at_failed = False\<rparr>"

definition end_attempt :: "nat \<Rightarrow> bool \<Rightarrow> world \<Rightarrow> world" where
  "end_attempt n failed w =
     w\<lparr>w_attempts := (w_attempts w)[n := (w_attempts w ! n)\<lparr>at_running := False, at_failed := failed\<rparr>]\<rparr>"

inductive serves :: "world \<Rightarrow> world \<Rightarrow> bool" where
  tick: "0 < d \<Longrightarrow> serves w (w\<lparr>w_now := w_now w + d\<rparr>)"
| run: "claim (w_now w) (w_store w) scope_hash key fingerprint = (Run i, st) \<Longrightarrow>
    serves w (w\<lparr>w_store := st, w_attempts := w_attempts w @ [new_attempt (w_now w) i scope_hash key]\<rparr>)"
| turned_away: "claim (w_now w) (w_store w) scope_hash key fingerprint = (v, st) \<Longrightarrow> \<forall>i. v \<noteq> Run i \<Longrightarrow>
    serves w (w\<lparr>w_store := st\<rparr>)"
| commits: "n < length (w_attempts w) \<Longrightarrow> at_running (w_attempts w ! n) \<Longrightarrow>
    serves w (w\<lparr>w_attempts := (w_attempts w)[n := (w_attempts w ! n)\<lparr>at_committed := True\<rparr>]\<rparr>)"
| answers: "n < length (w_attempts w) \<Longrightarrow> at_running (w_attempts w ! n) \<Longrightarrow>
    serves w (end_attempt n (server_error an) (w\<lparr>w_store := settle_claim (w_now w) (at_record (w_attempts w ! n))
      (at_committed (w_attempts w ! n)) an (w_store w)\<rparr>))"
| fails: "n < length (w_attempts w) \<Longrightarrow> at_running (w_attempts w ! n) \<Longrightarrow>
    serves w (end_attempt n True (w\<lparr>w_store := abandon (w_now w) (at_record (w_attempts w ! n))
      (at_committed (w_attempts w ! n)) (w_store w)\<rparr>))"
| dies: "n < length (w_attempts w) \<Longrightarrow> at_running (w_attempts w ! n) \<Longrightarrow> serves w (end_attempt n False w)"

definition fresh_world :: "timestamp \<Rightarrow> world" where
  "fresh_world now = \<lparr>w_now = now, w_store = \<lparr>is_records = [], is_last_purge = None, is_next = 0\<rparr>, w_attempts = []\<rparr>"

subsection \<open>The store between requests\<close>

text \<open>How much earlier than its claim a record may be dated: an attempt that failed after committing dates its record back
  past the grace.\<close>

definition slack :: "attempt \<Rightarrow> timestamp" where
  "slack a = (if at_failed a then IN_FLIGHT_GRACE + 1 else 0)"

definition tidy :: "idem_store \<Rightarrow> bool" where
  "tidy st \<longleftrightarrow> distinct (map ir_id (is_records st)) \<and> (\<forall>r \<in> set (is_records st). ir_id r < is_next st) \<and>
     (\<forall>r \<in> set (is_records st). \<forall>r' \<in> set (is_records st).
        ir_scope_hash r = ir_scope_hash r' \<longrightarrow> ir_key r = ir_key r' \<longrightarrow> r = r')"

definition holds :: "timestamp \<Rightarrow> idem_store \<Rightarrow> attempt \<Rightarrow> bool" where
  "holds now st a \<longleftrightarrow> (now \<le> at_claimed_at a + RETENTION - slack a \<longrightarrow>
     (\<exists>r \<in> set (is_records st). ir_id r = at_record a \<and> ir_scope_hash r = at_scope_hash a \<and> ir_key r = at_key a \<and>
        at_claimed_at a - slack a \<le> ir_created_at r))"

definition live :: "attempt \<Rightarrow> bool" where
  "live a \<longleftrightarrow> at_running a \<or> at_committed a"

lemma delete_records_fields [simp]:
  "is_records (delete_records p st) = filter (\<lambda>r. \<not> p r) (is_records st)" "is_next (delete_records p st) = is_next st"
  by (simp_all add: delete_records_def)

lemma tidy_delete: "tidy st \<Longrightarrow> tidy (delete_records p st)"
  by (auto simp: tidy_def distinct_map_filter)

lemma purge_fields:
  "is_next (purge now st) = is_next st" "tidy st \<Longrightarrow> tidy (purge now st)"
  "r \<in> set (is_records (purge now st)) \<Longrightarrow> r \<in> set (is_records st)"
  "r \<in> set (is_records st) \<Longrightarrow> now - RETENTION \<le> ir_created_at r \<Longrightarrow> r \<in> set (is_records (purge now st))"
proof -
  show "tidy st \<Longrightarrow> tidy (purge now st)" using tidy_delete [of st]
    by (auto simp: purge_def tidy_def split: if_splits)
qed (auto simp: purge_def split: if_splits)

lemma claimed_by_tidy:
  assumes "tidy st" and "r \<in> set (is_records st)" and "ir_scope_hash r = s" and "ir_key r = k"
  shows "claimed_by s k st = Some r"
proof (cases "claimed_by s k st")
  case None
  with assms(2-4) show ?thesis by (auto simp: claimed_by_def find_row_None_iff)
next
  case (Some x)
  then have "x \<in> set (is_records st)" "ir_scope_hash x = s" "ir_key x = k"
    by (auto simp: claimed_by_def dest: find_row_Some)
  with assms Some show ?thesis by (auto simp: tidy_def)
qed

lemma tidy_add_claim:
  assumes "tidy st" and "claimed_by s k st = None"
  shows "tidy (add_claim now s k fp st)"
  using assms by (auto simp: tidy_def add_claim_def claimed_by_def find_row_None_iff)

lemma claimed_by_deleted: "tidy st \<Longrightarrow> claimed_by s k st = Some r \<Longrightarrow> claimed_by s k (delete_records (\<lambda>x. ir_id x = ir_id r) st) = None"
proof -
  assume tidy: "tidy st" and r: "claimed_by s k st = Some r"
  have "x = r" if "x \<in> set (is_records st)" "ir_scope_hash x = s" "ir_key x = k" for x
    using claimed_by_tidy [OF tidy that] r by simp
  then show ?thesis by (auto simp: claimed_by_def find_row_None_iff)
qed

text \<open>A claim that runs: either nobody held the key, or only a claim past its retention.\<close>

lemma claim_Run:
  assumes "claim now st0 s k fp = (Run i, st')" and "tidy st0"
  shows "i = is_next st0" and "is_next st' = Suc (is_next st0)" and "tidy st'"
    and "\<exists>r \<in> set (is_records st'). ir_id r = i \<and> ir_scope_hash r = s \<and> ir_key r = k \<and> ir_created_at r = now"
    and "r \<in> set (is_records st0) \<Longrightarrow> now - RETENTION \<le> ir_created_at r \<Longrightarrow>
           r \<in> set (is_records st') \<and> \<not> (ir_scope_hash r = s \<and> ir_key r = k)"
proof -
  let ?st = "purge now st0"
  have tidy: "tidy ?st" using purge_fields(2) assms(2) by blast
  have *: "i = is_next st0 \<and> is_next st' = Suc (is_next st0) \<and> tidy st' \<and>
    (\<exists>r \<in> set (is_records st'). ir_id r = i \<and> ir_scope_hash r = s \<and> ir_key r = k \<and> ir_created_at r = now) \<and>
    (\<forall>r. r \<in> set (is_records st0) \<longrightarrow> now - RETENTION \<le> ir_created_at r \<longrightarrow>
           r \<in> set (is_records st') \<and> \<not> (ir_scope_hash r = s \<and> ir_key r = k))"
  proof (cases "claimed_by s k ?st")
    case None
    with assms(1) have i: "i = is_next ?st" and st': "st' = add_claim now s k fp ?st"
      by (auto simp: claim_def Let_def)
    have "\<not> (ir_scope_hash r = s \<and> ir_key r = k)" if "r \<in> set (is_records ?st)" for r
      using None that by (auto simp: claimed_by_def find_row_None_iff)
    then show ?thesis using tidy_add_claim [OF tidy None] purge_fields(4)
      by (auto simp: i st' purge_fields(1)) (auto simp: add_claim_def purge_fields(1))
  next
    case (Some x)
    let ?del = "delete_records (\<lambda>y. ir_id y = ir_id x) ?st"
    from Some assms(1) have old: "ir_created_at x < now - RETENTION" and i: "i = is_next ?st"
      and st': "st' = add_claim now s k fp ?del" by (auto simp: claim_def judge_def Let_def split: if_splits)
    have x: "x \<in> set (is_records ?st)" using Some by (auto simp: claimed_by_def dest: find_row_Some)
    have same_id: "y = x" if "y \<in> set (is_records ?st)" "ir_id y = ir_id x" for y
      using tidy x that by (auto simp: tidy_def inj_on_def distinct_map)
    have "r \<in> set (is_records ?del) \<and> \<not> (ir_scope_hash r = s \<and> ir_key r = k)"
      if r: "r \<in> set (is_records st0)" "now - RETENTION \<le> ir_created_at r" for r
    proof -
      have mem: "r \<in> set (is_records ?st)" using purge_fields(4) r by blast
      have "r \<noteq> x" using r(2) old by auto
      then show ?thesis using mem same_id claimed_by_tidy [OF tidy mem] Some by auto
    qed
    then show ?thesis using tidy_add_claim [OF tidy_delete [OF tidy] claimed_by_deleted [OF tidy Some]]
      by (auto simp: i st' purge_fields(1)) (auto simp: add_claim_def purge_fields(1))
  qed
  then show "i = is_next st0" "is_next st' = Suc (is_next st0)" "tidy st'"
    "\<exists>r \<in> set (is_records st'). ir_id r = i \<and> ir_scope_hash r = s \<and> ir_key r = k \<and> ir_created_at r = now" by blast+
  show "r \<in> set (is_records st0) \<Longrightarrow> now - RETENTION \<le> ir_created_at r \<Longrightarrow>
      r \<in> set (is_records st') \<and> \<not> (ir_scope_hash r = s \<and> ir_key r = k)" using * by blast
qed

lemma claim_not_Run:
  assumes "claim now st0 s k fp = (v, st')" and "\<forall>i. v \<noteq> Run i"
  shows "st' = purge now st0"
  using assms by (auto simp: claim_def Let_def split: option.splits if_splits)

text \<open>What ends an attempt touches its own record only, keeps its key, and never dates it further back than
  the grace.\<close>

definition only_own :: "timestamp \<Rightarrow> nat \<Rightarrow> idem_store \<Rightarrow> idem_store \<Rightarrow> bool" where
  "only_own now i st st' \<longleftrightarrow> is_next st' = is_next st \<and> (tidy st \<longrightarrow> tidy st') \<and>
     (\<forall>r \<in> set (is_records st). ir_id r \<noteq> i \<longrightarrow> r \<in> set (is_records st'))"

definition keeps_own :: "bool \<Rightarrow> timestamp \<Rightarrow> nat \<Rightarrow> idem_store \<Rightarrow> idem_store \<Rightarrow> bool" where
  "keeps_own failed now i st st' \<longleftrightarrow> (\<forall>r \<in> set (is_records st). ir_id r = i \<longrightarrow>
     (\<exists>r' \<in> set (is_records st'). ir_id r' = i \<and> ir_scope_hash r' = ir_scope_hash r \<and> ir_key r' = ir_key r \<and>
        (ir_created_at r' = ir_created_at r \<or> failed \<and> ir_created_at r' = now - IN_FLIGHT_GRACE - 1)))"

lemma set_record_own:
  assumes "\<And>r. ir_id (f r) = ir_id r \<and> ir_scope_hash (f r) = ir_scope_hash r \<and> ir_key (f r) = ir_key r"
    and "\<And>r. ir_created_at (f r) = ir_created_at r \<or> failed \<and> ir_created_at (f r) = now - IN_FLIGHT_GRACE - 1"
  shows "only_own now i st (set_record i f st)" and "keeps_own failed now i st (set_record i f st)"
proof -
  have ids: "map ir_id (update_rows (\<lambda>r. ir_id r = i) f rs) = map ir_id rs" for rs
    using assms(1) by (intro map_update_rows_same) simp
  have mem: "x \<in> set (update_rows (\<lambda>r. ir_id r = i) f rs) \<longleftrightarrow>
      (\<exists>r \<in> set rs. x = (if ir_id r = i then f r else r))" for x rs
    by (auto simp: set_update_rows)
  have "tidy (set_record i f st)" if "tidy st"
    using that assms(1) unfolding tidy_def set_record_def by (simp add: ids Ball_def mem) (metis (no_types, lifting))
  then show "only_own now i st (set_record i f st)"
    by (auto simp: only_own_def set_record_def mem)
  show "keeps_own failed now i st (set_record i f st)"
    unfolding keeps_own_def
  proof (intro ballI impI)
    fix r assume "r \<in> set (is_records st)" "ir_id r = i"
    then have "f r \<in> set (is_records (set_record i f st))" by (auto simp: set_record_def mem)
    with assms [of r] \<open>ir_id r = i\<close> show "\<exists>r' \<in> set (is_records (set_record i f st)). ir_id r' = i \<and>
        ir_scope_hash r' = ir_scope_hash r \<and> ir_key r' = ir_key r \<and>
        (ir_created_at r' = ir_created_at r \<or> failed \<and> ir_created_at r' = now - IN_FLIGHT_GRACE - 1)" by metis
  qed
qed

lemma abandon_own:
  "only_own now i st (abandon now i c st)" "c \<Longrightarrow> keeps_own True now i st (abandon now i c st)"
  using set_record_own [of "\<lambda>r. r\<lparr>ir_created_at := now - IN_FLIGHT_GRACE - 1\<rparr>" True now i st]
  by (auto simp: abandon_def forget_def only_own_def tidy_delete)

lemma settle_claim_own:
  "only_own now i st (settle_claim now i c an st)" "c \<Longrightarrow> keeps_own (server_error an) now i st (settle_claim now i c an st)"
  using set_record_own [of "complete_record now (kept_answer an)" False now i st] abandon_own(1) [of now i st c] abandon_own(2) [of c now i st]
  by (auto simp: settle_claim_def complete_record_def split: prod.splits)

subsection \<open>Writing once\<close>

definition same_claim :: "attempt \<Rightarrow> attempt \<Rightarrow> bool" where
  "same_claim a b \<longleftrightarrow> at_scope_hash a = at_scope_hash b \<and> at_key a = at_key b"

definition apart :: "attempt list \<Rightarrow> bool" where
  "apart atts \<longleftrightarrow> (\<forall>m n. m < n \<longrightarrow> n < length atts \<longrightarrow> same_claim (atts ! m) (atts ! n) \<longrightarrow> live (atts ! m) \<longrightarrow>
     at_claimed_at (atts ! m) + RETENTION - slack (atts ! m) < at_claimed_at (atts ! n))"

definition sound_world :: "world \<Rightarrow> bool" where
  "sound_world w \<longleftrightarrow> tidy (w_store w) \<and> distinct (map at_record (w_attempts w)) \<and> apart (w_attempts w) \<and>
     (\<forall>a \<in> set (w_attempts w). (at_running a \<longrightarrow> \<not> at_failed a) \<and> at_record a < is_next (w_store w) \<and> at_claimed_at a \<le> w_now w \<and>
        (live a \<longrightarrow> holds (w_now w) (w_store w) a))"

lemma holds_other:
  "holds now st a \<Longrightarrow> only_own now i st st' \<Longrightarrow> at_record a \<noteq> i \<Longrightarrow> holds now st' a"
  unfolding holds_def only_own_def by fastforce

lemma holds_own:
  assumes "holds now st a" and "keeps_own (at_failed b) now (at_record a) st st'" and "at_claimed_at a \<le> now" and "\<not> at_failed a"
    and b: "at_record b = at_record a" "at_scope_hash b = at_scope_hash a" "at_key b = at_key a" "at_claimed_at b = at_claimed_at a"
  shows "holds now st' b"
  unfolding holds_def
proof
  assume "now \<le> at_claimed_at b + RETENTION - slack b"
  then have "now \<le> at_claimed_at a + RETENTION - slack a" using assms(4) b(4) by (simp add: slack_def IN_FLIGHT_GRACE_def split: if_splits)
  with assms(1) obtain r where r: "r \<in> set (is_records st)" "ir_id r = at_record a" "ir_scope_hash r = at_scope_hash a"
    "ir_key r = at_key a" "at_claimed_at a \<le> ir_created_at r" using assms(4) by (auto simp: holds_def slack_def)
  with assms(2) obtain r' where r': "r' \<in> set (is_records st')" "ir_id r' = at_record a"
    "ir_scope_hash r' = ir_scope_hash r" "ir_key r' = ir_key r"
    "ir_created_at r' = ir_created_at r \<or> at_failed b \<and> ir_created_at r' = now - IN_FLIGHT_GRACE - 1" by (force simp: keeps_own_def)
  have "at_claimed_at b - slack b \<le> ir_created_at r'"
    using r(5) r'(5) assms(3) b(4) by (auto simp: slack_def IN_FLIGHT_GRACE_def)
  with r r' b show "\<exists>r\<in>set (is_records st'). ir_id r = at_record b \<and> ir_scope_hash r = at_scope_hash b \<and>
      ir_key r = at_key b \<and> at_claimed_at b - slack b \<le> ir_created_at r" by auto
qed

text \<open>Changing the flags of a running attempt, and its record, keeps the world sound.\<close>

lemma flag_keeps_sound:
  assumes sound: "sound_world w" and n: "n < length (w_attempts w)" "at_running (w_attempts w ! n)"
    and a': "at_record a' = at_record (w_attempts w ! n)" "at_scope_hash a' = at_scope_hash (w_attempts w ! n)"
      "at_key a' = at_key (w_attempts w ! n)" "at_claimed_at a' = at_claimed_at (w_attempts w ! n)"
    and flags: "at_running a' \<Longrightarrow> \<not> at_failed a'"
    and own: "only_own (w_now w) (at_record (w_attempts w ! n)) (w_store w) st'"
      "live a' \<Longrightarrow> keeps_own (at_failed a') (w_now w) (at_record (w_attempts w ! n)) (w_store w) st'"
  shows "sound_world (w\<lparr>w_store := st', w_attempts := (w_attempts w)[n := a']\<rparr>)"
proof -
  let ?atts = "w_attempts w"
  have nth: "(?atts[n := a']) ! k = (if k = n then a' else ?atts ! k)" if "k < length ?atts" for k
    using that n(1) by auto
  have running: "\<not> at_failed (?atts ! n)" using sound n by (simp add: sound_world_def)
  have slack: "slack (?atts ! n) \<le> slack a'" using running by (simp add: slack_def IN_FLIGHT_GRACE_def)
  have apart: "apart (?atts[n := a'])"
    unfolding apart_def
  proof (intro allI impI)
    fix m k assume m: "m < k" "k < length (?atts[n := a'])" "same_claim (?atts[n := a'] ! m) (?atts[n := a'] ! k)" "live (?atts[n := a'] ! m)"
    then have "same_claim (?atts ! m) (?atts ! k)" "live (?atts ! m)" using n a' by (auto simp: nth same_claim_def live_def split: if_splits)
    with sound m(1,2) have "at_claimed_at (?atts ! m) + RETENTION - slack (?atts ! m) < at_claimed_at (?atts ! k)"
      unfolding sound_world_def apart_def by simp
    with slack a'(4) m(1,2) n(1) show "at_claimed_at (?atts[n := a'] ! m) + RETENTION - slack (?atts[n := a'] ! m) < at_claimed_at (?atts[n := a'] ! k)"
      by (auto simp: nth)
  qed
  have dist: "distinct (map at_record (?atts[n := a']))"
  proof -
    have "map at_record (?atts[n := a']) = (map at_record ?atts)[n := at_record (?atts ! n)]" using a'(1) by (simp add: map_update)
    also have "\<dots> = map at_record ?atts" using n(1) by (metis list_update_id nth_map)
    finally show ?thesis using sound by (simp add: sound_world_def)
  qed
  have each: "(at_running a \<longrightarrow> \<not> at_failed a) \<and> at_record a < is_next st' \<and> at_claimed_at a \<le> w_now w \<and> (live a \<longrightarrow> holds (w_now w) st' a)"
    if "k < length ?atts" "a = (?atts[n := a']) ! k" for k a
  proof (cases "k = n")
    case True
    have old: "holds (w_now w) (w_store w) (?atts ! n)" "at_record (?atts ! n) < is_next (w_store w)"
      "at_claimed_at (?atts ! n) \<le> w_now w" using sound n by (auto simp: sound_world_def live_def)
    have a: "a = a'" using that True n(1) by simp
    have "holds (w_now w) st' a'" if "live a'" using holds_own [OF old(1) own(2) [OF that] old(3) running a'] .
    then show ?thesis using old(2,3) own(1) a' flags unfolding a by (simp add: only_own_def)
  next
    case False
    then have a: "a = ?atts ! k" using that by simp
    have "at_record a \<noteq> at_record (?atts ! n)"
      using sound a that(1) n(1) False by (auto simp: sound_world_def distinct_conv_nth)
    then show ?thesis using sound a that(1) own(1) holds_other nth_mem [OF that(1)] by (auto simp: sound_world_def only_own_def)
  qed
  then have "\<forall>a \<in> set (?atts[n := a']). (at_running a \<longrightarrow> \<not> at_failed a) \<and> at_record a < is_next st' \<and> at_claimed_at a \<le> w_now w \<and>
      (live a \<longrightarrow> holds (w_now w) st' a)" by (metis in_set_conv_nth length_list_update)
  with sound own(1) apart dist show ?thesis by (simp add: sound_world_def only_own_def)
qed

lemma only_own_refl: "only_own now i st st" "keeps_own failed now i st st"
  by (auto simp: only_own_def keeps_own_def)

lemma end_attempt_eq:
  "end_attempt n failed (w\<lparr>w_store := st\<rparr>) =
     w\<lparr>w_store := st, w_attempts := (w_attempts w)[n := (w_attempts w ! n)\<lparr>at_running := False, at_failed := failed\<rparr>]\<rparr>"
  "end_attempt n failed w =
     w\<lparr>w_store := w_store w, w_attempts := (w_attempts w)[n := (w_attempts w ! n)\<lparr>at_running := False, at_failed := failed\<rparr>]\<rparr>"
  by (simp_all add: end_attempt_def)

lemma run_keeps_sound:
  assumes sound: "sound_world w" and claim: "claim (w_now w) (w_store w) s k fp = (Run i, st)"
  shows "sound_world (w\<lparr>w_store := st, w_attempts := w_attempts w @ [new_attempt (w_now w) i s k]\<rparr>)"
proof -
  have "tidy (w_store w)" using sound by (simp add: sound_world_def)
  note run = claim_Run [OF claim this]
  let ?new = "new_attempt (w_now w) i s k"
  have kept: "r \<in> set (is_records st) \<and> \<not> (ir_scope_hash r = s \<and> ir_key r = k)"
    if "a \<in> set (w_attempts w)" "live a" "w_now w \<le> at_claimed_at a + RETENTION - slack a"
      "r \<in> set (is_records (w_store w))" "at_claimed_at a - slack a \<le> ir_created_at r" for a r
    using run(5) [OF that(4)] that(3,5) by simp
  have old: "(at_running a \<longrightarrow> \<not> at_failed a) \<and> at_record a < is_next st \<and> at_claimed_at a \<le> w_now w \<and> (live a \<longrightarrow> holds (w_now w) st a) \<and>
      at_record a \<noteq> i \<and> (live a \<longrightarrow> same_claim a ?new \<longrightarrow> at_claimed_at a + RETENTION - slack a < w_now w)"
    if a: "a \<in> set (w_attempts w)" for a
  proof -
    have b: "at_running a \<longrightarrow> \<not> at_failed a" "at_record a < is_next (w_store w)" "at_claimed_at a \<le> w_now w" "live a \<longrightarrow> holds (w_now w) (w_store w) a"
      using sound a by (auto simp: sound_world_def)
    have "holds (w_now w) st a" if "live a" using b(4) that kept [OF a that] unfolding holds_def by blast
    moreover have "at_claimed_at a + RETENTION - slack a < w_now w" if "live a" "same_claim a ?new"
    proof (rule ccontr)
      assume "\<not> at_claimed_at a + RETENTION - slack a < w_now w"
      with b(4) that(1) obtain r where "r \<in> set (is_records (w_store w))" "ir_scope_hash r = at_scope_hash a"
        "ir_key r = at_key a" "at_claimed_at a - slack a \<le> ir_created_at r" by (auto simp: holds_def)
      with kept [OF a that(1)] \<open>\<not> at_claimed_at a + RETENTION - slack a < w_now w\<close> that(2) show False
        by (auto simp: same_claim_def new_attempt_def)
    qed
    ultimately show ?thesis using b run(1,2) by auto
  qed
  have "holds (w_now w) st ?new" using run(4) by (fastforce simp: holds_def new_attempt_def slack_def)
  then have "\<forall>a \<in> set (w_attempts w @ [?new]). (at_running a \<longrightarrow> \<not> at_failed a) \<and> at_record a < is_next st \<and> at_claimed_at a \<le> w_now w \<and>
      (live a \<longrightarrow> holds (w_now w) st a)" using old run(1,2) by (auto simp: new_attempt_def)
  moreover have "distinct (map at_record (w_attempts w @ [?new]))"
    using sound old by (auto simp: sound_world_def new_attempt_def)
  moreover have "apart (w_attempts w @ [?new])"
    unfolding apart_def
  proof (intro allI impI)
    fix m n assume "m < n" "n < length (w_attempts w @ [?new])"
      and *: "same_claim ((w_attempts w @ [?new]) ! m) ((w_attempts w @ [?new]) ! n)" "live ((w_attempts w @ [?new]) ! m)"
    then have m: "m < length (w_attempts w)" by simp
    show "at_claimed_at ((w_attempts w @ [?new]) ! m) + RETENTION - slack ((w_attempts w @ [?new]) ! m) < at_claimed_at ((w_attempts w @ [?new]) ! n)"
    proof (cases "n < length (w_attempts w)")
      case True
      with sound m * \<open>m < n\<close> show ?thesis by (simp add: nth_append sound_world_def apart_def)
    next
      case False
      then have "(w_attempts w @ [?new]) ! n = ?new" using \<open>n < length (w_attempts w @ [?new])\<close> by (simp add: nth_append)
      with old [OF nth_mem [OF m]] m * show ?thesis by (simp add: nth_append new_attempt_def)
    qed
  qed
  ultimately show ?thesis using run(3) by (simp add: sound_world_def)
qed

lemma purge_keeps_sound: "sound_world w \<Longrightarrow> sound_world (w\<lparr>w_store := purge (w_now w) (w_store w)\<rparr>)"
proof -
  assume sound: "sound_world w"
  have "holds (w_now w) (purge (w_now w) (w_store w)) a" if "holds (w_now w) (w_store w) a" for a
    using that purge_fields(4) unfolding holds_def by fastforce
  with sound purge_fields(1,2) show ?thesis by (simp add: sound_world_def)
qed

lemma tick_keeps_sound: "sound_world w \<Longrightarrow> 0 < d \<Longrightarrow> sound_world (w\<lparr>w_now := w_now w + d\<rparr>)"
  by (fastforce simp: sound_world_def holds_def)

lemma serves_keeps_sound: "serves w w' \<Longrightarrow> sound_world w \<Longrightarrow> sound_world w'"
proof (induction rule: serves.induct)
  case (turned_away w s k fp v st)
  with claim_not_Run purge_keeps_sound show ?case by fastforce
next
  case (commits n w)
  then have "\<not> at_failed (w_attempts w ! n)" by (simp add: sound_world_def)
  with commits show ?case
    using flag_keeps_sound [of w n "(w_attempts w ! n)\<lparr>at_committed := True\<rparr>" "w_store w"] only_own_refl by simp
next
  case (answers n w an)
  then show ?case
    unfolding end_attempt_eq(1) by (intro flag_keeps_sound) (auto simp: live_def settle_claim_own)
next
  case (fails n w)
  then show ?case
    unfolding end_attempt_eq(1) by (intro flag_keeps_sound) (auto simp: live_def abandon_own)
next
  case (dies n w)
  then show ?case
    unfolding end_attempt_eq(2) by (intro flag_keeps_sound) (auto simp: only_own_refl)
qed (simp_all add: tick_keeps_sound run_keeps_sound)

lemma reachable_sound: "serves\<^sup>*\<^sup>* (fresh_world now) w \<Longrightarrow> sound_world w"
proof (induction rule: rtranclp_induct)
  case base
  show ?case by (simp add: fresh_world_def sound_world_def tidy_def apart_def)
qed (rule serves_keeps_sound)

text \<open>C3: A write runs once. However requests, commits, answers, failures, process deaths and the passing of time
  interleave, an attempt under the key and credential of one that committed was claimed more than 24 hours after it; but
  after one that committed and then failed (its record is dated back by the grace and a second), more than 24 hours less
  301 seconds after it.\<close>

theorem a_key_writes_once:
  assumes "serves\<^sup>*\<^sup>* (fresh_world now) w" and "m < n" and "n < length (w_attempts w)"
    and "same_claim (w_attempts w ! m) (w_attempts w ! n)" and "at_committed (w_attempts w ! m)"
  shows "at_claimed_at (w_attempts w ! m) + RETENTION - (if at_failed (w_attempts w ! m) then IN_FLIGHT_GRACE + 1 else 0)
    < at_claimed_at (w_attempts w ! n)"
  using reachable_sound [OF assms(1)] assms(2-5) by (auto simp: sound_world_def apart_def live_def slack_def)

text \<open>A retry hears what the first attempt was told. Within the retention of a claim that was answered below
  500, the same request gets the kept answer (a one-time secret excepted: there it is told so), and any
  other request under the key is refused with 422; nothing runs.\<close>

theorem a_retry_hears_the_first_answer:
  assumes "claim t0 st s k fp = (Run i, st1)" and "tidy st" and "an_status an = Some code" and "code < 500"
    and "now \<le> t0 + RETENTION"
  shows "serve None (fst (claim now (settle_claim t1 i c an st1) s k fp')) =
    (if fp' = fp then Served (fst (kept_answer an)) (snd (kept_answer an)) else Served 422 ''idempotency_key_reused'')"
proof -
  obtain r where r: "r \<in> set (is_records st1)" "ir_id r = i" "ir_scope_hash r = s" "ir_key r = k" "ir_created_at r = t0"
    "ir_fingerprint r = fp"
  proof -
    from claim_Run(4) [OF assms(1,2)] obtain r where r: "r \<in> set (is_records st1)" "ir_id r = i" "ir_scope_hash r = s"
      "ir_key r = k" "ir_created_at r = t0" by blast
    let ?new = "\<lparr>ir_id = i, ir_scope_hash = s, ir_key = k, ir_fingerprint = fp, ir_created_at = t0, ir_status_code = None,
      ir_response_body = None, ir_completed_at = None\<rparr>"
    have "?new \<in> set (is_records st1)"
      using assms(1) claim_Run(1) [OF assms(1,2)]
      by (auto simp: claim_def judge_def Let_def add_claim_def purge_fields(1) split: option.splits if_splits)
    moreover have "distinct (map ir_id (is_records st1))" using claim_Run(3) [OF assms(1,2)] by (simp add: tidy_def)
    ultimately have "r = ?new" using r by (auto simp: distinct_map inj_on_def)
    then show ?thesis using r that by simp
  qed
  let ?st2 = "settle_claim t1 i c an st1" and ?r = "complete_record t1 (kept_answer an) r"
  have st2: "?st2 = set_record i (complete_record t1 (kept_answer an)) st1"
    using assms(3,4) by (simp add: settle_claim_def server_error_def)
  have mem: "?r \<in> set (is_records ?st2)" using r(1,2) by (auto simp: st2 set_record_def set_update_rows)
  have fields: "ir_scope_hash ?r = s" "ir_key ?r = k" "ir_created_at ?r = t0" "ir_fingerprint ?r = fp"
    "ir_completed_at ?r = Some t1" "ir_status_code ?r = Some (fst (kept_answer an))"
    "ir_response_body ?r = Some (snd (kept_answer an))"
    using r by (simp_all add: complete_record_def split: prod.splits)
  have "tidy ?st2" using settle_claim_own(1) [of t1 i st1 c an] claim_Run(3) [OF assms(1,2)] by (simp add: only_own_def)
  moreover have "now - RETENTION \<le> ir_created_at ?r" using fields(3) assms(5) by simp
  ultimately have "claimed_by s k (purge now ?st2) = Some ?r"
    using claimed_by_tidy purge_fields(2,4) mem fields(1,2) by blast
  then show ?thesis using fields assms(5) by (simp add: claim_def judge_def serve_def Let_def)
qed

subsection \<open>Examples\<close>

text \<open>A write claimed at 0 and committed, and the same key a day later.\<close>

lemma demo_two_claims:
  obtains w where "serves\<^sup>*\<^sup>* (fresh_world 0) w" "length (w_attempts w) = 2"
    "same_claim (w_attempts w ! 0) (w_attempts w ! 1)" "at_committed (w_attempts w ! 0)" "\<not> at_failed (w_attempts w ! 0)"
    "at_claimed_at (w_attempts w ! 0) = 0" "at_claimed_at (w_attempts w ! 1) = 86401"
proof -
  let ?r = "\<lparr>ir_id = 0, ir_scope_hash = ''c'', ir_key = ''k'', ir_fingerprint = ''f'', ir_created_at = 0,
    ir_status_code = None, ir_response_body = None, ir_completed_at = None\<rparr>"
  let ?a = "new_attempt 0 0 ''c'' ''k''"
  let ?w1 = "\<lparr>w_now = 0, w_store = \<lparr>is_records = [?r], is_last_purge = Some 0, is_next = 1\<rparr>, w_attempts = [?a]\<rparr>"
  let ?w2 = "?w1\<lparr>w_attempts := [?a\<lparr>at_committed := True\<rparr>]\<rparr>"
  let ?w3 = "?w2\<lparr>w_now := 86401\<rparr>"
  let ?w4 = "?w3\<lparr>w_store := \<lparr>is_records = [?r\<lparr>ir_id := 1, ir_created_at := 86401\<rparr>], is_last_purge = Some 86401, is_next = 2\<rparr>,
    w_attempts := [?a\<lparr>at_committed := True\<rparr>, new_attempt 86401 1 ''c'' ''k'']\<rparr>"
  have "claim 0 (w_store (fresh_world 0)) ''c'' ''k'' ''f'' = (Run 0, w_store ?w1)" by code_simp
  then have "serves (fresh_world 0) ((fresh_world 0)\<lparr>w_store := w_store ?w1, w_attempts := [?a]\<rparr>)"
    using run [of "fresh_world 0"] by (fastforce simp: fresh_world_def)
  then have 1: "serves (fresh_world 0) ?w1" by (simp add: fresh_world_def)
  have 2: "serves ?w1 ?w2" using commits [of 0 ?w1] by (simp add: new_attempt_def)
  have 3: "serves ?w2 ?w3" using tick [of 86401 ?w2] by simp
  have "claim 86401 (w_store ?w3) ''c'' ''k'' ''f'' = (Run 1, w_store ?w4)" by code_simp
  then have 4: "serves ?w3 ?w4" using run [of ?w3 "''c''" "''k''" "''f''" 1 "w_store ?w4"] by simp
  from 1 2 3 4 have "serves\<^sup>*\<^sup>* (fresh_world 0) ?w4" by (meson rtranclp.rtrancl_into_rtrancl rtranclp.rtrancl_refl)
  then show ?thesis by (rule that) (simp_all add: same_claim_def new_attempt_def)
qed

theorem a_key_writes_once_witness:
  "\<exists>w. serves\<^sup>*\<^sup>* (fresh_world 0) w \<and> at_committed (w_attempts w ! 0) \<and>
     \<not> at_failed (w_attempts w ! 0) \<and> at_claimed_at (w_attempts w ! 0) + RETENTION < at_claimed_at (w_attempts w ! 1)"
proof -
  obtain w where w: "serves\<^sup>*\<^sup>* (fresh_world 0) w" "length (w_attempts w) = 2"
    "same_claim (w_attempts w ! 0) (w_attempts w ! 1)" "at_committed (w_attempts w ! 0)" "\<not> at_failed (w_attempts w ! 0)"
    by (rule demo_two_claims)
  with a_key_writes_once [OF w(1), of 0 1] show ?thesis by auto
qed

text \<open>An attempt that committed and failed at once: its key runs again five minutes before the 24 hours are over.\<close>

lemma a_failed_commit_frees_its_key_early:
  "fst (claim (RETENTION - IN_FLIGHT_GRACE) (abandon 0 0 True (snd (claim 0 (w_store (fresh_world 0)) ''c'' ''k'' ''f''))) ''c'' ''k'' ''f'') = Run 1"
  by code_simp

theorem a_retry_hears_the_first_answer_witness:
  "\<exists>st1. claim 0 (w_store (fresh_world 0)) ''c'' ''k'' ''f'' = (Run 0, st1) \<and>
     serve None (fst (claim 60 (settle_claim 2 0 True \<lparr>an_status = Some 201, an_no_store = False, an_text = Some ''{}''\<rparr> st1)
       ''c'' ''k'' ''f'')) = Served 201 ''{}''"
proof -
  let ?an = "\<lparr>an_status = Some 201, an_no_store = False, an_text = Some ''{}''\<rparr>"
  obtain st1 where st1: "claim 0 (w_store (fresh_world 0)) ''c'' ''k'' ''f'' = (Run 0, st1)"
    by (simp add: claim_def fresh_world_def purge_def claimed_by_def delete_records_def)
  have "tidy (w_store (fresh_world 0))" by (simp add: tidy_def fresh_world_def)
  from a_retry_hears_the_first_answer [OF st1 this, of ?an 201 60 2 True "''f''"] st1 show ?thesis
    by (simp add: kept_answer_def RETENTION_def)
qed

end
