(* ===== verification/Login_Throttle.thy ===== *)
theory Login_Throttle
  imports Text_Ops "HOL-Library.Multiset"
begin

text \<open>
  \<open>app/core/login_throttle.py\<close> and the password attempt it guards (\<open>app/api/auth.py\<close>,
  \<open>authenticate_user\<close>): a delay that doubles with each failed sign-in, per account and per address.

  The counters are a dictionary in insertion order; the clock is a rational number of seconds. A
  float cannot hold \<open>2 ** 1024\<close>: Python raises \<open>OverflowError\<close> there, and so does the model.
\<close>

definition FREE_ATTEMPTS :: nat where "FREE_ATTEMPTS = 5"
definition BASE_DELAY_SECONDS :: rat where "BASE_DELAY_SECONDS = 1"
definition MAX_DELAY_SECONDS :: rat where "MAX_DELAY_SECONDS = 60"
definition WINDOW_SECONDS :: rat where "WINDOW_SECONDS = 900"
definition MAX_KEYS :: nat where "MAX_KEYS = 10000"

record counter =
  ct_failures :: nat
  ct_last_seen :: rat

type_synonym counters = "(string \<times> counter) list"

definition OverflowError :: http_error where
  "OverflowError = HttpError 500 ''OverflowError''"

definition stale :: "rat \<Rightarrow> counter \<Rightarrow> bool" where
  "stale now c \<longleftrightarrow> WINDOW_SECONDS < now - ct_last_seen c"

text \<open>\<open>_prune\<close>: the stale first, then the oldest of what is still too many.\<close>

definition prune :: "rat \<Rightarrow> counters \<Rightarrow> counters" where
  "prune now d =
     (let fresh = filter (\<lambda>(_, c). \<not> stale now c) d in
      if MAX_KEYS < length fresh then
        let oldest = map fst (take (length fresh - MAX_KEYS) (sort_key (\<lambda>(_, c). ct_last_seen c) fresh))
        in filter (\<lambda>(k, _). k \<notin> set oldest) fresh
      else fresh)"

definition float_power_of_two :: "nat \<Rightarrow> rat result" where
  "float_power_of_two n = (if 1024 \<le> n then Inl OverflowError else Inr (2 ^ n))"

definition delay_for :: "counters \<Rightarrow> string \<Rightarrow> rat \<Rightarrow> rat result" where
  "delay_for d key now =
     (case map_of d key of
        None \<Rightarrow> Inr 0
      | Some c \<Rightarrow>
          if stale now c then Inr 0
          else if ct_failures c \<le> FREE_ATTEMPTS then Inr 0
          else bindE (float_power_of_two (ct_failures c - FREE_ATTEMPTS - 1)) (\<lambda>p.
            let delay = min (BASE_DELAY_SECONDS * p) MAX_DELAY_SECONDS;
                remaining = delay - (now - ct_last_seen c)
            in Inr (max 0 remaining)))"

definition retry_after :: "counters \<Rightarrow> string list \<Rightarrow> rat \<Rightarrow> rat result" where
  "retry_after d keys now = bindE (mapE (\<lambda>k. delay_for d k now) keys) (\<lambda>ws. Inr (fold max ws 0))"

fun dict_set :: "'k \<Rightarrow> 'v \<Rightarrow> ('k \<times> 'v) list \<Rightarrow> ('k \<times> 'v) list" where
  "dict_set k v [] = [(k, v)]"
| "dict_set k v ((k', v') # d) = (if k = k' then (k, v) # d else (k', v') # dict_set k v d)"

definition bump :: "rat \<Rightarrow> string \<Rightarrow> counters \<Rightarrow> counters" where
  "bump now key d =
     (let n = (case map_of d key of None \<Rightarrow> 0 | Some c \<Rightarrow> if stale now c then 0 else ct_failures c)
      in dict_set key \<lparr>ct_failures = n + 1, ct_last_seen = now\<rparr> d)"

definition record_failure :: "counters \<Rightarrow> string list \<Rightarrow> rat \<Rightarrow> counters" where
  "record_failure d keys now = fold (bump now) keys (prune now d)"

definition record_success :: "counters \<Rightarrow> string list \<Rightarrow> counters" where
  "record_success d keys = filter (\<lambda>(k, _). k \<notin> set keys) d"

definition login_keys :: "string option \<Rightarrow> string option \<Rightarrow> string list" where
  "login_keys email client_host =
     (case email of Some e \<Rightarrow> if e = [] then [] else [''account:'' @ lower (strip e)] | None \<Rightarrow> []) @
     (case client_host of Some h \<Rightarrow> if h = [] then [] else [''address:'' @ h] | None \<Rightarrow> [])"

text \<open>\<open>authenticate_user\<close>: \<open>accepts\<close> is whether the active account of that email takes the password. The
  counters change also when the attempt is refused.\<close>

definition authenticate_user ::
    "counters \<Rightarrow> string option \<Rightarrow> string option \<Rightarrow> bool \<Rightarrow> rat \<Rightarrow> unit result \<times> counters" where
  "authenticate_user d email client_host accepts now =
     (let keys = login_keys email client_host in
      case retry_after d keys now of
        Inl e \<Rightarrow> (Inl e, d)
      | Inr wait \<Rightarrow>
          if 0 < wait then (Inl (HttpError 429 ''too_many_failed_attempts''), d)
          else if \<not> accepts then (Inl (HttpError 401 ''invalid_email_or_password''), record_failure d keys now)
          else (Inr (), record_success d keys))"

subsection \<open>Delays\<close>

lemma fold_max_le: "(\<And>w. w \<in> set ws \<Longrightarrow> w \<le> b) \<Longrightarrow> (x::rat) \<le> b \<Longrightarrow> fold max ws x \<le> b"
  by (induction ws arbitrary: x) auto

lemma fold_max_ge: "(x::rat) \<le> fold max ws x"
  by (induction ws arbitrary: x) (auto intro: order_trans [OF max.cobounded2])

lemma delay_for_bounds:
  assumes "delay_for d k now = Inr w" and "\<And>c. map_of d k = Some c \<Longrightarrow> ct_last_seen c \<le> now"
  shows "0 \<le> w" and "w \<le> MAX_DELAY_SECONDS"
    and "(\<And>c. map_of d k = Some c \<Longrightarrow> ct_last_seen c + MAX_DELAY_SECONDS \<le> now) \<Longrightarrow> w = 0"
  using assms
  by (auto simp: delay_for_def Let_def result_simps MAX_DELAY_SECONDS_def min_def max_def split: option.splits if_splits)

definition few_failures :: "counters \<Rightarrow> bool" where
  "few_failures d \<longleftrightarrow> list_all (\<lambda>(_, c). ct_failures c < FREE_ATTEMPTS + 1 + 1024) d"

definition seen_before :: "rat \<Rightarrow> counters \<Rightarrow> bool" where
  "seen_before now d \<longleftrightarrow> list_all (\<lambda>(_, c). ct_last_seen c \<le> now) d"

lemma delay_for_defined: "few_failures d \<Longrightarrow> \<exists>w. delay_for d k now = Inr w"
  by (auto simp: delay_for_def few_failures_def list_all_iff float_power_of_two_def Let_def FREE_ATTEMPTS_def
      dest!: map_of_SomeD split: option.splits)

lemma mapE_total: "(\<And>x. x \<in> set xs \<Longrightarrow> \<exists>y. f x = Inr y) \<Longrightarrow> \<exists>ys. mapE f xs = Inr ys"
  by (induction xs) fastforce+

text \<open>The throttle delays and never locks out: with fewer than 1030 failures on a key, the wait asked for is
  between 0 and 60 seconds, and a caller whose keys have been quiet for a minute is let through, whatever
  came before. A successful sign-in clears its keys.\<close>

theorem throttle_never_locks_out:
  assumes "few_failures d" and "seen_before now d"
  shows "\<exists>w. retry_after d keys now = Inr w \<and> 0 \<le> w \<and> w \<le> MAX_DELAY_SECONDS \<and>
    (seen_before (now - MAX_DELAY_SECONDS) d \<longrightarrow> w = 0) \<and> retry_after (record_success d keys) keys now = Inr 0"
proof -
  have seen: "ct_last_seen c \<le> now" if "map_of d k = Some c" for k c
    using assms(2) map_of_SomeD [OF that] by (auto simp: seen_before_def list_all_iff)
  have quiet: "ct_last_seen c + MAX_DELAY_SECONDS \<le> now"
    if "seen_before (now - MAX_DELAY_SECONDS) d" "map_of d k = Some c" for k c
    using that(1) map_of_SomeD [OF that(2)] by (auto simp: seen_before_def list_all_iff)
  obtain ws where ws: "mapE (\<lambda>k. delay_for d k now) keys = Inr ws"
    using mapE_total [of keys "\<lambda>k. delay_for d k now"] delay_for_defined [OF assms(1)] by blast
  have each: "\<exists>k. delay_for d k now = Inr w" if "w \<in> set ws" for w
    using ws that by (auto simp: mapE_Inr_list_all2 list_all2_conv_all_nth in_set_conv_nth)
  have "0 \<le> fold max ws 0" by (rule fold_max_ge)
  moreover have "fold max ws 0 \<le> MAX_DELAY_SECONDS"
    using each delay_for_bounds(2) seen by (intro fold_max_le) (auto simp: MAX_DELAY_SECONDS_def, metis MAX_DELAY_SECONDS_def)
  moreover have "fold max ws 0 \<le> 0" if "seen_before (now - MAX_DELAY_SECONDS) d"
  proof (rule fold_max_le)
    fix w assume "w \<in> set ws"
    with each obtain k where "delay_for d k now = Inr w" by blast
    with delay_for_bounds(3) [of d k now w] seen quiet [OF that] show "w \<le> 0" by blast
  qed simp
  moreover have "retry_after (record_success d keys) keys now = Inr 0"
  proof -
    have "map_of (record_success d keys) k = None" if "k \<in> set keys" for k
      using that by (auto simp: record_success_def map_of_eq_None_iff)
    then have "mapE (\<lambda>k. delay_for (record_success d keys) k now) keys = mapE (\<lambda>_. Inr 0) keys"
      by (intro mapE_cong) (simp_all add: delay_for_def)
    also have "\<dots> = Inr (map (\<lambda>_. 0) keys)" by (induction keys) auto
    finally have "mapE (\<lambda>k. delay_for (record_success d keys) k now) keys = Inr (map (\<lambda>_. 0) keys)" .
    moreover have "fold max (map (\<lambda>_. 0) keys) 0 = (0::rat)" by (induction keys) auto
    ultimately show ?thesis by (simp add: retry_after_def)
  qed
  ultimately show ?thesis using ws by (auto simp: retry_after_def)
qed

text \<open>One more failure and the sign-in breaks: at 1030 failures the doubling no longer fits a float, and
  every further attempt on the account or from the address ends in an internal error instead of a
  delay, the right password included.\<close>

theorem throttle_overflows:
  assumes "map_of d key = Some c" and "FREE_ATTEMPTS + 1 + 1024 \<le> ct_failures c" and "\<not> stale now c"
    and "login_keys email client_host = [key]"
  shows "authenticate_user d email client_host True now = (Inl OverflowError, d)"
  using assms by (simp add: authenticate_user_def retry_after_def delay_for_def float_power_of_two_def Let_def)

subsection \<open>Memory\<close>

lemma length_dict_set: "length (dict_set k v d) \<le> Suc (length d)"
  by (induction k v d rule: dict_set.induct) auto

lemma keys_dict_set: "fst ` set (dict_set k v d) = insert k (fst ` set d)"
  by (induction k v d rule: dict_set.induct) auto

lemma distinct_dict_set: "distinct (map fst d) \<Longrightarrow> distinct (map fst (dict_set k v d))"
proof (induction k v d rule: dict_set.induct)
  case (2 k v k' v' d)
  have "k' \<notin> fst ` set (dict_set k v d)" if "k \<noteq> k'" using that 2 by (simp add: keys_dict_set)
  with 2 show ?case by auto
qed simp

lemma fold_bump: "length (fold (bump now) keys d) \<le> length keys + length d \<and>
    (distinct (map fst d) \<longrightarrow> distinct (map fst (fold (bump now) keys d)))"
proof (induction keys arbitrary: d)
  case (Cons k keys)
  from Cons [of "bump now k d"] length_dict_set [of k _ d] distinct_dict_set [of d k] show ?case
    by (fastforce simp: bump_def Let_def intro: order_trans)
qed simp

lemma length_filter_keys:
  assumes "distinct (map fst d)" and "set ks \<subseteq> fst ` set d" and "distinct ks"
  shows "length (filter (\<lambda>(k, _). k \<notin> set ks) d) = length d - length ks"
proof -
  have "length (filter (\<lambda>(k, _). k \<notin> set ks) d) = card (fst ` set d - set ks)"
  proof -
    have "distinct (map fst (filter (\<lambda>(k, _). k \<notin> set ks) d))" using assms(1) by (rule distinct_map_filter)
    then have "length (filter (\<lambda>(k, _). k \<notin> set ks) d) = card (fst ` set (filter (\<lambda>(k, _). k \<notin> set ks) d))"
      by (metis distinct_card length_map set_map)
    also have "fst ` set (filter (\<lambda>(k, _). k \<notin> set ks) d) = fst ` set d - set ks" by force
    finally show ?thesis .
  qed
  also have "\<dots> = card (fst ` set d) - card (set ks)" using assms(2) by (intro card_Diff_subset) simp_all
  also have "\<dots> = length d - length ks" using assms(1,3) by (metis distinct_card length_map set_map)
  finally show ?thesis .
qed

lemma length_prune: "distinct (map fst d) \<Longrightarrow> length (prune now d) \<le> MAX_KEYS \<and> distinct (map fst (prune now d))"
proof -
  assume "distinct (map fst d)"
  let ?fresh = "filter (\<lambda>(_, c). \<not> stale now c) d"
  let ?sorted = "sort_key (\<lambda>(_, c). ct_last_seen c) ?fresh"
  let ?oldest = "map fst (take (length ?fresh - MAX_KEYS) ?sorted)"
  have dist: "distinct (map fst ?fresh)" using \<open>distinct (map fst d)\<close> by (rule distinct_map_filter)
  show ?thesis
  proof (cases "MAX_KEYS < length ?fresh")
    case True
    have "mset (map fst ?sorted) = mset (map fst ?fresh)" by (simp only: mset_map mset_sort)
    then have "distinct (map fst ?sorted)" using dist by (metis mset_eq_imp_distinct_iff)
    then have "distinct ?oldest" by (simp add: take_map [symmetric] distinct_take)
    moreover have "set ?oldest \<subseteq> fst ` set ?fresh" by (auto dest!: in_set_takeD)
    ultimately have "length (filter (\<lambda>(k, _). k \<notin> set ?oldest) ?fresh) = length ?fresh - length ?oldest"
      using dist by (intro length_filter_keys)
    then have "length (prune now d) = MAX_KEYS" using True by (simp add: prune_def Let_def)
    moreover have "distinct (map fst (prune now d))"
      using True distinct_map_filter [OF dist, of "\<lambda>(k, _). k \<notin> set ?oldest"] by (simp add: prune_def Let_def)
    ultimately show ?thesis by simp
  qed (use dist in \<open>simp add: prune_def Let_def\<close>)
qed

text \<open>A spray cannot grow the store: after any failed attempt it holds at most 10000 counters and the two
  of the attempt itself, each key once.\<close>

theorem throttle_memory_is_bounded:
  assumes "distinct (map fst d)"
  shows "length (record_failure d (login_keys email client_host) now) \<le> MAX_KEYS + 2 \<and>
    distinct (map fst (record_failure d (login_keys email client_host) now))"
proof -
  have "length (login_keys email client_host) \<le> 2" by (auto simp: login_keys_def split: option.splits)
  with length_prune [OF assms, of now] fold_bump [of now "login_keys email client_host" "prune now d"] show ?thesis
    by (auto simp: record_failure_def)
qed

subsection \<open>Witnesses\<close>

definition demo_counters :: counters where
  "demo_counters = [(''account:a'', \<lparr>ct_failures = 8, ct_last_seen = 100\<rparr>),
     (''account:b'', \<lparr>ct_failures = 1030, ct_last_seen = 100\<rparr>)]"

theorem throttle_never_locks_out_witness:
  "\<exists>w. retry_after (take 1 demo_counters) [''account:a''] 101 = Inr w \<and> w \<le> MAX_DELAY_SECONDS"
  using throttle_never_locks_out [of "take 1 demo_counters" 101 "[''account:a'']"]
  by (auto simp: few_failures_def seen_before_def demo_counters_def FREE_ATTEMPTS_def)

theorem throttle_overflows_witness:
  "authenticate_user demo_counters (Some ''b'') None True 101 = (Inl OverflowError, demo_counters)"
  by (rule throttle_overflows [where key = "''account:b''" and c = "\<lparr>ct_failures = 1030, ct_last_seen = 100\<rparr>"])
    (simp_all add: demo_counters_def FREE_ATTEMPTS_def stale_def WINDOW_SECONDS_def, code_simp)

theorem throttle_memory_is_bounded_witness:
  "length (record_failure demo_counters (login_keys (Some ''a'') (Some ''h'')) 101) \<le> MAX_KEYS + 2"
  using throttle_memory_is_bounded [of demo_counters "Some ''a''" "Some ''h''" 101] by (simp add: demo_counters_def)

end
