(* ===== verification/Key_Lifecycle.thy ===== *)
theory Key_Lifecycle
  imports Actors
begin

text \<open>
  Interactive personal keys: \<open>app/services/interactive_keys.py\<close>, the refresh endpoint of
  \<open>app/api/auth.py\<close> and the revocation endpoint of \<open>app/api/oauth.py\<close>.

  Unlike the other handlers, a refused refresh may leave a trace: the revocation of a replayed token is
  committed before the 401 is raised. So \<open>refresh_api_key\<close> returns the state beside the result. The
  secrets it draws (\<open>key_plain\<close>, \<open>refresh_plain\<close>) are parameters. The row is read without a lock, so a refresh is two
  steps, the look-up and the commit, and any number of them interleave.
\<close>

definition interactive_key_ttl_hours :: int where "interactive_key_ttl_hours = 24"
definition refresh_retry_grace_seconds :: int where "refresh_retry_grace_seconds = 60"

definition interactive_expiry :: "timestamp \<Rightarrow> timestamp" where
  "interactive_expiry now = now + interactive_key_ttl_hours * 3600"

definition make_interactive :: "(string \<Rightarrow> string) \<Rightarrow> timestamp \<Rightarrow> string \<Rightarrow> api_key \<Rightarrow> api_key" where
  "make_interactive digest now refresh_plain k = k\<lparr>
     ak_expires_at := Some (interactive_expiry now), ak_refresh_token_hash := Some (digest refresh_plain),
     ak_prior_refresh_token_hash := None, ak_refresh_rotated_at := Some now\<rparr>"

definition rotate_pair :: "(string \<Rightarrow> string) \<Rightarrow> timestamp \<Rightarrow> string \<Rightarrow> string \<Rightarrow> api_key \<Rightarrow> api_key" where
  "rotate_pair digest now key_plain refresh_plain k = k\<lparr>
     ak_prior_refresh_token_hash := ak_refresh_token_hash k, ak_key_hash := digest key_plain,
     ak_refresh_token_hash := Some (digest refresh_plain), ak_expires_at := Some (interactive_expiry now),
     ak_refresh_rotated_at := Some now\<rparr>"

definition within_retry_grace :: "timestamp \<Rightarrow> api_key \<Rightarrow> bool" where
  "within_retry_grace now k =
     (case ak_refresh_rotated_at k of None \<Rightarrow> False | Some t \<Rightarrow> now \<le> t + refresh_retry_grace_seconds)"

text \<open>A row is written through its id.\<close>

definition set_key :: "uuid \<Rightarrow> (api_key \<Rightarrow> api_key) \<Rightarrow> identity \<Rightarrow> identity" where
  "set_key i f db = db\<lparr>id_keys := update_rows (\<lambda>k. ak_id k = i) f (id_keys db)\<rparr>"

definition deactivate :: "api_key \<Rightarrow> api_key" where
  "deactivate k = k\<lparr>ak_is_active := False\<rparr>"

datatype presented = Current api_key | Retry api_key | Spent api_key | Unknown

text \<open>What the presented token is: the key's refresh token, the one before it, or nobody's.\<close>

definition presented_token :: "(string \<Rightarrow> string) \<Rightarrow> timestamp \<Rightarrow> identity \<Rightarrow> string \<Rightarrow> presented" where
  "presented_token digest now db token =
     (case find_row (\<lambda>k. ak_refresh_token_hash k = Some (digest token) \<and> ak_is_active k) (id_keys db) of
        Some k \<Rightarrow> Current k
      | None \<Rightarrow>
          (case find_row (\<lambda>k. ak_prior_refresh_token_hash k = Some (digest token) \<and> ak_is_active k) (id_keys db) of
             None \<Rightarrow> Unknown
           | Some k \<Rightarrow> if within_retry_grace now k then Retry k else Spent k))"

text \<open>The tenant and the owner must still be active.\<close>

definition ensure_backed :: "identity \<Rightarrow> api_key \<Rightarrow> unit result" where
  "ensure_backed db k =
     bindE (ensure_tenant_active db (ak_tenant_id k)) (\<lambda>_.
     case ak_user_id k of
       None \<Rightarrow> Inr ()
     | Some i \<Rightarrow> bindE (active_user db i ''API_key_owner_is_not_active'') (\<lambda>_. Inr ()))"

record key_pair =
  kp_api_key :: string
  kp_refresh_token :: string
  kp_expires_at :: timestamp

text \<open>The handler up to its answer: the row is read without a lock. A spent token deactivates its key, and that is committed
  before the 401.\<close>

definition look_up_token :: "(string \<Rightarrow> string) \<Rightarrow> timestamp \<Rightarrow> identity \<Rightarrow> string \<Rightarrow> api_key result \<times> identity" where
  "look_up_token digest now db token =
     (case presented_token digest now db token of
        Unknown \<Rightarrow> (Inl (HttpError 401 ''invalid_refresh_token''), db)
      | Spent k \<Rightarrow> (Inl (HttpError 401 ''refresh_token_already_used''), set_key (ak_id k) deactivate db)
      | Retry k \<Rightarrow> (bindE (ensure_backed db k) (\<lambda>_. Inr k), db)
      | Current k \<Rightarrow> (bindE (ensure_backed db k) (\<lambda>_. Inr k), db))"

text \<open>The \<open>UPDATE\<close> of a rotated row sets the columns \<open>rotate\<close> changed and leaves the others as they are by then.\<close>

definition store_rotation :: "api_key \<Rightarrow> api_key \<Rightarrow> api_key" where
  "store_rotation rotated row = row\<lparr>
     ak_prior_refresh_token_hash := ak_prior_refresh_token_hash rotated, ak_key_hash := ak_key_hash rotated,
     ak_refresh_token_hash := ak_refresh_token_hash rotated, ak_expires_at := ak_expires_at rotated,
     ak_refresh_rotated_at := ak_refresh_rotated_at rotated\<rparr>"

definition commit_rotation :: "(string \<Rightarrow> string) \<Rightarrow> timestamp \<Rightarrow> api_key \<Rightarrow> string \<Rightarrow> string \<Rightarrow> identity \<Rightarrow> identity" where
  "commit_rotation digest now k key_plain refresh_plain =
     set_key (ak_id k) (store_rotation (rotate_pair digest now key_plain refresh_plain k))"

text \<open>One call with nothing in between.\<close>

definition refresh_api_key ::
    "(string \<Rightarrow> string) \<Rightarrow> timestamp \<Rightarrow> identity \<Rightarrow> string \<Rightarrow> string \<Rightarrow> string \<Rightarrow> key_pair result \<times> identity" where
  "refresh_api_key digest now db token key_plain refresh_plain =
     (case look_up_token digest now db token of
        (Inl e, db') \<Rightarrow> (Inl e, db')
      | (Inr k, db') \<Rightarrow>
          (Inr \<lparr>kp_api_key = key_plain, kp_refresh_token = refresh_plain, kp_expires_at = interactive_expiry now\<rparr>,
           commit_rotation digest now k key_plain refresh_plain db'))"

text \<open>\<open>revoke_endpoint\<close>: either half of a pair, or the refresh token before it, revokes the pair; a key
  without a refresh token is out of reach. It answers 200 either way.\<close>

definition revoke_token :: "(string \<Rightarrow> string) \<Rightarrow> identity \<Rightarrow> string \<Rightarrow> identity" where
  "revoke_token digest db token =
     (let h = digest token in
      case find_row (\<lambda>k. ak_is_active k \<and> ak_refresh_token_hash k \<noteq> None \<and>
             (ak_key_hash k = h \<or> ak_refresh_token_hash k = Some h \<or> ak_prior_refresh_token_hash k = Some h)) (id_keys db) of
        None \<Rightarrow> db
      | Some k \<Rightarrow> (set_key (ak_id k) deactivate db)\<lparr>id_audit := id_audit db @ [\<lparr>
          au_tenant_id = ak_tenant_id k, au_action = ''oauth.revoked'', au_entity_type = ''api_key'', au_entity_id = ak_id k,
          au_actor = Some (case ak_user_id k of Some u \<Rightarrow> ''user:'' @ u | None \<Rightarrow> ''key:'' @ ak_id k)\<rparr>]\<rparr>)"

subsection \<open>A history of keys\<close>

text \<open>Refreshes interleave: a request that has looked its key up holds the row as it read it until it commits, and other
  requests commit in between. \<open>rf_seen\<close> is how many exchanges had been committed by the look-up. \<open>kw_spent\<close> logs the
  exchanges in the order they commit, a token by its digest; \<open>kw_issued\<close> the digests of all refresh tokens handed out: a
  fresh token is one not among them.\<close>

record refresh_request =
  rf_key :: api_key
  rf_token :: string
  rf_looked :: timestamp
  rf_seen :: nat

record exchange =
  ex_key :: uuid
  ex_token :: string
  ex_looked :: timestamp
  ex_done :: timestamp
  ex_seen :: nat

record key_world =
  kw_now :: timestamp
  kw_db :: identity
  kw_flight :: "refresh_request list"
  kw_spent :: "exchange list"
  kw_issued :: "string list"

definition plain_key :: "api_key \<Rightarrow> bool" where
  "plain_key k \<longleftrightarrow> ak_refresh_token_hash k = None \<and> ak_prior_refresh_token_hash k = None \<and> ak_refresh_rotated_at k = None"

definition request_of :: "(string \<Rightarrow> string) \<Rightarrow> key_world \<Rightarrow> string \<Rightarrow> api_key \<Rightarrow> refresh_request" where
  "request_of digest w token k =
     \<lparr>rf_key = k, rf_token = digest token, rf_looked = kw_now w, rf_seen = length (kw_spent w)\<rparr>"

definition exchange_of :: "timestamp \<Rightarrow> refresh_request \<Rightarrow> exchange" where
  "exchange_of now r = \<lparr>ex_key = ak_id (rf_key r), ex_token = rf_token r, ex_looked = rf_looked r, ex_done = now, ex_seen = rf_seen r\<rparr>"

inductive renews :: "(string \<Rightarrow> string) \<Rightarrow> key_world \<Rightarrow> key_world \<Rightarrow> bool" for digest where
  tick: "0 < d \<Longrightarrow> renews digest w (w\<lparr>kw_now := kw_now w + d\<rparr>)"
| mint: "ak_id k \<notin> ak_id ` set (id_keys (kw_db w)) \<Longrightarrow> digest refresh_plain \<notin> set (kw_issued w) \<Longrightarrow>
    renews digest w (w\<lparr>
      kw_db := (kw_db w)\<lparr>id_keys := id_keys (kw_db w) @ [make_interactive digest (kw_now w) refresh_plain k]\<rparr>,
      kw_issued := kw_issued w @ [digest refresh_plain]\<rparr>)"
| mint_service: "ak_id k \<notin> ak_id ` set (id_keys (kw_db w)) \<Longrightarrow> plain_key k \<Longrightarrow>
    renews digest w (w\<lparr>kw_db := (kw_db w)\<lparr>id_keys := id_keys (kw_db w) @ [k]\<rparr>\<rparr>)"
| looked_up: "look_up_token digest (kw_now w) (kw_db w) token = (Inr k, db') \<Longrightarrow>
    renews digest w (w\<lparr>kw_flight := kw_flight w @ [request_of digest w token k]\<rparr>)"
| exchanged: "r \<in> set (kw_flight w) \<Longrightarrow> digest refresh_plain \<notin> set (kw_issued w) \<Longrightarrow>
    renews digest w (w\<lparr>kw_db := commit_rotation digest (kw_now w) (rf_key r) key_plain refresh_plain (kw_db w),
      kw_flight := remove1 r (kw_flight w), kw_spent := kw_spent w @ [exchange_of (kw_now w) r],
      kw_issued := kw_issued w @ [digest refresh_plain]\<rparr>)"
| dropped: "renews digest w (w\<lparr>kw_flight := remove1 r (kw_flight w)\<rparr>)"
| refused: "look_up_token digest (kw_now w) (kw_db w) token = (Inl e, db') \<Longrightarrow> renews digest w (w\<lparr>kw_db := db'\<rparr>)"
| revoked: "renews digest w (w\<lparr>kw_db := revoke_token digest (kw_db w) token\<rparr>)"
| replaced: "renews digest w (w\<lparr>kw_db := set_key i deactivate (kw_db w)\<rparr>)"
| elsewhere: "id_keys db' = id_keys (kw_db w) \<Longrightarrow> renews digest w (w\<lparr>kw_db := db'\<rparr>)"

text \<open>A call with nothing in between is a look-up and the commit right after it.\<close>

lemma refresh_is_two_steps:
  assumes "refresh_api_key digest (kw_now w) (kw_db w) token kp rp = (Inr pair, db')" and "kw_flight w = []"
    and "digest rp \<notin> set (kw_issued w)"
  shows "\<exists>k \<in> set (id_keys (kw_db w)). (renews digest)\<^sup>*\<^sup>* w (w\<lparr>kw_db := db', kw_flight := [],
    kw_spent := kw_spent w @ [exchange_of (kw_now w) (request_of digest w token k)], kw_issued := kw_issued w @ [digest rp]\<rparr>)"
proof -
  obtain k db1 where look: "look_up_token digest (kw_now w) (kw_db w) token = (Inr k, db1)"
    and db': "db' = commit_rotation digest (kw_now w) k kp rp db1"
    using assms(1) by (auto simp: refresh_api_key_def split: prod.splits sum.splits)
  have same: "db1 = kw_db w" "k \<in> set (id_keys (kw_db w))"
    using look by (auto simp: look_up_token_def presented_token_def bindE_Inr_iff split: presented.splits option.splits if_splits
        dest: find_row_Some)
  let ?r = "request_of digest w token k" and ?w1 = "w\<lparr>kw_flight := kw_flight w @ [request_of digest w token k]\<rparr>"
  have "renews digest w ?w1" by (rule renews.looked_up [OF look])
  moreover have "renews digest ?w1 (?w1\<lparr>kw_db := commit_rotation digest (kw_now ?w1) (rf_key ?r) kp rp (kw_db ?w1),
      kw_flight := remove1 ?r (kw_flight ?w1), kw_spent := kw_spent ?w1 @ [exchange_of (kw_now ?w1) ?r],
      kw_issued := kw_issued ?w1 @ [digest rp]\<rparr>)" by (rule renews.exchanged) (use assms(3) in simp_all)
  then have "renews digest ?w1 (w\<lparr>kw_db := db', kw_flight := [], kw_spent := kw_spent w @ [exchange_of (kw_now w) ?r],
      kw_issued := kw_issued w @ [digest rp]\<rparr>)" using assms(2) by (simp add: db' same request_of_def)
  ultimately show ?thesis using same(2) by (meson rtranclp.rtrancl_into_rtrancl rtranclp.rtrancl_refl)
qed

definition uses :: "exchange list \<Rightarrow> string \<Rightarrow> exchange list" where
  "uses spent h = filter (\<lambda>e. ex_token e = h) spent"

text \<open>No exchange of a key committed while another of the same key was between its look-up and its commit.\<close>

definition one_at_a_time :: "exchange list \<Rightarrow> bool" where
  "one_at_a_time spent \<longleftrightarrow>
     list_all (\<lambda>j. list_all (\<lambda>e. ex_key e \<noteq> ex_key (spent ! j)) (drop (ex_seen (spent ! j)) (take j spent))) [0..<length spent]"

lemma one_at_a_time_snoc:
  "one_at_a_time (spent @ [e]) \<longleftrightarrow> one_at_a_time spent \<and> (\<forall>x \<in> set (drop (ex_seen e) spent). ex_key x \<noteq> ex_key e)"
  by (auto simp: one_at_a_time_def list_all_iff nth_append)

fun brief :: "exchange list \<Rightarrow> bool" where
  "brief [] = True"
| "brief [a] = True"
| "brief [a, b] = (ex_done a \<le> ex_looked b \<and> ex_looked b \<le> ex_done a + refresh_retry_grace_seconds)"
| "brief _ = False"

definition tokens :: "api_key \<Rightarrow> string list" where
  "tokens k = (case ak_refresh_token_hash k of None \<Rightarrow> [] | Some h \<Rightarrow> [h]) @
     (case ak_prior_refresh_token_hash k of None \<Rightarrow> [] | Some h \<Rightarrow> [h])"

definition keys_apart :: "api_key list \<Rightarrow> bool" where
  "keys_apart ks \<longleftrightarrow> distinct (map ak_id ks) \<and> distinct (concat (map tokens ks))"

lemma uses_simps [simp]:
  "uses [] h = []" "uses (xs @ [e]) h = uses xs h @ (if ex_token e = h then [e] else [])"
  by (simp_all add: uses_def)

lemma uses_fresh: "h \<notin> ex_token ` set spent \<Longrightarrow> uses spent h = []"
  by (auto simp: uses_def filter_empty_conv)

lemma set_key_fields [simp]: "id_keys (set_key i f db) = update_rows (\<lambda>k. ak_id k = i) f (id_keys db)"
  by (simp add: set_key_def)

lemma deactivate_fields [simp]:
  "ak_id (deactivate k) = ak_id k" "tokens (deactivate k) = tokens k" "ak_key_hash (deactivate k) = ak_key_hash k"
  "ak_refresh_token_hash (deactivate k) = ak_refresh_token_hash k"
  "ak_prior_refresh_token_hash (deactivate k) = ak_prior_refresh_token_hash k"
  "ak_refresh_rotated_at (deactivate k) = ak_refresh_rotated_at k" "\<not> ak_is_active (deactivate k)"
  by (simp_all add: deactivate_def tokens_def)

subsection \<open>Which tokens belong to which key\<close>

definition holders :: "key_world \<Rightarrow> api_key set" where
  "holders w = set (id_keys (kw_db w)) \<union> rf_key ` set (kw_flight w)"

definition belongs :: "key_world \<Rightarrow> uuid \<Rightarrow> string \<Rightarrow> bool" where
  "belongs w i h \<longleftrightarrow> (\<exists>k \<in> holders w. ak_id k = i \<and> h \<in> set (tokens k)) \<or> (\<exists>e \<in> set (kw_spent w). ex_key e = i \<and> ex_token e = h)"

definition owned :: "key_world \<Rightarrow> bool" where
  "owned w \<longleftrightarrow> distinct (map ak_id (id_keys (kw_db w))) \<and> (\<forall>k \<in> set (id_keys (kw_db w)). distinct (tokens k)) \<and>
     (\<forall>i h. belongs w i h \<longrightarrow> h \<in> set (kw_issued w) \<and> i \<in> ak_id ` set (id_keys (kw_db w))) \<and>
     (\<forall>r \<in> set (kw_flight w). ak_id (rf_key r) \<in> ak_id ` set (id_keys (kw_db w)) \<and> rf_token r \<in> set (tokens (rf_key r))) \<and>
     (\<forall>i j h. belongs w i h \<longrightarrow> belongs w j h \<longrightarrow> i = j)"

lemma ownedD:
  assumes "owned w"
  shows "distinct (map ak_id (id_keys (kw_db w)))" and "k \<in> set (id_keys (kw_db w)) \<Longrightarrow> distinct (tokens k)"
    and "belongs w i h \<Longrightarrow> h \<in> set (kw_issued w)" and "belongs w i h \<Longrightarrow> i \<in> ak_id ` set (id_keys (kw_db w))"
    and "r \<in> set (kw_flight w) \<Longrightarrow> ak_id (rf_key r) \<in> ak_id ` set (id_keys (kw_db w))"
    and "r \<in> set (kw_flight w) \<Longrightarrow> rf_token r \<in> set (tokens (rf_key r))"
    and "belongs w i h \<Longrightarrow> belongs w j h \<Longrightarrow> i = j"
  using assms unfolding owned_def by blast+

lemma owned_same:
  assumes "belongs w' = belongs w" and "id_keys (kw_db w') = id_keys (kw_db w)" and "kw_issued w' = kw_issued w"
    and "kw_flight w' = kw_flight w"
  shows "owned w' = owned w"
  unfolding owned_def assms ..

lemma row_belongs: "k \<in> set (id_keys (kw_db w)) \<Longrightarrow> h \<in> set (tokens k) \<Longrightarrow> belongs w (ak_id k) h"
  by (auto simp: belongs_def holders_def)

lemma flight_belongs: "r \<in> set (kw_flight w) \<Longrightarrow> h \<in> set (tokens (rf_key r)) \<Longrightarrow> belongs w (ak_id (rf_key r)) h"
  by (auto simp: belongs_def holders_def)

lemma spent_belongs: "e \<in> set (kw_spent w) \<Longrightarrow> belongs w (ex_key e) (ex_token e)"
  by (auto simp: belongs_def)

text \<open>A step after which every token belongs where it did, or is new.\<close>

lemma ownedI:
  assumes "owned w" and "distinct (map ak_id (id_keys (kw_db w')))" and "\<And>k. k \<in> set (id_keys (kw_db w')) \<Longrightarrow> distinct (tokens k)"
    and "ak_id ` set (id_keys (kw_db w)) \<subseteq> ak_id ` set (id_keys (kw_db w'))" and "set (kw_issued w) \<subseteq> set (kw_issued w')"
    and "\<And>i h. belongs w' i h \<Longrightarrow> belongs w i h \<or> i = n \<and> n \<in> ak_id ` set (id_keys (kw_db w')) \<and> h = new \<and> new \<in> set (kw_issued w') - set (kw_issued w)"
    and "\<And>r. r \<in> set (kw_flight w') \<Longrightarrow> r \<in> set (kw_flight w) \<or>
      ak_id (rf_key r) \<in> ak_id ` set (id_keys (kw_db w')) \<and> rf_token r \<in> set (tokens (rf_key r))"
  shows "owned w'"
  unfolding owned_def
proof (intro conjI allI ballI impI)
  show "distinct (map ak_id (id_keys (kw_db w')))" by (rule assms(2))
  show "distinct (tokens k)" if "k \<in> set (id_keys (kw_db w'))" for k using assms(3) that .
  show "h \<in> set (kw_issued w')" "i \<in> ak_id ` set (id_keys (kw_db w'))" if "belongs w' i h" for i h
    using assms(6) [OF that] ownedD(3,4) [OF assms(1)] assms(4,5) by blast+
  show "ak_id (rf_key r) \<in> ak_id ` set (id_keys (kw_db w'))" "rf_token r \<in> set (tokens (rf_key r))" if "r \<in> set (kw_flight w')" for r
    using assms(7) [OF that] ownedD(5,6) [OF assms(1)] assms(4) by blast+
  show "i = j" if "belongs w' i h" "belongs w' j h" for i j h
  proof -
    show ?thesis using assms(6) [OF that(1)] assms(6) [OF that(2)] ownedD(3,7) [OF assms(1)] by blast
  qed
qed

subsection \<open>Looking up\<close>

lemma presented_token_found:
  "presented_token digest now db token = Current k \<Longrightarrow>
    k \<in> set (id_keys db) \<and> ak_is_active k \<and> ak_refresh_token_hash k = Some (digest token)"
  "presented_token digest now db token = Retry k \<Longrightarrow>
    k \<in> set (id_keys db) \<and> ak_is_active k \<and> ak_prior_refresh_token_hash k = Some (digest token) \<and> within_retry_grace now k"
  "presented_token digest now db token = Spent k \<Longrightarrow>
    k \<in> set (id_keys db) \<and> ak_is_active k \<and> ak_prior_refresh_token_hash k = Some (digest token) \<and> \<not> within_retry_grace now k"
  by (auto simp: presented_token_def split: option.splits if_splits dest: find_row_Some)

lemma look_up_Inr:
  assumes "look_up_token digest now db token = (Inr k, db')"
  shows "k \<in> set (id_keys db)" "db' = db"
    "ak_refresh_token_hash k = Some (digest token) \<or> ak_prior_refresh_token_hash k = Some (digest token) \<and> within_retry_grace now k"
  using assms presented_token_found [of digest now db token k]
  by (auto simp: look_up_token_def bindE_Inr_iff split: presented.splits)

lemma look_up_Inl:
  "look_up_token digest now db token = (Inl e, db') \<Longrightarrow> db' = db \<or> (\<exists>i. db' = set_key i deactivate db)"
  by (auto simp: look_up_token_def split: presented.splits)

lemma rotate_fields [simp]:
  "ak_id (rotate_pair digest now kp rp k) = ak_id k"
  "ak_refresh_token_hash (rotate_pair digest now kp rp k) = Some (digest rp)"
  "ak_prior_refresh_token_hash (rotate_pair digest now kp rp k) = ak_refresh_token_hash k"
  "ak_refresh_rotated_at (rotate_pair digest now kp rp k) = Some now"
  by (simp_all add: rotate_pair_def)

lemma store_rotation_fields [simp]:
  "ak_id (store_rotation k row) = ak_id row" "ak_refresh_token_hash (store_rotation k row) = ak_refresh_token_hash k"
  "ak_prior_refresh_token_hash (store_rotation k row) = ak_prior_refresh_token_hash k"
  "ak_refresh_rotated_at (store_rotation k row) = ak_refresh_rotated_at k" "tokens (store_rotation k row) = tokens k"
  by (simp_all add: store_rotation_def tokens_def)

subsection \<open>What the log shows\<close>

text \<open>A token that had been exchanged before was looked up within the grace of a rotation of its key.\<close>

definition justified :: "exchange list \<Rightarrow> exchange \<Rightarrow> bool" where
  "justified spent e \<longleftrightarrow> ex_seen e \<le> length spent \<and>
     ((\<exists>x \<in> set (take (ex_seen e) spent). ex_token x = ex_token e) \<longrightarrow>
      (\<exists>x \<in> set (take (ex_seen e) spent). ex_key x = ex_key e \<and> ex_looked e \<le> ex_done x + refresh_retry_grace_seconds))"

lemma justified_snoc: "justified spent e \<Longrightarrow> justified (spent @ [x]) e"
  by (simp add: justified_def)

definition row_told :: "timestamp \<Rightarrow> exchange list \<Rightarrow> api_key \<Rightarrow> bool" where
  "row_told now spent k \<longleftrightarrow>
     (\<forall>h. ak_refresh_token_hash k = Some h \<longrightarrow> uses spent h = []) \<and>
     (\<forall>t. ak_refresh_rotated_at k = Some t \<longrightarrow> t \<le> now) \<and>
     ((\<exists>x \<in> set spent. ex_key x = ak_id k) \<longrightarrow> (\<exists>x \<in> set spent. ex_key x = ak_id k \<and> ak_refresh_rotated_at k = Some (ex_done x)))"

definition quiet_row :: "exchange list \<Rightarrow> api_key \<Rightarrow> bool" where
  "quiet_row spent k \<longleftrightarrow> (\<forall>h. ak_prior_refresh_token_hash k = Some h \<longrightarrow>
     uses spent h = [] \<or> (\<exists>a. uses spent h = [a] \<and> ak_refresh_rotated_at k = Some (ex_done a)))"

text \<open>A request whose key has not been rotated since it looked: the row is still what it read.\<close>

definition still_current :: "api_key list \<Rightarrow> exchange list \<Rightarrow> refresh_request \<Rightarrow> bool" where
  "still_current ks spent r \<longleftrightarrow> (\<forall>x \<in> set (drop (rf_seen r) spent). ex_key x \<noteq> ak_id (rf_key r)) \<longrightarrow>
     (\<exists>k \<in> set ks. ak_id k = ak_id (rf_key r) \<and> ak_refresh_token_hash k = ak_refresh_token_hash (rf_key r) \<and>
        ak_prior_refresh_token_hash k = ak_prior_refresh_token_hash (rf_key r) \<and>
        ak_refresh_rotated_at k = ak_refresh_rotated_at (rf_key r))"

definition fair_request :: "refresh_request \<Rightarrow> bool" where
  "fair_request r \<longleftrightarrow> (\<forall>t. ak_refresh_rotated_at (rf_key r) = Some t \<longrightarrow> t \<le> rf_looked r) \<and>
     (ak_refresh_token_hash (rf_key r) = Some (rf_token r) \<or>
      ak_prior_refresh_token_hash (rf_key r) = Some (rf_token r) \<and> within_retry_grace (rf_looked r) (rf_key r))"

definition keys_sound :: "key_world \<Rightarrow> bool" where
  "keys_sound w \<longleftrightarrow> owned w \<and>
     (\<forall>k \<in> set (id_keys (kw_db w)). row_told (kw_now w) (kw_spent w) k) \<and>
     (\<forall>r \<in> set (kw_flight w). fair_request r \<and> still_current (id_keys (kw_db w)) (kw_spent w) r \<and>
        justified (kw_spent w) (exchange_of 0 r)) \<and>
     (\<forall>e \<in> set (kw_spent w). justified (kw_spent w) e) \<and>
     (one_at_a_time (kw_spent w) \<longrightarrow> (\<forall>k \<in> set (id_keys (kw_db w)). quiet_row (kw_spent w) k) \<and> (\<forall>h. brief (uses (kw_spent w) h)))"

subsection \<open>Every step keeps the log sound\<close>

lemma keys_sound_owned: "keys_sound w \<Longrightarrow> owned w"
  unfolding keys_sound_def by blast

lemma deactivated_rows:
  assumes "ks' = update_rows p deactivate ks"
  shows "map ak_id ks' = map ak_id ks" and "map tokens ks' = map tokens ks"
    and "\<forall>x \<in> set ks'. \<exists>k \<in> set ks. x = k \<or> x = deactivate k" and "\<forall>k \<in> set ks. k \<in> set ks' \<or> deactivate k \<in> set ks'"
  using assms by (auto simp: map_update_rows_same set_update_rows)

lemma deactivated_row:
  assumes "x \<in> set (update_rows p deactivate ks)"
  obtains k where "k \<in> set ks" "x = k \<or> x = deactivate k"
  using assms by (auto simp: set_update_rows)

lemma keys_sound_deactivate:
  assumes sound: "keys_sound w" and db': "id_keys db' = update_rows p deactivate (id_keys (kw_db w))"
  shows "keys_sound (w\<lparr>kw_db := db'\<rparr>)"
proof -
  note rows = deactivated_rows [OF db']
  note owned = keys_sound_owned [OF sound]
  have belongs: "belongs w i h" if "belongs (w\<lparr>kw_db := db'\<rparr>) i h" for i h
    using that rows(3) unfolding belongs_def holders_def by fastforce
  have tokens: "distinct (tokens x)" if "x \<in> set (id_keys db')" for x
  proof -
    from that [unfolded db'] obtain k where k: "k \<in> set (id_keys (kw_db w))" "x = k \<or> x = deactivate k" by (rule deactivated_row)
    have "distinct (tokens k)" by (rule ownedD(2) [OF owned k(1)])
    with k(2) show ?thesis by (elim disjE) simp_all
  qed
  have ids: "ak_id ` set (id_keys db') = ak_id ` set (id_keys (kw_db w))" using rows(1) by (metis list.set_map)
  have "owned (w\<lparr>kw_db := db'\<rparr>)"
  proof (rule ownedI [OF owned])
    show "distinct (map ak_id (id_keys (kw_db (w\<lparr>kw_db := db'\<rparr>))))" using rows(1) ownedD(1) [OF owned] by simp
  qed (use belongs tokens ids in simp_all)
  moreover have "row_told (kw_now w) (kw_spent w) x" if "x \<in> set (id_keys db')" for x
  proof -
    from that [unfolded db'] obtain k where k: "k \<in> set (id_keys (kw_db w))" "x = k \<or> x = deactivate k" by (rule deactivated_row)
    have "row_told (kw_now w) (kw_spent w) k" using sound k(1) unfolding keys_sound_def by blast
    with k(2) show ?thesis by (auto simp: row_told_def)
  qed
  moreover have "quiet_row (kw_spent w) x" if "x \<in> set (id_keys db')" "one_at_a_time (kw_spent w)" for x
  proof -
    from that(1) [unfolded db'] obtain k where k: "k \<in> set (id_keys (kw_db w))" "x = k \<or> x = deactivate k" by (rule deactivated_row)
    have "quiet_row (kw_spent w) k" using sound k(1) that(2) unfolding keys_sound_def by blast
    with k(2) show ?thesis by (auto simp: quiet_row_def)
  qed
  moreover have "still_current (id_keys db') (kw_spent w) r" if "still_current (id_keys (kw_db w)) (kw_spent w) r" for r
    unfolding still_current_def
  proof
    assume "\<forall>x \<in> set (drop (rf_seen r) (kw_spent w)). ex_key x \<noteq> ak_id (rf_key r)"
    with that obtain k where k: "k \<in> set (id_keys (kw_db w))" "ak_id k = ak_id (rf_key r)"
      "ak_refresh_token_hash k = ak_refresh_token_hash (rf_key r)" "ak_prior_refresh_token_hash k = ak_prior_refresh_token_hash (rf_key r)"
      "ak_refresh_rotated_at k = ak_refresh_rotated_at (rf_key r)" unfolding still_current_def by blast
    from bspec [OF rows(4) k(1)] obtain k' where "k' \<in> set (id_keys db')" "k' = k \<or> k' = deactivate k" by (elim disjE) simp_all
    with k(2-) show "\<exists>k \<in> set (id_keys db'). ak_id k = ak_id (rf_key r) \<and> ak_refresh_token_hash k = ak_refresh_token_hash (rf_key r) \<and>
        ak_prior_refresh_token_hash k = ak_prior_refresh_token_hash (rf_key r) \<and>
        ak_refresh_rotated_at k = ak_refresh_rotated_at (rf_key r)" by (elim disjE) (auto intro: bexI [of _ k'])
  qed
  ultimately show ?thesis using sound by (simp add: keys_sound_def)
qed

lemma keys_sound_same:
  assumes sound: "keys_sound w" and db': "id_keys db' = id_keys (kw_db w)"
  shows "keys_sound (w\<lparr>kw_db := db'\<rparr>)"
proof -
  have "belongs (w\<lparr>kw_db := db'\<rparr>) = belongs w" using db' by (intro ext) (simp add: belongs_def holders_def)
  then have "owned (w\<lparr>kw_db := db'\<rparr>) = owned w" using db' by (intro owned_same) simp_all
  with sound db' show ?thesis by (simp add: keys_sound_def)
qed

lemma keys_sound_revoke: "keys_sound w \<Longrightarrow> keys_sound (w\<lparr>kw_db := revoke_token digest (kw_db w) token\<rparr>)"
  by (auto simp: revoke_token_def Let_def keys_sound_same split: option.splits intro: keys_sound_deactivate)

lemma keys_sound_flight:
  assumes sound: "keys_sound w" and sub: "set fl \<subseteq> set (kw_flight w)"
  shows "keys_sound (w\<lparr>kw_flight := fl\<rparr>)"
proof -
  have "belongs w i h" if "belongs (w\<lparr>kw_flight := fl\<rparr>) i h" for i h
    using that sub by (auto simp: belongs_def holders_def)
  then have "owned (w\<lparr>kw_flight := fl\<rparr>)"
    using sub ownedD(1,2) [OF keys_sound_owned [OF sound]] by (intro ownedI [OF keys_sound_owned [OF sound]]) auto
  with sound sub show ?thesis by (simp add: keys_sound_def subset_iff)
qed

lemma keys_sound_tick: "keys_sound w \<Longrightarrow> 0 < d \<Longrightarrow> keys_sound (w\<lparr>kw_now := kw_now w + d\<rparr>)"
proof -
  assume sound: "keys_sound w" and d: "0 < d"
  have "belongs (w\<lparr>kw_now := kw_now w + d\<rparr>) = belongs w" by (intro ext) (simp add: belongs_def holders_def)
  moreover have "row_told (kw_now w + d) (kw_spent w) k" if "row_told (kw_now w) (kw_spent w) k" for k
    using that d by (force simp: row_told_def)
  moreover from calculation(1) have "owned (w\<lparr>kw_now := kw_now w + d\<rparr>) = owned w" by (intro owned_same) simp_all
  ultimately show ?thesis using sound by (simp add: keys_sound_def)
qed

lemma keys_sound_mint:
  assumes sound: "keys_sound w" and id: "ak_id k \<notin> ak_id ` set (id_keys (kw_db w))"
    and toks: "set (tokens k) \<subseteq> set new" "distinct (tokens k)" "set new \<inter> set (kw_issued w) = {}" "length new \<le> 1"
    and rotated: "\<And>t. ak_refresh_rotated_at k = Some t \<Longrightarrow> t \<le> kw_now w"
  shows "keys_sound (w\<lparr>kw_db := (kw_db w)\<lparr>id_keys := id_keys (kw_db w) @ [k]\<rparr>, kw_issued := kw_issued w @ new\<rparr>)"
proof -
  let ?w = "w\<lparr>kw_db := (kw_db w)\<lparr>id_keys := id_keys (kw_db w) @ [k]\<rparr>, kw_issued := kw_issued w @ new\<rparr>"
  note owned = keys_sound_owned [OF sound]
  have "belongs w i h \<or> i = ak_id k \<and> h = hd new \<and> hd new \<in> set new" if "belongs ?w i h" for i h
  proof -
    have "h = hd new \<and> hd new \<in> set new" if "h \<in> set (tokens k)"
      using that toks(1,4) by (cases new) auto
    with that show ?thesis unfolding belongs_def holders_def by auto
  qed
  then have "owned ?w"
  proof (intro ownedI [OF owned, of _ "ak_id k" "hd new"], goal_cases)
    case 1
    then show ?case using ownedD(1) [OF owned] id by simp
  next
    case (2 x)
    then show ?case using ownedD(2) [OF owned] toks(2) by auto
  next
    case (5 i h)
    then show ?case using toks(3) by auto
  qed auto
  moreover have unused: "ex_key x \<noteq> ak_id k" "ex_token x \<notin> set (tokens k)" if "x \<in> set (kw_spent w)" for x
    using ownedD(3,4) [OF owned spent_belongs [OF that]] id toks(1,3) by auto
  then have none: "uses (kw_spent w) h = []" if "h \<in> set (tokens k)" for h using that by (intro uses_fresh) auto
  have "row_told (kw_now w) (kw_spent w) k" "quiet_row (kw_spent w) k"
    using none unused(1) rotated by (auto simp: row_told_def quiet_row_def tokens_def)
  moreover have "still_current (id_keys (kw_db w) @ [k]) (kw_spent w) r" if "still_current (id_keys (kw_db w)) (kw_spent w) r" for r
    using that unfolding still_current_def by auto
  ultimately show ?thesis using sound by (simp add: keys_sound_def)
qed

lemma keys_sound_look_up:
  assumes sound: "keys_sound w" and look: "look_up_token digest (kw_now w) (kw_db w) token = (Inr k, db')"
  shows "keys_sound (w\<lparr>kw_flight := kw_flight w @ [request_of digest w token k]\<rparr>)"
proof -
  note k = look_up_Inr [OF look]
  let ?r = "request_of digest w token k" and ?w = "w\<lparr>kw_flight := kw_flight w @ [request_of digest w token k]\<rparr>"
  have tok: "digest token \<in> set (tokens k)" using k(3) by (auto simp: tokens_def)
  have told: "row_told (kw_now w) (kw_spent w) k" using sound k(1) by (simp add: keys_sound_def)
  have "belongs w i h" if "belongs ?w i h" for i h
    using that k(1) by (auto simp: belongs_def holders_def request_of_def)
  then have "owned ?w"
    using k(1) tok ownedD(1,2) [OF keys_sound_owned [OF sound]]
    by (intro ownedI [OF keys_sound_owned [OF sound]]) (auto simp: request_of_def)
  moreover have "fair_request ?r" using told k(3) by (auto simp: fair_request_def request_of_def row_told_def)
  moreover have "still_current (id_keys (kw_db w)) (kw_spent w) ?r"
    using k(1) by (auto simp: still_current_def request_of_def)
  moreover have "justified (kw_spent w) (exchange_of 0 ?r)"
  proof -
    have "\<exists>x \<in> set (kw_spent w). ex_key x = ak_id k \<and> kw_now w \<le> ex_done x + refresh_retry_grace_seconds"
      if e: "e \<in> set (kw_spent w)" "ex_token e = digest token" for e
    proof -
      have "ex_key e = ak_id k"
        using ownedD(7) [OF keys_sound_owned [OF sound]] spent_belongs [OF e(1)] row_belongs [OF k(1) tok] e(2) by simp
      with told e(1) obtain x where x: "x \<in> set (kw_spent w)" "ex_key x = ak_id k" "ak_refresh_rotated_at k = Some (ex_done x)"
        unfolding row_told_def by blast
      have "ak_refresh_token_hash k \<noteq> Some (digest token)"
        using told e by (auto simp: row_told_def uses_def filter_empty_conv)
      with k(3) x show ?thesis by (auto simp: within_retry_grace_def)
    qed
    then show ?thesis by (auto simp: justified_def exchange_of_def request_of_def)
  qed
  ultimately show ?thesis using sound by (auto simp: keys_sound_def)
qed

text \<open>The commit of a request: the row gets the tokens of its rotation, the log one more exchange.\<close>

lemma keys_sound_commit:
  assumes sound: "keys_sound w" and r: "r \<in> set (kw_flight w)" and fresh: "digest rp \<notin> set (kw_issued w)"
  shows "keys_sound (w\<lparr>kw_db := commit_rotation digest (kw_now w) (rf_key r) kp rp (kw_db w),
      kw_flight := remove1 r (kw_flight w), kw_spent := kw_spent w @ [exchange_of (kw_now w) r],
      kw_issued := kw_issued w @ [digest rp]\<rparr>)"
proof -
  let ?now = "kw_now w" and ?i = "ak_id (rf_key r)" and ?e = "exchange_of (kw_now w) r" and ?new = "digest rp"
  let ?k = "rotate_pair digest (kw_now w) kp rp (rf_key r)" and ?ks = "id_keys (kw_db w)"
  let ?ks' = "update_rows (\<lambda>x. ak_id x = ak_id (rf_key r)) (store_rotation ?k) ?ks"
  let ?w = "w\<lparr>kw_db := commit_rotation digest (kw_now w) (rf_key r) kp rp (kw_db w),
      kw_flight := remove1 r (kw_flight w), kw_spent := kw_spent w @ [exchange_of (kw_now w) r],
      kw_issued := kw_issued w @ [digest rp]\<rparr>"
  have ks': "id_keys (kw_db ?w) = ?ks'" by (simp add: commit_rotation_def)
  note owned = keys_sound_owned [OF sound]
  note tok = ownedD(6) [OF owned r] and i = ownedD(5) [OF owned r] and issued = ownedD(3) [OF owned]
  have e: "ex_key ?e = ?i" "ex_token ?e = rf_token r" "ex_done ?e = ?now" "ex_seen ?e = rf_seen r" "ex_looked ?e = rf_looked r"
    by (simp_all add: exchange_of_def)
  have ktok: "tokens ?k = ?new # (case ak_refresh_token_hash (rf_key r) of None \<Rightarrow> [] | Some g \<Rightarrow> [g])" by (simp add: tokens_def)
  have old_refresh: "belongs w ?i g" if "ak_refresh_token_hash (rf_key r) = Some g" for g
    using that by (intro flight_belongs [OF r]) (simp add: tokens_def)
  have row: "(x \<in> set ?ks \<and> ak_id x \<noteq> ?i) \<or> (\<exists>y \<in> set ?ks. ak_id y = ?i \<and> x = store_rotation ?k y)" if "x \<in> set ?ks'" for x
    using that by (auto simp: set_update_rows)
  have ids: "map ak_id ?ks' = map ak_id ?ks" by (simp add: map_update_rows_same)
  then have ids_set: "ak_id ` set ?ks' = ak_id ` set ?ks" by (metis list.set_map)
  have belongs: "belongs w j h \<or> j = ?i \<and> h = ?new" if "belongs ?w j h" for j h
  proof -
    from that consider x where "x \<in> set ?ks'" "ak_id x = j" "h \<in> set (tokens x)"
      | q where "q \<in> set (remove1 r (kw_flight w))" "ak_id (rf_key q) = j" "h \<in> set (tokens (rf_key q))"
      | x where "x \<in> set (kw_spent w)" "ex_key x = j" "ex_token x = h" | "j = ?i" "h = rf_token r"
      unfolding belongs_def holders_def ks' by (auto simp: e)
    then show ?thesis
    proof cases
      case 1
      from row [OF 1(1)] show ?thesis
      proof (elim disjE bexE conjE)
        assume "x \<in> set ?ks"
        with row_belongs 1(2,3) show ?thesis by blast
      next
        fix y assume y: "ak_id y = ?i" "x = store_rotation ?k y"
        with 1(3) have "h = ?new \<or> ak_refresh_token_hash (rf_key r) = Some h" by (auto simp: ktok split: option.splits)
        moreover have "j = ?i" using 1(2) y by simp
        ultimately show ?thesis using old_refresh by blast
      qed
    next
      case 2
      have "q \<in> set (kw_flight w)" using 2(1) set_remove1_subset by (rule rev_subsetD)
      from flight_belongs [OF this 2(3)] show ?thesis using 2(2) by simp
    next
      case 3
      with spent_belongs [OF 3(1)] show ?thesis by simp
    next
      case 4
      then show ?thesis using flight_belongs [OF r tok] by simp
    qed
  qed
  have "owned ?w"
  proof (rule ownedI [OF owned])
    show "distinct (map ak_id (id_keys (kw_db ?w)))" unfolding ks' ids by (rule ownedD(1) [OF owned])
    show "distinct (tokens x)" if "x \<in> set (id_keys (kw_db ?w))" for x
    proof -
      have "distinct (tokens ?k)" using old_refresh issued fresh by (auto simp: ktok split: option.splits)
      with row [OF that [unfolded ks']] ownedD(2) [OF owned] show ?thesis by auto
    qed
    show "belongs w j h \<or> j = ?i \<and> ?i \<in> ak_id ` set (id_keys (kw_db ?w)) \<and> h = ?new \<and> ?new \<in> set (kw_issued ?w) - set (kw_issued w)"
      if "belongs ?w j h" for j h using belongs [OF that] fresh i unfolding ks' ids_set by auto
    show "q \<in> set (kw_flight w) \<or> ak_id (rf_key q) \<in> ak_id ` set (id_keys (kw_db ?w)) \<and> rf_token q \<in> set (tokens (rf_key q))"
      if "q \<in> set (kw_flight ?w)" for q using that notin_set_remove1 by auto
  qed (unfold ks' ids_set, auto)
  moreover have told: "row_told ?now (kw_spent w @ [?e]) x" if x: "x \<in> set ?ks'" for x
    using row [OF x]
  proof (elim disjE bexE conjE)
    assume x: "x \<in> set ?ks" "ak_id x \<noteq> ?i"
    have "rf_token r \<noteq> h" if "ak_refresh_token_hash x = Some h" for h
      using row_belongs [OF x(1), of h] ownedD(7) [OF owned _ flight_belongs [OF r tok]] x(2) that by (auto simp: tokens_def)
    with x sound show ?thesis by (auto simp: keys_sound_def row_told_def e)
  next
    fix y assume "y \<in> set ?ks" "ak_id y = ?i" "x = store_rotation ?k y"
    moreover have "uses (kw_spent w @ [?e]) ?new = []"
    proof (rule uses_fresh)
      have "ex_token x \<noteq> ?new" if "x \<in> set (kw_spent w)" for x
        using issued [OF spent_belongs [OF that]] fresh by metis
      moreover have "rf_token r \<noteq> ?new" using issued [OF flight_belongs [OF r tok]] fresh by metis
      ultimately show "?new \<notin> ex_token ` set (kw_spent w @ [?e])" by (force simp: e)
    qed
    ultimately show ?thesis by (auto simp: row_told_def e)
  qed
  moreover have "fair_request q \<and> still_current ?ks' (kw_spent w @ [?e]) q \<and> justified (kw_spent w @ [?e]) (exchange_of 0 q)"
    if q: "q \<in> set (remove1 r (kw_flight w))" for q
  proof -
    have old: "fair_request q" "still_current ?ks (kw_spent w) q" "justified (kw_spent w) (exchange_of 0 q)"
      using q sound notin_set_remove1 by (fastforce simp: keys_sound_def)+
    have seen: "rf_seen q \<le> length (kw_spent w)" using old(3) by (simp add: justified_def exchange_of_def)
    have "still_current ?ks' (kw_spent w @ [?e]) q"
      unfolding still_current_def
    proof
      assume quiet: "\<forall>x \<in> set (drop (rf_seen q) (kw_spent w @ [?e])). ex_key x \<noteq> ak_id (rf_key q)"
      then have "?i \<noteq> ak_id (rf_key q)" "\<forall>x \<in> set (drop (rf_seen q) (kw_spent w)). ex_key x \<noteq> ak_id (rf_key q)"
        using seen by (auto simp: e)
      with old(2) obtain k where k: "k \<in> set ?ks" "ak_id k = ak_id (rf_key q)" "ak_id k \<noteq> ?i"
        "ak_refresh_token_hash k = ak_refresh_token_hash (rf_key q)" "ak_prior_refresh_token_hash k = ak_prior_refresh_token_hash (rf_key q)"
        "ak_refresh_rotated_at k = ak_refresh_rotated_at (rf_key q)" unfolding still_current_def by metis
      then have "k \<in> set ?ks'" by (auto simp: set_update_rows)
      with k show "\<exists>k \<in> set ?ks'. ak_id k = ak_id (rf_key q) \<and> ak_refresh_token_hash k = ak_refresh_token_hash (rf_key q) \<and>
        ak_prior_refresh_token_hash k = ak_prior_refresh_token_hash (rf_key q) \<and>
        ak_refresh_rotated_at k = ak_refresh_rotated_at (rf_key q)" by blast
    qed
    with old justified_snoc show ?thesis by blast
  qed
  moreover have "justified (kw_spent w @ [?e]) x" if "x \<in> set (kw_spent w @ [?e])" for x
  proof -
    have "justified (kw_spent w) (exchange_of 0 r)" "\<forall>x \<in> set (kw_spent w). justified (kw_spent w) x"
      using sound r by (simp_all add: keys_sound_def)
    moreover have "justified (kw_spent w) ?e = justified (kw_spent w) (exchange_of 0 r)" by (simp add: justified_def exchange_of_def)
    ultimately show ?thesis using that justified_snoc by auto
  qed
  moreover have "(\<forall>x \<in> set ?ks'. quiet_row (kw_spent w @ [?e]) x) \<and> (\<forall>h. brief (uses (kw_spent w @ [?e]) h))"
    if one: "one_at_a_time (kw_spent w @ [?e])"
  proof -
    have before: "one_at_a_time (kw_spent w)" and quiet: "\<forall>x \<in> set (drop (rf_seen r) (kw_spent w)). ex_key x \<noteq> ?i"
      using one by (simp_all add: one_at_a_time_snoc e)
    have "still_current ?ks (kw_spent w) r" and fair: "fair_request r" using sound r by (simp_all add: keys_sound_def)
    then obtain k where k: "k \<in> set ?ks" "ak_id k = ?i" "ak_refresh_token_hash k = ak_refresh_token_hash (rf_key r)"
      "ak_prior_refresh_token_hash k = ak_prior_refresh_token_hash (rf_key r)" "ak_refresh_rotated_at k = ak_refresh_rotated_at (rf_key r)"
      using quiet unfolding still_current_def by blast
    have kept: "row_told ?now (kw_spent w) k" "quiet_row (kw_spent w) k" "\<forall>h. brief (uses (kw_spent w) h)"
      using sound before k(1) by (simp_all add: keys_sound_def)
    have "uses (kw_spent w) (rf_token r) = [] \<or> (\<exists>a. uses (kw_spent w) (rf_token r) = [a] \<and>
        ak_refresh_rotated_at (rf_key r) = Some (ex_done a) \<and> within_retry_grace (rf_looked r) (rf_key r))"
      using fair kept(1,2) k(3-5) unfolding fair_request_def row_told_def quiet_row_def by metis
    moreover have "t \<le> rf_looked r" if "ak_refresh_rotated_at (rf_key r) = Some t" for t
      using fair that by (simp add: fair_request_def)
    ultimately have "brief (uses (kw_spent w) (rf_token r) @ [?e])" by (auto simp: within_retry_grace_def e)
    then have "\<forall>h. brief (uses (kw_spent w @ [?e]) h)" using kept(3) by (auto simp: e)
    moreover have "quiet_row (kw_spent w @ [?e]) x" if x: "x \<in> set ?ks'" for x
      using row [OF x]
    proof (elim disjE bexE conjE)
      assume x: "x \<in> set ?ks" "ak_id x \<noteq> ?i"
      have "rf_token r \<noteq> h" if "ak_prior_refresh_token_hash x = Some h" for h
        using row_belongs [OF x(1), of h] ownedD(7) [OF owned _ flight_belongs [OF r tok]] x(2) that by (auto simp: tokens_def)
      moreover have "quiet_row (kw_spent w) x" using sound before x(1) by (simp add: keys_sound_def)
      ultimately show ?thesis by (auto simp: quiet_row_def e)
    next
      fix y assume y: "y \<in> set ?ks" "ak_id y = ?i" "x = store_rotation ?k y"
      have "uses (kw_spent w) g = []" if "ak_refresh_token_hash (rf_key r) = Some g" for g
        using kept(1) k(3) that by (simp add: row_told_def)
      with y(3) show ?thesis by (auto simp: quiet_row_def e)
    qed
    ultimately show ?thesis by blast
  qed
  ultimately show ?thesis unfolding keys_sound_def ks' by auto
qed

lemma renews_keeps_sound: "renews digest w w' \<Longrightarrow> keys_sound w \<Longrightarrow> keys_sound w'"
proof (induction rule: renews.induct)
  case (mint k w refresh_plain)
  then show ?case
    using keys_sound_mint [of w "make_interactive digest (kw_now w) refresh_plain k" "[digest refresh_plain]"]
    by (simp add: make_interactive_def tokens_def)
next
  case (mint_service k w)
  then show ?case using keys_sound_mint [of w k "[]"] by (simp add: plain_key_def tokens_def)
next
  case (dropped w r)
  then show ?case using set_remove1_subset by (rule keys_sound_flight)
next
  case (refused w token e db')
  from look_up_Inl [OF refused.hyps] show ?case
  proof
    assume "db' = kw_db w"
    then show ?thesis using keys_sound_same [OF refused.prems, of db'] by simp
  next
    assume "\<exists>i. db' = set_key i deactivate (kw_db w)"
    then show ?thesis using keys_sound_deactivate [OF refused.prems, of db'] by auto
  qed
qed (simp_all add: keys_sound_revoke keys_sound_same keys_sound_deactivate keys_sound_tick keys_sound_look_up keys_sound_commit)

text \<open>The world before any key is minted.\<close>

definition no_keys :: "identity \<Rightarrow> timestamp \<Rightarrow> key_world" where
  "no_keys db now = \<lparr>kw_now = now, kw_db = db\<lparr>id_keys := []\<rparr>, kw_flight = [], kw_spent = [], kw_issued = []\<rparr>"

lemma reachable_keys_sound: "(renews digest)\<^sup>*\<^sup>* (no_keys db now) w \<Longrightarrow> keys_sound w"
proof (induction rule: rtranclp_induct)
  case base
  show ?case by (simp add: no_keys_def keys_sound_def owned_def belongs_def holders_def)
qed (rule renews_keeps_sound)

lemma brief_cases: "brief es \<Longrightarrow> es = [] \<or> (\<exists>a. es = [a]) \<or>
    (\<exists>a b. es = [a, b] \<and> ex_done a \<le> ex_looked b \<and> ex_looked b \<le> ex_done a + refresh_retry_grace_seconds)"
  by (cases es rule: brief.cases) auto

text \<open>C6: A refresh token is good for one exchange and one honest retry. However look-ups, commits, new keys, revocations and
  lost requests interleave: an exchange of a token that had been exchanged before was looked up within the grace of a rotation
  of its key; and where no two refreshes of one key overlap, a token is exchanged at most twice, the second time looked up no
  later than the grace after the first.\<close>

theorem a_refresh_token_is_spent_once:
  assumes "(renews digest)\<^sup>*\<^sup>* (no_keys db now) w"
  shows "(\<forall>e \<in> set (kw_spent w). (\<exists>x \<in> set (take (ex_seen e) (kw_spent w)). ex_token x = ex_token e) \<longrightarrow>
      (\<exists>x \<in> set (take (ex_seen e) (kw_spent w)). ex_key x = ex_key e \<and> ex_looked e \<le> ex_done x + refresh_retry_grace_seconds)) \<and>
    (one_at_a_time (kw_spent w) \<longrightarrow>
      uses (kw_spent w) h = [] \<or> (\<exists>a. uses (kw_spent w) h = [a]) \<or>
      (\<exists>a b. uses (kw_spent w) h = [a, b] \<and> ex_done a \<le> ex_looked b \<and> ex_looked b \<le> ex_done a + refresh_retry_grace_seconds))"
proof
  note sound = reachable_keys_sound [OF assms]
  show "\<forall>e \<in> set (kw_spent w). (\<exists>x \<in> set (take (ex_seen e) (kw_spent w)). ex_token x = ex_token e) \<longrightarrow>
      (\<exists>x \<in> set (take (ex_seen e) (kw_spent w)). ex_key x = ex_key e \<and> ex_looked e \<le> ex_done x + refresh_retry_grace_seconds)"
    using sound by (simp add: keys_sound_def justified_def)
  show "one_at_a_time (kw_spent w) \<longrightarrow> uses (kw_spent w) h = [] \<or> (\<exists>a. uses (kw_spent w) h = [a]) \<or>
      (\<exists>a b. uses (kw_spent w) h = [a, b] \<and> ex_done a \<le> ex_looked b \<and> ex_looked b \<le> ex_done a + refresh_retry_grace_seconds)"
    using sound brief_cases unfolding keys_sound_def by blast
qed

text \<open>A key whose id no active row carries is gone for every lookup of a secret.\<close>

lemma deactivated_not_found:
  assumes "\<And>x. x \<in> set ks \<Longrightarrow> p x \<Longrightarrow> ak_id x = i"
  shows "find_row (\<lambda>x. p x \<and> ak_is_active x) (update_rows (\<lambda>x. ak_id x = i) deactivate ks) = None"
  using assms by (auto simp: find_row_None_iff set_update_rows)

lemma keys_apart_token:
  assumes "keys_apart ks" and "k \<in> set ks" and "x \<in> set ks" and "h \<in> set (tokens k)" and "h \<in> set (tokens x)"
  shows "x = k"
proof (rule ccontr)
  assume "x \<noteq> k"
  obtain as bs where ks: "ks = as @ k # bs" using split_list [OF assms(2)] by blast
  with \<open>x \<noteq> k\<close> assms(3) have "x \<in> set as \<union> set bs" by auto
  with assms(1,4,5) show False unfolding ks keys_apart_def by fastforce
qed

text \<open>A replayed refresh token kills the key. The token a key had before its last rotation, presented after
  the grace, is refused; and from then on the key's secret no longer authenticates and none of its refresh
  tokens is exchanged.\<close>

theorem a_replayed_token_revokes_its_key:
  assumes "presented_token digest now db token = Spent k" and "keys_apart (id_keys db)"
    and "inj_on ak_key_hash (set (id_keys db))" and "digest secret = ak_key_hash k" and "digest t \<in> set (tokens k)"
  shows "\<exists>db'. refresh_api_key digest now db token kp rp = (Inl (HttpError 401 ''refresh_token_already_used''), db') \<and>
    resolve_api_key_actor digest now' db' secret = Inl (HttpError 401 ''invalid_API_key'') \<and>
    refresh_api_key digest now' db' t kp' rp' = (Inl (HttpError 401 ''invalid_refresh_token''), db')"
proof -
  let ?ks = "id_keys db" and ?db' = "set_key (ak_id k) deactivate db"
  have k: "k \<in> set ?ks" using presented_token_found(3) [OF assms(1)] by simp
  have same: "x = k" if "x \<in> set ?ks" "digest t \<in> set (tokens x)" for x
    by (rule keys_apart_token [OF assms(2) k that(1) assms(5) that(2)])
  have "find_row (\<lambda>x. ak_key_hash x = digest secret \<and> ak_is_active x) (id_keys ?db') = None"
    unfolding set_key_fields
    by (rule deactivated_not_found) (metis assms(3,4) inj_onD k)
  then have 1: "resolve_api_key_actor digest now' ?db' secret = Inl (HttpError 401 ''invalid_API_key'')"
    by (simp add: resolve_api_key_actor_def)
  have "find_row (\<lambda>x. ak_refresh_token_hash x = Some (digest t) \<and> ak_is_active x) (id_keys ?db') = None"
    "find_row (\<lambda>x. ak_prior_refresh_token_hash x = Some (digest t) \<and> ak_is_active x) (id_keys ?db') = None"
    unfolding set_key_fields by (auto intro!: deactivated_not_found dest!: same simp: tokens_def)
  then have 2: "refresh_api_key digest now' ?db' t kp' rp' = (Inl (HttpError 401 ''invalid_refresh_token''), ?db')"
    by (simp add: refresh_api_key_def look_up_token_def presented_token_def)
  from 1 2 assms(1) show ?thesis by (simp add: refresh_api_key_def look_up_token_def)
qed

text \<open>A thief who refreshes twice goes unnoticed. Where a copied token is exchanged once and the token that
  answered once more, the device still holding the copied token is told it is invalid, nothing is revoked,
  and the thief's key keeps working.\<close>

theorem a_thief_who_refreshes_twice_keeps_the_key:
  assumes "id_keys db = [k]" and "ak_is_active k" and "ak_refresh_token_hash k = Some (digest t0)"
    and "ensure_tenant_active db (ak_tenant_id k) = Inr tn" and "ak_user_id k = Some i" and "active_user db i why = Inr u"
    and "distinct [digest t0, digest t1, digest t2]" and "now3 \<le> now2 + 24 * 3600"
  shows "case refresh_api_key digest now1 db t0 s1 t1 of (r1, db1) \<Rightarrow>
    (case refresh_api_key digest now2 db1 t1 s2 t2 of (r2, db2) \<Rightarrow>
      is_ok r1 \<and> is_ok r2 \<and>
      refresh_api_key digest now3 db2 t0 s3 t3 = (Inl (HttpError 401 ''invalid_refresh_token''), db2) \<and>
      is_ok (resolve_api_key_actor digest now3 db2 s2))"
proof -
  let ?k1 = "rotate_pair digest now1 s1 t1 k"
  let ?k2 = "rotate_pair digest now2 s2 t2 ?k1"
  let ?db1 = "db\<lparr>id_keys := [?k1]\<rparr>" and ?db2 = "db\<lparr>id_keys := [?k2]\<rparr>"
  have user: "active_user db' i w = Inr u" if "id_users db' = id_users db" for db' w
    using assms(6) that by (auto simp: active_user_def find_user_def split: option.splits if_splits)
  have tenant: "ensure_tenant_active db' (ak_tenant_id k) = Inr tn" if "id_tenants db' = id_tenants db" for db'
    using assms(4) that by (simp add: ensure_tenant_active_def find_tenant_def)
  have backed: "ensure_backed db' x = Inr ()"
    if "id_users db' = id_users db" "id_tenants db' = id_tenants db" "ak_user_id x = Some i" "ak_tenant_id x = ak_tenant_id k"
    for db' x using user [OF that(1)] tenant [OF that(2)] that(3,4) by (simp add: ensure_backed_def)
  have 1: "refresh_api_key digest now1 db t0 s1 t1 = (Inr \<lparr>kp_api_key = s1, kp_refresh_token = t1,
      kp_expires_at = interactive_expiry now1\<rparr>, ?db1)"
    using assms(1-3,5) backed [of db k]
    by (simp add: refresh_api_key_def look_up_token_def presented_token_def commit_rotation_def store_rotation_def rotate_pair_def set_key_def)
  have fields: "ak_is_active ?k1" "ak_user_id ?k1 = Some i" "ak_tenant_id ?k1 = ak_tenant_id k" "ak_id ?k2 = ak_id k"
    "ak_is_active ?k2" "ak_user_id ?k2 = Some i" "ak_tenant_id ?k2 = ak_tenant_id k" "ak_key_hash ?k2 = digest s2"
    "ak_expires_at ?k2 = Some (interactive_expiry now2)"
    using assms(2,5) by (simp_all add: rotate_pair_def)
  have 2: "refresh_api_key digest now2 ?db1 t1 s2 t2 = (Inr \<lparr>kp_api_key = s2, kp_refresh_token = t2,
      kp_expires_at = interactive_expiry now2\<rparr>, ?db2)"
    using backed [of ?db1 ?k1] fields
    by (simp add: refresh_api_key_def look_up_token_def presented_token_def commit_rotation_def store_rotation_def rotate_pair_def set_key_def)
  have 3: "refresh_api_key digest now3 ?db2 t0 s3 t3 = (Inl (HttpError 401 ''invalid_refresh_token''), ?db2)"
  proof -
    have "digest t1 \<noteq> digest t0" "digest t2 \<noteq> digest t0" using assms(7) by auto
    then show ?thesis by (simp add: refresh_api_key_def look_up_token_def presented_token_def)
  qed
  have "is_ok (resolve_api_key_actor digest now3 ?db2 s2)"
    using fields user [of ?db2] tenant [of ?db2] assms(8)
    by (simp add: resolve_api_key_actor_def is_expired_def interactive_expiry_def interactive_key_ttl_hours_def)
  with 1 2 3 show ?thesis by simp
qed

subsection \<open>Examples\<close>

definition demo_key :: api_key where
  "demo_key = \<lparr>ak_id = ''k'', ak_tenant_id = ''t'', ak_key_hash = ''s0'', ak_user_id = Some ''u'', ak_role = ''member'',
     ak_principal_kind = ''tenant_service'', ak_is_active = True, ak_expires_at = Some 86400,
     ak_refresh_token_hash = Some ''r0'', ak_prior_refresh_token_hash = None, ak_refresh_rotated_at = Some 0\<rparr>"

definition demo_spent_key :: api_key where
  "demo_spent_key = rotate_pair (\<lambda>s. s) 0 ''s1'' ''r1'' demo_key"

definition demo_owned :: "api_key list \<Rightarrow> identity" where
  "demo_owned ks = \<lparr>
     id_tenants = [\<lparr>tn_id = ''t'', tn_status = ''active'', tn_flow_runner_enabled = True\<rparr>],
     id_users = [\<lparr>us_id = ''u'', us_tenant_id = ''t'', us_email = ''a@b'', us_role = ''member'', us_status = ''active'',
       us_employee_id = None, us_password_hash = None\<rparr>],
     id_sessions = [], id_keys = ks, id_roles = [], id_subscriptions = [], id_custom_capabilities = [], id_audit = []\<rparr>"

text \<open>The key is minted, its token exchanged at 0 and once more at 30.\<close>

definition demo_world :: "timestamp \<Rightarrow> api_key list \<Rightarrow> refresh_request list \<Rightarrow> exchange list \<Rightarrow> string list \<Rightarrow> key_world" where
  "demo_world now ks fl spent issued =
     \<lparr>kw_now = now, kw_db = demo_owned ks, kw_flight = fl, kw_spent = spent, kw_issued = issued\<rparr>"

definition demo_exchange :: "timestamp \<Rightarrow> nat \<Rightarrow> exchange" where
  "demo_exchange now seen = \<lparr>ex_key = ''k'', ex_token = ''r0'', ex_looked = now, ex_done = now, ex_seen = seen\<rparr>"

lemma demo_minted: "renews (\<lambda>s. s) (no_keys (demo_owned []) 0) (demo_world 0 [demo_key] [] [] [''r0''])"
proof -
  have "no_keys (demo_owned []) 0 = demo_world 0 [] [] [] []" by (simp add: no_keys_def demo_world_def demo_owned_def)
  then show ?thesis
    using renews.mint [of demo_key "demo_world 0 [] [] [] []" "\<lambda>s. s" "''r0''"]
    by (simp add: demo_world_def demo_owned_def make_interactive_def demo_key_def interactive_expiry_def interactive_key_ttl_hours_def)
qed

lemma demo_refresh_and_retry:
  obtains w where "(renews (\<lambda>s. s))\<^sup>*\<^sup>* (no_keys (demo_owned []) 0) w" "kw_spent w = [demo_exchange 0 0, demo_exchange 30 1]"
proof -
  let ?d = "\<lambda>s :: string. s" and ?k2 = "rotate_pair (\<lambda>s. s) 30 ''s2'' ''r2'' demo_spent_key"
  let ?w1 = "demo_world 0 [demo_key] [] [] [''r0'']"
  let ?w2 = "demo_world 0 [demo_spent_key] [] [demo_exchange 0 0] [''r0'', ''r1'']"
  let ?w3 = "demo_world 30 [demo_spent_key] [] [demo_exchange 0 0] [''r0'', ''r1'']"
  let ?w4 = "demo_world 30 [?k2] [] [demo_exchange 0 0, demo_exchange 30 1] [''r0'', ''r1'', ''r2'']"
  have "refresh_api_key ?d 0 (demo_owned [demo_key]) ''r0'' ''s1'' ''r1'' =
      (Inr \<lparr>kp_api_key = ''s1'', kp_refresh_token = ''r1'', kp_expires_at = 86400\<rparr>, demo_owned [demo_spent_key])"
    by code_simp
  with refresh_is_two_steps [of ?d ?w1 "''r0''" "''s1''" "''r1''"] have 1: "(renews ?d)\<^sup>*\<^sup>* ?w1 ?w2"
    by (simp add: demo_world_def demo_owned_def exchange_of_def request_of_def demo_exchange_def demo_key_def)
  have 2: "renews ?d ?w2 ?w3" using renews.tick [of 30 ?d ?w2] by (simp add: demo_world_def)
  have "refresh_api_key ?d 30 (demo_owned [demo_spent_key]) ''r0'' ''s2'' ''r2'' =
      (Inr \<lparr>kp_api_key = ''s2'', kp_refresh_token = ''r2'', kp_expires_at = 86430\<rparr>, demo_owned [?k2])"
    by code_simp
  with refresh_is_two_steps [of ?d ?w3 "''r0''" "''s2''" "''r2''"] have 3: "(renews ?d)\<^sup>*\<^sup>* ?w3 ?w4"
    by (simp add: demo_world_def demo_owned_def exchange_of_def request_of_def demo_exchange_def demo_spent_key_def demo_key_def rotate_pair_def)
  from demo_minted 1 2 3 have "(renews ?d)\<^sup>*\<^sup>* (no_keys (demo_owned []) 0) ?w4"
    by (meson converse_rtranclp_into_rtranclp rtranclp_trans)
  then show ?thesis by (rule that) (simp add: demo_world_def)
qed

theorem a_refresh_token_is_spent_once_witness:
  "\<exists>w a b. (renews (\<lambda>s. s))\<^sup>*\<^sup>* (no_keys (demo_owned []) 0) w \<and> one_at_a_time (kw_spent w) \<and>
     uses (kw_spent w) ''r0'' = [a, b] \<and> ex_looked b \<le> ex_done a + 60"
proof -
  obtain w where w: "(renews (\<lambda>s. s))\<^sup>*\<^sup>* (no_keys (demo_owned []) 0) w" "kw_spent w = [demo_exchange 0 0, demo_exchange 30 1]"
    by (rule demo_refresh_and_retry)
  have one: "one_at_a_time (kw_spent w)" unfolding w(2) by code_simp
  moreover have "uses (kw_spent w) ''r0'' = [demo_exchange 0 0, demo_exchange 30 1]" using w(2) by (simp add: uses_def demo_exchange_def)
  ultimately show ?thesis using a_refresh_token_is_spent_once [OF w(1), of "''r0''"] w(1)
    by (fastforce simp: refresh_retry_grace_seconds_def)
qed

text \<open>Nothing locks the row between the look-up and the commit: requests that look one token up together are all answered,
  and each of the earlier answers is dead when it arrives.\<close>

lemma overlapping_refreshes_all_succeed:
  "\<exists>w. (renews (\<lambda>s. s))\<^sup>*\<^sup>* (no_keys (demo_owned []) 0) w \<and> length (uses (kw_spent w) ''r0'') = 3 \<and>
     (\<forall>t \<in> {''r1'', ''r2''}. fst (look_up_token (\<lambda>s. s) 0 (kw_db w) t) = Inl (HttpError 401 ''invalid_refresh_token''))"
proof -
  let ?d = "\<lambda>s :: string. s" and ?ks = "[demo_key]" and ?i = "[''r0'']"
  define q where "q = \<lparr>rf_key = demo_key, rf_token = ''r0'', rf_looked = 0, rf_seen = 0\<rparr>"
  define e where "e = demo_exchange 0 0"
  define k where "k s r = rotate_pair ?d 0 s r demo_key" for s r
  have look: "look_up_token ?d 0 (demo_owned [demo_key]) ''r0'' = (Inr demo_key, demo_owned [demo_key])" by code_simp
  have looks: "renews ?d (demo_world 0 ?ks fl [] ?i) (demo_world 0 ?ks (fl @ [q]) [] ?i)" for fl
    using renews.looked_up [of ?d "demo_world 0 ?ks fl [] ?i" "''r0''" demo_key] look
    by (simp add: demo_world_def q_def request_of_def)
  have commits: "renews ?d (demo_world 0 [x] (q # fl) sp is) (demo_world 0 [k s r] fl (sp @ [e]) (is @ [r]))"
    if "r \<notin> set is" "ak_id x = ''k''" "store_rotation (k s r) x = k s r" for x fl sp "is" s r
    using renews.exchanged [of q "demo_world 0 [x] (q # fl) sp is" ?d r s] that
    by (simp add: demo_world_def q_def e_def demo_exchange_def exchange_of_def commit_rotation_def set_key_def demo_owned_def k_def demo_key_def)
  have same: "store_rotation (k s r) (k s' r') = k s r" "store_rotation (k s r) demo_key = k s r" "ak_id (k s r) = ''k''" "ak_id demo_key = ''k''"
    for s r s' r' by (simp_all add: k_def store_rotation_def rotate_pair_def demo_key_def)
  note c1 = commits [of "''r1''" "[''r0'']" demo_key "''s1''" "[q, q]" "[]"]
    and c2 = commits [of "''r2''" "[''r0'', ''r1'']" "k ''s1'' ''r1''" "''s2''" "[q]" "[e]"]
    and c3 = commits [of "''r3''" "[''r0'', ''r1'', ''r2'']" "k ''s2'' ''r2''" "''s3''" "[]" "[e, e]"]
  let ?w = "demo_world 0 [k ''s3'' ''r3''] [] [e, e, e] [''r0'', ''r1'', ''r2'', ''r3'']"
  note chain = demo_minted looks [of "[]"] looks [of "[q]"] looks [of "[q, q]"] c1 [OF _ same(4,2)] c2 [OF _ same(3,1)] c3 [OF _ same(3,1)]
  have "(renews ?d)\<^sup>*\<^sup>* (no_keys (demo_owned []) 0) ?w"
    by (rule rtranclp.rtrancl_into_rtrancl [OF rtranclp.rtrancl_into_rtrancl [OF rtranclp.rtrancl_into_rtrancl [OF
          rtranclp.rtrancl_into_rtrancl [OF rtranclp.rtrancl_into_rtrancl [OF rtranclp.rtrancl_into_rtrancl [OF
          r_into_rtranclp [of "renews ?d"]]]]]]]) (use chain in simp_all)
  moreover have "length (uses (kw_spent ?w) ''r0'') = 3" by (simp add: demo_world_def uses_def e_def demo_exchange_def)
  moreover have "\<forall>t \<in> {''r1'', ''r2''}. fst (look_up_token ?d 0 (kw_db ?w) t) = Inl (HttpError 401 ''invalid_refresh_token'')"
    by (simp add: look_up_token_def presented_token_def demo_world_def demo_owned_def k_def demo_key_def rotate_pair_def)
  ultimately show ?thesis by blast
qed

theorem a_replayed_token_revokes_its_key_witness:
  "\<exists>db'. refresh_api_key (\<lambda>s. s) 61 (demo_owned [demo_spent_key]) ''r0'' ''s2'' ''r2'' =
      (Inl (HttpError 401 ''refresh_token_already_used''), db') \<and>
    resolve_api_key_actor (\<lambda>s. s) 62 db' ''s1'' = Inl (HttpError 401 ''invalid_API_key'') \<and>
    refresh_api_key (\<lambda>s. s) 62 db' ''r1'' ''s3'' ''r3'' = (Inl (HttpError 401 ''invalid_refresh_token''), db')"
proof -
  have "presented_token (\<lambda>s. s) 61 (demo_owned [demo_spent_key]) ''r0'' = Spent demo_spent_key" by code_simp
  moreover have "keys_apart (id_keys (demo_owned [demo_spent_key]))" by code_simp
  moreover have "inj_on ak_key_hash (set (id_keys (demo_owned [demo_spent_key])))" by (simp add: demo_owned_def)
  moreover have "''s1'' = ak_key_hash demo_spent_key" "''r1'' \<in> set (tokens demo_spent_key)" by code_simp+
  ultimately show ?thesis by (rule a_replayed_token_revokes_its_key)
qed

theorem a_thief_who_refreshes_twice_keeps_the_key_witness:
  "case refresh_api_key (\<lambda>s. s) 100 (demo_owned [demo_key]) ''r0'' ''s1'' ''r1'' of (r1, db1) \<Rightarrow>
    (case refresh_api_key (\<lambda>s. s) 200 db1 ''r1'' ''s2'' ''r2'' of (r2, db2) \<Rightarrow>
      is_ok r1 \<and> is_ok r2 \<and>
      refresh_api_key (\<lambda>s. s) 300 db2 ''r0'' ''s3'' ''r3'' = (Inl (HttpError 401 ''invalid_refresh_token''), db2) \<and>
      is_ok (resolve_api_key_actor (\<lambda>s. s) 300 db2 ''s2''))"
  by (rule a_thief_who_refreshes_twice_keeps_the_key [where k = demo_key and i = "''u''" and why = "''x''"
        and tn = "\<lparr>tn_id = ''t'', tn_status = ''active'', tn_flow_runner_enabled = True\<rparr>"
        and u = "hd (id_users (demo_owned []))"]; code_simp)

end
