(* ===== verification/Stock.thy ===== *)
theory Stock
  imports Accounts
begin

text \<open>
  Stock: \<open>app/services/inventory_import.py\<close>, the inventory handlers of \<open>app/api/master_data.py\<close>,
  \<open>post_shipment_stock\<close> (\<open>app/api/shipments.py\<close>) and \<open>receive_purchase_order\<close>
  (\<open>app/api/purchasing.py\<close>).

  A position is an \<open>InventoryItem\<close>: the header row is in the rows of the base state (its tenant, its
  status, who may see it), its goods and running sums are a \<open>position\<close> record under the same id. A
  \<open>movement\<close> is an \<open>InventoryItemDetail\<close>. Quantities live in \<open>Numeric(12, 2)\<close> columns, written through
  \<open>column_cents\<close>; the ten-digit limit of the columns is not modelled.
\<close>

type_synonym quantity = rat

record position =
  ps_id :: uuid
  ps_product_id :: uuid
  ps_sku_id :: "uuid option"
  ps_facility :: string
  ps_facility_id :: "uuid option"
  ps_lot_id :: string
  ps_bin_number :: "string option"
  ps_expire_date :: "int option"
  ps_unit_cost :: "money option"
  ps_on_hand :: quantity
  ps_available :: quantity

record movement =
  mv_tenant_id :: uuid
  mv_item_id :: uuid
  mv_on_hand_diff :: quantity
  mv_available_diff :: quantity
  mv_reason :: string
  mv_sales_order_id :: "uuid option"
  mv_purchase_order_id :: "uuid option"
  mv_entity_type :: "string option"
  mv_entity_id :: "uuid option"
  mv_unit_cost :: "money option"
  mv_created_by :: "string option"

record order_line =
  ol_id :: uuid
  ol_tenant_id :: uuid
  ol_order_id :: uuid
  ol_deleted :: bool
  ol_product_id :: "uuid option"
  ol_sku_id :: "uuid option"
  ol_unit_price :: "money option"
  ol_received_quantity :: quantity

record shipment_line =
  sl_id :: uuid
  sl_tenant_id :: uuid
  sl_shipment_id :: uuid
  sl_deleted :: bool
  sl_inventory_item_id :: "uuid option"
  sl_quantity :: quantity

record product =
  pr_id :: uuid
  pr_tenant_id :: uuid
  pr_code :: string
  pr_type :: string

record product_sku =
  sk_id :: uuid
  sk_tenant_id :: uuid
  sk_product_id :: uuid
  sk_code :: string

record facility =
  fc_id :: uuid
  fc_tenant_id :: uuid
  fc_name :: string

record supplier_product =
  sp_tenant_id :: uuid
  sp_product_id :: uuid
  sp_vendor_id :: uuid
  sp_last_price :: "money option"

text \<open>\<open>wh_stamps\<close> is the column \<open>stock_posted_at\<close> of the shipments, \<open>wh_payloads\<close> the column
  \<open>payload_jsonb\<close> of the business objects and \<open>wh_versions\<close> the current version of each of their types.\<close>

record warehouse =
  wh_db :: db
  wh_positions :: "position list"
  wh_movements :: "movement list"
  wh_order_lines :: "order_line list"
  wh_purchase_lines :: "order_line list"
  wh_shipment_lines :: "shipment_line list"
  wh_stamps :: "(uuid \<times> timestamp) list"
  wh_products :: "product list"
  wh_skus :: "product_sku list"
  wh_facilities :: "facility list"
  wh_suppliers :: "supplier_product list"
  wh_payloads :: "(uuid \<times> (string \<times> json) list) list"
  wh_versions :: "uuid \<times> string \<Rightarrow> int"

subsection \<open>The one write path\<close>

text \<open>A movement of one position that concerns nothing else; the callers fill in the rest.\<close>

definition movement_of :: "uuid \<Rightarrow> uuid \<Rightarrow> quantity \<Rightarrow> string \<Rightarrow> string option \<Rightarrow> movement" where
  "movement_of tenant_id item_id diff reason created_by = \<lparr>
     mv_tenant_id = tenant_id, mv_item_id = item_id, mv_on_hand_diff = diff, mv_available_diff = diff, mv_reason = reason,
     mv_sales_order_id = None, mv_purchase_order_id = None, mv_entity_type = None, mv_entity_id = None,
     mv_unit_cost = None, mv_created_by = created_by\<rparr>"

definition post_inventory_detail :: "warehouse \<Rightarrow> movement \<Rightarrow> quantity option \<Rightarrow> warehouse" where
  "post_inventory_detail w m available_to_promise_diff =
     (let diff = mv_on_hand_diff m;
          atp_diff = (case available_to_promise_diff of None \<Rightarrow> diff | Some d \<Rightarrow> d) in
      w\<lparr>wh_movements := wh_movements w @ [m\<lparr>mv_on_hand_diff := column_cents diff, mv_available_diff := column_cents atp_diff\<rparr>],
        wh_positions := update_rows (\<lambda>p. ps_id p = mv_item_id m)
          (\<lambda>p. p\<lparr>ps_on_hand := column_cents (ps_on_hand p + diff), ps_available := column_cents (ps_available p + atp_diff)\<rparr>)
          (wh_positions w)\<rparr>)"

definition get_position :: "warehouse \<Rightarrow> uuid \<Rightarrow> position option" where
  "get_position w i = find_row (\<lambda>p. ps_id p = i) (wh_positions w)"

definition tenant_of_item :: "warehouse \<Rightarrow> uuid \<Rightarrow> uuid option" where
  "tenant_of_item w i = map_option row_tenant_id (get_row (wh_db w) InventoryItem i)"

definition find_inventory_item ::
    "warehouse \<Rightarrow> uuid \<Rightarrow> uuid \<Rightarrow> uuid option \<Rightarrow> string \<Rightarrow> string \<Rightarrow> position option" where
  "find_inventory_item w tenant_id product_id sku_id facility lot_id =
     find_row (\<lambda>p. tenant_of_item w (ps_id p) = Some tenant_id \<and> ps_product_id p = product_id \<and>
        ps_facility p = facility \<and> ps_lot_id p = lot_id \<and>
        ps_sku_id p = (if sku_id = Some [] then None else sku_id)) (wh_positions w)"

text \<open>\<open>db.add(InventoryItem(...)); db.flush()\<close>: the header with a fresh id and the empty position.\<close>

definition item_row :: "uuid \<Rightarrow> uuid \<Rightarrow> string \<Rightarrow> row" where
  "item_row i tenant_id status = \<lparr>
     row_model = InventoryItem, row_id = i, row_tenant_id = tenant_id, row_status = status, row_deleted_at = None,
     row_deleted_by = None, row_delete_reason = None, row_employee_id = None, row_payee_employee_id = None,
     row_customer_id = None, row_vendor_id = None, row_created_by = None, row_direction = [], row_side = [],
     row_order_kind = [], row_object_type = [], row_number = [], row_name = [], row_submitted_at = None,
     row_currency = ''CNY'', row_amount = 0, row_total_amount = None, row_applied_amount = 0, row_billing_account_id = None,
     row_sales_order_id = None, row_purchase_order_id = None, row_expense_claim_id = None, row_quotation_id = None,
     row_unit_type = [], row_unit = [], row_credit_limit = 0, row_balance = 0, row_created_at = 0, row_other = []\<rparr>"

definition add_position :: "warehouse \<Rightarrow> uuid \<Rightarrow> string \<Rightarrow> position \<Rightarrow> uuid \<times> warehouse" where
  "add_position w tenant_id status p =
     (let i = fresh_id (wh_db w) in
      (i, w\<lparr>wh_db := tick (wh_db w)\<lparr>db_rows := db_rows (wh_db w) @ [item_row i tenant_id status]\<rparr>,
            wh_positions := wh_positions w @ [p\<lparr>ps_id := i, ps_on_hand := 0, ps_available := 0\<rparr>]\<rparr>))"

definition require_inventory_manage :: "actor \<Rightarrow> unit result" where
  "require_inventory_manage a = require_permission a ''inventory.manage'' None"

subsection \<open>Positions\<close>

record create_item =
  ci_product_id :: uuid
  ci_sku_id :: "uuid option"
  ci_facility :: string
  ci_facility_id :: "uuid option"
  ci_lot_id :: string
  ci_bin_number :: "string option"
  ci_expire_date :: "int option"
  ci_unit_cost :: "money option"
  ci_status :: string
  ci_initial_quantity :: "quantity option"
  ci_initial_reason :: string

definition scoped_product :: "warehouse \<Rightarrow> uuid \<Rightarrow> uuid \<Rightarrow> product result" where
  "scoped_product w tenant_id i =
     (case find_row (\<lambda>p. pr_id p = i \<and> pr_tenant_id p = tenant_id) (wh_products w) of
        None \<Rightarrow> Inl (HttpError 404 ''not_found'') | Some p \<Rightarrow> Inr p)"

definition scoped_sku :: "warehouse \<Rightarrow> uuid \<Rightarrow> uuid \<Rightarrow> product_sku result" where
  "scoped_sku w tenant_id i =
     (case find_row (\<lambda>s. sk_id s = i \<and> sk_tenant_id s = tenant_id) (wh_skus w) of
        None \<Rightarrow> Inl (HttpError 404 ''not_found'') | Some s \<Rightarrow> Inr s)"

definition scoped_facility :: "warehouse \<Rightarrow> uuid \<Rightarrow> uuid \<Rightarrow> facility result" where
  "scoped_facility w tenant_id i =
     (case find_row (\<lambda>f. fc_id f = i \<and> fc_tenant_id f = tenant_id) (wh_facilities w) of
        None \<Rightarrow> Inl (HttpError 404 ''not_found'') | Some f \<Rightarrow> Inr f)"

text \<open>The registered name backfills the identity string; two different names are refused.\<close>

definition named_facility :: "warehouse \<Rightarrow> uuid \<Rightarrow> string \<Rightarrow> uuid option \<Rightarrow> string result" where
  "named_facility w tenant_id facility facility_id =
     (if facility_id = None \<or> facility_id = Some [] then Inr facility
      else bindE (scoped_facility w tenant_id (the facility_id)) (\<lambda>registered.
        if facility = [] then Inr (fc_name registered)
        else bindE (ensure (facility = fc_name registered) 422 ''facility_does_not_match'') (\<lambda>_. Inr facility)))"

definition create_inventory_item :: "warehouse \<Rightarrow> actor \<Rightarrow> create_item \<Rightarrow> (uuid \<times> warehouse) result" where
  "create_inventory_item w a payload =
     (let tenant_id = ac_tenant_id a in
      bindE (require_inventory_manage a) (\<lambda>_.
      bindE (scoped_product w tenant_id (ci_product_id payload)) (\<lambda>_.
      bindE (if ci_sku_id payload = None \<or> ci_sku_id payload = Some [] then Inr ()
             else bindE (scoped_sku w tenant_id (the (ci_sku_id payload))) (\<lambda>sku.
               ensure (sk_product_id sku = ci_product_id payload) 400 ''sku_id_does_not_belong_to_product_id'')) (\<lambda>_.
      bindE (named_facility w tenant_id (strip (ci_facility payload)) (ci_facility_id payload)) (\<lambda>facility.
      let lot_id = strip (ci_lot_id payload) in
      bindE (ensure (find_inventory_item w tenant_id (ci_product_id payload) (ci_sku_id payload) facility lot_id = None)
               409 ''position_exists'') (\<lambda>_.
      let (i, w1) = add_position w tenant_id (ci_status payload) \<lparr>
            ps_id = [], ps_product_id = ci_product_id payload, ps_sku_id = ci_sku_id payload, ps_facility = facility,
            ps_facility_id = ci_facility_id payload, ps_lot_id = lot_id, ps_bin_number = ci_bin_number payload,
            ps_expire_date = ci_expire_date payload, ps_unit_cost = map_option column_cents (ci_unit_cost payload),
            ps_on_hand = 0, ps_available = 0\<rparr>;
          q = (case ci_initial_quantity payload of None \<Rightarrow> 0 | Some q \<Rightarrow> q)
      in Inr (i, if q = 0 then w1
                 else post_inventory_detail w1 ((movement_of tenant_id i q (ci_initial_reason payload) (Some (attributed a None)))
                        \<lparr>mv_unit_cost := ci_unit_cost payload\<rparr>) None)))))))"

text \<open>\<open>archive_row\<close>, which \<open>delete_inventory_item\<close> calls.\<close>

definition delete_inventory_item :: "warehouse \<Rightarrow> actor \<Rightarrow> uuid \<Rightarrow> warehouse result" where
  "delete_inventory_item w a item_id =
     bindE (require_permission a ''inventory.manage'' None) (\<lambda>_.
     bindE (get_scoped_or_404 (wh_db w) InventoryItem (ac_tenant_id a) item_id) (\<lambda>r.
     Inr (w\<lparr>wh_db := set_row InventoryItem item_id (\<lambda>r. r\<lparr>row_status := ''archived''\<rparr>) (wh_db w)\<rparr>)))"

text \<open>A PATCH body: \<open>None\<close> is a field left out, \<open>Some None\<close> an explicit null.\<close>

record update_item =
  ui_facility :: "string option option"
  ui_lot_id :: "string option option"
  ui_facility_id :: "uuid option option"
  ui_bin_number :: "string option option"
  ui_expire_date :: "int option option"
  ui_unit_cost :: "money option option"
  ui_status :: "string option option"

definition given_or :: "'a option \<Rightarrow> 'a \<Rightarrow> 'a" where
  "given_or x old = (case x of None \<Rightarrow> old | Some v \<Rightarrow> v)"

text \<open>\<open>None.strip()\<close> raises; a null for \<open>status\<close> fails its NOT NULL constraint; two positions may not
  share product or sku, facility and lot.\<close>

definition AttributeError :: http_error where
  "AttributeError = HttpError 500 ''AttributeError''"

definition stripped :: "string option option \<Rightarrow> string \<Rightarrow> string result" where
  "stripped x old = (case x of None \<Rightarrow> Inr old | Some None \<Rightarrow> Inl AttributeError | Some (Some v) \<Rightarrow> Inr (strip v))"

definition same_place :: "position \<Rightarrow> position \<Rightarrow> bool" where
  "same_place p q \<longleftrightarrow> ps_facility p = ps_facility q \<and> ps_lot_id p = ps_lot_id q \<and> ps_sku_id p = ps_sku_id q \<and>
     (ps_sku_id p = None \<longrightarrow> ps_product_id p = ps_product_id q)"

definition update_inventory_item :: "warehouse \<Rightarrow> actor \<Rightarrow> uuid \<Rightarrow> update_item \<Rightarrow> warehouse result" where
  "update_inventory_item w a item_id payload =
     (let tenant_id = ac_tenant_id a in
      bindE (require_inventory_manage a) (\<lambda>_.
      bindE (get_scoped_or_404 (wh_db w) InventoryItem tenant_id item_id) (\<lambda>_.
      bindE (case ui_facility_id payload of
               Some (Some f) \<Rightarrow> if f = [] then Inr () else bindE (scoped_facility w tenant_id f) (\<lambda>_. Inr ())
             | _ \<Rightarrow> Inr ()) (\<lambda>_.
      case get_position w item_id of
        None \<Rightarrow> Inl (HttpError 404 ''not_found'')
      | Some p \<Rightarrow>
          bindE (stripped (ui_facility payload) (ps_facility p)) (\<lambda>facility.
          bindE (stripped (ui_lot_id payload) (ps_lot_id p)) (\<lambda>lot_id.
          bindE (ensure (ui_status payload \<noteq> Some None) 500 ''IntegrityError'') (\<lambda>_.
          let assign = (\<lambda>q. q\<lparr>ps_facility := facility, ps_lot_id := lot_id,
                ps_facility_id := given_or (ui_facility_id payload) (ps_facility_id q),
                ps_bin_number := given_or (ui_bin_number payload) (ps_bin_number q),
                ps_expire_date := given_or (ui_expire_date payload) (ps_expire_date q),
                ps_unit_cost := (case ui_unit_cost payload of None \<Rightarrow> ps_unit_cost q
                                 | Some c \<Rightarrow> map_option column_cents c)\<rparr>) in
          bindE (ensure (\<not> list_ex (\<lambda>q. ps_id q \<noteq> item_id \<and> tenant_of_item w (ps_id q) = Some tenant_id \<and>
                     same_place q (assign p)) (wh_positions w)) 409 ''position_exists'') (\<lambda>_.
          Inr (w\<lparr>wh_positions := update_rows (\<lambda>q. ps_id q = item_id) assign (wh_positions w),
                 wh_db := (case ui_status payload of
                     Some (Some s) \<Rightarrow> set_row InventoryItem item_id (\<lambda>r. r\<lparr>row_status := s\<rparr>) (wh_db w)
                   | _ \<Rightarrow> wh_db w)\<rparr>)))))))))"

subsection \<open>Holding stock for an order\<close>

definition EPSILON :: quantity where
  "EPSILON = 1 / 1000000000"

definition hold_reason :: "movement \<Rightarrow> bool" where
  "hold_reason m \<longleftrightarrow> mv_reason m \<in> set [''reserved'', ''reservation_released'']"

text \<open>What the \<open>reserved\<close>/\<open>reservation_released\<close> rows of an order add up to at a position, negated.\<close>

definition held_for :: "warehouse \<Rightarrow> uuid \<Rightarrow> uuid \<Rightarrow> uuid \<Rightarrow> quantity" where
  "held_for w tenant_id item_id order_id =
     - sum_where (\<lambda>m. mv_tenant_id m = tenant_id \<and> mv_item_id m = item_id \<and> mv_sales_order_id m = Some order_id \<and>
         hold_reason m) mv_available_diff (wh_movements w)"

definition require_hold_within_bounds ::
    "warehouse \<Rightarrow> uuid \<Rightarrow> position \<Rightarrow> string \<Rightarrow> quantity \<Rightarrow> uuid \<Rightarrow> unit result" where
  "require_hold_within_bounds w tenant_id item reason atp sales_order_id =
     bindE (ensure (\<not> (reason = ''reserved'' \<and> ps_available item + atp < 0)) 409 ''hold_below_zero'') (\<lambda>_.
     ensure (\<not> (reason = ''reservation_released'' \<and> held_for w tenant_id (ps_id item) sales_order_id + EPSILON < atp))
       409 ''release_exceeds_hold'')"

definition order_lines_by_goods :: "warehouse \<Rightarrow> row \<Rightarrow> (uuid \<times> uuid option) list" where
  "order_lines_by_goods w order =
     map (\<lambda>l. (the (ol_product_id l), ol_sku_id l))
       (filter (\<lambda>l. ol_tenant_id l = row_tenant_id order \<and> ol_order_id l = row_id order \<and> \<not> ol_deleted l \<and>
          ol_product_id l \<noteq> None) (wh_order_lines w))"

definition require_order_line :: "warehouse \<Rightarrow> row \<Rightarrow> position \<Rightarrow> string option \<Rightarrow> unit result" where
  "require_order_line w order item order_item_id =
     (case order_item_id of
        None \<Rightarrow> Inr ()
      | Some s \<Rightarrow> (case db_uuid_in (wh_db w) s of
          None \<Rightarrow> Inl (HttpError 422 ''order_item_id_is_not_an_id'')
        | Some i \<Rightarrow> (case find_row (\<lambda>l. ol_tenant_id l = row_tenant_id order \<and> ol_order_id l = row_id order \<and> ol_id l = i \<and>
                         \<not> ol_deleted l) (wh_order_lines w) of
            None \<Rightarrow> Inl (HttpError 422 ''not_a_live_line_of_the_order'')
          | Some l \<Rightarrow> ensure (\<not> (ol_product_id l \<noteq> Some (ps_product_id item) \<or>
                                ol_sku_id l \<noteq> None \<and> ol_sku_id l \<noteq> ps_sku_id item)) 422 ''line_sells_other_goods'')))"

text \<open>A posting names a live position: its header row and its sums.\<close>

definition active_position :: "warehouse \<Rightarrow> uuid \<Rightarrow> uuid \<Rightarrow> position result" where
  "active_position w tenant_id item_id =
     bindE (require_active_row (wh_db w) InventoryItem tenant_id (Some item_id)) (\<lambda>_.
     case get_position w item_id of None \<Rightarrow> Inl (HttpError 404 ''not_found'') | Some p \<Rightarrow> Inr p)"

definition position_for_order :: "warehouse \<Rightarrow> row \<Rightarrow> uuid \<Rightarrow> position result" where
  "position_for_order w order item_id =
     bindE (active_position w (row_tenant_id order) item_id) (\<lambda>item.
     let goods = order_lines_by_goods w order in
     bindE (ensure ((ps_product_id item, ps_sku_id item) \<in> set goods \<or> (ps_product_id item, None) \<in> set goods)
              422 ''order_has_no_line_for_the_goods'') (\<lambda>_. Inr item))"

record hold_line =
  hl_item_id :: uuid
  hl_quantity :: quantity
  hl_order_item_id :: "string option"

definition reserve_line :: "actor \<Rightarrow> row \<Rightarrow> warehouse \<Rightarrow> hold_line \<Rightarrow> warehouse result" where
  "reserve_line a order w line =
     bindE (position_for_order w order (hl_item_id line)) (\<lambda>item.
     bindE (require_order_line w order item (hl_order_item_id line)) (\<lambda>_.
     bindE (require_hold_within_bounds w (ac_tenant_id a) item ''reserved'' (- hl_quantity line) (row_id order)) (\<lambda>_.
     let named = (case hl_order_item_id line of None \<Rightarrow> None | Some s \<Rightarrow> if s = [] then None else db_uuid_in (wh_db w) s) in
     Inr (post_inventory_detail w
       ((movement_of (ac_tenant_id a) (ps_id item) 0 ''reserved'' (Some (attributed a None)))
          \<lparr>mv_entity_type := map_option (\<lambda>_. ''sales_order_item'') named, mv_entity_id := named,
           mv_sales_order_id := Some (row_id order)\<rparr>)
       (Some (- hl_quantity line))))))"

text \<open>The order a hold is for: live, and not in a state nothing follows.\<close>

definition reserve_stock_for_order :: "warehouse \<Rightarrow> actor \<Rightarrow> uuid \<Rightarrow> hold_line list \<Rightarrow> warehouse result" where
  "reserve_stock_for_order w a order_id lines =
     bindE (require_inventory_manage a) (\<lambda>_.
     bindE (get_active_document_or_404 (wh_db w) SalesOrder (ac_tenant_id a) order_id) (\<lambda>order.
     bindE (get_builtin_machine (db_definitions (wh_db w)) (ac_tenant_id a) ''sales_order'') (\<lambda>machine.
     bindE (ensure (\<not> is_terminal_state machine (row_status order)) 409 ''nothing_to_hold_for'') (\<lambda>_.
     foldE (reserve_line a order) w (sort_key hl_item_id lines)))))"

definition outstanding_holds :: "warehouse \<Rightarrow> uuid \<Rightarrow> uuid \<Rightarrow> (uuid \<times> quantity) list" where
  "outstanding_holds w tenant_id order_id =
     map (\<lambda>i. (i, held_for w tenant_id i order_id))
       (remdups (map mv_item_id (filter (\<lambda>m. mv_tenant_id m = tenant_id \<and> mv_sales_order_id m = Some order_id \<and> hold_reason m)
          (wh_movements w))))"

definition release_line :: "actor \<Rightarrow> row \<Rightarrow> warehouse \<Rightarrow> uuid \<times> quantity \<Rightarrow> warehouse result" where
  "release_line a order w = (\<lambda>(item_id, quantity).
     bindE (active_position w (ac_tenant_id a) item_id) (\<lambda>item.
     bindE (require_hold_within_bounds w (ac_tenant_id a) item ''reservation_released'' quantity (row_id order)) (\<lambda>_.
     Inr (post_inventory_detail w
       ((movement_of (ac_tenant_id a) (ps_id item) 0 ''reservation_released'' (Some (attributed a None)))
          \<lparr>mv_sales_order_id := Some (row_id order)\<rparr>)
       (Some quantity)))))"

definition release_stock_for_order :: "warehouse \<Rightarrow> actor \<Rightarrow> uuid \<Rightarrow> (uuid \<times> quantity) list \<Rightarrow> warehouse result" where
  "release_stock_for_order w a order_id lines =
     bindE (require_inventory_manage a) (\<lambda>_.
     bindE (get_active_document_or_404 (wh_db w) SalesOrder (ac_tenant_id a) order_id) (\<lambda>order.
     let wanted = (if lines \<noteq> [] then lines
                   else filter (\<lambda>(i, q). EPSILON < q) (outstanding_holds w (ac_tenant_id a) (row_id order)))
     in foldE (release_line a order) w (sort_key fst wanted)))"

subsection \<open>Posting a shipment\<close>

text \<open>\<open>_release_hold\<close>: \<open>held\<close> is what the order still holds at each position, drawn down as lines consume it.\<close>

definition release_hold ::
    "actor \<Rightarrow> row \<Rightarrow> shipment_line \<Rightarrow> uuid \<Rightarrow> (uuid \<times> quantity) list \<times> warehouse \<Rightarrow> (uuid \<times> quantity) list \<times> warehouse" where
  "release_hold a shipment l item_id = (\<lambda>(held, w).
     let outstanding = dict_value held item_id in
     if outstanding \<le> 0 then (held, w)
     else let released = min (sl_quantity l) outstanding in
       (map (\<lambda>(i, q). (i, if i = item_id then outstanding - released else q)) held,
        post_inventory_detail w
          ((movement_of (ac_tenant_id a) item_id 0 ''reservation_released'' (Some (attributed a None)))
             \<lparr>mv_entity_type := Some ''shipment_item'', mv_entity_id := Some (sl_id l),
              mv_sales_order_id := row_sales_order_id shipment\<rparr>)
          (Some released)))"

text \<open>The unique index of the ledger: one effect of one kind per shipment line. A movement is flushed as it is
  written, so the index answers there.\<close>

definition effect_key :: "movement \<Rightarrow> uuid \<times> string option \<times> string" where
  "effect_key m = (mv_tenant_id m, mv_entity_id m, mv_reason m)"

definition effects_unique :: "movement list \<Rightarrow> bool" where
  "effects_unique ms \<longleftrightarrow> distinct (map effect_key (filter (\<lambda>m. mv_entity_type m = Some ''shipment_item'') ms))"

definition post_shipment_line ::
    "actor \<Rightarrow> row \<Rightarrow> quantity \<Rightarrow> string \<Rightarrow> (uuid \<times> quantity) list \<times> warehouse \<Rightarrow> shipment_line \<Rightarrow>
     ((uuid \<times> quantity) list \<times> warehouse) result" where
  "post_shipment_line a shipment sign reason = (\<lambda>(held, w) l.
     case sl_inventory_item_id l of
       None \<Rightarrow> Inr (held, w)
     | Some item_id \<Rightarrow>
         bindE (active_position w (ac_tenant_id a) item_id) (\<lambda>item.
         let (held', w') = release_hold a shipment l (ps_id item) (held, w);
             w'' = post_inventory_detail w'
               ((movement_of (ac_tenant_id a) (ps_id item) (sign * sl_quantity l) reason (Some (attributed a None)))
                  \<lparr>mv_entity_type := Some ''shipment_item'', mv_entity_id := Some (sl_id l),
                   mv_sales_order_id := row_sales_order_id shipment, mv_purchase_order_id := row_purchase_order_id shipment\<rparr>)
               None
         in bindE (ensure (effects_unique (wh_movements w'')) 500 ''IntegrityError'') (\<lambda>_. Inr (held', w''))))"

definition live_shipment_lines :: "warehouse \<Rightarrow> row \<Rightarrow> shipment_line list" where
  "live_shipment_lines w shipment =
     filter (\<lambda>l. sl_tenant_id l = row_tenant_id shipment \<and> sl_shipment_id l = row_id shipment \<and> \<not> sl_deleted l)
       (wh_shipment_lines w)"

definition inbound_reason :: "db \<Rightarrow> row \<Rightarrow> string" where
  "inbound_reason db shipment =
     (let linked = (case row_sales_order_id shipment of
                      Some i \<Rightarrow> get_row db SalesOrder i
                    | None \<Rightarrow> Option.bind (row_purchase_order_id shipment) (get_row db PurchaseOrder))
      in case linked of
           Some o' \<Rightarrow> if row_order_kind o' = ''return'' then ''returned'' else ''received''
         | None \<Rightarrow> ''received'')"

definition post_shipment_stock :: "timestamp \<Rightarrow> warehouse \<Rightarrow> actor \<Rightarrow> uuid \<Rightarrow> warehouse result" where
  "post_shipment_stock now w a shipment_id =
     bindE (require_permission a ''shipment.manage'' None) (\<lambda>_.
     case lock_for_update (wh_db w) (ac_tenant_id a) Shipment shipment_id of
       None \<Rightarrow> Inl (HttpError 404 ''Shipment_not_found'')
     | Some shipment \<Rightarrow>
         bindE (ensure_document_not_deleted shipment) (\<lambda>_.
         bindE (ensure (map_of (wh_stamps w) shipment_id = None) 409 ''already_posted'') (\<lambda>_.
         let sign = (if row_direction shipment = ''inbound'' then 1 else - 1);
             reason = (if row_direction shipment = ''inbound'' then inbound_reason (wh_db w) shipment else ''issued'');
             held = (case row_sales_order_id shipment of
                       Some order_id \<Rightarrow> if sign < 0 then outstanding_holds w (ac_tenant_id a) order_id else []
                     | None \<Rightarrow> [])
         in bindE (foldE (post_shipment_line a shipment sign reason) (held, w) (live_shipment_lines w shipment)) (\<lambda>(_, w').
         Inr (w'\<lparr>wh_stamps := (shipment_id, now) # wh_stamps w'\<rparr>)))))"

subsection \<open>Receiving a purchase order\<close>

record receive_line =
  rl_po_item_id :: uuid
  rl_quantity :: quantity
  rl_facility :: "string option"
  rl_lot_id :: "string option"
  rl_bin_number :: "string option"
  rl_expire_date :: "int option"
  rl_unit_cost :: "money option"

definition first_some :: "'a option \<Rightarrow> 'a option \<Rightarrow> 'a option" where
  "first_some x y = (case x of None \<Rightarrow> y | Some v \<Rightarrow> Some v)"

text \<open>The position a receipt lands in, made on the spot when there is none.\<close>

definition landing_position :: "warehouse \<Rightarrow> uuid \<Rightarrow> order_line \<Rightarrow> receive_line \<Rightarrow> string \<Rightarrow> (uuid \<times> warehouse) result" where
  "landing_position w tenant_id item line facility =
     (let product_id = first_some (ol_product_id item)
            (Option.bind (ol_sku_id item) (\<lambda>s. map_option sk_product_id (find_row (\<lambda>k. sk_id k = s) (wh_skus w))));
          lot_id = given_or (rl_lot_id line) []
      in case product_id of
           None \<Rightarrow> Inl (HttpError 422 ''needs_a_cataloged_product'')
         | Some pid \<Rightarrow> (case find_inventory_item w tenant_id pid (ol_sku_id item) facility lot_id of
             Some p \<Rightarrow> Inr (ps_id p, w)
           | None \<Rightarrow> Inr (add_position w tenant_id ''active'' \<lparr>
               ps_id = [], ps_product_id = pid, ps_sku_id = ol_sku_id item, ps_facility = facility, ps_facility_id = None,
               ps_lot_id = lot_id, ps_bin_number = rl_bin_number line, ps_expire_date = rl_expire_date line,
               ps_unit_cost = map_option column_cents (first_some (rl_unit_cost line) (ol_unit_price item)),
               ps_on_hand = 0, ps_available = 0\<rparr>)))"

definition receive_one :: "actor \<Rightarrow> row \<Rightarrow> warehouse \<Rightarrow> receive_line \<Rightarrow> warehouse result" where
  "receive_one a po w line =
     (case find_row (\<lambda>l. ol_id l = rl_po_item_id line \<and> ol_tenant_id l = ac_tenant_id a \<and> \<not> ol_deleted l)
             (wh_purchase_lines w) of
        None \<Rightarrow> Inl (HttpError 404 ''not_found'')
      | Some item \<Rightarrow>
          bindE (ensure (ol_order_id item = row_id po) 400 ''po_item_id_does_not_belong_to_po_id'') (\<lambda>_.
          bindE (case rl_facility line of
              None \<Rightarrow> Inr w
            | Some facility \<Rightarrow> bindE (landing_position w (ac_tenant_id a) item line facility) (\<lambda>(i, w1).
                Inr (post_inventory_detail w1
                  ((movement_of (ac_tenant_id a) i (rl_quantity line) ''received'' (Some (attributed a None)))
                     \<lparr>mv_purchase_order_id := Some (row_id po), mv_entity_type := Some ''purchase_order_item'',
                      mv_entity_id := Some (ol_id item), mv_unit_cost := first_some (rl_unit_cost line) (ol_unit_price item)\<rparr>)
                  None))) (\<lambda>w2.
          Inr (w2\<lparr>wh_purchase_lines := update_rows (\<lambda>l. ol_id l = ol_id item)
                   (\<lambda>l. l\<lparr>ol_received_quantity := column_cents (ol_received_quantity l + rl_quantity line)\<rparr>) (wh_purchase_lines w2),
                 wh_suppliers := (case (ol_product_id item, ol_unit_price item, row_vendor_id po) of
                     (Some pid, Some price, Some vendor) \<Rightarrow>
                       update_rows (\<lambda>s. sp_tenant_id s = ac_tenant_id a \<and> sp_product_id s = pid \<and> sp_vendor_id s = vendor)
                         (\<lambda>s. s\<lparr>sp_last_price := Some price\<rparr>) (wh_suppliers w2)
                   | _ \<Rightarrow> wh_suppliers w2)\<rparr>))))"

definition receive_purchase_order :: "warehouse \<Rightarrow> actor \<Rightarrow> uuid \<Rightarrow> receive_line list \<Rightarrow> warehouse result" where
  "receive_purchase_order w a po_id lines =
     bindE (require_permission a ''purchase_order.manage'' None) (\<lambda>_.
     bindE (get_active_document_or_404 (wh_db w) PurchaseOrder (ac_tenant_id a) po_id) (\<lambda>po.
     bindE (ensure (row_order_kind po \<noteq> ''return'') 422 ''goods_leave_on_a_purchase_return'') (\<lambda>_.
     bindE (foldE (receive_one a po) w lines) (\<lambda>w'.
     Inr (w'\<lparr>wh_db := record_audit (ac_tenant_id a) ''purchase_order.received'' ''purchase_order'' (row_id po)
       (Some (label a)) (wh_db w')\<rparr>)))))"

end
