(* ===== verification/Stock_Import.thy ===== *)
theory Stock_Import
  imports Stock
begin

text \<open>
  The stock-take import (\<open>bulk_inventory_upsert\<close> of \<open>app/services/inventory_import.py\<close> behind
  \<open>bulk_upsert_inventory\<close> of \<open>app/api/master_data.py\<close>): counted quantities become movements. A movement's
  description is not modelled.
\<close>

record count_row =
  cn_product_code :: string
  cn_sku_code :: "string option"
  cn_facility :: string
  cn_lot_id :: string
  cn_quantity :: quantity
  cn_bin_number :: "string option"
  cn_expire_date :: "int option"
  cn_unit_cost :: "money option"

datatype outcome = Created uuid | Updated uuid "string list" | Unchanged uuid | Failed string

definition failed :: "nat \<times> outcome \<Rightarrow> bool" where
  "failed r = (case snd r of Failed _ \<Rightarrow> True | _ \<Rightarrow> False)"

definition row_code :: "count_row \<Rightarrow> string" where
  "row_code r = strip (cn_product_code r)"

definition row_sku :: "count_row \<Rightarrow> string" where
  "row_sku r = strip (case cn_sku_code r of None \<Rightarrow> [] | Some s \<Rightarrow> s)"

definition row_key :: "count_row \<Rightarrow> string \<times> string \<times> string \<times> string" where
  "row_key r = (row_code r, row_sku r, strip (cn_facility r), strip (cn_lot_id r))"

text \<open>Pass 1, without the session: a blank code or a position named twice is the row's own error.\<close>

fun prepare_rows ::
    "(string \<times> string \<times> string \<times> string) list \<Rightarrow> (nat \<times> count_row) list \<Rightarrow>
     (nat \<times> outcome) list \<times> (nat \<times> count_row) list" where
  "prepare_rows seen [] = ([], [])"
| "prepare_rows seen ((index, r) # rest) =
     (if row_code r = [] then
        (let (errors, kept) = prepare_rows seen rest in ((index, Failed ''product_code_is_required'') # errors, kept))
      else if row_key r \<in> set seen then
        (let (errors, kept) = prepare_rows seen rest in ((index, Failed ''duplicate_stock_position'') # errors, kept))
      else (let (errors, kept) = prepare_rows (row_key r # seen) rest in (errors, (index, r) # kept)))"

text \<open>Codes are resolved to master data; a dict of the rows found keeps the last of equal codes.\<close>

definition product_of_code :: "warehouse \<Rightarrow> uuid \<Rightarrow> string \<Rightarrow> product option" where
  "product_of_code w tenant_id code =
     find_row (\<lambda>p. pr_tenant_id p = tenant_id \<and> pr_code p = code) (rev (wh_products w))"

definition sku_of_code :: "warehouse \<Rightarrow> uuid \<Rightarrow> uuid \<Rightarrow> string \<Rightarrow> product_sku option" where
  "sku_of_code w tenant_id product_id code =
     find_row (\<lambda>s. sk_tenant_id s = tenant_id \<and> sk_product_id s = product_id \<and> sk_code s = code) (rev (wh_skus w))"

definition row_goods :: "warehouse \<Rightarrow> uuid \<Rightarrow> count_row \<Rightarrow> string + (uuid \<times> uuid option)" where
  "row_goods w tenant_id r =
     (case product_of_code w tenant_id (row_code r) of
        None \<Rightarrow> Inl ''unknown_product_code''
      | Some p \<Rightarrow> if row_sku r = [] then Inr (pr_id p, None)
          else (case sku_of_code w tenant_id (pr_id p) (row_sku r) of
                  None \<Rightarrow> Inl ''unknown_sku_code''
                | Some s \<Rightarrow> Inr (pr_id p, Some (sk_id s))))"

fun resolve_rows ::
    "warehouse \<Rightarrow> uuid \<Rightarrow> (nat \<times> count_row) list \<Rightarrow>
     (nat \<times> outcome) list \<times> (nat \<times> count_row \<times> uuid \<times> uuid option) list" where
  "resolve_rows w tenant_id [] = ([], [])"
| "resolve_rows w tenant_id ((index, r) # rest) =
     (let (errors, kept) = resolve_rows w tenant_id rest in
      case row_goods w tenant_id r of
        Inl why \<Rightarrow> ((index, Failed why) # errors, kept)
      | Inr (pid, sid) \<Rightarrow> (errors, (index, r, pid, sid) # kept))"

text \<open>\<open>same_value\<close>: a number is compared as the column would store it, anything else as it is; a null in the
  row leaves the field alone.\<close>

definition field_change :: "string \<Rightarrow> 'a option \<Rightarrow> 'a option \<Rightarrow> string list" where
  "field_change name old new = (if new \<noteq> None \<and> old \<noteq> new then [name] else [])"

definition changed_fields :: "position \<Rightarrow> count_row \<Rightarrow> string list" where
  "changed_fields p r =
     field_change ''bin_number'' (ps_bin_number p) (cn_bin_number r) @
     field_change ''expire_date'' (ps_expire_date p) (cn_expire_date r) @
     field_change ''unit_cost'' (ps_unit_cost p) (map_option column_cents (cn_unit_cost r))"

definition set_fields :: "count_row \<Rightarrow> position \<Rightarrow> position" where
  "set_fields r p = p\<lparr>ps_bin_number := first_some (cn_bin_number r) (ps_bin_number p),
     ps_expire_date := first_some (cn_expire_date r) (ps_expire_date p),
     ps_unit_cost := first_some (map_option column_cents (cn_unit_cost r)) (ps_unit_cost p)\<rparr>"

definition count_one ::
    "uuid \<Rightarrow> string option \<Rightarrow> (nat \<times> outcome) list \<times> warehouse \<Rightarrow> nat \<times> count_row \<times> uuid \<times> uuid option \<Rightarrow>
     (nat \<times> outcome) list \<times> warehouse" where
  "count_one tenant_id created_by = (\<lambda>(results, w) (index, r, pid, sid).
     let facility = strip (cn_facility r); lot_id = strip (cn_lot_id r) in
     case find_inventory_item w tenant_id pid sid facility lot_id of
       None \<Rightarrow>
         (let (i, w1) = add_position w tenant_id ''active'' \<lparr>
                ps_id = [], ps_product_id = pid, ps_sku_id = sid, ps_facility = facility, ps_facility_id = None,
                ps_lot_id = lot_id, ps_bin_number = cn_bin_number r, ps_expire_date = cn_expire_date r,
                ps_unit_cost = map_option column_cents (cn_unit_cost r), ps_on_hand = 0, ps_available = 0\<rparr>
          in (results @ [(index, Created i)],
              post_inventory_detail w1 ((movement_of tenant_id i (cn_quantity r) ''import_initial'' created_by)
                \<lparr>mv_unit_cost := cn_unit_cost r\<rparr>) None))
     | Some p \<Rightarrow>
         (let w1 = w\<lparr>wh_positions := update_rows (\<lambda>q. ps_id q = ps_id p) (set_fields r) (wh_positions w)\<rparr>;
              counted = ps_on_hand p \<noteq> quantize_half_up (cn_quantity r);
              diff = round2 (cn_quantity r - ps_on_hand p);
              w2 = (if counted then post_inventory_detail w1
                      ((movement_of tenant_id (ps_id p) diff ''import_override'' created_by)\<lparr>mv_unit_cost := cn_unit_cost r\<rparr>) None
                    else w1);
              changed = changed_fields p r @ (if counted then [''quantity_on_hand''] else [])
          in (results @ [(index, if changed \<noteq> [] then Updated (ps_id p) changed else Unchanged (ps_id p))], w2)))"

text \<open>The answer: the results by row, and whether they were applied. What is not applied is rolled back.\<close>

definition bulk_inventory_upsert ::
    "warehouse \<Rightarrow> uuid \<Rightarrow> count_row list \<Rightarrow> bool \<Rightarrow> string \<Rightarrow> string option \<Rightarrow>
     (nat \<times> outcome) list \<times> bool \<times> warehouse" where
  "bulk_inventory_upsert w tenant_id rows dry_run on_error created_by =
     (let (errors1, prepared) = prepare_rows [] (List.enumerate 0 rows);
          (errors2, kept) = resolve_rows w tenant_id prepared;
          results = errors1 @ errors2
      in if on_error = ''abort'' \<and> list_ex failed results then (sort_key fst results, False, w)
         else let (results', w') = fold (\<lambda>x acc. count_one tenant_id created_by acc x) kept (results, w)
              in (sort_key fst results', \<not> dry_run, w'))"

definition bulk_upsert_inventory ::
    "warehouse \<Rightarrow> actor \<Rightarrow> count_row list \<Rightarrow> bool \<Rightarrow> string \<Rightarrow> ((nat \<times> outcome) list \<times> warehouse) result" where
  "bulk_upsert_inventory w a rows dry_run on_error =
     bindE (require_inventory_manage a) (\<lambda>_.
     case bulk_inventory_upsert w (ac_tenant_id a) rows dry_run on_error (Some (attributed a None)) of
       (results, applied, w') \<Rightarrow>
         Inr (results, if \<not> applied then w
                       else w'\<lparr>wh_db := record_audit (ac_tenant_id a) ''inventory.imported'' ''tenant'' (ac_tenant_id a)
                              (Some (label a)) (wh_db w')\<rparr>))"

end
