(* ===== verification/Stock_Objects.thy ===== *)
theory Stock_Objects
  imports Stock
begin

text \<open>
  The bridges from a workspace's own documents to the two ledgers: \<open>post_business_object_stock\<close> and
  \<open>post_business_object_entries\<close> of \<open>app/api/objects.py\<close>. A document's lines are JSON the workspace
  wrote, so the handlers meet every kind of value; \<open>pyfloat\<close> is what \<open>float()\<close> makes of one.
\<close>

datatype pyfloat = Fin rat | Inf | NegInf | NaN

definition ValueError :: http_error where
  "ValueError = HttpError 500 ''ValueError''"

subsection \<open>\<open>float()\<close> and \<open>Decimal()\<close> of a JSON value\<close>

definition digit_of :: "char \<Rightarrow> nat option" where
  "digit_of c = (let n = of_char c :: nat in if 48 \<le> n \<and> n \<le> 57 then Some (n - 48) else None)"

fun digits_value :: "int \<Rightarrow> string \<Rightarrow> int option" where
  "digits_value acc [] = Some acc"
| "digits_value acc (c # s) = (case digit_of c of None \<Rightarrow> None | Some d \<Rightarrow> digits_value (acc * 10 + int d) s)"

text \<open>A plain decimal literal: sign, digits, fraction. The answer is the integer of all its digits and how
  many of them are the fraction. Exponents and digit separators are not read.\<close>

definition unsigned_literal :: "string \<Rightarrow> (int \<times> nat) option" where
  "unsigned_literal s =
     (case partition_at CHR ''.'' s of (whole, _, fraction) \<Rightarrow>
        if whole @ fraction = [] then None
        else map_option (\<lambda>n. (n, length fraction)) (digits_value 0 (whole @ fraction)))"

definition decimal_literal :: "string \<Rightarrow> (int \<times> nat) option" where
  "decimal_literal s =
     (let t = strip s in
      if startswith t ''-'' then map_option (\<lambda>(n, k). (- n, k)) (unsigned_literal (drop 1 t))
      else if startswith t ''+'' then unsigned_literal (drop 1 t)
      else unsigned_literal t)"

definition literal_value :: "int \<times> nat \<Rightarrow> rat" where
  "literal_value = (\<lambda>(n, k). of_int n / 10 ^ k)"

definition float_of_string :: "string \<Rightarrow> pyfloat result" where
  "float_of_string s =
     (let t = lower (strip s) in
      if t \<in> set [''nan'', ''+nan'', ''-nan''] then Inr NaN
      else if t \<in> set [''inf'', ''+inf'', ''infinity'', ''+infinity''] then Inr Inf
      else if t \<in> set [''-inf'', ''-infinity''] then Inr NegInf
      else (case decimal_literal s of None \<Rightarrow> Inl ValueError | Some l \<Rightarrow> Inr (Fin (literal_value l))))"

fun py_float :: "json \<Rightarrow> pyfloat result" where
  "py_float JNull = Inl TypeError"
| "py_float (JBool b) = Inr (Fin (if b then 1 else 0))"
| "py_float (JNum x) = Inr (Fin x)"
| "py_float (JStr s) = float_of_string s"
| "py_float (JList _) = Inl TypeError"
| "py_float (JObj _) = Inl TypeError"

text \<open>\<open>try: float(v) except (TypeError, ValueError): 0.0\<close>\<close>

definition float_or_zero :: "json \<Rightarrow> pyfloat" where
  "float_or_zero v = (case py_float v of Inl _ \<Rightarrow> Fin 0 | Inr x \<Rightarrow> x)"

definition nonzero_finite :: "pyfloat \<Rightarrow> rat option" where
  "nonzero_finite x = (case x of Fin q \<Rightarrow> if q = 0 then None else Some q | _ \<Rightarrow> None)"

fun truthy :: "json \<Rightarrow> bool" where
  "truthy JNull = False"
| "truthy (JBool b) = b"
| "truthy (JNum x) = (x \<noteq> 0)"
| "truthy (JStr s) = (s \<noteq> [])"
| "truthy (JList xs) = (xs \<noteq> [])"
| "truthy (JObj d) = (d \<noteq> [])"

fun plus_float :: "pyfloat \<Rightarrow> pyfloat \<Rightarrow> pyfloat" where
  "plus_float (Fin x) (Fin y) = Fin (x + y)"
| "plus_float NaN _ = NaN"
| "plus_float _ NaN = NaN"
| "plus_float Inf NegInf = NaN"
| "plus_float NegInf Inf = NaN"
| "plus_float Inf _ = Inf"
| "plus_float NegInf _ = NegInf"
| "plus_float _ y = y"

text \<open>\<open>abs(total) > 1e-9\<close>: no comparison with a NaN is true.\<close>

definition exceeds_epsilon :: "pyfloat \<Rightarrow> bool" where
  "exceeds_epsilon x = (case x of Fin q \<Rightarrow> EPSILON < \<bar>q\<bar> | Inf \<Rightarrow> True | NegInf \<Rightarrow> True | NaN \<Rightarrow> False)"

text \<open>How many decimals \<open>Decimal(str(v))\<close> carries beyond the cent.\<close>

definition finer_than_cents :: "json \<Rightarrow> bool result" where
  "finer_than_cents v =
     (case v of
        JNum x \<Rightarrow> Inr (\<not> in_cents x)
      | JStr s \<Rightarrow> (case decimal_literal s of None \<Rightarrow> Inl (HttpError 500 ''InvalidOperation'') | Some (_, k) \<Rightarrow> Inr (2 < k))
      | _ \<Rightarrow> Inl (HttpError 500 ''InvalidOperation''))"

subsection \<open>Shared guards\<close>

definition get_field :: "(string \<times> json) list \<Rightarrow> string \<Rightarrow> json" where
  "get_field d k = dict_get d k JNull"

definition object_fields :: "json \<Rightarrow> (string \<times> json) list option" where
  "object_fields v = (case v of JObj d \<Rightarrow> Some d | _ \<Rightarrow> None)"

text \<open>\<open>str(v)\<close> of the ids a line names; a value that is no string names no row.\<close>

definition id_text :: "json \<Rightarrow> string" where
  "id_text v = (case v of JStr s \<Rightarrow> s | _ \<Rightarrow> [])"

definition payload_of :: "warehouse \<Rightarrow> uuid \<Rightarrow> (string \<times> json) list" where
  "payload_of w i = dict_get (wh_payloads w) i []"

definition require_same_definition :: "warehouse \<Rightarrow> uuid \<Rightarrow> row \<Rightarrow> bool \<Rightarrow> unit result" where
  "require_same_definition w tenant_id business_object defined =
     (let filed = get_field (payload_of w (row_id business_object)) ''definition_version'' in
      ensure (\<not> (filed \<noteq> JNull \<and> defined \<and>
          filed \<noteq> JNum (of_int (wh_versions w (tenant_id, row_object_type business_object)))))
        409 ''filed_under_another_definition'')"

definition line_total :: "string \<Rightarrow> (string \<times> json) list list \<Rightarrow> pyfloat result" where
  "line_total key lines =
     foldE (\<lambda>acc d. bindE (let v = get_field d key in if truthy v then py_float v else Inr (Fin 0)) (\<lambda>x.
       Inr (plus_float acc x))) (Fin 0) lines"

definition effect_invariants :: "string \<Rightarrow> (string \<times> json) list list \<Rightarrow> string \<Rightarrow> unit result" where
  "effect_invariants reason lines key =
     (if reason \<noteq> ''transfer'' then Inr ()
      else bindE (line_total key lines) (\<lambda>total.
        ensure (\<not> (length lines < 2 \<or> exceeds_epsilon total)) 422 ''a_transfer_nets_to_zero''))"

definition payload_lines :: "(string \<times> json) list \<Rightarrow> json list result" where
  "payload_lines payload =
     (case get_field payload ''lines'' of
        JList xs \<Rightarrow> if xs = [] then Inl (HttpError 422 ''payload_lines_must_not_be_empty'') else Inr xs
      | _ \<Rightarrow> Inl (HttpError 422 ''payload_lines_must_not_be_empty''))"

definition dict_update :: "'k \<Rightarrow> 'v \<Rightarrow> ('k \<times> 'v) list \<Rightarrow> ('k \<times> 'v) list" where
  "dict_update k v d = (if k \<in> fst ` set d then map (\<lambda>(k', v'). (k', if k' = k then v else v')) d else d @ [(k, v)])"

text \<open>What posts and when: the document, the effect its type declares and the lines it carries.\<close>

definition posting_document ::
    "warehouse \<Rightarrow> uuid \<Rightarrow> uuid \<Rightarrow> (machine \<Rightarrow> (string \<times> string) option) \<Rightarrow> (row \<times> string \<times> json list) result" where
  "posting_document w tenant_id object_id effect_of =
     (case lock_for_update (wh_db w) tenant_id BusinessObject object_id of
        None \<Rightarrow> Inl (HttpError 404 ''not_found'')
      | Some b \<Rightarrow>
          bindE (ensure (row_deleted_at b = None) 404 ''not_found'') (\<lambda>_.
          let definition' = get_definition (db_definitions (wh_db w)) tenant_id ''business_object'' (row_object_type b) in
          bindE (require_same_definition w tenant_id b (definition' \<noteq> None)) (\<lambda>_.
          case Option.bind (Option.bind definition' td_state_machine) effect_of of
            None \<Rightarrow> Inl (HttpError 422 ''type_declares_no_effect'')
          | Some (reason, state) \<Rightarrow>
              bindE (ensure (row_status b = state) 409 ''posts_in_another_state'') (\<lambda>_.
              bindE (payload_lines (payload_of w object_id)) (\<lambda>lines. Inr (b, reason, lines))))))"

definition dict_lines :: "json list \<Rightarrow> (string \<times> json) list list" where
  "dict_lines lines = List.map_filter object_fields lines"

subsection \<open>Posting stock\<close>

text \<open>The goods the lines of a transfer name, of the positions that exist.\<close>

definition transfer_goods :: "warehouse \<Rightarrow> json list \<Rightarrow> (uuid \<times> uuid option) list" where
  "transfer_goods w lines =
     remdups (map (\<lambda>p. (ps_product_id p, ps_sku_id p))
       (List.map_filter (\<lambda>d. let v = get_field d ''inventory_item_id'' in
          if truthy v then get_position w (id_text v) else None) (dict_lines lines)))"

definition optional_float :: "json \<Rightarrow> money option result" where
  "optional_float v =
     (if v = JNull then Inr None
      else bindE (py_float v) (\<lambda>x. case x of Fin q \<Rightarrow> Inr (Some q) | _ \<Rightarrow> Inl (HttpError 500 ''DataError'')))"

definition post_object_line :: "actor \<Rightarrow> row \<Rightarrow> string \<Rightarrow> warehouse \<Rightarrow> json \<Rightarrow> warehouse result" where
  "post_object_line a b reason w line =
     (case object_fields line of
        None \<Rightarrow> Inl (HttpError 422 ''needs_inventory_item_id'')
      | Some d \<Rightarrow>
          bindE (ensure (truthy (get_field d ''inventory_item_id'')) 422 ''needs_inventory_item_id'') (\<lambda>_.
          case nonzero_finite (float_or_zero (get_field d ''quantity_on_hand_diff'')) of
            None \<Rightarrow> Inl (HttpError 422 ''needs_a_non_zero_quantity'')
          | Some diff \<Rightarrow>
              bindE (active_position w (ac_tenant_id a) (id_text (get_field d ''inventory_item_id''))) (\<lambda>item.
              bindE (optional_float (get_field d ''unit_cost'')) (\<lambda>unit_cost.
              Inr (post_inventory_detail w
                ((movement_of (ac_tenant_id a) (ps_id item) diff reason (Some (attributed a None)))
                   \<lparr>mv_entity_type := Some ''business_object'', mv_entity_id := Some (row_id b), mv_unit_cost := unit_cost\<rparr>)
                None)))))"

definition stamped :: "string \<Rightarrow> string \<Rightarrow> uuid \<Rightarrow> warehouse \<Rightarrow> warehouse" where
  "stamped key time i w = w\<lparr>wh_payloads := dict_update i (dict_update key (JStr time) (payload_of w i)) (wh_payloads w)\<rparr>"

definition cited_by_stock :: "warehouse \<Rightarrow> uuid \<Rightarrow> uuid \<Rightarrow> bool" where
  "cited_by_stock w tenant_id object_id \<longleftrightarrow>
     list_ex (\<lambda>m. mv_tenant_id m = tenant_id \<and> mv_entity_type m = Some ''business_object'' \<and> mv_entity_id m = Some object_id)
       (wh_movements w)"

text \<open>\<open>time\<close> is the posting time in ISO form, as it is stored in the payload.\<close>

definition post_business_object_stock :: "string \<Rightarrow> warehouse \<Rightarrow> actor \<Rightarrow> uuid \<Rightarrow> warehouse result" where
  "post_business_object_stock time w a object_id =
     bindE (require_permission a ''inventory.manage'' None) (\<lambda>_.
     bindE (posting_document w (ac_tenant_id a) object_id m_stock_effect) (\<lambda>(b, reason, lines).
     bindE (ensure (\<not> cited_by_stock w (ac_tenant_id a) object_id) 409 ''already_posted'') (\<lambda>_.
     bindE (effect_invariants reason (dict_lines lines) ''quantity_on_hand_diff'') (\<lambda>_.
     bindE (ensure (\<not> (reason = ''transfer'' \<and> 1 < length (transfer_goods w lines))) 422 ''a_transfer_moves_one_product'') (\<lambda>_.
     bindE (foldE (post_object_line a b reason) w lines) (\<lambda>w'.
     let w'' = stamped ''stock_posted_at'' time object_id w' in
     Inr (w''\<lparr>wh_db := record_audit (ac_tenant_id a) ''business_object.stock_posted'' ''business_object'' object_id
       (Some (label a)) (wh_db w'')\<rparr>)))))))"

subsection \<open>Posting account entries\<close>

text \<open>\<open>isoformat\<close> is \<open>datetime.fromisoformat\<close> after the trailing \<open>Z\<close> is spelled out.\<close>

definition entry_line_of ::
    "(string \<Rightarrow> timestamp option) \<Rightarrow> uuid \<Rightarrow> string \<Rightarrow> json \<Rightarrow> (uuid \<times> entry_line) result" where
  "entry_line_of isoformat object_id reason line =
     (case object_fields line of
        None \<Rightarrow> Inl (HttpError 422 ''needs_billing_account_id'')
      | Some d \<Rightarrow>
          bindE (ensure (truthy (get_field d ''billing_account_id'')) 422 ''needs_billing_account_id'') (\<lambda>_.
          case nonzero_finite (float_or_zero (get_field d ''amount'')) of
            None \<Rightarrow> Inl (HttpError 422 ''needs_a_non_zero_amount'')
          | Some amount \<Rightarrow>
              bindE (finer_than_cents (get_field d ''amount'')) (\<lambda>finer.
              bindE (ensure (\<not> finer) 422 ''more_than_two_decimals'') (\<lambda>_.
              bindE (case get_field d ''expires_at'' of
                       JNull \<Rightarrow> Inr None
                     | JStr s \<Rightarrow> (case isoformat s of None \<Rightarrow> Inl (HttpError 422 ''not_an_ISO_datetime'') | Some t \<Rightarrow> Inr (Some t))
                     | _ \<Rightarrow> Inl (HttpError 422 ''not_an_ISO_datetime'')) (\<lambda>expires.
              Inr (id_text (get_field d ''billing_account_id''), \<lparr>el_amount = round2 amount, el_reason = reason,
                el_entity_type = Some ''business_object'', el_entity_id = Some object_id, el_expires_at = expires\<rparr>))))))"

definition lines_by_account :: "(uuid \<times> entry_line) list \<Rightarrow> (uuid \<times> entry_line list) list" where
  "lines_by_account els =
     map (\<lambda>i. (i, map snd (filter (\<lambda>(j, _). j = i) els))) (sort (remdups (map fst els)))"

definition post_account_group ::
    "actor \<Rightarrow> string \<Rightarrow> (string \<times> string) list \<times> db \<Rightarrow> uuid \<times> entry_line list \<Rightarrow> ((string \<times> string) list \<times> db) result" where
  "post_account_group a reason = (\<lambda>(units, d) (account_id, lines).
     bindE (get_active_document_or_404 d BillingAccount (ac_tenant_id a) account_id) (\<lambda>account.
     let units' = remdups ((row_unit_type account, row_unit account) # units) in
     bindE (ensure (\<not> (reason = ''transfer'' \<and> 1 < length units')) 422 ''a_transfer_moves_one_unit'') (\<lambda>_.
     bindE (post_account_entries d d a account lines True) (\<lambda>(_, d'). Inr (units', d')))))"

definition cited_by_entries :: "db \<Rightarrow> uuid \<Rightarrow> uuid \<Rightarrow> bool" where
  "cited_by_entries d tenant_id object_id \<longleftrightarrow>
     list_ex (\<lambda>e. en_tenant_id e = tenant_id \<and> en_entity_type e = Some ''business_object'' \<and> en_entity_id e = Some object_id)
       (db_entries d)"

definition post_business_object_entries ::
    "(string \<Rightarrow> timestamp option) \<Rightarrow> string \<Rightarrow> warehouse \<Rightarrow> actor \<Rightarrow> uuid \<Rightarrow> warehouse result" where
  "post_business_object_entries isoformat time w a object_id =
     bindE (posting_document w (ac_tenant_id a) object_id m_account_effect) (\<lambda>(b, reason, lines).
     bindE (ensure (\<not> cited_by_entries (wh_db w) (ac_tenant_id a) object_id) 409 ''already_posted'') (\<lambda>_.
     bindE (mapE (entry_line_of isoformat object_id reason) lines) (\<lambda>els.
     bindE (effect_invariants reason (dict_lines lines) ''amount'') (\<lambda>_.
     bindE (foldE (post_account_group a reason) ([], wh_db w) (lines_by_account els)) (\<lambda>(_, d).
     Inr (stamped ''entries_posted_at'' time object_id
       (w\<lparr>wh_db := record_audit (ac_tenant_id a) ''business_object.entries_posted'' ''business_object'' object_id
          (Some (label a)) d\<rparr>)))))))"

end
