(* ===== verification/Simulations.thy ===== *)
theory Simulations
  imports Prelude
begin

text \<open>
  The contract between a component's handlers and an abstract machine: every accepted call of a well-formed
  state is a finite run of the machine, seen through an abstraction function. What the machine never
  does, no history of the handlers does.
\<close>

locale simulation =
  fixes commit :: "'op \<Rightarrow> 's \<Rightarrow> 's result"
    and abs_of :: "'s \<Rightarrow> 'a"
    and steps :: "'a \<Rightarrow> 'a \<Rightarrow> bool"
    and sound :: "'op \<Rightarrow> bool"
    and ok :: "'s \<Rightarrow> bool"
  assumes commit_ok: "ok s \<Longrightarrow> sound op \<Longrightarrow> commit op s = Inr s' \<Longrightarrow> ok s'"
    and commit_steps: "ok s \<Longrightarrow> sound op \<Longrightarrow> commit op s = Inr s' \<Longrightarrow> steps\<^sup>*\<^sup>* (abs_of s) (abs_of s')"
begin

lemma history_runs:
  assumes "foldE (\<lambda>s op. commit op s) s ops = Inr t" and "ok s" and "\<And>op. op \<in> set ops \<Longrightarrow> sound op"
  shows "ok t \<and> steps\<^sup>*\<^sup>* (abs_of s) (abs_of t)"
  using assms(1)
proof (rule foldE_invariant)
  show "ok s \<and> steps\<^sup>*\<^sup>* (abs_of s) (abs_of s)" using assms(2) by simp
  show "ok u' \<and> steps\<^sup>*\<^sup>* (abs_of s) (abs_of u')"
    if "op \<in> set ops" "ok u \<and> steps\<^sup>*\<^sup>* (abs_of s) (abs_of u)" "commit op u = Inr u'" for u op u'
    using that assms(3) commit_ok commit_steps by (meson rtranclp_trans)
qed

lemma history_invariant:
  assumes "foldE (\<lambda>s op. commit op s) s ops = Inr t" and "ok s" and "\<And>op. op \<in> set ops \<Longrightarrow> sound op"
    and "I (abs_of s)" and "\<And>a b. steps a b \<Longrightarrow> I a \<Longrightarrow> I b"
  shows "I (abs_of t)"
proof -
  have "steps\<^sup>*\<^sup>* (abs_of s) (abs_of t)" using history_runs [OF assms(1-3)] by blast
  then show ?thesis using assms(4,5) by (induction rule: rtranclp_induct) blast+
qed

end

end
