(* ===== verification/Stock_Laws.thy ===== *)
theory Stock_Laws
  imports Stock_Import Stock_Objects Simulations
begin

text \<open>
  What stock promises: the handlers of \<open>Stock\<close>, \<open>Stock_Import\<close> and \<open>Stock_Objects\<close> refine a shelf, a
  machine with three moves (goods come or go, a hold is taken, a hold is given back), and every position's
  running sums are the sums of its movements.
\<close>

subsection \<open>The shelf\<close>

record shelf =
  sh_on_hand :: "uuid \<Rightarrow> quantity"
  sh_free :: "uuid \<Rightarrow> quantity"
  sh_held :: "uuid \<Rightarrow> uuid \<Rightarrow> quantity"

text \<open>\<open>sh_held s order position\<close> is what an order holds there.\<close>

definition shelf_move :: "uuid \<Rightarrow> quantity \<Rightarrow> shelf \<Rightarrow> shelf" where
  "shelf_move p d s = s\<lparr>sh_on_hand := (sh_on_hand s)(p := sh_on_hand s p + d), sh_free := (sh_free s)(p := sh_free s p + d)\<rparr>"

definition shelf_hold :: "uuid \<Rightarrow> uuid \<Rightarrow> quantity \<Rightarrow> shelf \<Rightarrow> shelf" where
  "shelf_hold order p q s = s\<lparr>sh_free := (sh_free s)(p := sh_free s p - q),
     sh_held := (sh_held s)(order := (sh_held s order)(p := sh_held s order p + q))\<rparr>"

inductive shelf_step :: "shelf \<Rightarrow> shelf \<Rightarrow> bool" where
  move: "shelf_step s (shelf_move p d s)"
| hold: "0 < q \<Longrightarrow> q \<le> sh_free s p \<Longrightarrow> shelf_step s (shelf_hold order p q s)"
| give_back: "0 < q \<Longrightarrow> q \<le> sh_held s order p \<Longrightarrow> shelf_step s (shelf_hold order p (- q) s)"

definition never_negative :: "shelf \<Rightarrow> bool" where
  "never_negative s \<longleftrightarrow> (\<forall>order p. 0 \<le> sh_held s order p)"

lemma shelf_step_never_negative: "shelf_step s t \<Longrightarrow> never_negative s \<Longrightarrow> never_negative t"
  by (induction rule: shelf_step.induct) (auto simp: never_negative_def shelf_move_def shelf_hold_def)

subsection \<open>The warehouse seen as a shelf\<close>

definition is_hold :: "movement \<Rightarrow> bool" where
  "is_hold m \<longleftrightarrow> hold_reason m \<and> mv_sales_order_id m \<noteq> None"

definition held_of :: "movement list \<Rightarrow> uuid \<Rightarrow> uuid \<Rightarrow> quantity" where
  "held_of ms order p =
     - sum_where (\<lambda>m. mv_item_id m = p \<and> mv_sales_order_id m = Some order \<and> hold_reason m) mv_available_diff ms"

definition on_hand_of :: "position list \<Rightarrow> uuid \<Rightarrow> quantity" where
  "on_hand_of ps i = (case find_row (\<lambda>p. ps_id p = i) ps of None \<Rightarrow> 0 | Some p \<Rightarrow> ps_on_hand p)"

definition available_of :: "position list \<Rightarrow> uuid \<Rightarrow> quantity" where
  "available_of ps i = (case find_row (\<lambda>p. ps_id p = i) ps of None \<Rightarrow> 0 | Some p \<Rightarrow> ps_available p)"

definition shelf_of :: "warehouse \<Rightarrow> shelf" where
  "shelf_of w = \<lparr>sh_on_hand = on_hand_of (wh_positions w), sh_free = available_of (wh_positions w),
     sh_held = held_of (wh_movements w)\<rparr>"

definition moved_on_hand :: "movement list \<Rightarrow> uuid \<Rightarrow> quantity" where
  "moved_on_hand ms i = sum_where (\<lambda>m. mv_item_id m = i) mv_on_hand_diff ms"

definition moved_available :: "movement list \<Rightarrow> uuid \<Rightarrow> quantity" where
  "moved_available ms i = sum_where (\<lambda>m. mv_item_id m = i) mv_available_diff ms"

text \<open>A movement in the ledger: in cents; a hold moves availability only, anything else moves both sums alike; it
  is of a position of its own tenant.\<close>

definition sound_movement :: "warehouse \<Rightarrow> movement \<Rightarrow> bool" where
  "sound_movement w m \<longleftrightarrow> in_cents (mv_on_hand_diff m) \<and> in_cents (mv_available_diff m) \<and>
     mv_on_hand_diff m = (if is_hold m then 0 else mv_available_diff m) \<and>
     mv_item_id m \<in> ps_id ` set (wh_positions w) \<and> tenant_of_item w (mv_item_id m) = Some (mv_tenant_id m)"

definition ledger_kept :: "warehouse \<Rightarrow> bool" where
  "ledger_kept w \<longleftrightarrow> (\<forall>i. on_hand_of (wh_positions w) i = moved_on_hand (wh_movements w) i \<and>
     available_of (wh_positions w) i = moved_available (wh_movements w) i)"

text \<open>Fresh ids are fresh.\<close>

definition ids_drawn :: "warehouse \<Rightarrow> bool" where
  "ids_drawn w \<longleftrightarrow> inj (db_uuids (wh_db w)) \<and>
     (\<forall>p \<in> set (wh_positions w). ps_id p \<in> db_uuids (wh_db w) ` {..<db_next (wh_db w)}) \<and>
     (\<forall>r \<in> set (db_rows (wh_db w)). row_model r = InventoryItem \<longrightarrow> row_id r \<in> db_uuids (wh_db w) ` {..<db_next (wh_db w)})"

text \<open>The lines stored with a document, which the postings read: their quantities are in cents.\<close>

definition stored_lines :: "warehouse \<Rightarrow> shipment_line list \<times> (uuid \<Rightarrow> json)" where
  "stored_lines w = (wh_shipment_lines w, \<lambda>i. get_field (payload_of w i) ''lines'')"

definition line_in_cents :: "string \<Rightarrow> json \<Rightarrow> bool" where
  "line_in_cents key v = (case object_fields v of None \<Rightarrow> True
     | Some d \<Rightarrow> (case nonzero_finite (float_or_zero (get_field d key)) of None \<Rightarrow> True | Some q \<Rightarrow> in_cents q))"

definition lines_in_cents :: "shipment_line list \<times> (uuid \<Rightarrow> json) \<Rightarrow> bool" where
  "lines_in_cents = (\<lambda>(ls, docs). (\<forall>l \<in> set ls. 0 < sl_quantity l \<and> in_cents (sl_quantity l)) \<and>
     (\<forall>i xs. docs i = JList xs \<longrightarrow> (\<forall>v \<in> set xs. line_in_cents ''quantity_on_hand_diff'' v)))"

definition well_kept :: "warehouse \<Rightarrow> bool" where
  "well_kept w \<longleftrightarrow> (\<forall>m \<in> set (wh_movements w). sound_movement w m) \<and> ledger_kept w \<and> ids_drawn w \<and>
     (\<forall>p \<in> set (wh_positions w). tenant_of_item w (ps_id p) \<noteq> None) \<and>
     lines_in_cents (stored_lines w) \<and> never_negative (shelf_of w)"

text \<open>The part of it that a movement does not touch.\<close>

definition same_items :: "warehouse \<Rightarrow> warehouse \<Rightarrow> bool" where
  "same_items w w' \<longleftrightarrow> map ps_id (wh_positions w') = map ps_id (wh_positions w) \<and>
     (\<forall>i. tenant_of_item w' i = tenant_of_item w i) \<and> (ids_drawn w \<longrightarrow> ids_drawn w') \<and>
     stored_lines w' = stored_lines w"

lemma set_ids: "map ps_id ps' = map ps_id ps \<Longrightarrow> ps_id ` set ps' = ps_id ` set ps"
  by (metis list.set_map)

lemma well_keptI:
  assumes "well_kept w" and "same_items w w'" and "wh_movements w' = wh_movements w @ new"
    and "\<And>m. m \<in> set new \<Longrightarrow> sound_movement w m" and "ledger_kept w'" and "never_negative (shelf_of w')"
  shows "well_kept w'"
proof -
  have ids: "ps_id ` set (wh_positions w') = ps_id ` set (wh_positions w)" using assms(2) set_ids [of "wh_positions w'" "wh_positions w"]
    by (simp add: same_items_def)
  have "sound_movement w' m = sound_movement w m" for m
    using assms(2) ids by (simp add: sound_movement_def same_items_def)
  moreover have "tenant_of_item w' (ps_id p) \<noteq> None" if "p \<in> set (wh_positions w')" for p
  proof -
    have "ps_id p \<in> ps_id ` set (wh_positions w)" using ids that by blast
    with assms(1,2) show ?thesis by (auto simp: well_kept_def same_items_def)
  qed
  ultimately show ?thesis using assms by (auto simp: well_kept_def same_items_def)
qed

subsection \<open>One movement\<close>

lemma post_inventory_detail_fields [simp]:
  "wh_db (post_inventory_detail w m d) = wh_db w" "wh_shipment_lines (post_inventory_detail w m d) = wh_shipment_lines w"
  "stored_lines (post_inventory_detail w m d) = stored_lines w"
  "wh_order_lines (post_inventory_detail w m d) = wh_order_lines w" "wh_stamps (post_inventory_detail w m d) = wh_stamps w"
  "wh_purchase_lines (post_inventory_detail w m d) = wh_purchase_lines w" "wh_skus (post_inventory_detail w m d) = wh_skus w"
  "map ps_id (wh_positions (post_inventory_detail w m d)) = map ps_id (wh_positions w)"
  by (simp_all add: post_inventory_detail_def Let_def map_update_rows_same stored_lines_def payload_of_def)

lemma tenant_of_item_post [simp]: "tenant_of_item (post_inventory_detail w m d) = tenant_of_item w"
  by (simp add: tenant_of_item_def fun_eq_iff)

lemma ids_drawn_cong:
  assumes "ids_drawn w" and "map ps_id (wh_positions w') = map ps_id (wh_positions w)" and "wh_db w' = wh_db w"
  shows "ids_drawn w'"
proof -
  have "ps_id p \<in> ps_id ` set (wh_positions w)" if "p \<in> set (wh_positions w')" for p
    using set_ids [OF assms(2)] that by blast
  with assms(1,3) show ?thesis by (fastforce simp: ids_drawn_def)
qed

lemma same_items_post: "same_items w (post_inventory_detail w m d)"
  using ids_drawn_cong [of w "post_inventory_detail w m d"] by (simp add: same_items_def)

text \<open>The amounts of a posting, and the movement it writes when they are in cents.\<close>

definition atp_diff :: "movement \<Rightarrow> quantity option \<Rightarrow> quantity" where
  "atp_diff m d = given_or d (mv_on_hand_diff m)"

definition written :: "movement \<Rightarrow> quantity option \<Rightarrow> movement" where
  "written m d = m\<lparr>mv_available_diff := atp_diff m d\<rparr>"

lemma post_movements:
  assumes "in_cents (mv_on_hand_diff m)" and "in_cents (atp_diff m d)"
  shows "wh_movements (post_inventory_detail w m d) = wh_movements w @ [written m d]"
  using assms by (simp add: post_inventory_detail_def Let_def written_def atp_diff_def given_or_def column_cents_def
      quantize_half_up_id split: option.splits)

lemma on_hand_of_update:
  assumes "\<And>p. ps_id (f p) = ps_id p"
  shows "on_hand_of (update_rows (\<lambda>p. ps_id p = i) f ps) j =
    (if j = i \<and> i \<in> ps_id ` set ps then ps_on_hand (f (the (find_row (\<lambda>p. ps_id p = i) ps))) else on_hand_of ps j)"
  using assms by (induction ps) (auto simp: on_hand_of_def)

lemma available_of_update:
  assumes "\<And>p. ps_id (f p) = ps_id p"
  shows "available_of (update_rows (\<lambda>p. ps_id p = i) f ps) j =
    (if j = i \<and> i \<in> ps_id ` set ps then ps_available (f (the (find_row (\<lambda>p. ps_id p = i) ps))) else available_of ps j)"
  using assms by (induction ps) (auto simp: available_of_def)

lemma find_position: "i \<in> ps_id ` set ps \<Longrightarrow> \<exists>p. find_row (\<lambda>p. ps_id p = i) ps = Some p"
  using find_row_None_iff [of "\<lambda>p. ps_id p = i" ps] by fastforce

lemma in_cents_moved:
  assumes "\<And>m. m \<in> set ms \<Longrightarrow> sound_movement w m"
  shows "in_cents (moved_on_hand ms i)" and "in_cents (moved_available ms i)"
  using assms unfolding moved_on_hand_def moved_available_def sum_where_def
  by (auto intro!: in_cents_sum_list simp: sound_movement_def)

lemma in_cents_held:
  assumes "\<And>m. m \<in> set ms \<Longrightarrow> sound_movement w m"
  shows "in_cents (held_of ms order i)"
  using assms unfolding held_of_def sum_where_def
  by (auto intro!: in_cents_uminus in_cents_sum_list simp: sound_movement_def)

text \<open>In a kept ledger, a posting in cents moves the sums by exactly its amounts.\<close>

lemma post_positions:
  assumes w: "well_kept w" and cents: "in_cents (mv_on_hand_diff m)" "in_cents (atp_diff m d)"
    and i: "mv_item_id m = i" "i \<in> ps_id ` set (wh_positions w)"
  shows "on_hand_of (wh_positions (post_inventory_detail w m d)) =
      (on_hand_of (wh_positions w))(i := on_hand_of (wh_positions w) i + mv_on_hand_diff m)"
    and "available_of (wh_positions (post_inventory_detail w m d)) =
      (available_of (wh_positions w))(i := available_of (wh_positions w) i + atp_diff m d)"
proof -
  obtain p where p: "find_row (\<lambda>p. ps_id p = i) (wh_positions w) = Some p" using find_position [OF i(2)] by blast
  have "in_cents (on_hand_of (wh_positions w) i)" "in_cents (available_of (wh_positions w) i)"
    using w in_cents_moved [of "wh_movements w" w i] by (auto simp: well_kept_def ledger_kept_def)
  then have "in_cents (ps_on_hand p)" "in_cents (ps_available p)" using p by (simp_all add: on_hand_of_def available_of_def)
  with cents have *: "column_cents (ps_on_hand p + mv_on_hand_diff m) = ps_on_hand p + mv_on_hand_diff m"
    "column_cents (ps_available p + atp_diff m d) = ps_available p + atp_diff m d"
    by (simp_all add: column_cents_def quantize_half_up_id in_cents_add)
  have pos: "wh_positions (post_inventory_detail w m d) = update_rows (\<lambda>q. ps_id q = i)
      (\<lambda>q. q\<lparr>ps_on_hand := column_cents (ps_on_hand q + mv_on_hand_diff m),
             ps_available := column_cents (ps_available q + atp_diff m d)\<rparr>) (wh_positions w)"
    using i(1) by (simp add: post_inventory_detail_def Let_def atp_diff_def given_or_def split: option.splits)
  show "on_hand_of (wh_positions (post_inventory_detail w m d)) =
      (on_hand_of (wh_positions w))(i := on_hand_of (wh_positions w) i + mv_on_hand_diff m)"
    unfolding pos by (rule ext) (use i(2) p * in \<open>simp add: on_hand_of_update; simp add: on_hand_of_def\<close>)
  show "available_of (wh_positions (post_inventory_detail w m d)) =
      (available_of (wh_positions w))(i := available_of (wh_positions w) i + atp_diff m d)"
    unfolding pos by (rule ext) (use i(2) p * in \<open>simp add: available_of_update; simp add: available_of_def\<close>)
qed

text \<open>So a sound posting keeps the warehouse, if what it does to the holds is kept non-negative.\<close>

lemma post_well_kept:
  assumes w: "well_kept w" and m: "sound_movement w (written m d)" and cents: "in_cents (mv_on_hand_diff m)"
    and nn: "never_negative (shelf_of (post_inventory_detail w m d))"
  shows "well_kept (post_inventory_detail w m d)"
proof -
  have mem: "mv_item_id m \<in> ps_id ` set (wh_positions w)" and c2: "in_cents (atp_diff m d)"
    using m by (simp_all add: sound_movement_def written_def)
  note moved = post_movements [OF cents c2, of w] and pos = post_positions [OF w cents c2 refl mem]
  have "ledger_kept (post_inventory_detail w m d)"
    using w by (auto simp: well_kept_def ledger_kept_def moved pos moved_on_hand_def moved_available_def written_def)
  then show ?thesis
    using well_keptI [OF w same_items_post moved _ _ nn] m by simp
qed

text \<open>The three kinds of posting, as shelf moves.\<close>

lemma post_move:
  assumes w: "well_kept w" and i: "tenant_of_item w (mv_item_id m) = Some (mv_tenant_id m)" "mv_item_id m \<in> ps_id ` set (wh_positions w)"
    and cents: "in_cents (mv_on_hand_diff m)" and m: "\<not> is_hold m"
  shows "well_kept (post_inventory_detail w m None)"
    and "shelf_step (shelf_of w) (shelf_of (post_inventory_detail w m None))"
    and "sh_held (shelf_of (post_inventory_detail w m None)) = sh_held (shelf_of w)"
proof -
  have c2: "in_cents (atp_diff m None)" using cents by (simp add: atp_diff_def given_or_def)
  note pos = post_positions [OF w cents c2 refl i(2)] and moved = post_movements [OF cents c2, of w]
  have "held_of (wh_movements w @ [written m None]) = held_of (wh_movements w)"
    using m by (auto simp: held_of_def is_hold_def written_def fun_eq_iff hold_reason_def)
  then have eq: "shelf_of (post_inventory_detail w m None) = shelf_move (mv_item_id m) (mv_on_hand_diff m) (shelf_of w)"
    by (simp add: shelf_of_def pos moved shelf_move_def atp_diff_def given_or_def)
  show "shelf_step (shelf_of w) (shelf_of (post_inventory_detail w m None))" unfolding eq by (rule shelf_step.move)
  show "sh_held (shelf_of (post_inventory_detail w m None)) = sh_held (shelf_of w)" unfolding eq by (simp add: shelf_move_def)
  have "never_negative (shelf_of (post_inventory_detail w m None))"
    unfolding eq using w by (simp add: well_kept_def never_negative_def shelf_move_def)
  moreover have "sound_movement w (written m None)"
    using cents i m by (auto simp: sound_movement_def written_def atp_diff_def given_or_def is_hold_def hold_reason_def)
  ultimately show "well_kept (post_inventory_detail w m None)" using post_well_kept [OF w _ cents] by blast
qed

lemma post_hold:
  assumes w: "well_kept w" and i: "tenant_of_item w (mv_item_id m) = Some (mv_tenant_id m)" "mv_item_id m \<in> ps_id ` set (wh_positions w)"
    and m: "hold_reason m" "mv_sales_order_id m = Some order" "mv_on_hand_diff m = 0" and cents: "in_cents q"
    and q: "0 < q \<and> - q \<le> sh_held (shelf_of w) order (mv_item_id m) \<and> q \<le> available_of (wh_positions w) (mv_item_id m) \<or>
      q < 0 \<and> - q \<le> sh_held (shelf_of w) order (mv_item_id m)"
  shows "well_kept (post_inventory_detail w m (Some (- q)))"
    and "shelf_step (shelf_of w) (shelf_of (post_inventory_detail w m (Some (- q))))"
    and "sh_held (shelf_of (post_inventory_detail w m (Some (- q)))) = (sh_held (shelf_of w))
      (order := (sh_held (shelf_of w) order)(mv_item_id m := sh_held (shelf_of w) order (mv_item_id m) + q))"
proof -
  let ?w' = "post_inventory_detail w m (Some (- q))"
  have c1: "in_cents (mv_on_hand_diff m)" and c2: "in_cents (atp_diff m (Some (- q)))"
    using m cents by (simp_all add: atp_diff_def given_or_def in_cents_uminus)
  note pos = post_positions [OF w c1 c2 refl i(2)] and moved = post_movements [OF c1 c2, of w]
  have "held_of (wh_movements w @ [written m (Some (- q))]) = (held_of (wh_movements w))
      (order := (held_of (wh_movements w) order)(mv_item_id m := held_of (wh_movements w) order (mv_item_id m) + q))"
    using m by (auto simp: held_of_def written_def fun_eq_iff hold_reason_def atp_diff_def given_or_def)
  then have eq: "shelf_of ?w' = shelf_hold order (mv_item_id m) q (shelf_of w)"
    using m(3) by (simp add: shelf_of_def pos moved shelf_hold_def atp_diff_def given_or_def)
  show step: "shelf_step (shelf_of w) (shelf_of ?w')"
    using q shelf_step.hold [of q "shelf_of w" "mv_item_id m" order] shelf_step.give_back [of "- q" "shelf_of w" order "mv_item_id m"]
    unfolding eq by (auto simp: shelf_of_def)
  show "sh_held (shelf_of ?w') = (sh_held (shelf_of w))
      (order := (sh_held (shelf_of w) order)(mv_item_id m := sh_held (shelf_of w) order (mv_item_id m) + q))"
    unfolding eq by (simp add: shelf_hold_def)
  have "never_negative (shelf_of ?w')" using step shelf_step_never_negative w by (auto simp: well_kept_def)
  moreover have "sound_movement w (written m (Some (- q)))"
    using i m c2 by (simp add: sound_movement_def written_def is_hold_def hold_reason_def)
  ultimately show "well_kept ?w'" using post_well_kept [OF w _ c1] by blast
qed

subsection \<open>What leaves the sums alone\<close>

definition ps_sums :: "position \<Rightarrow> uuid \<times> quantity \<times> quantity" where
  "ps_sums p = (ps_id p, ps_on_hand p, ps_available p)"

lemma same_sums:
  assumes "map ps_sums ps' = map ps_sums ps"
  shows "map ps_id ps' = map ps_id ps" and "on_hand_of ps' = on_hand_of ps" and "available_of ps' = available_of ps"
proof -
  show "map ps_id ps' = map ps_id ps" using arg_cong [OF assms, of "map fst"] by (simp add: ps_sums_def comp_def)
  have "on_hand_of ps' i = on_hand_of ps i \<and> available_of ps' i = available_of ps i" for i
    using assms
  proof (induction ps' arbitrary: ps)
    case (Cons p ps')
    then show ?case by (cases ps) (auto simp: ps_sums_def on_hand_of_def available_of_def)
  qed simp
  then show "on_hand_of ps' = on_hand_of ps" "available_of ps' = available_of ps" by auto
qed

lemma well_kept_unmoved:
  assumes w: "well_kept w" and "map ps_sums (wh_positions w') = map ps_sums (wh_positions w)" and "wh_movements w' = wh_movements w"
    and "\<And>i. tenant_of_item w' i = tenant_of_item w i" and "ids_drawn w \<Longrightarrow> ids_drawn w'"
    and "stored_lines w' = stored_lines w"
  shows "well_kept w'" and "shelf_of w' = shelf_of w"
proof -
  note s = same_sums [OF assms(2)]
  show eq: "shelf_of w' = shelf_of w" by (simp add: shelf_of_def s assms(3))
  have "same_items w w'" using s(1) assms(4-6) by (simp add: same_items_def)
  from well_keptI [OF w this, of "[]"] show "well_kept w'"
    using w assms(3) s eq by (simp add: well_kept_def ledger_kept_def)
qed

text \<open>Changing the base state without touching the inventory rows.\<close>

lemma ids_drawn_db:
  assumes "ids_drawn w" and "wh_positions w' = wh_positions w"
    and "db_uuids (wh_db w') = db_uuids (wh_db w)" and "db_next (wh_db w) \<le> db_next (wh_db w')"
    and "\<And>r'. r' \<in> set (db_rows (wh_db w')) \<Longrightarrow> row_model r' = InventoryItem \<Longrightarrow>
      \<exists>r \<in> set (db_rows (wh_db w)). row_model r = InventoryItem \<and> row_id r = row_id r'"
  shows "ids_drawn w'"
proof -
  have sub: "db_uuids (wh_db w) ` {..<db_next (wh_db w)} \<subseteq> db_uuids (wh_db w') ` {..<db_next (wh_db w')}"
    using assms(3,4) by (simp add: image_mono)
  have "row_id r' \<in> db_uuids (wh_db w) ` {..<db_next (wh_db w)}"
    if "r' \<in> set (db_rows (wh_db w'))" "row_model r' = InventoryItem" for r'
    using assms(1) assms(5) [OF that] unfolding ids_drawn_def by metis
  with sub assms(1-3) show ?thesis unfolding ids_drawn_def by (simp add: subset_iff)
qed

lemma item_rows_set_row:
  assumes "keeps_key f" and "r' \<in> set (db_rows (set_row m i f d))" and "row_model r' = InventoryItem"
  shows "\<exists>r \<in> set (db_rows d). row_model r = InventoryItem \<and> row_id r = row_id r'"
  using assms unfolding set_row_def by (auto simp: set_update_rows keeps_key_def)

lemma tenant_of_item_set_row:
  "keeps_key f \<Longrightarrow> map_option row_tenant_id (get_row (set_row m j f d) InventoryItem i) = map_option row_tenant_id (get_row d InventoryItem i)"
  by (cases "get_row d InventoryItem i") (auto simp: get_row_set_row keeps_key_def)

lemma well_kept_set_row:
  assumes "well_kept w" and "keeps_key f" and "map ps_sums (wh_positions w') = map ps_sums (wh_positions w)"
    and "wh_movements w' = wh_movements w" and "wh_db w' = set_row m i f (wh_db w)" and "stored_lines w' = stored_lines w"
  shows "well_kept w' \<and> shelf_of w' = shelf_of w"
proof -
  have t: "tenant_of_item w' j = tenant_of_item w j" for j
    using tenant_of_item_set_row [OF assms(2)] assms(5) by (simp add: tenant_of_item_def)
  have "ids_drawn w'" if "ids_drawn w"
  proof -
    have "ids_drawn (w'\<lparr>wh_positions := wh_positions w\<rparr>)"
      by (rule ids_drawn_db [OF that]) (use assms(2,5) item_rows_set_row in \<open>auto simp: store_simps\<close>)
    then show ?thesis using ids_drawn_cong same_sums(1) [OF assms(3)] by fastforce
  qed
  with well_kept_unmoved [OF assms(1,3,4) t _ assms(6)] show ?thesis by blast
qed

lemma well_kept_audit:
  assumes "well_kept w" and "wh_db w' = record_audit t a e i who (wh_db w)"
    and "wh_positions w' = wh_positions w" and "wh_movements w' = wh_movements w" and "stored_lines w' = stored_lines w"
  shows "well_kept w' \<and> shelf_of w' = shelf_of w"
proof -
  have t: "tenant_of_item w' j = tenant_of_item w j" for j
    using assms(2) by (simp add: tenant_of_item_def store_simps)
  have "ids_drawn w'" if "ids_drawn w"
    by (rule ids_drawn_db [OF that]) (use assms in \<open>auto simp: store_simps\<close>)
  with well_kept_unmoved [OF assms(1) _ assms(4) t _ assms(5)] assms(3) show ?thesis by simp
qed

text \<open>A new position: no movement is of it yet.\<close>

lemma add_position_kept:
  assumes w: "well_kept w" and eq: "add_position w t st p = (i, w1)"
  shows "well_kept w1" and "shelf_of w1 = shelf_of w" and "i \<in> ps_id ` set (wh_positions w1)" and "tenant_of_item w1 i = Some t"
proof -
  have i: "i = fresh_id (wh_db w)" and w1: "w1 = w\<lparr>wh_db := tick (wh_db w)\<lparr>db_rows := db_rows (wh_db w) @ [item_row i t st]\<rparr>,
      wh_positions := wh_positions w @ [p\<lparr>ps_id := i, ps_on_hand := 0, ps_available := 0\<rparr>]\<rparr>"
    using eq by (auto simp: add_position_def Let_def)
  have pos: "wh_positions w1 = wh_positions w @ [p\<lparr>ps_id := i, ps_on_hand := 0, ps_available := 0\<rparr>]"
    and mvs: "wh_movements w1 = wh_movements w" "stored_lines w1 = stored_lines w"
    by (simp_all add: w1 stored_lines_def payload_of_def)
  have drawn: "ids_drawn w" using w by (simp add: well_kept_def)
  have fresh: "i \<notin> db_uuids (wh_db w) ` {..<db_next (wh_db w)}"
    using drawn by (auto simp: i fresh_id_def ids_drawn_def inj_image_mem_iff)
  have new: "i \<notin> ps_id ` set (wh_positions w)" using drawn fresh by (auto simp: ids_drawn_def)
  have none: "get_row (wh_db w) InventoryItem i = None"
    using drawn fresh by (auto simp: get_row_def find_row_None_iff ids_drawn_def)
  have item: "row_model (item_row i t st) = InventoryItem" "row_id (item_row i t st) = i" "row_tenant_id (item_row i t st) = t"
    by (simp_all add: item_row_def)
  have tenant: "tenant_of_item w1 j = (if j = i then Some t else tenant_of_item w j)" for j
    using none item by (auto simp: tenant_of_item_def w1 get_row_def find_row_append split: option.splits)
  show "i \<in> ps_id ` set (wh_positions w1)" "tenant_of_item w1 i = Some t" by (simp_all add: pos tenant)
  have "find_row (\<lambda>q. ps_id q = i) (wh_positions w) = None" using new by (auto simp: find_row_None_iff)
  then have sums: "on_hand_of (wh_positions w1) = on_hand_of (wh_positions w)" "available_of (wh_positions w1) = available_of (wh_positions w)"
    by (auto simp: w1 on_hand_of_def available_of_def find_row_append fun_eq_iff split: option.splits)
  show shelf: "shelf_of w1 = shelf_of w" using sums by (simp add: shelf_of_def w1)
  have "sound_movement w1 m" if "sound_movement w m" for m
    using that new by (auto simp: sound_movement_def pos tenant)
  moreover have "ids_drawn w1"
    using drawn item unfolding w1 ids_drawn_def
    by (auto simp: tick_def i fresh_id_def lessThan_Suc)
  moreover have "tenant_of_item w1 (ps_id q) \<noteq> None" if "q \<in> set (wh_positions w1)" for q
    using w that by (auto simp: pos well_kept_def tenant)
  ultimately show "well_kept w1"
    using w sums shelf by (simp add: well_kept_def ledger_kept_def mvs)
qed

subsection \<open>Handlers, line by line\<close>

text \<open>Where a handler has got to: the warehouse is kept, by shelf moves from where it started.\<close>

definition reached :: "warehouse \<Rightarrow> warehouse \<Rightarrow> bool" where
  "reached w w' \<longleftrightarrow> well_kept w' \<and> shelf_step\<^sup>*\<^sup>* (shelf_of w) (shelf_of w')"

lemma reached_refl: "well_kept w \<Longrightarrow> reached w w"
  by (simp add: reached_def)

lemma reached_step: "reached w u \<Longrightarrow> well_kept v \<Longrightarrow> shelf_step (shelf_of u) (shelf_of v) \<Longrightarrow> reached w v"
  unfolding reached_def by (meson rtranclp.rtrancl_into_rtrancl)

lemma reached_same: "reached w u \<Longrightarrow> well_kept v \<and> shelf_of v = shelf_of u \<Longrightarrow> reached w v"
  by (simp add: reached_def)

lemma active_position_Inr:
  assumes "active_position w t i = Inr p"
  shows "ps_id p = i" and "i \<in> ps_id ` set (wh_positions w)" and "tenant_of_item w i = Some t"
    and "on_hand_of (wh_positions w) i = ps_on_hand p" and "available_of (wh_positions w) i = ps_available p"
proof -
  have p: "get_position w i = Some p" and r: "\<exists>r. get_row (wh_db w) InventoryItem i = Some r \<and> row_tenant_id r = t"
    using assms by (auto simp: active_position_def require_active_row_def result_simps get_scoped_or_404_Inr split: option.splits)
  show "ps_id p = i" "i \<in> ps_id ` set (wh_positions w)" using p by (auto simp: get_position_def dest: find_row_Some)
  show "tenant_of_item w i = Some t" using r by (auto simp: tenant_of_item_def)
  show "on_hand_of (wh_positions w) i = ps_on_hand p" "available_of (wh_positions w) i = ps_available p"
    using p by (simp_all add: on_hand_of_def available_of_def get_position_def)
qed

lemma held_for_eq:
  assumes "well_kept w"
  shows "held_for w t i order = (if tenant_of_item w i = Some t then held_of (wh_movements w) order i else 0)"
proof -
  have "mv_tenant_id m = t \<longleftrightarrow> tenant_of_item w i = Some t" if "m \<in> set (wh_movements w)" "mv_item_id m = i" for m
    using assms that by (auto simp: well_kept_def sound_movement_def)
  then have "sum_where (\<lambda>m. mv_tenant_id m = t \<and> mv_item_id m = i \<and> mv_sales_order_id m = Some order \<and> hold_reason m)
      mv_available_diff (wh_movements w) =
    sum_where (\<lambda>m. tenant_of_item w i = Some t \<and> mv_item_id m = i \<and> mv_sales_order_id m = Some order \<and> hold_reason m)
      mv_available_diff (wh_movements w)"
    by (intro sum_where_cong) auto
  then show ?thesis by (auto simp: held_for_def held_of_def sum_where_none)
qed

lemma held_nonneg: "well_kept w \<Longrightarrow> 0 \<le> held_of (wh_movements w) order i"
  by (simp add: well_kept_def never_negative_def shelf_of_def)

lemma held_in_cents: "well_kept w \<Longrightarrow> in_cents (held_of (wh_movements w) order i)"
  using in_cents_held [of "wh_movements w" w] by (simp add: well_kept_def)

lemma movement_of_fields [simp]:
  "mv_item_id (movement_of t i d r c) = i" "mv_tenant_id (movement_of t i d r c) = t" "mv_on_hand_diff (movement_of t i d r c) = d"
  "mv_reason (movement_of t i d r c) = r" "mv_sales_order_id (movement_of t i d r c) = None"
  by (simp_all add: movement_of_def)

lemma reserve_line_reached:
  assumes u: "reached w u" and "reserve_line a order u line = Inr v" and "row_tenant_id order = ac_tenant_id a"
    and q: "0 < hl_quantity line" "in_cents (hl_quantity line)"
  shows "reached w v"
proof -
  from assms(2,3) obtain item m where item: "active_position u (ac_tenant_id a) (hl_item_id line) = Inr item"
    and bound: "\<not> ps_available item + - hl_quantity line < 0"
    and v: "v = post_inventory_detail u m (Some (- hl_quantity line))"
    and m: "mv_item_id m = ps_id item" "mv_tenant_id m = ac_tenant_id a" "mv_on_hand_diff m = 0" "hold_reason m"
      "mv_sales_order_id m = Some (row_id order)"
    by (auto simp: reserve_line_def result_simps position_for_order_def Let_def require_hold_within_bounds_def hold_reason_def)
  note i = active_position_Inr [OF item]
  have wk: "well_kept u" using u by (simp add: reached_def)
  have *: "tenant_of_item u (mv_item_id m) = Some (mv_tenant_id m)" "mv_item_id m \<in> ps_id ` set (wh_positions u)"
    using i m by simp_all
  have "0 < hl_quantity line \<and> - hl_quantity line \<le> sh_held (shelf_of u) (row_id order) (mv_item_id m) \<and>
      hl_quantity line \<le> available_of (wh_positions u) (mv_item_id m)"
    using q(1) held_nonneg [OF wk, of "row_id order" "mv_item_id m"] bound i m(1) by (simp add: shelf_of_def)
  with post_hold [OF wk * m(4,5,3) q(2)] u v show ?thesis using reached_step by blast
qed

lemma release_line_reached:
  assumes u: "reached w u" and "release_line a order u (i, q) = Inr v" and q: "0 < q" "in_cents q"
  shows "reached w v"
proof -
  from assms(2) obtain item m where item: "active_position u (ac_tenant_id a) i = Inr item"
    and bound: "\<not> held_for u (ac_tenant_id a) (ps_id item) (row_id order) + EPSILON < q"
    and v: "v = post_inventory_detail u m (Some (- (- q)))"
    and m: "mv_item_id m = ps_id item" "mv_tenant_id m = ac_tenant_id a" "mv_on_hand_diff m = 0" "hold_reason m"
      "mv_sales_order_id m = Some (row_id order)"
    by (auto simp: release_line_def result_simps require_hold_within_bounds_def hold_reason_def)
  note i = active_position_Inr [OF item]
  have wk: "well_kept u" using u by (simp add: reached_def)
  have *: "tenant_of_item u (mv_item_id m) = Some (mv_tenant_id m)" "mv_item_id m \<in> ps_id ` set (wh_positions u)"
    using i m by simp_all
  have "q \<le> held_of (wh_movements u) (row_id order) i + CENT"
    using bound i held_for_eq [OF wk] by (simp add: EPSILON_def CENT_def)
  then have "q \<le> held_of (wh_movements u) (row_id order) i"
    using in_cents_le_slack [OF q(2) held_in_cents [OF wk]] by blast
  then have "- q < 0 \<and> - (- q) \<le> sh_held (shelf_of u) (row_id order) (mv_item_id m)"
    using q(1) i(1) m(1) by (simp add: shelf_of_def)
  with post_hold [OF wk * m(4,5,3) in_cents_uminus [OF q(2)]] u v show ?thesis using reached_step by blast
qed

lemma foldE_reached:
  assumes "foldE f u xs = Inr v" and "reached w u"
    and "\<And>x s s'. x \<in> set xs \<Longrightarrow> reached w s \<Longrightarrow> f s x = Inr s' \<Longrightarrow> reached w s'"
  shows "reached w v"
  by (rule foldE_invariant [where P = "reached w", OF assms])

lemma reserve_reached:
  assumes "reserve_stock_for_order w a order_id lines = Inr v" and "well_kept w"
    and "\<And>l. l \<in> set lines \<Longrightarrow> 0 < hl_quantity l \<and> in_cents (hl_quantity l)"
  shows "reached w v"
proof -
  from assms(1) obtain order where order: "get_active_document_or_404 (wh_db w) SalesOrder (ac_tenant_id a) order_id = Inr order"
    and run: "foldE (reserve_line a order) w (sort_key hl_item_id lines) = Inr v"
    unfolding reserve_stock_for_order_def bindE_Inr_iff by blast
  have t: "row_tenant_id order = ac_tenant_id a" using order by (simp add: get_active_document_or_404_Inr)
  show ?thesis
  proof (rule foldE_reached [OF run reached_refl [OF assms(2)]])
    fix l s s' assume "l \<in> set (sort_key hl_item_id lines)" and s: "reached w s" "reserve_line a order s l = Inr s'"
    then have "0 < hl_quantity l" "in_cents (hl_quantity l)" using assms(3) by simp_all
    then show "reached w s'" by (rule reserve_line_reached [OF s t])
  qed
qed

lemma outstanding_holds_sound:
  assumes "well_kept w" and "(i, q) \<in> set (outstanding_holds w t order)"
  shows "0 \<le> q" and "in_cents q" and "q \<le> held_of (wh_movements w) order i"
proof -
  have q: "q = (if tenant_of_item w i = Some t then held_of (wh_movements w) order i else 0)"
    using assms(2) by (auto simp: outstanding_holds_def held_for_eq [OF assms(1)])
  show "0 \<le> q" "in_cents q" "q \<le> held_of (wh_movements w) order i"
    using held_nonneg [OF assms(1), of order i] held_in_cents [OF assms(1), of order i] by (simp_all add: q)
qed

lemma release_reached:
  assumes "release_stock_for_order w a order_id lines = Inr v" and w: "well_kept w"
    and lines: "\<And>i q. (i, q) \<in> set lines \<Longrightarrow> 0 < q \<and> in_cents q"
  shows "reached w v"
proof -
  from assms(1) obtain order where run: "foldE (release_line a order) w (sort_key fst (if lines \<noteq> [] then lines
      else filter (\<lambda>(i, q). EPSILON < q) (outstanding_holds w (ac_tenant_id a) (row_id order)))) = Inr v"
    unfolding release_stock_for_order_def bindE_Inr_iff Let_def by blast
  have "0 < q \<and> in_cents q" if "(i, q) \<in> set (outstanding_holds w (ac_tenant_id a) (row_id order))" "EPSILON < q" for i q
    using outstanding_holds_sound [OF w that(1)] that(2) by (simp add: EPSILON_def)
  with lines have wanted: "0 < snd x \<and> in_cents (snd x)" if "x \<in> set (if lines \<noteq> [] then lines
      else filter (\<lambda>(i, q). EPSILON < q) (outstanding_holds w (ac_tenant_id a) (row_id order)))" for x
    using that by (cases x) (auto split: if_splits)
  show ?thesis
  proof (rule foldE_reached [OF run reached_refl [OF w]])
    fix x s s' assume "x \<in> set (sort_key fst (if lines \<noteq> [] then lines
        else filter (\<lambda>(i, q). EPSILON < q) (outstanding_holds w (ac_tenant_id a) (row_id order))))"
      and s: "reached w s" "release_line a order s x = Inr s'"
    then have "0 < snd x \<and> in_cents (snd x)" using wanted by (simp only: set_sort)
    with s show "reached w s'" using release_line_reached [of w s a order "fst x" "snd x"] by simp
  qed
qed

subsection \<open>Shipments\<close>

lemma dict_value_map_other: "j \<noteq> i \<Longrightarrow> dict_value (map (\<lambda>(k, q). (k, if k = i then c else q)) d) j = dict_value d j"
  by (induction d) auto

lemma dict_value_map_same:
  "dict_value (map (\<lambda>(k, q). (k, if k = i then c else q)) d) i = (if i \<in> fst ` set d then c else 0)"
proof (induction d)
  case (Cons x d)
  then show ?case by (cases x) (simp split: if_split)
qed simp

lemma dict_value_build: "dict_value (map (\<lambda>i. (i, f i)) is) j = (if j \<in> set is then f j else 0)"
  by (induction "is") auto

text \<open>What is left to release never exceeds what is held.\<close>

definition covered :: "row \<Rightarrow> (uuid \<times> quantity) list \<Rightarrow> warehouse \<Rightarrow> bool" where
  "covered shipment held u \<longleftrightarrow> (\<forall>i. in_cents (dict_value held i) \<and>
     (0 < dict_value held i \<longrightarrow> (\<exists>order. row_sales_order_id shipment = Some order \<and>
        dict_value held i \<le> held_of (wh_movements u) order i)))"

lemma release_hold_reached:
  assumes u: "reached w u" and h: "covered shipment held u" and eq: "release_hold a shipment l i (held, u) = (held', v)"
    and i: "i \<in> ps_id ` set (wh_positions u)" "tenant_of_item u i = Some (ac_tenant_id a)"
    and l: "0 < sl_quantity l" "in_cents (sl_quantity l)"
  shows "reached w v" and "covered shipment held' v" and "map ps_id (wh_positions v) = map ps_id (wh_positions u)"
    and "tenant_of_item v = tenant_of_item u"
proof -
  let ?out = "dict_value held i"
  have "reached w v \<and> covered shipment held' v \<and> map ps_id (wh_positions v) = map ps_id (wh_positions u) \<and>
      tenant_of_item v = tenant_of_item u"
  proof (cases "?out \<le> 0")
    case True
    with assms show ?thesis by (simp add: release_hold_def Let_def)
  next
    case False
    let ?r = "min (sl_quantity l) ?out"
    have "0 < ?out" using False by simp
    with h obtain order where order: "row_sales_order_id shipment = Some order" "?out \<le> held_of (wh_movements u) order i"
      unfolding covered_def by blast
    define m where "m = (movement_of (ac_tenant_id a) i 0 ''reservation_released'' (Some (attributed a None)))
        \<lparr>mv_entity_type := Some ''shipment_item'', mv_entity_id := Some (sl_id l),
          mv_sales_order_id := row_sales_order_id shipment\<rparr>"
    have m: "mv_item_id m = i" "mv_tenant_id m = ac_tenant_id a" "mv_on_hand_diff m = 0" "hold_reason m"
        "mv_sales_order_id m = Some order"
      by (simp_all add: m_def hold_reason_def order(1))
    have v: "v = post_inventory_detail u m (Some (- (- ?r)))"
      and held': "held' = map (\<lambda>(k, q). (k, if k = i then ?out - ?r else q)) held"
      using eq False by (simp_all add: release_hold_def Let_def m_def)
    have wk: "well_kept u" using u by (simp add: reached_def)
    have cents: "in_cents ?r" "in_cents (?out - ?r)" using l(2) h by (auto simp: covered_def min_def)
    have *: "tenant_of_item u (mv_item_id m) = Some (mv_tenant_id m)" "mv_item_id m \<in> ps_id ` set (wh_positions u)"
      using i m by simp_all
    have "- ?r < 0 \<and> - (- ?r) \<le> sh_held (shelf_of u) order (mv_item_id m)"
      using False l(1) order(2) m(1) by (auto simp: shelf_of_def min_def)
    note post = post_hold [OF wk * m(4,5,3) in_cents_uminus [OF cents(1)] disjI2 [OF this], folded v]
    have held: "held_of (wh_movements v) = (held_of (wh_movements u))
        (order := (held_of (wh_movements u) order)(i := held_of (wh_movements u) order i - ?r))"
      using post(3) by (simp add: shelf_of_def m(1))
    have "covered shipment held' v"
      unfolding covered_def
    proof
      fix j
      show "in_cents (dict_value held' j) \<and> (0 < dict_value held' j \<longrightarrow> (\<exists>order. row_sales_order_id shipment = Some order \<and>
          dict_value held' j \<le> held_of (wh_movements v) order j))"
      proof (cases "j = i")
        case True
        with order cents(2) show ?thesis by (auto simp: held' dict_value_map_same held)
      next
        case False
        with h order(1) show ?thesis unfolding covered_def by (auto simp: held' dict_value_map_other held)
      qed
    qed
    with reached_step [OF u post(1,2)] show ?thesis by (simp add: v)
  qed
  then show "reached w v" "covered shipment held' v" "map ps_id (wh_positions v) = map ps_id (wh_positions u)"
    "tenant_of_item v = tenant_of_item u" by simp_all
qed

lemma post_shipment_line_reached:
  assumes u: "reached w u" and h: "covered shipment held u" and reason: "reason \<notin> set [''reserved'', ''reservation_released'']"
    and eq: "post_shipment_line a shipment sign reason (held, u) l = Inr (held', v)"
    and l: "0 < sl_quantity l" "in_cents (sl_quantity l)" and sign: "sign = 1 \<or> sign = - 1"
  shows "reached w v" and "covered shipment held' v"
proof -
  have "reached w v \<and> covered shipment held' v"
  proof (cases "sl_inventory_item_id l")
    case None
    with eq u h show ?thesis by (simp add: post_shipment_line_def)
  next
    case (Some i)
    with eq obtain item where item: "active_position u (ac_tenant_id a) i = Inr item"
      unfolding post_shipment_line_def by (auto simp: bindE_Inr_iff)
    note p = active_position_Inr [OF item]
    obtain held1 x where r: "release_hold a shipment l i (held, u) = (held1, x)" by (cases "release_hold a shipment l i (held, u)")
    note rel = release_hold_reached [OF u h r p(2,3) l]
    define m where "m = (movement_of (ac_tenant_id a) (ps_id item) (sign * sl_quantity l) reason (Some (attributed a None)))
        \<lparr>mv_entity_type := Some ''shipment_item'', mv_entity_id := Some (sl_id l),
          mv_sales_order_id := row_sales_order_id shipment, mv_purchase_order_id := row_purchase_order_id shipment\<rparr>"
    have m: "mv_item_id m = i" "mv_tenant_id m = ac_tenant_id a" "mv_reason m = reason" "mv_on_hand_diff m = sign * sl_quantity l"
      using p(1) by (simp_all add: m_def)
    have v: "v = post_inventory_detail x m None" and held': "held' = held1"
      using eq Some item p(1) r by (simp_all add: post_shipment_line_def m_def Let_def bindE_Inr_iff)
    have wk: "well_kept x" using rel(1) by (simp add: reached_def)
    have *: "tenant_of_item x (mv_item_id m) = Some (mv_tenant_id m)" "mv_item_id m \<in> ps_id ` set (wh_positions x)"
      using p m rel(4) set_ids [OF rel(3)] by simp_all
    have c: "in_cents (mv_on_hand_diff m)" using l(2) sign m(4) by auto
    have "\<not> is_hold m" using reason m(3) by (simp add: is_hold_def hold_reason_def)
    note post = post_move [OF wk * c this, folded v]
    have "covered shipment held' v" using rel(2) post(3) by (simp add: covered_def held' shelf_of_def)
    with reached_step [OF rel(1) post(1,2)] show ?thesis by simp
  qed
  then show "reached w v" "covered shipment held' v" by simp_all
qed

lemma covered_initial:
  assumes w: "well_kept w"
  shows "covered shipment (case row_sales_order_id shipment of
      Some order \<Rightarrow> if neg then outstanding_holds w t order else [] | None \<Rightarrow> []) w"
proof -
  have "in_cents (dict_value (outstanding_holds w t order) i) \<and>
      dict_value (outstanding_holds w t order) i \<le> held_of (wh_movements w) order i" for order i
    using held_nonneg [OF w, of order i] held_in_cents [OF w, of order i]
    by (auto simp: outstanding_holds_def dict_value_build held_for_eq [OF w])
  then show ?thesis by (auto simp: covered_def split: option.splits)
qed

lemma post_shipment_reached:
  assumes "post_shipment_stock now w a shipment_id = Inr v" and w: "well_kept w"
  shows "reached w v"
proof -
  from assms(1) obtain shipment where "lock_for_update (wh_db w) (ac_tenant_id a) Shipment shipment_id = Some shipment"
    unfolding post_shipment_stock_def by (auto simp: bindE_Inr_iff split: option.splits)
  define sign :: quantity where "sign = (if row_direction shipment = ''inbound'' then 1 else - 1)"
  define reason where "reason = (if row_direction shipment = ''inbound'' then inbound_reason (wh_db w) shipment else ''issued'')"
  define held where "held = (case row_sales_order_id shipment of
      Some order_id \<Rightarrow> if sign < 0 then outstanding_holds w (ac_tenant_id a) order_id else [] | None \<Rightarrow> [])"
  from assms(1) \<open>lock_for_update _ _ _ _ = _\<close> obtain held' w' where
    run: "foldE (post_shipment_line a shipment sign reason) (held, w) (live_shipment_lines w shipment) = Inr (held', w')"
    and v: "v = w'\<lparr>wh_stamps := (shipment_id, now) # wh_stamps w'\<rparr>"
    unfolding post_shipment_stock_def sign_def reason_def held_def Let_def
    by (auto simp: bindE_Inr_iff split: prod.splits)
  have reason: "reason \<notin> set [''reserved'', ''reservation_released'']"
    by (auto simp: reason_def inbound_reason_def Let_def split: option.splits)
  have sign: "sign = 1 \<or> sign = - 1" by (simp add: sign_def)
  have lines: "0 < sl_quantity l \<and> in_cents (sl_quantity l)" if "l \<in> set (live_shipment_lines w shipment)" for l
    using w that by (auto simp: well_kept_def live_shipment_lines_def lines_in_cents_def stored_lines_def)
  have "reached w (snd (held', w')) \<and> covered shipment (fst (held', w')) (snd (held', w'))"
    using run
  proof (rule foldE_invariant)
    show "reached w (snd (held, w)) \<and> covered shipment (fst (held, w)) (snd (held, w))"
      using reached_refl [OF w] covered_initial [OF w, of shipment "sign < 0" "ac_tenant_id a"] by (simp add: held_def)
    fix s l s' assume l: "l \<in> set (live_shipment_lines w shipment)" and s: "reached w (snd s) \<and> covered shipment (fst s) (snd s)"
      and eq: "post_shipment_line a shipment sign reason s l = Inr s'"
    then have "post_shipment_line a shipment sign reason (fst s, snd s) l = Inr (fst s', snd s')" by simp
    with s lines [OF l] post_shipment_line_reached [OF _ _ reason this _ _ sign, of w]
    show "reached w (snd s') \<and> covered shipment (fst s') (snd s')" by blast
  qed
  then have "reached w w'" by simp
  moreover have "well_kept v \<and> shelf_of v = shelf_of w'"
    using well_kept_set_row [of w' "\<lambda>r. r" v InventoryItem "[]"] \<open>reached w w'\<close> v
    by (simp add: reached_def keeps_key_def set_row_def update_rows_def stored_lines_def payload_of_def)
  ultimately show ?thesis by (rule reached_same)
qed

end
