(* ===== verification/Stock_History.thy ===== *)
theory Stock_History
  imports Stock_Laws
begin

text \<open>
  All doors to stock together: receiving, importing, the workspace's own documents and the positions
  themselves; the history of a warehouse; and the properties of stock.
\<close>

subsection \<open>Positions, receipts and imports\<close>

lemma post_new_movement_reached:
  assumes "reached w u" and "mv_item_id m \<in> ps_id ` set (wh_positions u)"
    and "tenant_of_item u (mv_item_id m) = Some (mv_tenant_id m)" and "in_cents (mv_on_hand_diff m)"
    and "mv_sales_order_id m = None"
  shows "reached w (post_inventory_detail u m None)"
proof -
  have "well_kept u" "\<not> is_hold m" using assms(1,5) by (simp_all add: reached_def is_hold_def)
  from post_move [OF this(1) assms(3,2,4) this(2)] reached_step [OF assms(1)] show ?thesis by blast
qed

lemma add_position_reached:
  assumes "reached w u" and "add_position u t st p = (i, v)"
  shows "reached w v" and "i \<in> ps_id ` set (wh_positions v)" and "tenant_of_item v i = Some t"
  using add_position_kept [OF _ assms(2)] assms(1) by (simp_all add: reached_def)

lemma create_reached:
  assumes "create_inventory_item w a payload = Inr (i, v)" and w: "well_kept w"
    and q: "\<And>q. ci_initial_quantity payload = Some q \<Longrightarrow> in_cents q"
  shows "reached w v"
proof -
  from assms(1) obtain p u m where new: "add_position w (ac_tenant_id a) (ci_status payload) p = (i, u)"
    and v: "v = u \<or> v = post_inventory_detail u m None" and m: "mv_item_id m = i" "mv_tenant_id m = ac_tenant_id a"
      "mv_sales_order_id m = None" "mv_on_hand_diff m = given_or (ci_initial_quantity payload) 0"
  proof -
    let ?m = "(movement_of (ac_tenant_id a) i (given_or (ci_initial_quantity payload) 0) (ci_initial_reason payload)
      (Some (attributed a None)))\<lparr>mv_unit_cost := ci_unit_cost payload\<rparr>"
    from assms(1) obtain p where "(case add_position w (ac_tenant_id a) (ci_status payload) p of (j, u) \<Rightarrow>
        Inr (j, if given_or (ci_initial_quantity payload) 0 = 0 then u
                else post_inventory_detail u ((movement_of (ac_tenant_id a) j (given_or (ci_initial_quantity payload) 0)
                  (ci_initial_reason payload) (Some (attributed a None)))\<lparr>mv_unit_cost := ci_unit_cost payload\<rparr>) None)) =
        (Inr (i, v) :: (uuid \<times> warehouse) result)"
      unfolding create_inventory_item_def Let_def bindE_Inr_iff Ex_unit given_or_def by blast
    then obtain u where "add_position w (ac_tenant_id a) (ci_status payload) p = (i, u)"
      "v = (if given_or (ci_initial_quantity payload) 0 = 0 then u else post_inventory_detail u ?m None)"
      by (cases "add_position w (ac_tenant_id a) (ci_status payload) p") auto
    then show ?thesis by (intro that [of p u ?m]) simp_all
  qed
  note added = add_position_reached [OF reached_refl [OF w] new]
  have "in_cents (mv_on_hand_diff m)" using q m(4) by (auto simp: given_or_def split: option.splits)
  then have "reached w (post_inventory_detail u m None)"
    using post_new_movement_reached [OF added(1)] added(2,3) m by simp
  with added(1) v show ?thesis by blast
qed

lemma find_inventory_item_Some:
  assumes "find_inventory_item w t pid sid f l = Some p"
  shows "ps_id p \<in> ps_id ` set (wh_positions w)" and "tenant_of_item w (ps_id p) = Some t" and "p \<in> set (wh_positions w)"
  using assms by (auto simp: find_inventory_item_def dest!: find_row_Some)

lemma landing_position_reached:
  assumes u: "reached w u" and eq: "landing_position u t item line facility = Inr (i, v)"
  shows "reached w v" and "i \<in> ps_id ` set (wh_positions v)" and "tenant_of_item v i = Some t"
proof -
  from eq obtain pid where "(\<exists>p. find_inventory_item u t pid (ol_sku_id item) facility (given_or (rl_lot_id line) []) = Some p \<and>
      i = ps_id p \<and> v = u) \<or> (\<exists>st p. add_position u t st p = (i, v))"
    by (auto simp: landing_position_def Let_def split: option.splits)
  then have "reached w v \<and> i \<in> ps_id ` set (wh_positions v) \<and> tenant_of_item v i = Some t"
  proof (elim disjE exE conjE)
    fix p assume p: "find_inventory_item u t pid (ol_sku_id item) facility (given_or (rl_lot_id line) []) = Some p"
      "i = ps_id p" "v = u"
    then show ?thesis using find_inventory_item_Some [OF p(1)] u by simp
  next
    fix st p assume "add_position u t st p = (i, v)"
    then show ?thesis using add_position_reached [OF u] by blast
  qed
  then show "reached w v" "i \<in> ps_id ` set (wh_positions v)" "tenant_of_item v i = Some t" by simp_all
qed

lemma reached_other_tables:
  assumes "reached w u" and "wh_db v = wh_db u" and "wh_positions v = wh_positions u" and "wh_movements v = wh_movements u"
    and "stored_lines v = stored_lines u"
  shows "reached w v"
proof -
  have "tenant_of_item v i = tenant_of_item u i" for i using assms(2) by (simp add: tenant_of_item_def)
  moreover have "ids_drawn v" if "ids_drawn u" using that assms(2,3) by (simp add: ids_drawn_def)
  ultimately show ?thesis
    using well_kept_unmoved [of u v] assms reached_same [OF assms(1)] by (simp add: reached_def)
qed

lemma receive_one_reached:
  assumes u: "reached w u" and "receive_one a po u line = Inr v" and q: "in_cents (rl_quantity line)"
  shows "reached w v"
proof -
  obtain item where item: "find_row (\<lambda>l. ol_id l = rl_po_item_id line \<and> ol_tenant_id l = ac_tenant_id a \<and> \<not> ol_deleted l)
      (wh_purchase_lines u) = Some item"
    using assms(2) by (cases "find_row (\<lambda>l. ol_id l = rl_po_item_id line \<and> ol_tenant_id l = ac_tenant_id a \<and> \<not> ol_deleted l)
      (wh_purchase_lines u)") (simp_all add: receive_one_def)
  from assms(2) obtain x where x: "(case rl_facility line of
        None \<Rightarrow> Inr u
      | Some facility \<Rightarrow> bindE (landing_position u (ac_tenant_id a) item line facility) (\<lambda>(i, w1).
          Inr (post_inventory_detail w1
            ((movement_of (ac_tenant_id a) i (rl_quantity line) ''received'' (Some (attributed a None)))
               \<lparr>mv_purchase_order_id := Some (row_id po), mv_entity_type := Some ''purchase_order_item'',
                mv_entity_id := Some (ol_id item), mv_unit_cost := first_some (rl_unit_cost line) (ol_unit_price item)\<rparr>)
            None))) = Inr x"
    and v: "wh_db v = wh_db x" "wh_positions v = wh_positions x" "wh_movements v = wh_movements x"
      "stored_lines v = stored_lines x"
    unfolding receive_one_def item option.case(2) bindE_Inr_iff by (elim exE conjE) (rule that, assumption, auto simp: stored_lines_def payload_of_def)
  have "reached w x"
  proof (cases "rl_facility line")
    case None
    with x u show ?thesis by simp
  next
    case (Some facility)
    with x obtain i w1 where land: "landing_position u (ac_tenant_id a) item line facility = Inr (i, w1)"
      and x: "x = post_inventory_detail w1
            ((movement_of (ac_tenant_id a) i (rl_quantity line) ''received'' (Some (attributed a None)))
               \<lparr>mv_purchase_order_id := Some (row_id po), mv_entity_type := Some ''purchase_order_item'',
                mv_entity_id := Some (ol_id item), mv_unit_cost := first_some (rl_unit_cost line) (ol_unit_price item)\<rparr>) None"
      by (auto simp: bindE_Inr_iff)
    note l = landing_position_reached [OF u land]
    show ?thesis unfolding x by (rule post_new_movement_reached) (use l q in simp_all)
  qed
  then show ?thesis using v by (rule reached_other_tables)
qed

lemma receive_reached:
  assumes "receive_purchase_order w a po_id lines = Inr v" and w: "well_kept w"
    and "\<And>l. l \<in> set lines \<Longrightarrow> in_cents (rl_quantity l)"
  shows "reached w v"
proof -
  from assms(1) obtain po w' where run: "foldE (receive_one a po) w lines = Inr w'"
    and v: "v = w'\<lparr>wh_db := record_audit (ac_tenant_id a) ''purchase_order.received'' ''purchase_order'' (row_id po)
       (Some (label a)) (wh_db w')\<rparr>"
    unfolding receive_purchase_order_def bindE_Inr_iff by blast
  have w': "reached w w'"
    by (rule foldE_reached [OF run reached_refl [OF w]]) (use receive_one_reached assms(3) in blast)
  show ?thesis
    by (rule reached_same [OF w'], rule well_kept_audit) (use w' v in \<open>simp_all add: reached_def stored_lines_def payload_of_def\<close>)
qed

lemma set_fields_sums: "ps_sums (set_fields r p) = ps_sums p"
  by (simp add: ps_sums_def set_fields_def)

lemma map_update_sums: "(\<And>p. ps_sums (f p) = ps_sums p) \<Longrightarrow> map ps_sums (update_rows q f ps) = map ps_sums ps"
  by (simp add: map_update_rows_same)

lemma count_one_reached:
  assumes u: "reached w u" and eq: "count_one t who (results, u) (index, r, pid, sid) = (results', v)" and q: "in_cents (cn_quantity r)"
  shows "reached w v"
proof (cases "find_inventory_item u t pid sid (strip (cn_facility r)) (strip (cn_lot_id r))")
  case None
  with eq obtain p i x m where new: "add_position u t ''active'' p = (i, x)" and v: "v = post_inventory_detail x m None"
    and m: "mv_item_id m = i" "mv_tenant_id m = t" "mv_sales_order_id m = None" "mv_on_hand_diff m = cn_quantity r"
  proof -
    from None eq obtain p i x where "add_position u t ''active'' p = (i, x)"
      "v = post_inventory_detail x ((movement_of t i (cn_quantity r) ''import_initial'' who)\<lparr>mv_unit_cost := cn_unit_cost r\<rparr>) None"
      by (simp add: count_one_def Let_def case_prod_beta) (metis prod.collapse)
    then show ?thesis by (rule that) simp_all
  qed
  note added = add_position_reached [OF u new]
  show ?thesis unfolding v by (rule post_new_movement_reached) (use added m q in simp_all)
next
  case (Some p)
  let ?x = "u\<lparr>wh_positions := update_rows (\<lambda>q. ps_id q = ps_id p) (set_fields r) (wh_positions u)\<rparr>"
  have sums: "map ps_sums (wh_positions ?x) = map ps_sums (wh_positions u)" by (simp add: map_update_sums set_fields_sums)
  have ten: "tenant_of_item ?x = tenant_of_item u" by (simp add: tenant_of_item_def fun_eq_iff)
  have drawn: "ids_drawn ?x" if "ids_drawn u" by (rule ids_drawn_cong [OF that same_sums(1) [OF sums]]) simp
  have x: "reached w ?x"
    using well_kept_unmoved [of u ?x, OF _ sums _ _ drawn] u ten by (intro reached_same [OF u])
      (simp add: reached_def stored_lines_def payload_of_def)
  have mem: "ps_id p \<in> ps_id ` set (wh_positions ?x)"
    using find_inventory_item_Some(1) [OF Some] set_ids [OF same_sums(1) [OF sums]] by blast
  have "v = ?x \<or> v = post_inventory_detail ?x ((movement_of t (ps_id p) (round2 (cn_quantity r - ps_on_hand p)) ''import_override'' who)
      \<lparr>mv_unit_cost := cn_unit_cost r\<rparr>) None"
    using eq Some by (auto simp: count_one_def Let_def)
  then show ?thesis
  proof
    assume v: "v = post_inventory_detail ?x ((movement_of t (ps_id p) (round2 (cn_quantity r - ps_on_hand p)) ''import_override'' who)
      \<lparr>mv_unit_cost := cn_unit_cost r\<rparr>) None"
    show ?thesis unfolding v
      by (rule post_new_movement_reached [OF x]) (use mem find_inventory_item_Some(2) [OF Some] ten round2_in_cents in simp_all)
  qed (use x in simp)
qed

lemma set_resolve_rows: "(index, r, pid, sid) \<in> set (snd (resolve_rows w t rows)) \<Longrightarrow> (index, r) \<in> set rows"
  by (induction rows) (auto simp: Let_def case_prod_beta split: sum.splits)

lemma set_prepare_rows: "x \<in> set (snd (prepare_rows seen rows)) \<Longrightarrow> x \<in> set rows"
  by (induction seen rows rule: prepare_rows.induct) (auto simp: Let_def case_prod_beta split: if_splits)

lemma count_fold_reached:
  assumes "\<And>index r pid sid. (index, r, pid, sid) \<in> set xs \<Longrightarrow> in_cents (cn_quantity r)" and "reached w u"
  shows "reached w (snd (fold (\<lambda>x acc. count_one t who acc x) xs (results, u)))"
  using assms
proof (induction xs arbitrary: results u)
  case (Cons x xs)
  obtain results' v where v: "count_one t who (results, u) x = (results', v)" by (cases "count_one t who (results, u) x")
  obtain index r pid sid where x: "x = (index, r, pid, sid)" by (cases x)
  have "reached w v" 
    using count_one_reached [OF Cons.prems(2) v [unfolded x]] Cons.prems(1) [of index r pid sid] x by simp
  have "reached w (snd (fold (\<lambda>x acc. count_one t who acc x) xs (results', v)))"
  proof (rule Cons.IH [OF _ \<open>reached w v\<close>])
    fix j s p q assume "(j, s, p, q) \<in> set xs"
    then show "in_cents (cn_quantity s)" using Cons.prems(1) [of j s p q] by simp
  qed
  with v show ?case by simp
qed simp

lemma import_reached:
  assumes "bulk_upsert_inventory w a rows dry_run on_error = Inr (results, v)" and w: "well_kept w"
    and q: "\<And>r. r \<in> set rows \<Longrightarrow> in_cents (cn_quantity r)"
  shows "reached w v"
proof -
  obtain e1 prepared where prep: "prepare_rows [] (List.enumerate 0 rows) = (e1, prepared)" by (cases "prepare_rows [] (List.enumerate 0 rows)")
  obtain e2 kept where res: "resolve_rows w (ac_tenant_id a) prepared = (e2, kept)" by (cases "resolve_rows w (ac_tenant_id a) prepared")
  let ?fold = "fold (\<lambda>x acc. count_one (ac_tenant_id a) (Some (attributed a None)) acc x) kept (e1 @ e2, w)"
  have "in_cents (cn_quantity r)" if k: "(index, r, pid, sid) \<in> set kept" for index r pid sid
  proof -
    have "(index, r) \<in> set (List.enumerate 0 rows)"
      using set_resolve_rows [of index r pid sid w "ac_tenant_id a" prepared] set_prepare_rows [of "(index, r)" "[]"] k prep res by simp
    then show ?thesis using q by (auto simp: in_set_enumerate_eq)
  qed
  then have fold: "reached w (snd ?fold)" using count_fold_reached reached_refl [OF w] by blast
  have "v = w \<or> v = (snd ?fold)\<lparr>wh_db := record_audit (ac_tenant_id a) ''inventory.imported'' ''tenant'' (ac_tenant_id a)
      (Some (label a)) (wh_db (snd ?fold))\<rparr>"
    using assms(1) by (auto simp: bulk_upsert_inventory_def bulk_inventory_upsert_def Let_def prep res case_prod_beta bindE_Inr_iff
        split: if_splits)
  then show ?thesis
  proof
    assume v: "v = (snd ?fold)\<lparr>wh_db := record_audit (ac_tenant_id a) ''inventory.imported'' ''tenant'' (ac_tenant_id a)
      (Some (label a)) (wh_db (snd ?fold))\<rparr>"
    show ?thesis
      by (rule reached_same [OF fold], rule well_kept_audit) (use fold v in \<open>simp_all add: reached_def stored_lines_def payload_of_def\<close>)
  qed (use reached_refl [OF w] in simp)
qed

subsection \<open>The workspace's own documents\<close>

lemma map_of_map_key:
  "map_of (map (\<lambda>(k'', v'). (k'', if k'' = k then v else v')) d) k' =
    (if k' = k then if k \<in> fst ` set d then Some v else None else map_of d k')"
proof (induction d)
  case (Cons x d)
  then show ?case by (cases x; cases "k' = k") simp_all
qed simp

lemma map_of_dict_update: "map_of (dict_update k v d) k' = (if k' = k then Some v else map_of d k')"
proof (cases "k \<in> fst ` set d")
  case False
  then have "map_of d k = None" by (simp add: map_of_eq_None_iff)
  with False show ?thesis by (cases "map_of d k'") (auto simp: dict_update_def map_add_def)
qed (simp add: dict_update_def map_of_map_key)

lemma stored_lines_stamped: "key \<noteq> ''lines'' \<Longrightarrow> stored_lines (stamped key t i w) = stored_lines w"
  by (auto simp: stored_lines_def stamped_def payload_of_def get_field_def dict_get_def map_of_dict_update fun_eq_iff)

lemma post_object_line_reached:
  assumes u: "reached w u" and "post_object_line a b reason u line = Inr v" and q: "line_in_cents ''quantity_on_hand_diff'' line"
  shows "reached w v"
proof -
  from assms(2) obtain d where d: "object_fields line = Some d"
    by (cases "object_fields line") (simp_all add: post_object_line_def)
  from assms(2) obtain diff where diff: "nonzero_finite (float_or_zero (get_field d ''quantity_on_hand_diff'')) = Some diff"
    unfolding post_object_line_def d option.case(2) bindE_Inr_iff
    by (cases "nonzero_finite (float_or_zero (get_field d ''quantity_on_hand_diff''))") auto
  from assms(2) obtain item uc where item: "active_position u (ac_tenant_id a) (id_text (get_field d ''inventory_item_id'')) = Inr item"
    and v: "v = post_inventory_detail u ((movement_of (ac_tenant_id a) (ps_id item) diff reason (Some (attributed a None)))
        \<lparr>mv_entity_type := Some ''business_object'', mv_entity_id := Some (row_id b), mv_unit_cost := uc\<rparr>) None"
    unfolding post_object_line_def d option.case(2) bindE_Inr_iff diff by blast
  note p = active_position_Inr [OF item]
  have "in_cents diff" using q d diff by (simp add: line_in_cents_def)
  then show ?thesis unfolding v by (intro post_new_movement_reached [OF u]) (use p in simp_all)
qed

lemma object_stock_reached:
  assumes "post_business_object_stock time w a object_id = Inr v" and w: "well_kept w"
  shows "reached w v"
proof -
  from assms(1) obtain b reason lines w' where doc: "posting_document w (ac_tenant_id a) object_id m_stock_effect = Inr (b, reason, lines)"
    and run: "foldE (post_object_line a b reason) w lines = Inr w'"
    and v: "v = (stamped ''stock_posted_at'' time object_id w')\<lparr>wh_db := record_audit (ac_tenant_id a)
       ''business_object.stock_posted'' ''business_object'' object_id (Some (label a))
       (wh_db (stamped ''stock_posted_at'' time object_id w'))\<rparr>"
    unfolding post_business_object_stock_def by (auto simp: bindE_Inr_iff Let_def)
  from doc have "payload_lines (payload_of w object_id) = Inr lines"
    unfolding posting_document_def by (auto simp: bindE_Inr_iff Let_def split: option.splits)
  then have "get_field (payload_of w object_id) ''lines'' = JList lines"
    by (auto simp: payload_lines_def split: json.splits if_splits)
  with w have "line_in_cents ''quantity_on_hand_diff'' l" if "l \<in> set lines" for l
    using that by (auto simp: well_kept_def lines_in_cents_def stored_lines_def)
  then have w': "reached w w'"
    by (intro foldE_reached [OF run reached_refl [OF w]]) (blast intro: post_object_line_reached)
  show ?thesis
    by (rule reached_same [OF w'], rule well_kept_audit)
      (use w' v stored_lines_stamped [of "''stock_posted_at''" time object_id w'] in
        \<open>simp_all add: reached_def stamped_def stored_lines_def payload_of_def\<close>)
qed

subsection \<open>The positions themselves\<close>

lemma delete_item_reached:
  assumes "delete_inventory_item w a i = Inr v" and w: "well_kept w"
  shows "reached w v"
proof -
  from assms(1) have v: "v = w\<lparr>wh_db := set_row InventoryItem i (\<lambda>r. r\<lparr>row_status := ''archived''\<rparr>) (wh_db w)\<rparr>"
    unfolding delete_inventory_item_def by (auto simp: bindE_Inr_iff)
  show ?thesis
    by (rule reached_same [OF reached_refl [OF w]],
        rule well_kept_set_row [OF w, of "\<lambda>r. r\<lparr>row_status := ''archived''\<rparr>" v InventoryItem i])
      (use v in \<open>simp_all add: keeps_key_def stored_lines_def payload_of_def\<close>)
qed

lemma update_item_reached:
  assumes "update_inventory_item w a i payload = Inr v" and w: "well_kept w"
  shows "reached w v"
proof -
  obtain p where p: "get_position w i = Some p"
    using assms(1) unfolding update_inventory_item_def Let_def bindE_Inr_iff by (cases "get_position w i") auto
  from assms(1) obtain facility lot_id where v: "v = w\<lparr>wh_positions := update_rows (\<lambda>q. ps_id q = i)
      (\<lambda>q. q\<lparr>ps_facility := facility, ps_lot_id := lot_id,
                ps_facility_id := given_or (ui_facility_id payload) (ps_facility_id q),
                ps_bin_number := given_or (ui_bin_number payload) (ps_bin_number q),
                ps_expire_date := given_or (ui_expire_date payload) (ps_expire_date q),
                ps_unit_cost := (case ui_unit_cost payload of None \<Rightarrow> ps_unit_cost q
                                 | Some c \<Rightarrow> map_option column_cents c)\<rparr>) (wh_positions w),
      wh_db := (case ui_status payload of Some (Some s) \<Rightarrow> set_row InventoryItem i (\<lambda>r. r\<lparr>row_status := s\<rparr>) (wh_db w)
                   | _ \<Rightarrow> wh_db w)\<rparr>"
    unfolding update_inventory_item_def Let_def bindE_Inr_iff p option.case(2) by blast
  have sums: "map ps_sums (wh_positions v) = map ps_sums (wh_positions w)"
    by (simp add: v map_update_sums ps_sums_def)
  have fields: "wh_movements v = wh_movements w" "stored_lines v = stored_lines w"
    by (simp_all add: v stored_lines_def payload_of_def)
  have "\<exists>f. keeps_key f \<and> wh_db v = set_row InventoryItem i f (wh_db w)"
  proof (cases "\<exists>s. ui_status payload = Some (Some s)")
    case True
    then obtain s where "ui_status payload = Some (Some s)" by blast
    then show ?thesis by (intro exI [of _ "\<lambda>r. r\<lparr>row_status := s\<rparr>"]) (simp add: v keeps_key_def)
  next
    case False
    then have "wh_db v = wh_db w" by (auto simp: v split: option.splits)
    then show ?thesis by (intro exI [of _ "\<lambda>r. r"]) (simp add: keeps_key_def set_row_def update_rows_def)
  qed
  then obtain f where f: "keeps_key f" "wh_db v = set_row InventoryItem i f (wh_db w)" by blast
  from reached_same [OF reached_refl [OF w] well_kept_set_row [OF w f(1) sums fields(1) f(2) fields(2)]] show ?thesis .
qed

text \<open>Posting to accounts leaves the inventory rows alone.\<close>

definition keeps_items :: "db \<Rightarrow> db \<Rightarrow> bool" where
  "keeps_items d d' \<longleftrightarrow> db_uuids d' = db_uuids d \<and> db_next d \<le> db_next d' \<and>
     (\<forall>i. map_option row_tenant_id (get_row d' InventoryItem i) = map_option row_tenant_id (get_row d InventoryItem i)) \<and>
     (\<forall>r' \<in> set (db_rows d'). row_model r' = InventoryItem \<longrightarrow>
        (\<exists>r \<in> set (db_rows d). row_model r = InventoryItem \<and> row_id r = row_id r'))"

lemma keeps_items_refl: "keeps_items d d"
  by (auto simp: keeps_items_def)

lemma keeps_items_trans: "keeps_items d e \<Longrightarrow> keeps_items e f \<Longrightarrow> keeps_items d f"
  unfolding keeps_items_def by (metis order_trans)

lemma keeps_items_post:
  assumes "post_account_entries d d a account lines c = Inr (wr, d')" and "get_row d BillingAccount i = Some account"
    and "row_tenant_id account = ac_tenant_id a"
  shows "keeps_items d d'"
proof -
  obtain after where d': "d' = record_audit (ac_tenant_id a) ''billing_account.posted'' ''billing_account'' i (Some (label a))
         (set_row BillingAccount i (\<lambda>r. r\<lparr>row_balance := after\<rparr>)
           (d\<lparr>db_entries := db_entries d @ wr, db_next := db_next d + length lines\<rparr>))"
    using post_account_entriesE [OF assms] by metis
  have key: "keeps_key (\<lambda>r. r\<lparr>row_balance := after\<rparr>)" by (simp add: keeps_key_def)
  have tenants: "map_option row_tenant_id (get_row d' InventoryItem j) = map_option row_tenant_id (get_row d InventoryItem j)" for j
    unfolding d' post_get_row by simp
  have rows: "db_rows d' = db_rows (set_row BillingAccount i (\<lambda>r. r\<lparr>row_balance := after\<rparr>)
           (d\<lparr>db_entries := db_entries d @ wr, db_next := db_next d + length lines\<rparr>))"
    by (simp add: d' store_simps)
  have ids: "\<exists>r \<in> set (db_rows d). row_model r = InventoryItem \<and> row_id r = row_id r'"
    if "r' \<in> set (db_rows d')" "row_model r' = InventoryItem" for r'
    using item_rows_set_row [OF key that(1) [unfolded rows] that(2)] by simp
  have "db_uuids d' = db_uuids d" "db_next d \<le> db_next d'" by (simp_all add: d' store_simps)
  with tenants ids show ?thesis by (simp add: keeps_items_def)
qed

lemma well_kept_keeps_items:
  assumes w: "well_kept w" and d: "keeps_items (wh_db w) (wh_db v)"
    and v: "wh_positions v = wh_positions w" "wh_movements v = wh_movements w" "stored_lines v = stored_lines w"
  shows "well_kept v \<and> shelf_of v = shelf_of w"
proof -
  have "ids_drawn v" if "ids_drawn w" by (rule ids_drawn_db [OF that v(1)]) (use d in \<open>auto simp: keeps_items_def\<close>)
  moreover have "tenant_of_item v i = tenant_of_item w i" for i using d by (simp add: keeps_items_def tenant_of_item_def)
  ultimately show ?thesis using well_kept_unmoved [OF w _ v(2) _ _ v(3)] v(1) by simp
qed

lemma object_entries_reached:
  assumes "post_business_object_entries isoformat time w a object_id = Inr v" and w: "well_kept w"
  shows "reached w v"
proof -
  from assms(1) obtain reason els units d where run: "foldE (post_account_group a reason) ([], wh_db w) (lines_by_account els) = Inr (units, d)"
    and v: "v = stamped ''entries_posted_at'' time object_id
       (w\<lparr>wh_db := record_audit (ac_tenant_id a) ''business_object.entries_posted'' ''business_object'' object_id
          (Some (label a)) d\<rparr>)"
    unfolding post_business_object_entries_def by (auto simp: bindE_Inr_iff)
  have "keeps_items (wh_db w) (snd (units, d))"
    using run
  proof (rule foldE_invariant)
    fix s x s' assume s: "keeps_items (wh_db w) (snd s)" and eq: "post_account_group a reason s x = Inr s'"
    obtain us e i ls where sx: "s = (us, e)" "x = (i, ls)" by (cases s, cases x)
    from eq obtain account wr where acc: "get_active_document_or_404 e BillingAccount (ac_tenant_id a) i = Inr account"
      and post: "post_account_entries e e a account ls True = Inr (wr, snd s')"
      by (auto simp: post_account_group_def sx bindE_Inr_iff Let_def)
    from acc have "get_row e BillingAccount i = Some account" "row_tenant_id account = ac_tenant_id a"
      by (simp_all add: get_active_document_or_404_Inr)
    with post have "keeps_items e (snd s')" by (rule keeps_items_post)
    with s sx show "keeps_items (wh_db w) (snd s')" using keeps_items_trans by simp
  qed (simp add: keeps_items_refl)
  then have "keeps_items (wh_db w) (wh_db v)"
    by (simp add: v stamped_def keeps_items_def store_simps)
  then show ?thesis
    by (rule reached_same [OF reached_refl [OF w] well_kept_keeps_items [OF w]])
      (use stored_lines_stamped [of "''entries_posted_at''" time object_id] in
        \<open>simp_all add: v stamped_def stored_lines_def payload_of_def\<close>)
qed

subsection \<open>Any history of stock\<close>

datatype stock_op =
    Create_Item actor create_item
  | Update_Item actor uuid update_item
  | Archive_Item actor uuid
  | Reserve actor uuid "hold_line list"
  | Release actor uuid "(uuid \<times> quantity) list"
  | Post_Shipment timestamp actor uuid
  | Receive actor uuid "receive_line list"
  | Import actor "count_row list" bool string
  | Post_Object string actor uuid
  | Post_Entries "string \<Rightarrow> timestamp option" string actor uuid

fun stock_run :: "stock_op \<Rightarrow> warehouse \<Rightarrow> warehouse result" where
  "stock_run (Create_Item a payload) w = bindE (create_inventory_item w a payload) (\<lambda>(_, w'). Inr w')"
| "stock_run (Update_Item a i payload) w = update_inventory_item w a i payload"
| "stock_run (Archive_Item a i) w = delete_inventory_item w a i"
| "stock_run (Reserve a i lines) w = reserve_stock_for_order w a i lines"
| "stock_run (Release a i lines) w = release_stock_for_order w a i lines"
| "stock_run (Post_Shipment now a i) w = post_shipment_stock now w a i"
| "stock_run (Receive a i lines) w = receive_purchase_order w a i lines"
| "stock_run (Import a rows dry_run on_error) w = bindE (bulk_upsert_inventory w a rows dry_run on_error) (\<lambda>(_, w'). Inr w')"
| "stock_run (Post_Object time a i) w = post_business_object_stock time w a i"
| "stock_run (Post_Entries isoformat time a i) w = post_business_object_entries isoformat time w a i"

text \<open>Quantities in cents. The handlers do not require it themselves; the columns have no finer value.\<close>

fun sound_stock :: "stock_op \<Rightarrow> bool" where
  "sound_stock (Create_Item _ payload) = (case ci_initial_quantity payload of None \<Rightarrow> True | Some q \<Rightarrow> in_cents q)"
| "sound_stock (Reserve _ _ lines) = list_all (\<lambda>l. 0 < hl_quantity l \<and> in_cents (hl_quantity l)) lines"
| "sound_stock (Release _ _ lines) = list_all (\<lambda>(_, q). 0 < q \<and> in_cents q) lines"
| "sound_stock (Receive _ _ lines) = list_all (\<lambda>l. in_cents (rl_quantity l)) lines"
| "sound_stock (Import _ rows _ _) = list_all (\<lambda>r. in_cents (cn_quantity r)) rows"
| "sound_stock _ = True"

lemma stock_run_reached:
  assumes "stock_run op w = Inr v" and "sound_stock op" and w: "well_kept w"
  shows "reached w v"
proof (cases op)
  case (Create_Item a payload)
  with assms(1) obtain i where "create_inventory_item w a payload = Inr (i, v)" by (auto simp: bindE_Inr_iff)
  moreover have "in_cents q" if "ci_initial_quantity payload = Some q" for q using assms(2) Create_Item that by simp
  ultimately show ?thesis using create_reached w by blast
next
  case (Import a rows dry_run on_error)
  with assms show ?thesis using import_reached [of w a rows dry_run on_error _ v] by (auto simp: bindE_Inr_iff list_all_iff)
next
  case (Post_Object time a i)
  with assms(1) w object_stock_reached show ?thesis by simp
next
  case (Reserve a i lines)
  with assms reserve_reached show ?thesis by (simp add: list_all_iff)
next
  case (Release a i lines)
  with assms(1,2) have "release_stock_for_order w a i lines = Inr v" "\<And>j q. (j, q) \<in> set lines \<Longrightarrow> 0 < q \<and> in_cents q"
    by (auto simp: list_all_iff)
  then show ?thesis using release_reached w by blast
next
  case (Receive a i lines)
  with assms receive_reached show ?thesis by (simp add: list_all_iff)
next
  case (Post_Shipment now a i)
  with assms(1) w post_shipment_reached show ?thesis by simp
next
  case (Update_Item a i payload)
  with assms(1) w update_item_reached show ?thesis by simp
next
  case (Archive_Item a i)
  with assms(1) w delete_item_reached show ?thesis by simp
next
  case (Post_Entries f time a i)
  with assms(1) w object_entries_reached show ?thesis by simp
qed

interpretation stock: simulation stock_run shelf_of shelf_step sound_stock well_kept
proof
  show "well_kept w'" if "well_kept w" "sound_stock op" "stock_run op w = Inr w'" for w op w'
    using stock_run_reached [OF that(3,2,1)] by (simp add: reached_def)
  show "shelf_step\<^sup>*\<^sup>* (shelf_of w) (shelf_of w')" if "well_kept w" "sound_stock op" "stock_run op w = Inr w'" for w op w'
    using stock_run_reached [OF that(3,2,1)] by (simp add: reached_def)
qed

lemma shelf_of_fields [simp]:
  "sh_on_hand (shelf_of w) = on_hand_of (wh_positions w)" "sh_free (shelf_of w) = available_of (wh_positions w)"
  "sh_held (shelf_of w) = held_of (wh_movements w)"
  by (simp_all add: shelf_of_def)

text \<open>The orders that ever held anything.\<close>

definition holding_orders :: "movement list \<Rightarrow> uuid set" where
  "holding_orders ms = {order. Some order \<in> mv_sales_order_id ` set ms}"

lemma finite_holding_orders: "finite (holding_orders ms)"
proof -
  have "order \<in> the ` mv_sales_order_id ` set ms" if "Some order \<in> mv_sales_order_id ` set ms" for order
    using imageI [OF that, of the] by simp
  then have "holding_orders ms \<subseteq> the ` mv_sales_order_id ` set ms" by (auto simp: holding_orders_def)
  then show ?thesis by (rule finite_subset) simp
qed

lemma moved_apart:
  assumes "finite S" and "\<And>m. m \<in> set ms \<Longrightarrow> mv_on_hand_diff m = (if is_hold m then 0 else mv_available_diff m)"
    and "holding_orders ms \<subseteq> S"
  shows "moved_available ms i = moved_on_hand ms i - (\<Sum>order \<in> S. held_of ms order i)"
  using assms(2,3)
proof (induction ms)
  case Nil
  then show ?case by (simp add: moved_available_def moved_on_hand_def held_of_def)
next
  case (Cons m ms)
  have IH: "moved_available ms i = moved_on_hand ms i - (\<Sum>order \<in> S. held_of ms order i)"
    using Cons by (auto simp: holding_orders_def)
  let ?add = "\<lambda>order. if mv_item_id m = i \<and> mv_sales_order_id m = Some order \<and> hold_reason m then mv_available_diff m else 0"
  have "held_of (m # ms) order i = held_of ms order i - ?add order" for order
    by (simp add: held_of_def)
  then have sum: "(\<Sum>order \<in> S. held_of (m # ms) order i) = (\<Sum>order \<in> S. held_of ms order i) - (\<Sum>order \<in> S. ?add order)"
    by (simp add: sum_subtractf)
  have "(\<Sum>order \<in> S. ?add order) = (if mv_item_id m = i \<and> is_hold m then mv_available_diff m else 0)"
  proof (cases "mv_sales_order_id m")
    case None
    then show ?thesis by (simp add: is_hold_def)
  next
    case (Some o')
    then have "o' \<in> S" using Cons.prems(2) by (auto simp: holding_orders_def image_iff)
    have "?add order = (if order = o' then (if mv_item_id m = i \<and> hold_reason m then mv_available_diff m else 0) else 0)" for order
      using Some by simp
    then show ?thesis using \<open>o' \<in> S\<close> assms(1) Some by (simp add: is_hold_def sum.delta)
  qed
  with IH sum Cons.prems(1) [of m] show ?case by (simp add: moved_available_def moved_on_hand_def)
qed


text \<open>C7: The ledger is the truth. After any history of accepted calls whose requests state quantities in whole cents (holds
  and releases above zero) every position's on-hand and available sums are the sums of its movements, no order holds less than
  nothing, and what is available is what is on hand less what the orders hold.\<close>

theorem every_position_is_its_ledger:
  assumes "foldE (\<lambda>w op. stock_run op w) w ops = Inr v" and "well_kept w" and "\<And>op. op \<in> set ops \<Longrightarrow> sound_stock op"
    and "get_position v i = Some p"
  shows "ps_on_hand p = moved_on_hand (wh_movements v) i \<and> ps_available p = moved_available (wh_movements v) i \<and>
    ps_available p = ps_on_hand p - (\<Sum>order \<in> holding_orders (wh_movements v). held_of (wh_movements v) order i) \<and>
    (\<forall>order. 0 \<le> held_of (wh_movements v) order i)"
proof -
  have v: "well_kept v" using stock.history_runs [OF assms(1-3)] by blast
  have "on_hand_of (wh_positions v) i = ps_on_hand p" "available_of (wh_positions v) i = ps_available p"
    using assms(4) by (simp_all add: get_position_def on_hand_of_def available_of_def)
  then have sums: "ps_on_hand p = moved_on_hand (wh_movements v) i" "ps_available p = moved_available (wh_movements v) i"
    using v by (auto simp: well_kept_def ledger_kept_def)
  have "mv_on_hand_diff m = (if is_hold m then 0 else mv_available_diff m)" if "m \<in> set (wh_movements v)" for m
    using v that unfolding well_kept_def sound_movement_def by blast
  then show ?thesis
    using sums moved_apart [OF finite_holding_orders _ subset_refl, of "wh_movements v" i] held_nonneg [OF v] by simp
qed

subsection \<open>What a shipment moves\<close>

lemma moved_on_hand_post:
  "moved_on_hand (wh_movements (post_inventory_detail w m d)) i =
    moved_on_hand (wh_movements w) i + (if mv_item_id m = i then column_cents (mv_on_hand_diff m) else 0)"
  by (simp add: post_inventory_detail_def Let_def moved_on_hand_def)

lemma release_hold_moves_nothing:
  "release_hold a shipment l j (held, w) = (held', v) \<Longrightarrow> moved_on_hand (wh_movements v) i = moved_on_hand (wh_movements w) i"
  by (auto simp: release_hold_def Let_def moved_on_hand_post column_cents_id split: if_splits)

lemma post_shipment_line_moves:
  assumes "post_shipment_line a shipment sign reason (held, w) l = Inr (held', v)" and "in_cents (sl_quantity l)"
    and "sign = 1 \<or> sign = - 1"
  shows "moved_on_hand (wh_movements v) i = moved_on_hand (wh_movements w) i +
    (if sl_inventory_item_id l = Some i then sign * sl_quantity l else 0)"
proof (cases "sl_inventory_item_id l")
  case (Some j)
  with assms(1) obtain item where item: "active_position w (ac_tenant_id a) j = Inr item"
    unfolding post_shipment_line_def by (auto simp: bindE_Inr_iff)
  obtain held1 x where r: "release_hold a shipment l j (held, w) = (held1, x)" by (cases "release_hold a shipment l j (held, w)")
  have "in_cents (sign * sl_quantity l)" using assms(2,3) by auto
  then show ?thesis
    using assms(1) Some item r active_position_Inr(1) [OF item] release_hold_moves_nothing [OF r, of i]
    by (auto simp: post_shipment_line_def moved_on_hand_post column_cents_id Let_def bindE_Inr_iff)
qed (use assms(1) in \<open>simp add: post_shipment_line_def\<close>)

lemma post_shipment_lines_move:
  assumes "foldE (post_shipment_line a shipment sign reason) (held, w) ls = Inr (held', v)" and sign: "sign = 1 \<or> sign = - 1"
    and "\<And>l. l \<in> set ls \<Longrightarrow> in_cents (sl_quantity l)"
  shows "moved_on_hand (wh_movements v) i = moved_on_hand (wh_movements w) i +
    sign * sum_where (\<lambda>l. sl_inventory_item_id l = Some i) sl_quantity ls"
  using assms(1,3)
proof (induction ls arbitrary: held w)
  case (Cons l ls)
  from Cons.prems(1) obtain held1 x where l: "post_shipment_line a shipment sign reason (held, w) l = Inr (held1, x)"
    and ls: "foldE (post_shipment_line a shipment sign reason) (held1, x) ls = Inr (held', v)"
    by (auto simp: bindE_Inr_iff)
  have "in_cents (sl_quantity l)" using Cons.prems(2) by simp
  from Cons.IH [OF ls] Cons.prems(2) post_shipment_line_moves [OF l this sign, of i] show ?case
    by (auto simp: distrib_left)
qed simp

lemma post_shipment_stockE:
  assumes "post_shipment_stock now w a shipment_id = Inr v"
  obtains shipment held held' w' where "has_permission a ''shipment.manage'' None"
    "lock_for_update (wh_db w) (ac_tenant_id a) Shipment shipment_id = Some shipment" "row_deleted_at shipment = None"
    "foldE (post_shipment_line a shipment (if row_direction shipment = ''inbound'' then 1 else - 1)
       (if row_direction shipment = ''inbound'' then inbound_reason (wh_db w) shipment else ''issued'')) (held, w)
       (live_shipment_lines w shipment) = Inr (held', w')"
    "v = w'\<lparr>wh_stamps := (shipment_id, now) # wh_stamps w'\<rparr>"
proof -
  obtain shipment where ship: "lock_for_update (wh_db w) (ac_tenant_id a) Shipment shipment_id = Some shipment"
    using assms unfolding post_shipment_stock_def by (cases "lock_for_update (wh_db w) (ac_tenant_id a) Shipment shipment_id") (auto simp: bindE_Inr_iff)
  let ?held = "case row_sales_order_id shipment of
      Some order_id \<Rightarrow> if (if row_direction shipment = ''inbound'' then 1 else - 1 :: quantity) < 0
                       then outstanding_holds w (ac_tenant_id a) order_id else []
    | None \<Rightarrow> []"
  from assms obtain p where p: "has_permission a ''shipment.manage'' None" "row_deleted_at shipment = None"
    "foldE (post_shipment_line a shipment (if row_direction shipment = ''inbound'' then 1 else - 1)
       (if row_direction shipment = ''inbound'' then inbound_reason (wh_db w) shipment else ''issued'')) (?held, w)
       (live_shipment_lines w shipment) = Inr p"
    "(case p of (_, w') \<Rightarrow> Inr (w'\<lparr>wh_stamps := (shipment_id, now) # wh_stamps w'\<rparr>)) = (Inr v :: warehouse result)"
    unfolding post_shipment_stock_def ship option.case(2) bindE_Inr_iff Let_def require_permission_def ensure_Inr_iff
      ensure_document_not_deleted_def by blast
  obtain held' w' where "p = (held', w')" by (cases p)
  with p ship show ?thesis by (intro that [of shipment ?held held' w']) (auto simp: bindE_Inr_iff ensure_Inr_iff)
qed

lemma foldE_keeps:
  assumes "foldE f s xs = Inr t" and "\<And>x s s'. f s x = Inr s' \<Longrightarrow> g s' = g s"
  shows "g t = g s"
  using foldE_invariant [OF assms(1), of "\<lambda>u. g u = g s"] assms(2) by metis

lemma post_shipment_line_db: "post_shipment_line a shipment sign reason s l = Inr s' \<Longrightarrow> wh_db (snd s') = wh_db (snd s)"
  by (cases s; cases "sl_inventory_item_id l")
    (auto simp: post_shipment_line_def bindE_Inr_iff release_hold_def Let_def case_prod_beta split: if_splits)

text \<open>C16: A shipment moves its lines, once. An accepted posting changes each position's on-hand total by exactly the
  quantities of the shipment's live lines that name it, in where it is inbound and out where it is outbound;
  from then on the shipment cannot be posted again.\<close>

theorem a_shipment_moves_its_lines_once:
  assumes "post_shipment_stock now w a shipment_id = Inr v" and "well_kept w"
    and "lock_for_update (wh_db w) (ac_tenant_id a) Shipment shipment_id = Some shipment"
  shows "moved_on_hand (wh_movements v) i = moved_on_hand (wh_movements w) i +
      (if row_direction shipment = ''inbound'' then 1 else - 1) *
        sum_where (\<lambda>l. sl_inventory_item_id l = Some i) sl_quantity (live_shipment_lines w shipment) \<and>
    post_shipment_stock later v a shipment_id = Inl (HttpError 409 ''already_posted'')"
proof
  let ?goal = "moved_on_hand (wh_movements v) i = moved_on_hand (wh_movements w) i +
      (if row_direction shipment = ''inbound'' then 1 else - 1) *
        sum_where (\<lambda>l. sl_inventory_item_id l = Some i) sl_quantity (live_shipment_lines w shipment)"
  from assms(1) obtain s held held' w' where perm: "has_permission a ''shipment.manage'' None"
    and s: "lock_for_update (wh_db w) (ac_tenant_id a) Shipment shipment_id = Some s" and live: "row_deleted_at s = None"
    and run: "foldE (post_shipment_line a s (if row_direction s = ''inbound'' then 1 else - 1)
       (if row_direction s = ''inbound'' then inbound_reason (wh_db w) s else ''issued'')) (held, w)
       (live_shipment_lines w s) = Inr (held', w')"
    and v: "v = w'\<lparr>wh_stamps := (shipment_id, now) # wh_stamps w'\<rparr>"
    by (rule post_shipment_stockE)
  have ss: "s = shipment" using s assms(3) by simp
  have "in_cents (sl_quantity l)" if "l \<in> set (live_shipment_lines w s)" for l
    using assms(2) that by (auto simp: well_kept_def live_shipment_lines_def lines_in_cents_def stored_lines_def)
  from post_shipment_lines_move [OF run _ this, of i] show ?goal by (simp add: v ss)
  have "wh_db w' = wh_db w" using foldE_keeps [OF run, of "\<lambda>s. wh_db (snd s)"] post_shipment_line_db by fastforce
  then show "post_shipment_stock later v a shipment_id = Inl (HttpError 409 ''already_posted'')"
    using perm s live v by (simp add: post_shipment_stock_def require_permission_def ensure_document_not_deleted_def)
qed

end
