(* ===== verification/Stock_Examples.thy ===== *)
theory Stock_Examples
  imports Stock_History
begin

text \<open>
  A warehouse at work: the witnesses of the stock properties, and half-cent holds that give back more than they
  took.
\<close>

definition demo_sale :: row where
  "demo_sale = blank_row\<lparr>row_model := SalesOrder, row_id := ''o'', row_status := ''confirmed''\<rparr>"

definition demo_leg :: row where
  "demo_leg = blank_row\<lparr>row_model := Shipment, row_id := ''s'', row_direction := ''outbound'', row_sales_order_id := Some ''o''\<rparr>"

definition demo_storeroom :: warehouse where
  "demo_storeroom = \<lparr>
     wh_db = blank_db\<lparr>db_rows := [demo_sale, demo_leg], db_uuids := (\<lambda>n. replicate (Suc n) CHR ''p''), db_next := 0\<rparr>,
     wh_positions = [], wh_movements = [],
     wh_order_lines = [\<lparr>ol_id = ''l'', ol_tenant_id = ''t'', ol_order_id = ''o'', ol_deleted = False, ol_product_id = Some ''g'',
       ol_sku_id = None, ol_unit_price = None, ol_received_quantity = 0\<rparr>],
     wh_purchase_lines = [],
     wh_shipment_lines = [\<lparr>sl_id = ''m'', sl_tenant_id = ''t'', sl_shipment_id = ''s'', sl_deleted = False,
       sl_inventory_item_id = Some ''p'', sl_quantity = 4\<rparr>],
     wh_stamps = [], wh_products = [\<lparr>pr_id = ''g'', pr_tenant_id = ''t'', pr_code = ''G'', pr_type = ''finished_good''\<rparr>], wh_skus = [], wh_facilities = [],
     wh_suppliers = [], wh_payloads = [], wh_versions = (\<lambda>_. 1)\<rparr>"

definition demo_keeper_of_stock :: actor where
  "demo_keeper_of_stock = with_grants [''inventory.manage'', ''shipment.manage''] blank_actor"

definition demo_opening :: "quantity \<Rightarrow> create_item" where
  "demo_opening q = \<lparr>ci_product_id = ''g'', ci_sku_id = None, ci_facility = ''A'', ci_facility_id = None, ci_lot_id = [],
     ci_bin_number = None, ci_expire_date = None, ci_unit_cost = None, ci_status = ''active'', ci_initial_quantity = Some q,
     ci_initial_reason = ''initial''\<rparr>"

definition demo_hold :: "quantity \<Rightarrow> hold_line" where
  "demo_hold q = \<lparr>hl_item_id = ''p'', hl_quantity = q, hl_order_item_id = None\<rparr>"

definition demo_day :: "stock_op list" where
  "demo_day = [Create_Item demo_keeper_of_stock (demo_opening 10), Reserve demo_keeper_of_stock ''o'' [demo_hold 6],
     Post_Shipment 100 demo_keeper_of_stock ''s'']"


lemma demo_day_sound: "op \<in> set demo_day \<Longrightarrow> sound_stock op"
  by (auto simp: demo_day_def demo_opening_def demo_hold_def in_cents_def)

lemma replicate_inj: "inj (\<lambda>n. c # replicate n c)"
  by (rule injI) (drule arg_cong [where f = length], simp)

lemma demo_storeroom_kept: "well_kept demo_storeroom"
proof -
  have "lines_in_cents (stored_lines demo_storeroom)"
    by (simp add: lines_in_cents_def stored_lines_def demo_storeroom_def in_cents_def payload_of_def get_field_def dict_get_def)
  moreover have "ids_drawn demo_storeroom"
    by (simp add: ids_drawn_def demo_storeroom_def replicate_inj demo_sale_def demo_leg_def blank_row_def)
  ultimately show ?thesis
    by (simp add: well_kept_def ledger_kept_def never_negative_def shelf_of_def)
      (simp add: demo_storeroom_def on_hand_of_def available_of_def moved_on_hand_def moved_available_def held_of_def)
qed


lemma demo_day_ends:
  "(case foldE (\<lambda>w op. stock_run op w) demo_storeroom demo_day of
      Inr v \<Rightarrow> map_option (\<lambda>p. (ps_on_hand p, ps_available p)) (get_position v ''p'') = Some (6, 4) | Inl _ \<Rightarrow> False)"
  by code_simp

theorem every_position_is_its_ledger_witness:
  "\<exists>v. foldE (\<lambda>w op. stock_run op w) demo_storeroom demo_day = Inr v \<and> moved_on_hand (wh_movements v) ''p'' = 6 \<and>
     (\<Sum>order \<in> holding_orders (wh_movements v). held_of (wh_movements v) order ''p'') = 2"
proof -
  obtain v p where v: "foldE (\<lambda>w op. stock_run op w) demo_storeroom demo_day = Inr v"
    and p: "get_position v ''p'' = Some p" "ps_on_hand p = 6" "ps_available p = 4"
    using demo_day_ends by (auto split: sum.splits)
  from every_position_is_its_ledger [OF v demo_storeroom_kept demo_day_sound p(1)] p v show ?thesis by auto
qed

text \<open>The storeroom with its goods in, before the shipment.\<close>

definition demo_morning :: "stock_op list" where
  "demo_morning = butlast demo_day"

lemma demo_morning_ends:
  "(case foldE (\<lambda>w op. stock_run op w) demo_storeroom demo_morning of
      Inr v \<Rightarrow> is_ok (post_shipment_stock 100 v demo_keeper_of_stock ''s'') \<and>
        lock_for_update (wh_db v) ''t'' Shipment ''s'' = Some demo_leg \<and>
        sum_where (\<lambda>l. sl_inventory_item_id l = Some ''p'') sl_quantity (live_shipment_lines v demo_leg) = 4 \<and>
        moved_on_hand (wh_movements v) ''p'' = 10
    | Inl _ \<Rightarrow> False)"
  by code_simp

theorem a_shipment_moves_its_lines_once_witness:
  "\<exists>w v. well_kept w \<and> post_shipment_stock 100 w demo_keeper_of_stock ''s'' = Inr v \<and>
     moved_on_hand (wh_movements w) ''p'' = 10 \<and> moved_on_hand (wh_movements v) ''p'' = 6 \<and>
     post_shipment_stock 200 v demo_keeper_of_stock ''s'' = Inl (HttpError 409 ''already_posted'')"
proof -
  obtain w where w: "foldE (\<lambda>w op. stock_run op w) demo_storeroom demo_morning = Inr w"
    "lock_for_update (wh_db w) ''t'' Shipment ''s'' = Some demo_leg"
    "sum_where (\<lambda>l. sl_inventory_item_id l = Some ''p'') sl_quantity (live_shipment_lines w demo_leg) = 4"
    "moved_on_hand (wh_movements w) ''p'' = 10" and ok: "is_ok (post_shipment_stock 100 w demo_keeper_of_stock ''s'')"
    using demo_morning_ends by (auto split: sum.splits)
  have tenant: "ac_tenant_id demo_keeper_of_stock = ''t''"
    by code_simp
  have "sound_stock op" if "op \<in> set demo_morning" for op
    using demo_day_sound that by (auto simp: demo_morning_def dest: in_set_butlastD)
  then have kept: "well_kept w" using stock.history_runs [OF w(1) demo_storeroom_kept] by blast
  obtain v where v: "post_shipment_stock 100 w demo_keeper_of_stock ''s'' = Inr v" using is_ok_projr [OF ok] by blast
  from a_shipment_moves_its_lines_once [OF v kept, of demo_leg "''p''" 200] w kept v tenant show ?thesis
    by (auto simp: demo_leg_def blank_row_def)
qed

text \<open>A position with one unit on hand, half-cent holds taken twice and given back in one go.\<close>

definition half_cent_day :: "stock_op list" where
  "half_cent_day = [Create_Item demo_keeper_of_stock (demo_opening 1),
     Reserve demo_keeper_of_stock ''o'' [demo_hold (1/200), demo_hold (1/200)],
     Release demo_keeper_of_stock ''o'' [(''p'', 2/100)]]"

text \<open>Half-cent holds invent stock. Nothing holds the quantity of a hold to two decimals. The ledger's column rounds
  each half cent up to a cent, the position's running sum is rounded back up to what it was: two such holds
  take nothing from what is available, and giving them back leaves more available than is on hand.\<close>

theorem half_cent_holds_invent_stock:
  "(case foldE (\<lambda>w op. stock_run op w) demo_storeroom half_cent_day of
      Inr v \<Rightarrow> map_option (\<lambda>p. (ps_on_hand p, ps_available p)) (get_position v ''p'') = Some (1, 102/100) | Inl _ \<Rightarrow> False)"
  by code_simp

end
