(* ===== verification/Flow_Subscriptions.thy ===== *)
theory Flow_Subscriptions
  imports Actors "HOL-Library.Product_Lexorder"
begin

text \<open>
  Enrolment in hosted flow driving: \<open>app/services/flow_subscriptions.py\<close>, \<open>app/api/flows.py\<close> and
  \<open>app/api/flow_runner_bootstrap.py\<close>. A \<open>flow_server\<close> is what these modules read and write: the identity
  tables (keys, tenants, subscriptions, audit), the tenants' skills and machines, and the ledger of runs.

  Ids are compared as the database stores them. Free text (\<open>detail\<close>, labels) is left out.
\<close>

record tenant_skill =
  ts_tenant_id :: uuid
  ts_name :: string
  ts_kind :: string
  ts_status :: string
  ts_required_capability :: "string option"

record flow_run =
  fr_id :: uuid
  fr_tenant_id :: uuid
  fr_subscription_id :: "uuid option"
  fr_entity_type :: string
  fr_trigger :: string
  fr_status :: string
  fr_started_at :: timestamp
  fr_finished_at :: "timestamp option"
  fr_queue_size :: "nat option"
  fr_items_advanced :: "nat option"
  fr_error :: "string option"
  fr_recorded_by :: "string option"

record flow_server =
  sv_identity :: identity
  sv_skills :: "tenant_skill list"
  sv_definitions :: "type_definition list"
  sv_runs :: "flow_run list"
  sv_uuids :: "nat \<Rightarrow> uuid"
  sv_next :: nat

abbreviation sv_subscriptions :: "flow_server \<Rightarrow> flow_subscription list" where
  "sv_subscriptions sv \<equiv> id_subscriptions (sv_identity sv)"

definition set_subscriptions :: "(flow_subscription list \<Rightarrow> flow_subscription list) \<Rightarrow> flow_server \<Rightarrow> flow_server" where
  "set_subscriptions f sv = sv\<lparr>sv_identity := (sv_identity sv)\<lparr>id_subscriptions := f (sv_subscriptions sv)\<rparr>\<rparr>"

definition change_subscription :: "uuid \<Rightarrow> (flow_subscription \<Rightarrow> flow_subscription) \<Rightarrow> flow_server \<Rightarrow> flow_server" where
  "change_subscription i f = set_subscriptions (update_rows (\<lambda>s. fs_id s = i) f)"

definition flow_audit :: "uuid \<Rightarrow> string \<Rightarrow> string \<Rightarrow> uuid \<Rightarrow> string \<Rightarrow> flow_server \<Rightarrow> flow_server" where
  "flow_audit tenant_id action entity_type entity_id who sv =
     sv\<lparr>sv_identity := (sv_identity sv)\<lparr>id_audit := id_audit (sv_identity sv) @
       [\<lparr>au_tenant_id = tenant_id, au_action = action, au_entity_type = entity_type, au_entity_id = entity_id,
         au_actor = Some who\<rparr>]\<rparr>\<rparr>"

definition draw_id :: "flow_server \<Rightarrow> uuid \<times> flow_server" where
  "draw_id sv = (sv_uuids sv (sv_next sv), sv\<lparr>sv_next := Suc (sv_next sv)\<rparr>)"

subsection \<open>What a subscription is derived from\<close>

definition DEFAULT_CADENCE_SECONDS :: int where
  "DEFAULT_CADENCE_SECONDS = 300"

text \<open>The states an editable state leads into that are neither editable nor without a way out.\<close>

definition landing_states :: "machine \<Rightarrow> string list \<Rightarrow> string list" where
  "landing_states m editable =
     filter (\<lambda>s. dict_get (m_transitions m) s [] \<noteq> [] \<and> s \<notin> set editable)
       (concat (map (\<lambda>source. dict_get (m_transitions m) source []) editable))"

definition machine_types :: "string \<Rightarrow> string list" where
  "machine_types entity_type =
     entity_type # sort (map fst (filter (\<lambda>(split, home). home = entity_type) KIND_SPLIT_MACHINE_TYPES))"

definition derived_queue_filter ::
    "type_definition list \<Rightarrow> uuid \<Rightarrow> string \<Rightarrow> (string \<times> json) list result" where
  "derived_queue_filter defs tenant_id entity_type =
     bindE (mapE (\<lambda>machine_type.
       bindE (get_builtin_machine defs tenant_id machine_type) (\<lambda>m.
       bindE (editable_states m machine_type) (\<lambda>editable. Inr (landing_states m editable)))) (machine_types entity_type))
     (\<lambda>landings. Inr (case sort (remdups (concat landings)) of
        [] \<Rightarrow> []
      | [s] \<Rightarrow> [(''status'', JStr s)]
      | ss \<Rightarrow> [(''status'', JList (map JStr ss))]))"

text \<open>The shipped catalogue's skill first, then by name.\<close>

definition derived_driver_skill :: "tenant_skill list \<Rightarrow> uuid \<Rightarrow> string \<Rightarrow> string option" where
  "derived_driver_skill skills tenant_id entity_type =
     (case map_of HOSTED_ADVANCE_VERBS entity_type of
        None \<Rightarrow> None
      | Some verb \<Rightarrow>
          (case sort_key (\<lambda>s. (ts_kind s \<noteq> ''product'', ts_name s))
                  (filter (\<lambda>s. ts_tenant_id s = tenant_id \<and> ts_status s = ''active'' \<and> ts_required_capability s = Some verb)
                    skills) of
             [] \<Rightarrow> None
           | s # _ \<Rightarrow> Some (ts_name s)))"

text \<open>The keys are listed in the order they were created.\<close>

definition active_hosted_key_id :: "identity \<Rightarrow> uuid \<Rightarrow> uuid option" where
  "active_hosted_key_id db tenant_id =
     map_option ak_id (find_row (\<lambda>k. ak_tenant_id k = tenant_id \<and> ak_principal_kind k = PRINCIPAL_HOSTED_FLOW_AGENT \<and>
       ak_is_active k) (id_keys db))"

subsection \<open>Provisioning\<close>

definition subscription_of ::
    "uuid \<Rightarrow> uuid \<Rightarrow> string \<Rightarrow> string \<Rightarrow> (string \<times> json) list \<Rightarrow> uuid option \<Rightarrow> flow_subscription" where
  "subscription_of i tenant_id entity_type driver_skill queue_filter api_key_id = \<lparr>
     fs_id = i, fs_tenant_id = tenant_id, fs_entity_type = entity_type, fs_queue_filter = queue_filter,
     fs_cadence_seconds = DEFAULT_CADENCE_SECONDS, fs_enabled = True, fs_api_key_id = api_key_id, fs_unmoved_runs = 0,
     fs_parked_at = None, fs_parked_reason = None, fs_driver_skill = driver_skill,
     fs_created_by = Some ''platform:default''\<rparr>"

definition provision_one ::
    "uuid \<Rightarrow> string list \<Rightarrow> uuid option \<Rightarrow> nat \<times> flow_server \<Rightarrow> string \<Rightarrow> (nat \<times> flow_server) result" where
  "provision_one tenant_id existing api_key_id = (\<lambda>(created, sv) entity_type.
     if entity_type \<in> set existing then Inr (created, sv)
     else (case derived_driver_skill (sv_skills sv) tenant_id entity_type of
        None \<Rightarrow> Inr (created, sv)
      | Some driver_skill \<Rightarrow>
          if driver_skill = [] then Inr (created, sv)
          else bindE (derived_queue_filter (sv_definitions sv) tenant_id entity_type) (\<lambda>queue_filter.
            let (i, sv1) = draw_id sv in
            Inr (Suc created, set_subscriptions
              (\<lambda>ss. ss @ [subscription_of i tenant_id entity_type driver_skill queue_filter api_key_id]) sv1))))"

definition provision_flow_subscriptions :: "flow_server \<Rightarrow> uuid \<Rightarrow> (nat \<times> flow_server) result" where
  "provision_flow_subscriptions sv tenant_id =
     (let existing = map fs_entity_type (filter (\<lambda>s. fs_tenant_id s = tenant_id) (sv_subscriptions sv));
          api_key_id = active_hosted_key_id (sv_identity sv) tenant_id
      in foldE (provision_one tenant_id existing api_key_id) (0, sv) HOSTED_DRIVABLE_ENTITY_TYPES)"

definition attach_hosted_key :: "flow_server \<Rightarrow> uuid \<Rightarrow> uuid \<Rightarrow> nat \<times> flow_server" where
  "attach_hosted_key sv tenant_id api_key_id =
     (let orphan = (\<lambda>s. fs_tenant_id s = tenant_id \<and> fs_api_key_id s = None)
      in (length (filter orphan (sv_subscriptions sv)),
          set_subscriptions (update_rows orphan (\<lambda>s. s\<lparr>fs_api_key_id := Some api_key_id\<rparr>)) sv))"

definition clear_park :: "flow_subscription \<Rightarrow> flow_subscription" where
  "clear_park s = s\<lparr>fs_parked_at := None, fs_parked_reason := None, fs_unmoved_runs := 0\<rparr>"

definition unpark_on_new_definition :: "flow_server \<Rightarrow> uuid \<Rightarrow> string \<Rightarrow> string \<Rightarrow> nat \<times> flow_server" where
  "unpark_on_new_definition sv tenant_id entity_type who =
     (case find_row (\<lambda>s. fs_tenant_id s = tenant_id \<and> fs_entity_type s = entity_type \<and> fs_parked_at s \<noteq> None)
             (sv_subscriptions sv) of
        None \<Rightarrow> (0, sv)
      | Some s \<Rightarrow> (1, flow_audit tenant_id ''flow_subscription.unparked'' ''flow_subscription'' (fs_id s) who
                       (change_subscription (fs_id s) clear_park sv)))"

subsection \<open>The tenant's and the runner's calls\<close>

definition subscription_or_404 :: "flow_server \<Rightarrow> uuid \<Rightarrow> uuid \<Rightarrow> flow_subscription result" where
  "subscription_or_404 sv tenant_id i =
     (case find_row (\<lambda>s. fs_id s = i) (sv_subscriptions sv) of
        None \<Rightarrow> Inl (HttpError 404 ''not_found'')
      | Some s \<Rightarrow> if fs_tenant_id s \<noteq> tenant_id then Inl (HttpError 404 ''not_found'') else Inr s)"

definition list_flow_subscriptions :: "flow_server \<Rightarrow> actor \<Rightarrow> bool option \<Rightarrow> flow_subscription list result" where
  "list_flow_subscriptions sv a enabled =
     bindE (ensure (has_permission a ''keys.manage'' None \<or> has_permission a ''flow_run.record'' None) 403
              ''requires_capability'') (\<lambda>_.
     Inr (sort_key fs_entity_type (filter (\<lambda>s. fs_tenant_id s = ac_tenant_id a \<and>
       (case enabled of None \<Rightarrow> True | Some e \<Rightarrow> fs_enabled s = e)) (sv_subscriptions sv))))"

definition update_flow_subscription ::
    "flow_server \<Rightarrow> actor \<Rightarrow> uuid \<Rightarrow> bool option \<Rightarrow> bool \<Rightarrow> flow_server result" where
  "update_flow_subscription sv a i enabled clear =
     bindE (require_permission a ''keys.manage'' None) (\<lambda>_.
     bindE (subscription_or_404 sv (ac_tenant_id a) i) (\<lambda>s.
     let toggled = (case enabled of None \<Rightarrow> False | Some e \<Rightarrow> fs_enabled s \<noteq> e);
         unparked = (fs_parked_at s \<noteq> None \<and> (clear \<or> toggled \<and> enabled = Some True))
     in if \<not> toggled \<and> \<not> unparked then Inr sv
        else Inr (flow_audit (ac_tenant_id a)
          (if toggled then if enabled = Some True then ''flow_subscription.enabled'' else ''flow_subscription.disabled''
           else ''flow_subscription.unparked'') ''flow_subscription'' i (label a)
          (change_subscription i (\<lambda>r. (if unparked then clear_park r else r)
             \<lparr>fs_enabled := if toggled then enabled = Some True else fs_enabled r\<rparr>) sv))))"

definition report_driver_state ::
    "flow_server \<Rightarrow> actor \<Rightarrow> timestamp \<Rightarrow> uuid \<Rightarrow> nat \<Rightarrow> bool \<Rightarrow> string option \<Rightarrow> flow_server result" where
  "report_driver_state sv a now i unmoved_runs parked parked_reason =
     bindE (require_permission a ''flow_run.record'' None) (\<lambda>_.
     bindE (subscription_or_404 sv (ac_tenant_id a) i) (\<lambda>s.
     let was_parked = (fs_parked_at s \<noteq> None) in
     if parked \<and> \<not> was_parked then
       Inr (flow_audit (ac_tenant_id a) ''flow_subscription.parked'' ''flow_subscription'' i (label a)
         (change_subscription i (\<lambda>r. r\<lparr>fs_unmoved_runs := unmoved_runs, fs_parked_at := Some now,
            fs_parked_reason := parked_reason\<rparr>) sv))
     else if \<not> parked \<and> was_parked then Inl (HttpError 409 ''not_cleared_by_the_runner'')
     else Inr (change_subscription i (\<lambda>r. r\<lparr>fs_unmoved_runs := unmoved_runs\<rparr>) sv)))"

definition open_flow_run ::
    "flow_server \<Rightarrow> actor \<Rightarrow> string \<Rightarrow> uuid option \<Rightarrow> string \<Rightarrow> timestamp \<Rightarrow> nat option \<Rightarrow> (flow_run \<times> flow_server) result" where
  "open_flow_run sv a entity_type subscription_id trigger started_at queue_size =
     bindE (require_permission a ''flow_run.record'' None) (\<lambda>_.
     bindE (case subscription_id of None \<Rightarrow> Inr ()
            | Some i \<Rightarrow> bindE (subscription_or_404 sv (ac_tenant_id a) i) (\<lambda>_. Inr ())) (\<lambda>_.
     let (i, sv1) = draw_id sv;
         run = \<lparr>fr_id = i, fr_tenant_id = ac_tenant_id a, fr_subscription_id = subscription_id, fr_entity_type = entity_type,
           fr_trigger = trigger, fr_status = ''running'', fr_started_at = started_at, fr_finished_at = None,
           fr_queue_size = queue_size, fr_items_advanced = None, fr_error = None, fr_recorded_by = Some (attributed a None)\<rparr>
     in Inr (run, sv1\<lparr>sv_runs := sv_runs sv1 @ [run]\<rparr>)))"

definition close_flow_run ::
    "flow_server \<Rightarrow> actor \<Rightarrow> uuid \<Rightarrow> string \<Rightarrow> timestamp \<Rightarrow> nat option \<Rightarrow> string option \<Rightarrow> (flow_run \<times> flow_server) result" where
  "close_flow_run sv a run_id status finished_at items_advanced error =
     bindE (require_permission a ''flow_run.record'' None) (\<lambda>_.
     case find_row (\<lambda>r. fr_id r = run_id) (sv_runs sv) of
       None \<Rightarrow> Inl (HttpError 404 ''not_found'')
     | Some run \<Rightarrow>
         bindE (ensure (fr_tenant_id run = ac_tenant_id a) 404 ''not_found'') (\<lambda>_.
         bindE (ensure (fr_status run = ''running'') 409 ''flow_run_already_finished'') (\<lambda>_.
         let finish = (\<lambda>r. r\<lparr>fr_status := status, fr_finished_at := Some finished_at, fr_items_advanced := items_advanced,
               fr_error := error\<rparr>)
         in Inr (finish run, sv\<lparr>sv_runs := update_rows (\<lambda>r. fr_id r = run_id) finish (sv_runs sv)\<rparr>))))"

subsection \<open>The platform's two calls\<close>

text \<open>Tenants with something enabled, in the order of their rows (the code orders by name).\<close>

definition flow_runner_tenants :: "identity \<Rightarrow> uuid list" where
  "flow_runner_tenants db =
     map tn_id (filter (\<lambda>t. list_ex (\<lambda>s. fs_tenant_id s = tn_id t \<and> fs_enabled s) (id_subscriptions db) \<and>
       tn_status t = ''active'' \<and> tn_flow_runner_enabled t) (id_tenants db))"

definition hosted_key :: "uuid \<Rightarrow> uuid \<Rightarrow> string \<Rightarrow> api_key" where
  "hosted_key i tenant_id key_hash = \<lparr>
     ak_id = i, ak_tenant_id = tenant_id, ak_key_hash = key_hash, ak_user_id = None, ak_role = ''service'',
     ak_principal_kind = PRINCIPAL_HOSTED_FLOW_AGENT, ak_is_active = True, ak_expires_at = None,
     ak_refresh_token_hash = None, ak_prior_refresh_token_hash = None, ak_refresh_rotated_at = None\<rparr>"

text \<open>\<open>plain\<close> is the key drawn; only its digest is stored.\<close>

definition issue_flow_runner_credential ::
    "(string \<Rightarrow> string) \<Rightarrow> string \<Rightarrow> flow_server \<Rightarrow> uuid \<Rightarrow> flow_server result" where
  "issue_flow_runner_credential digest plain sv tenant_id =
     (case find_tenant (sv_identity sv) tenant_id of
        None \<Rightarrow> Inl (HttpError 404 ''tenant_not_found'')
      | Some t \<Rightarrow>
          bindE (ensure (tn_status t = ''active'') 404 ''tenant_not_found'') (\<lambda>_.
          bindE (ensure (tn_flow_runner_enabled t) 409 ''hosted_flow_runner_is_switched_off'') (\<lambda>_.
          bindE (ensure (list_ex (\<lambda>s. fs_tenant_id s = tenant_id \<and> fs_enabled s) (sv_subscriptions sv)) 409
                   ''no_enabled_flow_subscription'') (\<lambda>_.
          let (i, sv1) = draw_id sv;
              superseded = (\<lambda>k. ak_tenant_id k = tenant_id \<and> ak_principal_kind k = PRINCIPAL_HOSTED_FLOW_AGENT \<and> ak_is_active k);
              db1 = (sv_identity sv1)\<lparr>
                id_keys := update_rows superseded (\<lambda>k. k\<lparr>ak_is_active := False\<rparr>) (id_keys (sv_identity sv1)) @
                  [hosted_key i tenant_id (digest plain)],
                id_subscriptions := update_rows (\<lambda>s. fs_tenant_id s = tenant_id) (\<lambda>s. s\<lparr>fs_api_key_id := Some i\<rparr>)
                  (sv_subscriptions sv1)\<rparr>
          in Inr (flow_audit tenant_id ''flow_agent_key.issued_to_runner'' ''api_key'' i ''platform:flow-runner''
               (sv1\<lparr>sv_identity := db1\<rparr>))))))"

end
