(* ===== verification/Flow_Runner.thy ===== *)
theory Flow_Runner
  imports Flow_Subscriptions
begin

text \<open>
  The dispatcher of the hosted flow runner (\<open>flow_runner/dispatcher.py\<close>, \<open>queues.py\<close>, \<open>client.py\<close>): one pass
  over a tenant's enabled subscriptions. The runner calls the record layer through its public API, so its writes
  are the handlers of \<open>Flow_Subscriptions\<close> run for the hosted key's actor.

  What the runner cannot know is a parameter, the record \<open>outside\<close>: whether a map is published, how long a queue
  is before and after the agent's turn, what the agent answers, and what becomes of each write on its way. A call
  is answered, refused (\<open>ApiError\<close>, a status the client did not expect) or breaks off (an exception the
  transport raises, which nothing in the dispatcher catches).
\<close>

datatype 'a reply = Answer 'a | Refused string | Broken

record run_request =
  rq_entity_type :: string
  rq_driver_skill :: string
  rq_queue_size :: nat
  rq_run_id :: uuid
  rq_trigger :: string
  rq_max_records :: nat
  rq_queue_filter :: "(string \<times> json) list"

record run_result =
  rs_ok :: bool
  rs_items_advanced :: "nat option"
  rs_error :: "string option"

record outside =
  ou_now :: timestamp
  ou_finished :: timestamp
  ou_workflow :: "string \<Rightarrow> string \<Rightarrow> bool reply"
  ou_queue :: "string \<Rightarrow> (string \<times> json) list \<Rightarrow> nat reply"
  ou_marks :: "string \<Rightarrow> (nat \<times> nat) reply"
  ou_agent :: "run_request \<Rightarrow> run_result reply"
  ou_queue_after :: "string \<Rightarrow> (string \<times> json) list \<Rightarrow> nat reply"
  ou_marks_after :: "string \<Rightarrow> (nat \<times> nat) reply"
  ou_open :: "unit reply"
  ou_report :: "unit reply"
  ou_close :: "unit reply"

record runner_config =
  rc_max_unmoved_runs :: nat
  rc_idle_report_seconds :: int
  rc_max_records_per_run :: nat

text \<open>\<open>SubscriptionState\<close>, and the dispatcher with what it works on; the dict of states is read with
  \<open>setdefault\<close>, so it is a function.\<close>

record sub_memory =
  sm_last_polled_at :: "timestamp option"
  sm_last_idle_report_at :: "timestamp option"
  sm_last_idle_reason :: "string option"

record drive =
  dv_memory :: "uuid \<Rightarrow> sub_memory"
  dv_server :: flow_server

definition blank_memory :: sub_memory where
  "blank_memory = \<lparr>sm_last_polled_at = None, sm_last_idle_report_at = None, sm_last_idle_reason = None\<rparr>"

definition change_memory :: "uuid \<Rightarrow> (sub_memory \<Rightarrow> sub_memory) \<Rightarrow> drive \<Rightarrow> drive" where
  "change_memory i f d = d\<lparr>dv_memory := (dv_memory d)(i := f (dv_memory d i))\<rparr>"

subsection \<open>The client\<close>

text \<open>A write reaches the handler when the link answers; the handler's refusal is an \<open>ApiError\<close> too.\<close>

definition send :: "unit reply \<Rightarrow> 'a result \<Rightarrow> 'a reply" where
  "send link r = (case link of
     Answer _ \<Rightarrow> (case r of Inl e \<Rightarrow> Refused (http_reason e) | Inr x \<Rightarrow> Answer x)
   | Refused e \<Rightarrow> Refused e
   | Broken \<Rightarrow> Broken)"

definition queue_path_of :: "string \<Rightarrow> string" where
  "queue_path_of entity_type = dict_get BUILTIN_QUEUE_PATHS entity_type ''/business-objects''"

definition entity_kind_of :: "string \<Rightarrow> string" where
  "entity_kind_of entity_type =
     (if entity_type \<in> fst ` set BUILTIN_QUEUE_PATHS then ''builtin'' else ''business_object'')"

definition queue_location :: "flow_subscription \<Rightarrow> string \<times> (string \<times> json) list" where
  "queue_location s =
     (queue_path_of (fs_entity_type s),
      if entity_kind_of (fs_entity_type s) = ''business_object''
      then fs_queue_filter s @ [(''object_type'', JStr (fs_entity_type s))]
      else fs_queue_filter s)"

subsection \<open>One subscription\<close>

text \<open>What a dispatch comes to: an answer (the ledger row, and whether an agent turn was spent), or an exception
  that leaves the pass. What was written stays written either way.\<close>

datatype dispatched = Done "flow_run option" bool | Escaped

definition due :: "(uuid \<Rightarrow> sub_memory) \<Rightarrow> flow_subscription \<Rightarrow> timestamp \<Rightarrow> bool" where
  "due memory s now =
     (if fs_parked_at s \<noteq> None then False
      else (case sm_last_polled_at (memory (fs_id s)) of
              None \<Rightarrow> True
            | Some t \<Rightarrow> (if fs_cadence_seconds s = 0 then DEFAULT_CADENCE_SECONDS else fs_cadence_seconds s) \<le> now - t))"

text \<open>\<open>None\<close> when the report breaks off.\<close>

definition note_progress ::
    "runner_config \<Rightarrow> actor \<Rightarrow> outside \<Rightarrow> flow_subscription \<Rightarrow> nat option \<Rightarrow> bool \<Rightarrow> bool \<Rightarrow> drive \<Rightarrow> drive option" where
  "note_progress c a ou s advanced ok other_progress d =
     (let moved = (other_progress \<or> ok \<and> 0 < (case advanced of None \<Rightarrow> 0 | Some n \<Rightarrow> n));
          unmoved = (if moved then 0 else fs_unmoved_runs s + 1);
          park = (rc_max_unmoved_runs c \<le> unmoved)
      in case send (ou_report ou) (report_driver_state (dv_server d) a (ou_finished ou) (fs_id s) unmoved park
                (if park then Some ''found_work_and_moved_nothing'' else None)) of
           Answer sv \<Rightarrow> Some (d\<lparr>dv_server := sv\<rparr>)
         | Refused _ \<Rightarrow> Some d
         | Broken \<Rightarrow> None)"

definition record_failed_check ::
    "actor \<Rightarrow> outside \<Rightarrow> flow_subscription \<Rightarrow> string \<Rightarrow> string \<Rightarrow> drive \<Rightarrow> dispatched \<times> drive" where
  "record_failed_check a ou s trigger error d =
     (case send (ou_open ou) (open_flow_run (dv_server d) a (fs_entity_type s) (Some (fs_id s)) trigger (ou_now ou) None) of
        Answer (run, sv) \<Rightarrow>
          (case send (ou_close ou) (close_flow_run sv a (fr_id run) ''failed'' (ou_now ou) None (Some (take 4000 error))) of
             Answer (run', sv') \<Rightarrow> (Done (Some run') False, d\<lparr>dv_server := sv'\<rparr>)
           | Refused _ \<Rightarrow> (Done None False, d\<lparr>dv_server := sv\<rparr>)
           | Broken \<Rightarrow> (Escaped, d\<lparr>dv_server := sv\<rparr>))
      | Refused _ \<Rightarrow> (Done None False, d)
      | Broken \<Rightarrow> (Escaped, d))"

text \<open>A check that failed counts towards the park like a run that moved nothing.\<close>

definition failed_check ::
    "runner_config \<Rightarrow> actor \<Rightarrow> outside \<Rightarrow> flow_subscription \<Rightarrow> string \<Rightarrow> string \<Rightarrow> drive \<Rightarrow> dispatched \<times> drive" where
  "failed_check c a ou s trigger error d =
     (case note_progress c a ou s None False False d of
        None \<Rightarrow> (Escaped, d)
      | Some d' \<Rightarrow> record_failed_check a ou s trigger error d')"

definition report_idle ::
    "runner_config \<Rightarrow> actor \<Rightarrow> outside \<Rightarrow> flow_subscription \<Rightarrow> string \<Rightarrow> string option \<Rightarrow> drive \<Rightarrow> dispatched \<times> drive" where
  "report_idle c a ou s trigger reason d =
     (let m = dv_memory d (fs_id s);
          silent = (if reason \<noteq> None then sm_last_idle_reason m = reason
                    else if sm_last_idle_reason m \<noteq> None then False
                    else (case sm_last_idle_report_at m of None \<Rightarrow> False | Some t \<Rightarrow> ou_now ou - t < rc_idle_report_seconds c))
      in if silent then (Done None False, d)
         else
           (let d1 = change_memory (fs_id s) (\<lambda>m. m\<lparr>sm_last_idle_report_at := Some (ou_now ou), sm_last_idle_reason := reason\<rparr>) d
            in case send (ou_open ou) (open_flow_run (dv_server d1) a (fs_entity_type s) (Some (fs_id s)) trigger (ou_now ou)
                  (Some 0)) of
                 Answer (run, sv) \<Rightarrow>
                   (case send (ou_close ou) (close_flow_run sv a (fr_id run) ''skipped'' (ou_now ou) (Some 0) None) of
                      Answer (run', sv') \<Rightarrow> (Done (Some run') False, d1\<lparr>dv_server := sv'\<rparr>)
                    | _ \<Rightarrow> (Escaped, d1\<lparr>dv_server := sv\<rparr>))
               | _ \<Rightarrow> (Escaped, d1)))"

text \<open>The marks count approval facts and todos; unavailable marks are no evidence either way.\<close>

definition progress_marks :: "(nat \<times> nat) reply \<Rightarrow> (nat \<times> nat) option" where
  "progress_marks r = (case r of Answer m \<Rightarrow> Some m | _ \<Rightarrow> None)"

definition marks_moved :: "(nat \<times> nat) option \<Rightarrow> (nat \<times> nat) option \<Rightarrow> bool" where
  "marks_moved before after =
     (case (before, after) of (Some (f, t), Some (f', t')) \<Rightarrow> f < f' \<or> t < t' | _ \<Rightarrow> False)"

text \<open>From the agent's answer to the closed row.\<close>

definition settle_turn ::
    "runner_config \<Rightarrow> actor \<Rightarrow> outside \<Rightarrow> flow_subscription \<Rightarrow> flow_run \<Rightarrow> nat \<Rightarrow> run_result \<Rightarrow> drive \<Rightarrow> dispatched \<times> drive" where
  "settle_turn c a ou s run queue_size res d =
     (case queue_location s of (path, query) \<Rightarrow>
      case ou_queue_after ou path query of
        Broken \<Rightarrow> (Escaped, d)
      | recount \<Rightarrow>
          if ou_marks_after ou (fs_entity_type s) = Broken then (Escaped, d)
          else
          (let remaining = (case recount of Answer n \<Rightarrow> Some n | _ \<Rightarrow> None);
               advanced = (case remaining of Some n \<Rightarrow> Some (queue_size - n) | None \<Rightarrow> rs_items_advanced res);
               evidence = marks_moved (progress_marks (ou_marks ou (fs_entity_type s)))
                            (progress_marks (ou_marks_after ou (fs_entity_type s)));
               left = (remaining \<noteq> None \<and> 0 < (case advanced of None \<Rightarrow> 0 | Some n \<Rightarrow> n))
           in case note_progress c a ou s advanced (rs_ok res) (evidence \<or> left) d of
                None \<Rightarrow> (Escaped, d)
              | Some d' \<Rightarrow>
                  (case send (ou_close ou) (close_flow_run (dv_server d') a (fr_id run)
                          (if rs_ok res then ''succeeded'' else ''failed'') (ou_finished ou) advanced (rs_error res)) of
                     Answer (run', sv) \<Rightarrow> (Done (Some run') True, d'\<lparr>dv_server := sv\<rparr>)
                   | _ \<Rightarrow> (Escaped, d'))))"

definition take_turn ::
    "runner_config \<Rightarrow> actor \<Rightarrow> outside \<Rightarrow> flow_subscription \<Rightarrow> string \<Rightarrow> nat \<Rightarrow> drive \<Rightarrow> dispatched \<times> drive" where
  "take_turn c a ou s trigger queue_size d =
     (case send (ou_open ou) (open_flow_run (dv_server d) a (fs_entity_type s) (Some (fs_id s)) trigger (ou_now ou)
             (Some queue_size)) of
        Answer (run, sv) \<Rightarrow>
          (let d1 = d\<lparr>dv_server := sv\<rparr> in
           if ou_marks ou (fs_entity_type s) = Broken then (Escaped, d1)
           else case ou_agent ou \<lparr>rq_entity_type = fs_entity_type s, rq_driver_skill = fs_driver_skill s,
                  rq_queue_size = queue_size, rq_run_id = fr_id run, rq_trigger = trigger,
                  rq_max_records = rc_max_records_per_run c, rq_queue_filter = fs_queue_filter s\<rparr> of
             Answer res \<Rightarrow> settle_turn c a ou s run queue_size res d1
           | _ \<Rightarrow> (Escaped, d1))
      | _ \<Rightarrow> (Escaped, d))"

definition dispatch ::
    "runner_config \<Rightarrow> actor \<Rightarrow> outside \<Rightarrow> flow_subscription \<Rightarrow> string \<Rightarrow> drive \<Rightarrow> dispatched \<times> drive" where
  "dispatch c a ou s trigger d =
     (case ou_workflow ou (fs_entity_type s) (entity_kind_of (fs_entity_type s)) of
        Broken \<Rightarrow> (Escaped, d)
      | Refused e \<Rightarrow> failed_check c a ou s trigger e d
      | Answer ready \<Rightarrow>
          if \<not> ready then report_idle c a ou s trigger (Some ''approval_flow_missing'') d
          else (case queue_location s of (path, query) \<Rightarrow>
            case ou_queue ou path query of
              Broken \<Rightarrow> (Escaped, d)
            | Refused e \<Rightarrow> failed_check c a ou s trigger e d
            | Answer n \<Rightarrow> if n = 0 then report_idle c a ou s trigger None d
                          else take_turn c a ou s trigger n d))"

subsection \<open>One pass\<close>

text \<open>The loop over the subscriptions as they were read when the pass began. An agent turn ends it; an exception
  (\<open>None\<close>) leaves it, and the runner's main loop goes on to the next tenant.\<close>

fun poll_subscriptions ::
    "runner_config \<Rightarrow> actor \<Rightarrow> (uuid \<Rightarrow> outside) \<Rightarrow> string \<Rightarrow> timestamp \<Rightarrow> flow_subscription list \<Rightarrow> drive \<Rightarrow>
     flow_run list option \<times> drive" where
  "poll_subscriptions c a world trigger now [] d = (Some [], d)"
| "poll_subscriptions c a world trigger now (s # ss) d =
     (if \<not> due (dv_memory d) s now then poll_subscriptions c a world trigger now ss d
      else
        (case dispatch c a (world (fs_id s)) s trigger
                (change_memory (fs_id s) (\<lambda>m. m\<lparr>sm_last_polled_at := Some now\<rparr>) d) of
           (Escaped, d2) \<Rightarrow> (None, d2)
         | (Done run spent, d2) \<Rightarrow>
             (let recorded = (case run of None \<Rightarrow> [] | Some r \<Rightarrow> [r]) in
              if spent then (Some recorded, d2)
              else (let (more, d3) = poll_subscriptions c a world trigger now ss d2
                    in (map_option ((@) recorded) more, d3)))))"

text \<open>A pass: when it begins, what becomes of its first read, and what it will find.\<close>

record pass =
  pw_now :: timestamp
  pw_listing :: "unit reply"
  pw_world :: "uuid \<Rightarrow> outside"

definition poll_once :: "runner_config \<Rightarrow> actor \<Rightarrow> string \<Rightarrow> pass \<Rightarrow> drive \<Rightarrow> flow_run list option \<times> drive" where
  "poll_once c a trigger p d =
     (case send (pw_listing p) (list_flow_subscriptions (dv_server d) a (Some True)) of
        Answer ss \<Rightarrow> poll_subscriptions c a (pw_world p) trigger (pw_now p) ss d
      | Refused _ \<Rightarrow> (Some [], d)
      | Broken \<Rightarrow> (None, d))"

text \<open>Pass after pass for one tenant.\<close>

fun run_passes :: "runner_config \<Rightarrow> actor \<Rightarrow> string \<Rightarrow> pass list \<Rightarrow> drive \<Rightarrow> drive" where
  "run_passes c a trigger [] d = d"
| "run_passes c a trigger (p # ps) d = run_passes c a trigger ps (snd (poll_once c a trigger p d))"

end
