(* ===== verification/Flow_Fleet.thy ===== *)
theory Flow_Fleet
  imports Flow_Runner
begin

text \<open>
  Whom the runner serves: \<open>flow_runner/bootstrap.py\<close> and \<open>reconcile\<close> of \<open>flow_runner/__main__.py\<close>. Before each round of
  passes the runner reads the operator's credentials, asks the control plane for the enrolled tenants, lets itself
  into those it has no key for, and keeps, replaces or drops its dispatchers accordingly.

  A dispatcher is the key it works with and its memory. The files are what reading them gives; keys are drawn from
  the supply \<open>plain\<close>, and \<open>digest\<close> is the hash the server stores.
\<close>

type_synonym keys = "(uuid \<times> string) list"

record fleet_config =
  fg_tenants :: keys
  fg_credentials_file :: bool
  fg_bootstrap_token :: bool
  fg_state_file :: bool

text \<open>\<open>fl_disk\<close> is the state file, \<open>None\<close> where it cannot be read.\<close>

record fleet =
  fl_drivers :: "(uuid \<times> string \<times> (uuid \<Rightarrow> sub_memory)) list"
  fl_disk :: "keys option"
  fl_server :: flow_server
  fl_draws :: nat

text \<open>What a round of reconciling meets: the credentials file, the calls to the control plane, the disk.\<close>

record surroundings =
  sr_credentials :: "keys reply"
  sr_tenants :: "unit reply"
  sr_credential :: "uuid \<Rightarrow> unit reply"
  sr_disk_writable :: bool

text \<open>A dict of pairs keeps the first place and the last value of a key.\<close>

fun put_key :: "keys \<Rightarrow> uuid \<times> string \<Rightarrow> keys" where
  "put_key [] (t, k) = [(t, k)]"
| "put_key ((t', k') # d) (t, k) = (if t' = t then (t, k) # d else (t', k') # put_key d (t, k))"

definition by_tenant_of :: "keys \<Rightarrow> keys" where
  "by_tenant_of ts = foldl put_key [] ts"

definition remembered :: "fleet_config \<Rightarrow> keys option \<Rightarrow> keys" where
  "remembered fg disk =
     (if \<not> fg_state_file fg then []
      else (case disk of None \<Rightarrow> [] | Some d \<Rightarrow> filter (\<lambda>(t, k). k \<noteq> []) d))"

definition remember :: "fleet_config \<Rightarrow> surroundings \<Rightarrow> keys \<Rightarrow> keys option \<Rightarrow> keys option" where
  "remember fg sr acquired disk = (if fg_state_file fg \<and> sr_disk_writable sr then Some acquired else disk)"

text \<open>One listed tenant. A refused credential skips the tenant; an exception of the transport leaves the loop.\<close>

definition let_in ::
    "(string \<Rightarrow> string) \<Rightarrow> (nat \<Rightarrow> string) \<Rightarrow> surroundings \<Rightarrow> keys \<Rightarrow> keys \<times> keys \<times> flow_server \<times> nat \<Rightarrow> uuid \<Rightarrow>
     (keys \<times> keys \<times> flow_server \<times> nat) result" where
  "let_in digest plain sr known = (\<lambda>(by_tenant, acquired, sv, n) t.
     if t \<in> fst ` set by_tenant then Inr (by_tenant, acquired, sv, n)
     else (case map_of known t of
        Some k \<Rightarrow> Inr (by_tenant @ [(t, k)], acquired @ [(t, k)], sv, n)
      | None \<Rightarrow>
          (case send (sr_credential sr t) (issue_flow_runner_credential digest (plain n) sv t) of
             Answer sv' \<Rightarrow> Inr (by_tenant @ [(t, plain n)], acquired @ [(t, plain n)], sv', Suc n)
           | Refused _ \<Rightarrow> Inr (by_tenant, acquired, sv, n)
           | Broken \<Rightarrow> Inl (HttpError 0 ''URLError''))))"

definition resolve_tenants ::
    "(string \<Rightarrow> string) \<Rightarrow> (nat \<Rightarrow> string) \<Rightarrow> fleet_config \<Rightarrow> surroundings \<Rightarrow> keys \<Rightarrow> fleet \<Rightarrow> (keys \<times> fleet) result" where
  "resolve_tenants digest plain fg sr configured st =
     (case sr_tenants sr of
        Answer _ \<Rightarrow>
          bindE (foldE (let_in digest plain sr (remembered fg (fl_disk st)))
                   (by_tenant_of configured, [], fl_server st, fl_draws st) (flow_runner_tenants (sv_identity (fl_server st))))
            (\<lambda>(by_tenant, acquired, sv, n).
               Inr (by_tenant, st\<lparr>fl_server := sv, fl_draws := n, fl_disk := remember fg sr acquired (fl_disk st)\<rparr>))
      | _ \<Rightarrow> Inr (configured, st))"

definition driver_for ::
    "(uuid \<times> string \<times> (uuid \<Rightarrow> sub_memory)) list \<Rightarrow> uuid \<times> string \<Rightarrow> uuid \<times> string \<times> (uuid \<Rightarrow> sub_memory)" where
  "driver_for current = (\<lambda>(t, k).
     case map_of current t of
       Some (k', m) \<Rightarrow> if k' = k then (t, k, m) else (t, k, \<lambda>_. blank_memory)
     | None \<Rightarrow> (t, k, \<lambda>_. blank_memory))"

text \<open>\<open>Inl\<close> is an exception that leaves \<open>main\<close>: nothing around the call catches it.\<close>

definition reconcile ::
    "(string \<Rightarrow> string) \<Rightarrow> (nat \<Rightarrow> string) \<Rightarrow> fleet_config \<Rightarrow> surroundings \<Rightarrow> fleet \<Rightarrow> fleet result" where
  "reconcile digest plain fg sr st =
     (case (if fg_credentials_file fg then sr_credentials sr else Answer (fg_tenants fg)) of
        Refused _ \<Rightarrow> Inr st
      | Broken \<Rightarrow> Inl (HttpError 0 ''TypeError'')
      | Answer tenants \<Rightarrow>
          bindE (if fg_bootstrap_token fg then resolve_tenants digest plain fg sr tenants st else Inr (tenants, st)) (\<lambda>(wanted, st1).
          Inr (st1\<lparr>fl_drivers := map (driver_for (fl_drivers st)) (by_tenant_of wanted)\<rparr>)))"

subsection \<open>Dicts of keys\<close>

lemma put_key_new: "t \<notin> fst ` set d \<Longrightarrow> put_key d (t, k) = d @ [(t, k)]"
  by (induction d) auto

lemma put_key_fst: "fst ` set (put_key d x) = insert (fst x) (fst ` set d)"
  by (induction d x rule: put_key.induct) auto

lemma put_key_distinct: "distinct (map fst d) \<Longrightarrow> distinct (map fst (put_key d x))"
proof (induction d x rule: put_key.induct)
  case (2 t' k' d t k)
  then show ?case using put_key_fst [of d "(t, k)"] by auto
qed simp

lemma by_tenant_distinct: "distinct (map fst (by_tenant_of ts))"
proof -
  have "distinct (map fst d) \<Longrightarrow> distinct (map fst (foldl put_key d ts))" for d
    by (induction ts arbitrary: d) (simp_all add: put_key_distinct)
  then show ?thesis by (simp add: by_tenant_of_def)
qed

lemma by_tenant_fst: "fst ` set (by_tenant_of ts) = fst ` set ts"
proof -
  have "fst ` set (foldl put_key d ts) = fst ` set d \<union> fst ` set ts" for d
    by (induction ts arbitrary: d) (auto simp: put_key_fst)
  then show ?thesis by (simp add: by_tenant_of_def)
qed

lemma by_tenant_id: "distinct (map fst ts) \<Longrightarrow> by_tenant_of ts = ts"
proof -
  have "distinct (map fst (d @ ts)) \<Longrightarrow> foldl put_key d ts = d @ ts" for d
  proof (induction ts arbitrary: d)
    case (Cons x ts)
    then show ?case by (cases x) (simp add: put_key_new)
  qed simp
  from this [of "[]"] show "distinct (map fst ts) \<Longrightarrow> ?thesis" by (simp add: by_tenant_of_def)
qed

subsection \<open>Letting itself in\<close>

definition tenants_distinct :: "flow_server \<Rightarrow> bool" where
  "tenants_distinct sv \<longleftrightarrow> distinct (map tn_id (id_tenants (sv_identity sv)))"

abbreviation enrolled_tenants :: "flow_server \<Rightarrow> uuid list" where
  "enrolled_tenants sv \<equiv> flow_runner_tenants (sv_identity sv)"

lemma find_row_distinct: "distinct (map f rs) \<Longrightarrow> r \<in> set rs \<Longrightarrow> find_row (\<lambda>x. f x = f r) rs = Some r"
  by (induction rs) (auto simp: image_iff)

lemma enabled_kept:
  "list_ex (\<lambda>s. fs_tenant_id s = i \<and> fs_enabled s) (update_rows (\<lambda>s. fs_tenant_id s = t) (\<lambda>s. s\<lparr>fs_api_key_id := k\<rparr>) ss) =
   list_ex (\<lambda>s. fs_tenant_id s = i \<and> fs_enabled s) ss"
  by (induction ss) (simp_all add: update_rows_def)

lemma issuing_succeeds:
  assumes "tenants_distinct sv" and "t \<in> set (enrolled_tenants sv)"
  shows "\<exists>sv'. issue_flow_runner_credential digest plain sv t = Inr sv' \<and> enrolled_tenants sv' = enrolled_tenants sv \<and> tenants_distinct sv'"
proof -
  from assms(2) obtain tn where tn: "tn \<in> set (id_tenants (sv_identity sv))" "tn_id tn = t" "tn_status tn = ''active''"
    "tn_flow_runner_enabled tn" and some: "list_ex (\<lambda>s. fs_tenant_id s = t \<and> fs_enabled s) (sv_subscriptions sv)"
    by (auto simp: flow_runner_tenants_def)
  have "find_tenant (sv_identity sv) t = Some tn"
    using find_row_distinct [OF assms(1) [unfolded tenants_distinct_def] tn(1)] tn(2) by (simp add: find_tenant_def)
  then obtain sv' where "issue_flow_runner_credential digest plain sv t = Inr sv'"
    "id_tenants (sv_identity sv') = id_tenants (sv_identity sv)"
    "sv_subscriptions sv' = update_rows (\<lambda>s. fs_tenant_id s = t) (\<lambda>s. s\<lparr>fs_api_key_id := Some (sv_uuids sv (sv_next sv))\<rparr>) (sv_subscriptions sv)"
    using tn(3,4) some by (simp add: issue_flow_runner_credential_def draw_id_def flow_audit_def)
  then have "enrolled_tenants sv' = enrolled_tenants sv" "tenants_distinct sv'"
    using assms(1) by (simp_all add: flow_runner_tenants_def tenants_distinct_def enabled_kept)
  with \<open>issue_flow_runner_credential digest plain sv t = Inr sv'\<close> show ?thesis by blast
qed

text \<open>One step: nothing for a tenant already served, otherwise one pair more, remembered or drawn.\<close>

lemma let_in_step:
  assumes "let_in digest plain sr known (by, acq, sv, n) t = Inr (by', acq', sv', n')" and "sr_credential sr t = Answer ()"
    and "t \<in> set (enrolled_tenants sv)" and "tenants_distinct sv"
  shows "enrolled_tenants sv' = enrolled_tenants sv \<and> tenants_distinct sv' \<and> n \<le> n' \<and>
    (\<exists>new. by' = by @ new \<and> acq' = acq @ new \<and> (\<forall>x \<in> set new. fst x = t \<and> t \<notin> fst ` set by \<and>
       (case map_of known t of Some k \<Rightarrow> snd x = k | None \<Rightarrow> n' = Suc n \<and> snd x = plain n)) \<and> t \<in> fst ` set by')"
proof (cases "t \<in> fst ` set by \<or> map_of known t \<noteq> None")
  case True
  with assms show ?thesis by (auto simp: let_in_def split: if_splits option.splits)
next
  case False
  from issuing_succeeds [OF assms(4,3)] obtain sv'' where "issue_flow_runner_credential digest (plain n) sv t = Inr sv''"
    "enrolled_tenants sv'' = enrolled_tenants sv" "tenants_distinct sv''" by blast
  with False assms(1,2) show ?thesis by (auto simp: let_in_def send_def)
qed

lemma let_in_fold:
  assumes "foldE (let_in digest plain sr known) (by, acq, sv, n) ts = Inr (by', acq', sv', n')"
    and "\<And>t. sr_credential sr t = Answer ()" and "set ts \<subseteq> set (enrolled_tenants sv)" and "tenants_distinct sv"
  shows "enrolled_tenants sv' = enrolled_tenants sv \<and> n \<le> n' \<and> set ts \<subseteq> fst ` set by' \<and>
    (\<exists>new. by' = by @ new \<and> acq' = acq @ new \<and> distinct (map fst new) \<and> fst ` set new \<inter> fst ` set by = {} \<and>
       (\<forall>(t, k) \<in> set new. case map_of known t of Some k' \<Rightarrow> k = k' | None \<Rightarrow> n < n' \<and> (\<exists>m \<ge> n. k = plain m)))"
  using assms
proof (induction ts arbitrary: "by" acq sv n)
  case (Cons t ts)
  from Cons.prems(1) obtain by1 acq1 sv1 n1 where 1: "let_in digest plain sr known (by, acq, sv, n) t = Inr (by1, acq1, sv1, n1)"
    and rest: "foldE (let_in digest plain sr known) (by1, acq1, sv1, n1) ts = Inr (by', acq', sv', n')"
    by (auto simp: bindE_Inr_iff)
  have t: "t \<in> set (enrolled_tenants sv)" using Cons.prems(3) by simp
  from let_in_step [OF 1 Cons.prems(2) t Cons.prems(4)] obtain new1 where step: "by1 = by @ new1" "acq1 = acq @ new1"
    "enrolled_tenants sv1 = enrolled_tenants sv" "tenants_distinct sv1" "n \<le> n1" "t \<in> fst ` set by1"
    and new1: "\<forall>x \<in> set new1. fst x = t \<and> t \<notin> fst ` set by \<and>
       (case map_of known t of Some k \<Rightarrow> snd x = k | None \<Rightarrow> n1 = Suc n \<and> snd x = plain n)" by blast
  have "set ts \<subseteq> set (enrolled_tenants sv1)" using Cons.prems(3) step(3) by simp
  from Cons.IH [OF rest Cons.prems(2) this step(4)] obtain new2 where
    IH: "enrolled_tenants sv' = enrolled_tenants sv1" "n1 \<le> n'" "set ts \<subseteq> fst ` set by'" "by' = by1 @ new2" "acq' = acq1 @ new2"
      "distinct (map fst new2)" "fst ` set new2 \<inter> fst ` set by1 = {}"
      "\<forall>(t, k) \<in> set new2. case map_of known t of Some k' \<Rightarrow> k = k' | None \<Rightarrow> n1 < n' \<and> (\<exists>m \<ge> n1. k = plain m)" by blast
  have one: "length new1 \<le> 1"
    using let_in_def 1 step(1) by (auto simp: let_in_def split: if_splits option.splits reply.splits)
  have "fst x \<notin> fst ` set by" if "x \<in> set new1" for x using bspec [OF new1 that] by simp
  then have apart: "fst ` set new1 \<inter> fst ` set by = {}" by blast
  show ?case
  proof (intro conjI exI [of _ "new1 @ new2"])
    show "fst ` set (new1 @ new2) \<inter> fst ` set by = {}" using IH(7) apart step(1) by auto
    show "distinct (map fst (new1 @ new2))"
      using IH(6,7) step(1) one by (cases new1) (auto simp: image_iff)
    show "\<forall>(t, k) \<in> set (new1 @ new2). case map_of known t of Some k' \<Rightarrow> k = k' | None \<Rightarrow> n < n' \<and> (\<exists>m \<ge> n. k = plain m)"
    proof (clarsimp, elim disjE)
      fix s k assume "(s, k) \<in> set new1"
      then have "s = t" "case map_of known t of Some k' \<Rightarrow> k = k' | None \<Rightarrow> n1 = Suc n \<and> k = plain n"
        using bspec [OF new1] by (auto split: option.splits)
      then show "case map_of known s of None \<Rightarrow> n < n' \<and> (\<exists>m \<ge> n. k = plain m) | Some k' \<Rightarrow> k = k'"
        using IH(2) by (auto split: option.splits)
    next
      fix s k assume "(s, k) \<in> set new2"
      from bspec [OF IH(8) this] show "case map_of known s of None \<Rightarrow> n < n' \<and> (\<exists>m \<ge> n. k = plain m) | Some k' \<Rightarrow> k = k'"
        using step(5) by (cases "map_of known s") (auto intro: order_trans)
    qed
  qed (use IH step new1 in auto)
qed auto

subsection \<open>Round after round\<close>

text \<open>Every call gets through and the files can be read and written.\<close>

definition all_well :: "surroundings \<Rightarrow> bool" where
  "all_well sr \<longleftrightarrow> (\<exists>ts. sr_credentials sr = Answer ts) \<and> sr_tenants sr = Answer () \<and> (\<forall>t. sr_credential sr t = Answer ()) \<and>
     sr_disk_writable sr"

definition credentials_given :: "fleet_config \<Rightarrow> surroundings \<Rightarrow> keys" where
  "credentials_given fg sr =
     (if fg_credentials_file fg then (case sr_credentials sr of Answer ts \<Rightarrow> ts | _ \<Rightarrow> []) else fg_tenants fg)"

lemma reconcile_well:
  assumes "reconcile digest plain fg sr st = Inr st1" and "all_well sr" and "fg_bootstrap_token fg" and "tenants_distinct (fl_server st)"
  obtains new sv n where
    "foldE (let_in digest plain sr (remembered fg (fl_disk st))) (by_tenant_of (credentials_given fg sr), [], fl_server st, fl_draws st)
       (enrolled_tenants (fl_server st)) = Inr (by_tenant_of (credentials_given fg sr) @ new, new, sv, n)"
    "st1 = \<lparr>fl_drivers = map (driver_for (fl_drivers st)) (by_tenant_of (credentials_given fg sr) @ new),
       fl_disk = remember fg sr new (fl_disk st), fl_server = sv, fl_draws = n\<rparr>"
    "enrolled_tenants sv = enrolled_tenants (fl_server st)" "fl_draws st \<le> n"
    "set (enrolled_tenants (fl_server st)) \<subseteq> fst ` set (by_tenant_of (credentials_given fg sr) @ new)"
    "distinct (map fst (by_tenant_of (credentials_given fg sr) @ new))"
    "\<forall>(t, k) \<in> set new. case map_of (remembered fg (fl_disk st)) t of Some k' \<Rightarrow> k = k'
       | None \<Rightarrow> fl_draws st < n \<and> (\<exists>m \<ge> fl_draws st. k = plain m)"
proof -
  let ?by = "by_tenant_of (credentials_given fg sr)"
  from assms(1-3) obtain by' acq' sv n where fold: "foldE (let_in digest plain sr (remembered fg (fl_disk st)))
      (?by, [], fl_server st, fl_draws st) (enrolled_tenants (fl_server st)) = Inr (by', acq', sv, n)"
    and st1: "st1 = st\<lparr>fl_server := sv, fl_draws := n, fl_disk := remember fg sr acq' (fl_disk st),
       fl_drivers := map (driver_for (fl_drivers st)) (by_tenant_of by')\<rparr>"
    by (auto simp: reconcile_def resolve_tenants_def all_well_def credentials_given_def bindE_Inr_iff split: if_splits)
  have answers: "\<And>t. sr_credential sr t = Answer ()" using assms(2) by (simp add: all_well_def)
  from let_in_fold [OF fold answers subset_refl assms(4)] obtain new where new: "by' = ?by @ new" "acq' = new"
    "distinct (map fst new)" "fst ` set new \<inter> fst ` set ?by = {}" "enrolled_tenants sv = enrolled_tenants (fl_server st)" "fl_draws st \<le> n"
    "set (enrolled_tenants (fl_server st)) \<subseteq> fst ` set by'"
    "\<forall>(t, k) \<in> set new. case map_of (remembered fg (fl_disk st)) t of Some k' \<Rightarrow> k = k'
       | None \<Rightarrow> fl_draws st < n \<and> (\<exists>m \<ge> fl_draws st. k = plain m)" by auto
  have d: "distinct (map fst by')" using new(1,3,4) by_tenant_distinct [of "credentials_given fg sr"] by auto
  have "st1 = \<lparr>fl_drivers = map (driver_for (fl_drivers st)) (?by @ new),
       fl_disk = remember fg sr new (fl_disk st), fl_server = sv, fl_draws = n\<rparr>"
    unfolding st1 new(1,2) by_tenant_id [OF d [unfolded new(1)]] by simp
  with that fold new d show ?thesis by blast
qed

lemma let_in_again:
  assumes "foldE (let_in digest plain sr known) (by, acq, sv, n) ts = Inr (by @ new, acq @ new, sv', n')"
    and "\<And>t. sr_credential sr t = Answer ()" and "set ts \<subseteq> set (enrolled_tenants sv)" and "tenants_distinct sv"
    and "\<And>t k. (t, k) \<in> set new \<Longrightarrow> map_of known2 t = Some k"
  shows "foldE (let_in digest plain sr known2) (by, acq2, sv2, n2) ts = Inr (by @ new, acq2 @ new, sv2, n2)"
  using assms
proof (induction ts arbitrary: "by" acq sv n new acq2)
  case (Cons t ts)
  from Cons.prems(1) obtain by1 acq1 sv1 n1 where 1: "let_in digest plain sr known (by, acq, sv, n) t = Inr (by1, acq1, sv1, n1)"
    and rest: "foldE (let_in digest plain sr known) (by1, acq1, sv1, n1) ts = Inr (by @ new, acq @ new, sv', n')"
    by (auto simp: bindE_Inr_iff)
  have t: "t \<in> set (enrolled_tenants sv)" using Cons.prems(3) by simp
  from let_in_step [OF 1 Cons.prems(2) t Cons.prems(4)] have s: "enrolled_tenants sv1 = enrolled_tenants sv" "tenants_distinct sv1"
    by blast+
  then have ts: "set ts \<subseteq> set (enrolled_tenants sv1)" using Cons.prems(3) by simp
  from let_in_fold [OF rest Cons.prems(2) ts s(2)] obtain new2 where new2: "by @ new = by1 @ new2" "acq @ new = acq1 @ new2" by blast
  show ?case
  proof (cases "t \<in> fst ` set by")
    case True
    then have "by1 = by" "acq1 = acq" using 1 by (auto simp: let_in_def)
    with Cons.IH [OF rest [unfolded this] Cons.prems(2) ts s(2) Cons.prems(5), of acq2] True show ?thesis
      by (simp add: let_in_def)
  next
    case False
    then obtain k where k: "by1 = by @ [(t, k)]" "acq1 = acq @ [(t, k)]"
      using let_in_step [OF 1 Cons.prems(2) t Cons.prems(4)] 1
      by (auto simp: let_in_def split: option.splits reply.splits)
    then have new: "new = (t, k) # new2" using new2 by simp
    have "foldE (let_in digest plain sr known2) (by1, acq2 @ [(t, k)], sv2, n2) ts = Inr (by1 @ new2, (acq2 @ [(t, k)]) @ new2, sv2, n2)"
      by (rule Cons.IH [of by1 acq1 sv1 n1 new2 "acq2 @ [(t, k)]"]) (use rest new2 Cons.prems(2,5) ts s(2) new k in auto)
    then show ?thesis using False Cons.prems(5) [of t k] k new by (simp add: let_in_def)
  qed
qed auto

text \<open>The state file keeps the fleet. With a state file, one round after another changes nothing: every dispatcher is kept
  with its key and its memory, and no key is minted again.\<close>

theorem the_state_file_keeps_the_fleet:
  assumes "reconcile digest plain fg sr st = Inr st1" and "all_well sr" and "fg_bootstrap_token fg" and "fg_state_file fg"
    and "tenants_distinct (fl_server st)" and "\<And>n. plain n \<noteq> []"
  shows "reconcile digest plain fg sr st1 = Inr st1"
proof -
  let ?by = "by_tenant_of (credentials_given fg sr)"
  from reconcile_well [OF assms(1-3,5)] obtain new sv n where
    fold: "foldE (let_in digest plain sr (remembered fg (fl_disk st))) (?by, [], fl_server st, fl_draws st)
       (enrolled_tenants (fl_server st)) = Inr (?by @ new, new, sv, n)"
    and st1: "st1 = \<lparr>fl_drivers = map (driver_for (fl_drivers st)) (?by @ new),
       fl_disk = remember fg sr new (fl_disk st), fl_server = sv, fl_draws = n\<rparr>"
    and same: "enrolled_tenants sv = enrolled_tenants (fl_server st)" and d: "distinct (map fst (?by @ new))"
    and keys: "\<forall>(t, k) \<in> set new. case map_of (remembered fg (fl_disk st)) t of Some k' \<Rightarrow> k = k'
       | None \<Rightarrow> fl_draws st < n \<and> (\<exists>m \<ge> fl_draws st. k = plain m)" .
  have disk: "fl_disk st1 = Some new" using assms(2,4) by (simp add: st1 remember_def all_well_def)
  have "k \<noteq> []" if "(t, k) \<in> set new" for t k
  proof (cases "map_of (remembered fg (fl_disk st)) t")
    case None
    with bspec [OF keys that] assms(6) show ?thesis by auto
  next
    case (Some k')
    then have "k = k'" "(t, k') \<in> set (remembered fg (fl_disk st))" using bspec [OF keys that] by (auto dest: map_of_SomeD)
    then show ?thesis by (auto simp: remembered_def split: option.splits if_splits)
  qed
  then have known: "remembered fg (fl_disk st1) = new" using assms(4) by (auto simp: remembered_def disk intro!: filter_True)
  have found: "map_of new t = Some k" if "(t, k) \<in> set new" for t k using that d by simp
  have answers: "\<And>t. sr_credential sr t = Answer ()" using assms(2) by (simp add: all_well_def)
  have again: "foldE (let_in digest plain sr (remembered fg (fl_disk st1))) (?by, [], fl_server st1, fl_draws st1)
      (enrolled_tenants (fl_server st1)) = Inr (?by @ new, new, fl_server st1, fl_draws st1)"
    unfolding known
    using let_in_again [where acq = "[]" and new = new and ?known2.0 = new and ?acq2.0 = "[]", unfolded append_Nil,
      OF fold answers subset_refl assms(5) found] same
    by (simp add: st1)
  have "map (driver_for (fl_drivers st1)) (?by @ new) = fl_drivers st1"
  proof -
    have "driver_for (fl_drivers st1) x = driver_for (fl_drivers st) x" if "x \<in> set (?by @ new)" for x
    proof -
      obtain t k where x: "x = (t, k)" by (cases x)
      have "\<exists>m. driver_for (fl_drivers st) x = (t, k, m)"
        by (cases "map_of (fl_drivers st) t") (auto simp: driver_for_def x)
      then obtain m where m: "driver_for (fl_drivers st) x = (t, k, m)" by blast
      have "fst \<circ> driver_for (fl_drivers st) = fst" by (auto simp: driver_for_def fun_eq_iff split: option.splits)
      then have "distinct (map fst (fl_drivers st1))" using d by (simp add: st1)
      moreover have "(t, k, m) \<in> set (fl_drivers st1)" using that m by (force simp: st1 image_iff)
      ultimately have "map_of (fl_drivers st1) t = Some (k, m)" by simp
      then show ?thesis unfolding m by (simp add: driver_for_def x)
    qed
    then show ?thesis by (simp add: st1)
  qed
  moreover have "(if fg_credentials_file fg then sr_credentials sr else Answer (fg_tenants fg)) = Answer (credentials_given fg sr)"
    using assms(2) by (auto simp: all_well_def credentials_given_def)
  moreover have "remember fg sr new (fl_disk st1) = fl_disk st1" using disk assms(2,4) by (simp add: remember_def all_well_def)
  moreover have "sr_tenants sr = Answer ()" using assms(2) by (simp add: all_well_def)
  ultimately show ?thesis
    using again assms(3) by_tenant_id [OF d] by (simp add: reconcile_def resolve_tenants_def del: map_append)
qed

text \<open>Without a state file every round starts over. A tenant the operator gave no key for is let in again each round: a
  new key is minted, its dispatcher is replaced by one that remembers nothing, and so every subscription of it that
  is not parked is due on every pass, whatever its cadence.\<close>

theorem without_a_state_file_every_round_starts_over:
  assumes "reconcile digest plain fg sr st = Inr st1" and "all_well sr" and "fg_bootstrap_token fg" and "\<not> fg_state_file fg"
    and "tenants_distinct (fl_server st)" and "t \<in> set (enrolled_tenants (fl_server st))"
    and "t \<notin> fst ` set (credentials_given fg sr)"
    and "\<And>k m n. map_of (fl_drivers st) t = Some (k, m) \<Longrightarrow> fl_draws st \<le> n \<Longrightarrow> plain n \<noteq> k"
  shows "fl_draws st < fl_draws st1 \<and> (\<exists>k m. map_of (fl_drivers st1) t = Some (k, m) \<and>
     (\<forall>s now. due m s now \<longleftrightarrow> fs_parked_at s = None))"
proof -
  let ?by = "by_tenant_of (credentials_given fg sr)"
  from reconcile_well [OF assms(1-3,5)] obtain new sv n where
    st1: "st1 = \<lparr>fl_drivers = map (driver_for (fl_drivers st)) (?by @ new),
       fl_disk = remember fg sr new (fl_disk st), fl_server = sv, fl_draws = n\<rparr>"
    and served: "set (enrolled_tenants (fl_server st)) \<subseteq> fst ` set (?by @ new)" and d: "distinct (map fst (?by @ new))"
    and keys: "\<forall>(t, k) \<in> set new. case map_of (remembered fg (fl_disk st)) t of Some k' \<Rightarrow> k = k'
       | None \<Rightarrow> fl_draws st < n \<and> (\<exists>m \<ge> fl_draws st. k = plain m)" .
  have "t \<notin> fst ` set ?by" using assms(7) by (simp add: by_tenant_fst)
  with served assms(6) obtain k where k: "(t, k) \<in> set new" by auto
  have none: "remembered fg (fl_disk st) = []" using assms(4) by (simp add: remembered_def)
  from keys k obtain m where m: "fl_draws st < n" "fl_draws st \<le> m" "k = plain m" by (auto simp: none)
  have "driver_for (fl_drivers st) (t, k) = (t, k, \<lambda>_. blank_memory)"
    using assms(8) m by (auto simp: driver_for_def split: option.splits)
  then have "(t, k, \<lambda>_. blank_memory) \<in> set (fl_drivers st1)" using k by (force simp: st1 image_iff)
  moreover have "fst \<circ> driver_for (fl_drivers st) = fst" by (auto simp: driver_for_def fun_eq_iff split: option.splits)
  then have "distinct (map fst (fl_drivers st1))" using d by (simp add: st1)
  ultimately have "map_of (fl_drivers st1) t = Some (k, \<lambda>_. blank_memory)" by simp
  moreover have "due (\<lambda>_. blank_memory) s now \<longleftrightarrow> fs_parked_at s = None" for s now
    by (simp add: due_def blank_memory_def)
  ultimately show ?thesis using m(1) by (auto simp: st1)
qed

end
