(* ===== verification/Flow_Enrolment.thy ===== *)
theory Flow_Enrolment
  imports Flow_Subscriptions Documents
begin

text \<open>
  Enrolment as the rest of the system sees it: provisioning is done once and leaves what exists alone, issuing the
  runner's credential leaves one driver with the whole boundary, and a machine nothing can be driven through opens
  that boundary to every document.
\<close>

subsection \<open>Provisioning\<close>

definition has_driver :: "tenant_skill list \<Rightarrow> uuid \<Rightarrow> string \<Rightarrow> bool" where
  "has_driver skills tenant_id e = (case derived_driver_skill skills tenant_id e of None \<Rightarrow> False | Some s \<Rightarrow> s \<noteq> [])"

text \<open>A row provisioning may write.\<close>

definition derived_row :: "flow_server \<Rightarrow> uuid \<Rightarrow> flow_subscription \<Rightarrow> bool" where
  "derived_row sv tenant_id s \<longleftrightarrow> fs_tenant_id s = tenant_id \<and> fs_enabled s \<and> fs_parked_at s = None \<and>
     derived_driver_skill (sv_skills sv) tenant_id (fs_entity_type s) = Some (fs_driver_skill s) \<and>
     derived_queue_filter (sv_definitions sv) tenant_id (fs_entity_type s) = Inr (fs_queue_filter s)"

lemma provision_one_step:
  assumes "provision_one t existing k (n, sv) e = Inr (n', sv')"
  shows "sv_skills sv' = sv_skills sv \<and> sv_definitions sv' = sv_definitions sv \<and>
    (if e \<notin> set existing \<and> has_driver (sv_skills sv) t e
     then n' = Suc n \<and> (\<exists>s. sv_subscriptions sv' = sv_subscriptions sv @ [s] \<and> fs_entity_type s = e \<and> derived_row sv t s)
     else (n', sv') = (n, sv))"
  using assms
  by (auto simp: provision_one_def has_driver_def derived_row_def bindE_Inr_iff draw_id_def set_subscriptions_def
      subscription_of_def Let_def split: if_splits option.splits)

lemma provision_fold:
  assumes "foldE (provision_one t existing k) (n, sv) es = Inr (n', sv')"
  shows "sv_skills sv' = sv_skills sv \<and> sv_definitions sv' = sv_definitions sv \<and>
    (\<exists>new. sv_subscriptions sv' = sv_subscriptions sv @ new \<and> n' = n + length new \<and>
       map fs_entity_type new = filter (\<lambda>e. e \<notin> set existing \<and> has_driver (sv_skills sv) t e) es \<and>
       (\<forall>s \<in> set new. derived_row sv t s))"
  using assms
proof (induction es arbitrary: n sv)
  case (Cons e es)
  then obtain n1 sv1 where 1: "provision_one t existing k (n, sv) e = Inr (n1, sv1)"
    and rest: "foldE (provision_one t existing k) (n1, sv1) es = Inr (n', sv')" by (auto simp: bindE_Inr_iff)
  note step = provision_one_step [OF 1]
  have row: "derived_row sv1 t = derived_row sv t" using step by (simp add: derived_row_def fun_eq_iff)
  from Cons.IH [OF rest] obtain new where new: "sv_subscriptions sv' = sv_subscriptions sv1 @ new" "n' = n1 + length new"
    "map fs_entity_type new = filter (\<lambda>e. e \<notin> set existing \<and> has_driver (sv_skills sv) t e) es"
    "\<forall>s \<in> set new. derived_row sv t s" "sv_skills sv' = sv_skills sv" "sv_definitions sv' = sv_definitions sv"
    using step row by auto
  show ?case
  proof (cases "e \<notin> set existing \<and> has_driver (sv_skills sv) t e")
    case True
    with step obtain s where "n1 = Suc n" "sv_subscriptions sv1 = sv_subscriptions sv @ [s]" "fs_entity_type s = e" "derived_row sv t s"
      by auto
    with new True show ?thesis by (intro conjI exI [of _ "s # new"]) auto
  next
    case False
    then have "n1 = n" "sv1 = sv" using step by (simp_all only: if_False prod.inject)
    with new False show ?thesis by auto
  qed
qed auto

lemma provision_again:
  assumes "\<And>e. e \<in> set es \<Longrightarrow> e \<in> set existing \<or> \<not> has_driver (sv_skills sv) t e"
  shows "foldE (provision_one t existing k) (n, sv) es = Inr (n, sv)"
  using assms
proof (induction es)
  case (Cons e es)
  have "provision_one t existing k (n, sv) e = Inr (n, sv)"
    using Cons.prems [of e] by (auto simp: provision_one_def has_driver_def split: option.splits)
  with Cons show ?case by simp
qed simp

text \<open>Provisioning is done once. It leaves every subscription as it is and adds one for each drivable family that has
  none and has a skill to drive it, with the driver and the filter derived for it; done again it adds nothing.\<close>

theorem provisioning_is_done_once:
  assumes "provision_flow_subscriptions sv t = Inr (n, sv')"
  shows "(\<exists>new. sv_subscriptions sv' = sv_subscriptions sv @ new \<and> length new = n \<and>
      map fs_entity_type new = filter (\<lambda>e. e \<notin> fs_entity_type ` {s \<in> set (sv_subscriptions sv). fs_tenant_id s = t} \<and>
        has_driver (sv_skills sv) t e) HOSTED_DRIVABLE_ENTITY_TYPES \<and>
      (\<forall>s \<in> set new. derived_row sv t s)) \<and>
    provision_flow_subscriptions sv' t = Inr (0, sv')"
proof -
  let ?existing = "map fs_entity_type (filter (\<lambda>s. fs_tenant_id s = t) (sv_subscriptions sv))"
  from assms have "foldE (provision_one t ?existing (active_hosted_key_id (sv_identity sv) t)) (0, sv) HOSTED_DRIVABLE_ENTITY_TYPES = Inr (n, sv')"
    by (simp add: provision_flow_subscriptions_def Let_def)
  from provision_fold [OF this] obtain new where new: "sv_subscriptions sv' = sv_subscriptions sv @ new" "n = length new"
    "map fs_entity_type new = filter (\<lambda>e. e \<notin> set ?existing \<and> has_driver (sv_skills sv) t e) HOSTED_DRIVABLE_ENTITY_TYPES"
    "\<forall>s \<in> set new. derived_row sv t s" "sv_skills sv' = sv_skills sv" by auto
  let ?existing' = "map fs_entity_type (filter (\<lambda>s. fs_tenant_id s = t) (sv_subscriptions sv'))"
  have "filter (\<lambda>s. fs_tenant_id s = t) new = new" using new(4) by (simp add: derived_row_def filter_id_conv)
  then have "set ?existing' = set ?existing \<union> set (map fs_entity_type new)" using new(1) by auto
  then have "e \<in> set ?existing' \<or> \<not> has_driver (sv_skills sv') t e" if "e \<in> set HOSTED_DRIVABLE_ENTITY_TYPES" for e
    using that new(3,5) by auto
  then have "provision_flow_subscriptions sv' t = Inr (0, sv')"
    unfolding provision_flow_subscriptions_def Let_def by (rule provision_again)
  moreover have "set ?existing = fs_entity_type ` {s \<in> set (sv_subscriptions sv). fs_tenant_id s = t}" by auto
  ultimately show ?thesis using new by auto
qed

subsection \<open>The runner's credential\<close>

lemma find_row_last:
  "(\<And>x. x \<in> set xs \<Longrightarrow> \<not> P x) \<Longrightarrow> P y \<Longrightarrow> find_row P (xs @ [y]) = Some y"
  by (induction xs) auto

lemma repointed:
  "map (\<lambda>s. (fs_entity_type s, fs_queue_filter s)) (filter (\<lambda>s. fs_tenant_id s = t \<and> fs_api_key_id s = Some i \<and> fs_enabled s)
      (update_rows (\<lambda>s. fs_tenant_id s = t) (\<lambda>s. s\<lparr>fs_api_key_id := Some i\<rparr>) ss)) =
   map (\<lambda>s. (fs_entity_type s, fs_queue_filter s)) (filter (\<lambda>s. fs_tenant_id s = t \<and> fs_enabled s) ss)"
  by (induction ss) (simp_all add: update_rows_def)

lemma inactive:
  assumes "k \<in> set (update_rows (\<lambda>k. ak_tenant_id k = t \<and> ak_principal_kind k = p \<and> ak_is_active k)
      (\<lambda>k. k\<lparr>ak_is_active := False\<rparr>) ks)" and "ak_tenant_id k = t" "ak_principal_kind k = p" "ak_is_active k"
  shows False
proof -
  let ?P = "\<lambda>k. ak_tenant_id k = t \<and> ak_principal_kind k = p \<and> ak_is_active k"
  obtain k0 where "k = (if ?P k0 then k0\<lparr>ak_is_active := False\<rparr> else k0)"
    using assms(1) unfolding update_rows_def set_map by blast
  with assms(2-4) show False by (cases "?P k0") (auto split: if_splits)
qed

text \<open>C21: One driver. The credential issued to the runner authenticates as the tenant's hosted agent, its boundary is
  exactly the enabled subscriptions, and no other hosted key of the tenant is left active.\<close>

theorem issuing_leaves_one_driver:
  assumes "issue_flow_runner_credential digest plain sv t = Inr sv'"
    and "digest plain \<notin> ak_key_hash ` set (id_keys (sv_identity sv))"
  shows "\<exists>a scope. resolve_api_key_actor digest now (sv_identity sv') plain = Inr a \<and> ac_tenant_id a = t \<and>
      ac_principal_kind a = PRINCIPAL_HOSTED_FLOW_AGENT \<and> ac_write_scope a = Some scope \<and>
      set scope = (\<lambda>s. (fs_entity_type s, fs_queue_filter s)) ` {s \<in> set (sv_subscriptions sv). fs_tenant_id s = t \<and> fs_enabled s} \<and>
    (\<forall>k \<in> set (id_keys (sv_identity sv')). ak_tenant_id k = t \<longrightarrow> ak_principal_kind k = PRINCIPAL_HOSTED_FLOW_AGENT \<longrightarrow>
       ak_is_active k \<longrightarrow> ak_key_hash k = digest plain)"
proof -
  let ?i = "sv_uuids sv (sv_next sv)" and ?k = "hosted_key (sv_uuids sv (sv_next sv)) t (digest plain)"
  let ?old = "update_rows (\<lambda>k. ak_tenant_id k = t \<and> ak_principal_kind k = PRINCIPAL_HOSTED_FLOW_AGENT \<and> ak_is_active k)
    (\<lambda>k. k\<lparr>ak_is_active := False\<rparr>) (id_keys (sv_identity sv))"
  let ?subs = "update_rows (\<lambda>s. fs_tenant_id s = t) (\<lambda>s. s\<lparr>fs_api_key_id := Some ?i\<rparr>) (sv_subscriptions sv)"
  from assms(1) obtain tn where tn: "find_tenant (sv_identity sv) t = Some tn" "tn_status tn = ''active''" "tn_flow_runner_enabled tn"
    and keys: "id_keys (sv_identity sv') = ?old @ [?k]" and subs: "id_subscriptions (sv_identity sv') = ?subs"
    and tenants: "id_tenants (sv_identity sv') = id_tenants (sv_identity sv)"
    by (cases "find_tenant (sv_identity sv) t")
      (auto simp: issue_flow_runner_credential_def bindE_Inr_iff ensure_Inr_iff draw_id_def flow_audit_def Let_def)
  have fresh: "ak_key_hash k \<noteq> digest plain" if "k \<in> set (id_keys (sv_identity sv))" for k
    using assms(2) that by (metis imageI)
  have old: "ak_key_hash k \<noteq> digest plain" if "k \<in> set ?old" for k
    using that by (auto simp: update_rows_def fresh split: if_splits)
  have find: "find_row (\<lambda>k. ak_key_hash k = digest plain \<and> ak_is_active k) (id_keys (sv_identity sv')) = Some ?k"
    unfolding keys by (rule find_row_last) (use old in \<open>auto simp: hosted_key_def\<close>)
  have tenant: "find_tenant (sv_identity sv') t = Some tn" using tn(1) tenants by (simp add: find_tenant_def)
  have "set (hosted_write_scope (sv_identity sv') ?k) =
     (\<lambda>s. (fs_entity_type s, fs_queue_filter s)) ` {s \<in> set (sv_subscriptions sv). fs_tenant_id s = t \<and> fs_enabled s}"
    using arg_cong [OF repointed [of t ?i "sv_subscriptions sv"], of set]
    by (simp add: hosted_write_scope_def subs hosted_key_def)
  moreover have "resolve_api_key_actor digest now (sv_identity sv') plain =
      Inr (service_actor (sv_identity sv') ?k PRINCIPAL_HOSTED_FLOW_AGENT)"
    using find tenant tn(2,3)
    by (simp add: resolve_api_key_actor_def is_expired_def ensure_tenant_active_def ensure_flow_runner_allowed_def)
      (simp add: Let_def hosted_key_def PRINCIPAL_HOSTED_FLOW_AGENT_def tenant ensure_tenant_active_def ensure_flow_runner_allowed_def)
  moreover have "ak_key_hash k = digest plain" if "k \<in> set (id_keys (sv_identity sv'))" "ak_tenant_id k = t"
    "ak_principal_kind k = PRINCIPAL_HOSTED_FLOW_AGENT" "ak_is_active k" for k
  proof -
    have "k \<in> set ?old \<or> k = ?k" using that(1) keys by auto
    then show ?thesis
    proof
      assume "k \<in> set ?old"
      then show ?thesis using inactive [OF _ that(2-4)] by blast
    qed (simp add: hosted_key_def)
  qed
  moreover have "ac_tenant_id (service_actor (sv_identity sv') ?k PRINCIPAL_HOSTED_FLOW_AGENT) = t"
    "ac_principal_kind (service_actor (sv_identity sv') ?k PRINCIPAL_HOSTED_FLOW_AGENT) = PRINCIPAL_HOSTED_FLOW_AGENT"
    "ac_write_scope (service_actor (sv_identity sv') ?k PRINCIPAL_HOSTED_FLOW_AGENT) = Some (hosted_write_scope (sv_identity sv') ?k)"
    by (simp_all add: service_actor_def hosted_key_def)
  ultimately show ?thesis by blast
qed

subsection \<open>A workspace\<close>

definition demo_tenant :: tenant where
  "demo_tenant = \<lparr>tn_id = ''t'', tn_status = ''active'', tn_flow_runner_enabled = True\<rparr>"

text \<open>A workspace whose invoices go from \<open>open\<close> to \<open>filed\<close>, with one skill that drives them.\<close>

definition demo_flow_server :: flow_server where
  "demo_flow_server = \<lparr>
     sv_identity = \<lparr>id_tenants = [demo_tenant], id_users = [], id_sessions = [], id_keys = [], id_roles = [],
       id_subscriptions = [], id_custom_capabilities = [], id_audit = []\<rparr>,
     sv_skills = [\<lparr>ts_tenant_id = ''t'', ts_name = ''invoice-flow'', ts_kind = ''product'', ts_status = ''active'',
       ts_required_capability = Some ''invoice.advance''\<rparr>],
     sv_definitions = [\<lparr>td_tenant_id = ''t'', td_entity_kind = ''builtin'', td_object_type = ''invoice'', td_status = ''active'',
       td_state_machine = Some (machine_of_json renamed_invoice_machine)\<rparr>],
     sv_runs = [], sv_uuids = (\<lambda>n. replicate (Suc n) CHR ''r''), sv_next = 0\<rparr>"

definition enrolled :: flow_server where
  "enrolled = snd (projr (provision_flow_subscriptions demo_flow_server ''t''))"

lemma enrolled: "provision_flow_subscriptions demo_flow_server ''t'' = Inr (1, enrolled)"
proof -
  have "(case provision_flow_subscriptions demo_flow_server ''t'' of Inr (n, _) \<Rightarrow> n = 1 | Inl _ \<Rightarrow> False)" by code_simp
  then show ?thesis by (auto simp: enrolled_def split: sum.splits)
qed

theorem provisioning_is_done_once_witness:
  "provision_flow_subscriptions demo_flow_server ''t'' = Inr (1, enrolled) \<and>
   provision_flow_subscriptions enrolled ''t'' = Inr (0, enrolled)"
  using provisioning_is_done_once [OF enrolled] enrolled by blast

theorem issuing_leaves_one_driver_witness:
  "\<exists>sv' a. issue_flow_runner_credential (\<lambda>s. s) ''secret'' enrolled ''t'' = Inr sv' \<and>
     resolve_api_key_actor (\<lambda>s. s) 0 (sv_identity sv') ''secret'' = Inr a \<and> ac_write_scope a \<noteq> Some []"
proof -
  have "is_ok (issue_flow_runner_credential (\<lambda>s. s) ''secret'' enrolled ''t'')" by code_simp
  then obtain sv' where sv': "issue_flow_runner_credential (\<lambda>s. s) ''secret'' enrolled ''t'' = Inr sv'" by (auto simp: is_ok_iff)
  have "id_keys (sv_identity enrolled) = []" by code_simp
  then have fresh: "''secret'' \<notin> ak_key_hash ` set (id_keys (sv_identity enrolled))" by simp
  have "list_ex (\<lambda>s. fs_tenant_id s = ''t'' \<and> fs_enabled s) (sv_subscriptions enrolled)" by code_simp
  then have some: "{s \<in> set (sv_subscriptions enrolled). fs_tenant_id s = ''t'' \<and> fs_enabled s} \<noteq> {}"
    by (auto simp: list_ex_iff)
  from issuing_leaves_one_driver [OF sv', of 0] fresh obtain a scope where
    a: "resolve_api_key_actor (\<lambda>s. s) 0 (sv_identity sv') ''secret'' = Inr a" "ac_write_scope a = Some scope"
      "set scope = (\<lambda>s. (fs_entity_type s, fs_queue_filter s)) ` {s \<in> set (sv_subscriptions enrolled). fs_tenant_id s = ''t'' \<and> fs_enabled s}"
    by auto
  with some have "scope \<noteq> []" by force
  with a sv' show ?thesis by auto
qed

text \<open>A machine nothing can be driven through opens the boundary. The workspace renames the states of its invoices and
  declares no editable ones, which validation accepts; no state then counts as waiting to be routed, the
  derivation gives an empty filter, the subscription is provisioned all the same, and the hosted agent's boundary
  holds for every invoice in whatever state.\<close>

theorem an_undrivable_machine_opens_the_boundary:
  "ensure_valid_state_machine renamed_invoice_machine ''builtin'' ''invoice'' = Inr () \<and>
   (\<exists>sv' a. issue_flow_runner_credential (\<lambda>s. s) ''secret'' enrolled ''t'' = Inr sv' \<and>
      resolve_api_key_actor (\<lambda>s. s) 0 (sv_identity sv') ''secret'' = Inr a \<and>
      (\<forall>r ignore. require_hosted_write_scope a ''invoice'' r ignore = Inr ()))"
proof
  show "ensure_valid_state_machine renamed_invoice_machine ''builtin'' ''invoice'' = Inr ()" by code_simp
  have "(case issue_flow_runner_credential (\<lambda>s. s) ''secret'' enrolled ''t'' of
      Inr sv' \<Rightarrow> (case resolve_api_key_actor (\<lambda>s. s) 0 (sv_identity sv') ''secret'' of
          Inr a \<Rightarrow> ac_write_scope a = Some [(''invoice'', [])] | Inl _ \<Rightarrow> False) | Inl _ \<Rightarrow> False)"
    by code_simp
  then obtain sv' a where "issue_flow_runner_credential (\<lambda>s. s) ''secret'' enrolled ''t'' = Inr sv'"
    "resolve_api_key_actor (\<lambda>s. s) 0 (sv_identity sv') ''secret'' = Inr a" "ac_write_scope a = Some [(''invoice'', [])]"
    by (auto split: sum.splits)
  then show "\<exists>sv' a. issue_flow_runner_credential (\<lambda>s. s) ''secret'' enrolled ''t'' = Inr sv' \<and>
      resolve_api_key_actor (\<lambda>s. s) 0 (sv_identity sv') ''secret'' = Inr a \<and>
      (\<forall>r ignore. require_hosted_write_scope a ''invoice'' r ignore = Inr ())"
    by (auto simp: require_hosted_write_scope_def each_Inr_iff)
qed

text \<open>The shipped lifecycles each have exactly one such state.\<close>

lemma shipped_filters:
  "list_all (\<lambda>e. derived_queue_filter [] ''t'' e = Inr [(''status'', JStr ''submitted'')]) HOSTED_DRIVABLE_ENTITY_TYPES"
  by code_simp

end
