(* ===== verification/Flow_Laws.thy ===== *)
theory Flow_Laws
  imports Flow_Runner
begin

text \<open>
  What a dispatch may touch, that every waiting queue gets its turn, and that a queue that does not drain stops
  costing agent turns.
\<close>

subsection \<open>A dispatch keeps to its subscription\<close>

text \<open>What the runner never changes of a subscription.\<close>

definition terms_of :: "flow_subscription \<Rightarrow> uuid \<times> uuid \<times> (string \<times> (string \<times> json) list) \<times> int \<times> bool" where
  "terms_of s = (fs_id s, fs_tenant_id s, (fs_entity_type s, fs_queue_filter s), fs_cadence_seconds s, fs_enabled s)"

definition rows_of :: "uuid \<Rightarrow> flow_server \<Rightarrow> flow_subscription list" where
  "rows_of i sv = filter (\<lambda>s. fs_id s = i) (sv_subscriptions sv)"

definition server_confined :: "uuid \<Rightarrow> flow_server \<Rightarrow> flow_server \<Rightarrow> bool" where
  "server_confined i sv sv' \<longleftrightarrow> map terms_of (sv_subscriptions sv') = map terms_of (sv_subscriptions sv) \<and>
     (\<forall>j. j \<noteq> i \<longrightarrow> rows_of j sv' = rows_of j sv)"

definition confined :: "uuid \<Rightarrow> drive \<Rightarrow> drive \<Rightarrow> bool" where
  "confined i d d' \<longleftrightarrow> server_confined i (dv_server d) (dv_server d') \<and>
     (\<forall>j. j \<noteq> i \<longrightarrow> dv_memory d' j = dv_memory d j) \<and>
     sm_last_polled_at (dv_memory d' i) = sm_last_polled_at (dv_memory d i)"

lemma server_confined_refl [simp]: "server_confined i sv sv"
  by (simp add: server_confined_def)

lemma server_confined_trans: "server_confined i sv sv1 \<Longrightarrow> server_confined i sv1 sv2 \<Longrightarrow> server_confined i sv sv2"
  by (simp add: server_confined_def)

lemma confined_refl [simp]: "confined i d d"
  by (simp add: confined_def)

lemma confined_trans: "confined i d d1 \<Longrightarrow> confined i d1 d2 \<Longrightarrow> confined i d d2"
  unfolding confined_def using server_confined_trans by metis

lemma confined_server:
  "confined i d d1 \<Longrightarrow> server_confined i (dv_server d1) sv \<Longrightarrow> confined i d (d1\<lparr>dv_server := sv\<rparr>)"
  unfolding confined_def using server_confined_trans by auto

lemma server_confined_same: "sv_subscriptions sv' = sv_subscriptions sv \<Longrightarrow> server_confined i sv sv'"
  by (simp add: server_confined_def rows_of_def)

lemma server_confined_change:
  assumes "\<And>s. terms_of (f s) = terms_of s"
  shows "server_confined i sv (change_subscription i f sv)"
proof -
  have fs_id: "fs_id (f s) = fs_id s" for s using assms [of s] by (simp add: terms_of_def)
  have "filter (\<lambda>s. fs_id s = j) (update_rows (\<lambda>s. fs_id s = i) f ss) = filter (\<lambda>s. fs_id s = j) ss" if "j \<noteq> i" for j ss
    using that by (induction ss) (auto simp: update_rows_def fs_id)
  moreover have "map terms_of (update_rows (\<lambda>s. fs_id s = i) f ss) = map terms_of ss" for ss
    by (induction ss) (simp_all add: update_rows_def assms)
  ultimately show ?thesis by (simp add: server_confined_def change_subscription_def set_subscriptions_def rows_of_def)
qed

lemma subscriptions_flow_audit [simp]: "sv_subscriptions (flow_audit t act et ei who sv) = sv_subscriptions sv"
  by (simp add: flow_audit_def)

lemma server_confined_audit: "server_confined i sv sv' \<Longrightarrow> server_confined i sv (flow_audit t act et ei who sv')"
  by (simp add: server_confined_def rows_of_def)

lemma report_confined: "report_driver_state sv a now i n p why = Inr sv' \<Longrightarrow> server_confined i sv sv'"
  unfolding report_driver_state_def Let_def bindE_Inr_iff
  by (auto intro!: server_confined_audit server_confined_change simp: terms_of_def split: if_splits)

lemma open_confined: "open_flow_run sv a et si trg t n = Inr (run, sv') \<Longrightarrow> sv_subscriptions sv' = sv_subscriptions sv"
  unfolding open_flow_run_def Let_def bindE_Inr_iff by (auto simp: draw_id_def)

lemma close_confined: "close_flow_run sv a i st t n e = Inr (run, sv') \<Longrightarrow> sv_subscriptions sv' = sv_subscriptions sv"
  unfolding close_flow_run_def Let_def bindE_Inr_iff by (auto split: option.splits simp: bindE_Inr_iff)

lemma send_Answer: "send link r = Answer x \<longleftrightarrow> link = Answer () \<and> r = Inr x"
  by (auto simp: send_def split: reply.splits sum.splits)

lemma note_progress_confined: "note_progress c a ou s n ok p d = Some d' \<Longrightarrow> confined (fs_id s) d d'"
  unfolding note_progress_def Let_def
  by (auto split: reply.splits simp: send_Answer intro!: confined_server dest: report_confined)

lemma opened_confined:
  "confined i d d1 \<Longrightarrow> send link (open_flow_run (dv_server d1) a et si trg t n) = Answer (run, sv) \<Longrightarrow>
   confined i d (d1\<lparr>dv_server := sv\<rparr>)"
  by (auto simp: send_Answer intro!: confined_server server_confined_same dest!: open_confined)

lemma closed_confined:
  "confined i d (d1\<lparr>dv_server := sv\<rparr>) \<Longrightarrow> send link (close_flow_run sv a k st t n e) = Answer (run, sv') \<Longrightarrow>
   confined i d (d1\<lparr>dv_server := sv'\<rparr>)"
  using confined_server [of i d "d1\<lparr>dv_server := sv\<rparr>" sv'] by (auto simp: send_Answer intro: server_confined_same dest: close_confined)

lemma confined_memory:
  "confined i d d1 \<Longrightarrow> (\<And>m. sm_last_polled_at (f m) = sm_last_polled_at m) \<Longrightarrow> confined i d (change_memory i f d1)"
  by (simp add: confined_def change_memory_def)

lemma record_failed_check_confined: "confined i d d1 \<Longrightarrow> record_failed_check a ou s trg e d1 = (r, d') \<Longrightarrow> confined i d d'"
  unfolding record_failed_check_def
  by (auto split: reply.splits prod.splits intro: opened_confined closed_confined)

lemma failed_check_confined: "failed_check c a ou s trg e d = (r, d') \<Longrightarrow> confined (fs_id s) d d'"
  unfolding failed_check_def
  by (auto split: option.splits dest: note_progress_confined record_failed_check_confined)

lemma report_idle_confined: "report_idle c a ou s trg why d = (r, d') \<Longrightarrow> confined (fs_id s) d d'"
  unfolding report_idle_def Let_def
  by (auto split: reply.splits prod.splits if_splits intro!: confined_memory
      elim!: closed_confined [rotated] opened_confined [rotated])

lemma settle_turn_confined: "settle_turn c a ou s run n res d = (r, d') \<Longrightarrow> confined (fs_id s) d d'"
proof -
  assume eq: "settle_turn c a ou s run n res d = (r, d')"
  show ?thesis
  proof (cases "d' = d")
    case False
    with eq obtain adv p d1 where n: "note_progress c a ou s adv (rs_ok res) p d = Some d1"
      and d': "d' = d1 \<or> (\<exists>run' sv. send (ou_close ou) (close_flow_run (dv_server d1) a (fr_id run)
          (if rs_ok res then ''succeeded'' else ''failed'') (ou_finished ou) adv (rs_error res)) = Answer (run', sv) \<and>
          d' = d1\<lparr>dv_server := sv\<rparr>)"
      unfolding settle_turn_def Let_def by (auto split: prod.splits reply.splits option.splits if_splits)
    note confined = note_progress_confined [OF n]
    with d' show ?thesis
    proof (elim disjE exE conjE)
      fix run' sv assume "send (ou_close ou) (close_flow_run (dv_server d1) a (fr_id run)
          (if rs_ok res then ''succeeded'' else ''failed'') (ou_finished ou) adv (rs_error res)) = Answer (run', sv)"
        and d': "d' = d1\<lparr>dv_server := sv\<rparr>"
      then have "sv_subscriptions sv = sv_subscriptions (dv_server d1)" by (auto simp: send_Answer dest: close_confined)
      then show ?thesis unfolding d' by (intro confined_server confined server_confined_same)
    qed simp
  qed simp
qed

lemma take_turn_confined: "take_turn c a ou s trg n d = (r, d') \<Longrightarrow> confined (fs_id s) d d'"
  unfolding take_turn_def Let_def
  by (auto split: reply.splits prod.splits if_splits intro: opened_confined [OF confined_refl]
      dest!: settle_turn_confined intro: confined_trans [OF opened_confined [OF confined_refl]])

lemma dispatch_confined: "dispatch c a ou s trg d = (r, d') \<Longrightarrow> confined (fs_id s) d d'"
  unfolding dispatch_def
  by (auto split: reply.splits prod.splits if_splits
      dest: failed_check_confined report_idle_confined take_turn_confined)

subsection \<open>Every queue gets its turn\<close>

text \<open>When a subscription was last polled; what a pass leaves for one it did not poll.\<close>

definition polled_at :: "drive \<Rightarrow> uuid \<Rightarrow> timestamp option" where
  "polled_at d i = sm_last_polled_at (dv_memory d i)"

definition left_alone :: "uuid \<Rightarrow> drive \<Rightarrow> drive \<Rightarrow> bool" where
  "left_alone i d d' \<longleftrightarrow> dv_memory d' i = dv_memory d i \<and> rows_of i (dv_server d') = rows_of i (dv_server d)"

lemma left_alone_due: "left_alone (fs_id x) d d' \<Longrightarrow> due (dv_memory d') x now = due (dv_memory d) x now"
  by (simp add: due_def left_alone_def)

lemma left_alone_trans: "left_alone i d d1 \<Longrightarrow> left_alone i d1 d2 \<Longrightarrow> left_alone i d d2"
  by (simp add: left_alone_def)

abbreviation mark_polled :: "timestamp \<Rightarrow> uuid \<Rightarrow> drive \<Rightarrow> drive" where
  "mark_polled now i \<equiv> change_memory i (\<lambda>m. m\<lparr>sm_last_polled_at := Some now\<rparr>)"

lemma dispatch_marks:
  assumes "dispatch c a ou s trg (mark_polled now (fs_id s) d) = (r, d')"
  shows "polled_at d' (fs_id s) = Some now" and "j \<noteq> fs_id s \<Longrightarrow> left_alone j d d'"
    and "map terms_of (sv_subscriptions (dv_server d')) = map terms_of (sv_subscriptions (dv_server d))"
  using dispatch_confined [OF assms]
  by (auto simp: confined_def server_confined_def polled_at_def left_alone_def change_memory_def)

lemma poll_keeps:
  "poll_subscriptions c a w trg now ss d = (r, d') \<Longrightarrow>
     (polled_at d' i = polled_at d i \<or> polled_at d' i = Some now) \<and>
     (i \<notin> fs_id ` set ss \<longrightarrow> left_alone i d d') \<and>
     map terms_of (sv_subscriptions (dv_server d')) = map terms_of (sv_subscriptions (dv_server d))"
proof (induction ss arbitrary: r d)
  case (Cons s ss)
  show ?case
  proof (cases "due (dv_memory d) s now")
    case True
    obtain o' d2 where dis: "dispatch c a (w (fs_id s)) s trg (mark_polled now (fs_id s) d) = (o', d2)"
      by (cases "dispatch c a (w (fs_id s)) s trg (mark_polled now (fs_id s) d)")
    note m = dispatch_marks [OF dis]
    have d2: "(polled_at d2 i = polled_at d i \<or> polled_at d2 i = Some now) \<and> (i \<noteq> fs_id s \<longrightarrow> left_alone i d d2)"
      using m(1) m(2) [of i] by (cases "i = fs_id s") (auto simp: left_alone_def polled_at_def)
    from Cons.prems True dis have "d' = d2 \<or> (\<exists>r'. poll_subscriptions c a w trg now ss d2 = (r', d'))"
      by (auto split: dispatched.splits if_splits prod.splits simp: Let_def)
    then show ?thesis
    proof (elim disjE exE)
      fix r' assume "poll_subscriptions c a w trg now ss d2 = (r', d')"
      from Cons.IH [OF this] d2 m(3) show ?thesis by (auto dest: left_alone_trans)
    qed (use d2 m(3) in auto)
  next
    case False
    with Cons.prems Cons.IH [of d r] show ?thesis by auto
  qed
qed (auto simp: left_alone_def)

text \<open>A subscription that is due is polled, or another that was due is and this one stays as it was.\<close>

lemma poll_turns:
  assumes "poll_subscriptions c a w trg now ss d = (Some recs, d')" and "distinct (map fs_id ss)"
    and "x \<in> set ss" and "due (dv_memory d) x now"
  shows "polled_at d' (fs_id x) = Some now \<or> left_alone (fs_id x) d d' \<and>
    (\<exists>y \<in> set ss. fs_id y \<noteq> fs_id x \<and> due (dv_memory d) y now \<and> polled_at d' (fs_id y) = Some now)"
  using assms
proof (induction ss arbitrary: recs d)
  case (Cons s ss)
  show ?case
  proof (cases "due (dv_memory d) s now")
    case False
    then have "x \<noteq> s" using Cons.prems(4) by blast
    with False Cons.prems Cons.IH [of d recs] show ?thesis by auto
  next
    case True
    obtain o' d2 where dis: "dispatch c a (w (fs_id s)) s trg (mark_polled now (fs_id s) d) = (o', d2)"
      by (cases "dispatch c a (w (fs_id s)) s trg (mark_polled now (fs_id s) d)")
    note m = dispatch_marks [OF dis]
    from Cons.prems(1) True dis obtain run spent where o': "o' = Done run spent"
      and rest: "(spent \<and> d' = d2) \<or> (\<exists>more. poll_subscriptions c a w trg now ss d2 = (Some more, d'))"
      by (auto split: dispatched.splits if_splits prod.splits option.splits simp: Let_def)
    have keep: "polled_at d' (fs_id s) = Some now"
      using rest m(1) poll_keeps [of c a w trg now ss d2 _ d' "fs_id s"] by auto
    show ?thesis
    proof (cases "fs_id x = fs_id s")
      case True
      with keep show ?thesis by simp
    next
      case False
      note alone = m(2) [OF False]
      from rest show ?thesis
      proof (elim disjE exE conjE)
        assume "spent" "d' = d2"
        with alone keep False True show ?thesis by auto
      next
        fix more assume more: "poll_subscriptions c a w trg now ss d2 = (Some more, d')"
        have "due (dv_memory d2) x now" using Cons.prems(4) left_alone_due [OF alone] by simp
        moreover have "x \<in> set ss" using Cons.prems(3) False by auto
        ultimately have "polled_at d' (fs_id x) = Some now \<or> left_alone (fs_id x) d2 d' \<and>
            (\<exists>y \<in> set ss. fs_id y \<noteq> fs_id x \<and> due (dv_memory d2) y now \<and> polled_at d' (fs_id y) = Some now)"
          using Cons.IH [OF more] Cons.prems(2) by simp
        then show ?thesis
        proof (elim disjE conjE bexE)
          fix y assume y: "y \<in> set ss" "fs_id y \<noteq> fs_id x" "due (dv_memory d2) y now" "polled_at d' (fs_id y) = Some now"
            and l: "left_alone (fs_id x) d2 d'"
          have "fs_id y \<noteq> fs_id s" using Cons.prems(2) y(1) by (auto simp: image_iff)
          then have "due (dv_memory d) y now" using left_alone_due [OF m(2)] y(3) by simp
          with y l alone show ?thesis by (auto dest: left_alone_trans)
        qed simp
      qed
    qed
  qed
qed simp

text \<open>The subscriptions a pass lists, and the passes that end without an exception.\<close>

definition listed :: "actor \<Rightarrow> flow_server \<Rightarrow> flow_subscription list" where
  "listed a sv = filter (\<lambda>s. fs_tenant_id s = ac_tenant_id a \<and> fs_enabled s) (sv_subscriptions sv)"

definition cadence_of :: "flow_subscription \<Rightarrow> int" where
  "cadence_of s = (if fs_cadence_seconds s = 0 then DEFAULT_CADENCE_SECONDS else fs_cadence_seconds s)"

fun all_complete :: "runner_config \<Rightarrow> actor \<Rightarrow> string \<Rightarrow> pass list \<Rightarrow> drive \<Rightarrow> bool" where
  "all_complete c a trg [] d = True"
| "all_complete c a trg (p # ps) d =
     (case poll_once c a trg p d of (r, d') \<Rightarrow> pw_listing p = Answer () \<and> r \<noteq> None \<and> all_complete c a trg ps d')"

lemma due_iff:
  "due m s now \<longleftrightarrow> fs_parked_at s = None \<and>
     (case sm_last_polled_at (m (fs_id s)) of None \<Rightarrow> True | Some t \<Rightarrow> cadence_of s \<le> now - t)"
  by (simp add: due_def cadence_of_def split: option.split)

lemma listing: "list_flow_subscriptions sv a (Some True) = Inr ss \<Longrightarrow> ss = sort_key fs_entity_type (listed a sv)"
  by (auto simp: list_flow_subscriptions_def bindE_Inr_iff listed_def)

lemma poll_once_cases:
  assumes "poll_once c a trg p d = (r, d')"
  obtains "d' = d" "r \<noteq> Some [] \<longrightarrow> r = None" "pw_listing p \<noteq> Answer () \<or> \<not> (has_permission a ''keys.manage'' None \<or> has_permission a ''flow_run.record'' None)"
  | "poll_subscriptions c a (pw_world p) trg (pw_now p) (sort_key fs_entity_type (listed a (dv_server d))) d = (r, d')"
proof (cases "send (pw_listing p) (list_flow_subscriptions (dv_server d) a (Some True))")
  case (Answer ss)
  then have "ss = sort_key fs_entity_type (listed a (dv_server d))" using listing by (auto simp: send_Answer)
  with Answer assms that(2) show ?thesis by (simp add: poll_once_def)
next
  case (Refused e)
  then have "pw_listing p \<noteq> Answer () \<or> \<not> (has_permission a ''keys.manage'' None \<or> has_permission a ''flow_run.record'' None)"
    by (auto simp: send_def list_flow_subscriptions_def split: reply.splits sum.splits)
  with Refused assms that(1) show ?thesis by (simp add: poll_once_def)
next
  case Broken
  then have "pw_listing p \<noteq> Answer ()" by (auto simp: send_def split: reply.splits sum.splits)
  with Broken assms that(1) show ?thesis by (simp add: poll_once_def)
qed

lemma poll_once_keeps:
  assumes "poll_once c a trg p d = (r, d')"
  shows "(polled_at d' i = polled_at d i \<or> polled_at d' i = Some (pw_now p)) \<and>
     map terms_of (sv_subscriptions (dv_server d')) = map terms_of (sv_subscriptions (dv_server d))"
  using assms by (cases rule: poll_once_cases) (auto dest: poll_keeps [of _ _ _ _ _ _ _ _ _ i])

lemma run_passes_keep:
  "(polled_at (run_passes c a trg ps d) i = polled_at d i \<or> (\<exists>p \<in> set ps. polled_at (run_passes c a trg ps d) i = Some (pw_now p)))"
proof (induction ps arbitrary: d)
  case (Cons p ps)
  obtain r d' where p: "poll_once c a trg p d = (r, d')" by (cases "poll_once c a trg p d")
  from poll_once_keeps [OF this, of i] Cons.IH [of d'] show ?case by (auto simp: p)
qed simp

definition listed_terms :: "actor \<Rightarrow> flow_server \<Rightarrow> (uuid \<times> uuid \<times> (string \<times> (string \<times> json) list) \<times> int \<times> bool) set" where
  "listed_terms a sv = {(i, t, e, c, en) \<in> set (map terms_of (sv_subscriptions sv)). t = ac_tenant_id a \<and> en}"

text \<open>Those that wait for their turn in the window that opens at \<open>t0\<close>.\<close>

definition waiting :: "actor \<Rightarrow> uuid \<Rightarrow> timestamp \<Rightarrow> drive \<Rightarrow> uuid set" where
  "waiting a x t0 d = {i \<in> fst ` listed_terms a (dv_server d). i \<noteq> x \<and> \<not> (\<exists>t \<ge> t0. polled_at d i = Some t)}"

lemma listed_terms_listed: "listed_terms a sv = terms_of ` set (listed a sv)"
  by (auto simp: listed_terms_def listed_def terms_of_def image_iff)

lemma fst_terms: "fst (terms_of s) = fs_id s"
  by (simp add: terms_of_def)

lemma finite_waiting: "finite (waiting a x t0 d)"
  by (simp add: waiting_def listed_terms_listed)

lemma card_waiting: "x \<in> set (listed a (dv_server d)) \<Longrightarrow> card (waiting a (fs_id x) t0 d) < length (listed a (dv_server d))"
proof -
  assume x: "x \<in> set (listed a (dv_server d))"
  have "waiting a (fs_id x) t0 d \<subseteq> fs_id ` set (listed a (dv_server d)) - {fs_id x}"
    by (auto simp: waiting_def listed_terms_listed fst_terms)
  then have "card (waiting a (fs_id x) t0 d) \<le> card (fs_id ` set (listed a (dv_server d)) - {fs_id x})"
    by (simp add: card_mono)
  also have "\<dots> < card (fs_id ` set (listed a (dv_server d)))" using x by (intro card_Diff1_less) auto
  also have "\<dots> \<le> length (listed a (dv_server d))" by (metis card_length list.set_map length_map)
  finally show ?thesis .
qed

lemma turn_is_taken:
  assumes "all_complete c a trg ps d" and "has_permission a ''flow_run.record'' None"
    and "distinct (map fs_id (sv_subscriptions (dv_server d)))" and "x \<in> set (listed a (dv_server d))"
    and "due (dv_memory d) x t0"
    and "\<And>p. p \<in> set ps \<Longrightarrow> t0 \<le> pw_now p"
    and "\<And>p tm. p \<in> set ps \<Longrightarrow> tm \<in> listed_terms a (dv_server d) \<Longrightarrow>
      pw_now p - t0 < (case tm of (_, _, _, c, _) \<Rightarrow> if c = 0 then DEFAULT_CADENCE_SECONDS else c)"
  shows "(\<exists>p \<in> set ps. polled_at (run_passes c a trg ps d) (fs_id x) = Some (pw_now p)) \<or>
    length ps \<le> card (waiting a (fs_id x) t0 d)"
  using assms
proof (induction ps arbitrary: d)
  case (Cons p ps)
  let ?A = "listed a (dv_server d)"
  obtain r d' where p: "poll_once c a trg p d = (r, d')" by (cases "poll_once c a trg p d")
  with Cons.prems(1,2) obtain recs where ok: "poll_subscriptions c a (pw_world p) trg (pw_now p) (sort_key fs_entity_type ?A) d = (Some recs, d')"
    and rest: "all_complete c a trg ps d'"
    using poll_once_cases [OF p] by auto
  have ids: "distinct (map fs_id (sort_key fs_entity_type ?A))"
    using Cons.prems(3) by (simp add: listed_def distinct_map inj_on_def)
  have terms: "map terms_of (sv_subscriptions (dv_server d')) = map terms_of (sv_subscriptions (dv_server d))"
    using poll_once_keeps [OF p] by blast
  have "map fs_id (sv_subscriptions (dv_server d')) = map fs_id (sv_subscriptions (dv_server d))"
    using arg_cong [OF terms, of "map fst"] by (simp add: fst_terms comp_def)
  with Cons.prems(3) have ids': "distinct (map fs_id (sv_subscriptions (dv_server d')))" by simp
  have lt: "listed_terms a (dv_server d') = listed_terms a (dv_server d)" unfolding listed_terms_def terms ..
  have due: "due (dv_memory d) x (pw_now p)"
    using Cons.prems(5,6) by (auto simp: due_iff split: option.splits intro: order_trans)
  from poll_turns [OF ok ids _ due] Cons.prems(4)
  have "polled_at d' (fs_id x) = Some (pw_now p) \<or> left_alone (fs_id x) d d' \<and>
     (\<exists>y \<in> set ?A. fs_id y \<noteq> fs_id x \<and> due (dv_memory d) y (pw_now p) \<and> polled_at d' (fs_id y) = Some (pw_now p))"
    by simp
  then show ?case
  proof (elim disjE conjE bexE)
    assume "polled_at d' (fs_id x) = Some (pw_now p)"
    then show ?thesis using run_passes_keep [of c a trg ps d' "fs_id x"] by (auto simp: p)
  next
    fix y assume l: "left_alone (fs_id x) d d'" and y: "y \<in> set ?A" "fs_id y \<noteq> fs_id x"
      "due (dv_memory d) y (pw_now p)" "polled_at d' (fs_id y) = Some (pw_now p)"
    have "rows_of (fs_id x) (dv_server d') = rows_of (fs_id x) (dv_server d)" using l by (simp add: left_alone_def)
    then have "x \<in> set (listed a (dv_server d'))" using Cons.prems(4)
      by (metis (mono_tags, lifting) listed_def mem_Collect_eq rows_of_def set_filter)
    moreover have "due (dv_memory d') x t0" using Cons.prems(5) left_alone_due [OF l] by simp
    ultimately have IH: "(\<exists>p \<in> set ps. polled_at (run_passes c a trg ps d') (fs_id x) = Some (pw_now p)) \<or>
        length ps \<le> card (waiting a (fs_id x) t0 d')"
      using Cons.IH [OF rest Cons.prems(2) ids'] Cons.prems(6,7) lt by simp
    have mono: "waiting a (fs_id x) t0 d' \<subseteq> waiting a (fs_id x) t0 d"
    proof
      fix i assume i: "i \<in> waiting a (fs_id x) t0 d'"
      have "polled_at d' i = polled_at d i \<or> polled_at d' i = Some (pw_now p)" using poll_once_keeps [OF p] by blast
      then show "i \<in> waiting a (fs_id x) t0 d" using i Cons.prems(6) [of p] by (auto simp: waiting_def lt)
    qed
    have "terms_of y \<in> listed_terms a (dv_server d)" using y(1) by (simp add: listed_terms_listed)
    from Cons.prems(7) [of p, OF _ this] have "pw_now p - t0 < cadence_of y" by (simp add: terms_of_def cadence_of_def)
    then have "fs_id y \<in> waiting a (fs_id x) t0 d"
      using y(1,2,3) by (auto simp: waiting_def listed_terms_listed fst_terms due_iff polled_at_def image_iff split: option.splits)
    moreover have "fs_id y \<notin> waiting a (fs_id x) t0 d'" using y(4) Cons.prems(6) [of p] by (auto simp: waiting_def)
    ultimately have "card (waiting a (fs_id x) t0 d') < card (waiting a (fs_id x) t0 d)"
      using mono by (intro psubset_card_mono finite_waiting) blast
    with IH show ?thesis by (auto simp: p)
  qed
qed simp

text \<open>C17: Every queue gets its turn. Whatever the busier subscriptions find to do, a subscription that is due when a
  series of passes opens is looked at within as many passes as there are subscriptions, as long as the whole
  series fits into every subscription's cadence and no pass breaks off.\<close>

theorem every_queue_gets_its_turn:
  assumes "all_complete c a trg (p # ps) d" and "has_permission a ''flow_run.record'' None"
    and "distinct (map fs_id (sv_subscriptions (dv_server d)))" and "x \<in> set (listed a (dv_server d))"
    and "due (dv_memory d) x (pw_now p)" and "length (listed a (dv_server d)) \<le> length (p # ps)"
    and "\<And>q. q \<in> set ps \<Longrightarrow> pw_now p \<le> pw_now q"
    and "\<And>q s. q \<in> set (p # ps) \<Longrightarrow> s \<in> set (listed a (dv_server d)) \<Longrightarrow> pw_now q - pw_now p < cadence_of s"
  shows "\<exists>q \<in> set (p # ps). polled_at (run_passes c a trg (p # ps) d) (fs_id x) = Some (pw_now q)"
proof -
  have "pw_now q - pw_now p < (case tm of (_, _, _, c, _) \<Rightarrow> if c = 0 then DEFAULT_CADENCE_SECONDS else c)"
    if "q \<in> set (p # ps)" "tm \<in> listed_terms a (dv_server d)" for q tm
    using assms(8) [OF that(1)] that(2) by (auto simp: listed_terms_listed terms_of_def cadence_of_def)
  then have "(\<exists>q \<in> set (p # ps). polled_at (run_passes c a trg (p # ps) d) (fs_id x) = Some (pw_now q)) \<or>
      length (p # ps) \<le> card (waiting a (fs_id x) (pw_now p) d)"
    by (intro turn_is_taken [OF assms(1-5)]) (use assms(7) in auto)
  with card_waiting [OF assms(4), of "pw_now p"] assms(6) show ?thesis by linarith
qed

end
