(* ===== verification/Flow_Stops.thy ===== *)
theory Flow_Stops
  imports Flow_Laws
begin

text \<open>
  What a queue that does not drain costs: agent turns are counted in the ledger of runs, and each one that moves
  nothing brings the subscription closer to its park.
\<close>

text \<open>The agent turns a subscription has had: the runs opened on a queue with something in it.\<close>

definition is_turn :: "uuid \<Rightarrow> flow_run \<Rightarrow> bool" where
  "is_turn i r \<longleftrightarrow> fr_subscription_id r = Some i \<and> (case fr_queue_size r of None \<Rightarrow> False | Some n \<Rightarrow> 0 < n)"

definition agent_turns :: "uuid \<Rightarrow> flow_server \<Rightarrow> nat" where
  "agent_turns i sv = length (filter (is_turn i) (sv_runs sv))"

text \<open>The turns it may still have without anything moving.\<close>

definition budget :: "runner_config \<Rightarrow> flow_subscription \<Rightarrow> nat" where
  "budget c s = (if fs_parked_at s \<noteq> None then 0 else max 1 (rc_max_unmoved_runs c - fs_unmoved_runs s))"

text \<open>Nothing moves: the queue is no shorter after the turn, no approval fact or todo has been added, the agent
  returns, and the runner's own report gets through.\<close>

definition stalled :: "outside \<Rightarrow> flow_subscription \<Rightarrow> bool" where
  "stalled ou s \<longleftrightarrow> ou_report ou = Answer () \<and>
     ou_marks ou (fs_entity_type s) \<noteq> Broken \<and> ou_marks_after ou (fs_entity_type s) \<noteq> Broken \<and>
     \<not> marks_moved (progress_marks (ou_marks ou (fs_entity_type s))) (progress_marks (ou_marks_after ou (fs_entity_type s))) \<and>
     (case queue_location s of (path, query) \<Rightarrow>
        ou_queue_after ou path query \<noteq> Broken \<and>
        (\<forall>n m. ou_queue ou path query = Answer n \<longrightarrow> ou_queue_after ou path query = Answer m \<longrightarrow> n \<le> m)) \<and>
     (\<forall>rq. \<exists>ok e. ou_agent ou rq = Answer \<lparr>rs_ok = ok, rs_items_advanced = None, rs_error = e\<rparr>)"

lemma agent_turns_open:
  "open_flow_run sv a et (Some j) trg t n = Inr (run, sv') \<Longrightarrow>
   agent_turns i sv' = agent_turns i sv + (if j = i \<and> (case n of None \<Rightarrow> False | Some k \<Rightarrow> 0 < k) then 1 else 0)"
  unfolding open_flow_run_def Let_def bindE_Inr_iff by (auto simp: draw_id_def agent_turns_def is_turn_def)

lemma length_filter_update:
  "(\<And>r. Q (f r) = Q r) \<Longrightarrow> length (filter Q (update_rows P f rs)) = length (filter Q rs)"
  by (induction rs) (simp_all add: update_rows_def)

lemma agent_turns_close: "close_flow_run sv a k st t n e = Inr (run, sv') \<Longrightarrow> agent_turns i sv' = agent_turns i sv"
  unfolding close_flow_run_def Let_def bindE_Inr_iff
  by (auto split: option.splits simp: bindE_Inr_iff agent_turns_def is_turn_def intro!: length_filter_update)

lemma agent_turns_report: "report_driver_state sv a now j n p why = Inr sv' \<Longrightarrow> agent_turns i sv' = agent_turns i sv"
  unfolding report_driver_state_def Let_def bindE_Inr_iff
  by (auto simp: agent_turns_def flow_audit_def change_subscription_def set_subscriptions_def split: if_splits)

lemma agent_turns_note: "note_progress c a ou s n ok p d = Some d' \<Longrightarrow> agent_turns i (dv_server d') = agent_turns i (dv_server d)"
  unfolding note_progress_def Let_def by (auto split: reply.splits simp: send_Answer dest: agent_turns_report)

lemma agent_turns_opened:
  "send link (open_flow_run sv a et (Some j) trg t n) = Answer (run, sv') \<Longrightarrow>
   agent_turns i sv' = agent_turns i sv + (if j = i \<and> (case n of None \<Rightarrow> False | Some k \<Rightarrow> 0 < k) then 1 else 0)"
  by (auto simp: send_Answer dest!: agent_turns_open [where i = i])

lemma agent_turns_closed: "send link (close_flow_run sv a k st t n e) = Answer (run, sv') \<Longrightarrow> agent_turns i sv' = agent_turns i sv"
  by (auto simp: send_Answer dest: agent_turns_close)

lemma agent_turns_failed_check:
  "failed_check c a ou s trg e d = (r, d') \<Longrightarrow> agent_turns i (dv_server d') = agent_turns i (dv_server d)"
proof -
  have "record_failed_check a ou s trg e d = (r, d') \<Longrightarrow> agent_turns i (dv_server d') = agent_turns i (dv_server d)" for d
    unfolding record_failed_check_def
    by (auto split: reply.splits prod.splits simp: agent_turns_opened [where i = i] agent_turns_closed [where i = i])
  moreover assume "failed_check c a ou s trg e d = (r, d')"
  ultimately show ?thesis
    unfolding failed_check_def by (auto split: option.splits dest: agent_turns_note [where i = i])
qed

lemma agent_turns_report_idle:
  "report_idle c a ou s trg why d = (r, d') \<Longrightarrow> agent_turns i (dv_server d') = agent_turns i (dv_server d)"
  unfolding report_idle_def Let_def
  by (auto split: reply.splits prod.splits if_splits simp: agent_turns_opened [where i = i] agent_turns_closed [where i = i] change_memory_def)

text \<open>How many records the recount says have left, and whether that or the marks show progress.\<close>

abbreviation recounted :: "outside \<Rightarrow> flow_subscription \<Rightarrow> nat \<Rightarrow> run_result \<Rightarrow> nat option" where
  "recounted ou s n res \<equiv> (case queue_location s of (path, query) \<Rightarrow>
     (case ou_queue_after ou path query of Answer m \<Rightarrow> Some (n - m) | _ \<Rightarrow> rs_items_advanced res))"

abbreviation progressed :: "outside \<Rightarrow> flow_subscription \<Rightarrow> nat \<Rightarrow> bool" where
  "progressed ou s n \<equiv>
     marks_moved (progress_marks (ou_marks ou (fs_entity_type s))) (progress_marks (ou_marks_after ou (fs_entity_type s))) \<or>
     (case queue_location s of (path, query) \<Rightarrow> (case ou_queue_after ou path query of Answer m \<Rightarrow> 0 < n - m | _ \<Rightarrow> False))"

abbreviation breaks_off :: "outside \<Rightarrow> flow_subscription \<Rightarrow> bool" where
  "breaks_off ou s \<equiv> (case queue_location s of (path, query) \<Rightarrow> ou_queue_after ou path query = Broken) \<or>
     ou_marks_after ou (fs_entity_type s) = Broken"

lemma settle_turn_unbroken:
  assumes "\<not> breaks_off ou s"
  shows "settle_turn c a ou s run n res d =
     (case note_progress c a ou s (recounted ou s n res) (rs_ok res) (progressed ou s n) d of
        None \<Rightarrow> (Escaped, d)
      | Some d' \<Rightarrow>
          (case send (ou_close ou) (close_flow_run (dv_server d') a (fr_id run)
                  (if rs_ok res then ''succeeded'' else ''failed'') (ou_finished ou) (recounted ou s n res) (rs_error res)) of
             Answer (run', sv) \<Rightarrow> (Done (Some run') True, d'\<lparr>dv_server := sv\<rparr>)
           | _ \<Rightarrow> (Escaped, d')))"
proof -
  obtain path query where loc: "queue_location s = (path, query)" by (cases "queue_location s")
  with assms show ?thesis
    by (cases "ou_queue_after ou path query") (simp_all add: settle_turn_def Let_def cong: option.case_cong)
qed

lemma settle_turn_broken: "breaks_off ou s \<Longrightarrow> settle_turn c a ou s run n res d = (Escaped, d)"
  by (auto simp: settle_turn_def split: prod.splits reply.splits)

lemma agent_turns_settle:
  assumes "settle_turn c a ou s run n res d = (r, d')"
  shows "agent_turns i (dv_server d') = agent_turns i (dv_server d)"
proof (cases "breaks_off ou s")
  case True
  with assms settle_turn_broken [OF True] show ?thesis by simp
next
  case False
  from assms show ?thesis unfolding settle_turn_unbroken [OF False]
    by (auto split: option.splits reply.splits prod.splits dest!: agent_turns_note [where i = i] agent_turns_closed [where i = i])
qed

lemma take_turn_cases:
  assumes "take_turn c a ou s trg n d = (r, d')"
  obtains "d' = d"
  | run sv where "send (ou_open ou) (open_flow_run (dv_server d) a (fs_entity_type s) (Some (fs_id s)) trg (ou_now ou) (Some n)) =
        Answer (run, sv)"
      "d' = d\<lparr>dv_server := sv\<rparr>" "ou_marks ou (fs_entity_type s) = Broken \<or> (\<exists>rq. \<forall>res. ou_agent ou rq \<noteq> Answer res)"
  | run sv rq res where "send (ou_open ou) (open_flow_run (dv_server d) a (fs_entity_type s) (Some (fs_id s)) trg (ou_now ou) (Some n)) =
        Answer (run, sv)"
      "ou_agent ou rq = Answer res" "settle_turn c a ou s run n res (d\<lparr>dv_server := sv\<rparr>) = (r, d')"
proof (cases "send (ou_open ou) (open_flow_run (dv_server d) a (fs_entity_type s) (Some (fs_id s)) trg (ou_now ou) (Some n))")
  case (Answer x)
  obtain run sv where x: "x = (run, sv)" by (cases x)
  let ?rq = "\<lparr>rq_entity_type = fs_entity_type s, rq_driver_skill = fs_driver_skill s,
                  rq_queue_size = n, rq_run_id = fr_id run, rq_trigger = trg,
                  rq_max_records = rc_max_records_per_run c, rq_queue_filter = fs_queue_filter s\<rparr>"
  show ?thesis
  proof (cases "ou_marks ou (fs_entity_type s) = Broken \<or> (\<forall>res. ou_agent ou ?rq \<noteq> Answer res)")
    case True
    then have "d' = d\<lparr>dv_server := sv\<rparr>"
      using assms Answer x by (auto simp: take_turn_def Let_def split: reply.splits if_splits)
    with True Answer x that(2) show ?thesis by blast
  next
    case False
    then obtain res where "ou_agent ou ?rq = Answer res" by blast
    with False assms Answer x show ?thesis by (intro that(3) [of run sv ?rq res]) (simp_all add: take_turn_def Let_def)
  qed
qed (use assms that(1) in \<open>auto simp: take_turn_def\<close>)

text \<open>A turn is the subscription's own.\<close>

lemma agent_turns_take:
  assumes "take_turn c a ou s trg n d = (r, d')"
  shows "agent_turns i (dv_server d') \<le> agent_turns i (dv_server d) + (if fs_id s = i then 1 else 0)"
  using assms by (cases rule: take_turn_cases) (auto dest!: agent_turns_settle [where i = i] agent_turns_opened [where i = i])

lemma dispatch_cases:
  assumes "dispatch c a ou s trg d = (r, d')"
  obtains "d' = d"
  | e where "failed_check c a ou s trg e d = (r, d')"
  | why where "report_idle c a ou s trg why d = (r, d')"
  | n where "0 < n" "case queue_location s of (path, query) \<Rightarrow> ou_queue ou path query = Answer n" "take_turn c a ou s trg n d = (r, d')"
  using assms unfolding dispatch_def by (auto split: reply.splits prod.splits if_splits)

lemma agent_turns_dispatch:
  assumes "dispatch c a ou s trg d = (r, d')"
  shows "agent_turns i (dv_server d') \<le> agent_turns i (dv_server d) + (if fs_id s = i then 1 else 0)"
  using assms
  by (cases rule: dispatch_cases)
    (auto dest: agent_turns_failed_check [where i = i] agent_turns_report_idle [where i = i] agent_turns_take [where i = i])

subsection \<open>What a turn that moves nothing costs\<close>

text \<open>The one row of a subscription, and that it may report.\<close>

definition reports :: "actor \<Rightarrow> flow_subscription \<Rightarrow> flow_server \<Rightarrow> bool" where
  "reports a s sv \<longleftrightarrow> rows_of (fs_id s) sv = [s] \<and> fs_tenant_id s = ac_tenant_id a \<and> has_permission a ''flow_run.record'' None"

lemma find_row_filter: "find_row P rs = (case filter P rs of [] \<Rightarrow> None | r # _ \<Rightarrow> Some r)"
  by (induction rs) auto

lemma reports_found: "reports a s sv \<Longrightarrow> subscription_or_404 sv (ac_tenant_id a) (fs_id s) = Inr s"
  by (simp add: reports_def subscription_or_404_def find_row_filter rows_of_def)

lemma rows_of_change:
  assumes "\<And>s. fs_id (f s) = fs_id s"
  shows "rows_of i (change_subscription i f sv) = map f (rows_of i sv)"
proof -
  have "filter (\<lambda>s. fs_id s = i) (update_rows (\<lambda>s. fs_id s = i) f ss) = map f (filter (\<lambda>s. fs_id s = i) ss)" for ss
    by (induction ss) (simp_all add: update_rows_def assms)
  then show ?thesis by (simp add: rows_of_def change_subscription_def set_subscriptions_def)
qed

lemma rows_of_audit [simp]: "rows_of i (flow_audit t act et ei who sv) = rows_of i sv"
  by (simp add: rows_of_def)

text \<open>A report of nothing moved takes one off the budget.\<close>

lemma note_nothing_moved:
  assumes r: "reports a s (dv_server d)" and live: "fs_parked_at s = None" and link: "ou_report ou = Answer ()"
    and none: "\<not> (ok \<and> 0 < (case n of None \<Rightarrow> 0 | Some k \<Rightarrow> k))"
  shows "\<exists>d' s'. note_progress c a ou s n ok False d = Some d' \<and> rows_of (fs_id s) (dv_server d') = [s'] \<and>
     budget c s' < budget c s"
proof -
  let ?u = "fs_unmoved_runs s + 1"
  have perm: "require_permission a ''flow_run.record'' None = Inr ()" using r by (simp add: reports_def require_permission_def)
  have row: "rows_of (fs_id s) (dv_server d) = [s]" using r by (simp add: reports_def)
  have m: "(False \<or> ok \<and> 0 < (case n of None \<Rightarrow> 0 | Some k \<Rightarrow> k)) = False" using none by simp
  show ?thesis
  proof (cases "rc_max_unmoved_runs c \<le> ?u")
    case True
    let ?f = "\<lambda>r. r\<lparr>fs_unmoved_runs := ?u, fs_parked_at := Some (ou_finished ou), fs_parked_reason := Some ''found_work_and_moved_nothing''\<rparr>"
    have "report_driver_state (dv_server d) a (ou_finished ou) (fs_id s) ?u True (Some ''found_work_and_moved_nothing'') =
       Inr (flow_audit (ac_tenant_id a) ''flow_subscription.parked'' ''flow_subscription'' (fs_id s) (label a)
         (change_subscription (fs_id s) ?f (dv_server d)))"
      using perm reports_found [OF r] live by (simp add: report_driver_state_def)
    then have "note_progress c a ou s n ok False d = Some (d\<lparr>dv_server := flow_audit (ac_tenant_id a) ''flow_subscription.parked''
        ''flow_subscription'' (fs_id s) (label a) (change_subscription (fs_id s) ?f (dv_server d))\<rparr>)"
      unfolding note_progress_def Let_def m if_False by (simp add: True [simplified] link send_def)
    moreover have "rows_of (fs_id s) (change_subscription (fs_id s) ?f (dv_server d)) = [?f s]"
      by (subst rows_of_change) (simp_all add: row)
    moreover have "budget c (?f s) < budget c s" using live by (simp add: budget_def)
    ultimately show ?thesis by auto
  next
    case False
    let ?f = "\<lambda>r. r\<lparr>fs_unmoved_runs := ?u\<rparr>"
    have "report_driver_state (dv_server d) a (ou_finished ou) (fs_id s) ?u False None =
       Inr (change_subscription (fs_id s) ?f (dv_server d))"
      using perm reports_found [OF r] live by (simp add: report_driver_state_def)
    then have "note_progress c a ou s n ok False d = Some (d\<lparr>dv_server := change_subscription (fs_id s) ?f (dv_server d)\<rparr>)"
      unfolding note_progress_def Let_def m if_False by (simp add: False [simplified] link send_def)
    moreover have "rows_of (fs_id s) (change_subscription (fs_id s) ?f (dv_server d)) = [?f s]"
      by (subst rows_of_change) (simp_all add: row)
    moreover have "budget c (?f s) < budget c s" using live False by (simp add: budget_def)
    ultimately show ?thesis by auto
  qed
qed

lemma rows_opened: "send link (open_flow_run sv a et j trg t n) = Answer (run, sv') \<Longrightarrow> rows_of i sv' = rows_of i sv"
  by (auto simp: send_Answer rows_of_def dest: open_confined)

lemma rows_closed: "send link (close_flow_run sv a k st t n e) = Answer (run, sv') \<Longrightarrow> rows_of i sv' = rows_of i sv"
  by (auto simp: send_Answer rows_of_def dest: close_confined)

lemma rows_report_idle: "report_idle c a ou s trg why d = (r, d') \<Longrightarrow> rows_of i (dv_server d') = rows_of i (dv_server d)"
  unfolding report_idle_def Let_def
  by (auto split: reply.splits prod.splits if_splits simp: rows_opened [where i = i] rows_closed [where i = i] change_memory_def)

lemma rows_failed_check:
  "record_failed_check a ou s trg e d = (r, d') \<Longrightarrow> rows_of i (dv_server d') = rows_of i (dv_server d)"
  unfolding record_failed_check_def
  by (auto split: reply.splits prod.splits simp: rows_opened [where i = i] rows_closed [where i = i])

text \<open>Turns had and turns left never add up to more than before.\<close>

definition within_budget :: "runner_config \<Rightarrow> uuid \<Rightarrow> drive \<Rightarrow> drive \<Rightarrow> bool" where
  "within_budget c i d d' \<longleftrightarrow> (\<forall>s. rows_of i (dv_server d) = [s] \<longrightarrow>
     (\<exists>s'. rows_of i (dv_server d') = [s'] \<and>
        agent_turns i (dv_server d') + budget c s' \<le> agent_turns i (dv_server d) + budget c s))"

lemma within_budget_refl [simp]: "within_budget c i d d"
  by (simp add: within_budget_def)

lemma within_budget_trans: "within_budget c i d d1 \<Longrightarrow> within_budget c i d1 d2 \<Longrightarrow> within_budget c i d d2"
  unfolding within_budget_def by (meson le_trans)

lemma within_budget_same:
  "rows_of i (dv_server d') = rows_of i (dv_server d) \<Longrightarrow> agent_turns i (dv_server d') \<le> agent_turns i (dv_server d) \<Longrightarrow>
   within_budget c i d d'"
  by (auto simp: within_budget_def)

lemma failed_check_budget:
  assumes "failed_check c a ou s trg e d = (r, d')" and "reports a s (dv_server d)" and "fs_parked_at s = None"
    and "ou_report ou = Answer ()"
  shows "within_budget c (fs_id s) d d'"
proof -
  from note_nothing_moved [OF assms(2-4), of False None c] obtain d1 s' where
    n: "note_progress c a ou s None False False d = Some d1" and s': "rows_of (fs_id s) (dv_server d1) = [s']" "budget c s' < budget c s"
    by auto
  with assms(1) have "record_failed_check a ou s trg e d1 = (r, d')" by (simp add: failed_check_def)
  then have "rows_of (fs_id s) (dv_server d') = [s']" using rows_failed_check s'(1) by metis
  moreover have "agent_turns (fs_id s) (dv_server d') = agent_turns (fs_id s) (dv_server d)"
    using assms(1) by (rule agent_turns_failed_check)
  ultimately show ?thesis using s'(2) assms(2) by (simp add: within_budget_def reports_def)
qed

lemma take_turn_budget:
  assumes "take_turn c a ou s trg n d = (r, d')" and rep: "reports a s (dv_server d)" and live: "fs_parked_at s = None"
    and st: "stalled ou s" and q: "case queue_location s of (path, query) \<Rightarrow> ou_queue ou path query = Answer n"
  shows "within_budget c (fs_id s) d d'"
  using assms(1)
proof (cases rule: take_turn_cases)
  case 1
  then show ?thesis by simp
next
  case (2 run sv)
  then show ?thesis using st by (auto simp: stalled_def)
next
  case (3 run sv rq res)
  let ?d1 = "d\<lparr>dv_server := sv\<rparr>"
  have rep1: "reports a s (dv_server ?d1)" using rep rows_opened [OF 3(1)] by (simp add: reports_def)
  have "\<exists>ok e. ou_agent ou rq = Answer \<lparr>rs_ok = ok, rs_items_advanced = None, rs_error = e\<rparr>"
    using st unfolding stalled_def by blast
  then have items: "rs_items_advanced res = None" using 3(2) by auto
  have link: "ou_report ou = Answer ()" and unbroken: "\<not> breaks_off ou s" using st by (auto simp: stalled_def split: prod.splits)
  have turns: "agent_turns (fs_id s) (dv_server d') \<le> agent_turns (fs_id s) (dv_server d) + 1"
    using agent_turns_take [OF assms(1), of "fs_id s"] by simp
  have p: "progressed ou s n = False" and "(case recounted ou s n res of None \<Rightarrow> 0 | Some k \<Rightarrow> k) = 0"
    using st q items by (auto simp: stalled_def split: prod.splits reply.splits)
  then have "\<not> (rs_ok res \<and> 0 < (case recounted ou s n res of None \<Rightarrow> 0 | Some k \<Rightarrow> k))" by simp
  from note_nothing_moved [OF rep1 live link this, of c] obtain d2 s' where
    n2: "note_progress c a ou s (recounted ou s n res) (rs_ok res) (progressed ou s n) ?d1 = Some d2"
    and s': "rows_of (fs_id s) (dv_server d2) = [s']" "budget c s' < budget c s"
    unfolding p by auto
  have "d' = d2 \<or> (\<exists>link k sv' run' st t m e. send link (close_flow_run (dv_server d2) a k st t m e) = Answer (run', sv') \<and>
      d' = d2\<lparr>dv_server := sv'\<rparr>)"
    using 3(3) unfolding settle_turn_unbroken [OF unbroken] n2 option.case(2)
    by (simp split: reply.splits prod.splits) blast+
  then have "rows_of (fs_id s) (dv_server d') = [s']" using s'(1) by (auto simp: rows_closed)
  with s'(2) turns rep show ?thesis by (auto simp: within_budget_def reports_def)
qed

lemma dispatch_budget:
  assumes "dispatch c a ou s trg d = (r, d')" and "reports a s (dv_server d)" and "fs_parked_at s = None" and "stalled ou s"
  shows "within_budget c (fs_id s) d d'"
  using assms(1)
proof (cases rule: dispatch_cases)
  case (2 e)
  then show ?thesis using failed_check_budget assms(2-4) by (auto simp: stalled_def)
next
  case (3 why)
  then show ?thesis
    by (intro within_budget_same) (simp_all add: rows_report_idle agent_turns_report_idle [where i = "fs_id s"])
next
  case (4 n)
  then show ?thesis using take_turn_budget [OF _ assms(2-4)] by simp
qed simp

lemma dispatch_budget_other:
  assumes "dispatch c a ou s trg d = (r, d')" and "i \<noteq> fs_id s"
  shows "within_budget c i d d'"
  using dispatch_confined [OF assms(1)] agent_turns_dispatch [OF assms(1), of i] assms(2)
  by (intro within_budget_same) (auto simp: confined_def server_confined_def)

lemma poll_budget:
  assumes "poll_subscriptions c a w trg now ss d = (r, d')" and "distinct (map fs_id ss)"
    and "\<And>s. s \<in> set ss \<Longrightarrow> fs_id s = i \<Longrightarrow> reports a s (dv_server d) \<and> stalled (w i) s"
  shows "within_budget c i d d'"
  using assms
proof (induction ss arbitrary: r d)
  case (Cons s ss)
  show ?case
  proof (cases "due (dv_memory d) s now")
    case False
    with Cons.prems Cons.IH [of d r] show ?thesis by auto
  next
    case True
    let ?d1 = "mark_polled now (fs_id s) d"
    have d1: "dv_server ?d1 = dv_server d" by (simp add: change_memory_def)
    obtain o' d2 where dis: "dispatch c a (w (fs_id s)) s trg ?d1 = (o', d2)"
      by (cases "dispatch c a (w (fs_id s)) s trg ?d1")
    have "within_budget c i ?d1 d2"
    proof (cases "fs_id s = i")
      case True
      then have "reports a s (dv_server ?d1)" "stalled (w (fs_id s)) s" using Cons.prems(3) [of s] d1 by simp_all
      then show ?thesis using dispatch_budget [OF dis] True \<open>due (dv_memory d) s now\<close> by (simp add: due_iff)
    next
      case False
      then show ?thesis using dispatch_budget_other [OF dis, of i] by simp
    qed
    then have b: "within_budget c i d d2" unfolding within_budget_def d1 .
    have later: "reports a t (dv_server d2) \<and> stalled (w i) t" if "t \<in> set ss" "fs_id t = i" for t
    proof -
      have "i \<noteq> fs_id s" using Cons.prems(2) that by (auto simp: image_iff)
      then have "rows_of i (dv_server d2) = rows_of i (dv_server d)"
        using dispatch_marks(2) [OF dis] by (simp add: left_alone_def)
      then show ?thesis using Cons.prems(3) [of t] that by (simp add: reports_def)
    qed
    from Cons.prems(1) True dis have "d' = d2 \<or> (\<exists>r'. poll_subscriptions c a w trg now ss d2 = (r', d'))"
      by (auto split: dispatched.splits if_splits prod.splits simp: Let_def)
    then show ?thesis
    proof (elim disjE exE)
      fix r' assume "poll_subscriptions c a w trg now ss d2 = (r', d')"
      from Cons.IH [OF this _ later] Cons.prems(2) b show ?thesis by (auto intro: within_budget_trans)
    qed (use b in simp)
  qed
qed simp

lemma rows_of_distinct:
  assumes "distinct (map fs_id (sv_subscriptions sv))" and "s \<in> set (sv_subscriptions sv)"
  shows "rows_of (fs_id s) sv = [s]"
proof -
  have "filter (\<lambda>r. fs_id r = fs_id s) ss = [s]" if "distinct (map fs_id ss)" "s \<in> set ss" for ss
    using that
  proof (induction ss)
    case (Cons r ss)
    show ?case
    proof (cases "fs_id r = fs_id s")
      case True
      then have "r = s" using Cons.prems by (auto simp: image_iff)
      moreover have "filter (\<lambda>r. fs_id r = fs_id s) ss = []"
        using Cons.prems(1) True by (auto simp: filter_empty_conv image_iff)
      ultimately show ?thesis by simp
    qed (use Cons in auto)
  qed simp
  with assms show ?thesis by (simp add: rows_of_def)
qed

lemma stalled_terms: "terms_of s = terms_of t \<Longrightarrow> stalled ou s = stalled ou t"
  by (simp add: stalled_def terms_of_def queue_location_def)

lemma pass_budget:
  assumes "poll_once c a trg p d = (r, d')" and "distinct (map fs_id (sv_subscriptions (dv_server d)))"
    and "x \<in> set (sv_subscriptions (dv_server d))" and "fs_tenant_id x = ac_tenant_id a"
    and "has_permission a ''flow_run.record'' None" and "stalled (pw_world p (fs_id x)) x"
  shows "within_budget c (fs_id x) d d'"
  using assms(1)
proof (cases rule: poll_once_cases)
  case 1
  then show ?thesis by simp
next
  case 2
  have "reports a s (dv_server d) \<and> stalled (pw_world p (fs_id x)) s"
    if "s \<in> set (listed a (dv_server d))" "fs_id s = fs_id x" for s
  proof -
    have "s = x" using that assms(2,3) by (auto simp: listed_def distinct_map inj_on_def)
    then show ?thesis using rows_of_distinct [OF assms(2,3)] assms(4-6) by (simp add: reports_def)
  qed
  moreover have "distinct (map fs_id (sort_key fs_entity_type (listed a (dv_server d))))"
    using assms(2) by (simp add: listed_def distinct_map inj_on_def)
  ultimately show ?thesis using poll_budget [OF 2] by auto
qed

lemma fs_ids_of_terms: "map terms_of ss' = map terms_of ss \<Longrightarrow> map fs_id ss' = map fs_id ss"
  by (drule arg_cong [of _ _ "map fst"]) (simp add: fst_terms comp_def)

lemma passes_budget:
  assumes "distinct (map fs_id (sv_subscriptions (dv_server d)))" and "x \<in> set (sv_subscriptions (dv_server d))"
    and "fs_tenant_id x = ac_tenant_id a" and "has_permission a ''flow_run.record'' None"
    and "\<And>p. p \<in> set ps \<Longrightarrow> stalled (pw_world p (fs_id x)) x"
  shows "within_budget c (fs_id x) d (run_passes c a trg ps d)"
  using assms
proof (induction ps arbitrary: d x)
  case (Cons p ps)
  obtain r d' where p: "poll_once c a trg p d = (r, d')" by (cases "poll_once c a trg p d")
  have terms: "map terms_of (sv_subscriptions (dv_server d')) = map terms_of (sv_subscriptions (dv_server d))"
    using poll_once_keeps [OF p] by blast
  then have ids: "distinct (map fs_id (sv_subscriptions (dv_server d')))" using Cons.prems(1) fs_ids_of_terms by metis
  have "terms_of x \<in> set (map terms_of (sv_subscriptions (dv_server d')))" unfolding terms using Cons.prems(2) by simp
  then obtain y where y: "y \<in> set (sv_subscriptions (dv_server d'))" "terms_of y = terms_of x" by auto
  then have same: "fs_id y = fs_id x" "fs_tenant_id y = fs_tenant_id x" by (simp_all add: terms_of_def)
  have "within_budget c (fs_id y) d' (run_passes c a trg ps d')"
    by (rule Cons.IH [OF ids y(1)]) (use Cons.prems same stalled_terms [OF y(2)] in auto)
  moreover have "within_budget c (fs_id x) d d'" using pass_budget [OF p] Cons.prems by simp
  ultimately show ?case by (simp add: p same within_budget_trans)
qed simp

text \<open>C20: A queue that does not drain stops costing. However many passes go by in which nothing of a subscription
  moves, it is given at most as many agent turns as its unmoved count leaves before the park, and none once it
  is parked.\<close>

theorem a_stuck_queue_stops_costing:
  assumes "distinct (map fs_id (sv_subscriptions (dv_server d)))" and "x \<in> set (sv_subscriptions (dv_server d))"
    and "fs_tenant_id x = ac_tenant_id a" and "has_permission a ''flow_run.record'' None"
    and "\<And>p. p \<in> set ps \<Longrightarrow> stalled (pw_world p (fs_id x)) x"
  shows "agent_turns (fs_id x) (dv_server (run_passes c a trg ps d)) \<le> agent_turns (fs_id x) (dv_server d) +
    (if fs_parked_at x \<noteq> None then 0 else max 1 (rc_max_unmoved_runs c - fs_unmoved_runs x))"
proof -
  have "within_budget c (fs_id x) d (run_passes c a trg ps d)" using assms by (rule passes_budget)
  then show ?thesis using rows_of_distinct [OF assms(1,2)] by (auto simp: within_budget_def budget_def)
qed

end
