(* ===== verification/Flow_Starvation.thy ===== *)
theory Flow_Starvation
  imports Flow_Stops
begin

text \<open>
  The other side of the turns: when the passes over a tenant come no more often than the cadence, the first
  subscription of the listing is due again each time, and as long as it has work no other is looked at. With two
  workspaces to show it, and the witnesses of the properties of \<open>Flow_Laws\<close> and \<open>Flow_Stops\<close>.
\<close>

text \<open>There is work, and the turn leaves less of it.\<close>

definition busy :: "outside \<Rightarrow> flow_subscription \<Rightarrow> bool" where
  "busy ou s \<longleftrightarrow> ou_workflow ou (fs_entity_type s) (entity_kind_of (fs_entity_type s)) = Answer True \<and>
     ou_report ou = Answer () \<and> \<not> breaks_off ou s \<and>
     (case queue_location s of (path, query) \<Rightarrow> \<exists>n m. ou_queue ou path query = Answer n \<and>
        ou_queue_after ou path query = Answer m \<and> m < n)"

lemma busy_terms: "terms_of s = terms_of t \<Longrightarrow> busy ou s = busy ou t"
  by (simp add: busy_def terms_of_def queue_location_def)

lemma note_moved:
  assumes r: "reports a s (dv_server d)" and live: "fs_parked_at s = None" and link: "ou_report ou = Answer ()"
    and "0 < rc_max_unmoved_runs c"
  shows "\<exists>d'. note_progress c a ou s n ok True d = Some d' \<and> rows_of (fs_id s) (dv_server d') = [s\<lparr>fs_unmoved_runs := 0\<rparr>]"
proof -
  let ?f = "\<lambda>r. r\<lparr>fs_unmoved_runs := 0 :: nat\<rparr>"
  have perm: "require_permission a ''flow_run.record'' None = Inr ()" using r by (simp add: reports_def require_permission_def)
  have "report_driver_state (dv_server d) a (ou_finished ou) (fs_id s) 0 False None =
     Inr (change_subscription (fs_id s) ?f (dv_server d))"
    using perm reports_found [OF r] live by (simp add: report_driver_state_def)
  then have "note_progress c a ou s n ok True d = Some (d\<lparr>dv_server := change_subscription (fs_id s) ?f (dv_server d)\<rparr>)"
    using assms(4) link by (simp add: note_progress_def send_def)
  moreover have "rows_of (fs_id s) (change_subscription (fs_id s) ?f (dv_server d)) = [?f s]"
    by (subst rows_of_change) (use r in \<open>simp_all add: reports_def\<close>)
  ultimately show ?thesis by auto
qed

text \<open>A busy subscription ends the pass and stays unparked.\<close>

lemma busy_dispatch:
  assumes "dispatch c a ou s trg d = (r, d')" and b: "busy ou s" and rep: "reports a s (dv_server d)"
    and live: "fs_parked_at s = None" and M: "0 < rc_max_unmoved_runs c"
  shows "(r = Escaped \<or> (\<exists>run. r = Done run True)) \<and> (\<exists>s'. rows_of (fs_id s) (dv_server d') = [s'] \<and> fs_parked_at s' = None)"
proof -
  obtain path query n m where loc: "queue_location s = (path, query)" and q: "ou_queue ou path query = Answer n"
    "ou_queue_after ou path query = Answer m" "m < n"
    using b by (auto simp: busy_def split: prod.splits)
  have link: "ou_report ou = Answer ()" and unbroken: "\<not> breaks_off ou s" using b by (simp_all add: busy_def)
  have turn: "take_turn c a ou s trg n d = (r, d')"
    using assms(1) b loc q by (simp add: dispatch_def busy_def)
  then have r: "r = Escaped \<or> (\<exists>run. r = Done run True)"
    unfolding take_turn_def Let_def settle_turn_unbroken [OF unbroken]
    by (auto split: reply.splits prod.splits if_splits option.splits)
  have row: "rows_of (fs_id s) (dv_server d) = [s]" using rep by (simp add: reports_def)
  from turn have "\<exists>s'. rows_of (fs_id s) (dv_server d') = [s'] \<and> fs_parked_at s' = None"
  proof (cases rule: take_turn_cases)
    case 1
    with row live show ?thesis by simp
  next
    case (2 run sv)
    with row live show ?thesis by (simp add: rows_opened)
  next
    case (3 run sv rq res)
    let ?d1 = "d\<lparr>dv_server := sv\<rparr>"
    have "reports a s (dv_server ?d1)" using rep rows_opened [OF 3(1)] by (simp add: reports_def)
    moreover have p: "progressed ou s n = True" using q loc by simp
    ultimately obtain d2 where n2: "note_progress c a ou s (recounted ou s n res) (rs_ok res) (progressed ou s n) ?d1 = Some d2"
      "rows_of (fs_id s) (dv_server d2) = [s\<lparr>fs_unmoved_runs := 0\<rparr>]"
      using note_moved [OF _ live link M] unfolding p by blast
    have "d' = d2 \<or> (\<exists>link k sv' run' st t m e. send link (close_flow_run (dv_server d2) a k st t m e) = Answer (run', sv') \<and>
        d' = d2\<lparr>dv_server := sv'\<rparr>)"
      using 3(3) unfolding settle_turn_unbroken [OF unbroken] n2(1) option.case(2)
      by (simp split: reply.splits prod.splits) blast+
    with n2(2) live show ?thesis by (auto simp: rows_closed)
  qed
  with r show ?thesis by blast
qed

text \<open>The order of the listing is fixed by what the runner never changes.\<close>

lemma map_terms_sort:
  "map terms_of (sort_key fs_entity_type ss) = sort_key (\<lambda>t. fst (fst (snd (snd t)))) (map terms_of ss)"
proof -
  have "map terms_of (insort_key fs_entity_type s ss) = insort_key (\<lambda>t. fst (fst (snd (snd t)))) (terms_of s) (map terms_of ss)" for s ss
    by (induction ss) (simp_all add: terms_of_def)
  then show ?thesis by (induction ss) simp_all
qed

lemma map_terms_listed:
  "map terms_of (listed a sv) = filter (\<lambda>(i, t, e, c, en). t = ac_tenant_id a \<and> en) (map terms_of (sv_subscriptions sv))"
proof -
  have "map terms_of (filter (\<lambda>s. fs_tenant_id s = ac_tenant_id a \<and> fs_enabled s) ss) =
      filter (\<lambda>(i, t, e, c, en). t = ac_tenant_id a \<and> en) (map terms_of ss)" for ss
    by (induction ss) (simp_all add: terms_of_def)
  then show ?thesis by (simp add: listed_def)
qed

lemma listing_terms:
  "map terms_of (sv_subscriptions sv') = map terms_of (sv_subscriptions sv) \<Longrightarrow>
   map terms_of (sort_key fs_entity_type (listed a sv')) = map terms_of (sort_key fs_entity_type (listed a sv))"
  by (simp add: map_terms_sort map_terms_listed)

lemma busy_pass:
  assumes p: "poll_once c a trg p d = (r, d')" and ids: "distinct (map fs_id (sv_subscriptions (dv_server d)))"
    and first: "sort_key fs_entity_type (listed a (dv_server d)) = x # rest" and live: "fs_parked_at x = None"
    and perm: "has_permission a ''flow_run.record'' None" and M: "0 < rc_max_unmoved_runs c"
    and b: "busy (pw_world p (fs_id x)) x" and due: "due (dv_memory d) x (pw_now p)"
  shows "(\<exists>x'. rows_of (fs_id x) (dv_server d') = [x'] \<and> fs_parked_at x' = None) \<and>
     (polled_at d' (fs_id x) = polled_at d (fs_id x) \<or> polled_at d' (fs_id x) = Some (pw_now p)) \<and>
     (\<forall>i. i \<noteq> fs_id x \<longrightarrow> left_alone i d d')"
  using p
proof (cases rule: poll_once_cases)
  case 1
  have x: "x \<in> set (sv_subscriptions (dv_server d))" using arg_cong [OF first, of set] by (auto simp: listed_def)
  with 1 ids live show ?thesis by (auto simp: rows_of_distinct left_alone_def)
next
  case 2
  have "x \<in> set (listed a (dv_server d))" using arg_cong [OF first, of set] by auto
  then have x: "x \<in> set (sv_subscriptions (dv_server d))" and t: "fs_tenant_id x = ac_tenant_id a" by (auto simp: listed_def)
  let ?d1 = "mark_polled (pw_now p) (fs_id x) d"
  have rep: "reports a x (dv_server ?d1)" using rows_of_distinct [OF ids x] t perm by (simp add: reports_def change_memory_def)
  obtain o' d2 where dis: "dispatch c a (pw_world p (fs_id x)) x trg ?d1 = (o', d2)"
    by (cases "dispatch c a (pw_world p (fs_id x)) x trg ?d1")
  note bd = busy_dispatch [OF dis b rep live M]
  have "d' = d2" using 2 due dis bd unfolding first by (auto split: if_splits)
  then show ?thesis using bd dispatch_marks [OF dis] by auto
qed

text \<open>A busy queue starves the rest. If the passes over a tenant are at least its cadence apart, a subscription listed
  first that always has work takes every turn: no other subscription of the tenant is ever looked at, however
  many passes go by.\<close>

theorem a_busy_queue_starves_the_rest:
  assumes "distinct (map fs_id (sv_subscriptions (dv_server d)))"
    and "sort_key fs_entity_type (listed a (dv_server d)) = x # rest" and "fs_parked_at x = None"
    and "has_permission a ''flow_run.record'' None" and "0 < rc_max_unmoved_runs c"
    and "\<And>p. p \<in> set ps \<Longrightarrow> busy (pw_world p (fs_id x)) x"
    and "sorted_wrt (\<lambda>p q. pw_now p + cadence_of x \<le> pw_now q) ps"
    and "\<And>p. p \<in> set ps \<Longrightarrow> due (dv_memory d) x (pw_now p)" and "i \<noteq> fs_id x"
  shows "left_alone i d (run_passes c a trg ps d)"
  using assms
proof (induction ps arbitrary: d x rest)
  case (Cons p ps)
  obtain r d' where p: "poll_once c a trg p d = (r, d')" by (cases "poll_once c a trg p d")
  note bp = busy_pass [OF p Cons.prems(1-5) Cons.prems(6) [of p] Cons.prems(8) [of p], simplified]
  then obtain y where y: "rows_of (fs_id x) (dv_server d') = [y]" "fs_parked_at y = None" by blast
  have terms: "map terms_of (sv_subscriptions (dv_server d')) = map terms_of (sv_subscriptions (dv_server d))"
    using poll_once_keeps [OF p] by blast
  then have ids: "distinct (map fs_id (sv_subscriptions (dv_server d')))" using Cons.prems(1) fs_ids_of_terms by metis
  obtain z rest' where z: "sort_key fs_entity_type (listed a (dv_server d')) = z # rest'" "terms_of z = terms_of x"
    using listing_terms [OF terms, of a] unfolding Cons.prems(2) by (cases "sort_key fs_entity_type (listed a (dv_server d'))") auto
  have "z \<in> set (sv_subscriptions (dv_server d'))" using arg_cong [OF z(1), of set] by (auto simp: listed_def)
  from rows_of_distinct [OF ids this] z(2) y(1) have zy: "z = y" "fs_id z = fs_id x" by (simp_all add: terms_of_def)
  have cad: "cadence_of z = cadence_of x" using z(2) by (simp add: terms_of_def cadence_of_def)
  have due: "due (dv_memory d') z (pw_now q)" if "q \<in> set ps" for q
  proof -
    have "pw_now p + cadence_of x \<le> pw_now q" using Cons.prems(7) that by simp
    moreover have "due (dv_memory d) x (pw_now q)" using Cons.prems(8) that by simp
    ultimately show ?thesis using bp y(2) zy cad by (auto simp: due_iff polled_at_def split: option.splits)
  qed
  have "left_alone i d' (run_passes c a trg ps d')"
    by (rule Cons.IH [OF ids z(1)])
      (use Cons.prems y(2) zy due cad busy_terms [OF z(2)] in auto)
  then show ?case using bp Cons.prems(9) by (auto simp: p dest: left_alone_trans)
qed (simp add: left_alone_def)

subsection \<open>Workspaces\<close>

definition demo_subscription :: "uuid \<Rightarrow> string \<Rightarrow> flow_subscription" where
  "demo_subscription i e = \<lparr>fs_id = i, fs_tenant_id = ''t'', fs_entity_type = e, fs_queue_filter = [(''status'', JStr ''submitted'')],
     fs_cadence_seconds = 300, fs_enabled = True, fs_api_key_id = Some ''k'', fs_unmoved_runs = 0, fs_parked_at = None,
     fs_parked_reason = None, fs_driver_skill = ''flow'', fs_created_by = None\<rparr>"

definition demo_runner :: actor where
  "demo_runner = \<lparr>ac_tenant_id = ''t'', ac_kind = ''service'', ac_role = ''service'', ac_user_id = None, ac_employee_id = None,
     ac_credential_id = Some ''k'', ac_permissions = [''flow_run.record''], ac_write_scope = Some [],
     ac_principal_kind = ''hosted_flow_agent''\<rparr>"

definition demo_drive :: drive where
  "demo_drive = \<lparr>dv_memory = (\<lambda>_. blank_memory), dv_server = \<lparr>
     sv_identity = \<lparr>id_tenants = [], id_users = [], id_sessions = [], id_keys = [], id_roles = [],
       id_subscriptions = [demo_subscription ''a'' ''employee_leave'', demo_subscription ''b'' ''expense_claim''],
       id_custom_capabilities = [], id_audit = []\<rparr>,
     sv_skills = [], sv_definitions = [], sv_runs = [], sv_uuids = (\<lambda>n. replicate (Suc n) CHR ''r''), sv_next = 0\<rparr>\<rparr>"

definition demo_config :: runner_config where
  "demo_config = \<lparr>rc_max_unmoved_runs = 3, rc_idle_report_seconds = 3600, rc_max_records_per_run = 10\<rparr>"

text \<open>Five records wait; a turn leaves \<open>m\<close> of them.\<close>

definition demo_outside :: "nat \<Rightarrow> timestamp \<Rightarrow> outside" where
  "demo_outside m now = \<lparr>ou_now = now, ou_finished = now + 60, ou_workflow = (\<lambda>_ _. Answer True),
     ou_queue = (\<lambda>_ _. Answer 5), ou_marks = (\<lambda>_. Answer (0, 0)),
     ou_agent = (\<lambda>_. Answer \<lparr>rs_ok = True, rs_items_advanced = None, rs_error = None\<rparr>),
     ou_queue_after = (\<lambda>_ _. Answer m), ou_marks_after = (\<lambda>_. Answer (0, 0)),
     ou_open = Answer (), ou_report = Answer (), ou_close = Answer ()\<rparr>"

definition demo_pass :: "nat \<Rightarrow> timestamp \<Rightarrow> pass" where
  "demo_pass m now = \<lparr>pw_now = now, pw_listing = Answer (), pw_world = (\<lambda>_. demo_outside m now)\<rparr>"

lemma demo_facts:
  "distinct (map fs_id (sv_subscriptions (dv_server demo_drive)))" "has_permission demo_runner ''flow_run.record'' None"
  "listed demo_runner (dv_server demo_drive) = [demo_subscription ''a'' ''employee_leave'', demo_subscription ''b'' ''expense_claim'']"
  "sv_subscriptions (dv_server demo_drive) = [demo_subscription ''a'' ''employee_leave'', demo_subscription ''b'' ''expense_claim'']"
  "ac_tenant_id demo_runner = ''t''"
  by code_simp+

theorem every_queue_gets_its_turn_witness:
  "\<exists>t. polled_at (run_passes demo_config demo_runner ''cadence'' [demo_pass 4 0, demo_pass 4 100] demo_drive) ''b'' = Some t"
proof -
  have "all_complete demo_config demo_runner ''cadence'' [demo_pass 4 0, demo_pass 4 100] demo_drive" by code_simp
  moreover have "due (dv_memory demo_drive) (demo_subscription ''b'' ''expense_claim'') (pw_now (demo_pass 4 0))" by code_simp
  ultimately have "\<exists>q \<in> set [demo_pass 4 0, demo_pass 4 100]. polled_at (run_passes demo_config demo_runner ''cadence''
      [demo_pass 4 0, demo_pass 4 100] demo_drive) (fs_id (demo_subscription ''b'' ''expense_claim'')) = Some (pw_now q)"
    by (intro every_queue_gets_its_turn)
      (auto simp: demo_facts demo_pass_def demo_subscription_def cadence_of_def)
  then show ?thesis by (auto simp: demo_subscription_def)
qed

theorem a_stuck_queue_stops_costing_witness:
  "agent_turns ''a'' (dv_server (run_passes demo_config demo_runner ''cadence'' (replicate 50 (demo_pass 5 0)) demo_drive)) \<le> 3"
proof -
  let ?x = "demo_subscription ''a'' ''employee_leave''"
  have "agent_turns (fs_id ?x) (dv_server (run_passes demo_config demo_runner ''cadence'' (replicate 50 (demo_pass 5 0)) demo_drive)) \<le>
      agent_turns (fs_id ?x) (dv_server demo_drive) +
      (if fs_parked_at ?x \<noteq> None then 0 else max 1 (rc_max_unmoved_runs demo_config - fs_unmoved_runs ?x))"
    by (rule a_stuck_queue_stops_costing)
      (auto simp: demo_facts demo_subscription_def demo_pass_def demo_outside_def stalled_def marks_moved_def
        progress_marks_def split: prod.split)
  then show ?thesis by (simp add: demo_subscription_def demo_config_def agent_turns_def demo_drive_def)
qed

theorem a_busy_queue_starves_the_rest_witness:
  "\<forall>n. polled_at (run_passes demo_config demo_runner ''cadence'' (map (\<lambda>k. demo_pass 4 (300 * int k)) [0..<n]) demo_drive) ''b'' = None"
proof
  fix n
  let ?ps = "map (\<lambda>k. demo_pass 4 (300 * int k)) [0..<n]" and ?x = "demo_subscription ''a'' ''employee_leave''"
  have "sort_key fs_entity_type (listed demo_runner (dv_server demo_drive)) = [?x, demo_subscription ''b'' ''expense_claim'']"
    by code_simp
  moreover have "sorted_wrt (\<lambda>p q. pw_now p + cadence_of ?x \<le> pw_now q) ?ps"
    by (auto simp: sorted_wrt_iff_nth_less demo_pass_def cadence_of_def demo_subscription_def)
  moreover have "busy (pw_world p (fs_id ?x)) ?x" if "p \<in> set ?ps" for p
    using that by (auto simp: demo_pass_def demo_outside_def busy_def split: prod.split)
  moreover have "due (dv_memory demo_drive) ?x t" for t
    by (simp add: due_def demo_drive_def blank_memory_def demo_subscription_def)
  ultimately have "left_alone ''b'' demo_drive (run_passes demo_config demo_runner ''cadence'' ?ps demo_drive)"
    by (intro a_busy_queue_starves_the_rest [of _ _ ?x])
      (auto simp: demo_facts demo_config_def, simp_all add: demo_subscription_def)
  then show "polled_at (run_passes demo_config demo_runner ''cadence'' ?ps demo_drive) ''b'' = None"
    by (simp add: left_alone_def polled_at_def demo_drive_def blank_memory_def)
qed

end
