(* ===== verification/Flow_Examples.thy ===== *)
theory Flow_Examples
  imports Flow_Fleet Flow_Enrolment Flow_Starvation
begin

text \<open>
  A fleet of one workspace, with and without a state file: the witnesses of the properties of \<open>Flow_Fleet\<close>.
\<close>

definition demo_keys :: "nat \<Rightarrow> string" where
  "demo_keys n = replicate (Suc n) CHR ''k''"

definition demo_fleet_config :: "bool \<Rightarrow> fleet_config" where
  "demo_fleet_config state_file = \<lparr>fg_tenants = [], fg_credentials_file = False, fg_bootstrap_token = True, fg_state_file = state_file\<rparr>"

definition demo_surroundings :: surroundings where
  "demo_surroundings = \<lparr>sr_credentials = Answer [], sr_tenants = Answer (), sr_credential = (\<lambda>_. Answer ()), sr_disk_writable = True\<rparr>"

definition demo_fleet :: fleet where
  "demo_fleet = \<lparr>fl_drivers = [], fl_disk = None, fl_server = enrolled, fl_draws = 0\<rparr>"

lemma demo_round:
  "is_ok (reconcile (\<lambda>s. s) demo_keys (demo_fleet_config True) demo_surroundings demo_fleet)"
  "is_ok (reconcile (\<lambda>s. s) demo_keys (demo_fleet_config False) demo_surroundings demo_fleet)"
  by code_simp+

lemma demo_well: "all_well demo_surroundings" "tenants_distinct (fl_server demo_fleet)" "fg_bootstrap_token (demo_fleet_config b)"
proof -
  have "distinct (map tn_id (id_tenants (sv_identity (fl_server demo_fleet))))" by code_simp
  then show "tenants_distinct (fl_server demo_fleet)" by (simp add: tenants_distinct_def)
qed (simp_all add: all_well_def demo_surroundings_def demo_fleet_config_def)

theorem the_state_file_keeps_the_fleet_witness:
  "\<exists>st1. reconcile (\<lambda>s. s) demo_keys (demo_fleet_config True) demo_surroundings demo_fleet = Inr st1 \<and>
     reconcile (\<lambda>s. s) demo_keys (demo_fleet_config True) demo_surroundings st1 = Inr st1"
proof -
  obtain st1 where st1: "reconcile (\<lambda>s. s) demo_keys (demo_fleet_config True) demo_surroundings demo_fleet = Inr st1"
    using demo_round(1) by (auto simp: is_ok_iff)
  have "fg_state_file (demo_fleet_config True)" "demo_keys n \<noteq> []" for n by (simp_all add: demo_fleet_config_def demo_keys_def)
  from the_state_file_keeps_the_fleet [OF st1 demo_well(1,3) this(1) demo_well(2) this(2)] st1 show ?thesis by blast
qed

theorem without_a_state_file_every_round_starts_over_witness:
  "\<exists>st1. reconcile (\<lambda>s. s) demo_keys (demo_fleet_config False) demo_surroundings demo_fleet = Inr st1 \<and> 0 < fl_draws st1"
proof -
  obtain st1 where st1: "reconcile (\<lambda>s. s) demo_keys (demo_fleet_config False) demo_surroundings demo_fleet = Inr st1"
    using demo_round(2) by (auto simp: is_ok_iff)
  have t: "''t'' \<in> set (enrolled_tenants (fl_server demo_fleet))" by code_simp
  have "fl_draws demo_fleet < fl_draws st1 \<and> (\<exists>k m. map_of (fl_drivers st1) ''t'' = Some (k, m) \<and>
     (\<forall>s now. due m s now \<longleftrightarrow> fs_parked_at s = None))"
    by (rule without_a_state_file_every_round_starts_over [OF st1 demo_well(1,3) _ demo_well(2) t])
      (simp_all add: demo_fleet_config_def credentials_given_def demo_fleet_def)
  then show ?thesis using st1 by (auto simp: demo_fleet_def)
qed

end
