(* ===== verification/Work_Items.thy ===== *)
theory Work_Items
  imports Documents
begin

text \<open>
  Todos (\<open>app/api/objects.py\<close>): what a todo or an approval fact may point at, the one assignment
  routine with its guards, its bulk form in both error modes, and the assignee's update.

  A request's ids are spelled the way the database prints them. The \<open>round_no\<close> and
  \<open>sequence_no\<close> of a todo's metadata, the only metadata the server reads, are \<open>None\<close> when absent
  or null and whole numbers otherwise. A nullable field of a PATCH is an option twice: \<open>None\<close> is
  unset, \<open>Some None\<close> an explicit null. \<open>now\<close> is the clock of the request.
\<close>

record todo_request =
  tr_employee_id :: uuid
  tr_entity_type :: string
  tr_entity_id :: uuid
  tr_title :: string
  tr_description :: "string option"
  tr_todo_type :: "string option"
  tr_status :: string
  tr_due_at :: "timestamp option"
  tr_created_by :: "string option"
  tr_round_no :: "int option"
  tr_sequence_no :: "int option"

record todo_update =
  tu_status :: "string option option"
  tu_completed_by :: "string option option"
  tu_due_at :: "timestamp option option"
  tu_title :: "string option option"
  tu_description :: "string option option"

subsection \<open>What a todo or an approval fact may point at\<close>

definition TODO_TARGET_MODELS :: "(string \<times> model) list" where
  "TODO_TARGET_MODELS = map (\<lambda>(m, family). (df_object_type family, m)) DOCUMENT_FAMILIES"

definition scoped_write_target :: "db \<Rightarrow> uuid \<Rightarrow> string \<Rightarrow> uuid \<Rightarrow> row option" where
  "scoped_write_target db tenant_id entity_type entity_id =
     (case map_of TODO_TARGET_MODELS entity_type of
        Some m \<Rightarrow> find_row (\<lambda>r. row_model r = m \<and> row_tenant_id r = tenant_id \<and> row_id r = entity_id) (db_rows db)
      | None \<Rightarrow> find_row (\<lambda>r. row_model r = BusinessObject \<and> row_tenant_id r = tenant_id \<and> row_id r = entity_id \<and>
                  row_object_type r = entity_type) (db_rows db))"

text \<open>\<open>require_hosted_write_scope\<close> on a target that may be missing: \<open>getattr(None, field, None)\<close> is
  \<open>None\<close> for every field.\<close>

definition require_scope_on_target :: "actor \<Rightarrow> string \<Rightarrow> row option \<Rightarrow> string list \<Rightarrow> unit result" where
  "require_scope_on_target a entity_type target ignore =
     (case target of
        Some r \<Rightarrow> require_hosted_write_scope a entity_type r ignore
      | None \<Rightarrow>
          (case ac_write_scope a of
             None \<Rightarrow> Inr ()
           | Some scope \<Rightarrow>
               (case map_of scope entity_type of
                  None \<Rightarrow> Inl (HttpError 403 ''no_enabled_subscription'')
                | Some queue_filter \<Rightarrow>
                    each (\<lambda>(field, expected). if field \<in> set ignore then Inr ()
                            else ensure (case expected of JList options \<Rightarrow> JNull \<in> set options | _ \<Rightarrow> expected = JNull)
                                   403 ''outside_this_subscription'') queue_filter)))"

definition get_active_business_object_or_404 :: "db \<Rightarrow> uuid \<Rightarrow> uuid \<Rightarrow> row result" where
  "get_active_business_object_or_404 db tenant_id i =
     bindE (get_scoped_or_404 db BusinessObject tenant_id i) (\<lambda>r.
     bindE (ensure (row_deleted_at r = None) 404 ''not_found'') (\<lambda>_. Inr r))"

definition ensure_referenced_entity_exists :: "db \<Rightarrow> uuid \<Rightarrow> string \<Rightarrow> uuid \<Rightarrow> string list \<Rightarrow> row result" where
  "ensure_referenced_entity_exists db tenant_id entity_type entity_id allowed =
     bindE (ensure (entity_type \<in> set allowed) 400 ''unsupported_entity_type'') (\<lambda>_.
     case map_of TODO_TARGET_MODELS entity_type of
       Some m \<Rightarrow> get_active_document_or_404 db m tenant_id entity_id
     | None \<Rightarrow>
         if entity_type = ''approval_target'' \<or> entity_type = ''business_object''
         then get_active_business_object_or_404 db tenant_id entity_id
         else get_scoped_or_404 db Project tenant_id entity_id)"

definition ensure_todo_entity_exists :: "db \<Rightarrow> uuid \<Rightarrow> string \<Rightarrow> uuid \<Rightarrow> row result" where
  "ensure_todo_entity_exists db tenant_id entity_type entity_id =
     ensure_referenced_entity_exists db tenant_id entity_type entity_id TODO_ENTITY_TYPES"

subsection \<open>Assigning\<close>

text \<open>\<open>a or b\<close> on strings\<close>

definition or_else :: "string option \<Rightarrow> string option \<Rightarrow> string option" where
  "or_else x y = (if x = None \<or> x = Some [] then y else x)"

definition same_todo_assignment :: "todo \<Rightarrow> todo_request \<Rightarrow> bool" where
  "same_todo_assignment existing p \<longleftrightarrow>
     or_else (td_todo_type existing) None = or_else (tr_todo_type p) None \<and>
     td_title existing = tr_title p \<and>
     td_round_no existing = tr_round_no p \<and> td_sequence_no existing = tr_sequence_no p"

definition decided_at_step :: "uuid \<Rightarrow> string \<Rightarrow> uuid \<Rightarrow> int \<Rightarrow> int \<Rightarrow> approval \<Rightarrow> bool" where
  "decided_at_step tenant_id entity_type entity_id round_no sequence_no p \<longleftrightarrow>
     ap_tenant_id p = tenant_id \<and> ap_entity_type p = entity_type \<and> ap_entity_id p = entity_id \<and>
     int (ap_round_no p) = round_no \<and> int (ap_sequence_no p) = sequence_no \<and>
     ap_action p \<in> set DECIDED_APPROVAL_ACTIONS"

definition ensure_step_undecided :: "db \<Rightarrow> uuid \<Rightarrow> todo_request \<Rightarrow> unit result" where
  "ensure_step_undecided db tenant_id p =
     (case (tr_round_no p, tr_sequence_no p) of
        (Some round_no, Some sequence_no) \<Rightarrow>
          if tr_status p = ''completed'' \<or> tr_todo_type p = Some ''rework'' then Inr ()
          else ensure (\<not> list_ex (decided_at_step tenant_id (tr_entity_type p) (tr_entity_id p) round_no sequence_no)
                          (db_approvals db)) 409 ''this_step_is_already_decided''
      | _ \<Rightarrow> Inr ())"

definition open_for :: "uuid \<Rightarrow> uuid \<Rightarrow> string \<Rightarrow> uuid \<Rightarrow> todo \<Rightarrow> bool" where
  "open_for tenant_id employee_id entity_type entity_id t \<longleftrightarrow>
     open_on tenant_id entity_type entity_id t \<and> td_employee_id t = employee_id"

definition todo_of_request :: "timestamp \<Rightarrow> actor \<Rightarrow> uuid \<Rightarrow> todo_request \<Rightarrow> todo" where
  "todo_of_request now a i p = \<lparr>
     td_id = i, td_tenant = ac_tenant_id a, td_employee_id = tr_employee_id p, td_entity_type = tr_entity_type p,
     td_entity_id = tr_entity_id p, td_title = tr_title p, td_description = tr_description p,
     td_todo_type = tr_todo_type p, td_state = tr_status p, td_due_at = tr_due_at p,
     td_created_by = Some (attributed a (tr_created_by p)),
     td_completed_at = (if tr_status p = ''completed'' then Some now else None),
     td_completed_by = (if tr_status p = ''completed''
        then Some (attributed a (or_else (tr_created_by p) (Some (tr_employee_id p)))) else None),
     td_round_no = tr_round_no p, td_sequence_no = tr_sequence_no p\<rparr>"

definition add_todo :: "actor \<Rightarrow> todo \<Rightarrow> db \<Rightarrow> db" where
  "add_todo a t db =
     record_audit (ac_tenant_id a) ''todo.created'' ''todo'' (td_id t) (Some (label a))
       (tick (db\<lparr>db_todos := db_todos db @ [t]\<rparr>))"

text \<open>
  Sessions do not autoflush: the search for an open todo runs against what the transaction last
  flushed, \<open>stored\<close>, while the row it finds is the session's own object with its unflushed changes.
\<close>

definition loaded :: "db \<Rightarrow> todo \<Rightarrow> todo" where
  "loaded db t = (case find_row (\<lambda>x. td_id x = td_id t) (db_todos db) of Some x \<Rightarrow> x | None \<Rightarrow> t)"

definition assign_todo ::
    "timestamp \<Rightarrow> todo list \<Rightarrow> db \<Rightarrow> actor \<Rightarrow> todo_request \<Rightarrow> (todo \<times> bool \<times> db) result" where
  "assign_todo now stored db a p =
     bindE (get_scoped_or_404 db Employee (ac_tenant_id a) (tr_employee_id p)) (\<lambda>_.
     bindE (ensure_todo_entity_exists db (ac_tenant_id a) (tr_entity_type p) (tr_entity_id p)) (\<lambda>_.
     bindE (if ac_write_scope a = None then Inr ()
            else require_scope_on_target a (tr_entity_type p)
                   (scoped_write_target db (ac_tenant_id a) (tr_entity_type p) (tr_entity_id p)) [''status'']) (\<lambda>_.
     bindE (ensure_step_undecided db (ac_tenant_id a) p) (\<lambda>_.
     case find_row (open_for (ac_tenant_id a) (tr_employee_id p) (tr_entity_type p) (tr_entity_id p)) stored of
       Some found \<Rightarrow>
         if same_todo_assignment (loaded db found) p then Inr (loaded db found, False, db)
         else Inl (HttpError 409 ''an_open_todo_already_exists'')
     | None \<Rightarrow>
         let t = todo_of_request now a (fresh_id db) p in Inr (t, True, add_todo a t db)))))"

definition create_todo :: "timestamp \<Rightarrow> db \<Rightarrow> actor \<Rightarrow> todo_request \<Rightarrow> (todo \<times> db) result" where
  "create_todo now db a p =
     bindE (if ac_employee_id a = None \<or> ac_employee_id a \<noteq> Some (tr_employee_id p)
            then require_permission a ''todos.assign'' None else Inr ()) (\<lambda>_.
     bindE (assign_todo now (db_todos db) db a p) (\<lambda>(t, created, db'). Inr (t, db')))"

subsection \<open>Assigning many\<close>

datatype todo_outcome = Created uuid | Unchanged uuid | Failed http_error

text \<open>\<open>except (HTTPException, IntegrityError)\<close>: any other exception ends the request.\<close>

definition is_caught :: "http_error \<Rightarrow> bool" where
  "is_caught e \<longleftrightarrow> http_status e \<noteq> 500 \<or> http_reason e = ''IntegrityError''"

definition outcome_of :: "todo \<Rightarrow> bool \<Rightarrow> todo_outcome" where
  "outcome_of t created = (if created then Created (td_id t) else Unchanged (td_id t))"

fun is_created :: "todo_outcome \<Rightarrow> bool" where
  "is_created (Created _) = True" | "is_created (Unchanged _) = False" | "is_created (Failed _) = False"

fun is_unchanged :: "todo_outcome \<Rightarrow> bool" where
  "is_unchanged (Created _) = False" | "is_unchanged (Unchanged _) = True" | "is_unchanged (Failed _) = False"

fun is_failed :: "todo_outcome \<Rightarrow> bool" where
  "is_failed (Created _) = False" | "is_failed (Unchanged _) = False" | "is_failed (Failed _) = True"

record bulk_summary =
  bs_total :: nat
  bs_created :: nat
  bs_unchanged :: nat
  bs_failed :: nat

record bulk_outcome =
  bo_applied :: bool
  bo_summary :: bulk_summary
  bo_results :: "todo_outcome list"

definition summary :: "todo_request list \<Rightarrow> todo_outcome list \<Rightarrow> bulk_summary" where
  "summary items results = \<lparr>bs_total = length items, bs_created = length (filter is_created results),
     bs_unchanged = length (filter is_unchanged results), bs_failed = length (filter is_failed results)\<rparr>"

text \<open>The loop of the one savepoint: the results so far, and the tables when nothing failed.\<close>

fun assign_until_failure ::
    "timestamp \<Rightarrow> actor \<Rightarrow> db \<Rightarrow> todo_request list \<Rightarrow> (todo_outcome list \<times> db option) result" where
  "assign_until_failure now a db [] = Inr ([], Some db)"
| "assign_until_failure now a db (p # ps) =
     (case assign_todo now (db_todos db) db a p of
        Inr (t, created, db') \<Rightarrow>
          bindE (assign_until_failure now a db' ps) (\<lambda>(rs, end). Inr (outcome_of t created # rs, end))
      | Inl e \<Rightarrow> if is_caught e then Inr ([Failed e], None) else Inl e)"

definition assign_all_or_nothing ::
    "timestamp \<Rightarrow> db \<Rightarrow> actor \<Rightarrow> todo_request list \<Rightarrow> (bulk_outcome \<times> db) result" where
  "assign_all_or_nothing now db a items =
     bindE (assign_until_failure now a db items) (\<lambda>(results, end).
     case end of
       None \<Rightarrow> Inr (\<lparr>bo_applied = False, bo_summary = summary items results, bo_results = results\<rparr>, db)
     | Some db' \<Rightarrow> Inr (\<lparr>bo_applied = True, bo_summary = summary items results, bo_results = results\<rparr>, db'))"

text \<open>The loop with a savepoint per item.\<close>

fun assign_each :: "timestamp \<Rightarrow> actor \<Rightarrow> db \<Rightarrow> todo_request list \<Rightarrow> (todo_outcome list \<times> db) result" where
  "assign_each now a db [] = Inr ([], db)"
| "assign_each now a db (p # ps) =
     (case assign_todo now (db_todos db) db a p of
        Inr (t, created, db') \<Rightarrow>
          bindE (assign_each now a db' ps) (\<lambda>(rs, end). Inr (outcome_of t created # rs, end))
      | Inl e \<Rightarrow>
          if is_caught e then bindE (assign_each now a db ps) (\<lambda>(rs, end). Inr (Failed e # rs, end)) else Inl e)"

definition assign_what_it_can ::
    "timestamp \<Rightarrow> db \<Rightarrow> actor \<Rightarrow> todo_request list \<Rightarrow> (bulk_outcome \<times> db) result" where
  "assign_what_it_can now db a items =
     bindE (assign_each now a db items) (\<lambda>(results, db').
     let s = summary items results
     in Inr (\<lparr>bo_applied = 0 < bs_created s \<or> 0 < bs_unchanged s, bo_summary = s, bo_results = results\<rparr>, db'))"

text \<open>Without \<open>applied\<close> the session is closed without a commit.\<close>

definition bulk_create_todos ::
    "timestamp \<Rightarrow> db \<Rightarrow> actor \<Rightarrow> todo_request list \<Rightarrow> string \<Rightarrow> (bulk_outcome \<times> db) result" where
  "bulk_create_todos now db a items on_error =
     bindE (require_permission a ''todos.assign'' None) (\<lambda>_.
     bindE (if on_error = ''abort'' then assign_all_or_nothing now db a items
            else assign_what_it_can now db a items) (\<lambda>(outcome, db').
     if \<not> bo_applied outcome then Inr (outcome, db)
     else Inr (outcome, record_audit (ac_tenant_id a) ''todo.bulk_assigned'' ''tenant'' (ac_tenant_id a)
                          (Some (label a)) db')))"

subsection \<open>The assignee's update\<close>

definition get_todo_or_404 :: "db \<Rightarrow> uuid \<Rightarrow> uuid \<Rightarrow> todo result" where
  "get_todo_or_404 db tenant_id i =
     (case find_row (\<lambda>t. td_id t = i) (db_todos db) of
        None \<Rightarrow> Inl (HttpError 404 ''not_found'')
      | Some t \<Rightarrow> if td_tenant t \<noteq> tenant_id \<or> \<not> todo_visible db t then Inl (HttpError 404 ''not_found'') else Inr t)"

text \<open>The index \<open>todos_open_entity_assignee_uk\<close>: one open todo per person per record.\<close>

definition todo_key :: "todo \<Rightarrow> uuid \<times> uuid \<times> string \<times> uuid" where
  "todo_key t = (td_tenant t, td_employee_id t, td_entity_type t, td_entity_id t)"

definition is_open :: "todo \<Rightarrow> bool" where
  "is_open t \<longleftrightarrow> td_state t = ''open''"

definition one_open_todo_each :: "todo list \<Rightarrow> bool" where
  "one_open_todo_each ts \<longleftrightarrow> distinct (map todo_key (filter is_open ts))"

definition given :: "'a option option \<Rightarrow> 'a option \<Rightarrow> 'a option" where
  "given u old = (case u of None \<Rightarrow> old | Some x \<Rightarrow> x)"

text \<open>The attribute assignments, for a status and a title that are not null.\<close>

definition updated_todo :: "timestamp \<Rightarrow> actor \<Rightarrow> todo_update \<Rightarrow> todo \<Rightarrow> todo" where
  "updated_todo now a u t =
     (let t1 = t\<lparr>td_due_at := given (tu_due_at u) (td_due_at t),
                 td_title := (case tu_title u of Some (Some s) \<Rightarrow> s | _ \<Rightarrow> td_title t),
                 td_description := given (tu_description u) (td_description t)\<rparr>
      in case tu_status u of
           Some (Some s) \<Rightarrow>
             if s = ''completed''
             then t1\<lparr>td_state := s, td_completed_at := Some now, td_completed_by := Some (attributed a
                       (or_else (case tu_completed_by u of Some c \<Rightarrow> c | None \<Rightarrow> None) (td_completed_by t)))\<rparr>
             else t1\<lparr>td_state := s, td_completed_at := None, td_completed_by := None\<rparr>
         | _ \<Rightarrow> (case tu_completed_by u of Some c \<Rightarrow> t1\<lparr>td_completed_by := Some (attributed a c)\<rparr> | None \<Rightarrow> t1))"

definition is_cancel_only :: "todo_update \<Rightarrow> bool" where
  "is_cancel_only u \<longleftrightarrow> tu_status u = Some (Some ''cancelled'') \<and> tu_completed_by u = None \<and> tu_due_at u = None \<and>
     tu_title u = None \<and> tu_description u = None"

definition update_todo :: "timestamp \<Rightarrow> db \<Rightarrow> actor \<Rightarrow> uuid \<Rightarrow> todo_update \<Rightarrow> (todo \<times> db) result" where
  "update_todo now db a todo_id u =
     bindE (get_todo_or_404 db (ac_tenant_id a) todo_id) (\<lambda>t.
     bindE (if is_cancel_only u \<and> td_created_by t = Some (label a) \<and> has_permission a ''todos.assign'' None
            then Inr ()
            else bindE (require_permission a ''todos.complete_own'' None) (\<lambda>_.
                 enforce_member_employee a (Some (td_employee_id t)))) (\<lambda>_.
     bindE (ensure (tu_status u \<noteq> Some None \<and> tu_title u \<noteq> Some None) 500 ''IntegrityError'') (\<lambda>_.
     let t' = updated_todo now a u t;
         db1 = db\<lparr>db_todos := update_rows (\<lambda>x. td_id x = todo_id) (\<lambda>_. t') (db_todos db)\<rparr>;
         db2 = (if td_state t' \<noteq> td_state t \<and> td_state t' \<in> {''completed'', ''cancelled''}
                then record_audit (ac_tenant_id a) (''todo.'' @ td_state t') ''todo'' (td_id t) (Some (label a)) db1
                else db1)
     in bindE (ensure (one_open_todo_each (db_todos db1)) 500 ''IntegrityError'') (\<lambda>_. Inr (t', db2)))))"

end
