(* ===== verification/Approvals.thy ===== *)
theory Approvals
  imports Work_Items
begin

text \<open>
  Approval facts (\<open>app/api/objects.py\<close>, \<open>create_approval_record\<close>): the guards in front of a fact, the
  fact itself, what it closes, and the round transition that may ride in the same request.

  \<open>now\<close> is the clock of the request, \<open>clock_skew\<close> the tolerance of \<open>ACTED_AT_CLOCK_SKEW\<close>, both in
  seconds. A fact's comment, source and metadata are not kept; of the metadata only the keys are
  looked at.
\<close>

record handoff_request =
  ho_employee_id :: uuid
  ho_title :: string
  ho_description :: "string option"
  ho_todo_type :: "string option"
  ho_due_at :: "timestamp option"
  ho_round_no :: "int option"
  ho_sequence_no :: "int option"

record approval_request =
  ar_entity_type :: string
  ar_entity_id :: uuid
  ar_round_no :: nat
  ar_sequence_no :: nat
  ar_action :: string
  ar_approver_id :: "string option"
  ar_approver_role :: "string option"
  ar_metadata_keys :: "string list"
  ar_document_status :: "string option"
  ar_handoff :: "handoff_request option"
  ar_acted_at :: "timestamp option"

definition OPERATOR_CONFLICT_CLOSURE_KEY :: string where
  "OPERATOR_CONFLICT_CLOSURE_KEY = ''oryh_operator_approval_conflict_closure''"

subsection \<open>The guards\<close>

definition ensure_no_operator_closure_marker :: "string list \<Rightarrow> unit result" where
  "ensure_no_operator_closure_marker keys =
     ensure (OPERATOR_CONFLICT_CLOSURE_KEY \<notin> set keys) 400 ''reserved_metadata_key''"

definition at_node :: "uuid \<Rightarrow> approval_request \<Rightarrow> approval \<Rightarrow> bool" where
  "at_node tenant_id p x \<longleftrightarrow> ap_tenant_id x = tenant_id \<and> ap_entity_type x = ar_entity_type p \<and>
     ap_entity_id x = ar_entity_id p \<and> ap_round_no x = ar_round_no p \<and> ap_sequence_no x = ar_sequence_no p"

definition is_decision :: "approval \<Rightarrow> bool" where
  "is_decision x \<longleftrightarrow> ap_action x \<in> set DECIDED_APPROVAL_ACTIONS"

definition ensure_node_undecided :: "db \<Rightarrow> uuid \<Rightarrow> approval_request \<Rightarrow> unit result" where
  "ensure_node_undecided db tenant_id p =
     (if ar_action p \<notin> set DECIDED_APPROVAL_ACTIONS then Inr ()
      else bindE (ensure (\<not> list_ex (\<lambda>x. at_node tenant_id p x \<and> ap_historical_conflict_closed x) (db_approvals db))
                    409 ''a_closed_historical_conflict'') (\<lambda>_.
           ensure (\<not> list_ex (\<lambda>x. at_node tenant_id p x \<and> is_decision x \<and> \<not> ap_historical_conflict_closed x)
                      (db_approvals db)) 409 ''this_step_was_already_decided''))"

definition require_submission_before_decision :: "approval_request \<Rightarrow> unit result" where
  "require_submission_before_decision p =
     ensure (\<not> (ar_action p \<in> set DECIDED_APPROVAL_ACTIONS \<and> ar_sequence_no p \<le> 1)) 422 ''sequence_1_is_the_submission''"

definition ACTED_AT_CLOCK_SKEW :: timestamp where
  "ACTED_AT_CLOCK_SKEW = 5 * 60"

definition resolve_acted_at :: "timestamp \<Rightarrow> timestamp option \<Rightarrow> row \<Rightarrow> timestamp result" where
  "resolve_acted_at now supplied target =
     (case supplied of
        None \<Rightarrow> Inr now
      | Some acted \<Rightarrow>
          bindE (ensure (acted \<le> now + ACTED_AT_CLOCK_SKEW) 422 ''acted_at_is_in_the_future'') (\<lambda>_.
          bindE (ensure (row_created_at target \<le> acted) 422 ''acted_at_is_before_the_record_existed'') (\<lambda>_.
          Inr acted)))"

subsection \<open>What a decision closes\<close>

definition complete_own_approval_todo :: "timestamp \<Rightarrow> actor \<Rightarrow> string \<Rightarrow> uuid \<Rightarrow> db \<Rightarrow> uuid option \<times> db" where
  "complete_own_approval_todo now a entity_type entity_id db =
     (case ac_employee_id a of
        None \<Rightarrow> (None, db)
      | Some employee_id \<Rightarrow>
          (case find_row (\<lambda>t. open_for (ac_tenant_id a) employee_id entity_type entity_id t \<and>
                              td_todo_type t = Some ''approval'') (db_todos db) of
             None \<Rightarrow> (None, db)
           | Some t \<Rightarrow>
               (Some (td_id t),
                record_audit (ac_tenant_id a) ''todo.completed'' ''todo'' (td_id t) (Some (label a))
                  (db\<lparr>db_todos := update_rows (\<lambda>x. td_id x = td_id t)
                     (\<lambda>x. x\<lparr>td_state := ''completed'', td_completed_at := Some now,
                            td_completed_by := Some (attributed a None)\<rparr>) (db_todos db)\<rparr>))))"

subsection \<open>The rest of the round transition\<close>

text \<open>
  What follows runs in the transaction that closed the round's work, and that work is not flushed yet:
  the sweeps of a status move select on \<open>stored\<close>, the todos as flushed, and write the session's
  objects. \<open>apply_status_change_over\<close> is \<open>apply_status_change\<close> with that distinction made.
\<close>

definition cancel_stored_todos :: "todo list \<Rightarrow> actor \<Rightarrow> string \<Rightarrow> uuid \<Rightarrow> db \<Rightarrow> db" where
  "cancel_stored_todos stored a entity_type entity_id db =
     (let ids = map td_id (filter (open_on (ac_tenant_id a) entity_type entity_id) stored);
          sel = (\<lambda>t. td_id t \<in> set ids)
      in audit_todos a ''todo.cancelled'' (filter sel (db_todos db))
           (db\<lparr>db_todos := update_rows sel (\<lambda>t. t\<lparr>td_state := ''cancelled''\<rparr>) (db_todos db)\<rparr>))"

definition retire_stored_work ::
    "todo list \<Rightarrow> actor \<Rightarrow> machine \<Rightarrow> string \<Rightarrow> uuid \<Rightarrow> string \<Rightarrow> string \<Rightarrow> string list option \<Rightarrow> db \<Rightarrow> db" where
  "retire_stored_work stored a machine entity_type entity_id current new_status editable db =
     (if new_status = current then db
      else if \<not> is_terminal_state machine new_status then db
      else if (case editable of None \<Rightarrow> False | Some es \<Rightarrow> new_status \<in> set es) then db
      else cancel_stored_todos stored a entity_type entity_id db)"

definition apply_status_change_over :: "todo list \<Rightarrow> db \<Rightarrow> actor \<Rightarrow> row \<Rightarrow> string \<Rightarrow> (machine \<times> db) result" where
  "apply_status_change_over stored db a document new_status =
     bindE (family_of (row_model document)) (\<lambda>family.
     bindE (case df_advance_permission family of None \<Rightarrow> Inr () | Some verb \<Rightarrow> require_permission a verb None) (\<lambda>_.
     bindE (require_hosted_write_scope a (df_object_type family) document []) (\<lambda>_.
     let machine_type = df_machine_type family document in
     bindE (get_builtin_machine (db_definitions db) (row_tenant_id document) machine_type) (\<lambda>machine.
     bindE (validate_transition machine (row_status document) new_status) (\<lambda>_.
     let db1 = record_audit (row_tenant_id document) (df_audit_prefix family @ ''.status_changed'')
                 (df_object_type family) (row_id document) (Some (label a)) db in
     bindE (editable_states machine machine_type) (\<lambda>editable.
     Inr (machine, retire_stored_work stored a machine (df_object_type family) (row_id document)
                     (row_status document) new_status (Some editable) db1)))))))"

text \<open>The machine of a family document is looked up by the family's \<open>object_type\<close> here, not by the
  row's kind.\<close>

definition finished_state :: "db \<Rightarrow> uuid \<Rightarrow> row \<Rightarrow> string \<Rightarrow> bool result" where
  "finished_state db tenant_id target state =
     (case map_of DOCUMENT_FAMILIES (row_model target) of
        Some family \<Rightarrow>
          bindE (get_builtin_machine (db_definitions db) tenant_id (df_object_type family)) (\<lambda>machine.
          if \<not> is_terminal_state machine state then Inr False
          else bindE (editable_states machine (df_object_type family)) (\<lambda>editable. Inr (state \<notin> set editable)))
      | None \<Rightarrow>
          Inr (if row_model target = BusinessObject
               then (case get_business_object_machine (db_definitions db) tenant_id (row_object_type target) of
                       None \<Rightarrow> False | Some machine \<Rightarrow> is_terminal_state machine state)
               else False))"

definition with_status :: "string \<Rightarrow> row \<Rightarrow> row" where
  "with_status s r = r\<lparr>row_status := s\<rparr>"

definition move_target :: "todo list \<Rightarrow> db \<Rightarrow> actor \<Rightarrow> row \<Rightarrow> string \<Rightarrow> db result" where
  "move_target stored db a target new_status =
     (case map_of DOCUMENT_FAMILIES (row_model target) of
        Some family \<Rightarrow>
          bindE (apply_status_change_over stored db a target new_status) (\<lambda>(machine, db1).
          Inr (set_row (row_model target) (row_id target) (with_status new_status) db1))
      | None \<Rightarrow>
          if row_model target = BusinessObject then
            bindE (require_permission a ''business_object.advance'' (Some (row_object_type target))) (\<lambda>_.
            bindE (validate_business_object_status (db_definitions db) (ac_tenant_id a) (row_object_type target)
                     (Some (row_status target)) new_status) (\<lambda>_.
            let db1 = (case get_business_object_machine (db_definitions db) (ac_tenant_id a) (row_object_type target) of
                         None \<Rightarrow> db
                       | Some machine \<Rightarrow> retire_stored_work stored a machine ''business_object'' (row_id target)
                                           (row_status target) new_status None db)
            in Inr (set_row (row_model target) (row_id target) (with_status new_status) db1)))
          else Inl (HttpError 422 ''no_status_the_server_governs''))"

definition todo_of_handoff :: "approval_request \<Rightarrow> handoff_request \<Rightarrow> todo_request" where
  "todo_of_handoff p h = \<lparr>
     tr_employee_id = ho_employee_id h, tr_entity_type = ar_entity_type p, tr_entity_id = ar_entity_id p,
     tr_title = ho_title h, tr_description = ho_description h, tr_todo_type = ho_todo_type h,
     tr_status = ''open'', tr_due_at = ho_due_at h, tr_created_by = None,
     tr_round_no = ho_round_no h, tr_sequence_no = ho_sequence_no h\<rparr>"

definition apply_round_transition :: "timestamp \<Rightarrow> todo list \<Rightarrow> db \<Rightarrow> actor \<Rightarrow> approval_request \<Rightarrow> row \<Rightarrow> db result" where
  "apply_round_transition now stored db a p target =
     bindE (case ar_document_status p of None \<Rightarrow> Inr db | Some s \<Rightarrow> move_target stored db a target s) (\<lambda>db1.
     case ar_handoff p of
       None \<Rightarrow> Inr db1
     | Some h \<Rightarrow>
         bindE (case ar_document_status p of
                  None \<Rightarrow> Inr ()
                | Some s \<Rightarrow> bindE (finished_state db1 (ac_tenant_id a) target s) (\<lambda>finished.
                              ensure (\<not> finished) 409 ''a_handoff_there_could_never_be_acted_on'')) (\<lambda>_.
         bindE (assign_todo now stored db1 a (todo_of_handoff p h)) (\<lambda>(t, created, db2). Inr db2)))"

subsection \<open>Recording a fact\<close>

text \<open>The unique constraints of \<open>approval_records\<close>: \<open>approval_records_action_uk\<close>, the natural key, and
  \<open>approval_records_one_decision_uk\<close>, one standing decision per node.\<close>

definition node_of :: "approval \<Rightarrow> uuid \<times> string \<times> uuid \<times> nat \<times> nat" where
  "node_of x = (ap_tenant_id x, ap_entity_type x, ap_entity_id x, ap_round_no x, ap_sequence_no x)"

definition standing :: "approval \<Rightarrow> bool" where
  "standing x \<longleftrightarrow> is_decision x \<and> \<not> ap_historical_conflict_closed x"

definition clash :: "approval \<Rightarrow> approval \<Rightarrow> bool" where
  "clash x y \<longleftrightarrow> node_of x = node_of y \<and> (ap_action x = ap_action y \<or> standing x \<and> standing y)"

definition add_approval :: "approval \<Rightarrow> db \<Rightarrow> db result" where
  "add_approval x db =
     bindE (ensure (\<not> list_ex (clash x) (db_approvals db)) 500 ''IntegrityError'') (\<lambda>_.
     Inr (tick (db\<lparr>db_approvals := db_approvals db @ [x]\<rparr>)))"

definition approval_of_request :: "timestamp \<Rightarrow> actor \<Rightarrow> uuid \<Rightarrow> approval_request \<Rightarrow> approval" where
  "approval_of_request acted_at a i p = \<lparr>
     ap_id = i, ap_tenant_id = ac_tenant_id a, ap_entity_type = ar_entity_type p, ap_entity_id = ar_entity_id p,
     ap_round_no = ar_round_no p, ap_sequence_no = ar_sequence_no p, ap_action = ar_action p,
     ap_historical_conflict_closed = False, ap_approver_id = Some (attributed a (ar_approver_id p)),
     ap_approver_role = ar_approver_role p, ap_acted_at = acted_at\<rparr>"

definition close_round_work :: "timestamp \<Rightarrow> actor \<Rightarrow> approval_request \<Rightarrow> db \<Rightarrow> uuid option \<times> db" where
  "close_round_work now a p db =
     (if ar_action p = ''returned''
      then (None, cancel_todos_for a (ar_entity_type p) (ar_entity_id p) (Some ''approval'') db)
      else if ar_action p \<in> set DECIDED_APPROVAL_ACTIONS
      then complete_own_approval_todo now a (ar_entity_type p) (ar_entity_id p) db
      else (None, db))"

definition recorded_fact :: "db \<Rightarrow> uuid \<Rightarrow> approval_request \<Rightarrow> approval option" where
  "recorded_fact db tenant_id p =
     find_row (\<lambda>x. at_node tenant_id p x \<and> ap_action x = ar_action p \<and> \<not> ap_historical_conflict_closed x) (db_approvals db)"

definition admit_fact :: "timestamp \<Rightarrow> db \<Rightarrow> actor \<Rightarrow> approval_request \<Rightarrow> (row \<times> timestamp) result" where
  "admit_fact now db a p =
     bindE (require_permission a ''approval.record'' None) (\<lambda>_.
     bindE (ensure (ar_action p = ''submitted'' \<longrightarrow> bypasses_permissions a \<or> ac_write_scope a \<noteq> None)
              403 ''submitted_is_the_servers_fact'') (\<lambda>_.
     bindE (if ac_write_scope a = None then Inr ()
            else require_scope_on_target a (ar_entity_type p)
                   (scoped_write_target db (ac_tenant_id a) (ar_entity_type p) (ar_entity_id p)) [''status'']) (\<lambda>_.
     bindE (ensure_referenced_entity_exists db (ac_tenant_id a) (ar_entity_type p) (ar_entity_id p)
              APPROVAL_ENTITY_TYPES) (\<lambda>target.
     bindE (resolve_acted_at now (ar_acted_at p) target) (\<lambda>acted_at.
     bindE (require_submission_before_decision p) (\<lambda>_.
     bindE (ensure_no_operator_closure_marker (ar_metadata_keys p)) (\<lambda>_.
     Inr (target, acted_at))))))))"

text \<open>The answer: the fact, and the todos its recording completed.\<close>

definition create_approval_record ::
    "timestamp \<Rightarrow> db \<Rightarrow> actor \<Rightarrow> approval_request \<Rightarrow> (approval \<times> uuid list \<times> db) result" where
  "create_approval_record now db a p =
     bindE (admit_fact now db a p) (\<lambda>(target, acted_at).
     case recorded_fact db (ac_tenant_id a) p of
       Some existing \<Rightarrow>
         bindE (apply_round_transition now (db_todos db) db a p target) (\<lambda>db1. Inr (existing, [], db1))
     | None \<Rightarrow>
         bindE (ensure_node_undecided db (ac_tenant_id a) p) (\<lambda>_.
         let x = approval_of_request acted_at a (fresh_id db) p in
         bindE (add_approval x db) (\<lambda>db1.
         let (closed, db2) = close_round_work now a p db1 in
         bindE (apply_round_transition now (db_todos db1) db2 a p target) (\<lambda>db3.
         Inr (x, (case closed of None \<Rightarrow> [] | Some i \<Rightarrow> [i]),
              record_audit (ac_tenant_id a) ''approval.recorded'' (ar_entity_type p) (ar_entity_id p)
                (Some (label a)) db3)))))"

end
