(* ===== verification/Approval_Laws.thy ===== *)
theory Approval_Laws
  imports Approvals
begin

text \<open>
  What the work-item and approval handlers keep: the trail only grows and holds at most one standing
  decision per node, nobody holds two open todos on one record, a batch of assignments is all or
  nothing and can be repeated.
\<close>

subsection \<open>The shape of an assignment\<close>

lemma add_todo_fields [store_simps]:
  "db_actor (add_todo a t db) = db_actor db" "db_definitions (add_todo a t db) = db_definitions db"
  "db_rows (add_todo a t db) = db_rows db" "db_approvals (add_todo a t db) = db_approvals db"
  "db_todos (add_todo a t db) = db_todos db @ [t]" "get_row (add_todo a t db) m i = get_row db m i"
  by (simp_all add: add_todo_def store_simps get_row_def)

definition assign_guards :: "db \<Rightarrow> actor \<Rightarrow> todo_request \<Rightarrow> bool" where
  "assign_guards db a p \<longleftrightarrow>
     is_ok (get_scoped_or_404 db Employee (ac_tenant_id a) (tr_employee_id p)) \<and>
     is_ok (ensure_todo_entity_exists db (ac_tenant_id a) (tr_entity_type p) (tr_entity_id p)) \<and>
     (ac_write_scope a = None \<or> require_scope_on_target a (tr_entity_type p)
        (scoped_write_target db (ac_tenant_id a) (tr_entity_type p) (tr_entity_id p)) [''status''] = Inr ()) \<and>
     ensure_step_undecided db (ac_tenant_id a) p = Inr ()"

lemma if_unit_Inr: "(if b then Inr () else m) = Inr () \<longleftrightarrow> b \<or> m = Inr ()"
  by simp

lemma if_Inr_else_Inl: "(if b then Inr y else Inl e) = Inr x \<longleftrightarrow> b \<and> x = y"
  by auto

lemma assign_todo_Inr:
  "assign_todo now stored db a p = Inr x \<longleftrightarrow> assign_guards db a p \<and>
     (case find_row (open_for (ac_tenant_id a) (tr_employee_id p) (tr_entity_type p) (tr_entity_id p)) stored of
        Some found \<Rightarrow> same_todo_assignment (loaded db found) p \<and> x = (loaded db found, False, db)
      | None \<Rightarrow> x = (todo_of_request now a (fresh_id db) p, True, add_todo a (todo_of_request now a (fresh_id db) p) db))"
  unfolding assign_todo_def assign_guards_def bindE_Inr_iff is_ok_iff Ex_unit Let_def if_unit_Inr
  by (cases "find_row (open_for (ac_tenant_id a) (tr_employee_id p) (tr_entity_type p) (tr_entity_id p)) stored")
    (simp_all only: option.case sum.inject if_Inr_else_Inl, blast+)

lemma assign_todoE:
  assumes "assign_todo now stored db a p = Inr (t, created, db')"
  obtains (found) u where "find_row (open_for (ac_tenant_id a) (tr_employee_id p) (tr_entity_type p) (tr_entity_id p)) stored = Some u"
      "same_todo_assignment (loaded db u) p" "t = loaded db u" "\<not> created" "db' = db"
  | (added) "find_row (open_for (ac_tenant_id a) (tr_employee_id p) (tr_entity_type p) (tr_entity_id p)) stored = None"
      "t = todo_of_request now a (fresh_id db) p" "created" "db' = add_todo a t db"
  using assms unfolding assign_todo_Inr by (simp split: option.splits)

lemma assign_todo_tables:
  assumes "assign_todo now stored db a p = Inr (t, created, db')"
  shows "db_rows db' = db_rows db \<and> db_approvals db' = db_approvals db \<and> db_actor db' = db_actor db \<and>
    (\<exists>ts. db_todos db' = db_todos db @ ts)"
  using assms by (cases rule: assign_todoE) (auto simp: store_simps)

subsection \<open>One open todo per person and record\<close>

text \<open>\<open>ts\<close> has at most the open todos of \<open>stored\<close>: what closing some of them leaves.\<close>

definition closes :: "todo list \<Rightarrow> todo list \<Rightarrow> bool" where
  "closes stored ts \<longleftrightarrow> (\<forall>t \<in> set ts. is_open t \<longrightarrow> t \<in> set stored)"

lemma closes_refl: "closes ts ts"
  by (simp add: closes_def)

lemma closes_update_rows:
  "closes stored ts \<Longrightarrow> (\<And>t. sel t \<Longrightarrow> \<not> is_open (f t)) \<Longrightarrow> closes stored (update_rows sel f ts)"
  by (auto simp: closes_def set_update_rows)

lemma one_open_closing:
  assumes "one_open_todo_each ts" and "\<And>t. sel t \<Longrightarrow> \<not> is_open (f t)"
  shows "one_open_todo_each (update_rows sel f ts)"
proof -
  have "filter is_open (update_rows sel f ts) = filter (\<lambda>t. is_open t \<and> \<not> sel t) ts"
    using assms(2) by (induction ts) auto
  also have "\<dots> = filter (\<lambda>t. \<not> sel t) (filter is_open ts)" by simp
  finally show ?thesis using assms(1) unfolding one_open_todo_each_def by (metis distinct_map_filter)
qed

lemma is_open_closed [simp]:
  "\<not> is_open (t\<lparr>td_state := ''cancelled''\<rparr>)" "\<not> is_open (cancelled t)"
  "\<not> is_open (t\<lparr>td_state := ''completed'', td_completed_at := x, td_completed_by := y\<rparr>)"
  by (simp_all add: is_open_def cancelled_def)

lemma one_open_append:
  assumes "one_open_todo_each ts" and "is_open t \<Longrightarrow> \<forall>u \<in> set ts. is_open u \<longrightarrow> todo_key u \<noteq> todo_key t"
  shows "one_open_todo_each (ts @ [t])"
  using assms by (auto simp: one_open_todo_each_def)

lemma todo_of_request_key:
  "todo_key (todo_of_request now a i p) = (ac_tenant_id a, tr_employee_id p, tr_entity_type p, tr_entity_id p)"
  by (simp add: todo_of_request_def todo_key_def)

lemma open_for_iff: "open_for t e et i u \<longleftrightarrow> is_open u \<and> todo_key u = (t, e, et, i)"
  by (auto simp: open_for_def open_on_def is_open_def todo_key_def)

lemma assign_todo_one_open:
  assumes "assign_todo now stored db a p = Inr (t, created, db')"
    and "one_open_todo_each (db_todos db)" and "closes stored (db_todos db)"
  shows "one_open_todo_each (db_todos db')"
  using assms(1)
proof (cases rule: assign_todoE)
  case added
  have "\<forall>u \<in> set (db_todos db). is_open u \<longrightarrow> todo_key u \<noteq> todo_key t"
    using added(1,2) assms(3) by (auto simp: find_row_None_iff open_for_iff todo_of_request_key closes_def)
  then show ?thesis using one_open_append [OF assms(2)] by (simp add: added(4) store_simps)
qed (use assms(2) in simp)

subsection \<open>The trail of facts\<close>

definition no_clashes :: "approval list \<Rightarrow> bool" where
  "no_clashes xs \<longleftrightarrow> sorted_wrt (\<lambda>x y. \<not> clash x y) xs"

lemma clash_sym: "clash x y \<longleftrightarrow> clash y x"
  by (auto simp: clash_def)

lemma no_clashes_append1: "no_clashes (xs @ [x]) \<longleftrightarrow> no_clashes xs \<and> \<not> list_ex (clash x) xs"
  by (auto simp: no_clashes_def sorted_wrt_append list_ex_iff clash_sym)

lemma no_clashes_nth:
  "no_clashes xs \<Longrightarrow> i < length xs \<Longrightarrow> j < length xs \<Longrightarrow> i \<noteq> j \<Longrightarrow> \<not> clash (xs ! i) (xs ! j)"
  unfolding no_clashes_def by (metis clash_sym linorder_neqE_nat sorted_wrt_nth_less)

lemma add_approval_Inr:
  "add_approval x db = Inr db' \<longleftrightarrow> \<not> list_ex (clash x) (db_approvals db) \<and>
     db' = tick (db\<lparr>db_approvals := db_approvals db @ [x]\<rparr>)"
  by (auto simp: add_approval_def result_simps)

lemma record_submission_fact_trail:
  "\<exists>xs. db_approvals (record_submission_fact now a et i db) = db_approvals db @ xs \<and>
     (no_clashes (db_approvals db) \<longrightarrow> no_clashes (db_approvals db @ xs))"
proof -
  have "\<not> list_ex (clash x) ys"
    if "\<not> list_ex (\<lambda>p. (ap_tenant_id p = ac_tenant_id a \<and> ap_entity_type p = et \<and> ap_entity_id p = i) \<and>
        ap_round_no p = r \<and> ap_sequence_no p = 1 \<and> ap_action p = ''submitted'') ys"
      and "node_of x = (ac_tenant_id a, et, i, r, 1)" and "ap_action x = ''submitted''" for x ys r
    using that by (auto simp: list_ex_iff clash_def node_of_def standing_def is_decision_def DECIDED_APPROVAL_ACTIONS_def)
  then show ?thesis
    by (auto simp: record_submission_fact_def Let_def store_simps no_clashes_append1 node_of_def
        intro!: exI [of _ "[]"] no_clashes_append1 [THEN iffD2])
qed

subsection \<open>What closing work leaves\<close>

definition only_closes :: "todo list \<Rightarrow> todo list \<Rightarrow> bool" where
  "only_closes ts ts' \<longleftrightarrow> (\<exists>sel f. (\<forall>t. sel t \<longrightarrow> \<not> is_open (f t)) \<and> ts' = update_rows sel f ts)"

lemma only_closes_refl: "only_closes ts ts"
  unfolding only_closes_def by (rule exI [of _ "\<lambda>_. False"]) (simp add: update_rows_def)

lemma only_closesI: "(\<And>t. sel t \<Longrightarrow> \<not> is_open (f t)) \<Longrightarrow> only_closes ts (update_rows sel f ts)"
  unfolding only_closes_def by blast

lemma only_closes_one_open: "only_closes ts ts' \<Longrightarrow> one_open_todo_each ts \<Longrightarrow> one_open_todo_each ts'"
  unfolding only_closes_def using one_open_closing by blast

lemma only_closes_closes: "only_closes ts ts' \<Longrightarrow> closes stored ts \<Longrightarrow> closes stored ts'"
  unfolding only_closes_def using closes_update_rows by blast

lemma audit_todos_other [store_simps]: "db_todos (audit_todos a w ts db) = db_todos db"
  by (simp add: store_simps)

lemma cancel_todos_only_closes: "only_closes (db_todos db) (db_todos (cancel_todos_for a et i tt db))"
  unfolding store_simps by (rule only_closesI) simp

lemma complete_rework_only_closes: "only_closes (db_todos db) (db_todos (complete_rework_todos_for now a et i db))"
  unfolding complete_rework_todos_for_def Let_def store_simps by (auto intro!: only_closesI)

lemma retire_open_only_closes:
  "only_closes (db_todos db) (db_todos (retire_open_work_if_finished a m et i c n es db))"
  by (simp add: retire_open_work_if_finished_def cancel_todos_only_closes only_closes_refl)

lemma cancel_stored_fields [store_simps]:
  "db_rows (cancel_stored_todos stored a et i db) = db_rows db"
  "db_approvals (cancel_stored_todos stored a et i db) = db_approvals db"
  "db_actor (cancel_stored_todos stored a et i db) = db_actor db"
  "db_definitions (cancel_stored_todos stored a et i db) = db_definitions db"
  "db_todos (cancel_stored_todos stored a et i db) =
     update_rows (\<lambda>t. td_id t \<in> td_id ` set (filter (open_on (ac_tenant_id a) et i) stored)) cancelled (db_todos db)"
  by (simp_all add: cancel_stored_todos_def Let_def store_simps cancelled_def [abs_def])

lemma retire_stored_fields [store_simps]:
  "db_rows (retire_stored_work stored a m et i c n es db) = db_rows db"
  "db_approvals (retire_stored_work stored a m et i c n es db) = db_approvals db"
  "db_actor (retire_stored_work stored a m et i c n es db) = db_actor db"
  "db_definitions (retire_stored_work stored a m et i c n es db) = db_definitions db"
  by (simp_all add: retire_stored_work_def store_simps)

lemma retire_stored_only_closes:
  "only_closes (db_todos db) (db_todos (retire_stored_work stored a m et i c n es db))"
  by (simp add: retire_stored_work_def store_simps only_closes_refl only_closesI)

lemma apply_status_change_over_writes:
  assumes "apply_status_change_over stored db a d s = Inr (machine, db')"
  shows "\<exists>t w et i who es. db' = retire_stored_work stored a machine et i (row_status d) s es (record_audit t w et i who db)"
  using assms unfolding apply_status_change_over_def bindE_Inr_iff Let_def sum.inject prod.inject by blast

lemma apply_status_change_over_tables:
  assumes "apply_status_change_over stored db a d s = Inr (machine, db')"
  shows "db_rows db' = db_rows db \<and> db_approvals db' = db_approvals db \<and> db_actor db' = db_actor db \<and>
    only_closes (db_todos db) (db_todos db')"
proof -
  from apply_status_change_over_writes [OF assms] obtain t w et i who es
    where db': "db' = retire_stored_work stored a machine et i (row_status d) s es (record_audit t w et i who db)" by blast
  show ?thesis
    using retire_stored_only_closes [of "record_audit t w et i who db"] by (simp add: db' store_simps)
qed

lemma retire_open_fields [store_simps]:
  "db_approvals (retire_open_work_if_finished a m et i c n es db) = db_approvals db"
  "db_rows (retire_open_work_if_finished a m et i c n es db) = db_rows db"
  "db_actor (retire_open_work_if_finished a m et i c n es db) = db_actor db"
  by (simp_all add: retire_open_work_if_finished_def store_simps)

lemma apply_status_change_writes:
  assumes "apply_status_change db a d s = Inr (machine, db')"
  shows "\<exists>t w et i who es. db' = retire_open_work_if_finished a machine et i (row_status d) s es (record_audit t w et i who db)"
  using assms unfolding apply_status_change_def bindE_Inr_iff Let_def sum.inject prod.inject by blast

lemma apply_status_change_tables:
  assumes "apply_status_change db a d s = Inr (machine, db')"
  shows "db_approvals db' = db_approvals db \<and> only_closes (db_todos db) (db_todos db')"
proof -
  from apply_status_change_writes [OF assms] obtain t w et i who es
    where db': "db' = retire_open_work_if_finished a machine et i (row_status d) s es (record_audit t w et i who db)" by blast
  show ?thesis
    using retire_open_only_closes [of "record_audit t w et i who db"] by (simp add: db' store_simps)
qed

lemma move_target_tables:
  assumes "move_target stored db a d s = Inr db'"
  shows "db_approvals db' = db_approvals db \<and> only_closes (db_todos db) (db_todos db')"
proof (cases "map_of DOCUMENT_FAMILIES (row_model d)")
  case None
  with assms retire_stored_only_closes show ?thesis
    by (auto simp: move_target_def result_simps store_simps only_closes_refl split: if_splits option.splits)
next
  case (Some family)
  with assms obtain m db1 where "apply_status_change_over stored db a d s = Inr (m, db1)"
    and "db' = set_row (row_model d) (row_id d) (with_status s) db1"
    by (auto simp: move_target_def result_simps)
  with apply_status_change_over_tables [of stored db a d s m db1] show ?thesis by (simp add: store_simps)
qed

text \<open>A round transition moves the document, closes work, and opens at most the handoff.\<close>

lemma apply_round_transition_todos:
  assumes "apply_round_transition now stored db a p target = Inr db'"
  shows "db_approvals db' = db_approvals db \<and>
    (\<exists>db1. only_closes (db_todos db) (db_todos db1) \<and>
       (db' = db1 \<or> (\<exists>h t created. ar_handoff p = Some h \<and>
          assign_todo now stored db1 a (todo_of_handoff p h) = Inr (t, created, db'))))"
proof -
  from assms obtain db1 where 1: "(case ar_document_status p of None \<Rightarrow> Inr db | Some s \<Rightarrow> move_target stored db a target s) = Inr db1"
    and 2: "db' = db1 \<or> (\<exists>h t created. ar_handoff p = Some h \<and>
          assign_todo now stored db1 a (todo_of_handoff p h) = Inr (t, created, db'))"
    unfolding apply_round_transition_def bindE_Inr_iff
    by (auto split: option.splits prod.splits simp: bindE_Inr_iff)
  from 1 have "db_approvals db1 = db_approvals db \<and> only_closes (db_todos db) (db_todos db1)"
    using move_target_tables by (auto simp: only_closes_refl split: option.splits)
  with 2 assign_todo_tables show ?thesis by metis
qed

lemma apply_round_transition_one_open:
  assumes "apply_round_transition now stored db a p target = Inr db'"
    and "one_open_todo_each (db_todos db)" and "closes stored (db_todos db)"
  shows "one_open_todo_each (db_todos db')"
  using apply_round_transition_todos [OF assms(1)] assms(2,3)
  by (metis assign_todo_one_open only_closes_one_open only_closes_closes)

subsection \<open>Recording a fact\<close>

lemma create_approval_recordE:
  assumes "create_approval_record now db a p = Inr (x, finished, db')"
  obtains (recorded) target acted_at where "admit_fact now db a p = Inr (target, acted_at)"
      "recorded_fact db (ac_tenant_id a) p = Some x" "finished = []"
      "apply_round_transition now (db_todos db) db a p target = Inr db'"
  | (fresh) target acted_at db1 c db2 db3 where "admit_fact now db a p = Inr (target, acted_at)"
      "recorded_fact db (ac_tenant_id a) p = None" "ensure_node_undecided db (ac_tenant_id a) p = Inr ()"
      "x = approval_of_request acted_at a (fresh_id db) p" "add_approval x db = Inr db1"
      "close_round_work now a p db1 = (c, db2)"
      "apply_round_transition now (db_todos db1) db2 a p target = Inr db3"
      "finished = (case c of None \<Rightarrow> [] | Some i \<Rightarrow> [i])"
      "db' = record_audit (ac_tenant_id a) ''approval.recorded'' (ar_entity_type p) (ar_entity_id p) (Some (label a)) db3"
proof -
  from assms obtain target acted_at where 1: "admit_fact now db a p = Inr (target, acted_at)"
    and 2: "(case recorded_fact db (ac_tenant_id a) p of
       Some existing \<Rightarrow> bindE (apply_round_transition now (db_todos db) db a p target) (\<lambda>db1. Inr (existing, [], db1))
     | None \<Rightarrow>
         bindE (ensure_node_undecided db (ac_tenant_id a) p) (\<lambda>_.
         let x = approval_of_request acted_at a (fresh_id db) p in
         bindE (add_approval x db) (\<lambda>db1.
         let (finished, db2) = close_round_work now a p db1 in
         bindE (apply_round_transition now (db_todos db1) db2 a p target) (\<lambda>db3.
         Inr (x, (case finished of None \<Rightarrow> [] | Some i \<Rightarrow> [i]),
              record_audit (ac_tenant_id a) ''approval.recorded'' (ar_entity_type p) (ar_entity_id p)
                (Some (label a)) db3))))) = Inr (x, finished, db')"
    unfolding create_approval_record_def bindE_Inr_iff split_paired_Ex prod.case by blast
  show ?thesis
  proof (cases "recorded_fact db (ac_tenant_id a) p")
    case (Some e)
    with 2 show ?thesis by (intro recorded [OF 1]) (auto simp: bindE_Inr_iff)
  next
    case None
    let ?x = "approval_of_request acted_at a (fresh_id db) p"
    from 2 obtain db1 where 3: "ensure_node_undecided db (ac_tenant_id a) p = Inr ()" "add_approval ?x db = Inr db1"
      and 4: "(let (finished, db2) = close_round_work now a p db1 in
         bindE (apply_round_transition now (db_todos db1) db2 a p target) (\<lambda>db3.
         Inr (?x, (case finished of None \<Rightarrow> [] | Some i \<Rightarrow> [i]),
              record_audit (ac_tenant_id a) ''approval.recorded'' (ar_entity_type p) (ar_entity_id p)
                (Some (label a)) db3))) = Inr (x, finished, db')"
      unfolding None option.case bindE_Inr_iff Let_def Ex_unit by blast
    obtain c db2 where 5: "close_round_work now a p db1 = (c, db2)" by fastforce
    from 4 obtain db3 where 6: "apply_round_transition now (db_todos db1) db2 a p target = Inr db3"
      and 7: "Inr (?x, (case c of None \<Rightarrow> [] | Some i \<Rightarrow> [i]),
              record_audit (ac_tenant_id a) ''approval.recorded'' (ar_entity_type p) (ar_entity_id p)
                (Some (label a)) db3) = (Inr (x, finished, db') :: (approval \<times> uuid list \<times> db) result)"
      unfolding 5 Let_def prod.case bindE_Inr_iff by blast
    from 7 show ?thesis by (intro fresh [OF 1 None 3(1) _ _ 5 6]) (use 3(2) in auto)
  qed
qed

lemma complete_own_fields:
  assumes "complete_own_approval_todo now a et i db = (c, db')"
  shows "db_approvals db' = db_approvals db \<and> only_closes (db_todos db) (db_todos db')"
  using assms only_closes_refl
  by (auto simp: complete_own_approval_todo_def store_simps intro!: only_closesI split: option.splits)

lemma close_round_work_fields:
  assumes "close_round_work now a p db = (c, db')"
  shows "db_approvals db' = db_approvals db \<and> only_closes (db_todos db) (db_todos db')"
proof -
  have "only_closes (db_todos db) (db_todos (cancel_todos_for a et i tt db))" for et i tt
    by (rule cancel_todos_only_closes)
  then show ?thesis
    using assms complete_own_fields only_closes_refl
    by (auto simp: close_round_work_def cancel_todos_for_fields simp del: cancel_todos_for_todos split: if_splits)
qed

lemma create_approval_record_trail:
  assumes "create_approval_record now db a p = Inr (x, finished, db')"
  shows "x \<in> set (db_approvals db) \<and> db_approvals db' = db_approvals db \<or>
    db_approvals db' = db_approvals db @ [x] \<and> \<not> list_ex (clash x) (db_approvals db)"
  using assms
proof (cases rule: create_approval_recordE)
  case (recorded target acted_at)
  then show ?thesis
    using apply_round_transition_todos [OF recorded(4)] by (auto simp: recorded_fact_def dest!: find_row_Some)
next
  case (fresh target acted_at db1 c db2 db3)
  then show ?thesis
    using apply_round_transition_todos [OF fresh(7)] close_round_work_fields [OF fresh(6)]
    by (auto simp: add_approval_Inr store_simps)
qed

lemma create_approval_record_one_open:
  assumes "create_approval_record now db a p = Inr (x, finished, db')" and "one_open_todo_each (db_todos db)"
  shows "one_open_todo_each (db_todos db')"
  using assms(1)
proof (cases rule: create_approval_recordE)
  case (recorded target acted_at)
  then show ?thesis using apply_round_transition_one_open assms(2) closes_refl by blast
next
  case (fresh target acted_at db1 c db2 db3)
  have "db_todos db1 = db_todos db" using fresh(5) by (auto simp: add_approval_Inr store_simps)
  moreover have "only_closes (db_todos db1) (db_todos db2)" using close_round_work_fields [OF fresh(6)] by blast
  ultimately have "one_open_todo_each (db_todos db2)" "closes (db_todos db1) (db_todos db2)"
    using assms(2) only_closes_one_open only_closes_closes closes_refl by metis+
  then have "one_open_todo_each (db_todos db3)" using apply_round_transition_one_open [OF fresh(7)] by blast
  then show ?thesis by (simp add: fresh(9) store_simps)
qed

end
