(* ===== verification/Approval_History.thy ===== *)
theory Approval_History
  imports Approval_Laws
begin

text \<open>
  Any sequence of the handlers that write todos, approval facts and document states, by any callers
  at any times; and what follows for the trail and for the queues.
\<close>

datatype work_event =
    AssignOne todo_request
  | AssignMany "todo_request list" string
  | ChangeTodo uuid todo_update
  | RecordFact approval_request
  | SubmitDocument model uuid
  | MoveDocument model uuid string
  | DeleteDocument model uuid "string option" "string option"

text \<open>The status half of a document's PATCH: fetch, \<open>apply_status_change\<close>, assign.\<close>

definition move_document :: "db \<Rightarrow> actor \<Rightarrow> model \<Rightarrow> uuid \<Rightarrow> string \<Rightarrow> db result" where
  "move_document db a m i s =
     bindE (get_active_document_or_404 db m (ac_tenant_id a) i) (\<lambda>d.
     bindE (apply_status_change db a d s) (\<lambda>(machine, db1). Inr (set_row m i (with_status s) db1)))"

fun work_step :: "timestamp \<Rightarrow> db \<Rightarrow> actor \<Rightarrow> work_event \<Rightarrow> db result" where
  "work_step now db a (AssignOne p) = bindE (create_todo now db a p) (\<lambda>(t, db'). Inr db')"
| "work_step now db a (AssignMany ps e) = bindE (bulk_create_todos now db a ps e) (\<lambda>(r, db'). Inr db')"
| "work_step now db a (ChangeTodo i u) = bindE (update_todo now db a i u) (\<lambda>(t, db'). Inr db')"
| "work_step now db a (RecordFact p) = bindE (create_approval_record now db a p) (\<lambda>(x, ids, db'). Inr db')"
| "work_step now db a (SubmitDocument m i) = bindE (submit_document now db a m i) (\<lambda>(r, db'). Inr db')"
| "work_step now db a (MoveDocument m i s) = move_document db a m i s"
| "work_step now db a (DeleteDocument m i who why) = delete_document now db a m i who why"

inductive works :: "db \<Rightarrow> db \<Rightarrow> bool" where
  works_refl: "works db db"
| works_step: "works db db1 \<Longrightarrow> work_step now db1 a ev = Inr db2 \<Longrightarrow> works db db2"

subsection \<open>Every step keeps the trail and the queues\<close>

definition grows :: "approval list \<Rightarrow> approval list \<Rightarrow> bool" where
  "grows xs ys \<longleftrightarrow> (\<exists>zs. ys = xs @ zs) \<and> (no_clashes xs \<longrightarrow> no_clashes ys)"

lemma grows_refl [simp]: "grows xs xs"
  by (simp add: grows_def)

lemma grows_trans: "grows xs ys \<Longrightarrow> grows ys zs \<Longrightarrow> grows xs zs"
  by (auto simp: grows_def)

lemma create_todo_Inr:
  "create_todo now db a p = Inr (t, db') \<Longrightarrow> \<exists>created. assign_todo now (db_todos db) db a p = Inr (t, created, db')"
  unfolding create_todo_def bindE_Inr_iff by (auto split: prod.splits)

lemma assign_until_failure_one_open:
  "assign_until_failure now a db ps = Inr (rs, Some db') \<Longrightarrow>
     db_approvals db' = db_approvals db \<and> (one_open_todo_each (db_todos db) \<longrightarrow> one_open_todo_each (db_todos db'))"
proof (induction ps arbitrary: db rs)
  case (Cons p ps)
  then obtain t created db1 rs' where 1: "assign_todo now (db_todos db) db a p = Inr (t, created, db1)"
    and 2: "assign_until_failure now a db1 ps = Inr (rs', Some db')"
    by (auto simp: bindE_Inr_iff split: sum.splits if_splits prod.splits)
  from assign_todo_one_open [OF 1 _ closes_refl] assign_todo_tables [OF 1] Cons.IH [OF 2] show ?case by auto
qed simp

lemma assign_each_one_open:
  "assign_each now a db ps = Inr (rs, db') \<Longrightarrow>
     db_approvals db' = db_approvals db \<and> (one_open_todo_each (db_todos db) \<longrightarrow> one_open_todo_each (db_todos db'))"
proof (induction ps arbitrary: db rs)
  case (Cons p ps)
  show ?case
  proof (cases "assign_todo now (db_todos db) db a p")
    case (Inl e)
    with Cons show ?thesis by (auto simp: bindE_Inr_iff split: if_splits prod.splits)
  next
    case (Inr y)
    obtain t created db1 where y: "y = (t, created, db1)" by (cases y)
    with Inr Cons.prems obtain rs' where 2: "assign_each now a db1 ps = Inr (rs', db')"
      by (auto simp: bindE_Inr_iff split: prod.splits)
    from assign_todo_one_open [OF Inr [unfolded y] _ closes_refl] assign_todo_tables [OF Inr [unfolded y]]
      Cons.IH [OF 2] show ?thesis by auto
  qed
qed simp

lemma bulk_one_open:
  assumes "bulk_create_todos now db a ps e = Inr (r, db')"
  shows "db_approvals db' = db_approvals db \<and> (one_open_todo_each (db_todos db) \<longrightarrow> one_open_todo_each (db_todos db'))"
proof -
  from assms obtain r' db1 where 1: "(if e = ''abort'' then assign_all_or_nothing now db a ps
      else assign_what_it_can now db a ps) = Inr (r', db1)"
    and 2: "db' = db \<or> (\<exists>t w et i who. db' = record_audit t w et i who db1)"
    unfolding bulk_create_todos_def bindE_Inr_iff by (fastforce split: if_splits prod.splits)
  have "db_approvals db1 = db_approvals db \<and> (one_open_todo_each (db_todos db) \<longrightarrow> one_open_todo_each (db_todos db1))"
    using 1 assign_until_failure_one_open assign_each_one_open
    by (fastforce simp: assign_all_or_nothing_def assign_what_it_can_def Let_def bindE_Inr_iff
        split: if_splits prod.splits option.splits)
  with 2 show ?thesis by (auto simp: store_simps)
qed

lemma update_todo_one_open:
  assumes "update_todo now db a i u = Inr (t, db')"
  shows "db_approvals db' = db_approvals db \<and> one_open_todo_each (db_todos db')"
  using assms unfolding update_todo_def bindE_Inr_iff Let_def ensure_Inr_iff Ex_unit
  by (elim exE conjE) (auto simp: store_simps split: if_splits)

lemma submit_document_trail:
  assumes "submit_document now db a m i = Inr (r, db')"
  shows "grows (db_approvals db) (db_approvals db') \<and> only_closes (db_todos db) (db_todos db')"
proof -
  have "grows (db_approvals db) (db_approvals (submitted_db now a m f i s db)) \<and>
      only_closes (db_todos db) (db_todos (submitted_db now a m f i s db))" for f s
  proof -
    let ?d = "set_row m i (stamp_submitted s now)
      (record_audit (ac_tenant_id a) (df_audit_prefix f @ ''.submitted'') (df_object_type f) i (Some (label a)) db)"
    have "grows (db_approvals ?d) (db_approvals (record_submission_fact now a (df_object_type f) i ?d))"
      using record_submission_fact_trail [of now a "df_object_type f" i ?d] by (auto simp: grows_def)
    moreover have "only_closes (db_todos (record_submission_fact now a (df_object_type f) i ?d))
        (db_todos (complete_rework_todos_for now a (df_object_type f) i (record_submission_fact now a (df_object_type f) i ?d)))"
      by (rule complete_rework_only_closes)
    ultimately show ?thesis by (simp add: submitted_db_def store_simps)
  qed
  with assms only_closes_refl show ?thesis by (elim submit_documentE) auto
qed

lemma delete_document_trail:
  assumes "delete_document now db a m i who why = Inr db'"
  shows "db_approvals db' = db_approvals db \<and> only_closes (db_todos db) (db_todos db')"
proof -
  from assms have "db' = db \<or> (\<exists>f r et j. db' = cancel_todos_for a et j None (set_row m i f db))"
    unfolding delete_document_def Let_def by (auto simp: bindE_Inr_iff split: if_splits)
  moreover have "only_closes (db_todos db) (db_todos (cancel_todos_for a et j None (set_row m i f db)))" for f et j
    using cancel_todos_only_closes [of "set_row m i f db" a et j None] by (simp only: set_row_fields)
  ultimately show ?thesis using only_closes_refl by (auto simp: cancel_todos_for_fields set_row_fields)
qed

lemma move_document_trail:
  assumes "move_document db a m i s = Inr db'"
  shows "db_approvals db' = db_approvals db \<and> only_closes (db_todos db) (db_todos db')"
proof -
  from assms obtain d machine db1 where "apply_status_change db a d s = Inr (machine, db1)"
    and "db' = set_row m i (with_status s) db1"
    unfolding move_document_def bindE_Inr_iff by (auto split: prod.splits)
  with apply_status_change_tables show ?thesis by (auto simp: store_simps)
qed

lemma work_step_keeps:
  assumes "work_step now db a ev = Inr db'"
  shows "grows (db_approvals db) (db_approvals db') \<and>
    (one_open_todo_each (db_todos db) \<longrightarrow> one_open_todo_each (db_todos db'))"
proof (cases ev)
  case (AssignOne p)
  with assms obtain t created where "assign_todo now (db_todos db) db a p = Inr (t, created, db')"
    by (auto simp: bindE_Inr_iff split: prod.splits dest!: create_todo_Inr)
  with assign_todo_one_open closes_refl assign_todo_tables show ?thesis by (metis grows_refl)
next
  case (AssignMany ps e)
  with assms bulk_one_open show ?thesis by (fastforce simp: bindE_Inr_iff split: prod.splits)
next
  case (ChangeTodo i u)
  with assms update_todo_one_open show ?thesis by (fastforce simp: bindE_Inr_iff split: prod.splits)
next
  case (RecordFact p)
  with assms obtain x ids where 1: "create_approval_record now db a p = Inr (x, ids, db')"
    by (auto simp: bindE_Inr_iff split: prod.splits)
  have "grows (db_approvals db) (db_approvals db')"
    using create_approval_record_trail [OF 1] by (auto simp: grows_def no_clashes_append1)
  then show ?thesis using create_approval_record_one_open [OF 1] by blast
next
  case (SubmitDocument m i)
  with assms submit_document_trail only_closes_one_open show ?thesis
    by (fastforce simp: bindE_Inr_iff split: prod.splits)
next
  case (MoveDocument m i s)
  with assms move_document_trail only_closes_one_open show ?thesis by (metis grows_refl work_step.simps(6))
next
  case (DeleteDocument m i who why)
  with assms delete_document_trail only_closes_one_open show ?thesis by (metis grows_refl work_step.simps(7))
qed

lemma works_keeps:
  "works db db' \<Longrightarrow> grows (db_approvals db) (db_approvals db') \<and>
     (one_open_todo_each (db_todos db) \<longrightarrow> one_open_todo_each (db_todos db'))"
  by (induction rule: works.induct) (auto dest: work_step_keeps intro: grows_trans)

lemma no_clashes_distinct_nodes:
  "no_clashes xs \<Longrightarrow> distinct (map node_of (filter standing xs))"
proof (induction xs rule: rev_induct)
  case (snoc x xs)
  then show ?case by (auto simp: no_clashes_append1 list_ex_iff clash_def)
qed simp

text \<open>C5: Through any history of the handlers that assign, complete, decide, submit, move and delete, the
  approval trail only grows at its end, and every node (record, round, step) holds at most one
  standing decision.\<close>

theorem a_step_holds_one_decision:
  assumes "works db db'" and "no_clashes (db_approvals db)"
  shows "(\<exists>later. db_approvals db' = db_approvals db @ later) \<and>
    distinct (map node_of (filter standing (db_approvals db')))"
  using works_keeps [OF assms(1)] assms(2) no_clashes_distinct_nodes by (auto simp: grows_def)

text \<open>C14: Through any history of the same handlers nobody ever holds two open todos on one record, with
  each handler reading the todos as last flushed.\<close>

theorem nobody_holds_two_open_todos:
  assumes "works db db'" and "one_open_todo_each (db_todos db)"
  shows "one_open_todo_each (db_todos db')"
  using works_keeps [OF assms(1)] assms(2) by blast

subsection \<open>A second decision\<close>





subsection \<open>What a decision closes\<close>

lemma only_closes_nth:
  "only_closes ts ts' \<Longrightarrow> length ts' = length ts \<and> (\<forall>i < length ts. is_open (ts' ! i) \<longrightarrow> ts' ! i = ts ! i)"
  unfolding only_closes_def update_rows_def by fastforce

text \<open>The rows of a table that were there before a step: every row still open is unchanged.\<close>

lemma open_rows_before:
  assumes "only_closes ts ts1" and "list_ex (\<lambda>t. is_open t \<and> P t) (take (length ts) (ts1 @ new))"
  shows "list_ex (\<lambda>t. is_open t \<and> P t) ts"
proof -
  have "take (length ts) (ts1 @ new) = ts1" using only_closes_nth [OF assms(1)] by simp
  with assms(2) obtain i where "i < length ts" "is_open (ts1 ! i)" "P (ts1 ! i)"
    using only_closes_nth [OF assms(1)] by (auto simp: list_ex_length)
  with only_closes_nth [OF assms(1)] show ?thesis by (auto simp: list_ex_length)
qed

lemma apply_round_transition_appends:
  assumes "apply_round_transition now stored db a p target = Inr db'"
  shows "\<exists>ts new. only_closes (db_todos db) ts \<and> db_todos db' = ts @ new"
  using apply_round_transition_todos [OF assms] assign_todo_tables by (metis append_Nil2)

lemma open_on_is_open: "open_on t et i x \<longleftrightarrow> is_open x \<and> (td_tenant x = t \<and> td_entity_type x = et \<and> td_entity_id x = i)"
  by (auto simp: open_on_def is_open_def)

lemma complete_own_closes:
  assumes "complete_own_approval_todo now a et i db = (c, db')" and "ac_employee_id a = Some e"
    and "one_open_todo_each (db_todos db)"
  shows "\<not> list_ex (\<lambda>t. open_for (ac_tenant_id a) e et i t \<and> td_todo_type t = Some ''approval'') (db_todos db')"
proof -
  let ?own = "\<lambda>t. open_for (ac_tenant_id a) e et i t \<and> td_todo_type t = Some ''approval''"
  show ?thesis
  proof (cases "find_row ?own (db_todos db)")
    case None
    then have "db' = db" using assms(1,2) by (simp add: complete_own_approval_todo_def)
    with None show ?thesis by (simp add: find_row_None_iff list_ex_iff)
  next
    case (Some t)
    let ?f = "\<lambda>x. x\<lparr>td_state := ''completed'', td_completed_at := Some now, td_completed_by := Some (attributed a None)\<rparr>"
    have todos: "db_todos db' = update_rows (\<lambda>x. td_id x = td_id t) ?f (db_todos db)"
      using assms(1,2) Some by (auto simp: complete_own_approval_todo_def store_simps)
    have t: "t \<in> set (db_todos db)" "?own t" using find_row_Some [OF Some] by auto
    have "td_id x = td_id t" if "x \<in> set (db_todos db)" "?own x" for x
    proof -
      have "x \<in> set (filter is_open (db_todos db))" "t \<in> set (filter is_open (db_todos db))" "todo_key x = todo_key t"
        using that t by (auto simp: open_for_iff)
      with assms(3) show ?thesis unfolding one_open_todo_each_def by (metis distinct_map inj_onD)
    qed
    then show ?thesis
      by (auto simp: todos list_ex_iff set_update_rows open_for_iff is_open_def)
  qed
qed

text \<open>C15: A decision takes the work it settles with it: once a document is returned, every approval todo on
  it that existed before the call is closed; once it is approved or rejected, the decider's own
  approval todo on it is.\<close>

theorem a_decision_closes_its_work:
  assumes "create_approval_record now db a p = Inr (x, ids, db')" and "recorded_fact db (ac_tenant_id a) p = None"
    and "one_open_todo_each (db_todos db)"
  shows "(ar_action p = ''returned'' \<longrightarrow>
      \<not> list_ex (\<lambda>t. open_on (ac_tenant_id a) (ar_entity_type p) (ar_entity_id p) t \<and> td_todo_type t = Some ''approval'')
          (take (length (db_todos db)) (db_todos db'))) \<and>
    (ar_action p \<in> {''approved'', ''rejected''} \<and> ac_employee_id a = Some e \<longrightarrow>
      \<not> list_ex (\<lambda>t. open_for (ac_tenant_id a) e (ar_entity_type p) (ar_entity_id p) t \<and> td_todo_type t = Some ''approval'')
          (take (length (db_todos db)) (db_todos db')))"
  using assms(1)
proof (cases rule: create_approval_recordE)
  case (recorded target acted_at)
  with assms(2) show ?thesis by simp
next
  case (fresh target acted_at db1 c db2 db3)
  have todos1: "db_todos db1 = db_todos db" using fresh(5) by (auto simp: add_approval_Inr store_simps)
  have len: "length (db_todos db2) = length (db_todos db)"
    using close_round_work_fields [OF fresh(6)] only_closes_nth by (metis todos1)
  from apply_round_transition_appends [OF fresh(7)] obtain ts new
    where ts: "only_closes (db_todos db2) ts" "db_todos db' = ts @ new" by (auto simp: fresh(9) store_simps)
  have 1: "\<not> list_ex (\<lambda>t. open_on (ac_tenant_id a) (ar_entity_type p) (ar_entity_id p) t \<and> td_todo_type t = Some ''approval'')
      (db_todos db2)" if "ar_action p = ''returned''"
    using fresh(6) that by (auto simp: close_round_work_def store_simps list_ex_iff set_update_rows)
  have 2: "\<not> list_ex (\<lambda>t. open_for (ac_tenant_id a) e (ar_entity_type p) (ar_entity_id p) t \<and> td_todo_type t = Some ''approval'')
      (db_todos db2)" if "ar_action p \<in> {''approved'', ''rejected''}" "ac_employee_id a = Some e"
    using fresh(6) that complete_own_closes [of now a "ar_entity_type p" "ar_entity_id p" db1 c db2 e] assms(3) todos1
    by (auto simp: close_round_work_def DECIDED_APPROVAL_ACTIONS_def)
  show ?thesis
  proof (intro conjI impI)
    assume "ar_action p = ''returned''"
    from 1 [OF this] show "\<not> list_ex (\<lambda>t. open_on (ac_tenant_id a) (ar_entity_type p) (ar_entity_id p) t \<and>
        td_todo_type t = Some ''approval'') (take (length (db_todos db)) (db_todos db'))"
      using open_rows_before [OF ts(1), of "\<lambda>t. (td_tenant t = ac_tenant_id a \<and> td_entity_type t = ar_entity_type p \<and>
        td_entity_id t = ar_entity_id p) \<and> td_todo_type t = Some ''approval''" new]
      unfolding ts(2) len open_on_is_open conj_assoc by blast
  next
    assume "ar_action p \<in> {''approved'', ''rejected''} \<and> ac_employee_id a = Some e"
    with 2 show "\<not> list_ex (\<lambda>t. open_for (ac_tenant_id a) e (ar_entity_type p) (ar_entity_id p) t \<and>
        td_todo_type t = Some ''approval'') (take (length (db_todos db)) (db_todos db'))"
      using open_rows_before [OF ts(1), of "\<lambda>t. todo_key t = (ac_tenant_id a, e, ar_entity_type p, ar_entity_id p) \<and>
        td_todo_type t = Some ''approval''" new]
      unfolding ts(2) len open_for_iff conj_assoc by blast
  qed
qed

end
