(* ===== verification/Batch_Laws.thy ===== *)
theory Batch_Laws
  imports Approval_History
begin

text \<open>
  The two error modes of \<open>POST /todos/bulk\<close> against each other, and a batch sent twice.
\<close>

subsection \<open>Abort against skip\<close>

lemma outcome_of_not_failed [simp]: "\<not> is_failed (outcome_of t created)"
  by (simp add: outcome_of_def)

lemma assign_each_whole:
  "assign_each now a db ps = Inr (rs, db') \<Longrightarrow> \<not> list_ex is_failed rs \<Longrightarrow>
     assign_until_failure now a db ps = Inr (rs, Some db')"
proof (induction ps arbitrary: db rs)
  case (Cons p ps)
  show ?case
  proof (cases "assign_todo now (db_todos db) db a p")
    case (Inl e)
    with Cons.prems show ?thesis by (auto simp: bindE_Inr_iff split: if_splits prod.splits)
  next
    case (Inr y)
    obtain t created db1 where y: "y = (t, created, db1)" by (cases y)
    with Inr Cons.prems obtain rs' where "assign_each now a db1 ps = Inr (rs', db')" and "rs = outcome_of t created # rs'"
      by (auto simp: bindE_Inr_iff split: prod.splits)
    with Cons.IH [of db1 rs'] Cons.prems(2) show ?thesis by (simp add: Inr y)
  qed
qed simp

lemma assign_each_broken:
  "assign_each now a db ps = Inr (rs, db') \<Longrightarrow> list_ex is_failed rs \<Longrightarrow>
     \<exists>rs'. assign_until_failure now a db ps = Inr (rs', None)"
proof (induction ps arbitrary: db rs)
  case (Cons p ps)
  show ?case
  proof (cases "assign_todo now (db_todos db) db a p")
    case (Inl e)
    with Cons.prems show ?thesis by (auto simp: bindE_Inr_iff split: if_splits prod.splits)
  next
    case (Inr y)
    obtain t created db1 where y: "y = (t, created, db1)" by (cases y)
    with Inr Cons.prems obtain rs' where "assign_each now a db1 ps = Inr (rs', db')" and "rs = outcome_of t created # rs'"
      by (auto simp: bindE_Inr_iff split: prod.splits)
    with Cons.IH [of db1 rs'] Cons.prems(2) show ?thesis by (auto simp: Inr y)
  qed
qed simp

lemma assign_each_counts:
  "assign_each now a db ps = Inr (rs, db') \<Longrightarrow> length rs = length ps"
  by (induction ps arbitrary: db rs) (auto simp: bindE_Inr_iff split: sum.splits if_splits prod.splits)

lemma not_failed_iff: "\<not> is_failed r \<longleftrightarrow> is_created r \<or> is_unchanged r"
  by (cases r) auto

text \<open>The two modes of a bulk assignment differ only in what a failure costs: a batch in which every
  item goes through has the same outcome and leaves the same tables under \<open>abort\<close> as under \<open>skip\<close>,
  and a batch in which one item fails leaves the tables untouched under \<open>abort\<close>.\<close>

theorem abort_is_skip_or_nothing:
  assumes "bulk_create_todos now db a ps ''skip'' = Inr (r, db')" and "ps \<noteq> []"
  shows "if list_ex is_failed (bo_results r)
     then \<exists>r'. bulk_create_todos now db a ps ''abort'' = Inr (r', db) \<and> \<not> bo_applied r'
     else bulk_create_todos now db a ps ''abort'' = Inr (r, db')"
proof -
  from assms obtain rs db1 where perm: "require_permission a ''todos.assign'' None = Inr ()"
    and each: "assign_each now a db ps = Inr (rs, db1)"
    and r: "r = \<lparr>bo_applied = 0 < bs_created (summary ps rs) \<or> 0 < bs_unchanged (summary ps rs),
              bo_summary = summary ps rs, bo_results = rs\<rparr>"
    and db': "db' = (if \<not> bo_applied r then db else record_audit (ac_tenant_id a) ''todo.bulk_assigned'' ''tenant''
                (ac_tenant_id a) (Some (label a)) db1)"
    unfolding bulk_create_todos_def assign_what_it_can_def Let_def
    by (auto simp: bindE_Inr_iff split: prod.splits if_splits)
  show ?thesis
  proof (cases "list_ex is_failed rs")
    case True
    from assign_each_broken [OF each this] obtain rs' where "assign_until_failure now a db ps = Inr (rs', None)" by blast
    with True show ?thesis
      by (simp add: r bulk_create_todos_def perm assign_all_or_nothing_def)
  next
    case False
    with assms(2) assign_each_counts [OF each] have "rs \<noteq> []" by auto
    then obtain x xs where "rs = x # xs" by (cases rs) auto
    moreover have "is_created x \<or> is_unchanged x" using False calculation not_failed_iff by auto
    ultimately have "bo_applied r" by (auto simp: r summary_def)
    moreover have "r = \<lparr>bo_applied = True, bo_summary = summary ps rs, bo_results = rs\<rparr>"
      using calculation by (simp add: r)
    ultimately show ?thesis
      using False assign_each_whole [OF each False] by (simp add: db' bulk_create_todos_def perm assign_all_or_nothing_def)
  qed
qed

subsection \<open>A batch sent twice\<close>

text \<open>\<open>later\<close> is \<open>db\<close> with more todos: everything an assignment is guarded by still holds.\<close>

definition more_todos :: "db \<Rightarrow> db \<Rightarrow> bool" where
  "more_todos db later \<longleftrightarrow> db_rows later = db_rows db \<and> db_approvals later = db_approvals db \<and>
     db_actor later = db_actor db \<and> (\<exists>ts. db_todos later = db_todos db @ ts)"

lemma routed_more_todos: "more_todos db later \<Longrightarrow> routed db b ets i \<Longrightarrow> routed later b ets i"
  by (auto simp: more_todos_def routed_def)

lemma document_clause_more_todos:
  "more_todos db later \<Longrightarrow> document_clause db b m r \<Longrightarrow> document_clause later b m r"
  using routed_more_todos
  by (auto simp: document_clause_def family_clause_def shared_clause_def Let_def split: option.splits if_splits)

lemma visible_more_todos: "more_todos db later \<Longrightarrow> is_visible db r \<Longrightarrow> is_visible later r"
  using document_clause_more_todos [of db later _ "row_model r" r]
  by (cases "db_actor db") (simp_all add: is_visible_def more_todos_def)

lemma get_scoped_more_todos:
  "more_todos db later \<Longrightarrow> get_scoped_or_404 db m t i = Inr r \<Longrightarrow> get_scoped_or_404 later m t i = Inr r"
  using visible_more_todos by (auto simp: get_scoped_or_404_Inr get_row_def more_todos_def)

lemma get_active_more_todos:
  "more_todos db later \<Longrightarrow> get_active_document_or_404 db m t i = Inr r \<Longrightarrow> get_active_document_or_404 later m t i = Inr r"
  using get_scoped_more_todos by (auto simp: get_active_document_or_404_def bindE_Inr_iff)

lemma entity_exists_more_todos:
  assumes "more_todos db later" and "is_ok (ensure_todo_entity_exists db t et i)"
  shows "is_ok (ensure_todo_entity_exists later t et i)"
proof (cases "map_of TODO_TARGET_MODELS et")
  case None
  with assms get_scoped_more_todos [OF assms(1)] show ?thesis
    by (fastforce simp: ensure_todo_entity_exists_def ensure_referenced_entity_exists_def is_ok_iff bindE_Inr_iff
        get_active_business_object_or_404_def split: if_splits)
next
  case (Some m)
  with assms get_active_more_todos [OF assms(1)] show ?thesis
    by (fastforce simp: ensure_todo_entity_exists_def ensure_referenced_entity_exists_def is_ok_iff bindE_Inr_iff)
qed

lemma guards_more_todos:
  assumes "more_todos db later" and "assign_guards db a p"
  shows "assign_guards later a p"
proof -
  have "is_ok (get_scoped_or_404 later Employee (ac_tenant_id a) (tr_employee_id p))"
    using assms get_scoped_more_todos by (fastforce simp: assign_guards_def is_ok_iff)
  moreover have "scoped_write_target later t et i = scoped_write_target db t et i" for t et i
    using assms(1) by (simp add: scoped_write_target_def more_todos_def cong: option.case_cong)
  moreover have "db_approvals later = db_approvals db" using assms(1) by (simp add: more_todos_def)
  then have "ensure_step_undecided later (ac_tenant_id a) p = ensure_step_undecided db (ac_tenant_id a) p"
    by (simp only: ensure_step_undecided_def)
  moreover have "is_ok (ensure_todo_entity_exists later (ac_tenant_id a) (tr_entity_type p) (tr_entity_id p))"
    using assms entity_exists_more_todos unfolding assign_guards_def by blast
  ultimately show ?thesis using assms(2) unfolding assign_guards_def by simp
qed

lemma more_todos_trans: "more_todos x y \<Longrightarrow> more_todos y z \<Longrightarrow> more_todos x z"
  by (auto simp: more_todos_def)

lemma assign_todo_more: "assign_todo now stored db a p = Inr (t, created, db') \<Longrightarrow> more_todos db db'"
  using assign_todo_tables by (auto simp: more_todos_def)

lemma find_id_unique:
  "distinct (map td_id ts) \<Longrightarrow> t \<in> set ts \<Longrightarrow> find_row (\<lambda>x. td_id x = td_id t) ts = Some t"
  by (induction ts) (auto simp: image_iff)

lemma loaded_stored: "distinct (map td_id (db_todos db)) \<Longrightarrow> t \<in> set (db_todos db) \<Longrightarrow> loaded db t = t"
  by (simp add: loaded_def find_id_unique)

text \<open>An assignment made once is found again in any later state that only has more todos.\<close>

lemma assign_todo_again:
  assumes "assign_todo now (db_todos db) db a p = Inr (t, created, db1)" and "tr_status p = ''open''"
    and "more_todos db1 later" and "distinct (map td_id (db_todos later))"
  shows "assign_todo now' (db_todos later) later a p = Inr (t, False, later)"
proof -
  let ?mine = "open_for (ac_tenant_id a) (tr_employee_id p) (tr_entity_type p) (tr_entity_id p)"
  have more: "more_todos db later" using assign_todo_more [OF assms(1)] assms(3) more_todos_trans by blast
  have guards: "assign_guards later a p" using guards_more_todos [OF more] assms(1) by (simp add: assign_todo_Inr)
  have "find_row ?mine (db_todos later) = Some t \<and> same_todo_assignment t p"
    using assms(1)
  proof (cases rule: assign_todoE)
    case (found u)
    from more obtain ts where ts: "db_todos later = db_todos db @ ts" by (auto simp: more_todos_def)
    have u: "u \<in> set (db_todos db)" using find_row_Some [OF found(1)] by blast
    have "distinct (map td_id (db_todos db))" using assms(4) by (simp add: ts)
    with u found have "t = u" by (simp add: loaded_stored)
    with found show ?thesis by (simp add: ts find_row_append)
  next
    case added
    from assms(3) obtain ts where ts: "db_todos later = (db_todos db @ [t]) @ ts"
      by (auto simp: more_todos_def added(4) store_simps)
    have "?mine t" using assms(2) by (simp add: added(2) open_for_iff todo_of_request_key is_open_def) (simp add: todo_of_request_def)
    moreover have "same_todo_assignment t p" by (simp add: added(2) same_todo_assignment_def todo_of_request_def)
    ultimately show ?thesis using added(1) by (simp add: ts find_row_append)
  qed
  moreover from this have "loaded later t = t" using loaded_stored [OF assms(4)] find_row_Some by metis
  ultimately show ?thesis using guards by (simp add: assign_todo_Inr)
qed

lemma assign_until_failure_more:
  "assign_until_failure now a db ps = Inr (rs, Some db') \<Longrightarrow> more_todos db db'"
proof (induction ps arbitrary: db rs)
  case (Cons p ps)
  then obtain t created db1 rs' where 1: "assign_todo now (db_todos db) db a p = Inr (t, created, db1)"
    and 2: "assign_until_failure now a db1 ps = Inr (rs', Some db')"
    by (auto simp: bindE_Inr_iff split: sum.splits if_splits prod.splits)
  from assign_todo_more [OF 1] Cons.IH [OF 2] show ?case using more_todos_trans by blast
qed (simp add: more_todos_def)

fun settled :: "todo_outcome \<Rightarrow> todo_outcome" where
  "settled (Created i) = Unchanged i" | "settled (Unchanged i) = Unchanged i" | "settled (Failed e) = Failed e"

lemma assign_until_failure_again:
  assumes "assign_until_failure now a db ps = Inr (rs, Some db')" and "\<forall>p \<in> set ps. tr_status p = ''open''"
    and "more_todos db' later" and "distinct (map td_id (db_todos later))"
  shows "assign_until_failure now' a later ps = Inr (map settled rs, Some later)"
  using assms(1,2)
proof (induction ps arbitrary: db rs)
  case (Cons p ps)
  then obtain t created db1 rs' where 1: "assign_todo now (db_todos db) db a p = Inr (t, created, db1)"
    and 2: "assign_until_failure now a db1 ps = Inr (rs', Some db')" and rs: "rs = outcome_of t created # rs'"
    by (auto simp: bindE_Inr_iff split: sum.splits if_splits prod.splits)
  have "more_todos db1 later" using assign_until_failure_more [OF 2] assms(3) more_todos_trans by blast
  from assign_todo_again [OF 1 _ this assms(4)] Cons.prems(2)
  have "assign_todo now' (db_todos later) later a p = Inr (t, False, later)" by simp
  moreover have "assign_until_failure now' a later ps = Inr (map settled rs', Some later)"
    using Cons.IH [OF 2] Cons.prems(2) by simp
  ultimately show ?case by (simp add: rs outcome_of_def)
qed simp

text \<open>A batch of open assignments that was applied as a whole can be sent again: every item answers
  with the todo it already has, and no todo is added or changed.\<close>

theorem a_repeated_batch_changes_nothing:
  assumes "bulk_create_todos now db a ps ''abort'' = Inr (r, db')" and "bo_applied r"
    and "\<forall>p \<in> set ps. tr_status p = ''open''" and "distinct (map td_id (db_todos db'))"
  shows "\<exists>r' db''. bulk_create_todos now' db' a ps ''abort'' = Inr (r', db'') \<and>
    bo_results r' = map settled (bo_results r) \<and> db_todos db'' = db_todos db'"
proof -
  from assms(1) obtain r1 db1 where perm: "require_permission a ''todos.assign'' None = Inr ()"
    and all: "assign_all_or_nothing now db a ps = Inr (r1, db1)"
    and rest: "(if \<not> bo_applied r1 then Inr (r1, db) else Inr (r1, record_audit (ac_tenant_id a) ''todo.bulk_assigned''
       ''tenant'' (ac_tenant_id a) (Some (label a)) db1)) = (Inr (r, db') :: (bulk_outcome \<times> db) result)"
    unfolding bulk_create_todos_def bindE_Inr_iff by (auto split: prod.splits)
  have r1: "r1 = r" using rest by (simp split: if_splits)
  with rest assms(2) have db': "db' = record_audit (ac_tenant_id a) ''todo.bulk_assigned'' ''tenant''
      (ac_tenant_id a) (Some (label a)) db1" by simp
  from all assms(2) obtain rs where run: "assign_until_failure now a db ps = Inr (rs, Some db1)" and r: "bo_results r = rs"
    unfolding assign_all_or_nothing_def bindE_Inr_iff r1 by (auto split: option.splits)
  have "more_todos db1 db'" by (simp add: more_todos_def db' store_simps)
  from assign_until_failure_again [OF run assms(3) this assms(4)] show ?thesis
    by (simp add: bulk_create_todos_def assign_all_or_nothing_def perm r store_simps)
qed

end
