(* ===== verification/Approval_Examples.thy ===== *)
theory Approval_Examples
  imports Batch_Laws
begin

text \<open>
  The approval handlers on concrete workspaces: witnesses for the properties with hypotheses, and the
  behaviours that differ from what the handlers say they do.
\<close>

definition staff :: "uuid \<Rightarrow> row" where
  "staff i = blank_row\<lparr>row_model := Employee, row_id := i, row_status := ''active''\<rparr>"

definition timesheet :: row where
  "timesheet = blank_row\<lparr>row_model := TimesheetHeader, row_id := ''h'', row_status := ''submitted'', row_employee_id := Some ''e''\<rparr>"

definition desk :: "row list \<Rightarrow> actor \<Rightarrow> todo list \<Rightarrow> db" where
  "desk rows a ts = blank_db\<lparr>db_actor := Some a, db_rows := [staff ''e'', staff ''m''] @ rows, db_todos := ts\<rparr>"

definition work :: "uuid \<Rightarrow> uuid \<Rightarrow> string \<Rightarrow> uuid \<Rightarrow> string \<Rightarrow> todo" where
  "work i who entity_type entity_id kind = demo_todo\<lparr>td_id := i, td_employee_id := who, td_entity_type := entity_type,
     td_entity_id := entity_id, td_todo_type := Some kind, td_title := ''decide''\<rparr>"

definition fact :: "string \<Rightarrow> uuid \<Rightarrow> string \<Rightarrow> string option \<Rightarrow> handoff_request option \<Rightarrow> approval_request" where
  "fact entity_type entity_id action document_status handoff = \<lparr>
     ar_entity_type = entity_type, ar_entity_id = entity_id, ar_round_no = 1, ar_sequence_no = 2, ar_action = action,
     ar_approver_id = None, ar_approver_role = None, ar_metadata_keys = [], ar_document_status = document_status,
     ar_handoff = handoff, ar_acted_at = None\<rparr>"

definition rework_for :: "uuid \<Rightarrow> handoff_request" where
  "rework_for who = \<lparr>ho_employee_id = who, ho_title = ''fix it'', ho_description = None, ho_todo_type = Some ''rework'',
     ho_due_at = None, ho_round_no = None, ho_sequence_no = None\<rparr>"

definition assignment :: "uuid \<Rightarrow> string \<Rightarrow> uuid \<Rightarrow> todo_request" where
  "assignment who entity_type entity_id = \<lparr>
     tr_employee_id = who, tr_entity_type = entity_type, tr_entity_id = entity_id, tr_title = ''decide'',
     tr_description = None, tr_todo_type = Some ''approval'', tr_status = ''open'', tr_due_at = None,
     tr_created_by = None, tr_round_no = Some 1, tr_sequence_no = Some 2\<rparr>"

definition manager :: actor where
  "manager = with_grants [''approval.record'', ''timesheet.advance'', ''todos.assign'', ''timesheet.read_all'', ''todos.complete_own'']
     (blank_actor\<lparr>ac_employee_id := Some ''m''\<rparr>)"

definition refusal :: "'a result \<Rightarrow> http_error option" where
  "refusal r = (case r of Inl e \<Rightarrow> Some e | Inr _ \<Rightarrow> None)"

subsection \<open>Where the handlers and what they say part\<close>

text \<open>Recording a fact moves a document of a family without an advance verb for anyone who may record
  facts: a member who may not manage contracts signs one by commenting on it, although the same move
  through the contract's own PATCH needs \<open>contract.manage\<close>.\<close>

theorem a_comment_signs_a_contract:
  "let contract = blank_row\<lparr>row_model := Contract, row_id := ''k'', row_status := ''draft'', row_side := ''sales''\<rparr>;
       member = with_grants [''approval.record''] blank_actor
   in \<not> has_permission member ''contract.manage'' (Some (row_side contract)) \<and>
      (case create_approval_record 10 (desk [contract] member []) member (fact ''contract'' ''k'' ''commented'' (Some ''signed'') None) of
         Inr (x, ids, db') \<Rightarrow> map_option row_status (get_row db' Contract ''k'') = Some ''signed''
       | Inl _ \<Rightarrow> False)"
  by code_simp

text \<open>An approver who finalises a document in the call that decides it loses the completion of their
  own todo: the answer names it as completed, the table says it was cancelled.\<close>

theorem a_final_approval_cancels_the_approvers_todo:
  "case create_approval_record 10 (desk [timesheet] manager [work ''w'' ''m'' ''timesheet_header'' ''h'' ''approval'']) manager
          (fact ''timesheet_header'' ''h'' ''approved'' (Some ''approved'') None) of
     Inr (x, ids, db') \<Rightarrow> ids = [''w''] \<and> map td_state (db_todos db') = [''cancelled''] \<and>
       map td_completed_at (db_todos db') = [Some 10]
   | Inl _ \<Rightarrow> False"
  by code_simp

text \<open>Without the status in the same call the todo is completed.\<close>

lemma a_plain_approval_completes_the_approvers_todo:
  "case create_approval_record 10 (desk [timesheet] manager [work ''w'' ''m'' ''timesheet_header'' ''h'' ''approval'']) manager
          (fact ''timesheet_header'' ''h'' ''approved'' None None) of
     Inr (x, ids, db') \<Rightarrow> ids = [''w''] \<and> map td_state (db_todos db') = [''completed'']
   | Inl _ \<Rightarrow> False"
  by code_simp

text \<open>A handoff onto a document that is finished is refused by name, unless the document is a return: its
  final state is looked up in the order's machine, which does not know it.\<close>

lemma a_finished_return_takes_a_handoff:
  "let return = blank_row\<lparr>row_model := SalesOrder, row_id := ''o'', row_status := ''received'', row_order_kind := ''return''\<rparr>;
       desk_actor = with_grants [''approval.record'', ''order.advance''] blank_actor
   in (case create_approval_record 10 (desk [return] desk_actor []) desk_actor
            (fact ''sales_order'' ''o'' ''approved'' (Some ''refunded'') (Some (rework_for ''e''))) of
         Inr (x, ids, db') \<Rightarrow> is_terminal_state DEFAULT_SALES_RETURN_MACHINE ''refunded'' \<and>
           map row_status (filter (\<lambda>r. row_model r = SalesOrder) (db_rows db')) = [''refunded''] \<and>
           map td_state (db_todos db') = [''open'']
       | Inl _ \<Rightarrow> False)"
  by code_simp

lemma a_finished_order_takes_no_handoff:
  "let order = blank_row\<lparr>row_model := SalesOrder, row_id := ''o'', row_status := ''submitted''\<rparr>;
       desk_actor = with_grants [''approval.record'', ''order.advance''] blank_actor
   in refusal (create_approval_record 10 (desk [order] desk_actor []) desk_actor
        (fact ''sales_order'' ''o'' ''rejected'' (Some ''rejected'') (Some (rework_for ''e'')))) =
      Some (HttpError 409 ''a_handoff_there_could_never_be_acted_on'')"
  by code_simp

text \<open>The hosted agent's own retry is refused once the first call has moved the document out of its queue.\<close>

lemma a_hosted_retry_is_refused:
  "let hosted = with_grants HOSTED_FLOW_AGENT_PERMISSIONS (blank_actor\<lparr>ac_kind := ''service'',
         ac_principal_kind := PRINCIPAL_HOSTED_FLOW_AGENT,
         ac_write_scope := Some [(''timesheet_header'', [(''status'', JStr ''submitted'')])]\<rparr>);
       p = fact ''timesheet_header'' ''h'' ''returned'' (Some ''returned'') None
   in (case create_approval_record 10 (desk [timesheet] hosted []) hosted p of
         Inr (x, ids, db') \<Rightarrow> recorded_fact db' ''t'' p = Some x \<and>
           refusal (create_approval_record 20 db' hosted p) = Some (HttpError 403 ''outside_this_subscription'')
       | Inl _ \<Rightarrow> False)"
  by code_simp

text \<open>Returning a document to someone whose own approval todo the return has just closed is a conflict
  with that todo.\<close>

lemma a_return_to_an_approver_is_refused:
  "refusal (create_approval_record 10 (desk [timesheet] manager [work ''w'' ''e'' ''timesheet_header'' ''h'' ''approval'']) manager
     (fact ''timesheet_header'' ''h'' ''returned'' (Some ''returned'') (Some (rework_for ''e'')))) =
   Some (HttpError 409 ''an_open_todo_already_exists'')"
  by code_simp

text \<open>Opening a closed todo again beside an open one is the database's error.\<close>

lemma reopening_beside_an_open_todo_is_an_internal_error:
  "refusal (update_todo 10 (desk [timesheet] manager
       [work ''w'' ''m'' ''timesheet_header'' ''h'' ''approval'',
        (work ''v'' ''m'' ''timesheet_header'' ''h'' ''approval'')\<lparr>td_state := ''completed''\<rparr>]) manager ''v''
     \<lparr>tu_status = Some (Some ''open''), tu_completed_by = None, tu_due_at = None, tu_title = None, tu_description = None\<rparr>) =
   Some (HttpError 500 ''IntegrityError'')"
  by code_simp

subsection \<open>Witnesses\<close>

definition decided_desk :: db where
  "decided_desk = snd (snd (projr (create_approval_record 10
     (desk [timesheet] manager [work ''w'' ''m'' ''timesheet_header'' ''h'' ''approval'']) manager
     (fact ''timesheet_header'' ''h'' ''approved'' None None))))"

lemma decided_desk_works:
  "works (desk [timesheet] manager [work ''w'' ''m'' ''timesheet_header'' ''h'' ''approval'']) decided_desk"
proof -
  let ?d = "desk [timesheet] manager [work ''w'' ''m'' ''timesheet_header'' ''h'' ''approval'']"
  let ?e = "RecordFact (fact ''timesheet_header'' ''h'' ''approved'' None None)"
  have "is_ok (create_approval_record 10 ?d manager (fact ''timesheet_header'' ''h'' ''approved'' None None))" by code_simp
  then have "work_step 10 ?d manager ?e = Inr decided_desk"
    by (auto simp: is_ok_iff decided_desk_def)
  with works_refl show ?thesis by (rule works_step)
qed

theorem a_step_holds_one_decision_witness:
  "distinct (map node_of (filter standing (db_approvals decided_desk)))"
proof -
  have "no_clashes (db_approvals (desk [timesheet] manager [work ''w'' ''m'' ''timesheet_header'' ''h'' ''approval'']))"
    by (simp add: desk_def blank_db_def no_clashes_def)
  with a_step_holds_one_decision [OF decided_desk_works] show ?thesis by blast
qed

theorem nobody_holds_two_open_todos_witness: "one_open_todo_each (db_todos decided_desk)"
proof -
  have "one_open_todo_each (db_todos (desk [timesheet] manager [work ''w'' ''m'' ''timesheet_header'' ''h'' ''approval'']))"
    by (simp add: desk_def one_open_todo_each_def)
  with nobody_holds_two_open_todos [OF decided_desk_works] show ?thesis .
qed


theorem a_decision_closes_its_work_witness:
  "\<not> list_ex (\<lambda>t. open_for ''t'' ''m'' ''timesheet_header'' ''h'' t \<and> td_todo_type t = Some ''approval'')
     (take 1 (db_todos decided_desk))"
proof -
  let ?d = "desk [timesheet] manager [work ''w'' ''m'' ''timesheet_header'' ''h'' ''approval'']"
  let ?p = "fact ''timesheet_header'' ''h'' ''approved'' None None"
  let ?x = "create_approval_record 10 ?d manager ?p"
  have "is_ok ?x" by code_simp
  then have 1: "?x = Inr (fst (projr ?x), fst (snd (projr ?x)), decided_desk)"
    using is_ok_projr [of ?x] by (simp add: decided_desk_def)
  have 2: "recorded_fact ?d (ac_tenant_id manager) ?p = None" by (simp add: recorded_fact_def desk_def blank_db_def)
  have 3: "one_open_todo_each (db_todos ?d)" by (simp add: desk_def one_open_todo_each_def)
  have 4: "ar_action ?p \<in> {''approved'', ''rejected''} \<and> ac_employee_id manager = Some ''m''" by code_simp
  have 5: "ac_tenant_id manager = ''t''" "ar_entity_type ?p = ''timesheet_header''" "ar_entity_id ?p = ''h''"
    "length (db_todos ?d) = 1" by code_simp+
  from a_decision_closes_its_work [OF 1 2 3, of "''m''"] 4 show ?thesis unfolding 5 by blast
qed

theorem abort_is_skip_or_nothing_witness:
  "\<exists>r'. bulk_create_todos 10 (desk [timesheet] manager []) manager
      [assignment ''m'' ''timesheet_header'' ''h'', assignment ''m'' ''timesheet_header'' ''none''] ''abort'' =
      Inr (r', desk [timesheet] manager []) \<and> \<not> bo_applied r'"
proof -
  let ?ps = "[assignment ''m'' ''timesheet_header'' ''h'', assignment ''m'' ''timesheet_header'' ''none'']"
  let ?x = "bulk_create_todos 10 (desk [timesheet] manager []) manager ?ps ''skip''"
  have "is_ok ?x" by code_simp
  then have 1: "?x = Inr (fst (projr ?x), snd (projr ?x))" using is_ok_projr [of ?x] by simp
  have 2: "list_ex is_failed (bo_results (fst (projr ?x)))" by code_simp
  from abort_is_skip_or_nothing [OF 1] 2 show ?thesis by simp
qed

theorem a_repeated_batch_changes_nothing_witness:
  "\<exists>r db. bulk_create_todos 20 (snd (projr (bulk_create_todos 10 (desk [timesheet] manager []) manager
      [assignment ''m'' ''timesheet_header'' ''h''] ''abort''))) manager [assignment ''m'' ''timesheet_header'' ''h''] ''abort'' =
      Inr (r, db) \<and> length (db_todos db) = 1"
proof -
  let ?ps = "[assignment ''m'' ''timesheet_header'' ''h'']"
  let ?x = "bulk_create_todos 10 (desk [timesheet] manager []) manager ?ps ''abort''"
  have "is_ok ?x" by code_simp
  then have 1: "?x = Inr (fst (projr ?x), snd (projr ?x))" using is_ok_projr [of ?x] by simp
  have 2: "bo_applied (fst (projr ?x))" by code_simp
  have 3: "\<forall>p \<in> set ?ps. tr_status p = ''open''" by (simp add: assignment_def)
  have 4: "distinct (map td_id (db_todos (snd (projr ?x))))" by code_simp
  have 5: "length (db_todos (snd (projr ?x))) = 1" by code_simp
  from a_repeated_batch_changes_nothing [OF 1 2 3 4, of 20] 5 show ?thesis by metis
qed

end
