(* ===== verification/Numbering.thy ===== *)
theory Numbering
  imports Text_Ops
begin

text \<open>
  Document numbers (\<open>app/api/common/numbering.py\<close>, \<open>allocate_document_number\<close>) and what Python's
  \<open>f"{n:06d}"\<close> and \<open>int(s)\<close> make of each other.

  \<open>numbers\<close> are the numbers the tenant's rows of the table carry, deleted rows included. Text is compared
  character by character, as under the C collation (decimal digits compare that way under every
  collation). The advisory lock is the one transaction at a time of the model.
\<close>

subsection \<open>Decimal text\<close>

definition digit :: "nat \<Rightarrow> char" where
  "digit d = char_of (48 + d)"

definition digit_val :: "char \<Rightarrow> nat option" where
  "digit_val c = (let n = of_char c :: nat in if 48 \<le> n \<and> n \<le> 57 then Some (n - 48) else None)"

fun decimal_text :: "nat \<Rightarrow> string" where
  "decimal_text n = (if n < 10 then [digit n] else decimal_text (n div 10) @ [digit (n mod 10)])"

declare decimal_text.simps [simp del]

text \<open>\<open>int(s)\<close>: surrounding blanks, a sign, digits with single underscores between them. \<open>ok\<close>: the last
  character was a digit.\<close>

fun int_digits :: "nat \<Rightarrow> bool \<Rightarrow> string \<Rightarrow> nat option" where
  "int_digits acc ok [] = (if ok then Some acc else None)"
| "int_digits acc ok (c # s) =
     (case digit_val c of
        Some d \<Rightarrow> int_digits (acc * 10 + d) True s
      | None \<Rightarrow> if c = CHR ''_'' \<and> ok then int_digits acc False s else None)"

definition py_int :: "string \<Rightarrow> int option" where
  "py_int s =
     (case strip s of
        [] \<Rightarrow> None
      | c # r \<Rightarrow>
          if c = CHR ''-'' then map_option (\<lambda>n. - int n) (int_digits 0 False r)
          else if c = CHR ''+'' then map_option int (int_digits 0 False r)
          else map_option int (int_digits 0 False (c # r)))"

definition zero_padded :: "nat \<Rightarrow> string \<Rightarrow> string" where
  "zero_padded width s = replicate (width - length s) (CHR ''0'') @ s"

text \<open>\<open>f"{n:06d}"\<close>: the sign counts in the width.\<close>

definition six_digits :: "int \<Rightarrow> string" where
  "six_digits n = (if n < 0 then CHR ''-'' # zero_padded 5 (decimal_text (nat (- n)))
                   else zero_padded 6 (decimal_text (nat n)))"

subsection \<open>Allocating\<close>

text \<open>\<open>number LIKE prefix || '______'\<close>\<close>

definition in_series :: "string \<Rightarrow> string \<Rightarrow> bool" where
  "in_series prefix number \<longleftrightarrow> startswith number prefix \<and> length number = length prefix + 6"

definition latest_number :: "string list \<Rightarrow> string \<Rightarrow> string option" where
  "latest_number numbers prefix =
     (case filter (in_series prefix) numbers of [] \<Rightarrow> None | n # ns \<Rightarrow> Some (foldr max ns n))"

definition first_sequence :: "string list \<Rightarrow> string \<Rightarrow> int" where
  "first_sequence numbers prefix =
     (case latest_number numbers prefix of
        None \<Rightarrow> 1
      | Some latest \<Rightarrow> (case py_int (drop (length prefix) latest) of Some n \<Rightarrow> n + 1 | None \<Rightarrow> 1))"

text \<open>The \<open>for _ in range(100)\<close>.\<close>

fun probe_numbers :: "nat \<Rightarrow> string list \<Rightarrow> string \<Rightarrow> int \<Rightarrow> string result" where
  "probe_numbers 0 numbers prefix seq = Inl (HttpError 409 ''unable_to_allocate_a_number'')"
| "probe_numbers (Suc k) numbers prefix seq =
     (let candidate = prefix @ six_digits seq in
      if candidate \<notin> set numbers then Inr candidate else probe_numbers k numbers prefix (seq + 1))"

definition allocate_document_number :: "string list \<Rightarrow> string \<Rightarrow> string result" where
  "allocate_document_number numbers prefix = probe_numbers 100 numbers prefix (first_sequence numbers prefix)"

subsection \<open>Decimal text read back\<close>

lemma digit_val_digit [simp]: "d < 10 \<Longrightarrow> digit_val (digit d) = Some d"
  by (simp add: digit_val_def digit_def)

lemma of_char_digit [simp]: "d < 10 \<Longrightarrow> (of_char (digit d) :: nat) = 48 + d"
  by (simp add: digit_def)

lemma zero_digit: "CHR ''0'' = digit 0"
  by code_simp

text \<open>Digits as a list, most significant first; its value.\<close>

definition all_digits :: "string \<Rightarrow> bool" where
  "all_digits s \<longleftrightarrow> list_all (\<lambda>c. \<exists>d < 10. c = digit d) s"

definition text_value :: "nat \<Rightarrow> string \<Rightarrow> nat" where
  "text_value acc s = foldl (\<lambda>a c. a * 10 + the (digit_val c)) acc s"

lemma all_digits_simps [simp]:
  "all_digits []" "all_digits (c # s) \<longleftrightarrow> (\<exists>d < 10. c = digit d) \<and> all_digits s"
  "all_digits (s @ t) \<longleftrightarrow> all_digits s \<and> all_digits t"
  by (simp_all add: all_digits_def)

lemma text_value_simps [simp]:
  "text_value acc [] = acc" "text_value acc (c # s) = text_value (acc * 10 + the (digit_val c)) s"
  "text_value acc (s @ t) = text_value (text_value acc s) t"
  by (simp_all add: text_value_def)

lemma decimal_text_digits: "all_digits (decimal_text n) \<and> decimal_text n \<noteq> [] \<and> text_value 0 (decimal_text n) = n"
proof (induction n rule: decimal_text.induct)
  case (1 n)
  then show ?case
    by (cases "n < 10") (auto simp: decimal_text.simps [of n] intro: exI [of _ "n mod 10"] exI [of _ n])
qed

lemma int_digits_all: "all_digits s \<Longrightarrow> s \<noteq> [] \<or> ok \<Longrightarrow> int_digits acc ok s = Some (text_value acc s)"
proof (induction s arbitrary: acc ok)
  case (Cons c s)
  then obtain d where "d < 10" "c = digit d" by auto
  with Cons show ?case by simp
qed simp

lemma text_value_zeros: "text_value 0 (replicate k (CHR ''0'')) = 0"
  by (induction k) (simp_all add: zero_digit)

lemma all_digits_zeros [simp]: "all_digits (replicate k (CHR ''0''))"
  by (induction k) (auto simp: zero_digit intro: exI [of _ 0])

lemma digit_not_space: "d < 10 \<Longrightarrow> \<not> is_space (digit d)"
  by (simp add: is_space_def)

lemma digit_not_sign: "d < 10 \<Longrightarrow> digit d \<noteq> CHR ''-'' \<and> digit d \<noteq> CHR ''+''"
  by (auto dest!: arg_cong [where f = "of_char :: char \<Rightarrow> nat"])

lemma lstrip_digits: "all_digits s \<Longrightarrow> lstrip s = s"
  using digit_not_space by (cases s) (auto simp: lstrip_def)

lemma all_digits_rev [simp]: "all_digits (rev s) = all_digits s"
  by (auto simp: all_digits_def list_all_iff)

lemma strip_digits: "all_digits s \<Longrightarrow> strip s = s"
  by (simp add: strip_def lstrip_digits)

lemma py_int_digits:
  assumes "all_digits s" and "s \<noteq> []"
  shows "py_int s = Some (int (text_value 0 s))"
proof -
  from assms obtain c r where s: "s = c # r" by (cases s) auto
  with assms(1) obtain d where d: "d < 10" "c = digit d" by auto
  have "int_digits 0 False s = Some (text_value 0 s)" using assms by (simp add: int_digits_all)
  with d digit_not_sign [OF d(1)] show ?thesis
    using strip_digits [OF assms(1)] by (simp add: py_int_def s)
qed

lemma zero_padded_digits:
  "all_digits (zero_padded w (decimal_text n)) \<and> zero_padded w (decimal_text n) \<noteq> [] \<and>
     text_value 0 (zero_padded w (decimal_text n)) = n"
  using decimal_text_digits [of n] by (simp add: zero_padded_def text_value_zeros)

subsection \<open>Text order and number order\<close>

lemma text_value_split: "text_value a s = a * 10 ^ length s + text_value 0 s"
proof (induction s arbitrary: a)
  case (Cons c s)
  from Cons.IH [of "a * 10 + the (digit_val c)"] Cons.IH [of "the (digit_val c)"] show ?case
    by (simp add: algebra_simps)
qed simp

lemma text_value_bound: "all_digits s \<Longrightarrow> text_value 0 s < 10 ^ length s"
proof (induction s)
  case (Cons c s)
  then obtain d where d: "d < 10" "c = digit d" by auto
  with Cons have "d * 10 ^ length s + text_value 0 s < d * 10 ^ length s + 10 ^ length s" by simp
  also have "\<dots> = Suc d * 10 ^ length s" by simp
  also have "\<dots> \<le> 10 * 10 ^ length s" using d(1) by (intro mult_le_mono1) simp
  finally show ?case using d text_value_split [of d s] by simp
qed simp

lemma digit_less: "d < 10 \<Longrightarrow> e < 10 \<Longrightarrow> digit d < digit e \<longleftrightarrow> d < e"
  by (simp add: less_char_def)

lemma digit_eq: "d < 10 \<Longrightarrow> e < 10 \<Longrightarrow> digit d = digit e \<longleftrightarrow> d = e"
  by (metis digit_val_digit option.inject)

lemma digits_less:
  "all_digits s \<Longrightarrow> all_digits t \<Longrightarrow> length s = length t \<Longrightarrow> s < t \<longleftrightarrow> text_value 0 s < text_value 0 t"
proof (induction s arbitrary: t)
  case (Cons c s)
  then obtain c' t' where t: "t = c' # t'" by (cases t) auto
  from Cons.prems t obtain d e where d: "d < 10" "c = digit d" and e: "e < 10" "c' = digit e" by auto
  have IH: "s < t' \<longleftrightarrow> text_value 0 s < text_value 0 t'" using Cons t by simp
  have len: "length t' = length s" using Cons.prems(3) t by simp
  have b: "text_value 0 s < 10 ^ length s" "text_value 0 t' < 10 ^ length s"
    using text_value_bound Cons.prems t len by (metis all_digits_simps(2))+
  have vals: "text_value 0 (c # s) = d * 10 ^ length s + text_value 0 s"
    "text_value 0 t = e * 10 ^ length s + text_value 0 t'"
    using text_value_split [of d s] text_value_split [of e t'] by (simp_all add: d e t len)
  have less: "d * 10 ^ length s + x < e * 10 ^ length s + y" if "d < e" "x < 10 ^ length s" for d e x y :: nat
  proof -
    have "d * 10 ^ length s + x < Suc d * 10 ^ length s" using that(2) by simp
    also have "\<dots> \<le> e * 10 ^ length s" using that(1) by (intro mult_le_mono1) simp
    finally show ?thesis by simp
  qed
  consider "d < e" | "d = e" | "e < d" by linarith
  then show ?case
  proof cases
    case 1
    then show ?thesis using less [OF 1 b(1)] vals by (simp add: t d e digit_less)
  next
    case 2
    then show ?thesis using vals IH by (simp add: t d e)
  next
    case 3
    have "\<not> digit d < digit e" "digit d \<noteq> digit e" using 3 d(1) e(1) by (simp_all add: digit_less digit_eq)
    moreover have "\<not> text_value 0 (c # s) < text_value 0 t" unfolding vals using less [OF 3 b(2), of "text_value 0 s"] by linarith
    ultimately show ?thesis by (simp add: t d(2) e(2) del: text_value_simps)
  qed
qed simp

lemma length_decimal_text: "n < 10 ^ k \<Longrightarrow> 0 < k \<Longrightarrow> length (decimal_text n) \<le> k"
proof (induction n arbitrary: k rule: decimal_text.induct)
  case (1 n)
  show ?case
  proof (cases "n < 10")
    case True
    with 1 show ?thesis by (simp add: decimal_text.simps [of n])
  next
    case False
    with "1.prems" obtain j where k: "k = Suc j" "0 < j" by (cases k; cases "k - 1") auto
    have "n div 10 < 10 ^ j" using "1.prems"(1) k(1) by (simp add: less_mult_imp_div_less mult.commute)
    from "1.IH" [OF False this k(2)] False k(1) show ?thesis by (simp add: decimal_text.simps [of n])
  qed
qed

lemma six_digits_nat: "six_digits (int n) = zero_padded 6 (decimal_text n)"
  by (simp add: six_digits_def)

lemma length_six_digits: "n < 10 ^ 6 \<Longrightarrow> length (six_digits (int n)) = 6"
  using length_decimal_text [of n 6] by (simp add: six_digits_nat zero_padded_def)

lemma a_number_reads_back': "py_int (six_digits (int n)) = Some (int n)"
  using zero_padded_digits [of 6 n] py_int_digits by (simp add: six_digits_nat)

lemma six_digits_less:
  assumes "m < 10 ^ 6" and "n < 10 ^ 6"
  shows "six_digits (int m) < six_digits (int n) \<longleftrightarrow> m < n"
  using digits_less [of "six_digits (int m)" "six_digits (int n)"] zero_padded_digits length_six_digits assms
  by (simp add: six_digits_nat)

lemma prefix_le: "p @ s \<le> p @ t \<longleftrightarrow> s \<le> (t :: string)"
  by (induction p) auto

lemma six_digits_le: "m < 10 ^ 6 \<Longrightarrow> n < 10 ^ 6 \<Longrightarrow> prefix @ six_digits (int m) \<le> prefix @ six_digits (int n) \<longleftrightarrow> m \<le> n"
  using six_digits_less by (metis prefix_le not_le)

subsection \<open>The series\<close>

lemma foldr_max: "foldr max ns n \<in> set (n # ns) \<and> (\<forall>x \<in> set (n # ns). x \<le> foldr max ns (n :: string))"
  by (induction ns) (auto simp: max_def)

lemma latest_number_Some:
  assumes "latest_number numbers prefix = Some x"
  shows "x \<in> set numbers \<and> in_series prefix x \<and> (\<forall>y \<in> set numbers. in_series prefix y \<longrightarrow> y \<le> x)"
proof -
  from assms obtain n ns where f: "filter (in_series prefix) numbers = n # ns" and x: "x = foldr max ns n"
    by (auto simp: latest_number_def split: list.splits)
  have "set (n # ns) = {y \<in> set numbers. in_series prefix y}" unfolding f [symmetric] by auto
  with foldr_max [of ns n] show ?thesis unfolding x by blast
qed

lemma latest_number_None: "latest_number numbers prefix = None \<longleftrightarrow> (\<forall>y \<in> set numbers. \<not> in_series prefix y)"
proof -
  have "latest_number numbers prefix = None \<longleftrightarrow> filter (in_series prefix) numbers = []"
    by (simp add: latest_number_def split: list.splits)
  then show ?thesis by (simp add: filter_empty_conv)
qed

lemma in_series_six: "n < 10 ^ 6 \<Longrightarrow> in_series prefix (prefix @ six_digits (int n))"
  using length_six_digits [of n] by (simp add: in_series_def)

text \<open>Only numbers this function hands out: what a workspace that never names its own has.\<close>

definition only_generated :: "string list \<Rightarrow> string \<Rightarrow> bool" where
  "only_generated numbers prefix \<longleftrightarrow>
     (\<forall>y \<in> set numbers. in_series prefix y \<longrightarrow> (\<exists>n < 1000000. y = prefix @ six_digits (int n)))"

lemma probe_first: "0 < k \<Longrightarrow> prefix @ six_digits seq \<notin> set numbers \<Longrightarrow>
    probe_numbers k numbers prefix seq = Inr (prefix @ six_digits seq)"
  by (cases k) (simp_all add: Let_def)

lemma allocate_next:
  assumes "only_generated numbers prefix"
    and "\<forall>n < 10 ^ 6. prefix @ six_digits (int n) \<in> set numbers \<longrightarrow> n \<le> largest"
    and "largest = 0 \<or> prefix @ six_digits (int largest) \<in> set numbers" and "largest + 1 < 10 ^ 6"
  shows "allocate_document_number numbers prefix = Inr (prefix @ six_digits (int (largest + 1)))"
proof -
  have "first_sequence numbers prefix = int largest + 1"
  proof (cases "latest_number numbers prefix")
    case None
    then have "largest = 0" using assms(3,4) latest_number_None in_series_six [of largest prefix] by auto
    with None show ?thesis by (simp add: first_sequence_def)
  next
    case (Some x)
    note x = latest_number_Some [OF Some]
    with assms(1) obtain n where n: "n < 10 ^ 6" "x = prefix @ six_digits (int n)" by (auto simp: only_generated_def)
    have "n \<le> largest" using assms(2) n x by blast
    moreover have "largest \<le> n"
    proof (cases "largest = 0")
      case False
      then have "prefix @ six_digits (int largest) \<le> x" using assms(3,4) x in_series_six [of largest prefix] by simp
      then show ?thesis using assms(4) n six_digits_le [of largest n prefix] by simp
    qed simp
    ultimately show ?thesis using Some n a_number_reads_back' [of n] by (simp add: first_sequence_def)
  qed
  moreover have "prefix @ six_digits (int largest + 1) \<notin> set numbers"
    using assms(2,4) by (metis Suc_eq_plus1 int_ops(4) add.commute not_less_eq_eq order_refl)
  ultimately show ?thesis by (simp add: allocate_document_number_def probe_first add.commute)
qed

text \<open>Allocating and inserting, again and again.\<close>

fun allocate_many :: "nat \<Rightarrow> string list \<Rightarrow> string \<Rightarrow> string list result" where
  "allocate_many 0 numbers prefix = Inr numbers"
| "allocate_many (Suc k) numbers prefix =
     bindE (allocate_document_number numbers prefix) (\<lambda>n. allocate_many k (numbers @ [n]) prefix)"

definition series :: "string \<Rightarrow> nat \<Rightarrow> nat \<Rightarrow> string list" where
  "series prefix i j = map (\<lambda>n. prefix @ six_digits (int n)) [i..<j]"

lemma six_digits_inj: "m < 10 ^ 6 \<Longrightarrow> n < 10 ^ 6 \<Longrightarrow> six_digits (int m) = six_digits (int n) \<longleftrightarrow> m = n"
  by (metis a_number_reads_back' of_nat_eq_iff option.inject)

lemma allocate_many_from:
  assumes "\<forall>y \<in> set others. \<not> in_series prefix y" and "done + k < 1000000"
  shows "allocate_many k (others @ series prefix 1 (Suc done)) prefix = Inr (others @ series prefix 1 (Suc (done + k)))"
  using assms(2)
proof (induction k arbitrary: "done")
  case (Suc k)
  let ?ns = "others @ series prefix 1 (Suc done)"
  have mem: "prefix @ six_digits (int n) \<in> set ?ns \<longleftrightarrow> 1 \<le> n \<and> n \<le> done" if "n < 10 ^ 6" for n
  proof -
    have "prefix @ six_digits (int n) \<notin> set others" using assms(1) in_series_six [OF that, of prefix] by blast
    moreover have "six_digits (int n) \<in> (\<lambda>i. six_digits (int i)) ` {1..done} \<longleftrightarrow> n \<in> {1..done}"
      using that Suc.prems six_digits_inj by fastforce
    ultimately show ?thesis by (auto simp: series_def image_iff)
  qed
  have "only_generated ?ns prefix"
    unfolding only_generated_def
  proof (intro ballI impI)
    fix y
    assume "y \<in> set ?ns" and "in_series prefix y"
    with assms(1) obtain n where "1 \<le> n" "n \<le> done" "y = prefix @ six_digits (int n)" by (auto simp: series_def)
    with Suc.prems show "\<exists>n < 1000000. y = prefix @ six_digits (int n)" by (intro exI [of _ n]) simp
  qed
  from allocate_next [OF this, of "done"] mem Suc.prems
  have "allocate_document_number ?ns prefix = Inr (prefix @ six_digits (int (done + 1)))" by fastforce
  moreover have "?ns @ [prefix @ six_digits (int (done + 1))] = others @ series prefix 1 (Suc (Suc done))"
    by (simp add: series_def)
  ultimately show ?case using Suc.IH [of "Suc done"] Suc.prems by simp
qed simp

text \<open>C22: A workspace that lets the server number its documents gets an unbroken series: the k-th document
  is \<open>prefix\<close> followed by k, up to the 999999th, whatever other numbers stand in the same table.\<close>

theorem the_series_counts_up:
  assumes "\<forall>y \<in> set others. \<not> in_series prefix y" and "k < 1000000"
  shows "allocate_many k others prefix = Inr (others @ series prefix 1 (Suc k))"
  using allocate_many_from [of others prefix 0 k] assms by (simp add: series_def)

theorem the_series_counts_up_witness:
  "allocate_many 3 [''SO-000007''] ''INV-'' =
     Inr [''SO-000007'', ''INV-000001'', ''INV-000002'', ''INV-000003'']"
proof -
  have 1: "\<forall>y \<in> set [''SO-000007'']. \<not> in_series ''INV-'' y" by (simp add: in_series_def startswith_def)
  have 2: "series ''INV-'' 1 (Suc 3) = [''INV-000001'', ''INV-000002'', ''INV-000003'']" by code_simp
  from the_series_counts_up [OF 1, of 3] show ?thesis unfolding 2 by simp
qed

subsection \<open>Where the series stops\<close>

lemma probe_all_taken:
  "(\<forall>i < k. prefix @ six_digits (seq + int i) \<in> set numbers) \<Longrightarrow>
     probe_numbers k numbers prefix seq = Inl (HttpError 409 ''unable_to_allocate_a_number'')"
proof (induction k arbitrary: seq)
  case (Suc k)
  have "prefix @ six_digits (seq + 1 + int i) \<in> set numbers" if "i < k" for i
    using Suc.prems [rule_format, of "Suc i"] that by (simp add: add.assoc)
  with Suc.IH [of "seq + 1"] Suc.prems [rule_format, of 0] show ?case by (simp add: Let_def)
qed simp

text \<open>The number search gives up for good in two situations: once a number of the series' width that is
  not a number (a letter anywhere in its last six characters) sorts last and the first hundred are taken,
  and once the hundred numbers after the millionth are.\<close>

theorem the_series_gets_stuck:
  assumes "latest_number numbers prefix = Some x"
    and "py_int (drop (length prefix) x) = None \<and> seq = 1 \<or> py_int (drop (length prefix) x) = Some (seq - 1)"
    and "\<forall>i < 100. prefix @ six_digits (seq + int i) \<in> set numbers"
  shows "allocate_document_number numbers prefix = Inl (HttpError 409 ''unable_to_allocate_a_number'')"
proof -
  have "first_sequence numbers prefix = seq" using assms(1,2) by (auto simp: first_sequence_def)
  with probe_all_taken [OF assms(3)] show ?thesis by (simp add: allocate_document_number_def)
qed

lemma latest_numberI:
  assumes "x \<in> set numbers" and "in_series prefix x" and "\<And>y. y \<in> set numbers \<Longrightarrow> y \<le> x"
  shows "latest_number numbers prefix = Some x"
proof (cases "latest_number numbers prefix")
  case None
  with assms(1,2) latest_number_None show ?thesis by blast
next
  case (Some z)
  from latest_number_Some [OF this] assms have "z \<le> x" "x \<le> z" by blast+
  with Some show ?thesis by simp
qed

lemma digits_before_letters: "''INV-'' @ six_digits (int n) \<le> ''INV-SAMPLE''"
proof -
  from zero_padded_digits [of 6 n] obtain d r where "d < 10" "six_digits (int n) = digit d # r"
    by (cases "six_digits (int n)") (auto simp: six_digits_nat)
  moreover have "digit d < CHR ''S''" if "d < 10" for d using that by (simp add: less_char_def)
  ultimately show ?thesis by (simp add: less_imp_le)
qed

theorem the_series_gets_stuck_witness:
  "allocate_document_number (''INV-SAMPLE'' # series ''INV-'' 1 101) ''INV-'' =
     Inl (HttpError 409 ''unable_to_allocate_a_number'')"
proof -
  let ?ns = "''INV-SAMPLE'' # series ''INV-'' 1 101"
  have "in_series ''INV-'' ''INV-SAMPLE''" by code_simp
  moreover have "y \<le> ''INV-SAMPLE''" if "y \<in> set ?ns" for y
    using that digits_before_letters by (auto simp: series_def)
  ultimately have 1: "latest_number ?ns ''INV-'' = Some ''INV-SAMPLE''" by (intro latest_numberI) simp_all
  have 2: "py_int (drop (length ''INV-'') ''INV-SAMPLE'') = None" by code_simp
  have 3: "\<forall>i < 100. ''INV-'' @ six_digits (1 + int i) \<in> set ?ns"
  proof (intro allI impI)
    fix i :: nat
    assume "i < 100"
    then have "''INV-'' @ six_digits (int (Suc i)) \<in> set (series ''INV-'' 1 101)"
      unfolding series_def set_map by (intro image_eqI [of _ _ "Suc i"]) simp_all
    then show "''INV-'' @ six_digits (1 + int i) \<in> set ?ns" by simp
  qed
  from the_series_gets_stuck [OF 1 _ 3] 2 show ?thesis by blast
qed

end
