(* ===== verification/Names.thy ===== *)
theory Names
  imports Numbering "HOL-Library.Product_Lexorder"
begin

text \<open>
  Names that must be free: a tenant's slug (\<open>app/services/tenants.py\<close>) and the names its skills install
  under (\<open>app/services/bundles.py\<close>). Both search with an unbounded \<open>while\<close>; the definitions are total
  because each step leaves one taken name behind.

  \<open>random\<close> stands for \<open>uuid4().hex[:8]\<close>, \<open>digest6\<close> for \<open>sha256(...).hexdigest()[:6]\<close>, \<open>brand\<close> for the
  environment's setting.
\<close>

definition SLUG_MAX_LENGTH :: nat where
  "SLUG_MAX_LENGTH = 24"

definition MAX_INSTALLED_NAME :: nat where
  "MAX_INSTALLED_NAME = 63"

subsection \<open>The slug of a domain\<close>

definition slug_char :: "char \<Rightarrow> bool" where
  "slug_char c = (let n = of_char c :: nat in 97 \<le> n \<and> n \<le> 122 \<or> 48 \<le> n \<and> n \<le> 57)"

text \<open>\<open>re.sub(r"[^a-z0-9]+", "-", s)\<close>; \<open>inside\<close>: the last character belonged to a run already replaced.\<close>

fun dashed :: "bool \<Rightarrow> string \<Rightarrow> string" where
  "dashed inside [] = []"
| "dashed inside (c # s) =
     (if slug_char c then c # dashed False s
      else if inside then dashed True s else CHR ''-'' # dashed True s)"

definition strip_dashes :: "string \<Rightarrow> string" where
  "strip_dashes s = rev (dropWhile (\<lambda>c. c = CHR ''-'') (rev (dropWhile (\<lambda>c. c = CHR ''-'') s)))"

definition slugify_domain :: "string option \<Rightarrow> string" where
  "slugify_domain email_domain =
     (let head = hd (split_on (CHR ''.'') (lower (strip (case email_domain of None \<Rightarrow> [] | Some d \<Rightarrow> d))))
      in strip_dashes (take SLUG_MAX_LENGTH (strip_dashes (dashed False head))))"

text \<open>\<open>s[:n]\<close>, where a negative \<open>n\<close> counts from the end.\<close>

definition py_head :: "string \<Rightarrow> int \<Rightarrow> string" where
  "py_head s n = (if n < 0 then take (length s - nat (- n)) s else take (nat n) s)"

definition numbered_slug :: "string \<Rightarrow> nat \<Rightarrow> string" where
  "numbered_slug base suffix =
     (let tail = CHR ''-'' # decimal_text suffix
      in strip_dashes (py_head base (int SLUG_MAX_LENGTH - int (length tail))) @ tail)"

lemma digits_no_dash: "CHR ''-'' \<notin> set (decimal_text n)"
proof
  assume "CHR ''-'' \<in> set (decimal_text n)"
  with decimal_text_digits [of n] obtain d where "d < 10" "CHR ''-'' = digit d"
    by (auto simp: all_digits_def list_all_iff)
  with digit_not_sign show False by metis
qed

lemma after_last_dash:
  "CHR ''-'' \<notin> set t \<Longrightarrow> takeWhile (\<lambda>c. c \<noteq> CHR ''-'') (rev (h @ CHR ''-'' # t)) = rev t"
  by (simp add: takeWhile_append1 takeWhile_tail) (metis (mono_tags, lifting) rev_rev_ident set_rev takeWhile_append2 takeWhile_eq_all_conv)

lemma numbered_slug_inj: "numbered_slug base j = numbered_slug base k \<Longrightarrow> j = k"
proof -
  assume eq: "numbered_slug base j = numbered_slug base k"
  have "takeWhile (\<lambda>c. c \<noteq> CHR ''-'') (rev (numbered_slug base i)) = rev (decimal_text i)" for i
    unfolding numbered_slug_def Let_def by (rule after_last_dash) (rule digits_no_dash)
  with eq have "decimal_text j = decimal_text k" by (metis rev_rev_ident)
  then show "j = k" by (metis decimal_text_digits)
qed

definition taken_from :: "string list \<Rightarrow> string \<Rightarrow> nat \<Rightarrow> string set" where
  "taken_from slugs base suffix = {s \<in> set slugs. \<exists>j \<ge> suffix. s = numbered_slug base j}"

lemma finite_taken [simp]: "finite (taken_from slugs base suffix)"
  by (simp add: taken_from_def)

lemma taken_from_Suc:
  "taken_from slugs base suffix =
     (if numbered_slug base suffix \<in> set slugs then insert (numbered_slug base suffix) (taken_from slugs base (Suc suffix))
      else taken_from slugs base (Suc suffix))"
proof -
  have "(\<exists>j \<ge> suffix. s = numbered_slug base j) \<longleftrightarrow>
      s = numbered_slug base suffix \<or> (\<exists>j \<ge> Suc suffix. s = numbered_slug base j)" for s
    by (metis Suc_leD Suc_leI le_neq_implies_less order_refl)
  then show ?thesis by (auto simp: taken_from_def)
qed

lemma card_taken_from:
  "card (taken_from slugs base suffix) =
     card (taken_from slugs base (Suc suffix)) + (if numbered_slug base suffix \<in> set slugs then 1 else 0)"
proof -
  have "numbered_slug base suffix \<notin> taken_from slugs base (Suc suffix)"
    using numbered_slug_inj by (fastforce simp: taken_from_def)
  then show ?thesis by (subst taken_from_Suc) simp
qed

function free_slug :: "string list \<Rightarrow> string \<Rightarrow> nat \<Rightarrow> string \<Rightarrow> string" where
  "free_slug slugs base suffix candidate =
     (if candidate \<in> set slugs then free_slug slugs base (Suc suffix) (numbered_slug base suffix) else candidate)"
  by pat_completeness auto
termination
proof (relation "measure (\<lambda>(slugs, base, suffix, candidate).
    card (taken_from slugs base suffix) + (if candidate \<in> set slugs then 1 else 0))")
  show "wf (measure (\<lambda>(slugs, base, suffix, candidate).
      card (taken_from slugs base suffix) + (if candidate \<in> set slugs then 1 else 0)))" by simp
next
  fix slugs :: "string list" and base suffix candidate
  assume "candidate \<in> set slugs"
  then show "((slugs, base, Suc suffix, numbered_slug base suffix), slugs, base, suffix, candidate)
      \<in> measure (\<lambda>(slugs, base, suffix, candidate).
        card (taken_from slugs base suffix) + (if candidate \<in> set slugs then 1 else 0))"
    using card_taken_from [of slugs base suffix] by simp
qed

declare free_slug.simps [simp del]

definition derive_tenant_slug :: "string list \<Rightarrow> string \<Rightarrow> string option \<Rightarrow> string" where
  "derive_tenant_slug slugs random email_domain =
     (let slug = slugify_domain email_domain;
          base = (if slug = [] then ''t-'' @ random else slug)
      in free_slug slugs base 2 base)"

lemma free_slug_result:
  "\<exists>k. k \<le> card (taken_from slugs base suffix) + (if candidate \<in> set slugs then 1 else 0) \<and>
     free_slug slugs base suffix candidate = (if k = 0 then candidate else numbered_slug base (suffix + k - 1)) \<and>
     free_slug slugs base suffix candidate \<notin> set slugs"
proof (induction slugs base suffix candidate rule: free_slug.induct)
  case (1 slugs base suffix candidate)
  show ?case
  proof (cases "candidate \<in> set slugs")
    case False
    then show ?thesis by (intro exI [of _ 0]) (simp add: free_slug.simps [of slugs base suffix candidate])
  next
    case True
    from "1.IH" [OF True] obtain k where
      k: "k \<le> card (taken_from slugs base (Suc suffix)) + (if numbered_slug base suffix \<in> set slugs then 1 else 0)"
      "free_slug slugs base (Suc suffix) (numbered_slug base suffix) =
         (if k = 0 then numbered_slug base suffix else numbered_slug base (Suc suffix + k - 1))"
      "free_slug slugs base (Suc suffix) (numbered_slug base suffix) \<notin> set slugs" by blast
    have "free_slug slugs base suffix candidate = free_slug slugs base (Suc suffix) (numbered_slug base suffix)"
      using True by (simp add: free_slug.simps [of slugs base suffix candidate])
    with k True card_taken_from [of slugs base suffix] show ?thesis by (intro exI [of _ "Suc k"]) auto
  qed
qed

text \<open>C39: The search for a tenant's slug always ends: after at most one more candidate than there are
  tenants it returns a slug no tenant holds, the base itself or the base with a counter.\<close>

theorem the_slug_search_ends:
  "\<exists>k \<le> Suc (length slugs). derive_tenant_slug slugs random domain \<notin> set slugs \<and>
     (let slug = slugify_domain domain; base = (if slug = [] then ''t-'' @ random else slug)
      in derive_tenant_slug slugs random domain = (if k = 0 then base else numbered_slug base (Suc k)))"
proof -
  let ?base = "if slugify_domain domain = [] then ''t-'' @ random else slugify_domain domain"
  from free_slug_result [of slugs ?base 2 ?base] obtain k where
    k: "k \<le> card (taken_from slugs ?base 2) + (if ?base \<in> set slugs then 1 else 0)"
    "free_slug slugs ?base 2 ?base = (if k = 0 then ?base else numbered_slug ?base (2 + k - 1))"
    "free_slug slugs ?base 2 ?base \<notin> set slugs" by blast
  have "card (taken_from slugs ?base 2) \<le> length slugs"
    using card_mono [of "set slugs" "taken_from slugs ?base 2"] card_length [of slugs]
    by (auto simp: taken_from_def)
  with k(1) have "k \<le> Suc (length slugs)" by (simp split: if_splits)
  with k(2,3) show ?thesis by (intro exI [of _ k]) (simp add: derive_tenant_slug_def Let_def)
qed

subsection \<open>The names skills install under\<close>

definition oryh_prefix :: string where
  "oryh_prefix = ''oryh-''"

definition installed_skill_name :: "string \<Rightarrow> string \<Rightarrow> string \<Rightarrow> string" where
  "installed_skill_name brand slug name =
     (let base = (if startswith name oryh_prefix then drop (length oryh_prefix) name else name)
      in brand @ ''-'' @ slug @ ''-'' @ base)"

definition rstrip_dashes :: "string \<Rightarrow> string" where
  "rstrip_dashes s = rev (dropWhile (\<lambda>c. c = CHR ''-'') (rev s))"

definition shorten_installed_name :: "(string \<Rightarrow> string) \<Rightarrow> string \<Rightarrow> string \<Rightarrow> string" where
  "shorten_installed_name digest6 installed registry_name =
     (if length installed \<le> MAX_INSTALLED_NAME then installed
      else let tag = digest6 registry_name
           in rstrip_dashes (py_head installed (int MAX_INSTALLED_NAME - int (length tag) - 1)) @ ''-'' @ tag)"

text \<open>\<open>while target in used: target += "x"\<close>\<close>

function lengthened :: "string list \<Rightarrow> string \<Rightarrow> string" where
  "lengthened used target = (if target \<in> set used then lengthened used (target @ ''x'') else target)"
  by pat_completeness auto
termination
proof (relation "measure (\<lambda>(used, target). card {u \<in> set used. length target \<le> length u})")
  fix used :: "string list" and target
  assume "target \<in> set used"
  then have "{u \<in> set used. length (target @ ''x'') \<le> length u} \<subset> {u \<in> set used. length target \<le> length u}"
    by (intro psubsetI subsetI) (auto dest: equalityD2 [THEN subsetD, of _ _ target])
  then show "((used, target @ ''x''), used, target) \<in> measure (\<lambda>(used, target). card {u \<in> set used. length target \<le> length u})"
    by (simp add: psubset_card_mono)
qed simp

declare lengthened.simps [simp del]

definition target_of :: "(string \<Rightarrow> string) \<Rightarrow> string \<Rightarrow> string \<Rightarrow> string list \<Rightarrow> string \<Rightarrow> string" where
  "target_of digest6 brand slug used name =
     (let target = shorten_installed_name digest6 (installed_skill_name brand slug name) name in
      if target \<in> set used
      then let tag = digest6 name in
           lengthened used (shorten_installed_name digest6 (target @ ''-'' @ tag) (name @ tag))
      else target)"

fun map_names ::
    "(string \<Rightarrow> string) \<Rightarrow> string \<Rightarrow> string \<Rightarrow> string list \<Rightarrow> string list \<Rightarrow> (string \<times> string) list" where
  "map_names digest6 brand slug used [] = []"
| "map_names digest6 brand slug used (name # names) =
     (let target = target_of digest6 brand slug used name
      in (name, target) # map_names digest6 brand slug (target # used) names)"

definition SHARED_SKILLS :: "string list" where
  "SHARED_SKILLS = [''oryh-connect'']"

definition connect_install_name :: "string \<Rightarrow> string" where
  "connect_install_name brand = brand @ ''-connect''"

text \<open>\<open>rows\<close> are the active skills of the tenant with their kind, a name once; product skills come first.\<close>

definition ordered_skills :: "(string \<times> string) list \<Rightarrow> string list" where
  "ordered_skills rows =
     map fst (sort_key (\<lambda>(name, kind). (if kind = ''product'' then 0 else 1 :: nat, name))
       (filter (\<lambda>(name, kind). name \<notin> set SHARED_SKILLS) rows))"

definition skill_name_map ::
    "(string \<Rightarrow> string) \<Rightarrow> string \<Rightarrow> string \<Rightarrow> (string \<times> string) list \<Rightarrow> (string \<times> string) list" where
  "skill_name_map digest6 brand slug rows =
     (let mapping = map_names digest6 brand slug [] (ordered_skills rows)
      in mapping @ [(''oryh-connect'', lengthened (map snd mapping) (connect_install_name brand))])"

lemma lengthened_result: "lengthened used target \<notin> set used \<and> (\<exists>k. lengthened used target = target @ replicate k (CHR ''x''))"
proof (induction used target rule: lengthened.induct)
  case (1 used target)
  show ?case
  proof (cases "target \<in> set used")
    case True
    with 1 obtain k where "lengthened used target \<notin> set used" "lengthened used target = (target @ ''x'') @ replicate k (CHR ''x'')"
      by (auto simp: lengthened.simps [of used target])
    then have "lengthened used target = target @ replicate (Suc k) (CHR ''x'')" by simp
    with \<open>lengthened used target \<notin> set used\<close> show ?thesis by blast
  next
    case False
    then show ?thesis by (simp add: lengthened.simps [of used target] exI [of _ 0])
  qed
qed

lemma target_of_unused: "target_of digest6 brand slug used name \<notin> set used"
  using lengthened_result by (simp add: target_of_def Let_def)

lemma map_names_targets:
  "map fst (map_names digest6 brand slug used names) = names \<and>
   distinct (map snd (map_names digest6 brand slug used names)) \<and>
   set (map snd (map_names digest6 brand slug used names)) \<inter> set used = {}"
proof (induction names arbitrary: used)
  case (Cons name names)
  from Cons.IH [of "target_of digest6 brand slug used name # used"] target_of_unused [of digest6 brand slug used name]
  show ?case by (auto simp: Let_def)
qed simp

lemma set_ordered_skills: "set (ordered_skills rows) = fst ` set rows - set SHARED_SKILLS"
  by (force simp: ordered_skills_def)

text \<open>No two skills of a tenant ever install under one name, the shared connect skill included, whatever
  the digest gives, and every skill of the registry has its name.\<close>

theorem installed_names_never_collide:
  "distinct (map snd (skill_name_map digest6 brand slug rows)) \<and>
   set (map fst (skill_name_map digest6 brand slug rows)) = insert ''oryh-connect'' (fst ` set rows)"
proof -
  let ?m = "map_names digest6 brand slug [] (ordered_skills rows)"
  have "set (map fst ?m) = fst ` set rows - {''oryh-connect''}"
    using map_names_targets [of digest6 brand slug "[]" "ordered_skills rows"] set_ordered_skills [of rows]
    by (simp add: SHARED_SKILLS_def)
  moreover have "lengthened (map snd ?m) (connect_install_name brand) \<notin> set (map snd ?m)"
    using lengthened_result by blast
  ultimately show ?thesis
    using map_names_targets [of digest6 brand slug "[]" "ordered_skills rows"]
    by (auto simp: skill_name_map_def Let_def)
qed

lemma rstrip_dashes_length: "length (rstrip_dashes s) \<le> length s"
  unfolding rstrip_dashes_def by (metis length_dropWhile_le length_rev)

lemma shorten_length:
  assumes "length (digest6 r) = 6"
  shows "length (shorten_installed_name digest6 s r) \<le> MAX_INSTALLED_NAME"
proof -
  have "length (rstrip_dashes (py_head s (int MAX_INSTALLED_NAME - 6 - 1))) \<le> 56"
    using rstrip_dashes_length [of "py_head s (int MAX_INSTALLED_NAME - 6 - 1)"]
    by (simp add: py_head_def MAX_INSTALLED_NAME_def)
  with assms show ?thesis by (simp add: shorten_installed_name_def Let_def MAX_INSTALLED_NAME_def)
qed

text \<open>The length bound, except in the case the code calls pathological: the tagged name is taken too.\<close>

lemma target_of_length:
  assumes "\<And>r. length (digest6 r) = 6"
    and "shorten_installed_name digest6 (shorten_installed_name digest6 (installed_skill_name brand slug name) name
           @ ''-'' @ digest6 name) (name @ digest6 name) \<notin> set used"
  shows "length (target_of digest6 brand slug used name) \<le> MAX_INSTALLED_NAME"
  using assms shorten_length [of digest6]
  by (simp add: target_of_def Let_def lengthened.simps [of used])

end
