(* ===== verification/Listing.thy ===== *)
theory Listing
  imports Text_Ops "HOL-Library.Option_ord" "HOL-Library.Multiset"
begin

text \<open>
  The list behind every collection endpoint (\<open>app/api/common/core.py\<close>): equality filters, declared
  ranges, the keyword scan, the caller's order with the collection's own as tiebreak, and paging.

  A row is any type \<open>'r\<close>; \<open>cell r c\<close> is the value of its column \<open>c\<close> (\<open>None\<close> is null), \<open>text r c\<close> what
  the column reads as text. \<open>is_uuid\<close> says which spellings \<open>uuid.UUID\<close> takes. Rendering is left out. The
  database answers an ordered query with any order of the rows that the clauses allow.
\<close>

subsection \<open>Paging\<close>

definition MAX_PAGE_SIZE :: nat where
  "MAX_PAGE_SIZE = 200"

text \<open>\<open>x or y\<close> on a number\<close>

definition nat_or :: "nat option \<Rightarrow> nat \<Rightarrow> nat" where
  "nat_or x y = (case x of None \<Rightarrow> y | Some n \<Rightarrow> if n = 0 then y else n)"

definition requested_pagination :: "nat option \<Rightarrow> nat option \<Rightarrow> nat \<Rightarrow> (nat \<times> nat) option" where
  "requested_pagination page per_page fallback =
     (if page = None \<and> per_page = None then None
      else Some (nat_or page 1, min (nat_or per_page fallback) MAX_PAGE_SIZE))"

record 'r list_answer =
  an_data :: "'r list"
  an_total :: nat
  an_page :: "(nat \<times> nat \<times> nat) option"

text \<open>\<open>meta.page\<close>, \<open>meta.page_size\<close> and \<open>meta.pages\<close> of a paged answer\<close>

definition paginated_envelope :: "'r list \<Rightarrow> nat \<Rightarrow> nat \<Rightarrow> nat \<Rightarrow> 'r list_answer" where
  "paginated_envelope data count_all page page_size =
     \<lparr>an_data = data, an_total = count_all,
      an_page = Some (page, page_size, max 1 ((count_all + page_size - 1) div page_size))\<rparr>"

definition envelope :: "'r list \<Rightarrow> nat \<Rightarrow> 'r list_answer" where
  "envelope data count_all = \<lparr>an_data = data, an_total = count_all, an_page = None\<rparr>"

subsection \<open>The caller's order\<close>

text \<open>\<open>name.lstrip("-+")\<close>\<close>

definition strip_signs :: "string \<Rightarrow> string" where
  "strip_signs s = dropWhile (\<lambda>c. c = CHR ''-'' \<or> c = CHR ''+'') s"

text \<open>A clause: a column, and whether it sorts downwards.\<close>

definition sort_part :: "string list \<Rightarrow> string \<Rightarrow> (string \<times> bool) list result" where
  "sort_part columns part =
     (let name = strip part in
      if name = [] then Inr []
      else let column = strip_signs name in
           if column \<notin> set columns then Inl (HttpError 422 ''not_a_column_here'')
           else Inr [(column, startswith name ''-'')])"

definition sort_clauses :: "string list \<Rightarrow> string option \<Rightarrow> (string \<times> bool) list result" where
  "sort_clauses columns wanted =
     (case wanted of
        None \<Rightarrow> Inr []
      | Some s \<Rightarrow>
          if strip s = [] then Inr []
          else bindE (mapE (sort_part columns) (split_on (CHR '','') s)) (\<lambda>parts. Inr (concat parts)))"

text \<open>Ascending puts nulls first, descending puts them last: null is the least value both ways. (The few collections whose
  own order has nulls last ascending are not covered by this order.)\<close>

fun before :: "('r \<Rightarrow> string \<Rightarrow> 'v::linorder option) \<Rightarrow> (string \<times> bool) list \<Rightarrow> 'r \<Rightarrow> 'r \<Rightarrow> bool" where
  "before cell [] x y = True"
| "before cell ((c, descending) # cs) x y =
     (if cell x c = cell y c then before cell cs x y
      else if descending then cell y c < cell x c else cell x c < cell y c)"

subsection \<open>Filters and keywords\<close>

record filter_value =
  fv_column :: string
  fv_is_uuid :: bool
  fv_value :: "string option"

definition equal_filter :: "(string \<Rightarrow> bool) \<Rightarrow> ('r \<Rightarrow> string \<Rightarrow> string option) \<Rightarrow> filter_value \<Rightarrow> ('r \<Rightarrow> bool) result" where
  "equal_filter is_uuid text f =
     (case fv_value f of
        None \<Rightarrow> Inr (\<lambda>_. True)
      | Some v \<Rightarrow>
          if v = [] then Inr (\<lambda>_. True)
          else bindE (ensure (fv_is_uuid f \<longrightarrow> is_uuid v) 422 ''must_be_a_uuid'') (\<lambda>_.
               Inr (\<lambda>r. text r (fv_column f) = Some v)))"

definition in_range :: "('r \<Rightarrow> string \<Rightarrow> 'v::linorder option) \<Rightarrow> string \<times> 'v option \<times> 'v option \<Rightarrow> 'r \<Rightarrow> bool" where
  "in_range cell = (\<lambda>(c, low, high) r.
     (case low of None \<Rightarrow> True | Some l \<Rightarrow> (case cell r c of None \<Rightarrow> False | Some v \<Rightarrow> l \<le> v)) \<and>
     (case high of None \<Rightarrow> True | Some h \<Rightarrow> (case cell r c of None \<Rightarrow> False | Some v \<Rightarrow> v \<le> h)))"

text \<open>\<open>LIKE\<close>: a percent sign matches any text, an underscore any character, a backslash escapes.\<close>

fun like :: "string \<Rightarrow> string \<Rightarrow> bool" where
  "like [] s = (s = [])"
| "like (p # ps) s =
     (if p = CHR ''%'' then like ps s \<or> (case s of [] \<Rightarrow> False | c # cs \<Rightarrow> like (p # ps) cs)
      else if p = CHR 0x5C then
        (case ps of [] \<Rightarrow> False | q # qs \<Rightarrow> (case s of [] \<Rightarrow> False | c # cs \<Rightarrow> c = q \<and> like qs cs))
      else (case s of [] \<Rightarrow> False | c # cs \<Rightarrow> (p = CHR ''_'' \<or> c = p) \<and> like ps cs))"

definition ilike :: "string option \<Rightarrow> string \<Rightarrow> bool" where
  "ilike value pattern = (case value of None \<Rightarrow> False | Some v \<Rightarrow> like (lower pattern) (lower v))"

text \<open>\<open>keyword.split()\<close>\<close>

fun words_of :: "string \<Rightarrow> string \<Rightarrow> string list" where
  "words_of acc [] = (if acc = [] then [] else [rev acc])"
| "words_of acc (c # s) =
     (if is_space c then (if acc = [] then words_of [] s else rev acc # words_of [] s) else words_of (c # acc) s)"

definition keyword_matches :: "('r \<Rightarrow> string \<Rightarrow> string option) \<Rightarrow> string list \<Rightarrow> string option \<Rightarrow> 'r \<Rightarrow> bool" where
  "keyword_matches text columns keyword r =
     (case keyword of
        None \<Rightarrow> True
      | Some k \<Rightarrow> list_all (\<lambda>w. list_ex (\<lambda>c. ilike (text r c) (''%'' @ w @ ''%'')) columns) (words_of [] k))"

subsection \<open>The list\<close>

record ('r, 'v) listing =
  li_visible :: "'r \<Rightarrow> bool"
  li_filters :: "filter_value list"
  li_ranges :: "(string \<times> 'v option \<times> 'v option) list"
  li_equals :: "filter_value list"
  li_keyword :: "string option"
  li_keyword_columns :: "string list"
  li_columns :: "string list"
  li_sort :: "string option"
  li_order_by :: "(string \<times> bool) list"

text \<open>The conditions of the statement, or the 422 of a malformed id.\<close>

definition list_statement ::
    "(string \<Rightarrow> bool) \<Rightarrow> ('r \<Rightarrow> string \<Rightarrow> string option) \<Rightarrow> ('r \<Rightarrow> string \<Rightarrow> 'v::linorder option) \<Rightarrow> ('r, 'v) listing \<Rightarrow>
     ('r \<Rightarrow> bool) result" where
  "list_statement is_uuid text cell q =
     bindE (mapE (equal_filter is_uuid text) (li_filters q)) (\<lambda>fs.
     bindE (mapE (equal_filter is_uuid text) (li_equals q)) (\<lambda>es.
     Inr (\<lambda>r. li_visible q r \<and> list_all (\<lambda>f. f r) fs \<and> list_all (\<lambda>g. in_range cell g r) (li_ranges q) \<and>
              list_all (\<lambda>f. f r) es \<and> keyword_matches text (li_keyword_columns q) (li_keyword q) r)))"

definition page_of :: "nat \<times> nat \<Rightarrow> 'r list \<Rightarrow> 'r list" where
  "page_of = (\<lambda>(page, per_page) rows. take per_page (drop ((page - 1) * per_page) rows))"

text \<open>\<open>ordered\<close> is the database's answer to the ordered statement: an order of the matching rows that the
  clauses allow.\<close>

definition answers_query :: "('r \<Rightarrow> string \<Rightarrow> 'v::linorder option) \<Rightarrow> (string \<times> bool) list \<Rightarrow> 'r list \<Rightarrow> 'r list \<Rightarrow> bool" where
  "answers_query cell clauses matching ordered \<longleftrightarrow> mset ordered = mset matching \<and> sorted_wrt (before cell clauses) ordered"

definition list_rows ::
    "(string \<Rightarrow> bool) \<Rightarrow> ('r \<Rightarrow> string \<Rightarrow> string option) \<Rightarrow> ('r \<Rightarrow> string \<Rightarrow> 'v::linorder option) \<Rightarrow>
     ((string \<times> bool) list \<Rightarrow> 'r list \<Rightarrow> 'r list) \<Rightarrow> 'r list \<Rightarrow> ('r, 'v) listing \<Rightarrow> (nat \<times> nat) option \<Rightarrow> 'r list_answer result" where
  "list_rows is_uuid text cell ordered table q pagination =
     bindE (list_statement is_uuid text cell q) (\<lambda>matches.
     bindE (sort_clauses (li_columns q) (li_sort q)) (\<lambda>clauses.
     let matching = filter matches table;
         rows = ordered (clauses @ li_order_by q) matching
     in case pagination of
          None \<Rightarrow> Inr (envelope rows (length rows))
        | Some (page, per_page) \<Rightarrow> Inr (paginated_envelope (page_of (page, per_page) rows) (length matching) page per_page)))"

subsection \<open>Pages make up the list\<close>

lemma page_of_length: "length (page_of (page, per_page) rows) = min per_page (length rows - (page - 1) * per_page)"
  by (simp add: page_of_def)

lemma concat_pages:
  "0 < per_page \<Longrightarrow> concat (map (\<lambda>p. page_of (p, per_page) rows) [1..<Suc n]) = take (n * per_page) rows"
proof (induction n)
  case (Suc n)
  then have "concat (map (\<lambda>p. page_of (p, per_page) rows) [1..<Suc (Suc n)]) =
      take (n * per_page) rows @ take per_page (drop (n * per_page) rows)"
    by (simp add: page_of_def)
  also have "\<dots> = take (n * per_page + per_page) rows" by (simp add: take_add)
  finally show ?case by (simp add: add.commute)
qed simp

lemma pages_cover: "0 < per_page \<Longrightarrow> (n :: nat) \<le> max 1 ((n + per_page - 1) div per_page) * per_page"
proof -
  assume s: "0 < per_page"
  have "n \<le> (n + per_page - 1) div per_page * per_page"
  proof (cases n)
    case (Suc m)
    then have "(n + per_page - 1) div per_page = Suc (m div per_page)" using s by simp
    moreover have "m < Suc (m div per_page) * per_page" using s by (metis dividend_less_div_times mult_Suc add.commute)
    ultimately show ?thesis using Suc by simp
  qed simp
  then show ?thesis using s by (metis le_trans max.cobounded2 mult_le_mono1)
qed

text \<open>Two answers to one query are the same list when the order leaves no ties.\<close>

definition no_ties :: "('r \<Rightarrow> string \<Rightarrow> 'v::linorder option) \<Rightarrow> (string \<times> bool) list \<Rightarrow> 'r set \<Rightarrow> bool" where
  "no_ties cell clauses rows \<longleftrightarrow>
     (\<forall>x \<in> rows. \<forall>y \<in> rows. (\<forall>(c, d) \<in> set clauses. cell x c = cell y c) \<longrightarrow> x = y)"

lemma before_antisym:
  "before cell cs x y \<Longrightarrow> before cell cs y x \<Longrightarrow> \<forall>(c, d) \<in> set cs. cell x c = cell y c"
  by (induction cell cs x y rule: before.induct) (auto split: if_splits)

lemma ordered_unique:
  assumes "mset xs = mset ys" and "sorted_wrt R xs" and "sorted_wrt R ys"
    and "\<And>x y. x \<in> set xs \<Longrightarrow> y \<in> set xs \<Longrightarrow> R x y \<Longrightarrow> R y x \<Longrightarrow> x = y"
  shows "xs = ys"
  using assms
proof (induction xs arbitrary: ys)
  case (Cons x xs)
  then obtain y ys' where ys: "ys = y # ys'" by (cases ys) auto
  have mem: "set ys = set (x # xs)" using Cons.prems(1) by (metis set_mset_mset)
  have "x = y"
  proof (rule ccontr)
    assume "x \<noteq> y"
    with mem have "x \<in> set ys'" "y \<in> set xs" by (auto simp: ys)
    with Cons.prems(2,3) have "R y x" "R x y" by (auto simp: ys)
    with Cons.prems(4) \<open>x \<noteq> y\<close> \<open>y \<in> set xs\<close> show False by auto
  qed
  moreover have "mset xs = mset ys'" using Cons.prems(1) \<open>x = y\<close> by (simp add: ys)
  ultimately show ?case using Cons.IH [of ys'] Cons.prems by (simp add: ys)
qed simp

text \<open>Whatever else an order asks for first, it leaves no ties when a part of it leaves none.\<close>

lemma no_ties_suffix: "no_ties cell cs rows \<Longrightarrow> no_ties cell (ds @ cs) rows"
  unfolding no_ties_def by auto

lemma no_ties_subset: "no_ties cell cs rows \<Longrightarrow> rows' \<subseteq> rows \<Longrightarrow> no_ties cell cs rows'"
  unfolding no_ties_def by blast

lemma one_answer:
  assumes "answers_query cell cs rows xs" and "answers_query cell cs rows ys" and "no_ties cell cs (set rows)"
  shows "xs = ys"
proof (rule ordered_unique)
  show "mset xs = mset ys" "sorted_wrt (before cell cs) xs" "sorted_wrt (before cell cs) ys"
    using assms(1,2) by (simp_all add: answers_query_def)
  fix x y
  assume xy: "x \<in> set xs" "y \<in> set xs" and le: "before cell cs x y" "before cell cs y x"
  have "set xs = set rows" using assms(1) by (metis answers_query_def set_mset_mset)
  with assms(3) xy before_antisym [OF le] show "x = y" unfolding no_ties_def by blast
qed

text \<open>C23: Reading a list page by page gives exactly the complete list. The request for page \<open>p\<close> asks the database anew, and
  it may answer with any order the request's clauses allow (\<open>ordered p\<close>). Where the collection's own order, which every
  request appends to the caller's, tells any two rows of the table apart: from the page count the first page announces, all
  pages succeed, and their rows concatenated are what the same request without paging answers, whose number of rows is the
  total of each page.\<close>

theorem pages_make_up_the_list:
  assumes "0 < per_page" and "\<And>p clauses rows. answers_query cell clauses rows (ordered p clauses rows)"
    and "no_ties cell (li_order_by q) (set table)"
    and "list_rows is_uuid text cell (ordered 1) table q (Some (1, per_page)) = Inr first" and "an_page first = Some (1, per_page, n)"
  shows "\<exists>full pages. list_rows is_uuid text cell (ordered 0) table q None = Inr full \<and>
    (\<forall>p. list_rows is_uuid text cell (ordered p) table q (Some (p, per_page)) = Inr (pages p) \<and>
       an_total (pages p) = length (an_data full) \<and> an_page (pages p) = Some (p, per_page, n)) \<and>
    concat (map (\<lambda>p. an_data (pages p)) [1..<Suc n]) = an_data full"
proof -
  from assms(4) obtain matches clauses where m: "list_statement is_uuid text cell q = Inr matches"
    and c: "sort_clauses (li_columns q) (li_sort q) = Inr clauses"
    and first: "first = paginated_envelope (page_of (1, per_page) (ordered 1 (clauses @ li_order_by q) (filter matches table)))
      (length (filter matches table)) 1 per_page" by (auto simp: list_rows_def bindE_Inr_iff Let_def)
  let ?cs = "clauses @ li_order_by q" and ?rows = "filter matches table"
  define full where "full = ordered 0 ?cs ?rows"
  have n: "n = max 1 ((length ?rows + per_page - 1) div per_page)"
    using assms(5) by (simp add: first paginated_envelope_def)
  have "no_ties cell ?cs (set ?rows)" by (rule no_ties_suffix, rule no_ties_subset [OF assms(3)]) auto
  then have same: "ordered p ?cs ?rows = full" for p unfolding full_def by (rule one_answer [OF assms(2) assms(2)])
  have len: "length full = length ?rows" using assms(2) [of ?cs ?rows 0] unfolding full_def by (metis answers_query_def size_mset)
  let ?pages = "\<lambda>p. paginated_envelope (page_of (p, per_page) full) (length ?rows) p per_page"
  have "list_rows is_uuid text cell (ordered 0) table q None = Inr (envelope full (length full))"
    using m c same by (simp add: list_rows_def Let_def)
  moreover have "list_rows is_uuid text cell (ordered p) table q (Some (p, per_page)) = Inr (?pages p)" for p
    using m c same by (simp add: list_rows_def Let_def)
  moreover have "concat (map (\<lambda>p. an_data (?pages p)) [1..<Suc n]) = full"
    using concat_pages [OF assms(1), of full n] pages_cover [OF assms(1), of "length ?rows"] len n
    by (simp add: paginated_envelope_def)
  ultimately show ?thesis
    using len by (intro exI [of _ "envelope full (length full)"] exI [of _ ?pages]) (simp add: paginated_envelope_def envelope_def n)
qed

text \<open>Three rows in pages of two, the caller asking for a column they tie in.\<close>

definition demo_list :: "(nat, nat) listing" where
  "demo_list = \<lparr>li_visible = (\<lambda>_. True), li_filters = [], li_ranges = [], li_equals = [], li_keyword = None,
     li_keyword_columns = [], li_columns = [''status'', ''id''], li_sort = Some ''-status'', li_order_by = [(''id'', False)]\<rparr>"

definition demo_cell :: "nat \<Rightarrow> string \<Rightarrow> nat option" where
  "demo_cell r c = Some (if c = ''id'' then r else 0)"

text \<open>An order the clauses allow always exists: insertion by \<open>before\<close>.\<close>

fun put_in :: "('r \<Rightarrow> 'r \<Rightarrow> bool) \<Rightarrow> 'r \<Rightarrow> 'r list \<Rightarrow> 'r list" where
  "put_in R x [] = [x]"
| "put_in R x (y # ys) = (if R x y then x # y # ys else y # put_in R x ys)"

definition in_order :: "('r \<Rightarrow> string \<Rightarrow> 'v::linorder option) \<Rightarrow> (string \<times> bool) list \<Rightarrow> 'r list \<Rightarrow> 'r list" where
  "in_order cell clauses rows = foldr (put_in (before cell clauses)) rows []"

lemma before_total: "before cell cs x y \<or> before cell cs y x"
  by (induction cell cs x y rule: before.induct) auto

lemma before_trans: "before cell cs x y \<Longrightarrow> before cell cs y z \<Longrightarrow> before cell cs x z"
  by (induction cs) (auto split: if_splits)

lemma mset_put_in [simp]: "mset (put_in R x ys) = add_mset x (mset ys)"
  by (induction ys) auto

lemma sorted_put_in: "sorted_wrt (before cell cs) ys \<Longrightarrow> sorted_wrt (before cell cs) (put_in (before cell cs) x ys)"
proof (induction ys)
  case (Cons y ys)
  show ?case
  proof (cases "before cell cs x y")
    case True
    with Cons.prems before_trans [OF True] show ?thesis by auto
  next
    case False
    then have "before cell cs y x" using before_total [of cell cs x y] by blast
    moreover have "set (put_in (before cell cs) x ys) = insert x (set ys)" by (metis mset_put_in set_mset_add_mset_insert set_mset_mset)
    ultimately show ?thesis using False Cons by simp
  qed
qed simp

lemma in_order_answers: "answers_query cell clauses rows (in_order cell clauses rows)"
proof -
  have "mset (in_order cell clauses rows) = mset rows \<and> sorted_wrt (before cell clauses) (in_order cell clauses rows)"
    unfolding in_order_def by (induction rows) (simp_all add: sorted_put_in)
  then show ?thesis by (simp add: answers_query_def)
qed

lemma demo_pages:
  "list_rows (\<lambda>_. True) (\<lambda>_ _. None) demo_cell (in_order demo_cell) [5, 3, 8] demo_list (Some (1, 2)) =
     Inr (paginated_envelope [3, 5] 3 1 2)"
  "list_rows (\<lambda>_. True) (\<lambda>_ _. None) demo_cell (in_order demo_cell) [5, 3, 8] demo_list (Some (2, 2)) =
     Inr (paginated_envelope [8] 3 2 2)"
  by code_simp+

theorem pages_make_up_the_list_witness:
  "\<exists>full pages. list_rows (\<lambda>_. True) (\<lambda>_ _. None) demo_cell (in_order demo_cell) [5, 3, 8] demo_list None = Inr full \<and>
     (\<forall>p. list_rows (\<lambda>_. True) (\<lambda>_ _. None) demo_cell (in_order demo_cell) [5, 3, 8] demo_list (Some (p, 2)) = Inr (pages p)) \<and>
     an_data (pages 1) @ an_data (pages 2) = an_data full \<and> an_data (pages 2) = [8]"
proof -
  have ties: "no_ties demo_cell (li_order_by demo_list) (set [5, 3, 8])" by (simp add: no_ties_def demo_list_def demo_cell_def)
  have two: "an_page (paginated_envelope [3, 5] 3 1 2) = Some (1, 2, 2)" by (simp add: paginated_envelope_def)
  obtain full pages where f: "list_rows (\<lambda>_. True) (\<lambda>_ _. None) demo_cell (in_order demo_cell) [5, 3, 8] demo_list None = Inr full"
    and p: "\<And>p. list_rows (\<lambda>_. True) (\<lambda>_ _. None) demo_cell (in_order demo_cell) [5, 3, 8] demo_list (Some (p, 2)) = Inr (pages p)"
    and all: "concat (map (\<lambda>p. an_data (pages p)) [1..<Suc 2]) = an_data full"
    using pages_make_up_the_list [of 2 demo_cell "\<lambda>_. in_order demo_cell", OF _ in_order_answers ties demo_pages(1) two] by auto
  have "[1..<Suc 2] = [1, 2]" by (simp add: upt_rec)
  with all have "an_data (pages 1) @ an_data (pages 2) = an_data full" by simp
  moreover have "pages 2 = paginated_envelope [8] 3 2 2" using p [of 2] demo_pages(2) by simp
  then have "an_data (pages 2) = [8]" by (simp add: paginated_envelope_def)
  ultimately show ?thesis using f p by blast
qed

text \<open>With ties two requests may see the rows in different orders, and the pages miss one of them.\<close>

lemma ties_lose_a_row:
  "let cell = (\<lambda>(r :: nat) (c :: string). Some (0 :: nat)); one = [1, 2]; other = [2, 1]
   in answers_query cell [(''line_no'', False)] [1, 2] one \<and> answers_query cell [(''line_no'', False)] [1, 2] other \<and>
      page_of (1, 1) one @ page_of (2, 1) other = [1, 1]"
  by (simp add: answers_query_def page_of_def)

subsection \<open>Keywords\<close>

lemma keyword_words: "keyword_matches text columns (Some k) r \<longleftrightarrow>
    (\<forall>w \<in> set (words_of [] k). \<exists>c \<in> set columns. ilike (text r c) (''%'' @ w @ ''%''))"
  by (simp add: keyword_matches_def list_all_iff list_ex_iff)

text \<open>A longer query never finds more.\<close>

lemma more_words_find_less:
  "set (words_of [] k) \<subseteq> set (words_of [] k') \<Longrightarrow> keyword_matches text columns (Some k') r \<Longrightarrow>
     keyword_matches text columns (Some k) r"
  unfolding keyword_words by blast

end
