(* ===== verification/Recipes.thy ===== *)
theory Recipes
  imports Stock "HOL-Library.Product_Lexorder"
begin

text \<open>
  Bills of materials (\<open>app/api/master_data.py\<close>): a recipe says what \<open>output_quantity\<close> units of a product
  are made of, one recipe of a product is active, and a component with an active recipe is a sub-assembly.

  The catalogue stands beside the warehouse whose products it is about. Lines are kept in the order they
  were written. An id of a request may be spelled in any way \<open>db_uuid_in\<close> reads; the code compares ids as
  strings and the database compares them as uuids. Quantities are \<open>Numeric(14, 4)\<close> columns, scrap rates
  \<open>Numeric(5, 2)\<close>; codes, remarks, versions and metadata are left out except the code's uniqueness.
\<close>

record bom =
  bm_id :: uuid
  bm_tenant_id :: uuid
  bm_product_id :: uuid
  bm_code :: "string option"
  bm_output_quantity :: quantity
  bm_status :: string

record bom_item =
  bi_id :: uuid
  bi_tenant_id :: uuid
  bi_bom_id :: uuid
  bi_line_no :: "nat option"
  bi_component_id :: uuid
  bi_quantity :: quantity
  bi_unit :: "string option"
  bi_scrap_rate :: "rat option"

record catalog =
  ct_stock :: warehouse
  ct_boms :: "bom list"
  ct_items :: "bom_item list"

abbreviation "ct_db ct \<equiv> wh_db (ct_stock ct)"

definition ct_tick :: "catalog \<Rightarrow> catalog" where
  "ct_tick ct = ct\<lparr>ct_stock := (ct_stock ct)\<lparr>wh_db := tick (ct_db ct)\<rparr>\<rparr>"

definition MAKEABLE_TYPES :: "string list" where
  "MAKEABLE_TYPES = [''finished_good'', ''semi_finished'']"

text \<open>A \<open>Numeric(14, 4)\<close> column rounds half away from zero, a \<open>Numeric(5, 2)\<close> column as \<open>column_cents\<close> does.\<close>

definition column4 :: "quantity \<Rightarrow> quantity" where
  "column4 x = (if x < 0 then - (of_int \<lfloor>- x * 10000 + 1 / 2\<rfloor> / 10000) else of_int \<lfloor>x * 10000 + 1 / 2\<rfloor> / 10000)"

text \<open>\<open>round(x, 4)\<close>: halves move to the even neighbour.\<close>

definition round4 :: "quantity \<Rightarrow> quantity" where
  "round4 x = (let y = x * 10000; n = \<lfloor>y\<rfloor>; d = y - of_int n in
     of_int (if d < 1 / 2 then n else if 1 / 2 < d then n + 1 else if even n then n else n + 1) / 10000)"

subsection \<open>Fetching\<close>

text \<open>\<open>get_scoped_or_404\<close> on the three tables; none of them has a visibility clause.\<close>

definition product_or_404 :: "catalog \<Rightarrow> uuid \<Rightarrow> string \<Rightarrow> product result" where
  "product_or_404 ct tenant_id s =
     (case db_uuid_in (ct_db ct) s of
        None \<Rightarrow> Inl (HttpError 404 ''not_found'')
      | Some i \<Rightarrow>
          (case find_row (\<lambda>p. pr_id p = i) (wh_products (ct_stock ct)) of
             None \<Rightarrow> Inl (HttpError 404 ''not_found'')
           | Some p \<Rightarrow> if pr_tenant_id p \<noteq> tenant_id then Inl (HttpError 404 ''not_found'') else Inr p))"

definition bom_or_404 :: "catalog \<Rightarrow> uuid \<Rightarrow> string \<Rightarrow> bom result" where
  "bom_or_404 ct tenant_id s =
     (case db_uuid_in (ct_db ct) s of
        None \<Rightarrow> Inl (HttpError 404 ''not_found'')
      | Some i \<Rightarrow>
          (case find_row (\<lambda>b. bm_id b = i) (ct_boms ct) of
             None \<Rightarrow> Inl (HttpError 404 ''not_found'')
           | Some b \<Rightarrow> if bm_tenant_id b \<noteq> tenant_id then Inl (HttpError 404 ''not_found'') else Inr b))"

definition bom_item_or_404 :: "catalog \<Rightarrow> uuid \<Rightarrow> string \<Rightarrow> bom_item result" where
  "bom_item_or_404 ct tenant_id s =
     (case db_uuid_in (ct_db ct) s of
        None \<Rightarrow> Inl (HttpError 404 ''not_found'')
      | Some i \<Rightarrow>
          (case find_row (\<lambda>l. bi_id l = i) (ct_items ct) of
             None \<Rightarrow> Inl (HttpError 404 ''not_found'')
           | Some l \<Rightarrow> if bi_tenant_id l \<noteq> tenant_id then Inl (HttpError 404 ''not_found'') else Inr l))"

definition require_makeable_parent :: "catalog \<Rightarrow> uuid \<Rightarrow> string \<Rightarrow> product result" where
  "require_makeable_parent ct tenant_id product_id =
     bindE (product_or_404 ct tenant_id product_id) (\<lambda>p.
     bindE (ensure (pr_type p \<in> set MAKEABLE_TYPES) 422 ''a_recipe_is_for_a_made_good'') (\<lambda>_.
     Inr p))"

definition active_bom_for :: "catalog \<Rightarrow> uuid \<Rightarrow> string \<Rightarrow> bom option" where
  "active_bom_for ct tenant_id product_id =
     find_row (\<lambda>b. bm_tenant_id b = tenant_id \<and> db_uuid_in (ct_db ct) product_id = Some (bm_product_id b) \<and>
       bm_status b = ''active'') (ct_boms ct)"

text \<open>\<open>ORDER BY line_no ASC, created_at ASC\<close>: lines without a number come last.\<close>

definition bom_line_key :: "bom_item \<Rightarrow> nat \<times> nat" where
  "bom_line_key l = (case bi_line_no l of None \<Rightarrow> (1, 0) | Some n \<Rightarrow> (0, n))"

definition bom_lines :: "catalog \<Rightarrow> uuid \<Rightarrow> uuid \<Rightarrow> bom_item list" where
  "bom_lines ct tenant_id bom_id =
     sort_key bom_line_key (filter (\<lambda>l. bi_tenant_id l = tenant_id \<and> bi_bom_id l = bom_id) (ct_items ct))"

lemma set_bom_lines: "set (bom_lines ct t b) = {l \<in> set (ct_items ct). bi_tenant_id l = t \<and> bi_bom_id l = b}"
  by (auto simp: bom_lines_def)

text \<open>What the database answers for a product: the lines of its active recipe.\<close>

definition recipe_of :: "catalog \<Rightarrow> uuid \<Rightarrow> string \<Rightarrow> bom_item list" where
  "recipe_of ct tenant_id product_id =
     (case active_bom_for ct tenant_id product_id of None \<Rightarrow> [] | Some b \<Rightarrow> bom_lines ct tenant_id (bm_id b))"

lemma set_recipe_of: "set (recipe_of ct t p) \<subseteq> set (ct_items ct)"
  by (auto simp: recipe_of_def set_bom_lines split: option.splits)

subsection \<open>Judging a component\<close>

text \<open>\<open>recipes\<close> is the dict several lines share; \<open>stack.pop()\<close> takes the last pushed.\<close>

type_synonym recipe_cache = "(string \<times> bom_item list) list"

definition cached_recipe :: "catalog \<Rightarrow> uuid \<Rightarrow> recipe_cache \<Rightarrow> string \<Rightarrow> bom_item list" where
  "cached_recipe ct tenant_id recipes current =
     (case map_of recipes current of Some ls \<Rightarrow> ls | None \<Rightarrow> recipe_of ct tenant_id current)"

definition remember_recipe :: "catalog \<Rightarrow> uuid \<Rightarrow> recipe_cache \<Rightarrow> string \<Rightarrow> recipe_cache" where
  "remember_recipe ct tenant_id recipes current =
     (case map_of recipes current of Some ls \<Rightarrow> recipes | None \<Rightarrow> (current, recipe_of ct tenant_id current) # recipes)"

definition named_components :: "catalog \<Rightarrow> recipe_cache \<Rightarrow> string list \<Rightarrow> string set" where
  "named_components ct recipes stack =
     bi_component_id ` set (ct_items ct) \<union> bi_component_id ` \<Union> ((set \<circ> snd) ` set recipes) \<union> set stack"

lemma named_split: "named_components ct recipes stack = named_components ct recipes [] \<union> set stack"
  by (simp add: named_components_def)

lemma cached_in_named: "bi_component_id ` set (cached_recipe ct t recipes current) \<subseteq> named_components ct recipes stack"
proof (cases "map_of recipes current")
  case None
  then show ?thesis using set_recipe_of [of ct t current] by (auto simp: cached_recipe_def named_components_def)
next
  case (Some ls)
  then have "(current, ls) \<in> set recipes" by (rule map_of_SomeD)
  then have "bi_component_id ` set ls \<subseteq> bi_component_id ` \<Union> ((set \<circ> snd) ` set recipes)" by force
  with Some show ?thesis by (auto simp: cached_recipe_def named_components_def)
qed

lemma remember_names_nothing_new:
  "named_components ct (remember_recipe ct t recipes current) stack \<subseteq> named_components ct recipes stack"
  using set_recipe_of [of ct t current]
  by (auto simp: remember_recipe_def named_components_def split: option.splits)

function component_walk ::
    "catalog \<Rightarrow> uuid \<Rightarrow> string \<Rightarrow> recipe_cache \<Rightarrow> string list \<Rightarrow> string list \<Rightarrow> recipe_cache result" where
  "component_walk ct tenant_id parent recipes seen [] = Inr recipes"
| "component_walk ct tenant_id parent recipes seen (current # stack) =
     (if current \<in> set seen then component_walk ct tenant_id parent recipes seen stack
      else
        let ls = cached_recipe ct tenant_id recipes current in
        if parent \<in> bi_component_id ` set ls then Inl (HttpError 422 ''a_recipe_cannot_contain_its_own_ancestor'')
        else component_walk ct tenant_id parent (remember_recipe ct tenant_id recipes current) (current # seen)
               (rev (map bi_component_id ls) @ stack))"
  by pat_completeness auto

lemma card_diff_less: "finite A \<Longrightarrow> B \<subseteq> A \<Longrightarrow> x \<in> A \<Longrightarrow> x \<notin> S \<Longrightarrow> card (B - insert x S) < card (A - S)"
  by (rule psubset_card_mono) auto

lemma finite_named [simp]: "finite (named_components ct recipes stack)"
  by (auto simp: named_components_def)

termination component_walk
proof (relation "measures [\<lambda>(ct, t, p, recipes, seen, stack). card (named_components ct recipes stack - set seen),
    \<lambda>(ct, t, p, recipes, seen, stack). length stack]")
  fix ct :: catalog and t parent :: string and recipes :: recipe_cache and seen :: "string list" and current stack
  assume "current \<in> set seen"
  then have "named_components ct recipes (current # stack) - set seen = named_components ct recipes stack - set seen"
    by (auto simp: named_components_def)
  then show "((ct, t, parent, recipes, seen, stack), ct, t, parent, recipes, seen, current # stack) \<in>
      measures [\<lambda>(ct, t, p, recipes, seen, stack). card (named_components ct recipes stack - set seen),
        \<lambda>(ct, t, p, recipes, seen, stack). length stack]" by simp
next
  fix ct :: catalog and t parent :: string and recipes :: recipe_cache and seen :: "string list" and current stack ls
  assume new: "current \<notin> set seen" and ls: "ls = cached_recipe ct t recipes current"
  have "named_components ct (remember_recipe ct t recipes current) (rev (map bi_component_id ls) @ stack) \<subseteq>
      named_components ct recipes (current # stack)"
    using remember_names_nothing_new [of ct t recipes current "[]"] cached_in_named [of ct t recipes current "[]"]
    unfolding named_split [of _ _ "_ @ _"] named_split [of _ _ "_ # _"] ls by auto
  then have "card (named_components ct (remember_recipe ct t recipes current) (rev (map bi_component_id ls) @ stack) -
      insert current (set seen)) < card (named_components ct recipes (current # stack) - set seen)"
    using new by (intro card_diff_less) (simp_all add: named_components_def)
  then show "((ct, t, parent, remember_recipe ct t recipes current, current # seen, rev (map bi_component_id ls) @ stack),
      ct, t, parent, recipes, seen, current # stack) \<in>
      measures [\<lambda>(ct, t, p, recipes, seen, stack). card (named_components ct recipes stack - set seen),
        \<lambda>(ct, t, p, recipes, seen, stack). length stack]" by simp
qed simp

text \<open>The product of the component, and the dict with what was read.\<close>

definition require_component ::
    "catalog \<Rightarrow> uuid \<Rightarrow> string \<Rightarrow> string \<Rightarrow> recipe_cache \<Rightarrow> (product \<times> recipe_cache) result" where
  "require_component ct tenant_id parent component recipes =
     bindE (ensure (component \<noteq> parent) 422 ''a_product_cannot_be_a_component_of_itself'') (\<lambda>_.
     bindE (product_or_404 ct tenant_id component) (\<lambda>p.
     bindE (ensure (pr_type p \<noteq> ''service'') 422 ''a_recipe_is_made_of_goods'') (\<lambda>_.
     bindE (component_walk ct tenant_id parent recipes [] [component]) (\<lambda>recipes'.
     Inr (p, recipes')))))"

subsection \<open>Writing a recipe\<close>

record line_request =
  lr_line_no :: "nat option"
  lr_component :: string
  lr_quantity :: quantity
  lr_unit :: "string option"
  lr_scrap_rate :: "rat option"

record bom_request =
  br_product_id :: string
  br_code :: "string option"
  br_output_quantity :: quantity
  br_status :: string
  br_items :: "line_request list"

text \<open>\<open>ensure_code_available\<close>: an empty code is not looked up.\<close>

definition ensure_bom_code_available :: "catalog \<Rightarrow> uuid \<Rightarrow> string option \<Rightarrow> uuid option \<Rightarrow> unit result" where
  "ensure_bom_code_available ct tenant_id code exclude_id =
     (if code = None \<or> code = Some [] then Inr ()
      else ensure (\<not> list_ex (\<lambda>b. bm_tenant_id b = tenant_id \<and> bm_code b = code \<and> Some (bm_id b) \<noteq> exclude_id) (ct_boms ct))
             409 ''code_already_exists'')"

text \<open>The two unique indexes: a code per tenant, an active recipe per product.\<close>

definition bom_clash :: "bom \<Rightarrow> bom \<Rightarrow> bool" where
  "bom_clash b b' \<longleftrightarrow> bm_id b \<noteq> bm_id b' \<and> bm_tenant_id b = bm_tenant_id b' \<and>
     (bm_code b \<noteq> None \<and> bm_code b = bm_code b' \<or>
      bm_status b = ''active'' \<and> bm_status b' = ''active'' \<and> bm_product_id b = bm_product_id b')"

definition require_no_clash :: "bom list \<Rightarrow> bom \<Rightarrow> unit result" where
  "require_no_clash boms b = ensure (\<not> list_ex (bom_clash b) boms) 409 ''active_recipe_or_bom_code_taken''"

definition demote_others :: "catalog \<Rightarrow> uuid \<Rightarrow> uuid \<Rightarrow> uuid \<Rightarrow> catalog" where
  "demote_others ct tenant_id product_id keep_id = ct\<lparr>ct_boms :=
     update_rows (\<lambda>b. bm_tenant_id b = tenant_id \<and> bm_status b = ''active'' \<and> bm_product_id b = product_id \<and> bm_id b \<noteq> keep_id)
       (\<lambda>b. b\<lparr>bm_status := ''archived''\<rparr>) (ct_boms ct)\<rparr>"

definition require_bom_editable :: "bom \<Rightarrow> unit result" where
  "require_bom_editable b = ensure (bm_status b = ''draft'') 409 ''lines_change_only_while_draft''"

text \<open>The row is written after the component was judged, so its id can be read.\<close>

definition add_bom_line :: "uuid \<Rightarrow> uuid \<Rightarrow> catalog \<Rightarrow> nat option \<times> line_request \<Rightarrow> (bom_item \<times> catalog) result" where
  "add_bom_line tenant_id bom_id ct = (\<lambda>(index, line).
     bindE (uuid_literal (ct_db ct) (lr_component line)) (\<lambda>component.
     let item = \<lparr>bi_id = fresh_id (ct_db ct), bi_tenant_id = tenant_id, bi_bom_id = bom_id,
           bi_line_no = (if lr_line_no line = None then index else lr_line_no line), bi_component_id = component,
           bi_quantity = column4 (lr_quantity line), bi_unit = lr_unit line,
           bi_scrap_rate = map_option column_cents (lr_scrap_rate line)\<rparr>
     in Inr (item, ct_tick (ct\<lparr>ct_items := ct_items ct @ [item]\<rparr>))))"

definition build_bom_line :: "uuid \<Rightarrow> bom \<Rightarrow> catalog \<Rightarrow> nat option \<times> line_request \<Rightarrow> (bom_item \<times> catalog) result" where
  "build_bom_line tenant_id b ct = (\<lambda>(index, line).
     bindE (require_component ct tenant_id (bm_product_id b) (lr_component line) []) (\<lambda>_.
     add_bom_line tenant_id (bm_id b) ct (index, line)))"

definition judge_components :: "catalog \<Rightarrow> uuid \<Rightarrow> string \<Rightarrow> line_request list \<Rightarrow> recipe_cache result" where
  "judge_components ct tenant_id parent items =
     foldE (\<lambda>recipes line.
       bindE (require_component ct tenant_id parent (lr_component line) recipes) (\<lambda>(p, recipes'). Inr recipes')) [] items"

definition add_bom_lines :: "uuid \<Rightarrow> uuid \<Rightarrow> catalog \<Rightarrow> line_request list \<Rightarrow> catalog result" where
  "add_bom_lines tenant_id bom_id ct items =
     foldE (\<lambda>ct x. bindE (add_bom_line tenant_id bom_id ct x) (\<lambda>(item, ct'). Inr ct')) ct
       (zip (map Some [1..<Suc (length items)]) items)"

text \<open>\<open>db.add(bom); db.flush()\<close>\<close>

definition with_bom :: "catalog \<Rightarrow> bom \<Rightarrow> catalog" where
  "with_bom ct b = ct_tick (ct\<lparr>ct_boms := ct_boms ct @ [b]\<rparr>)"

text \<open>The recipe, and the tables as they are left: a rehearsal is rolled back.\<close>

definition create_bill_of_materials :: "catalog \<Rightarrow> actor \<Rightarrow> bom_request \<Rightarrow> bool \<Rightarrow> (bom \<times> catalog) result" where
  "create_bill_of_materials ct a p validate_only =
     (let tenant_id = ac_tenant_id a in
      bindE (require_master_data_manage a) (\<lambda>_.
      bindE (require_makeable_parent ct tenant_id (br_product_id p)) (\<lambda>product.
      bindE (ensure_bom_code_available ct tenant_id (br_code p) None) (\<lambda>_.
      bindE (judge_components ct tenant_id (br_product_id p) (br_items p)) (\<lambda>_.
      let b = \<lparr>bm_id = fresh_id (ct_db ct), bm_tenant_id = tenant_id, bm_product_id = pr_id product, bm_code = br_code p,
            bm_output_quantity = column4 (br_output_quantity p), bm_status = br_status p\<rparr>
      in bindE (require_no_clash (ct_boms ct) b) (\<lambda>_.
         let ct1 = with_bom ct b;
             ct2 = (if br_status p = ''active'' then demote_others ct1 tenant_id (pr_id product) (bm_id b) else ct1)
         in bindE (add_bom_lines tenant_id (bm_id b) ct2 (br_items p)) (\<lambda>ct3.
            Inr (b, if validate_only then ct else ct3))))))))"

record bom_update =
  bu_code :: "string option option"
  bu_output_quantity :: "quantity option option"
  bu_status :: "string option option"

definition updated_bom :: "bom_update \<Rightarrow> bom \<Rightarrow> bom" where
  "updated_bom u b = b\<lparr>
     bm_code := (case bu_code u of None \<Rightarrow> bm_code b | Some c \<Rightarrow> c),
     bm_output_quantity := (case bu_output_quantity u of Some (Some q) \<Rightarrow> column4 q | _ \<Rightarrow> bm_output_quantity b),
     bm_status := (case bu_status u of Some (Some s) \<Rightarrow> s | _ \<Rightarrow> bm_status b)\<rparr>"

text \<open>A null in a column that takes none is an \<open>IntegrityError\<close> too.\<close>

definition update_bill_of_materials :: "catalog \<Rightarrow> actor \<Rightarrow> string \<Rightarrow> bom_update \<Rightarrow> (bom \<times> catalog) result" where
  "update_bill_of_materials ct a bom_id u =
     (let tenant_id = ac_tenant_id a in
      bindE (require_master_data_manage a) (\<lambda>_.
      bindE (bom_or_404 ct tenant_id bom_id) (\<lambda>b.
      bindE (case bu_code u of None \<Rightarrow> Inr () | Some c \<Rightarrow> ensure_bom_code_available ct tenant_id c (Some (bm_id b))) (\<lambda>_.
      bindE (case bu_output_quantity u of
               None \<Rightarrow> Inr ()
             | Some q \<Rightarrow> if q \<noteq> Some (bm_output_quantity b) then require_bom_editable b else Inr ()) (\<lambda>_.
      let ct1 = (if bu_status u = Some (Some ''active'') \<and> bm_status b \<noteq> ''active''
                 then demote_others ct tenant_id (bm_product_id b) (bm_id b) else ct);
          b' = updated_bom u b
      in bindE (ensure (bu_output_quantity u \<noteq> Some None \<and> bu_status u \<noteq> Some None) 409 ''active_recipe_or_bom_code_taken'') (\<lambda>_.
         bindE (require_no_clash (ct_boms ct1) b') (\<lambda>_.
         Inr (b', ct1\<lparr>ct_boms := update_rows (\<lambda>x. bm_id x = bm_id b) (updated_bom u) (ct_boms ct1)\<rparr>))))))))"

text \<open>\<open>archive_row\<close>\<close>

definition delete_bill_of_materials :: "catalog \<Rightarrow> actor \<Rightarrow> string \<Rightarrow> catalog result" where
  "delete_bill_of_materials ct a bom_id =
     bindE (require_master_data_manage a) (\<lambda>_.
     bindE (bom_or_404 ct (ac_tenant_id a) bom_id) (\<lambda>b.
     Inr (ct\<lparr>ct_boms := update_rows (\<lambda>x. bm_id x = bm_id b) (\<lambda>x. x\<lparr>bm_status := ''archived''\<rparr>) (ct_boms ct)\<rparr>)))"

definition create_bom_item :: "catalog \<Rightarrow> actor \<Rightarrow> string \<Rightarrow> line_request \<Rightarrow> (bom_item \<times> catalog) result" where
  "create_bom_item ct a bom_id line =
     bindE (require_master_data_manage a) (\<lambda>_.
     bindE (bom_or_404 ct (ac_tenant_id a) bom_id) (\<lambda>b.
     bindE (require_bom_editable b) (\<lambda>_.
     build_bom_line (ac_tenant_id a) b ct (None, line))))"

record item_update =
  iu_line_no :: "nat option option"
  iu_component :: "string option option"
  iu_quantity :: "quantity option option"
  iu_unit :: "string option option"
  iu_scrap_rate :: "rat option option"

definition updated_item :: "item_update \<Rightarrow> uuid \<Rightarrow> bom_item \<Rightarrow> bom_item" where
  "updated_item u component l = l\<lparr>
     bi_line_no := given_or (iu_line_no u) (bi_line_no l), bi_component_id := component,
     bi_quantity := (case iu_quantity u of Some (Some q) \<Rightarrow> column4 q | _ \<Rightarrow> bi_quantity l),
     bi_unit := given_or (iu_unit u) (bi_unit l),
     bi_scrap_rate := (case iu_scrap_rate u of None \<Rightarrow> bi_scrap_rate l | Some r \<Rightarrow> map_option column_cents r)\<rparr>"

text \<open>The commit is not guarded: a null quantity or component is a 500.\<close>

definition update_bom_item :: "catalog \<Rightarrow> actor \<Rightarrow> string \<Rightarrow> item_update \<Rightarrow> catalog result" where
  "update_bom_item ct a item_id u =
     (let tenant_id = ac_tenant_id a in
      bindE (require_master_data_manage a) (\<lambda>_.
      bindE (bom_item_or_404 ct tenant_id item_id) (\<lambda>l.
      bindE (bom_or_404 ct tenant_id (bi_bom_id l)) (\<lambda>b.
      bindE (require_bom_editable b) (\<lambda>_.
      bindE (case iu_component u of
               Some (Some c) \<Rightarrow>
                 if c = [] then Inr ()
                 else bindE (require_component ct tenant_id (bm_product_id b) c []) (\<lambda>_. Inr ())
             | _ \<Rightarrow> Inr ()) (\<lambda>_.
      bindE (ensure (iu_component u \<noteq> Some None \<and> iu_quantity u \<noteq> Some None) 500 ''IntegrityError'') (\<lambda>_.
      bindE (case iu_component u of Some (Some c) \<Rightarrow> uuid_literal (ct_db ct) c | _ \<Rightarrow> Inr (bi_component_id l)) (\<lambda>component.
      Inr (ct\<lparr>ct_items := update_rows (\<lambda>x. bi_id x = bi_id l) (updated_item u component) (ct_items ct)\<rparr>)))))))))"

definition delete_bom_item :: "catalog \<Rightarrow> actor \<Rightarrow> string \<Rightarrow> catalog result" where
  "delete_bom_item ct a item_id =
     (let tenant_id = ac_tenant_id a in
      bindE (require_master_data_manage a) (\<lambda>_.
      bindE (bom_item_or_404 ct tenant_id item_id) (\<lambda>l.
      bindE (bom_or_404 ct tenant_id (bi_bom_id l)) (\<lambda>b.
      bindE (require_bom_editable b) (\<lambda>_.
      Inr (ct\<lparr>ct_items := filter (\<lambda>x. bi_id x \<noteq> bi_id l) (ct_items ct)\<rparr>))))))"

subsection \<open>Exploding a recipe\<close>

text \<open>A visited line with what it needs, unrounded; \<open>has_bom\<close> says that the walk went on below it. The
  rounding and the sums over the leaves are taken of the visited lines in their order.\<close>

record exploded =
  ex_level :: nat
  ex_parent :: uuid
  ex_line :: bom_item
  ex_required :: quantity
  ex_has_bom :: bool

definition line_required :: "quantity \<Rightarrow> bom_item \<Rightarrow> quantity" where
  "line_required ratio l =
     bi_quantity l * ratio * (1 + (case bi_scrap_rate l of None \<Rightarrow> 0 | Some s \<Rightarrow> s) / 100)"

definition sub_recipe :: "catalog \<Rightarrow> uuid \<Rightarrow> string list \<Rightarrow> bom_item \<Rightarrow> bom option" where
  "sub_recipe ct tenant_id path l =
     (if bi_component_id l \<in> set path then None else active_bom_for ct tenant_id (bi_component_id l))"

text \<open>\<open>walk\<close> after it has the ratio and the lines of its recipe; an output quantity the column rounded to
  zero is divided by.\<close>

definition ratio_of :: "quantity \<Rightarrow> bom \<Rightarrow> quantity result" where
  "ratio_of needed b =
     (if bm_output_quantity b = 0 then Inl (HttpError 500 ''ZeroDivisionError'') else Inr (needed / bm_output_quantity b))"

function walk_lines ::
    "catalog \<Rightarrow> uuid \<Rightarrow> nat \<Rightarrow> string list \<Rightarrow> uuid \<Rightarrow> quantity \<Rightarrow> bom_item list \<Rightarrow> exploded list result" where
  "walk_lines ct tenant_id level path parent ratio [] = Inr []"
| "walk_lines ct tenant_id level path parent ratio (l # ls) =
     (let required = line_required ratio l; sub = sub_recipe ct tenant_id path l in
      bindE (case sub of
               None \<Rightarrow> Inr []
             | Some b \<Rightarrow>
                 bindE (ratio_of required b) (\<lambda>r.
                 walk_lines ct tenant_id (Suc level) (path @ [bi_component_id l]) (bm_product_id b) r
                   (bom_lines ct tenant_id (bm_id b)))) (\<lambda>below.
      bindE (walk_lines ct tenant_id level path parent ratio ls) (\<lambda>rest.
      Inr (\<lparr>ex_level = level, ex_parent = parent, ex_line = l, ex_required = required, ex_has_bom = (sub \<noteq> None)\<rparr>
             # below @ rest))))"
  by pat_completeness auto

definition walked_components :: "catalog \<Rightarrow> bom_item list \<Rightarrow> string set" where
  "walked_components ct ls = bi_component_id ` (set (ct_items ct) \<union> set ls)"

lemma finite_walked [simp]: "finite (walked_components ct ls)"
  by (simp add: walked_components_def)

termination walk_lines
proof (relation "measures [\<lambda>(ct, t, level, path, parent, ratio, ls). card (walked_components ct ls - set path),
    \<lambda>(ct, t, level, path, parent, ratio, ls). length ls]")
  fix ct :: catalog and t :: uuid and level :: nat and path :: "string list" and parent :: uuid
    and ratio required r :: quantity and l :: bom_item and ls :: "bom_item list" and sub and b :: bom
  assume "sub = sub_recipe ct t path l" and "sub = Some b"
  then have "bi_component_id l \<notin> set path" by (auto simp: sub_recipe_def split: if_splits)
  moreover have "walked_components ct (bom_lines ct t (bm_id b)) \<subseteq> walked_components ct (l # ls)"
    by (auto simp: walked_components_def set_bom_lines)
  ultimately have "card (walked_components ct (bom_lines ct t (bm_id b)) - insert (bi_component_id l) (set path)) <
      card (walked_components ct (l # ls) - set path)"
    by (intro card_diff_less) (simp_all add: walked_components_def)
  then show "((ct, t, Suc level, path @ [bi_component_id l], bm_product_id b, r, bom_lines ct t (bm_id b)),
      ct, t, level, path, parent, ratio, l # ls) \<in>
      measures [\<lambda>(ct, t, level, path, parent, ratio, ls). card (walked_components ct ls - set path),
        \<lambda>(ct, t, level, path, parent, ratio, ls). length ls]" by simp
next
  fix ct :: catalog and t :: uuid and level :: nat and path :: "string list" and parent :: uuid
    and ratio :: quantity and l :: bom_item and ls :: "bom_item list"
  have "walked_components ct ls - set path \<subseteq> walked_components ct (l # ls) - set path"
    by (auto simp: walked_components_def)
  then have "card (walked_components ct ls - set path) \<le> card (walked_components ct (l # ls) - set path)"
    by (rule card_mono [rotated]) simp
  then show "((ct, t, level, path, parent, ratio, ls), ct, t, level, path, parent, ratio, l # ls) \<in>
      measures [\<lambda>(ct, t, level, path, parent, ratio, ls). card (walked_components ct ls - set path),
        \<lambda>(ct, t, level, path, parent, ratio, ls). length ls]" by auto
qed simp

text \<open>\<open>leaves.setdefault(...)\<close> and the running sum, rounded at every step; the unit is the first line's.\<close>

definition add_leaf :: "(uuid \<times> string option \<times> quantity) list \<Rightarrow> exploded \<Rightarrow> (uuid \<times> string option \<times> quantity) list" where
  "add_leaf leaves e =
     (let i = bi_component_id (ex_line e) in
      if i \<in> fst ` set leaves
      then map (\<lambda>(j, unit, q). (j, unit, if j = i then round4 (q + ex_required e) else q)) leaves
      else leaves @ [(i, bi_unit (ex_line e), round4 (0 + ex_required e))])"

definition leaves_of :: "exploded list \<Rightarrow> (uuid \<times> string option \<times> quantity) list" where
  "leaves_of es = foldl add_leaf [] (filter (\<lambda>e. \<not> ex_has_bom e) es)"

record exploded_row =
  er_level :: nat
  er_parent :: uuid
  er_component :: uuid
  er_unit :: "string option"
  er_required :: quantity
  er_has_bom :: bool
  er_available :: "quantity option"

record leaf_row =
  lf_product :: uuid
  lf_unit :: "string option"
  lf_required :: quantity
  lf_available :: "quantity option"
  lf_shortage :: "quantity option"

definition atp_of :: "catalog \<Rightarrow> uuid \<Rightarrow> uuid option \<Rightarrow> uuid \<Rightarrow> quantity" where
  "atp_of ct tenant_id facility_id product_id =
     sum_where (\<lambda>p. ps_product_id p = product_id \<and> (facility_id = None \<or> ps_facility_id p = facility_id) \<and>
         (case get_row (ct_db ct) InventoryItem (ps_id p) of
            None \<Rightarrow> False | Some r \<Rightarrow> row_tenant_id r = tenant_id \<and> row_status r = ''active''))
       ps_available (wh_positions (ct_stock ct))"

record explosion =
  xp_bom_id :: uuid
  xp_product_id :: uuid
  xp_lines :: "exploded_row list"
  xp_leaves :: "leaf_row list"

definition explode_bill_of_materials ::
    "catalog \<Rightarrow> uuid \<Rightarrow> string \<Rightarrow> quantity \<Rightarrow> bool \<Rightarrow> uuid option \<Rightarrow> explosion result" where
  "explode_bill_of_materials ct tenant_id bom_id quantity with_stock facility_id =
     bindE (bom_or_404 ct tenant_id bom_id) (\<lambda>root.
     bindE (ratio_of quantity root) (\<lambda>ratio.
     bindE (walk_lines ct tenant_id 1 [bm_product_id root] (bm_product_id root) ratio (bom_lines ct tenant_id (bm_id root))) (\<lambda>es.
     bindE (if with_stock \<and> facility_id \<noteq> None
            then bindE (scoped_facility (ct_stock ct) tenant_id (the facility_id)) (\<lambda>_. Inr ()) else Inr ()) (\<lambda>_.
     let atp = (\<lambda>i. if with_stock then Some (atp_of ct tenant_id facility_id i) else None) in
     Inr \<lparr>xp_bom_id = bm_id root, xp_product_id = bm_product_id root,
       xp_lines = map (\<lambda>e. \<lparr>er_level = ex_level e, er_parent = ex_parent e, er_component = bi_component_id (ex_line e),
         er_unit = bi_unit (ex_line e), er_required = round4 (ex_required e), er_has_bom = ex_has_bom e,
         er_available = atp (bi_component_id (ex_line e))\<rparr>) es,
       xp_leaves = map (\<lambda>(i, unit, q). \<lparr>lf_product = i, lf_unit = unit, lf_required = q, lf_available = atp i,
         lf_shortage = map_option (\<lambda>x. round4 (max 0 (q - x))) (atp i)\<rparr>) (leaves_of es)\<rparr>))))"

end
