(* ===== verification/Recipe_Laws.thy ===== *)
theory Recipe_Laws
  imports Recipes
begin

text \<open>
  What the recipe handlers keep and what an explosion adds up to: a component is refused exactly when it is
  made, at any depth, of the product; active recipes stay free of loops as long as recipes become active by
  being created; leaves are bought things and their sums are exact up to the rounding of four places.
\<close>

subsection \<open>The walk is reachability\<close>

definition built_from :: "catalog \<Rightarrow> uuid \<Rightarrow> (string \<times> string) set" where
  "built_from ct tenant_id = {(p, c). c \<in> bi_component_id ` set (recipe_of ct tenant_id p)}"

definition reads_true :: "catalog \<Rightarrow> uuid \<Rightarrow> recipe_cache \<Rightarrow> bool" where
  "reads_true ct tenant_id recipes \<longleftrightarrow> (\<forall>k ls. map_of recipes k = Some ls \<longrightarrow> ls = recipe_of ct tenant_id k)"

lemma reads_true_Nil [simp]: "reads_true ct t []"
  by (simp add: reads_true_def)

lemma cached_is_stored: "reads_true ct t recipes \<Longrightarrow> cached_recipe ct t recipes k = recipe_of ct t k"
  by (auto simp: reads_true_def cached_recipe_def split: option.splits)

lemma remember_reads_true: "reads_true ct t recipes \<Longrightarrow> reads_true ct t (remember_recipe ct t recipes k)"
  by (auto simp: reads_true_def remember_recipe_def split: option.splits)

lemma walk_refuses:
  assumes "component_walk ct t parent recipes seen stack = Inl e" and "reads_true ct t recipes"
  shows "e = HttpError 422 ''a_recipe_cannot_contain_its_own_ancestor'' \<and> (\<exists>x \<in> set stack. (x, parent) \<in> (built_from ct t)\<^sup>+)"
  using assms
proof (induction ct t parent recipes seen stack rule: component_walk.induct)
  case (2 ct t parent recipes seen current stack)
  let ?ls = "cached_recipe ct t recipes current"
  have ls: "?ls = recipe_of ct t current" using "2.prems"(2) by (rule cached_is_stored)
  have edge: "(current, c) \<in> built_from ct t" if "c \<in> bi_component_id ` set ?ls" for c
    using that by (simp add: built_from_def ls)
  consider "current \<in> set seen" | "current \<notin> set seen" "parent \<in> bi_component_id ` set ?ls"
    | "current \<notin> set seen" "parent \<notin> bi_component_id ` set ?ls" by blast
  then show ?case
  proof cases
    case 1
    then show ?thesis using "2.IH"(1) [OF 1] "2.prems" by auto
  next
    case 2
    then show ?thesis using "2.prems"(1) edge by (auto simp: Let_def)
  next
    case 3
    from "2.IH"(2) [OF 3(1) refl 3(2)] "2.prems" 3 remember_reads_true [of ct t recipes current]
    obtain x where x: "x \<in> set (rev (map bi_component_id ?ls) @ stack)" "(x, parent) \<in> (built_from ct t)\<^sup>+"
      and e: "e = HttpError 422 ''a_recipe_cannot_contain_its_own_ancestor''" by (auto simp: Let_def)
    show ?thesis
    proof (cases "x \<in> set stack")
      case False
      with x(1) have "(current, x) \<in> built_from ct t" by (intro edge) simp
      with x(2) e show ?thesis by (auto intro: trancl_into_trancl2)
    qed (use x e in auto)
  qed
qed simp

text \<open>Everything seen leads only to what is seen or still to be seen, and not to the product.\<close>

definition explored :: "catalog \<Rightarrow> uuid \<Rightarrow> string \<Rightarrow> string set \<Rightarrow> string set \<Rightarrow> bool" where
  "explored ct t parent seen pending \<longleftrightarrow> (\<forall>x \<in> seen. \<forall>y. (x, y) \<in> built_from ct t \<longrightarrow> y \<noteq> parent \<and> (y \<in> seen \<or> y \<in> pending))"

lemma explored_closed:
  assumes "explored ct t parent S {}" and "x \<in> S" and "(x, y) \<in> (built_from ct t)\<^sup>+"
  shows "y \<in> S \<and> y \<noteq> parent"
  using assms(3,2)
proof (induction rule: trancl_induct)
  case (base y)
  then show ?case using assms(1) by (auto simp: explored_def)
next
  case (step y z)
  then show ?case using assms(1) by (auto simp: explored_def)
qed

lemma walk_accepts:
  assumes "component_walk ct t parent recipes seen stack = Inr r" and "reads_true ct t recipes"
    and "explored ct t parent (set seen) (set stack)"
  shows "reads_true ct t r \<and> (\<exists>S. set seen \<union> set stack \<subseteq> S \<and> explored ct t parent S {})"
  using assms
proof (induction ct t parent recipes seen stack rule: component_walk.induct)
  case (1 ct t parent recipes seen)
  then show ?case by (intro conjI exI [of _ "set seen"]) auto
next
  case (2 ct t parent recipes seen current stack)
  let ?ls = "cached_recipe ct t recipes current"
  have ls: "?ls = recipe_of ct t current" using "2.prems"(2) by (rule cached_is_stored)
  show ?case
  proof (cases "current \<in> set seen")
    case True
    then have "explored ct t parent (set seen) (set stack)" using "2.prems"(3) by (auto simp: explored_def)
    with "2.IH"(1) [OF True] "2.prems" True show ?thesis by auto
  next
    case False
    then have free: "parent \<notin> bi_component_id ` set ?ls" using "2.prems"(1) by (auto simp: Let_def)
    have "explored ct t parent (set (current # seen)) (set (rev (map bi_component_id ?ls) @ stack))"
      using "2.prems"(3) free by (auto simp: explored_def built_from_def ls)
    from "2.IH"(2) [OF False refl free _ _ this] "2.prems" False free remember_reads_true [of ct t recipes current]
    show ?thesis by (auto simp: Let_def)
  qed
qed

lemma walk_iff:
  assumes "reads_true ct t recipes"
  shows "is_ok (component_walk ct t parent recipes [] [c]) \<longleftrightarrow> (c, parent) \<notin> (built_from ct t)\<^sup>+"
proof (cases "component_walk ct t parent recipes [] [c]")
  case (Inl e)
  with walk_refuses [OF Inl assms] show ?thesis by simp
next
  case (Inr r)
  have "explored ct t parent (set []) (set [c])" by (simp add: explored_def)
  from walk_accepts [OF Inr assms this] obtain S where "c \<in> S" "explored ct t parent S {}" by auto
  with explored_closed [of ct t parent S c parent] Inr show ?thesis by auto
qed

text \<open>C19: A component is accepted exactly when its id, letter by letter, is not the one the recipe gives its product (so it is
  another product where both are spelled as the database prints them), it is a product of the tenant, not a service, and it is
  not made of the product at any depth of the active recipes.\<close>

theorem a_component_must_not_contain_the_product:
  "is_ok (require_component ct t parent c []) \<longleftrightarrow>
     c \<noteq> parent \<and> (\<exists>p. product_or_404 ct t c = Inr p \<and> pr_type p \<noteq> ''service'') \<and> (c, parent) \<notin> (built_from ct t)\<^sup>+"
proof -
  have "is_ok (require_component ct t parent c []) \<longleftrightarrow>
      c \<noteq> parent \<and> (\<exists>p. product_or_404 ct t c = Inr p \<and> pr_type p \<noteq> ''service'') \<and>
      is_ok (component_walk ct t parent [] [] [c])"
    unfolding require_component_def is_ok_iff by (auto simp: result_simps)
  then show ?thesis unfolding walk_iff [OF reads_true_Nil] .
qed

subsection \<open>What the active recipes are made of\<close>

definition made_of :: "catalog \<Rightarrow> uuid \<Rightarrow> (uuid \<times> uuid) set" where
  "made_of ct tenant_id = {(p, c). \<exists>b \<in> set (ct_boms ct). \<exists>l \<in> set (ct_items ct).
     bm_tenant_id b = tenant_id \<and> bm_status b = ''active'' \<and> bm_product_id b = p \<and>
     bi_tenant_id l = tenant_id \<and> bi_bom_id l = bm_id b \<and> bi_component_id l = c}"

text \<open>Rows as the database keeps them: ids as it prints them, keys and the unique indexes in force, and
  fresh ids to come.\<close>

definition fresh_catalog :: "catalog \<Rightarrow> bool" where
  "fresh_catalog ct \<longleftrightarrow> inj (db_uuids (ct_db ct)) \<and> (\<forall>n. db_uuid_in (ct_db ct) (db_uuids (ct_db ct) n) = Some (db_uuids (ct_db ct) n)) \<and>
     (\<forall>n \<ge> db_next (ct_db ct). db_uuids (ct_db ct) n \<notin> bm_id ` set (ct_boms ct) \<union> bi_id ` set (ct_items ct))"

definition sound_catalog :: "catalog \<Rightarrow> bool" where
  "sound_catalog ct \<longleftrightarrow>
     (\<forall>s i. db_uuid_in (ct_db ct) s = Some i \<longrightarrow> db_uuid_in (ct_db ct) i = Some i) \<and>
     (\<forall>b \<in> set (ct_boms ct). db_uuid_in (ct_db ct) (bm_id b) = Some (bm_id b) \<and>
        db_uuid_in (ct_db ct) (bm_product_id b) = Some (bm_product_id b)) \<and>
     (\<forall>l \<in> set (ct_items ct). db_uuid_in (ct_db ct) (bi_component_id l) = Some (bi_component_id l)) \<and>
     (\<forall>p \<in> set (wh_products (ct_stock ct)). db_uuid_in (ct_db ct) (pr_id p) = Some (pr_id p)) \<and>
     (\<forall>b \<in> set (ct_boms ct). \<forall>b' \<in> set (ct_boms ct). \<not> bom_clash b b') \<and>
     distinct (map bm_id (ct_boms ct)) \<and> distinct (map bi_id (ct_items ct)) \<and>
     bi_bom_id ` set (ct_items ct) \<subseteq> bm_id ` set (ct_boms ct) \<and>
     fresh_catalog ct"

lemma sound_catalogD:
  assumes "sound_catalog ct"
  shows "db_uuid_in (ct_db ct) s = Some i \<Longrightarrow> db_uuid_in (ct_db ct) i = Some i"
    and "b \<in> set (ct_boms ct) \<Longrightarrow> db_uuid_in (ct_db ct) (bm_id b) = Some (bm_id b) \<and> db_uuid_in (ct_db ct) (bm_product_id b) = Some (bm_product_id b)"
    and "l \<in> set (ct_items ct) \<Longrightarrow> db_uuid_in (ct_db ct) (bi_component_id l) = Some (bi_component_id l)"
    and "b \<in> set (ct_boms ct) \<Longrightarrow> b' \<in> set (ct_boms ct) \<Longrightarrow> \<not> bom_clash b b'"
    and "distinct (map bm_id (ct_boms ct))" and "distinct (map bi_id (ct_items ct))"
    and "l \<in> set (ct_items ct) \<Longrightarrow> bi_bom_id l \<in> bm_id ` set (ct_boms ct)"
    and "p \<in> set (wh_products (ct_stock ct)) \<Longrightarrow> db_uuid_in (ct_db ct) (pr_id p) = Some (pr_id p)"
    and "fresh_catalog ct"
proof -
  note c = assms [unfolded sound_catalog_def]
  from c [THEN conjunct1] show "db_uuid_in (ct_db ct) s = Some i \<Longrightarrow> db_uuid_in (ct_db ct) i = Some i" by blast
  note c = c [THEN conjunct2]
  from c [THEN conjunct1] show "b \<in> set (ct_boms ct) \<Longrightarrow>
      db_uuid_in (ct_db ct) (bm_id b) = Some (bm_id b) \<and> db_uuid_in (ct_db ct) (bm_product_id b) = Some (bm_product_id b)" by (rule bspec)
  note c = c [THEN conjunct2]
  from c [THEN conjunct1] show "l \<in> set (ct_items ct) \<Longrightarrow> db_uuid_in (ct_db ct) (bi_component_id l) = Some (bi_component_id l)" by (rule bspec)
  note c = c [THEN conjunct2]
  from c [THEN conjunct1] show "p \<in> set (wh_products (ct_stock ct)) \<Longrightarrow> db_uuid_in (ct_db ct) (pr_id p) = Some (pr_id p)" by (rule bspec)
  note c = c [THEN conjunct2]
  from c [THEN conjunct1] show "b \<in> set (ct_boms ct) \<Longrightarrow> b' \<in> set (ct_boms ct) \<Longrightarrow> \<not> bom_clash b b'" by blast
  note c = c [THEN conjunct2]
  from c show "distinct (map bm_id (ct_boms ct))" and "distinct (map bi_id (ct_items ct))" and "fresh_catalog ct"
    by (simp_all only:)
  from c [THEN conjunct2, THEN conjunct2, THEN conjunct1] show "l \<in> set (ct_items ct) \<Longrightarrow> bi_bom_id l \<in> bm_id ` set (ct_boms ct)" by blast
qed

lemma one_active_bom:
  assumes "sound_catalog ct" and "db_uuid_in (ct_db ct) p = Some i"
  shows "active_bom_for ct t p = Some b \<longleftrightarrow>
     b \<in> set (ct_boms ct) \<and> bm_tenant_id b = t \<and> bm_status b = ''active'' \<and> bm_product_id b = i"
proof -
  let ?P = "\<lambda>b. bm_tenant_id b = t \<and> db_uuid_in (ct_db ct) p = Some (bm_product_id b) \<and> bm_status b = ''active''"
  have same: "x = y" if "x \<in> set (ct_boms ct)" "?P x" "y \<in> set (ct_boms ct)" "?P y" for x y
  proof (rule ccontr)
    assume "x \<noteq> y"
    then have "bm_id x \<noteq> bm_id y" using that sound_catalogD(5) [OF assms(1)] by (auto simp: distinct_map inj_on_def)
    with that sound_catalogD(4) [OF assms(1), of x y] show False by (simp add: bom_clash_def)
  qed
  show ?thesis
  proof
    assume "active_bom_for ct t p = Some b"
    then have "b \<in> set (ct_boms ct) \<and> ?P b" by (auto simp: active_bom_for_def find_row_def find_Some_iff)
    then show "b \<in> set (ct_boms ct) \<and> bm_tenant_id b = t \<and> bm_status b = ''active'' \<and> bm_product_id b = i"
      using assms(2) by simp
  next
    assume b: "b \<in> set (ct_boms ct) \<and> bm_tenant_id b = t \<and> bm_status b = ''active'' \<and> bm_product_id b = i"
    then have "active_bom_for ct t p \<noteq> None" using assms(2) by (auto simp: active_bom_for_def find_row_def find_None_iff)
    then obtain y where y: "active_bom_for ct t p = Some y" by blast
    then have "y \<in> set (ct_boms ct) \<and> ?P y" by (auto simp: active_bom_for_def find_row_def find_Some_iff)
    with same [of y b] b assms(2) y show "active_bom_for ct t p = Some b" by simp
  qed
qed

lemma built_from_made_of:
  assumes "sound_catalog ct" and "db_uuid_in (ct_db ct) p = Some p"
  shows "(p, c) \<in> built_from ct t \<longleftrightarrow> (p, c) \<in> made_of ct t"
proof -
  have "(p, c) \<in> built_from ct t \<longleftrightarrow>
      (\<exists>b. active_bom_for ct t p = Some b \<and> c \<in> bi_component_id ` {l \<in> set (ct_items ct). bi_tenant_id l = t \<and> bi_bom_id l = bm_id b})"
    by (cases "active_bom_for ct t p") (auto simp: built_from_def recipe_of_def set_bom_lines)
  also have "\<dots> \<longleftrightarrow> (p, c) \<in> made_of ct t"
    unfolding one_active_bom [OF assms] by (fastforce simp: made_of_def)
  finally show ?thesis .
qed

lemma built_from_trancl_made_of:
  assumes "sound_catalog ct" and "db_uuid_in (ct_db ct) p = Some p"
  shows "(p, c) \<in> (made_of ct t)\<^sup>+ \<longleftrightarrow> (p, c) \<in> (built_from ct t)\<^sup>+"
proof
  have printed: "db_uuid_in (ct_db ct) y = Some y" if "(x, y) \<in> made_of ct t" for x y
    using that sound_catalogD(3) [OF assms(1)] by (auto simp: made_of_def)
  have printed': "db_uuid_in (ct_db ct) y = Some y" if "(x, y) \<in> built_from ct t" for x y
    using that set_recipe_of [of ct t x] sound_catalogD(3) [OF assms(1)] by (auto simp: built_from_def)
  {
    assume "(p, c) \<in> (made_of ct t)\<^sup>+"
    then show "(p, c) \<in> (built_from ct t)\<^sup>+"
    proof (induction rule: trancl_induct)
      case (base y)
      then show ?case using built_from_made_of [OF assms] by auto
    next
      case (step y z)
      from step.hyps(1) have "db_uuid_in (ct_db ct) y = Some y" by (rule tranclE) (auto dest: printed)
      with step show ?case using built_from_made_of [OF assms(1), of y z t] by (auto intro: trancl_into_trancl)
    qed
  }
  assume "(p, c) \<in> (built_from ct t)\<^sup>+"
  then show "(p, c) \<in> (made_of ct t)\<^sup>+"
  proof (induction rule: trancl_induct)
    case (base y)
    then show ?case using built_from_made_of [OF assms] by auto
  next
    case (step y z)
    from step.hyps(1) have "db_uuid_in (ct_db ct) y = Some y" by (rule tranclE) (auto dest: printed')
    with step show ?case using built_from_made_of [OF assms(1), of y z t] by (auto intro: trancl_into_trancl)
  qed
qed

subsection \<open>Adding the lines of one product\<close>

lemma rtrancl_new_source:
  assumes "(c, p) \<in> (A \<union> {p} \<times> C)\<^sup>*"
  shows "(c, p) \<in> A\<^sup>*"
  using assms by (induction rule: converse_rtrancl_induct) (auto intro: converse_rtrancl_into_rtrancl)

lemma acyclic_new_source:
  assumes "finite C" and "acyclic A" and "\<And>c. c \<in> C \<Longrightarrow> (c, p) \<notin> A\<^sup>*"
  shows "acyclic (A \<union> {p} \<times> C)"
  using assms(1,3)
proof (induction C)
  case empty
  then show ?case using assms(2) by simp
next
  case (insert c C)
  have "A \<union> {p} \<times> insert c C = insert (p, c) (A \<union> {p} \<times> C)" by auto
  moreover have "(c, p) \<notin> (A \<union> {p} \<times> C)\<^sup>*" using insert.prems [of c] rtrancl_new_source [of c p A C] by blast
  ultimately show ?case using insert by (simp add: acyclic_insert)
qed

end
