(* ===== verification/Parent_Walks.thy ===== *)
theory Parent_Walks
  imports Accounts Visibility
begin

text \<open>
  Rows that name a parent row of their own table: product categories, geos, contracts. Each family refuses,
  by a walk of its own, a parent that lies below the row being moved. The locale states what such a
  walk has to promise, and what it buys: the hierarchy stays free of loops.
\<close>

definition parent_links :: "('r \<Rightarrow> uuid) \<Rightarrow> ('r \<Rightarrow> uuid option) \<Rightarrow> 'r list \<Rightarrow> (uuid \<times> uuid) set" where
  "parent_links key up rs = {(key r, p) | r p. r \<in> set rs \<and> up r = Some p}"

text \<open>Every parent is a row of the same workspace.\<close>

definition parents_kept :: "('r \<Rightarrow> uuid) \<Rightarrow> ('r \<Rightarrow> uuid option) \<Rightarrow> ('r \<Rightarrow> uuid) \<Rightarrow> 'r list \<Rightarrow> bool" where
  "parents_kept key up tenant rs \<longleftrightarrow>
     (\<forall>r \<in> set rs. \<forall>p. up r = Some p \<longrightarrow> (\<exists>r' \<in> set rs. key r' = p \<and> tenant r' = tenant r))"

text \<open>The database's reading of ids: it reads what it prints, and fresh ids are new.\<close>

definition reads_back :: "db \<Rightarrow> uuid set \<Rightarrow> bool" where
  "reads_back db ids \<longleftrightarrow>
     (\<forall>s i. db_uuid_in db s = Some i \<longrightarrow> db_uuid_in db i = Some i) \<and> (\<forall>i \<in> ids. db_uuid_in db i = Some i) \<and>
     inj (db_uuids db) \<and> (\<forall>n. db_uuid_in db (db_uuids db n) = Some (db_uuids db n)) \<and>
     (\<forall>n \<ge> db_next db. db_uuids db n \<notin> ids)"

lemma reads_backD:
  assumes "reads_back db ids"
  shows "db_uuid_in db s = Some i \<Longrightarrow> db_uuid_in db i = Some i" and "i \<in> ids \<Longrightarrow> db_uuid_in db i = Some i"
    and "fresh_id db \<notin> ids"
  using assms by (auto simp: reads_back_def fresh_id_def)

lemma reads_back_fresh:
  assumes "reads_back db ids"
  shows "reads_back (tick db) (insert (fresh_id db) ids)"
proof -
  have "db_uuids db n \<noteq> db_uuids db (db_next db)" if "Suc (db_next db) \<le> n" for n
    using assms that by (auto simp: reads_back_def inj_eq)
  with assms show ?thesis by (auto simp: reads_back_def tick_fields fresh_id_def)
qed

lemma reads_back_same:
  assumes "reads_back db ids" and "db_uuid_in db' = db_uuid_in db" and "db_uuids db' = db_uuids db" and "db_next db' = db_next db"
    and "ids' \<subseteq> ids"
  shows "reads_back db' ids'"
  unfolding reads_back_def assms(2-4) using assms(1,5) unfolding reads_back_def by blast

subsection \<open>Fetching by the id of a request\<close>

text \<open>\<open>get_scoped_or_404\<close> on a table without a visibility clause: an id that is not one, no row and another
  workspace's row are one answer.\<close>

definition scoped_row :: "db \<Rightarrow> ('r \<Rightarrow> uuid) \<Rightarrow> ('r \<Rightarrow> uuid) \<Rightarrow> 'r list \<Rightarrow> uuid \<Rightarrow> string \<Rightarrow> 'r result" where
  "scoped_row db key tenant rs tenant_id s =
     (case db_uuid_in db s of
        None \<Rightarrow> Inl (HttpError 404 ''not_found'')
      | Some i \<Rightarrow>
          (case find_row (\<lambda>r. key r = i) rs of
             None \<Rightarrow> Inl (HttpError 404 ''not_found'')
           | Some r \<Rightarrow> if tenant r \<noteq> tenant_id then Inl (HttpError 404 ''not_found'') else Inr r))"

lemma scoped_row_Inr:
  "scoped_row db key tenant rs t s = Inr r \<Longrightarrow> r \<in> set rs \<and> tenant r = t \<and> db_uuid_in db s = Some (key r)"
  by (auto simp: scoped_row_def dest!: find_row_Some split: option.splits if_splits)

lemma find_row_by_key:
  assumes "distinct (map key rs)" and "r \<in> set rs"
  shows "find_row (\<lambda>x. key x = key r) rs = Some r"
proof (cases "find_row (\<lambda>x. key x = key r) rs")
  case None
  then show ?thesis using assms(2) by (auto simp: find_row_None_iff)
next
  case (Some x)
  with find_row_Some [OF Some] assms show ?thesis by (auto simp: distinct_map inj_on_def)
qed

lemma scoped_row_found:
  assumes "distinct (map key rs)" and "r \<in> set rs" and "db_uuid_in db s = Some (key r)"
  shows "scoped_row db key tenant rs (tenant r) s = Inr r"
  using find_row_by_key [OF assms(1,2)] assms(3) by (simp add: scoped_row_def)

subsection \<open>Links after a write\<close>

lemma parent_links_Nil [simp]: "parent_links key up [] = {}"
  by (simp add: parent_links_def)

lemma parent_linksI: "r \<in> set rs \<Longrightarrow> up r = Some p \<Longrightarrow> (key r, p) \<in> parent_links key up rs"
  by (auto simp: parent_links_def)

lemma parent_links_snoc:
  "parent_links key up (rs @ [r]) = (case up r of None \<Rightarrow> parent_links key up rs | Some p \<Rightarrow> insert (key r, p) (parent_links key up rs))"
  by (auto simp: parent_links_def split: option.splits)

lemma range_parent_links: "parents_kept key up tenant rs \<Longrightarrow> (x, p) \<in> parent_links key up rs \<Longrightarrow> x \<in> key ` set rs \<and> p \<in> key ` set rs"
  by (fastforce simp: parents_kept_def parent_links_def)

lemma single_parent:
  "distinct (map key rs) \<Longrightarrow> (x, p) \<in> parent_links key up rs \<Longrightarrow> (x, q) \<in> parent_links key up rs \<Longrightarrow> p = q"
  unfolding parent_links_def distinct_map inj_on_def by (elim CollectE exE conjE) force

lemma parents_kept_update:
  assumes "parents_kept key up tenant rs" and "\<And>r. key (f r) = key r \<and> tenant (f r) = tenant r"
    and "\<And>r p. r \<in> set rs \<Longrightarrow> P r \<Longrightarrow> up (f r) = Some p \<Longrightarrow> \<exists>r' \<in> set rs. key r' = p \<and> tenant r' = tenant r"
  shows "parents_kept key up tenant (update_rows P f rs)"
proof -
  have there: "\<exists>r'' \<in> set (update_rows P f rs). key r'' = p \<and> tenant r'' = tt"
    if "r' \<in> set rs" "key r' = p" "tenant r' = tt" for r' p tt
    using that assms(2) by (intro bexI [of _ "if P r' then f r' else r'"]) (auto simp: update_rows_def)
  show ?thesis
    unfolding parents_kept_def
  proof (intro ballI allI impI)
    fix r p assume r: "r \<in> set (update_rows P f rs)" "up r = Some p"
    then consider q where "q \<in> set rs" "\<not> P q" "r = q" | q where "q \<in> set rs" "P q" "r = f q" by (auto simp: set_update_rows)
    then have "\<exists>r' \<in> set rs. key r' = p \<and> tenant r' = tenant r"
      using r(2) assms by cases (auto simp: parents_kept_def)
    then show "\<exists>r' \<in> set (update_rows P f rs). key r' = p \<and> tenant r' = tenant r" using there by blast
  qed
qed

lemma parents_kept_snoc:
  assumes "parents_kept key up tenant rs" and "\<And>p. up r = Some p \<Longrightarrow> \<exists>r' \<in> set rs. key r' = p \<and> tenant r' = tenant r"
  shows "parents_kept key up tenant (rs @ [r])"
  using assms by (fastforce simp: parents_kept_def)

lemma acyclic_new_leaf:
  assumes "acyclic (parent_links key up rs)" and "parents_kept key up tenant rs" and "key r \<notin> key ` set rs"
    and "\<And>p. up r = Some p \<Longrightarrow> p \<in> key ` set rs"
  shows "acyclic (parent_links key up (rs @ [r]))"
proof (cases "up r")
  case (Some p)
  have "y \<in> key ` set rs" if "(p, y) \<in> (parent_links key up rs)\<^sup>*" for y
    using that assms(4) [OF Some] by (induction rule: rtrancl_induct) (auto dest: range_parent_links [OF assms(2)])
  then have "(p, key r) \<notin> (parent_links key up rs)\<^sup>*" using assms(3) by blast
  with assms(1) Some show ?thesis by (simp add: parent_links_snoc acyclic_insert)
qed (simp add: parent_links_snoc assms(1))

lemma parent_links_update:
  assumes "\<And>r. key (f r) = key r"
  shows "parent_links key up (update_rows (\<lambda>r. key r = i) f rs) \<subseteq>
    {(x, p). (x, p) \<in> parent_links key up rs \<and> x \<noteq> i} \<union> {(i, p) | r p. r \<in> set rs \<and> key r = i \<and> up (f r) = Some p}"
proof (rule subrelI)
  fix x p
  assume "(x, p) \<in> parent_links key up (update_rows (\<lambda>r. key r = i) f rs)"
  then obtain q where q: "q \<in> set (update_rows (\<lambda>r. key r = i) f rs)" "key q = x" "up q = Some p" by (auto simp: parent_links_def)
  then consider "q \<in> set rs" "key q \<noteq> i" | r where "r \<in> set rs" "key r = i" "q = f r" by (auto simp: set_update_rows)
  then show "(x, p) \<in> {(x, p). (x, p) \<in> parent_links key up rs \<and> x \<noteq> i} \<union> {(i, p) | r p. r \<in> set rs \<and> key r = i \<and> up (f r) = Some p}"
  proof cases
    case 1
    then have "(x, p) \<in> parent_links key up rs" using q by (auto intro: parent_linksI)
    with 1 q show ?thesis by simp
  next
    case 2
    with q assms show ?thesis by auto
  qed
qed

subsection \<open>What a walk over the parents has to promise\<close>

locale guarded_tree =
  fixes key :: "'r \<Rightarrow> uuid" and up :: "'r \<Rightarrow> uuid option" and rows :: "'w \<Rightarrow> 'r list"
    and sound :: "'w \<Rightarrow> bool" and accepts :: "'w \<Rightarrow> uuid \<Rightarrow> uuid \<Rightarrow> bool"
  assumes distinct_keys: "sound w \<Longrightarrow> distinct (map key (rows w))"
    and accepts_above: "sound w \<Longrightarrow> accepts w x p \<Longrightarrow> (p, x) \<notin> (parent_links key up (rows w))\<^sup>*"
begin

lemma moved_keeps_acyclic:
  assumes w: "sound w" and a: "acyclic (parent_links key up (rows w))" and k: "\<And>r. key (f r) = key r"
    and ok: "\<And>r p. r \<in> set (rows w) \<Longrightarrow> key r = i \<Longrightarrow> up (f r) = Some p \<Longrightarrow> up r = Some p \<or> accepts w i p"
    and w': "rows w' = update_rows (\<lambda>r. key r = i) f (rows w)"
  shows "acyclic (parent_links key up (rows w'))"
proof -
  let ?L = "parent_links key up (rows w)"
  have sub: "parent_links key up (rows w') \<subseteq> {(x, p). (x, p) \<in> ?L \<and> x \<noteq> i} \<union> {(i, p) | r p. r \<in> set (rows w) \<and> key r = i \<and> up (f r) = Some p}"
    unfolding w' by (rule parent_links_update) (rule k)
  show ?thesis
  proof (cases "\<exists>r p. r \<in> set (rows w) \<and> key r = i \<and> up (f r) = Some p \<and> up r \<noteq> Some p")
    case True
    then obtain r p where r: "r \<in> set (rows w)" "key r = i" "up (f r) = Some p" "up r \<noteq> Some p" by blast
    have only: "r' = r" if "r' \<in> set (rows w)" "key r' = i" for r'
      using that r distinct_keys [OF w] by (auto simp: distinct_map inj_on_def)
    have "parent_links key up (rows w') \<subseteq> insert (i, p) ?L" using sub r only by fastforce
    moreover have "(p, i) \<notin> ?L\<^sup>*" using ok [OF r(1-3)] r(4) accepts_above [OF w] by blast
    ultimately show ?thesis using a by (meson acyclic_insert acyclic_subset)
  next
    case False
    then have "parent_links key up (rows w') \<subseteq> ?L" using sub by (fastforce intro: parent_linksI)
    with a show ?thesis by (rule acyclic_subset)
  qed
qed

text \<open>Without a loop the walk from any row ends at one without a parent.\<close>

lemma has_a_root:
  assumes "acyclic (parent_links key up (rows w))" and "parents_kept key up tenant (rows w)" and "r \<in> set (rows w)"
  shows "\<exists>r' \<in> set (rows w). (key r, key r') \<in> (parent_links key up (rows w))\<^sup>* \<and> up r' = None"
proof -
  let ?L = "parent_links key up (rows w)"
  have "?L \<subseteq> key ` set (rows w) \<times> key ` set (rows w)" using range_parent_links [OF assms(2)] by auto
  then have "finite ?L" by (rule finite_subset) simp
  then have "wf (?L\<inverse>)" using assms(1) by (simp add: finite_acyclic_wf_converse)
  then show ?thesis using assms(3)
  proof (induction "key r" arbitrary: r rule: wf_induct_rule)
    case less
    show ?case
    proof (cases "up r")
      case (Some p)
      with less.prems assms(2) obtain q where q: "q \<in> set (rows w)" "key q = p" by (auto simp: parents_kept_def)
      have "(key r, key q) \<in> ?L" using less.prems Some q by (auto intro: parent_linksI)
      with less.hyps [of q] q(1) show ?thesis by (auto intro: converse_rtrancl_into_rtrancl)
    qed (use less.prems in auto)
  qed
qed

end

end
