(* ===== verification/Restating.thy ===== *)
theory Restating
  imports Machines Parent_Walks
begin

text \<open>
  Whole-document saves (\<open>app/api/common/saves.py\<close>): the lines of a document restated in one act, as a difference to the
  lines it has. A family of lines gives the engine its columns (\<open>getattr\<close>), its two request models and the three
  things done to a line, as the code's callers do; the locale \<open>line_store\<close> says what those must do to the document's
  lines, and what the engine then promises. Cells are the JSON values of a request: a float and a number that is none are
  one kind of number, objects are read in the order of their keys, and no text stands where a number does.
\<close>

type_synonym cells = "(string \<times> json) list"

text \<open>A nullable column as a cell, and a cell as the value of a column.\<close>

definition text_cell :: "string option \<Rightarrow> json" where
  "text_cell x = (case x of None \<Rightarrow> JNull | Some s \<Rightarrow> JStr s)"

definition number_cell :: "rat option \<Rightarrow> json" where
  "number_cell x = (case x of None \<Rightarrow> JNull | Some q \<Rightarrow> JNum q)"

definition cell_text :: "json \<Rightarrow> string option" where
  "cell_text v = (case v of JStr s \<Rightarrow> Some s | _ \<Rightarrow> None)"

definition cell_number :: "json \<Rightarrow> rat option" where
  "cell_number v = (case v of JNum q \<Rightarrow> Some q | _ \<Rightarrow> None)"

definition cell_nat :: "json \<Rightarrow> nat option" where
  "cell_nat v = map_option (\<lambda>q. nat \<lfloor>q\<rfloor>) (cell_number v)"

subsection \<open>The difference of a line\<close>

definition as_number :: "json \<Rightarrow> rat option" where
  "as_number v = (case v of JNum q \<Rightarrow> Some q | JBool b \<Rightarrow> Some (if b then 1 else 0) | _ \<Rightarrow> None)"

definition same_cell :: "json \<Rightarrow> json \<Rightarrow> bool" where
  "same_cell current stated =
     (case (as_number current, as_number stated) of
        (Some x, Some y) \<Rightarrow> \<bar>x - y\<bar> < 1 / 1000000000
      | _ \<Rightarrow> current = stated)"

definition line_diff :: "(string \<Rightarrow> json) \<Rightarrow> cells \<Rightarrow> cells" where
  "line_diff current stated = filter (\<lambda>(column, v). \<not> same_cell (current column) v \<and>
     \<not> (current column = JNull \<and> v \<in> {JNull, JObj [], JStr []})) stated"

subsection \<open>The engine\<close>

text \<open>A row of the request: its id, if it has one, and the fields it states beside it.\<close>

record stated_line =
  sl_id :: "string option"
  sl_cells :: cells

text \<open>What the callers pass: \<open>getattr\<close>, \<open>update_model\<close> (its fields and its validation), \<open>new_model\<close>, \<open>build\<close>, \<open>update\<close>
  and \<open>remove\<close>.\<close>

record ('s, 'r) line_family =
  lf_id :: "'r \<Rightarrow> uuid"
  lf_get :: "'r \<Rightarrow> string \<Rightarrow> json"
  lf_updatable :: "string list"
  lf_update_model :: "cells \<Rightarrow> cells result"
  lf_new_model :: "cells \<Rightarrow> cells result"
  lf_build :: "'s \<Rightarrow> cells \<Rightarrow> ('r \<times> 's) result"
  lf_update :: "'s \<Rightarrow> 'r \<Rightarrow> cells \<Rightarrow> 's result"
  lf_remove :: "'s \<Rightarrow> 'r \<Rightarrow> 's"

text \<open>What the audit is told of a line.\<close>

datatype line_note = LineChanged uuid cells | LineAdded uuid | LineRemoved uuid

definition named_line :: "stated_line \<Rightarrow> uuid option" where
  "named_line row = (if given (sl_id row) then sl_id row else None)"

definition named_lines :: "stated_line list \<Rightarrow> uuid list" where
  "named_lines rows = List.map_filter named_line rows"

definition restate_line ::
    "('s, 'r) line_family \<Rightarrow> 'r list \<Rightarrow> 's \<Rightarrow> stated_line \<Rightarrow> (uuid \<times> line_note list \<times> 's) result" where
  "restate_line f existing s row =
     (case named_line row of
        Some i \<Rightarrow>
          (case find_row (\<lambda>r. lf_id f r = i) existing of
             None \<Rightarrow> Inl (HttpError 500 ''KeyError'')
           | Some item \<Rightarrow>
               let changed = line_diff (lf_get f item) (sl_cells row) in
               bindE (ensure (list_all (\<lambda>(column, _). column \<in> set (lf_updatable f)) changed) 422 ''cannot_change_on_an_existing_row'') (\<lambda>_.
               if changed = [] then Inr (i, [], s)
               else bindE (lf_update_model f changed) (\<lambda>accepted.
                    bindE (lf_update f s item accepted) (\<lambda>s'. Inr (i, [LineChanged i accepted], s')))))
      | None \<Rightarrow>
          bindE (lf_new_model f (sl_cells row)) (\<lambda>accepted.
          bindE (lf_build f s accepted) (\<lambda>(item, s'). Inr (lf_id f item, [LineAdded (lf_id f item)], s'))))"

fun restate_each ::
    "('s, 'r) line_family \<Rightarrow> 'r list \<Rightarrow> 's \<Rightarrow> stated_line list \<Rightarrow> (uuid list \<times> line_note list \<times> 's) result" where
  "restate_each f existing s [] = Inr ([], [], s)"
| "restate_each f existing s (row # rows) =
     bindE (restate_line f existing s row) (\<lambda>(i, told, s').
     bindE (restate_each f existing s' rows) (\<lambda>(kept, more, s''). Inr (i # kept, told @ more, s'')))"

definition unnamed_lines :: "('s, 'r) line_family \<Rightarrow> 'r list \<Rightarrow> stated_line list \<Rightarrow> 'r list" where
  "unnamed_lines f existing rows = filter (\<lambda>r. lf_id f r \<notin> set (named_lines rows)) existing"

definition restate_rows ::
    "('s, 'r) line_family \<Rightarrow> 'r list \<Rightarrow> 's \<Rightarrow> stated_line list \<Rightarrow> (uuid list \<times> line_note list \<times> 's) result" where
  "restate_rows f existing s rows =
     bindE (ensure (distinct (named_lines rows) \<and> list_all (\<lambda>i. i \<in> lf_id f ` set existing) (named_lines rows)) 422
             ''must_each_be_a_live_row_named_once'') (\<lambda>_.
     bindE (restate_each f existing s rows) (\<lambda>(kept, told, s').
     let unnamed = unnamed_lines f existing rows
     in Inr (kept, told @ map (\<lambda>r. LineRemoved (lf_id f r)) unnamed, fold (\<lambda>r s. lf_remove f s r) unnamed s')))"

text \<open>The document's revision is a hash of its header and its lines in the order of their ids.\<close>

definition require_revision :: "string \<Rightarrow> string \<Rightarrow> unit result" where
  "require_revision current expected = ensure (current = expected) 409 ''the_document_changed_since_it_was_read''"

subsection \<open>What a line's difference says\<close>

lemma line_diff_stated: "set (line_diff current stated) \<subseteq> set stated"
  by (auto simp: line_diff_def)

lemma same_cell_refl [simp]: "same_cell v v"
  by (auto simp: same_cell_def split: option.splits)

lemma line_diff_same: "(\<And>column v. (column, v) \<in> set stated \<Longrightarrow> v = current column) \<Longrightarrow> line_diff current stated = []"
  by (fastforce simp: line_diff_def filter_empty_conv)

lemma named_lines_Cons [simp]:
  "named_lines [] = []" "named_lines (row # rows) = (case named_line row of None \<Rightarrow> named_lines rows | Some i \<Rightarrow> i # named_lines rows)"
  by (simp_all add: named_lines_def map_filter_simps split: option.splits)

lemma named_lines_mem: "row \<in> set rows \<Longrightarrow> named_line row = Some i \<Longrightarrow> i \<in> set (named_lines rows)"
  by (induction rows) (auto split: option.splits)

subsection \<open>What a family must do, and what the engine does with it\<close>

lemma update_then_filter:
  "(\<And>r. Q (g r) = Q r) \<Longrightarrow> filter Q (update_rows P g rs) = update_rows P g (filter Q rs)"
  by (induction rs) (auto simp: update_rows_def)

locale line_store =
  fixes f :: "('s, 'r) line_family" and lines :: "'s \<Rightarrow> 'r list" and sound :: "'s \<Rightarrow> bool"
  assumes distinct_ids: "sound s \<Longrightarrow> distinct (map (lf_id f) (lines s))"
    and builds: "sound s \<Longrightarrow> lf_build f s v = Inr (r, s') \<Longrightarrow> sound s' \<and> lines s' = lines s @ [r]"
    and updates: "sound s \<Longrightarrow> r \<in> set (lines s) \<Longrightarrow> lf_update f s r v = Inr s' \<Longrightarrow>
      sound s' \<and> (\<exists>g. lines s' = update_rows (\<lambda>x. lf_id f x = lf_id f r) g (lines s) \<and> lf_id f (g r) = lf_id f r \<and>
        (\<forall>c. c \<notin> fst ` set v \<longrightarrow> lf_get f (g r) c = lf_get f r c))"
    and removes: "sound s \<Longrightarrow> r \<in> set (lines s) \<Longrightarrow>
      sound (lf_remove f s r) \<and> lines (lf_remove f s r) = filter (\<lambda>x. lf_id f x \<noteq> lf_id f r) (lines s)"
    and accepts: "lf_update_model f v = Inr v' \<Longrightarrow> fst ` set v' \<subseteq> fst ` set v"
begin

lemma one_line: "sound s \<Longrightarrow> x \<in> set (lines s) \<Longrightarrow> y \<in> set (lines s) \<Longrightarrow> lf_id f x = lf_id f y \<Longrightarrow> x = y"
  using distinct_ids by (auto simp: distinct_map inj_on_def)

lemma same_ids:
  assumes "sound s" and "r \<in> set (lines s)" and "lf_id f (g r) = lf_id f r"
  shows "map (lf_id f) (update_rows (\<lambda>x. lf_id f x = lf_id f r) g (lines s)) = map (lf_id f) (lines s)"
  unfolding update_rows_def map_map using assms one_line by (intro map_cong) auto

text \<open>A named line is updated in place.\<close>

lemma named_step:
  assumes ok: "sound s" and row: "named_line row = Some i" and item: "find_row (\<lambda>r. lf_id f r = i) existing = Some r" "r \<in> set (lines s)"
    and step: "restate_line f existing s row = Inr (j, told, s')"
  shows "j = i \<and> sound s' \<and> (\<exists>g. lines s' = update_rows (\<lambda>x. lf_id f x = i) g (lines s) \<and> lf_id f (g r) = i \<and>
    (\<forall>c. c \<notin> fst ` set (line_diff (lf_get f r) (sl_cells row)) \<longrightarrow> lf_get f (g r) c = lf_get f r c))"
proof (cases "line_diff (lf_get f r) (sl_cells row) = []")
  case True
  have "lf_id f r = i" using item find_row_Some by fastforce
  have "update_rows (\<lambda>x. lf_id f x = i) id (lines s) = lines s" unfolding update_rows_def by (rule map_idI) simp
  with True step item row ok \<open>lf_id f r = i\<close> show ?thesis by (intro conjI exI [of _ id]) (auto simp: restate_line_def)
next
  case False
  have i: "lf_id f r = i" using item find_row_Some by fastforce
  from False step item row obtain v where v: "lf_update_model f (line_diff (lf_get f r) (sl_cells row)) = Inr v"
    "lf_update f s r v = Inr s'" "j = i"
    by (auto simp: restate_line_def bindE_Inr_iff Let_def)
  from updates [OF ok item(2) v(2)] i accepts [OF v(1)] v(3) show ?thesis by blast
qed

text \<open>A line without an id is added.\<close>

lemma new_step:
  assumes "sound s" and "named_line row = None" and "restate_line f existing s row = Inr (j, told, s')"
  shows "sound s' \<and> (\<exists>r. lines s' = lines s @ [r] \<and> lf_id f r = j)"
  using assms builds by (fastforce simp: restate_line_def bindE_Inr_iff)

lemma each_line:
  assumes "restate_each f existing s rows = Inr (kept, told, s')" and "sound s" and "distinct (named_lines rows)"
    and "\<And>i. i \<in> set (named_lines rows) \<Longrightarrow> \<exists>r. find_row (\<lambda>r. lf_id f r = i) existing = Some r \<and> r \<in> set (lines s)"
  shows "sound s' \<and> (\<exists>new. map (lf_id f) (lines s') = map (lf_id f) (lines s) @ new \<and> set kept = set (named_lines rows) \<union> set new \<and>
      length new = length (filter (\<lambda>row. named_line row = None) rows)) \<and>
    (\<forall>r \<in> set (lines s). lf_id f r \<notin> set (named_lines rows) \<longrightarrow> r \<in> set (lines s')) \<and>
    (\<forall>row \<in> set rows. \<forall>i r. named_line row = Some i \<longrightarrow> find_row (\<lambda>r. lf_id f r = i) existing = Some r \<longrightarrow>
      (\<exists>r' \<in> set (lines s'). lf_id f r' = i \<and>
        (\<forall>c. c \<notin> fst ` set (line_diff (lf_get f r) (sl_cells row)) \<longrightarrow> lf_get f r' c = lf_get f r c)))"
  using assms
proof (induction rows arbitrary: s kept told)
  case (Cons row rows)
  from Cons.prems(1) obtain j n1 s1 kept1 n2 where first: "restate_line f existing s row = Inr (j, n1, s1)"
    and rest: "restate_each f existing s1 rows = Inr (kept1, n2, s')" and kept: "kept = j # kept1"
    by (auto simp: bindE_Inr_iff)
  show ?case
  proof (cases "named_line row")
    case None
    from new_step [OF Cons.prems(2) None first] obtain r where s1: "sound s1" "lines s1 = lines s @ [r]" "lf_id f r = j" by blast
    have dist: "distinct (named_lines rows)" using Cons.prems(3) None by simp
    have live: "\<exists>r. find_row (\<lambda>r. lf_id f r = i) existing = Some r \<and> r \<in> set (lines s1)" if "i \<in> set (named_lines rows)" for i
      using Cons.prems(4) [of i] that None s1(2) by auto
    note IH = Cons.IH [OF rest s1(1) dist live]
    from IH obtain new where new: "map (lf_id f) (lines s') = map (lf_id f) (lines s1) @ new" "set kept1 = set (named_lines rows) \<union> set new"
      "length new = length (filter (\<lambda>row. named_line row = None) rows)" by blast
    have "map (lf_id f) (lines s') = map (lf_id f) (lines s) @ (j # new)" "set kept = set (named_lines (row # rows)) \<union> set (j # new)"
      "length (j # new) = length (filter (\<lambda>row. named_line row = None) (row # rows))"
      using new s1 kept None by auto
    with IH None s1(2) show ?thesis by (intro conjI exI [of _ "j # new"]) auto
  next
    case (Some i)
    from Cons.prems(4) [of i] Some obtain r where r: "find_row (\<lambda>r. lf_id f r = i) existing = Some r" "r \<in> set (lines s)" by auto
    have ri: "lf_id f r = i" using r(1) find_row_Some by fastforce
    from named_step [OF Cons.prems(2) Some r first] obtain g where j: "j = i" and s1: "sound s1"
      and g: "lines s1 = update_rows (\<lambda>x. lf_id f x = i) g (lines s)" "lf_id f (g r) = i"
        "\<forall>c. c \<notin> fst ` set (line_diff (lf_get f r) (sl_cells row)) \<longrightarrow> lf_get f (g r) c = lf_get f r c" by blast
    have ids: "map (lf_id f) (lines s1) = map (lf_id f) (lines s)" using same_ids [OF Cons.prems(2) r(2)] g(1,2) ri by simp
    have stays: "x \<in> set (lines s1)" if "x \<in> set (lines s)" "lf_id f x \<noteq> i" for x using that g(1) by (auto simp: set_update_rows)
    have gr: "g r \<in> set (lines s1)" using r(2) ri g(1) by (auto simp: set_update_rows)
    have dist: "distinct (named_lines rows)" "i \<notin> set (named_lines rows)" using Cons.prems(3) Some by auto
    have live: "\<exists>r. find_row (\<lambda>r. lf_id f r = k) existing = Some r \<and> r \<in> set (lines s1)" if k: "k \<in> set (named_lines rows)" for k
    proof -
      from Cons.prems(4) [of k] k Some obtain x where x: "find_row (\<lambda>r. lf_id f r = k) existing = Some x" "x \<in> set (lines s)" by auto
      then have "lf_id f x = k" using find_row_Some by fastforce
      with k dist(2) have "lf_id f x \<noteq> i" by blast
      with x stays show ?thesis by blast
    qed
    note IH = Cons.IH [OF rest s1 dist(1) live]
    from IH obtain new where new: "map (lf_id f) (lines s') = map (lf_id f) (lines s) @ new" "set kept1 = set (named_lines rows) \<union> set new"
      "length new = length (filter (\<lambda>row. named_line row = None) rows)" unfolding ids by blast
    have untouched: "x \<in> set (lines s')" if "x \<in> set (lines s1)" "lf_id f x \<notin> set (named_lines rows)" for x using IH that by blast
    have here: "\<exists>r' \<in> set (lines s'). lf_id f r' = i \<and>
        (\<forall>c. c \<notin> fst ` set (line_diff (lf_get f r) (sl_cells row)) \<longrightarrow> lf_get f r' c = lf_get f r c)"
      using untouched [OF gr] g(2,3) dist(2) by auto
    show ?thesis
    proof (intro conjI ballI allI impI)
      show "sound s'" using IH by blast
      show "\<exists>new. map (lf_id f) (lines s') = map (lf_id f) (lines s) @ new \<and> set kept = set (named_lines (row # rows)) \<union> set new \<and>
          length new = length (filter (\<lambda>row. named_line row = None) (row # rows))"
        using new Some kept j by (intro exI [of _ new]) auto
      show "x \<in> set (lines s')" if "x \<in> set (lines s)" "lf_id f x \<notin> set (named_lines (row # rows))" for x
        using untouched stays that Some by auto
      fix row' k x assume row': "row' \<in> set (row # rows)" "named_line row' = Some k" "find_row (\<lambda>r. lf_id f r = k) existing = Some x"
      show "\<exists>r' \<in> set (lines s'). lf_id f r' = k \<and>
          (\<forall>c. c \<notin> fst ` set (line_diff (lf_get f x) (sl_cells row')) \<longrightarrow> lf_get f r' c = lf_get f x c)"
        using row' here Some r(1) IH by (cases "row' = row") auto
    qed
  qed
qed simp

lemma removed_lines:
  assumes "sound s" and "set (map (lf_id f) gone) \<subseteq> set (map (lf_id f) (lines s))" and "\<And>r. r \<in> set gone \<Longrightarrow> r \<in> set (lines s)" and "distinct (map (lf_id f) gone)"
  shows "sound (fold (\<lambda>r s. lf_remove f s r) gone s) \<and>
    lines (fold (\<lambda>r s. lf_remove f s r) gone s) = filter (\<lambda>x. lf_id f x \<notin> lf_id f ` set gone) (lines s)"
  using assms
proof (induction gone arbitrary: s)
  case (Cons r gone)
  have r: "r \<in> set (lines s)" using Cons.prems(3) by simp
  note step = removes [OF Cons.prems(1) r]
  have left: "x \<in> set (lines (lf_remove f s r))" if "x \<in> set gone" for x
    using step that Cons.prems(3) [of x] Cons.prems(4) by (auto simp: image_iff)
  then have "set (map (lf_id f) gone) \<subseteq> set (map (lf_id f) (lines (lf_remove f s r)))" by auto
  from Cons.IH [OF _ this left] step Cons.prems(4) show ?case by (auto intro: filter_cong)
qed simp

text \<open>After a save the document has the lines the request names and those it adds, and no others; what a row of the
  request does not state, or states as it is, is unchanged.\<close>

lemma restated:
  assumes ok: "sound s" and step: "restate_rows f (lines s) s rows = Inr (kept, told, s')"
  shows "sound s'"
    and "\<exists>new. map (lf_id f) (lines s') = filter (\<lambda>i. i \<in> set (named_lines rows)) (map (lf_id f) (lines s)) @ new \<and>
      length new = length (filter (\<lambda>row. named_line row = None) rows) \<and> set new \<inter> lf_id f ` set (lines s) = {}"
    and "lf_id f ` set (lines s') = set kept"
    and "row \<in> set rows \<Longrightarrow> named_line row = Some i \<Longrightarrow> r \<in> set (lines s) \<Longrightarrow> lf_id f r = i \<Longrightarrow>
      \<exists>r' \<in> set (lines s'). lf_id f r' = i \<and>
        (\<forall>c. c \<notin> fst ` set (line_diff (lf_get f r) (sl_cells row)) \<longrightarrow> lf_get f r' c = lf_get f r c)"
proof -
  from step obtain n1 s1 where named: "distinct (named_lines rows)" "\<And>i. i \<in> set (named_lines rows) \<Longrightarrow> i \<in> lf_id f ` set (lines s)"
    and each: "restate_each f (lines s) s rows = Inr (kept, n1, s1)"
    and s': "s' = fold (\<lambda>r s. lf_remove f s r) (unnamed_lines f (lines s) rows) s1"
    by (auto simp: restate_rows_def bindE_Inr_iff ensure_Inr_iff Let_def list_all_iff)
  have found: "find_row (\<lambda>x. lf_id f x = lf_id f r) (lines s) = Some r" if "r \<in> set (lines s)" for r
    using find_row_by_key [OF distinct_ids [OF ok] that] .
  then have live: "\<exists>r. find_row (\<lambda>r. lf_id f r = i) (lines s) = Some r \<and> r \<in> set (lines s)" if "i \<in> set (named_lines rows)" for i
    using named(2) [OF that] by auto
  note all = each_line [OF each ok named(1) live]
  from all obtain new where s1: "sound s1" and new: "map (lf_id f) (lines s1) = map (lf_id f) (lines s) @ new"
    "set kept = set (named_lines rows) \<union> set new" "length new = length (filter (\<lambda>row. named_line row = None) rows)" by blast
  let ?gone = "unnamed_lines f (lines s) rows"
  have gone: "r \<in> set (lines s1)" if "r \<in> set ?gone" for r using that all by (auto simp: unnamed_lines_def)
  have gone_ids: "lf_id f ` set ?gone = lf_id f ` set (lines s) - set (named_lines rows)" by (auto simp: unnamed_lines_def)
  have "distinct (map (lf_id f) ?gone)" using distinct_ids [OF ok] by (simp add: unnamed_lines_def distinct_map_filter)
  from removed_lines [OF s1 _ gone this] gone have end_state: "sound s'" "lines s' = filter (\<lambda>x. lf_id f x \<notin> lf_id f ` set ?gone) (lines s1)"
    by (auto simp: s')
  show "sound s'" by (rule end_state(1))
  have fresh: "set new \<inter> lf_id f ` set (lines s) = {}" using distinct_ids [OF s1] unfolding new(1) by auto
  have "map (lf_id f) (lines s') = filter (\<lambda>i. i \<notin> lf_id f ` set ?gone) (map (lf_id f) (lines s) @ new)"
    unfolding end_state(2) new(1) [symmetric] filter_map by (simp add: comp_def)
  also have "\<dots> = filter (\<lambda>i. i \<in> set (named_lines rows)) (map (lf_id f) (lines s)) @ new"
  proof -
    have "filter (\<lambda>i. i \<notin> lf_id f ` set ?gone) (map (lf_id f) (lines s)) = filter (\<lambda>i. i \<in> set (named_lines rows)) (map (lf_id f) (lines s))"
      by (rule filter_cong) (auto simp: gone_ids)
    moreover have "filter (\<lambda>i. i \<notin> lf_id f ` set ?gone) new = new" using fresh gone_ids by (intro filter_True) auto
    ultimately show ?thesis by simp
  qed
  finally have ids: "map (lf_id f) (lines s') = filter (\<lambda>i. i \<in> set (named_lines rows)) (map (lf_id f) (lines s)) @ new" .
  with new(3) fresh show "\<exists>new. map (lf_id f) (lines s') = filter (\<lambda>i. i \<in> set (named_lines rows)) (map (lf_id f) (lines s)) @ new \<and>
      length new = length (filter (\<lambda>row. named_line row = None) rows) \<and> set new \<inter> lf_id f ` set (lines s) = {}" by blast
  have "set (map (lf_id f) (lines s')) = set kept" unfolding ids new(2) using named(2) by auto
  then show "lf_id f ` set (lines s') = set kept" by simp
  assume row: "row \<in> set rows" "named_line row = Some i" "r \<in> set (lines s)" "lf_id f r = i"
  with found have "find_row (\<lambda>x. lf_id f x = i) (lines s) = Some r" by blast
  with all row obtain r' where r': "r' \<in> set (lines s1)" "lf_id f r' = i"
    "\<forall>c. c \<notin> fst ` set (line_diff (lf_get f r) (sl_cells row)) \<longrightarrow> lf_get f r' c = lf_get f r c" by blast
  have "i \<in> set (named_lines rows)" using row(1,2) by (rule named_lines_mem)
  then have "r' \<in> set (lines s')" unfolding end_state(2) using r' gone_ids by auto
  with r' show "\<exists>r' \<in> set (lines s'). lf_id f r' = i \<and>
        (\<forall>c. c \<notin> fst ` set (line_diff (lf_get f r) (sl_cells row)) \<longrightarrow> lf_get f r' c = lf_get f r c)" by blast
qed

text \<open>A request that states the lines as they are changes nothing and is told to no one.\<close>

lemma restated_as_read:
  assumes ok: "sound s" and ids: "map named_line rows = map (\<lambda>r. Some (lf_id f r)) (lines s)"
    and same: "\<And>row r c v. row \<in> set rows \<Longrightarrow> r \<in> set (lines s) \<Longrightarrow> named_line row = Some (lf_id f r) \<Longrightarrow> (c, v) \<in> set (sl_cells row) \<Longrightarrow> v = lf_get f r c"
  shows "restate_rows f (lines s) s rows = Inr (map (lf_id f) (lines s), [], s)"
proof -
  have named: "named_lines rs = map (lf_id f) xs" if "map named_line rs = map (\<lambda>r. Some (lf_id f r)) xs" for rs xs
    using that by (induction rs arbitrary: xs) (auto simp: map_eq_Cons_conv Cons_eq_map_conv)
  have quiet: "restate_each f (lines s) s rs = Inr (map (lf_id f) xs, [], s)"
    if "map named_line rs = map (\<lambda>r. Some (lf_id f r)) xs" "set rs \<subseteq> set rows" "set xs \<subseteq> set (lines s)" for rs xs
    using that
  proof (induction rs arbitrary: xs)
    case (Cons row rs)
    then obtain r ys where xs: "xs = r # ys" and row: "named_line row = Some (lf_id f r)" by (auto simp: Cons_eq_map_conv)
    have mem: "row \<in> set rows" "r \<in> set (lines s)" using Cons.prems xs by auto
    have diff: "line_diff (lf_get f r) (sl_cells row) = []" by (rule line_diff_same) (rule same [OF mem row])
    have "find_row (\<lambda>x. lf_id f x = lf_id f r) (lines s) = Some r" using find_row_by_key [OF distinct_ids [OF ok] mem(2)] .
    then have "restate_line f (lines s) s row = Inr (lf_id f r, [], s)" using row diff by (simp add: restate_line_def)
    with Cons.IH [of ys] Cons.prems xs show ?case by simp
  qed simp
  have "unnamed_lines f (lines s) rows = []" by (auto simp: unnamed_lines_def named [OF ids] filter_empty_conv)
  with quiet [OF ids] distinct_ids [OF ok] show ?thesis by (simp add: restate_rows_def named [OF ids] list_all_iff)
qed

end

end
