(* ===== verification/Recipe_Save.thy ===== *)
theory Recipe_Save
  imports Recipe_Laws Restating "HOL-Library.List_Lexorder"
begin

text \<open>
  The components of a draft recipe restated in one act (\<open>save_bom_lines\<close>): the engine of \<open>Restating\<close> on recipe lines.
  A recipe is no audited document, so its saves are told to no one. A request states the modelled columns only. A null
  in a column that takes none and an id the database cannot read are met where the line is changed; the code meets them
  at the next flush, so of two errors in one request it may answer the other.
\<close>

definition bom_item_cell :: "bom_item \<Rightarrow> string \<Rightarrow> json" where
  "bom_item_cell l column =
     (if column = ''line_no'' then number_cell (map_option of_nat (bi_line_no l))
      else if column = ''component_product_id'' then JStr (bi_component_id l)
      else if column = ''quantity'' then JNum (bi_quantity l)
      else if column = ''unit'' then text_cell (bi_unit l)
      else if column = ''scrap_rate'' then number_cell (bi_scrap_rate l)
      else JNull)"

text \<open>The bounds of \<open>BomItemBase\<close>, which \<open>partial_model\<close> keeps.\<close>

definition bom_cell_ok :: "string \<times> json \<Rightarrow> bool" where
  "bom_cell_ok = (\<lambda>(column, v). v = JNull \<or>
     (if column = ''line_no'' then case v of JNum q \<Rightarrow> of_int \<lfloor>q\<rfloor> = q \<and> 1 \<le> q \<and> q \<le> 9999 | _ \<Rightarrow> False
      else if column = ''component_product_id'' then case v of JStr _ \<Rightarrow> True | _ \<Rightarrow> False
      else if column = ''quantity'' then case v of JNum q \<Rightarrow> 0 < q \<and> q \<le> 999999999999 / 10000 | _ \<Rightarrow> False
      else if column = ''unit'' then case v of JStr s \<Rightarrow> length s \<le> 50 | _ \<Rightarrow> False
      else if column = ''scrap_rate'' then case v of JNum q \<Rightarrow> 0 \<le> q \<and> q \<le> 9999 / 100 | _ \<Rightarrow> False
      else False))"

text \<open>A new line as its validated cells give it: a component and a quantity are required.\<close>

definition line_request_of :: "cells \<Rightarrow> line_request option" where
  "line_request_of v = (let cell = (\<lambda>column. case map_of v column of None \<Rightarrow> JNull | Some x \<Rightarrow> x) in
     case (cell_text (cell ''component_product_id''), cell_number (cell ''quantity'')) of
       (Some component, Some quantity) \<Rightarrow> Some
         \<lparr>lr_line_no = cell_nat (cell ''line_no''), lr_component = component, lr_quantity = quantity,
          lr_unit = cell_text (cell ''unit''), lr_scrap_rate = cell_number (cell ''scrap_rate'')\<rparr>
     | _ \<Rightarrow> None)"

definition line_update_of :: "cells \<Rightarrow> item_update" where
  "line_update_of v =
     \<lparr>iu_line_no = map_option cell_nat (map_of v ''line_no''),
      iu_component = map_option cell_text (map_of v ''component_product_id''),
      iu_quantity = map_option cell_number (map_of v ''quantity''), iu_unit = map_option cell_text (map_of v ''unit''),
      iu_scrap_rate = map_option cell_number (map_of v ''scrap_rate'')\<rparr>"

text \<open>The closure \<open>update\<close> of the handler, and the write it leads to.\<close>

definition restate_bom_item :: "uuid \<Rightarrow> bom \<Rightarrow> catalog \<Rightarrow> bom_item \<Rightarrow> item_update \<Rightarrow> catalog result" where
  "restate_bom_item tenant_id b ct l u =
     bindE (case iu_component u of
              Some (Some c) \<Rightarrow>
                if c = [] then Inr ()
                else bindE (require_component ct tenant_id (bm_product_id b) c []) (\<lambda>_. Inr ())
            | _ \<Rightarrow> Inr ()) (\<lambda>_.
     bindE (ensure (iu_component u \<noteq> Some None \<and> iu_quantity u \<noteq> Some None) 500 ''IntegrityError'') (\<lambda>_.
     bindE (case iu_component u of Some (Some c) \<Rightarrow> uuid_literal (ct_db ct) c | _ \<Rightarrow> Inr (bi_component_id l)) (\<lambda>component.
     Inr (ct\<lparr>ct_items := update_rows (\<lambda>x. bi_id x = bi_id l) (updated_item u component) (ct_items ct)\<rparr>))))"

definition bom_line_family :: "uuid \<Rightarrow> bom \<Rightarrow> (catalog, bom_item) line_family" where
  "bom_line_family tenant_id b =
     \<lparr>lf_id = bi_id, lf_get = bom_item_cell,
      lf_updatable = [''line_no'', ''component_product_id'', ''quantity'', ''unit'', ''scrap_rate''],
      lf_update_model = (\<lambda>v. bindE (ensure (list_all bom_cell_ok v) 422 ''validation_error'') (\<lambda>_. Inr v)),
      lf_new_model = (\<lambda>v. bindE (ensure (list_all bom_cell_ok v \<and> line_request_of v \<noteq> None) 422 ''validation_error'') (\<lambda>_. Inr v)),
      lf_build = (\<lambda>ct v. case line_request_of v of
          None \<Rightarrow> Inl (HttpError 422 ''validation_error'')
        | Some line \<Rightarrow> build_bom_line tenant_id b ct (None, line)),
      lf_update = (\<lambda>ct l v. restate_bom_item tenant_id b ct l (line_update_of v)),
      lf_remove = (\<lambda>ct l. ct\<lparr>ct_items := filter (\<lambda>x. bi_id x \<noteq> bi_id l) (ct_items ct)\<rparr>)\<rparr>"

definition live_bom_items :: "catalog \<Rightarrow> uuid \<Rightarrow> uuid \<Rightarrow> bom_item list" where
  "live_bom_items ct tenant_id bom_id = filter (\<lambda>l. bi_tenant_id l = tenant_id \<and> bi_bom_id l = bom_id) (ct_items ct)"

definition bom_revision :: "(bom \<times> bom_item list \<Rightarrow> string) \<Rightarrow> catalog \<Rightarrow> bom \<Rightarrow> string" where
  "bom_revision digest ct b = digest (b, sort_key bi_id (live_bom_items ct (bm_tenant_id b) (bm_id b)))"

definition save_bom_lines ::
    "(bom \<times> bom_item list \<Rightarrow> string) \<Rightarrow> catalog \<Rightarrow> actor \<Rightarrow> string \<Rightarrow> string \<Rightarrow> stated_line list \<Rightarrow> bool \<Rightarrow> catalog result" where
  "save_bom_lines digest ct a bom_id expected_revision rows validate_only =
     (let tenant_id = ac_tenant_id a in
      bindE (require_master_data_manage a) (\<lambda>_.
      bindE (bom_or_404 ct tenant_id bom_id) (\<lambda>b.
      bindE (require_bom_editable b) (\<lambda>_.
      bindE (require_revision (bom_revision digest ct b) expected_revision) (\<lambda>_.
      bindE (restate_rows (bom_line_family tenant_id b) (live_bom_items ct (bm_tenant_id b) (bm_id b)) ct rows) (\<lambda>(_, _, ct').
      Inr (if validate_only then ct else ct')))))))"

subsection \<open>One rule for both ways to change a line\<close>

text \<open>The PATCH of one line is the update a save makes of it.\<close>

lemma update_bom_item_restates:
  "update_bom_item ct a i u =
     bindE (require_master_data_manage a) (\<lambda>_.
     bindE (bom_item_or_404 ct (ac_tenant_id a) i) (\<lambda>l.
     bindE (bom_or_404 ct (ac_tenant_id a) (bi_bom_id l)) (\<lambda>b.
     bindE (require_bom_editable b) (\<lambda>_. restate_bom_item (ac_tenant_id a) b ct l u))))"
  by (simp only: update_bom_item_def restate_bom_item_def Let_def)

lemma bom_family_sel [simp]:
  "lf_id (bom_line_family t b) = bi_id" "lf_get (bom_line_family t b) = bom_item_cell"
  by (simp_all add: bom_line_family_def)

lemma updated_item_keys [simp]:
  "bi_id (updated_item u c l) = bi_id l" "bi_tenant_id (updated_item u c l) = bi_tenant_id l" "bi_bom_id (updated_item u c l) = bi_bom_id l"
  "bi_component_id (updated_item u c l) = c"
  by (simp_all add: updated_item_def)

text \<open>A column the update does not state stays.\<close>

lemma updated_item_cell:
  assumes "column \<notin> fst ` set v" and "column = ''component_product_id'' \<Longrightarrow> component = bi_component_id l"
  shows "bom_item_cell (updated_item (line_update_of v) component l) column = bom_item_cell l column"
proof -
  have absent: "map_of v column = None" using assms(1) by (simp add: map_of_eq_None_iff)
  have stays: "column = ''line_no'' \<Longrightarrow> iu_line_no (line_update_of v) = None" "column = ''quantity'' \<Longrightarrow> iu_quantity (line_update_of v) = None"
    "column = ''unit'' \<Longrightarrow> iu_unit (line_update_of v) = None" "column = ''scrap_rate'' \<Longrightarrow> iu_scrap_rate (line_update_of v) = None"
    using absent by (auto simp: line_update_of_def simp del: list.inject)
  show ?thesis
    unfolding bom_item_cell_def updated_item_def bom_item.simps
    by (intro if_cong refl arg_cong [where f = number_cell] arg_cong [where f = text_cell] arg_cong [where f = "map_option of_nat"]
        arg_cong [where f = JStr] arg_cong [where f = JNum])
      (simp_all add: stays assms(2) given_or_def)
qed

end
