(* ===== verification/Recipe_History.thy ===== *)
theory Recipe_History
  imports Recipe_Save
begin

text \<open>
  Any history of the recipe handlers, the save of a whole recipe among them, by any callers, refused calls included: the
  tables stay sound, and the active recipes stay free of loops while recipes become active only by being created. Activating by PATCH
  is the gap: what the components of the draft have become since is not judged again.
\<close>

datatype recipe_event =
    Create_Bom bom_request bool
  | Update_Bom string bom_update
  | Archive_Bom string
  | Add_Item string line_request
  | Change_Item string item_update
  | Remove_Item string
  | Save_Items string string "stated_line list" bool

fun recipe_step :: "(bom \<times> bom_item list \<Rightarrow> string) \<Rightarrow> catalog \<Rightarrow> actor \<Rightarrow> recipe_event \<Rightarrow> catalog result" where
  "recipe_step digest ct a (Create_Bom p v) = bindE (create_bill_of_materials ct a p v) (\<lambda>(b, ct'). Inr ct')"
| "recipe_step digest ct a (Update_Bom i u) = bindE (update_bill_of_materials ct a i u) (\<lambda>(b, ct'). Inr ct')"
| "recipe_step digest ct a (Archive_Bom i) = delete_bill_of_materials ct a i"
| "recipe_step digest ct a (Add_Item i l) = bindE (create_bom_item ct a i l) (\<lambda>(x, ct'). Inr ct')"
| "recipe_step digest ct a (Change_Item i u) = update_bom_item ct a i u"
| "recipe_step digest ct a (Remove_Item i) = delete_bom_item ct a i"
| "recipe_step digest ct a (Save_Items i expected rows v) = save_bom_lines digest ct a i expected rows v"

fun run_recipes :: "(bom \<times> bom_item list \<Rightarrow> string) \<Rightarrow> catalog \<Rightarrow> (actor \<times> recipe_event) list \<Rightarrow> catalog" where
  "run_recipes digest ct [] = ct"
| "run_recipes digest ct ((a, e) # es) = run_recipes digest (case recipe_step digest ct a e of Inl _ \<Rightarrow> ct | Inr ct' \<Rightarrow> ct') es"

subsection \<open>New lines\<close>

abbreviation "reads ct \<equiv> db_uuid_in (ct_db ct)"

text \<open>What writing lines of one recipe leaves alone.\<close>

definition lines_added :: "catalog \<Rightarrow> catalog \<Rightarrow> uuid \<Rightarrow> uuid \<Rightarrow> string set \<Rightarrow> bool" where
  "lines_added ct ct' tenant_id bom_id components \<longleftrightarrow>
     ct_boms ct' = ct_boms ct \<and> wh_products (ct_stock ct') = wh_products (ct_stock ct) \<and> reads ct' = reads ct \<and>
     (\<exists>new. ct_items ct' = ct_items ct @ new \<and>
       (\<forall>l \<in> set new. bi_tenant_id l = tenant_id \<and> bi_bom_id l = bom_id \<and>
          (\<exists>c \<in> components. reads ct c = Some (bi_component_id l))))"

lemma lines_added_refl: "lines_added ct ct t b cs"
  by (simp add: lines_added_def)

lemma lines_added_trans:
  assumes "lines_added ct ct' t b cs" and "lines_added ct' ct'' t b cs"
  shows "lines_added ct ct'' t b cs"
proof -
  from assms(1) obtain n1 where 1: "ct_items ct' = ct_items ct @ n1"
      "\<forall>l \<in> set n1. bi_tenant_id l = t \<and> bi_bom_id l = b \<and> (\<exists>c \<in> cs. reads ct c = Some (bi_component_id l))"
    unfolding lines_added_def by blast
  from assms(2) obtain n2 where 2: "ct_items ct'' = ct_items ct' @ n2"
      "\<forall>l \<in> set n2. bi_tenant_id l = t \<and> bi_bom_id l = b \<and> (\<exists>c \<in> cs. reads ct' c = Some (bi_component_id l))"
    unfolding lines_added_def by blast
  have "reads ct' = reads ct" using assms(1) by (simp add: lines_added_def)
  with 1 2 have "\<exists>new. ct_items ct'' = ct_items ct @ new \<and>
      (\<forall>l \<in> set new. bi_tenant_id l = t \<and> bi_bom_id l = b \<and> (\<exists>c \<in> cs. reads ct c = Some (bi_component_id l)))"
    by (intro exI [of _ "n1 @ n2"]) auto
  with assms show ?thesis by (simp add: lines_added_def)
qed

lemma fresh_after_tick:
  assumes "inj (db_uuids d)" and "\<forall>n \<ge> db_next d. db_uuids d n \<notin> S"
  shows "\<forall>n \<ge> Suc (db_next d). db_uuids d n \<notin> insert (fresh_id d) S"
proof (intro allI impI)
  fix n
  assume "Suc (db_next d) \<le> n"
  then have "n \<noteq> db_next d" "db_next d \<le> n" by simp_all
  then show "db_uuids d n \<notin> insert (fresh_id d) S" using assms by (simp add: fresh_id_def inj_eq)
qed

lemma add_bom_line_keeps:
  assumes "sound_catalog ct" and "bom_id \<in> bm_id ` set (ct_boms ct)"
    and "add_bom_line t bom_id ct (index, line) = Inr (item, ct')" and "lr_component line \<in> cs"
  shows "sound_catalog ct' \<and> lines_added ct ct' t bom_id cs"
proof -
  from assms(3) obtain c where c: "reads ct (lr_component line) = Some c"
    and item: "bi_id item = fresh_id (ct_db ct)" "bi_tenant_id item = t" "bi_bom_id item = bom_id" "bi_component_id item = c"
    and ct': "ct' = ct_tick (ct\<lparr>ct_items := ct_items ct @ [item]\<rparr>)"
    by (auto simp: add_bom_line_def result_simps Let_def)
  have fresh: "fresh_catalog ct" using assms(1) by (rule sound_catalogD)
  have new: "fresh_id (ct_db ct) \<notin> bi_id ` set (ct_items ct)" using fresh by (auto simp: fresh_catalog_def fresh_id_def)
  have "fresh_catalog ct'"
    using fresh_after_tick [OF fresh [unfolded fresh_catalog_def, THEN conjunct1] fresh [unfolded fresh_catalog_def, THEN conjunct2, THEN conjunct2]]
      fresh item(1) by (simp add: fresh_catalog_def ct' ct_tick_def tick_def)
  have "reads ct c = Some c" using sound_catalogD(1) [OF assms(1) c] .
  with assms(1,2) new item \<open>fresh_catalog ct'\<close> have "sound_catalog ct'"
    by (simp add: sound_catalog_def ct' ct_tick_def tick_def)
  moreover have "lines_added ct ct' t bom_id cs"
    using item c assms(4) by (auto simp: lines_added_def ct' ct_tick_def tick_def)
  ultimately show ?thesis ..
qed

lemma add_bom_lines_keeps:
  assumes "sound_catalog ct" and "bom_id \<in> bm_id ` set (ct_boms ct)" and "add_bom_lines t bom_id ct items = Inr ct'"
  shows "sound_catalog ct' \<and> lines_added ct ct' t bom_id (lr_component ` set items)"
proof (rule foldE_invariant [OF assms(3) [unfolded add_bom_lines_def],
    where P = "\<lambda>ct'. sound_catalog ct' \<and> lines_added ct ct' t bom_id (lr_component ` set items)"])
  show "sound_catalog ct \<and> lines_added ct ct t bom_id (lr_component ` set items)"
    using assms(1) by (simp add: lines_added_refl)
next
  fix s x s'
  assume x: "x \<in> set (zip (map Some [1..<Suc (length items)]) items)"
    and s: "sound_catalog s \<and> lines_added ct s t bom_id (lr_component ` set items)"
    and step: "bindE (add_bom_line t bom_id s x) (\<lambda>(item, ct'). Inr ct') = Inr s'"
  obtain index line where xl: "x = (index, line)" by (cases x)
  from step obtain item where add: "add_bom_line t bom_id s (index, line) = Inr (item, s')"
    by (auto simp: result_simps xl)
  have mem: "lr_component line \<in> lr_component ` set items" using x xl by (auto dest: set_zip_rightD)
  have "bom_id \<in> bm_id ` set (ct_boms s)" using s assms(2) by (simp add: lines_added_def)
  from add_bom_line_keeps [OF _ this add mem] s show "sound_catalog s' \<and> lines_added ct s' t bom_id (lr_component ` set items)"
    using lines_added_trans by blast
qed

subsection \<open>Changing recipes in place\<close>

lemma bom_clash_sym: "bom_clash b b' \<longleftrightarrow> bom_clash b' b"
proof -
  have "bom_clash y x" if "bom_clash x y" for x y
    using that unfolding bom_clash_def by metis
  then show ?thesis by blast
qed

lemma sound_map_boms:
  assumes "sound_catalog ct" and "\<And>b. b \<in> set (ct_boms ct) \<Longrightarrow> bm_id (f b) = bm_id b \<and> bm_product_id (f b) = bm_product_id b"
    and "\<And>b b'. b \<in> set (ct_boms ct) \<Longrightarrow> b' \<in> set (ct_boms ct) \<Longrightarrow> \<not> bom_clash (f b) (f b')"
  shows "sound_catalog (ct\<lparr>ct_boms := map f (ct_boms ct)\<rparr>)"
proof -
  have ids: "map bm_id (map f (ct_boms ct)) = map bm_id (ct_boms ct)" using assms(2) by simp
  then have set_ids: "bm_id ` set (map f (ct_boms ct)) = bm_id ` set (ct_boms ct)" by (metis set_map)
  show ?thesis
    using assms(1) sound_catalogD(2) [OF assms(1)] assms(2,3) ids set_ids
    unfolding sound_catalog_def fresh_catalog_def by (simp del: map_map)
qed

lemma made_of_map_boms:
  assumes "\<And>b. b \<in> set (ct_boms ct) \<Longrightarrow> bm_id (f b) = bm_id b \<and> bm_product_id (f b) = bm_product_id b \<and>
      bm_tenant_id (f b) = bm_tenant_id b \<and> (bm_status (f b) = ''active'' \<longrightarrow> bm_status b = ''active'')"
  shows "made_of (ct\<lparr>ct_boms := map f (ct_boms ct)\<rparr>) t \<subseteq> made_of ct t"
proof (rule subrelI)
  fix p c
  assume "(p, c) \<in> made_of (ct\<lparr>ct_boms := map f (ct_boms ct)\<rparr>) t"
  then obtain b l where "b \<in> set (ct_boms ct)" "l \<in> set (ct_items ct)" "bm_tenant_id (f b) = t"
      "bm_status (f b) = ''active''" "bm_product_id (f b) = p" "bi_tenant_id l = t" "bi_bom_id l = bm_id (f b)" "bi_component_id l = c"
    unfolding made_of_def by auto
  with assms [of b] show "(p, c) \<in> made_of ct t" unfolding made_of_def by auto
qed

lemma acyclic_smaller: "acyclic B \<Longrightarrow> A \<subseteq> B \<Longrightarrow> acyclic A"
  by (rule acyclic_subset)

lemma demote_others_map: "demote_others ct t p k = ct\<lparr>ct_boms := map
    (\<lambda>b. if bm_tenant_id b = t \<and> bm_status b = ''active'' \<and> bm_product_id b = p \<and> bm_id b \<noteq> k then b\<lparr>bm_status := ''archived''\<rparr> else b)
    (ct_boms ct)\<rparr>"
  by (simp add: demote_others_def update_rows_def)

lemma demoted_clash:
  "bom_clash (if P then b\<lparr>bm_status := ''archived''\<rparr> else b) (if Q then b'\<lparr>bm_status := ''archived''\<rparr> else b') \<Longrightarrow> bom_clash b b'"
  by (auto simp: bom_clash_def split: if_splits)

lemma sound_demote_others: "sound_catalog ct \<Longrightarrow> sound_catalog (demote_others ct t p k)"
  unfolding demote_others_map
proof (rule sound_map_boms)
  fix b b'
  assume "sound_catalog ct" "b \<in> set (ct_boms ct)" "b' \<in> set (ct_boms ct)"
  then have "\<not> bom_clash b b'" by (rule sound_catalogD)
  then show "\<not> bom_clash
      (if bm_tenant_id b = t \<and> bm_status b = ''active'' \<and> bm_product_id b = p \<and> bm_id b \<noteq> k then b\<lparr>bm_status := ''archived''\<rparr> else b)
      (if bm_tenant_id b' = t \<and> bm_status b' = ''active'' \<and> bm_product_id b' = p \<and> bm_id b' \<noteq> k then b'\<lparr>bm_status := ''archived''\<rparr> else b')"
    using demoted_clash by blast
qed simp_all

lemma made_of_demote: "made_of (demote_others ct t p k) t' \<subseteq> made_of ct t'"
  unfolding demote_others_map by (rule made_of_map_boms) auto

lemma bom_or_404_Inr: "bom_or_404 ct t s = Inr b \<Longrightarrow> b \<in> set (ct_boms ct) \<and> bm_tenant_id b = t"
  by (auto simp: bom_or_404_def find_row_def find_Some_iff split: option.splits if_splits)

lemma bom_item_or_404_Inr: "bom_item_or_404 ct t s = Inr l \<Longrightarrow> l \<in> set (ct_items ct) \<and> bi_tenant_id l = t"
  by (auto simp: bom_item_or_404_def find_row_def find_Some_iff split: option.splits if_splits)

lemma same_bom_id:
  "sound_catalog ct \<Longrightarrow> b \<in> set (ct_boms ct) \<Longrightarrow> b' \<in> set (ct_boms ct) \<Longrightarrow> bm_id b = bm_id b' \<Longrightarrow> b = b'"
  using sound_catalogD(5) by (fastforce simp: distinct_map inj_on_def)

lemma sound_change_one_bom:
  assumes sound: "sound_catalog ct" and b: "b \<in> set (ct_boms ct)"
    and f: "bm_id (f b) = bm_id b" "bm_product_id (f b) = bm_product_id b" and free: "\<not> list_ex (bom_clash (f b)) (ct_boms ct)"
  shows "sound_catalog (ct\<lparr>ct_boms := update_rows (\<lambda>x. bm_id x = bm_id b) f (ct_boms ct)\<rparr>)"
  unfolding update_rows_def
proof (rule sound_map_boms [OF sound])
  fix x
  assume "x \<in> set (ct_boms ct)"
  then show "bm_id (if bm_id x = bm_id b then f x else x) = bm_id x \<and>
      bm_product_id (if bm_id x = bm_id b then f x else x) = bm_product_id x"
    using same_bom_id [OF sound _ b] f by fastforce
next
  fix x y
  assume xy: "x \<in> set (ct_boms ct)" "y \<in> set (ct_boms ct)"
  have one: "bm_id z = bm_id b \<Longrightarrow> z \<in> set (ct_boms ct) \<Longrightarrow> z = b" for z using same_bom_id [OF sound _ b] by blast
  have free': "\<not> bom_clash (f b) z" "\<not> bom_clash z (f b)" if "z \<in> set (ct_boms ct)" for z
    using free that bom_clash_sym by (auto simp: list_ex_iff)
  have "\<not> bom_clash (f b) (f b)" by (simp add: bom_clash_def)
  with one xy free' sound_catalogD(4) [OF sound, of x y]
  show "\<not> bom_clash (if bm_id x = bm_id b then f x else x) (if bm_id y = bm_id b then f y else y)"
    by (cases "bm_id x = bm_id b"; cases "bm_id y = bm_id b") auto
qed

subsection \<open>What each handler does to the tables\<close>

lemma made_of_lines_added:
  assumes "lines_added ct ct' t bom_id cs"
  shows "made_of ct' t' \<subseteq> made_of ct t' \<union> {(p, c). \<exists>b \<in> set (ct_boms ct). bm_id b = bom_id \<and> bm_status b = ''active'' \<and>
    bm_product_id b = p \<and> t' = t \<and> (\<exists>s \<in> cs. reads ct s = Some c)}"
proof (rule subrelI)
  fix p c
  assume "(p, c) \<in> made_of ct' t'"
  then obtain b l where b: "b \<in> set (ct_boms ct)" "bm_tenant_id b = t'" "bm_status b = ''active''" "bm_product_id b = p"
    and l: "l \<in> set (ct_items ct')" "bi_tenant_id l = t'" "bi_bom_id l = bm_id b" "bi_component_id l = c"
    using assms unfolding made_of_def lines_added_def by auto
  from assms obtain new where new: "ct_items ct' = ct_items ct @ new"
      "\<forall>l \<in> set new. bi_tenant_id l = t \<and> bi_bom_id l = bom_id \<and> (\<exists>s \<in> cs. reads ct s = Some (bi_component_id l))"
    unfolding lines_added_def by blast
  show "(p, c) \<in> made_of ct t' \<union> {(p, c). \<exists>b \<in> set (ct_boms ct). bm_id b = bom_id \<and> bm_status b = ''active'' \<and>
      bm_product_id b = p \<and> t' = t \<and> (\<exists>s \<in> cs. reads ct s = Some c)}"
  proof (cases "l \<in> set (ct_items ct)")
    case True
    with b l show ?thesis unfolding made_of_def by auto
  next
    case False
    with l(1) new(1) have "l \<in> set new" by simp
    with new(2) b l show ?thesis by auto
  qed
qed

lemma lines_of_a_draft:
  assumes "sound_catalog ct" and "b \<in> set (ct_boms ct)" and "bm_status b \<noteq> ''active''" and "lines_added ct ct' t (bm_id b) cs"
  shows "made_of ct' t' \<subseteq> made_of ct t'"
  using made_of_lines_added [OF assms(4), of t'] same_bom_id [OF assms(1) _ assms(2)] assms(3) by blast

lemma sound_items:
  assumes "sound_catalog ct" and "distinct (map bi_id items)" and "bi_id ` set items \<subseteq> bi_id ` set (ct_items ct)"
    and "\<And>l. l \<in> set items \<Longrightarrow> bi_bom_id l \<in> bm_id ` set (ct_boms ct) \<and> reads ct (bi_component_id l) = Some (bi_component_id l)"
  shows "sound_catalog (ct\<lparr>ct_items := items\<rparr>)"
proof -
  have "fresh_catalog (ct\<lparr>ct_items := items\<rparr>)"
    using sound_catalogD(9) [OF assms(1)] subsetD [OF assms(3)] unfolding fresh_catalog_def by (simp add: image_iff) blast
  with assms show ?thesis unfolding sound_catalog_def by (simp add: image_subset_iff)
qed

text \<open>Changing a line of a draft, by either of its ways.\<close>

lemma restated_item_keeps:
  assumes sound: "sound_catalog ct" and l_in: "l \<in> set (ct_items ct)" and b_in: "b \<in> set (ct_boms ct)" "bm_id b = bi_bom_id l"
    and not_active: "bm_status b \<noteq> ''active''" and step: "restate_bom_item t0 b ct l u = Inr ct'"
  shows "\<exists>component. ct' = ct\<lparr>ct_items := update_rows (\<lambda>x. bi_id x = bi_id l) (updated_item u component) (ct_items ct)\<rparr> \<and>
    (iu_component u = None \<longrightarrow> component = bi_component_id l) \<and>
    sound_catalog ct' \<and> made_of ct' t \<subseteq> made_of ct t"
proof -
  from step obtain component where
    component: "(case iu_component u of Some (Some c) \<Rightarrow> uuid_literal (ct_db ct) c | _ \<Rightarrow> Inr (bi_component_id l)) = Inr component"
    and ct': "ct' = ct\<lparr>ct_items := update_rows (\<lambda>x. bi_id x = bi_id l) (updated_item u component) (ct_items ct)\<rparr>"
    unfolding restate_bom_item_def Let_def bindE_Inr_iff sum.inject by (auto simp del: split_paired_Ex)
  have printed: "reads ct component = Some component"
    using component sound_catalogD(1) [OF sound] sound_catalogD(3) [OF sound l_in] by (auto split: option.splits simp: result_simps)
  have one: "x = l" if "x \<in> set (ct_items ct)" "bi_id x = bi_id l" for x
    using that l_in sound_catalogD(6) [OF sound] by (auto simp: distinct_map inj_on_def)
  let ?f = "\<lambda>x. if bi_id x = bi_id l then updated_item u component x else x"
  have keeps: "bi_id (?f x) = bi_id x \<and> bi_bom_id (?f x) = bi_bom_id x \<and> bi_tenant_id (?f x) = bi_tenant_id x" for x
    by (simp add: updated_item_def)
  have "sound_catalog ct'"
    unfolding ct' update_rows_def
  proof (rule sound_items [OF sound])
    show "distinct (map bi_id (map ?f (ct_items ct)))" using sound_catalogD(6) [OF sound] keeps by (simp add: comp_def)
    show "bi_id ` set (map ?f (ct_items ct)) \<subseteq> bi_id ` set (ct_items ct)"
      unfolding set_map image_image using keeps by simp
    fix x
    assume "x \<in> set (map ?f (ct_items ct))"
    then obtain y where y: "y \<in> set (ct_items ct)" "x = ?f y" by auto
    then show "bi_bom_id x \<in> bm_id ` set (ct_boms ct) \<and> reads ct (bi_component_id x) = Some (bi_component_id x)"
      using keeps [of y] sound_catalogD(7) [OF sound y(1)] sound_catalogD(3) [OF sound y(1)] printed
      by (auto simp: updated_item_def)
  qed
  moreover have "made_of ct' t \<subseteq> made_of ct t"
  proof (rule subrelI)
    fix p c
    assume "(p, c) \<in> made_of ct' t"
    then obtain B y where B: "B \<in> set (ct_boms ct)" "bm_tenant_id B = t" "bm_status B = ''active''" "bm_product_id B = p"
      and y: "y \<in> set (ct_items ct)" "bi_tenant_id (?f y) = t" "bi_bom_id (?f y) = bm_id B" "bi_component_id (?f y) = c"
      unfolding made_of_def ct' update_rows_def by auto
    have "bi_id y \<noteq> bi_id l"
    proof
      assume "bi_id y = bi_id l"
      with one y(1) have "y = l" by blast
      with y(3) keeps [of y] b_in(2) have "bm_id B = bm_id b" by simp
      with same_bom_id [OF sound B(1) b_in(1)] B(3) not_active show False by simp
    qed
    with B y show "(p, c) \<in> made_of ct t" unfolding made_of_def by auto
  qed
  moreover have "iu_component u = None \<longrightarrow> component = bi_component_id l" using component by auto
  ultimately show ?thesis using ct' by (intro exI [of _ component]) simp
qed

lemma change_item_keeps:
  assumes sound: "sound_catalog ct" and step: "update_bom_item ct a i u = Inr ct'"
  shows "sound_catalog ct' \<and> reads ct' = reads ct \<and> made_of ct' t \<subseteq> made_of ct t"
proof -
  from step obtain l b where l: "bom_item_or_404 ct (ac_tenant_id a) i = Inr l"
    and b: "bom_or_404 ct (ac_tenant_id a) (bi_bom_id l) = Inr b" and draft: "require_bom_editable b = Inr ()"
    and change: "restate_bom_item (ac_tenant_id a) b ct l u = Inr ct'"
    unfolding update_bom_item_restates bindE_Inr_iff by auto
  from bom_item_or_404_Inr [OF l] have l_in: "l \<in> set (ct_items ct)" by simp
  obtain b0 where b0: "b0 \<in> set (ct_boms ct)" "bm_id b0 = bi_bom_id l" using sound_catalogD(7) [OF sound l_in] by auto
  then have "reads ct (bi_bom_id l) = Some (bi_bom_id l)" using sound_catalogD(2) [OF sound b0(1)] by simp
  with b have b_in: "b \<in> set (ct_boms ct)" "bm_id b = bi_bom_id l"
    by (auto simp: bom_or_404_def find_row_def find_Some_iff split: option.splits if_splits)
  have "bm_status b \<noteq> ''active''" using draft by (auto simp: require_bom_editable_def ensure_Inr_iff)
  from restated_item_keeps [OF sound l_in b_in this change, of t] show ?thesis by auto
qed

lemma without_lines_keeps:
  assumes sound: "sound_catalog ct"
  shows "sound_catalog (ct\<lparr>ct_items := filter P (ct_items ct)\<rparr>) \<and> made_of (ct\<lparr>ct_items := filter P (ct_items ct)\<rparr>) t \<subseteq> made_of ct t"
proof -
  have "sound_catalog (ct\<lparr>ct_items := filter P (ct_items ct)\<rparr>)"
    by (rule sound_items [OF sound])
      (use sound_catalogD(3,6,7) [OF sound] in \<open>auto simp: distinct_map inj_on_def\<close>)
  then show ?thesis by (auto simp: made_of_def)
qed

lemma remove_item_keeps:
  assumes sound: "sound_catalog ct" and step: "delete_bom_item ct a i = Inr ct'"
  shows "sound_catalog ct' \<and> reads ct' = reads ct \<and> made_of ct' t \<subseteq> made_of ct t"
proof -
  from step obtain l :: bom_item where "ct\<lparr>ct_items := filter (\<lambda>x. bi_id x \<noteq> bi_id l) (ct_items ct)\<rparr> = ct'"
    unfolding delete_bom_item_def Let_def bindE_Inr_iff sum.inject by (elim exE conjE) (rule that)
  with without_lines_keeps [OF sound, of "\<lambda>x. bi_id x \<noteq> bi_id l" t] show ?thesis by auto
qed

lemma built_line_keeps:
  assumes sound: "sound_catalog ct" and b_in: "b \<in> set (ct_boms ct)" and not_active: "bm_status b \<noteq> ''active''"
    and step: "build_bom_line t0 b ct (index, line) = Inr (item, ct')"
  shows "sound_catalog ct' \<and> reads ct' = reads ct \<and> ct_boms ct' = ct_boms ct \<and> made_of ct' t \<subseteq> made_of ct t \<and>
    ct_items ct' = ct_items ct @ [item] \<and> bi_tenant_id item = t0 \<and> bi_bom_id item = bm_id b"
proof -
  from step have add: "add_bom_line t0 (bm_id b) ct (index, line) = Inr (item, ct')"
    unfolding build_bom_line_def prod.case bindE_Inr_iff by auto
  have kept: "sound_catalog ct' \<and> lines_added ct ct' t0 (bm_id b) {lr_component line}"
    by (rule add_bom_line_keeps [OF sound _ add]) (use b_in in auto)
  have "ct_items ct' = ct_items ct @ [item]" "bi_tenant_id item = t0" "bi_bom_id item = bm_id b"
    using add by (auto simp: add_bom_line_def result_simps Let_def ct_tick_def)
  with lines_of_a_draft [OF sound b_in not_active, of ct' t0 "{lr_component line}" t] kept show ?thesis
    by (simp add: lines_added_def)
qed

lemma add_item_keeps:
  assumes sound: "sound_catalog ct" and step: "create_bom_item ct a i line = Inr (item, ct')"
  shows "sound_catalog ct' \<and> reads ct' = reads ct \<and> made_of ct' t \<subseteq> made_of ct t"
proof -
  from step obtain b x where b: "bom_or_404 ct (ac_tenant_id a) i = Inr b" and draft: "require_bom_editable b = Inr x"
    and built: "build_bom_line (ac_tenant_id a) b ct (None, line) = Inr (item, ct')"
    unfolding create_bom_item_def bindE_Inr_iff by (elim exE conjE) (rule that)
  have b_in: "b \<in> set (ct_boms ct)" using bom_or_404_Inr [OF b] by simp
  have "bm_status b \<noteq> ''active''" using draft by (auto simp: require_bom_editable_def ensure_Inr_iff)
  from built_line_keeps [OF sound b_in this built, of t] show ?thesis by blast
qed

text \<open>The lines of a draft are a family of the engine: whatever is done to them, the tables stay sound and the active recipes
  say nothing new.\<close>

definition draft_kept :: "(string \<Rightarrow> uuid option) \<Rightarrow> bom \<Rightarrow> (uuid \<times> uuid) set \<Rightarrow> uuid \<Rightarrow> catalog \<Rightarrow> bool" where
  "draft_kept uin b links t ct \<longleftrightarrow> sound_catalog ct \<and> reads ct = uin \<and> b \<in> set (ct_boms ct) \<and> bm_status b \<noteq> ''active'' \<and>
     made_of ct t \<subseteq> links"

interpretation draft_lines:
  line_store "bom_line_family t0 b" "\<lambda>ct. live_bom_items ct t0 (bm_id b)" "draft_kept uin b links t" for t0 b uin links t
proof
  show "distinct (map (lf_id (bom_line_family t0 b)) (live_bom_items ct t0 (bm_id b)))" if "draft_kept uin b links t ct" for ct
    using sound_catalogD(6) [of ct] that by (simp add: draft_kept_def live_bom_items_def distinct_map_filter)
next
  fix ct v l ct' assume ok: "draft_kept uin b links t ct" and "lf_build (bom_line_family t0 b) ct v = Inr (l, ct')"
  then obtain line where "build_bom_line t0 b ct (None, line) = Inr (l, ct')"
    by (auto simp: bom_line_family_def split: option.splits)
  with ok built_line_keeps [of ct b t0 None line l ct' t]
  show "draft_kept uin b links t ct' \<and> live_bom_items ct' t0 (bm_id b) = live_bom_items ct t0 (bm_id b) @ [l]"
    by (auto simp: draft_kept_def live_bom_items_def)
next
  fix ct l v ct' assume ok: "draft_kept uin b links t ct" and l: "l \<in> set (live_bom_items ct t0 (bm_id b))"
    and "lf_update (bom_line_family t0 b) ct l v = Inr ct'"
  then have change: "restate_bom_item t0 b ct l (line_update_of v) = Inr ct'" by (simp add: bom_line_family_def)
  from l have l: "l \<in> set (ct_items ct)" "bm_id b = bi_bom_id l" by (simp_all add: live_bom_items_def)
  from ok restated_item_keeps [OF _ l(1) _ l(2) _ change, of t] obtain component where
    ct': "ct' = ct\<lparr>ct_items := update_rows (\<lambda>x. bi_id x = bi_id l) (updated_item (line_update_of v) component) (ct_items ct)\<rparr>"
    and stays: "iu_component (line_update_of v) = None \<longrightarrow> component = bi_component_id l"
    and sound: "sound_catalog ct'" "made_of ct' t \<subseteq> made_of ct t" by (auto simp: draft_kept_def)
  have "bom_item_cell (updated_item (line_update_of v) component l) column = bom_item_cell l column" if "column \<notin> fst ` set v" for column
  proof (rule updated_item_cell [OF that])
    assume "column = ''component_product_id''"
    with that have "map_of v ''component_product_id'' = None" by (simp add: map_of_eq_None_iff)
    with stays show "component = bi_component_id l" by (simp add: line_update_of_def)
  qed
  moreover have "live_bom_items ct' t0 (bm_id b) =
      update_rows (\<lambda>x. bi_id x = bi_id l) (updated_item (line_update_of v) component) (live_bom_items ct t0 (bm_id b))"
    unfolding live_bom_items_def ct' by (simp add: update_then_filter)
  moreover have "draft_kept uin b links t ct'" using ok sound by (auto simp: draft_kept_def ct')
  ultimately show "draft_kept uin b links t ct' \<and> (\<exists>g. live_bom_items ct' t0 (bm_id b) =
        update_rows (\<lambda>x. lf_id (bom_line_family t0 b) x = lf_id (bom_line_family t0 b) l) g (live_bom_items ct t0 (bm_id b)) \<and>
      lf_id (bom_line_family t0 b) (g l) = lf_id (bom_line_family t0 b) l \<and>
      (\<forall>c. c \<notin> fst ` set v \<longrightarrow> lf_get (bom_line_family t0 b) (g l) c = lf_get (bom_line_family t0 b) l c))"
    by auto
next
  fix ct l assume "draft_kept uin b links t ct"
  then show "draft_kept uin b links t (lf_remove (bom_line_family t0 b) ct l) \<and>
      live_bom_items (lf_remove (bom_line_family t0 b) ct l) t0 (bm_id b) =
      filter (\<lambda>x. lf_id (bom_line_family t0 b) x \<noteq> lf_id (bom_line_family t0 b) l) (live_bom_items ct t0 (bm_id b))"
    using without_lines_keeps [of ct "\<lambda>x. bi_id x \<noteq> bi_id l" t]
    by (auto simp: draft_kept_def bom_line_family_def live_bom_items_def conj_commute)
next
  show "fst ` set v' \<subseteq> fst ` set v" if "lf_update_model (bom_line_family t0 b) v = Inr v'" for v v'
    using that by (simp add: bom_line_family_def bindE_Inr_iff)
qed

lemma save_keeps:
  assumes sound: "sound_catalog ct" and step: "save_bom_lines digest ct a i expected rows v = Inr ct'"
  shows "sound_catalog ct' \<and> reads ct' = reads ct \<and> made_of ct' t \<subseteq> made_of ct t"
proof -
  let ?t = "ac_tenant_id a"
  from step obtain b x kept told ct1 where b: "bom_or_404 ct ?t i = Inr b" and draft: "require_bom_editable b = Inr x"
    and save: "restate_rows (bom_line_family ?t b) (live_bom_items ct (bm_tenant_id b) (bm_id b)) ct rows = Inr (kept, told, ct1)"
    and ct': "ct' = (if v then ct else ct1)"
    unfolding save_bom_lines_def Let_def bindE_Inr_iff by auto
  have "draft_kept (reads ct) b (made_of ct t) t ct"
    using sound bom_or_404_Inr [OF b] draft by (auto simp: draft_kept_def require_bom_editable_def ensure_Inr_iff)
  from draft_lines.restated(1) [OF this, of ?t rows kept told ct1] save bom_or_404_Inr [OF b]
  have "draft_kept (reads ct) b (made_of ct t) t ct1" by simp
  with sound show ?thesis by (simp add: draft_kept_def ct')
qed

lemma archive_bom_keeps:
  assumes sound: "sound_catalog ct" and step: "delete_bill_of_materials ct a i = Inr ct'"
  shows "sound_catalog ct' \<and> reads ct' = reads ct \<and> made_of ct' t \<subseteq> made_of ct t"
proof -
  from step obtain b where b: "bom_or_404 ct (ac_tenant_id a) i = Inr b"
    and ct': "ct' = ct\<lparr>ct_boms := update_rows (\<lambda>x. bm_id x = bm_id b) (\<lambda>x. x\<lparr>bm_status := ''archived''\<rparr>) (ct_boms ct)\<rparr>"
    unfolding delete_bill_of_materials_def bindE_Inr_iff sum.inject by (elim exE conjE) (rule that, assumption, erule sym)
  have b_in: "b \<in> set (ct_boms ct)" using bom_or_404_Inr [OF b] by simp
  have "\<not> list_ex (bom_clash (b\<lparr>bm_status := ''archived''\<rparr>)) (ct_boms ct)"
    using sound_catalogD(4) [OF sound b_in] demoted_clash [of True b False] unfolding list_ex_iff by auto
  then have "sound_catalog ct'" unfolding ct' by (intro sound_change_one_bom [OF sound b_in]) simp_all
  moreover have "made_of ct' t \<subseteq> made_of ct t" unfolding ct' update_rows_def by (rule made_of_map_boms) auto
  ultimately show ?thesis by (simp add: ct')
qed

lemma updated_bom_keys [simp]:
  "bm_id (updated_bom u b) = bm_id b" "bm_product_id (updated_bom u b) = bm_product_id b" "bm_tenant_id (updated_bom u b) = bm_tenant_id b"
  by (simp_all add: updated_bom_def)

lemma update_bom_keeps:
  assumes sound: "sound_catalog ct" and step: "update_bill_of_materials ct a i u = Inr (b', ct')"
  shows "sound_catalog ct' \<and> reads ct' = reads ct \<and> (bu_status u \<noteq> Some (Some ''active'') \<longrightarrow> made_of ct' t \<subseteq> made_of ct t)"
proof -
  let ?ct1 = "\<lambda>b. if bu_status u = Some (Some ''active'') \<and> bm_status b \<noteq> ''active''
      then demote_others ct (ac_tenant_id a) (bm_product_id b) (bm_id b) else ct"
  from step obtain b x where b: "bom_or_404 ct (ac_tenant_id a) i = Inr b"
    and free0: "require_no_clash (ct_boms (?ct1 b)) (updated_bom u b) = Inr x"
    and ct'0: "(updated_bom u b, ?ct1 b\<lparr>ct_boms := update_rows (\<lambda>x. bm_id x = bm_id b) (updated_bom u) (ct_boms (?ct1 b))\<rparr>) = (b', ct')"
    unfolding update_bill_of_materials_def Let_def bindE_Inr_iff sum.inject by (elim exE conjE) (rule that)
  define ct1 where "ct1 = ?ct1 b"
  have free: "require_no_clash (ct_boms ct1) (updated_bom u b) = Inr x" using free0 unfolding ct1_def .
  have ct': "ct' = ct1\<lparr>ct_boms := update_rows (\<lambda>x. bm_id x = bm_id b) (updated_bom u) (ct_boms ct1)\<rparr>"
    using ct'0 unfolding ct1_def prod.inject by simp
  have b_in: "b \<in> set (ct_boms ct)" using bom_or_404_Inr [OF b] by simp
  then have b_in1: "b \<in> set (ct_boms ct1)" by (force simp: ct1_def demote_others_map image_iff)
  have sound1: "sound_catalog ct1" using sound sound_demote_others by (simp add: ct1_def)
  have "sound_catalog ct'"
    unfolding ct' by (rule sound_change_one_bom [OF sound1 b_in1])
      (use free in \<open>simp_all add: require_no_clash_def ensure_Inr_iff\<close>)
  moreover have "reads ct' = reads ct" by (simp add: ct' ct1_def demote_others_def)
  moreover have "made_of ct' t \<subseteq> made_of ct t" if "bu_status u \<noteq> Some (Some ''active'')"
  proof -
    have "ct1 = ct" using that by (simp add: ct1_def)
    moreover have "bm_status (updated_bom u x) = ''active'' \<longrightarrow> bm_status x = ''active''" for x
      using that by (auto simp: updated_bom_def split: option.splits)
    ultimately show ?thesis unfolding ct' update_rows_def by (simp only:) (rule made_of_map_boms, simp)
  qed
  ultimately show ?thesis by blast
qed

subsection \<open>Creating a recipe\<close>

lemma judge_components_Inr:
  assumes "judge_components ct t parent items = Inr r" and "line \<in> set items"
  shows "lr_component line \<noteq> parent \<and> (lr_component line, parent) \<notin> (built_from ct t)\<^sup>+"
proof -
  have "reads_true ct t r \<and> (\<forall>line \<in> set items. lr_component line \<noteq> parent \<and> (lr_component line, parent) \<notin> (built_from ct t)\<^sup>+)"
    if "foldE (\<lambda>recipes line. bindE (require_component ct t parent (lr_component line) recipes) (\<lambda>(p, recipes'). Inr recipes')) recipes items = Inr r"
      and "reads_true ct t recipes" for recipes
    using that
  proof (induction items arbitrary: recipes)
    case (Cons line items)
    from Cons.prems(1) obtain p recipes' where
      line: "require_component ct t parent (lr_component line) recipes = Inr (p, recipes')"
      and rest: "foldE (\<lambda>recipes line. bindE (require_component ct t parent (lr_component line) recipes) (\<lambda>(p, recipes'). Inr recipes'))
        recipes' items = Inr r"
      by (auto simp: result_simps)
    from line have walk: "component_walk ct t parent recipes [] [lr_component line] = Inr recipes'"
      and differ: "lr_component line \<noteq> parent"
      by (auto simp only: require_component_def bindE_Inr_iff ensure_Inr_iff sum.inject prod.inject)
    have "explored ct t parent (set []) (set [lr_component line])" by (simp add: explored_def)
    from walk_accepts [OF walk Cons.prems(2) this] have true: "reads_true ct t recipes'" by simp
    have "(lr_component line, parent) \<notin> (built_from ct t)\<^sup>+"
      using walk_iff [OF Cons.prems(2)] walk by (metis is_ok.simps(2))
    with Cons.IH [OF rest true] differ show ?case by simp
  qed simp
  from this [OF assms(1) [unfolded judge_components_def]] assms(2) show ?thesis by simp
qed

lemma product_or_404_Inr:
  "product_or_404 ct t s = Inr p \<Longrightarrow> reads ct s = Some (pr_id p) \<and> p \<in> set (wh_products (ct_stock ct))"
  by (auto simp: product_or_404_def find_row_def find_Some_iff split: option.splits if_splits)

lemma with_bom_fields [simp]:
  "ct_boms (with_bom ct b) = ct_boms ct @ [b]" "ct_items (with_bom ct b) = ct_items ct"
  "wh_products (ct_stock (with_bom ct b)) = wh_products (ct_stock ct)" "reads (with_bom ct b) = reads ct"
  "db_uuids (ct_db (with_bom ct b)) = db_uuids (ct_db ct)" "db_next (ct_db (with_bom ct b)) = Suc (db_next (ct_db ct))"
  by (simp_all add: with_bom_def ct_tick_def tick_def)

lemma with_bom_keeps:
  assumes sound: "sound_catalog ct" and id: "bm_id b = fresh_id (ct_db ct)"
    and product: "reads ct (bm_product_id b) = Some (bm_product_id b)" and free: "\<not> list_ex (bom_clash b) (ct_boms ct)"
  shows "sound_catalog (with_bom ct b) \<and> made_of (with_bom ct b) t = made_of ct t"
proof -
  have fresh: "fresh_catalog ct" using sound by (rule sound_catalogD)
  have new: "bm_id b \<notin> bm_id ` set (ct_boms ct)" using fresh by (auto simp: fresh_catalog_def id fresh_id_def)
  have printed: "reads ct (bm_id b) = Some (bm_id b)" using fresh by (simp add: fresh_catalog_def id fresh_id_def)
  have "fresh_catalog (with_bom ct b)"
    using fresh_after_tick [OF fresh [unfolded fresh_catalog_def, THEN conjunct1] fresh [unfolded fresh_catalog_def, THEN conjunct2, THEN conjunct2]]
      fresh by (simp add: fresh_catalog_def id)
  moreover have "\<not> bom_clash x y" if "x \<in> set (ct_boms ct @ [b])" "y \<in> set (ct_boms ct @ [b])" for x y
    using that free bom_clash_sym sound_catalogD(4) [OF sound] by (auto simp: list_ex_iff bom_clash_def [of b b])
  ultimately have "sound_catalog (with_bom ct b)"
    using sound new printed product unfolding sound_catalog_def by (simp add: image_subset_iff)
  moreover have "bi_bom_id l \<noteq> bm_id b" if "l \<in> set (ct_items ct)" for l
    using new sound_catalogD(7) [OF sound that] by metis
  then have "made_of (with_bom ct b) t = made_of ct t" unfolding made_of_def by auto
  ultimately show ?thesis ..
qed

text \<open>What the lines of an accepted creation are, and what the new recipe adds to the active ones.\<close>

lemma create_bom_keeps:
  assumes sound: "sound_catalog ct" and step: "create_bill_of_materials ct a p v = Inr (b, ct')"
  shows "sound_catalog ct' \<and> reads ct' = reads ct \<and>
    (\<exists>q. reads ct (br_product_id p) = Some q \<and>
       made_of ct' t \<subseteq> made_of ct t \<union> {q} \<times> {c. t = ac_tenant_id a \<and> (\<exists>line \<in> set (br_items p). reads ct (lr_component line) = Some c)}) \<and>
    (\<forall>line \<in> set (br_items p). lr_component line \<noteq> br_product_id p \<and> (lr_component line, br_product_id p) \<notin> (built_from ct (ac_tenant_id a))\<^sup>+)"
proof -
  let ?t = "ac_tenant_id a"
  let ?b = "\<lambda>product :: product. \<lparr>bm_id = fresh_id (ct_db ct), bm_tenant_id = ?t, bm_product_id = pr_id product, bm_code = br_code p,
            bm_output_quantity = column4 (br_output_quantity p), bm_status = br_status p\<rparr>"
  let ?ct2 = "\<lambda>product. if br_status p = ''active'' then demote_others (with_bom ct (?b product)) ?t (pr_id product) (bm_id (?b product))
      else with_bom ct (?b product)"
  from step obtain product r x ct3 where product: "require_makeable_parent ct ?t (br_product_id p) = Inr product"
    and judged: "judge_components ct ?t (br_product_id p) (br_items p) = Inr r"
    and free: "require_no_clash (ct_boms ct) (?b product) = Inr x"
    and lines: "add_bom_lines ?t (bm_id (?b product)) (?ct2 product) (br_items p) = Inr ct3"
    and result: "(?b product, if v then ct else ct3) = (b, ct')"
    unfolding create_bill_of_materials_def Let_def bindE_Inr_iff sum.inject by (elim exE conjE) (rule that)
  define b1 where "b1 = ?b product"
  define ct2 where "ct2 = ?ct2 product"
  note lines = lines [folded b1_def ct2_def]
  from product have found: "reads ct (br_product_id p) = Some (pr_id product)" "product \<in> set (wh_products (ct_stock ct))"
    using product_or_404_Inr [of ct ?t "br_product_id p"] by (auto simp: require_makeable_parent_def result_simps)
  have with_bom: "sound_catalog (with_bom ct b1)" "made_of (with_bom ct b1) t = made_of ct t"
    using with_bom_keeps [OF sound, of b1] free sound_catalogD(8) [OF sound found(2)]
    by (simp_all add: b1_def require_no_clash_def ensure_Inr_iff)
  have ct2: "ct2 = (if br_status p = ''active'' then demote_others (with_bom ct b1) ?t (pr_id product) (bm_id b1) else with_bom ct b1)"
    by (simp add: ct2_def b1_def)
  have sound2: "sound_catalog ct2" using with_bom(1) sound_demote_others by (simp add: ct2)
  have made2: "made_of ct2 t \<subseteq> made_of ct t" using made_of_demote with_bom(2) by (simp add: ct2) blast
  have reads2: "reads ct2 = reads ct" by (simp add: ct2 demote_others_def)
  have b1_in: "b1 \<in> set (ct_boms ct2)" by (simp add: ct2 demote_others_map b1_def image_iff)
  from add_bom_lines_keeps [OF sound2 _ lines] b1_in have kept: "sound_catalog ct3" "lines_added ct2 ct3 ?t (bm_id b1) (lr_component ` set (br_items p))"
    by auto
  have "made_of ct3 t \<subseteq> made_of ct t \<union>
      {pr_id product} \<times> {c. t = ?t \<and> (\<exists>line \<in> set (br_items p). reads ct (lr_component line) = Some c)}"
  proof (rule subrelI)
    fix q c
    assume "(q, c) \<in> made_of ct3 t"
    with made_of_lines_added [OF kept(2), of t] made2
    consider "(q, c) \<in> made_of ct t"
      | B s where "B \<in> set (ct_boms ct2)" "bm_id B = bm_id b1" "bm_product_id B = q" "t = ?t"
          "s \<in> lr_component ` set (br_items p)" "reads ct2 s = Some c" by blast
    then show "(q, c) \<in> made_of ct t \<union>
        {pr_id product} \<times> {c. t = ?t \<and> (\<exists>line \<in> set (br_items p). reads ct (lr_component line) = Some c)}"
    proof cases
      case 2
      then have "B = b1" using same_bom_id [OF sound2 _ b1_in] by blast
      with 2 have "q = pr_id product" by (simp add: b1_def)
      with 2 show ?thesis by (auto simp: reads2)
    qed simp
  qed
  moreover have "reads ct3 = reads ct" using kept(2) reads2 by (simp add: lines_added_def)
  moreover have "ct' = ct \<or> ct' = ct3" using result by (simp split: if_splits)
  ultimately have "sound_catalog ct' \<and> reads ct' = reads ct \<and> made_of ct' t \<subseteq> made_of ct t \<union>
      {pr_id product} \<times> {c. t = ?t \<and> (\<exists>line \<in> set (br_items p). reads ct (lr_component line) = Some c)}"
    using sound kept(1) by auto
  with found(1) judge_components_Inr [OF judged] show ?thesis by blast
qed

subsection \<open>Histories\<close>

text \<open>Creations spell their ids the way the database prints them, and no PATCH activates a recipe.\<close>

fun calm :: "(string \<Rightarrow> uuid option) \<Rightarrow> recipe_event \<Rightarrow> bool" where
  "calm uin (Create_Bom p v) \<longleftrightarrow> uin (br_product_id p) = Some (br_product_id p) \<and>
     list_all (\<lambda>line. uin (lr_component line) \<in> {None, Some (lr_component line)}) (br_items p)"
| "calm uin (Update_Bom i u) \<longleftrightarrow> bu_status u \<noteq> Some (Some ''active'')"
| "calm uin e \<longleftrightarrow> True"

lemma created_stays_acyclic:
  assumes sound: "sound_catalog ct" and acyclic: "acyclic (made_of ct t)" and calm: "calm (reads ct) (Create_Bom p v)"
    and step: "create_bill_of_materials ct a p v = Inr (b, ct')"
  shows "acyclic (made_of ct' t)"
proof -
  let ?p = "br_product_id p"
  let ?C = "{c. t = ac_tenant_id a \<and> (\<exists>line \<in> set (br_items p). reads ct (lr_component line) = Some c)}"
  have printed: "reads ct ?p = Some ?p" "\<And>line. line \<in> set (br_items p) \<Longrightarrow> reads ct (lr_component line) \<in> {None, Some (lr_component line)}"
    using calm by (simp_all add: list_all_iff)
  from create_bom_keeps [OF sound step, of t] printed(1)
  have sub: "made_of ct' t \<subseteq> made_of ct t \<union> {?p} \<times> ?C"
    and judged: "\<And>line. line \<in> set (br_items p) \<Longrightarrow>
      lr_component line \<noteq> ?p \<and> (lr_component line, ?p) \<notin> (built_from ct (ac_tenant_id a))\<^sup>+" by auto
  have "?C \<subseteq> lr_component ` set (br_items p)" using printed(2) by force
  then have finite: "finite ?C" by (rule finite_subset) simp
  have "acyclic (made_of ct t \<union> {?p} \<times> ?C)"
  proof (rule acyclic_new_source [OF finite acyclic])
    fix c
    assume "c \<in> ?C"
    then obtain line where line: "line \<in> set (br_items p)" "reads ct (lr_component line) = Some c" and t: "t = ac_tenant_id a" by blast
    with printed(2) have c: "lr_component line = c" by force
    with judged [OF line(1)] built_from_trancl_made_of [OF sound, of c ?p t] line(2)
    show "(c, ?p) \<notin> (made_of ct t)\<^sup>*" by (simp add: t rtrancl_eq_or_trancl)
  qed
  with sub show ?thesis by (rule acyclic_smaller [rotated])
qed

lemma recipe_step_keeps:
  assumes sound: "sound_catalog ct" and step: "recipe_step digest ct a e = Inr ct'"
  shows "sound_catalog ct' \<and> reads ct' = reads ct \<and>
    (calm (reads ct) e \<longrightarrow> acyclic (made_of ct t) \<longrightarrow> acyclic (made_of ct' t))"
proof (cases e)
  case (Create_Bom p v)
  with step obtain b where b: "create_bill_of_materials ct a p v = Inr (b, ct')" by (auto simp: result_simps)
  from create_bom_keeps [OF sound b, of t] have "sound_catalog ct' \<and> reads ct' = reads ct" by blast
  with created_stays_acyclic [OF sound _ _ b] Create_Bom show ?thesis by blast
next
  case (Update_Bom i u)
  with step obtain b where b: "update_bill_of_materials ct a i u = Inr (b, ct')" by (auto simp: result_simps)
  from update_bom_keeps [OF sound b, of t] Update_Bom acyclic_smaller show ?thesis by auto
next
  case (Archive_Bom i)
  with step archive_bom_keeps [OF sound, of a i ct' t] acyclic_smaller show ?thesis by auto
next
  case (Add_Item i line)
  with step obtain x where "create_bom_item ct a i line = Inr (x, ct')" by (auto simp: result_simps)
  from add_item_keeps [OF sound this, of t] acyclic_smaller show ?thesis by auto
next
  case (Save_Items i expected rows v)
  with step save_keeps [OF sound, of digest a i expected rows v ct' t] acyclic_smaller show ?thesis by auto
next
  case (Change_Item i u)
  with step change_item_keeps [OF sound, of a i u ct' t] acyclic_smaller show ?thesis by auto
next
  case (Remove_Item i)
  with step remove_item_keeps [OF sound, of a i ct' t] acyclic_smaller show ?thesis by auto
qed

lemma run_recipes_keeps:
  assumes "sound_catalog ct" and "acyclic (made_of ct t)" and "list_all (\<lambda>(a, e). calm (reads ct) e) events"
  shows "sound_catalog (run_recipes digest ct events) \<and> acyclic (made_of (run_recipes digest ct events) t)"
  using assms
proof (induction digest ct events rule: run_recipes.induct)
  case (2 digest ct a e es)
  show ?case
  proof (cases "recipe_step digest ct a e")
    case (Inl x)
    with 2 show ?thesis by simp
  next
    case (Inr ct')
    from recipe_step_keeps [OF "2.prems"(1) Inr, of t] "2.prems"
    have "sound_catalog ct'" "acyclic (made_of ct' t)" "list_all (\<lambda>(a, e). calm (reads ct') e) es" by auto
    with "2.IH" show ?thesis by (simp add: Inr)
  qed
qed simp

text \<open>C18: Whatever recipes are created, edited line by line or as a whole, archived and refused, in any order and by anyone:
  no product is ever made of itself through active recipes, and each product has at most one, as long as recipes become active
  by being created, not by a PATCH, and creations spell the ids of the product and its components as the database prints them.
  (Without the one proviso or the other it is false: \<open>activated_drafts_close_a_loop\<close>,
  \<open>a_respelled_product_is_its_own_component\<close>.)\<close>

theorem no_product_is_made_of_itself:
  assumes "sound_catalog ct" and "acyclic (made_of ct t)" and "list_all (\<lambda>(a, e). calm (db_uuid_in (ct_db ct)) e) events"
  shows "acyclic (made_of (run_recipes digest ct events) t) \<and>
    (\<forall>b \<in> set (ct_boms (run_recipes digest ct events)). \<forall>b' \<in> set (ct_boms (run_recipes digest ct events)).
       bm_tenant_id b = bm_tenant_id b' \<and> bm_status b = ''active'' \<and> bm_status b' = ''active'' \<and> bm_product_id b = bm_product_id b' \<longrightarrow>
       bm_id b = bm_id b')"
proof -
  have "sound_catalog (run_recipes digest ct events)" "acyclic (made_of (run_recipes digest ct events) t)"
    using run_recipes_keeps [OF assms] by simp_all
  with sound_catalogD(4) [OF this(1)] show ?thesis unfolding bom_clash_def by blast
qed

subsection \<open>A workshop\<close>

definition workshop :: catalog where
  "workshop = \<lparr>ct_stock = \<lparr>wh_db = blank_db, wh_positions = [], wh_movements = [], wh_order_lines = [], wh_purchase_lines = [],
       wh_shipment_lines = [], wh_stamps = [],
       wh_products = map (\<lambda>(i, k). \<lparr>pr_id = i, pr_tenant_id = ''t'', pr_code = i, pr_type = k\<rparr>)
         [(''valve'', ''finished_good''), (''body'', ''semi_finished''), (''bolt'', ''semi_finished''), (''steel'', ''raw_material'')],
       wh_skus = [], wh_facilities = [], wh_suppliers = [], wh_payloads = [], wh_versions = (\<lambda>_. 1)\<rparr>,
     ct_boms = [], ct_items = []\<rparr>"

definition curator :: actor where
  "curator = with_grants [''master_data.manage''] blank_actor"

definition recipe :: "string \<Rightarrow> string \<Rightarrow> (string \<times> quantity) list \<Rightarrow> bom_request" where
  "recipe p s items = \<lparr>br_product_id = p, br_code = None, br_output_quantity = 1, br_status = s,
     br_items = map (\<lambda>(c, q). \<lparr>lr_line_no = None, lr_component = c, lr_quantity = q, lr_unit = None, lr_scrap_rate = None\<rparr>) items\<rparr>"

definition activate :: bom_update where
  "activate = \<lparr>bu_code = None, bu_output_quantity = None, bu_status = Some (Some ''active'')\<rparr>"

text \<open>A digest that tells readings of these recipes apart.\<close>

definition page_of_recipe :: "bom \<times> bom_item list \<Rightarrow> string" where
  "page_of_recipe = (\<lambda>(b, ls). bm_status b @ concat (map (\<lambda>l. '' '' @ bi_component_id l) ls))"

definition stated_component :: "string \<Rightarrow> rat \<Rightarrow> stated_line" where
  "stated_component c q = \<lparr>sl_id = None, sl_cells = [(''component_product_id'', JStr c), (''quantity'', JNum q)]\<rparr>"

definition workshop_day :: "(actor \<times> recipe_event) list" where
  "workshop_day = map (Pair curator) [
     Create_Bom (recipe ''valve'' ''active'' [(''body'', 1), (''steel'', 2)]) False,
     Create_Bom (recipe ''body'' ''active'' [(''bolt'', 4)]) False,
     Create_Bom (recipe ''bolt'' ''active'' [(''valve'', 1)]) False,
     Create_Bom (recipe ''bolt'' ''draft'' [(''steel'', 1)]) False,
     Save_Items (replicate 6 CHR ''x'') ''draft steel'' [stated_component ''valve'' 1] False,
     Save_Items (replicate 6 CHR ''x'') ''draft body'' [stated_component ''steel'' 3] False,
     Save_Items (replicate 6 CHR ''x'') ''draft steel'' [stated_component ''steel'' 3] False]"

lemma workshop_sound: "sound_catalog workshop" "acyclic (made_of workshop t)"
proof -
  have "inj (\<lambda>n. replicate n CHR ''x'')" by (auto intro: injI dest: arg_cong [where f = length])
  then show "sound_catalog workshop" "acyclic (made_of workshop t)"
    by (simp_all add: sound_catalog_def fresh_catalog_def workshop_def blank_db_def made_of_def acyclic_def)
qed

theorem no_product_is_made_of_itself_witness:
  "acyclic (made_of (run_recipes page_of_recipe workshop workshop_day) ''t'') \<and>
     map bm_product_id (ct_boms (run_recipes page_of_recipe workshop workshop_day)) = [''valve'', ''body'', ''bolt''] \<and>
     map (\<lambda>l. (bi_component_id l, bi_quantity l)) (ct_items (run_recipes page_of_recipe workshop workshop_day)) =
       [(''body'', 1), (''steel'', 2), (''bolt'', 4), (''steel'', 3)]"
proof -
  have "list_all (\<lambda>(a, e). calm (db_uuid_in (ct_db workshop)) e) workshop_day"
    by (simp add: workshop_day_def workshop_def blank_db_def recipe_def)
  from no_product_is_made_of_itself [OF workshop_sound(1) workshop_sound(2) [of "''t''"] this]
  have "acyclic (made_of (run_recipes page_of_recipe workshop workshop_day) ''t'')" ..
  moreover have "map bm_product_id (ct_boms (run_recipes page_of_recipe workshop workshop_day)) = [''valve'', ''body'', ''bolt'']"
    by code_simp
  moreover have "map (\<lambda>l. (bi_component_id l, bi_quantity l)) (ct_items (run_recipes page_of_recipe workshop workshop_day)) =
       [(''body'', 1), (''steel'', 2), (''bolt'', 4), (''steel'', 3)]" by code_simp
  ultimately show ?thesis by (intro conjI)
qed

text \<open>Two drafts, each judged while the other was a draft, and both activated by PATCH: each product is made
  of the other, and the explosion of either lists that very product among the materials to buy.\<close>

lemma activated_drafts_close_a_loop:
  "(let ct = run_recipes page_of_recipe workshop (map (Pair curator) [
       Create_Bom (recipe ''valve'' ''draft'' [(''body'', 1)]) False, Create_Bom (recipe ''body'' ''draft'' [(''valve'', 1)]) False,
       Update_Bom ''x'' activate, Update_Bom ''xxx'' activate])
    in map (\<lambda>b. (bm_product_id b, bm_status b)) (ct_boms ct) = [(''valve'', ''active''), (''body'', ''active'')] \<and>
       (case explode_bill_of_materials ct ''t'' ''x'' 10 False None of
          Inr x \<Rightarrow> map (\<lambda>l. (lf_product l, lf_required l)) (xp_leaves x) = [(''valve'', 10)] | Inl _ \<Rightarrow> False))"
  by code_simp

text \<open>An id in another spelling is another string: a product becomes a component of itself.\<close>

lemma a_respelled_product_is_its_own_component:
  "(let upper = workshop\<lparr>ct_stock := (ct_stock workshop)\<lparr>wh_db := blank_db\<lparr>db_uuid_in := (\<lambda>s. Some (if s = ''VALVE'' then ''valve'' else s))\<rparr>\<rparr>\<rparr>
    in case create_bill_of_materials upper curator (recipe ''valve'' ''active'' [(''VALVE'', 1)]) False of
         Inr (b, ct) \<Rightarrow> map (\<lambda>l. (bm_product_id b, bi_component_id l)) (ct_items ct) = [(''valve'', ''valve'')]
       | Inl _ \<Rightarrow> False)"
  by code_simp

text \<open>An output quantity the request may have and the column rounds to nothing: the recipe cannot be exploded.\<close>

lemma a_tiny_output_breaks_the_explosion:
  "(let ct = run_recipes page_of_recipe workshop [(curator, Create_Bom ((recipe ''valve'' ''active'' [(''steel'', 1)])\<lparr>br_output_quantity := 4 / 100000\<rparr>) False)]
    in map bm_output_quantity (ct_boms ct) = [0] \<and>
       explode_bill_of_materials ct ''t'' ''x'' 1 False None = Inl (HttpError 500 ''ZeroDivisionError''))"
proof -
  let ?r = "explode_bill_of_materials (run_recipes page_of_recipe workshop
      [(curator, Create_Bom ((recipe ''valve'' ''active'' [(''steel'', 1)])\<lparr>br_output_quantity := 4 / 100000\<rparr>) False)]) ''t'' ''x'' 1 False None"
  have "(case ?r of Inl e \<Rightarrow> e = HttpError 500 ''ZeroDivisionError'' | Inr _ \<Rightarrow> False)" by code_simp
  then have "?r = Inl (HttpError 500 ''ZeroDivisionError'')" by (simp split: sum.splits)
  moreover have "map bm_output_quantity (ct_boms (run_recipes page_of_recipe workshop
      [(curator, Create_Bom ((recipe ''valve'' ''active'' [(''steel'', 1)])\<lparr>br_output_quantity := 4 / 100000\<rparr>) False)])) = [0]" by code_simp
  ultimately show ?thesis unfolding Let_def by (rule conjI [rotated])
qed

text \<open>A second active recipe is refused by the index before the first can be demoted.\<close>

lemma a_second_active_recipe_is_refused:
  "(let ct = run_recipes page_of_recipe workshop [(curator, Create_Bom (recipe ''valve'' ''active'' [(''steel'', 1)]) False)]
    in case create_bill_of_materials ct curator (recipe ''valve'' ''active'' [(''steel'', 2)]) False of
         Inl e \<Rightarrow> e = HttpError 409 ''active_recipe_or_bom_code_taken'' | Inr _ \<Rightarrow> False)"
  by code_simp

end
