(* ===== verification/Recipe_Explosion.thy ===== *)
theory Recipe_Explosion
  imports Recipe_History
begin

text \<open>
  What an explosion adds up to: it scales with the quantity asked for, a material it lists has no active
  recipe of its own, and the sum of a material is exact up to the rounding at each of its lines.
\<close>

subsection \<open>Scaling\<close>

definition scale_line :: "quantity \<Rightarrow> exploded \<Rightarrow> exploded" where
  "scale_line k e = e\<lparr>ex_required := k * ex_required e\<rparr>"

lemma ratio_of_scaled: "ratio_of (k * q) b = map_sum (\<lambda>e. e) (\<lambda>r. k * r) (ratio_of q b)"
  by (simp add: ratio_of_def)

lemma line_required_scaled: "line_required (k * r) l = k * line_required r l"
  by (simp add: line_required_def algebra_simps)

text \<open>Asking for k times the quantity gives the same lines in the same order, each with k times the
  requirement, or fails where the single quantity fails.\<close>

theorem explosions_scale:
  "walk_lines ct t level path parent (k * ratio) ls =
     map_sum (\<lambda>e. e) (map (scale_line k)) (walk_lines ct t level path parent ratio ls)"
proof (induction ct t level path parent ratio ls rule: walk_lines.induct)
  case (2 ct t level path parent ratio l ls)
  let ?required = "line_required ratio l" and ?sub = "sub_recipe ct t path l"
  let ?below = "\<lambda>q. case ?sub of None \<Rightarrow> Inr [] | Some b \<Rightarrow> bindE (ratio_of q b) (\<lambda>r.
      walk_lines ct t (Suc level) (path @ [bi_component_id l]) (bm_product_id b) r (bom_lines ct t (bm_id b)))"
  have below: "?below (k * ?required) = map_sum (\<lambda>e. e) (map (scale_line k)) (?below ?required)"
  proof (cases ?sub)
    case (Some b)
    show ?thesis
    proof (cases "ratio_of ?required b")
      case (Inr r)
      from "2.IH"(1) [OF refl refl Some Inr] show ?thesis by (simp add: Some Inr ratio_of_scaled)
    qed (simp add: Some ratio_of_scaled)
  qed simp
  show ?case
  proof (cases "?below ?required")
    case (Inl e)
    with below show ?thesis by (simp add: Let_def line_required_scaled)
  next
    case (Inr es)
    from "2.IH"(2) [OF refl refl Inr] below Inr show ?thesis
      by (cases "walk_lines ct t level path parent ratio ls") (simp_all add: Let_def line_required_scaled scale_line_def)
  qed
qed simp

subsection \<open>What is listed as a material\<close>

lemma walk_lines_leaf:
  assumes "walk_lines ct t level path parent ratio ls = Inr es" and "sound_catalog ct" and "acyclic (made_of ct t)"
    and "\<And>l. l \<in> set ls \<Longrightarrow> l \<in> set (ct_items ct) \<and> (parent, bi_component_id l) \<in> made_of ct t"
    and "\<And>q. q \<in> set path \<Longrightarrow> (q, parent) \<in> (made_of ct t)\<^sup>*" and "e \<in> set es" and "\<not> ex_has_bom e"
  shows "active_bom_for ct t (bi_component_id (ex_line e)) = None"
  using assms
proof (induction ct t level path parent ratio ls arbitrary: es rule: walk_lines.induct)
  case (2 ct t level path parent ratio l ls)
  let ?required = "line_required ratio l" and ?sub = "sub_recipe ct t path l"
  let ?below = "case ?sub of None \<Rightarrow> Inr [] | Some b \<Rightarrow> bindE (ratio_of ?required b) (\<lambda>r.
      walk_lines ct t (Suc level) (path @ [bi_component_id l]) (bm_product_id b) r (bom_lines ct t (bm_id b)))"
  from "2.prems"(1) obtain below rest where below: "?below = Inr below"
    and rest: "walk_lines ct t level path parent ratio ls = Inr rest"
    and es: "es = \<lparr>ex_level = level, ex_parent = parent, ex_line = l, ex_required = ?required, ex_has_bom = (?sub \<noteq> None)\<rparr>
      # below @ rest"
    by (auto simp: Let_def bindE_Inr_iff simp del: not_None_eq)
  have edge: "(parent, bi_component_id l) \<in> made_of ct t" and l: "l \<in> set (ct_items ct)"
    using "2.prems"(4) [of l] by simp_all
  consider (here) "?sub = None" "ex_line e = l" | (below) "e \<in> set below" | (rest) "e \<in> set rest"
    using "2.prems"(6,7) es by auto
  then show ?case
  proof cases
    case here
    have "bi_component_id l \<notin> set path"
    proof
      assume "bi_component_id l \<in> set path"
      with "2.prems"(5) have "(bi_component_id l, parent) \<in> (made_of ct t)\<^sup>*" by blast
      with edge have "(parent, parent) \<in> (made_of ct t)\<^sup>+" by (rule rtrancl_into_trancl2)
      with "2.prems"(3) show False by (simp add: acyclic_def)
    qed
    with here show ?thesis by (simp add: sub_recipe_def)
  next
    case below': below
    then obtain b r where b: "?sub = Some b" and r: "ratio_of ?required b = Inr r"
      and walk: "walk_lines ct t (Suc level) (path @ [bi_component_id l]) (bm_product_id b) r (bom_lines ct t (bm_id b)) = Inr below"
      using below by (auto split: option.splits simp: bindE_Inr_iff)
    have "active_bom_for ct t (bi_component_id l) = Some b" using b by (simp add: sub_recipe_def split: if_splits)
    with one_active_bom [OF "2.prems"(2) sound_catalogD(3) [OF "2.prems"(2) l]]
    have b': "b \<in> set (ct_boms ct)" "bm_tenant_id b = t" "bm_status b = ''active''" "bm_product_id b = bi_component_id l" by blast+
    show ?thesis
    proof (rule "2.IH"(1) [OF refl refl b r walk "2.prems"(2,3) _ _ below' "2.prems"(7)])
      fix x
      assume "x \<in> set (bom_lines ct t (bm_id b))"
      then show "x \<in> set (ct_items ct) \<and> (bm_product_id b, bi_component_id x) \<in> made_of ct t"
        using b' by (auto simp: set_bom_lines made_of_def)
    next
      fix q
      assume "q \<in> set (path @ [bi_component_id l])"
      then show "(q, bm_product_id b) \<in> (made_of ct t)\<^sup>*"
        using "2.prems"(5) [of q] edge b'(4) by (auto intro: rtrancl_into_rtrancl)
    qed
  next
    case rest': rest
    show ?thesis
      by (rule "2.IH"(2) [OF refl refl below rest "2.prems"(2,3) _ "2.prems"(5) rest' "2.prems"(7)]) (use "2.prems"(4) in auto)
  qed
qed simp

lemma set_foldl_add_leaf: "fst ` set (foldl add_leaf acc es) = fst ` set acc \<union> (bi_component_id \<circ> ex_line) ` set es"
proof (induction es arbitrary: acc)
  case (Cons e es)
  have "fst ` set (add_leaf acc e) = insert (bi_component_id (ex_line e)) (fst ` set acc)"
    by (auto simp: add_leaf_def Let_def image_iff split: if_splits) force+
  with Cons show ?case by auto
qed simp

lemma fst_leaves_of: "fst ` set (leaves_of es) = (bi_component_id \<circ> ex_line) ` {e \<in> set es. \<not> ex_has_bom e}"
  by (auto simp: leaves_of_def set_foldl_add_leaf)

lemma explode_Inr:
  assumes "explode_bill_of_materials ct t i q with_stock facility_id = Inr x" and "bom_or_404 ct t i = Inr b"
  obtains r es where "walk_lines ct t 1 [bm_product_id b] (bm_product_id b) r (bom_lines ct t (bm_id b)) = Inr es"
    and "map lf_product (xp_leaves x) = map fst (leaves_of es)" and "map lf_required (xp_leaves x) = map (snd \<circ> snd) (leaves_of es)"
proof -
  from assms(1) obtain r es u where
    walk: "walk_lines ct t 1 [bm_product_id b] (bm_product_id b) r (bom_lines ct t (bm_id b)) = Inr es"
    and x: "bindE u (\<lambda>_ :: unit. let atp = (\<lambda>i. if with_stock then Some (atp_of ct t facility_id i) else None) in
     Inr \<lparr>xp_bom_id = bm_id b, xp_product_id = bm_product_id b,
       xp_lines = map (\<lambda>e. \<lparr>er_level = ex_level e, er_parent = ex_parent e, er_component = bi_component_id (ex_line e),
         er_unit = bi_unit (ex_line e), er_required = round4 (ex_required e), er_has_bom = ex_has_bom e,
         er_available = atp (bi_component_id (ex_line e))\<rparr>) es,
       xp_leaves = map (\<lambda>(i, unit, q). \<lparr>lf_product = i, lf_unit = unit, lf_required = q, lf_available = atp i,
         lf_shortage = map_option (\<lambda>x. round4 (max 0 (q - x))) (atp i)\<rparr>) (leaves_of es)\<rparr>) = Inr x"
    unfolding explode_bill_of_materials_def assms(2) bindE.simps by (subst (asm) (1 2) bindE_Inr_iff) blast
  from x have "xp_leaves x = map (\<lambda>(i, unit, q). \<lparr>lf_product = i, lf_unit = unit, lf_required = q,
      lf_available = (if with_stock then Some (atp_of ct t facility_id i) else None),
      lf_shortage = map_option (\<lambda>x. round4 (max 0 (q - x))) (if with_stock then Some (atp_of ct t facility_id i) else None)\<rparr>) (leaves_of es)"
    by (cases u) (auto simp: Let_def)
  then show ?thesis by (intro that [OF walk]) (simp_all add: case_prod_beta comp_def)
qed

text \<open>The explosion of an active recipe lists as materials only things that are not made: while active
  recipes have no loop, no listed material has an active recipe of its own.\<close>

theorem materials_are_not_made:
  assumes "sound_catalog ct" and "acyclic (made_of ct t)" and "bom_or_404 ct t i = Inr bom" and "bm_status bom = ''active''"
    and "explode_bill_of_materials ct t i q with_stock facility_id = Inr x" and "leaf \<in> set (xp_leaves x)"
  shows "active_bom_for ct t (lf_product leaf) = None"
proof -
  from explode_Inr [OF assms(5,3)] obtain r es where
    walk: "walk_lines ct t 1 [bm_product_id bom] (bm_product_id bom) r (bom_lines ct t (bm_id bom)) = Inr es"
    and "map lf_product (xp_leaves x) = map fst (leaves_of es)" by blast
  then have x: "lf_product ` set (xp_leaves x) = fst ` set (leaves_of es)" by (metis set_map)
  from assms(6) have "lf_product leaf \<in> lf_product ` set (xp_leaves x)" by (rule imageI)
  then have "lf_product leaf \<in> (bi_component_id \<circ> ex_line) ` {e \<in> set es. \<not> ex_has_bom e}" unfolding x fst_leaves_of .
  then obtain e where e: "e \<in> set es" "\<not> ex_has_bom e" "lf_product leaf = bi_component_id (ex_line e)" by auto
  have bom: "bom \<in> set (ct_boms ct)" "bm_tenant_id bom = t" using bom_or_404_Inr [OF assms(3)] by simp_all
  show ?thesis
    unfolding e(3)
    by (rule walk_lines_leaf [OF walk assms(1,2) _ _ e(1,2)])
      (use bom assms(4) in \<open>auto simp: set_bom_lines made_of_def\<close>)
qed

theorem materials_are_not_made_witness:
  "active_bom_for (run_recipes page_of_recipe workshop workshop_day) ''t'' ''bolt'' = None"
proof -
  let ?ct = "run_recipes page_of_recipe workshop workshop_day"
  have calm: "list_all (\<lambda>(a, e). calm (db_uuid_in (ct_db workshop)) e) workshop_day"
    by (simp add: workshop_day_def workshop_def blank_db_def recipe_def)
  have sound: "sound_catalog ?ct" "acyclic (made_of ?ct ''t'')"
    using run_recipes_keeps [OF workshop_sound(1) workshop_sound(2) calm] by simp_all
  have "(case bom_or_404 ?ct ''t'' ''x'' of Inl _ \<Rightarrow> False | Inr b \<Rightarrow> bm_status b = ''active'')" by code_simp
  then obtain b where b: "bom_or_404 ?ct ''t'' ''x'' = Inr b" "bm_status b = ''active''" by (auto split: sum.splits)
  have "(case explode_bill_of_materials ?ct ''t'' ''x'' 10 False None of Inl _ \<Rightarrow> False
      | Inr x \<Rightarrow> ''bolt'' \<in> lf_product ` set (xp_leaves x))" by code_simp
  then obtain x leaf where x: "explode_bill_of_materials ?ct ''t'' ''x'' 10 False None = Inr x" "leaf \<in> set (xp_leaves x)" "lf_product leaf = ''bolt''"
    by (auto split: sum.splits)
  from materials_are_not_made [OF sound b x(1,2)] x(3) show ?thesis by simp
qed

subsection \<open>How exact the sums are\<close>

lemma round4_error: "\<bar>round4 x - x\<bar> \<le> 1 / 20000"
proof -
  define n where "n = \<lfloor>x * 10000\<rfloor>"
  define d where "d = x * 10000 - of_int n"
  have d: "0 \<le> d" "d < 1" unfolding d_def n_def by linarith+
  have x: "x = (of_int n + d) / 10000" by (simp add: d_def)
  have "round4 x = of_int (if d < 1 / 2 then n else if 1 / 2 < d then n + 1 else if even n then n else n + 1) / 10000"
    by (simp add: round4_def Let_def n_def d_def)
  then consider "round4 x = of_int n / 10000" "d \<le> 1 / 2" | "round4 x = (of_int n + 1) / 10000" "1 / 2 \<le> d"
    by (auto split: if_splits)
  then show ?thesis
  proof cases
    case 1
    then have "round4 x - x = - d / 10000" by (simp add: x field_simps)
    with 1 d show ?thesis by simp
  next
    case 2
    then have "round4 x - x = (1 - d) / 10000" by (simp add: x field_simps)
    with 2 d show ?thesis by simp
  qed
qed

definition of_product :: "uuid \<Rightarrow> exploded list \<Rightarrow> exploded list" where
  "of_product i es = filter (\<lambda>e. \<not> ex_has_bom e \<and> bi_component_id (ex_line e) = i) es"

lemma of_product_append [simp]: "of_product i (es @ es') = of_product i es @ of_product i es'"
  by (simp add: of_product_def)

lemma leaves_of_snoc: "leaves_of (es @ [e]) = (if ex_has_bom e then leaves_of es else add_leaf (leaves_of es) e)"
  by (simp add: leaves_of_def)

lemma one_more_rounding:
  assumes "\<bar>q - s\<bar> \<le> of_nat n / 20000"
  shows "\<bar>round4 (q + r) - (s + r)\<bar> \<le> of_nat (Suc n) / 20000"
proof -
  have "round4 (q + r) - (s + r) = (round4 (q + r) - (q + r)) + (q - s)" by simp
  also have "\<bar>\<dots>\<bar> \<le> 1 / 20000 + of_nat n / 20000" using round4_error [of "q + r"] assms by linarith
  finally show ?thesis by (simp add: add_divide_distrib)
qed

lemma leaf_sums:
  "list_all (\<lambda>(i, unit, q). \<bar>q - sum_list (map ex_required (of_product i es))\<bar> \<le> of_nat (length (of_product i es)) / 20000)
      (leaves_of es) \<and> distinct (map fst (leaves_of es))"
proof (induction es rule: rev_induct)
  case Nil
  then show ?case by (simp add: leaves_of_def)
next
  case (snoc e es)
  let ?i = "bi_component_id (ex_line e)"
  show ?case
  proof (cases "ex_has_bom e")
    case True
    with snoc show ?thesis by (simp add: leaves_of_snoc of_product_def [of _ "[e]"])
  next
    case False
    have at: "of_product j [e] = (if ?i = j then [e] else [])" for j using False by (simp add: of_product_def)
    show ?thesis
    proof (cases "?i \<in> fst ` set (leaves_of es)")
      case True
      then have leaves: "leaves_of (es @ [e]) = map (\<lambda>(j, unit, q). (j, unit, if j = ?i then round4 (q + ex_required e) else q)) (leaves_of es)"
        using False by (simp add: leaves_of_snoc add_leaf_def)
      have "map fst (leaves_of (es @ [e])) = map fst (leaves_of es)" unfolding leaves by (simp add: case_prod_unfold comp_def)
      moreover have "\<bar>(if j = ?i then round4 (q + ex_required e) else q) - sum_list (map ex_required (of_product j (es @ [e])))\<bar>
          \<le> of_nat (length (of_product j (es @ [e]))) / 20000" if "(j, unit, q) \<in> set (leaves_of es)" for j unit q
      proof -
        have "\<bar>q - sum_list (map ex_required (of_product j es))\<bar> \<le> of_nat (length (of_product j es)) / 20000"
          using snoc that by (auto simp: list_all_iff)
        from one_more_rounding [OF this, of "ex_required e"] this show ?thesis by (simp add: at)
      qed
      then have bound: "\<forall>z \<in> set (leaves_of es). \<bar>(if fst z = ?i then round4 (snd (snd z) + ex_required e) else snd (snd z)) -
          sum_list (map ex_required (of_product (fst z) (es @ [e])))\<bar> \<le> of_nat (length (of_product (fst z) (es @ [e]))) / 20000"
        by (metis prod.collapse)
      have "list_all (\<lambda>(i, unit, q). \<bar>q - sum_list (map ex_required (of_product i (es @ [e])))\<bar>
          \<le> of_nat (length (of_product i (es @ [e]))) / 20000) (leaves_of (es @ [e]))"
        unfolding leaves list_all_iff case_prod_unfold set_map ball_simps using bound by (simp only: fst_conv snd_conv)
      with calculation snoc show ?thesis by simp
    next
      case new: False
      have "of_product ?i es = []"
        unfolding of_product_def filter_empty_conv
      proof (intro ballI notI)
        fix x
        assume "x \<in> set es" "\<not> ex_has_bom x \<and> bi_component_id (ex_line x) = ?i"
        then have "?i \<in> (bi_component_id \<circ> ex_line) ` {e \<in> set es. \<not> ex_has_bom e}"
          by (intro image_eqI [of _ _ x]) simp_all
        with new show False unfolding fst_leaves_of by contradiction
      qed
      then have "\<bar>round4 (0 + ex_required e) - sum_list (map ex_required (of_product ?i (es @ [e])))\<bar> \<le> 1 / 20000"
        using round4_error [of "ex_required e"] by (simp add: at)
      moreover have "(?i, unit, q) \<notin> set (leaves_of es)" for unit q using new by force
      then have "list_all (\<lambda>(i, unit, q). \<bar>q - sum_list (map ex_required (of_product i (es @ [e])))\<bar>
          \<le> of_nat (length (of_product i (es @ [e]))) / 20000) (leaves_of es)"
        using snoc by (intro list.pred_mono_strong [OF snoc.IH [THEN conjunct1]]) (auto simp: at)
      moreover have "leaves_of (es @ [e]) = leaves_of es @ [(?i, bi_unit (ex_line e), round4 (0 + ex_required e))]"
        using new False by (simp add: leaves_of_snoc add_leaf_def)
      ultimately show ?thesis using snoc new by (simp add: at \<open>of_product ?i es = []\<close>)
    qed
  qed
qed

text \<open>The requirement an explosion reports for a material is the sum of what its lines need, exact up to
  half of the fourth decimal per line; each material is reported once and every one is.\<close>

theorem material_sums_are_exact_to_rounding:
  "list_all (\<lambda>(i, unit, q). \<bar>q - sum_list (map ex_required (of_product i es))\<bar> \<le> of_nat (length (of_product i es)) / 20000)
     (leaves_of es) \<and>
   distinct (map fst (leaves_of es)) \<and>
   fst ` set (leaves_of es) = (bi_component_id \<circ> ex_line) ` {e \<in> set es. \<not> ex_has_bom e}"
  using leaf_sums [of es] fst_leaves_of [of es] by simp

end
