(* ===== verification/Bookings.thy ===== *)
theory Bookings
  imports Visibility "HOL-Library.Product_Lexorder" "HOL-Library.Multiset"
begin

text \<open>
  Bookable resources (\<open>app/api/resources.py\<close>): an exclusive resource has one booking at a time, a shared one
  as many as its quantity carries at every instant. Instants are integers and intervals are half open; a
  time without an offset is UTC (\<open>_aware\<close>), which the request's times are taken to be already.
\<close>

record resource =
  rs_id :: uuid
  rs_tenant_id :: uuid
  rs_code :: "string option"
  rs_booking_mode :: string
  rs_max_quantity :: "nat option"
  rs_status :: string

record booking =
  bk_id :: uuid
  bk_tenant_id :: uuid
  bk_resource_id :: uuid
  bk_employee_id :: uuid
  bk_title :: string
  bk_start :: timestamp
  bk_end :: timestamp
  bk_quantity :: nat
  bk_status :: string
  bk_cancelled_at :: "timestamp option"
  bk_cancelled_by :: "string option"

record calendar =
  cl_db :: db
  cl_resources :: "resource list"
  cl_bookings :: "booking list"

subsection \<open>The scheduling model\<close>

definition ensure_resource_active :: "resource \<Rightarrow> unit result" where
  "ensure_resource_active r = ensure (rs_status r = ''active'') 409 ''resource_is_not_available''"

definition overlaps :: "uuid \<Rightarrow> uuid \<Rightarrow> timestamp \<Rightarrow> timestamp \<Rightarrow> uuid option \<Rightarrow> booking \<Rightarrow> bool" where
  "overlaps tenant_id resource_id start_at end_at exclude_id b \<longleftrightarrow>
     bk_tenant_id b = tenant_id \<and> bk_resource_id b = resource_id \<and> bk_status b = ''confirmed'' \<and> bk_cancelled_at b = None \<and>
     bk_start b < end_at \<and> start_at < bk_end b \<and> Some (bk_id b) \<noteq> exclude_id"

definition get_overlapping_bookings ::
    "calendar \<Rightarrow> uuid \<Rightarrow> uuid \<Rightarrow> timestamp \<Rightarrow> timestamp \<Rightarrow> uuid option \<Rightarrow> booking list" where
  "get_overlapping_bookings cl tenant_id resource_id start_at end_at exclude_id =
     sort_key bk_start (filter (overlaps tenant_id resource_id start_at end_at exclude_id) (cl_bookings cl))"

text \<open>A take and a release of the sweep: when, releases (0) before takes (1), by how much.\<close>

definition endpoint_events :: "timestamp \<Rightarrow> timestamp \<Rightarrow> booking \<Rightarrow> (timestamp \<times> nat \<times> int) list" where
  "endpoint_events start_at end_at b =
     (let take_at = max (bk_start b) start_at; release_at = min (bk_end b) end_at in
      if release_at \<le> take_at then []
      else [(take_at, 1, int (bk_quantity b)), (release_at, 0, - int (bk_quantity b))])"

fun sweep :: "int \<times> int \<Rightarrow> (timestamp \<times> nat \<times> int) list \<Rightarrow> int" where
  "sweep (held, peak) [] = peak"
| "sweep (held, peak) ((_, _, delta) # es) = sweep (held + delta, max peak (held + delta)) es"

definition event_key :: "timestamp \<times> nat \<times> int \<Rightarrow> timestamp \<times> nat" where
  "event_key = (\<lambda>(moment, kind, delta). (moment, kind))"

definition peak_concurrent_quantity :: "booking list \<Rightarrow> timestamp \<Rightarrow> timestamp \<Rightarrow> int" where
  "peak_concurrent_quantity bookings start_at end_at =
     sweep (0, 0) (sort_key event_key (concat (map (endpoint_events start_at end_at) bookings)))"

definition max_quantity_of :: "resource \<Rightarrow> nat" where
  "max_quantity_of r = (case rs_max_quantity r of None \<Rightarrow> 1 | Some n \<Rightarrow> if n = 0 then 1 else n)"

definition validate_resource_booking ::
    "calendar \<Rightarrow> uuid \<Rightarrow> resource \<Rightarrow> timestamp \<Rightarrow> timestamp \<Rightarrow> nat \<Rightarrow> uuid option \<Rightarrow> booking list result" where
  "validate_resource_booking cl tenant_id r start_at end_at quantity exclude_id =
     (let found = get_overlapping_bookings cl tenant_id (rs_id r) start_at end_at exclude_id in
      if rs_booking_mode r = ''exclusive''
      then bindE (ensure (found = []) 409 ''resource_is_already_booked'') (\<lambda>_. Inr found)
      else bindE (ensure (peak_concurrent_quantity found start_at end_at + int quantity \<le> int (max_quantity_of r)) 409
                    ''resource_quantity_is_unavailable'') (\<lambda>_. Inr found))"

record availability =
  av_available :: bool
  av_available_quantity :: int
  av_conflicting :: "uuid list"

definition build_resource_availability ::
    "calendar \<Rightarrow> uuid \<Rightarrow> resource \<Rightarrow> timestamp \<Rightarrow> timestamp \<Rightarrow> uuid option \<Rightarrow> availability" where
  "build_resource_availability cl tenant_id r start_at end_at exclude_id =
     (let found = get_overlapping_bookings cl tenant_id (rs_id r) start_at end_at exclude_id;
          q = (if rs_booking_mode r = ''exclusive'' then (if found = [] then 1 else 0)
               else max (int (max_quantity_of r) - peak_concurrent_quantity found start_at end_at) 0)
      in \<lparr>av_available = (if rs_booking_mode r = ''exclusive'' then found = [] else 0 < q), av_available_quantity = q,
          av_conflicting = map bk_id found\<rparr>)"

subsection \<open>Resources\<close>

definition scoped_resource :: "calendar \<Rightarrow> uuid \<Rightarrow> uuid \<Rightarrow> resource result" where
  "scoped_resource cl tenant_id i =
     (case find_row (\<lambda>r. rs_id r = i) (cl_resources cl) of
        None \<Rightarrow> Inl (HttpError 404 ''not_found'')
      | Some r \<Rightarrow> if rs_tenant_id r \<noteq> tenant_id then Inl (HttpError 404 ''not_found'') else Inr r)"

text \<open>\<open>commit_or_code_conflict\<close>: a taken code is a 409, except the empty one, whose error passes on.\<close>

definition commit_resource_code :: "resource list \<Rightarrow> resource \<Rightarrow> unit result" where
  "commit_resource_code rs r =
     (if rs_code r \<noteq> None \<and> list_ex (\<lambda>x. rs_id x \<noteq> rs_id r \<and> rs_tenant_id x = rs_tenant_id r \<and> rs_code x = rs_code r) rs
      then if rs_code r = Some [] then Inl (HttpError 500 ''IntegrityError'') else Inl (HttpError 409 ''code_already_belongs_to_another'')
      else Inr ())"

record resource_request =
  rr_code :: "string option"
  rr_booking_mode :: string
  rr_max_quantity :: "nat option"
  rr_status :: string

definition create_resource :: "calendar \<Rightarrow> actor \<Rightarrow> resource_request \<Rightarrow> (resource \<times> calendar) result" where
  "create_resource cl a p =
     bindE (require_master_data_manage a) (\<lambda>_.
     let r = \<lparr>rs_id = fresh_id (cl_db cl), rs_tenant_id = ac_tenant_id a, rs_code = rr_code p,
           rs_booking_mode = rr_booking_mode p, rs_max_quantity = rr_max_quantity p, rs_status = rr_status p\<rparr>
     in bindE (commit_resource_code (cl_resources cl) r) (\<lambda>_.
        Inr (r, cl\<lparr>cl_db := tick (cl_db cl), cl_resources := cl_resources cl @ [r]\<rparr>)))"

record resource_update =
  ru_code :: "string option option"
  ru_booking_mode :: "string option"
  ru_max_quantity :: "nat option option"
  ru_status :: "string option"

definition updated_resource :: "resource_update \<Rightarrow> resource \<Rightarrow> resource" where
  "updated_resource u r = r\<lparr>
     rs_code := (case ru_code u of None \<Rightarrow> rs_code r | Some c \<Rightarrow> c),
     rs_booking_mode := (case ru_booking_mode u of None \<Rightarrow> rs_booking_mode r | Some m \<Rightarrow> m),
     rs_max_quantity := (case ru_max_quantity u of None \<Rightarrow> rs_max_quantity r | Some q \<Rightarrow> q),
     rs_status := (case ru_status u of None \<Rightarrow> rs_status r | Some s \<Rightarrow> s)\<rparr>"

definition update_resource :: "calendar \<Rightarrow> actor \<Rightarrow> uuid \<Rightarrow> resource_update \<Rightarrow> calendar result" where
  "update_resource cl a i u =
     bindE (require_master_data_manage a) (\<lambda>_.
     bindE (scoped_resource cl (ac_tenant_id a) i) (\<lambda>r.
     bindE (commit_resource_code (cl_resources cl) (updated_resource u r)) (\<lambda>_.
     Inr (cl\<lparr>cl_resources := update_rows (\<lambda>x. rs_id x = i) (updated_resource u) (cl_resources cl)\<rparr>))))"

definition delete_resource :: "calendar \<Rightarrow> actor \<Rightarrow> uuid \<Rightarrow> calendar result" where
  "delete_resource cl a i =
     bindE (require_master_data_manage a) (\<lambda>_.
     bindE (scoped_resource cl (ac_tenant_id a) i) (\<lambda>r.
     Inr (cl\<lparr>cl_resources := update_rows (\<lambda>x. rs_id x = i) (\<lambda>x. x\<lparr>rs_status := ''archived''\<rparr>) (cl_resources cl)\<rparr>)))"

definition get_resource_availability :: "calendar \<Rightarrow> uuid \<Rightarrow> uuid \<Rightarrow> timestamp \<Rightarrow> timestamp \<Rightarrow> availability result" where
  "get_resource_availability cl tenant_id i start_at end_at =
     bindE (ensure (start_at < end_at) 400 ''end_at_must_be_greater_than_start_at'') (\<lambda>_.
     bindE (scoped_resource cl tenant_id i) (\<lambda>r.
     Inr (build_resource_availability cl tenant_id r start_at end_at None)))"

subsection \<open>Bookings\<close>

definition scoped_booking :: "calendar \<Rightarrow> uuid \<Rightarrow> uuid \<Rightarrow> booking result" where
  "scoped_booking cl tenant_id i =
     (case find_row (\<lambda>b. bk_id b = i) (cl_bookings cl) of
        None \<Rightarrow> Inl (HttpError 404 ''not_found'')
      | Some b \<Rightarrow> if bk_tenant_id b \<noteq> tenant_id then Inl (HttpError 404 ''not_found'') else Inr b)"

record booking_request =
  bq_resource_id :: uuid
  bq_employee_id :: uuid
  bq_title :: string
  bq_start :: timestamp
  bq_end :: timestamp
  bq_quantity :: nat
  bq_status :: string

text \<open>\<open>validate_booking_period\<close> of the request model comes before the handler.\<close>

definition create_resource_booking :: "calendar \<Rightarrow> actor \<Rightarrow> booking_request \<Rightarrow> (booking \<times> calendar) result" where
  "create_resource_booking cl a p =
     (let tenant_id = ac_tenant_id a in
      bindE (ensure (bq_start p < bq_end p \<and> 1 \<le> bq_quantity p) 422 ''end_at_must_be_greater_than_start_at'') (\<lambda>_.
      bindE (require_permission a ''booking.own'' None) (\<lambda>_.
      bindE (scoped_resource cl tenant_id (bq_resource_id p)) (\<lambda>r.
      bindE (ensure_resource_active r) (\<lambda>_.
      bindE (get_scoped_or_404 (cl_db cl) Employee tenant_id (bq_employee_id p)) (\<lambda>_.
      bindE (enforce_member_employee a (Some (bq_employee_id p))) (\<lambda>_.
      bindE (validate_resource_booking cl tenant_id r (bq_start p) (bq_end p) (bq_quantity p) None) (\<lambda>_.
      let b = \<lparr>bk_id = fresh_id (cl_db cl), bk_tenant_id = tenant_id, bk_resource_id = bq_resource_id p,
            bk_employee_id = bq_employee_id p, bk_title = bq_title p, bk_start = bq_start p, bk_end = bq_end p,
            bk_quantity = bq_quantity p, bk_status = bq_status p, bk_cancelled_at = None, bk_cancelled_by = None\<rparr>
      in Inr (b, cl\<lparr>cl_db := record_audit tenant_id ''booking.created'' ''resource_booking'' (bk_id b) (Some (label a)) (tick (cl_db cl)),
                    cl_bookings := cl_bookings cl @ [b]\<rparr>)))))))))"

text \<open>Outer \<open>None\<close>: the field is absent; \<open>Some None\<close>: it is null.\<close>

record booking_update =
  bu_title :: "string option option"
  bu_start :: "timestamp option option"
  bu_end :: "timestamp option option"
  bu_quantity :: "nat option option"

definition merged :: "'a option option \<Rightarrow> 'a \<Rightarrow> 'a" where
  "merged u old = (case u of Some (Some x) \<Rightarrow> x | _ \<Rightarrow> old)"

definition updated_booking :: "booking_update \<Rightarrow> booking \<Rightarrow> booking" where
  "updated_booking u b = b\<lparr>bk_title := merged (bu_title u) (bk_title b), bk_start := merged (bu_start u) (bk_start b),
     bk_end := merged (bu_end u) (bk_end b), bk_quantity := merged (bu_quantity u) (bk_quantity b)\<rparr>"

text \<open>A PATCH reads the booking, then waits for the lock of the resource, and does not read the booking again: what it
  judges is the booking as it was read.\<close>

definition booking_to_change :: "calendar \<Rightarrow> actor \<Rightarrow> uuid \<Rightarrow> booking_update \<Rightarrow> booking result" where
  "booking_to_change cl a i u =
     bindE (ensure (bu_quantity u \<noteq> Some (Some 0) \<and> (case (bu_start u, bu_end u) of
              (Some (Some s), Some (Some e)) \<Rightarrow> s < e | _ \<Rightarrow> True)) 422 ''validation_error'') (\<lambda>_.
     bindE (scoped_booking cl (ac_tenant_id a) i) (\<lambda>b.
     bindE (require_permission a ''booking.own'' None) (\<lambda>_.
     bindE (ensure (bk_status b \<noteq> ''cancelled'') 409 ''cancelled_booking_cannot_be_changed'') (\<lambda>_.
     bindE (enforce_member_employee a (Some (bk_employee_id b))) (\<lambda>_. Inr b)))))"

definition change_under_lock :: "calendar \<Rightarrow> actor \<Rightarrow> booking \<Rightarrow> booking_update \<Rightarrow> calendar result" where
  "change_under_lock cl a b u =
     (let tenant_id = ac_tenant_id a in
      bindE (scoped_resource cl tenant_id (bk_resource_id b)) (\<lambda>r.
      bindE (ensure_resource_active r) (\<lambda>_.
      bindE (ensure (bu_start u \<noteq> Some None \<and> bu_end u \<noteq> Some None \<and> bu_quantity u \<noteq> Some None \<and> bu_title u \<noteq> Some None)
               422 ''cannot_be_cleared'') (\<lambda>_.
      let start_at = merged (bu_start u) (bk_start b); end_at = merged (bu_end u) (bk_end b);
          quantity = merged (bu_quantity u) (bk_quantity b)
      in bindE (ensure (start_at < end_at) 422 ''end_at_must_be_after_start_at'') (\<lambda>_.
         bindE (validate_resource_booking cl tenant_id r start_at end_at quantity (Some (bk_id b))) (\<lambda>_.
         Inr (cl\<lparr>cl_bookings := update_rows (\<lambda>x. bk_id x = bk_id b) (updated_booking u) (cl_bookings cl)\<rparr>)))))))"

definition update_resource_booking :: "calendar \<Rightarrow> actor \<Rightarrow> uuid \<Rightarrow> booking_update \<Rightarrow> calendar result" where
  "update_resource_booking cl a i u = bindE (booking_to_change cl a i u) (\<lambda>b. change_under_lock cl a b u)"

definition delete_resource_booking :: "timestamp \<Rightarrow> calendar \<Rightarrow> actor \<Rightarrow> uuid \<Rightarrow> string option \<Rightarrow> calendar result" where
  "delete_resource_booking now cl a i cancelled_by =
     bindE (scoped_booking cl (ac_tenant_id a) i) (\<lambda>b.
     bindE (require_permission a ''booking.own'' None) (\<lambda>_.
     if bk_status b = ''cancelled'' then Inr cl
     else bindE (enforce_member_employee a (Some (bk_employee_id b))) (\<lambda>_.
       Inr (cl\<lparr>cl_db := record_audit (ac_tenant_id a) ''booking.cancelled'' ''resource_booking'' i (Some (label a)) (cl_db cl),
               cl_bookings := update_rows (\<lambda>x. bk_id x = i)
                 (\<lambda>x. x\<lparr>bk_status := ''cancelled'', bk_cancelled_at := Some now, bk_cancelled_by := Some (attributed a cancelled_by)\<rparr>)
                 (cl_bookings cl)\<rparr>))))"

subsection \<open>The sweep finds the peak\<close>

text \<open>What is in use at an instant.\<close>

definition in_use :: "booking list \<Rightarrow> timestamp \<Rightarrow> int" where
  "in_use bs t = sum_where (\<lambda>b. bk_start b \<le> t \<and> t < bk_end b) (\<lambda>b. int (bk_quantity b)) bs"

definition deltas :: "(timestamp \<times> nat \<times> int) list \<Rightarrow> int" where
  "deltas es = sum_list (map (snd \<circ> snd) es)"

lemma deltas_simps [simp]: "deltas [] = 0" "deltas (e # es) = snd (snd e) + deltas es" "deltas (es @ es') = deltas es + deltas es'"
  by (simp_all add: deltas_def)

lemma sweep_le: "peak \<le> sweep (held, peak) es"
proof (induction es arbitrary: held peak)
  case (Cons e es)
  obtain m k d where e: "e = (m, k, d)" by (cases e)
  have "peak \<le> max peak (held + d)" by simp
  also have "\<dots> \<le> sweep (held + d, max peak (held + d)) es" by (rule Cons.IH)
  finally show ?case by (simp add: e)
qed simp

lemma sweep_prefix: "held \<le> peak \<Longrightarrow> held + deltas p \<le> sweep (held, peak) (p @ es)"
proof (induction p arbitrary: held peak)
  case Nil
  then show ?case using sweep_le [of peak held es] by simp
next
  case (Cons e p)
  obtain m k d where e: "e = (m, k, d)" by (cases e)
  have "held + d + deltas p \<le> sweep (held + d, max peak (held + d)) (p @ es)" by (rule Cons.IH) simp
  then show ?case by (simp add: e add.assoc)
qed

lemma sweep_attained: "sweep (held, peak) es = peak \<or> (\<exists>p q. es = p @ q \<and> sweep (held, peak) es = held + deltas p)"
proof (induction es arbitrary: held peak)
  case (Cons e es)
  obtain m k d where e: "e = (m, k, d)" by (cases e)
  from Cons.IH [of "held + d" "max peak (held + d)"]
  consider "sweep (held + d, max peak (held + d)) es = max peak (held + d)"
    | p q where "es = p @ q" "sweep (held + d, max peak (held + d)) es = held + d + deltas p" by blast
  then show ?case
  proof cases
    case 1
    show ?thesis
    proof (cases "peak \<le> held + d")
      case True
      with 1 have "sweep (held, peak) (e # es) = held + deltas [e]" by (simp add: e)
      moreover have "e # es = [e] @ es" by simp
      ultimately show ?thesis by blast
    qed (use 1 in \<open>simp add: e\<close>)
  next
    case (2 p q)
    then have "e # es = (e # p) @ q" "sweep (held, peak) (e # es) = held + deltas (e # p)" by (simp_all add: e)
    then show ?thesis by blast
  qed
qed simp

text \<open>The events up to an instant add up to what is in use then.\<close>

lemma deltas_concat: "deltas (filter P (concat (map f bs))) = sum_list (map (\<lambda>b. deltas (filter P (f b))) bs)"
  by (induction bs) simp_all

lemma events_of_booking:
  assumes "s \<le> t" and "t < e"
  shows "deltas (filter (\<lambda>x. fst x \<le> t) (endpoint_events s e b)) = (if bk_start b \<le> t \<and> t < bk_end b then int (bk_quantity b) else 0)"
  using assms by (auto simp: endpoint_events_def Let_def)

lemma deltas_upto:
  assumes "s \<le> t" and "t < e"
  shows "deltas (filter (\<lambda>x. fst x \<le> t) (concat (map (endpoint_events s e) bs))) = in_use bs t"
  unfolding deltas_concat events_of_booking [OF assms] in_use_def sum_where_def by (induction bs) simp_all

lemma deltas_sort: "deltas (filter P (sort_key k es)) = deltas (filter P es)"
proof -
  have "mset (filter P (sort_key k es)) = mset (filter P es)" by (metis mset_filter mset_sort)
  then have "mset (map (snd \<circ> snd) (filter P (sort_key k es))) = mset (map (snd \<circ> snd) (filter P es))" by simp
  then show ?thesis unfolding deltas_def by (metis sum_mset_sum_list)
qed

definition sweep_events :: "booking list \<Rightarrow> timestamp \<Rightarrow> timestamp \<Rightarrow> (timestamp \<times> nat \<times> int) list" where
  "sweep_events bs s e = sort_key event_key (concat (map (endpoint_events s e) bs))"

lemma sweep_events_upto: "s \<le> t \<Longrightarrow> t < e \<Longrightarrow> deltas (filter (\<lambda>x. fst x \<le> t) (sweep_events bs s e)) = in_use bs t"
  unfolding sweep_events_def deltas_sort by (rule deltas_upto)

lemma sorted_events: "sorted_wrt (\<lambda>x y. event_key x \<le> event_key y) (sweep_events bs s e)"
  using sorted_sort_key [of event_key] by (simp add: sweep_events_def sorted_wrt_map)

lemma event_shape:
  assumes "x \<in> set (sweep_events bs s e)"
  shows "fst (snd x) = 0 \<and> snd (snd x) \<le> 0 \<or> fst (snd x) = 1 \<and> 0 \<le> snd (snd x) \<and> s \<le> fst x \<and> fst x < e"
  using assms by (auto simp: sweep_events_def endpoint_events_def Let_def split: if_splits)

lemma event_key_le: "event_key x \<le> event_key y \<longleftrightarrow> fst x < fst y \<or> fst x = fst y \<and> fst (snd x) \<le> fst (snd y)"
  by (cases x; cases y) (auto simp: event_key_def less_eq_prod_def)

lemma filter_sorted_prefix:
  assumes "sorted_wrt (\<lambda>x y. event_key x \<le> event_key y) es"
  shows "\<exists>q. es = filter (\<lambda>x. fst x \<le> t) es @ q"
  using assms
proof (induction es)
  case (Cons x es)
  show ?case
  proof (cases "fst x \<le> t")
    case True
    with Cons obtain q where "es = filter (\<lambda>x. fst x \<le> t) es @ q" by auto
    with True show ?thesis by auto
  next
    case False
    have "\<not> fst y \<le> t" if "y \<in> set es" for y
      using Cons.prems that False by (fastforce simp: event_key_le)
    then have "filter (\<lambda>x. fst x \<le> t) (x # es) = []" using False by (simp add: filter_empty_conv)
    then show ?thesis by simp
  qed
qed simp

text \<open>A prefix never holds more than is in use at some instant of the interval, or nothing.\<close>

lemma prefix_bounded:
  assumes "sweep_events bs s e = p @ q"
  shows "deltas p \<le> 0 \<or> (\<exists>t. s \<le> t \<and> t < e \<and> deltas p \<le> in_use bs t)"
  using assms
proof (induction p arbitrary: q rule: rev_induct)
  case (snoc x p)
  have x: "x \<in> set (sweep_events bs s e)" by (simp add: snoc.prems)
  from event_shape [OF x] show ?case
  proof
    assume "fst (snd x) = 0 \<and> snd (snd x) \<le> 0"
    moreover have "sweep_events bs s e = p @ (x # q)" using snoc.prems by simp
    note snoc.IH [OF this]
    ultimately show ?thesis by fastforce
  next
    assume take: "fst (snd x) = 1 \<and> 0 \<le> snd (snd x) \<and> s \<le> fst x \<and> fst x < e"
    let ?t = "fst x"
    have sorted: "sorted_wrt (\<lambda>x y. event_key x \<le> event_key y) ((p @ [x]) @ q)" using sorted_events [of bs s e] snoc.prems by simp
    have before: "filter (\<lambda>y. fst y \<le> ?t) (p @ [x]) = p @ [x]"
      using sorted by (fastforce simp: filter_id_conv sorted_wrt_append event_key_le)
    have "0 \<le> snd (snd y)" if "y \<in> set (filter (\<lambda>y. fst y \<le> ?t) q)" for y
    proof -
      have "event_key x \<le> event_key y" "fst y \<le> ?t" using sorted that by (auto simp: sorted_wrt_append)
      then have "1 \<le> fst (snd y)" using take by (auto simp: event_key_le)
      moreover have "y \<in> set (sweep_events bs s e)" using that snoc.prems by simp
      ultimately show ?thesis using event_shape [of y bs s e] by auto
    qed
    then have "0 \<le> deltas (filter (\<lambda>y. fst y \<le> ?t) q)" unfolding deltas_def by (intro sum_list_nonneg) auto
    then have "deltas (p @ [x]) \<le> deltas (filter (\<lambda>y. fst y \<le> ?t) ((p @ [x]) @ q))"
      unfolding filter_append [of _ "p @ [x]" q] before by simp
    also have "\<dots> = in_use bs ?t" using sweep_events_upto [of s ?t e bs] take snoc.prems by simp
    finally show ?thesis using take by blast
  qed
qed simp

lemma in_use_nonneg: "0 \<le> in_use bs t"
  unfolding in_use_def sum_where_def by (intro sum_list_nonneg) auto

lemma sweep_meets_peak:
  assumes "start_at < end_at"
  shows "peak_concurrent_quantity bs start_at end_at = Max (in_use bs ` {start_at..<end_at})"
proof (rule Max_eqI [symmetric])
  let ?es = "sweep_events bs start_at end_at"
  have peak: "peak_concurrent_quantity bs start_at end_at = sweep (0, 0) ?es"
    by (simp add: peak_concurrent_quantity_def sweep_events_def)
  show "finite (in_use bs ` {start_at..<end_at})" by simp
  show least: "y \<le> peak_concurrent_quantity bs start_at end_at" if "y \<in> in_use bs ` {start_at..<end_at}" for y
  proof -
    from that obtain t where t: "start_at \<le> t" "t < end_at" "y = in_use bs t" by auto
    obtain q where q: "?es = filter (\<lambda>x. fst x \<le> t) ?es @ q" using filter_sorted_prefix [OF sorted_events] by blast
    have "0 + deltas (filter (\<lambda>x. fst x \<le> t) ?es) \<le> sweep (0, 0) (filter (\<lambda>x. fst x \<le> t) ?es @ q)" by (rule sweep_prefix) simp
    then show ?thesis using q sweep_events_upto [OF t(1,2), of bs] t(3) by (simp add: peak)
  qed
  have start: "in_use bs start_at \<in> in_use bs ` {start_at..<end_at}" using assms by simp
  show "peak_concurrent_quantity bs start_at end_at \<in> in_use bs ` {start_at..<end_at}"
  proof -
    have zero: "sweep (0, 0) ?es \<le> 0 \<Longrightarrow> ?thesis"
    proof -
      assume "sweep (0, 0) ?es \<le> 0"
      with least [OF start] in_use_nonneg [of bs start_at] have "peak_concurrent_quantity bs start_at end_at = in_use bs start_at"
        unfolding peak by linarith
      with start show ?thesis by simp
    qed
    from sweep_attained [of 0 0 ?es] show ?thesis
    proof
      assume "\<exists>p q. ?es = p @ q \<and> sweep (0, 0) ?es = 0 + deltas p"
      then obtain p q where pq: "?es = p @ q" "sweep (0, 0) ?es = deltas p" by auto
      from prefix_bounded [OF pq(1)] show ?thesis
      proof
        assume "\<exists>t. start_at \<le> t \<and> t < end_at \<and> deltas p \<le> in_use bs t"
        then obtain t where t: "start_at \<le> t" "t < end_at" "deltas p \<le> in_use bs t" by blast
        with least [of "in_use bs t"] pq(2) have "peak_concurrent_quantity bs start_at end_at = in_use bs t" by (simp add: peak)
        with t show ?thesis by auto
      qed (use zero pq in simp)
    qed (use zero in simp)
  qed
qed

text \<open>C38: The sweep over the endpoints finds exactly the most that is in use at any one instant of the
  interval: no instant needs more, and some instant needs that much.\<close>

theorem the_sweep_finds_the_peak:
  assumes "start_at < end_at"
  shows "peak_concurrent_quantity bs start_at end_at = Max (in_use bs ` {start_at..<end_at})"
  using assms by (rule sweep_meets_peak)

theorem the_sweep_finds_the_peak_witness:
  "let bookings = map (\<lambda>(s, e). \<lparr>bk_id = [], bk_tenant_id = [], bk_resource_id = [], bk_employee_id = [], bk_title = [], bk_start = s,
       bk_end = e, bk_quantity = 1, bk_status = ''confirmed'', bk_cancelled_at = None, bk_cancelled_by = None\<rparr>) [(9, 10), (10, 11)]
   in peak_concurrent_quantity bookings 9 11 = 1 \<and> Max (in_use bookings ` {9..<11}) = 1"
proof -
  let ?bs = "map (\<lambda>(s, e). \<lparr>bk_id = [], bk_tenant_id = [], bk_resource_id = [], bk_employee_id = [], bk_title = [], bk_start = s,
       bk_end = e, bk_quantity = 1, bk_status = ''confirmed'', bk_cancelled_at = None, bk_cancelled_by = None\<rparr>) [(9, 10), (10, 11)]"
  have "peak_concurrent_quantity ?bs 9 11 = 1" by code_simp
  with the_sweep_finds_the_peak [of 9 11 ?bs] show ?thesis by (simp add: Let_def)
qed

end
