(* ===== verification/Booking_History.thy ===== *)
theory Booking_History
  imports Bookings
begin

text \<open>
  No instant of a resource is overbooked, whatever bookings are made, moved and cancelled, as long as the
  mode and the quantity of a resource stay what they were when it was booked.
\<close>

definition standing_booking :: "booking \<Rightarrow> bool" where
  "standing_booking b \<longleftrightarrow> bk_status b = ''confirmed'' \<and> bk_cancelled_at b = None"

definition on_resource :: "resource \<Rightarrow> booking \<Rightarrow> bool" where
  "on_resource r b \<longleftrightarrow> bk_tenant_id b = rs_tenant_id r \<and> bk_resource_id b = rs_id r"

definition covers_instant :: "timestamp \<Rightarrow> booking \<Rightarrow> bool" where
  "covers_instant t b \<longleftrightarrow> bk_start b \<le> t \<and> t < bk_end b"

text \<open>An exclusive resource carries one booking, whatever its quantity; a shared one its quantity.\<close>

definition weight :: "resource \<Rightarrow> booking \<Rightarrow> int" where
  "weight r b = (if rs_booking_mode r = ''exclusive'' then 1 else int (bk_quantity b))"

definition carries :: "resource \<Rightarrow> int" where
  "carries r = (if rs_booking_mode r = ''exclusive'' then 1 else int (max_quantity_of r))"

definition load :: "resource \<Rightarrow> timestamp \<Rightarrow> booking list \<Rightarrow> int" where
  "load r t bs = sum_where (\<lambda>b. standing_booking b \<and> on_resource r b \<and> covers_instant t b) (weight r) bs"

definition never_overbooked :: "calendar \<Rightarrow> bool" where
  "never_overbooked cl \<longleftrightarrow> (\<forall>r \<in> set (cl_resources cl). \<forall>t. load r t (cl_bookings cl) \<le> carries r)"

definition sound_calendar :: "calendar \<Rightarrow> bool" where
  "sound_calendar cl \<longleftrightarrow> distinct (map rs_id (cl_resources cl)) \<and> distinct (map bk_id (cl_bookings cl)) \<and>
     bk_resource_id ` set (cl_bookings cl) \<subseteq> rs_id ` set (cl_resources cl) \<and> inj (db_uuids (cl_db cl)) \<and>
     (\<forall>n \<ge> db_next (cl_db cl). db_uuids (cl_db cl) n \<notin> rs_id ` set (cl_resources cl) \<union> bk_id ` set (cl_bookings cl))"

subsection \<open>What a validated interval still carries\<close>

lemma sum_where_sort: "sum_where P f (sort_key k xs) = sum_where P f (xs :: 'b list)" for f :: "'b \<Rightarrow> int"
proof -
  have "mset (filter P (sort_key k xs)) = mset (filter P xs)" by (metis mset_filter mset_sort)
  then have "mset (map f (filter P (sort_key k xs))) = mset (map f (filter P xs))" by simp
  then show ?thesis unfolding sum_where_def by (metis sum_mset_sum_list)
qed

lemma sum_where_filter: "sum_where P f (filter Q xs) = sum_where (\<lambda>x. Q x \<and> P x) f xs"
  by (simp add: sum_where_def conj_commute)

lemma validated_carries:
  assumes "validate_resource_booking cl (rs_tenant_id r) r s e q ex = Inr found" and "s \<le> t" and "t < e"
  shows "sum_where (\<lambda>b. standing_booking b \<and> on_resource r b \<and> covers_instant t b \<and> Some (bk_id b) \<noteq> ex) (weight r) (cl_bookings cl) +
    (if rs_booking_mode r = ''exclusive'' then 1 else int q) \<le> carries r"
proof -
  let ?found = "get_overlapping_bookings cl (rs_tenant_id r) (rs_id r) s e ex"
  have same: "overlaps (rs_tenant_id r) (rs_id r) s e ex b \<and> covers_instant t b \<longleftrightarrow>
      standing_booking b \<and> on_resource r b \<and> covers_instant t b \<and> Some (bk_id b) \<noteq> ex" for b
    using assms(2,3) by (auto simp: overlaps_def standing_booking_def on_resource_def covers_instant_def)
  have load: "sum_where (covers_instant t) f ?found =
      sum_where (\<lambda>b. standing_booking b \<and> on_resource r b \<and> covers_instant t b \<and> Some (bk_id b) \<noteq> ex) f (cl_bookings cl)" for f :: "booking \<Rightarrow> int"
    unfolding get_overlapping_bookings_def sum_where_sort sum_where_filter same ..
  show ?thesis
  proof (cases "rs_booking_mode r = ''exclusive''")
    case True
    with assms(1) have "?found = []" by (simp add: validate_resource_booking_def Let_def bindE_Inr_iff ensure_Inr_iff)
    with load [of "weight r"] True show ?thesis by (simp add: carries_def)
  next
    case False
    with assms(1) have peak: "peak_concurrent_quantity ?found s e + int q \<le> int (max_quantity_of r)"
      by (auto simp: validate_resource_booking_def Let_def bindE_Inr_iff ensure_Inr_iff)
    have "in_use ?found t \<le> Max (in_use ?found ` {s..<e})" using assms(2,3) by (intro Max_ge) auto
    also have "\<dots> = peak_concurrent_quantity ?found s e" using assms(2,3) sweep_meets_peak by simp
    finally have "in_use ?found t + int q \<le> int (max_quantity_of r)" using peak by linarith
    moreover have "in_use ?found t = sum_where (covers_instant t) (\<lambda>b. int (bk_quantity b)) ?found"
      by (simp add: in_use_def covers_instant_def [abs_def])
    moreover have "weight r = (\<lambda>b. int (bk_quantity b))" using False by (simp add: weight_def fun_eq_iff)
    ultimately show ?thesis using load [of "weight r"] False by (simp add: carries_def)
  qed
qed

subsection \<open>Replacing one booking\<close>

lemma sum_where_one_changed:
  assumes "distinct (map bk_id bs)" and "b \<in> set bs" and "\<And>x. bk_id (g x) = bk_id x"
  shows "sum_where P f (update_rows (\<lambda>x. bk_id x = bk_id b) g bs) =
    (if P (g b) then f (g b) else 0) + sum_where (\<lambda>x. P x \<and> bk_id x \<noteq> bk_id b) (f :: booking \<Rightarrow> int) bs"
  using assms(1,2)
proof (induction bs)
  case (Cons x bs)
  show ?case
  proof (cases "x = b")
    case True
    with Cons.prems have "bk_id b \<notin> bk_id ` set bs" by auto
    then have "update_rows (\<lambda>x. bk_id x = bk_id b) g bs = bs" "sum_where (\<lambda>x. P x \<and> bk_id x \<noteq> bk_id b) f bs = sum_where P f bs"
      by (auto simp: update_rows_def image_iff intro!: map_idI sum_where_cong)
    with True show ?thesis by simp
  next
    case False
    with Cons.prems have "bk_id x \<noteq> bk_id b" by (auto simp: image_iff)
    with Cons False show ?thesis by auto
  qed
qed simp

lemma load_changed:
  assumes "sound_calendar cl" and "b \<in> set (cl_bookings cl)" and "\<And>x. bk_id (g x) = bk_id x"
  shows "load r t (update_rows (\<lambda>x. bk_id x = bk_id b) g (cl_bookings cl)) =
    (if standing_booking (g b) \<and> on_resource r (g b) \<and> covers_instant t (g b) then weight r (g b) else 0) +
    sum_where (\<lambda>x. (standing_booking x \<and> on_resource r x \<and> covers_instant t x) \<and> bk_id x \<noteq> bk_id b) (weight r) (cl_bookings cl)"
  unfolding load_def by (rule sum_where_one_changed) (use assms in \<open>simp_all add: sound_calendar_def\<close>)

lemma weight_nonneg: "0 \<le> weight r b"
  by (simp add: weight_def)

lemma load_without:
  "sum_where (\<lambda>x. (standing_booking x \<and> on_resource r x \<and> covers_instant t x) \<and> bk_id x \<noteq> i) (weight r) bs \<le> load r t bs"
  unfolding load_def by (induction bs) (auto simp: weight_nonneg add_increasing)

subsection \<open>Each call\<close>

lemma scoped_resource_Inr:
  "scoped_resource cl t i = Inr r \<Longrightarrow> r \<in> set (cl_resources cl) \<and> rs_id r = i \<and> rs_tenant_id r = t"
  by (auto simp: scoped_resource_def find_row_def find_Some_iff split: option.splits if_splits)

lemma scoped_booking_Inr:
  "scoped_booking cl t i = Inr b \<Longrightarrow> b \<in> set (cl_bookings cl) \<and> bk_id b = i \<and> bk_tenant_id b = t"
  by (auto simp: scoped_booking_def find_row_def find_Some_iff split: option.splits if_splits)

lemma same_resource:
  "sound_calendar cl \<Longrightarrow> r \<in> set (cl_resources cl) \<Longrightarrow> r' \<in> set (cl_resources cl) \<Longrightarrow> rs_id r = rs_id r' \<Longrightarrow> r = r'"
  by (auto simp: sound_calendar_def distinct_map inj_on_def)

lemma fresh_calendar:
  assumes "sound_calendar cl" and "S \<subseteq> insert (fresh_id (cl_db cl)) (rs_id ` set (cl_resources cl) \<union> bk_id ` set (cl_bookings cl))"
  shows "\<forall>n \<ge> Suc (db_next (cl_db cl)). db_uuids (cl_db cl) n \<notin> S"
proof (intro allI impI)
  fix n
  assume "Suc (db_next (cl_db cl)) \<le> n"
  then have "n \<noteq> db_next (cl_db cl)" "db_next (cl_db cl) \<le> n" by simp_all
  then have "db_uuids (cl_db cl) n \<noteq> fresh_id (cl_db cl)" "db_uuids (cl_db cl) n \<notin> rs_id ` set (cl_resources cl) \<union> bk_id ` set (cl_bookings cl)"
    using assms(1) by (auto simp: sound_calendar_def fresh_id_def inj_eq)
  with assms(2) show "db_uuids (cl_db cl) n \<notin> S" by blast
qed

lemma create_booking_keeps:
  assumes sound: "sound_calendar cl" and ok: "never_overbooked cl" and step: "create_resource_booking cl a p = Inr (b, cl')"
  shows "sound_calendar cl' \<and> never_overbooked cl'"
proof -
  let ?b = "\<lparr>bk_id = fresh_id (cl_db cl), bk_tenant_id = ac_tenant_id a, bk_resource_id = bq_resource_id p,
            bk_employee_id = bq_employee_id p, bk_title = bq_title p, bk_start = bq_start p, bk_end = bq_end p,
            bk_quantity = bq_quantity p, bk_status = bq_status p, bk_cancelled_at = None, bk_cancelled_by = None\<rparr>"
  from step obtain r found where r: "scoped_resource cl (ac_tenant_id a) (bq_resource_id p) = Inr r"
    and valid: "validate_resource_booking cl (ac_tenant_id a) r (bq_start p) (bq_end p) (bq_quantity p) None = Inr found"
    and cl'0: "(?b, cl\<lparr>cl_db := record_audit (ac_tenant_id a) ''booking.created'' ''resource_booking'' (bk_id ?b) (Some (label a)) (tick (cl_db cl)),
                    cl_bookings := cl_bookings cl @ [?b]\<rparr>) = (b, cl')"
    unfolding create_resource_booking_def Let_def bindE_Inr_iff sum.inject by (elim exE conjE) (rule that)
  note r = scoped_resource_Inr [OF r]
  from cl'0 have cl': "cl_resources cl' = cl_resources cl" "cl_bookings cl' = cl_bookings cl @ [?b]"
    "db_uuids (cl_db cl') = db_uuids (cl_db cl)" "db_next (cl_db cl') = Suc (db_next (cl_db cl))"
    by (auto simp: record_audit_fields tick_def)
  have "fresh_id (cl_db cl) \<notin> bk_id ` set (cl_bookings cl)" using sound by (auto simp: sound_calendar_def fresh_id_def)
  moreover have "\<forall>n \<ge> Suc (db_next (cl_db cl)). db_uuids (cl_db cl) n \<notin> rs_id ` set (cl_resources cl) \<union> bk_id ` set (cl_bookings cl @ [?b])"
    by (rule fresh_calendar [OF sound]) auto
  moreover have "bk_resource_id ?b \<in> rs_id ` set (cl_resources cl)" using r by force
  ultimately have "sound_calendar cl'"
    using sound unfolding sound_calendar_def cl' by auto
  moreover have "load q t (cl_bookings cl') \<le> carries q" if q: "q \<in> set (cl_resources cl)" for q t
  proof -
    have load: "load q t (cl_bookings cl') = load q t (cl_bookings cl) +
        (if standing_booking ?b \<and> on_resource q ?b \<and> covers_instant t ?b then weight q ?b else 0)"
      by (simp add: cl' load_def)
    show ?thesis
    proof (cases "standing_booking ?b \<and> on_resource q ?b \<and> covers_instant t ?b")
      case True
      then have "q = r" using same_resource [OF sound q] r by (simp add: on_resource_def)
      with True r have "bq_start p \<le> t" "t < bq_end p" by (simp_all add: covers_instant_def)
      from validated_carries [OF _ this, of cl r "bq_quantity p" None found] valid r
      have "load r t (cl_bookings cl) + (if rs_booking_mode r = ''exclusive'' then 1 else int (bq_quantity p)) \<le> carries r"
        by (simp add: load_def)
      moreover have "weight r ?b = (if rs_booking_mode r = ''exclusive'' then 1 else int (bq_quantity p))" by (simp add: weight_def)
      moreover have "load q t (cl_bookings cl') = load q t (cl_bookings cl) + weight q ?b" unfolding load by (simp only: if_P [OF True])
      ultimately show ?thesis using \<open>q = r\<close> by simp
    next
      case False
      have "load q t (cl_bookings cl') = load q t (cl_bookings cl)" unfolding load by (simp only: if_not_P [OF False] add_0_right)
      with ok q show ?thesis by (simp add: never_overbooked_def)
    qed
  qed
  ultimately show ?thesis by (simp add: never_overbooked_def cl')
qed

lemma sound_change_booking:
  assumes "sound_calendar cl" and "\<And>x. bk_id (g x) = bk_id x \<and> bk_resource_id (g x) = bk_resource_id x"
  shows "sound_calendar (cl\<lparr>cl_db := record_audit t y e i w (cl_db cl), cl_bookings := update_rows P g (cl_bookings cl)\<rparr>)"
    "sound_calendar (cl\<lparr>cl_bookings := update_rows P g (cl_bookings cl)\<rparr>)"
proof -
  have "map bk_id (update_rows P g (cl_bookings cl)) = map bk_id (cl_bookings cl)"
    "map bk_resource_id (update_rows P g (cl_bookings cl)) = map bk_resource_id (cl_bookings cl)"
    using assms(2) by (simp_all add: update_rows_def)
  then have "map bk_id (update_rows P g (cl_bookings cl)) = map bk_id (cl_bookings cl)"
    "bk_id ` set (update_rows P g (cl_bookings cl)) = bk_id ` set (cl_bookings cl)"
    "bk_resource_id ` set (update_rows P g (cl_bookings cl)) = bk_resource_id ` set (cl_bookings cl)" by (metis set_map)+
  with assms(1) show "sound_calendar (cl\<lparr>cl_db := record_audit t y e i w (cl_db cl), cl_bookings := update_rows P g (cl_bookings cl)\<rparr>)"
    "sound_calendar (cl\<lparr>cl_bookings := update_rows P g (cl_bookings cl)\<rparr>)"
    unfolding sound_calendar_def by (simp_all add: record_audit_fields)
qed

lemma update_booking_keeps:
  assumes sound: "sound_calendar cl" and ok: "never_overbooked cl" and step: "update_resource_booking cl a i u = Inr cl'"
  shows "sound_calendar cl' \<and> never_overbooked cl'"
proof -
  from step obtain b r found where b: "scoped_booking cl (ac_tenant_id a) i = Inr b"
    and r: "scoped_resource cl (ac_tenant_id a) (bk_resource_id b) = Inr r"
    and valid: "validate_resource_booking cl (ac_tenant_id a) r (merged (bu_start u) (bk_start b)) (merged (bu_end u) (bk_end b))
      (merged (bu_quantity u) (bk_quantity b)) (Some (bk_id b)) = Inr found"
    and cl'0: "cl\<lparr>cl_bookings := update_rows (\<lambda>x. bk_id x = bk_id b) (updated_booking u) (cl_bookings cl)\<rparr> = cl'"
    unfolding update_resource_booking_def booking_to_change_def change_under_lock_def Let_def bindE_Inr_iff sum.inject
    by (elim exE conjE) (rule that, auto)
  note b = scoped_booking_Inr [OF b] and r = scoped_resource_Inr [OF r]
  have cl': "cl' = cl\<lparr>cl_bookings := update_rows (\<lambda>x. bk_id x = i) (updated_booking u) (cl_bookings cl)\<rparr>"
    using cl'0 [symmetric] b by simp
  have keys: "bk_id (updated_booking u x) = bk_id x" "bk_resource_id (updated_booking u x) = bk_resource_id x" for x
    by (simp_all add: updated_booking_def)
  have "sound_calendar cl'" unfolding cl' by (rule sound_change_booking [OF sound]) (simp add: keys)
  moreover have "load q t (cl_bookings cl') \<le> carries q" if q: "q \<in> set (cl_resources cl)" for q t
  proof -
    let ?b = "updated_booking u b"
    let ?rest = "sum_where (\<lambda>x. (standing_booking x \<and> on_resource q x \<and> covers_instant t x) \<and> bk_id x \<noteq> i) (weight q) (cl_bookings cl)"
    have load: "load q t (cl_bookings cl') = (if standing_booking ?b \<and> on_resource q ?b \<and> covers_instant t ?b then weight q ?b else 0) + ?rest"
      using load_changed [OF sound b [THEN conjunct1], of "updated_booking u" q t] b by (simp add: keys cl')
    show ?thesis
    proof (cases "standing_booking ?b \<and> on_resource q ?b \<and> covers_instant t ?b")
      case True
      then have "q = r" using same_resource [OF sound q] r by (simp add: on_resource_def keys)
      from True have "merged (bu_start u) (bk_start b) \<le> t" "t < merged (bu_end u) (bk_end b)"
        by (simp_all add: covers_instant_def updated_booking_def)
      from validated_carries [OF _ this, of cl r "merged (bu_quantity u) (bk_quantity b)" "Some (bk_id b)" found] valid r b
      have "?rest + (if rs_booking_mode r = ''exclusive'' then 1 else int (merged (bu_quantity u) (bk_quantity b))) \<le> carries r"
        by (simp add: \<open>q = r\<close> conj_assoc)
      moreover have "weight q ?b = (if rs_booking_mode r = ''exclusive'' then 1 else int (merged (bu_quantity u) (bk_quantity b)))"
        by (simp add: \<open>q = r\<close> weight_def updated_booking_def)
      moreover have "load q t (cl_bookings cl') = weight q ?b + ?rest" unfolding load by (simp only: if_P [OF True])
      ultimately have "load q t (cl_bookings cl') \<le> carries r" by linarith
      then show ?thesis using \<open>q = r\<close> by simp
    next
      case False
      have "load q t (cl_bookings cl') = ?rest" unfolding load by (simp only: if_not_P [OF False] add_0_left)
      also have "\<dots> \<le> load q t (cl_bookings cl)" by (rule load_without)
      also have "\<dots> \<le> carries q" using ok q by (simp add: never_overbooked_def)
      finally show ?thesis .
    qed
  qed
  ultimately show ?thesis by (simp add: never_overbooked_def cl')
qed

lemma delete_booking_keeps:
  assumes sound: "sound_calendar cl" and ok: "never_overbooked cl" and step: "delete_resource_booking now cl a i w = Inr cl'"
  shows "sound_calendar cl' \<and> never_overbooked cl'"
proof -
  let ?g = "\<lambda>x. x\<lparr>bk_status := ''cancelled'', bk_cancelled_at := Some now, bk_cancelled_by := Some (attributed a w)\<rparr>"
  from step obtain b where b: "scoped_booking cl (ac_tenant_id a) i = Inr b"
    and "cl' = cl \<or> cl' = cl\<lparr>cl_db := record_audit (ac_tenant_id a) ''booking.cancelled'' ''resource_booking'' i (Some (label a)) (cl_db cl),
               cl_bookings := update_rows (\<lambda>x. bk_id x = i) ?g (cl_bookings cl)\<rparr>"
    unfolding delete_resource_booking_def by (auto simp: result_simps split: if_splits)
  then consider "cl' = cl" | (cancelled) "cl' = cl\<lparr>cl_db := record_audit (ac_tenant_id a) ''booking.cancelled'' ''resource_booking'' i (Some (label a)) (cl_db cl),
               cl_bookings := update_rows (\<lambda>x. bk_id x = i) ?g (cl_bookings cl)\<rparr>" by blast
  then show ?thesis
  proof cases
    case cancelled
    note b = scoped_booking_Inr [OF b]
    have "load q t (cl_bookings cl') \<le> load q t (cl_bookings cl)" for q t
      using load_changed [OF sound b [THEN conjunct1], of ?g q t] load_without [of q t i] b
      by (simp add: cancelled standing_booking_def)
    moreover have "load q t (cl_bookings cl) \<le> carries q" if "q \<in> set (cl_resources cl)" for q t
      using ok that by (simp add: never_overbooked_def)
    ultimately have "load q t (cl_bookings cl') \<le> carries q" if "q \<in> set (cl_resources cl)" for q t
      using that by (meson order_trans)
    then have "never_overbooked cl'" by (simp add: never_overbooked_def cancelled)
    moreover have "sound_calendar cl'" unfolding cancelled by (rule sound_change_booking [OF sound]) simp
    ultimately show ?thesis by blast
  qed (use sound ok in simp)
qed

subsection \<open>The resources themselves\<close>

lemma create_resource_keeps:
  assumes sound: "sound_calendar cl" and ok: "never_overbooked cl" and step: "create_resource cl a p = Inr (r, cl')"
  shows "sound_calendar cl' \<and> never_overbooked cl'"
proof -
  from step have cl': "cl_resources cl' = cl_resources cl @ [r]" "cl_bookings cl' = cl_bookings cl" "rs_id r = fresh_id (cl_db cl)"
    "db_uuids (cl_db cl') = db_uuids (cl_db cl)" "db_next (cl_db cl') = Suc (db_next (cl_db cl))"
    by (auto simp: create_resource_def Let_def bindE_Inr_iff tick_def)
  have new: "fresh_id (cl_db cl) \<notin> rs_id ` set (cl_resources cl)" using sound by (auto simp: sound_calendar_def fresh_id_def)
  have "\<forall>n \<ge> Suc (db_next (cl_db cl)). db_uuids (cl_db cl) n \<notin> rs_id ` set (cl_resources cl @ [r]) \<union> bk_id ` set (cl_bookings cl)"
    by (rule fresh_calendar [OF sound]) (auto simp: cl')
  with sound new cl' have "sound_calendar cl'" unfolding sound_calendar_def by auto
  moreover have "load r t (cl_bookings cl) = 0" for t
  proof -
    have "bk_resource_id b \<noteq> rs_id r" if "b \<in> set (cl_bookings cl)" for b
      using sound that new cl'(3) unfolding sound_calendar_def by (metis image_eqI subsetD)
    then show ?thesis by (simp add: load_def sum_where_def on_resource_def cong: filter_cong)
  qed
  moreover have "0 \<le> carries r" by (simp add: carries_def)
  ultimately show ?thesis using ok by (simp add: never_overbooked_def cl')
qed

lemma change_resource_keeps:
  assumes sound: "sound_calendar cl" and ok: "never_overbooked cl"
    and same: "\<And>r. rs_id (g r) = rs_id r \<and> rs_tenant_id (g r) = rs_tenant_id r \<and>
      rs_booking_mode (g r) = rs_booking_mode r \<and> rs_max_quantity (g r) = rs_max_quantity r"
  shows "sound_calendar (cl\<lparr>cl_resources := update_rows P g (cl_resources cl)\<rparr>) \<and>
    never_overbooked (cl\<lparr>cl_resources := update_rows P g (cl_resources cl)\<rparr>)"
proof -
  have ids: "map rs_id (update_rows P g (cl_resources cl)) = map rs_id (cl_resources cl)"
    using same by (simp add: update_rows_def)
  then have "rs_id ` set (update_rows P g (cl_resources cl)) = rs_id ` set (cl_resources cl)" by (metis set_map)
  with sound ids have "sound_calendar (cl\<lparr>cl_resources := update_rows P g (cl_resources cl)\<rparr>)"
    by (simp add: sound_calendar_def)
  moreover have "load (g r) t bs = load r t bs" "carries (g r) = carries r" for r t bs
    using same [of r] by (simp_all add: load_def on_resource_def weight_def [abs_def] carries_def max_quantity_of_def)
  ultimately show ?thesis using ok by (auto simp: never_overbooked_def update_rows_def)
qed

text \<open>A request that leaves the mode and the quantity alone.\<close>

definition same_capacity :: "resource_update \<Rightarrow> bool" where
  "same_capacity u \<longleftrightarrow> ru_booking_mode u = None \<and> ru_max_quantity u = None"

lemma update_resource_keeps:
  assumes "sound_calendar cl" and "never_overbooked cl" and "same_capacity u" and "update_resource cl a i u = Inr cl'"
  shows "sound_calendar cl' \<and> never_overbooked cl'"
proof -
  from assms(4) have cl': "cl' = cl\<lparr>cl_resources := update_rows (\<lambda>x. rs_id x = i) (updated_resource u) (cl_resources cl)\<rparr>"
    by (auto simp: update_resource_def bindE_Inr_iff)
  show ?thesis unfolding cl'
    by (rule change_resource_keeps [OF assms(1,2)]) (use assms(3) in \<open>simp add: updated_resource_def same_capacity_def\<close>)
qed

lemma delete_resource_keeps:
  assumes "sound_calendar cl" and "never_overbooked cl" and "delete_resource cl a i = Inr cl'"
  shows "sound_calendar cl' \<and> never_overbooked cl'"
proof -
  from assms(3) have cl': "cl' = cl\<lparr>cl_resources := update_rows (\<lambda>x. rs_id x = i) (\<lambda>x. x\<lparr>rs_status := ''archived''\<rparr>) (cl_resources cl)\<rparr>"
    by (auto simp: delete_resource_def bindE_Inr_iff)
  show ?thesis unfolding cl' by (rule change_resource_keeps [OF assms(1,2)]) simp
qed

subsection \<open>Histories\<close>

datatype calendar_event =
    Create_Resource resource_request
  | Update_Resource uuid resource_update
  | Archive_Resource uuid
  | Book booking_request
  | Move_Booking uuid booking_update
  | Cancel_Booking timestamp uuid "string option"

fun calendar_step :: "calendar \<Rightarrow> actor \<Rightarrow> calendar_event \<Rightarrow> calendar result" where
  "calendar_step cl a (Create_Resource p) = bindE (create_resource cl a p) (\<lambda>(r, cl'). Inr cl')"
| "calendar_step cl a (Update_Resource i u) = update_resource cl a i u"
| "calendar_step cl a (Archive_Resource i) = delete_resource cl a i"
| "calendar_step cl a (Book p) = bindE (create_resource_booking cl a p) (\<lambda>(b, cl'). Inr cl')"
| "calendar_step cl a (Move_Booking i u) = update_resource_booking cl a i u"
| "calendar_step cl a (Cancel_Booking now i w) = delete_resource_booking now cl a i w"

fun run_calendar :: "calendar \<Rightarrow> (actor \<times> calendar_event) list \<Rightarrow> calendar" where
  "run_calendar cl [] = cl"
| "run_calendar cl ((a, e) # es) = run_calendar (case calendar_step cl a e of Inl _ \<Rightarrow> cl | Inr cl' \<Rightarrow> cl') es"

fun keeps_capacity :: "calendar_event \<Rightarrow> bool" where
  "keeps_capacity (Update_Resource i u) = same_capacity u"
| "keeps_capacity _ = True"

lemma calendar_step_keeps:
  assumes "sound_calendar cl" and "never_overbooked cl" and "keeps_capacity e" and "calendar_step cl a e = Inr cl'"
  shows "sound_calendar cl' \<and> never_overbooked cl'"
proof (cases e)
  case (Create_Resource p)
  with assms(4) obtain r where "create_resource cl a p = Inr (r, cl')" by (auto simp: bindE_Inr_iff)
  with assms(1,2) show ?thesis by (rule create_resource_keeps)
next
  case (Update_Resource i u)
  with assms show ?thesis by (intro update_resource_keeps [of cl u]) simp_all
next
  case (Archive_Resource i)
  with assms(4) have "delete_resource cl a i = Inr cl'" by simp
  with assms(1,2) show ?thesis by (rule delete_resource_keeps)
next
  case (Book p)
  with assms(4) obtain b where "create_resource_booking cl a p = Inr (b, cl')" by (auto simp: bindE_Inr_iff)
  with assms(1,2) show ?thesis by (rule create_booking_keeps)
next
  case (Move_Booking i u)
  with assms(4) have "update_resource_booking cl a i u = Inr cl'" by simp
  with assms(1,2) show ?thesis by (rule update_booking_keeps)
next
  case (Cancel_Booking now i w)
  with assms(4) have "delete_resource_booking now cl a i w = Inr cl'" by simp
  with assms(1,2) show ?thesis by (rule delete_booking_keeps)
qed

text \<open>C35: Whatever resources are created, renamed and archived and whatever bookings are made, moved and
  cancelled, one call after the other, by any callers and refused calls included: at no instant do the confirmed bookings of an
  exclusive resource number more than one, nor those of a shared one add up to more than its quantity. The
  one proviso is that no PATCH changes a resource's mode or quantity.\<close>

theorem no_instant_is_overbooked:
  assumes "sound_calendar cl" and "never_overbooked cl" and "list_all (\<lambda>(a, e). keeps_capacity e) es"
  shows "never_overbooked (run_calendar cl es)"
  using assms
proof (induction es arbitrary: cl)
  case (Cons ae es)
  obtain a e where ae: "ae = (a, e)" by (cases ae)
  with Cons.prems(3) have e: "keeps_capacity e" by simp
  show ?case
  proof (cases "calendar_step cl a e")
    case (Inr cl')
    with calendar_step_keeps [OF Cons.prems(1,2) e] Cons.IH [of cl'] Cons.prems(3) show ?thesis by (simp add: ae)
  qed (use Cons in \<open>simp add: ae\<close>)
qed simp

subsection \<open>A meeting room and a car pool\<close>

definition planner :: actor where
  "planner = with_grants [''master_data.manage'', ''booking.own''] blank_actor"

definition office :: calendar where
  "office = \<lparr>cl_db = blank_db\<lparr>db_rows := [blank_row\<lparr>row_model := Employee, row_id := ''e''\<rparr>]\<rparr>, cl_resources = [], cl_bookings = []\<rparr>"

definition asks :: "uuid \<Rightarrow> timestamp \<Rightarrow> timestamp \<Rightarrow> nat \<Rightarrow> calendar_event" where
  "asks r s e q = Book \<lparr>bq_resource_id = r, bq_employee_id = ''e'', bq_title = ''visit'', bq_start = s, bq_end = e,
     bq_quantity = q, bq_status = ''confirmed''\<rparr>"

definition pool :: "nat \<Rightarrow> calendar_event" where
  "pool n = Create_Resource \<lparr>rr_code = None, rr_booking_mode = ''shared'', rr_max_quantity = Some n, rr_status = ''active''\<rparr>"

text \<open>Three cars; 2 from 0 to 4, 1 from 4 to 8 and 1 from 2 to 4 fit, 2 from 2 to 6 do not.\<close>

definition office_day :: "(actor \<times> calendar_event) list" where
  "office_day = map (Pair planner) [pool 3, asks ''x'' 0 4 2, asks ''x'' 4 8 1, asks ''x'' 2 4 1, asks ''x'' 2 6 2]"

lemma office_sound: "sound_calendar office" "never_overbooked office"
proof -
  have "inj (\<lambda>n. replicate n CHR ''x'')" by (auto intro: injI dest: arg_cong [where f = length])
  then show "sound_calendar office" by (simp add: sound_calendar_def office_def blank_db_def)
  show "never_overbooked office" by (simp add: never_overbooked_def office_def)
qed

theorem no_instant_is_overbooked_witness:
  "never_overbooked (run_calendar office office_day) \<and>
     map (\<lambda>b. (bk_start b, bk_end b, bk_quantity b)) (cl_bookings (run_calendar office office_day)) = [(0, 4, 2), (4, 8, 1), (2, 4, 1)]"
proof -
  have "list_all (\<lambda>(a, e). keeps_capacity e) office_day" by (simp add: office_day_def asks_def pool_def)
  from no_instant_is_overbooked [OF office_sound this] have "never_overbooked (run_calendar office office_day)" .
  moreover have "map (\<lambda>b. (bk_start b, bk_end b, bk_quantity b)) (cl_bookings (run_calendar office office_day)) = [(0, 4, 2), (4, 8, 1), (2, 4, 1)]"
    by code_simp
  ultimately show ?thesis ..
qed

text \<open>The proviso is needed: a PATCH may shrink a pool below what is booked.\<close>

definition shrink :: "(actor \<times> calendar_event) list" where
  "shrink = [(planner, Update_Resource ''x'' \<lparr>ru_code = None, ru_booking_mode = None, ru_max_quantity = Some (Some 1), ru_status = None\<rparr>)]"

lemma a_shrunk_pool_is_overbooked:
  "list_ex (\<lambda>r. carries r < load r 2 (cl_bookings (run_calendar office (office_day @ shrink))))
     (cl_resources (run_calendar office (office_day @ shrink)))"
  by code_simp

text \<open>Two PATCHes of one booking that overlap: both read it before either has the lock, the one moves it, the other asks for
  more cars at its old hours, where there are some. The cars are then missing at the new hours.\<close>

definition move_to :: "timestamp \<Rightarrow> timestamp \<Rightarrow> booking_update" where
  "move_to s e = \<lparr>bu_title = None, bu_start = Some (Some s), bu_end = Some (Some e), bu_quantity = None\<rparr>"

definition ask_for :: "nat \<Rightarrow> booking_update" where
  "ask_for n = \<lparr>bu_title = None, bu_start = None, bu_end = None, bu_quantity = Some (Some n)\<rparr>"

lemma overlapping_changes_overbook:
  "(let cl = run_calendar office (map (Pair planner) [pool 3, asks ''x'' 0 4 2, asks ''x'' 4 8 1]); i = ''xxx'' in
    case (booking_to_change cl planner i (move_to 0 4), booking_to_change cl planner i (ask_for 3)) of
      (Inr b, Inr b') \<Rightarrow>
        (case bindE (change_under_lock cl planner b (move_to 0 4)) (\<lambda>cl1. change_under_lock cl1 planner b' (ask_for 3)) of
           Inr cl2 \<Rightarrow> list_ex (\<lambda>r. carries r < load r 2 (cl_bookings cl2)) (cl_resources cl2)
         | Inl _ \<Rightarrow> False)
    | _ \<Rightarrow> False)"
  by code_simp

end
