(* ===== verification/Treasury.thy ===== *)
theory Treasury
  imports Accounts
begin

text \<open>
  The cash register (\<open>app/api/treasury.py\<close>, \<open>app/services/treasury.py\<close>): accounts where money sits, the
  lines that move it, their links to payments, the import of a statement. Dates, counterparties and wording
  are left out; \<open>is_uuid\<close> says which spellings \<open>uuid.UUID\<close> takes. A \<open>NUMERIC(14, 2)\<close> column rounds what
  it is given; the balance moves by the amount as it came (\<open>current_balance + amount\<close>), the line keeps it rounded.
\<close>

record fin_account =
  fa_id :: uuid
  fa_tenant_id :: uuid
  fa_name :: string
  fa_account_type :: string
  fa_currency :: string
  fa_balance :: money
  fa_status :: string

record fin_trans =
  ft_id :: uuid
  ft_tenant_id :: uuid
  ft_account_id :: uuid
  ft_type :: string
  ft_amount :: money
  ft_gross :: "money option"
  ft_fee :: "money option"
  ft_reference_no :: "string option"
  ft_payment_id :: "uuid option"
  ft_payment_reference_no :: "string option"
  ft_entity_type :: "string option"
  ft_entity_id :: "uuid option"
  ft_created_by :: string

record treasury =
  ty_db :: db
  ty_accounts :: "fin_account list"
  ty_register :: "fin_trans list"

definition scoped_account :: "treasury \<Rightarrow> uuid \<Rightarrow> uuid \<Rightarrow> fin_account result" where
  "scoped_account ty tenant_id i =
     (case find_row (\<lambda>r. fa_id r = i \<and> fa_tenant_id r = tenant_id) (ty_accounts ty) of
        None \<Rightarrow> Inl (HttpError 404 ''not_found'') | Some r \<Rightarrow> Inr r)"

definition scoped_trans :: "treasury \<Rightarrow> uuid \<Rightarrow> uuid \<Rightarrow> fin_trans result" where
  "scoped_trans ty tenant_id i =
     (case find_row (\<lambda>r. ft_id r = i \<and> ft_tenant_id r = tenant_id) (ty_register ty) of
        None \<Rightarrow> Inl (HttpError 404 ''not_found'') | Some r \<Rightarrow> Inr r)"

definition require_treasury :: "actor \<Rightarrow> unit result" where
  "require_treasury a = require_permission a ''fin_account.manage'' None"

definition require_active_account :: "treasury \<Rightarrow> uuid \<Rightarrow> uuid \<Rightarrow> fin_account result" where
  "require_active_account ty tenant_id i =
     bindE (scoped_account ty tenant_id i) (\<lambda>account.
     bindE (ensure (fa_status account = ''active'') 409 ''fin_account_is_archived'') (\<lambda>_. Inr account))"

subsection \<open>The one write path\<close>

definition POSITIVE_TYPES :: "string list" where
  "POSITIVE_TYPES = [''deposit'', ''interest'', ''transfer_in'']"

definition NEGATIVE_TYPES :: "string list" where
  "NEGATIVE_TYPES = [''withdrawal'', ''fee'', ''transfer_out'']"

text \<open>The table's checks and its unique index on the statement's reference; the account is a foreign key.\<close>

definition line_checks :: "fin_trans \<Rightarrow> bool" where
  "line_checks row \<longleftrightarrow>
     ft_amount row \<noteq> 0 \<and>
     (ft_type row \<in> set POSITIVE_TYPES \<longrightarrow> 0 < ft_amount row) \<and> (ft_type row \<in> set NEGATIVE_TYPES \<longrightarrow> ft_amount row < 0) \<and>
     (case (ft_gross row, ft_fee row) of (Some g, Some f) \<Rightarrow> ft_amount row = g - f | _ \<Rightarrow> True)"

definition same_reference :: "fin_trans \<Rightarrow> fin_trans \<Rightarrow> bool" where
  "same_reference x y \<longleftrightarrow> ft_reference_no x \<noteq> None \<and> ft_tenant_id x = ft_tenant_id y \<and> ft_account_id x = ft_account_id y \<and>
     ft_reference_no x = ft_reference_no y"

record posting =
  po_amount :: money
  po_type :: string
  po_gross :: "money option"
  po_fee :: "money option"
  po_reference_no :: "string option"
  po_payment_id :: "uuid option"
  po_entity_type :: "string option"
  po_entity_id :: "uuid option"
  po_created_by :: string

definition trans_of :: "db \<Rightarrow> fin_account \<Rightarrow> posting \<Rightarrow> fin_trans" where
  "trans_of db account p = \<lparr>ft_id = fresh_id db, ft_tenant_id = fa_tenant_id account, ft_account_id = fa_id account,
     ft_type = po_type p, ft_amount = column_cents (po_amount p), ft_gross = map_option column_cents (po_gross p),
     ft_fee = map_option column_cents (po_fee p), ft_reference_no = po_reference_no p, ft_payment_id = po_payment_id p,
     ft_payment_reference_no = None, ft_entity_type = po_entity_type p, ft_entity_id = po_entity_id p,
     ft_created_by = po_created_by p\<rparr>"

definition fits_column :: "money \<Rightarrow> bool" where
  "fits_column x \<longleftrightarrow> \<bar>column_cents x\<bar> < 10 ^ 12"

definition post_fin_account_trans :: "treasury \<Rightarrow> fin_account \<Rightarrow> posting \<Rightarrow> (fin_trans \<times> treasury) result" where
  "post_fin_account_trans ty account p =
     (let row = trans_of (ty_db ty) account p;
          here = (\<lambda>r. fa_id r = fa_id account)
      in bindE (if line_checks row \<and> list_ex here (ty_accounts ty) \<and> \<not> list_ex (same_reference row) (ty_register ty) then Inr () else Inl IntegrityError) (\<lambda>_.
         bindE (ensure (list_all (\<lambda>r. here r \<longrightarrow> fits_column (fa_balance r + po_amount p)) (ty_accounts ty)) 500 ''DataError'') (\<lambda>_.
         Inr (row, ty\<lparr>ty_db := tick (ty_db ty), ty_register := ty_register ty @ [row],
           ty_accounts := update_rows here (\<lambda>r. r\<lparr>fa_balance := column_cents (fa_balance r + po_amount p)\<rparr>) (ty_accounts ty)\<rparr>))))"

text \<open>\<open>except IntegrityError\<close>\<close>

definition unless_integrity :: "http_error \<Rightarrow> 'a result \<Rightarrow> 'a result" where
  "unless_integrity e m = (case m of Inl e' \<Rightarrow> if e' = IntegrityError then Inl e else Inl e' | Inr x \<Rightarrow> Inr x)"

subsection \<open>Accounts\<close>

record fin_account_request =
  fr_name :: string
  fr_account_type :: string
  fr_currency :: string
  fr_status :: string
  fr_opening_balance :: "money option"

definition name_taken :: "fin_account list \<Rightarrow> fin_account \<Rightarrow> bool" where
  "name_taken accounts r \<longleftrightarrow>
     list_ex (\<lambda>x. fa_id x \<noteq> fa_id r \<and> fa_tenant_id x = fa_tenant_id r \<and> fa_name x = fa_name r) accounts"

definition opening_posting :: "actor \<Rightarrow> money \<Rightarrow> posting" where
  "opening_posting a x = \<lparr>po_amount = x, po_type = ''opening'', po_gross = None, po_fee = None, po_reference_no = None,
     po_payment_id = None, po_entity_type = None, po_entity_id = None, po_created_by = attributed a None\<rparr>"

definition create_fin_account :: "treasury \<Rightarrow> actor \<Rightarrow> fin_account_request \<Rightarrow> treasury result" where
  "create_fin_account ty a p =
     bindE (require_treasury a) (\<lambda>_.
     bindE (require_type_option (db_type_options (ty_db ty)) (ac_tenant_id a) ''fin_account_type'' (fr_account_type p)) (\<lambda>_.
     let account = \<lparr>fa_id = fresh_id (ty_db ty), fa_tenant_id = ac_tenant_id a, fa_name = fr_name p,
           fa_account_type = fr_account_type p, fa_currency = fr_currency p, fa_balance = 0, fa_status = fr_status p\<rparr>
     in unless_integrity (HttpError 409 ''a_fin_account_of_that_name_exists'') (
        bindE (if name_taken (ty_accounts ty) account then Inl IntegrityError else Inr ()) (\<lambda>_.
        let ty' = ty\<lparr>ty_db := tick (ty_db ty), ty_accounts := ty_accounts ty @ [account]\<rparr>
        in case fr_opening_balance p of
             None \<Rightarrow> Inr ty'
           | Some x \<Rightarrow> if x = 0 then Inr ty'
               else bindE (post_fin_account_trans ty' account (opening_posting a x)) (\<lambda>(_, ty''). Inr ty'')))))"

text \<open>Outer \<open>None\<close>: the field is absent; \<open>Some None\<close>: it is null, which the column refuses.\<close>

record fin_account_update =
  fu_name :: "string option option"
  fu_account_type :: "string option option"
  fu_currency :: "string option option"
  fu_status :: "string option option"

definition overwritten :: "'a option option \<Rightarrow> 'a \<Rightarrow> 'a" where
  "overwritten u old = (case u of Some (Some x) \<Rightarrow> x | _ \<Rightarrow> old)"

definition updated_account :: "fin_account_update \<Rightarrow> fin_account \<Rightarrow> fin_account" where
  "updated_account u r = r\<lparr>fa_name := overwritten (fu_name u) (fa_name r),
     fa_account_type := overwritten (fu_account_type u) (fa_account_type r),
     fa_currency := overwritten (fu_currency u) (fa_currency r), fa_status := overwritten (fu_status u) (fa_status r)\<rparr>"

definition lines_of :: "treasury \<Rightarrow> uuid \<Rightarrow> uuid \<Rightarrow> fin_trans list" where
  "lines_of ty tenant_id i = filter (\<lambda>t. ft_tenant_id t = tenant_id \<and> ft_account_id t = i) (ty_register ty)"

definition update_fin_account :: "treasury \<Rightarrow> actor \<Rightarrow> uuid \<Rightarrow> fin_account_update \<Rightarrow> treasury result" where
  "update_fin_account ty a i u =
     bindE (require_treasury a) (\<lambda>_.
     bindE (scoped_account ty (ac_tenant_id a) i) (\<lambda>account.
     bindE (ensure (fu_currency u = None \<or> fu_currency u = Some (Some (fa_currency account)) \<or>
              lines_of ty (ac_tenant_id a) i = [] \<and> \<bar>fa_balance account\<bar> \<le> 5 / 1000) 409 ''currency_is_not_restated'') (\<lambda>_.
     bindE (case fu_account_type u of Some (Some t) \<Rightarrow>
                if t = [] then Inr () else require_type_option (db_type_options (ty_db ty)) (ac_tenant_id a) ''fin_account_type'' t
              | _ \<Rightarrow> Inr ()) (\<lambda>_.
     bindE (ensure (fu_name u \<noteq> Some None \<and> fu_account_type u \<noteq> Some None \<and> fu_currency u \<noteq> Some None \<and> fu_status u \<noteq> Some None \<and>
              \<not> name_taken (ty_accounts ty) (updated_account u account)) 409 ''a_fin_account_of_that_name_exists'') (\<lambda>_.
     Inr (ty\<lparr>ty_accounts := update_rows (\<lambda>r. fa_id r = i) (updated_account u) (ty_accounts ty)\<rparr>))))))"

definition delete_fin_account :: "treasury \<Rightarrow> actor \<Rightarrow> uuid \<Rightarrow> treasury result" where
  "delete_fin_account ty a i =
     bindE (require_treasury a) (\<lambda>_.
     bindE (scoped_account ty (ac_tenant_id a) i) (\<lambda>_.
     Inr (ty\<lparr>ty_accounts := update_rows (\<lambda>r. fa_id r = i) (\<lambda>r. r\<lparr>fa_status := ''archived''\<rparr>) (ty_accounts ty)\<rparr>)))"

subsection \<open>What a line may be linked to\<close>

definition require_entity_uuid :: "(string \<Rightarrow> bool) \<Rightarrow> string option \<Rightarrow> unit result" where
  "require_entity_uuid is_uuid entity_id =
     (case entity_id of None \<Rightarrow> Inr () | Some s \<Rightarrow> ensure (is_uuid s) 422 ''entity_id_must_be_a_uuid'')"

definition require_same_currency :: "fin_account \<Rightarrow> row \<Rightarrow> unit result" where
  "require_same_currency account payment = ensure (row_currency payment = fa_currency account) 422 ''payment_in_another_currency''"

definition moves :: "row \<Rightarrow> money" where
  "moves payment = (if row_direction payment = ''outbound'' then -1 else 1)"

definition require_link_coherence :: "treasury \<Rightarrow> uuid \<Rightarrow> fin_account \<Rightarrow> uuid option \<Rightarrow> money \<Rightarrow> unit result" where
  "require_link_coherence ty tenant_id account payment_id amount =
     (case payment_id of
        None \<Rightarrow> Inr ()
      | Some i \<Rightarrow>
          bindE (get_scoped_or_404 (ty_db ty) Payment tenant_id i) (\<lambda>payment.
          bindE (require_same_currency account payment) (\<lambda>_.
          ensure (\<not> amount * moves payment \<le> 0) 422 ''line_moves_the_other_way'')))"

definition batch_members :: "treasury \<Rightarrow> uuid \<Rightarrow> string \<Rightarrow> row list" where
  "batch_members ty tenant_id reference_no =
     filter (\<lambda>r. row_model r = Payment \<and> row_tenant_id r = tenant_id \<and> row_attr r ''reference_no'' = JStr reference_no \<and>
        row_deleted_at r = None) (db_rows (ty_db ty))"

definition require_batch_coherence :: "treasury \<Rightarrow> uuid \<Rightarrow> fin_account \<Rightarrow> string \<Rightarrow> money \<Rightarrow> (nat \<times> money) result" where
  "require_batch_coherence ty tenant_id account reference_no amount =
     (let members = batch_members ty tenant_id reference_no; settled = round2 (sum_list (map row_amount members))
      in bindE (ensure (members \<noteq> []) 422 ''no_payments_share_that_reference'') (\<lambda>_.
         bindE (each (require_same_currency account) members) (\<lambda>_.
         bindE (ensure (\<not> (list_ex (\<lambda>m. moves m \<noteq> moves (hd members)) members \<or> amount * moves (hd members) \<le> 0)) 422
                  ''payments_must_move_the_way_the_line_does'') (\<lambda>_.
         bindE (ensure (\<not> 5 / 1000 < \<bar>settled - \<bar>amount\<bar>\<bar>) 422 ''batch_does_not_sum_to_the_line'') (\<lambda>_.
         Inr (length members, settled))))))"

subsection \<open>The register\<close>

definition sign_error :: "money \<Rightarrow> string \<Rightarrow> bool" where
  "sign_error amount trans_type \<longleftrightarrow>
     trans_type \<in> set POSITIVE_TYPES \<and> amount < 0 \<or> trans_type \<in> set NEGATIVE_TYPES \<and> 0 < amount"

definition derived_type :: "money \<Rightarrow> string option \<Rightarrow> string" where
  "derived_type amount stated =
     (case stated of Some t \<Rightarrow> t | None \<Rightarrow> if 0 < amount then ''deposit'' else ''withdrawal'')"

record trans_request =
  tr_account_id :: uuid
  tr_type :: "string option"
  tr_amount :: money
  tr_gross :: "money option"
  tr_fee :: "money option"
  tr_reference_no :: "string option"
  tr_payment_id :: "uuid option"
  tr_entity_type :: "string option"
  tr_entity_id :: "string option"

text \<open>\<open>_money_holds_together\<close> of the request model.\<close>

definition money_holds_together :: "money \<Rightarrow> money option \<Rightarrow> money option \<Rightarrow> unit result" where
  "money_holds_together amount gross fee =
     bindE (ensure (amount \<noteq> 0) 422 ''a_zero_movement_is_not_a_movement'') (\<lambda>_.
     case (gross, fee) of
       (Some g, Some f) \<Rightarrow> ensure (round2 (g - f) = round2 amount) 422 ''amount_must_equal_gross_minus_fee''
     | _ \<Rightarrow> Inr ())"

definition entity_column :: "db \<Rightarrow> string option \<Rightarrow> uuid option result" where
  "entity_column db entity_id =
     (case entity_id of None \<Rightarrow> Inr None | Some s \<Rightarrow> bindE (uuid_literal db s) (\<lambda>i. Inr (Some i)))"

definition create_fin_account_trans ::
    "(string \<Rightarrow> bool) \<Rightarrow> treasury \<Rightarrow> actor \<Rightarrow> trans_request \<Rightarrow> (fin_trans \<times> treasury) result" where
  "create_fin_account_trans is_uuid ty a p =
     (let tenant_id = ac_tenant_id a; trans_type = derived_type (tr_amount p) (tr_type p) in
      bindE (money_holds_together (tr_amount p) (tr_gross p) (tr_fee p)) (\<lambda>_.
      bindE (require_treasury a) (\<lambda>_.
      bindE (require_active_account ty tenant_id (tr_account_id p)) (\<lambda>account.
      bindE (ensure (tr_type p \<noteq> Some ''opening'') 422 ''opening_is_the_first_row'') (\<lambda>_.
      bindE (require_entity_uuid is_uuid (tr_entity_id p)) (\<lambda>_.
      bindE (require_link_coherence ty tenant_id account (tr_payment_id p) (tr_amount p)) (\<lambda>_.
      bindE (ensure (\<not> sign_error (tr_amount p) trans_type) 422 ''amount_has_the_wrong_sign'') (\<lambda>_.
      unless_integrity (if tr_reference_no p = None then IntegrityError else HttpError 409 ''reference_no_already_on_the_register'') (
        bindE (entity_column (ty_db ty) (tr_entity_id p)) (\<lambda>entity_id.
        post_fin_account_trans ty account \<lparr>po_amount = tr_amount p, po_type = trans_type, po_gross = tr_gross p, po_fee = tr_fee p,
          po_reference_no = tr_reference_no p, po_payment_id = tr_payment_id p, po_entity_type = tr_entity_type p,
          po_entity_id = entity_id, po_created_by = attributed a None\<rparr>))))))))))"

record link_request =
  lk_payment_id :: "uuid option option"
  lk_payment_reference_no :: "string option option"
  lk_entity_type :: "string option option"
  lk_entity_id :: "string option option"

definition stated_or :: "'a option \<Rightarrow> 'a \<Rightarrow> 'a" where
  "stated_or u old = (case u of None \<Rightarrow> old | Some x \<Rightarrow> x)"

definition linked :: "link_request \<Rightarrow> uuid option option \<Rightarrow> fin_trans \<Rightarrow> fin_trans" where
  "linked u entity_id t = t\<lparr>ft_payment_id := stated_or (lk_payment_id u) (ft_payment_id t),
     ft_payment_reference_no := stated_or (lk_payment_reference_no u) (ft_payment_reference_no t),
     ft_entity_type := stated_or (lk_entity_type u) (ft_entity_type t), ft_entity_id := stated_or entity_id (ft_entity_id t)\<rparr>"

definition link_fin_account_trans :: "(string \<Rightarrow> bool) \<Rightarrow> treasury \<Rightarrow> actor \<Rightarrow> uuid \<Rightarrow> link_request \<Rightarrow> treasury result" where
  "link_fin_account_trans is_uuid ty a i u =
     (let tenant_id = ac_tenant_id a in
      bindE (require_treasury a) (\<lambda>_.
      bindE (scoped_trans ty tenant_id i) (\<lambda>trans.
      bindE (require_entity_uuid is_uuid (stated_or (lk_entity_id u) None)) (\<lambda>_.
      bindE (scoped_account ty tenant_id (ft_account_id trans)) (\<lambda>account.
      bindE (require_link_coherence ty tenant_id account (stated_or (lk_payment_id u) None) (ft_amount trans)) (\<lambda>_.
      bindE (case stated_or (lk_payment_reference_no u) None of
               None \<Rightarrow> Inr () | Some n \<Rightarrow> bindE (require_batch_coherence ty tenant_id account n (ft_amount trans)) (\<lambda>_. Inr ())) (\<lambda>_.
      bindE (ensure (\<not> (stated_or (lk_payment_id u) (ft_payment_id trans) \<noteq> None \<and>
               stated_or (lk_payment_reference_no u) (ft_payment_reference_no trans) \<noteq> None)) 422 ''one_payment_or_one_batch'') (\<lambda>_.
      bindE (case lk_entity_id u of None \<Rightarrow> Inr None | Some s \<Rightarrow> bindE (entity_column (ty_db ty) s) (\<lambda>e. Inr (Some e))) (\<lambda>entity_id.
      Inr (ty\<lparr>ty_register := update_rows (\<lambda>t. ft_id t = i) (linked u entity_id) (ty_register ty)\<rparr>))))))))))"

text \<open>The reconciliation queue: what nothing of ours explains yet.\<close>

definition SELF_EXPLAINING_TYPES :: "string list" where
  "SELF_EXPLAINING_TYPES = [''opening'', ''fee'', ''interest'', ''adjustment'', ''transfer_in'', ''transfer_out'']"

definition register_view :: "treasury \<Rightarrow> uuid \<Rightarrow> uuid option \<Rightarrow> bool \<Rightarrow> bool \<Rightarrow> fin_trans list" where
  "register_view ty tenant_id fin_account_id unlinked include_archived_accounts =
     filter (\<lambda>t. ft_tenant_id t = tenant_id \<and>
       (fin_account_id = None \<and> \<not> include_archived_accounts \<longrightarrow>
          list_ex (\<lambda>r. fa_id r = ft_account_id t \<and> fa_status r = ''active'') (ty_accounts ty)) \<and>
       (unlinked \<longrightarrow> ft_payment_id t = None \<and> ft_payment_reference_no t = None \<and> ft_entity_id t = None \<and>
          ft_type t \<notin> set SELF_EXPLAINING_TYPES) \<and>
       (fin_account_id = None \<or> fin_account_id = Some (ft_account_id t))) (ty_register ty)"

subsection \<open>The import of a statement\<close>

record statement_row =
  sr_type :: "string option"
  sr_amount :: money
  sr_gross :: "money option"
  sr_fee :: "money option"
  sr_reference_no :: "string option"

datatype row_outcome = Row_Created | Row_Unchanged uuid | Row_Error string

definition carries_ref :: "string option \<Rightarrow> bool" where
  "carries_ref s \<longleftrightarrow> s \<noteq> None \<and> s \<noteq> Some []"

definition existing_by_ref :: "treasury \<Rightarrow> uuid \<Rightarrow> uuid \<Rightarrow> statement_row list \<Rightarrow> fin_trans list" where
  "existing_by_ref ty tenant_id account_id rows =
     filter (\<lambda>t. ft_tenant_id t = tenant_id \<and> ft_account_id t = account_id \<and>
       list_ex (\<lambda>row. carries_ref (sr_reference_no row) \<and> sr_reference_no row = ft_reference_no t) rows) (ty_register ty)"

definition judge_row :: "fin_trans list \<Rightarrow> string option list \<Rightarrow> statement_row \<Rightarrow> row_outcome" where
  "judge_row existing seen row =
     (if sr_type row = Some ''opening'' then Row_Error ''opening_belongs_to_account_creation''
      else if sign_error (sr_amount row) (derived_type (sr_amount row) (sr_type row)) then Row_Error ''amount_has_the_wrong_sign''
      else if carries_ref (sr_reference_no row) \<and> sr_reference_no row \<in> set seen then Row_Error ''duplicate_reference_no''
      else case (if carries_ref (sr_reference_no row) then find_row (\<lambda>t. ft_reference_no t = sr_reference_no row) (rev existing) else None) of
             None \<Rightarrow> Row_Created
           | Some prior \<Rightarrow> if ft_amount prior = sr_amount row then Row_Unchanged (ft_id prior)
               else Row_Error ''reference_no_already_on_the_register'')"

definition row_posting :: "actor \<Rightarrow> statement_row \<Rightarrow> posting" where
  "row_posting a row = \<lparr>po_amount = sr_amount row, po_type = derived_type (sr_amount row) (sr_type row), po_gross = sr_gross row,
     po_fee = sr_fee row, po_reference_no = sr_reference_no row, po_payment_id = None, po_entity_type = None, po_entity_id = None,
     po_created_by = attributed a None\<rparr>"

text \<open>The rows in turn; the flag says that an error stopped the import.\<close>

fun import_rows ::
    "bool \<Rightarrow> fin_trans list \<Rightarrow> actor \<Rightarrow> fin_account \<Rightarrow> treasury \<Rightarrow> string option list \<Rightarrow> statement_row list \<Rightarrow>
     (treasury \<times> row_outcome list \<times> bool) result" where
  "import_rows abort existing a account ty seen [] = Inr (ty, [], False)"
| "import_rows abort existing a account ty seen (row # rows) =
     (case judge_row existing seen row of
        Row_Unchanged i \<Rightarrow>
          bindE (import_rows abort existing a account ty seen rows) (\<lambda>(ty', rs, ab). Inr (ty', Row_Unchanged i # rs, ab))
      | Row_Created \<Rightarrow>
          bindE (post_fin_account_trans ty account (row_posting a row)) (\<lambda>(_, ty1).
          bindE (import_rows abort existing a account ty1
                   (if carries_ref (sr_reference_no row) then sr_reference_no row # seen else seen) rows) (\<lambda>(ty', rs, ab).
          Inr (ty', Row_Created # rs, ab)))
      | Row_Error e \<Rightarrow>
          if abort then Inr (ty, [Row_Error e], True)
          else bindE (import_rows abort existing a account ty seen rows) (\<lambda>(ty', rs, ab). Inr (ty', Row_Error e # rs, ab)))"

record statement =
  st_account_id :: uuid
  st_rows :: "statement_row list"
  st_dry_run :: bool
  st_abort :: bool

record import_report =
  rp_dry_run :: bool
  rp_applied :: bool
  rp_total :: nat
  rp_created :: nat
  rp_unchanged :: nat
  rp_failed :: nat
  rp_results :: "row_outcome list"

fun row_is_unchanged :: "row_outcome \<Rightarrow> bool" where
  "row_is_unchanged (Row_Unchanged _) = True"
| "row_is_unchanged _ = False"

fun row_is_error :: "row_outcome \<Rightarrow> bool" where
  "row_is_error (Row_Error _) = True"
| "row_is_error _ = False"

definition report_of :: "statement \<Rightarrow> bool \<Rightarrow> row_outcome list \<Rightarrow> import_report" where
  "report_of p applied rs = \<lparr>rp_dry_run = st_dry_run p, rp_applied = applied, rp_total = length (st_rows p),
     rp_created = length (filter (\<lambda>r. r = Row_Created) rs), rp_unchanged = length (filter row_is_unchanged rs),
     rp_failed = length (filter row_is_error rs), rp_results = rs\<rparr>"

definition bulk_import_fin_account_trans :: "treasury \<Rightarrow> actor \<Rightarrow> statement \<Rightarrow> (import_report \<times> treasury) result" where
  "bulk_import_fin_account_trans ty a p =
     bindE (each (\<lambda>row. money_holds_together (sr_amount row) (sr_gross row) (sr_fee row)) (st_rows p)) (\<lambda>_.
     bindE (require_treasury a) (\<lambda>_.
     bindE (require_active_account ty (ac_tenant_id a) (st_account_id p)) (\<lambda>account.
     bindE (import_rows (st_abort p) (existing_by_ref ty (ac_tenant_id a) (fa_id account) (st_rows p)) a account ty [] (st_rows p))
       (\<lambda>(ty', rs, aborted).
     let applied = (\<not> st_dry_run p \<and> \<not> aborted)
     in Inr (report_of p applied rs, if applied then ty' else ty)))))"

end
