(* ===== verification/Treasury_Laws.thy ===== *)
theory Treasury_Laws
  imports Treasury
begin

text \<open>
  What the register keeps: an account's balance is the sum of its lines while amounts come in whole cents,
  a reference is one line, a statement imported once adds nothing when it is imported again.
\<close>

subsection \<open>One posting\<close>

lemma post_fin_account_transE:
  assumes "post_fin_account_trans ty account p = Inr (row, ty')"
  obtains "row = trans_of (ty_db ty) account p" "line_checks row" "list_ex (\<lambda>r. fa_id r = fa_id account) (ty_accounts ty)"
    "\<not> list_ex (same_reference row) (ty_register ty)"
    "ty' = ty\<lparr>ty_db := tick (ty_db ty), ty_register := ty_register ty @ [row],
       ty_accounts := update_rows (\<lambda>r. fa_id r = fa_id account)
         (\<lambda>r. r\<lparr>fa_balance := column_cents (fa_balance r + po_amount p)\<rparr>) (ty_accounts ty)\<rparr>"
  using assms by (auto simp: post_fin_account_trans_def Let_def result_simps split: if_splits)

definition fin_balance :: "treasury \<Rightarrow> uuid \<Rightarrow> money" where
  "fin_balance ty k = (case find_row (\<lambda>r. fa_id r = k) (ty_accounts ty) of None \<Rightarrow> 0 | Some r \<Rightarrow> fa_balance r)"

definition fin_ledger :: "treasury \<Rightarrow> uuid \<Rightarrow> money" where
  "fin_ledger ty k = sum_where (\<lambda>t. ft_account_id t = k) ft_amount (ty_register ty)"

definition balances_in_cents :: "treasury \<Rightarrow> bool" where
  "balances_in_cents ty \<longleftrightarrow> (\<forall>r \<in> set (ty_accounts ty). in_cents (fa_balance r))"

definition post_line :: "fin_account \<times> posting \<Rightarrow> treasury \<Rightarrow> treasury result" where
  "post_line = (\<lambda>(account, p) ty. bindE (post_fin_account_trans ty account p) (\<lambda>(_, ty'). Inr ty'))"

interpretation cash: running_total fin_balance fin_ledger post_line
  "\<lambda>(account, p) ty k. if k = fa_id account then po_amount p else 0"
  "\<lambda>(account, p). in_cents (po_amount p)" balances_in_cents
proof
  fix s s' :: treasury and op :: "fin_account \<times> posting" and k :: uuid
  assume ok: "balances_in_cents s" and sound: "case op of (account, p) \<Rightarrow> in_cents (po_amount p)"
    and step: "post_line op s = Inr s'"
  obtain account p where op: "op = (account, p)" by (cases op)
  from step op obtain row where post: "post_fin_account_trans s account p = Inr (row, s')"
    by (auto simp: post_line_def result_simps)
  from post obtain here: "list_ex (\<lambda>r. fa_id r = fa_id account) (ty_accounts s)" and row: "row = trans_of (ty_db s) account p"
    and s': "s' = s\<lparr>ty_db := tick (ty_db s), ty_register := ty_register s @ [row],
       ty_accounts := update_rows (\<lambda>r. fa_id r = fa_id account)
         (\<lambda>r. r\<lparr>fa_balance := column_cents (fa_balance r + po_amount p)\<rparr>) (ty_accounts s)\<rparr>"
    by (rule post_fin_account_transE)
  have cents: "in_cents (po_amount p)" using sound op by simp
  have moved: "column_cents (fa_balance r + po_amount p) = fa_balance r + po_amount p" if "r \<in> set (ty_accounts s)" for r
    using ok cents that by (simp add: balances_in_cents_def column_cents_id in_cents_add)
  show "fin_balance s' k = fin_balance s k + (case op of (account, p) \<Rightarrow> \<lambda>ty k. if k = fa_id account then po_amount p else 0) s k"
  proof (cases "k = fa_id account")
    case True
    from here obtain r where r: "find_row (\<lambda>r. fa_id r = k) (ty_accounts s) = Some r"
      using True by (cases "find_row (\<lambda>r. fa_id r = k) (ty_accounts s)") (auto simp: find_row_None_iff list_ex_iff)
    then have "r \<in> set (ty_accounts s)" by (rule find_row_Some [THEN conjunct1])
    moreover have "find_row (\<lambda>r. fa_id r = k) (ty_accounts s') =
        Some (r\<lparr>fa_balance := column_cents (fa_balance r + po_amount p)\<rparr>)"
      unfolding s' using r True
      by (simp add: find_row_update_same [of "\<lambda>r. fa_id r = fa_id account" _ "\<lambda>r. fa_id r = fa_id account"])
    ultimately show ?thesis using r True moved by (simp add: fin_balance_def op)
  next
    case False
    then have "find_row (\<lambda>r. fa_id r = k) (ty_accounts s') = find_row (\<lambda>r. fa_id r = k) (ty_accounts s)"
      unfolding s' by (simp add: find_row_update_other [of "\<lambda>r. fa_id r = fa_id account"])
    with False show ?thesis by (simp add: fin_balance_def op)
  qed
  show "fin_ledger s' k = fin_ledger s k + (case op of (account, p) \<Rightarrow> \<lambda>ty k. if k = fa_id account then po_amount p else 0) s k"
    using cents by (auto simp: fin_ledger_def s' op row trans_of_def column_cents_id)
  show "balances_in_cents s'"
    using ok moved cents by (auto simp: balances_in_cents_def s' update_rows_def in_cents_add)
qed

subsection \<open>Sound books\<close>

definition sound_treasury :: "treasury \<Rightarrow> bool" where
  "sound_treasury ty \<longleftrightarrow> distinct (map fa_id (ty_accounts ty)) \<and> balances_in_cents ty \<and>
     (\<forall>t \<in> set (ty_register ty). ft_account_id t \<in> fa_id ` set (ty_accounts ty)) \<and> inj (db_uuids (ty_db ty)) \<and>
     (\<forall>n \<ge> db_next (ty_db ty). db_uuids (ty_db ty) n \<notin> fa_id ` set (ty_accounts ty))"

definition books_balance :: "treasury \<Rightarrow> bool" where
  "books_balance ty \<longleftrightarrow>
     (\<forall>r \<in> set (ty_accounts ty). fa_balance r = sum_where (\<lambda>t. ft_account_id t = fa_id r) ft_amount (ty_register ty))"

lemma find_own_row:
  assumes "distinct (map k rs)" and "r \<in> set rs"
  shows "find_row (\<lambda>x. k x = k r) rs = Some r"
  using assms by (induction rs) auto

lemma books_balance_iff:
  assumes "distinct (map fa_id (ty_accounts ty))"
  shows "books_balance ty \<longleftrightarrow> (\<forall>k \<in> fa_id ` set (ty_accounts ty). fin_balance ty k = fin_ledger ty k)"
  using find_own_row [OF assms] by (simp add: books_balance_def fin_balance_def fin_ledger_def)

lemma post_keeps_ids:
  assumes "post_fin_account_trans ty account p = Inr (row, ty')"
  shows "map fa_id (ty_accounts ty') = map fa_id (ty_accounts ty)" "db_uuids (ty_db ty') = db_uuids (ty_db ty)"
    "db_next (ty_db ty') = Suc (db_next (ty_db ty))" "ty_register ty' = ty_register ty @ [row]"
    "ft_account_id row \<in> fa_id ` set (ty_accounts ty)"
proof -
  from assms obtain row: "row = trans_of (ty_db ty) account p"
    and here: "list_ex (\<lambda>r. fa_id r = fa_id account) (ty_accounts ty)"
    and ty': "ty' = ty\<lparr>ty_db := tick (ty_db ty), ty_register := ty_register ty @ [row],
       ty_accounts := update_rows (\<lambda>r. fa_id r = fa_id account)
         (\<lambda>r. r\<lparr>fa_balance := column_cents (fa_balance r + po_amount p)\<rparr>) (ty_accounts ty)\<rparr>"
    by (rule post_fin_account_transE)
  show "map fa_id (ty_accounts ty') = map fa_id (ty_accounts ty)" "db_uuids (ty_db ty') = db_uuids (ty_db ty)"
    "db_next (ty_db ty') = Suc (db_next (ty_db ty))" "ty_register ty' = ty_register ty @ [row]"
    unfolding ty' by (simp_all add: map_update_rows_same tick_def)
  from here obtain r where "r \<in> set (ty_accounts ty)" "fa_id r = fa_id account" by (auto simp: list_ex_iff)
  moreover have "ft_account_id row = fa_id account" by (simp add: row trans_of_def)
  ultimately show "ft_account_id row \<in> fa_id ` set (ty_accounts ty)" by (metis image_eqI)
qed

lemma post_keeps:
  assumes "sound_treasury ty \<and> books_balance ty" and "in_cents (po_amount p)"
    and "post_fin_account_trans ty account p = Inr (row, ty')"
  shows "sound_treasury ty' \<and> books_balance ty'"
proof -
  note kept = post_keeps_ids [OF assms(3)]
  from kept(1) have ids: "fa_id ` set (ty_accounts ty') = fa_id ` set (ty_accounts ty)" by (metis set_map)
  have step: "post_line (account, p) ty = Inr ty'" using assms(3) by (simp add: post_line_def)
  have cents: "balances_in_cents ty" using assms(1) by (simp add: sound_treasury_def)
  have "balances_in_cents ty'" using cash.ok_commit [OF cents _ step] assms(2) by simp
  then have sound: "sound_treasury ty'" using assms(1) kept ids by (auto simp: sound_treasury_def)
  have before: "fin_balance ty k = fin_ledger ty k" if "k \<in> fa_id ` set (ty_accounts ty)" for k
    using that assms(1) books_balance_iff [of ty] unfolding sound_treasury_def by blast
  have "fin_balance ty' k = fin_ledger ty' k" if "k \<in> fa_id ` set (ty_accounts ty')" for k
    by (rule cash.commit_reconciles [OF cents _ step before]) (use assms(2) that ids in simp_all)
  then have "books_balance ty'" using sound books_balance_iff [of ty'] by (simp add: sound_treasury_def)
  with sound show ?thesis ..
qed

lemma import_rows_invariant:
  assumes "import_rows abort existing a account ty seen rows = Inr (ty', rs, ab)" and "P ty"
    and "\<And>row s r t. row \<in> set rows \<Longrightarrow> P s \<Longrightarrow> post_fin_account_trans s account (row_posting a row) = Inr (r, t) \<Longrightarrow> P t"
  shows "P ty'"
  using assms
proof (induction rows arbitrary: ty seen ty' rs ab)
  case (Cons row rows)
  note step = Cons.prems(3)
  show ?case
  proof (cases "judge_row existing seen row")
    case Row_Created
    with Cons.prems(1) obtain r ty1 rs' where post: "post_fin_account_trans ty account (row_posting a row) = Inr (r, ty1)"
      and rest: "import_rows abort existing a account ty1 (if carries_ref (sr_reference_no row) then sr_reference_no row # seen else seen) rows
        = Inr (ty', rs', ab)"
      by (auto simp: result_simps)
    have "P ty1" using step [OF _ Cons.prems(2) post] by simp
    with rest show ?thesis by (rule Cons.IH) (use step in auto)
  next
    case (Row_Unchanged i)
    with Cons.prems(1) obtain rs' where "import_rows abort existing a account ty seen rows = Inr (ty', rs', ab)"
      by (auto simp: result_simps)
    then show ?thesis using Cons.prems(2) by (rule Cons.IH) (use step in auto)
  next
    case (Row_Error e)
    show ?thesis
    proof (cases abort)
      case True
      with Row_Error Cons.prems(1,2) show ?thesis by simp
    next
      case False
      with Row_Error Cons.prems(1) obtain rs' where "import_rows abort existing a account ty seen rows = Inr (ty', rs', ab)"
        by (auto simp: result_simps)
      then show ?thesis using Cons.prems(2) by (rule Cons.IH) (use step in auto)
    qed
  qed
qed simp

end
