(* ===== verification/Treasury_History.thy ===== *)
theory Treasury_History
  imports Treasury_Laws
begin

text \<open>
  Any history of the treasury handlers, refused calls and outside changes of payments included.
\<close>

datatype treasury_event =
    Open_Account fin_account_request
  | Change_Account uuid fin_account_update
  | Archive_Account uuid
  | Post_Line trans_request
  | Link_Line uuid link_request
  | Import_Statement statement
  | Elsewhere "row list" nat

fun treasury_step :: "(string \<Rightarrow> bool) \<Rightarrow> treasury \<Rightarrow> actor \<Rightarrow> treasury_event \<Rightarrow> treasury result" where
  "treasury_step is_uuid ty a (Open_Account p) = create_fin_account ty a p"
| "treasury_step is_uuid ty a (Change_Account i u) = update_fin_account ty a i u"
| "treasury_step is_uuid ty a (Archive_Account i) = delete_fin_account ty a i"
| "treasury_step is_uuid ty a (Post_Line p) = bindE (create_fin_account_trans is_uuid ty a p) (\<lambda>(r, ty'). Inr ty')"
| "treasury_step is_uuid ty a (Link_Line i u) = link_fin_account_trans is_uuid ty a i u"
| "treasury_step is_uuid ty a (Import_Statement p) = bindE (bulk_import_fin_account_trans ty a p) (\<lambda>(rp, ty'). Inr ty')"
| "treasury_step is_uuid ty a (Elsewhere rows ids) =
     Inr (ty\<lparr>ty_db := (ty_db ty)\<lparr>db_rows := rows, db_next := db_next (ty_db ty) + ids\<rparr>\<rparr>)"

fun run_treasury :: "(string \<Rightarrow> bool) \<Rightarrow> treasury \<Rightarrow> (actor \<times> treasury_event) list \<Rightarrow> treasury" where
  "run_treasury is_uuid ty [] = ty"
| "run_treasury is_uuid ty ((a, e) # es) =
     run_treasury is_uuid (case treasury_step is_uuid ty a e of Inl _ \<Rightarrow> ty | Inr ty' \<Rightarrow> ty') es"

lemma run_treasury_invariant:
  assumes "P ty" and "list_all (\<lambda>(a, e). Q e) es"
    and "\<And>ty a e ty'. P ty \<Longrightarrow> Q e \<Longrightarrow> treasury_step is_uuid ty a e = Inr ty' \<Longrightarrow> P ty'"
  shows "P (run_treasury is_uuid ty es)"
  using assms(1,2)
proof (induction es arbitrary: ty)
  case (Cons ae es)
  obtain a e where ae: "ae = (a, e)" by (cases ae)
  with Cons.prems(2) have e: "Q e" by simp
  show ?case
  proof (cases "treasury_step is_uuid ty a e")
    case (Inr ty')
    with assms(3) [OF Cons.prems(1) e] Cons.IH [of ty'] Cons.prems(2) show ?thesis by (simp add: ae)
  qed (use Cons in \<open>simp add: ae\<close>)
qed simp

subsection \<open>What each call is made of\<close>

lemma unless_integrity_Inr: "unless_integrity e m = Inr x \<longleftrightarrow> m = Inr x"
  by (auto simp: unless_integrity_def split: sum.splits)

lemma create_transE:
  assumes "create_fin_account_trans is_uuid ty a p = Inr (r, ty')"
  obtains account q where "post_fin_account_trans ty account q = Inr (r, ty')" "po_amount q = tr_amount p"
proof -
  from assms obtain account entity_id where "post_fin_account_trans ty account \<lparr>po_amount = tr_amount p,
      po_type = derived_type (tr_amount p) (tr_type p), po_gross = tr_gross p, po_fee = tr_fee p,
      po_reference_no = tr_reference_no p, po_payment_id = tr_payment_id p, po_entity_type = tr_entity_type p,
      po_entity_id = entity_id, po_created_by = attributed a None\<rparr> = Inr (r, ty')"
    unfolding create_fin_account_trans_def Let_def bindE_Inr_iff unless_integrity_Inr by (elim exE conjE) (rule that)
  then show ?thesis by (rule that) simp
qed

lemma importE:
  assumes "bulk_import_fin_account_trans ty a p = Inr (rp, ty')"
  obtains account ty1 rs aborted where
    "require_active_account ty (ac_tenant_id a) (st_account_id p) = Inr account"
    "import_rows (st_abort p) (existing_by_ref ty (ac_tenant_id a) (fa_id account) (st_rows p)) a account ty [] (st_rows p) =
       Inr (ty1, rs, aborted)"
    "rp = report_of p (\<not> st_dry_run p \<and> \<not> aborted) rs" "ty' = (if \<not> st_dry_run p \<and> \<not> aborted then ty1 else ty)"
  using assms by (auto simp: bulk_import_fin_account_trans_def Let_def result_simps split: if_splits)

subsection \<open>The books balance\<close>

lemma create_account_keeps:
  assumes kept: "sound_treasury ty \<and> books_balance ty" and step: "create_fin_account ty a p = Inr ty'"
    and cents: "\<And>x. fr_opening_balance p = Some x \<Longrightarrow> in_cents x"
  shows "sound_treasury ty' \<and> books_balance ty'"
proof -
  let ?account = "\<lparr>fa_id = fresh_id (ty_db ty), fa_tenant_id = ac_tenant_id a, fa_name = fr_name p,
           fa_account_type = fr_account_type p, fa_currency = fr_currency p, fa_balance = 0, fa_status = fr_status p\<rparr>"
  let ?ty = "ty\<lparr>ty_db := tick (ty_db ty), ty_accounts := ty_accounts ty @ [?account]\<rparr>"
  from step have end_: "(case fr_opening_balance p of None \<Rightarrow> Inr ?ty | Some x \<Rightarrow> if x = 0 then Inr ?ty
               else bindE (post_fin_account_trans ?ty ?account (opening_posting a x)) (\<lambda>(_, ty''). Inr ty'')) = Inr ty'"
    unfolding create_fin_account_def Let_def bindE_Inr_iff unless_integrity_Inr by blast
  have new: "fresh_id (ty_db ty) \<notin> fa_id ` set (ty_accounts ty)" using kept by (auto simp: sound_treasury_def fresh_id_def)
  have later: "\<forall>n \<ge> Suc (db_next (ty_db ty)). db_uuids (ty_db ty) n \<notin> insert (fresh_id (ty_db ty)) (fa_id ` set (ty_accounts ty))"
  proof (intro allI impI)
    fix n
    assume "Suc (db_next (ty_db ty)) \<le> n"
    then have "n \<noteq> db_next (ty_db ty)" "db_next (ty_db ty) \<le> n" by simp_all
    then show "db_uuids (ty_db ty) n \<notin> insert (fresh_id (ty_db ty)) (fa_id ` set (ty_accounts ty))"
      using kept by (simp add: sound_treasury_def fresh_id_def inj_eq)
  qed
  have none: "sum_where (\<lambda>t. ft_account_id t = fresh_id (ty_db ty)) ft_amount (ty_register ty) = 0"
    by (rule sum_where_none) (use kept new in \<open>unfold sound_treasury_def, metis\<close>)
  have "sound_treasury ?ty"
    using kept new later by (auto simp: sound_treasury_def balances_in_cents_def tick_def)
  moreover have "books_balance ?ty" using kept none by (simp add: books_balance_def)
  ultimately have keep: "sound_treasury ?ty \<and> books_balance ?ty" ..
  show ?thesis
  proof (cases "fr_opening_balance p")
    case None
    with end_ keep show ?thesis by simp
  next
    case (Some x)
    show ?thesis
    proof (cases "x = 0")
      case False
      with end_ Some obtain r where post: "post_fin_account_trans ?ty ?account (opening_posting a x) = Inr (r, ty')"
        by (auto simp: result_simps)
      have "in_cents (po_amount (opening_posting a x))" using cents [OF Some] by (simp add: opening_posting_def)
      from post_keeps [OF keep this post] show ?thesis .
    qed (use end_ Some keep in simp)
  qed
qed

lemma change_accounts_keeps:
  assumes kept: "sound_treasury ty \<and> books_balance ty" and same: "\<And>r. fa_id (g r) = fa_id r \<and> fa_balance (g r) = fa_balance r"
  shows "sound_treasury (ty\<lparr>ty_accounts := update_rows P g (ty_accounts ty)\<rparr>) \<and>
    books_balance (ty\<lparr>ty_accounts := update_rows P g (ty_accounts ty)\<rparr>)"
proof -
  have "map fa_id (update_rows P g (ty_accounts ty)) = map fa_id (ty_accounts ty)"
    by (rule map_update_rows_same) (simp add: same)
  moreover from this have "fa_id ` set (update_rows P g (ty_accounts ty)) = fa_id ` set (ty_accounts ty)" by (metis set_map)
  moreover have "balances_in_cents (ty\<lparr>ty_accounts := update_rows P g (ty_accounts ty)\<rparr>)"
    using kept same by (auto simp: sound_treasury_def balances_in_cents_def update_rows_def)
  moreover have "books_balance (ty\<lparr>ty_accounts := update_rows P g (ty_accounts ty)\<rparr>)"
    using kept same by (auto simp: books_balance_def update_rows_def)
  ultimately show ?thesis using kept by (simp add: sound_treasury_def)
qed

lemma change_lines_keeps:
  assumes kept: "sound_treasury ty \<and> books_balance ty" and same: "\<And>t. ft_account_id (g t) = ft_account_id t \<and> ft_amount (g t) = ft_amount t"
  shows "sound_treasury (ty\<lparr>ty_register := update_rows P g (ty_register ty)\<rparr>) \<and>
    books_balance (ty\<lparr>ty_register := update_rows P g (ty_register ty)\<rparr>)"
proof -
  have lines: "\<forall>t \<in> set (update_rows P g (ty_register ty)). ft_account_id t \<in> fa_id ` set (ty_accounts ty)"
    using kept by (auto simp: update_rows_def same sound_treasury_def)
  have "sum_where (\<lambda>t. ft_account_id t = k) ft_amount (update_rows P g ts) = sum_where (\<lambda>t. ft_account_id t = k) ft_amount ts" for k ts
    by (induction ts) (simp_all add: same)
  then have "books_balance (ty\<lparr>ty_register := update_rows P g (ty_register ty)\<rparr>)" using kept by (simp add: books_balance_def)
  moreover have "sound_treasury (ty\<lparr>ty_register := update_rows P g (ty_register ty)\<rparr>)"
    using kept lines by (simp add: sound_treasury_def balances_in_cents_def)
  ultimately show ?thesis by blast
qed

lemma linked_same: "ft_account_id (linked u e t) = ft_account_id t \<and> ft_amount (linked u e t) = ft_amount t"
  "ft_tenant_id (linked u e t) = ft_tenant_id t" "ft_reference_no (linked u e t) = ft_reference_no t"
  by (simp_all add: linked_def)

text \<open>Events whose amounts are whole cents.\<close>

fun event_in_cents :: "treasury_event \<Rightarrow> bool" where
  "event_in_cents (Open_Account p) = (case fr_opening_balance p of None \<Rightarrow> True | Some x \<Rightarrow> in_cents x)"
| "event_in_cents (Post_Line p) = in_cents (tr_amount p)"
| "event_in_cents (Import_Statement p) = list_all (\<lambda>r. in_cents (sr_amount r)) (st_rows p)"
| "event_in_cents _ = True"

lemma linkE:
  assumes "link_fin_account_trans is_uuid ty a i u = Inr ty'"
  obtains entity_id where "ty' = ty\<lparr>ty_register := update_rows (\<lambda>t. ft_id t = i) (linked u entity_id) (ty_register ty)\<rparr>"
proof -
  from assms obtain entity_id where "Inr (ty\<lparr>ty_register := update_rows (\<lambda>t. ft_id t = i) (linked u entity_id) (ty_register ty)\<rparr>) =
      (Inr ty' :: treasury result)"
    unfolding link_fin_account_trans_def Let_def bindE_Inr_iff by (elim exE conjE) (rule that)
  then have "ty' = ty\<lparr>ty_register := update_rows (\<lambda>t. ft_id t = i) (linked u entity_id) (ty_register ty)\<rparr>" by simp
  then show ?thesis by (rule that)
qed

lemma treasury_step_keeps:
  assumes kept: "sound_treasury ty \<and> books_balance ty" and cents: "event_in_cents e" and step: "treasury_step is_uuid ty a e = Inr ty'"
  shows "sound_treasury ty' \<and> books_balance ty'"
proof (cases e)
  case (Open_Account p)
  from kept step [unfolded Open_Account treasury_step.simps] show ?thesis
    by (rule create_account_keeps) (use cents Open_Account in simp)
next
  case (Change_Account i u)
  with step have "update_fin_account ty a i u = Inr ty'" by simp
  then have ty': "ty' = ty\<lparr>ty_accounts := update_rows (\<lambda>r. fa_id r = i) (updated_account u) (ty_accounts ty)\<rparr>"
    unfolding update_fin_account_def bindE_Inr_iff by blast
  show ?thesis unfolding ty' by (rule change_accounts_keeps [OF kept]) (simp add: updated_account_def)
next
  case (Archive_Account i)
  with step have "delete_fin_account ty a i = Inr ty'" by simp
  then have ty': "ty' = ty\<lparr>ty_accounts := update_rows (\<lambda>r. fa_id r = i) (\<lambda>r. r\<lparr>fa_status := ''archived''\<rparr>) (ty_accounts ty)\<rparr>"
    unfolding delete_fin_account_def bindE_Inr_iff by blast
  show ?thesis unfolding ty' by (rule change_accounts_keeps [OF kept]) simp
next
  case (Post_Line p)
  with step obtain r where "create_fin_account_trans is_uuid ty a p = Inr (r, ty')" by (auto simp: result_simps)
  then obtain account q where post: "post_fin_account_trans ty account q = Inr (r, ty')" and q: "po_amount q = tr_amount p"
    by (rule create_transE)
  have "in_cents (po_amount q)" using cents Post_Line q by simp
  from kept this post show ?thesis by (rule post_keeps)
next
  case (Link_Line i u)
  with step have "link_fin_account_trans is_uuid ty a i u = Inr ty'" by simp
  then obtain entity_id where ty': "ty' = ty\<lparr>ty_register := update_rows (\<lambda>t. ft_id t = i) (linked u entity_id) (ty_register ty)\<rparr>"
    by (rule linkE)
  show ?thesis unfolding ty' by (rule change_lines_keeps [OF kept]) (rule linked_same)
next
  case (Import_Statement p)
  with step obtain rp where "bulk_import_fin_account_trans ty a p = Inr (rp, ty')" by (auto simp: result_simps)
  then obtain account ty1 rs aborted where
    rows: "import_rows (st_abort p) (existing_by_ref ty (ac_tenant_id a) (fa_id account) (st_rows p)) a account ty [] (st_rows p) =
       Inr (ty1, rs, aborted)" and ty': "ty' = (if \<not> st_dry_run p \<and> \<not> aborted then ty1 else ty)"
    by (rule importE)
  have "sound_treasury ty1 \<and> books_balance ty1"
  proof (rule import_rows_invariant [OF rows, where P = "\<lambda>ty. sound_treasury ty \<and> books_balance ty"])
    fix row s r t
    assume row: "row \<in> set (st_rows p)" and s: "sound_treasury s \<and> books_balance s"
      and post: "post_fin_account_trans s account (row_posting a row) = Inr (r, t)"
    have "in_cents (po_amount (row_posting a row))" using cents row Import_Statement by (auto simp: list_all_iff row_posting_def)
    from s this post show "sound_treasury t \<and> books_balance t" by (rule post_keeps)
  qed (rule kept)
  with kept ty' show ?thesis by (simp split: if_splits)
next
  case (Elsewhere rows ids)
  with step have ty': "ty' = ty\<lparr>ty_db := (ty_db ty)\<lparr>db_rows := rows, db_next := db_next (ty_db ty) + ids\<rparr>\<rparr>" by simp
  have "sound_treasury ty'" using kept unfolding ty' sound_treasury_def balances_in_cents_def by simp
  moreover have "books_balance ty'" using kept unfolding ty' books_balance_def by simp
  ultimately show ?thesis ..
qed

text \<open>C24: Whatever accounts are opened, renamed and archived, whatever lines are posted, linked and imported,
  by any callers, refused calls included, and whatever happens to the payments meanwhile: every account's
  balance is the sum of its register, as long as amounts come in whole cents.\<close>

theorem every_balance_is_its_register:
  assumes "sound_treasury ty" and "books_balance ty" and "list_all (\<lambda>(a, e). event_in_cents e) es"
  shows "books_balance (run_treasury is_uuid ty es)"
proof -
  have "sound_treasury (run_treasury is_uuid ty es) \<and> books_balance (run_treasury is_uuid ty es)"
    by (rule run_treasury_invariant [OF _ assms(3)]) (use assms(1,2) treasury_step_keeps in blast)+
  then show ?thesis ..
qed

subsection \<open>A reference is one line\<close>

definition landed :: "treasury \<Rightarrow> uuid \<Rightarrow> uuid \<Rightarrow> string option \<Rightarrow> bool" where
  "landed ty tenant_id i n \<longleftrightarrow>
     list_ex (\<lambda>x. ft_tenant_id x = tenant_id \<and> ft_account_id x = i \<and> ft_reference_no x = n) (ty_register ty)"

lemma post_lands:
  assumes "post_fin_account_trans ty account p = Inr (row, ty')"
  shows "landed ty t i n \<Longrightarrow> landed ty' t i n" "landed ty' (fa_tenant_id account) (fa_id account) (po_reference_no p)"
proof -
  from assms obtain "row = trans_of (ty_db ty) account p" by (rule post_fin_account_transE)
  with post_keeps_ids(4) [OF assms] show "landed ty t i n \<Longrightarrow> landed ty' t i n"
    "landed ty' (fa_tenant_id account) (fa_id account) (po_reference_no p)"
    by (simp_all add: landed_def trans_of_def)
qed

lemma import_keeps_landed:
  assumes "import_rows abort existing a account ty seen rows = Inr (ty', rs, ab)" and "landed ty t i n"
  shows "landed ty' t i n"
  by (rule import_rows_invariant [OF assms(1), where P = "\<lambda>ty. landed ty t i n"]) (use assms(2) post_lands(1) in auto)

lemma treasury_step_lands:
  assumes before: "landed ty t i n" and step: "treasury_step is_uuid ty a e = Inr ty'"
  shows "landed ty' t i n"
proof (cases e)
  case (Open_Account p)
  let ?account = "\<lparr>fa_id = fresh_id (ty_db ty), fa_tenant_id = ac_tenant_id a, fa_name = fr_name p,
           fa_account_type = fr_account_type p, fa_currency = fr_currency p, fa_balance = 0, fa_status = fr_status p\<rparr>"
  let ?ty = "ty\<lparr>ty_db := tick (ty_db ty), ty_accounts := ty_accounts ty @ [?account]\<rparr>"
  have opened: "landed ?ty t i n" using before by (simp add: landed_def)
  from step Open_Account have "create_fin_account ty a p = Inr ty'" by simp
  then have end_: "(case fr_opening_balance p of None \<Rightarrow> Inr ?ty | Some x \<Rightarrow> if x = 0 then Inr ?ty
               else bindE (post_fin_account_trans ?ty ?account (opening_posting a x)) (\<lambda>(_, ty''). Inr ty'')) = Inr ty'"
    unfolding create_fin_account_def Let_def bindE_Inr_iff unless_integrity_Inr by blast
  then consider "ty' = ?ty" | x r where "post_fin_account_trans ?ty ?account (opening_posting a x) = Inr (r, ty')"
    by (auto simp: result_simps split: option.splits if_splits)
  then show ?thesis using opened by cases (simp_all add: post_lands)
next
  case (Change_Account j u)
  with step have "update_fin_account ty a j u = Inr ty'" by simp
  then have "ty' = ty\<lparr>ty_accounts := update_rows (\<lambda>r. fa_id r = j) (updated_account u) (ty_accounts ty)\<rparr>"
    unfolding update_fin_account_def bindE_Inr_iff by blast
  with before show ?thesis by (simp add: landed_def)
next
  case (Archive_Account j)
  with step have "delete_fin_account ty a j = Inr ty'" by simp
  then have "ty' = ty\<lparr>ty_accounts := update_rows (\<lambda>r. fa_id r = j) (\<lambda>r. r\<lparr>fa_status := ''archived''\<rparr>) (ty_accounts ty)\<rparr>"
    unfolding delete_fin_account_def bindE_Inr_iff by blast
  with before show ?thesis by (simp add: landed_def)
next
  case (Post_Line p)
  with step obtain r where "create_fin_account_trans is_uuid ty a p = Inr (r, ty')" by (auto simp: result_simps)
  then show ?thesis using before post_lands(1) by (metis create_transE)
next
  case (Link_Line j u)
  with step have "link_fin_account_trans is_uuid ty a j u = Inr ty'" by simp
  then obtain entity_id where "ty' = ty\<lparr>ty_register := update_rows (\<lambda>t. ft_id t = j) (linked u entity_id) (ty_register ty)\<rparr>"
    by (rule linkE)
  moreover have "list_ex (\<lambda>x. ft_tenant_id x = t \<and> ft_account_id x = i \<and> ft_reference_no x = n)
      (update_rows (\<lambda>t. ft_id t = j) (linked u entity_id) ts) =
    list_ex (\<lambda>x. ft_tenant_id x = t \<and> ft_account_id x = i \<and> ft_reference_no x = n) ts" for ts
    by (induction ts) (simp_all add: linked_same)
  ultimately show ?thesis using before by (simp add: landed_def)
next
  case (Import_Statement p)
  with step obtain rp where "bulk_import_fin_account_trans ty a p = Inr (rp, ty')" by (auto simp: result_simps)
  then obtain account ty1 rs aborted where
    rows: "import_rows (st_abort p) (existing_by_ref ty (ac_tenant_id a) (fa_id account) (st_rows p)) a account ty [] (st_rows p) =
       Inr (ty1, rs, aborted)" and ty': "ty' = (if \<not> st_dry_run p \<and> \<not> aborted then ty1 else ty)"
    by (rule importE)
  from rows before have "landed ty1 t i n" by (rule import_keeps_landed)
  with before ty' show ?thesis by simp
next
  case (Elsewhere rows ids)
  with step before show ?thesis by (auto simp: landed_def)
qed

definition postable :: "statement_row \<Rightarrow> bool" where
  "postable row \<longleftrightarrow> sr_type row \<noteq> Some ''opening'' \<and> \<not> sign_error (sr_amount row) (derived_type (sr_amount row) (sr_type row))"

lemma judge_row_created:
  assumes "judge_row existing seen row = Row_Created"
  shows "postable row" "carries_ref (sr_reference_no row) \<Longrightarrow> \<forall>x \<in> set existing. ft_reference_no x \<noteq> sr_reference_no row"
  using assms by (auto simp: judge_row_def postable_def find_row_None_iff split: if_splits option.splits)

lemma judge_row_known:
  assumes "judge_row existing seen row \<noteq> Row_Created" and "postable row" and "carries_ref (sr_reference_no row)"
  shows "sr_reference_no row \<in> set seen \<or> (\<exists>x \<in> set existing. ft_reference_no x = sr_reference_no row)"
proof (rule ccontr)
  assume "\<not> ?thesis"
  then have "sr_reference_no row \<notin> set seen" "find_row (\<lambda>t. ft_reference_no t = sr_reference_no row) (rev existing) = None"
    by (auto simp: find_row_None_iff)
  then show False using assms by (simp add: judge_row_def postable_def)
qed

lemma import_rows_lands:
  assumes "import_rows abort existing a account ty seen rows = Inr (ty', rs, False)"
    and "\<forall>x \<in> set existing. landed ty (fa_tenant_id account) (fa_id account) (ft_reference_no x)"
    and "\<forall>n \<in> set seen. landed ty (fa_tenant_id account) (fa_id account) n"
  shows "\<forall>row \<in> set rows. postable row \<and> carries_ref (sr_reference_no row) \<longrightarrow>
    landed ty' (fa_tenant_id account) (fa_id account) (sr_reference_no row)"
  using assms
proof (induction rows arbitrary: ty seen ty' rs)
  case (Cons row rows)
  let ?landed = "\<lambda>ty n. landed ty (fa_tenant_id account) (fa_id account) n"
  show ?case
  proof (cases "judge_row existing seen row = Row_Created")
    case True
    let ?seen = "if carries_ref (sr_reference_no row) then sr_reference_no row # seen else seen"
    from True Cons.prems(1) obtain r ty1 rs' where post: "post_fin_account_trans ty account (row_posting a row) = Inr (r, ty1)"
      and rest: "import_rows abort existing a account ty1 ?seen rows = Inr (ty', rs', False)"
      by (auto simp: result_simps)
    have own: "?landed ty1 (sr_reference_no row)" using post_lands(2) [OF post] by (simp add: row_posting_def)
    have more: "?landed ty1 n" if "?landed ty n" for n using post_lands(1) [OF post that] .
    from rest own have "?landed ty' (sr_reference_no row)" by (rule import_keeps_landed)
    moreover have "\<forall>row \<in> set rows. postable row \<and> carries_ref (sr_reference_no row) \<longrightarrow> ?landed ty' (sr_reference_no row)"
      by (rule Cons.IH [OF rest]) (use Cons.prems(2,3) more own in auto)
    ultimately show ?thesis by simp
  next
    case False
    with Cons.prems(1) obtain rs' where rest: "import_rows abort existing a account ty seen rows = Inr (ty', rs', False)"
      by (cases "judge_row existing seen row") (auto simp: result_simps split: if_splits)
    have "?landed ty' (sr_reference_no row)" if "postable row" "carries_ref (sr_reference_no row)"
    proof -
      have "?landed ty (sr_reference_no row)" using judge_row_known [OF False that] Cons.prems(2,3) by metis
      with rest show ?thesis by (rule import_keeps_landed)
    qed
    moreover have "\<forall>row \<in> set rows. postable row \<and> carries_ref (sr_reference_no row) \<longrightarrow> ?landed ty' (sr_reference_no row)"
      by (rule Cons.IH [OF rest]) (use Cons.prems(2,3) in auto)
    ultimately show ?thesis by simp
  qed
qed simp

lemma import_rows_nothing:
  assumes "\<And>row. row \<in> set rows \<Longrightarrow> judge_row existing seen row \<noteq> Row_Created"
  shows "\<exists>rs ab. import_rows abort existing a account ty seen rows = Inr (ty, rs, ab) \<and> Row_Created \<notin> set rs"
  using assms
proof (induction rows)
  case Nil
  show ?case by (intro exI [of _ "[]"] exI [of _ False]) simp
next
  case (Cons row rows)
  then obtain rs ab where "import_rows abort existing a account ty seen rows = Inr (ty, rs, ab)" "Row_Created \<notin> set rs" by auto
  with Cons.prems [of row] show ?case by (cases "judge_row existing seen row") auto
qed

lemma active_accountD:
  assumes "require_active_account ty t i = Inr account"
  shows "fa_id account = i" "fa_tenant_id account = t"
  using assms by (auto simp: require_active_account_def scoped_account_def result_simps split: option.splits dest: find_row_Some)

end
