(* ===== verification/Treasury_Examples.thy ===== *)
theory Treasury_Examples
  imports Treasury_History
begin

text \<open>
  A statement lands once; a batch settles its line; a cash box to run them on, and what amounts finer than a
  cent do to a register.
\<close>

subsection \<open>Statements\<close>

text \<open>C25: A statement whose lines carry the bank's reference lands once: however much happens after an applied
  import, importing it again, dry or not, stopping at errors or not, by anyone who may, succeeds, creates no
  line and changes nothing.\<close>

theorem a_statement_lands_once:
  assumes "bulk_import_fin_account_trans ty a p = Inr (rp, ty')" and "rp_applied rp"
    and "list_all (\<lambda>row. carries_ref (sr_reference_no row)) (st_rows p)"
    and "ac_tenant_id b = ac_tenant_id a" and "require_treasury b = Inr ()"
    and "require_active_account (run_treasury is_uuid ty' es) (ac_tenant_id a) (st_account_id p) = Inr later"
  shows "\<exists>rp'. bulk_import_fin_account_trans (run_treasury is_uuid ty' es) b (p\<lparr>st_dry_run := dry, st_abort := stop\<rparr>) =
      Inr (rp', run_treasury is_uuid ty' es) \<and> rp_created rp' = 0"
proof -
  let ?ty = "run_treasury is_uuid ty' es"
  let ?landed = "\<lambda>ty n. landed ty (ac_tenant_id a) (st_account_id p) n"
  from assms(1) obtain account ty1 rs aborted where
    account: "require_active_account ty (ac_tenant_id a) (st_account_id p) = Inr account"
    and rows: "import_rows (st_abort p) (existing_by_ref ty (ac_tenant_id a) (fa_id account) (st_rows p)) a account ty [] (st_rows p) =
       Inr (ty1, rs, aborted)"
    and rp: "rp = report_of p (\<not> st_dry_run p \<and> \<not> aborted) rs" "ty' = (if \<not> st_dry_run p \<and> \<not> aborted then ty1 else ty)"
    by (rule importE)
  with assms(2) have applied: "\<not> aborted" "ty' = ty1" by (simp_all add: report_of_def)
  note account = active_accountD [OF account] and now = active_accountD [OF assms(6)]
  have holds: "each (\<lambda>row. money_holds_together (sr_amount row) (sr_gross row) (sr_fee row)) (st_rows p) = Inr ()"
    using assms(1) by (auto simp: bulk_import_fin_account_trans_def bindE_Inr_iff)
  have "\<forall>row \<in> set (st_rows p). postable row \<and> carries_ref (sr_reference_no row) \<longrightarrow> ?landed ty' (sr_reference_no row)"
    using import_rows_lands [OF rows [unfolded applied(1) [THEN eq_False [THEN iffD2]]]] account applied(2)
    by (simp add: existing_by_ref_def landed_def list_ex_iff) blast
  moreover have "?landed ?ty n" if "?landed ty' n" for n
    by (rule run_treasury_invariant [where Q = "\<lambda>_. True"]) (use that treasury_step_lands in \<open>auto simp: list_all_iff\<close>)
  ultimately have landed: "?landed ?ty (sr_reference_no row)" if "row \<in> set (st_rows p)" "postable row" for row
    using that assms(3) by (simp add: list_all_iff)
  have "judge_row (existing_by_ref ?ty (ac_tenant_id a) (st_account_id p) (st_rows p)) [] row \<noteq> Row_Created"
    if row: "row \<in> set (st_rows p)" for row
  proof
    assume created: "judge_row (existing_by_ref ?ty (ac_tenant_id a) (st_account_id p) (st_rows p)) [] row = Row_Created"
    have ref: "carries_ref (sr_reference_no row)" using row assms(3) by (simp add: list_all_iff)
    from landed [OF row judge_row_created(1) [OF created]] obtain x where x: "x \<in> set (ty_register ?ty)"
      "ft_tenant_id x = ac_tenant_id a" "ft_account_id x = st_account_id p" "ft_reference_no x = sr_reference_no row"
      by (auto simp: landed_def list_ex_iff)
    have "list_ex (\<lambda>row. carries_ref (sr_reference_no row) \<and> sr_reference_no row = ft_reference_no x) (st_rows p)"
      using row ref x(4) by (auto simp: list_ex_iff intro!: bexI [of _ row])
    with x have "x \<in> set (existing_by_ref ?ty (ac_tenant_id a) (st_account_id p) (st_rows p))" by (simp add: existing_by_ref_def)
    with judge_row_created(2) [OF created ref] x(4) show False by blast
  qed
  from import_rows_nothing [OF this, of "st_rows p" stop b later ?ty]
  obtain rs2 ab where again: "import_rows stop (existing_by_ref ?ty (ac_tenant_id a) (st_account_id p) (st_rows p)) b later ?ty [] (st_rows p)
      = Inr (?ty, rs2, ab)" "Row_Created \<notin> set rs2" by blast
  then have "filter (\<lambda>r. r = Row_Created) rs2 = []" by (auto simp: filter_empty_conv)
  with again(1) holds assms(4,5,6) now show ?thesis
    by (simp add: bulk_import_fin_account_trans_def Let_def report_of_def)
qed

subsection \<open>Batches\<close>

text \<open>A register line linked to a batch stands for payments of the account's currency that all move money
  the way the line does, and in whole cents they add up to the line exactly.\<close>

theorem a_batch_settles_its_line:
  assumes "link_fin_account_trans is_uuid ty a i u = Inr ty'" and "lk_payment_reference_no u = Some (Some n)"
    and "scoped_trans ty (ac_tenant_id a) i = Inr line" and "scoped_account ty (ac_tenant_id a) (ft_account_id line) = Inr account"
    and "in_cents (ft_amount line)" and "list_all (\<lambda>m. in_cents (row_amount m)) (batch_members ty (ac_tenant_id a) n)"
  shows "sum_list (map row_amount (batch_members ty (ac_tenant_id a) n)) = \<bar>ft_amount line\<bar> \<and>
    list_all (\<lambda>m. row_currency m = fa_currency account \<and> 0 < ft_amount line * moves m) (batch_members ty (ac_tenant_id a) n)"
proof -
  let ?ms = "batch_members ty (ac_tenant_id a) n"
  from assms(1) obtain line' account' x where "scoped_trans ty (ac_tenant_id a) i = Inr line'"
    and "scoped_account ty (ac_tenant_id a) (ft_account_id line') = Inr account'"
    and "(case stated_or (lk_payment_reference_no u) None of None \<Rightarrow> Inr ()
      | Some n \<Rightarrow> bindE (require_batch_coherence ty (ac_tenant_id a) account' n (ft_amount line')) (\<lambda>_. Inr ())) = Inr x"
    unfolding link_fin_account_trans_def Let_def bindE_Inr_iff by (elim exE conjE) (rule that)
  with assms(2-4) have "bindE (require_batch_coherence ty (ac_tenant_id a) account n (ft_amount line)) (\<lambda>_. Inr ()) = Inr x"
    by (simp add: stated_or_def)
  then obtain k where k: "require_batch_coherence ty (ac_tenant_id a) account n (ft_amount line) = Inr k"
    unfolding bindE_Inr_iff by blast
  from k have ok: "each (require_same_currency account) ?ms = Inr ()"
      "\<not> (list_ex (\<lambda>m. moves m \<noteq> moves (hd ?ms)) ?ms \<or> ft_amount line * moves (hd ?ms) \<le> 0)"
      "\<not> 5 / 1000 < \<bar>round2 (sum_list (map row_amount ?ms)) - \<bar>ft_amount line\<bar>\<bar>"
    unfolding require_batch_coherence_def Let_def bindE_Inr_iff ensure_Inr_iff by simp_all
  have cents: "in_cents (sum_list (map row_amount ?ms))" "in_cents \<bar>ft_amount line\<bar>"
    using assms(5,6) by (auto simp: list_all_iff abs_if intro!: in_cents_sum_list)
  have near: "\<bar>sum_list (map row_amount ?ms) - \<bar>ft_amount line\<bar>\<bar> \<le> CENT" using ok(3) round2_id [OF cents(1)] by (simp add: CENT_def)
  then have "sum_list (map row_amount ?ms) \<le> \<bar>ft_amount line\<bar> + CENT" "\<bar>ft_amount line\<bar> \<le> sum_list (map row_amount ?ms) + CENT"
    by linarith+
  then have "sum_list (map row_amount ?ms) = \<bar>ft_amount line\<bar>"
    using in_cents_le_slack [OF cents] in_cents_le_slack [OF cents(2,1)] by linarith
  moreover have "row_currency m = fa_currency account" if "m \<in> set ?ms" for m
    using ok(1) that by (simp add: each_Inr_iff require_same_currency_def ensure_Inr_iff)
  moreover have "0 < ft_amount line * moves m" if "m \<in> set ?ms" for m
    using ok(2) that by (simp add: list_ex_iff not_le)
  ultimately show ?thesis by (simp add: list_all_iff)
qed

subsection \<open>A bank account\<close>

definition cashier :: actor where
  "cashier = with_grants [''fin_account.manage'', ''payment.read''] blank_actor"

definition payout :: "uuid \<Rightarrow> money \<Rightarrow> row" where
  "payout i x = blank_row\<lparr>row_model := Payment, row_id := i, row_direction := ''outbound'', row_amount := x,
     row_other := [(''reference_no'', JStr ''run-7'')]\<rparr>"

definition vault :: treasury where
  "vault = \<lparr>ty_db = blank_db\<lparr>db_rows := [payout ''p'' 30, payout ''q'' 12]\<rparr>, ty_accounts = [], ty_register = []\<rparr>"

definition opened :: treasury_event where
  "opened = Open_Account \<lparr>fr_name = ''main'', fr_account_type = ''bank'', fr_currency = ''CNY'', fr_status = ''active'',
     fr_opening_balance = Some 100\<rparr>"

definition bank_line :: "money \<Rightarrow> string option \<Rightarrow> statement_row" where
  "bank_line x n = \<lparr>sr_type = None, sr_amount = x, sr_gross = None, sr_fee = None, sr_reference_no = n\<rparr>"

definition statement_of :: "statement_row list \<Rightarrow> bool \<Rightarrow> statement" where
  "statement_of rows stop = \<lparr>st_account_id = ''x'', st_rows = rows, st_dry_run = False, st_abort = stop\<rparr>"

definition august :: statement where
  "august = statement_of [bank_line 20 (Some ''a1''), bank_line (- 42) (Some ''a2'')] True"

definition settle_run :: treasury_event where
  "settle_run = Link_Line ''xxxx'' \<lparr>lk_payment_id = None, lk_payment_reference_no = Some (Some ''run-7''), lk_entity_type = None, lk_entity_id = None\<rparr>"

abbreviation "operate ty es \<equiv> run_treasury (\<lambda>_. True) ty (map (Pair cashier) es)"

lemma vault_sound: "sound_treasury vault" "books_balance vault"
proof -
  have "inj (\<lambda>n. replicate n CHR ''x'')" by (auto intro: injI dest: arg_cong [where f = length])
  then show "sound_treasury vault" by (simp add: sound_treasury_def balances_in_cents_def vault_def blank_db_def)
  show "books_balance vault" by (simp add: books_balance_def vault_def)
qed

theorem every_balance_is_its_register_witness:
  "books_balance (operate vault [opened, Import_Statement august, Import_Statement august, settle_run]) \<and>
     map fa_balance (ty_accounts (operate vault [opened, Import_Statement august, Import_Statement august, settle_run])) = [78]"
proof -
  have "list_all (\<lambda>(a, e). event_in_cents e) (map (Pair cashier) [opened, Import_Statement august, Import_Statement august, settle_run])"
    by (simp add: opened_def august_def settle_run_def statement_of_def bank_line_def in_cents_def)
  from every_balance_is_its_register [OF vault_sound this]
  have "books_balance (operate vault [opened, Import_Statement august, Import_Statement august, settle_run])" .
  moreover have "map fa_balance (ty_accounts (operate vault [opened, Import_Statement august, Import_Statement august, settle_run])) = [78]"
    by code_simp
  ultimately show ?thesis ..
qed

definition imported :: treasury where
  "imported = snd (projr (bulk_import_fin_account_trans (operate vault [opened]) cashier august))"

theorem a_statement_lands_once_witness:
  "map ft_reference_no (ty_register imported) = [None, Some ''a1'', Some ''a2''] \<and>
   (\<exists>rp'. bulk_import_fin_account_trans (operate imported [settle_run]) cashier (august\<lparr>st_dry_run := False, st_abort := False\<rparr>) =
      Inr (rp', operate imported [settle_run]) \<and> rp_created rp' = 0)"
proof -
  let ?m = "bulk_import_fin_account_trans (operate vault [opened]) cashier august"
  have "is_ok ?m" by code_simp
  then have first: "?m = Inr (fst (projr ?m), imported)" unfolding imported_def by (simp add: is_ok_projr)
  have applied: "rp_applied (fst (projr ?m))" by code_simp
  have refs: "list_all (\<lambda>row. carries_ref (sr_reference_no row)) (st_rows august)"
    by (simp add: august_def statement_of_def bank_line_def carries_ref_def)
  have may: "require_treasury cashier = Inr ()" by code_simp
  have "is_ok (require_active_account (operate imported [settle_run]) (ac_tenant_id cashier) (st_account_id august))" by code_simp
  then obtain later where "require_active_account (operate imported [settle_run]) (ac_tenant_id cashier) (st_account_id august) = Inr later"
    by (auto simp: is_ok_iff)
  from a_statement_lands_once [OF first applied refs refl may this, of False False]
  have "\<exists>rp'. bulk_import_fin_account_trans (operate imported [settle_run]) cashier (august\<lparr>st_dry_run := False, st_abort := False\<rparr>) =
      Inr (rp', operate imported [settle_run]) \<and> rp_created rp' = 0" .
  moreover have "map ft_reference_no (ty_register imported) = [None, Some ''a1'', Some ''a2'']" by code_simp
  ultimately show ?thesis by blast
qed

theorem a_batch_settles_its_line_witness:
  "map row_amount (batch_members imported ''t'' ''run-7'') = [30, 12] \<and>
   sum_list (map row_amount (batch_members imported ''t'' ''run-7'')) = \<bar>- 42 :: money\<bar>"
proof -
  let ?u = "\<lparr>lk_payment_id = None, lk_payment_reference_no = Some (Some ''run-7''), lk_entity_type = None, lk_entity_id = None\<rparr>"
  let ?m = "link_fin_account_trans (\<lambda>_. True) imported cashier ''xxxx'' ?u"
  have "is_ok ?m" by code_simp
  then obtain ty' where link: "?m = Inr ty'" by (auto simp: is_ok_iff)
  have "is_ok (scoped_trans imported ''t'' ''xxxx'')" by code_simp
  then obtain line where line: "scoped_trans imported (ac_tenant_id cashier) ''xxxx'' = Inr line"
    by (auto simp: is_ok_iff cashier_def with_grants_def blank_actor_def)
  have "(case scoped_trans imported (ac_tenant_id cashier) ''xxxx'' of Inr l \<Rightarrow> ft_amount l = - 42 \<and> ft_account_id l = ''x'' | Inl _ \<Rightarrow> False)"
    by code_simp
  then have amount: "ft_amount line = - 42" "ft_account_id line = ''x''" by (simp_all add: line)
  have "is_ok (scoped_account imported (ac_tenant_id cashier) ''x'')" by code_simp
  then obtain account where "scoped_account imported (ac_tenant_id cashier) (ft_account_id line) = Inr account"
    by (auto simp: is_ok_iff amount)
  note facts = link _ line this
  have members: "map row_amount (batch_members imported (ac_tenant_id cashier) ''run-7'') = [30, 12]" by code_simp
  then have "list_all in_cents (map row_amount (batch_members imported (ac_tenant_id cashier) ''run-7''))" by (simp add: in_cents_def)
  then have "list_all (\<lambda>m. in_cents (row_amount m)) (batch_members imported (ac_tenant_id cashier) ''run-7'')" by (simp add: list.pred_map comp_def)
  from a_batch_settles_its_line [OF link _ line \<open>scoped_account imported _ _ = _\<close> _ this] members
  show ?thesis by (simp add: amount in_cents_def cashier_def with_grants_def blank_actor_def)
qed

subsection \<open>Finer than a cent\<close>

definition posted :: "money \<Rightarrow> string option \<Rightarrow> trans_request" where
  "posted x n = \<lparr>tr_account_id = ''x'', tr_type = Some ''adjustment'', tr_amount = x, tr_gross = None, tr_fee = None, tr_reference_no = n,
     tr_payment_id = None, tr_entity_type = None, tr_entity_id = None\<rparr>"

text \<open>Half a cent out: the line keeps a cent, the balance nothing.\<close>

lemma half_a_cent_breaks_the_books:
  "(let ty = operate vault [opened, Post_Line (posted (- 1 / 200) None)]
    in map ft_amount (ty_register ty) = [100, - 1 / 100] \<and> map fa_balance (ty_accounts ty) = [100])"
  by code_simp

text \<open>Less than half a cent: the table refuses the zero line, and the caller hears of a reference that is free.\<close>

lemma a_tiny_line_is_a_taken_reference:
  "(case create_fin_account_trans (\<lambda>_. True) (operate vault [opened]) cashier (posted (4 / 1000) (Some ''new'')) of
      Inl e \<Rightarrow> e = HttpError 409 ''reference_no_already_on_the_register'' | Inr _ \<Rightarrow> False)"
  by code_simp

text \<open>Such a statement, imported again, is an error where it was a success.\<close>

lemma a_fine_statement_fails_the_second_time:
  "(let p = statement_of [bank_line (11 / 1000) (Some ''f1'')] False; ty = operate vault [opened, Import_Statement p]
    in case bulk_import_fin_account_trans ty cashier p of
         Inr (rp, _) \<Rightarrow> length (ty_register ty) = 2 \<and> rp_failed rp = 1 \<and> rp_unchanged rp = 0 | Inl _ \<Rightarrow> False)"
  by code_simp

text \<open>Two lines with an empty reference: neither the batch nor the register is asked about it, and the index
  refuses the whole import, though it was told to skip errors.\<close>

lemma an_empty_reference_fails_the_import:
  "(case bulk_import_fin_account_trans (operate vault [opened]) cashier
      (statement_of [bank_line 5 (Some []), bank_line 6 (Some [])] False) of
      Inl e \<Rightarrow> e = IntegrityError | Inr _ \<Rightarrow> False)"
  by code_simp

end
