(* ===== verification/Handbook.thy ===== *)
theory Handbook
  imports Documents Flow_Subscriptions "HOL-Library.List_Lexorder" "HOL-Library.Char_ord"
begin

text \<open>
  Business rules (\<open>app/api/business_rules.py\<close>): policies, approval flows, data rules and linkages as versioned
  texts with dates, their publication, repeal and readers. A day is its \<open>date.toordinal()\<close>, the first of the calendar is 1;
  \<open>today\<close> is the business date, \<open>digest\<close> is SHA-256. Summaries, structured copies and custom fields are left out. The
  handlers are modelled as running one at a time; in the code only drafting takes the advisory lock of its code, and what
  two publications that overlap do is shown in \<open>Handbook_Examples\<close>.
\<close>

type_synonym day = int

definition DATE_MIN :: day where
  "DATE_MIN = 1"

record business_rule =
  bz_id :: uuid
  bz_tenant_id :: uuid
  bz_kind :: string
  bz_code :: string
  bz_version :: nat
  bz_entity_kind :: "string option"
  bz_object_type :: "string option"
  bz_name :: "string option"
  bz_origin :: string
  bz_catalog_hash :: "string option"
  bz_category :: "string option"
  bz_title :: string
  bz_body :: string
  bz_visibility :: string
  bz_required_capability :: "string option"
  bz_status :: string
  bz_from :: "day option"
  bz_thru :: "day option"
  bz_published :: "(timestamp \<times> string) option"
  bz_supersedes_id :: "uuid option"
  bz_attachment_id :: "uuid option"
  bz_owner_employee_id :: "uuid option"
  bz_deleted_at :: "timestamp option"

record handbook =
  hb_db :: db
  hb_flow :: flow_server
  hb_attachments :: "(uuid \<times> uuid) list"
  hb_rules :: "business_rule list"

definition SCOPED_RULE_KINDS :: "string list" where
  "SCOPED_RULE_KINDS = [''approval_flow'', ''data_rule'', ''linkage'']"

definition RULE_KINDS :: "string list" where
  "RULE_KINDS = ''policy'' # SCOPED_RULE_KINDS"

definition RULE_KIND_NOUNS :: "(string \<times> string) list" where
  "RULE_KIND_NOUNS = [(''policy'', ''policy''), (''approval_flow'', ''approval flow''), (''data_rule'', ''data rule''), (''linkage'', ''linkage'')]"

text \<open>The grants that may draft and the grants that may publish.\<close>

definition RULE_KIND_GATES :: "(string \<times> (string list \<times> string list)) list" where
  "RULE_KIND_GATES = [(''policy'', ([''policy.manage'', ''policy.publish''], [''policy.publish''])),
     (''approval_flow'', ([''workflows.publish''], [''workflows.publish''])),
     (''data_rule'', ([''workflows.publish''], [''workflows.publish''])),
     (''linkage'', ([''workflows.publish''], [''workflows.publish'']))]"

definition drafting_grants :: "string \<Rightarrow> string list" where
  "drafting_grants kind = fst (dict_get RULE_KIND_GATES kind ([], []))"

definition publishing_grants :: "string \<Rightarrow> string list" where
  "publishing_grants kind = snd (dict_get RULE_KIND_GATES kind ([], []))"

subsection \<open>Who may do what\<close>

definition may_draft_rules :: "actor \<Rightarrow> string \<Rightarrow> bool" where
  "may_draft_rules a kind = list_ex (\<lambda>g. has_permission a g None) (drafting_grants kind)"

definition may_publish_rules :: "actor \<Rightarrow> string \<Rightarrow> bool" where
  "may_publish_rules a kind = list_ex (\<lambda>g. has_permission a g None) (publishing_grants kind)"

definition may_manage_rules :: "actor \<Rightarrow> string \<Rightarrow> bool" where
  "may_manage_rules a kind \<longleftrightarrow> may_draft_rules a kind \<or> may_publish_rules a kind"

definition managed_rule_kinds :: "actor \<Rightarrow> string list" where
  "managed_rule_kinds a = filter (may_manage_rules a) RULE_KINDS"

definition require_rule_drafter :: "actor \<Rightarrow> string \<Rightarrow> unit result" where
  "require_rule_drafter a kind = ensure (may_draft_rules a kind) 403 ''requires_capability''"

definition require_rule_publisher :: "actor \<Rightarrow> string \<Rightarrow> unit result" where
  "require_rule_publisher a kind = ensure (may_publish_rules a kind) 403 ''requires_capability''"

text \<open>\<open>verb, _, scope = value.partition(":")\<close>, then \<open>has_permission(actor, verb, scope or None)\<close>.\<close>

definition holds_capability :: "actor \<Rightarrow> string \<Rightarrow> bool" where
  "holds_capability a capability =
     (let (verb, _, scope) = partition_at CHR '':'' capability in has_permission a verb (if scope = [] then None else Some scope))"

definition may_read_rule :: "actor \<Rightarrow> business_rule \<Rightarrow> bool" where
  "may_read_rule a r =
     (if bz_status r = ''draft'' then may_manage_rules a (bz_kind r)
      else if bz_visibility r = ''restricted'' then
        (case bz_required_capability r of
           None \<Rightarrow> may_manage_rules a (bz_kind r)
         | Some c \<Rightarrow> if c = [] then may_manage_rules a (bz_kind r) else holds_capability a c)
      else True)"

definition covered_rule_capabilities :: "handbook \<Rightarrow> actor \<Rightarrow> uuid \<Rightarrow> string list" where
  "covered_rule_capabilities hb a tenant_id =
     filter (holds_capability a)
       (remdups (concat (map (\<lambda>r. case bz_required_capability r of None \<Rightarrow> [] | Some c \<Rightarrow> [c])
          (filter (\<lambda>r. bz_tenant_id r = tenant_id) (hb_rules hb)))))"

definition visible_rule_filter :: "handbook \<Rightarrow> actor \<Rightarrow> uuid \<Rightarrow> bool \<Rightarrow> business_rule \<Rightarrow> bool" where
  "visible_rule_filter hb a tenant_id historical r \<longleftrightarrow>
     managed_rule_kinds a = RULE_KINDS \<or> bz_kind r \<in> set (managed_rule_kinds a) \<or>
     (bz_status r \<in> set ([''published'', ''superseded''] @ (if historical then [''repealed''] else [])) \<and>
      (bz_visibility r \<noteq> ''restricted'' \<or>
       (case bz_required_capability r of None \<Rightarrow> False | Some c \<Rightarrow> c \<in> set (covered_rule_capabilities hb a tenant_id))))"

definition ensure_rule_visible :: "actor \<Rightarrow> business_rule \<Rightarrow> unit result" where
  "ensure_rule_visible a r = ensure (may_read_rule a r) 404 ''not_found''"

definition ensure_rule_visibility_shape :: "string option \<Rightarrow> string option \<Rightarrow> unit result" where
  "ensure_rule_visibility_shape visibility required_capability =
     ensure (\<not> (visibility = Some ''restricted'' \<and> required_capability \<in> {None, Some []})) 422
       ''restricted_rule_must_name_a_capability''"

definition ensure_rule_editable :: "business_rule \<Rightarrow> unit result" where
  "ensure_rule_editable r = ensure (bz_status r = ''draft'') 409 ''published_rule_is_never_edited''"

subsection \<open>Identity\<close>

definition rule_scope_code :: "string \<Rightarrow> string \<Rightarrow> string \<Rightarrow> string \<Rightarrow> string" where
  "rule_scope_code kind entity_kind object_type name = kind @ '':'' @ entity_kind @ '':'' @ object_type @ '':'' @ name"

definition next_rule_version :: "business_rule list \<Rightarrow> uuid \<Rightarrow> string \<Rightarrow> nat" where
  "next_rule_version rules tenant_id code =
     fold max (map bz_version (filter (\<lambda>r. bz_tenant_id r = tenant_id \<and> bz_code r = code) rules)) 0 + 1"

definition validate_rule_scope :: "handbook \<Rightarrow> uuid \<Rightarrow> string \<Rightarrow> string \<Rightarrow> unit result" where
  "validate_rule_scope hb tenant_id entity_kind object_type =
     (let active = list_ex (\<lambda>d. td_tenant_id d = tenant_id \<and> td_entity_kind d = entity_kind \<and> td_object_type d = object_type \<and>
            td_status d = ''active'') (db_definitions (hb_db hb))
      in if entity_kind = ''builtin'' then
           bindE (ensure (object_type \<in> fst ` set BUILTIN_MACHINES) 422 ''unknown_builtin_object_type'') (\<lambda>_.
           ensure active 422 ''no_active_definition'')
         else ensure (active \<or> list_ex (\<lambda>r. row_model r = BusinessObject \<and> row_tenant_id r = tenant_id \<and> row_object_type r = object_type)
                (db_rows (hb_db hb))) 422 ''neither_definition_nor_data'')"

record rule_request =
  rq_kind :: string
  rq_code :: "string option"
  rq_entity_kind :: "string option"
  rq_object_type :: "string option"
  rq_name :: "string option"
  rq_category :: "string option"
  rq_title :: "string option"
  rq_body :: string
  rq_visibility :: string
  rq_required_capability :: "string option"
  rq_from :: "day option"
  rq_thru :: "day option"
  rq_attachment_id :: "uuid option"
  rq_owner_employee_id :: "uuid option"

record rule_identity =
  ri_code :: string
  ri_category :: "string option"
  ri_title :: string
  ri_entity_kind :: "string option"
  ri_object_type :: "string option"
  ri_name :: "string option"

definition filled :: "string option \<Rightarrow> bool" where
  "filled s \<longleftrightarrow> s \<noteq> None \<and> s \<noteq> Some []"

definition or_else :: "string option \<Rightarrow> string \<Rightarrow> string" where
  "or_else s d = (case s of None \<Rightarrow> d | Some x \<Rightarrow> if x = [] then d else x)"

definition resolve_rule_identity :: "handbook \<Rightarrow> uuid \<Rightarrow> rule_request \<Rightarrow> rule_identity result" where
  "resolve_rule_identity hb tenant_id p =
     (let kind = rq_kind p; code = or_else (rq_code p) []; category = or_else (rq_category p) []; title = or_else (rq_title p) [];
          object_type = or_else (rq_object_type p) []; entity_kind = or_else (rq_entity_kind p) ''builtin'';
          name = or_else (rq_name p) ''default''
      in if kind = ''policy'' then
           bindE (ensure (filled (rq_code p)) 422 ''policy_needs_a_code'') (\<lambda>_.
           bindE (ensure (filled (rq_category p)) 422 ''policy_needs_a_category'') (\<lambda>_.
           bindE (ensure (filled (rq_title p)) 422 ''policy_needs_a_title'') (\<lambda>_.
           bindE (require_type_option (db_type_options (hb_db hb)) tenant_id ''policy_category'' category) (\<lambda>_.
           if filled (rq_object_type p)
           then bindE (validate_rule_scope hb tenant_id entity_kind object_type) (\<lambda>_.
                Inr \<lparr>ri_code = code, ri_category = Some category, ri_title = title, ri_entity_kind = Some entity_kind,
                  ri_object_type = Some object_type, ri_name = Some name\<rparr>)
           else Inr \<lparr>ri_code = code, ri_category = Some category, ri_title = title, ri_entity_kind = None, ri_object_type = None,
                  ri_name = None\<rparr>))))
         else
           bindE (ensure (filled (rq_object_type p)) 422 ''object_type_is_required'') (\<lambda>_.
           bindE (ensure (\<not> filled (rq_category p)) 422 ''category_classifies_policies'') (\<lambda>_.
           bindE (validate_rule_scope hb tenant_id entity_kind object_type) (\<lambda>_.
           Inr \<lparr>ri_code = or_else (rq_code p) (rule_scope_code kind entity_kind object_type name), ri_category = None,
             ri_title = or_else (rq_title p) (object_type @ '' '' @ dict_get RULE_KIND_NOUNS kind []),
             ri_entity_kind = Some entity_kind, ri_object_type = Some object_type, ri_name = Some name\<rparr>))))"

subsection \<open>The table\<close>

text \<open>What the database holds a row of \<open>business_rules\<close> to.\<close>

definition rule_checks :: "business_rule \<Rightarrow> bool" where
  "rule_checks r \<longleftrightarrow> bz_kind r \<in> set RULE_KINDS \<and>
     (bz_kind r = ''policy'' \<or> bz_entity_kind r \<noteq> None \<and> bz_object_type r \<noteq> None \<and> bz_name r \<noteq> None) \<and>
     (bz_kind r \<noteq> ''policy'' \<or> bz_category r \<noteq> None) \<and>
     (bz_visibility r \<noteq> ''restricted'' \<or> bz_required_capability r \<noteq> None) \<and>
     (bz_status r \<noteq> ''published'' \<or> bz_published r \<noteq> None) \<and>
     (case (bz_from r, bz_thru r) of (Some f, Some t) \<Rightarrow> f \<le> t | _ \<Rightarrow> True)"

definition rule_key :: "business_rule \<Rightarrow> uuid \<times> string" where
  "rule_key r = (bz_tenant_id r, bz_code r)"

definition in_print :: "business_rule \<Rightarrow> bool" where
  "in_print r \<longleftrightarrow> bz_status r = ''published'' \<and> bz_deleted_at r = None"

definition table_holds :: "business_rule list \<Rightarrow> bool" where
  "table_holds rules \<longleftrightarrow> list_all rule_checks rules \<and> distinct (map (\<lambda>r. (rule_key r, bz_version r)) rules) \<and>
     distinct (map rule_key (filter in_print rules))"

definition flush_rules :: "handbook \<Rightarrow> handbook result" where
  "flush_rules hb = (if table_holds (hb_rules hb) then Inr hb else Inl (HttpError 500 ''IntegrityError''))"

definition set_rules :: "(business_rule list \<Rightarrow> business_rule list) \<Rightarrow> handbook \<Rightarrow> handbook" where
  "set_rules f hb = hb\<lparr>hb_rules := f (hb_rules hb)\<rparr>"

definition change_rule :: "uuid \<Rightarrow> (business_rule \<Rightarrow> business_rule) \<Rightarrow> handbook \<Rightarrow> handbook" where
  "change_rule i f = set_rules (update_rows (\<lambda>r. bz_id r = i) f)"

definition audit_rule :: "actor \<Rightarrow> business_rule \<Rightarrow> string \<Rightarrow> handbook \<Rightarrow> handbook" where
  "audit_rule a r event hb = hb\<lparr>hb_db :=
     record_audit (bz_tenant_id r) (bz_kind r @ ''.'' @ event) ''business_rule'' (bz_id r) (Some (attributed a None)) (hb_db hb)\<rparr>"

definition live_rule :: "handbook \<Rightarrow> uuid \<Rightarrow> uuid \<Rightarrow> business_rule result" where
  "live_rule hb tenant_id i =
     (case find_row (\<lambda>r. bz_id r = i \<and> bz_tenant_id r = tenant_id \<and> bz_deleted_at r = None) (hb_rules hb) of
        None \<Rightarrow> Inl (HttpError 404 ''not_found'') | Some r \<Rightarrow> Inr r)"

definition scoped_attachment :: "handbook \<Rightarrow> uuid \<Rightarrow> uuid option \<Rightarrow> unit result" where
  "scoped_attachment hb tenant_id i =
     (case i of None \<Rightarrow> Inr () | Some j \<Rightarrow> if j = [] then Inr () else ensure ((tenant_id, j) \<in> set (hb_attachments hb)) 404 ''not_found'')"

definition scoped_owner :: "handbook \<Rightarrow> uuid \<Rightarrow> uuid option \<Rightarrow> unit result" where
  "scoped_owner hb tenant_id i =
     (case i of None \<Rightarrow> Inr ()
      | Some j \<Rightarrow> if j = [] then Inr () else bindE (get_scoped_or_404 (hb_db hb) Employee tenant_id j) (\<lambda>_. Inr ()))"

definition period_ok :: "day option \<Rightarrow> day option \<Rightarrow> bool" where
  "period_ok f t \<longleftrightarrow> (case (f, t) of (Some f, Some t) \<Rightarrow> f \<le> t | _ \<Rightarrow> True)"

subsection \<open>Drafting\<close>

definition seed_is_untouched :: "(string \<Rightarrow> string) \<Rightarrow> business_rule \<Rightarrow> bool" where
  "seed_is_untouched digest r \<longleftrightarrow> bz_origin r = ''catalog'' \<and> bz_status r = ''draft'' \<and> bz_catalog_hash r = Some (digest (strip (bz_body r)))"

definition adopted :: "rule_request \<Rightarrow> business_rule \<Rightarrow> business_rule" where
  "adopted p r = r\<lparr>bz_body := rq_body p, bz_visibility := rq_visibility p, bz_required_capability := rq_required_capability p,
     bz_from := rq_from p, bz_thru := rq_thru p, bz_attachment_id := rq_attachment_id p,
     bz_owner_employee_id := rq_owner_employee_id p, bz_title := or_else (rq_title p) (bz_title r)\<rparr>"

definition seed_of :: "handbook \<Rightarrow> uuid \<Rightarrow> string \<Rightarrow> business_rule option" where
  "seed_of hb tenant_id code =
     find_row (\<lambda>r. bz_tenant_id r = tenant_id \<and> bz_code r = code \<and> bz_status r = ''draft'' \<and> bz_origin r = ''catalog'' \<and>
       bz_deleted_at r = None) (hb_rules hb)"

definition new_rule :: "handbook \<Rightarrow> uuid \<Rightarrow> rule_request \<Rightarrow> rule_identity \<Rightarrow> business_rule" where
  "new_rule hb tenant_id p d =
     (let version = next_rule_version (hb_rules hb) tenant_id (ri_code d) in
      \<lparr>bz_id = fresh_id (hb_db hb), bz_tenant_id = tenant_id, bz_kind = rq_kind p, bz_code = ri_code d, bz_version = version,
       bz_entity_kind = ri_entity_kind d, bz_object_type = ri_object_type d, bz_name = ri_name d, bz_origin = ''tenant'',
       bz_catalog_hash = None, bz_category = ri_category d, bz_title = ri_title d, bz_body = rq_body p,
       bz_visibility = rq_visibility p, bz_required_capability = rq_required_capability p, bz_status = ''draft'',
       bz_from = rq_from p, bz_thru = rq_thru p, bz_published = None,
       bz_supersedes_id = map_option bz_id (find_row (\<lambda>r. bz_tenant_id r = tenant_id \<and> bz_code r = ri_code d \<and>
         bz_version r + 1 = version) (hb_rules hb)),
       bz_attachment_id = rq_attachment_id p, bz_owner_employee_id = rq_owner_employee_id p, bz_deleted_at = None\<rparr>)"

text \<open>The id of the draft and the state; an adopted seed keeps its id. An empty string for an attachment or owner is not
  looked up and reaches a \<open>uuid\<close> column.\<close>

definition draft_rule :: "(string \<Rightarrow> string) \<Rightarrow> handbook \<Rightarrow> actor \<Rightarrow> rule_request \<Rightarrow> bool \<Rightarrow> (uuid \<times> handbook) result" where
  "draft_rule digest hb a p adopt_edited_seed =
     (let tenant_id = ac_tenant_id a in
      bindE (require_rule_drafter a (rq_kind p)) (\<lambda>_.
      bindE (resolve_rule_identity hb tenant_id p) (\<lambda>d.
      bindE (ensure_rule_visibility_shape (Some (rq_visibility p)) (rq_required_capability p)) (\<lambda>_.
      bindE (ensure (period_ok (rq_from p) (rq_thru p)) 422 ''effective_thru_precedes_effective_from'') (\<lambda>_.
      bindE (scoped_attachment hb tenant_id (rq_attachment_id p)) (\<lambda>_.
      bindE (scoped_owner hb tenant_id (rq_owner_employee_id p)) (\<lambda>_.
      bindE (ensure (rq_attachment_id p \<noteq> Some [] \<and> rq_owner_employee_id p \<noteq> Some []) 500 ''DataError'') (\<lambda>_.
      case (case seed_of hb tenant_id (ri_code d) of None \<Rightarrow> None
            | Some s \<Rightarrow> if adopt_edited_seed \<or> seed_is_untouched digest s then Some s else None) of
        Some s \<Rightarrow>
          bindE (flush_rules (change_rule (bz_id s) (adopted p) hb)) (\<lambda>hb'.
          Inr (bz_id s, audit_rule a s ''drafted'' hb'))
      | None \<Rightarrow>
          let r = new_rule hb tenant_id p d in
          bindE (flush_rules (set_rules (\<lambda>rs. rs @ [r]) (hb\<lparr>hb_db := tick (hb_db hb)\<rparr>))) (\<lambda>hb'.
          Inr (bz_id r, audit_rule a r ''drafted'' hb'))))))))))"

record rule_update =
  ru_category :: "string option option"
  ru_title :: "string option option"
  ru_body :: "string option option"
  ru_visibility :: "string option option"
  ru_required_capability :: "string option option"
  ru_from :: "day option option"
  ru_thru :: "day option option"
  ru_attachment_id :: "uuid option option"
  ru_owner_employee_id :: "uuid option option"

definition sent :: "'a option \<Rightarrow> 'a \<Rightarrow> 'a" where
  "sent u old = (case u of None \<Rightarrow> old | Some x \<Rightarrow> x)"

definition required :: "'a option option \<Rightarrow> 'a \<Rightarrow> 'a" where
  "required u old = (case u of Some (Some x) \<Rightarrow> x | _ \<Rightarrow> old)"

definition updated_rule :: "rule_update \<Rightarrow> business_rule \<Rightarrow> business_rule" where
  "updated_rule u r = r\<lparr>bz_category := sent (ru_category u) (bz_category r), bz_title := required (ru_title u) (bz_title r),
     bz_body := required (ru_body u) (bz_body r), bz_visibility := required (ru_visibility u) (bz_visibility r),
     bz_required_capability := sent (ru_required_capability u) (bz_required_capability r), bz_from := sent (ru_from u) (bz_from r),
     bz_thru := sent (ru_thru u) (bz_thru r), bz_attachment_id := sent (ru_attachment_id u) (bz_attachment_id r),
     bz_owner_employee_id := sent (ru_owner_employee_id u) (bz_owner_employee_id r)\<rparr>"

text \<open>A null title, text or visibility breaks a \<open>NOT NULL\<close> column, as a null category breaks a policy's check.\<close>

definition update_business_rule :: "handbook \<Rightarrow> actor \<Rightarrow> uuid \<Rightarrow> rule_update \<Rightarrow> handbook result" where
  "update_business_rule hb a i u =
     (let tenant_id = ac_tenant_id a in
      bindE (live_rule hb tenant_id i) (\<lambda>r.
      bindE (require_rule_drafter a (bz_kind r)) (\<lambda>_.
      bindE (ensure_rule_editable r) (\<lambda>_.
      bindE (case ru_category u of
               Some (Some c) \<Rightarrow> if c = [] then Inr () else
                 bindE (ensure (bz_kind r = ''policy'') 422 ''category_classifies_policies'') (\<lambda>_.
                 require_type_option (db_type_options (hb_db hb)) tenant_id ''policy_category'' c)
             | _ \<Rightarrow> Inr ()) (\<lambda>_.
      bindE (ensure_rule_visibility_shape (sent (ru_visibility u) (Some (bz_visibility r)))
               (sent (ru_required_capability u) (bz_required_capability r))) (\<lambda>_.
      bindE (scoped_attachment hb tenant_id (sent (ru_attachment_id u) None)) (\<lambda>_.
      bindE (scoped_owner hb tenant_id (sent (ru_owner_employee_id u) None)) (\<lambda>_.
      bindE (ensure (period_ok (sent (ru_from u) (bz_from r)) (sent (ru_thru u) (bz_thru r))) 422
               ''effective_thru_precedes_effective_from'') (\<lambda>_.
      bindE (ensure (ru_attachment_id u \<noteq> Some (Some []) \<and> ru_owner_employee_id u \<noteq> Some (Some [])) 500 ''DataError'') (\<lambda>_.
      bindE (ensure (ru_title u \<noteq> Some None \<and> ru_body u \<noteq> Some None \<and> ru_visibility u \<noteq> Some None) 500 ''IntegrityError'') (\<lambda>_.
      bindE (flush_rules (change_rule i (updated_rule u) hb)) (\<lambda>hb'.
      Inr (audit_rule a r ''updated'' hb')))))))))))))"

definition delete_business_rule :: "timestamp \<Rightarrow> handbook \<Rightarrow> actor \<Rightarrow> uuid \<Rightarrow> handbook result" where
  "delete_business_rule now hb a i =
     bindE (live_rule hb (ac_tenant_id a) i) (\<lambda>r.
     bindE (require_rule_drafter a (bz_kind r)) (\<lambda>_.
     bindE (ensure (bz_status r = ''draft'') 409 ''people_acted_on_it'') (\<lambda>_.
     bindE (flush_rules (change_rule i (\<lambda>x. x\<lparr>bz_deleted_at := Some now\<rparr>) hb)) (\<lambda>hb'.
     Inr (audit_rule a r ''deleted'' hb')))))"

subsection \<open>Publishing and repealing\<close>

definition superseded_by :: "handbook \<Rightarrow> uuid \<Rightarrow> business_rule \<Rightarrow> business_rule option" where
  "superseded_by hb tenant_id r =
     find_row (\<lambda>x. bz_tenant_id x = tenant_id \<and> bz_code x = bz_code r \<and> bz_status x = ''published'' \<and> bz_id x \<noteq> bz_id r \<and>
       bz_deleted_at x = None) (hb_rules hb)"

text \<open>The day before the next version starts, unless this one started that very day.\<close>

definition closed_on :: "day \<Rightarrow> business_rule \<Rightarrow> day option" where
  "closed_on starts x =
     (if (case bz_thru x of None \<Rightarrow> True | Some t \<Rightarrow> starts \<le> t)
      then Some (case bz_from x of None \<Rightarrow> starts - 1 | Some f \<Rightarrow> if starts - 1 < f then f else starts - 1)
      else bz_thru x)"

text \<open>\<open>effective_from - timedelta(days=1)\<close> overflows on the first day of the calendar.\<close>

definition closes_on_the_calendar :: "day \<Rightarrow> business_rule \<Rightarrow> bool" where
  "closes_on_the_calendar starts x \<longleftrightarrow> (case bz_thru x of None \<Rightarrow> True | Some t \<Rightarrow> starts \<le> t) \<longrightarrow> DATE_MIN < starts"

definition close_version :: "day \<Rightarrow> business_rule \<Rightarrow> business_rule" where
  "close_version starts x = x\<lparr>bz_status := ''superseded'', bz_thru := closed_on starts x\<rparr>"

definition open_version :: "timestamp \<Rightarrow> actor \<Rightarrow> day \<Rightarrow> business_rule \<Rightarrow> business_rule" where
  "open_version now a starts x = x\<lparr>bz_status := ''published'', bz_from := Some starts, bz_published := Some (now, attributed a None)\<rparr>"

definition starting_day :: "day \<Rightarrow> day option \<Rightarrow> business_rule \<Rightarrow> day" where
  "starting_day today stated r = (case stated of Some d \<Rightarrow> d | None \<Rightarrow> (case bz_from r of Some d \<Rightarrow> d | None \<Rightarrow> today))"

text \<open>The writes of a publication, given the version it found in print.\<close>

definition hand_over ::
    "timestamp \<Rightarrow> handbook \<Rightarrow> actor \<Rightarrow> business_rule \<Rightarrow> day \<Rightarrow> business_rule option \<Rightarrow> handbook result" where
  "hand_over now hb a r starts superseded =
     bindE (case superseded of None \<Rightarrow> Inr hb
            | Some x \<Rightarrow> bindE (ensure (closes_on_the_calendar starts x) 500 ''OverflowError'') (\<lambda>_.
                        flush_rules (change_rule (bz_id x) (close_version starts) hb))) (\<lambda>hb1.
     bindE (flush_rules (change_rule (bz_id r) (open_version now a starts) hb1)) (\<lambda>hb2.
     let hb3 = audit_rule a r ''published'' hb2 in
     Inr (if bz_kind r = ''approval_flow'' \<and> bz_entity_kind r = Some ''builtin''
          then hb3\<lparr>hb_flow := snd (unpark_on_new_definition (hb_flow hb3) (ac_tenant_id a) (case bz_object_type r of None \<Rightarrow> [] | Some t \<Rightarrow> t) (label a))\<rparr>
          else hb3)))"

definition publish_rule :: "timestamp \<Rightarrow> day \<Rightarrow> handbook \<Rightarrow> actor \<Rightarrow> business_rule \<Rightarrow> day option \<Rightarrow> handbook result" where
  "publish_rule now today hb a r effective_from =
     (let tenant_id = ac_tenant_id a; starts = starting_day today effective_from r; superseded = superseded_by hb tenant_id r in
      bindE (require_rule_publisher a (bz_kind r)) (\<lambda>_.
      bindE (ensure (bz_status r = ''draft'') 409 ''already_published'') (\<lambda>_.
      bindE (ensure (\<not> (case bz_thru r of None \<Rightarrow> False | Some t \<Rightarrow> t < starts)) 422 ''stops_before_it_would_start'') (\<lambda>_.
      bindE (ensure (case superseded of None \<Rightarrow> True
               | Some x \<Rightarrow> (case bz_from x of None \<Rightarrow> True | Some f \<Rightarrow> \<not> starts < f)) 422 ''cannot_start_before_the_version_it_replaces'') (\<lambda>_.
      hand_over now hb a r starts superseded)))))"

definition publish_business_rule :: "timestamp \<Rightarrow> day \<Rightarrow> handbook \<Rightarrow> actor \<Rightarrow> uuid \<Rightarrow> day option \<Rightarrow> handbook result" where
  "publish_business_rule now today hb a i effective_from =
     bindE (live_rule hb (ac_tenant_id a) i) (\<lambda>r. publish_rule now today hb a r effective_from)"

definition publish_rule_now ::
    "(string \<Rightarrow> string) \<Rightarrow> timestamp \<Rightarrow> day \<Rightarrow> handbook \<Rightarrow> actor \<Rightarrow> rule_request \<Rightarrow> handbook result" where
  "publish_rule_now digest now today hb a p =
     bindE (require_rule_publisher a (rq_kind p)) (\<lambda>_.
     bindE (draft_rule digest hb a p True) (\<lambda>(i, hb').
     bindE (live_rule hb' (ac_tenant_id a) i) (\<lambda>r.
     publish_rule now today hb' a r (rq_from p))))"

definition rescope_business_rule :: "handbook \<Rightarrow> actor \<Rightarrow> uuid \<Rightarrow> string \<Rightarrow> string option \<Rightarrow> handbook result" where
  "rescope_business_rule hb a i visibility required_capability =
     bindE (live_rule hb (ac_tenant_id a) i) (\<lambda>r.
     bindE (require_rule_publisher a (bz_kind r)) (\<lambda>_.
     bindE (ensure_rule_visibility_shape (Some visibility) required_capability) (\<lambda>_.
     if bz_visibility r = visibility \<and> bz_required_capability r = required_capability then Inr hb
     else bindE (flush_rules (change_rule i (\<lambda>x. x\<lparr>bz_visibility := visibility, bz_required_capability := required_capability\<rparr>) hb)) (\<lambda>hb'.
          Inr (audit_rule a r ''visibility_changed'' hb')))))"

definition repeal_business_rule :: "day \<Rightarrow> handbook \<Rightarrow> actor \<Rightarrow> uuid \<Rightarrow> day option \<Rightarrow> handbook result" where
  "repeal_business_rule today hb a i effective_thru =
     (let ends = (case effective_thru of None \<Rightarrow> today | Some d \<Rightarrow> d) in
      bindE (live_rule hb (ac_tenant_id a) i) (\<lambda>r.
      bindE (require_rule_publisher a (bz_kind r)) (\<lambda>_.
      bindE (ensure (bz_status r = ''published'') 409 ''only_the_published_version_can_be_repealed'') (\<lambda>_.
      bindE (ensure (case bz_from r of None \<Rightarrow> True | Some f \<Rightarrow> f \<le> ends) 422 ''cannot_stop_before_it_started'') (\<lambda>_.
      bindE (flush_rules (change_rule i (\<lambda>x. x\<lparr>bz_status := ''repealed'', bz_thru := Some ends\<rparr>) hb)) (\<lambda>hb'.
      Inr (audit_rule a r ''repealed'' hb')))))))"

subsection \<open>Reading\<close>

definition covers_day :: "day \<Rightarrow> business_rule \<Rightarrow> bool" where
  "covers_day d r \<longleftrightarrow> (case bz_from r of None \<Rightarrow> True | Some f \<Rightarrow> f \<le> d) \<and> (case bz_thru r of None \<Rightarrow> True | Some t \<Rightarrow> d \<le> t)"

definition told :: "business_rule \<Rightarrow> bool" where
  "told r \<longleftrightarrow> bz_status r \<in> {''published'', ''superseded'', ''repealed''}"

definition governs_over :: "day \<Rightarrow> business_rule \<Rightarrow> business_rule \<Rightarrow> bool" where
  "governs_over d newer r \<longleftrightarrow> bz_tenant_id newer = bz_tenant_id r \<and> bz_code newer = bz_code r \<and> bz_version r < bz_version newer \<and>
     bz_deleted_at newer = None \<and> told newer \<and> covers_day d newer"

definition rules_query :: "handbook \<Rightarrow> actor \<Rightarrow> bool \<Rightarrow> day option \<Rightarrow> business_rule list" where
  "rules_query hb a include_deleted in_force_on =
     filter (\<lambda>r. bz_tenant_id r = ac_tenant_id a \<and> (include_deleted \<or> bz_deleted_at r = None) \<and>
       visible_rule_filter hb a (ac_tenant_id a) (in_force_on \<noteq> None) r \<and>
       (case in_force_on of None \<Rightarrow> True
        | Some d \<Rightarrow> \<not> list_ex (\<lambda>newer. governs_over d newer r) (hb_rules hb) \<and> told r \<and> covers_day d r)) (hb_rules hb)"

definition get_rule_or_404 :: "handbook \<Rightarrow> actor \<Rightarrow> uuid \<Rightarrow> string option \<Rightarrow> business_rule result" where
  "get_rule_or_404 hb a i kind =
     bindE (live_rule hb (ac_tenant_id a) i) (\<lambda>r.
     bindE (ensure (kind = None \<or> kind = Some (bz_kind r)) 404 ''not_found'') (\<lambda>_.
     bindE (ensure_rule_visible a r) (\<lambda>_. Inr r)))"

definition in_force_filter :: "day \<Rightarrow> business_rule \<Rightarrow> bool" where
  "in_force_filter as_of r \<longleftrightarrow> bz_status r \<in> {''published'', ''superseded''} \<and> bz_deleted_at r = None \<and> covers_day as_of r"

definition has_published_approval_flow :: "day \<Rightarrow> handbook \<Rightarrow> uuid \<Rightarrow> string \<Rightarrow> string \<Rightarrow> bool" where
  "has_published_approval_flow today hb tenant_id entity_kind object_type \<longleftrightarrow>
     list_ex (\<lambda>r. bz_tenant_id r = tenant_id \<and> bz_kind r = ''approval_flow'' \<and> bz_entity_kind r = Some entity_kind \<and>
       bz_object_type r = Some object_type \<and> in_force_filter today r) (hb_rules hb)"

definition published_rule_index :: "day \<Rightarrow> handbook \<Rightarrow> uuid \<Rightarrow> string option \<Rightarrow> (string option \<times> string) \<Rightarrow> business_rule option" where
  "published_rule_index today hb tenant_id entity_kind key =
     find_row (\<lambda>r. (bz_object_type r, bz_kind r) = key)
       (rev (sort_key bz_version (filter (\<lambda>r. bz_tenant_id r = tenant_id \<and> bz_kind r \<noteq> ''policy'' \<and> in_force_filter today r \<and>
          (entity_kind = None \<or> bz_entity_kind r = entity_kind)) (hb_rules hb))))"

definition families_with_published_approval_flow :: "day \<Rightarrow> handbook \<Rightarrow> uuid \<Rightarrow> string option \<Rightarrow> string option list" where
  "families_with_published_approval_flow today hb tenant_id entity_kind =
     remdups (map bz_object_type (filter (\<lambda>r. bz_tenant_id r = tenant_id \<and> bz_kind r = ''approval_flow'' \<and> in_force_filter today r \<and>
       (entity_kind = None \<or> bz_entity_kind r = entity_kind)) (hb_rules hb)))"

definition published_rules_of :: "handbook \<Rightarrow> uuid \<Rightarrow> string option \<Rightarrow> string \<Rightarrow> string \<Rightarrow> business_rule list" where
  "published_rules_of hb tenant_id kind entity_kind object_type =
     sort_key (\<lambda>r. (bz_kind r, or_else (bz_name r) [])) (rev (sort_key (\<lambda>r. (bz_version r, bz_id r))
       (filter (\<lambda>r. bz_tenant_id r = tenant_id \<and> bz_entity_kind r = Some entity_kind \<and>
          bz_object_type r = Some object_type \<and> told r \<and> bz_deleted_at r = None \<and> (kind = None \<or> kind = Some (bz_kind r))) (hb_rules hb))))"

end
