(* ===== verification/Handbook_Laws.thy ===== *)
theory Handbook_Laws
  imports Handbook
begin

text \<open>
  The handbook's invariant, that every call keeps it, and that in it no call meets a constraint of the table.
\<close>

subsection \<open>A handbook in order\<close>

definition row_in_order :: "business_rule \<Rightarrow> bool" where
  "row_in_order r \<longleftrightarrow> (bz_status r = ''draft'' \<or> told r) \<and> (told r \<longrightarrow> bz_deleted_at r = None \<and> bz_from r \<noteq> None) \<and>
     (bz_visibility r = ''restricted'' \<longrightarrow> filled (bz_required_capability r))"

definition sound_handbook :: "handbook \<Rightarrow> bool" where
  "sound_handbook hb \<longleftrightarrow> distinct (map bz_id (hb_rules hb)) \<and> table_holds (hb_rules hb) \<and> list_all row_in_order (hb_rules hb) \<and>
     inj (db_uuids (hb_db hb)) \<and> (\<forall>n \<ge> db_next (hb_db hb). db_uuids (hb_db hb) n \<notin> bz_id ` set (hb_rules hb))"

lemma flush_rules_Inr [result_simps]: "flush_rules hb = Inr hb' \<longleftrightarrow> hb' = hb \<and> table_holds (hb_rules hb)"
  by (auto simp: flush_rules_def)

lemma hb_rules_change [simp]:
  "hb_rules (set_rules f hb) = f (hb_rules hb)" "hb_db (set_rules f hb) = hb_db hb" "hb_flow (set_rules f hb) = hb_flow hb"
  "hb_rules (change_rule i g hb) = update_rows (\<lambda>r. bz_id r = i) g (hb_rules hb)" "hb_db (change_rule i g hb) = hb_db hb"
  "hb_rules (audit_rule a r e hb) = hb_rules hb"
  by (simp_all add: set_rules_def change_rule_def audit_rule_def)

lemma sound_audit [simp]: "sound_handbook (audit_rule a r e hb) \<longleftrightarrow> sound_handbook hb"
  by (simp add: sound_handbook_def audit_rule_def record_audit_fields)

lemma sound_flow [simp]: "sound_handbook (hb\<lparr>hb_flow := f\<rparr>) \<longleftrightarrow> sound_handbook hb"
  by (simp add: sound_handbook_def)

lemma live_rule_Inr:
  "live_rule hb t i = Inr r \<Longrightarrow> r \<in> set (hb_rules hb) \<and> bz_id r = i \<and> bz_tenant_id r = t \<and> bz_deleted_at r = None"
  by (auto simp: live_rule_def split: option.splits dest: find_row_Some)

lemma live_rule_errors: "live_rule hb t i = Inl e \<Longrightarrow> http_status e = 404"
  by (auto simp: live_rule_def split: option.splits)

lemma one_row:
  "sound_handbook hb \<Longrightarrow> r \<in> set (hb_rules hb) \<Longrightarrow> x \<in> set (hb_rules hb) \<Longrightarrow> bz_id x = bz_id r \<Longrightarrow> x = r"
  by (auto simp: sound_handbook_def distinct_map inj_on_def)

lemma sound_change:
  assumes sound: "sound_handbook hb" and r: "r \<in> set (hb_rules hb)" and id: "bz_id (f r) = bz_id r" and row: "row_in_order (f r)"
    and holds: "table_holds (update_rows (\<lambda>x. bz_id x = bz_id r) f (hb_rules hb))"
  shows "sound_handbook (change_rule (bz_id r) f hb)"
proof -
  have only: "x = r" if "x \<in> set (hb_rules hb)" "bz_id x = bz_id r" for x using one_row [OF sound r] that by blast
  have "map bz_id (update_rows (\<lambda>x. bz_id x = bz_id r) f (hb_rules hb)) = map bz_id (hb_rules hb)"
    unfolding update_rows_def map_map by (rule map_cong [OF refl]) (use only id in \<open>auto simp: comp_def\<close>)
  moreover from this have "bz_id ` set (update_rows (\<lambda>x. bz_id x = bz_id r) f (hb_rules hb)) = bz_id ` set (hb_rules hb)" by (metis set_map)
  moreover have "list_all row_in_order (update_rows (\<lambda>x. bz_id x = bz_id r) f (hb_rules hb))"
    using sound row only by (auto simp: sound_handbook_def list_all_iff update_rows_def)
  ultimately show ?thesis using sound holds by (simp add: sound_handbook_def)
qed

subsection \<open>When the table holds\<close>

text \<open>A changed row that keeps its key and version and is not newly in print breaks nothing but its own checks.\<close>

lemma table_change:
  assumes sound: "sound_handbook hb" and r: "r \<in> set (hb_rules hb)"
    and keys: "rule_key (f r) = rule_key r" "bz_version (f r) = bz_version r" and checks: "rule_checks (f r)"
    and print: "in_print (f r) \<Longrightarrow> \<forall>x \<in> set (hb_rules hb). x \<noteq> r \<and> in_print x \<longrightarrow> rule_key x \<noteq> rule_key r"
  shows "table_holds (update_rows (\<lambda>x. bz_id x = bz_id r) f (hb_rules hb))"
proof -
  let ?rules = "hb_rules hb" and ?u = "update_rows (\<lambda>x. bz_id x = bz_id r) f (hb_rules hb)"
  have only: "x = r" if "x \<in> set ?rules" "bz_id x = bz_id r" for x using one_row [OF sound r] that by blast
  have holds: "table_holds ?rules" and dist: "distinct ?rules" using sound by (auto simp: sound_handbook_def distinct_map)
  have "list_all rule_checks ?u"
    using holds checks only by (auto simp: table_holds_def list_all_iff update_rows_def)
  moreover have "map (\<lambda>x. (rule_key x, bz_version x)) ?u = map (\<lambda>x. (rule_key x, bz_version x)) ?rules"
    unfolding update_rows_def map_map by (rule map_cong [OF refl]) (use only keys in \<open>auto simp: comp_def\<close>)
  moreover have "distinct (map rule_key (filter in_print ?u))"
  proof -
    from split_list [OF r] obtain xs ys where rules: "?rules = xs @ r # ys" by blast
    have others: "update_rows (\<lambda>x. bz_id x = bz_id r) f xs = xs" "update_rows (\<lambda>x. bz_id x = bz_id r) f ys = ys"
      using only dist rules by (auto intro!: update_rows_none)
    have u: "?u = xs @ f r # ys" unfolding rules by (simp add: others)
    have "distinct (map rule_key (filter in_print (xs @ ys)))"
      using holds rules by (auto simp: table_holds_def split: if_splits)
    moreover have "rule_key (f r) \<notin> rule_key ` set (filter in_print (xs @ ys))" if "in_print (f r)"
      using print [OF that] keys(1) rules dist by auto
    ultimately show ?thesis unfolding u by auto
  qed
  ultimately show ?thesis using holds by (simp add: table_holds_def)
qed

lemma version_above:
  "r \<in> set rules \<Longrightarrow> bz_tenant_id r = t \<Longrightarrow> bz_code r = c \<Longrightarrow> bz_version r < next_rule_version rules t c"
proof -
  have "x \<le> fold max xs n" if "x \<in> set xs \<or> x \<le> n" for x n :: nat and xs
    using that by (induction xs arbitrary: n) (auto simp: le_max_iff_disj)
  then show "r \<in> set rules \<Longrightarrow> bz_tenant_id r = t \<Longrightarrow> bz_code r = c \<Longrightarrow> bz_version r < next_rule_version rules t c"
    by (fastforce simp: next_rule_version_def less_Suc_eq_le)
qed

lemma table_append:
  assumes holds: "table_holds rules" and checks: "rule_checks r" and draft: "\<not> in_print r"
    and version: "bz_version r = next_rule_version rules (bz_tenant_id r) (bz_code r)"
  shows "table_holds (rules @ [r])"
proof -
  have "(rule_key r, bz_version r) \<notin> (\<lambda>x. (rule_key x, bz_version x)) ` set rules"
  proof
    assume "(rule_key r, bz_version r) \<in> (\<lambda>x. (rule_key x, bz_version x)) ` set rules"
    then obtain x where x: "x \<in> set rules" "rule_key x = rule_key r" "bz_version x = bz_version r" by auto
    then have "bz_version x < next_rule_version rules (bz_tenant_id r) (bz_code r)"
      by (intro version_above) (simp_all add: rule_key_def)
    with x version show False by simp
  qed
  with holds checks draft show ?thesis by (simp add: table_holds_def)
qed

subsection \<open>The handover\<close>

lemma close_version_fields:
  "bz_id (close_version d x) = bz_id x" "rule_key (close_version d x) = rule_key x" "bz_version (close_version d x) = bz_version x"
  "bz_from (close_version d x) = bz_from x" "bz_deleted_at (close_version d x) = bz_deleted_at x"
  "\<not> in_print (close_version d x)" "told (close_version d x)"
  by (simp_all add: close_version_def rule_key_def in_print_def told_def)

lemma close_keeps:
  assumes sound: "sound_handbook hb" and x: "x \<in> set (hb_rules hb)" "in_print x" and starts: "\<And>f. bz_from x = Some f \<Longrightarrow> f \<le> starts"
  shows "sound_handbook (change_rule (bz_id x) (close_version starts) hb)"
proof -
  have checks: "rule_checks x" and row: "row_in_order x"
    using sound x(1) by (auto simp: sound_handbook_def table_holds_def list_all_iff)
  obtain f where f: "bz_from x = Some f" using row x(2) by (auto simp: row_in_order_def told_def in_print_def)
  have "rule_checks (close_version starts x)"
    using checks starts [OF f] f by (auto simp: rule_checks_def close_version_def closed_on_def split: option.splits)
  then have "table_holds (update_rows (\<lambda>y. bz_id y = bz_id x) (close_version starts) (hb_rules hb))"
    by (intro table_change [OF sound x(1)]) (simp_all add: close_version_fields)
  moreover have "row_in_order (close_version starts x)"
    using row x(2) by (auto simp: row_in_order_def close_version_def told_def in_print_def)
  ultimately show ?thesis by (intro sound_change [OF sound x(1)]) (simp_all add: close_version_fields)
qed

lemma open_version_fields:
  "bz_id (open_version now a d x) = bz_id x" "rule_key (open_version now a d x) = rule_key x"
  "bz_version (open_version now a d x) = bz_version x" "bz_deleted_at (open_version now a d x) = bz_deleted_at x"
  by (simp_all add: open_version_def rule_key_def)

lemma open_keeps:
  assumes sound: "sound_handbook hb" and r: "r \<in> set (hb_rules hb)" "bz_deleted_at r = None" and thru: "\<And>t. bz_thru r = Some t \<Longrightarrow> starts \<le> t"
    and alone: "\<And>x. x \<in> set (hb_rules hb) \<Longrightarrow> x \<noteq> r \<Longrightarrow> in_print x \<Longrightarrow> rule_key x \<noteq> rule_key r"
  shows "sound_handbook (change_rule (bz_id r) (open_version now a starts) hb)"
proof -
  have checks: "rule_checks r" and row: "row_in_order r"
    using sound r(1) by (auto simp: sound_handbook_def table_holds_def list_all_iff)
  have "rule_checks (open_version now a starts r)"
    using checks thru by (auto simp: rule_checks_def open_version_def split: option.splits)
  then have "table_holds (update_rows (\<lambda>y. bz_id y = bz_id r) (open_version now a starts) (hb_rules hb))"
    using alone by (intro table_change [OF sound r(1)]) (simp_all add: open_version_fields)
  moreover have "row_in_order (open_version now a starts r)"
    using row r(2) by (auto simp: row_in_order_def open_version_def told_def)
  ultimately show ?thesis by (intro sound_change [OF sound r(1)]) (simp_all add: open_version_fields)
qed

lemma superseded_by_Some:
  "superseded_by hb t r = Some x \<Longrightarrow> x \<in> set (hb_rules hb) \<and> in_print x \<and> bz_tenant_id x = t \<and> bz_code x = bz_code r \<and> bz_id x \<noteq> bz_id r"
  by (auto simp: superseded_by_def in_print_def dest: find_row_Some)

lemma superseded_by_None:
  "superseded_by hb t r = None \<Longrightarrow> x \<in> set (hb_rules hb) \<Longrightarrow> in_print x \<Longrightarrow> bz_tenant_id x = t \<Longrightarrow> bz_code x = bz_code r \<Longrightarrow> bz_id x = bz_id r"
  by (auto simp: superseded_by_def in_print_def find_row_None_iff)

lemma one_in_print:
  assumes "sound_handbook hb" and "x \<in> set (hb_rules hb)" "y \<in> set (hb_rules hb)" "in_print x" "in_print y" "rule_key x = rule_key y"
  shows "x = y"
  using assms by (auto simp: sound_handbook_def table_holds_def distinct_map inj_on_def)

text \<open>The two flushes of a handover.\<close>

definition handed_over :: "timestamp \<Rightarrow> handbook \<Rightarrow> actor \<Rightarrow> business_rule \<Rightarrow> day \<Rightarrow> handbook" where
  "handed_over now hb a r starts = change_rule (bz_id r) (open_version now a starts)
     (case superseded_by hb (bz_tenant_id r) r of None \<Rightarrow> hb | Some x \<Rightarrow> change_rule (bz_id x) (close_version starts) hb)"

lemma handover_flushes:
  assumes sound: "sound_handbook hb" and r: "r \<in> set (hb_rules hb)" "bz_status r = ''draft''" "bz_deleted_at r = None"
    and thru: "\<And>t. bz_thru r = Some t \<Longrightarrow> starts \<le> t"
    and after: "\<And>x f. superseded_by hb (bz_tenant_id r) r = Some x \<Longrightarrow> bz_from x = Some f \<Longrightarrow> f \<le> starts"
  shows "\<exists>hb1. (case superseded_by hb (bz_tenant_id r) r of None \<Rightarrow> Inr hb
      | Some x \<Rightarrow> flush_rules (change_rule (bz_id x) (close_version starts) hb)) = Inr hb1 \<and>
    flush_rules (change_rule (bz_id r) (open_version now a starts) hb1) = Inr (handed_over now hb a r starts) \<and>
    sound_handbook (handed_over now hb a r starts)"
proof (cases "superseded_by hb (bz_tenant_id r) r")
  case None
  have "sound_handbook (change_rule (bz_id r) (open_version now a starts) hb)"
  proof (rule open_keeps [OF sound r(1,3) thru])
    fix x
    assume "x \<in> set (hb_rules hb)" "x \<noteq> r" "in_print x"
    then show "rule_key x \<noteq> rule_key r"
      using superseded_by_None [OF None] one_row [OF sound r(1)] by (auto simp: rule_key_def)
  qed
  with None show ?thesis by (simp add: handed_over_def flush_rules_def sound_handbook_def)
next
  case (Some x)
  note x = superseded_by_Some [OF Some]
  let ?hb = "change_rule (bz_id x) (close_version starts) hb"
  have sound1: "sound_handbook ?hb" by (rule close_keeps [OF sound]) (use x after [OF Some] in auto)
  have kept: "r \<in> set (hb_rules ?hb)" using r(1) x by (auto simp: set_update_rows)
  have "sound_handbook (change_rule (bz_id r) (open_version now a starts) ?hb)"
  proof (rule open_keeps [OF sound1 kept r(3) thru])
    fix y
    assume y: "y \<in> set (hb_rules ?hb)" "y \<noteq> r" "in_print y"
    then have "y \<in> set (hb_rules hb)" "y \<noteq> x" using close_version_fields(6) by (auto simp: set_update_rows)
    with y(3) x one_in_print [OF sound, of y x] show "rule_key y \<noteq> rule_key r" by (auto simp: rule_key_def)
  qed
  with Some sound1 show ?thesis by (simp add: handed_over_def flush_rules_def sound_handbook_def)
qed

text \<open>What a publication leaves, and why it may be refused.\<close>

definition may_hand_over :: "day \<Rightarrow> handbook \<Rightarrow> business_rule \<Rightarrow> day option \<Rightarrow> bool" where
  "may_hand_over today hb r effective_from \<longleftrightarrow>
     bz_status r = ''draft'' \<and> (\<forall>t. bz_thru r = Some t \<longrightarrow> starting_day today effective_from r \<le> t) \<and>
     (\<forall>x f. superseded_by hb (bz_tenant_id r) r = Some x \<longrightarrow> bz_from x = Some f \<longrightarrow> f \<le> starting_day today effective_from r)"

lemma publish_rule_cases:
  assumes sound: "sound_handbook hb" and r: "r \<in> set (hb_rules hb)" "bz_tenant_id r = ac_tenant_id a" "bz_deleted_at r = None"
  shows "publish_rule now today hb a r effective_from = Inr hb' \<Longrightarrow>
      may_hand_over today hb r effective_from \<and> sound_handbook hb' \<and>
      hb_rules hb' = hb_rules (handed_over now hb a r (starting_day today effective_from r))"
    and "publish_rule now today hb a r effective_from = Inl e \<Longrightarrow> http_status e \<in> {403, 409, 422} \<or>
      e = HttpError 500 ''OverflowError'' \<and> starting_day today effective_from r \<le> DATE_MIN"
proof -
  let ?starts = "starting_day today effective_from r"
  have guards: "bz_status r = ''draft'' \<and> \<not> (case bz_thru r of None \<Rightarrow> False | Some t \<Rightarrow> t < ?starts) \<and>
      (case superseded_by hb (ac_tenant_id a) r of None \<Rightarrow> True
       | Some x \<Rightarrow> (case bz_from x of None \<Rightarrow> True | Some f \<Rightarrow> \<not> ?starts < f)) \<longleftrightarrow> may_hand_over today hb r effective_from"
    by (auto simp: may_hand_over_def r(2) not_less split: option.splits)
  have flushes: "\<exists>hb1. (case superseded_by hb (ac_tenant_id a) r of None \<Rightarrow> Inr hb
      | Some x \<Rightarrow> flush_rules (change_rule (bz_id x) (close_version ?starts) hb)) = Inr hb1 \<and>
    flush_rules (change_rule (bz_id r) (open_version now a ?starts) hb1) = Inr (handed_over now hb a r ?starts) \<and>
    sound_handbook (handed_over now hb a r ?starts)" if "may_hand_over today hb r effective_from"
    unfolding r(2) [symmetric] by (rule handover_flushes [OF sound r(1) _ r(3)]) (use that in \<open>auto simp: may_hand_over_def\<close>)
  show "may_hand_over today hb r effective_from \<and> sound_handbook hb' \<and> hb_rules hb' = hb_rules (handed_over now hb a r ?starts)"
    if "publish_rule now today hb a r effective_from = Inr hb'"
  proof -
    from that have may: "may_hand_over today hb r effective_from"
      unfolding publish_rule_def Let_def bindE_Inr_iff ensure_Inr_iff using guards by blast
    from flushes [OF this] that show ?thesis using may
      by (auto simp: publish_rule_def hand_over_def Let_def bindE_Inr_iff ensure_Inr_iff split: if_splits option.splits)
  qed
  show "http_status e \<in> {403, 409, 422} \<or> e = HttpError 500 ''OverflowError'' \<and> ?starts \<le> DATE_MIN"
    if "publish_rule now today hb a r effective_from = Inl e"
  proof (cases "may_hand_over today hb r effective_from")
    case True
    from flushes [OF this] that guards True show ?thesis
      by (auto simp: publish_rule_def hand_over_def closes_on_the_calendar_def Let_def bindE_Inl_iff bindE_Inr_iff ensure_Inl_iff
          ensure_Inr_iff require_rule_publisher_def split: option.splits)
  next
    case False
    with that guards show ?thesis
      by (auto simp: publish_rule_def Let_def bindE_Inl_iff ensure_Inl_iff ensure_Inr_iff require_rule_publisher_def)
  qed
qed

end
