(* ===== verification/Handbook_History.thy ===== *)
theory Handbook_History
  imports Handbook_Laws
begin

text \<open>
  Any history of calls on the handbook: it stays in order, what people were told stays recoverable, no call
  ends on a constraint of the table.
\<close>

subsection \<open>Drafts\<close>

lemma sound_tick:
  "sound_handbook hb \<Longrightarrow> sound_handbook (hb\<lparr>hb_db := tick (hb_db hb)\<rparr>)"
  by (auto simp: sound_handbook_def tick_def)

lemma identity_shape:
  assumes "resolve_rule_identity hb t p = Inr d"
  shows "rq_kind p \<noteq> ''policy'' \<Longrightarrow> ri_entity_kind d \<noteq> None \<and> ri_object_type d \<noteq> None \<and> ri_name d \<noteq> None"
    and "rq_kind p = ''policy'' \<Longrightarrow> ri_category d \<noteq> None"
  using assms by (auto simp: resolve_rule_identity_def Let_def bindE_Inr_iff split: if_splits)

lemma shape_filled: "ensure_rule_visibility_shape (Some v) c = Inr u \<Longrightarrow> v = ''restricted'' \<Longrightarrow> filled c"
  by (auto simp: ensure_rule_visibility_shape_def ensure_Inr_iff filled_def)

lemma drafter_kind: "require_rule_drafter a k = Inr u \<Longrightarrow> k \<in> set RULE_KINDS"
  by (auto simp: require_rule_drafter_def ensure_Inr_iff may_draft_rules_def drafting_grants_def RULE_KIND_GATES_def dict_get_def
      RULE_KINDS_def SCOPED_RULE_KINDS_def split: if_splits)

text \<open>What drafting does to the table: a new row, or the seed with the request's text.\<close>

definition drafted_rules :: "handbook \<Rightarrow> uuid \<Rightarrow> rule_request \<Rightarrow> uuid \<Rightarrow> business_rule list \<Rightarrow> bool" where
  "drafted_rules hb tenant_id p i rules \<longleftrightarrow>
     (\<exists>s \<in> set (hb_rules hb). bz_id s = i \<and> bz_tenant_id s = tenant_id \<and> bz_status s = ''draft'' \<and> bz_deleted_at s = None \<and>
        rules = update_rows (\<lambda>r. bz_id r = i) (adopted p) (hb_rules hb)) \<or>
     (\<exists>r. bz_id r = i \<and> bz_tenant_id r = tenant_id \<and> bz_status r = ''draft'' \<and> bz_deleted_at r = None \<and> rules = hb_rules hb @ [r])"

lemma adopted_fields:
  "bz_id (adopted p s) = bz_id s" "rule_key (adopted p s) = rule_key s" "bz_version (adopted p s) = bz_version s"
  "bz_status (adopted p s) = bz_status s" "bz_deleted_at (adopted p s) = bz_deleted_at s" "bz_kind (adopted p s) = bz_kind s"
  "in_print (adopted p s) = in_print s" "told (adopted p s) = told s" "bz_tenant_id (adopted p s) = bz_tenant_id s"
  by (simp_all add: adopted_def rule_key_def in_print_def told_def)

lemma adopt_keeps:
  assumes sound: "sound_handbook hb" and s: "s \<in> set (hb_rules hb)" "bz_status s = ''draft''" "bz_deleted_at s = None"
    and shape: "rq_visibility p = ''restricted'' \<Longrightarrow> filled (rq_required_capability p)" and period: "period_ok (rq_from p) (rq_thru p)"
  shows "sound_handbook (change_rule (bz_id s) (adopted p) hb)"
proof -
  have checks: "rule_checks s" using sound s(1) by (auto simp: sound_handbook_def table_holds_def list_all_iff)
  have "rule_checks (adopted p s)"
    using checks shape period s(2) by (auto simp: rule_checks_def adopted_def period_ok_def filled_def)
  then have "table_holds (update_rows (\<lambda>y. bz_id y = bz_id s) (adopted p) (hb_rules hb))"
    using s(2) by (intro table_change [OF sound s(1)]) (simp_all add: adopted_fields in_print_def)
  moreover have "row_in_order (adopted p s)"
    using s(2) shape by (simp add: row_in_order_def adopted_def told_def)
  ultimately show ?thesis by (intro sound_change [OF sound s(1)]) (simp_all add: adopted_fields)
qed

lemma new_rule_fields:
  "bz_id (new_rule hb t p d) = fresh_id (hb_db hb)" "bz_tenant_id (new_rule hb t p d) = t" "bz_status (new_rule hb t p d) = ''draft''"
  "bz_deleted_at (new_rule hb t p d) = None" "bz_version (new_rule hb t p d) = next_rule_version (hb_rules hb) t (ri_code d)"
  "bz_code (new_rule hb t p d) = ri_code d" "bz_kind (new_rule hb t p d) = rq_kind p"
  by (simp_all add: new_rule_def Let_def)

lemma append_keeps:
  assumes sound: "sound_handbook hb" and kind: "rq_kind p \<in> set RULE_KINDS" and d: "resolve_rule_identity hb t p = Inr d"
    and shape: "rq_visibility p = ''restricted'' \<Longrightarrow> filled (rq_required_capability p)" and period: "period_ok (rq_from p) (rq_thru p)"
  shows "sound_handbook (set_rules (\<lambda>rs. rs @ [new_rule hb t p d]) (hb\<lparr>hb_db := tick (hb_db hb)\<rparr>))"
proof -
  let ?r = "new_rule hb t p d"
  have "rule_checks ?r"
    using kind identity_shape [OF d] shape period
    by (auto simp: rule_checks_def new_rule_def Let_def period_ok_def filled_def)
  then have "table_holds (hb_rules hb @ [?r])"
    using sound by (intro table_append) (simp_all add: new_rule_fields in_print_def sound_handbook_def)
  moreover have "row_in_order ?r" using shape by (simp add: row_in_order_def new_rule_def Let_def told_def)
  moreover have "fresh_id (hb_db hb) \<notin> bz_id ` set (hb_rules hb)" using sound by (auto simp: sound_handbook_def fresh_id_def)
  moreover have "\<forall>n \<ge> Suc (db_next (hb_db hb)). db_uuids (hb_db hb) n \<notin> insert (fresh_id (hb_db hb)) (bz_id ` set (hb_rules hb))"
    using sound by (auto simp: sound_handbook_def fresh_id_def inj_eq)
  ultimately show ?thesis using sound by (simp add: sound_handbook_def new_rule_fields tick_def)
qed

lemma seed_of_Some:
  "seed_of hb t c = Some s \<Longrightarrow> s \<in> set (hb_rules hb) \<and> bz_tenant_id s = t \<and> bz_status s = ''draft'' \<and> bz_deleted_at s = None"
  by (auto simp: seed_of_def dest: find_row_Some)

lemma request_errors:
  "require_type_option os t f v = Inl e \<Longrightarrow> http_status e = 422"
  "validate_rule_scope hb t k o' = Inl e \<Longrightarrow> http_status e = 422"
  "resolve_rule_identity hb t p = Inl e \<Longrightarrow> http_status e = 422"
  "scoped_attachment hb t i = Inl e \<Longrightarrow> http_status e = 404"
  "get_scoped_or_404 d m t j = Inl e \<Longrightarrow> http_status e = 404"
  "scoped_owner hb t i = Inl e \<Longrightarrow> http_status e = 404"
proof -
  show 1: "http_status e = 422" if "require_type_option os t f v = Inl e" for os t f v
    using that by (auto simp: require_type_option_def Let_def ensure_def split: if_splits option.splits)
  show 2: "http_status e = 422" if "validate_rule_scope hb t k o' = Inl e" for t k o'
    using that by (auto simp: validate_rule_scope_def Let_def bindE_Inl_iff ensure_Inl_iff split: if_splits)
  show "http_status e = 422" if "resolve_rule_identity hb t p = Inl e"
    using that 1 2 by (auto simp: resolve_rule_identity_def Let_def bindE_Inl_iff ensure_Inl_iff split: if_splits)
  show "http_status e = 404" if "scoped_attachment hb t i = Inl e"
    using that by (auto simp: scoped_attachment_def ensure_Inl_iff split: option.splits if_splits)
  show 3: "http_status e = 404" if "get_scoped_or_404 d m t j = Inl e" for d m t j
    using that by (auto simp: get_scoped_or_404_def split: option.splits if_splits)
  show "http_status e = 404" if "scoped_owner hb t i = Inl e"
    using that 3 by (auto simp: scoped_owner_def bindE_Inl_iff split: option.splits if_splits)
qed

lemma draft_rule_cases:
  assumes sound: "sound_handbook hb"
  shows "draft_rule digest hb a p edited = Inr (i, hb') \<Longrightarrow>
      sound_handbook hb' \<and> drafted_rules hb (ac_tenant_id a) p i (hb_rules hb')"
    and "draft_rule digest hb a p edited = Inl e \<Longrightarrow> http_status e \<in> {403, 404, 422} \<or>
      e = HttpError 500 ''DataError'' \<and> Some [] \<in> {rq_attachment_id p, rq_owner_employee_id p}"
proof -
  let ?t = "ac_tenant_id a"
  define guards where "guards = (\<lambda>d :: rule_identity. require_rule_drafter a (rq_kind p) = Inr () \<and> resolve_rule_identity hb ?t p = Inr d \<and>
      ensure_rule_visibility_shape (Some (rq_visibility p)) (rq_required_capability p) = Inr () \<and> period_ok (rq_from p) (rq_thru p))"
  define seed where "seed = (\<lambda>d :: rule_identity. case seed_of hb ?t (ri_code d) of None \<Rightarrow> None
            | Some s \<Rightarrow> if edited \<or> seed_is_untouched digest s then Some s else None)"
  have seeded: "s \<in> set (hb_rules hb) \<and> bz_tenant_id s = ?t \<and> bz_status s = ''draft'' \<and> bz_deleted_at s = None" if "seed d = Some s" for d s
    using that by (auto simp: seed_def dest: seed_of_Some split: option.splits if_splits)
  define rest where "rest = (\<lambda>d :: rule_identity. case seed d of
        Some s \<Rightarrow> bindE (flush_rules (change_rule (bz_id s) (adopted p) hb)) (\<lambda>hb'. Inr (bz_id s, audit_rule a s ''drafted'' hb'))
      | None \<Rightarrow> bindE (flush_rules (set_rules (\<lambda>rs. rs @ [new_rule hb ?t p d]) (hb\<lparr>hb_db := tick (hb_db hb)\<rparr>))) (\<lambda>hb'.
          Inr (bz_id (new_rule hb ?t p d), audit_rule a (new_rule hb ?t p d) ''drafted'' hb')))"
  have all: "draft_rule digest hb a p edited =
     bindE (require_rule_drafter a (rq_kind p)) (\<lambda>_.
      bindE (resolve_rule_identity hb ?t p) (\<lambda>d.
      bindE (ensure_rule_visibility_shape (Some (rq_visibility p)) (rq_required_capability p)) (\<lambda>_.
      bindE (ensure (period_ok (rq_from p) (rq_thru p)) 422 ''effective_thru_precedes_effective_from'') (\<lambda>_.
      bindE (scoped_attachment hb ?t (rq_attachment_id p)) (\<lambda>_.
      bindE (scoped_owner hb ?t (rq_owner_employee_id p)) (\<lambda>_.
      bindE (ensure (rq_attachment_id p \<noteq> Some [] \<and> rq_owner_employee_id p \<noteq> Some []) 500 ''DataError'') (\<lambda>_. rest d)))))))"
    unfolding draft_rule_def rest_def seed_def Let_def by (rule refl)
  have ending: "\<exists>i hb'. rest d = Inr (i, hb') \<and> sound_handbook hb' \<and> drafted_rules hb ?t p i (hb_rules hb')" if g: "guards d" for d
  proof -
    have shape: "rq_visibility p = ''restricted'' \<Longrightarrow> filled (rq_required_capability p)" and period: "period_ok (rq_from p) (rq_thru p)"
      and kind: "rq_kind p \<in> set RULE_KINDS" and d: "resolve_rule_identity hb ?t p = Inr d"
      using g by (auto simp: guards_def dest: shape_filled drafter_kind)
    show ?thesis
    proof (cases "seed d")
      case None
      have "sound_handbook (set_rules (\<lambda>rs. rs @ [new_rule hb ?t p d]) (hb\<lparr>hb_db := tick (hb_db hb)\<rparr>))"
        by (rule append_keeps [OF sound kind d shape period])
      moreover from this have "table_holds (hb_rules hb @ [new_rule hb ?t p d])" by (simp add: sound_handbook_def)
      moreover have "drafted_rules hb ?t p (bz_id (new_rule hb ?t p d)) (hb_rules hb @ [new_rule hb ?t p d])"
        unfolding drafted_rules_def by (intro disjI2 exI [of _ "new_rule hb ?t p d"]) (simp add: new_rule_fields)
      ultimately show ?thesis using None by (simp add: rest_def flush_rules_def)
    next
      case (Some s)
      note s = seeded [OF Some]
      have "sound_handbook (change_rule (bz_id s) (adopted p) hb)" by (rule adopt_keeps [OF sound]) (use s shape period in auto)
      moreover from this have "table_holds (update_rows (\<lambda>r. bz_id r = bz_id s) (adopted p) (hb_rules hb))" by (simp add: sound_handbook_def)
      moreover have "drafted_rules hb ?t p (bz_id s) (update_rows (\<lambda>r. bz_id r = bz_id s) (adopted p) (hb_rules hb))"
        unfolding drafted_rules_def using s by (intro disjI1 bexI [of _ s]) simp_all
      ultimately show ?thesis using Some by (simp add: rest_def flush_rules_def)
    qed
  qed
  show "sound_handbook hb' \<and> drafted_rules hb ?t p i (hb_rules hb')" if "draft_rule digest hb a p edited = Inr (i, hb')"
  proof -
    from that obtain d where "guards d" "rest d = Inr (i, hb')"
      unfolding all bindE_Inr_iff ensure_Inr_iff guards_def by auto
    with ending show ?thesis by fastforce
  qed
  show "http_status e \<in> {403, 404, 422} \<or> e = HttpError 500 ''DataError'' \<and> Some [] \<in> {rq_attachment_id p, rq_owner_employee_id p}"
    if e: "draft_rule digest hb a p edited = Inl e"
  proof -
    have "rest d \<noteq> Inl e" if "guards d" for d using ending [OF that] by auto
    with e request_errors show ?thesis
      unfolding all bindE_Inl_iff ensure_Inl_iff ensure_Inr_iff guards_def
      by (auto simp: require_rule_drafter_def ensure_rule_visibility_shape_def ensure_Inl_iff)
  qed
qed

subsection \<open>The other calls\<close>

lemma rescope_cases:
  assumes sound: "sound_handbook hb"
  shows "rescope_business_rule hb a i v c = Inr hb' \<Longrightarrow> sound_handbook hb' \<and> (hb_rules hb' = hb_rules hb \<or>
      hb_rules hb' = update_rows (\<lambda>r. bz_id r = i) (\<lambda>x. x\<lparr>bz_visibility := v, bz_required_capability := c\<rparr>) (hb_rules hb))"
    and "rescope_business_rule hb a i v c = Inl e \<Longrightarrow> http_status e \<in> {403, 404, 422}"
proof -
  let ?f = "\<lambda>x. x\<lparr>bz_visibility := v, bz_required_capability := c\<rparr>"
  have keep: "sound_handbook (change_rule i ?f hb) \<and> table_holds (update_rows (\<lambda>r. bz_id r = i) ?f (hb_rules hb))"
    if "live_rule hb (ac_tenant_id a) i = Inr r" "ensure_rule_visibility_shape (Some v) c = Inr ()" for r
  proof -
    note r = live_rule_Inr [OF that(1)] and shape = shape_filled [OF that(2)]
    have "rule_checks r" "row_in_order r" using sound r by (auto simp: sound_handbook_def table_holds_def list_all_iff)
    then have "rule_checks (?f r)" "row_in_order (?f r)"
      using shape by (auto simp: rule_checks_def row_in_order_def told_def filled_def)
    moreover have "\<forall>x \<in> set (hb_rules hb). x \<noteq> r \<and> in_print x \<longrightarrow> rule_key x \<noteq> rule_key r" if "in_print (?f r)"
      using one_in_print [OF sound] r that by (auto simp: in_print_def)
    ultimately have "table_holds (update_rows (\<lambda>x. bz_id x = bz_id r) ?f (hb_rules hb))"
      using r by (intro table_change [OF sound]) (simp_all add: rule_key_def)
    moreover from this have "sound_handbook (change_rule (bz_id r) ?f hb)"
      using r \<open>row_in_order (?f r)\<close> by (intro sound_change [OF sound]) simp_all
    ultimately show ?thesis using r by simp
  qed
  show "sound_handbook hb' \<and> (hb_rules hb' = hb_rules hb \<or> hb_rules hb' = update_rows (\<lambda>r. bz_id r = i) ?f (hb_rules hb))"
    if "rescope_business_rule hb a i v c = Inr hb'"
    using that sound keep unfolding rescope_business_rule_def bindE_Inr_iff by (auto simp: flush_rules_Inr bindE_Inr_iff split: if_splits)
  show "http_status e \<in> {403, 404, 422}" if "rescope_business_rule hb a i v c = Inl e"
    using that keep live_rule_errors unfolding rescope_business_rule_def bindE_Inl_iff
    by (auto simp: flush_rules_def bindE_Inl_iff require_rule_publisher_def ensure_Inl_iff ensure_rule_visibility_shape_def split: if_splits)
qed

lemma repeal_cases:
  assumes sound: "sound_handbook hb"
  shows "repeal_business_rule today hb a i thru = Inr hb' \<Longrightarrow> sound_handbook hb' \<and>
      (\<exists>r d. live_rule hb (ac_tenant_id a) i = Inr r \<and> in_print r \<and>
        hb_rules hb' = update_rows (\<lambda>r. bz_id r = i) (\<lambda>x. x\<lparr>bz_status := ''repealed'', bz_thru := Some d\<rparr>) (hb_rules hb))"
    and "repeal_business_rule today hb a i thru = Inl e \<Longrightarrow> http_status e \<in> {403, 404, 409, 422}"
proof -
  define ends where "ends = (case thru of None \<Rightarrow> today | Some d \<Rightarrow> d)"
  let ?f = "\<lambda>x. x\<lparr>bz_status := ''repealed'', bz_thru := Some ends\<rparr>"
  have keep: "sound_handbook (change_rule i ?f hb) \<and> table_holds (update_rows (\<lambda>r. bz_id r = i) ?f (hb_rules hb)) \<and> in_print r"
    if "live_rule hb (ac_tenant_id a) i = Inr r" "bz_status r = ''published''" "case bz_from r of None \<Rightarrow> True | Some f \<Rightarrow> f \<le> ends" for r
  proof -
    note r = live_rule_Inr [OF that(1)]
    have "rule_checks r" "row_in_order r" using sound r by (auto simp: sound_handbook_def table_holds_def list_all_iff)
    then have "rule_checks (?f r)" "row_in_order (?f r)"
      using that(2,3) r by (auto simp: rule_checks_def row_in_order_def told_def split: option.splits)
    then have "table_holds (update_rows (\<lambda>x. bz_id x = bz_id r) ?f (hb_rules hb))"
      using r by (intro table_change [OF sound]) (simp_all add: rule_key_def in_print_def)
    moreover from this have "sound_handbook (change_rule (bz_id r) ?f hb)"
      using r \<open>row_in_order (?f r)\<close> by (intro sound_change [OF sound]) simp_all
    ultimately show ?thesis using r that(2) by (simp add: in_print_def)
  qed
  show "sound_handbook hb' \<and> (\<exists>r d. live_rule hb (ac_tenant_id a) i = Inr r \<and> in_print r \<and>
        hb_rules hb' = update_rows (\<lambda>r. bz_id r = i) (\<lambda>x. x\<lparr>bz_status := ''repealed'', bz_thru := Some d\<rparr>) (hb_rules hb))"
    if "repeal_business_rule today hb a i thru = Inr hb'"
    using that keep unfolding repeal_business_rule_def Let_def bindE_Inr_iff ensure_Inr_iff flush_rules_Inr ends_def [symmetric] by fastforce
  show "http_status e \<in> {403, 404, 409, 422}" if "repeal_business_rule today hb a i thru = Inl e"
    using that keep live_rule_errors unfolding repeal_business_rule_def Let_def bindE_Inl_iff ensure_Inr_iff ends_def [symmetric]
    by (auto simp: flush_rules_def require_rule_publisher_def ensure_Inl_iff split: if_splits)
qed

lemma delete_cases:
  assumes sound: "sound_handbook hb"
  shows "delete_business_rule now hb a i = Inr hb' \<Longrightarrow> sound_handbook hb' \<and>
      (\<exists>r. live_rule hb (ac_tenant_id a) i = Inr r \<and> bz_status r = ''draft'' \<and>
        hb_rules hb' = update_rows (\<lambda>r. bz_id r = i) (\<lambda>x. x\<lparr>bz_deleted_at := Some now\<rparr>) (hb_rules hb))"
    and "delete_business_rule now hb a i = Inl e \<Longrightarrow> http_status e \<in> {403, 404, 409}"
proof -
  let ?f = "\<lambda>x. x\<lparr>bz_deleted_at := Some now\<rparr>"
  have keep: "sound_handbook (change_rule i ?f hb) \<and> table_holds (update_rows (\<lambda>r. bz_id r = i) ?f (hb_rules hb))"
    if "live_rule hb (ac_tenant_id a) i = Inr r" "bz_status r = ''draft''" for r
  proof -
    note r = live_rule_Inr [OF that(1)]
    have "rule_checks r" "row_in_order r" using sound r by (auto simp: sound_handbook_def table_holds_def list_all_iff)
    then have "rule_checks (?f r)" "row_in_order (?f r)"
      using that(2) by (auto simp: rule_checks_def row_in_order_def told_def)
    then have "table_holds (update_rows (\<lambda>x. bz_id x = bz_id r) ?f (hb_rules hb))"
      using r by (intro table_change [OF sound]) (simp_all add: rule_key_def in_print_def)
    moreover from this have "sound_handbook (change_rule (bz_id r) ?f hb)"
      using r \<open>row_in_order (?f r)\<close> by (intro sound_change [OF sound]) simp_all
    ultimately show ?thesis using r by simp
  qed
  show "sound_handbook hb' \<and> (\<exists>r. live_rule hb (ac_tenant_id a) i = Inr r \<and> bz_status r = ''draft'' \<and>
        hb_rules hb' = update_rows (\<lambda>r. bz_id r = i) ?f (hb_rules hb))"
    if "delete_business_rule now hb a i = Inr hb'"
    using that keep unfolding delete_business_rule_def bindE_Inr_iff ensure_Inr_iff flush_rules_Inr by fastforce
  show "http_status e \<in> {403, 404, 409}" if "delete_business_rule now hb a i = Inl e"
    using that keep live_rule_errors unfolding delete_business_rule_def bindE_Inl_iff ensure_Inr_iff
    by (auto simp: flush_rules_def require_rule_drafter_def ensure_Inl_iff split: if_splits)
qed

lemma update_cases:
  assumes sound: "sound_handbook hb" and step: "update_business_rule hb a i u = Inr hb'"
  shows "sound_handbook hb' \<and> (\<exists>r. live_rule hb (ac_tenant_id a) i = Inr r \<and> bz_status r = ''draft'' \<and>
        hb_rules hb' = update_rows (\<lambda>r. bz_id r = i) (updated_rule u) (hb_rules hb))"
proof -
  from step obtain r w hb1 where r: "live_rule hb (ac_tenant_id a) i = Inr r" and draft: "ensure_rule_editable r = Inr ()"
    and shape: "ensure_rule_visibility_shape (sent (ru_visibility u) (Some (bz_visibility r)))
               (sent (ru_required_capability u) (bz_required_capability r)) = Inr w"
    and nulls: "ensure (ru_title u \<noteq> Some None \<and> ru_body u \<noteq> Some None \<and> ru_visibility u \<noteq> Some None) 500 ''IntegrityError'' = Inr ()"
    and flush: "flush_rules (change_rule i (updated_rule u) hb) = Inr hb1" and hb': "Inr (audit_rule a r ''updated'' hb1) = (Inr hb' :: handbook result)"
    unfolding update_business_rule_def Let_def bindE_Inr_iff Ex_unit by (elim exE conjE) (rule that)
  note row = live_rule_Inr [OF r]
  have keep: "bz_id (updated_rule u r) = bz_id r" "bz_status (updated_rule u r) = bz_status r" by (simp_all add: updated_rule_def)
  have editable: "bz_status r = ''draft''" using draft by (simp add: ensure_rule_editable_def ensure_Inr_iff)
  have "row_in_order (updated_rule u r)"
    using shape nulls editable
    by (auto simp: row_in_order_def told_def updated_rule_def ensure_rule_visibility_shape_def ensure_Inr_iff sent_def required_def filled_def
        split: option.splits)
  then have "sound_handbook (change_rule (bz_id r) (updated_rule u) hb)"
    using row flush keep by (intro sound_change [OF sound]) (simp_all add: flush_rules_Inr)
  with flush hb' r row editable show ?thesis by (auto simp: flush_rules_Inr)
qed

subsection \<open>Histories\<close>

datatype rule_event =
    Draft_Rule rule_request
  | Edit_Rule uuid rule_update
  | Discard_Rule timestamp uuid
  | Publish_Rule timestamp day uuid "day option"
  | Publish_Now timestamp day rule_request
  | Rescope_Rule uuid string "string option"
  | Repeal_Rule day uuid "day option"

fun rule_step :: "(string \<Rightarrow> string) \<Rightarrow> handbook \<Rightarrow> actor \<Rightarrow> rule_event \<Rightarrow> handbook result" where
  "rule_step digest hb a (Draft_Rule p) = bindE (draft_rule digest hb a p False) (\<lambda>(i, hb'). Inr hb')"
| "rule_step digest hb a (Edit_Rule i u) = update_business_rule hb a i u"
| "rule_step digest hb a (Discard_Rule now i) = delete_business_rule now hb a i"
| "rule_step digest hb a (Publish_Rule now today i d) = publish_business_rule now today hb a i d"
| "rule_step digest hb a (Publish_Now now today p) = publish_rule_now digest now today hb a p"
| "rule_step digest hb a (Rescope_Rule i v c) = rescope_business_rule hb a i v c"
| "rule_step digest hb a (Repeal_Rule today i d) = repeal_business_rule today hb a i d"

fun run_rules :: "(string \<Rightarrow> string) \<Rightarrow> handbook \<Rightarrow> (actor \<times> rule_event) list \<Rightarrow> handbook" where
  "run_rules digest hb [] = hb"
| "run_rules digest hb ((a, e) # es) = run_rules digest (case rule_step digest hb a e of Inl _ \<Rightarrow> hb | Inr hb' \<Rightarrow> hb') es"

text \<open>The same words, and, once closed, the same end.\<close>

definition keeps_told :: "business_rule \<Rightarrow> business_rule \<Rightarrow> bool" where
  "keeps_told r r' \<longleftrightarrow> (bz_id r', bz_tenant_id r', bz_kind r', bz_code r', bz_version r', bz_title r', bz_body r', bz_from r', bz_published r') =
     (bz_id r, bz_tenant_id r, bz_kind r, bz_code r, bz_version r, bz_title r, bz_body r, bz_from r, bz_published r) \<and>
     told r' \<and> (bz_status r \<noteq> ''published'' \<longrightarrow> bz_status r' = bz_status r \<and> bz_thru r' = bz_thru r)"

definition remembered :: "handbook \<Rightarrow> handbook \<Rightarrow> bool" where
  "remembered hb hb' \<longleftrightarrow> (\<forall>r \<in> set (hb_rules hb). told r \<longrightarrow> (\<exists>r' \<in> set (hb_rules hb'). keeps_told r r'))"

lemma keeps_told_refl: "told r \<Longrightarrow> keeps_told r r"
  by (simp add: keeps_told_def)

lemma keeps_told_trans: "keeps_told r r' \<Longrightarrow> keeps_told r' r'' \<Longrightarrow> keeps_told r r''"
  by (auto simp: keeps_told_def)

lemma remembered_refl: "remembered hb hb"
  by (auto simp: remembered_def intro: keeps_told_refl)

lemma remembered_trans: "remembered hb hb' \<Longrightarrow> remembered hb' hb'' \<Longrightarrow> remembered hb hb''"
  unfolding remembered_def by (meson keeps_told_def keeps_told_trans)

lemma remembered_same: "hb_rules hb' = hb_rules hb \<Longrightarrow> remembered hb hb'"
  by (auto simp: remembered_def intro: keeps_told_refl)

lemma remembered_change:
  assumes "hb_rules hb' = update_rows (\<lambda>r. bz_id r = i) f (hb_rules hb)"
    and "\<And>x. x \<in> set (hb_rules hb) \<Longrightarrow> bz_id x = i \<Longrightarrow> told x \<Longrightarrow> keeps_told x (f x)"
  shows "remembered hb hb'"
proof -
  have "\<exists>r' \<in> set (hb_rules hb'). keeps_told r r'" if "r \<in> set (hb_rules hb)" "told r" for r
    using assms that keeps_told_refl [OF that(2)] by (cases "bz_id r = i") (auto simp: set_update_rows)
  then show ?thesis by (simp add: remembered_def)
qed

lemma draft_not_told: "bz_status r = ''draft'' \<Longrightarrow> \<not> told r"
  by (simp add: told_def)

lemma change_of_draft:
  assumes "sound_handbook hb" and "r \<in> set (hb_rules hb)" and "bz_id r = i" and "bz_status r = ''draft''"
    and "hb_rules hb' = update_rows (\<lambda>r. bz_id r = i) f (hb_rules hb)"
  shows "remembered hb hb'"
proof (rule remembered_change [OF assms(5)])
  fix x
  assume x: "x \<in> set (hb_rules hb)" "bz_id x = i" "told x"
  then have "x = r" using one_row [OF assms(1,2) x(1)] assms(3) by simp
  then show "keeps_told x (f x)" using x(3) draft_not_told [OF assms(4)] by simp
qed

lemma drafted_remembered:
  assumes "sound_handbook hb" and "drafted_rules hb t p i (hb_rules hb')"
  shows "remembered hb hb'"
  using assms(2) unfolding drafted_rules_def
proof
  assume "\<exists>s \<in> set (hb_rules hb). bz_id s = i \<and> bz_tenant_id s = t \<and> bz_status s = ''draft'' \<and> bz_deleted_at s = None \<and>
    hb_rules hb' = update_rows (\<lambda>r. bz_id r = i) (adopted p) (hb_rules hb)"
  then show ?thesis using change_of_draft [OF assms(1)] by blast
next
  assume "\<exists>r. bz_id r = i \<and> bz_tenant_id r = t \<and> bz_status r = ''draft'' \<and> bz_deleted_at r = None \<and> hb_rules hb' = hb_rules hb @ [r]"
  then show ?thesis by (auto simp: remembered_def intro: keeps_told_refl)
qed

lemma handed_over_remembered:
  assumes sound: "sound_handbook hb" and r: "r \<in> set (hb_rules hb)" "bz_status r = ''draft''"
  shows "remembered hb (handed_over now hb a r starts)"
proof (cases "superseded_by hb (bz_tenant_id r) r")
  case None
  show ?thesis by (rule change_of_draft [OF sound r(1) refl r(2)]) (simp add: handed_over_def None)
next
  case (Some x)
  note x = superseded_by_Some [OF Some]
  let ?hb = "change_rule (bz_id x) (close_version starts) hb"
  have "keeps_told y (close_version starts y)" if "y \<in> set (hb_rules hb)" "bz_id y = bz_id x" for y
  proof -
    have "y = x" using one_row [OF sound] x that by blast
    then show ?thesis using x by (simp add: keeps_told_def close_version_def told_def in_print_def)
  qed
  then have "remembered hb ?hb" by (intro remembered_change [where i = "bz_id x"]) simp_all
  moreover have "remembered ?hb (handed_over now hb a r starts)"
  proof (rule remembered_change)
    show "hb_rules (handed_over now hb a r starts) = update_rows (\<lambda>y. bz_id y = bz_id r) (open_version now a starts) (hb_rules ?hb)"
      by (simp add: handed_over_def Some)
    fix y
    assume y: "y \<in> set (hb_rules ?hb)" "bz_id y = bz_id r" "told y"
    then have "y \<in> set (hb_rules hb)" using x by (auto simp: set_update_rows close_version_fields)
    then have "y = r" using one_row [OF sound r(1)] y(2) by blast
    with y(3) r(2) show "keeps_told y (open_version now a starts y)" by (simp add: told_def)
  qed
  ultimately show ?thesis by (rule remembered_trans)
qed

lemma publish_keeps:
  assumes sound: "sound_handbook hb" and r: "live_rule hb (ac_tenant_id a) i = Inr r" and step: "publish_rule now today hb a r d = Inr hb'"
  shows "sound_handbook hb' \<and> remembered hb hb'"
proof -
  note row = live_rule_Inr [OF r]
  from publish_rule_cases(1) [OF sound _ _ _ step] row
  have may: "may_hand_over today hb r d" "sound_handbook hb'" "hb_rules hb' = hb_rules (handed_over now hb a r (starting_day today d r))" by auto
  have "remembered hb (handed_over now hb a r (starting_day today d r))"
    by (rule handed_over_remembered [OF sound]) (use row may in \<open>simp_all add: may_hand_over_def\<close>)
  with may show ?thesis by (simp add: remembered_def)
qed

lemma rule_step_keeps:
  assumes sound: "sound_handbook hb" and step: "rule_step digest hb a e = Inr hb'"
  shows "sound_handbook hb' \<and> remembered hb hb'"
proof (cases e)
  case (Draft_Rule p)
  with step obtain i where "draft_rule digest hb a p False = Inr (i, hb')" by (auto simp: result_simps)
  from draft_rule_cases(1) [OF sound this] drafted_remembered [OF sound] show ?thesis by blast
next
  case (Edit_Rule i u)
  with step have "update_business_rule hb a i u = Inr hb'" by simp
  from update_cases [OF sound this] show ?thesis using change_of_draft [OF sound] live_rule_Inr by blast
next
  case (Discard_Rule now i)
  with step have "delete_business_rule now hb a i = Inr hb'" by simp
  from delete_cases(1) [OF sound this] show ?thesis using change_of_draft [OF sound] live_rule_Inr by blast
next
  case (Publish_Rule now today i d)
  with step obtain r where "live_rule hb (ac_tenant_id a) i = Inr r" "publish_rule now today hb a r d = Inr hb'"
    by (auto simp: publish_business_rule_def result_simps)
  then show ?thesis by (rule publish_keeps [OF sound])
next
  case (Publish_Now now today p)
  with step obtain i hb1 r where 1: "draft_rule digest hb a p True = Inr (i, hb1)"
    and 2: "live_rule hb1 (ac_tenant_id a) i = Inr r" "publish_rule now today hb1 a r (rq_from p) = Inr hb'"
    by (auto simp: publish_rule_now_def result_simps)
  have sound1: "sound_handbook hb1" and "remembered hb hb1"
    using draft_rule_cases(1) [OF sound 1] drafted_remembered [OF sound] by blast+
  then show ?thesis using publish_keeps [OF sound1 2] remembered_trans by blast
next
  case (Rescope_Rule i v c)
  with step have "rescope_business_rule hb a i v c = Inr hb'" by simp
  from rescope_cases(1) [OF sound this] show ?thesis
    using remembered_same [of hb' hb] remembered_change [of hb' i "\<lambda>x. x\<lparr>bz_visibility := v, bz_required_capability := c\<rparr>" hb]
    by (auto simp: keeps_told_def told_def)
next
  case (Repeal_Rule today i d)
  with step have "repeal_business_rule today hb a i d = Inr hb'" by simp
  from repeal_cases(1) [OF sound this] obtain r t where sound': "sound_handbook hb'" and r: "live_rule hb (ac_tenant_id a) i = Inr r" "in_print r"
    and rules: "hb_rules hb' = update_rows (\<lambda>r. bz_id r = i) (\<lambda>x. x\<lparr>bz_status := ''repealed'', bz_thru := Some t\<rparr>) (hb_rules hb)" by blast
  have "remembered hb hb'"
  proof (rule remembered_change [OF rules])
    fix x
    assume "x \<in> set (hb_rules hb)" "bz_id x = i"
    then have "x = r" using one_row [OF sound] live_rule_Inr [OF r(1)] by blast
    then show "keeps_told x (x\<lparr>bz_status := ''repealed'', bz_thru := Some t\<rparr>)"
      using r(2) by (simp add: keeps_told_def told_def in_print_def)
  qed
  with sound' show ?thesis ..
qed

lemma run_rules_keeps:
  "sound_handbook hb \<Longrightarrow> sound_handbook (run_rules digest hb es) \<and> remembered hb (run_rules digest hb es)"
proof (induction es arbitrary: hb)
  case Nil
  then show ?case by (simp add: remembered_refl)
next
  case (Cons ae es)
  obtain a e where ae: "ae = (a, e)" by (cases ae)
  show ?case
  proof (cases "rule_step digest hb a e")
    case (Inr hb')
    with rule_step_keeps [OF Cons.prems] have "sound_handbook hb'" "remembered hb hb'" by blast+
    with Cons.IH [of hb'] Inr show ?thesis using remembered_trans by (auto simp: ae)
  qed (use Cons in \<open>simp add: ae\<close>)
qed

end
