(* ===== verification/Handbook_Examples.thy ===== *)
theory Handbook_Examples
  imports Handbook_History
begin

text \<open>
  What the handbook promises its readers, a company to run it on, and where it does not keep its word.
\<close>

subsection \<open>Publishing\<close>

text \<open>C26: Whatever is drafted, edited, discarded, published, reopened to other readers and repealed, by any
  callers and refused calls included: every rule people were once told stays in the handbook with its words,
  its version, its first day and its publisher; one that was superseded or repealed stays so, with the same
  last day; the handbook stays in order, with one published version per code.\<close>

theorem what_people_were_told_stays:
  assumes "sound_handbook hb"
  shows "sound_handbook (run_rules digest hb es) \<and> remembered hb (run_rules digest hb es)"
  using assms by (rule run_rules_keeps)

definition answered :: "handbook \<Rightarrow> uuid \<Rightarrow> string \<Rightarrow> day \<Rightarrow> bool" where
  "answered hb tenant_id code d \<longleftrightarrow> list_ex (\<lambda>r. rule_key r = (tenant_id, code) \<and> in_force_filter d r) (hb_rules hb)"

lemma close_version_covers:
  assumes "d < starts" and "in_force_filter d x"
  shows "in_force_filter d (close_version starts x)"
  using assms by (auto simp: in_force_filter_def covers_day_def close_version_def closed_on_def split: option.splits)

lemma handed_over_rules:
  "hb_rules (handed_over now hb a r starts) = update_rows (\<lambda>y. bz_id y = bz_id r) (open_version now a starts)
     (case superseded_by hb (bz_tenant_id r) r of None \<Rightarrow> hb_rules hb
      | Some x \<Rightarrow> update_rows (\<lambda>y. bz_id y = bz_id x) (close_version starts) (hb_rules hb))"
  by (simp add: handed_over_def split: option.splits)

lemma earlier_answer_kept:
  assumes "sound_handbook hb" and "r \<in> set (hb_rules hb)" "bz_status r = ''draft''"
    and y: "y \<in> set (hb_rules hb)" "in_force_filter d y" and d: "d < starts"
  shows "\<exists>z \<in> set (hb_rules (handed_over now hb a r starts)). rule_key z = rule_key y \<and> in_force_filter d z"
proof -
  have "y \<noteq> r" using y(2) assms(3) by (auto simp: in_force_filter_def)
  then have other: "bz_id y \<noteq> bz_id r" using one_row [OF assms(1,2) y(1)] by blast
  define rs where "rs = (case superseded_by hb (bz_tenant_id r) r of None \<Rightarrow> hb_rules hb
      | Some x \<Rightarrow> update_rows (\<lambda>y. bz_id y = bz_id x) (close_version starts) (hb_rules hb))"
  have "\<exists>z \<in> set rs. bz_id z = bz_id y \<and> rule_key z = rule_key y \<and> in_force_filter d z"
  proof (cases "superseded_by hb (bz_tenant_id r) r")
    case None
    with y show ?thesis by (auto simp: rs_def)
  next
    case (Some x)
    show ?thesis
    proof (cases "bz_id y = bz_id x")
      case True
      with Some y(1) have "close_version starts y \<in> set rs" by (auto simp: rs_def set_update_rows)
      with close_version_covers [OF d y(2)] show ?thesis by (metis close_version_fields(1,2))
    next
      case False
      with Some y show ?thesis by (auto simp: rs_def set_update_rows)
    qed
  qed
  with other show ?thesis by (auto simp: handed_over_rules rs_def [symmetric] set_update_rows)
qed

lemma new_version_in_force:
  assumes "r \<in> set (hb_rules hb)" "bz_deleted_at r = None" and "starts \<le> d" "\<forall>t. bz_thru r = Some t \<longrightarrow> d \<le> t"
  shows "list_ex (\<lambda>x. bz_id x = bz_id r \<and> in_print x \<and> in_force_filter d x) (hb_rules (handed_over now hb a r starts))"
proof -
  have "open_version now a starts r \<in> set (hb_rules (handed_over now hb a r starts))"
    using assms(1) by (auto simp: handed_over_rules set_update_rows dest: superseded_by_Some split: option.splits)
  moreover have "in_print (open_version now a starts r) \<and> in_force_filter d (open_version now a starts r)"
    using assms(2-4) by (auto simp: in_print_def in_force_filter_def covers_day_def open_version_def split: option.splits)
  ultimately show ?thesis by (auto simp: list_ex_iff open_version_fields intro!: bexI [of _ "open_version now a starts r"])
qed

text \<open>C27: Publishing leaves no gap: a day before the new version starts that had an answer keeps one, and from its
  first day to its last the new version is in force.\<close>

theorem publishing_leaves_no_gap:
  assumes "sound_handbook hb" and "live_rule hb (ac_tenant_id a) i = Inr r"
    and "publish_business_rule now today hb a i effective_from = Inr hb'"
  shows "(d < starting_day today effective_from r \<longrightarrow> answered hb (ac_tenant_id a) (bz_code r) d \<longrightarrow>
      answered hb' (ac_tenant_id a) (bz_code r) d) \<and>
    (starting_day today effective_from r \<le> d \<and> (\<forall>t. bz_thru r = Some t \<longrightarrow> d \<le> t) \<longrightarrow>
      list_ex (\<lambda>x. bz_id x = i \<and> in_print x \<and> in_force_filter d x) (hb_rules hb'))"
proof -
  let ?starts = "starting_day today effective_from r"
  note row = live_rule_Inr [OF assms(2)]
  from assms(2,3) have "publish_rule now today hb a r effective_from = Inr hb'" by (simp add: publish_business_rule_def)
  from publish_rule_cases(1) [OF assms(1) _ _ _ this] row
  have draft: "bz_status r = ''draft''" and rules: "hb_rules hb' = hb_rules (handed_over now hb a r ?starts)"
    by (auto simp: may_hand_over_def)
  have "answered hb' (ac_tenant_id a) (bz_code r) d" if "d < ?starts" "answered hb (ac_tenant_id a) (bz_code r) d"
  proof -
    from that(2) obtain y where y: "y \<in> set (hb_rules hb)" "in_force_filter d y" "rule_key y = (ac_tenant_id a, bz_code r)"
      by (auto simp: answered_def list_ex_iff)
    from earlier_answer_kept [OF assms(1) _ draft y(1,2) that(1)] row y(3) rules show ?thesis
      by (auto simp: answered_def list_ex_iff)
  qed
  then show ?thesis using new_version_in_force [of r hb ?starts d now a] row rules by auto
qed




subsection \<open>Reading\<close>

text \<open>One rule governs a day: asked for a date, the list holds at most one version per code.\<close>

theorem one_version_governs_a_day:
  assumes "sound_handbook hb"
  shows "distinct (map rule_key (rules_query hb a False (Some d)))"
proof -
  let ?rs = "rules_query hb a False (Some d)"
  have table: "distinct (map (\<lambda>r. (rule_key r, bz_version r)) (hb_rules hb))" "distinct (hb_rules hb)"
    using assms by (auto simp: sound_handbook_def table_holds_def distinct_map)
  have "inj_on rule_key (set ?rs)"
  proof (rule inj_onI)
    fix x y
    assume x: "x \<in> set ?rs" and y: "y \<in> set ?rs" and key: "rule_key x = rule_key y"
    have "\<not> governs_over d y x" "\<not> governs_over d x y" using x y by (auto simp: rules_query_def list_ex_iff)
    then have "bz_version x = bz_version y"
      using x y key by (auto simp: governs_over_def rules_query_def rule_key_def)
    with key table(1) x y show "x = y" by (auto simp: distinct_map inj_on_def rules_query_def)
  qed
  with table(2) show ?thesis by (simp add: distinct_map rules_query_def)
qed

text \<open>C36: For a reader who manages no kind of rule the list filter lets a rule of the workspace through exactly when it may be
  read by its id and is not repealed, or a date is asked about.\<close>

theorem a_list_shows_what_may_be_read:
  assumes "sound_handbook hb" and "r \<in> set (hb_rules hb)" and "bz_tenant_id r = t"
    and "managed_rule_kinds a = []"
  shows "visible_rule_filter hb a t historical r \<longleftrightarrow> may_read_rule a r \<and> (historical \<or> bz_status r \<noteq> ''repealed'')"
proof -
  have row: "row_in_order r" "rule_checks r" using assms(1,2) by (auto simp: sound_handbook_def table_holds_def list_all_iff)
  have "\<not> may_manage_rules a (bz_kind r)"
    using assms(4) row(2) by (auto simp: managed_rule_kinds_def rule_checks_def filter_empty_conv)
  moreover have "c \<in> set (covered_rule_capabilities hb a t) \<longleftrightarrow> holds_capability a c" if "bz_required_capability r = Some c" for c
    using that assms(2,3) by (auto simp: covered_rule_capabilities_def)
  ultimately show ?thesis
    using row assms(4) by (auto simp: visible_rule_filter_def may_read_rule_def row_in_order_def told_def filled_def RULE_KINDS_def
        split: option.splits)
qed

subsection \<open>A company\<close>

definition editor :: actor where
  "editor = with_grants [''policy.manage'', ''policy.publish'', ''workflows.publish''] blank_actor"

definition drafter :: actor where
  "drafter = with_grants [''policy.manage''] blank_actor"

definition router :: actor where
  "router = with_grants [''workflows.publish''] blank_actor"

definition claimant :: actor where
  "claimant = with_grants [''expense.submit_own''] blank_actor"

definition company :: handbook where
  "company = \<lparr>hb_db = blank_db\<lparr>db_definitions := [\<lparr>td_tenant_id = ''t'', td_entity_kind = ''builtin'', td_object_type = ''expense_claim'',
       td_status = ''active'', td_state_machine = None\<rparr>]\<rparr>,
     hb_flow = \<lparr>sv_identity = \<lparr>id_tenants = [], id_users = [], id_sessions = [], id_keys = [], id_roles = [], id_subscriptions = [],
         id_custom_capabilities = [], id_audit = []\<rparr>,
       sv_skills = [], sv_definitions = [], sv_runs = [], sv_uuids = (\<lambda>n. replicate (Suc n) CHR ''r''), sv_next = 0\<rparr>,
     hb_attachments = [], hb_rules = []\<rparr>"

definition policy :: "string \<Rightarrow> day option \<Rightarrow> rule_request" where
  "policy text from_day = \<lparr>rq_kind = ''policy'', rq_code = Some ''travel'', rq_entity_kind = None, rq_object_type = None, rq_name = None,
     rq_category = Some ''hr'', rq_title = Some ''Travel'', rq_body = text, rq_visibility = ''internal'', rq_required_capability = None,
     rq_from = from_day, rq_thru = None, rq_attachment_id = None, rq_owner_employee_id = None\<rparr>"

definition about_claims :: "string \<Rightarrow> string option \<Rightarrow> rule_request" where
  "about_claims kind code = \<lparr>rq_kind = kind, rq_code = code, rq_entity_kind = None, rq_object_type = Some ''expense_claim'', rq_name = None,
     rq_category = None, rq_title = None, rq_body = ''text'', rq_visibility = ''internal'', rq_required_capability = None,
     rq_from = None, rq_thru = None, rq_attachment_id = None, rq_owner_employee_id = None\<rparr>"

abbreviation "decree hb es \<equiv> run_rules id hb (map (Pair editor) es)"

definition two_versions :: "rule_event list" where
  "two_versions = [Publish_Now 0 5 (policy ''by train'' None), Draft_Rule (policy ''by plane'' None), Publish_Rule 0 9 ''xx'' None]"

lemma company_sound: "sound_handbook company"
proof -
  have "inj (\<lambda>n. replicate n CHR ''x'')" by (auto intro: injI dest: arg_cong [where f = length])
  then show ?thesis by (simp add: sound_handbook_def table_holds_def company_def blank_db_def)
qed

theorem what_people_were_told_stays_witness:
  "remembered (decree company two_versions) (run_rules id (decree company two_versions)
      [(editor, Repeal_Rule 20 ''xx'' None), (editor, Publish_Now 0 30 (policy ''on foot'' None))]) \<and>
   map (\<lambda>r. (bz_version r, bz_status r, bz_from r, bz_thru r)) (hb_rules (decree company two_versions)) =
     [(1, ''superseded'', Some 5, Some 8), (2, ''published'', Some 9, None)]"
proof -
  have sound: "sound_handbook (decree company two_versions)" by (rule what_people_were_told_stays [OF company_sound, THEN conjunct1])
  have "map (\<lambda>r. (bz_version r, bz_status r, bz_from r, bz_thru r)) (hb_rules (decree company two_versions)) =
     [(1, ''superseded'', Some 5, Some 8), (2, ''published'', Some 9, None)]" by code_simp
  with what_people_were_told_stays [OF sound] show ?thesis by blast
qed

definition draft_waiting :: handbook where
  "draft_waiting = decree company (take 2 two_versions)"

lemma draft_waiting_sound: "sound_handbook draft_waiting"
  unfolding draft_waiting_def by (rule run_rules_keeps [OF company_sound, THEN conjunct1])

theorem publishing_leaves_no_gap_witness:
  "answered (projr (publish_business_rule 0 9 draft_waiting editor ''xx'' None)) ''t'' ''travel'' 8 \<and>
   list_ex (\<lambda>x. bz_id x = ''xx'' \<and> in_print x \<and> in_force_filter 9 x) (hb_rules (projr (publish_business_rule 0 9 draft_waiting editor ''xx'' None)))"
proof -
  let ?m = "publish_business_rule 0 9 draft_waiting editor ''xx'' None"
  have "is_ok ?m" by code_simp
  then have m: "?m = Inr (projr ?m)" by (rule is_ok_projr)
  have "is_ok (live_rule draft_waiting (ac_tenant_id editor) ''xx'')" by code_simp
  then obtain r where r: "live_rule draft_waiting (ac_tenant_id editor) ''xx'' = Inr r" by (auto simp: is_ok_iff)
  have "(case live_rule draft_waiting (ac_tenant_id editor) ''xx'' of Inr r \<Rightarrow>
      starting_day 9 None r = 9 \<and> bz_code r = ''travel'' \<and> bz_thru r = None | Inl _ \<Rightarrow> False)" by code_simp
  then have facts: "starting_day 9 None r = 9" "bz_code r = ''travel''" "bz_thru r = None" by (simp_all add: r)
  have "answered draft_waiting (ac_tenant_id editor) ''travel'' 8" by code_simp
  with publishing_leaves_no_gap [OF draft_waiting_sound r m, of 8] facts
  have "answered (projr ?m) (ac_tenant_id editor) ''travel'' 8" by simp
  moreover have "list_ex (\<lambda>x. bz_id x = ''xx'' \<and> in_print x \<and> in_force_filter 9 x) (hb_rules (projr ?m))"
    using publishing_leaves_no_gap [OF draft_waiting_sound r m, of 9] facts by simp
  ultimately show ?thesis by (simp add: editor_def with_grants_def blank_actor_def)
qed


theorem one_version_governs_a_day_witness:
  "distinct (map rule_key (rules_query draft_waiting editor False (Some 6))) \<and> length (rules_query draft_waiting editor False (Some 6)) = 1"
proof -
  have "length (rules_query draft_waiting editor False (Some 6)) = 1" by code_simp
  with one_version_governs_a_day [OF draft_waiting_sound] show ?thesis by blast
qed

theorem a_list_shows_what_may_be_read_witness:
  "visible_rule_filter draft_waiting claimant ''t'' False (hd (hb_rules draft_waiting)) \<longleftrightarrow>
     may_read_rule claimant (hd (hb_rules draft_waiting)) \<and> (False \<or> bz_status (hd (hb_rules draft_waiting)) \<noteq> ''repealed'')"
proof (rule a_list_shows_what_may_be_read [OF draft_waiting_sound])
  have "map (\<lambda>r. (bz_tenant_id r, bz_status r)) (hb_rules draft_waiting) = [(''t'', ''published''), (''t'', ''draft'')]" by code_simp
  then obtain r rs where r: "hb_rules draft_waiting = r # rs" "bz_tenant_id r = ''t''" by auto
  then show "hd (hb_rules draft_waiting) \<in> set (hb_rules draft_waiting)" "bz_tenant_id (hd (hb_rules draft_waiting)) = ''t''"
    by simp_all
  have "\<not> list_ex (may_manage_rules claimant) RULE_KINDS" by code_simp
  then show "managed_rule_kinds claimant = []" by (simp add: managed_rule_kinds_def filter_empty_conv list_ex_iff)
qed

subsection \<open>Where it does not keep its word\<close>

text \<open>A rule of another kind under the policy's code: who may publish data rules only retires the policy.\<close>

lemma a_data_rule_retires_a_policy:
  "(let hb = run_rules id (decree company [Publish_Now 0 5 (policy ''by train'' None)]) [(router, Publish_Now 0 9 (about_claims ''data_rule'' (Some ''travel'')))]
    in map (\<lambda>r. (bz_kind r, bz_status r)) (hb_rules hb) = [(''policy'', ''superseded''), (''data_rule'', ''published'')] \<and>
       \<not> may_publish_rules router ''policy'')"
  by code_simp

text \<open>A restricted policy is not found by its id, and listed with its text, for who drafts policies without the
  capability it names.\<close>

lemma a_restricted_policy_is_listed_to_drafters:
  "(let hb = decree company [Publish_Now 0 5 ((policy ''salaries'' None)\<lparr>rq_visibility := ''restricted'', rq_required_capability := Some ''payroll.read''\<rparr>)]
    in (case get_rule_or_404 hb drafter ''x'' None of Inl e \<Rightarrow> http_status e = 404 | Inr _ \<Rightarrow> False) \<and>
       map bz_body (rules_query hb drafter False None) = [''salaries''])"
  by code_simp

text \<open>Versions published out of order on one day: the superseded one is said to govern it.\<close>

lemma the_later_version_need_not_govern:
  "(let hb = decree company [Draft_Rule (policy ''second'' None), Draft_Rule (policy ''third'' None), Publish_Rule 0 5 ''xx'' None, Publish_Rule 0 5 ''x'' None]
    in map (\<lambda>r. (bz_body r, bz_status r)) (rules_query hb editor False (Some 5)) = [(''third'', ''superseded'')] \<and>
       map (\<lambda>r. (bz_body r, bz_status r)) (hb_rules hb) = [(''second'', ''published''), (''third'', ''superseded'')])"
  by code_simp

text \<open>A flow repealed from next month on: the runner has no map today, though the handbook lists it as in force.\<close>

lemma a_later_repeal_stops_at_once:
  "(let hb = decree company [Publish_Now 0 5 (about_claims ''approval_flow'' None), Repeal_Rule 9 ''x'' (Some 40)]
    in \<not> has_published_approval_flow 9 hb ''t'' ''builtin'' ''expense_claim'' \<and> length (rules_query hb editor False (Some 9)) = 1)"
  by code_simp

text \<open>Two publications of one code that overlap: both find no version in print, and the second to write meets the index.\<close>

lemma overlapping_publications_meet_the_index:
  "(let hb = decree company [Draft_Rule (policy ''by train'' None), Draft_Rule (policy ''by plane'' None)]
    in case hb_rules hb of [r, r'] \<Rightarrow> superseded_by hb ''t'' r = None \<and> superseded_by hb ''t'' r' = None \<and>
      (case hand_over 0 hb editor r 5 None of
         Inr hb1 \<Rightarrow> (case hand_over 0 hb1 editor r' 5 None of Inl e \<Rightarrow> e = HttpError 500 ''IntegrityError'' | Inr _ \<Rightarrow> False)
       | Inl _ \<Rightarrow> False) | _ \<Rightarrow> False)"
  by code_simp

text \<open>An empty string for the owner is not looked up, and is no uuid; a version in print since the first day of the
  calendar cannot be replaced on that day.\<close>

lemma blank_owner_is_a_server_error:
  "(case draft_rule id company editor ((policy ''by train'' None)\<lparr>rq_owner_employee_id := Some []\<rparr>) False of
      Inl e \<Rightarrow> e = HttpError 500 ''DataError'' | Inr _ \<Rightarrow> False) \<and>
   (case publish_rule_now id 0 1 (decree company [Publish_Now 0 1 (policy ''by train'' None)]) editor (policy ''by plane'' None) of
      Inl e \<Rightarrow> e = HttpError 500 ''OverflowError'' | Inr _ \<Rightarrow> False)"
  by code_simp

text \<open>A null category on a policy's draft ends on the table's check.\<close>

lemma a_null_category_is_a_server_error:
  "(case update_business_rule (decree company [Draft_Rule (policy ''by train'' None)]) editor ''x''
      \<lparr>ru_category = Some None, ru_title = None, ru_body = None, ru_visibility = None, ru_required_capability = None, ru_from = None,
       ru_thru = None, ru_attachment_id = None, ru_owner_employee_id = None\<rparr> of
      Inl e \<Rightarrow> http_status e = 500 | Inr _ \<Rightarrow> False)"
  by code_simp

end
