(* ===== verification/Categories.thy ===== *)
theory Categories
  imports Parent_Walks
begin

text \<open>
  The catalogue's shelves (\<open>app/api/master_data.py\<close>, product categories): a tree by \<open>parent_id\<close>, one code per
  workspace, one active name per level. Descriptions and metadata are left out. An id in a request may be
  spelled in any way \<open>db_uuid_in\<close> reads.
\<close>

record category =
  pc_id :: uuid
  pc_tenant_id :: uuid
  pc_code :: "string option"
  pc_name :: string
  pc_parent_id :: "uuid option"
  pc_status :: string

record shelves =
  ps_db :: db
  ps_categories :: "category list"

definition category_or_404 :: "shelves \<Rightarrow> uuid \<Rightarrow> string \<Rightarrow> category result" where
  "category_or_404 ps tenant_id s = scoped_row (ps_db ps) pc_id pc_tenant_id (ps_categories ps) tenant_id s"

lemma category_or_404_Inr:
  "category_or_404 ps t s = Inr c \<Longrightarrow> c \<in> set (ps_categories ps) \<and> pc_tenant_id c = t \<and> db_uuid_in (ps_db ps) s = Some (pc_id c)"
  unfolding category_or_404_def by (rule scoped_row_Inr)

subsection \<open>The walk up the shelves\<close>

text \<open>\<open>while node is not None\<close>: the first category is loaded by the caller.\<close>

function ancestor_walk :: "shelves \<Rightarrow> uuid \<Rightarrow> category option \<Rightarrow> uuid list \<Rightarrow> category \<Rightarrow> unit result" where
  "ancestor_walk ps tenant_id moving seen node =
     (if pc_id node \<in> set seen then Inl (HttpError 422 ''the_category_tree_already_contains_a_cycle'')
      else if moving \<noteq> None \<and> pc_parent_id node = map_option pc_id moving then Inl (HttpError 422 ''moving_under_its_own_descendant'')
      else case pc_parent_id node of
             None \<Rightarrow> Inr ()
           | Some p \<Rightarrow> (case category_or_404 ps tenant_id p of
                          Inl e \<Rightarrow> Inl e
                        | Inr up \<Rightarrow> ancestor_walk ps tenant_id moving (pc_id node # seen) up))"
  by pat_completeness auto

text \<open>Each round sees one more of the rows.\<close>

termination
proof (relation "measure (\<lambda>(ps, _, _, seen, node). card (insert (pc_id node) (pc_id ` set (ps_categories ps)) - set seen))", goal_cases)
  case (2 ps tenant_id moving seen node p up)
  let ?ids = "pc_id ` set (ps_categories ps)"
  from 2(4) have "pc_id up \<in> ?ids" using category_or_404_Inr by blast
  then have "insert (pc_id up) ?ids - set (pc_id node # seen) \<subseteq> (insert (pc_id node) ?ids - set seen) - {pc_id node}" by auto
  moreover have "pc_id node \<in> insert (pc_id node) ?ids - set seen" using 2(1) by simp
  ultimately have "insert (pc_id up) ?ids - set (pc_id node # seen) \<subset> insert (pc_id node) ?ids - set seen" by blast
  then show ?case by (simp add: psubset_card_mono)
qed simp

declare ancestor_walk.simps [simp del]

definition require_usable_parent :: "shelves \<Rightarrow> uuid \<Rightarrow> string option \<Rightarrow> category option \<Rightarrow> unit result" where
  "require_usable_parent ps tenant_id parent_id moving =
     (case parent_id of
        None \<Rightarrow> Inr ()
      | Some s \<Rightarrow>
          bindE (ensure (map_option pc_id moving \<noteq> Some s) 422 ''a_category_cannot_be_its_own_parent'') (\<lambda>_.
          bindE (category_or_404 ps tenant_id s) (\<lambda>node.
          bindE (ensure (pc_status node = ''active'') 409 ''category_is_archived'') (\<lambda>_.
          ancestor_walk ps tenant_id moving [] node))))"

subsection \<open>The handlers\<close>

definition ensure_category_code_available :: "shelves \<Rightarrow> uuid \<Rightarrow> string option \<Rightarrow> uuid option \<Rightarrow> unit result" where
  "ensure_category_code_available ps tenant_id code exclude_id =
     (case code of
        None \<Rightarrow> Inr ()
      | Some c \<Rightarrow> ensure (c = [] \<or> \<not> list_ex (\<lambda>r. pc_tenant_id r = tenant_id \<and> pc_code r = Some c \<and> Some (pc_id r) \<noteq> exclude_id)
                        (ps_categories ps)) 409 ''category_code_already_exists'')"

text \<open>The three unique indexes: the code, and the name among active rows of one level.\<close>

definition shelf_clash :: "category \<Rightarrow> category \<Rightarrow> bool" where
  "shelf_clash x y \<longleftrightarrow> pc_id x \<noteq> pc_id y \<and> pc_tenant_id x = pc_tenant_id y \<and>
     (pc_code x \<noteq> None \<and> pc_code x = pc_code y \<or>
      pc_status x = ''active'' \<and> pc_status y = ''active'' \<and> pc_parent_id x = pc_parent_id y \<and> pc_name x = pc_name y)"

text \<open>\<open>commit_or_conflict\<close>\<close>

definition commit_category :: "category list \<Rightarrow> category \<Rightarrow> unit result" where
  "commit_category rs c = ensure (\<not> list_ex (shelf_clash c) rs) 409 ''an_active_category_of_this_name_exists''"

text \<open>What the column \<open>parent_id\<close> keeps of the id a request names.\<close>

definition parent_column :: "db \<Rightarrow> string option \<Rightarrow> uuid option" where
  "parent_column db parent_id = (case parent_id of None \<Rightarrow> None | Some s \<Rightarrow> db_uuid_in db s)"

record category_request =
  kr_code :: "string option"
  kr_name :: string
  kr_parent_id :: "string option"
  kr_status :: string

definition create_product_category :: "shelves \<Rightarrow> actor \<Rightarrow> category_request \<Rightarrow> (category \<times> shelves) result" where
  "create_product_category ps a p =
     (let tenant_id = ac_tenant_id a in
      bindE (require_master_data_manage a) (\<lambda>_.
      bindE (ensure_category_code_available ps tenant_id (kr_code p) None) (\<lambda>_.
      bindE (require_usable_parent ps tenant_id (kr_parent_id p) None) (\<lambda>_.
      let c = \<lparr>pc_id = fresh_id (ps_db ps), pc_tenant_id = tenant_id, pc_code = kr_code p, pc_name = kr_name p,
            pc_parent_id = parent_column (ps_db ps) (kr_parent_id p), pc_status = kr_status p\<rparr>
      in bindE (commit_category (ps_categories ps) c) (\<lambda>_.
         Inr (c, ps\<lparr>ps_db := tick (ps_db ps), ps_categories := ps_categories ps @ [c]\<rparr>))))))"

text \<open>Outer \<open>None\<close>: the field is absent; \<open>Some None\<close>: it is null, which only code and parent may be.\<close>

record category_update =
  ku_code :: "string option option"
  ku_name :: "string option option"
  ku_parent_id :: "string option option"
  ku_status :: "string option option"

definition updated_category :: "db \<Rightarrow> category_update \<Rightarrow> category \<Rightarrow> category" where
  "updated_category db u c = c\<lparr>
     pc_code := (case ku_code u of None \<Rightarrow> pc_code c | Some x \<Rightarrow> x),
     pc_name := (case ku_name u of Some (Some x) \<Rightarrow> x | _ \<Rightarrow> pc_name c),
     pc_parent_id := (case ku_parent_id u of None \<Rightarrow> pc_parent_id c | Some x \<Rightarrow> parent_column db x),
     pc_status := (case ku_status u of Some (Some x) \<Rightarrow> x | _ \<Rightarrow> pc_status c)\<rparr>"

definition update_product_category :: "shelves \<Rightarrow> actor \<Rightarrow> string \<Rightarrow> category_update \<Rightarrow> (category \<times> shelves) result" where
  "update_product_category ps a s u =
     (let tenant_id = ac_tenant_id a in
      bindE (require_master_data_manage a) (\<lambda>_.
      bindE (category_or_404 ps tenant_id s) (\<lambda>c.
      bindE (case ku_code u of None \<Rightarrow> Inr () | Some x \<Rightarrow> ensure_category_code_available ps tenant_id x (Some (pc_id c))) (\<lambda>_.
      bindE (case ku_parent_id u of None \<Rightarrow> Inr () | Some x \<Rightarrow> require_usable_parent ps tenant_id x (Some c)) (\<lambda>_.
      bindE (ensure (ku_name u \<noteq> Some None \<and> ku_status u \<noteq> Some None) 409 ''an_active_category_of_this_name_exists'') (\<lambda>_.
      let c' = updated_category (ps_db ps) u c in
      bindE (commit_category (ps_categories ps) c') (\<lambda>_.
      Inr (c', ps\<lparr>ps_categories := update_rows (\<lambda>r. pc_id r = pc_id c) (updated_category (ps_db ps) u) (ps_categories ps)\<rparr>))))))))"

definition delete_product_category :: "shelves \<Rightarrow> actor \<Rightarrow> string \<Rightarrow> shelves result" where
  "delete_product_category ps a s =
     bindE (require_master_data_manage a) (\<lambda>_.
     bindE (category_or_404 ps (ac_tenant_id a) s) (\<lambda>c.
     Inr (ps\<lparr>ps_categories := update_rows (\<lambda>r. pc_id r = pc_id c) (\<lambda>r. r\<lparr>pc_status := ''archived''\<rparr>) (ps_categories ps)\<rparr>)))"

subsection \<open>What the walk refuses\<close>

abbreviation "shelf_links ps \<equiv> parent_links pc_id pc_parent_id (ps_categories ps)"

definition sound_shelves :: "shelves \<Rightarrow> bool" where
  "sound_shelves ps \<longleftrightarrow> distinct (map pc_id (ps_categories ps)) \<and>
     parents_kept pc_id pc_parent_id pc_tenant_id (ps_categories ps) \<and> reads_back (ps_db ps) (pc_id ` set (ps_categories ps))"

lemma category_found:
  assumes "sound_shelves ps" and "c \<in> set (ps_categories ps)"
  shows "category_or_404 ps (pc_tenant_id c) (pc_id c) = Inr c"
  using assms reads_backD(2) unfolding category_or_404_def sound_shelves_def by (intro scoped_row_found) blast+

text \<open>A walk that answers has not met the category being moved above the first one.\<close>

lemma walk_stays_clear:
  assumes "ancestor_walk ps t moving seen node = Inr ()" and "sound_shelves ps" and "node \<in> set (ps_categories ps)"
    and "moving = Some m" and "(pc_id node, y) \<in> (shelf_links ps)\<^sup>+"
  shows "y \<noteq> pc_id m"
  using assms
proof (induction ps t moving seen node rule: ancestor_walk.induct)
  case (1 ps t moving seen node)
  note d = "1.prems"(2) [unfolded sound_shelves_def]
  have clear: "pc_id node \<notin> set seen" "pc_parent_id node \<noteq> Some (pc_id m)"
    using "1.prems"(1) [unfolded ancestor_walk.simps [of ps t moving seen node]] "1.prems"(4) by (auto split: if_splits)
  from tranclD [OF "1.prems"(5)] obtain z where z: "(pc_id node, z) \<in> shelf_links ps" "(z, y) \<in> (shelf_links ps)\<^sup>*" by blast
  have up: "pc_parent_id node = Some z"
    using z(1) "1.prems"(3) d by (auto simp: parent_links_def distinct_map inj_on_def)
  with "1.prems"(1) clear obtain q where q: "category_or_404 ps t z = Inr q" "ancestor_walk ps t moving (pc_id node # seen) q = Inr ()"
    using "1.prems"(4) by (subst (asm) ancestor_walk.simps) (auto split: sum.splits)
  note r = category_or_404_Inr [OF q(1)]
  have "z \<in> pc_id ` set (ps_categories ps)" using range_parent_links z(1) d by blast
  then have "db_uuid_in (ps_db ps) z = Some z" using d reads_backD(2) by blast
  with r have [simp]: "pc_id q = z" by simp
  show ?case
  proof (cases "z = y")
    case True
    then show ?thesis using up clear(2) by auto
  next
    case False
    then have "(pc_id q, y) \<in> (shelf_links ps)\<^sup>+" using z(2) by (simp add: rtrancl_eq_or_trancl)
    from "1.IH" [OF clear(1) _ up q(1) q(2) "1.prems"(2) _ "1.prems"(4) this] r clear(2) "1.prems"(4) show ?thesis by auto
  qed
qed

text \<open>Without a loop in the data the walk refuses for one reason only: the category is above.\<close>

lemma walk_refuses_descendants:
  assumes "ancestor_walk ps t moving seen node = Inl e" and "sound_shelves ps" and "acyclic (shelf_links ps)"
    and "node \<in> set (ps_categories ps)" and "pc_tenant_id node = t" and "\<forall>x \<in> set seen. (x, pc_id node) \<in> (shelf_links ps)\<^sup>+"
  shows "\<exists>m. moving = Some m \<and> (pc_id node, pc_id m) \<in> (shelf_links ps)\<^sup>+"
  using assms
proof (induction ps t moving seen node rule: ancestor_walk.induct)
  case (1 ps t moving seen node)
  note d = "1.prems"(2) [unfolded sound_shelves_def]
  have fresh: "pc_id node \<notin> set seen" using "1.prems"(3,6) by (auto simp: acyclic_def)
  show ?case
  proof (cases "moving \<noteq> None \<and> pc_parent_id node = map_option pc_id moving")
    case True
    then show ?thesis using "1.prems"(4) by (auto intro!: r_into_trancl parent_linksI [where up = pc_parent_id])
  next
    case False
    with "1.prems"(1) [unfolded ancestor_walk.simps [of ps t moving seen node]] fresh
    obtain z where up: "pc_parent_id node = Some z" by (auto split: option.splits)
    with "1.prems"(4) d obtain q where q: "q \<in> set (ps_categories ps)" "pc_id q = z" "pc_tenant_id q = t"
      using "1.prems"(5) by (auto simp: parents_kept_def)
    with category_found [OF "1.prems"(2) q(1)] have found: "category_or_404 ps t z = Inr q" by simp
    have again: "ancestor_walk ps t moving (pc_id node # seen) q = Inl e"
      using "1.prems"(1) [unfolded ancestor_walk.simps [of ps t moving seen node] if_not_P [OF fresh] if_not_P [OF False]]
      by (simp add: up found)
    have link: "(pc_id node, pc_id q) \<in> shelf_links ps" using up "1.prems"(4) q(2) by (auto intro: parent_linksI)
    then have "\<forall>x \<in> set (pc_id node # seen). (x, pc_id q) \<in> (shelf_links ps)\<^sup>+"
      using "1.prems"(6) by (auto intro: trancl_into_trancl)
    from "1.IH" [OF fresh False up found again "1.prems"(2,3) q(1,3) this] link show ?thesis
      by (auto intro: trancl_into_trancl2)
  qed
qed

end
