(* ===== verification/Category_History.thy ===== *)
theory Category_History
  imports Categories
begin

text \<open>
  The catalogue's shelves stay a forest through any history of the three handlers, as long as a PATCH spells
  the parent's id as the database prints it.
\<close>

text \<open>A category may be moved under exactly the active categories of its workspace that are neither
  itself nor below it.\<close>

theorem a_shelf_moves_anywhere_but_below_itself:
  assumes "sound_shelves ps" and "acyclic (shelf_links ps)" and "m \<in> set (ps_categories ps)" and "db_uuid_in (ps_db ps) p = Some p"
  shows "is_ok (require_usable_parent ps t (Some p) (Some m)) \<longleftrightarrow>
    (\<exists>c \<in> set (ps_categories ps). pc_id c = p \<and> pc_tenant_id c = t \<and> pc_status c = ''active'') \<and> (p, pc_id m) \<notin> (shelf_links ps)\<^sup>*"
proof -
  have walk: "is_ok (ancestor_walk ps t (Some m) [] c) \<longleftrightarrow> (pc_id c, pc_id m) \<notin> (shelf_links ps)\<^sup>+"
    if c: "c \<in> set (ps_categories ps)" "pc_tenant_id c = t" for c
  proof (cases "ancestor_walk ps t (Some m) [] c")
    case (Inl e)
    with walk_refuses_descendants [OF Inl assms(1,2) c] show ?thesis by simp
  next
    case (Inr u)
    with walk_stays_clear [where moving = "Some m" and seen = "[]", OF _ assms(1) c(1) refl] show ?thesis by auto
  qed
  have found: "category_or_404 ps t p = Inr c \<longleftrightarrow> c \<in> set (ps_categories ps) \<and> pc_id c = p \<and> pc_tenant_id c = t" for c
    using category_or_404_Inr [of ps t p c] category_found [OF assms(1), of c] assms(4) by auto
  have "is_ok (require_usable_parent ps t (Some p) (Some m)) \<longleftrightarrow> p \<noteq> pc_id m \<and>
      (\<exists>c. category_or_404 ps t p = Inr c \<and> pc_status c = ''active'' \<and> is_ok (ancestor_walk ps t (Some m) [] c))"
    unfolding is_ok_iff by (auto simp: require_usable_parent_def result_simps)
  also have "\<dots> \<longleftrightarrow> p \<noteq> pc_id m \<and> (\<exists>c \<in> set (ps_categories ps). pc_id c = p \<and> pc_tenant_id c = t \<and> pc_status c = ''active'' \<and>
      (p, pc_id m) \<notin> (shelf_links ps)\<^sup>+)"
    unfolding found using walk by blast
  finally show ?thesis by (auto simp: rtrancl_eq_or_trancl)
qed

definition shelf_accepts :: "shelves \<Rightarrow> uuid \<Rightarrow> uuid \<Rightarrow> bool" where
  "shelf_accepts ps x p \<longleftrightarrow> db_uuid_in (ps_db ps) p = Some p \<and>
     (\<exists>t m. m \<in> set (ps_categories ps) \<and> pc_id m = x \<and> require_usable_parent ps t (Some p) (Some m) = Inr ())"

interpretation shelf_tree: guarded_tree pc_id pc_parent_id ps_categories sound_shelves shelf_accepts
proof
  fix ps x p
  assume s: "sound_shelves ps" and "shelf_accepts ps x p"
  then obtain t m c where m: "pc_id m = x" "p \<noteq> pc_id m" "category_or_404 ps t p = Inr c" "ancestor_walk ps t (Some m) [] c = Inr ()"
    and p: "db_uuid_in (ps_db ps) p = Some p"
    by (auto simp: shelf_accepts_def require_usable_parent_def result_simps)
  from category_or_404_Inr [OF m(3)] p have "c \<in> set (ps_categories ps)" "pc_id c = p" by simp_all
  with walk_stays_clear [OF m(4) s _ refl] m show "(p, x) \<notin> (shelf_links ps)\<^sup>*" by (auto simp: rtrancl_eq_or_trancl)
qed (simp add: sound_shelves_def)

subsection \<open>Each call\<close>

definition shelves_in_order :: "shelves \<Rightarrow> bool" where
  "shelves_in_order ps \<longleftrightarrow> sound_shelves ps \<and> acyclic (shelf_links ps) \<and>
     (\<forall>x \<in> set (ps_categories ps). \<forall>y \<in> set (ps_categories ps). \<not> shelf_clash x y)"

lemma shelf_clash_sym: "shelf_clash x y \<longleftrightarrow> shelf_clash y x"
  unfolding shelf_clash_def by metis

text \<open>The parent a successful check names is stored as a row of the workspace.\<close>

lemma usable_parent_is_stored:
  assumes "require_usable_parent ps t x mv = Inr ()" and "parent_column (ps_db ps) x = Some p"
  shows "\<exists>r \<in> set (ps_categories ps). pc_id r = p \<and> pc_tenant_id r = t"
  using assms by (cases x) (auto simp: require_usable_parent_def parent_column_def result_simps dest!: category_or_404_Inr)

lemma create_category_keeps:
  assumes ok: "shelves_in_order ps" and step: "create_product_category ps a p = Inr (c, ps')"
  shows "shelves_in_order ps'"
proof -
  note d = ok [unfolded shelves_in_order_def sound_shelves_def]
  let ?c = "\<lparr>pc_id = fresh_id (ps_db ps), pc_tenant_id = ac_tenant_id a, pc_code = kr_code p, pc_name = kr_name p,
            pc_parent_id = parent_column (ps_db ps) (kr_parent_id p), pc_status = kr_status p\<rparr>"
  from step have usable: "require_usable_parent ps (ac_tenant_id a) (kr_parent_id p) None = Inr ()"
    and commit: "commit_category (ps_categories ps) ?c = Inr ()"
    and ps': "ps' = ps\<lparr>ps_db := tick (ps_db ps), ps_categories := ps_categories ps @ [?c]\<rparr>"
    by (auto simp: create_product_category_def Let_def bindE_Inr_iff)
  have new: "pc_id ?c \<notin> pc_id ` set (ps_categories ps)" using d reads_backD(3) by auto
  have parent: "\<exists>r \<in> set (ps_categories ps). pc_id r = q \<and> pc_tenant_id r = pc_tenant_id ?c" if "pc_parent_id ?c = Some q" for q
    using usable_parent_is_stored [OF usable] that by simp
  have tree: "acyclic (shelf_links ps')"
    unfolding ps' using acyclic_new_leaf [of pc_id pc_parent_id "ps_categories ps" pc_tenant_id ?c] d new parent by fastforce
  have kept: "parents_kept pc_id pc_parent_id pc_tenant_id (ps_categories ps')"
    unfolding ps' using parents_kept_snoc [of pc_id pc_parent_id pc_tenant_id "ps_categories ps" ?c] d parent by simp
  have reads: "reads_back (ps_db ps') (pc_id ` set (ps_categories ps'))"
    unfolding ps' using reads_back_fresh d by simp
  have "\<not> shelf_clash x ?c \<and> \<not> shelf_clash ?c x" if "x \<in> set (ps_categories ps)" for x
    using commit that shelf_clash_sym [of x ?c] by (auto simp: commit_category_def result_simps list_ex_iff)
  moreover have "\<not> shelf_clash ?c ?c" by (simp add: shelf_clash_def)
  moreover have cats: "set (ps_categories ps') = insert ?c (set (ps_categories ps))"
    and ids: "map pc_id (ps_categories ps') = map pc_id (ps_categories ps) @ [pc_id ?c]" unfolding ps' by simp_all
  moreover have "\<forall>x \<in> set (ps_categories ps). \<forall>y \<in> set (ps_categories ps). \<not> shelf_clash x y" using d by blast
  ultimately have "\<forall>x \<in> set (ps_categories ps'). \<forall>y \<in> set (ps_categories ps'). \<not> shelf_clash x y" unfolding cats by blast
  moreover have "distinct (map pc_id (ps_categories ps'))" unfolding ids using d new by (simp only: distinct_append set_map) simp
  ultimately show ?thesis using tree kept reads unfolding shelves_in_order_def sound_shelves_def by blast
qed

lemma changed_category_keeps:
  assumes ok: "shelves_in_order ps" and c: "c \<in> set (ps_categories ps)"
    and f: "\<And>r. pc_id (f r) = pc_id r \<and> pc_tenant_id (f r) = pc_tenant_id r"
    and parent: "\<And>p. pc_parent_id (f c) = Some p \<Longrightarrow> pc_parent_id c = Some p \<or> shelf_accepts ps (pc_id c) p \<and>
      (\<exists>r \<in> set (ps_categories ps). pc_id r = p \<and> pc_tenant_id r = pc_tenant_id c)"
    and free: "\<And>x. x \<in> set (ps_categories ps) \<Longrightarrow> x \<noteq> c \<Longrightarrow> \<not> shelf_clash (f c) x"
  shows "shelves_in_order (ps\<lparr>ps_categories := update_rows (\<lambda>r. pc_id r = pc_id c) f (ps_categories ps)\<rparr>)"
proof -
  let ?ps = "ps\<lparr>ps_categories := update_rows (\<lambda>r. pc_id r = pc_id c) f (ps_categories ps)\<rparr>"
  note d = ok [unfolded shelves_in_order_def sound_shelves_def]
  have only: "r = c" if "r \<in> set (ps_categories ps)" "pc_id r = pc_id c" for r
    using that c d by (auto simp: distinct_map inj_on_def)
  have ids: "map pc_id (ps_categories ?ps) = map pc_id (ps_categories ps)" using f by (simp add: map_update_rows_same)
  then have "pc_id ` set (ps_categories ?ps) = pc_id ` set (ps_categories ps)" by (metis set_map)
  then have "reads_back (ps_db ?ps) (pc_id ` set (ps_categories ?ps))" using d by simp
  moreover have "acyclic (shelf_links ?ps)"
  proof (rule shelf_tree.moved_keeps_acyclic [of ps f "pc_id c"])
    show "pc_parent_id r = Some p \<or> shelf_accepts ps (pc_id c) p"
      if "r \<in> set (ps_categories ps)" "pc_id r = pc_id c" "pc_parent_id (f r) = Some p" for r p
      using that only parent by blast
  qed (use ok f in \<open>simp_all add: shelves_in_order_def\<close>)
  moreover have kept: "parents_kept pc_id pc_parent_id pc_tenant_id (ps_categories ps)" using d by blast
  have "parents_kept pc_id pc_parent_id pc_tenant_id (update_rows (\<lambda>r. pc_id r = pc_id c) f (ps_categories ps))"
  proof (rule parents_kept_update [OF kept])
    fix r p assume r: "r \<in> set (ps_categories ps)" "pc_id r = pc_id c" and p: "pc_parent_id (f r) = Some p"
    from only [OF r] have [simp]: "r = c" .
    from p have "pc_parent_id (f c) = Some p" by simp
    then have "pc_parent_id c = Some p \<or> (\<exists>r \<in> set (ps_categories ps). pc_id r = p \<and> pc_tenant_id r = pc_tenant_id c)"
      using parent by blast
    then show "\<exists>r' \<in> set (ps_categories ps). pc_id r' = p \<and> pc_tenant_id r' = pc_tenant_id r"
      using kept c unfolding parents_kept_def by auto
  qed (rule f)
  then have "parents_kept pc_id pc_parent_id pc_tenant_id (ps_categories ?ps)" by simp
  ultimately have base: "reads_back (ps_db ?ps) (pc_id ` set (ps_categories ?ps))" "acyclic (shelf_links ?ps)"
    "parents_kept pc_id pc_parent_id pc_tenant_id (ps_categories ?ps)" by blast+
  have "\<not> shelf_clash x y" if "x \<in> set (ps_categories ?ps)" "y \<in> set (ps_categories ?ps)" for x y
  proof -
    have rows: "z = f c \<or> z \<in> set (ps_categories ps) \<and> z \<noteq> c" if z: "z \<in> set (ps_categories ?ps)" for z
    proof -
      from z consider "z \<in> set (ps_categories ps)" "pc_id z \<noteq> pc_id c"
        | r where "r \<in> set (ps_categories ps)" "pc_id r = pc_id c" "z = f r" by (auto simp: set_update_rows)
      then show ?thesis by cases (auto dest: only)
    qed
    have self: "\<not> shelf_clash z z" for z by (simp add: shelf_clash_def)
    from rows [OF that(1)] rows [OF that(2)] show ?thesis
      using self free d shelf_clash_sym by metis
  qed
  moreover have "distinct (map pc_id (ps_categories ?ps))" unfolding ids using d by blast
  ultimately show ?thesis using base unfolding shelves_in_order_def sound_shelves_def by blast
qed

text \<open>A PATCH spells the id of the parent as the database prints it.\<close>

definition plain_spelling :: "db \<Rightarrow> category_update \<Rightarrow> bool" where
  "plain_spelling db u \<longleftrightarrow> (case ku_parent_id u of Some (Some s) \<Rightarrow> db_uuid_in db s \<in> {None, Some s} | _ \<Rightarrow> True)"

lemma update_category_keeps:
  assumes ok: "shelves_in_order ps" and step: "update_product_category ps a s u = Inr (c', ps')" and plain: "plain_spelling (ps_db ps) u"
  shows "shelves_in_order ps'"
proof -
  from step obtain c where c: "category_or_404 ps (ac_tenant_id a) s = Inr c"
    and usable: "(case ku_parent_id u of None \<Rightarrow> Inr () | Some x \<Rightarrow> require_usable_parent ps (ac_tenant_id a) x (Some c)) = Inr ()"
    and commit: "commit_category (ps_categories ps) (updated_category (ps_db ps) u c) = Inr ()"
    and ps': "ps' = ps\<lparr>ps_categories := update_rows (\<lambda>r. pc_id r = pc_id c) (updated_category (ps_db ps) u) (ps_categories ps)\<rparr>"
    by (auto simp: update_product_category_def Let_def bindE_Inr_iff)
  note r = category_or_404_Inr [OF c]
  show ?thesis
    unfolding ps'
  proof (rule changed_category_keeps [OF ok])
    show "c \<in> set (ps_categories ps)" using r by blast
    show "pc_id (updated_category (ps_db ps) u x) = pc_id x \<and> pc_tenant_id (updated_category (ps_db ps) u x) = pc_tenant_id x" for x
      by (simp add: updated_category_def)
    show "\<not> shelf_clash (updated_category (ps_db ps) u c) x" if "x \<in> set (ps_categories ps)" for x
      using commit that by (auto simp: commit_category_def result_simps list_ex_iff)
    fix p assume p: "pc_parent_id (updated_category (ps_db ps) u c) = Some p"
    show "pc_parent_id c = Some p \<or> shelf_accepts ps (pc_id c) p \<and>
        (\<exists>q \<in> set (ps_categories ps). pc_id q = p \<and> pc_tenant_id q = pc_tenant_id c)"
    proof (cases "ku_parent_id u")
      case (Some x)
      with p usable have col: "parent_column (ps_db ps) x = Some p" and u: "require_usable_parent ps (ac_tenant_id a) x (Some c) = Inr ()"
        by (simp_all add: updated_category_def)
      then have "x = Some p" using plain Some by (auto simp: parent_column_def plain_spelling_def split: option.splits)
      with u col r usable_parent_is_stored [OF u col] show ?thesis by (auto simp: shelf_accepts_def parent_column_def)
    qed (use p in \<open>simp add: updated_category_def\<close>)
  qed
qed

lemma delete_category_keeps:
  assumes ok: "shelves_in_order ps" and step: "delete_product_category ps a s = Inr ps'"
  shows "shelves_in_order ps'"
proof -
  from step obtain c where c: "category_or_404 ps (ac_tenant_id a) s = Inr c"
    and ps': "ps' = ps\<lparr>ps_categories := update_rows (\<lambda>r. pc_id r = pc_id c) (\<lambda>r. r\<lparr>pc_status := ''archived''\<rparr>) (ps_categories ps)\<rparr>"
    by (auto simp: delete_product_category_def bindE_Inr_iff)
  note r = category_or_404_Inr [OF c]
  show ?thesis
    unfolding ps'
  proof (rule changed_category_keeps [OF ok])
    fix x assume x: "x \<in> set (ps_categories ps)" "x \<noteq> c"
    with r ok have "\<not> shelf_clash c x" by (simp add: shelves_in_order_def)
    then show "\<not> shelf_clash (c\<lparr>pc_status := ''archived''\<rparr>) x" by (auto simp: shelf_clash_def)
  qed (use r in auto)
qed

subsection \<open>Any history\<close>

datatype shelf_event = Shelve category_request | Reshelve string category_update | Unshelve string

fun shelf_step :: "shelves \<Rightarrow> actor \<Rightarrow> shelf_event \<Rightarrow> shelves result" where
  "shelf_step ps a (Shelve p) = bindE (create_product_category ps a p) (\<lambda>(_, ps'). Inr ps')"
| "shelf_step ps a (Reshelve s u) = bindE (update_product_category ps a s u) (\<lambda>(_, ps'). Inr ps')"
| "shelf_step ps a (Unshelve s) = delete_product_category ps a s"

text \<open>A refused call changes nothing.\<close>

definition run_shelves :: "shelves \<Rightarrow> (actor \<times> shelf_event) list \<Rightarrow> shelves" where
  "run_shelves ps es = fold (\<lambda>(a, e) ps. case shelf_step ps a e of Inl _ \<Rightarrow> ps | Inr ps' \<Rightarrow> ps') es ps"

fun plain_event :: "db \<Rightarrow> shelf_event \<Rightarrow> bool" where
  "plain_event db (Reshelve s u) = plain_spelling db u"
| "plain_event db _ = True"

lemma shelf_step_reads: "shelf_step ps a e = Inr ps' \<Longrightarrow> db_uuid_in (ps_db ps') = db_uuid_in (ps_db ps)"
  by (cases e)
     (auto simp: create_product_category_def update_product_category_def delete_product_category_def Let_def bindE_Inr_iff tick_fields)

lemma shelf_step_keeps:
  assumes "shelves_in_order ps" and "shelf_step ps a e = Inr ps'" and "plain_event (ps_db ps) e"
  shows "shelves_in_order ps'"
  using assms
  by (cases e) (auto simp: bindE_Inr_iff dest: create_category_keeps update_category_keeps delete_category_keeps)

lemma run_shelves_keeps:
  assumes "shelves_in_order ps" and "list_all (\<lambda>(a, e). plain_event (ps_db ps) e) es"
  shows "shelves_in_order (run_shelves ps es)"
  using assms unfolding run_shelves_def
proof (induction es arbitrary: ps)
  case (Cons ae es)
  obtain a e where ae: "ae = (a, e)" by (cases ae)
  show ?case
  proof (cases "shelf_step ps a e")
    case (Inr ps')
    have "plain_event (ps_db ps') = plain_event (ps_db ps)"
      using shelf_step_reads [OF Inr] by (auto simp: fun_eq_iff plain_spelling_def elim!: plain_event.elims split: option.splits)
    with Cons.IH [of ps'] shelf_step_keeps [OF Cons.prems(1) Inr] Cons.prems(2) Inr ae show ?thesis by simp
  qed (use Cons ae in simp)
qed simp

text \<open>C30: Through any history of calls that spell the parent's id as the database prints it, the categories
  are a forest: no category is above itself, each has a root above it, every parent is a row of the same
  workspace, and no two active ones of a level share a name.\<close>

theorem categories_stay_a_forest:
  assumes "ps_categories ps = []" and "reads_back (ps_db ps) {}" and "list_all (\<lambda>(a, e). plain_event (ps_db ps) e) es"
    and "c \<in> set (ps_categories (run_shelves ps es))"
  shows "(pc_id c, pc_id c) \<notin> (shelf_links (run_shelves ps es))\<^sup>+ \<and>
    (\<exists>r \<in> set (ps_categories (run_shelves ps es)). (pc_id c, pc_id r) \<in> (shelf_links (run_shelves ps es))\<^sup>* \<and> pc_parent_id r = None) \<and>
    parents_kept pc_id pc_parent_id pc_tenant_id (ps_categories (run_shelves ps es)) \<and>
    (\<forall>x \<in> set (ps_categories (run_shelves ps es)). \<not> shelf_clash c x)"
proof -
  have "shelves_in_order ps" using assms(1,2) by (simp add: shelves_in_order_def sound_shelves_def parents_kept_def acyclic_def)
  from run_shelves_keeps [OF this assms(3)] have ok: "shelves_in_order (run_shelves ps es)" .
  then have "acyclic (shelf_links (run_shelves ps es))" "parents_kept pc_id pc_parent_id pc_tenant_id (ps_categories (run_shelves ps es))"
    by (simp_all add: shelves_in_order_def sound_shelves_def)
  with shelf_tree.has_a_root [OF this assms(4)] ok assms(4) show ?thesis by (simp add: shelves_in_order_def acyclic_def)
qed

subsection \<open>A day at the shelves\<close>

definition shelver :: actor where
  "shelver = with_grants [''master_data.manage''] blank_actor"

definition empty_shelves :: shelves where
  "empty_shelves = \<lparr>ps_db = blank_db, ps_categories = []\<rparr>"

definition shelf_named :: "string \<Rightarrow> string option \<Rightarrow> shelf_event" where
  "shelf_named name parent = Shelve \<lparr>kr_code = None, kr_name = name, kr_parent_id = parent, kr_status = ''active''\<rparr>"

definition move_to :: "string \<Rightarrow> category_update" where
  "move_to parent = \<lparr>ku_code = None, ku_name = None, ku_parent_id = Some (Some parent), ku_status = None\<rparr>"

text \<open>Tools, saws under them, then tools moved under saws, which is refused.\<close>

definition shelf_day :: "(actor \<times> shelf_event) list" where
  "shelf_day = map (Pair shelver) [shelf_named ''tools'' None, shelf_named ''saws'' (Some ''x''), Reshelve ''x'' (move_to ''xx'')]"

lemma reads_back_blank: "reads_back blank_db {}"
  by (auto simp: reads_back_def blank_db_def inj_on_def dest: arg_cong [where f = length])

lemma shelf_day_rows:
  "map (\<lambda>c. (pc_id c, pc_parent_id c)) (ps_categories (run_shelves empty_shelves shelf_day)) = [(''x'', None), (''xx'', Some ''x'')]"
  by code_simp

lemma shelf_day_plain: "list_all (\<lambda>(a, e). plain_event (ps_db empty_shelves) e) shelf_day"
  by (simp add: shelf_day_def empty_shelves_def shelf_named_def move_to_def plain_spelling_def blank_db_def)

theorem categories_stay_a_forest_witness:
  "\<exists>c \<in> set (ps_categories (run_shelves empty_shelves shelf_day)). pc_id c = ''xx'' \<and> pc_parent_id c = Some ''x'' \<and>
     (pc_id c, pc_id c) \<notin> (shelf_links (run_shelves empty_shelves shelf_day))\<^sup>+"
proof -
  from shelf_day_rows obtain b c where rows: "ps_categories (run_shelves empty_shelves shelf_day) = [b, c]"
    and c: "pc_id c = ''xx''" "pc_parent_id c = Some ''x''" by (auto simp: map_eq_Cons_conv)
  from rows have mem: "c \<in> set (ps_categories (run_shelves empty_shelves shelf_day))" by simp
  have "ps_categories empty_shelves = []" "reads_back (ps_db empty_shelves) {}"
    by (simp_all add: empty_shelves_def reads_back_blank)
  from categories_stay_a_forest [OF this shelf_day_plain mem] c mem show ?thesis by blast
qed

theorem a_shelf_moves_anywhere_but_below_itself_witness:
  "\<not> is_ok (require_usable_parent (run_shelves empty_shelves shelf_day) ''t'' (Some ''xx'')
     (Some (hd (ps_categories (run_shelves empty_shelves shelf_day)))))"
proof -
  let ?ps = "run_shelves empty_shelves shelf_day" and ?m = "hd (ps_categories (run_shelves empty_shelves shelf_day))"
  have "shelves_in_order empty_shelves"
    by (simp add: shelves_in_order_def sound_shelves_def empty_shelves_def reads_back_blank parents_kept_def acyclic_def)
  from run_shelves_keeps [OF this shelf_day_plain] have ok: "sound_shelves ?ps" "acyclic (shelf_links ?ps)"
    by (simp_all add: shelves_in_order_def)
  from shelf_day_rows obtain c d where rows: "ps_categories ?ps = [c, d]" "pc_id c = ''x''" "pc_id d = ''xx''" "pc_parent_id d = Some ''x''"
    by (auto simp: map_eq_Cons_conv)
  then have m: "?m \<in> set (ps_categories ?ps)" by simp
  from rows have "d \<in> set (ps_categories ?ps)" by simp
  then have "(pc_id d, ''x'') \<in> shelf_links ?ps" using rows(4) by (rule parent_linksI)
  with rows have "(''xx'', pc_id ?m) \<in> shelf_links ?ps" by simp
  moreover have "db_uuid_in (ps_db ?ps) ''xx'' = Some ''xx''"
    using ok(1) rows by (auto simp: sound_shelves_def reads_back_def)
  ultimately show ?thesis using a_shelf_moves_anywhere_but_below_itself [OF ok m, of "''xx''" "''t''"] by auto
qed

text \<open>The own id in upper case is another string to the first check and not above itself to the walk: the
  category becomes its own parent, and the next walk that passes it reports the loop.\<close>

lemma a_respelled_category_is_its_own_parent:
  "(let reader = (\<lambda>s. Some (if s = ''X'' then ''x'' else s));
        ps = run_shelves (empty_shelves\<lparr>ps_db := blank_db\<lparr>db_uuid_in := reader\<rparr>\<rparr>)
               (map (Pair shelver) [shelf_named ''tools'' None, Reshelve ''x'' (move_to ''X'')])
    in map (\<lambda>c. (pc_id c, pc_parent_id c)) (ps_categories ps) = [(''x'', Some ''x'')] \<and>
       \<not> is_ok (shelf_step ps shelver (shelf_named ''saws'' (Some ''x''))))"
  by code_simp

end
