(* ===== verification/Geography.thy ===== *)
theory Geography
  imports Parent_Walks
begin

text \<open>
  Places and sales territories (\<open>app/api/geo.py\<close>): a geo names the geo it lies in, a territory covers geos and
  everything in them, and the territory of a place is the one covering it most closely. Names, abbreviations,
  descriptions and metadata are left out; days are integers.
\<close>

record geo =
  ge_id :: uuid
  ge_tenant_id :: uuid
  ge_code :: string
  ge_type :: string
  ge_parent_id :: "uuid option"
  ge_status :: string

record territory =
  te_id :: uuid
  te_tenant_id :: uuid
  te_code :: string
  te_parent_id :: "uuid option"
  te_manager_id :: "uuid option"
  te_status :: string

record territory_geo =
  cv_id :: uuid
  cv_tenant_id :: uuid
  cv_territory_id :: uuid
  cv_geo_id :: uuid

record territory_member =
  tm_id :: uuid
  tm_tenant_id :: uuid
  tm_territory_id :: uuid
  tm_employee_id :: uuid
  tm_role :: "string option"
  tm_from :: "int option"
  tm_until :: "int option"

record atlas =
  al_db :: db
  al_geos :: "geo list"
  al_territories :: "territory list"
  al_coverage :: "territory_geo list"
  al_members :: "territory_member list"

definition geo_or_404 :: "atlas \<Rightarrow> uuid \<Rightarrow> string \<Rightarrow> geo result" where
  "geo_or_404 al tenant_id s = scoped_row (al_db al) ge_id ge_tenant_id (al_geos al) tenant_id s"

definition territory_or_404 :: "atlas \<Rightarrow> uuid \<Rightarrow> string \<Rightarrow> territory result" where
  "territory_or_404 al tenant_id s = scoped_row (al_db al) te_id te_tenant_id (al_territories al) tenant_id s"

definition employee_or_404 :: "atlas \<Rightarrow> uuid \<Rightarrow> string \<Rightarrow> row result" where
  "employee_or_404 al tenant_id s =
     (case db_uuid_in (al_db al) s of
        None \<Rightarrow> Inl (HttpError 404 ''not_found'') | Some i \<Rightarrow> get_scoped_or_404 (al_db al) Employee tenant_id i)"

subsection \<open>The chain of a place\<close>

definition MAX_DEPTH :: nat where
  "MAX_DEPTH = 32"

text \<open>\<open>select(Geo).where(Geo.tenant_id == tenant_id, Geo.id == current)\<close>; what every caller starts from has been
  fetched, so it reads as an id.\<close>

definition select_geo :: "atlas \<Rightarrow> uuid \<Rightarrow> string \<Rightarrow> geo option" where
  "select_geo al tenant_id s = find_row (\<lambda>g. ge_tenant_id g = tenant_id \<and> Some (ge_id g) = db_uuid_in (al_db al) s) (al_geos al)"

function geo_chain :: "atlas \<Rightarrow> uuid \<Rightarrow> geo list \<Rightarrow> string option \<Rightarrow> geo list" where
  "geo_chain al tenant_id chain current =
     (case current of
        None \<Rightarrow> chain
      | Some s \<Rightarrow>
          if s = [] \<or> s \<in> ge_id ` set chain \<or> \<not> length chain < MAX_DEPTH then chain
          else (case select_geo al tenant_id s of
                  None \<Rightarrow> chain
                | Some g \<Rightarrow> geo_chain al tenant_id (chain @ [g]) (ge_parent_id g)))"
  by pat_completeness auto

termination
  by (relation "measure (\<lambda>(_, _, chain, _). MAX_DEPTH - length chain)") auto

declare geo_chain.simps [simp del]

definition geo_path :: "atlas \<Rightarrow> uuid \<Rightarrow> string \<Rightarrow> geo list" where
  "geo_path al tenant_id geo_id = geo_chain al tenant_id [] (Some geo_id)"

subsection \<open>The territory of a place\<close>

text \<open>The join of a geo's coverage with the active territories, by code.\<close>

definition covering :: "atlas \<Rightarrow> uuid \<Rightarrow> geo \<Rightarrow> territory list" where
  "covering al tenant_id g = sort_key te_code (concat (map (\<lambda>c.
     if cv_tenant_id c = tenant_id \<and> cv_geo_id c = ge_id g
     then filter (\<lambda>t. te_id t = cv_territory_id c \<and> te_status t = ''active'') (al_territories al) else []) (al_coverage al)))"

record territory_match =
  mt_territory :: territory
  mt_covered_geo :: geo
  mt_depth :: nat

record resolution =
  rz_geo_path :: "geo list"
  rz_matches :: "territory_match list"
  rz_territory :: "territory option"
  rz_ambiguous :: bool

definition territory_matches :: "atlas \<Rightarrow> uuid \<Rightarrow> geo list \<Rightarrow> territory_match list" where
  "territory_matches al tenant_id chain = concat (map (\<lambda>(depth, g).
     map (\<lambda>t. \<lparr>mt_territory = t, mt_covered_geo = g, mt_depth = depth\<rparr>) (covering al tenant_id g)) (enumerate 0 chain))"

definition resolve_territory :: "atlas \<Rightarrow> uuid \<Rightarrow> string \<Rightarrow> resolution" where
  "resolve_territory al tenant_id geo_id =
     (let chain = geo_path al tenant_id geo_id; matches = territory_matches al tenant_id chain;
          nearest = filter (\<lambda>m. mt_depth m = mt_depth (hd matches)) matches
      in \<lparr>rz_geo_path = chain, rz_matches = matches,
          rz_territory = (if matches \<noteq> [] \<and> length nearest = 1 then Some (mt_territory (hd nearest)) else None),
          rz_ambiguous = (matches \<noteq> [] \<and> length nearest \<noteq> 1)\<rparr>)"

definition named_id :: "string option \<Rightarrow> bool" where
  "named_id x \<longleftrightarrow> x \<noteq> None \<and> x \<noteq> Some []"

text \<open>The territory to store on a customer.\<close>

definition customer_territory :: "atlas \<Rightarrow> uuid \<Rightarrow> string option \<Rightarrow> string option \<Rightarrow> string option result" where
  "customer_territory al tenant_id geo_id territory_id =
     (if named_id territory_id
      then bindE (territory_or_404 al tenant_id (the territory_id)) (\<lambda>_. Inr territory_id)
      else if \<not> named_id geo_id then Inr None
      else bindE (geo_or_404 al tenant_id (the geo_id)) (\<lambda>_.
           Inr (map_option te_id (rz_territory (resolve_territory al tenant_id (the geo_id))))))"

definition resolve_endpoint :: "atlas \<Rightarrow> uuid \<Rightarrow> string \<Rightarrow> resolution result" where
  "resolve_endpoint al tenant_id geo_id =
     bindE (geo_or_404 al tenant_id geo_id) (\<lambda>_. Inr (resolve_territory al tenant_id geo_id))"

definition get_geo_path :: "atlas \<Rightarrow> uuid \<Rightarrow> string \<Rightarrow> geo list result" where
  "get_geo_path al tenant_id geo_id =
     bindE (geo_or_404 al tenant_id geo_id) (\<lambda>_. Inr (rev (geo_path al tenant_id geo_id)))"

subsection \<open>Geos\<close>

definition geo_parent :: "atlas \<Rightarrow> uuid \<Rightarrow> string option \<Rightarrow> geo option \<Rightarrow> unit result" where
  "geo_parent al tenant_id parent current =
     (if \<not> named_id parent then Inr ()
      else bindE (ensure (\<not> (current \<noteq> None \<and> parent = map_option ge_id current)) 422 ''a_geo_cannot_be_its_own_parent'') (\<lambda>_.
           bindE (geo_or_404 al tenant_id (the parent)) (\<lambda>_.
           ensure (\<not> (current \<noteq> None \<and> map_option ge_id current \<in> Some ` ge_id ` set (geo_path al tenant_id (the parent)))) 422
             ''the_hierarchy_would_loop'')))"

text \<open>What a nullable id column takes: no text but an id's (\<open>''\<close> is none).\<close>

definition id_column :: "db \<Rightarrow> string option \<Rightarrow> uuid option result" where
  "id_column db x = (case x of None \<Rightarrow> Inr None | Some s \<Rightarrow> bindE (uuid_literal db s) (\<lambda>i. Inr (Some i)))"

record geo_request =
  gq_code :: string
  gq_type :: string
  gq_parent_id :: "string option"
  gq_status :: string

definition same_geo_code :: "geo \<Rightarrow> geo \<Rightarrow> bool" where
  "same_geo_code x y \<longleftrightarrow> ge_id x \<noteq> ge_id y \<and> ge_tenant_id x = ge_tenant_id y \<and> ge_code x = ge_code y"

definition audit_place :: "actor \<Rightarrow> string \<Rightarrow> string \<Rightarrow> uuid \<Rightarrow> db \<Rightarrow> db" where
  "audit_place a action entity_type entity_id db = record_audit (ac_tenant_id a) action entity_type entity_id (Some (label a)) db"

definition create_geo :: "atlas \<Rightarrow> actor \<Rightarrow> geo_request \<Rightarrow> (geo \<times> atlas) result" where
  "create_geo al a p =
     (let tenant_id = ac_tenant_id a in
      bindE (require_master_data_manage a) (\<lambda>_.
      bindE (require_type_option (db_type_options (al_db al)) tenant_id ''geo_type'' (gq_type p)) (\<lambda>_.
      bindE (geo_parent al tenant_id (gq_parent_id p) None) (\<lambda>_.
      bindE (id_column (al_db al) (gq_parent_id p)) (\<lambda>parent.
      let g = \<lparr>ge_id = fresh_id (al_db al), ge_tenant_id = tenant_id, ge_code = strip (gq_code p), ge_type = gq_type p,
            ge_parent_id = parent, ge_status = gq_status p\<rparr>
      in bindE (ensure (\<not> list_ex (same_geo_code g) (al_geos al)) 409 ''geo_code_already_exists'') (\<lambda>_.
         Inr (g, al\<lparr>al_db := audit_place a ''geo.created'' ''geo'' (ge_id g) (tick (al_db al)), al_geos := al_geos al @ [g]\<rparr>)))))))"

text \<open>The shipped provinces: code, type and the code of the parent.\<close>

definition CN_PROVINCES :: "(string \<times> string \<times> string option) list" where
  "CN_PROVINCES = (''CN'', ''country'', None) # map (\<lambda>code. (code, ''province'', Some ''CN''))
     [''110000'', ''120000'', ''130000'', ''140000'', ''150000'', ''210000'', ''220000'', ''230000'', ''310000'', ''320000'', ''330000'',
      ''340000'', ''350000'', ''360000'', ''370000'', ''410000'', ''420000'', ''430000'', ''440000'', ''450000'', ''460000'', ''500000'',
      ''510000'', ''520000'', ''530000'', ''540000'', ''610000'', ''620000'', ''630000'', ''640000'', ''650000'', ''710000'', ''810000'',
      ''820000'']"

definition seeded_geo :: "db \<Rightarrow> uuid \<Rightarrow> (string \<times> uuid) list \<Rightarrow> string \<times> string \<times> string option \<Rightarrow> geo" where
  "seeded_geo db tenant_id existing = (\<lambda>(code, type, parent_code).
     \<lparr>ge_id = fresh_id db, ge_tenant_id = tenant_id, ge_code = code, ge_type = type,
      ge_parent_id = (if named_id parent_code then map_of existing (the parent_code) else None), ge_status = ''active''\<rparr>)"

text \<open>\<open>existing\<close> maps codes to geos, what a row adds included.\<close>

fun seed_rows :: "atlas \<Rightarrow> uuid \<Rightarrow> (string \<times> uuid) list \<Rightarrow> nat \<Rightarrow> (string \<times> string \<times> string option) list \<Rightarrow>
    (atlas \<times> (string \<times> uuid) list \<times> nat) result" where
  "seed_rows al tenant_id existing created [] = Inr (al, existing, created)"
| "seed_rows al tenant_id existing created (row # rows) =
     (if map_of existing (fst row) \<noteq> None then seed_rows al tenant_id existing created rows
      else let g = seeded_geo (al_db al) tenant_id existing row in
        bindE (if list_ex (same_geo_code g) (al_geos al) then Inl IntegrityError else Inr ()) (\<lambda>_.
        seed_rows (al\<lparr>al_db := tick (al_db al), al_geos := al_geos al @ [g]\<rparr>) tenant_id ((ge_code g, ge_id g) # existing) (Suc created) rows))"

definition existing_codes :: "atlas \<Rightarrow> uuid \<Rightarrow> (string \<times> uuid) list" where
  "existing_codes al tenant_id = rev (map (\<lambda>g. (ge_code g, ge_id g)) (filter (\<lambda>g. ge_tenant_id g = tenant_id) (al_geos al)))"

definition seed_geo_template ::
    "(string \<times> string \<times> string option) list \<Rightarrow> atlas \<Rightarrow> actor \<Rightarrow> ((nat \<times> nat) \<times> atlas) result" where
  "seed_geo_template rows al a =
     bindE (require_master_data_manage a) (\<lambda>_.
     bindE (seed_rows al (ac_tenant_id a) (existing_codes al (ac_tenant_id a)) 0 rows) (\<lambda>(al', existing, created).
     Inr ((created, length rows - created), al'\<lparr>al_db := audit_place a ''geo.template_seeded'' ''geo''
       (case map_of existing ''CN'' of None \<Rightarrow> [] | Some i \<Rightarrow> i) (al_db al')\<rparr>)))"

text \<open>Outer \<open>None\<close>: the field is absent; \<open>Some None\<close>: it is null, which only the parent may be.\<close>

record geo_update =
  gu_name :: "string option option"
  gu_type :: "string option option"
  gu_parent_id :: "string option option"
  gu_status :: "string option option"

definition updated_geo :: "geo_update \<Rightarrow> uuid option option \<Rightarrow> geo \<Rightarrow> geo" where
  "updated_geo u parent g = g\<lparr>
     ge_type := (case gu_type u of Some (Some x) \<Rightarrow> x | _ \<Rightarrow> ge_type g),
     ge_parent_id := (case parent of None \<Rightarrow> ge_parent_id g | Some p \<Rightarrow> p),
     ge_status := (case gu_status u of Some (Some x) \<Rightarrow> x | _ \<Rightarrow> ge_status g)\<rparr>"

definition update_geo :: "atlas \<Rightarrow> actor \<Rightarrow> string \<Rightarrow> geo_update \<Rightarrow> (geo \<times> atlas) result" where
  "update_geo al a s u =
     (let tenant_id = ac_tenant_id a in
      bindE (require_master_data_manage a) (\<lambda>_.
      bindE (geo_or_404 al tenant_id s) (\<lambda>g.
      bindE (case gu_type u of Some (Some t) \<Rightarrow>
                 if t = [] then Inr () else require_type_option (db_type_options (al_db al)) tenant_id ''geo_type'' t
               | _ \<Rightarrow> Inr ()) (\<lambda>_.
      bindE (case gu_parent_id u of None \<Rightarrow> Inr () | Some p \<Rightarrow> geo_parent al tenant_id p (Some g)) (\<lambda>_.
      bindE (case gu_parent_id u of None \<Rightarrow> Inr None | Some p \<Rightarrow> bindE (id_column (al_db al) p) (\<lambda>i. Inr (Some i))) (\<lambda>parent.
      bindE (if gu_name u = Some None \<or> gu_type u = Some None \<or> gu_status u = Some None then Inl IntegrityError else Inr ()) (\<lambda>_.
      Inr (updated_geo u parent g, al\<lparr>al_db := audit_place a ''geo.updated'' ''geo'' (ge_id g) (al_db al),
        al_geos := update_rows (\<lambda>x. ge_id x = ge_id g) (updated_geo u parent) (al_geos al)\<rparr>))))))))"

subsection \<open>Territories\<close>

definition territory_fields :: "atlas \<Rightarrow> uuid \<Rightarrow> string option \<Rightarrow> string option \<Rightarrow> territory option \<Rightarrow> unit result" where
  "territory_fields al tenant_id parent manager current =
     bindE (if named_id parent
            then bindE (ensure (\<not> (current \<noteq> None \<and> parent = map_option te_id current)) 422 ''a_territory_cannot_be_its_own_parent'') (\<lambda>_.
                 bindE (territory_or_404 al tenant_id (the parent)) (\<lambda>_. Inr ()))
            else Inr ()) (\<lambda>_.
     if named_id manager then bindE (employee_or_404 al tenant_id (the manager)) (\<lambda>_. Inr ()) else Inr ())"

record territory_request =
  tq_code :: string
  tq_parent_id :: "string option"
  tq_manager_id :: "string option"
  tq_status :: string

definition same_territory_code :: "territory \<Rightarrow> territory \<Rightarrow> bool" where
  "same_territory_code x y \<longleftrightarrow> te_id x \<noteq> te_id y \<and> te_tenant_id x = te_tenant_id y \<and> te_code x = te_code y"

definition create_territory :: "atlas \<Rightarrow> actor \<Rightarrow> territory_request \<Rightarrow> (territory \<times> atlas) result" where
  "create_territory al a p =
     (let tenant_id = ac_tenant_id a in
      bindE (require_master_data_manage a) (\<lambda>_.
      bindE (territory_fields al tenant_id (tq_parent_id p) (tq_manager_id p) None) (\<lambda>_.
      bindE (id_column (al_db al) (tq_parent_id p)) (\<lambda>parent.
      bindE (id_column (al_db al) (tq_manager_id p)) (\<lambda>manager.
      let t = \<lparr>te_id = fresh_id (al_db al), te_tenant_id = tenant_id, te_code = strip (tq_code p), te_parent_id = parent,
            te_manager_id = manager, te_status = tq_status p\<rparr>
      in bindE (ensure (\<not> list_ex (same_territory_code t) (al_territories al)) 409 ''territory_code_already_exists'') (\<lambda>_.
         Inr (t, al\<lparr>al_db := audit_place a ''territory.created'' ''territory'' (te_id t) (tick (al_db al)),
                    al_territories := al_territories al @ [t]\<rparr>)))))))"

record territory_update =
  tu_name :: "string option option"
  tu_parent_id :: "string option option"
  tu_manager_id :: "string option option"
  tu_status :: "string option option"

definition updated_territory :: "territory_update \<Rightarrow> uuid option \<Rightarrow> uuid option \<Rightarrow> territory \<Rightarrow> territory" where
  "updated_territory u parent manager t = t\<lparr>
     te_parent_id := (if tu_parent_id u = None then te_parent_id t else parent),
     te_manager_id := (if tu_manager_id u = None then te_manager_id t else manager),
     te_status := (case tu_status u of Some (Some x) \<Rightarrow> x | _ \<Rightarrow> te_status t)\<rparr>"

text \<open>\<open>fields.get(name)\<close>: an absent field reads as null.\<close>

definition field_or_null :: "'a option option \<Rightarrow> 'a option" where
  "field_or_null u = (case u of None \<Rightarrow> None | Some x \<Rightarrow> x)"

definition update_territory :: "atlas \<Rightarrow> actor \<Rightarrow> string \<Rightarrow> territory_update \<Rightarrow> (territory \<times> atlas) result" where
  "update_territory al a s u =
     (let tenant_id = ac_tenant_id a; parent = field_or_null (tu_parent_id u); manager = field_or_null (tu_manager_id u) in
      bindE (require_master_data_manage a) (\<lambda>_.
      bindE (territory_or_404 al tenant_id s) (\<lambda>t.
      bindE (territory_fields al tenant_id parent manager (Some t)) (\<lambda>_.
      bindE (id_column (al_db al) parent) (\<lambda>p.
      bindE (id_column (al_db al) manager) (\<lambda>m.
      bindE (if tu_name u = Some None \<or> tu_status u = Some None then Inl IntegrityError else Inr ()) (\<lambda>_.
      Inr (updated_territory u p m t, al\<lparr>al_db := audit_place a ''territory.updated'' ''territory'' (te_id t) (al_db al),
        al_territories := update_rows (\<lambda>x. te_id x = te_id t) (updated_territory u p m) (al_territories al)\<rparr>))))))))"

subsection \<open>Coverage and members\<close>

definition covers_already :: "territory_geo \<Rightarrow> territory_geo \<Rightarrow> bool" where
  "covers_already x y \<longleftrightarrow> cv_tenant_id x = cv_tenant_id y \<and> cv_territory_id x = cv_territory_id y \<and> cv_geo_id x = cv_geo_id y"

definition create_territory_geo :: "atlas \<Rightarrow> actor \<Rightarrow> string \<Rightarrow> string \<Rightarrow> (territory_geo \<times> atlas) result" where
  "create_territory_geo al a territory_id geo_id =
     (let tenant_id = ac_tenant_id a in
      bindE (require_master_data_manage a) (\<lambda>_.
      bindE (territory_or_404 al tenant_id territory_id) (\<lambda>t.
      bindE (geo_or_404 al tenant_id geo_id) (\<lambda>g.
      let c = \<lparr>cv_id = fresh_id (al_db al), cv_tenant_id = tenant_id, cv_territory_id = te_id t, cv_geo_id = ge_id g\<rparr>
      in bindE (ensure (\<not> list_ex (covers_already c) (al_coverage al)) 409 ''the_territory_already_covers_that_geo'') (\<lambda>_.
         Inr (c, al\<lparr>al_db := audit_place a ''territory.coverage_added'' ''territory'' (te_id t) (tick (al_db al)),
                    al_coverage := al_coverage al @ [c]\<rparr>))))))"

definition delete_territory_geo :: "atlas \<Rightarrow> actor \<Rightarrow> string \<Rightarrow> atlas result" where
  "delete_territory_geo al a s =
     bindE (require_master_data_manage a) (\<lambda>_.
     bindE (scoped_row (al_db al) cv_id cv_tenant_id (al_coverage al) (ac_tenant_id a) s) (\<lambda>c.
     Inr (al\<lparr>al_db := audit_place a ''territory.coverage_removed'' ''territory'' (cv_territory_id c) (al_db al),
             al_coverage := filter (\<lambda>x. cv_id x \<noteq> cv_id c) (al_coverage al)\<rparr>)))"

definition days_in_order :: "int option \<Rightarrow> int option \<Rightarrow> bool" where
  "days_in_order valid_from valid_until = (case (valid_from, valid_until) of (Some f, Some u) \<Rightarrow> f \<le> u | _ \<Rightarrow> True)"

definition require_member_role :: "atlas \<Rightarrow> uuid \<Rightarrow> string option \<Rightarrow> unit result" where
  "require_member_role al tenant_id role =
     (if named_id role then require_type_option (db_type_options (al_db al)) tenant_id ''territory_member_role'' (the role) else Inr ())"

record member_request =
  mq_territory_id :: string
  mq_employee_id :: string
  mq_role :: "string option"
  mq_from :: "int option"
  mq_until :: "int option"

definition same_member :: "territory_member \<Rightarrow> territory_member \<Rightarrow> bool" where
  "same_member x y \<longleftrightarrow> tm_tenant_id x = tm_tenant_id y \<and> tm_territory_id x = tm_territory_id y \<and> tm_employee_id x = tm_employee_id y"

definition create_territory_member :: "atlas \<Rightarrow> actor \<Rightarrow> member_request \<Rightarrow> (territory_member \<times> atlas) result" where
  "create_territory_member al a p =
     (let tenant_id = ac_tenant_id a in
      bindE (require_master_data_manage a) (\<lambda>_.
      bindE (territory_or_404 al tenant_id (mq_territory_id p)) (\<lambda>t.
      bindE (employee_or_404 al tenant_id (mq_employee_id p)) (\<lambda>e.
      bindE (require_member_role al tenant_id (mq_role p)) (\<lambda>_.
      bindE (ensure (days_in_order (mq_from p) (mq_until p)) 422 ''valid_until_is_before_valid_from'') (\<lambda>_.
      let m = \<lparr>tm_id = fresh_id (al_db al), tm_tenant_id = tenant_id, tm_territory_id = te_id t, tm_employee_id = row_id e,
            tm_role = mq_role p, tm_from = mq_from p, tm_until = mq_until p\<rparr>
      in bindE (ensure (\<not> list_ex (same_member m) (al_members al)) 409 ''that_person_is_already_in_the_territory'') (\<lambda>_.
         Inr (m, al\<lparr>al_db := audit_place a ''territory.member_added'' ''territory'' (te_id t) (tick (al_db al)),
                    al_members := al_members al @ [m]\<rparr>))))))))"

record member_update =
  mu_role :: "string option option"
  mu_from :: "int option option"
  mu_until :: "int option option"

definition updated_member :: "member_update \<Rightarrow> territory_member \<Rightarrow> territory_member" where
  "updated_member u m = m\<lparr>
     tm_role := (case mu_role u of None \<Rightarrow> tm_role m | Some x \<Rightarrow> x),
     tm_from := (case mu_from u of None \<Rightarrow> tm_from m | Some x \<Rightarrow> x),
     tm_until := (case mu_until u of None \<Rightarrow> tm_until m | Some x \<Rightarrow> x)\<rparr>"

definition update_territory_member :: "atlas \<Rightarrow> actor \<Rightarrow> string \<Rightarrow> member_update \<Rightarrow> (territory_member \<times> atlas) result" where
  "update_territory_member al a s u =
     (let tenant_id = ac_tenant_id a in
      bindE (require_master_data_manage a) (\<lambda>_.
      bindE (scoped_row (al_db al) tm_id tm_tenant_id (al_members al) tenant_id s) (\<lambda>m.
      bindE (require_member_role al tenant_id (field_or_null (mu_role u))) (\<lambda>_.
      bindE (ensure (days_in_order (tm_from (updated_member u m)) (tm_until (updated_member u m))) 422 ''valid_until_is_before_valid_from'') (\<lambda>_.
      Inr (updated_member u m, al\<lparr>al_db := audit_place a ''territory.member_changed'' ''territory'' (tm_territory_id m) (al_db al),
        al_members := update_rows (\<lambda>x. tm_id x = tm_id m) (updated_member u) (al_members al)\<rparr>))))))"

definition delete_territory_member :: "atlas \<Rightarrow> actor \<Rightarrow> string \<Rightarrow> atlas result" where
  "delete_territory_member al a s =
     bindE (require_master_data_manage a) (\<lambda>_.
     bindE (scoped_row (al_db al) tm_id tm_tenant_id (al_members al) (ac_tenant_id a) s) (\<lambda>m.
     Inr (al\<lparr>al_db := audit_place a ''territory.member_removed'' ''territory'' (tm_territory_id m) (al_db al),
             al_members := filter (\<lambda>x. tm_id x \<noteq> tm_id m) (al_members al)\<rparr>)))"

end
