(* ===== verification/Geography_Laws.thy ===== *)
theory Geography_Laws
  imports Geography
begin

text \<open>
  What the walk up the places yields, which territory a place belongs to, and that a shipped table of places is
  loaded once.
\<close>

abbreviation "geo_links al \<equiv> parent_links ge_id ge_parent_id (al_geos al)"

definition sound_atlas :: "atlas \<Rightarrow> bool" where
  "sound_atlas al \<longleftrightarrow> distinct (map ge_id (al_geos al)) \<and> parents_kept ge_id ge_parent_id ge_tenant_id (al_geos al) \<and>
     reads_back (al_db al) (ge_id ` set (al_geos al)) \<and> db_uuid_in (al_db al) [] = None"

lemma geo_or_404_Inr:
  "geo_or_404 al t s = Inr g \<Longrightarrow> g \<in> set (al_geos al) \<and> ge_tenant_id g = t \<and> db_uuid_in (al_db al) s = Some (ge_id g)"
  unfolding geo_or_404_def by (rule scoped_row_Inr)

lemma select_geo_Some:
  assumes "select_geo al t s = Some g"
  shows "g \<in> set (al_geos al)" and "ge_tenant_id g = t" and "db_uuid_in (al_db al) s = Some (ge_id g)"
  using find_row_Some [OF assms [unfolded select_geo_def]] by simp_all

lemma select_geo_found:
  assumes "sound_atlas al" and "g \<in> set (al_geos al)" and "ge_tenant_id g = t" and "db_uuid_in (al_db al) s = Some (ge_id g)"
  shows "select_geo al t s = Some g"
proof -
  have d: "distinct (map ge_id (al_geos al))" using assms(1) by (simp add: sound_atlas_def)
  obtain x where x: "select_geo al t s = Some x"
    using assms(2-4) by (cases "select_geo al t s") (auto simp: select_geo_def find_row_None_iff)
  note f = select_geo_Some [OF x]
  with d assms(2,4) have "x = g" by (auto simp: distinct_map inj_on_def)
  with x show ?thesis by simp
qed

lemma stored_id:
  assumes "sound_atlas al" and "g \<in> set (al_geos al)"
  shows "db_uuid_in (al_db al) (ge_id g) = Some (ge_id g)" and "ge_id g \<noteq> []"
proof -
  from assms show "db_uuid_in (al_db al) (ge_id g) = Some (ge_id g)" using reads_backD(2) by (auto simp: sound_atlas_def)
  with assms(1) show "ge_id g \<noteq> []" by (auto simp: sound_atlas_def)
qed

subsection \<open>The chain\<close>

definition climbs :: "geo list \<Rightarrow> bool" where
  "climbs gs \<longleftrightarrow> successively (\<lambda>g h. ge_parent_id g = Some (ge_id h)) gs"

definition chain_ok :: "atlas \<Rightarrow> uuid \<Rightarrow> geo list \<Rightarrow> bool" where
  "chain_ok al t gs \<longleftrightarrow> climbs gs \<and> distinct (map ge_id gs) \<and> length gs \<le> MAX_DEPTH \<and>
     (\<forall>g \<in> set gs. g \<in> set (al_geos al) \<and> ge_tenant_id g = t)"

lemma geo_chain_climbs:
  assumes "sound_atlas al" and "chain_ok al t chain" and "chain \<noteq> []" and "current = ge_parent_id (last chain)"
  shows "chain_ok al t (geo_chain al t chain current) \<and> (\<exists>gs. geo_chain al t chain current = chain @ gs) \<and>
    (length (geo_chain al t chain current) < MAX_DEPTH \<longrightarrow>
      (\<forall>p. ge_parent_id (last (geo_chain al t chain current)) = Some p \<longrightarrow> p \<in> ge_id ` set (geo_chain al t chain current)))"
  using assms
proof (induction al t chain current rule: geo_chain.induct)
  case (1 al t chain current)
  note step = geo_chain.simps [of al t chain current]
  show ?case
  proof (cases "current = None \<or> current \<in> Some ` ge_id ` set chain \<or> \<not> length chain < MAX_DEPTH")
    case True
    then have "geo_chain al t chain current = chain" unfolding step by (auto split: option.split)
    with "1.prems" True show ?thesis by auto
  next
    case False
    then obtain p where p: "current = Some p" "p \<notin> ge_id ` set chain" "length chain < MAX_DEPTH" by auto
    have last: "last chain \<in> set (al_geos al)" "ge_tenant_id (last chain) = t"
      using "1.prems"(2,3) last_in_set by (auto simp: chain_ok_def)
    with "1.prems"(1,4) p(1) obtain g where g: "g \<in> set (al_geos al)" "ge_id g = p" "ge_tenant_id g = t"
      by (fastforce simp: sound_atlas_def parents_kept_def)
    note id = stored_id [OF "1.prems"(1) g(1)]
    have found: "select_geo al t p = Some g" using "1.prems"(1) g id by (intro select_geo_found) simp_all
    have next_step: "geo_chain al t chain current = geo_chain al t (chain @ [g]) (ge_parent_id g)"
      unfolding step using p found id g(2) by simp
    have "chain_ok al t (chain @ [g])"
      using "1.prems"(2-4) p g by (auto simp: chain_ok_def climbs_def successively_append_iff)
    moreover have "\<not> (p = [] \<or> p \<in> ge_id ` set chain \<or> \<not> length chain < MAX_DEPTH)" using p id g(2) by auto
    ultimately show ?thesis using "1.IH" [OF p(1) _ found] "1.prems"(1) unfolding next_step by auto
  qed
qed

lemma geo_path_start:
  assumes "sound_atlas al" and "g \<in> set (al_geos al)" and "db_uuid_in (al_db al) s = Some (ge_id g)"
  shows "geo_path al (ge_tenant_id g) s = geo_chain al (ge_tenant_id g) [g] (ge_parent_id g)"
proof -
  have "s \<noteq> []" using assms(1,3) by (auto simp: sound_atlas_def)
  with select_geo_found [OF assms(1,2) refl assms(3)] show ?thesis
    by (simp add: geo_path_def geo_chain.simps [of _ _ "[]"] MAX_DEPTH_def)
qed

text \<open>The path of a place starts with it and climbs parent by parent, meets no place twice and stops within
  the depth limit; a shorter path stops only at a place without a parent or before one it has met.\<close>

theorem a_path_climbs_to_the_root:
  assumes "sound_atlas al" and "geo_or_404 al t s = Inr g"
  shows "\<exists>gs. geo_path al t s = g # gs \<and> climbs (g # gs) \<and> distinct (map ge_id (g # gs)) \<and> length (g # gs) \<le> MAX_DEPTH \<and>
    (\<forall>h \<in> set (g # gs). ge_tenant_id h = t) \<and>
    (length (g # gs) < MAX_DEPTH \<longrightarrow> (\<forall>p. ge_parent_id (last (g # gs)) = Some p \<longrightarrow> p \<in> ge_id ` set (g # gs)))"
proof -
  note g = geo_or_404_Inr [OF assms(2)]
  then have path: "geo_path al t s = geo_chain al t [g] (ge_parent_id g)" using geo_path_start [OF assms(1), of g s] by auto
  have "chain_ok al t [g]" using g by (simp add: chain_ok_def climbs_def MAX_DEPTH_def)
  from geo_chain_climbs [OF assms(1) this _ refl] obtain gs where
    "chain_ok al t (g # gs)" and gs: "geo_chain al t [g] (ge_parent_id g) = g # gs"
    and "length (g # gs) < MAX_DEPTH \<longrightarrow> (\<forall>p. ge_parent_id (last (g # gs)) = Some p \<longrightarrow> p \<in> ge_id ` set (g # gs))"
    by auto
  then show ?thesis unfolding path gs chain_ok_def by blast
qed

text \<open>Everything above a place whose path is not cut off is on its path.\<close>

definition path_of :: "atlas \<Rightarrow> geo \<Rightarrow> geo list" where
  "path_of al g = geo_chain al (ge_tenant_id g) [g] (ge_parent_id g)"

lemma climbs_parent:
  assumes "climbs gs" and "g \<in> set gs" and "g \<noteq> last gs"
  shows "\<exists>h \<in> set gs. ge_parent_id g = Some (ge_id h)"
  using assms unfolding climbs_def by (induction gs rule: induct_list012) (auto split: if_splits)

lemma path_is_closed:
  assumes "sound_atlas al" and "g \<in> set (al_geos al)" and "length (path_of al g) < MAX_DEPTH"
    and "(ge_id g, y) \<in> (geo_links al)\<^sup>*"
  shows "y \<in> ge_id ` set (path_of al g)"
  using assms(4)
proof (induction rule: rtrancl_induct)
  have "chain_ok al (ge_tenant_id g) [g]" using assms(2) by (simp add: chain_ok_def climbs_def MAX_DEPTH_def)
  note c = geo_chain_climbs [OF assms(1) this _ refl, simplified, folded path_of_def]
  { case base
    from c show ?case by auto
  next
    case (step y z)
    from step.IH obtain h where h: "h \<in> set (path_of al g)" "ge_id h = y" by blast
    then have "h \<in> set (al_geos al)" using c by (auto simp: chain_ok_def)
    with step.hyps(2) h(2) assms(1) have up: "ge_parent_id h = Some z"
      by (auto simp: parent_links_def sound_atlas_def distinct_map inj_on_def)
    show ?case
    proof (cases "h = last (path_of al g)")
      case True
      with up c assms(3) show ?thesis by auto
    next
      case False
      with climbs_parent [of "path_of al g" h] c h(1) up show ?thesis by (auto simp: chain_ok_def)
    qed }
qed

subsection \<open>The territory of a place\<close>

lemma matches_of_append:
  "concat (map (\<lambda>(d, g). f d g) (enumerate n (xs @ ys))) =
   concat (map (\<lambda>(d, g). f d g) (enumerate n xs)) @ concat (map (\<lambda>(d, g). f d g) (enumerate (n + length xs) ys))"
  by (simp add: enumerate_append_eq)

definition matches_from :: "atlas \<Rightarrow> uuid \<Rightarrow> nat \<Rightarrow> geo list \<Rightarrow> territory_match list" where
  "matches_from al t n gs = concat (map (\<lambda>(depth, g).
     map (\<lambda>t. \<lparr>mt_territory = t, mt_covered_geo = g, mt_depth = depth\<rparr>) (covering al t g)) (enumerate n gs))"

lemma matches_from_simps [simp]:
  "matches_from al t n [] = []"
  "matches_from al t n (g # gs) =
     map (\<lambda>x. \<lparr>mt_territory = x, mt_covered_geo = g, mt_depth = n\<rparr>) (covering al t g) @ matches_from al t (Suc n) gs"
  by (simp_all add: matches_from_def)

lemma depth_of_matches: "m \<in> set (matches_from al t n gs) \<Longrightarrow> n \<le> mt_depth m"
  by (induction gs arbitrary: n) fastforce+

lemma matches_skip:
  "\<forall>g \<in> set pre. covering al t g = [] \<Longrightarrow> matches_from al t n (pre @ gs) = matches_from al t (n + length pre) gs"
  by (induction pre arbitrary: n) auto

lemma nearest_matches:
  assumes "covering al t g \<noteq> []"
  shows "filter (\<lambda>m. mt_depth m = mt_depth (hd (matches_from al t n (g # gs)))) (matches_from al t n (g # gs)) =
    map (\<lambda>x. \<lparr>mt_territory = x, mt_covered_geo = g, mt_depth = n\<rparr>) (covering al t g)"
proof -
  have "hd (matches_from al t n (g # gs)) = \<lparr>mt_territory = hd (covering al t g), mt_covered_geo = g, mt_depth = n\<rparr>"
    using assms by (simp add: hd_append hd_map)
  moreover have "filter (\<lambda>m. mt_depth m = n) (matches_from al t (Suc n) gs) = []"
    using depth_of_matches [of _ al t "Suc n" gs] by (fastforce simp: filter_empty_conv)
  ultimately show ?thesis by (simp add: filter_map comp_def)
qed

definition nearest_cover :: "atlas \<Rightarrow> uuid \<Rightarrow> geo list \<Rightarrow> territory list" where
  "nearest_cover al t gs = (case dropWhile (\<lambda>g. covering al t g = []) gs of [] \<Rightarrow> [] | g # _ \<Rightarrow> covering al t g)"

text \<open>C29: The territory of a place is decided by the closest place on its path that any active territory covers:
  a single one there is the answer, several leave it open, and no coverage at all leaves none.\<close>

theorem the_nearest_cover_decides:
  "rz_territory (resolve_territory al t s) =
     (case nearest_cover al t (geo_path al t s) of [x] \<Rightarrow> Some x | _ \<Rightarrow> None) \<and>
   rz_ambiguous (resolve_territory al t s) = (1 < length (nearest_cover al t (geo_path al t s)))"
proof -
  let ?gs = "geo_path al t s"
  define pre post where "pre = takeWhile (\<lambda>g. covering al t g = []) ?gs" and "post = dropWhile (\<lambda>g. covering al t g = []) ?gs"
  have gs: "?gs = pre @ post" "\<forall>g \<in> set pre. covering al t g = []"
    by (auto simp: pre_def post_def dest: set_takeWhileD)
  have matches: "territory_matches al t ?gs = matches_from al t (length pre) post"
    using matches_skip [OF gs(2), of 0 post] gs(1) by (simp add: territory_matches_def matches_from_def)
  show ?thesis
  proof (cases post)
    case Nil
    then show ?thesis using matches by (simp add: resolve_territory_def nearest_cover_def Let_def flip: post_def)
  next
    case (Cons g rest)
    then have g: "covering al t g \<noteq> []" using hd_dropWhile [of "\<lambda>g. covering al t g = []" ?gs] by (simp flip: post_def)
    have cover: "nearest_cover al t ?gs = covering al t g" using Cons by (simp add: nearest_cover_def flip: post_def)
    have some: "territory_matches al t ?gs \<noteq> []" using g by (simp add: matches Cons)
    have near: "filter (\<lambda>m. mt_depth m = mt_depth (hd (territory_matches al t ?gs))) (territory_matches al t ?gs) =
        map (\<lambda>x. \<lparr>mt_territory = x, mt_covered_geo = g, mt_depth = length pre\<rparr>) (covering al t g)"
      unfolding matches Cons by (rule nearest_matches [OF g])
    show ?thesis
      using g some unfolding resolve_territory_def Let_def cover near
      by (cases "covering al t g" rule: remdups_adj.cases) auto
  qed
qed

subsection \<open>A shipped table of places\<close>

definition knows_codes :: "atlas \<Rightarrow> uuid \<Rightarrow> (string \<times> uuid) list \<Rightarrow> bool" where
  "knows_codes al t existing \<longleftrightarrow>
     fst ` set existing = ge_code ` {g \<in> set (al_geos al). ge_tenant_id g = t} \<and>
     snd ` set existing \<subseteq> ge_id ` {g \<in> set (al_geos al). ge_tenant_id g = t}"

lemma existing_codes_known: "knows_codes al t (existing_codes al t)"
  by (force simp: knows_codes_def existing_codes_def)

lemma seed_rows_total:
  assumes "knows_codes al t existing"
  shows "\<exists>al' existing' n. seed_rows al t existing created rows = Inr (al', existing', created + n) \<and> n \<le> length rows \<and>
    knows_codes al' t existing' \<and> fst ` set rows \<subseteq> ge_code ` {g \<in> set (al_geos al'). ge_tenant_id g = t} \<and>
    (\<exists>gs. al_geos al' = al_geos al @ gs \<and> length gs = n) \<and> db_type_options (al_db al') = db_type_options (al_db al)"
  using assms
proof (induction rows arbitrary: al existing created)
  case (Cons row rows)
  show ?case
  proof (cases "map_of existing (fst row) = None")
    case False
    then have "fst row \<in> ge_code ` {g \<in> set (al_geos al). ge_tenant_id g = t}"
      using Cons.prems by (auto simp: knows_codes_def map_of_eq_None_iff)
    with Cons.IH [OF Cons.prems, of created] False show ?thesis by (auto 0 4)
  next
    case True
    let ?g = "seeded_geo (al_db al) t existing row"
    let ?al = "al\<lparr>al_db := tick (al_db al), al_geos := al_geos al @ [?g]\<rparr>"
    have g: "ge_code ?g = fst row" "ge_tenant_id ?g = t" by (simp_all add: seeded_geo_def split: prod.split)
    have "fst row \<notin> ge_code ` {g \<in> set (al_geos al). ge_tenant_id g = t}"
      using True Cons.prems by (auto simp: knows_codes_def map_of_eq_None_iff)
    then have free: "\<not> list_ex (same_geo_code ?g) (al_geos al)" using g by (auto simp: list_ex_iff same_geo_code_def)
    have tenant: "{x \<in> set (al_geos ?al). ge_tenant_id x = t} = insert ?g {x \<in> set (al_geos al). ge_tenant_id x = t}" using g by auto
    have "knows_codes ?al t ((ge_code ?g, ge_id ?g) # existing)"
      using Cons.prems unfolding knows_codes_def tenant by auto
    from Cons.IH [OF this, of "Suc created"] obtain al' existing' n where ih:
      "seed_rows ?al t ((ge_code ?g, ge_id ?g) # existing) (Suc created) rows = Inr (al', existing', Suc created + n)" "n \<le> length rows"
      "knows_codes al' t existing'" "fst ` set rows \<subseteq> ge_code ` {g \<in> set (al_geos al'). ge_tenant_id g = t}"
      "\<exists>gs. al_geos al' = al_geos ?al @ gs \<and> length gs = n" "db_type_options (al_db al') = db_type_options (al_db ?al)" by blast
    have "seed_rows al t existing created (row # rows) = Inr (al', existing', created + Suc n)"
      using ih(1) True free by (simp add: Let_def)
    moreover have "\<exists>gs. al_geos al' = al_geos al @ gs \<and> length gs = Suc n" using ih(5) by auto
    moreover have "fst row \<in> ge_code ` {g \<in> set (al_geos al'). ge_tenant_id g = t}" using ih(5) g by force
    ultimately show ?thesis using ih(2-4,6)
      by (intro exI [of _ al'] exI [of _ existing'] exI [of _ "Suc n"]) (simp del: seed_rows.simps add: tick_fields)
  qed
qed simp

lemma seed_rows_known:
  assumes "knows_codes al t existing" and "fst ` set rows \<subseteq> ge_code ` {g \<in> set (al_geos al). ge_tenant_id g = t}"
  shows "seed_rows al t existing created rows = Inr (al, existing, created)"
  using assms(2)
proof (induction rows)
  case (Cons row rows)
  then have "fst row \<in> fst ` set existing" using assms(1) by (auto simp: knows_codes_def)
  then have "map_of existing (fst row) \<noteq> None" by (simp add: map_of_eq_None_iff)
  with Cons show ?case by auto
qed simp

text \<open>A shipped table is loaded once: the first load never fails on a code the workspace has, leaves its
  places as they are and adds what is missing; loading it again adds nothing.\<close>

theorem a_template_is_loaded_once:
  assumes "require_master_data_manage a = Inr ()"
  shows "\<exists>n al' al''. seed_geo_template rows al a = Inr ((n, length rows - n), al') \<and>
    (\<exists>gs. al_geos al' = al_geos al @ gs \<and> length gs = n) \<and> n \<le> length rows \<and>
    fst ` set rows \<subseteq> ge_code ` {g \<in> set (al_geos al'). ge_tenant_id g = ac_tenant_id a} \<and>
    seed_geo_template rows al' a = Inr ((0, length rows), al'') \<and> al_geos al'' = al_geos al'"
proof -
  let ?t = "ac_tenant_id a"
  from seed_rows_total [OF existing_codes_known, of al ?t 0 rows] obtain al' existing n where first:
    "seed_rows al ?t (existing_codes al ?t) 0 rows = Inr (al', existing, n)" "n \<le> length rows"
    "fst ` set rows \<subseteq> ge_code ` {g \<in> set (al_geos al'). ge_tenant_id g = ?t}"
    "\<exists>gs. al_geos al' = al_geos al @ gs \<and> length gs = n" by auto
  define db where "db = audit_place a ''geo.template_seeded'' ''geo'' (case map_of existing ''CN'' of None \<Rightarrow> [] | Some i \<Rightarrow> i) (al_db al')"
  have "seed_geo_template rows al a = Inr ((n, length rows - n), al'\<lparr>al_db := db\<rparr>)"
    using assms first(1) by (simp add: seed_geo_template_def db_def)
  moreover have "seed_rows (al'\<lparr>al_db := db\<rparr>) ?t (existing_codes (al'\<lparr>al_db := db\<rparr>) ?t) 0 rows =
      Inr (al'\<lparr>al_db := db\<rparr>, existing_codes (al'\<lparr>al_db := db\<rparr>) ?t, 0)"
    using first(3) by (intro seed_rows_known existing_codes_known) simp
  ultimately show ?thesis using first(2-4) assms by (intro exI [of _ n] exI) (auto simp: seed_geo_template_def)
qed

end
