(* ===== verification/Geography_History.thy ===== *)
theory Geography_History
  imports Geography_Laws
begin

text \<open>
  The places stay a hierarchy through any history of the handlers, as long as none is as deep as the walk's
  limit: the check for a loop walks the same path and is cut off with it.
\<close>

definition atlas_in_order :: "atlas \<Rightarrow> bool" where
  "atlas_in_order al \<longleftrightarrow> sound_atlas al \<and> acyclic (geo_links al)"

text \<open>No path is cut off.\<close>

definition shallow :: "atlas \<Rightarrow> bool" where
  "shallow al \<longleftrightarrow> list_all (\<lambda>g. length (path_of al g) < MAX_DEPTH) (al_geos al)"

definition geo_accepts :: "atlas \<Rightarrow> uuid \<Rightarrow> uuid \<Rightarrow> bool" where
  "geo_accepts al x p \<longleftrightarrow> (\<exists>t g s. g \<in> set (al_geos al) \<and> ge_id g = x \<and> db_uuid_in (al_db al) s = Some p \<and>
     geo_parent al t (Some s) (Some g) = Inr ())"

lemma checked_parent:
  assumes "geo_parent al t (Some s) current = Inr ()" and "db_uuid_in (al_db al) s = Some p" and "sound_atlas al"
  shows "\<exists>h. h \<in> set (al_geos al) \<and> ge_id h = p \<and> ge_tenant_id h = t \<and>
    (\<forall>g. current = Some g \<longrightarrow> ge_id g \<notin> ge_id ` set (path_of al h))"
proof -
  have "s \<noteq> []" using assms(2,3) by (auto simp: sound_atlas_def)
  with assms(1) obtain h where "geo_or_404 al t s = Inr h"
    and no_loop: "\<forall>g. current = Some g \<longrightarrow> ge_id g \<notin> ge_id ` set (geo_path al t s)"
    by (auto simp: geo_parent_def named_id_def result_simps)
  note h = geo_or_404_Inr [OF this(1)]
  with geo_path_start [OF assms(3), of h s] no_loop assms(2) show ?thesis by (auto simp: path_of_def)
qed

interpretation geo_tree: guarded_tree ge_id ge_parent_id al_geos "\<lambda>al. sound_atlas al \<and> shallow al" geo_accepts
proof
  fix al x p
  assume al: "sound_atlas al \<and> shallow al" and "geo_accepts al x p"
  then obtain t g s where g: "ge_id g = x" "db_uuid_in (al_db al) s = Some p" "geo_parent al t (Some s) (Some g) = Inr ()"
    by (auto simp: geo_accepts_def)
  from checked_parent [OF g(3,2)] al obtain h where h: "h \<in> set (al_geos al)" "ge_id h = p" "x \<notin> ge_id ` set (path_of al h)"
    using g(1) by auto
  moreover have "length (path_of al h) < MAX_DEPTH" using al h(1) by (simp add: shallow_def list_all_iff)
  ultimately show "(p, x) \<notin> (geo_links al)\<^sup>*" using path_is_closed [of al h x] al by auto
qed (simp add: sound_atlas_def)

subsection \<open>Adding a place\<close>

lemma added_geo_keeps:
  assumes ok: "atlas_in_order al" and id: "ge_id g = fresh_id (al_db al)"
    and parent: "\<And>p. ge_parent_id g = Some p \<Longrightarrow> \<exists>r \<in> set (al_geos al). ge_id r = p \<and> ge_tenant_id r = ge_tenant_id g"
    and al': "al_geos al' = al_geos al @ [g]" and db: "db_uuid_in (al_db al') = db_uuid_in (al_db al)"
      "db_uuids (al_db al') = db_uuids (al_db al)" "db_next (al_db al') = Suc (db_next (al_db al))"
  shows "atlas_in_order al'"
proof -
  note d = ok [unfolded atlas_in_order_def sound_atlas_def]
  have new: "ge_id g \<notin> ge_id ` set (al_geos al)" unfolding id using d reads_backD(3) by blast
  have "acyclic (geo_links al')"
    unfolding al' using acyclic_new_leaf [of ge_id ge_parent_id "al_geos al" ge_tenant_id g] d new parent by fastforce
  moreover have "parents_kept ge_id ge_parent_id ge_tenant_id (al_geos al')"
    unfolding al' using parents_kept_snoc [of ge_id ge_parent_id ge_tenant_id "al_geos al" g] d parent by simp
  moreover have "reads_back (tick (al_db al)) (insert (fresh_id (al_db al)) (ge_id ` set (al_geos al)))"
    using d reads_back_fresh by blast
  then have "reads_back (al_db al') (ge_id ` set (al_geos al'))"
    by (rule reads_back_same) (simp_all add: db tick_fields al' id)
  moreover have "distinct (map ge_id (al_geos al'))" using d new al' by simp
  ultimately show ?thesis using d db by (simp add: atlas_in_order_def sound_atlas_def)
qed

lemma id_column_Inr: "id_column db x = Inr i \<Longrightarrow> i = Some p \<Longrightarrow> \<exists>s. x = Some s \<and> db_uuid_in db s = Some p"
  by (auto simp: id_column_def result_simps split: option.splits)

lemma create_geo_keeps:
  assumes ok: "atlas_in_order al" and step: "create_geo al a p = Inr (g, al')"
  shows "atlas_in_order al'"
proof -
  from step obtain parent where check: "geo_parent al (ac_tenant_id a) (gq_parent_id p) None = Inr ()"
    and col: "id_column (al_db al) (gq_parent_id p) = Inr parent"
    and g: "g = \<lparr>ge_id = fresh_id (al_db al), ge_tenant_id = ac_tenant_id a, ge_code = strip (gq_code p), ge_type = gq_type p,
            ge_parent_id = parent, ge_status = gq_status p\<rparr>"
    and al': "al' = al\<lparr>al_db := audit_place a ''geo.created'' ''geo'' (ge_id g) (tick (al_db al)), al_geos := al_geos al @ [g]\<rparr>"
    by (auto simp: create_geo_def Let_def bindE_Inr_iff)
  show ?thesis
  proof (rule added_geo_keeps [OF ok, of g])
    fix q assume "ge_parent_id g = Some q"
    with g id_column_Inr [OF col] obtain s where s: "gq_parent_id p = Some s" "db_uuid_in (al_db al) s = Some q" by auto
    from checked_parent [OF check [unfolded s(1)] s(2)] ok
    show "\<exists>r \<in> set (al_geos al). ge_id r = q \<and> ge_tenant_id r = ge_tenant_id g"
      by (auto simp: g atlas_in_order_def)
  qed (simp_all add: g al' audit_place_def record_audit_fields tick_fields)
qed

lemma seed_rows_keeps:
  assumes "seed_rows al t existing created rows = Inr (al', existing', created')" and "atlas_in_order al" and "knows_codes al t existing"
  shows "atlas_in_order al' \<and> db_uuid_in (al_db al') = db_uuid_in (al_db al)"
  using assms
proof (induction al t existing created rows rule: seed_rows.induct)
  case (2 al t existing created row rows)
  show ?case
  proof (cases "map_of existing (fst row) = None")
    case False
    with 2 show ?thesis by simp
  next
    case True
    let ?g = "seeded_geo (al_db al) t existing row"
    let ?al = "al\<lparr>al_db := tick (al_db al), al_geos := al_geos al @ [?g]\<rparr>"
    have g: "ge_id ?g = fresh_id (al_db al)" "ge_tenant_id ?g = t"
      "ge_parent_id ?g = (if named_id (snd (snd row)) then map_of existing (the (snd (snd row))) else None)"
      by (simp_all add: seeded_geo_def split: prod.split)
    from "2.prems"(1) True have free: "\<not> list_ex (same_geo_code ?g) (al_geos al)"
      and rest: "seed_rows ?al t ((ge_code ?g, ge_id ?g) # existing) (Suc created) rows = Inr (al', existing', created')"
      by (auto simp: Let_def split: if_splits)
    have "atlas_in_order ?al"
    proof (rule added_geo_keeps [OF "2.prems"(2), of ?g])
      fix p assume "ge_parent_id ?g = Some p"
      then have "map_of existing (the (snd (snd row))) = Some p" unfolding g(3) by (simp split: if_splits)
      from imageI [OF map_of_SomeD [OF this], of snd] have "p \<in> snd ` set existing" by simp
      moreover have "snd ` set existing \<subseteq> ge_id ` {x \<in> set (al_geos al). ge_tenant_id x = t}"
        using "2.prems"(3) by (simp add: knows_codes_def)
      ultimately obtain r where "r \<in> set (al_geos al)" "ge_tenant_id r = t" "ge_id r = p" by auto
      then show "\<exists>r \<in> set (al_geos al). ge_id r = p \<and> ge_tenant_id r = ge_tenant_id ?g" unfolding g(2) by blast
    qed (simp_all add: g tick_fields)
    moreover have "{x \<in> set (al_geos ?al). ge_tenant_id x = t} = insert ?g {x \<in> set (al_geos al). ge_tenant_id x = t}" using g by auto
    then have "knows_codes ?al t ((ge_code ?g, ge_id ?g) # existing)" using "2.prems"(3) unfolding knows_codes_def by auto
    moreover have absent: "\<not> map_of existing (fst row) \<noteq> None" using True by simp
    moreover have inr: "(if list_ex (same_geo_code ?g) (al_geos al) then Inl IntegrityError else Inr ()) = (Inr () :: unit result)"
      using free by simp
    ultimately have "atlas_in_order al' \<and> db_uuid_in (al_db al') = db_uuid_in (al_db ?al)"
      by (intro "2.IH"(2) [OF absent refl inr rest])
    then show ?thesis by (simp add: tick_fields)
  qed
qed simp

subsection \<open>Moving a place\<close>

lemma moved_geo_keeps:
  assumes ok: "atlas_in_order al" and shallow: "shallow al" and c: "c \<in> set (al_geos al)"
    and f: "\<And>r. ge_id (f r) = ge_id r \<and> ge_tenant_id (f r) = ge_tenant_id r"
    and parent: "\<And>p. ge_parent_id (f c) = Some p \<Longrightarrow> ge_parent_id c = Some p \<or> geo_accepts al (ge_id c) p \<and>
      (\<exists>r \<in> set (al_geos al). ge_id r = p \<and> ge_tenant_id r = ge_tenant_id c)"
    and al': "al_geos al' = update_rows (\<lambda>r. ge_id r = ge_id c) f (al_geos al)" and db: "db_uuid_in (al_db al') = db_uuid_in (al_db al)"
      "db_uuids (al_db al') = db_uuids (al_db al)" "db_next (al_db al') = db_next (al_db al)"
  shows "atlas_in_order al'"
proof -
  note d = ok [unfolded atlas_in_order_def sound_atlas_def]
  have only: "r = c" if "r \<in> set (al_geos al)" "ge_id r = ge_id c" for r
    using that c d by (auto simp: distinct_map inj_on_def)
  have ids: "map ge_id (al_geos al') = map ge_id (al_geos al)" unfolding al' using f by (simp add: map_update_rows_same)
  then have "ge_id ` set (al_geos al') = ge_id ` set (al_geos al)" by (metis set_map)
  then have "reads_back (al_db al') (ge_id ` set (al_geos al'))" using d reads_back_same [OF _ db] by auto
  moreover have "acyclic (geo_links al')"
  proof (rule geo_tree.moved_keeps_acyclic [of al f "ge_id c"])
    show "ge_parent_id r = Some p \<or> geo_accepts al (ge_id c) p"
      if "r \<in> set (al_geos al)" "ge_id r = ge_id c" "ge_parent_id (f r) = Some p" for r p
      using that only parent by blast
  qed (use ok shallow f al' in \<open>simp_all add: atlas_in_order_def\<close>)
  moreover have kept: "parents_kept ge_id ge_parent_id ge_tenant_id (al_geos al)" using d by blast
  have "parents_kept ge_id ge_parent_id ge_tenant_id (update_rows (\<lambda>r. ge_id r = ge_id c) f (al_geos al))"
  proof (rule parents_kept_update [OF kept])
    fix r p assume r: "r \<in> set (al_geos al)" "ge_id r = ge_id c" and p: "ge_parent_id (f r) = Some p"
    from only [OF r] have [simp]: "r = c" .
    from p have "ge_parent_id (f c) = Some p" by simp
    then have "ge_parent_id c = Some p \<or> (\<exists>r \<in> set (al_geos al). ge_id r = p \<and> ge_tenant_id r = ge_tenant_id c)"
      using parent by blast
    then show "\<exists>r' \<in> set (al_geos al). ge_id r' = p \<and> ge_tenant_id r' = ge_tenant_id r"
      using kept c unfolding parents_kept_def by auto
  qed (rule f)
  ultimately show ?thesis using d ids db al' by (simp add: atlas_in_order_def sound_atlas_def)
qed

lemma update_geo_keeps:
  assumes ok: "atlas_in_order al" "shallow al" and step: "update_geo al a s u = Inr (g', al')"
  shows "atlas_in_order al'"
proof -
  from step obtain g parent where g: "geo_or_404 al (ac_tenant_id a) s = Inr g"
    and check: "(case gu_parent_id u of None \<Rightarrow> Inr () | Some p \<Rightarrow> geo_parent al (ac_tenant_id a) p (Some g)) = Inr ()"
    and col: "(case gu_parent_id u of None \<Rightarrow> Inr None | Some p \<Rightarrow> bindE (id_column (al_db al) p) (\<lambda>i. Inr (Some i))) = Inr parent"
    and al': "al' = al\<lparr>al_db := audit_place a ''geo.updated'' ''geo'' (ge_id g) (al_db al),
        al_geos := update_rows (\<lambda>x. ge_id x = ge_id g) (updated_geo u parent) (al_geos al)\<rparr>"
    by (auto simp: update_geo_def Let_def bindE_Inr_iff)
  note r = geo_or_404_Inr [OF g]
  show ?thesis
  proof (rule moved_geo_keeps [OF ok, of g "updated_geo u parent"])
    fix p assume p: "ge_parent_id (updated_geo u parent g) = Some p"
    show "ge_parent_id g = Some p \<or> geo_accepts al (ge_id g) p \<and> (\<exists>r \<in> set (al_geos al). ge_id r = p \<and> ge_tenant_id r = ge_tenant_id g)"
    proof (cases "gu_parent_id u")
      case (Some x)
      with col p obtain i where "id_column (al_db al) x = Inr i" "i = Some p" by (auto simp: updated_geo_def result_simps)
      from id_column_Inr [OF this] obtain q where q: "x = Some q" "db_uuid_in (al_db al) q = Some p" by blast
      from check Some q have c: "geo_parent al (ac_tenant_id a) (Some q) (Some g) = Inr ()" by simp
      with r q(2) have "geo_accepts al (ge_id g) p" by (auto simp: geo_accepts_def)
      with checked_parent [OF c q(2)] ok(1) r show ?thesis by (auto simp: atlas_in_order_def)
    qed (use p col in \<open>simp add: updated_geo_def\<close>)
  qed (use r in \<open>simp_all add: al' updated_geo_def audit_place_def record_audit_fields\<close>)
qed

subsection \<open>Any history\<close>

datatype atlas_event =
    Add_Geo geo_request | Change_Geo string geo_update | Load_Provinces
  | Add_Territory territory_request | Change_Territory string territory_update
  | Cover string string | Uncover string
  | Add_Member member_request | Change_Member string member_update | Drop_Member string

fun atlas_step :: "atlas \<Rightarrow> actor \<Rightarrow> atlas_event \<Rightarrow> atlas result" where
  "atlas_step al a (Add_Geo p) = bindE (create_geo al a p) (\<lambda>(_, al'). Inr al')"
| "atlas_step al a (Change_Geo s u) = bindE (update_geo al a s u) (\<lambda>(_, al'). Inr al')"
| "atlas_step al a Load_Provinces = bindE (seed_geo_template CN_PROVINCES al a) (\<lambda>(_, al'). Inr al')"
| "atlas_step al a (Add_Territory p) = bindE (create_territory al a p) (\<lambda>(_, al'). Inr al')"
| "atlas_step al a (Change_Territory s u) = bindE (update_territory al a s u) (\<lambda>(_, al'). Inr al')"
| "atlas_step al a (Cover t g) = bindE (create_territory_geo al a t g) (\<lambda>(_, al'). Inr al')"
| "atlas_step al a (Uncover s) = delete_territory_geo al a s"
| "atlas_step al a (Add_Member p) = bindE (create_territory_member al a p) (\<lambda>(_, al'). Inr al')"
| "atlas_step al a (Change_Member s u) = bindE (update_territory_member al a s u) (\<lambda>(_, al'). Inr al')"
| "atlas_step al a (Drop_Member s) = delete_territory_member al a s"

definition after :: "atlas \<Rightarrow> actor \<times> atlas_event \<Rightarrow> atlas" where
  "after al = (\<lambda>(a, e). case atlas_step al a e of Inl _ \<Rightarrow> al | Inr al' \<Rightarrow> al')"

text \<open>Every state a history passes through, the last included.\<close>

fun passes :: "atlas \<Rightarrow> (actor \<times> atlas_event) list \<Rightarrow> atlas list" where
  "passes al [] = [al]"
| "passes al (e # es) = al # passes (after al e) es"

lemma territory_calls_leave_geos:
  assumes "atlas_step al a e = Inr al'" and "\<forall>p. e \<noteq> Add_Geo p" and "\<forall>s u. e \<noteq> Change_Geo s u" and "e \<noteq> Load_Provinces"
  shows "al_geos al' = al_geos al \<and> db_uuid_in (al_db al') = db_uuid_in (al_db al) \<and> db_uuids (al_db al') = db_uuids (al_db al) \<and>
    db_next (al_db al) \<le> db_next (al_db al')"
  using assms
  by (cases e)
     (auto simp: create_territory_def update_territory_def create_territory_geo_def delete_territory_geo_def create_territory_member_def
        update_territory_member_def delete_territory_member_def Let_def bindE_Inr_iff audit_place_def record_audit_fields tick_fields)

lemma atlas_step_keeps:
  assumes ok: "atlas_in_order al" "shallow al" and step: "atlas_step al a e = Inr al'"
  shows "atlas_in_order al'"
proof (cases e)
  case (Add_Geo p)
  with step ok create_geo_keeps show ?thesis by (auto simp: bindE_Inr_iff)
next
  case (Change_Geo s u)
  with step ok update_geo_keeps show ?thesis by (auto simp: bindE_Inr_iff)
next
  case Load_Provinces
  with step obtain al0 existing n where seeded: "seed_rows al (ac_tenant_id a) (existing_codes al (ac_tenant_id a)) 0 CN_PROVINCES = Inr (al0, existing, n)"
    and al': "\<exists>w. al' = al0\<lparr>al_db := audit_place a ''geo.template_seeded'' ''geo'' w (al_db al0)\<rparr>"
    by (auto simp: seed_geo_template_def bindE_Inr_iff)
  from seed_rows_keeps [OF seeded ok(1) existing_codes_known] have "atlas_in_order al0" ..
  with al' reads_back_same [of "al_db al0"] show ?thesis
    by (auto simp: atlas_in_order_def sound_atlas_def audit_place_def record_audit_fields)
qed (use territory_calls_leave_geos [OF step] ok(1) in
     \<open>auto simp: atlas_in_order_def sound_atlas_def reads_back_def\<close>)

lemma passes_in_order:
  assumes "atlas_in_order al" and "list_all shallow (passes al es)"
  shows "list_all atlas_in_order (passes al es)"
  using assms
proof (induction al es rule: passes.induct)
  case (2 al e es)
  have "atlas_in_order (after al e)"
    using "2.prems" atlas_step_keeps [of al "fst e" "snd e"] by (cases e) (auto simp: after_def split: sum.split)
  with 2 show ?case by simp
qed simp

text \<open>C28: Whatever is done to places, territories and their members, the places form a hierarchy: none lies in
  itself, each lies in one that lies in none, and every parent is a place of the same workspace, as long as
  no place has ever been 32 levels deep.\<close>

theorem places_stay_a_hierarchy:
  assumes "al_geos al = []" and "reads_back (al_db al) {}" and "db_uuid_in (al_db al) [] = None"
    and "list_all shallow (passes al es)" and "al' \<in> set (passes al es)" and "g \<in> set (al_geos al')"
  shows "(ge_id g, ge_id g) \<notin> (geo_links al')\<^sup>+ \<and>
    (\<exists>r \<in> set (al_geos al'). (ge_id g, ge_id r) \<in> (geo_links al')\<^sup>* \<and> ge_parent_id r = None) \<and>
    parents_kept ge_id ge_parent_id ge_tenant_id (al_geos al')"
proof -
  have "atlas_in_order al" using assms(1-3) by (simp add: atlas_in_order_def sound_atlas_def parents_kept_def acyclic_def)
  from passes_in_order [OF this assms(4)] assms(5) have "atlas_in_order al'" by (auto simp: list_all_iff)
  then have a: "acyclic (geo_links al')" and p: "parents_kept ge_id ge_parent_id ge_tenant_id (al_geos al')"
    by (simp_all add: atlas_in_order_def sound_atlas_def)
  with geo_tree.has_a_root [OF a p assms(6)] show ?thesis by (simp add: acyclic_def)
qed

end
