(* ===== verification/Geography_Examples.thy ===== *)
theory Geography_Examples
  imports Geography_History
begin

text \<open>A small map with its territories, and what the checks let through.\<close>

definition mapper :: actor where
  "mapper = with_grants [''master_data.manage''] blank_actor"

definition blank_atlas :: atlas where
  "blank_atlas = \<lparr>al_db = blank_db\<lparr>db_uuid_in := (\<lambda>s. if s = [] then None else Some s), db_uuids := (\<lambda>n. replicate (Suc n) CHR ''x'')\<rparr>,
     al_geos = [], al_territories = [], al_coverage = [], al_members = []\<rparr>"

definition place :: "string \<Rightarrow> string \<Rightarrow> string option \<Rightarrow> atlas_event" where
  "place code type parent = Add_Geo \<lparr>gq_code = code, gq_type = type, gq_parent_id = parent, gq_status = ''active''\<rparr>"

definition under :: "string \<Rightarrow> geo_update" where
  "under parent = \<lparr>gu_name = None, gu_type = None, gu_parent_id = Some (Some parent), gu_status = None\<rparr>"

definition sales_region :: "string \<Rightarrow> atlas_event" where
  "sales_region code = Add_Territory \<lparr>tq_code = code, tq_parent_id = None, tq_manager_id = None, tq_status = ''active''\<rparr>"

text \<open>A country, a province, a city; the country moved into the city, which is refused; two territories, one for
  the country and one for the province.\<close>

definition map_day :: "(actor \<times> atlas_event) list" where
  "map_day = map (Pair mapper) [place ''CN'' ''country'' None, place ''330000'' ''province'' (Some ''xx''),
     place ''330100'' ''city'' (Some ''xxx''), Change_Geo ''xx'' (under ''xxxx''),
     sales_region ''china'', sales_region ''east'', Cover ''xxxxx'' ''xx'', Cover ''xxxxxx'' ''xxx'']"

definition mapped_atlas :: atlas where
  "mapped_atlas = last (passes blank_atlas map_day)"

lemma map_day_shallow: "list_all shallow (passes blank_atlas map_day)"
  by code_simp

lemma blank_atlas_reads: "reads_back (al_db blank_atlas) {}" "db_uuid_in (al_db blank_atlas) [] = None"
  by (auto simp: reads_back_def blank_atlas_def blank_db_def inj_on_def dest: arg_cong [where f = length])

lemma blank_atlas_in_order: "atlas_in_order blank_atlas"
  using blank_atlas_reads by (simp add: atlas_in_order_def sound_atlas_def parents_kept_def acyclic_def blank_atlas_def)

lemma mapped_in_passes: "mapped_atlas \<in> set (passes blank_atlas map_day)"
  unfolding mapped_atlas_def by (rule last_in_set) (simp add: map_day_def)

lemma mapped_atlas_in_order: "atlas_in_order mapped_atlas"
  using passes_in_order [OF blank_atlas_in_order map_day_shallow] mapped_in_passes by (auto simp: list_all_iff)

lemma mapped_geos:
  "map (\<lambda>g. (ge_id g, ge_tenant_id g, ge_parent_id g)) (al_geos mapped_atlas) =
     [(''xx'', ''t'', None), (''xxx'', ''t'', Some ''xx''), (''xxxx'', ''t'', Some ''xxx'')]"
  by code_simp

lemma mapped_city: "\<exists>g. geo_or_404 mapped_atlas ''t'' ''xxxx'' = Inr g \<and> g \<in> set (al_geos mapped_atlas) \<and> ge_id g = ''xxxx''"
proof -
  have "is_ok (geo_or_404 mapped_atlas ''t'' ''xxxx'')" by code_simp
  then obtain g where g: "geo_or_404 mapped_atlas ''t'' ''xxxx'' = Inr g" by (auto simp: is_ok_iff)
  note f = geo_or_404_Inr [OF g]
  have "db_uuid_in (al_db mapped_atlas) (ge_id g) = Some (ge_id g)"
    using mapped_atlas_in_order f stored_id(1) by (auto simp: atlas_in_order_def)
  moreover have "case db_uuid_in (al_db mapped_atlas) ''xxxx'' of None \<Rightarrow> False | Some i \<Rightarrow> i = ''xxxx''" by code_simp
  ultimately show ?thesis using g f by (auto split: option.splits)
qed

theorem places_stay_a_hierarchy_witness:
  "\<exists>g \<in> set (al_geos mapped_atlas). ge_id g = ''xxxx'' \<and> (ge_id g, ge_id g) \<notin> (geo_links mapped_atlas)\<^sup>+"
proof -
  from mapped_city obtain g where g: "g \<in> set (al_geos mapped_atlas)" "ge_id g = ''xxxx''" by blast
  have "al_geos blank_atlas = []" by (simp add: blank_atlas_def)
  from places_stay_a_hierarchy [OF this blank_atlas_reads map_day_shallow mapped_in_passes g(1)] g show ?thesis by blast
qed

theorem a_path_climbs_to_the_root_witness:
  "map ge_id (geo_path mapped_atlas ''t'' ''xxxx'') = [''xxxx'', ''xxx'', ''xx''] \<and>
   distinct (map ge_id (geo_path mapped_atlas ''t'' ''xxxx'')) \<and> climbs (geo_path mapped_atlas ''t'' ''xxxx'')"
proof -
  from mapped_city obtain g where g: "geo_or_404 mapped_atlas ''t'' ''xxxx'' = Inr g" by blast
  have "sound_atlas mapped_atlas" using mapped_atlas_in_order by (simp add: atlas_in_order_def)
  from a_path_climbs_to_the_root [OF this g]
  have "distinct (map ge_id (geo_path mapped_atlas ''t'' ''xxxx''))" "climbs (geo_path mapped_atlas ''t'' ''xxxx'')" by metis+
  moreover have "map ge_id (geo_path mapped_atlas ''t'' ''xxxx'') = [''xxxx'', ''xxx'', ''xx'']" by code_simp
  ultimately show ?thesis by blast
qed

text \<open>The city is in the province's territory, not in the country's.\<close>

lemma the_city_is_in_the_east:
  "map_option te_code (rz_territory (resolve_territory mapped_atlas ''t'' ''xxxx'')) = Some ''east'' \<and>
   map (\<lambda>m. (te_code (mt_territory m), mt_depth m)) (rz_matches (resolve_territory mapped_atlas ''t'' ''xxxx'')) = [(''east'', 1), (''china'', 2)]"
  by code_simp

theorem a_template_is_loaded_once_witness:
  "\<exists>al' al''. seed_geo_template [(''CN'', ''country'', None), (''330000'', ''province'', Some ''CN'')] blank_atlas mapper = Inr ((2, 0), al') \<and>
     seed_geo_template [(''CN'', ''country'', None), (''330000'', ''province'', Some ''CN'')] al' mapper = Inr ((0, 2), al'') \<and>
     length (al_geos al'') = 2"
proof -
  let ?rows = "[(''CN'', ''country'', None), (''330000'', ''province'', Some ''CN'')] :: (string \<times> string \<times> string option) list"
  have "case require_master_data_manage mapper of Inl _ \<Rightarrow> False | Inr u \<Rightarrow> True" by code_simp
  then have "require_master_data_manage mapper = Inr ()" by (simp split: sum.splits)
  from a_template_is_loaded_once [OF this, of ?rows blank_atlas] obtain n al' al'' where s:
    "seed_geo_template ?rows blank_atlas mapper = Inr ((n, length ?rows - n), al')"
    "\<exists>gs. al_geos al' = al_geos blank_atlas @ gs \<and> length gs = n"
    "seed_geo_template ?rows al' mapper = Inr ((0, length ?rows), al'')" "al_geos al'' = al_geos al'" by blast
  have "case seed_geo_template ?rows blank_atlas mapper of Inl _ \<Rightarrow> False | Inr (c, _) \<Rightarrow> fst c = 2" by code_simp
  with s(1) have "n = 2" by simp
  with s show ?thesis by (auto simp: blank_atlas_def)
qed

subsection \<open>What the checks let through\<close>

text \<open>A tower of 33 places: the path of the highest floor is cut before the ground, so the ground may be moved under it.\<close>

definition floor_geos :: "geo list" where
  "floor_geos = map (\<lambda>(c, below). \<lparr>ge_id = [c], ge_tenant_id = ''t'', ge_code = [c], ge_type = ''region'', ge_parent_id = below,
     ge_status = ''active''\<rparr>)
     (let floors = ''abcdefghijklmnopqrstuvwxyzABCDEFG'' in zip floors (None # map (\<lambda>c. Some [c]) floors))"

lemma a_tower_closes_a_loop:
  "(case update_geo (blank_atlas\<lparr>al_geos := floor_geos\<rparr>) mapper ''a'' (under ''G'') of
      Inl _ \<Rightarrow> False
    | Inr (g, al') \<Rightarrow> ge_parent_id g = Some ''G'' \<and> ge_parent_id (last (al_geos al')) = Some ''F'')"
  by code_simp

text \<open>Under a floor lower the loop is seen.\<close>

lemma a_lower_floor_is_refused: "\<not> is_ok (update_geo (blank_atlas\<lparr>al_geos := floor_geos\<rparr>) mapper ''a'' (under ''F''))"
  by code_simp

text \<open>A territory's parent is compared with itself only: two territories lie in each other.\<close>

lemma two_territories_lie_in_each_other:
  "(let inside = (\<lambda>p. \<lparr>tu_name = None, tu_parent_id = Some (Some p), tu_manager_id = None, tu_status = None\<rparr>);
        al = last (passes mapped_atlas (map (Pair mapper) [Change_Territory ''xxxxx'' (inside ''xxxxxx''), Change_Territory ''xxxxxx'' (inside ''xxxxx'')]))
    in map (\<lambda>t. (te_id t, te_parent_id t)) (al_territories al) = [(''xxxxx'', Some ''xxxxxx''), (''xxxxxx'', Some ''xxxxx'')])"
  by code_simp

text \<open>An empty type is not looked up in the vocabulary and is stored.\<close>

lemma an_empty_type_is_stored:
  "(case update_geo mapped_atlas mapper ''xx'' \<lparr>gu_name = None, gu_type = Some (Some []), gu_parent_id = None, gu_status = None\<rparr> of
      Inl _ \<Rightarrow> False | Inr (g, _) \<Rightarrow> ge_type g = [])"
  by code_simp

end
