(* ===== verification/Contracts.thy ===== *)
theory Contracts
  imports Parent_Walks Numbering
begin

text \<open>
  Contracts (\<open>app/api/contracts.py\<close>): a document with a side, at most one counterparty, a parent it supplements, lines,
  originals and located clauses. The columns the shared document verbs work on are the contract's \<open>row\<close>
  (\<open>row_number\<close> the contract number, \<open>row_name\<close> the counterparty's name snapshot); the further columns stand beside it
  in \<open>contract_more\<close>. Titles, signatories, summaries, remarks and custom fields are left out, as are the parties copied
  from a deal. Days are integers; an id of a request body may be spelled in any way \<open>db_uuid_in\<close> reads.
\<close>

record contract_more =
  cm_id :: uuid
  cm_type :: string
  cm_parent_id :: "uuid option"
  cm_opportunity_id :: "uuid option"
  cm_from :: "int option"
  cm_to :: "int option"
  cm_signed_at :: "timestamp option"
  cm_upstream :: "uuid option"

record contract_item =
  ki_id :: uuid
  ki_tenant_id :: uuid
  ki_contract_id :: uuid
  ki_line_no :: "nat option"
  ki_product_id :: "uuid option"
  ki_description :: "string option"
  ki_quantity :: "money option"
  ki_unit_price :: "money option"

record contract_document =
  kd_id :: uuid
  kd_tenant_id :: uuid
  kd_contract_id :: uuid
  kd_attachment_id :: uuid
  kd_type :: string

record contract_term =
  kt_id :: uuid
  kt_tenant_id :: uuid
  kt_contract_id :: uuid
  kt_type :: string
  kt_content :: string
  kt_summary :: "string option"
  kt_document_id :: "uuid option"

text \<open>Attachments and products as ids with their workspace; \<open>rg_contract_of\<close> is the column \<open>contract_id\<close> of orders,
  invoices and payments, \<open>rg_product_of\<close> the column \<open>product_id\<close> of order lines.\<close>

record contract_register =
  rg_db :: db
  rg_more :: "contract_more list"
  rg_items :: "contract_item list"
  rg_documents :: "contract_document list"
  rg_terms :: "contract_term list"
  rg_attachments :: "(uuid \<times> uuid) list"
  rg_products :: "(uuid \<times> uuid) list"
  rg_contract_of :: "((model \<times> uuid) \<times> uuid) list"
  rg_product_of :: "(uuid \<times> uuid) list"

definition more_of :: "contract_register \<Rightarrow> uuid \<Rightarrow> contract_more option" where
  "more_of rg i = find_row (\<lambda>m. cm_id m = i) (rg_more rg)"

definition parent_of :: "contract_register \<Rightarrow> uuid \<Rightarrow> uuid option" where
  "parent_of rg i = Option.bind (more_of rg i) cm_parent_id"

definition rg_tick :: "contract_register \<Rightarrow> contract_register" where
  "rg_tick rg = rg\<lparr>rg_db := tick (rg_db rg)\<rparr>"

definition named_row :: "contract_register \<Rightarrow> model \<Rightarrow> uuid \<Rightarrow> string \<Rightarrow> row result" where
  "named_row rg m tenant_id s =
     (case db_uuid_in (rg_db rg) s of
        None \<Rightarrow> Inl (HttpError 404 ''not_found'') | Some i \<Rightarrow> get_scoped_or_404 (rg_db rg) m tenant_id i)"

definition named_document :: "contract_register \<Rightarrow> model \<Rightarrow> uuid \<Rightarrow> string \<Rightarrow> row result" where
  "named_document rg m tenant_id s =
     (case db_uuid_in (rg_db rg) s of
        None \<Rightarrow> Inl (HttpError 404 ''not_found'') | Some i \<Rightarrow> get_active_document_or_404 (rg_db rg) m tenant_id i)"

definition attachment_or_404 :: "contract_register \<Rightarrow> uuid \<Rightarrow> string \<Rightarrow> (uuid \<times> uuid) result" where
  "attachment_or_404 rg tenant_id s = scoped_row (rg_db rg) fst snd (rg_attachments rg) tenant_id s"

definition contract_product_or_404 :: "contract_register \<Rightarrow> uuid \<Rightarrow> string \<Rightarrow> (uuid \<times> uuid) result" where
  "contract_product_or_404 rg tenant_id s = scoped_row (rg_db rg) fst snd (rg_products rg) tenant_id s"

text \<open>\<open>if payload.x: get_scoped_or_404(...)\<close> for an id that may be absent: the id stored.\<close>

definition if_given :: "string option \<Rightarrow> (string \<Rightarrow> uuid result) \<Rightarrow> uuid option result" where
  "if_given x fetch = (case x of None \<Rightarrow> Inr None | Some s \<Rightarrow>
     if s = [] then Inl (HttpError 500 ''DataError'') else bindE (fetch s) (\<lambda>i. Inr (Some i)))"

subsection \<open>Sides\<close>

definition SIDES :: "string list" where
  "SIDES = [''purchase'', ''sales'']"

definition sides_read :: "actor \<Rightarrow> string list" where
  "sides_read a = filter (\<lambda>side. has_permission a ''contract.manage'' (Some side)) SIDES"

definition require_reader :: "actor \<Rightarrow> string list result" where
  "require_reader a = bindE (ensure (sides_read a \<noteq> []) 403 ''contracts_are_read_by_the_desk_that_files_them'') (\<lambda>_. Inr (sides_read a))"

text \<open>The row filter: for each side not read, only the other side's rows.\<close>

definition restrict_to_sides :: "string list \<Rightarrow> row list \<Rightarrow> row list" where
  "restrict_to_sides visible contracts =
     (if list_all (\<lambda>side. side \<in> set visible) SIDES then contracts
      else fold (\<lambda>hidden rs. if hidden \<in> set visible then rs else filter (\<lambda>r. row_side r = hd (filter (\<lambda>s. s \<noteq> hidden) SIDES)) rs)
             SIDES contracts)"

definition require_contract_access :: "contract_register \<Rightarrow> actor \<Rightarrow> string \<Rightarrow> row result" where
  "require_contract_access rg a s =
     bindE (named_document rg Contract (ac_tenant_id a) s) (\<lambda>contract.
     bindE (family_of Contract) (\<lambda>family.
     bindE (require_family_permission a family contract) (\<lambda>_. Inr contract)))"

definition agreement_frozen :: "contract_register \<Rightarrow> row \<Rightarrow> bool result" where
  "agreement_frozen rg contract =
     bindE (get_builtin_machine (db_definitions (rg_db rg)) (row_tenant_id contract) ''contract'') (\<lambda>machine.
     bindE (editable_states machine ''contract'') (\<lambda>editable. Inr (row_status contract \<notin> set editable)))"

definition side_of :: "string option \<Rightarrow> string option \<Rightarrow> string \<Rightarrow> string" where
  "side_of vendor_id customer_id stated = (if given vendor_id then ''purchase'' else if given customer_id then ''sales'' else stated)"

text \<open>\<open>merchant or vendor.name\<close>\<close>

definition or_name :: "string option \<Rightarrow> row \<Rightarrow> string" where
  "or_name snapshot party = (if given snapshot then the snapshot else row_name party)"

subsection \<open>The chain of supplements\<close>

text \<open>\<open>while current is not None and current.id not in seen\<close>: \<open>db.get\<close> looks at no tenant and no deletion.\<close>

function chain_walk :: "contract_register \<Rightarrow> uuid option \<Rightarrow> uuid list \<Rightarrow> uuid option \<Rightarrow> unit result" where
  "chain_walk rg child seen current =
     (case current of
        None \<Rightarrow> Inr ()
      | Some i \<Rightarrow>
          if i \<in> set seen then Inr ()
          else if child = Some i then Inl (HttpError 422 ''a_contract_cannot_supplement_itself'')
          else chain_walk rg child (i # seen) (Option.bind (parent_of rg i) (\<lambda>p. map_option row_id (get_row (rg_db rg) Contract p))))"
  by pat_completeness auto

termination
proof (relation "measure (\<lambda>(rg, _, seen, current). case current of None \<Rightarrow> 0
    | Some i \<Rightarrow> Suc (card (insert i (row_id ` set (db_rows (rg_db rg))) - set seen)))", goal_cases)
  case (2 rg child seen current i)
  let ?ids = "row_id ` set (db_rows (rg_db rg))"
  let ?next = "Option.bind (parent_of rg i) (\<lambda>p. map_option row_id (get_row (rg_db rg) Contract p))"
  show ?case
  proof (cases ?next)
    case (Some j)
    then have "j \<in> ?ids" by (auto simp: bind_eq_Some_conv dest: get_row_Some)
    then have "insert j ?ids - set (i # seen) \<subseteq> (insert i ?ids - set seen) - {i}" by auto
    moreover have "i \<in> insert i ?ids - set seen" using 2(2) by simp
    ultimately have "insert j ?ids - set (i # seen) \<subset> insert i ?ids - set seen" by blast
    then show ?thesis using Some 2(1) by (simp add: psubset_card_mono)
  qed (use 2(1) in simp)
qed simp

declare chain_walk.simps [simp del]

definition require_contract_parent :: "contract_register \<Rightarrow> uuid \<Rightarrow> string \<Rightarrow> string \<Rightarrow> uuid option \<Rightarrow> row result" where
  "require_contract_parent rg tenant_id side parent child_id =
     bindE (named_document rg Contract tenant_id parent) (\<lambda>p.
     bindE (ensure (row_side p = side) 422 ''a_contract_supplements_one_of_its_own_side'') (\<lambda>_.
     bindE (chain_walk rg child_id [] (Some (row_id p))) (\<lambda>_. Inr p)))"

subsection \<open>Lines, originals and clauses\<close>

record contract_item_request =
  iq_line_no :: "nat option"
  iq_product_id :: "string option"
  iq_description :: "string option"
  iq_quantity :: "money option"
  iq_unit_price :: "money option"

text \<open>\<open>_names_something\<close> of the request model.\<close>

definition names_something :: "contract_item_request \<Rightarrow> bool" where
  "names_something q \<longleftrightarrow> \<not> (iq_product_id q = None \<and> strip (case iq_description q of None \<Rightarrow> [] | Some s \<Rightarrow> s) = [])"

definition build_contract_item ::
    "contract_register \<Rightarrow> uuid \<Rightarrow> uuid \<Rightarrow> contract_item_request \<Rightarrow> nat option \<Rightarrow> (contract_item \<times> contract_register) result" where
  "build_contract_item rg tenant_id contract_id q index =
     bindE (if_given (iq_product_id q) (\<lambda>s. bindE (contract_product_or_404 rg tenant_id s) (\<lambda>p. Inr (fst p)))) (\<lambda>product.
     let item = \<lparr>ki_id = fresh_id (rg_db rg), ki_tenant_id = tenant_id, ki_contract_id = contract_id,
           ki_line_no = (if iq_line_no q \<noteq> None then iq_line_no q else index), ki_product_id = product,
           ki_description = iq_description q, ki_quantity = iq_quantity q, ki_unit_price = iq_unit_price q\<rparr>
     in Inr (item, (rg_tick rg)\<lparr>rg_items := rg_items rg @ [item]\<rparr>))"

record contract_file_request =
  fq_attachment_id :: string
  fq_type :: string

definition build_contract_document ::
    "contract_register \<Rightarrow> uuid \<Rightarrow> uuid \<Rightarrow> contract_file_request \<Rightarrow> (contract_document \<times> contract_register) result" where
  "build_contract_document rg tenant_id contract_id q =
     bindE (require_type_option (db_type_options (rg_db rg)) tenant_id ''contract_document_type'' (fq_type q)) (\<lambda>_.
     bindE (attachment_or_404 rg tenant_id (fq_attachment_id q)) (\<lambda>file.
     let d = \<lparr>kd_id = fresh_id (rg_db rg), kd_tenant_id = tenant_id, kd_contract_id = contract_id,
           kd_attachment_id = fst file, kd_type = fq_type q\<rparr>
     in Inr (d, (rg_tick rg)\<lparr>rg_documents := rg_documents rg @ [d]\<rparr>)))"

text \<open>The unique index: a file is on a contract once.\<close>

definition filed_twice :: "contract_document list \<Rightarrow> bool" where
  "filed_twice ds \<longleftrightarrow> \<not> distinct (map (\<lambda>d. (kd_tenant_id d, kd_contract_id d, kd_attachment_id d)) ds)"

definition contract_file_or_404 :: "contract_register \<Rightarrow> uuid \<Rightarrow> string \<Rightarrow> contract_document result" where
  "contract_file_or_404 rg tenant_id s = scoped_row (rg_db rg) kd_id kd_tenant_id (rg_documents rg) tenant_id s"

definition require_term_document :: "contract_register \<Rightarrow> uuid \<Rightarrow> uuid \<Rightarrow> string option \<Rightarrow> uuid option result" where
  "require_term_document rg tenant_id contract_id document_id =
     (case document_id of
        None \<Rightarrow> Inr None
      | Some s \<Rightarrow>
          bindE (contract_file_or_404 rg tenant_id s) (\<lambda>d.
          bindE (ensure (kd_contract_id d = contract_id) 422 ''document_belongs_to_another_contract'') (\<lambda>_. Inr (Some (kd_id d)))))"

record contract_term_request =
  kq_type :: string
  kq_content :: string
  kq_summary :: "string option"
  kq_document_id :: "string option"
  kq_document_index :: "nat option"

definition build_contract_term ::
    "contract_register \<Rightarrow> uuid \<Rightarrow> uuid \<Rightarrow> contract_term_request \<Rightarrow> string option \<Rightarrow> (contract_term \<times> contract_register) result" where
  "build_contract_term rg tenant_id contract_id q document_id =
     bindE (require_type_option (db_type_options (rg_db rg)) tenant_id ''contract_term_type'' (kq_type q)) (\<lambda>_.
     bindE (require_term_document rg tenant_id contract_id document_id) (\<lambda>file.
     let t = \<lparr>kt_id = fresh_id (rg_db rg), kt_tenant_id = tenant_id, kt_contract_id = contract_id, kt_type = kq_type q,
           kt_content = kq_content q, kt_summary = kq_summary q, kt_document_id = file\<rparr>
     in Inr (t, (rg_tick rg)\<lparr>rg_terms := rg_terms rg @ [t]\<rparr>)))"

end
