(* ===== verification/Contract_Writes.thy ===== *)
theory Contract_Writes
  imports Contracts
begin

text \<open>Filing and changing a contract, its lines, originals and clauses (\<open>app/api/contracts.py\<close>).\<close>

subsection \<open>Filing\<close>

record contract_request =
  nq_type :: string
  nq_vendor_id :: "string option"
  nq_customer_id :: "string option"
  nq_side :: "string option"
  nq_opportunity_id :: "string option"
  nq_upstream :: "string option"
  nq_snapshot :: "string option"
  nq_amount :: "money option"
  nq_currency :: string
  nq_from :: "int option"
  nq_to :: "int option"
  nq_employee_id :: "string option"
  nq_parent_id :: "string option"
  nq_status :: "string option"
  nq_number :: "string option"
  nq_items :: "contract_item_request list"
  nq_documents :: "contract_file_request list"
  nq_terms :: "contract_term_request list"

text \<open>\<open>_one_side\<close> and \<open>_has_a_counterparty\<close> of the request models.\<close>

definition one_side :: "contract_request \<Rightarrow> bool" where
  "one_side p \<longleftrightarrow>
     \<not> (given (nq_vendor_id p) \<and> given (nq_customer_id p)) \<and>
     \<not> (given (nq_vendor_id p) \<and> nq_side p = Some ''sales'') \<and> \<not> (given (nq_customer_id p) \<and> nq_side p = Some ''purchase'') \<and>
     (case (nq_from p, nq_to p) of (Some f, Some t) \<Rightarrow> \<not> t < f | _ \<Rightarrow> True)"

definition has_a_counterparty :: "contract_request \<Rightarrow> bool" where
  "has_a_counterparty p \<longleftrightarrow> given (nq_vendor_id p) \<or> given (nq_customer_id p) \<or>
     strip (case nq_snapshot p of None \<Rightarrow> [] | Some s \<Rightarrow> s) \<noteq> [] \<and> nq_side p \<noteq> None"

text \<open>Vendor, customer and name snapshot of a new contract.\<close>

definition resolve_counterparty ::
    "contract_register \<Rightarrow> uuid \<Rightarrow> contract_request \<Rightarrow> (uuid option \<times> uuid option \<times> string) result" where
  "resolve_counterparty rg tenant_id p =
     (if given (nq_vendor_id p)
      then bindE (named_row rg Vendor tenant_id (the (nq_vendor_id p))) (\<lambda>v. Inr (Some (row_id v), None, or_name (nq_snapshot p) v))
      else if given (nq_customer_id p)
      then bindE (named_row rg Customer tenant_id (the (nq_customer_id p))) (\<lambda>c. Inr (None, Some (row_id c), or_name (nq_snapshot p) c))
      else Inr (None, None, (case nq_snapshot p of None \<Rightarrow> [] | Some s \<Rightarrow> s)))"

definition contract_numbers :: "contract_register \<Rightarrow> uuid \<Rightarrow> string list" where
  "contract_numbers rg tenant_id =
     map row_number (filter (\<lambda>r. row_model r = Contract \<and> row_tenant_id r = tenant_id) (db_rows (rg_db rg)))"

definition new_contract ::
    "db \<Rightarrow> uuid \<Rightarrow> contract_request \<Rightarrow> uuid option \<times> uuid option \<times> string \<Rightarrow> uuid option \<Rightarrow> string \<Rightarrow> string \<Rightarrow> row" where
  "new_contract db tenant_id p party employee status number =
     (case party of (vendor, customer, snapshot) \<Rightarrow>
      \<lparr>row_model = Contract, row_id = fresh_id db, row_tenant_id = tenant_id, row_status = status, row_deleted_at = None,
       row_deleted_by = None, row_delete_reason = None, row_employee_id = employee, row_payee_employee_id = None,
       row_customer_id = customer, row_vendor_id = vendor, row_created_by = None, row_direction = [],
       row_side = side_of (nq_vendor_id p) (nq_customer_id p) (case nq_side p of None \<Rightarrow> [] | Some s \<Rightarrow> s), row_order_kind = [],
       row_object_type = [], row_number = number, row_name = snapshot, row_submitted_at = None, row_currency = nq_currency p,
       row_amount = 0, row_total_amount = nq_amount p, row_applied_amount = 0, row_billing_account_id = None,
       row_sales_order_id = None, row_purchase_order_id = None, row_expense_claim_id = None, row_quotation_id = None,
       row_unit_type = [], row_unit = [], row_credit_limit = 0, row_balance = 0, row_created_at = 0, row_other = []\<rparr>)"

text \<open>The loops over the request's lines (numbered from 1), files and clauses.\<close>

definition file_items :: "uuid \<Rightarrow> uuid \<Rightarrow> contract_register \<Rightarrow> contract_item_request list \<Rightarrow> contract_register result" where
  "file_items tenant_id contract_id rg qs =
     foldE (\<lambda>rg (index, q). bindE (build_contract_item rg tenant_id contract_id q (Some index)) (\<lambda>(_, rg'). Inr rg')) rg (enumerate 1 qs)"

fun file_documents ::
    "uuid \<Rightarrow> uuid \<Rightarrow> contract_register \<Rightarrow> contract_file_request list \<Rightarrow> (contract_document list \<times> contract_register) result" where
  "file_documents tenant_id contract_id rg [] = Inr ([], rg)"
| "file_documents tenant_id contract_id rg (q # qs) =
     bindE (build_contract_document rg tenant_id contract_id q) (\<lambda>(d, rg').
     bindE (file_documents tenant_id contract_id rg' qs) (\<lambda>(ds, rg''). Inr (d # ds, rg'')))"

definition term_document :: "contract_document list \<Rightarrow> contract_term_request \<Rightarrow> string option result" where
  "term_document documents q =
     (case kq_document_index q of
        Some n \<Rightarrow> bindE (ensure (n < length documents) 422 ''document_index_names_no_document'') (\<lambda>_. Inr (Some (kd_id (documents ! n))))
      | None \<Rightarrow> bindE (ensure (kq_document_id q = None) 422 ''document_id_names_a_document_that_cannot_exist_yet'') (\<lambda>_. Inr None))"

definition file_terms ::
    "uuid \<Rightarrow> uuid \<Rightarrow> contract_document list \<Rightarrow> contract_register \<Rightarrow> contract_term_request list \<Rightarrow> contract_register result" where
  "file_terms tenant_id contract_id documents rg qs =
     foldE (\<lambda>rg q. bindE (term_document documents q) (\<lambda>d.
       bindE (build_contract_term rg tenant_id contract_id q d) (\<lambda>(_, rg'). Inr rg'))) rg qs"

definition create_contract ::
    "timestamp \<Rightarrow> contract_register \<Rightarrow> actor \<Rightarrow> contract_request \<Rightarrow> bool \<Rightarrow> (row \<times> contract_register) result" where
  "create_contract now rg a p validate_only =
     (let tenant_id = ac_tenant_id a; db = rg_db rg;
          side = side_of (nq_vendor_id p) (nq_customer_id p) (case nq_side p of None \<Rightarrow> [] | Some s \<Rightarrow> s) in
      bindE (ensure (one_side p \<and> has_a_counterparty p \<and> list_all names_something (nq_items p)) 422 ''validation_error'') (\<lambda>_.
      bindE (require_permission a ''contract.manage'' (Some side)) (\<lambda>_.
      bindE (require_type_option (db_type_options db) tenant_id ''contract_type'' (nq_type p)) (\<lambda>_.
      bindE (resolve_counterparty rg tenant_id p) (\<lambda>party.
      bindE (if_given (nq_employee_id p) (\<lambda>s. bindE (named_row rg Employee tenant_id s) (\<lambda>e. Inr (row_id e)))) (\<lambda>employee.
      bindE (if_given (nq_parent_id p) (\<lambda>s. bindE (require_contract_parent rg tenant_id side s None) (\<lambda>c. Inr (row_id c)))) (\<lambda>parent.
      bindE (if_given (nq_opportunity_id p) (\<lambda>s. bindE (named_document rg Opportunity tenant_id s) (\<lambda>o'. Inr (row_id o')))) (\<lambda>opportunity.
      bindE (case nq_upstream p of None \<Rightarrow> Inr None
             | Some s \<Rightarrow> if s = [] then Inr None else bindE (attachment_or_404 rg tenant_id s) (\<lambda>f. Inr (Some (fst f)))) (\<lambda>upstream.
      bindE (require_machine_state db a Contract (nq_status p) None False) (\<lambda>status.
      bindE (if given (nq_number p) then Inr (the (nq_number p)) else allocate_document_number (contract_numbers rg tenant_id) ''CT-'') (\<lambda>number.
      let contract = new_contract db tenant_id p party employee status number;
          more = \<lparr>cm_id = row_id contract, cm_type = nq_type p, cm_parent_id = parent, cm_opportunity_id = opportunity,
            cm_from = nq_from p, cm_to = nq_to p, cm_signed_at = (if status = ''signed'' then Some now else None), cm_upstream = upstream\<rparr>;
          rg1 = rg\<lparr>rg_db := (tick db)\<lparr>db_rows := db_rows db @ [contract]\<rparr>, rg_more := rg_more rg @ [more]\<rparr>
      in bindE (ensure (number \<notin> set (contract_numbers rg tenant_id)) 409 ''contract_no_already_exists'') (\<lambda>_.
         bindE (file_items tenant_id (row_id contract) rg1 (nq_items p)) (\<lambda>rg2.
         bindE (file_documents tenant_id (row_id contract) rg2 (nq_documents p)) (\<lambda>(documents, rg3).
         bindE (ensure (\<not> filed_twice (rg_documents rg3)) 409 ''contract_no_already_exists'') (\<lambda>_.
         bindE (file_terms tenant_id (row_id contract) documents rg3 (nq_terms p)) (\<lambda>rg4.
         Inr (contract, if validate_only then rg else rg4)))))))))))))))))"

subsection \<open>Changing\<close>

text \<open>Outer \<open>None\<close>: the field is absent; \<open>Some None\<close>: it is null. \<open>uc_other_terms\<close>: a field of the agreement that is
  not modelled (a date of signing, a signatory) is among those sent.\<close>

record contract_update =
  uc_title :: "string option option"
  uc_type :: "string option option"
  uc_vendor_id :: "string option option"
  uc_customer_id :: "string option option"
  uc_side :: "string option option"
  uc_opportunity_id :: "string option option"
  uc_upstream :: "string option option"
  uc_snapshot :: "string option option"
  uc_amount :: "money option option"
  uc_currency :: "string option option"
  uc_from :: "int option option"
  uc_to :: "int option option"
  uc_employee_id :: "string option option"
  uc_parent_id :: "string option option"
  uc_status :: "string option option"
  uc_other_terms :: bool

definition sent_text :: "string option option \<Rightarrow> string option" where
  "sent_text u = (case u of None \<Rightarrow> None | Some x \<Rightarrow> x)"

text \<open>Which documents of other families already execute the contract, and whether a supplement ties it.\<close>

definition executing :: "contract_register \<Rightarrow> row \<Rightarrow> bool" where
  "executing rg contract \<longleftrightarrow>
     list_ex (\<lambda>r. row_model r \<in> {PurchaseOrder, SalesOrder, Invoice, Payment} \<and> row_tenant_id r = row_tenant_id contract \<and>
       map_of (rg_contract_of rg) (row_model r, row_id r) = Some (row_id contract)) (db_rows (rg_db rg)) \<or>
     parent_of rg (row_id contract) \<noteq> None \<or>
     list_ex (\<lambda>r. row_model r = Contract \<and> row_tenant_id r = row_tenant_id contract \<and> parent_of rg (row_id r) = Some (row_id contract))
       (db_rows (rg_db rg))"

definition identify_counterparty :: "contract_register \<Rightarrow> actor \<Rightarrow> row \<Rightarrow> contract_update \<Rightarrow> row result" where
  "identify_counterparty rg a contract u =
     (if uc_vendor_id u = None \<and> uc_customer_id u = None \<and> uc_side u = None then Inr contract
      else
      bindE (ensure (row_vendor_id contract = None \<and> row_customer_id contract = None) 409 ''already_names_its_counterparty'') (\<lambda>_.
      let vendor = sent_text (uc_vendor_id u); customer = sent_text (uc_customer_id u);
          stated = (if given (sent_text (uc_side u)) then the (sent_text (uc_side u)) else row_side contract);
          side = side_of vendor customer stated
      in bindE (if side = row_side contract then Inr ()
                else bindE (require_permission a ''contract.manage'' (Some side)) (\<lambda>_.
                     ensure (\<not> executing rg contract) 409 ''documents_already_execute_this_contract'')) (\<lambda>_.
         if given vendor
         then bindE (named_row rg Vendor (ac_tenant_id a) (the vendor)) (\<lambda>v.
              Inr (contract\<lparr>row_vendor_id := Some (row_id v), row_name := or_name (Some (row_name contract)) v, row_side := side\<rparr>))
         else if given customer
         then bindE (named_row rg Customer (ac_tenant_id a) (the customer)) (\<lambda>c.
              Inr (contract\<lparr>row_customer_id := Some (row_id c), row_name := or_name (Some (row_name contract)) c, row_side := side\<rparr>))
         else Inr (contract\<lparr>row_side := side\<rparr>))))"

text \<open>The fields that are not the desk's notes.\<close>

definition touches_the_agreement :: "contract_update \<Rightarrow> bool" where
  "touches_the_agreement u \<longleftrightarrow> uc_title u \<noteq> None \<or> uc_type u \<noteq> None \<or> uc_snapshot u \<noteq> None \<or> uc_amount u \<noteq> None \<or>
     uc_currency u \<noteq> None \<or> uc_from u \<noteq> None \<or> uc_to u \<noteq> None \<or> uc_parent_id u \<noteq> None \<or> uc_other_terms u"

definition or_kept :: "'a option option \<Rightarrow> 'a option \<Rightarrow> 'a option" where
  "or_kept u old = (case u of None \<Rightarrow> old | Some x \<Rightarrow> x)"

definition changed_row :: "contract_update \<Rightarrow> uuid option option \<Rightarrow> string \<Rightarrow> row \<Rightarrow> row" where
  "changed_row u employee status r = r\<lparr>
     row_status := status,
     row_name := (case uc_snapshot u of None \<Rightarrow> row_name r | Some None \<Rightarrow> [] | Some (Some s) \<Rightarrow> s),
     row_total_amount := or_kept (uc_amount u) (row_total_amount r),
     row_currency := (case uc_currency u of Some (Some c) \<Rightarrow> c | _ \<Rightarrow> row_currency r),
     row_employee_id := or_kept employee (row_employee_id r)\<rparr>"

definition changed_more ::
    "timestamp \<Rightarrow> contract_update \<Rightarrow> uuid option option \<Rightarrow> uuid option option \<Rightarrow> uuid option option \<Rightarrow> bool \<Rightarrow> contract_more \<Rightarrow> contract_more" where
  "changed_more now u parent opportunity upstream signed m = m\<lparr>
     cm_type := (case uc_type u of Some (Some t) \<Rightarrow> t | _ \<Rightarrow> cm_type m),
     cm_parent_id := or_kept parent (cm_parent_id m),
     cm_opportunity_id := or_kept opportunity (cm_opportunity_id m),
     cm_from := or_kept (uc_from u) (cm_from m),
     cm_to := or_kept (uc_to u) (cm_to m),
     cm_signed_at := (if signed \<and> cm_signed_at m = None then Some now else cm_signed_at m),
     cm_upstream := or_kept upstream (cm_upstream m)\<rparr>"

text \<open>\<open>if updates.get(x)\<close> for an id: checked when stated, stored when sent.\<close>

definition sent_id :: "string option option \<Rightarrow> (string \<Rightarrow> uuid result) \<Rightarrow> uuid option option result" where
  "sent_id u fetch = (case u of None \<Rightarrow> Inr None | Some x \<Rightarrow> bindE (if_given x fetch) (\<lambda>i. Inr (Some i)))"

definition update_contract ::
    "timestamp \<Rightarrow> contract_register \<Rightarrow> actor \<Rightarrow> string \<Rightarrow> contract_update \<Rightarrow> (row \<times> contract_register) result" where
  "update_contract now rg a s u =
     (let tenant_id = ac_tenant_id a; db = rg_db rg in
      bindE (require_contract_access rg a s) (\<lambda>contract0.
      bindE (case more_of rg (row_id contract0) of None \<Rightarrow> Inl (HttpError 404 ''not_found'') | Some m \<Rightarrow> Inr m) (\<lambda>more.
      bindE (identify_counterparty rg a contract0 u) (\<lambda>contract.
      bindE (case uc_type u of None \<Rightarrow> Inr ()
             | Some None \<Rightarrow> Inl (HttpError 422 ''unknown_type_option'')
             | Some (Some t) \<Rightarrow> require_type_option (db_type_options db) tenant_id ''contract_type'' t) (\<lambda>_.
      bindE (sent_id (uc_employee_id u) (\<lambda>x. bindE (named_row rg Employee tenant_id x) (\<lambda>e. Inr (row_id e)))) (\<lambda>employee.
      bindE (sent_id (uc_parent_id u) (\<lambda>x.
        bindE (require_contract_parent rg tenant_id (row_side contract) x (Some (row_id contract))) (\<lambda>c. Inr (row_id c)))) (\<lambda>parent.
      bindE (ensure (case (or_kept (uc_from u) (cm_from more), or_kept (uc_to u) (cm_to more)) of (Some f, Some t) \<Rightarrow> \<not> t < f | _ \<Rightarrow> True)
               422 ''effective_to_must_not_precede_effective_from'') (\<lambda>_.
      bindE (sent_id (uc_opportunity_id u) (\<lambda>x. bindE (named_document rg Opportunity tenant_id x) (\<lambda>o'. Inr (row_id o')))) (\<lambda>opportunity.
      bindE (case uc_upstream u of None \<Rightarrow> Inr None
             | Some x \<Rightarrow> if given x then bindE (attachment_or_404 rg tenant_id (the x)) (\<lambda>f. Inr (Some (Some (fst f)))) else Inr (Some None)) (\<lambda>upstream.
      bindE (if touches_the_agreement u then ensure_document_editable db contract else Inr ()) (\<lambda>_.
      let moves = (case uc_status u of Some (Some st) \<Rightarrow> st \<noteq> row_status contract | _ \<Rightarrow> False);
          status = (case uc_status u of Some (Some st) \<Rightarrow> st | _ \<Rightarrow> row_status contract)
      in bindE (if moves then bindE (apply_status_change db a contract status) (\<lambda>(_, db'). Inr db') else Inr db) (\<lambda>db'.
         bindE (if uc_title u = Some None \<or> uc_currency u = Some None then Inl IntegrityError else Inr ()) (\<lambda>_.
         let contract' = changed_row u employee status contract;
             more' = changed_more now u parent opportunity upstream (moves \<and> status = ''signed'')
         in Inr (contract', rg\<lparr>rg_db := set_row Contract (row_id contract0) (\<lambda>_. contract') db',
              rg_more := update_rows (\<lambda>m. cm_id m = row_id contract0) more' (rg_more rg)\<rparr>))))))))))))))"

definition delete_contract :: "timestamp \<Rightarrow> contract_register \<Rightarrow> actor \<Rightarrow> uuid \<Rightarrow> contract_register result" where
  "delete_contract now rg a i = bindE (delete_document now (rg_db rg) a Contract i None None) (\<lambda>db'. Inr (rg\<lparr>rg_db := db'\<rparr>))"

definition restore_contract :: "contract_register \<Rightarrow> actor \<Rightarrow> uuid \<Rightarrow> (row \<times> contract_register) result" where
  "restore_contract rg a i = bindE (restore_document (rg_db rg) a Contract i) (\<lambda>(r, db'). Inr (r, rg\<lparr>rg_db := db'\<rparr>))"

subsection \<open>Lines\<close>

definition create_contract_item ::
    "contract_register \<Rightarrow> actor \<Rightarrow> string \<Rightarrow> contract_item_request \<Rightarrow> (contract_item \<times> contract_register) result" where
  "create_contract_item rg a contract_id q =
     bindE (ensure (names_something q) 422 ''validation_error'') (\<lambda>_.
     bindE (require_contract_access rg a contract_id) (\<lambda>contract.
     bindE (ensure_document_editable (rg_db rg) contract) (\<lambda>_.
     build_contract_item rg (ac_tenant_id a) (row_id contract) q None)))"

definition contract_item_or_404 :: "contract_register \<Rightarrow> uuid \<Rightarrow> string \<Rightarrow> contract_item result" where
  "contract_item_or_404 rg tenant_id s = scoped_row (rg_db rg) ki_id ki_tenant_id (rg_items rg) tenant_id s"

record contract_item_update =
  kj_line_no :: "nat option option"
  kj_product_id :: "string option option"
  kj_description :: "string option option"
  kj_quantity :: "money option option"
  kj_unit_price :: "money option option"

definition updated_contract_item :: "contract_item_update \<Rightarrow> uuid option option \<Rightarrow> contract_item \<Rightarrow> contract_item" where
  "updated_contract_item u product i = i\<lparr>
     ki_line_no := or_kept (kj_line_no u) (ki_line_no i), ki_product_id := or_kept product (ki_product_id i),
     ki_description := or_kept (kj_description u) (ki_description i), ki_quantity := or_kept (kj_quantity u) (ki_quantity i),
     ki_unit_price := or_kept (kj_unit_price u) (ki_unit_price i)\<rparr>"

definition update_contract_item :: "contract_register \<Rightarrow> actor \<Rightarrow> string \<Rightarrow> contract_item_update \<Rightarrow> contract_register result" where
  "update_contract_item rg a s u =
     bindE (contract_item_or_404 rg (ac_tenant_id a) s) (\<lambda>item.
     bindE (require_contract_access rg a (ki_contract_id item)) (\<lambda>contract.
     bindE (ensure_document_editable (rg_db rg) contract) (\<lambda>_.
     bindE (sent_id (kj_product_id u) (\<lambda>x. bindE (contract_product_or_404 rg (ac_tenant_id a) x) (\<lambda>p. Inr (fst p)))) (\<lambda>product.
     Inr (rg\<lparr>rg_items := update_rows (\<lambda>i. ki_id i = ki_id item) (updated_contract_item u product) (rg_items rg)\<rparr>)))))"

definition delete_contract_item :: "contract_register \<Rightarrow> actor \<Rightarrow> string \<Rightarrow> contract_register result" where
  "delete_contract_item rg a s =
     bindE (contract_item_or_404 rg (ac_tenant_id a) s) (\<lambda>item.
     bindE (require_contract_access rg a (ki_contract_id item)) (\<lambda>contract.
     bindE (ensure_document_editable (rg_db rg) contract) (\<lambda>_.
     Inr (rg\<lparr>rg_items := filter (\<lambda>i. ki_id i \<noteq> ki_id item) (rg_items rg)\<rparr>))))"

subsection \<open>Originals\<close>

definition create_contract_document ::
    "contract_register \<Rightarrow> actor \<Rightarrow> string \<Rightarrow> contract_file_request \<Rightarrow> (contract_document \<times> contract_register) result" where
  "create_contract_document rg a contract_id q =
     bindE (require_contract_access rg a contract_id) (\<lambda>contract.
     bindE (build_contract_document rg (ac_tenant_id a) (row_id contract) q) (\<lambda>(d, rg').
     bindE (ensure (\<not> filed_twice (rg_documents rg')) 409 ''this_file_is_already_on_this_contract'') (\<lambda>_. Inr (d, rg'))))"

text \<open>Of what a PATCH of an original may say, its type is modelled.\<close>

definition update_contract_document :: "contract_register \<Rightarrow> actor \<Rightarrow> string \<Rightarrow> string option option \<Rightarrow> contract_register result" where
  "update_contract_document rg a s document_type =
     bindE (contract_file_or_404 rg (ac_tenant_id a) s) (\<lambda>d.
     bindE (require_contract_access rg a (kd_contract_id d)) (\<lambda>_.
     case document_type of
       None \<Rightarrow> Inr rg
     | Some None \<Rightarrow> Inl (HttpError 422 ''unknown_type_option'')
     | Some (Some t) \<Rightarrow>
         bindE (require_type_option (db_type_options (rg_db rg)) (ac_tenant_id a) ''contract_document_type'' t) (\<lambda>_.
         Inr (rg\<lparr>rg_documents := update_rows (\<lambda>x. kd_id x = kd_id d) (\<lambda>x. x\<lparr>kd_type := t\<rparr>) (rg_documents rg)\<rparr>))))"

definition delete_contract_document :: "contract_register \<Rightarrow> actor \<Rightarrow> string \<Rightarrow> contract_register result" where
  "delete_contract_document rg a s =
     bindE (contract_file_or_404 rg (ac_tenant_id a) s) (\<lambda>d.
     bindE (require_contract_access rg a (kd_contract_id d)) (\<lambda>contract.
     bindE (if kd_type d \<noteq> ''draft''
            then bindE (agreement_frozen rg contract) (\<lambda>frozen. ensure (\<not> frozen) 409 ''its_originals_stay_linked'')
            else Inr ()) (\<lambda>_.
     Inr (rg\<lparr>rg_terms := update_rows (\<lambda>t. kt_tenant_id t = ac_tenant_id a \<and> kt_document_id t = Some (kd_id d)) (\<lambda>t. t\<lparr>kt_document_id := None\<rparr>) (rg_terms rg),
             rg_documents := filter (\<lambda>x. kd_id x \<noteq> kd_id d) (rg_documents rg)\<rparr>))))"

subsection \<open>Clauses\<close>

definition create_contract_term ::
    "contract_register \<Rightarrow> actor \<Rightarrow> string \<Rightarrow> contract_term_request \<Rightarrow> (contract_term \<times> contract_register) result" where
  "create_contract_term rg a contract_id q =
     bindE (require_contract_access rg a contract_id) (\<lambda>contract.
     build_contract_term rg (ac_tenant_id a) (row_id contract) q (kq_document_id q))"

definition contract_term_or_404 :: "contract_register \<Rightarrow> uuid \<Rightarrow> string \<Rightarrow> contract_term result" where
  "contract_term_or_404 rg tenant_id s = scoped_row (rg_db rg) kt_id kt_tenant_id (rg_terms rg) tenant_id s"

record contract_term_update =
  ku_term_type :: "string option option"
  ku_content :: "string option option"
  ku_summary :: "string option option"
  ku_document_id :: "string option option"

definition updated_term :: "contract_term_update \<Rightarrow> uuid option option \<Rightarrow> contract_term \<Rightarrow> contract_term" where
  "updated_term u file t = t\<lparr>
     kt_type := (case ku_term_type u of Some (Some x) \<Rightarrow> x | _ \<Rightarrow> kt_type t),
     kt_content := (case ku_content u of Some (Some x) \<Rightarrow> x | _ \<Rightarrow> kt_content t),
     kt_summary := or_kept (ku_summary u) (kt_summary t), kt_document_id := or_kept file (kt_document_id t)\<rparr>"

definition update_contract_term :: "contract_register \<Rightarrow> actor \<Rightarrow> string \<Rightarrow> contract_term_update \<Rightarrow> contract_register result" where
  "update_contract_term rg a s u =
     bindE (contract_term_or_404 rg (ac_tenant_id a) s) (\<lambda>t.
     bindE (require_contract_access rg a (kt_contract_id t)) (\<lambda>contract.
     bindE (if ku_content u \<noteq> None \<and> ku_content u \<noteq> Some (Some (kt_content t))
            then bindE (agreement_frozen rg contract) (\<lambda>frozen. ensure (\<not> frozen) 409 ''a_clause_is_the_signed_words'')
            else Inr ()) (\<lambda>_.
     bindE (case ku_term_type u of None \<Rightarrow> Inr ()
            | Some None \<Rightarrow> Inl (HttpError 422 ''unknown_type_option'')
            | Some (Some x) \<Rightarrow> require_type_option (db_type_options (rg_db rg)) (ac_tenant_id a) ''contract_term_type'' x) (\<lambda>_.
     bindE (case ku_document_id u of None \<Rightarrow> Inr None
            | Some x \<Rightarrow> bindE (require_term_document rg (ac_tenant_id a) (kt_contract_id t) x) (\<lambda>f. Inr (Some f))) (\<lambda>file.
     bindE (if ku_content u = Some None then Inl IntegrityError else Inr ()) (\<lambda>_.
     Inr (rg\<lparr>rg_terms := update_rows (\<lambda>x. kt_id x = kt_id t) (updated_term u file) (rg_terms rg)\<rparr>)))))))"

definition delete_contract_term :: "contract_register \<Rightarrow> actor \<Rightarrow> string \<Rightarrow> contract_register result" where
  "delete_contract_term rg a s =
     bindE (contract_term_or_404 rg (ac_tenant_id a) s) (\<lambda>t.
     bindE (require_contract_access rg a (kt_contract_id t)) (\<lambda>_.
     Inr (rg\<lparr>rg_terms := filter (\<lambda>x. kt_id x \<noteq> kt_id t) (rg_terms rg)\<rparr>)))"

end
