(* ===== verification/Contract_Laws.thy ===== *)
theory Contract_Laws
  imports Contract_Writes
begin

text \<open>What every call on contracts keeps: ids, sides, the chains of supplements, the places clauses point at.\<close>

definition contract_rows :: "contract_register \<Rightarrow> row list" where
  "contract_rows rg = filter (\<lambda>r. row_model r = Contract) (db_rows (rg_db rg))"

definition ids_in_use :: "contract_register \<Rightarrow> uuid set" where
  "ids_in_use rg = row_id ` set (contract_rows rg) \<union> ki_id ` set (rg_items rg) \<union> kd_id ` set (rg_documents rg) \<union> kt_id ` set (rg_terms rg)"

definition tables_sound :: "contract_register \<Rightarrow> bool" where
  "tables_sound rg \<longleftrightarrow> distinct (map row_id (contract_rows rg)) \<and> distinct (map cm_id (rg_more rg)) \<and>
     cm_id ` set (rg_more rg) = row_id ` set (contract_rows rg) \<and>
     distinct (map ki_id (rg_items rg)) \<and> distinct (map kd_id (rg_documents rg)) \<and> distinct (map kt_id (rg_terms rg)) \<and>
     reads_back (rg_db rg) (ids_in_use rg)"

text \<open>A vendor makes a contract one of the purchase side, a customer one of the sales side, and there is one of them at most.\<close>

definition side_agrees :: "row \<Rightarrow> bool" where
  "side_agrees c \<longleftrightarrow> (row_vendor_id c \<noteq> None \<longrightarrow> row_side c = ''purchase'' \<and> row_customer_id c = None) \<and>
     (row_customer_id c \<noteq> None \<longrightarrow> row_side c = ''sales'')"

definition sides_agree :: "contract_register \<Rightarrow> bool" where
  "sides_agree rg \<longleftrightarrow> (\<forall>c \<in> set (contract_rows rg). side_agrees c)"

abbreviation "supplement_links rg \<equiv> parent_links cm_id cm_parent_id (rg_more rg)"

text \<open>A supplement and what it supplements are contracts of one workspace and one side.\<close>

definition supplements_match :: "contract_register \<Rightarrow> bool" where
  "supplements_match rg \<longleftrightarrow> (\<forall>(i, p) \<in> supplement_links rg. \<exists>c \<in> set (contract_rows rg). \<exists>q \<in> set (contract_rows rg).
     row_id c = i \<and> row_id q = p \<and> row_tenant_id q = row_tenant_id c \<and> row_side q = row_side c)"

text \<open>The place of a clause is in an original of its own contract.\<close>

definition clauses_located :: "contract_register \<Rightarrow> bool" where
  "clauses_located rg \<longleftrightarrow> (\<forall>t \<in> set (rg_terms rg). \<forall>i. kt_document_id t = Some i \<longrightarrow>
     (\<exists>d \<in> set (rg_documents rg). kd_id d = i \<and> kd_contract_id d = kt_contract_id t \<and> kd_tenant_id d = kt_tenant_id t))"

definition register_in_order :: "contract_register \<Rightarrow> bool" where
  "register_in_order rg \<longleftrightarrow> tables_sound rg \<and> sides_agree rg \<and> supplements_match rg \<and> acyclic (supplement_links rg) \<and> clauses_located rg"

subsection \<open>Lookups\<close>

lemma get_contract: "get_row (rg_db rg) Contract i = Some c \<Longrightarrow> c \<in> set (contract_rows rg) \<and> row_id c = i"
  by (auto simp: contract_rows_def dest: get_row_Some)

lemma contract_found:
  assumes "tables_sound rg" and "c \<in> set (contract_rows rg)"
  shows "get_row (rg_db rg) Contract (row_id c) = Some c"
proof -
  have "find_row (\<lambda>r. row_id r = row_id c) (contract_rows rg) = Some c"
    using assms by (intro find_row_by_key) (simp_all add: tables_sound_def)
  moreover have "find_row (\<lambda>r. row_model r = Contract \<and> row_id r = i) rs = find_row (\<lambda>r. row_id r = i) (filter (\<lambda>r. row_model r = Contract) rs)" for i and rs :: "row list"
    by (induction rs) auto
  ultimately show ?thesis by (simp only: get_row_def contract_rows_def)
qed

lemma named_document_Inr:
  assumes "named_document rg Contract t s = Inr c"
  shows "c \<in> set (contract_rows rg) \<and> row_tenant_id c = t \<and> get_row (rg_db rg) Contract (row_id c) = Some c"
  using assms get_contract [of rg _ c]
  by (auto simp: named_document_def get_active_document_or_404_Inr split: option.splits)

lemma access_Inr:
  assumes "require_contract_access rg a s = Inr c"
  shows "c \<in> set (contract_rows rg) \<and> row_tenant_id c = ac_tenant_id a \<and> get_row (rg_db rg) Contract (row_id c) = Some c"
  using assms named_document_Inr by (auto simp: require_contract_access_def bindE_Inr_iff)

lemma parent_of_link:
  assumes "tables_sound rg"
  shows "parent_of rg i = Some p \<longleftrightarrow> (i, p) \<in> supplement_links rg"
proof
  assume "parent_of rg i = Some p"
  then obtain m where m: "more_of rg i = Some m" "cm_parent_id m = Some p" by (auto simp: parent_of_def bind_eq_Some_conv)
  from find_row_Some [OF m(1) [unfolded more_of_def]] m(2) show "(i, p) \<in> supplement_links rg"
    by (auto intro: parent_linksI)
next
  assume "(i, p) \<in> supplement_links rg"
  then obtain m where m: "m \<in> set (rg_more rg)" "cm_id m = i" "cm_parent_id m = Some p" by (auto simp: parent_links_def)
  then have "more_of rg i = Some m" using find_row_by_key [of cm_id "rg_more rg" m] assms by (simp add: more_of_def tables_sound_def)
  with m show "parent_of rg i = Some p" by (simp add: parent_of_def)
qed

subsection \<open>The chain of supplements\<close>

lemma chain_walk_clear:
  assumes "chain_walk rg (Some x) seen (Some i) = Inr ()" and "tables_sound rg" and "supplements_match rg" and "acyclic (supplement_links rg)"
    and "\<forall>y \<in> set seen. (y, i) \<in> (supplement_links rg)\<^sup>+" and "(i, z) \<in> (supplement_links rg)\<^sup>*"
  shows "z \<noteq> x"
  using assms
proof (induction rg "Some x" seen "Some i" arbitrary: i rule: chain_walk.induct)
  case (1 rg seen i)
  have new: "i \<notin> set seen" using "1.prems"(4,5) by (auto simp: acyclic_def)
  with "1.prems"(1) have "i \<noteq> x" by (auto simp: chain_walk.simps [of rg "Some x" seen "Some i"])
  show ?case
  proof (cases "z = i")
    case False
    with "1.prems"(6) obtain p where p: "(i, p) \<in> supplement_links rg" "(p, z) \<in> (supplement_links rg)\<^sup>*"
      by (metis converse_rtranclE)
    then have up: "parent_of rg i = Some p" using parent_of_link [OF "1.prems"(2)] by blast
    from p(1) "1.prems"(3) obtain q where q: "q \<in> set (contract_rows rg)" "row_id q = p" by (auto simp: supplements_match_def)
    with contract_found [OF "1.prems"(2)] have "get_row (rg_db rg) Contract p = Some q" by auto
    with up q have step: "Option.bind (parent_of rg i) (\<lambda>p. map_option row_id (get_row (rg_db rg) Contract p)) = Some p" by simp
    have "chain_walk rg (Some x) (i # seen) (Some p) = Inr ()"
      using "1.prems"(1) new \<open>i \<noteq> x\<close> step by (simp add: chain_walk.simps [of rg "Some x" seen "Some i"])
    moreover have "\<forall>y \<in> set (i # seen). (y, p) \<in> (supplement_links rg)\<^sup>+" using "1.prems"(5) p(1) by (auto intro: trancl_into_trancl)
    ultimately show ?thesis using "1.hyps" [OF refl new _ step] "1.prems"(2-4) p(2) \<open>i \<noteq> x\<close> by auto
  qed (use \<open>i \<noteq> x\<close> in simp)
qed

definition supplement_accepts :: "contract_register \<Rightarrow> uuid \<Rightarrow> uuid \<Rightarrow> bool" where
  "supplement_accepts rg x p \<longleftrightarrow> (\<exists>t side s q. require_contract_parent rg t side s (Some x) = Inr q \<and> row_id q = p)"

definition chains_end :: "contract_register \<Rightarrow> bool" where
  "chains_end rg \<longleftrightarrow> tables_sound rg \<and> supplements_match rg \<and> acyclic (supplement_links rg)"

interpretation supplements: guarded_tree cm_id cm_parent_id rg_more chains_end supplement_accepts
proof
  fix rg x p
  assume rg: "chains_end rg" and "supplement_accepts rg x p"
  then have "chain_walk rg (Some x) [] (Some p) = Inr ()"
    by (auto simp: supplement_accepts_def require_contract_parent_def bindE_Inr_iff)
  from chain_walk_clear [OF this] rg show "(p, x) \<notin> (supplement_links rg)\<^sup>*" by (auto simp: chains_end_def)
qed (simp add: chains_end_def tables_sound_def)

subsection \<open>What the shared verbs leave alone\<close>

lemma audit_todos_reading [simp]:
  "db_uuid_in (audit_todos a w ts db) = db_uuid_in db"
  unfolding audit_todos_def by (induction ts arbitrary: db) (simp_all add: store_simps)

lemma cancel_todos_reading [simp]:
  "db_uuid_in (cancel_todos_for a et i tt db) = db_uuid_in db" "db_uuids (cancel_todos_for a et i tt db) = db_uuids db"
  "db_next (cancel_todos_for a et i tt db) = db_next db"
  by (simp_all add: cancel_todos_for_def Let_def audit_todos_fields)

lemma status_change_leaves:
  assumes "apply_status_change db a c st = Inr (m, db')"
  shows "db_rows db' = db_rows db \<and> db_uuid_in db' = db_uuid_in db \<and> db_uuids db' = db_uuids db \<and> db_next db' = db_next db \<and>
    db_definitions db' = db_definitions db"
  using assms
  by (auto simp: apply_status_change_def bindE_Inr_iff Let_def retire_open_work_if_finished_def store_simps)

lemma contract_rows_cong: "db_rows (rg_db rg') = db_rows (rg_db rg) \<Longrightarrow> contract_rows rg' = contract_rows rg"
  by (simp add: contract_rows_def)

lemma contract_rows_set_row:
  assumes "\<And>r. row_model r = Contract \<Longrightarrow> row_model (f r) = Contract" and "db_rows (rg_db rg') = db_rows (set_row Contract i f db)" and "db_rows db = db_rows (rg_db rg)"
  shows "contract_rows rg' = update_rows (\<lambda>r. row_id r = i) f (contract_rows rg)"
proof -
  have "filter (\<lambda>r. row_model r = Contract) (update_rows (\<lambda>r. row_model r = Contract \<and> row_id r = i) f rs) =
      update_rows (\<lambda>r. row_id r = i) f (filter (\<lambda>r. row_model r = Contract) rs)" for rs
    using assms(1) by (induction rs) auto
  with assms(2,3) show ?thesis by (simp add: contract_rows_def set_row_def)
qed

subsection \<open>Children\<close>

text \<open>What depends on the contracts alone.\<close>

lemma same_contracts:
  assumes "contract_rows rg' = contract_rows rg" and "rg_more rg' = rg_more rg"
  shows "sides_agree rg' = sides_agree rg" and "supplements_match rg' = supplements_match rg" and "supplement_links rg' = supplement_links rg"
  using assms by (simp_all add: sides_agree_def supplements_match_def)

lemma fresh_not_in_use: "tables_sound rg \<Longrightarrow> fresh_id (rg_db rg) \<notin> ids_in_use rg"
  using reads_backD(3) by (auto simp: tables_sound_def)

lemma tables_sound_tick:
  assumes "tables_sound rg" and "contract_rows rg' = contract_rows rg" and "rg_more rg' = rg_more rg"
    and "db_uuid_in (rg_db rg') = db_uuid_in (rg_db rg)" "db_uuids (rg_db rg') = db_uuids (rg_db rg)" "db_next (rg_db rg') = Suc (db_next (rg_db rg))"
    and "ids_in_use rg' \<subseteq> insert (fresh_id (rg_db rg)) (ids_in_use rg)"
    and "distinct (map ki_id (rg_items rg'))" "distinct (map kd_id (rg_documents rg'))" "distinct (map kt_id (rg_terms rg'))"
  shows "tables_sound rg'"
proof -
  have "reads_back (tick (rg_db rg)) (insert (fresh_id (rg_db rg)) (ids_in_use rg))"
    using assms(1) by (auto simp: tables_sound_def intro: reads_back_fresh)
  then have "reads_back (rg_db rg') (ids_in_use rg')" by (rule reads_back_same) (use assms(4-7) in \<open>simp_all add: tick_fields\<close>)
  with assms show ?thesis by (simp add: tables_sound_def)
qed

lemma tables_sound_same:
  assumes "tables_sound rg" and "map row_id (contract_rows rg') = map row_id (contract_rows rg)" and "map cm_id (rg_more rg') = map cm_id (rg_more rg)"
    and "db_uuid_in (rg_db rg') = db_uuid_in (rg_db rg)" "db_uuids (rg_db rg') = db_uuids (rg_db rg)" "db_next (rg_db rg') = db_next (rg_db rg)"
    and "distinct (map ki_id (rg_items rg'))" "distinct (map kd_id (rg_documents rg'))" "distinct (map kt_id (rg_terms rg'))"
    and "ki_id ` set (rg_items rg') \<subseteq> ki_id ` set (rg_items rg)" "kd_id ` set (rg_documents rg') \<subseteq> kd_id ` set (rg_documents rg)"
      "kt_id ` set (rg_terms rg') \<subseteq> kt_id ` set (rg_terms rg)"
  shows "tables_sound rg'"
proof -
  have "row_id ` set (contract_rows rg') = row_id ` set (contract_rows rg)" "cm_id ` set (rg_more rg') = cm_id ` set (rg_more rg)"
    using assms(2,3) by (metis set_map)+
  moreover from this have "reads_back (rg_db rg') (ids_in_use rg')"
    using assms(1) by (intro reads_back_same [OF _ assms(4-6)]) (use assms(10-12) in \<open>auto simp: tables_sound_def ids_in_use_def\<close>)
  ultimately show ?thesis using assms by (simp add: tables_sound_def)
qed

end
