(* ===== verification/Contract_History.thy ===== *)
theory Contract_History
  imports Contract_Laws
begin

text \<open>
  Through any history of calls the register of contracts stays in order: sides agree with counterparties, chains of
  supplements stay on one side and end, and the places of clauses are in originals of their own contract.
\<close>

subsection \<open>Lines, originals and clauses\<close>

lemma build_item_keeps:
  assumes ok: "register_in_order rg" and step: "build_contract_item rg t c q n = Inr (i, rg')"
  shows "register_in_order rg'" and "contract_rows rg' = contract_rows rg" and "rg_more rg' = rg_more rg"
proof -
  from step obtain product where i: "i = \<lparr>ki_id = fresh_id (rg_db rg), ki_tenant_id = t, ki_contract_id = c,
        ki_line_no = (if iq_line_no q \<noteq> None then iq_line_no q else n), ki_product_id = product,
        ki_description = iq_description q, ki_quantity = iq_quantity q, ki_unit_price = iq_unit_price q\<rparr>"
    and rg': "rg' = (rg_tick rg)\<lparr>rg_items := rg_items rg @ [i]\<rparr>"
    by (auto simp: build_contract_item_def bindE_Inr_iff Let_def)
  have db: "db_rows (rg_db rg') = db_rows (rg_db rg)" "rg_more rg' = rg_more rg" "rg_documents rg' = rg_documents rg" "rg_terms rg' = rg_terms rg"
    "rg_items rg' = rg_items rg @ [i]" "ki_id i = fresh_id (rg_db rg)"
    by (simp_all add: rg' i rg_tick_def tick_fields)
  show rows: "contract_rows rg' = contract_rows rg" and more: "rg_more rg' = rg_more rg" using db contract_rows_cong by blast+
  have t: "tables_sound rg" using ok by (simp add: register_in_order_def)
  have "ki_id i \<notin> ki_id ` set (rg_items rg)" using fresh_not_in_use [OF t] db(6) by (auto simp: ids_in_use_def)
  then have "tables_sound rg'"
    using t db(3-5) by (intro tables_sound_tick [OF t rows more])
      (auto simp: rg' rg_tick_def tick_fields ids_in_use_def rows [unfolded rg' rg_tick_def] tables_sound_def i contract_rows_def)
  moreover have "clauses_located rg'" using ok db by (simp add: register_in_order_def clauses_located_def)
  ultimately show "register_in_order rg'" using ok same_contracts [OF rows more] by (simp add: register_in_order_def)
qed

lemma build_document_keeps:
  assumes ok: "register_in_order rg" and step: "build_contract_document rg t c q = Inr (d, rg')"
  shows "register_in_order rg'" and "contract_rows rg' = contract_rows rg" and "rg_more rg' = rg_more rg"
proof -
  from step obtain att where d: "d = \<lparr>kd_id = fresh_id (rg_db rg), kd_tenant_id = t, kd_contract_id = c,
        kd_attachment_id = fst att, kd_type = fq_type q\<rparr>"
    and rg': "rg' = (rg_tick rg)\<lparr>rg_documents := rg_documents rg @ [d]\<rparr>"
    by (auto simp: build_contract_document_def bindE_Inr_iff Let_def)
  have db: "db_rows (rg_db rg') = db_rows (rg_db rg)" "rg_more rg' = rg_more rg" "rg_items rg' = rg_items rg" "rg_terms rg' = rg_terms rg"
    "rg_documents rg' = rg_documents rg @ [d]" "kd_id d = fresh_id (rg_db rg)"
    by (simp_all add: rg' d rg_tick_def tick_fields)
  show rows: "contract_rows rg' = contract_rows rg" and more: "rg_more rg' = rg_more rg" using db contract_rows_cong by blast+
  have t: "tables_sound rg" using ok by (simp add: register_in_order_def)
  have "kd_id d \<notin> kd_id ` set (rg_documents rg)" using fresh_not_in_use [OF t] db(6) by (auto simp: ids_in_use_def)
  then have "tables_sound rg'"
    using t db(3-5) by (intro tables_sound_tick [OF t rows more])
      (auto simp: rg' rg_tick_def tick_fields ids_in_use_def tables_sound_def d contract_rows_def)
  moreover have "clauses_located rg'" using ok db by (fastforce simp: register_in_order_def clauses_located_def)
  ultimately show "register_in_order rg'" using ok same_contracts [OF rows more] by (simp add: register_in_order_def)
qed

lemma term_document_Inr:
  assumes "require_term_document rg t c x = Inr file" and "file = Some i"
  shows "\<exists>d \<in> set (rg_documents rg). kd_id d = i \<and> kd_contract_id d = c \<and> kd_tenant_id d = t"
  using assms scoped_row_Inr [of "rg_db rg" kd_id kd_tenant_id "rg_documents rg" t]
  by (fastforce simp: require_term_document_def contract_file_or_404_def bindE_Inr_iff ensure_Inr_iff split: option.splits)

lemma build_term_keeps:
  assumes ok: "register_in_order rg" and step: "build_contract_term rg t c q x = Inr (k, rg')"
  shows "register_in_order rg'" and "contract_rows rg' = contract_rows rg" and "rg_more rg' = rg_more rg"
proof -
  from step obtain place where f: "require_term_document rg t c x = Inr place"
    and k: "k = \<lparr>kt_id = fresh_id (rg_db rg), kt_tenant_id = t, kt_contract_id = c, kt_type = kq_type q,
           kt_content = kq_content q, kt_summary = kq_summary q, kt_document_id = place\<rparr>"
    and rg': "rg' = (rg_tick rg)\<lparr>rg_terms := rg_terms rg @ [k]\<rparr>"
    by (auto simp: build_contract_term_def bindE_Inr_iff Let_def)
  have db: "db_rows (rg_db rg') = db_rows (rg_db rg)" "rg_more rg' = rg_more rg" "rg_items rg' = rg_items rg" "rg_documents rg' = rg_documents rg"
    "rg_terms rg' = rg_terms rg @ [k]" "kt_id k = fresh_id (rg_db rg)"
    by (simp_all add: rg' k rg_tick_def tick_fields)
  show rows: "contract_rows rg' = contract_rows rg" and more: "rg_more rg' = rg_more rg" using db contract_rows_cong by blast+
  have t: "tables_sound rg" using ok by (simp add: register_in_order_def)
  have "kt_id k \<notin> kt_id ` set (rg_terms rg)" using fresh_not_in_use [OF t] db(6) by (auto simp: ids_in_use_def)
  then have "tables_sound rg'"
    using t db(3-5) by (intro tables_sound_tick [OF t rows more])
      (auto simp: rg' rg_tick_def tick_fields ids_in_use_def tables_sound_def k contract_rows_def)
  moreover have "clauses_located rg'"
  proof -
    have "\<forall>i. kt_document_id k = Some i \<longrightarrow> (\<exists>d \<in> set (rg_documents rg). kd_id d = i \<and> kd_contract_id d = kt_contract_id k \<and> kd_tenant_id d = kt_tenant_id k)"
      using term_document_Inr [OF f] by (simp add: k)
    moreover have "clauses_located rg" using ok by (simp add: register_in_order_def)
    ultimately show ?thesis unfolding clauses_located_def db by simp
  qed
  ultimately show "register_in_order rg'" using ok same_contracts [OF rows more] by (simp add: register_in_order_def)
qed

lemma file_items_keeps:
  assumes "register_in_order rg" and "file_items t c rg qs = Inr rg'"
  shows "register_in_order rg'"
  using assms unfolding file_items_def
  by (elim foldE_invariant [where P = register_in_order]) (auto simp: bindE_Inr_iff dest: build_item_keeps(1))

lemma file_documents_keeps:
  assumes "file_documents t c rg qs = Inr (ds, rg')" and "register_in_order rg"
  shows "register_in_order rg'"
  using assms
proof (induction qs arbitrary: rg ds)
  case (Cons q qs)
  from Cons.prems(1) obtain d rg1 ds1 where first: "build_contract_document rg t c q = Inr (d, rg1)"
    and rest: "file_documents t c rg1 qs = Inr (ds1, rg')" by (auto simp: bindE_Inr_iff)
  show ?case by (rule Cons.IH [OF rest build_document_keeps(1) [OF Cons.prems(2) first]])
qed simp

lemma file_terms_keeps:
  assumes "register_in_order rg" and "file_terms t c ds rg qs = Inr rg'"
  shows "register_in_order rg'"
  using assms unfolding file_terms_def
  by (elim foldE_invariant [where P = register_in_order]) (auto simp: bindE_Inr_iff dest: build_term_keeps(1))

subsection \<open>A new contract\<close>

lemma required_parent:
  assumes "require_contract_parent rg t side s child = Inr q"
  shows "q \<in> set (contract_rows rg) \<and> row_tenant_id q = t \<and> row_side q = side"
  using assms named_document_Inr by (auto simp: require_contract_parent_def bindE_Inr_iff ensure_Inr_iff)

lemma parents_are_kept:
  assumes "tables_sound rg" and "supplements_match rg"
  shows "parents_kept cm_id cm_parent_id (\<lambda>_. []) (rg_more rg)"
  unfolding parents_kept_def
proof (intro ballI allI impI)
  fix m p assume "m \<in> set (rg_more rg)" "cm_parent_id m = Some p"
  then have "(cm_id m, p) \<in> supplement_links rg" by (rule parent_linksI)
  with assms(2) have "p \<in> row_id ` set (contract_rows rg)" by (fastforce simp: supplements_match_def)
  with assms(1) have "p \<in> cm_id ` set (rg_more rg)" by (simp add: tables_sound_def)
  then show "\<exists>r' \<in> set (rg_more rg). cm_id r' = p \<and> [] = []" by auto
qed

lemma added_contract_keeps:
  assumes ok: "register_in_order rg" and c: "row_model c = Contract" "row_id c = fresh_id (rg_db rg)" "side_agrees c" and m: "cm_id m = row_id c"
    and parent: "\<And>p. cm_parent_id m = Some p \<Longrightarrow>
      \<exists>q \<in> set (contract_rows rg). row_id q = p \<and> row_tenant_id q = row_tenant_id c \<and> row_side q = row_side c"
  shows "register_in_order (rg\<lparr>rg_db := (tick (rg_db rg))\<lparr>db_rows := db_rows (rg_db rg) @ [c]\<rparr>, rg_more := rg_more rg @ [m]\<rparr>)"
    (is "register_in_order ?rg")
proof -
  have t: "tables_sound rg" and match: "supplements_match rg" and ac: "acyclic (supplement_links rg)"
    using ok by (simp_all add: register_in_order_def)
  have rows: "contract_rows ?rg = contract_rows rg @ [c]" using c(1) by (simp add: contract_rows_def)
  have new: "row_id c \<notin> row_id ` set (contract_rows rg)" using fresh_not_in_use [OF t] c(2) by (auto simp: ids_in_use_def)
  then have new_more: "cm_id m \<notin> cm_id ` set (rg_more rg)" using t m by (simp add: tables_sound_def)
  have "reads_back (tick (rg_db rg)) (insert (fresh_id (rg_db rg)) (ids_in_use rg))"
    using t by (auto simp: tables_sound_def intro: reads_back_fresh)
  then have "reads_back (rg_db ?rg) (ids_in_use ?rg)"
    by (rule reads_back_same) (auto simp: rows ids_in_use_def c(2))
  then have "tables_sound ?rg"
    using t new new_more m unfolding tables_sound_def rows by auto
  moreover have "sides_agree ?rg" using ok c(3) by (simp add: sides_agree_def rows register_in_order_def)
  moreover have "supplements_match ?rg"
    unfolding supplements_match_def
  proof (intro ballI, clarify)
    fix i p assume "(i, p) \<in> supplement_links ?rg"
    then consider "(i, p) \<in> supplement_links rg" | "i = cm_id m" "cm_parent_id m = Some p"
      by (auto simp: parent_links_snoc split: option.splits)
    then show "\<exists>x \<in> set (contract_rows ?rg). \<exists>q \<in> set (contract_rows ?rg).
        row_id x = i \<and> row_id q = p \<and> row_tenant_id q = row_tenant_id x \<and> row_side q = row_side x"
    proof cases
      case 1
      then show ?thesis using match unfolding supplements_match_def rows by fastforce
    next
      case 2
      from parent [OF 2(2)] show ?thesis unfolding rows using m 2(1) by auto
    qed
  qed
  moreover have "acyclic (supplement_links ?rg)"
  proof -
    have "p \<in> cm_id ` set (rg_more rg)" if "cm_parent_id m = Some p" for p
      using parent [OF that] t by (auto simp: tables_sound_def)
    with acyclic_new_leaf [OF ac parents_are_kept [OF t match] new_more] show ?thesis by simp
  qed
  moreover have "clauses_located ?rg" using ok by (simp add: register_in_order_def clauses_located_def)
  ultimately show ?thesis by (simp add: register_in_order_def)
qed

lemma resolved_party:
  assumes "resolve_counterparty rg t p = Inr (v, c, s)" and "one_side p"
  shows "(v \<noteq> None \<longrightarrow> given (nq_vendor_id p) \<and> c = None) \<and> (c \<noteq> None \<longrightarrow> given (nq_customer_id p) \<and> \<not> given (nq_vendor_id p))"
  using assms by (auto simp: resolve_counterparty_def bindE_Inr_iff split: if_splits)

lemma create_contract_parts:
  assumes step: "create_contract now rg a p v = Inr (c, rg')"
  obtains party employee parent opportunity upstream status number rg2 documents rg3 rg4 where
    "one_side p" and "resolve_counterparty rg (ac_tenant_id a) p = Inr party"
    and "if_given (nq_parent_id p) (\<lambda>s. bindE (require_contract_parent rg (ac_tenant_id a)
      (side_of (nq_vendor_id p) (nq_customer_id p) (case nq_side p of None \<Rightarrow> [] | Some s \<Rightarrow> s)) s None) (\<lambda>c. Inr (row_id c))) = Inr parent"
    and "c = new_contract (rg_db rg) (ac_tenant_id a) p party employee status number"
    and "file_items (ac_tenant_id a) (row_id c) (rg\<lparr>rg_db := (tick (rg_db rg))\<lparr>db_rows := db_rows (rg_db rg) @ [c]\<rparr>,
        rg_more := rg_more rg @ [\<lparr>cm_id = row_id c, cm_type = nq_type p, cm_parent_id = parent, cm_opportunity_id = opportunity,
            cm_from = nq_from p, cm_to = nq_to p, cm_signed_at = (if status = ''signed'' then Some now else None), cm_upstream = upstream\<rparr>]\<rparr>)
        (nq_items p) = Inr rg2"
    and "file_documents (ac_tenant_id a) (row_id c) rg2 (nq_documents p) = Inr (documents, rg3)"
    and "file_terms (ac_tenant_id a) (row_id c) documents rg3 (nq_terms p) = Inr rg4"
    and "rg' = (if v then rg else rg4)"
proof -
  let ?side = "side_of (nq_vendor_id p) (nq_customer_id p) (case nq_side p of None \<Rightarrow> [] | Some s \<Rightarrow> s)"
  from step obtain party employee parent opportunity upstream status number rg2 x where
    valid: "one_side p" "has_a_counterparty p" "list_all names_something (nq_items p)"
    and party: "resolve_counterparty rg (ac_tenant_id a) p = Inr party"
    and parent: "if_given (nq_parent_id p) (\<lambda>s. bindE (require_contract_parent rg (ac_tenant_id a) ?side s None) (\<lambda>c. Inr (row_id c))) = Inr parent"
    and items: "file_items (ac_tenant_id a) (row_id (new_contract (rg_db rg) (ac_tenant_id a) p party employee status number))
        (rg\<lparr>rg_db := (tick (rg_db rg))\<lparr>db_rows := db_rows (rg_db rg) @ [new_contract (rg_db rg) (ac_tenant_id a) p party employee status number]\<rparr>,
        rg_more := rg_more rg @ [\<lparr>cm_id = row_id (new_contract (rg_db rg) (ac_tenant_id a) p party employee status number), cm_type = nq_type p,
            cm_parent_id = parent, cm_opportunity_id = opportunity,
            cm_from = nq_from p, cm_to = nq_to p, cm_signed_at = (if status = ''signed'' then Some now else None), cm_upstream = upstream\<rparr>]\<rparr>)
        (nq_items p) = Inr rg2"
    and documents: "file_documents (ac_tenant_id a) (row_id (new_contract (rg_db rg) (ac_tenant_id a) p party employee status number)) rg2 (nq_documents p) = Inr x"
    and rest: "(case x of (documents, rg3) \<Rightarrow> bindE (ensure (\<not> filed_twice (rg_documents rg3)) 409 ''contract_no_already_exists'') (\<lambda>_.
         bindE (file_terms (ac_tenant_id a) (row_id (new_contract (rg_db rg) (ac_tenant_id a) p party employee status number)) documents rg3 (nq_terms p)) (\<lambda>rg4.
         Inr (new_contract (rg_db rg) (ac_tenant_id a) p party employee status number, if v then rg else rg4)))) = Inr (c, rg')"
    unfolding create_contract_def Let_def bindE_Inr_iff ensure_Inr_iff by (elim exE conjE) (rule that)
  obtain ds rg3 where x: "x = (ds, rg3)" by (cases x)
  from rest obtain rg4 where c: "c = new_contract (rg_db rg) (ac_tenant_id a) p party employee status number" and rg': "rg' = (if v then rg else rg4)"
    and terms: "file_terms (ac_tenant_id a) (row_id c) ds rg3 (nq_terms p) = Inr rg4"
    unfolding x by (auto simp: bindE_Inr_iff)
  show thesis by (rule that [OF valid(1) party parent c items [folded c] documents [folded c, unfolded x] terms rg'])
qed

lemma create_contract_keeps:
  assumes ok: "register_in_order rg" and step: "create_contract now rg a p v = Inr (c, rg')"
  shows "register_in_order rg'"
proof -
  let ?side = "side_of (nq_vendor_id p) (nq_customer_id p) (case nq_side p of None \<Rightarrow> [] | Some s \<Rightarrow> s)"
  from step obtain party employee parent opportunity upstream status number rg2 ds rg3 rg4 where
    valid: "one_side p" and party: "resolve_counterparty rg (ac_tenant_id a) p = Inr party"
    and parent: "if_given (nq_parent_id p) (\<lambda>s. bindE (require_contract_parent rg (ac_tenant_id a) ?side s None) (\<lambda>c. Inr (row_id c))) = Inr parent"
    and c: "c = new_contract (rg_db rg) (ac_tenant_id a) p party employee status number"
    and items: "file_items (ac_tenant_id a) (row_id c) (rg\<lparr>rg_db := (tick (rg_db rg))\<lparr>db_rows := db_rows (rg_db rg) @ [c]\<rparr>,
        rg_more := rg_more rg @ [\<lparr>cm_id = row_id c, cm_type = nq_type p, cm_parent_id = parent, cm_opportunity_id = opportunity,
            cm_from = nq_from p, cm_to = nq_to p, cm_signed_at = (if status = ''signed'' then Some now else None), cm_upstream = upstream\<rparr>]\<rparr>)
        (nq_items p) = Inr rg2"
    and documents: "file_documents (ac_tenant_id a) (row_id c) rg2 (nq_documents p) = Inr (ds, rg3)"
    and terms: "file_terms (ac_tenant_id a) (row_id c) ds rg3 (nq_terms p) = Inr rg4"
    and rg': "rg' = (if v then rg else rg4)"
    by (rule create_contract_parts)
  obtain vn cu nm where p3: "party = (vn, cu, nm)" by (cases party)
  note r = resolved_party [OF party [unfolded p3]] 
  have cf: "row_model c = Contract" "row_id c = fresh_id (rg_db rg)" "row_tenant_id c = ac_tenant_id a" "row_side c = ?side"
    "row_vendor_id c = vn" "row_customer_id c = cu"
    by (simp_all add: c p3 new_contract_def)
  have "side_agrees c" using r [OF valid] by (auto simp: side_agrees_def cf side_of_def)
  moreover have "\<exists>q \<in> set (contract_rows rg). row_id q = i \<and> row_tenant_id q = row_tenant_id c \<and> row_side q = row_side c"
    if "parent = Some i" for i
    using parent that required_parent by (fastforce simp: if_given_def bindE_Inr_iff cf split: option.splits if_splits)
  ultimately have "register_in_order (rg\<lparr>rg_db := (tick (rg_db rg))\<lparr>db_rows := db_rows (rg_db rg) @ [c]\<rparr>,
        rg_more := rg_more rg @ [\<lparr>cm_id = row_id c, cm_type = nq_type p, cm_parent_id = parent, cm_opportunity_id = opportunity,
            cm_from = nq_from p, cm_to = nq_to p, cm_signed_at = (if status = ''signed'' then Some now else None), cm_upstream = upstream\<rparr>]\<rparr>)"
    by (intro added_contract_keeps [OF ok cf(1,2)]) simp_all
  from file_terms_keeps [OF file_documents_keeps [OF documents file_items_keeps [OF this items]] terms] ok show ?thesis by (simp add: rg')
qed

subsection \<open>A changed contract\<close>

lemma changed_contract_keeps:
  assumes ok: "register_in_order rg" and c: "c \<in> set (contract_rows rg)"
    and rows: "contract_rows rg' = update_rows (\<lambda>r. row_id r = row_id c) f (contract_rows rg)"
    and more: "rg_more rg' = update_rows (\<lambda>m. cm_id m = row_id c) g (rg_more rg)"
    and f: "row_id (f c) = row_id c" "row_tenant_id (f c) = row_tenant_id c" "side_agrees (f c)"
    and g: "\<And>m. cm_id (g m) = cm_id m"
    and side: "row_side (f c) = row_side c \<or> (\<forall>p. (row_id c, p) \<notin> supplement_links rg \<and> (p, row_id c) \<notin> supplement_links rg)"
    and parent: "\<And>m p. m \<in> set (rg_more rg) \<Longrightarrow> cm_id m = row_id c \<Longrightarrow> cm_parent_id (g m) = Some p \<Longrightarrow>
      cm_parent_id m = Some p \<or> supplement_accepts rg (row_id c) p \<and>
      (\<exists>q \<in> set (contract_rows rg). row_id q = p \<and> row_tenant_id q = row_tenant_id c \<and> row_side q = row_side (f c))"
    and same: "rg_items rg' = rg_items rg" "rg_documents rg' = rg_documents rg" "rg_terms rg' = rg_terms rg"
    and db: "db_uuid_in (rg_db rg') = db_uuid_in (rg_db rg)" "db_uuids (rg_db rg') = db_uuids (rg_db rg)" "db_next (rg_db rg') = db_next (rg_db rg)"
  shows "register_in_order rg'"
proof -
  have t: "tables_sound rg" and match: "supplements_match rg" and ac: "acyclic (supplement_links rg)"
    using ok by (simp_all add: register_in_order_def)
  have only: "r = c" if "r \<in> set (contract_rows rg)" "row_id r = row_id c" for r
    using that c t by (auto simp: tables_sound_def distinct_map inj_on_def)
  have "map row_id (contract_rows rg') = map row_id (contract_rows rg)"
    unfolding rows update_rows_def map_map using f only by (intro map_cong) auto
  moreover have "map cm_id (rg_more rg') = map cm_id (rg_more rg)" unfolding more using g by (simp add: map_update_rows_same)
  ultimately have sound: "tables_sound rg'" using t by (intro tables_sound_same [OF t _ _ db]) (simp_all add: same tables_sound_def)
  have row: "x = f c \<or> x \<in> set (contract_rows rg) \<and> row_id x \<noteq> row_id c" if "x \<in> set (contract_rows rg')" for x
    using that only unfolding rows set_update_rows by auto
  then have "sides_agree rg'" using ok f(3) by (auto simp: sides_agree_def register_in_order_def)
  moreover have "acyclic (supplement_links rg')"
  proof (rule supplements.moved_keeps_acyclic [of rg g "row_id c"])
    show "chains_end rg" using t match ac by (simp add: chains_end_def)
    show "cm_parent_id m = Some p \<or> supplement_accepts rg (row_id c) p"
      if "m \<in> set (rg_more rg)" "cm_id m = row_id c" "cm_parent_id (g m) = Some p" for m p
      using parent [OF that] by blast
  qed (fact ac g more)+
  moreover have "supplements_match rg'"
    unfolding supplements_match_def
  proof (intro ballI, clarify)
    fix i p assume link: "(i, p) \<in> supplement_links rg'"
    have "\<exists>x \<in> set (contract_rows rg). \<exists>q \<in> set (contract_rows rg). row_id x = i \<and> row_id q = p \<and> row_tenant_id q = row_tenant_id x \<and>
        (if q = c then row_side (f c) else row_side q) = (if x = c then row_side (f c) else row_side x)"
    proof (cases "(i, p) \<in> supplement_links rg")
      case True
      then obtain x q where xq: "x \<in> set (contract_rows rg)" "q \<in> set (contract_rows rg)" "row_id x = i" "row_id q = p"
        "row_tenant_id q = row_tenant_id x" "row_side q = row_side x" using match by (fastforce simp: supplements_match_def)
      with side True have "(if q = c then row_side (f c) else row_side q) = (if x = c then row_side (f c) else row_side x)" by auto
      with xq show ?thesis by blast
    next
      case False
      with link obtain m where m: "m \<in> set (rg_more rg)" "cm_id m = row_id c" "cm_parent_id (g m) = Some p" "i = row_id c"
        using g by (auto simp: more parent_links_def set_update_rows)
      with False have "cm_parent_id m \<noteq> Some p" using parent_linksI [OF m(1), of cm_parent_id p cm_id] by auto
      with parent [OF m(1-3)] obtain q where "q \<in> set (contract_rows rg)" "row_id q = p" "row_tenant_id q = row_tenant_id c"
        "row_side q = row_side (f c)" by blast
      with c m(4) show ?thesis by (intro bexI [of _ c] bexI [of _ q]) auto
    qed
    then obtain x q where xq: "x \<in> set (contract_rows rg)" "q \<in> set (contract_rows rg)" "row_id x = i" "row_id q = p"
      "row_tenant_id q = row_tenant_id x" "(if q = c then row_side (f c) else row_side q) = (if x = c then row_side (f c) else row_side x)" by blast
    let ?h = "\<lambda>z. if z = c then f c else z"
    have image: "?h z \<in> set (contract_rows rg')" if "z \<in> set (contract_rows rg)" for z
      using that only unfolding rows set_update_rows by auto
    have "row_id (?h x) = i" "row_id (?h q) = p" "row_tenant_id (?h q) = row_tenant_id (?h x)" "row_side (?h q) = row_side (?h x)"
      using xq f by auto
    then show "\<exists>x \<in> set (contract_rows rg'). \<exists>q \<in> set (contract_rows rg').
        row_id x = i \<and> row_id q = p \<and> row_tenant_id q = row_tenant_id x \<and> row_side q = row_side x"
      using image [OF xq(1)] image [OF xq(2)] by blast
  qed
  moreover have "clauses_located rg'" using ok by (simp add: register_in_order_def clauses_located_def same)
  ultimately show ?thesis using sound by (simp add: register_in_order_def)
qed

lemma identified:
  assumes "identify_counterparty rg a c u = Inr c'"
  shows "row_id c' = row_id c \<and> row_model c' = row_model c \<and> row_tenant_id c' = row_tenant_id c \<and> row_status c' = row_status c \<and>
    (side_agrees c \<longrightarrow> side_agrees c') \<and> (row_side c' = row_side c \<or> \<not> executing rg c)"
  using assms
  by (auto simp: identify_counterparty_def Let_def bindE_Inr_iff ensure_Inr_iff side_agrees_def side_of_def split: if_splits)

lemma not_executing:
  assumes "\<not> executing rg c" and "tables_sound rg" and "supplements_match rg" and "c \<in> set (contract_rows rg)"
  shows "(row_id c, p) \<notin> supplement_links rg \<and> (p, row_id c) \<notin> supplement_links rg"
proof
  show "(row_id c, p) \<notin> supplement_links rg" using assms(1) parent_of_link [OF assms(2)] by (auto simp: executing_def)
  show "(p, row_id c) \<notin> supplement_links rg"
  proof
    assume link: "(p, row_id c) \<in> supplement_links rg"
    with assms(3) obtain x q where xq: "x \<in> set (contract_rows rg)" "q \<in> set (contract_rows rg)" "row_id x = p" "row_id q = row_id c"
      "row_tenant_id q = row_tenant_id x" by (fastforce simp: supplements_match_def)
    with assms(2,4) have "q = c" by (auto simp: tables_sound_def distinct_map inj_on_def)
    with xq link parent_of_link [OF assms(2)] have "parent_of rg (row_id x) = Some (row_id c)" by auto
    with xq \<open>q = c\<close> assms(1) show False by (auto simp: executing_def list_ex_iff contract_rows_def)
  qed
qed

lemma update_contract_parts:
  assumes step: "update_contract now rg a s u = Inr (c', rg')"
  obtains c d employee parent opportunity upstream db' status signed where
    "require_contract_access rg a s = Inr c" and "identify_counterparty rg a c u = Inr d"
    and "sent_id (uc_parent_id u) (\<lambda>x. bindE (require_contract_parent rg (ac_tenant_id a) (row_side d) x (Some (row_id d))) (\<lambda>c. Inr (row_id c))) = Inr parent"
    and "db' = rg_db rg \<or> (\<exists>st m. apply_status_change (rg_db rg) a d st = Inr (m, db'))"
    and "touches_the_agreement u \<longrightarrow> ensure_document_editable (rg_db rg) d = Inr ()"
    and "c' = changed_row u employee status d"
    and "rg' = rg\<lparr>rg_db := set_row Contract (row_id c) (\<lambda>_. c') db',
              rg_more := update_rows (\<lambda>m. cm_id m = row_id c) (changed_more now u parent opportunity upstream signed) (rg_more rg)\<rparr>"
proof -
  let ?moves = "\<lambda>d :: row. case uc_status u of Some (Some st) \<Rightarrow> st \<noteq> row_status d | _ \<Rightarrow> False"
    and ?state = "\<lambda>d :: row. case uc_status u of Some (Some st) \<Rightarrow> st | _ \<Rightarrow> row_status d"
  from step obtain c d employee parent opportunity upstream db' z where
    access: "require_contract_access rg a s = Inr c"
    and d: "identify_counterparty rg a c u = Inr d"
    and parent: "sent_id (uc_parent_id u) (\<lambda>x. bindE (require_contract_parent rg (ac_tenant_id a) (row_side d) x (Some (row_id d))) (\<lambda>c. Inr (row_id c))) = Inr parent"
    and moved: "(if ?moves d then bindE (apply_status_change (rg_db rg) a d (?state d)) (\<lambda>(_, db'). Inr db') else Inr (rg_db rg)) = Inr db'"
    and touched: "(if touches_the_agreement u then ensure_document_editable (rg_db rg) d else Inr ()) = Inr z"
    and answer: "Inr (changed_row u employee (?state d) d, rg\<lparr>rg_db := set_row Contract (row_id c) (\<lambda>_. changed_row u employee (?state d) d) db',
              rg_more := update_rows (\<lambda>m. cm_id m = row_id c) (changed_more now u parent opportunity upstream (?moves d \<and> ?state d = ''signed'')) (rg_more rg)\<rparr>) =
      (Inr (c', rg') :: (row \<times> contract_register) result)"
    unfolding update_contract_def Let_def bindE_Inr_iff by (elim exE conjE) (rule that)
  define status signed where "status = ?state d" and "signed \<longleftrightarrow> ?moves d \<and> ?state d = ''signed''"
  note both = answer [unfolded sum.inject prod.inject]
  have c': "c' = changed_row u employee status d" unfolding status_def by (rule conjunct1 [OF both, symmetric])
  have rg': "rg' = rg\<lparr>rg_db := set_row Contract (row_id c) (\<lambda>_. c') db',
              rg_more := update_rows (\<lambda>m. cm_id m = row_id c) (changed_more now u parent opportunity upstream signed) (rg_more rg)\<rparr>"
    unfolding c' status_def signed_def by (rule conjunct2 [OF both, symmetric])
  from moved have db': "db' = rg_db rg \<or> (\<exists>st m. apply_status_change (rg_db rg) a d st = Inr (m, db'))"
    by (auto simp: bindE_Inr_iff split: if_splits)
  have "touches_the_agreement u \<longrightarrow> ensure_document_editable (rg_db rg) d = Inr ()" using touched by (simp split: if_splits)
  from that [OF access d parent db' this c' rg'] show thesis .
qed

lemma update_contract_keeps:
  assumes ok: "register_in_order rg" and step: "update_contract now rg a s u = Inr (c', rg')"
  shows "register_in_order rg'"
proof -
  have t: "tables_sound rg" and match: "supplements_match rg" using ok by (simp_all add: register_in_order_def)
  from step obtain c d employee parent opportunity upstream db' status signed where
    access: "require_contract_access rg a s = Inr c" and d: "identify_counterparty rg a c u = Inr d"
    and parent: "sent_id (uc_parent_id u) (\<lambda>x. bindE (require_contract_parent rg (ac_tenant_id a) (row_side d) x (Some (row_id d))) (\<lambda>c. Inr (row_id c))) = Inr parent"
    and db': "db' = rg_db rg \<or> (\<exists>st m. apply_status_change (rg_db rg) a d st = Inr (m, db'))"
    and c': "c' = changed_row u employee status d"
    and rg': "rg' = rg\<lparr>rg_db := set_row Contract (row_id c) (\<lambda>_. c') db',
              rg_more := update_rows (\<lambda>m. cm_id m = row_id c) (changed_more now u parent opportunity upstream signed) (rg_more rg)\<rparr>"
    by (rule update_contract_parts)
  note c = access_Inr [OF access] and id = identified [OF d]
  have db: "db_rows db' = db_rows (rg_db rg)" "db_uuid_in db' = db_uuid_in (rg_db rg)" "db_uuids db' = db_uuids (rg_db rg)" "db_next db' = db_next (rg_db rg)"
    using db' status_change_leaves by auto
  have cs: "c \<in> set (contract_rows rg)" "side_agrees c" "row_model c = Contract"
    using c ok by (auto simp: register_in_order_def sides_agree_def contract_rows_def)
  have same: "row_id c' = row_id c" "row_tenant_id c' = row_tenant_id c" "row_model c' = Contract" "row_side c' = row_side d"
    using id cs by (simp_all add: c' changed_row_def)
  show ?thesis
  proof (rule changed_contract_keeps [OF ok cs(1), where f = "\<lambda>_. c'" and g = "changed_more now u parent opportunity upstream signed"])
    show "contract_rows rg' = update_rows (\<lambda>r. row_id r = row_id c) (\<lambda>_. c') (contract_rows rg)"
      by (rule contract_rows_set_row [of _ _ _ db']) (simp_all add: rg' same db)
    show "side_agrees c'" using id cs by (simp add: c' changed_row_def side_agrees_def)
    show "row_side c' = row_side c \<or> (\<forall>p. (row_id c, p) \<notin> supplement_links rg \<and> (p, row_id c) \<notin> supplement_links rg)"
      using id not_executing [OF _ t match cs(1)] same(4) by auto
    fix m p assume m: "m \<in> set (rg_more rg)" "cm_id m = row_id c" "cm_parent_id (changed_more now u parent opportunity upstream signed m) = Some p"
    show "cm_parent_id m = Some p \<or> supplement_accepts rg (row_id c) p \<and>
        (\<exists>q \<in> set (contract_rows rg). row_id q = p \<and> row_tenant_id q = row_tenant_id c \<and> row_side q = row_side c')"
    proof (cases parent)
      case (Some x)
      with m(3) have "parent = Some (Some p)" by (simp add: changed_more_def or_kept_def)
      with parent obtain y q where "require_contract_parent rg (ac_tenant_id a) (row_side d) y (Some (row_id d)) = Inr q" "row_id q = p"
        by (auto simp: sent_id_def if_given_def bindE_Inr_iff split: option.splits if_splits)
      with required_parent [OF this(1)] id same c show ?thesis by (auto simp: supplement_accepts_def)
    qed (use m in \<open>simp add: changed_more_def or_kept_def\<close>)
  qed (simp_all add: rg' same db set_row_def changed_more_def)
qed

lemma stamped_contract_keeps:
  assumes ok: "register_in_order rg" and c: "get_row (rg_db rg) Contract i = Some c"
    and rows: "db_rows (rg_db rg') = db_rows (set_row Contract i f (rg_db rg))"
    and f: "\<And>r. row_model (f r) = row_model r \<and> row_id (f r) = row_id r \<and> row_tenant_id (f r) = row_tenant_id r \<and> row_side (f r) = row_side r \<and>
      row_vendor_id (f r) = row_vendor_id r \<and> row_customer_id (f r) = row_customer_id r"
    and same: "rg_more rg' = rg_more rg" "rg_items rg' = rg_items rg" "rg_documents rg' = rg_documents rg" "rg_terms rg' = rg_terms rg"
    and db: "db_uuid_in (rg_db rg') = db_uuid_in (rg_db rg)" "db_uuids (rg_db rg') = db_uuids (rg_db rg)" "db_next (rg_db rg') = db_next (rg_db rg)"
  shows "register_in_order rg'"
proof -
  note get = get_contract [OF c]
  have agrees: "side_agrees (f c)" using ok get f by (auto simp: register_in_order_def sides_agree_def side_agrees_def)
  show ?thesis
  proof (rule changed_contract_keeps [OF ok, of c _ f id])
    show "contract_rows rg' = update_rows (\<lambda>r. row_id r = row_id c) f (contract_rows rg)"
      using contract_rows_set_row [of f rg' i "rg_db rg" rg] rows f get by simp
    show "rg_more rg' = update_rows (\<lambda>m. cm_id m = row_id c) id (rg_more rg)"
      unfolding same update_rows_def by (rule map_idI [symmetric]) simp
  qed (use get f agrees same db in auto)
qed

lemma delete_contract_keeps:
  assumes ok: "register_in_order rg" and step: "delete_contract now rg a i = Inr rg'"
  shows "register_in_order rg'"
proof -
  from step obtain db' where d: "delete_document now (rg_db rg) a Contract i None None = Inr db'" and rg': "rg' = rg\<lparr>rg_db := db'\<rparr>"
    by (auto simp: delete_contract_def bindE_Inr_iff)
  show ?thesis
  proof (cases "db' = rg_db rg")
    case False
    with d obtain family c where c: "get_row (rg_db rg) Contract i = Some c"
      and db': "db' = cancel_todos_for a (df_object_type family) (row_id c) None (set_row Contract i (stamp_deleted family a now None None) (rg_db rg))"
      by (auto simp: delete_document_def bindE_Inr_iff get_scoped_or_404_Inr Let_def split: if_splits)
    show ?thesis
      by (rule stamped_contract_keeps [OF ok c, of _ "stamp_deleted family a now None None"])
        (simp_all add: rg' db' store_simps stamp_deleted_def Let_def set_row_def)
  qed (use ok rg' in simp)
qed

lemma restore_contract_keeps:
  assumes ok: "register_in_order rg" and step: "restore_contract rg a i = Inr (r, rg')"
  shows "register_in_order rg'"
proof -
  from step obtain db' where d: "restore_document (rg_db rg) a Contract i = Inr (r, db')" and rg': "rg' = rg\<lparr>rg_db := db'\<rparr>"
    by (auto simp: restore_contract_def bindE_Inr_iff)
  show ?thesis
  proof (cases "db' = rg_db rg")
    case False
    with d obtain family c where c: "get_row (rg_db rg) Contract i = Some c" and db': "db' = set_row Contract i (clear_deleted family) (rg_db rg)"
      by (auto simp: restore_document_def bindE_Inr_iff get_scoped_or_404_Inr Let_def split: if_splits)
    show ?thesis
      by (rule stamped_contract_keeps [OF ok c, of _ "clear_deleted family"])
        (simp_all add: rg' db' store_simps clear_deleted_def Let_def set_row_def)
  qed (use ok rg' in simp)
qed

subsection \<open>Changes of lines, originals and clauses\<close>

lemma children_change_keeps:
  assumes ok: "register_in_order rg" and same: "rg_db rg' = rg_db rg" "rg_more rg' = rg_more rg"
    and distinct: "distinct (map ki_id (rg_items rg'))" "distinct (map kd_id (rg_documents rg'))" "distinct (map kt_id (rg_terms rg'))"
    and ids: "ki_id ` set (rg_items rg') \<subseteq> ki_id ` set (rg_items rg)" "kd_id ` set (rg_documents rg') \<subseteq> kd_id ` set (rg_documents rg)"
      "kt_id ` set (rg_terms rg') \<subseteq> kt_id ` set (rg_terms rg)"
    and located: "clauses_located rg'"
  shows "register_in_order rg'"
proof -
  have rows: "contract_rows rg' = contract_rows rg" using same(1) by (simp add: contract_rows_def)
  have "tables_sound rg" using ok by (simp add: register_in_order_def)
  then have "tables_sound rg'" by (rule tables_sound_same) (use rows same distinct ids in simp_all)
  with ok located same_contracts [OF rows same(2)] show ?thesis by (simp add: register_in_order_def)
qed

lemma register_distinct:
  assumes "register_in_order rg"
  shows "distinct (map ki_id (rg_items rg))" "distinct (map kd_id (rg_documents rg))" "distinct (map kt_id (rg_terms rg))"
  using assms by (simp_all add: register_in_order_def tables_sound_def)

lemma located_by_documents:
  assumes "clauses_located rg" and "rg_terms rg' = rg_terms rg"
    and "\<And>d. d \<in> set (rg_documents rg) \<Longrightarrow> \<exists>d' \<in> set (rg_documents rg'). kd_id d' = kd_id d \<and> kd_contract_id d' = kd_contract_id d \<and> kd_tenant_id d' = kd_tenant_id d"
  shows "clauses_located rg'"
  using assms unfolding clauses_located_def by metis

lemma map_update_same: "(\<And>r. k (f r) = k r) \<Longrightarrow> map k (update_rows P f rs) = map k rs"
  by (simp add: update_rows_def)

lemma changed_item_keeps:
  assumes ok: "register_in_order rg" and f: "\<And>i. ki_id (f i) = ki_id i"
  shows "register_in_order (rg\<lparr>rg_items := update_rows P f (rg_items rg)\<rparr>)" (is "register_in_order ?rg")
proof -
  have ids: "map ki_id (rg_items ?rg) = map ki_id (rg_items rg)" using f by (simp add: map_update_same)
  show ?thesis
  proof (rule children_change_keeps [OF ok])
    show "ki_id ` set (rg_items ?rg) \<subseteq> ki_id ` set (rg_items rg)" using ids by (metis set_map order_refl)
    show "clauses_located ?rg" using ok by (simp add: register_in_order_def clauses_located_def)
  qed (use ids register_distinct [OF ok] in simp_all)
qed

lemma removed_item_keeps:
  assumes ok: "register_in_order rg"
  shows "register_in_order (rg\<lparr>rg_items := filter P (rg_items rg)\<rparr>)"
  by (rule children_change_keeps [OF ok])
    (use ok register_distinct [OF ok] in \<open>auto simp: register_in_order_def clauses_located_def intro: distinct_map_filter\<close>)

lemma update_item_keeps: "register_in_order rg \<Longrightarrow> update_contract_item rg a s u = Inr rg' \<Longrightarrow> register_in_order rg'"
  by (auto simp: update_contract_item_def bindE_Inr_iff updated_contract_item_def intro!: changed_item_keeps)

lemma delete_item_keeps: "register_in_order rg \<Longrightarrow> delete_contract_item rg a s = Inr rg' \<Longrightarrow> register_in_order rg'"
  by (auto simp: delete_contract_item_def bindE_Inr_iff intro!: removed_item_keeps)

lemma update_document_keeps:
  assumes ok: "register_in_order rg" and step: "update_contract_document rg a s q = Inr rg'"
  shows "register_in_order rg'"
proof -
  consider "rg' = rg"
    | i t where "rg' = rg\<lparr>rg_documents := update_rows (\<lambda>y. kd_id y = i) (\<lambda>y. y\<lparr>kd_type := t\<rparr>) (rg_documents rg)\<rparr>"
  proof (cases q)
    case None
    with step show thesis by (auto simp: update_contract_document_def bindE_Inr_iff intro: that)
  next
    case (Some x)
    with step show thesis by (cases x) (auto simp: update_contract_document_def bindE_Inr_iff intro: that)
  qed
  then show ?thesis
  proof cases
    case 2
    have ids: "map kd_id (rg_documents rg') = map kd_id (rg_documents rg)" unfolding 2 by (simp add: map_update_same)
    show ?thesis
    proof (rule children_change_keeps [OF ok])
      show "kd_id ` set (rg_documents rg') \<subseteq> kd_id ` set (rg_documents rg)" using ids by (metis set_map order_refl)
      show "clauses_located rg'"
      proof (rule located_by_documents)
        show "clauses_located rg" using ok by (simp add: register_in_order_def)
        show "\<exists>d' \<in> set (rg_documents rg'). kd_id d' = kd_id d \<and> kd_contract_id d' = kd_contract_id d \<and> kd_tenant_id d' = kd_tenant_id d"
          if "d \<in> set (rg_documents rg)" for d
          by (rule bexI [of _ "if kd_id d = i then d\<lparr>kd_type := t\<rparr> else d"]) (use that in \<open>auto simp: 2 set_update_rows\<close>)
      qed (simp add: 2)
    qed (use ids register_distinct [OF ok] in \<open>simp_all add: 2\<close>)
  qed (use ok in simp)
qed

lemma delete_document_keeps:
  assumes ok: "register_in_order rg" and step: "delete_contract_document rg a s = Inr rg'"
  shows "register_in_order rg'"
proof -
  from step obtain d where found: "contract_file_or_404 rg (ac_tenant_id a) s = Inr d"
    and rg': "rg' = rg\<lparr>rg_terms := update_rows (\<lambda>t. kt_tenant_id t = ac_tenant_id a \<and> kt_document_id t = Some (kd_id d)) (\<lambda>t. t\<lparr>kt_document_id := None\<rparr>) (rg_terms rg),
             rg_documents := filter (\<lambda>x. kd_id x \<noteq> kd_id d) (rg_documents rg)\<rparr>"
    unfolding delete_contract_document_def bindE_Inr_iff by (elim exE conjE) auto
  have d: "d \<in> set (rg_documents rg)" "kd_tenant_id d = ac_tenant_id a"
    using found scoped_row_Inr by (fastforce simp: contract_file_or_404_def)+
  have located: "clauses_located rg" and dist: "distinct (map kd_id (rg_documents rg))"
    using ok register_distinct by (auto simp: register_in_order_def)
  have ids: "map kt_id (rg_terms rg') = map kt_id (rg_terms rg)" unfolding rg' by (simp add: map_update_same)
  show ?thesis
  proof (rule children_change_keeps [OF ok])
    show "kt_id ` set (rg_terms rg') \<subseteq> kt_id ` set (rg_terms rg)" using ids by (metis set_map order_refl)
    show "clauses_located rg'"
      unfolding clauses_located_def
    proof (intro ballI allI impI)
      fix t i assume t: "t \<in> set (rg_terms rg')" "kt_document_id t = Some i"
      then have old: "t \<in> set (rg_terms rg)" and free: "\<not> (kt_tenant_id t = ac_tenant_id a \<and> i = kd_id d)"
        by (auto simp: rg' set_update_rows)
      from located old t(2) obtain e where e: "e \<in> set (rg_documents rg)" "kd_id e = i" "kd_contract_id e = kt_contract_id t" "kd_tenant_id e = kt_tenant_id t"
        unfolding clauses_located_def by blast
      have "kd_id e \<noteq> kd_id d"
      proof
        assume "kd_id e = kd_id d"
        with e(1) d(1) dist have "e = d" by (auto simp: distinct_map inj_on_def)
        with e(2,4) d(2) free show False by simp
      qed
      with e show "\<exists>d \<in> set (rg_documents rg'). kd_id d = i \<and> kd_contract_id d = kt_contract_id t \<and> kd_tenant_id d = kt_tenant_id t"
        by (intro bexI [of _ e]) (simp_all add: rg')
    qed
  qed (use ids register_distinct [OF ok] in \<open>auto simp: rg' intro: distinct_map_filter\<close>)
qed

lemma update_term_keeps:
  assumes ok: "register_in_order rg" and step: "update_contract_term rg a s u = Inr rg'"
  shows "register_in_order rg'"
proof -
  from step obtain t place where found: "contract_term_or_404 rg (ac_tenant_id a) s = Inr t"
    and place: "(case ku_document_id u of None \<Rightarrow> Inr None
            | Some x \<Rightarrow> bindE (require_term_document rg (ac_tenant_id a) (kt_contract_id t) x) (\<lambda>f. Inr (Some f))) = Inr place"
    and rg': "rg' = rg\<lparr>rg_terms := update_rows (\<lambda>x. kt_id x = kt_id t) (updated_term u place) (rg_terms rg)\<rparr>"
    unfolding update_contract_term_def bindE_Inr_iff by (elim exE conjE) auto
  have t: "t \<in> set (rg_terms rg)" "kt_tenant_id t = ac_tenant_id a"
    using found scoped_row_Inr by (fastforce simp: contract_term_or_404_def)+
  have located: "clauses_located rg" and dist: "distinct (map kt_id (rg_terms rg))"
    using ok register_distinct by (auto simp: register_in_order_def)
  have ids: "map kt_id (rg_terms rg') = map kt_id (rg_terms rg)" unfolding rg' by (simp add: map_update_same updated_term_def)
  show ?thesis
  proof (rule children_change_keeps [OF ok])
    show "kt_id ` set (rg_terms rg') \<subseteq> kt_id ` set (rg_terms rg)" using ids by (metis set_map order_refl)
    show "clauses_located rg'"
      unfolding clauses_located_def
    proof (intro ballI allI impI)
      fix x i assume x: "x \<in> set (rg_terms rg')" "kt_document_id x = Some i"
      then consider "x \<in> set (rg_terms rg)" | y where "y \<in> set (rg_terms rg)" "kt_id y = kt_id t" "x = updated_term u place y"
        by (auto simp: rg' set_update_rows)
      then have "\<exists>d \<in> set (rg_documents rg). kd_id d = i \<and> kd_contract_id d = kt_contract_id x \<and> kd_tenant_id d = kt_tenant_id x"
      proof cases
        case 1
        with located x(2) show ?thesis unfolding clauses_located_def by blast
      next
        case 2
        then have y: "y = t" using t(1) dist by (auto simp: distinct_map inj_on_def)
        have fields: "kt_contract_id x = kt_contract_id t" "kt_tenant_id x = kt_tenant_id t" "kt_document_id x = or_kept place (kt_document_id t)"
          by (simp_all add: 2(3) y updated_term_def)
        show ?thesis
        proof (cases place)
          case None
          with fields x(2) located t(1) show ?thesis unfolding clauses_located_def by (simp add: or_kept_def)
        next
          case (Some f)
          with place obtain x' where "require_term_document rg (ac_tenant_id a) (kt_contract_id t) x' = Inr f"
            by (auto simp: bindE_Inr_iff split: option.splits)
          from term_document_Inr [OF this] Some fields x(2) t(2) show ?thesis by (simp add: or_kept_def)
        qed
      qed
      then show "\<exists>d \<in> set (rg_documents rg'). kd_id d = i \<and> kd_contract_id d = kt_contract_id x \<and> kd_tenant_id d = kt_tenant_id x"
        by (simp add: rg')
    qed
  qed (use ids register_distinct [OF ok] in \<open>simp_all add: rg'\<close>)
qed

lemma delete_term_keeps:
  assumes ok: "register_in_order rg" and step: "delete_contract_term rg a s = Inr rg'"
  shows "register_in_order rg'"
proof -
  from step obtain i where rg': "rg' = rg\<lparr>rg_terms := filter (\<lambda>y. kt_id y \<noteq> i) (rg_terms rg)\<rparr>"
    by (auto simp: delete_contract_term_def bindE_Inr_iff)
  show ?thesis
    by (rule children_change_keeps [OF ok])
      (use ok register_distinct [OF ok] in \<open>auto simp: rg' register_in_order_def clauses_located_def intro: distinct_map_filter\<close>)
qed

end
