(* ===== verification/Contract_Save.thy ===== *)
theory Contract_Save
  imports Restating Contract_History "HOL-Library.List_Lexorder"
begin

text \<open>
  The lines of a contract restated in one act (\<open>save_contract_lines\<close>): the engine of \<open>Restating\<close> on contract lines. A
  request states the modelled columns only. The revision is what an unknown hash \<open>digest\<close> makes of the contract and its lines.
\<close>

definition contract_line_cell :: "contract_item \<Rightarrow> string \<Rightarrow> json" where
  "contract_line_cell i column =
     (if column = ''line_no'' then number_cell (map_option of_nat (ki_line_no i))
      else if column = ''product_id'' then text_cell (ki_product_id i)
      else if column = ''description'' then text_cell (ki_description i)
      else if column = ''quantity'' then number_cell (ki_quantity i)
      else if column = ''unit_price'' then number_cell (ki_unit_price i)
      else JNull)"

text \<open>The bounds of \<open>ContractItemBase\<close>, which \<open>partial_model\<close> keeps.\<close>

definition contract_cell_ok :: "string \<times> json \<Rightarrow> bool" where
  "contract_cell_ok = (\<lambda>(column, v). v = JNull \<or>
     (if column = ''line_no'' then case v of JNum q \<Rightarrow> of_int \<lfloor>q\<rfloor> = q \<and> 1 \<le> q \<and> q \<le> 9999 | _ \<Rightarrow> False
      else if column = ''product_id'' then case v of JStr _ \<Rightarrow> True | _ \<Rightarrow> False
      else if column = ''description'' then case v of JStr s \<Rightarrow> length s \<le> 500 | _ \<Rightarrow> False
      else if column = ''quantity'' then case v of JNum q \<Rightarrow> 0 < q \<and> q \<le> 999999999999 / 10000 | _ \<Rightarrow> False
      else if column = ''unit_price'' then case v of JNum q \<Rightarrow> 0 \<le> q \<and> q \<le> 999999999 / 100 | _ \<Rightarrow> False
      else False))"

definition item_request_of :: "cells \<Rightarrow> contract_item_request" where
  "item_request_of v = (let cell = (\<lambda>column. case map_of v column of None \<Rightarrow> JNull | Some x \<Rightarrow> x) in
     \<lparr>iq_line_no = cell_nat (cell ''line_no''), iq_product_id = cell_text (cell ''product_id''),
      iq_description = cell_text (cell ''description''), iq_quantity = cell_number (cell ''quantity''),
      iq_unit_price = cell_number (cell ''unit_price'')\<rparr>)"

definition item_update_of :: "cells \<Rightarrow> contract_item_update" where
  "item_update_of v =
     \<lparr>kj_line_no = map_option cell_nat (map_of v ''line_no''), kj_product_id = map_option cell_text (map_of v ''product_id''),
      kj_description = map_option cell_text (map_of v ''description''), kj_quantity = map_option cell_number (map_of v ''quantity''),
      kj_unit_price = map_option cell_number (map_of v ''unit_price'')\<rparr>"

definition contract_line_family :: "uuid \<Rightarrow> uuid \<Rightarrow> (contract_register, contract_item) line_family" where
  "contract_line_family tenant_id contract_id =
     \<lparr>lf_id = ki_id, lf_get = contract_line_cell,
      lf_updatable = [''line_no'', ''product_id'', ''description'', ''quantity'', ''unit_price''],
      lf_update_model = (\<lambda>v. bindE (ensure (list_all contract_cell_ok v) 422 ''validation_error'') (\<lambda>_. Inr v)),
      lf_new_model = (\<lambda>v. bindE (ensure (list_all contract_cell_ok v \<and> names_something (item_request_of v)) 422 ''validation_error'')
        (\<lambda>_. Inr v)),
      lf_build = (\<lambda>rg v. build_contract_item rg tenant_id contract_id (item_request_of v) None),
      lf_update = (\<lambda>rg item v.
        bindE (sent_id (kj_product_id (item_update_of v)) (\<lambda>x. bindE (contract_product_or_404 rg tenant_id x) (\<lambda>p. Inr (fst p)))) (\<lambda>product.
        Inr (rg\<lparr>rg_items := update_rows (\<lambda>i. ki_id i = ki_id item) (updated_contract_item (item_update_of v) product) (rg_items rg)\<rparr>))),
      lf_remove = (\<lambda>rg item. rg\<lparr>rg_items := filter (\<lambda>i. ki_id i \<noteq> ki_id item) (rg_items rg)\<rparr>)\<rparr>"

definition contract_lines :: "contract_register \<Rightarrow> uuid \<Rightarrow> uuid \<Rightarrow> contract_item list" where
  "contract_lines rg tenant_id contract_id = filter (\<lambda>i. ki_tenant_id i = tenant_id \<and> ki_contract_id i = contract_id) (rg_items rg)"

definition contract_revision ::
    "(row \<times> contract_more option \<times> contract_item list \<Rightarrow> string) \<Rightarrow> contract_register \<Rightarrow> row \<Rightarrow> string" where
  "contract_revision digest rg contract =
     digest (contract, more_of rg (row_id contract), sort_key ki_id (contract_lines rg (row_tenant_id contract) (row_id contract)))"

definition save_contract_lines ::
    "(row \<times> contract_more option \<times> contract_item list \<Rightarrow> string) \<Rightarrow> contract_register \<Rightarrow> actor \<Rightarrow> string \<Rightarrow> string \<Rightarrow>
       stated_line list \<Rightarrow> bool \<Rightarrow> (line_note list \<times> contract_register) result" where
  "save_contract_lines digest rg a s expected_revision rows validate_only =
     bindE (require_contract_access rg a s) (\<lambda>contract.
     bindE (ensure_document_editable (rg_db rg) contract) (\<lambda>_.
     bindE (require_revision (contract_revision digest rg contract) expected_revision) (\<lambda>_.
     bindE (restate_rows (contract_line_family (ac_tenant_id a) (row_id contract))
              (contract_lines rg (row_tenant_id contract) (row_id contract)) rg rows) (\<lambda>(_, told, rg').
     Inr (if validate_only then [] else told, if validate_only then rg else rg')))))"

subsection \<open>Contract lines are a family\<close>

lemma contract_family_sel [simp]:
  "lf_id (contract_line_family t c) = ki_id" "lf_get (contract_line_family t c) = contract_line_cell"
  by (simp_all add: contract_line_family_def)

lemma updated_line_cell:
  assumes "column \<notin> fst ` set v" and "sent_id (kj_product_id (item_update_of v)) fetch = Inr product"
  shows "contract_line_cell (updated_contract_item (item_update_of v) product i) column = contract_line_cell i column"
proof -
  let ?u = "item_update_of v"
  have absent: "map_of v column = None" using assms(1) by (simp add: map_of_eq_None_iff)
  have stays: "column = ''line_no'' \<Longrightarrow> kj_line_no ?u = None" "column = ''description'' \<Longrightarrow> kj_description ?u = None"
    "column = ''quantity'' \<Longrightarrow> kj_quantity ?u = None" "column = ''unit_price'' \<Longrightarrow> kj_unit_price ?u = None"
    "column = ''product_id'' \<Longrightarrow> product = None"
    using absent assms(2) by (auto simp: item_update_of_def sent_id_def simp del: list.inject)
  show ?thesis
    unfolding contract_line_cell_def updated_contract_item_def contract_item.simps
    by (intro if_cong refl arg_cong [where f = number_cell] arg_cong [where f = text_cell] arg_cong [where f = "map_option of_nat"])
      (simp_all add: stays or_kept_def)
qed

lemma updated_line_keys [simp]:
  "ki_id (updated_contract_item u p i) = ki_id i" "ki_tenant_id (updated_contract_item u p i) = ki_tenant_id i"
  "ki_contract_id (updated_contract_item u p i) = ki_contract_id i"
  by (simp_all add: updated_contract_item_def)

text \<open>What a save of one contract's lines leaves alone: everything but them.\<close>

definition beside :: "uuid \<Rightarrow> contract_register \<Rightarrow>
    row list \<times> contract_more list \<times> contract_item list \<times> contract_document list \<times> contract_term list" where
  "beside c rg = (contract_rows rg, rg_more rg, filter (\<lambda>i. ki_contract_id i \<noteq> c) (rg_items rg), rg_documents rg, rg_terms rg)"

lemma update_elsewhere: "(\<And>r. r \<in> set rs \<Longrightarrow> \<not> P r) \<Longrightarrow> update_rows P g rs = rs"
  unfolding update_rows_def by (rule map_idI) simp

interpretation contract_store:
  line_store "contract_line_family t c" "\<lambda>rg. contract_lines rg t c" "\<lambda>rg. register_in_order rg \<and> beside c rg = x" for t c x
proof
  show "distinct (map (lf_id (contract_line_family t c)) (contract_lines rg t c))" if "register_in_order rg \<and> beside c rg = x" for rg
    using register_distinct(1) [of rg] that by (simp add: contract_lines_def distinct_map_filter)
next
  fix rg v i rg' assume ok: "register_in_order rg \<and> beside c rg = x" and "lf_build (contract_line_family t c) rg v = Inr (i, rg')"
  then have build: "build_contract_item rg t c (item_request_of v) None = Inr (i, rg')" by (simp add: contract_line_family_def)
  then have "rg_items rg' = rg_items rg @ [i]" "ki_tenant_id i = t" "ki_contract_id i = c"
    "contract_rows rg' = contract_rows rg" "rg_more rg' = rg_more rg" "rg_documents rg' = rg_documents rg" "rg_terms rg' = rg_terms rg"
    by (auto simp: build_contract_item_def bindE_Inr_iff Let_def rg_tick_def contract_rows_def tick_fields)
  with build_item_keeps(1) [OF _ build] ok
  show "(register_in_order rg' \<and> beside c rg' = x) \<and> contract_lines rg' t c = contract_lines rg t c @ [i]"
    by (simp add: contract_lines_def beside_def)
next
  fix rg i v rg' assume ok: "register_in_order rg \<and> beside c rg = x" and i: "i \<in> set (contract_lines rg t c)"
    and "lf_update (contract_line_family t c) rg i v = Inr rg'"
  then obtain product where product: "sent_id (kj_product_id (item_update_of v)) (\<lambda>x. bindE (contract_product_or_404 rg t x) (\<lambda>p. Inr (fst p))) = Inr product"
    and rg': "rg' = rg\<lparr>rg_items := update_rows (\<lambda>x. ki_id x = ki_id i) (updated_contract_item (item_update_of v) product) (rg_items rg)\<rparr>"
    by (auto simp: contract_line_family_def bindE_Inr_iff)
  from i have i: "i \<in> set (rg_items rg)" "ki_contract_id i = c" by (simp_all add: contract_lines_def)
  have others: "filter (\<lambda>x. ki_contract_id x \<noteq> c) (rg_items rg') = filter (\<lambda>x. ki_contract_id x \<noteq> c) (rg_items rg)"
    using i ok register_distinct(1) [of rg] unfolding rg'
    by (simp add: update_then_filter) (rule update_elsewhere, auto simp: distinct_map inj_on_def)
  have "register_in_order rg'" unfolding rg' using ok by (intro changed_item_keeps) simp_all
  moreover have "beside c rg' = x" using ok others unfolding beside_def by (simp add: rg' contract_rows_def)
  moreover have "contract_lines rg' t c = update_rows (\<lambda>x. ki_id x = ki_id i) (updated_contract_item (item_update_of v) product) (contract_lines rg t c)"
    unfolding contract_lines_def rg' by (simp add: update_then_filter)
  ultimately show "(register_in_order rg' \<and> beside c rg' = x) \<and> (\<exists>g. contract_lines rg' t c =
        update_rows (\<lambda>x. lf_id (contract_line_family t c) x = lf_id (contract_line_family t c) i) g (contract_lines rg t c) \<and>
      lf_id (contract_line_family t c) (g i) = lf_id (contract_line_family t c) i \<and>
      (\<forall>column. column \<notin> fst ` set v \<longrightarrow> lf_get (contract_line_family t c) (g i) column = lf_get (contract_line_family t c) i column))"
    using updated_line_cell [OF _ product] by auto
next
  fix rg i assume ok: "register_in_order rg \<and> beside c rg = x" and "i \<in> set (contract_lines rg t c)"
  then have i: "i \<in> set (rg_items rg)" "ki_contract_id i = c" by (simp_all add: contract_lines_def)
  let ?rg = "rg\<lparr>rg_items := filter (\<lambda>x. ki_id x \<noteq> ki_id i) (rg_items rg)\<rparr>"
  have "filter (\<lambda>x. ki_contract_id x \<noteq> c) (rg_items ?rg) = filter (\<lambda>x. ki_contract_id x \<noteq> c) (rg_items rg)"
    using i ok register_distinct(1) [of rg] by (auto simp: distinct_map inj_on_def intro: filter_cong)
  then have "beside c ?rg = x" using ok unfolding beside_def by (simp add: contract_rows_def)
  with removed_item_keeps [of rg] ok show "(register_in_order (lf_remove (contract_line_family t c) rg i) \<and> beside c (lf_remove (contract_line_family t c) rg i) = x) \<and>
      contract_lines (lf_remove (contract_line_family t c) rg i) t c =
      filter (\<lambda>x. lf_id (contract_line_family t c) x \<noteq> lf_id (contract_line_family t c) i) (contract_lines rg t c)"
    by (simp add: contract_line_family_def contract_lines_def conj_commute)
next
  show "fst ` set v' \<subseteq> fst ` set v" if "lf_update_model (contract_line_family t c) v = Inr v'" for v v'
    using that by (simp add: contract_line_family_def bindE_Inr_iff)
qed

subsection \<open>A save\<close>

lemma save_Inr:
  assumes "save_contract_lines digest rg a s expected rows v = Inr (told, rg')"
  shows "\<exists>c kept told' rg1. require_contract_access rg a s = Inr c \<and> ensure_document_editable (rg_db rg) c = Inr () \<and>
    contract_revision digest rg c = expected \<and>
    restate_rows (contract_line_family (row_tenant_id c) (row_id c)) (contract_lines rg (row_tenant_id c) (row_id c)) rg rows = Inr (kept, told', rg1) \<and>
    told = (if v then [] else told') \<and> rg' = (if v then rg else rg1)"
  using assms access_Inr
  by (fastforce simp: save_contract_lines_def require_revision_def bindE_Inr_iff ensure_Inr_iff)

lemma save_lines_keeps:
  assumes ok: "register_in_order rg" and step: "save_contract_lines digest rg a s expected rows v = Inr (told, rg')"
  shows "register_in_order rg' \<and> (\<exists>c. require_contract_access rg a s = Inr c \<and> ensure_document_editable (rg_db rg) c = Inr () \<and>
    beside (row_id c) rg' = beside (row_id c) rg)"
proof -
  from save_Inr [OF step] obtain c kept told' rg1 where c: "require_contract_access rg a s = Inr c" "ensure_document_editable (rg_db rg) c = Inr ()"
    and save: "restate_rows (contract_line_family (row_tenant_id c) (row_id c)) (contract_lines rg (row_tenant_id c) (row_id c)) rg rows = Inr (kept, told', rg1)"
    and rg': "rg' = (if v then rg else rg1)" by blast
  from contract_store.restated(1) [of rg "row_id c" "beside (row_id c) rg", OF _ save] ok have "register_in_order rg1 \<and> beside (row_id c) rg1 = beside (row_id c) rg" by simp
  with ok c show ?thesis by (auto simp: rg')
qed

text \<open>C33: A save of a contract's lines leaves it the lines its rows name, in the order they stood, and one new line for every
  row without an id; a named line keeps every column its row does not state or states as it is; lines of other contracts,
  contracts, originals and clauses are as they were.\<close>

theorem a_save_leaves_the_lines_it_names:
  assumes "register_in_order rg" and "save_contract_lines digest rg a s expected rows False = Inr (told, rg')"
  shows "\<exists>c new. require_contract_access rg a s = Inr c \<and>
    map ki_id (contract_lines rg' (row_tenant_id c) (row_id c)) =
      filter (\<lambda>i. i \<in> set (named_lines rows)) (map ki_id (contract_lines rg (row_tenant_id c) (row_id c))) @ new \<and>
    length new = length (filter (\<lambda>row. named_line row = None) rows) \<and>
    set new \<inter> ki_id ` set (contract_lines rg (row_tenant_id c) (row_id c)) = {} \<and>
    (\<forall>row \<in> set rows. \<forall>line \<in> set (contract_lines rg (row_tenant_id c) (row_id c)). named_line row = Some (ki_id line) \<longrightarrow>
      (\<exists>line' \<in> set (contract_lines rg' (row_tenant_id c) (row_id c)). ki_id line' = ki_id line \<and>
        (\<forall>column. (\<forall>v. (column, v) \<in> set (sl_cells row) \<longrightarrow> v = contract_line_cell line column) \<longrightarrow>
          contract_line_cell line' column = contract_line_cell line column))) \<and>
    filter (\<lambda>i. ki_contract_id i \<noteq> row_id c) (rg_items rg') = filter (\<lambda>i. ki_contract_id i \<noteq> row_id c) (rg_items rg) \<and>
    contract_rows rg' = contract_rows rg \<and> rg_documents rg' = rg_documents rg \<and> rg_terms rg' = rg_terms rg"
proof -
  from save_Inr [OF assms(2)] obtain c kept told' where c: "require_contract_access rg a s = Inr c"
    and save: "restate_rows (contract_line_family (row_tenant_id c) (row_id c)) (contract_lines rg (row_tenant_id c) (row_id c)) rg rows = Inr (kept, told', rg')"
    by auto
  let ?t = "row_tenant_id c" and ?i = "row_id c"
  have ok: "register_in_order rg \<and> beside ?i rg = beside ?i rg" using assms(1) by simp
  note after = contract_store.restated(1) [OF ok save] and ids = contract_store.restated(2) [OF ok save]
    and kept = contract_store.restated(4) [OF ok save]
  from ids obtain new where new: "map ki_id (contract_lines rg' ?t ?i) = filter (\<lambda>i. i \<in> set (named_lines rows)) (map ki_id (contract_lines rg ?t ?i)) @ new"
    "length new = length (filter (\<lambda>row. named_line row = None) rows)" "set new \<inter> ki_id ` set (contract_lines rg ?t ?i) = {}" by auto
  have rest: "filter (\<lambda>i. ki_contract_id i \<noteq> ?i) (rg_items rg') = filter (\<lambda>i. ki_contract_id i \<noteq> ?i) (rg_items rg)"
    "contract_rows rg' = contract_rows rg" "rg_documents rg' = rg_documents rg" "rg_terms rg' = rg_terms rg"
    using after by (simp_all add: beside_def)
  have stays: "\<exists>line' \<in> set (contract_lines rg' ?t ?i). ki_id line' = ki_id line \<and>
        (\<forall>column. (\<forall>v. (column, v) \<in> set (sl_cells row) \<longrightarrow> v = contract_line_cell line column) \<longrightarrow>
          contract_line_cell line' column = contract_line_cell line column)"
    if row: "row \<in> set rows" "line \<in> set (contract_lines rg ?t ?i)" "named_line row = Some (ki_id line)" for row line
  proof -
    have "lf_id (contract_line_family ?t ?i) line = ki_id line" by simp
    from kept [OF row(1,3,2) this] obtain line' where line': "line' \<in> set (contract_lines rg' ?t ?i)" "ki_id line' = ki_id line"
      "\<And>column. column \<notin> fst ` set (line_diff (contract_line_cell line) (sl_cells row)) \<Longrightarrow> contract_line_cell line' column = contract_line_cell line column"
      by auto
    have "column \<notin> fst ` set (line_diff (contract_line_cell line) (sl_cells row))"
      if "\<forall>v. (column, v) \<in> set (sl_cells row) \<longrightarrow> v = contract_line_cell line column" for column
      using that by (auto simp: line_diff_def)
    with line' show ?thesis by blast
  qed
  show ?thesis
  proof (intro exI conjI ballI impI)
    show "require_contract_access rg a s = Inr c" by (rule c)
    show "map ki_id (contract_lines rg' ?t ?i) = filter (\<lambda>i. i \<in> set (named_lines rows)) (map ki_id (contract_lines rg ?t ?i)) @ new"
      by (rule new(1))
  qed (fact new rest | rule stays, assumption+)+
qed

text \<open>Of two saves that present the same revision of a contract the second one goes through only if the first one
  changed none of its lines, or the hash gives two different readings the same value: no save is written over another.\<close>

theorem one_save_per_revision:
  assumes "save_contract_lines digest rg a s expected rows False = Inr (told, rg1)"
    and "save_contract_lines digest rg1 b s' expected rows' v = Inr (told', rg2)"
  shows "(\<exists>x y. x \<noteq> y \<and> digest x = digest y) \<or>
    (\<exists>c. require_contract_access rg a s = Inr c \<and> require_contract_access rg1 b s' = Inr c \<and>
      set (contract_lines rg1 (row_tenant_id c) (row_id c)) = set (contract_lines rg (row_tenant_id c) (row_id c)))"
proof -
  from save_Inr [OF assms(1)] obtain c where c: "require_contract_access rg a s = Inr c" "contract_revision digest rg c = expected" by blast
  from save_Inr [OF assms(2)] obtain d where d: "require_contract_access rg1 b s' = Inr d" "contract_revision digest rg1 d = expected" by blast
  let ?lines = "\<lambda>rg c. contract_lines rg (row_tenant_id c) (row_id c)"
  have same: "digest (d, more_of rg1 (row_id d), sort_key ki_id (?lines rg1 d)) = digest (c, more_of rg (row_id c), sort_key ki_id (?lines rg c))"
    using c(2) d(2) by (simp add: contract_revision_def)
  show ?thesis
  proof (cases "(d, more_of rg1 (row_id d), sort_key ki_id (?lines rg1 d)) = (c, more_of rg (row_id c), sort_key ki_id (?lines rg c))")
    case True
    then have "d = c" "sort_key ki_id (?lines rg1 c) = sort_key ki_id (?lines rg c)" by auto
    then have "set (?lines rg1 c) = set (?lines rg c)" by (metis set_sort)
    with c(1) d(1) \<open>d = c\<close> show ?thesis by blast
  qed (use same in blast)
qed

end
