(* ===== verification/Contract_Register.thy ===== *)
theory Contract_Register
  imports Contract_Save
begin

text \<open>
  The calls on contracts as one step relation, and what holds through any history of them: the register stays in order, and
  while a contract is signed no call rewrites what was agreed.
\<close>

datatype contract_event =
    FileContract contract_request bool
  | ChangeContract string contract_update
  | DropContract uuid
  | BringBackContract uuid
  | AddLine string contract_item_request
  | ChangeLine string contract_item_update
  | DropLine string
  | SaveLines string string "stated_line list" bool
  | AddOriginal string contract_file_request
  | ChangeOriginal string "string option option"
  | DropOriginal string
  | AddClause string contract_term_request
  | ChangeClause string contract_term_update
  | DropClause string

type_synonym contract_hash = "row \<times> contract_more option \<times> contract_item list \<Rightarrow> string"

definition contract_step ::
    "contract_hash \<Rightarrow> timestamp \<Rightarrow> contract_register \<Rightarrow> actor \<Rightarrow> contract_event \<Rightarrow> contract_register result" where
  "contract_step digest now rg a e =
     (case e of
        FileContract p v \<Rightarrow> bindE (create_contract now rg a p v) (\<lambda>(_, rg'). Inr rg')
      | ChangeContract s u \<Rightarrow> bindE (update_contract now rg a s u) (\<lambda>(_, rg'). Inr rg')
      | DropContract i \<Rightarrow> delete_contract now rg a i
      | BringBackContract i \<Rightarrow> bindE (restore_contract rg a i) (\<lambda>(_, rg'). Inr rg')
      | AddLine s q \<Rightarrow> bindE (create_contract_item rg a s q) (\<lambda>(_, rg'). Inr rg')
      | ChangeLine s u \<Rightarrow> update_contract_item rg a s u
      | DropLine s \<Rightarrow> delete_contract_item rg a s
      | SaveLines s r rows v \<Rightarrow> bindE (save_contract_lines digest rg a s r rows v) (\<lambda>(_, rg'). Inr rg')
      | AddOriginal s q \<Rightarrow> bindE (create_contract_document rg a s q) (\<lambda>(_, rg'). Inr rg')
      | ChangeOriginal s q \<Rightarrow> update_contract_document rg a s q
      | DropOriginal s \<Rightarrow> delete_contract_document rg a s
      | AddClause s q \<Rightarrow> bindE (create_contract_term rg a s q) (\<lambda>(_, rg'). Inr rg')
      | ChangeClause s u \<Rightarrow> update_contract_term rg a s u
      | DropClause s \<Rightarrow> delete_contract_term rg a s)"

definition run_contracts ::
    "contract_hash \<Rightarrow> contract_register \<Rightarrow> (timestamp \<times> actor \<times> contract_event) list \<Rightarrow> contract_register" where
  "run_contracts digest rg es = fold (\<lambda>(now, a, e) rg. case contract_step digest now rg a e of Inl _ \<Rightarrow> rg | Inr rg' \<Rightarrow> rg') es rg"

subsection \<open>Order\<close>

lemma contract_step_keeps:
  assumes ok: "register_in_order rg" and step: "contract_step digest now rg a e = Inr rg'"
  shows "register_in_order rg'"
proof (cases e)
  case (FileContract p v)
  with step create_contract_keeps [OF ok] show ?thesis by (auto simp: contract_step_def bindE_Inr_iff)
next
  case (ChangeContract s u)
  with step update_contract_keeps [OF ok] show ?thesis by (auto simp: contract_step_def bindE_Inr_iff)
next
  case (DropContract i)
  with step delete_contract_keeps [OF ok] show ?thesis by (simp add: contract_step_def)
next
  case (BringBackContract i)
  with step restore_contract_keeps [OF ok] show ?thesis by (auto simp: contract_step_def bindE_Inr_iff)
next
  case (AddLine s q)
  with step build_item_keeps(1) [OF ok] show ?thesis by (auto simp: contract_step_def create_contract_item_def bindE_Inr_iff)
next
  case (ChangeLine s u)
  with step update_item_keeps [OF ok] show ?thesis by (simp add: contract_step_def)
next
  case (DropLine s)
  with step delete_item_keeps [OF ok] show ?thesis by (simp add: contract_step_def)
next
  case (SaveLines s r rows v)
  with step save_lines_keeps [OF ok, of digest a s r rows v] show ?thesis by (auto simp: contract_step_def bindE_Inr_iff)
next
  case (AddOriginal s q)
  with step build_document_keeps(1) [OF ok] show ?thesis by (auto simp: contract_step_def create_contract_document_def bindE_Inr_iff)
next
  case (ChangeOriginal s q)
  with step update_document_keeps [OF ok] show ?thesis by (simp add: contract_step_def)
next
  case (DropOriginal s)
  with step delete_document_keeps [OF ok] show ?thesis by (simp add: contract_step_def)
next
  case (AddClause s q)
  with step build_term_keeps(1) [OF ok] show ?thesis by (auto simp: contract_step_def create_contract_term_def bindE_Inr_iff)
next
  case (ChangeClause s u)
  with step update_term_keeps [OF ok] show ?thesis by (simp add: contract_step_def)
next
  case (DropClause s)
  with step delete_term_keeps [OF ok] show ?thesis by (simp add: contract_step_def)
qed

lemma run_contracts_keeps:
  assumes "register_in_order rg"
  shows "register_in_order (run_contracts digest rg es)"
  using assms unfolding run_contracts_def
proof (induction es arbitrary: rg)
  case (Cons x es)
  obtain now a e where x: "x = (now, a, e)" by (cases x)
  have "register_in_order (case contract_step digest now rg a e of Inl _ \<Rightarrow> rg | Inr rg' \<Rightarrow> rg')"
    using Cons.prems contract_step_keeps by (auto split: sum.splits)
  from Cons.IH [OF this] show ?case by (simp add: x)
qed simp

lemma empty_register_in_order:
  assumes "contract_rows rg = []" and "rg_more rg = []" and "rg_items rg = []" and "rg_documents rg = []" and "rg_terms rg = []"
    and "reads_back (rg_db rg) {}"
  shows "register_in_order rg"
  using assms
  by (auto simp: register_in_order_def tables_sound_def ids_in_use_def sides_agree_def supplements_match_def clauses_located_def
      acyclic_def)

text \<open>C32: From an empty register, through any history of calls by anybody, every contract has at most one counterparty, on
  the side of its kind; what it supplements is a contract of its own workspace and side; no contract supplements itself
  through any chain; and the place of every clause is in an original of the clause's own contract.\<close>

theorem the_register_stays_in_order:
  assumes "contract_rows rg = []" and "rg_more rg = []" and "rg_items rg = []" and "rg_documents rg = []" and "rg_terms rg = []"
    and "reads_back (rg_db rg) {}"
  shows "(\<forall>c \<in> set (contract_rows (run_contracts digest rg es)).
      (row_vendor_id c \<noteq> None \<longrightarrow> row_side c = ''purchase'' \<and> row_customer_id c = None) \<and>
      (row_customer_id c \<noteq> None \<longrightarrow> row_side c = ''sales'') \<and>
      (\<forall>p. parent_of (run_contracts digest rg es) (row_id c) = Some p \<longrightarrow>
        (\<exists>q \<in> set (contract_rows (run_contracts digest rg es)). row_id q = p \<and> row_tenant_id q = row_tenant_id c \<and> row_side q = row_side c)) \<and>
      (row_id c, row_id c) \<notin> {(i, p). parent_of (run_contracts digest rg es) i = Some p}\<^sup>+) \<and>
    (\<forall>t \<in> set (rg_terms (run_contracts digest rg es)). \<forall>i. kt_document_id t = Some i \<longrightarrow>
      (\<exists>d \<in> set (rg_documents (run_contracts digest rg es)). kd_id d = i \<and> kd_contract_id d = kt_contract_id t))"
proof -
  let ?rg = "run_contracts digest rg es"
  have ok: "register_in_order ?rg" by (rule run_contracts_keeps [OF empty_register_in_order [OF assms]])
  then have t: "tables_sound ?rg" by (simp add: register_in_order_def)
  have links: "{(i, p). parent_of ?rg i = Some p} = supplement_links ?rg" using parent_of_link [OF t] by auto
  have "\<forall>c \<in> set (contract_rows ?rg).
      (row_vendor_id c \<noteq> None \<longrightarrow> row_side c = ''purchase'' \<and> row_customer_id c = None) \<and>
      (row_customer_id c \<noteq> None \<longrightarrow> row_side c = ''sales'') \<and>
      (\<forall>p. parent_of ?rg (row_id c) = Some p \<longrightarrow>
        (\<exists>q \<in> set (contract_rows ?rg). row_id q = p \<and> row_tenant_id q = row_tenant_id c \<and> row_side q = row_side c)) \<and>
      (row_id c, row_id c) \<notin> {(i, p). parent_of ?rg i = Some p}\<^sup>+"
  proof (intro ballI conjI)
    fix c assume c: "c \<in> set (contract_rows ?rg)"
    have "side_agrees c" using ok c by (simp add: register_in_order_def sides_agree_def)
    then show "row_vendor_id c \<noteq> None \<longrightarrow> row_side c = ''purchase'' \<and> row_customer_id c = None"
      and "row_customer_id c \<noteq> None \<longrightarrow> row_side c = ''sales''" by (simp_all add: side_agrees_def)
    show "(row_id c, row_id c) \<notin> {(i, p). parent_of ?rg i = Some p}\<^sup>+"
      using ok unfolding links by (simp add: register_in_order_def acyclic_def)
    show "\<forall>p. parent_of ?rg (row_id c) = Some p \<longrightarrow>
        (\<exists>q \<in> set (contract_rows ?rg). row_id q = p \<and> row_tenant_id q = row_tenant_id c \<and> row_side q = row_side c)"
    proof (intro allI impI)
      fix p assume "parent_of ?rg (row_id c) = Some p"
      then have link: "(row_id c, p) \<in> supplement_links ?rg" using links by blast
      have "supplements_match ?rg" using ok by (simp add: register_in_order_def)
      with link obtain x q where xq: "x \<in> set (contract_rows ?rg)" "q \<in> set (contract_rows ?rg)" "row_id x = row_id c" "row_id q = p"
        "row_tenant_id q = row_tenant_id x" "row_side q = row_side x" by (fastforce simp: supplements_match_def)
      have "x = c" using xq(1,3) c t by (auto simp: tables_sound_def distinct_map inj_on_def)
      with xq show "\<exists>q \<in> set (contract_rows ?rg). row_id q = p \<and> row_tenant_id q = row_tenant_id c \<and> row_side q = row_side c" by blast
    qed
  qed
  moreover have "\<forall>t \<in> set (rg_terms ?rg). \<forall>i. kt_document_id t = Some i \<longrightarrow>
      (\<exists>d \<in> set (rg_documents ?rg). kd_id d = i \<and> kd_contract_id d = kt_contract_id t)"
    using ok by (fastforce simp: register_in_order_def clauses_located_def)
  ultimately show ?thesis by (rule conjI)
qed

end
