(* ===== verification/Contract_Freeze.thy ===== *)
theory Contract_Freeze
  imports Contract_Register
begin

text \<open>What no call rewrites while a contract is past its editable states: its lines, the words of its clauses, its originals, and the
  columns of the agreement.\<close>

definition agreement_kept :: "uuid \<Rightarrow> contract_register \<Rightarrow> contract_register \<Rightarrow> bool" where
  "agreement_kept i rg rg' \<longleftrightarrow>
     filter (\<lambda>x. ki_contract_id x = i) (rg_items rg') = filter (\<lambda>x. ki_contract_id x = i) (rg_items rg) \<and>
     (\<forall>x \<in> set (rg_terms rg). \<forall>y \<in> set (rg_terms rg'). kt_contract_id x = i \<longrightarrow> kt_id y = kt_id x \<longrightarrow> kt_content y = kt_content x) \<and>
     (\<forall>d \<in> set (rg_documents rg). kd_contract_id d = i \<longrightarrow> kd_type d \<noteq> ''draft'' \<longrightarrow>
       (\<exists>e \<in> set (rg_documents rg'). kd_id e = kd_id d \<and> kd_contract_id e = i \<and> kd_attachment_id e = kd_attachment_id d)) \<and>
     (\<forall>c \<in> set (contract_rows rg). \<forall>c' \<in> set (contract_rows rg'). row_id c = i \<longrightarrow> row_id c' = i \<longrightarrow>
       row_total_amount c' = row_total_amount c \<and> row_currency c' = row_currency c) \<and>
     (\<forall>m \<in> set (rg_more rg). \<forall>m' \<in> set (rg_more rg'). cm_id m = i \<longrightarrow> cm_id m' = i \<longrightarrow>
       cm_type m' = cm_type m \<and> cm_from m' = cm_from m \<and> cm_to m' = cm_to m \<and> cm_parent_id m' = cm_parent_id m)"

text \<open>A call that only adds children of other contracts, or clauses and originals.\<close>

definition grown :: "(uuid \<Rightarrow> bool) \<Rightarrow> contract_register \<Rightarrow> contract_register \<Rightarrow> bool" where
  "grown P rg rg' \<longleftrightarrow> contract_rows rg' = contract_rows rg \<and> rg_more rg' = rg_more rg \<and>
     (\<exists>xs. rg_items rg' = rg_items rg @ xs \<and> (\<forall>x \<in> set xs. P (ki_contract_id x))) \<and>
     (\<exists>xs. rg_documents rg' = rg_documents rg @ xs) \<and> (\<exists>xs. rg_terms rg' = rg_terms rg @ xs)"

lemma grown_refl: "grown P rg rg"
  by (simp add: grown_def)

lemma grown_trans: "grown P a b \<Longrightarrow> grown P b c \<Longrightarrow> grown P a c"
  by (fastforce simp: grown_def)

lemma grown_item: "build_contract_item rg t k q n = Inr (i, rg') \<Longrightarrow> P k \<Longrightarrow> grown P rg rg'"
  by (auto simp: build_contract_item_def bindE_Inr_iff Let_def grown_def rg_tick_def tick_fields contract_rows_def)

lemma grown_document: "build_contract_document rg t k q = Inr (d, rg') \<Longrightarrow> grown P rg rg'"
  by (auto simp: build_contract_document_def bindE_Inr_iff Let_def grown_def rg_tick_def tick_fields contract_rows_def)

lemma grown_term: "build_contract_term rg t k q x = Inr (d, rg') \<Longrightarrow> grown P rg rg'"
  by (auto simp: build_contract_term_def bindE_Inr_iff Let_def grown_def rg_tick_def tick_fields contract_rows_def)

lemma grown_items: "file_items t k rg qs = Inr rg' \<Longrightarrow> P k \<Longrightarrow> grown P rg rg'"
  unfolding file_items_def
  by (erule foldE_invariant [where P = "grown P rg"]) (auto simp: bindE_Inr_iff grown_refl intro: grown_trans [OF _ grown_item])

lemma grown_documents: "file_documents t k rg qs = Inr (ds, rg') \<Longrightarrow> grown P rg rg'"
proof (induction qs arbitrary: rg ds)
  case (Cons q qs)
  then obtain d rg1 ds1 where "build_contract_document rg t k q = Inr (d, rg1)" "file_documents t k rg1 qs = Inr (ds1, rg')"
    by (auto simp: bindE_Inr_iff)
  with Cons.IH grown_document show ?case by (blast intro: grown_trans)
qed (simp add: grown_refl)

lemma grown_terms: "file_terms t k ds rg qs = Inr rg' \<Longrightarrow> grown P rg rg'"
  unfolding file_terms_def
  by (erule foldE_invariant [where P = "grown P rg"]) (auto simp: bindE_Inr_iff grown_refl intro: grown_trans [OF _ grown_term])

lemma same_row: "register_in_order rg \<Longrightarrow> c \<in> set (contract_rows rg) \<Longrightarrow> d \<in> set (contract_rows rg) \<Longrightarrow> row_id d = row_id c \<Longrightarrow> d = c"
  by (auto simp: register_in_order_def tables_sound_def distinct_map inj_on_def)

lemma same_more: "register_in_order rg \<Longrightarrow> m \<in> set (rg_more rg) \<Longrightarrow> n \<in> set (rg_more rg) \<Longrightarrow> cm_id n = cm_id m \<Longrightarrow> n = m"
  by (auto simp: register_in_order_def tables_sound_def distinct_map inj_on_def)

lemma same_term: "register_in_order rg \<Longrightarrow> x \<in> set (rg_terms rg) \<Longrightarrow> y \<in> set (rg_terms rg) \<Longrightarrow> kt_id y = kt_id x \<Longrightarrow> y = x"
  by (auto simp: register_in_order_def tables_sound_def distinct_map inj_on_def)

lemma same_item: "register_in_order rg \<Longrightarrow> x \<in> set (rg_items rg) \<Longrightarrow> y \<in> set (rg_items rg) \<Longrightarrow> ki_id y = ki_id x \<Longrightarrow> y = x"
  by (auto simp: register_in_order_def tables_sound_def distinct_map inj_on_def)

text \<open>The contracts as they were, and the children of this one untouched.\<close>

lemma agreement_keptI:
  assumes ok: "register_in_order rg" "register_in_order rg'"
    and rows: "contract_rows rg' = contract_rows rg" "rg_more rg' = rg_more rg"
    and items: "filter (\<lambda>x. ki_contract_id x = i) (rg_items rg') = filter (\<lambda>x. ki_contract_id x = i) (rg_items rg)"
    and terms: "\<And>x y. x \<in> set (rg_terms rg) \<Longrightarrow> y \<in> set (rg_terms rg') \<Longrightarrow> kt_contract_id x = i \<Longrightarrow> kt_id y = kt_id x \<Longrightarrow> kt_content y = kt_content x"
    and documents: "\<And>d. d \<in> set (rg_documents rg) \<Longrightarrow> kd_contract_id d = i \<Longrightarrow> kd_type d \<noteq> ''draft'' \<Longrightarrow>
      \<exists>e \<in> set (rg_documents rg'). kd_id e = kd_id d \<and> kd_contract_id e = i \<and> kd_attachment_id e = kd_attachment_id d"
  shows "agreement_kept i rg rg'"
  unfolding agreement_kept_def rows
proof (intro conjI ballI impI)
  fix c c' assume "c \<in> set (contract_rows rg)" "c' \<in> set (contract_rows rg)" "row_id c = i" "row_id c' = i"
  then have "c' = c" using same_row [OF ok(1)] by blast
  then show "row_total_amount c' = row_total_amount c" "row_currency c' = row_currency c" by simp_all
next
  fix m m' assume "m \<in> set (rg_more rg)" "m' \<in> set (rg_more rg)" "cm_id m = i" "cm_id m' = i"
  then have "m' = m" using same_more [OF ok(1)] by blast
  then show "cm_type m' = cm_type m" "cm_from m' = cm_from m" "cm_to m' = cm_to m" "cm_parent_id m' = cm_parent_id m" by simp_all
qed (use items terms documents in auto)

lemma grown_keeps_agreement:
  assumes ok: "register_in_order rg" "register_in_order rg'" and g: "grown (\<lambda>k. k \<noteq> i) rg rg'"
  shows "agreement_kept i rg rg'"
proof (rule agreement_keptI [OF ok])
  show "contract_rows rg' = contract_rows rg" "rg_more rg' = rg_more rg" using g by (simp_all add: grown_def)
  show "filter (\<lambda>x. ki_contract_id x = i) (rg_items rg') = filter (\<lambda>x. ki_contract_id x = i) (rg_items rg)"
    using g by (auto simp: grown_def filter_empty_conv)
  fix x y assume x: "x \<in> set (rg_terms rg)" "y \<in> set (rg_terms rg')" "kt_id y = kt_id x"
  then have "x \<in> set (rg_terms rg')" using g by (auto simp: grown_def)
  with x same_term [OF ok(2)] show "kt_content y = kt_content x" by blast
next
  fix d assume "d \<in> set (rg_documents rg)" "kd_contract_id d = i"
  then show "\<exists>e \<in> set (rg_documents rg'). kd_id e = kd_id d \<and> kd_contract_id e = i \<and> kd_attachment_id e = kd_attachment_id d"
    using g by (auto simp: grown_def)
qed

lemma contract_machine_type: "family_of Contract = Inr f \<Longrightarrow> df_machine_type f c = ''contract''"
  by (auto simp: family_of_def DOCUMENT_FAMILIES_def plain_family_def)

lemma frozen_not_editable:
  assumes "agreement_frozen rg c = Inr True" and "row_model c = Contract"
  shows "ensure_document_editable (rg_db rg) c \<noteq> Inr ()"
  using assms
  by (auto simp: agreement_frozen_def ensure_document_editable_def bindE_Inr_iff ensure_Inr_iff Let_def contract_machine_type)

text \<open>A call whose contract may be edited is about another contract.\<close>

lemma reads_own_id:
  assumes "register_in_order rg" and "c \<in> set (contract_rows rg)"
  shows "db_uuid_in (rg_db rg) (row_id c) = Some (row_id c)"
  using assms by (auto simp: register_in_order_def tables_sound_def ids_in_use_def dest!: reads_backD(2))

lemma access_of_id:
  assumes ok: "register_in_order rg" and c: "c \<in> set (contract_rows rg)" and access: "require_contract_access rg a (row_id c) = Inr d"
  shows "d = c"
proof -
  note d = access_Inr [OF access]
  have "get_active_document_or_404 (rg_db rg) Contract (ac_tenant_id a) (row_id c) = Inr d"
    using access reads_own_id [OF ok c] by (auto simp: require_contract_access_def named_document_def bindE_Inr_iff)
  then have "row_id d = row_id c" using get_contract by (fastforce simp: get_active_document_or_404_Inr)
  with d show ?thesis using same_row [OF ok c] by blast
qed

lemma change_row_keeps_agreement:
  assumes ok: "register_in_order rg" "register_in_order rg'"
    and rows: "contract_rows rg' = update_rows (\<lambda>r. row_id r = k) f (contract_rows rg)"
    and more: "rg_more rg' = update_rows (\<lambda>m. cm_id m = k) g (rg_more rg)"
    and same: "rg_items rg' = rg_items rg" "rg_documents rg' = rg_documents rg" "rg_terms rg' = rg_terms rg"
    and f: "\<And>r. r \<in> set (contract_rows rg) \<Longrightarrow> row_id r = k \<Longrightarrow> k = i \<Longrightarrow> row_total_amount (f r) = row_total_amount r \<and> row_currency (f r) = row_currency r"
    and g: "\<And>m. m \<in> set (rg_more rg) \<Longrightarrow> cm_id m = k \<Longrightarrow> k = i \<Longrightarrow>
      cm_type (g m) = cm_type m \<and> cm_from (g m) = cm_from m \<and> cm_to (g m) = cm_to m \<and> cm_parent_id (g m) = cm_parent_id m"
    and ids: "\<And>r. row_id r = k \<Longrightarrow> row_id (f r) = k" "\<And>m. cm_id m = k \<Longrightarrow> cm_id (g m) = k"
  shows "agreement_kept i rg rg'"
  unfolding agreement_kept_def same
proof (intro conjI)
  show "\<forall>c \<in> set (contract_rows rg). \<forall>c' \<in> set (contract_rows rg'). row_id c = i \<longrightarrow> row_id c' = i \<longrightarrow>
       row_total_amount c' = row_total_amount c \<and> row_currency c' = row_currency c"
  proof (intro ballI impI)
    fix c c' assume c: "c \<in> set (contract_rows rg)" "row_id c = i" and c': "c' \<in> set (contract_rows rg')" "row_id c' = i"
    from c'(1) consider "c' \<in> set (contract_rows rg)" | r where "r \<in> set (contract_rows rg)" "row_id r = k" "c' = f r"
      unfolding rows by (auto simp: set_update_rows)
    then show "row_total_amount c' = row_total_amount c \<and> row_currency c' = row_currency c"
    proof cases
      case 1
      then show ?thesis using same_row [OF ok(1) c(1)] c(2) c'(2) by auto
    next
      case 2
      with ids(1) c'(2) have "k = i" by auto
      with 2 have "r = c" using same_row [OF ok(1) c(1)] c(2) by auto
      with 2 f \<open>k = i\<close> show ?thesis by blast
    qed
  qed
  show "\<forall>m \<in> set (rg_more rg). \<forall>m' \<in> set (rg_more rg'). cm_id m = i \<longrightarrow> cm_id m' = i \<longrightarrow>
       cm_type m' = cm_type m \<and> cm_from m' = cm_from m \<and> cm_to m' = cm_to m \<and> cm_parent_id m' = cm_parent_id m"
  proof (intro ballI impI)
    fix m m' assume m: "m \<in> set (rg_more rg)" "cm_id m = i" and m': "m' \<in> set (rg_more rg')" "cm_id m' = i"
    from m'(1) consider "m' \<in> set (rg_more rg)" | r where "r \<in> set (rg_more rg)" "cm_id r = k" "m' = g r"
      unfolding more by (auto simp: set_update_rows)
    then show "cm_type m' = cm_type m \<and> cm_from m' = cm_from m \<and> cm_to m' = cm_to m \<and> cm_parent_id m' = cm_parent_id m"
    proof cases
      case 1
      then show ?thesis using same_more [OF ok(1) m(1)] m(2) m'(2) by auto
    next
      case 2
      with ids(2) m'(2) have "k = i" by auto
      with 2 have "r = m" using same_more [OF ok(1) m(1)] m(2) by auto
      with 2 g \<open>k = i\<close> show ?thesis by blast
    qed
  qed
  show "\<forall>x \<in> set (rg_terms rg). \<forall>y \<in> set (rg_terms rg). kt_contract_id x = i \<longrightarrow> kt_id y = kt_id x \<longrightarrow> kt_content y = kt_content x"
    using same_term [OF ok(1)] by blast
qed auto

lemma create_keeps_agreement:
  assumes ok: "register_in_order rg" "register_in_order rg'" and c: "c \<in> set (contract_rows rg)"
    and step: "create_contract now rg a p v = Inr (n, rg')"
  shows "agreement_kept (row_id c) rg rg'"
proof -
  have t: "tables_sound rg" using ok(1) by (simp add: register_in_order_def)
  from step obtain party employee parent opportunity upstream status number rg2 documents rg3 rg4 where
    n: "n = new_contract (rg_db rg) (ac_tenant_id a) p party employee status number"
    and items: "file_items (ac_tenant_id a) (row_id n) (rg\<lparr>rg_db := (tick (rg_db rg))\<lparr>db_rows := db_rows (rg_db rg) @ [n]\<rparr>,
        rg_more := rg_more rg @ [\<lparr>cm_id = row_id n, cm_type = nq_type p, cm_parent_id = parent, cm_opportunity_id = opportunity,
            cm_from = nq_from p, cm_to = nq_to p, cm_signed_at = (if status = ''signed'' then Some now else None), cm_upstream = upstream\<rparr>]\<rparr>)
        (nq_items p) = Inr rg2"
    and files: "file_documents (ac_tenant_id a) (row_id n) rg2 (nq_documents p) = Inr (documents, rg3)"
    and terms: "file_terms (ac_tenant_id a) (row_id n) documents rg3 (nq_terms p) = Inr rg4"
    and rg': "rg' = (if v then rg else rg4)"
    by (rule create_contract_parts)
  define more where "more = \<lparr>cm_id = row_id n, cm_type = nq_type p, cm_parent_id = parent, cm_opportunity_id = opportunity,
            cm_from = nq_from p, cm_to = nq_to p, cm_signed_at = (if status = ''signed'' then Some now else None), cm_upstream = upstream\<rparr>"
  note items = items [folded more_def]
  have n_id: "row_id n = fresh_id (rg_db rg)" "row_model n = Contract" by (cases party; simp add: n new_contract_def)+
  have other: "row_id n \<noteq> row_id c"
    using fresh_not_in_use [OF t] c n_id(1) by (auto simp: ids_in_use_def)
  show ?thesis
  proof (cases v)
    case True
    with ok show ?thesis using rg' grown_keeps_agreement [OF ok(1) ok(1) grown_refl] by simp
  next
    case False
    let ?rg1 = "rg\<lparr>rg_db := (tick (rg_db rg))\<lparr>db_rows := db_rows (rg_db rg) @ [n]\<rparr>, rg_more := rg_more rg @ [more]\<rparr>"
    have g: "grown (\<lambda>k. k \<noteq> row_id c) ?rg1 rg4"
      using grown_trans [OF grown_trans [OF grown_items [OF items] grown_documents [OF files]] grown_terms [OF terms]] other by simp
    then have rows: "contract_rows rg4 = contract_rows rg @ [n]" "rg_more rg4 = rg_more rg @ [more]"
      using n_id by (auto simp: grown_def contract_rows_def)
    have rg4: "rg' = rg4" using rg' False by simp
    show ?thesis
      unfolding agreement_kept_def
    proof (intro conjI ballI impI)
      show "filter (\<lambda>x. ki_contract_id x = row_id c) (rg_items rg') = filter (\<lambda>x. ki_contract_id x = row_id c) (rg_items rg)"
        using g by (auto simp: rg4 grown_def filter_empty_conv)
      show "kt_content y = kt_content x" if "x \<in> set (rg_terms rg)" "y \<in> set (rg_terms rg')" "kt_id y = kt_id x" for x y
      proof -
        have "x \<in> set (rg_terms rg')" using that(1) g by (auto simp: rg4 grown_def)
        with that same_term [OF ok(2)] show ?thesis by blast
      qed
      show "\<exists>e \<in> set (rg_documents rg'). kd_id e = kd_id d \<and> kd_contract_id e = row_id c \<and> kd_attachment_id e = kd_attachment_id d"
        if "d \<in> set (rg_documents rg)" "kd_contract_id d = row_id c" for d
        using that g by (auto simp: rg4 grown_def)
      fix x x' assume x: "x \<in> set (contract_rows rg)" "x' \<in> set (contract_rows rg')" "row_id x = row_id c" "row_id x' = row_id c"
      then have "x \<in> set (contract_rows rg')" using rows rg4 by simp
      with x same_row [OF ok(2)] have "x' = x" by metis
      then show "row_total_amount x' = row_total_amount x" "row_currency x' = row_currency x" by simp_all
    next
      fix m m' assume m: "m \<in> set (rg_more rg)" "m' \<in> set (rg_more rg')" "cm_id m = row_id c" "cm_id m' = row_id c"
      then have "m \<in> set (rg_more rg')" using rows rg4 by simp
      with m same_more [OF ok(2)] have "m' = m" by metis
      then show "cm_type m' = cm_type m" "cm_from m' = cm_from m" "cm_to m' = cm_to m" "cm_parent_id m' = cm_parent_id m" by simp_all
    qed
  qed
qed

text \<open>A change of the contract itself.\<close>

lemma untouched_agreement:
  assumes "\<not> touches_the_agreement u" and "sent_id (uc_parent_id u) fetch = Inr parent"
  shows "row_total_amount (changed_row u employee status d) = row_total_amount d \<and> row_currency (changed_row u employee status d) = row_currency d \<and>
    cm_type (changed_more now u parent o' p signed m) = cm_type m \<and> cm_from (changed_more now u parent o' p signed m) = cm_from m \<and>
    cm_to (changed_more now u parent o' p signed m) = cm_to m \<and> cm_parent_id (changed_more now u parent o' p signed m) = cm_parent_id m"
  using assms by (simp add: touches_the_agreement_def changed_row_def changed_more_def or_kept_def sent_id_def)

lemma identified_amount:
  assumes "identify_counterparty rg a c u = Inr d"
  shows "row_total_amount d = row_total_amount c \<and> row_currency d = row_currency c"
  using assms by (auto simp: identify_counterparty_def Let_def bindE_Inr_iff split: if_splits)

lemma still_frozen:
  assumes "agreement_frozen rg c = Inr True" and "row_model c = Contract" and "identify_counterparty rg a c u = Inr d"
  shows "ensure_document_editable (rg_db rg) d \<noteq> Inr ()"
proof -
  note d = identified [OF assms(3)]
  then have "agreement_frozen rg d = Inr True" using assms(1) by (simp add: agreement_frozen_def)
  from frozen_not_editable [OF this] d assms(2) show ?thesis by simp
qed

lemma update_keeps_agreement:
  assumes ok: "register_in_order rg" "register_in_order rg'" and c: "c \<in> set (contract_rows rg)"
    and frozen: "agreement_frozen rg c = Inr True" and step: "update_contract now rg a s u = Inr (n, rg')"
  shows "agreement_kept (row_id c) rg rg'"
proof -
  from step obtain c0 d employee parent opportunity upstream db' status signed where
    access: "require_contract_access rg a s = Inr c0" and d: "identify_counterparty rg a c0 u = Inr d"
    and parent: "sent_id (uc_parent_id u) (\<lambda>x. bindE (require_contract_parent rg (ac_tenant_id a) (row_side d) x (Some (row_id d))) (\<lambda>c. Inr (row_id c))) = Inr parent"
    and db': "db' = rg_db rg \<or> (\<exists>st m. apply_status_change (rg_db rg) a d st = Inr (m, db'))"
    and touched: "touches_the_agreement u \<longrightarrow> ensure_document_editable (rg_db rg) d = Inr ()"
    and n: "n = changed_row u employee status d"
    and rg': "rg' = rg\<lparr>rg_db := set_row Contract (row_id c0) (\<lambda>_. n) db',
              rg_more := update_rows (\<lambda>m. cm_id m = row_id c0) (changed_more now u parent opportunity upstream signed) (rg_more rg)\<rparr>"
    by (rule update_contract_parts)
  note c0 = access_Inr [OF access] and id = identified [OF d]
  have model: "row_model c = Contract" "row_model c0 = Contract" using c c0 by (simp_all add: contract_rows_def)
  have rows: "db_rows db' = db_rows (rg_db rg)" using db' status_change_leaves by auto
  have untouched: "\<not> touches_the_agreement u" if "row_id c0 = row_id c"
  proof -
    have "c0 = c" using same_row [OF ok(1) c] c0 that by blast
    with still_frozen [OF frozen model(1)] d touched show ?thesis by blast
  qed
  show ?thesis
  proof (rule change_row_keeps_agreement [OF ok, of "row_id c0" "\<lambda>_. n" "changed_more now u parent opportunity upstream signed"])
    show "contract_rows rg' = update_rows (\<lambda>r. row_id r = row_id c0) (\<lambda>_. n) (contract_rows rg)"
      by (rule contract_rows_set_row [of _ _ _ db']) (use id model in \<open>simp_all add: rg' rows n changed_row_def\<close>)
    fix r assume r: "r \<in> set (contract_rows rg)" "row_id r = row_id c0" "row_id c0 = row_id c"
    then have "r = c0" using same_row [OF ok(1), of c0 r] c0 by blast
    with untouched_agreement [OF untouched [OF r(3)] parent] identified_amount [OF d]
    show "row_total_amount n = row_total_amount r \<and> row_currency n = row_currency r" by (simp add: n)
  next
    fix m assume "row_id c0 = row_id c"
    from untouched_agreement [OF untouched [OF this] parent]
    show "cm_type (changed_more now u parent opportunity upstream signed m) = cm_type m \<and>
        cm_from (changed_more now u parent opportunity upstream signed m) = cm_from m \<and>
        cm_to (changed_more now u parent opportunity upstream signed m) = cm_to m \<and>
        cm_parent_id (changed_more now u parent opportunity upstream signed m) = cm_parent_id m" by blast
  qed (use id in \<open>simp_all add: rg' n changed_row_def changed_more_def\<close>)
qed

lemma stamped_keeps_agreement:
  assumes ok: "register_in_order rg" "register_in_order rg'" and rows: "db_rows (rg_db rg') = db_rows (set_row Contract k f (rg_db rg))"
    and f: "\<And>r. row_model (f r) = row_model r \<and> row_id (f r) = row_id r \<and> row_total_amount (f r) = row_total_amount r \<and> row_currency (f r) = row_currency r"
    and same: "rg_more rg' = rg_more rg" "rg_items rg' = rg_items rg" "rg_documents rg' = rg_documents rg" "rg_terms rg' = rg_terms rg"
  shows "agreement_kept i rg rg'"
proof (rule change_row_keeps_agreement [OF ok, of k f id])
  show "contract_rows rg' = update_rows (\<lambda>r. row_id r = k) f (contract_rows rg)"
    using contract_rows_set_row [of f rg' k "rg_db rg" rg] rows f by simp
  show "rg_more rg' = update_rows (\<lambda>m. cm_id m = k) id (rg_more rg)"
    unfolding same update_rows_def by (rule map_idI [symmetric]) simp
qed (use f same in auto)

lemma delete_keeps_agreement:
  assumes ok: "register_in_order rg" "register_in_order rg'" and step: "delete_contract now rg a k = Inr rg'"
  shows "agreement_kept i rg rg'"
proof -
  from step obtain db' where d: "delete_document now (rg_db rg) a Contract k None None = Inr db'" and rg': "rg' = rg\<lparr>rg_db := db'\<rparr>"
    by (auto simp: delete_contract_def bindE_Inr_iff)
  show ?thesis
  proof (cases "db' = rg_db rg")
    case True
    then show ?thesis using rg' grown_keeps_agreement [OF ok(1) ok(1) grown_refl] by simp
  next
    case False
    with d obtain family c where "get_row (rg_db rg) Contract k = Some c" and db': "db' = cancel_todos_for a (df_object_type family) (row_id c) None (set_row Contract k (stamp_deleted family a now None None) (rg_db rg))"
      by (auto simp: delete_document_def bindE_Inr_iff get_scoped_or_404_Inr Let_def split: if_splits)
    show ?thesis
      by (rule stamped_keeps_agreement [OF ok, of k "stamp_deleted family a now None None"])
        (simp_all add: rg' db' store_simps stamp_deleted_def Let_def set_row_def)
  qed
qed

lemma restore_keeps_agreement:
  assumes ok: "register_in_order rg" "register_in_order rg'" and step: "restore_contract rg a k = Inr (r, rg')"
  shows "agreement_kept i rg rg'"
proof -
  from step obtain db' where d: "restore_document (rg_db rg) a Contract k = Inr (r, db')" and rg': "rg' = rg\<lparr>rg_db := db'\<rparr>"
    by (auto simp: restore_contract_def bindE_Inr_iff)
  show ?thesis
  proof (cases "db' = rg_db rg")
    case True
    then show ?thesis using rg' grown_keeps_agreement [OF ok(1) ok(1) grown_refl] by simp
  next
    case False
    with d obtain family where db': "db' = set_row Contract k (clear_deleted family) (rg_db rg)"
      by (auto simp: restore_document_def bindE_Inr_iff get_scoped_or_404_Inr Let_def split: if_splits)
    show ?thesis
      by (rule stamped_keeps_agreement [OF ok, of k "clear_deleted family"])
        (simp_all add: rg' db' store_simps clear_deleted_def Let_def set_row_def)
  qed
qed

subsection \<open>Changes of lines, originals and clauses\<close>

lemma other_contract:
  assumes ok: "register_in_order rg" and c: "c \<in> set (contract_rows rg)" and frozen: "agreement_frozen rg c = Inr True"
    and access: "require_contract_access rg a s = Inr d" and editable: "ensure_document_editable (rg_db rg) d = Inr ()"
  shows "row_id d \<noteq> row_id c"
proof
  assume "row_id d = row_id c"
  then have "d = c" using same_row [OF ok c] access_Inr [OF access] by blast
  with frozen_not_editable [OF frozen] editable c show False by (simp add: contract_rows_def)
qed

lemma lines_of_another:
  assumes ok: "register_in_order rg" and c: "c \<in> set (contract_rows rg)" and frozen: "agreement_frozen rg c = Inr True"
    and item: "contract_item_or_404 rg t s = Inr x" and access: "require_contract_access rg a (ki_contract_id x) = Inr d"
    and editable: "ensure_document_editable (rg_db rg) d = Inr ()"
  shows "x \<in> set (rg_items rg) \<and> ki_contract_id x \<noteq> row_id c"
proof
  show "x \<in> set (rg_items rg)" using item scoped_row_Inr by (fastforce simp: contract_item_or_404_def)
  show "ki_contract_id x \<noteq> row_id c"
  proof
    assume "ki_contract_id x = row_id c"
    with access access_of_id [OF ok c] have "d = c" by simp
    with other_contract [OF ok c frozen access editable] show False by simp
  qed
qed

lemma changed_lines_keep_agreement:
  assumes ok: "register_in_order rg" "register_in_order rg'"
    and rg': "rg' = rg\<lparr>rg_items := xs\<rparr>" and items: "filter (\<lambda>x. ki_contract_id x = i) xs = filter (\<lambda>x. ki_contract_id x = i) (rg_items rg)"
  shows "agreement_kept i rg rg'"
  by (rule agreement_keptI [OF ok]) (use items same_term [OF ok(1)] in \<open>auto simp: rg' contract_rows_def\<close>)

lemma update_line_keeps_agreement:
  assumes ok: "register_in_order rg" "register_in_order rg'" and c: "c \<in> set (contract_rows rg)" "agreement_frozen rg c = Inr True"
    and step: "update_contract_item rg a s u = Inr rg'"
  shows "agreement_kept (row_id c) rg rg'"
proof -
  from step obtain x d p where item: "contract_item_or_404 rg (ac_tenant_id a) s = Inr x" and access: "require_contract_access rg a (ki_contract_id x) = Inr d"
    and editable: "ensure_document_editable (rg_db rg) d = Inr ()"
    and rg': "rg' = rg\<lparr>rg_items := update_rows (\<lambda>i. ki_id i = ki_id x) (updated_contract_item u p) (rg_items rg)\<rparr>"
    by (auto simp: update_contract_item_def bindE_Inr_iff)
  note x = lines_of_another [OF ok(1) c item access editable]
  show ?thesis
  proof (rule changed_lines_keep_agreement [OF ok rg'])
    have "update_rows (\<lambda>i. ki_id i = ki_id x) (updated_contract_item u p) (filter (\<lambda>x. ki_contract_id x = row_id c) (rg_items rg)) =
        filter (\<lambda>x. ki_contract_id x = row_id c) (rg_items rg)"
      by (rule update_elsewhere) (use x same_item [OF ok(1)] in auto)
    then show "filter (\<lambda>x. ki_contract_id x = row_id c) (update_rows (\<lambda>i. ki_id i = ki_id x) (updated_contract_item u p) (rg_items rg)) =
        filter (\<lambda>x. ki_contract_id x = row_id c) (rg_items rg)" by (simp add: update_then_filter)
  qed
qed

lemma delete_line_keeps_agreement:
  assumes ok: "register_in_order rg" "register_in_order rg'" and c: "c \<in> set (contract_rows rg)" "agreement_frozen rg c = Inr True"
    and step: "delete_contract_item rg a s = Inr rg'"
  shows "agreement_kept (row_id c) rg rg'"
proof -
  from step obtain x d where item: "contract_item_or_404 rg (ac_tenant_id a) s = Inr x" and access: "require_contract_access rg a (ki_contract_id x) = Inr d"
    and editable: "ensure_document_editable (rg_db rg) d = Inr ()"
    and rg': "rg' = rg\<lparr>rg_items := filter (\<lambda>i. ki_id i \<noteq> ki_id x) (rg_items rg)\<rparr>"
    by (auto simp: delete_contract_item_def bindE_Inr_iff)
  note x = lines_of_another [OF ok(1) c item access editable]
  show ?thesis
    by (rule changed_lines_keep_agreement [OF ok rg']) (use x same_item [OF ok(1)] in \<open>auto intro!: filter_cong\<close>)
qed

lemma save_keeps_agreement:
  assumes ok: "register_in_order rg" "register_in_order rg'" and c: "c \<in> set (contract_rows rg)" "agreement_frozen rg c = Inr True"
    and step: "save_contract_lines digest rg a s expected rows v = Inr (told, rg')"
  shows "agreement_kept (row_id c) rg rg'"
proof -
  from save_lines_keeps [OF ok(1) step] obtain d where access: "require_contract_access rg a s = Inr d"
    and editable: "ensure_document_editable (rg_db rg) d = Inr ()" and same: "beside (row_id d) rg' = beside (row_id d) rg" by blast
  note other = other_contract [OF ok(1) c access editable]
  have parts: "filter (\<lambda>i. ki_contract_id i \<noteq> row_id d) (rg_items rg') = filter (\<lambda>i. ki_contract_id i \<noteq> row_id d) (rg_items rg)"
    and rest: "contract_rows rg' = contract_rows rg" "rg_more rg' = rg_more rg" "rg_documents rg' = rg_documents rg" "rg_terms rg' = rg_terms rg"
    using same by (simp_all add: beside_def)
  have inner: "filter (\<lambda>x. ki_contract_id x = row_id c) (filter (\<lambda>i. ki_contract_id i \<noteq> row_id d) xs) = filter (\<lambda>x. ki_contract_id x = row_id c) xs" for xs
    unfolding filter_filter using other by (intro filter_cong) auto
  show ?thesis
  proof (rule agreement_keptI [OF ok rest(1,2)])
    show "filter (\<lambda>x. ki_contract_id x = row_id c) (rg_items rg') = filter (\<lambda>x. ki_contract_id x = row_id c) (rg_items rg)"
      using arg_cong [OF parts, of "filter (\<lambda>x. ki_contract_id x = row_id c)"] by (simp only: inner)
    show "kt_content y = kt_content x" if "x \<in> set (rg_terms rg)" "y \<in> set (rg_terms rg')" "kt_id y = kt_id x" for x y
      using that same_term [OF ok(1), of x y] rest(4) by simp
  qed (auto simp: rest(3))
qed

lemma document_of:
  "contract_file_or_404 rg t s = Inr d \<Longrightarrow> d \<in> set (rg_documents rg)"
  using scoped_row_Inr by (fastforce simp: contract_file_or_404_def)

lemma same_document: "register_in_order rg \<Longrightarrow> x \<in> set (rg_documents rg) \<Longrightarrow> y \<in> set (rg_documents rg) \<Longrightarrow> kd_id y = kd_id x \<Longrightarrow> y = x"
  by (auto simp: register_in_order_def tables_sound_def distinct_map inj_on_def)

lemma update_original_keeps_agreement:
  assumes ok: "register_in_order rg" "register_in_order rg'" and step: "update_contract_document rg a s q = Inr rg'"
  shows "agreement_kept i rg rg'"
proof -
  consider "rg' = rg"
    | k t where "rg' = rg\<lparr>rg_documents := update_rows (\<lambda>y. kd_id y = k) (\<lambda>y. y\<lparr>kd_type := t\<rparr>) (rg_documents rg)\<rparr>"
  proof (cases q)
    case None
    with step show thesis by (auto simp: update_contract_document_def bindE_Inr_iff intro: that)
  next
    case (Some x)
    with step show thesis by (cases x) (auto simp: update_contract_document_def bindE_Inr_iff intro: that)
  qed
  then show ?thesis
  proof cases
    case 1
    then show ?thesis using grown_keeps_agreement [OF ok(1) ok(1) grown_refl] by simp
  next
    case 2
    show ?thesis
    proof (rule agreement_keptI [OF ok])
      show "\<exists>e \<in> set (rg_documents rg'). kd_id e = kd_id d \<and> kd_contract_id e = i \<and> kd_attachment_id e = kd_attachment_id d"
        if "d \<in> set (rg_documents rg)" "kd_contract_id d = i" for d
        by (rule bexI [of _ "if kd_id d = k then d\<lparr>kd_type := t\<rparr> else d"]) (use that in \<open>auto simp: 2 set_update_rows\<close>)
    qed (use same_term [OF ok(1)] in \<open>auto simp: 2 contract_rows_def\<close>)
  qed
qed

lemma delete_original_keeps_agreement:
  assumes ok: "register_in_order rg" "register_in_order rg'" and c: "c \<in> set (contract_rows rg)" "agreement_frozen rg c = Inr True"
    and step: "delete_contract_document rg a s = Inr rg'"
  shows "agreement_kept (row_id c) rg rg'"
proof -
  from step obtain d k z where found: "contract_file_or_404 rg (ac_tenant_id a) s = Inr d"
    and access: "require_contract_access rg a (kd_contract_id d) = Inr k"
    and allowed: "(if kd_type d \<noteq> ''draft'' then bindE (agreement_frozen rg k) (\<lambda>frozen. ensure (\<not> frozen) 409 ''its_originals_stay_linked'')
            else Inr ()) = Inr z"
    and rg': "rg' = rg\<lparr>rg_terms := update_rows (\<lambda>t. kt_tenant_id t = ac_tenant_id a \<and> kt_document_id t = Some (kd_id d)) (\<lambda>t. t\<lparr>kt_document_id := None\<rparr>) (rg_terms rg),
             rg_documents := filter (\<lambda>x. kd_id x \<noteq> kd_id d) (rg_documents rg)\<rparr>"
    unfolding delete_contract_document_def bindE_Inr_iff by (elim exE conjE) auto
  have draft: "kd_type d = ''draft''" if "kd_contract_id d = row_id c"
  proof -
    have "k = c" using access that access_of_id [OF ok(1) c(1)] by simp
    with allowed c(2) show ?thesis by (auto simp: bindE_Inr_iff split: if_splits)
  qed
  show ?thesis
  proof (rule agreement_keptI [OF ok])
    fix x y assume x: "x \<in> set (rg_terms rg)" and y: "y \<in> set (rg_terms rg')" and same: "kt_id y = kt_id x"
    from y obtain y0 where "y0 \<in> set (rg_terms rg)" "kt_id y0 = kt_id y" "kt_content y0 = kt_content y" by (auto simp: rg' set_update_rows)
    moreover from this same have "y0 = x" by (intro same_term [OF ok(1) x]) simp_all
    ultimately show "kt_content y = kt_content x" by simp
  next
    fix e assume e: "e \<in> set (rg_documents rg)" "kd_contract_id e = row_id c" "kd_type e \<noteq> ''draft''"
    have "kd_id e \<noteq> kd_id d" using same_document [OF ok(1) document_of [OF found] e(1)] e draft by auto
    with e show "\<exists>x \<in> set (rg_documents rg'). kd_id x = kd_id e \<and> kd_contract_id x = row_id c \<and> kd_attachment_id x = kd_attachment_id e"
      by (auto simp: rg')
  qed (simp_all add: rg' contract_rows_def)
qed

lemma update_clause_keeps_agreement:
  assumes ok: "register_in_order rg" "register_in_order rg'" and c: "c \<in> set (contract_rows rg)" "agreement_frozen rg c = Inr True"
    and step: "update_contract_term rg a s u = Inr rg'"
  shows "agreement_kept (row_id c) rg rg'"
proof -
  from step obtain t k z place where found: "contract_term_or_404 rg (ac_tenant_id a) s = Inr t"
    and access: "require_contract_access rg a (kt_contract_id t) = Inr k"
    and allowed: "(if ku_content u \<noteq> None \<and> ku_content u \<noteq> Some (Some (kt_content t))
            then bindE (agreement_frozen rg k) (\<lambda>frozen. ensure (\<not> frozen) 409 ''a_clause_is_the_signed_words'') else Inr ()) = Inr z"
    and rg': "rg' = rg\<lparr>rg_terms := update_rows (\<lambda>x. kt_id x = kt_id t) (updated_term u place) (rg_terms rg)\<rparr>"
    unfolding update_contract_term_def bindE_Inr_iff by (elim exE conjE) auto
  have t: "t \<in> set (rg_terms rg)" using found scoped_row_Inr by (fastforce simp: contract_term_or_404_def)
  have words: "kt_content (updated_term u place t) = kt_content t" if "kt_contract_id t = row_id c"
  proof -
    have "k = c" using access that access_of_id [OF ok(1) c(1)] by simp
    with allowed c(2) have "ku_content u = None \<or> ku_content u = Some (Some (kt_content t))"
      by (auto simp: bindE_Inr_iff split: if_splits)
    then show ?thesis by (auto simp: updated_term_def)
  qed
  show ?thesis
  proof (rule agreement_keptI [OF ok])
    fix x y assume x: "x \<in> set (rg_terms rg)" "kt_contract_id x = row_id c" and y: "y \<in> set (rg_terms rg')" and same: "kt_id y = kt_id x"
    from y consider "y \<in> set (rg_terms rg)" | y0 where "y0 \<in> set (rg_terms rg)" "kt_id y0 = kt_id t" "y = updated_term u place y0"
      by (auto simp: rg' set_update_rows)
    then show "kt_content y = kt_content x"
    proof cases
      case 1
      then show ?thesis using same_term [OF ok(1) x(1) 1 same] by simp
    next
      case 2
      have "y0 = t" using same_term [OF ok(1) t 2(1,2)] .
      moreover have "x = t" using same_term [OF ok(1) t x(1)] same 2 by (simp add: updated_term_def)
      ultimately show ?thesis using words x(2) 2(3) by simp
    qed
  qed (auto simp: rg' contract_rows_def)
qed

lemma delete_clause_keeps_agreement:
  assumes ok: "register_in_order rg" "register_in_order rg'" and step: "delete_contract_term rg a s = Inr rg'"
  shows "agreement_kept i rg rg'"
proof -
  from step obtain k where rg': "rg' = rg\<lparr>rg_terms := filter (\<lambda>y. kt_id y \<noteq> k) (rg_terms rg)\<rparr>"
    by (auto simp: delete_contract_term_def bindE_Inr_iff)
  show ?thesis by (rule agreement_keptI [OF ok]) (use same_term [OF ok(1)] in \<open>auto simp: rg' contract_rows_def\<close>)
qed

subsection \<open>The claim\<close>

lemma frozen_step:
  assumes ok: "register_in_order rg" and c: "c \<in> set (contract_rows rg)" "agreement_frozen rg c = Inr True"
    and step: "contract_step digest now rg a e = Inr rg'"
  shows "agreement_kept (row_id c) rg rg'"
proof -
  note ok = ok contract_step_keeps [OF ok step]
  show ?thesis
  proof (cases e)
    case (FileContract p v)
    with step obtain n where "create_contract now rg a p v = Inr (n, rg')" by (auto simp: contract_step_def bindE_Inr_iff)
    then show ?thesis by (rule create_keeps_agreement [OF ok c(1)])
  next
    case (ChangeContract s u)
    with step obtain n where "update_contract now rg a s u = Inr (n, rg')" by (auto simp: contract_step_def bindE_Inr_iff)
    then show ?thesis by (rule update_keeps_agreement [OF ok c])
  next
    case (DropContract i)
    with step show ?thesis by (intro delete_keeps_agreement [OF ok]) (simp add: contract_step_def)
  next
    case (BringBackContract i)
    with step obtain r where "restore_contract rg a i = Inr (r, rg')" by (auto simp: contract_step_def bindE_Inr_iff)
    then show ?thesis by (rule restore_keeps_agreement [OF ok])
  next
    case (AddLine s q)
    with step obtain d x where access: "require_contract_access rg a s = Inr d" and editable: "ensure_document_editable (rg_db rg) d = Inr ()"
      and build: "build_contract_item rg (ac_tenant_id a) (row_id d) q None = Inr (x, rg')"
      by (auto simp: contract_step_def create_contract_item_def bindE_Inr_iff)
    show ?thesis by (rule grown_keeps_agreement [OF ok grown_item [OF build]]) (rule other_contract [OF ok(1) c access editable])
  next
    case (ChangeLine s u)
    with step show ?thesis by (intro update_line_keeps_agreement [OF ok c]) (simp add: contract_step_def)
  next
    case (DropLine s)
    with step show ?thesis by (intro delete_line_keeps_agreement [OF ok c]) (simp add: contract_step_def)
  next
    case (SaveLines s r rows v)
    with step obtain told where "save_contract_lines digest rg a s r rows v = Inr (told, rg')"
      by (auto simp: contract_step_def bindE_Inr_iff)
    then show ?thesis by (rule save_keeps_agreement [OF ok c])
  next
    case (AddOriginal s q)
    with step obtain k d where "build_contract_document rg (ac_tenant_id a) k q = Inr (d, rg')"
      by (auto simp: contract_step_def create_contract_document_def bindE_Inr_iff)
    then show ?thesis by (intro grown_keeps_agreement [OF ok] grown_document)
  next
    case (ChangeOriginal s q)
    with step show ?thesis by (intro update_original_keeps_agreement [OF ok]) (simp add: contract_step_def)
  next
    case (DropOriginal s)
    with step show ?thesis by (intro delete_original_keeps_agreement [OF ok c]) (simp add: contract_step_def)
  next
    case (AddClause s q)
    with step obtain k x where "build_contract_term rg (ac_tenant_id a) k q (kq_document_id q) = Inr (x, rg')"
      by (auto simp: contract_step_def create_contract_term_def bindE_Inr_iff)
    then show ?thesis by (intro grown_keeps_agreement [OF ok] grown_term)
  next
    case (ChangeClause s u)
    with step show ?thesis by (intro update_clause_keeps_agreement [OF ok c]) (simp add: contract_step_def)
  next
    case (DropClause s)
    with step show ?thesis by (intro delete_clause_keeps_agreement [OF ok]) (simp add: contract_step_def)
  qed
qed

text \<open>A clause leaves by the call that removes it, and an original changes its kind by the call that changes it.\<close>

definition children_kept :: "contract_event \<Rightarrow> contract_register \<Rightarrow> contract_register \<Rightarrow> bool" where
  "children_kept e rg rg' \<longleftrightarrow>
     ((\<forall>s. e \<noteq> DropClause s) \<longrightarrow> kt_id ` set (rg_terms rg) \<subseteq> kt_id ` set (rg_terms rg')) \<and>
     ((\<forall>s q. e \<noteq> ChangeOriginal s q) \<longrightarrow>
       (\<forall>d \<in> set (rg_documents rg). \<forall>d' \<in> set (rg_documents rg'). kd_id d' = kd_id d \<longrightarrow> kd_type d' = kd_type d))"

lemma children_keptI:
  assumes "register_in_order rg" and "set (rg_documents rg') \<subseteq> set (rg_documents rg)" and "kt_id ` set (rg_terms rg) \<subseteq> kt_id ` set (rg_terms rg')"
  shows "children_kept e rg rg'"
  using assms same_document unfolding children_kept_def by blast

lemma children_kept_grown:
  assumes "register_in_order rg'" and "grown P rg rg'"
  shows "children_kept e rg rg'"
  unfolding children_kept_def
proof (intro conjI impI ballI)
  show "kt_id ` set (rg_terms rg) \<subseteq> kt_id ` set (rg_terms rg')" using assms(2) by (auto simp: grown_def)
  fix d d' assume d: "d \<in> set (rg_documents rg)" "d' \<in> set (rg_documents rg')" "kd_id d' = kd_id d"
  then have "d \<in> set (rg_documents rg')" using assms(2) by (auto simp: grown_def)
  then show "kd_type d' = kd_type d" using same_document [OF assms(1) _ d(2,3)] by blast
qed

lemma create_grows_children:
  assumes step: "create_contract now rg a p v = Inr (n, rg')"
  shows "(\<exists>xs. rg_documents rg' = rg_documents rg @ xs) \<and> (\<exists>ys. rg_terms rg' = rg_terms rg @ ys)"
proof -
  from step obtain party employee parent opportunity upstream status number rg2 documents rg3 rg4 where
    items: "file_items (ac_tenant_id a) (row_id n) (rg\<lparr>rg_db := (tick (rg_db rg))\<lparr>db_rows := db_rows (rg_db rg) @ [n]\<rparr>,
        rg_more := rg_more rg @ [\<lparr>cm_id = row_id n, cm_type = nq_type p, cm_parent_id = parent, cm_opportunity_id = opportunity,
            cm_from = nq_from p, cm_to = nq_to p, cm_signed_at = (if status = ''signed'' then Some now else None), cm_upstream = upstream\<rparr>]\<rparr>)
        (nq_items p) = Inr rg2"
    and files: "file_documents (ac_tenant_id a) (row_id n) rg2 (nq_documents p) = Inr (documents, rg3)"
    and terms: "file_terms (ac_tenant_id a) (row_id n) documents rg3 (nq_terms p) = Inr rg4"
    and rg': "rg' = (if v then rg else rg4)"
    by (rule create_contract_parts)
  have "grown (\<lambda>_. True) (rg\<lparr>rg_db := (tick (rg_db rg))\<lparr>db_rows := db_rows (rg_db rg) @ [n]\<rparr>,
        rg_more := rg_more rg @ [\<lparr>cm_id = row_id n, cm_type = nq_type p, cm_parent_id = parent, cm_opportunity_id = opportunity,
            cm_from = nq_from p, cm_to = nq_to p, cm_signed_at = (if status = ''signed'' then Some now else None), cm_upstream = upstream\<rparr>]\<rparr>) rg4"
    using grown_trans [OF grown_trans [OF grown_items [OF items] grown_documents [OF files]] grown_terms [OF terms]] by simp
  then show ?thesis using rg' by (simp add: grown_def)
qed

lemma children_step:
  assumes ok: "register_in_order rg" and step: "contract_step digest now rg a e = Inr rg'"
  shows "children_kept e rg rg'"
proof -
  note ok' = contract_step_keeps [OF ok step]
  note sub = children_keptI [OF ok]
  show ?thesis
  proof (cases e)
    case (FileContract p v)
    with step obtain n where "create_contract now rg a p v = Inr (n, rg')" by (auto simp: contract_step_def bindE_Inr_iff)
    from create_grows_children [OF this] obtain xs ys where g: "rg_documents rg' = rg_documents rg @ xs" "rg_terms rg' = rg_terms rg @ ys" by blast
    have "kd_type d' = kd_type d" if "d \<in> set (rg_documents rg)" "d' \<in> set (rg_documents rg')" "kd_id d' = kd_id d" for d d'
      using same_document [OF ok' _ that(2,3)] that(1) g(1) by simp
    with g(2) show ?thesis by (auto simp: children_kept_def)
  next
    case (ChangeContract s u)
    with step obtain n where "update_contract now rg a s u = Inr (n, rg')" by (auto simp: contract_step_def bindE_Inr_iff)
    then show ?thesis by (rule update_contract_parts) (rule sub; simp)
  next
    case (DropContract i)
    with step show ?thesis by (intro sub) (auto simp: contract_step_def delete_contract_def bindE_Inr_iff)
  next
    case (BringBackContract i)
    with step show ?thesis by (intro sub) (auto simp: contract_step_def restore_contract_def bindE_Inr_iff)
  next
    case (AddLine s q)
    with step obtain k x where "build_contract_item rg (ac_tenant_id a) k q None = Inr (x, rg')"
      by (auto simp: contract_step_def create_contract_item_def bindE_Inr_iff)
    from grown_item [OF this, of "\<lambda>_. True"] show ?thesis by (intro children_kept_grown [OF ok']) simp
  next
    case (ChangeLine s u)
    with step show ?thesis by (intro sub) (auto simp: contract_step_def update_contract_item_def bindE_Inr_iff)
  next
    case (DropLine s)
    with step show ?thesis by (intro sub) (auto simp: contract_step_def delete_contract_item_def bindE_Inr_iff)
  next
    case (SaveLines s r rows v)
    with step obtain told where "save_contract_lines digest rg a s r rows v = Inr (told, rg')"
      by (auto simp: contract_step_def bindE_Inr_iff)
    from save_lines_keeps [OF ok this] obtain d :: row where "beside (row_id d) rg' = beside (row_id d) rg" by blast
    then have "rg_documents rg' = rg_documents rg" "rg_terms rg' = rg_terms rg" by (simp_all add: beside_def)
    then show ?thesis by (intro sub) auto
  next
    case (AddOriginal s q)
    with step obtain k d where "build_contract_document rg (ac_tenant_id a) k q = Inr (d, rg')"
      by (auto simp: contract_step_def create_contract_document_def bindE_Inr_iff)
    from grown_document [OF this] show ?thesis by (rule children_kept_grown [OF ok'])
  next
    case (ChangeOriginal s q)
    with step have change: "update_contract_document rg a s q = Inr rg'" by (simp add: contract_step_def)
    consider "q = None" | "q = Some None" | t where "q = Some (Some t)" by (cases q) auto
    then have "rg_terms rg' = rg_terms rg"
      by cases (use change in \<open>auto simp: update_contract_document_def bindE_Inr_iff\<close>)
    with ChangeOriginal show ?thesis by (simp add: children_kept_def)
  next
    case (DropOriginal s)
    with step obtain P d where rg': "rg_terms rg' = update_rows P (\<lambda>t. t\<lparr>kt_document_id := None\<rparr>) (rg_terms rg)"
      "set (rg_documents rg') \<subseteq> set (rg_documents rg)"
      by (auto simp: contract_step_def delete_contract_document_def bindE_Inr_iff)
    have "map kt_id (rg_terms rg') = map kt_id (rg_terms rg)" unfolding rg'(1) by (rule map_update_rows_same) simp
    then have "kt_id ` set (rg_terms rg') = kt_id ` set (rg_terms rg)" by (metis list.set_map)
    with rg'(2) show ?thesis by (intro sub) simp_all
  next
    case (AddClause s q)
    with step obtain k x where "build_contract_term rg (ac_tenant_id a) k q (kq_document_id q) = Inr (x, rg')"
      by (auto simp: contract_step_def create_contract_term_def bindE_Inr_iff)
    from grown_term [OF this] show ?thesis by (rule children_kept_grown [OF ok'])
  next
    case (ChangeClause s u)
    with step obtain P f where rg': "rg_terms rg' = update_rows P (updated_term u f) (rg_terms rg)" "rg_documents rg' = rg_documents rg"
      by (auto simp: contract_step_def update_contract_term_def bindE_Inr_iff)
    have "map kt_id (rg_terms rg') = map kt_id (rg_terms rg)" unfolding rg'(1) by (rule map_update_rows_same) (simp add: updated_term_def)
    then have "kt_id ` set (rg_terms rg') = kt_id ` set (rg_terms rg)" by (metis list.set_map)
    with rg'(2) show ?thesis by (intro sub) simp_all
  next
    case (DropClause s)
    with step have "rg_documents rg' = rg_documents rg" by (auto simp: contract_step_def delete_contract_term_def bindE_Inr_iff)
    with DropClause same_document [OF ok] show ?thesis by (auto simp: children_kept_def)
  qed
qed

text \<open>C31: While a contract is past the editable states of its machine (it is signed), one call on contracts by anybody leaves
  its lines, its amount and currency, its type, its term and what it supplements as they are. The words of a clause are not
  rewritten, and a clause leaves only by the call that removes clauses, which a signed contract allows. An original that is not
  a draft stays on the contract with its file; its kind changes only by the call that retypes originals, which a signed contract
  allows too (so two calls do unlink one: \<open>an_original_is_unlinked_in_two_calls\<close>).\<close>

theorem a_signed_contract_keeps_its_words:
  assumes "register_in_order rg" and "c \<in> set (contract_rows rg)" and "agreement_frozen rg c = Inr True"
    and "contract_step digest now rg a e = Inr rg'"
  shows "agreement_kept (row_id c) rg rg' \<and> children_kept e rg rg'"
  using frozen_step [OF assms] children_step [OF assms(1,4)] by blast

end
