(* ===== verification/Contract_Execution.thy ===== *)
theory Contract_Execution
  imports Contract_Save
begin

text \<open>
  What has happened under a contract (\<open>contract_execution\<close>): the orders, invoices and payments that name it and are in a
  counted state, summed per currency, and the quantities contracted and ordered per product.
\<close>

subsection \<open>The states that count\<close>

definition NEVER_HAPPENED :: "string list" where
  "NEVER_HAPPENED = [''void'', ''cancelled'']"

definition next_states :: "machine \<Rightarrow> string \<Rightarrow> string list" where
  "next_states m s = dict_get (m_transitions m) s []"

definition all_targets :: "machine \<Rightarrow> string set" where
  "all_targets m = (\<Union>(_, ts) \<in> set (m_transitions m). set ts)"

lemma targets_within: "set (next_states m s) \<subseteq> all_targets m"
proof (cases "map_of (m_transitions m) s")
  case (Some ts)
  from map_of_SomeD [OF this] Some show ?thesis by (auto simp: next_states_def dict_get_def all_targets_def)
qed (simp add: next_states_def dict_get_def)

lemma finite_targets: "finite (all_targets m)"
  by (auto simp: all_targets_def)

text \<open>The work list of \<open>_states_from\<close>, its end first: \<open>pop\<close> takes the head, \<open>extend\<close> puts the targets before the rest.\<close>

function reach_states :: "machine \<Rightarrow> string list \<Rightarrow> string list \<Rightarrow> string list" where
  "reach_states m reached [] = reached"
| "reach_states m reached (s # todo) =
     (if s \<in> set reached then reach_states m reached todo else reach_states m (s # reached) (rev (next_states m s) @ todo))"
  by pat_completeness auto

termination
proof (relation "measures [\<lambda>(m, reached, todo). card ((set todo \<union> all_targets m) - set reached), \<lambda>(m, reached, todo). length todo]", goal_cases)
  case (2 m reached s todo)
  have "(set todo \<union> all_targets m) - set reached \<subseteq> (set (s # todo) \<union> all_targets m) - set reached" by auto
  then have "card ((set todo \<union> all_targets m) - set reached) \<le> card ((set (s # todo) \<union> all_targets m) - set reached)"
    using finite_targets by (intro card_mono) auto
  then show ?case by auto
next
  case (3 m reached s todo)
  have "(set (rev (next_states m s) @ todo) \<union> all_targets m) - set (s # reached) \<subset> (set (s # todo) \<union> all_targets m) - set reached"
    using targets_within [of m s] 3 by auto
  then have "card ((set (rev (next_states m s) @ todo) \<union> all_targets m) - set (s # reached)) < card ((set (s # todo) \<union> all_targets m) - set reached)"
    using finite_targets by (intro psubset_card_mono) auto
  then show ?case by simp
qed simp

definition states_from :: "machine \<Rightarrow> string option \<Rightarrow> string list" where
  "states_from m start =
     filter (\<lambda>s. s \<notin> set NEVER_HAPPENED)
       (case start of None \<Rightarrow> filter (\<lambda>s. s \<noteq> m_initial m) (m_states m) | Some s \<Rightarrow> reach_states m [] [s])"

definition counted_states :: "db \<Rightarrow> uuid \<Rightarrow> string \<Rightarrow> string list result" where
  "counted_states db tenant_id object_type =
     bindE (get_builtin_machine (db_definitions db) tenant_id object_type) (\<lambda>m.
     if object_type = ''invoice'' then bindE (state_for_role m ''invoice'' ''issued'') (\<lambda>s. Inr (states_from m (Some s)))
     else if object_type = ''payment'' then bindE (state_for_role m ''payment'' ''paid'') (\<lambda>s. Inr [s])
     else if object_type = ''sales_order'' then bindE (state_for_role m ''sales_order'' ''confirmed'') (\<lambda>s. Inr (states_from m (Some s)))
     else Inr (states_from m (if ''confirmed'' \<in> set (m_states m) then Some ''confirmed'' else None)))"

subsection \<open>The report\<close>

record figures =
  fg_orders :: nat
  fg_ordered :: money
  fg_invoices :: nat
  fg_invoiced :: money
  fg_payments :: nat
  fg_paid :: money

definition no_figures :: figures where
  "no_figures = \<lparr>fg_orders = 0, fg_ordered = 0, fg_invoices = 0, fg_invoiced = 0, fg_payments = 0, fg_paid = 0\<rparr>"

definition counted_rows :: "contract_register \<Rightarrow> row \<Rightarrow> model \<Rightarrow> string list \<Rightarrow> row list" where
  "counted_rows rg contract m counted =
     filter (\<lambda>r. row_model r = m \<and> row_tenant_id r = row_tenant_id contract \<and>
         map_of (rg_contract_of rg) (m, row_id r) = Some (row_id contract) \<and> row_deleted_at r = None \<and> row_status r \<in> set counted)
       (db_rows (rg_db rg))"

text \<open>\<open>by_currency.setdefault(currency or contract.currency, zeroes)\<close>, then one count and one amount go up.\<close>

definition in_currency :: "row \<Rightarrow> row \<Rightarrow> string" where
  "in_currency contract r = (if row_currency r = [] then row_currency contract else row_currency r)"

fun add_to :: "string \<Rightarrow> (figures \<Rightarrow> figures) \<Rightarrow> (string \<times> figures) list \<Rightarrow> (string \<times> figures) list" where
  "add_to c f [] = [(c, f no_figures)]"
| "add_to c f ((k, b) # bs) = (if k = c then (k, f b) # bs else (k, b) # add_to c f bs)"

definition or_zero :: "money option \<Rightarrow> money" where
  "or_zero x = (case x of None \<Rightarrow> 0 | Some v \<Rightarrow> v)"

definition add_order :: "row \<Rightarrow> figures \<Rightarrow> figures" where
  "add_order r b = b\<lparr>fg_orders := Suc (fg_orders b), fg_ordered := fg_ordered b + or_zero (row_total_amount r)\<rparr>"

definition add_invoice :: "row \<Rightarrow> figures \<Rightarrow> figures" where
  "add_invoice r b = b\<lparr>fg_invoices := Suc (fg_invoices b), fg_invoiced := fg_invoiced b + or_zero (row_total_amount r)\<rparr>"

definition add_payment :: "row \<Rightarrow> figures \<Rightarrow> figures" where
  "add_payment r b = b\<lparr>fg_payments := Suc (fg_payments b), fg_paid := fg_paid b + row_amount r\<rparr>"

definition by_currency :: "row \<Rightarrow> row list \<Rightarrow> row list \<Rightarrow> row list \<Rightarrow> (string \<times> figures) list" where
  "by_currency contract orders invoices payments =
     fold (\<lambda>r. add_to (in_currency contract r) (add_payment r)) payments
     (fold (\<lambda>r. add_to (in_currency contract r) (add_invoice r)) invoices
     (fold (\<lambda>r. add_to (in_currency contract r) (add_order r)) orders []))"

definition rounded :: "figures \<Rightarrow> figures" where
  "rounded b = b\<lparr>fg_ordered := round2 (fg_ordered b), fg_invoiced := round2 (fg_invoiced b), fg_paid := round2 (fg_paid b)\<rparr>"

definition figures_of :: "(string \<times> figures) list \<Rightarrow> string \<Rightarrow> figures" where
  "figures_of bs c = (case map_of bs c of None \<Rightarrow> no_figures | Some b \<Rightarrow> b)"

text \<open>\<open>func.sum(quantity)\<close> over the live lines of the counted orders that name the product.\<close>

definition ordered_quantity :: "contract_register \<Rightarrow> line_model \<Rightarrow> row \<Rightarrow> row list \<Rightarrow> uuid \<Rightarrow> money" where
  "ordered_quantity rg item_model contract orders product =
     sum_list (map (or_zero \<circ> ln_quantity) (filter (\<lambda>l. ln_model l = item_model \<and> ln_tenant_id l = row_tenant_id contract \<and>
       ln_parent_id l \<in> row_id ` set orders \<and> ln_deleted_at l = None \<and> map_of (rg_product_of rg) (ln_id l) = Some product) (db_lines (rg_db rg))))"

text \<open>\<open>ORDER BY line_no ASC\<close> has lines without a number last; rows are listed in the order of their creation.\<close>

definition contracted_lines :: "contract_register \<Rightarrow> row \<Rightarrow> contract_item list" where
  "contracted_lines rg contract =
     sort_key (\<lambda>i. case ki_line_no i of None \<Rightarrow> (1::nat, 0) | Some n \<Rightarrow> (0, n))
       (filter (\<lambda>i. ki_product_id i \<noteq> None) (contract_lines rg (row_tenant_id contract) (row_id contract)))"

fun add_contracted :: "uuid \<Rightarrow> money option \<Rightarrow> (uuid \<times> money option) list \<Rightarrow> (uuid \<times> money option) list" where
  "add_contracted p q [] = [(p, q)]"
| "add_contracted p q ((k, x) # xs) =
     (if k = p then (k, case q of None \<Rightarrow> x | Some v \<Rightarrow> Some (or_zero x + v)) # xs else (k, x) # add_contracted p q xs)"

definition contracted_quantities :: "contract_register \<Rightarrow> row \<Rightarrow> (uuid \<times> money option) list" where
  "contracted_quantities rg contract =
     fold (\<lambda>i. add_contracted (the (ki_product_id i)) (ki_quantity i)) (contracted_lines rg contract) []"

record execution =
  xe_own :: figures
  xe_others :: "(string \<times> figures) list"
  xe_lines :: "(uuid \<times> money option \<times> money) list"

definition contract_execution :: "contract_register \<Rightarrow> actor \<Rightarrow> string \<Rightarrow> execution result" where
  "contract_execution rg a s =
     bindE (require_contract_access rg a s) (\<lambda>contract.
     let tenant_id = ac_tenant_id a; buying = row_side contract = ''purchase'';
         order_model = (if buying then PurchaseOrder else SalesOrder);
         item_model = (if buying then PurchaseOrderItem else SalesOrderItem) in
     bindE (counted_states (rg_db rg) tenant_id (if buying then ''purchase_order'' else ''sales_order'')) (\<lambda>order_states.
     bindE (counted_states (rg_db rg) tenant_id ''invoice'') (\<lambda>invoice_states.
     bindE (counted_states (rg_db rg) tenant_id ''payment'') (\<lambda>payment_states.
     let orders = counted_rows rg contract order_model order_states;
         buckets = by_currency contract orders (counted_rows rg contract Invoice invoice_states) (counted_rows rg contract Payment payment_states)
     in Inr \<lparr>xe_own = rounded (figures_of buckets (row_currency contract)),
             xe_others = map (\<lambda>(c, b). (c, rounded b)) (sort_key fst (filter (\<lambda>(c, _). c \<noteq> row_currency contract) buckets)),
             xe_lines = map (\<lambda>(p, q). (p, q, ordered_quantity rg item_model contract orders p)) (contracted_quantities rg contract)\<rparr>))))"

subsection \<open>Counted is reachable\<close>

definition machine_moves :: "machine \<Rightarrow> (string \<times> string) set" where
  "machine_moves m = {(s, t). t \<in> set (next_states m s)}"

lemma reach_states_sound:
  assumes "\<forall>s \<in> set reached \<union> set todo. (start, s) \<in> (machine_moves m)\<^sup>*" and "t \<in> set (reach_states m reached todo)"
  shows "(start, t) \<in> (machine_moves m)\<^sup>*"
  using assms
proof (induction m reached todo rule: reach_states.induct)
  case (2 m reached s todo)
  show ?case
  proof (cases "s \<in> set reached")
    case True
    with 2 show ?thesis by simp
  next
    case False
    have "(start, u) \<in> (machine_moves m)\<^sup>*" if "u \<in> set (next_states m s)" for u
      using "2.prems"(1) that by (auto simp: machine_moves_def intro: rtrancl_into_rtrancl)
    with 2 False show ?thesis by auto
  qed
qed auto

lemma reach_states_closed:
  assumes "\<forall>s \<in> set reached. set (next_states m s) \<subseteq> set reached \<union> set todo"
  shows "set reached \<union> set todo \<subseteq> set (reach_states m reached todo) \<and>
    (\<forall>s \<in> set (reach_states m reached todo). set (next_states m s) \<subseteq> set (reach_states m reached todo))"
  using assms
proof (induction m reached todo rule: reach_states.induct)
  case (2 m reached s todo)
  show ?case
  proof (cases "s \<in> set reached")
    case True
    with 2 show ?thesis by auto
  next
    case False
    have "\<forall>x \<in> set (s # reached). set (next_states m x) \<subseteq> set (s # reached) \<union> set (rev (next_states m s) @ todo)"
      using "2.prems" by auto
    from "2.IH"(2) [OF False this] False show ?thesis by auto
  qed
qed auto

lemma reach_states_iff: "t \<in> set (reach_states m [] [s]) \<longleftrightarrow> (s, t) \<in> (machine_moves m)\<^sup>*"
proof
  show "(s, t) \<in> (machine_moves m)\<^sup>*" if "t \<in> set (reach_states m [] [s])" by (rule reach_states_sound [OF _ that]) simp
  have closed: "s \<in> set (reach_states m [] [s])" "\<And>u v. u \<in> set (reach_states m [] [s]) \<Longrightarrow> (u, v) \<in> machine_moves m \<Longrightarrow> v \<in> set (reach_states m [] [s])"
    using reach_states_closed [of "[]" m "[s]"] by (auto simp: machine_moves_def)
  show "t \<in> set (reach_states m [] [s])" if "(s, t) \<in> (machine_moves m)\<^sup>*"
    using that by (induction rule: rtrancl_induct) (use closed in auto)
qed

lemma states_from_iff: "t \<in> set (states_from m (Some s)) \<longleftrightarrow> (s, t) \<in> (machine_moves m)\<^sup>* \<and> t \<noteq> ''void'' \<and> t \<noteq> ''cancelled''"
  by (simp add: states_from_def reach_states_iff NEVER_HAPPENED_def conj_commute del: reach_states.simps)

lemma states_from_set:
  "set (states_from m (Some s)) = {t. (s, t) \<in> {(x, y). y \<in> set (dict_get (m_transitions m) x [])}\<^sup>*} - {''void'', ''cancelled''}"
  "set (states_from m None) = set (m_states m) - {m_initial m, ''void'', ''cancelled''}"
  using states_from_iff [of _ m s] by (auto simp: machine_moves_def next_states_def states_from_def NEVER_HAPPENED_def)

text \<open>C34: Which states count as having happened, of whatever kind the documents are and whatever the workspace's machine is. A
  payment counts in the state that plays \<open>paid\<close>, in no other. An invoice counts in the state that plays \<open>issued\<close> and
  a sales order in the one that plays \<open>confirmed\<close>, and in every state reached from there; so does any other order (a purchase
  order) from a state named \<open>confirmed\<close>, or, where its
  machine has none, in every state but the initial one; never in void or cancelled. The walk over the machine ends.\<close>

theorem what_counts_is_what_is_reachable:
  assumes "counted_states db t kind = Inr counted"
  shows "\<exists>m. get_builtin_machine (db_definitions db) t kind = Inr m \<and>
    (if kind = ''payment'' then \<exists>paid. state_for_role m kind ''paid'' = Inr paid \<and> set counted = {paid}
     else (\<exists>anchor.
         (if kind = ''invoice'' then state_for_role m kind ''issued'' = Inr anchor
          else if kind = ''sales_order'' then state_for_role m kind ''confirmed'' = Inr anchor
          else anchor = ''confirmed'' \<and> ''confirmed'' \<in> set (m_states m)) \<and>
         set counted = {s. (anchor, s) \<in> {(x, y). y \<in> set (dict_get (m_transitions m) x [])}\<^sup>*} - {''void'', ''cancelled''}) \<or>
       kind \<notin> {''invoice'', ''sales_order''} \<and> ''confirmed'' \<notin> set (m_states m) \<and>
         set counted = set (m_states m) - {m_initial m, ''void'', ''cancelled''})"
proof -
  from assms obtain m where m: "get_builtin_machine (db_definitions db) t kind = Inr m"
    and counted: "(if kind = ''invoice'' then bindE (state_for_role m ''invoice'' ''issued'') (\<lambda>s. Inr (states_from m (Some s)))
     else if kind = ''payment'' then bindE (state_for_role m ''payment'' ''paid'') (\<lambda>s. Inr [s])
     else if kind = ''sales_order'' then bindE (state_for_role m ''sales_order'' ''confirmed'') (\<lambda>s. Inr (states_from m (Some s)))
     else Inr (states_from m (if ''confirmed'' \<in> set (m_states m) then Some ''confirmed'' else None))) = Inr counted"
    unfolding counted_states_def bindE_Inr_iff by blast
  consider "kind = ''payment''" | "kind = ''invoice''" | "kind = ''sales_order''" | "kind \<notin> {''payment'', ''invoice'', ''sales_order''}" by blast
  then show ?thesis
  proof cases
    case 1
    with counted obtain paid where "state_for_role m kind ''paid'' = Inr paid" "counted = [paid]" by (auto simp: bindE_Inr_iff)
    then have "\<exists>paid. state_for_role m kind ''paid'' = Inr paid \<and> set counted = {paid}" by simp
    with m 1 show ?thesis by simp
  next
    case 2
    with counted obtain s where "state_for_role m kind ''issued'' = Inr s" "counted = states_from m (Some s)" by (auto simp: bindE_Inr_iff)
    with m 2 states_from_set(1) [of m s] show ?thesis by (intro exI [of _ m]) simp
  next
    case 3
    with counted obtain s where "state_for_role m kind ''confirmed'' = Inr s" "counted = states_from m (Some s)" by (auto simp: bindE_Inr_iff)
    with m 3 states_from_set(1) [of m s] show ?thesis by (intro exI [of _ m]) simp
  next
    case 4
    show ?thesis
    proof (cases "''confirmed'' \<in> set (m_states m)")
      case True
      with 4 counted have "counted = states_from m (Some ''confirmed'')" by simp
      with m 4 True states_from_set(1) [of m "''confirmed''"] show ?thesis by (intro exI [of _ m]) simp
    next
      case False
      with 4 counted have "counted = states_from m None" by simp
      with m 4 False states_from_set(2) [of m] show ?thesis by (intro exI [of _ m]) simp
    qed
  qed
qed

subsection \<open>Sums per currency\<close>

lemma figures_add_to: "figures_of (add_to c f bs) k = (if k = c then f (figures_of bs c) else figures_of bs k)"
  by (induction bs) (auto simp: figures_of_def)

lemma figures_fold:
  "figures_of (fold (\<lambda>r. add_to (cur r) (f r)) rs bs) k = fold f (filter (\<lambda>r. cur r = k) rs) (figures_of bs k)"
  by (induction rs arbitrary: bs) (auto simp: figures_add_to)

lemma fold_orders: "fold add_order rs b = b\<lparr>fg_orders := fg_orders b + length rs, fg_ordered := fg_ordered b + sum_list (map (or_zero \<circ> row_total_amount) rs)\<rparr>"
  by (induction rs arbitrary: b) (simp_all add: add_order_def)

lemma fold_invoices: "fold add_invoice rs b = b\<lparr>fg_invoices := fg_invoices b + length rs, fg_invoiced := fg_invoiced b + sum_list (map (or_zero \<circ> row_total_amount) rs)\<rparr>"
  by (induction rs arbitrary: b) (simp_all add: add_invoice_def)

lemma fold_payments: "fold add_payment rs b = b\<lparr>fg_payments := fg_payments b + length rs, fg_paid := fg_paid b + sum_list (map row_amount rs)\<rparr>"
  by (induction rs arbitrary: b) (simp_all add: add_payment_def)

lemma by_currency_figures:
  "figures_of (by_currency c orders invoices payments) k =
     \<lparr>fg_orders = length (filter (\<lambda>r. in_currency c r = k) orders),
      fg_ordered = sum_list (map (or_zero \<circ> row_total_amount) (filter (\<lambda>r. in_currency c r = k) orders)),
      fg_invoices = length (filter (\<lambda>r. in_currency c r = k) invoices),
      fg_invoiced = sum_list (map (or_zero \<circ> row_total_amount) (filter (\<lambda>r. in_currency c r = k) invoices)),
      fg_payments = length (filter (\<lambda>r. in_currency c r = k) payments),
      fg_paid = sum_list (map row_amount (filter (\<lambda>r. in_currency c r = k) payments))\<rparr>"
  unfolding by_currency_def figures_fold fold_orders fold_invoices fold_payments
  by (simp add: figures_of_def no_figures_def)

lemma add_to_keys: "fst ` set (add_to c f bs) = insert c (fst ` set bs)"
proof (induction bs)
  case (Cons x bs)
  obtain k b where "x = (k, b)" by (cases x)
  with Cons show ?case by (cases "k = c") (simp_all add: insert_commute)
qed simp

lemma add_to_distinct: "distinct (map fst bs) \<Longrightarrow> distinct (map fst (add_to c f bs))"
proof (induction bs)
  case (Cons x bs)
  obtain k b where x: "x = (k, b)" by (cases x)
  have "k \<notin> fst ` set (add_to c f bs)" if "k \<noteq> c" using Cons.prems that by (simp add: x add_to_keys)
  with Cons show ?case by (cases "k = c") (simp_all add: x)
qed simp

lemma fold_add_to:
  "distinct (map fst bs) \<Longrightarrow> distinct (map fst (fold (\<lambda>r. add_to (cur r) (f r)) rs bs)) \<and>
    fst ` set (fold (\<lambda>r. add_to (cur r) (f r)) rs bs) = fst ` set bs \<union> cur ` set rs"
  by (induction rs arbitrary: bs) (auto simp: add_to_distinct add_to_keys)

lemma by_currency_keys:
  "distinct (map fst (by_currency c orders invoices payments))"
  "fst ` set (by_currency c orders invoices payments) = in_currency c ` (set orders \<union> set invoices \<union> set payments)"
  unfolding by_currency_def by (auto simp: fold_add_to)

text \<open>The report of a contract adds money in one currency only: the figures of a currency are the counts and the rounded
  sums of the counted orders, invoices and payments in it (a document without a currency is in the contract's), the
  contract's own currency is at the top, and every other currency of a counted document has its figures once.\<close>

theorem money_is_added_in_one_currency:
  assumes "contract_execution rg a s = Inr x"
  shows "\<exists>c orders invoices payments. require_contract_access rg a s = Inr c \<and>
    (\<forall>r \<in> set (orders @ invoices @ payments). r \<in> set (db_rows (rg_db rg)) \<and> map_of (rg_contract_of rg) (row_model r, row_id r) = Some (row_id c) \<and> row_deleted_at r = None) \<and>
    distinct (map fst (xe_others x)) \<and>
    set (map fst (xe_others x)) = in_currency c ` set (orders @ invoices @ payments) - {row_currency c} \<and>
    (\<forall>(k, b) \<in> set ((row_currency c, xe_own x) # xe_others x). b =
      \<lparr>fg_orders = length (filter (\<lambda>r. in_currency c r = k) orders),
       fg_ordered = round2 (sum_list (map (or_zero \<circ> row_total_amount) (filter (\<lambda>r. in_currency c r = k) orders))),
       fg_invoices = length (filter (\<lambda>r. in_currency c r = k) invoices),
       fg_invoiced = round2 (sum_list (map (or_zero \<circ> row_total_amount) (filter (\<lambda>r. in_currency c r = k) invoices))),
       fg_payments = length (filter (\<lambda>r. in_currency c r = k) payments),
       fg_paid = round2 (sum_list (map row_amount (filter (\<lambda>r. in_currency c r = k) payments)))\<rparr>)"
proof -
  from assms obtain c os vs ps where c: "require_contract_access rg a s = Inr c"
    and x: "x = \<lparr>xe_own = rounded (figures_of (by_currency c (counted_rows rg c (if row_side c = ''purchase'' then PurchaseOrder else SalesOrder) os)
          (counted_rows rg c Invoice vs) (counted_rows rg c Payment ps)) (row_currency c)),
        xe_others = map (\<lambda>(c, b). (c, rounded b)) (sort_key fst (filter (\<lambda>(k, _). k \<noteq> row_currency c)
          (by_currency c (counted_rows rg c (if row_side c = ''purchase'' then PurchaseOrder else SalesOrder) os)
          (counted_rows rg c Invoice vs) (counted_rows rg c Payment ps)))),
        xe_lines = xe_lines x\<rparr>"
    unfolding contract_execution_def Let_def bindE_Inr_iff by (elim exE conjE) auto
  define orders where "orders = counted_rows rg c (if row_side c = ''purchase'' then PurchaseOrder else SalesOrder) os"
  define invoices where "invoices = counted_rows rg c Invoice vs"
  define payments where "payments = counted_rows rg c Payment ps"
  define bs where "bs = by_currency c orders invoices payments"
  note x = x [folded orders_def invoices_def payments_def, folded bs_def]
  have own: "xe_own x = rounded (figures_of bs (row_currency c))" by (subst x) simp
  have others: "xe_others x = map (\<lambda>(c, b). (c, rounded b)) (sort_key fst (filter (\<lambda>(k, _). k \<noteq> row_currency c) bs))" by (subst x) simp
  note keys = by_currency_keys [of c orders invoices payments, folded bs_def]
  have fst_others: "map fst (xe_others x) = map fst (sort_key fst (filter (\<lambda>(k, _). k \<noteq> row_currency c) bs))"
    unfolding others by (simp add: case_prod_beta comp_def)
  have dist: "distinct (map fst (xe_others x))"
    unfolding fst_others distinct_map using keys(1) by (auto simp: distinct_map inj_on_def)
  have others_set: "set (xe_others x) = {(k, rounded b) | k b. (k, b) \<in> set bs \<and> k \<noteq> row_currency c}" by (auto simp: others)
  have "set (map fst (xe_others x)) = fst ` {p \<in> set bs. fst p \<noteq> row_currency c}"
    unfolding fst_others by (simp add: case_prod_beta)
  also have "\<dots> = fst ` set bs - {row_currency c}" by (rule set_eqI) (auto simp: image_iff intro: bexI [rotated])
  finally have "set (map fst (xe_others x)) = fst ` set bs - {row_currency c}" .
  then have keys_others: "set (map fst (xe_others x)) = in_currency c ` set (orders @ invoices @ payments) - {row_currency c}"
    using keys(2) by (simp add: Un_assoc)
  have shape: "rounded (figures_of bs k) =
      \<lparr>fg_orders = length (filter (\<lambda>r. in_currency c r = k) orders),
       fg_ordered = round2 (sum_list (map (or_zero \<circ> row_total_amount) (filter (\<lambda>r. in_currency c r = k) orders))),
       fg_invoices = length (filter (\<lambda>r. in_currency c r = k) invoices),
       fg_invoiced = round2 (sum_list (map (or_zero \<circ> row_total_amount) (filter (\<lambda>r. in_currency c r = k) invoices))),
       fg_payments = length (filter (\<lambda>r. in_currency c r = k) payments),
       fg_paid = round2 (sum_list (map row_amount (filter (\<lambda>r. in_currency c r = k) payments)))\<rparr>" for k
    unfolding bs_def by_currency_figures rounded_def by simp
  have found: "b = rounded (figures_of bs k)" if "(k, b) \<in> set ((row_currency c, xe_own x) # xe_others x)" for k b
  proof (cases "(k, b) \<in> set (xe_others x)")
    case True
    then obtain b0 where "(k, b0) \<in> set bs" "b = rounded b0" by (auto simp: others_set)
    then show ?thesis using keys(1) by (simp add: figures_of_def)
  next
    case False
    with that own show ?thesis by simp
  qed
  have rows: "\<forall>r \<in> set (orders @ invoices @ payments). r \<in> set (db_rows (rg_db rg)) \<and>
      map_of (rg_contract_of rg) (row_model r, row_id r) = Some (row_id c) \<and> row_deleted_at r = None"
    by (auto simp: orders_def invoices_def payments_def counted_rows_def)
  show ?thesis
  proof (intro exI conjI)
    show "require_contract_access rg a s = Inr c" by (rule c)
    show "\<forall>r \<in> set (orders @ invoices @ payments). r \<in> set (db_rows (rg_db rg)) \<and>
      map_of (rg_contract_of rg) (row_model r, row_id r) = Some (row_id c) \<and> row_deleted_at r = None" by (rule rows)
    show "distinct (map fst (xe_others x))" by (rule dist)
    show "set (map fst (xe_others x)) = in_currency c ` set (orders @ invoices @ payments) - {row_currency c}" by (rule keys_others)
    show "\<forall>(k, b) \<in> set ((row_currency c, xe_own x) # xe_others x). b =
      \<lparr>fg_orders = length (filter (\<lambda>r. in_currency c r = k) orders),
       fg_ordered = round2 (sum_list (map (or_zero \<circ> row_total_amount) (filter (\<lambda>r. in_currency c r = k) orders))),
       fg_invoices = length (filter (\<lambda>r. in_currency c r = k) invoices),
       fg_invoiced = round2 (sum_list (map (or_zero \<circ> row_total_amount) (filter (\<lambda>r. in_currency c r = k) invoices))),
       fg_payments = length (filter (\<lambda>r. in_currency c r = k) payments),
       fg_paid = round2 (sum_list (map row_amount (filter (\<lambda>r. in_currency c r = k) payments)))\<rparr>"
      unfolding shape [symmetric] using found by blast
  qed
qed

end
