(* ===== verification/Contract_Examples.thy ===== *)
theory Contract_Examples
  imports Contract_Freeze Contract_Execution
begin

text \<open>A small register with its witnesses, and what the checks let through.\<close>

definition contract_desk :: actor where
  "contract_desk = with_grants [''contract.manage''] blank_actor"

definition empty_register :: contract_register where
  "empty_register = \<lparr>rg_db = blank_db, rg_more = [], rg_items = [], rg_documents = [], rg_terms = [],
     rg_attachments = [(''scan'', ''t'')], rg_products = [], rg_contract_of = [], rg_product_of = []\<rparr>"

definition crates :: contract_item_request where
  "crates = \<lparr>iq_line_no = None, iq_product_id = None, iq_description = Some ''crates'', iq_quantity = Some 1, iq_unit_price = Some 1\<rparr>"

definition purchase_contract :: "string option \<Rightarrow> contract_event" where
  "purchase_contract parent = FileContract \<lparr>nq_type = ''purchase'', nq_vendor_id = None, nq_customer_id = None, nq_side = Some ''purchase'',
     nq_opportunity_id = None, nq_upstream = None, nq_snapshot = Some ''Acme'', nq_amount = Some 1, nq_currency = ''CNY'', nq_from = None,
     nq_to = None, nq_employee_id = None, nq_parent_id = parent, nq_status = None, nq_number = (if parent = None then Some ''CT-1'' else Some ''CT-2''), nq_items = [crates],
     nq_documents = [\<lparr>fq_attachment_id = ''scan'', fq_type = ''signed''\<rparr>],
     nq_terms = [\<lparr>kq_type = ''deposit'', kq_content = ''30%'', kq_summary = None, kq_document_id = None, kq_document_index = Some 0\<rparr>]\<rparr> False"

definition no_change :: contract_update where
  "no_change = \<lparr>uc_title = None, uc_type = None, uc_vendor_id = None, uc_customer_id = None, uc_side = None, uc_opportunity_id = None,
     uc_upstream = None, uc_snapshot = None, uc_amount = None, uc_currency = None, uc_from = None, uc_to = None, uc_employee_id = None,
     uc_parent_id = None, uc_status = None, uc_other_terms = False\<rparr>"

definition plain_hash :: contract_hash where
  "plain_hash = (\<lambda>(_, _, is). concat (map ki_id is))"

text \<open>A contract, its supplement, and the contract signed; then it is to supplement its own supplement, which is refused.\<close>

definition contract_days :: "(timestamp \<times> actor \<times> contract_event) list" where
  "contract_days = map (\<lambda>e. (1, contract_desk, e)) [purchase_contract None, purchase_contract (Some ''x''),
     ChangeContract ''x'' (no_change\<lparr>uc_parent_id := Some (Some ''xxxxx'')\<rparr>), ChangeContract ''x'' (no_change\<lparr>uc_status := Some (Some ''signed'')\<rparr>)]"

definition signed_register :: contract_register where
  "signed_register = run_contracts plain_hash empty_register contract_days"

definition spoken :: contract_event where
  "spoken = AddClause ''x'' \<lparr>kq_type = ''deposit'', kq_content = ''in two parts'', kq_summary = None, kq_document_id = None, kq_document_index = None\<rparr>"

definition more_crates :: "stated_line list" where
  "more_crates = [\<lparr>sl_id = Some ''xxxxxx'', sl_cells = [(''quantity'', JNum 12), (''description'', JStr ''crates'')]\<rparr>]"

definition also_pallets :: "stated_line list" where
  "also_pallets = [\<lparr>sl_id = Some ''xxxxxx'', sl_cells = []\<rparr>, \<lparr>sl_id = None, sl_cells = [(''description'', JStr ''pallets'')]\<rparr>]"

definition saved :: "contract_register \<Rightarrow> stated_line list \<Rightarrow> (line_note list \<times> contract_register) result" where
  "saved rg rows = save_contract_lines plain_hash rg contract_desk ''xxxxx'' ''xxxxxx'' rows False"

text \<open>An order placed under the contract, in another currency.\<close>

definition place_order :: "contract_register \<Rightarrow> contract_register" where
  "place_order rg = rg\<lparr>rg_contract_of := [((PurchaseOrder, ''po''), ''x'')],
     rg_db := (rg_db rg)\<lparr>db_rows := map (\<lambda>r. r\<lparr>row_model := PurchaseOrder, row_id := ''po'', row_status := ''confirmed'', row_currency := ''USD'',
       row_total_amount := Some 5\<rparr>) (take 1 (db_rows (rg_db rg))) @ db_rows (rg_db rg)\<rparr>\<rparr>"

text \<open>What can be seen in the register, worked out in one evaluation each.\<close>

lemma register_seen:
  "let rg = signed_register in
     list_ex (\<lambda>c. row_id c = ''x'') (contract_rows rg) \<and> list_ex (\<lambda>c. row_id c = ''xxxxx'') (contract_rows rg) \<and>
     parent_of rg ''xxxxx'' = Some ''x'' \<and>
     list_all (\<lambda>c. row_id c = ''x'' \<longrightarrow> agreement_frozen rg c = Inr True) (contract_rows rg) \<and>
     is_ok (contract_step plain_hash 2 rg contract_desk spoken)"
  by code_simp

lemma saves_seen:
  "let rg = signed_register in is_ok (bindE (saved rg more_crates) (\<lambda>(_, rg1). saved rg1 also_pallets))"
  by code_simp

lemma report_seen:
  "let rg = signed_register in
     (case contract_execution (place_order rg) contract_desk ''x'' of Inr x \<Rightarrow>
      fg_orders (xe_own x) = 0 \<and> map (\<lambda>(k, b). (k, fg_orders b, fg_ordered b)) (xe_others x) = [(''USD'', 1, 5)] | _ \<Rightarrow> False)"
  by code_simp

text \<open>The originals of a signed contract stay linked, but one retyped as a draft may be unlinked. A line names a product or
  describes what is contracted, and a PATCH takes both away.\<close>

lemma an_original_is_unlinked_in_two_calls:
  "let rg = signed_register in
      (''xxx'' \<in> set (map kd_id (rg_documents rg)) \<and> \<not> is_ok (delete_contract_document rg contract_desk ''xxx'') \<and>
      (case bindE (update_contract_document rg contract_desk ''xxx'' (Some (Some ''draft''))) (\<lambda>rg. delete_contract_document rg contract_desk ''xxx'') of
         Inr rg' \<Rightarrow> ''xxx'' \<notin> set (map kd_id (rg_documents rg')) | Inl _ \<Rightarrow> False)) \<and>
      (case update_contract_item rg contract_desk ''xxxxxx'' \<lparr>kj_line_no = None, kj_product_id = None, kj_description = Some None,
         kj_quantity = None, kj_unit_price = None\<rparr> of
         Inr rg' \<Rightarrow> list_ex (\<lambda>i. ki_id i = ''xxxxxx'' \<and> ki_product_id i = None \<and> ki_description i = None) (rg_items rg') | Inl _ \<Rightarrow> False)"
  by code_simp

lemmas seen = register_seen [unfolded Let_def] saves_seen [unfolded Let_def] report_seen [unfolded Let_def]

lemma empty_register_reads: "reads_back (rg_db empty_register) {}"
  by (auto simp: reads_back_def empty_register_def blank_db_def inj_on_def dest: arg_cong [where f = length])

lemma signed_in_order: "register_in_order signed_register"
  unfolding signed_register_def
  by (rule run_contracts_keeps, rule empty_register_in_order) (use empty_register_reads in \<open>simp_all add: empty_register_def contract_rows_def blank_db_def\<close>)

theorem the_register_stays_in_order_witness:
  "parent_of signed_register ''xxxxx'' = Some ''x'' \<and>
    (\<exists>c \<in> set (contract_rows signed_register). row_id c = ''xxxxx'' \<and>
      (\<exists>q \<in> set (contract_rows signed_register). row_id q = ''x'' \<and> row_side q = row_side c))"
proof
  show parent: "parent_of signed_register ''xxxxx'' = Some ''x''" using seen by blast
  obtain c where c: "c \<in> set (contract_rows signed_register)" "row_id c = ''xxxxx''" using seen(1) by (auto simp: list_ex_iff)
  have "contract_rows empty_register = []" "rg_more empty_register = []" "rg_items empty_register = []" "rg_documents empty_register = []"
    "rg_terms empty_register = []" by (simp_all add: empty_register_def contract_rows_def blank_db_def)
  from the_register_stays_in_order [OF this empty_register_reads, of plain_hash contract_days, folded signed_register_def] c parent
  show "\<exists>c \<in> set (contract_rows signed_register). row_id c = ''xxxxx'' \<and>
      (\<exists>q \<in> set (contract_rows signed_register). row_id q = ''x'' \<and> row_side q = row_side c)" by metis
qed

theorem a_signed_contract_keeps_its_words_witness:
  "\<exists>rg'. contract_step plain_hash 2 signed_register contract_desk spoken = Inr rg' \<and> agreement_kept ''x'' signed_register rg' \<and>
     children_kept spoken signed_register rg'"
proof -
  obtain rg' where step: "contract_step plain_hash 2 signed_register contract_desk spoken = Inr rg'" using seen(1) by (auto simp: is_ok_iff)
  obtain c where c: "c \<in> set (contract_rows signed_register)" "row_id c = ''x''" using seen(1) by (auto simp: list_ex_iff)
  have "agreement_frozen signed_register c = Inr True" using seen(1) c by (simp add: list_all_iff)
  from a_signed_contract_keeps_its_words [OF signed_in_order c(1) this step] step c(2) show ?thesis by auto
qed

subsection \<open>Saves\<close>

theorem a_save_leaves_the_lines_it_names_witness:
  "\<exists>told rg' c. saved signed_register more_crates = Inr (told, rg') \<and> require_contract_access signed_register contract_desk ''xxxxx'' = Inr c \<and>
     (\<forall>line \<in> set (contract_lines signed_register (row_tenant_id c) (row_id c)). ki_id line = ''xxxxxx'' \<longrightarrow>
       (\<exists>line' \<in> set (contract_lines rg' (row_tenant_id c) (row_id c)). ki_id line' = ''xxxxxx'' \<and>
         contract_line_cell line' ''unit_price'' = contract_line_cell line ''unit_price''))"
proof -
  obtain told rg' where step: "saved signed_register more_crates = Inr (told, rg')" using seen(2) by (auto simp: is_ok_iff bindE_Inr_iff)
  from a_save_leaves_the_lines_it_names [OF signed_in_order step [unfolded saved_def]] obtain c where
    c: "require_contract_access signed_register contract_desk ''xxxxx'' = Inr c"
    and stays: "\<forall>row \<in> set more_crates. \<forall>line \<in> set (contract_lines signed_register (row_tenant_id c) (row_id c)). named_line row = Some (ki_id line) \<longrightarrow>
      (\<exists>line' \<in> set (contract_lines rg' (row_tenant_id c) (row_id c)). ki_id line' = ki_id line \<and>
        (\<forall>column. (\<forall>v. (column, v) \<in> set (sl_cells row) \<longrightarrow> v = contract_line_cell line column) \<longrightarrow>
          contract_line_cell line' column = contract_line_cell line column))" by blast
  have row: "hd more_crates \<in> set more_crates" "named_line (hd more_crates) = Some ''xxxxxx''" "\<forall>v. (''unit_price'', v) \<notin> set (sl_cells (hd more_crates))"
    by (simp_all add: more_crates_def named_line_def Actors.given_def)
  have "\<exists>line' \<in> set (contract_lines rg' (row_tenant_id c) (row_id c)). ki_id line' = ''xxxxxx'' \<and>
         contract_line_cell line' ''unit_price'' = contract_line_cell line ''unit_price''"
    if "line \<in> set (contract_lines signed_register (row_tenant_id c) (row_id c))" "ki_id line = ''xxxxxx''" for line
    using bspec [OF bspec [OF stays row(1)] that(1)] row(2,3) that(2) by auto
  with step c show ?thesis by blast
qed

theorem one_save_per_revision_witness:
  "\<exists>told rg1 told' rg2. saved signed_register more_crates = Inr (told, rg1) \<and> saved rg1 also_pallets = Inr (told', rg2) \<and>
     ((\<exists>x y. x \<noteq> y \<and> plain_hash x = plain_hash y) \<or>
      (\<exists>c. require_contract_access signed_register contract_desk ''xxxxx'' = Inr c \<and> require_contract_access rg1 contract_desk ''xxxxx'' = Inr c \<and>
        set (contract_lines rg1 (row_tenant_id c) (row_id c)) = set (contract_lines signed_register (row_tenant_id c) (row_id c))))"
proof -
  obtain told rg1 told' rg2 where steps: "saved signed_register more_crates = Inr (told, rg1)" "saved rg1 also_pallets = Inr (told', rg2)"
    using seen(2) by (auto simp: is_ok_iff bindE_Inr_iff)
  note either = one_save_per_revision [OF steps [unfolded saved_def]]
  show ?thesis by (intro exI conjI, rule steps, rule steps, rule either)
qed

subsection \<open>The report\<close>

theorem money_is_added_in_one_currency_witness:
  "\<exists>x. contract_execution (place_order signed_register) contract_desk ''x'' = Inr x \<and> xe_others x \<noteq> [] \<and> distinct (map fst (xe_others x))"
proof -
  from seen(3) obtain x where x: "contract_execution (place_order signed_register) contract_desk ''x'' = Inr x" and "xe_others x \<noteq> []"
    by (auto split: sum.splits)
  with money_is_added_in_one_currency [OF x] show ?thesis by blast
qed

theorem what_counts_is_what_is_reachable_witness:
  "(\<exists>counted m paid. counted_states blank_db ''t'' ''payment'' = Inr counted \<and> state_for_role m ''payment'' ''paid'' = Inr paid \<and> set counted = {paid}) \<and>
   (\<exists>m anchor counted. counted_states blank_db ''t'' ''invoice'' = Inr counted \<and> state_for_role m ''invoice'' ''issued'' = Inr anchor \<and>
     set counted = {s. (anchor, s) \<in> {(x, y). y \<in> set (dict_get (m_transitions m) x [])}\<^sup>*} - {''void'', ''cancelled''})"
proof -
  have "is_ok (counted_states blank_db ''t'' ''payment'')" "is_ok (counted_states blank_db ''t'' ''invoice'')" by code_simp+
  then obtain paid issued where c: "counted_states blank_db ''t'' ''payment'' = Inr paid" "counted_states blank_db ''t'' ''invoice'' = Inr issued"
    by (auto simp: is_ok_iff)
  from what_counts_is_what_is_reachable [OF c(1)] what_counts_is_what_is_reachable [OF c(2)] c show ?thesis by auto
qed

end
