(* ===== verification/Spec2Isabelle.thy ===== *)
theory Spec2Isabelle
  imports Settlement_Examples Idempotency Login_Throttle Key_Lifecycle Stock_Examples Flow_Examples Approval_Examples
    Names Listing Recipe_Explosion Booking_History Treasury_Examples Handbook_Examples
    Category_History Geography_Examples Contract_Examples
begin

text \<open>
  Oryh is a multi-tenant record layer for a company's documents: a FastAPI application over PostgreSQL
  (\<open>app/\<close>) that people and agents call with API keys, and a runner (\<open>flow_runner/\<close>) that drives documents
  through their approval flows by waking an agent where work waits. This library models the handlers and
  services that decide something; what they only pass on (rendering, wording, transport) is left out.

  \<^bold>\<open>How the program is put together.\<close> A request is authenticated to an \<^emph>\<open>actor\<close> (\<open>app/api/deps.py\<close>), whose
  grants come from the tenant's roles. A handler fetches rows the actor may see (\<open>app/api/visibility.py\<close>),
  checks a permission (\<open>app/core/permissions.py\<close>), changes rows and commits. A document is a row of one of
  sixteen families and moves along its tenant's state machine (\<open>app/services/state_machines.py\<close>); leaving
  for approval it gets an approval trail and todos (\<open>app/api/objects.py\<close>). Documents are charged to and
  settled from billing accounts and payments (\<open>app/api/billing.py\<close>, \<open>app/api/common/charging.py\<close>); goods
  move through stock positions (\<open>app/services/inventory_import.py\<close>, \<open>app/api/master_data.py\<close>,
  \<open>app/api/shipments.py\<close>, \<open>app/api/purchasing.py\<close>). A write may carry an idempotency key
  (\<open>app/core/idempotency.py\<close>). The runner reads its subscriptions through the same API and writes with a
  hosted key that is confined to them (\<open>app/services/flow_subscriptions.py\<close>).

  \<^bold>\<open>Theories, bottom up.\<close>
  \<^item> \<open>Prelude\<close>: handler results (\<open>Inl\<close> an \<open>http_error\<close>, \<open>Inr\<close> an answer), their sequencing, association
    lists as Python dicts. \<open>Text_Ops\<close>: the \<open>str\<close> methods.
  \<^item> \<open>Permissions\<close> (\<open>permissions.py\<close>): capabilities and when a grant covers one. \<open>Machines\<close>
    (\<open>state_machines.py\<close>): validation, defaults, transitions, operations. \<open>Actors\<close> (\<open>deps.py\<close>): the ways to
    be authenticated and the access guards. \<open>Roles\<close> (\<open>roles.py\<close>, \<open>access_guards.py\<close>): role changes.
    \<open>Type_Options\<close>: the vocabularies behind typed columns. \<open>Money\<close> (\<open>line_math.py\<close>): line amounts.
  \<^item> \<open>Store\<close>: the tables as one record \<open>db\<close>; a row of any family is a \<open>row\<close> with its model as a tag.
    \<open>Visibility\<close>, \<open>Charging\<close>, \<open>Documents\<close> (\<open>common/documents.py\<close>, \<open>common/core.py\<close>): who sees what, what may
    be charged, the verbs all families share (submit, move, archive, delete, restore).
  \<^item> \<open>Ledgers\<close>, \<open>Accounts\<close>, \<open>Account_History\<close> (\<open>billing.py\<close>): standing balances, entries, expiring batches.
    \<open>Settlement\<close>, \<open>Settlement_Laws\<close>, \<open>Settlement_Limits\<close>, \<open>Settlement_Examples\<close> (\<open>billing.py\<close>): \<open>apply_payment\<close>.
  \<^item> \<open>Work_Items\<close>, \<open>Approvals\<close> (\<open>objects.py\<close>): todos, bulk assignment, approval facts with their round
    transition. \<open>Approval_Laws\<close>, \<open>Approval_History\<close>, \<open>Batch_Laws\<close>, \<open>Approval_Examples\<close>: what these keep.
  \<^item> \<open>Stock\<close>, \<open>Stock_Import\<close>, \<open>Stock_Objects\<close>: positions, holds, shipment postings, receipts, the stock take,
    postings of a workspace's own documents. \<open>Simulations\<close> (the locale \<open>simulation\<close>), \<open>Stock_Laws\<close>,
    \<open>Stock_History\<close>, \<open>Stock_Examples\<close>: the abstract shelf and the refinement.
  \<^item> \<open>Flow_Subscriptions\<close>, \<open>Flow_Enrolment\<close> (\<open>flow_subscriptions.py\<close>, \<open>flows.py\<close>): the tenant's side of the runner;
    \<open>Flow_Runner\<close>, \<open>Flow_Laws\<close>, \<open>Flow_Stops\<close>, \<open>Flow_Starvation\<close> (\<open>dispatcher.py\<close>): a pass of the runner;
    \<open>Flow_Fleet\<close>, \<open>Flow_Examples\<close> (\<open>bootstrap.py\<close>, \<open>__main__.py\<close>): whom it serves.
  \<^item> \<open>Idempotency\<close> (\<open>idempotency.py\<close>), \<open>Login_Throttle\<close> (\<open>login_throttle.py\<close>), \<open>Key_Lifecycle\<close>
    (\<open>interactive_keys.py\<close>, \<open>auth.py\<close>, \<open>oauth.py\<close>): protocols of many interleaved calls.
  \<^item> \<open>Numbering\<close> (\<open>common/numbering.py\<close>), \<open>Names\<close> (\<open>tenants.py\<close>, \<open>bundles.py\<close>), \<open>Listing\<close>
    (\<open>common/core.py\<close>): document numbers, free names, paged lists.
  \<^item> \<open>Recipes\<close>, \<open>Recipe_Laws\<close>, \<open>Recipe_Save\<close>, \<open>Recipe_History\<close>, \<open>Recipe_Explosion\<close> (\<open>master_data.py\<close>): bills of
    materials, the walk that keeps them free of loops, the save of a whole recipe, the explosion into materials.
  \<^item> \<open>Bookings\<close>, \<open>Booking_History\<close> (\<open>resources.py\<close>): resources, their bookings, the sweep for the peak.
  \<^item> \<open>Treasury\<close>, \<open>Treasury_Laws\<close>, \<open>Treasury_History\<close>, \<open>Treasury_Examples\<close> (\<open>treasury.py\<close>): the cash register, its
    links to payments, the import of statements.
  \<^item> \<open>Handbook\<close>, \<open>Handbook_Laws\<close>, \<open>Handbook_History\<close>, \<open>Handbook_Examples\<close> (\<open>business_rules.py\<close>): the company's
    rules, their versions, publication, repeal and readers.
  \<^item> \<open>Parent_Walks\<close> (the locale \<open>guarded_tree\<close>): rows that name a parent of their own table. \<open>Categories\<close>,
    \<open>Category_History\<close> (\<open>master_data.py\<close>): the catalogue's shelves. \<open>Geography\<close>, \<open>Geography_Laws\<close>,
    \<open>Geography_History\<close>, \<open>Geography_Examples\<close> (\<open>geo.py\<close>): places, territories, whose territory a place is in.
  \<^item> \<open>Restating\<close> (\<open>common/saves.py\<close>; the locale \<open>line_store\<close>): the engine of the whole-document saves. \<open>Contracts\<close>,
    \<open>Contract_Writes\<close>, \<open>Contract_Laws\<close>, \<open>Contract_History\<close>, \<open>Contract_Save\<close>, \<open>Contract_Register\<close>, \<open>Contract_Freeze\<close>,
    \<open>Contract_Execution\<close>, \<open>Contract_Examples\<close> (\<open>contracts.py\<close>, \<open>contract_sides.py\<close>): contracts with their lines, originals and
    clauses, what is fixed once they are signed, what has happened under them.

  \<^bold>\<open>What the lemmas show.\<close> For each component: every guard and error of an operation as an equation; that an
  operation changes only what it is for (\<open>same_but_\<dots>\<close> and \<open>keeps_\<dots>\<close> lemmas); an invariant of single calls;
  and, over an \<open>inductive\<close> or \<open>fun\<close> history of all calls that write the same tables, the properties of the
  manifest: balances and settled amounts are the sums of their ledgers and inside their limits, stock refines
  a shelf, one decision per step and one open todo per person and record, a key writes once within its day, a refresh token
  is exchanged again only within a grace, queues get their turn and stuck ones stop costing, no product is made of itself, no instant
  of a resource is overbooked.

  \<^bold>\<open>Interfaces.\<close> \<open>grant_check\<close> (a permission test that only grows with the grants) is interpreted on the three
  ways the code asks for a capability; \<open>lifecycle\<close> (moves inside a set of states) on every accepted state machine;
  \<open>keyed_table\<close> (rows read and changed by id) on the document tables; \<open>running_total\<close> (a stored sum next to its
  ledger) on account balances, cash balances and settled amounts; \<open>simulation\<close> (handlers against an abstract machine) on the
  stock handlers and the shelf; \<open>guarded_tree\<close> (a check that refuses a parent from below) on categories, places
  and supplements; \<open>line_store\<close> (what a family does to a document's lines) on the lines of contracts and of draft recipes.

  \<^bold>\<open>Parameters.\<close> What is not under \<open>src/\<close>, or is a secret or the environment's, is an argument:
  \<open>digest\<close> and \<open>digest6\<close> (SHA-256), drawn secrets and random suffixes, \<open>now\<close>, the ids a new row gets (\<open>db_uuids\<close>),
  PostgreSQL's reading of a uuid literal (\<open>db_uuid_in\<close>), \<open>isoformat\<close>, the agent and the network
  (\<open>surroundings\<close>, \<open>outside\<close>), the brand setting. Hypotheses about them say documented behaviour only (fresh
  ids, no collision of digests) and each property with one has a witness on a concrete instance.

  \<^bold>\<open>Choices.\<close>
  \<^item> \<open>Decimal\<close>, \<open>NUMERIC\<close> and \<open>float\<close> quantities are rationals; a stored NUMERIC(12,2) is rounded where the column
    stores it. Column widths are not modelled.
  \<^item> A handler is one transaction, and transactions run one at a time, which is what the row locks of the code are for.
    Where the code commits in between, or a claim is about interleaving (idempotency, login, keys, the runner), the
    steps are separate and interleave freely: a refresh of a key, which locks nothing, is a look-up and a commit. Where a
    handler reads a row before the lock or takes none, what is proved of calls one at a time can fail of calls that overlap.
    Its definition is then in two parts and a lemma shows it: \<open>overlapping_changes_overbook\<close> (a booking is read before its
    resource is locked), \<open>overlapping_publications_meet_the_index\<close> (a publication locks nothing),
    \<open>overlapping_refreshes_all_succeed\<close>.
  \<^item> An id in a request may be spelled in any way the database reads (\<open>db_uuid_in\<close>), and quantities are as fine as the schema
    admits. A property that needs ids spelled as the database prints them, or whole cents, says so; the lemmas
    \<open>two_spellings_\<dots>\<close>, \<open>half_cent_\<dots>\<close>, \<open>fine_\<dots>\<close> and \<open>a_respelled_\<dots>\<close> show what goes wrong otherwise.
  \<^item> The session does not autoflush: a query sees what was flushed. Where a handler relies on that the model
    keeps the flushed rows (\<open>stored\<close>) apart from the session's.
  \<^item> A unique index or check is a branch to \<open>IntegrityError\<close> (500) or to the 409 the code maps it to.
  \<^item> \<open>max(text)\<close> and \<open>ORDER BY\<close> on text compare as the C collation does.
  \<^item> Unbounded loops are \<open>function\<close>s with a proved measure (the slug and name searches, the walks of recipes, parents and states), loops with a bound
    keep it (100 probes for a number). There is no fuel in the development.

  \<^bold>\<open>Not modelled.\<close> The frontend and the server-rendered pages; database migrations; the MCP, OAuth and device
  endpoints beyond key issuing; skill authoring and the bundle archive; emails and notifications; the
  provisioning of a workspace's catalogue; the bulk imports of master data and documents; the handlers of
  sales, CRM, purchasing, people and activities beyond the shared document verbs; pricing.
  The manifest names each with its reason.
\<close>

end
